(* ===== verification/Prelude.thy ===== *)
theory Prelude
  imports Complex_Main "HOL-Library.AList" "HOL-Library.Multiset"
begin

text \<open>
  Shared vocabulary of the development: the JavaScript array, map and set operations the
  sources use (\<open>findIndex\<close>, \<open>slice\<close>, \<open>splice\<close>, indexing that yields \<open>undefined\<close>, insertion
  ordered \<open>Map\<close>, \<open>new Set(ids)\<close>), half-open time intervals, and the list lemmas the component
  theories rest on. A JavaScript \<open>number\<close> that the sources keep integral is an \<open>int\<close>; a fractional
  one is a \<open>rat\<close> (exact arithmetic); \<open>null\<close> and \<open>undefined\<close> are \<open>None\<close>.
\<close>

named_theorems js_defs \<open>unfolding rules of the JavaScript list and map operations\<close>
named_theorems wf_intros \<open>introduction rules of the well-formedness invariants\<close>

type_synonym uuid = string
type_synonym media_time = int

datatype js_error = Thrown string

datatype js_number = Fin rat | PosInfinity | NegInfinity | NaN

section \<open>Arrays\<close>

text \<open>\<open>xs.findIndex(P)\<close>, with \<open>None\<close> for \<open>-1\<close>.\<close>

fun findIndex :: "('a \<Rightarrow> bool) \<Rightarrow> 'a list \<Rightarrow> nat option" where
  "findIndex P [] = None"
| "findIndex P (x # xs) = (if P x then Some 0 else map_option Suc (findIndex P xs))"

text \<open>\<open>xs[i]\<close>: \<open>undefined\<close> outside the array, negative indices included.\<close>

definition js_at :: "'a list \<Rightarrow> int \<Rightarrow> 'a option" where
  [js_defs]: "js_at xs i = (if 0 \<le> i \<and> i < int (length xs) then Some (xs ! nat i) else None)"

text \<open>The position \<open>slice\<close> and \<open>splice\<close> make of an index: negative ones count from the end.\<close>

definition slice_pos :: "'a list \<Rightarrow> int \<Rightarrow> nat" where
  [js_defs]: "slice_pos xs i =
     (if i < 0 then nat (max 0 (int (length xs) + i)) else min (nat i) (length xs))"

definition insert_at :: "'a list \<Rightarrow> int \<Rightarrow> 'a \<Rightarrow> 'a list" where
  [js_defs]: "insert_at xs i x = take (slice_pos xs i) xs @ x # drop (slice_pos xs i) xs"

text \<open>\<open>[...new Set(xs)]\<close>: the first occurrence of each value, in order.\<close>

fun dedupe_from :: "'a list \<Rightarrow> 'a list \<Rightarrow> 'a list" where
  "dedupe_from seen [] = []"
| "dedupe_from seen (x # xs) =
     (if x \<in> set seen then dedupe_from seen xs else x # dedupe_from (x # seen) xs)"

definition dedupe :: "'a list \<Rightarrow> 'a list" where
  "dedupe xs = dedupe_from [] xs"

text \<open>The elements of \<open>xs\<close> whose key is met for the first time (a \<open>Set\<close> of seen keys).\<close>

fun first_by :: "('a \<Rightarrow> 'k) \<Rightarrow> 'k list \<Rightarrow> 'a list \<Rightarrow> 'a list" where
  "first_by f seen [] = []"
| "first_by f seen (x # xs) =
     (if f x \<in> set seen then first_by f seen xs else x # first_by f (f x # seen) xs)"

lemma findIndex_Some_iff:
  "findIndex P xs = Some i \<longleftrightarrow> i < length xs \<and> P (xs ! i) \<and> (\<forall>j < i. \<not> P (xs ! j))"
proof (induction xs arbitrary: i)
  case Nil
  then show ?case by simp
next
  case (Cons x xs)
  then show ?case by (cases i) (auto simp: nth_Cons less_Suc_eq_0_disj split: nat.splits)
qed

lemma findIndex_None_iff: "findIndex P xs = None \<longleftrightarrow> (\<forall>x \<in> set xs. \<not> P x)"
  by (induction xs) auto

lemma findIndexD:
  assumes "findIndex P xs = Some i"
  shows "i < length xs" and "P (xs ! i)" and "xs ! i \<in> set xs"
  using assms by (auto simp: findIndex_Some_iff)

lemma find_findIndex: "find P xs = map_option (\<lambda>i. xs ! i) (findIndex P xs)"
  by (induction xs) (auto simp: option.map_comp o_def)

lemma find_Some_setD: "find P xs = Some x \<Longrightarrow> x \<in> set xs \<and> P x"
  by (auto simp: find_Some_iff)

lemma js_at_Some: "js_at xs i = Some x \<Longrightarrow> x \<in> set xs \<and> 0 \<le> i \<and> i < int (length xs)"
  by (auto simp: js_at_def split: if_splits)

lemma js_at_nth [simp]: "i < length xs \<Longrightarrow> js_at xs (int i) = Some (xs ! i)"
  by (simp add: js_at_def)

lemma slice_pos_le: "slice_pos xs i \<le> length xs"
  by (auto simp: slice_pos_def)

lemma set_insert_at [simp]: "set (insert_at xs i x) = insert x (set xs)"
proof -
  have "set (take n xs) \<union> set (drop n xs) = set xs" for n
    by (metis append_take_drop_id set_append)
  then show ?thesis by (auto simp: insert_at_def)
qed

lemma length_insert_at [simp]: "length (insert_at xs i x) = Suc (length xs)"
  using slice_pos_le [of xs i] by (simp add: insert_at_def)

lemma map_insert_at: "map f (insert_at xs i x) = insert_at (map f xs) i (f x)"
  by (simp add: insert_at_def slice_pos_def take_map drop_map)

lemma mset_insert_at [simp]: "mset (insert_at xs i x) = add_mset x (mset xs)"
proof -
  have "mset (take n xs) + mset (drop n xs) = mset xs" for n
    by (metis append_take_drop_id mset_append)
  then show ?thesis by (simp add: insert_at_def)
qed

lemma distinct_insert_at: "distinct (insert_at xs i x) \<longleftrightarrow> distinct xs \<and> x \<notin> set xs"
proof -
  have "mset (insert_at xs i x) = mset (x # xs)" by simp
  then have "distinct (insert_at xs i x) = distinct (x # xs)" by (rule mset_eq_imp_distinct_iff)
  then show ?thesis by auto
qed

lemma filter_insert_at_neg: "\<not> P x \<Longrightarrow> filter P (insert_at xs i x) = filter P xs"
proof -
  assume "\<not> P x"
  then have "filter P (insert_at xs i x)
      = filter P (take (slice_pos xs i) xs @ drop (slice_pos xs i) xs)"
    unfolding insert_at_def filter_append by simp
  then show ?thesis by simp
qed

lemma set_dedupe_from: "set (dedupe_from seen xs) = set xs - set seen"
  by (induction seen xs rule: dedupe_from.induct) auto

lemma distinct_dedupe_from: "distinct (dedupe_from seen xs)"
  by (induction seen xs rule: dedupe_from.induct) (auto simp: set_dedupe_from)

lemma set_dedupe [simp]: "set (dedupe xs) = set xs"
  by (simp add: dedupe_def set_dedupe_from)

lemma distinct_dedupe [simp]: "distinct (dedupe xs)"
  by (simp add: dedupe_def distinct_dedupe_from)

lemma dedupe_from_id: "distinct xs \<Longrightarrow> set xs \<inter> set seen = {} \<Longrightarrow> dedupe_from seen xs = xs"
  by (induction seen xs rule: dedupe_from.induct) auto

lemma dedupe_id: "distinct xs \<Longrightarrow> dedupe xs = xs"
  by (simp add: dedupe_def dedupe_from_id)

lemma set_map_first_by: "f ` set (first_by f seen xs) = f ` set xs - set seen"
  by (induction f seen xs rule: first_by.induct) auto

lemma distinct_first_by: "distinct (map f (first_by f seen xs))"
  by (induction f seen xs rule: first_by.induct) (auto simp: set_map_first_by)

lemma first_by_subset: "set (first_by f seen xs) \<subseteq> set xs"
  by (induction f seen xs rule: first_by.induct) auto

section \<open>Insertion-ordered maps\<close>

text \<open>
  A JavaScript \<open>Map\<close> is an association list: \<open>get\<close> is \<open>map_of\<close>, \<open>set\<close> is \<open>AList.update\<close> (in place,
  or appended). The sources group items by a key with
  \<open>const ys = m.get(k) ?? []; ys.push(x); m.set(k, ys)\<close>.
\<close>

fun group_into :: "('a \<Rightarrow> 'k) \<Rightarrow> ('k \<times> 'a list) list \<Rightarrow> 'a list \<Rightarrow> ('k \<times> 'a list) list" where
  "group_into f m [] = m"
| "group_into f m (x # xs) =
     group_into f (AList.update (f x) ((case map_of m (f x) of None \<Rightarrow> [] | Some ys \<Rightarrow> ys) @ [x]) m) xs"

definition group_by :: "('a \<Rightarrow> 'k) \<Rightarrow> 'a list \<Rightarrow> ('k \<times> 'a list) list" where
  "group_by f xs = group_into f [] xs"

lemma map_of_group_into:
  "map_of (group_into f m xs) k =
     (if (\<exists>x \<in> set xs. f x = k) \<or> k \<in> fst ` set m
      then Some ((case map_of m k of None \<Rightarrow> [] | Some ys \<Rightarrow> ys) @ filter (\<lambda>x. f x = k) xs)
      else None)"
proof (induction f m xs rule: group_into.induct)
  case (1 f m)
  then show ?case by (auto simp: map_of_eq_None_iff split: option.splits)
next
  case (2 f m x xs)
  then show ?case
    by (cases "f x = k") (auto simp: update_conv' dom_update split: option.splits)
qed

lemma map_of_group_by:
  "map_of (group_by f xs) k = (if \<exists>x \<in> set xs. f x = k then Some (filter (\<lambda>x. f x = k) xs) else None)"
  by (simp add: group_by_def map_of_group_into)

lemma distinct_group_into: "distinct (map fst m) \<Longrightarrow> distinct (map fst (group_into f m xs))"
  by (induction f m xs rule: group_into.induct) (simp_all add: distinct_update)

lemma distinct_group_by: "distinct (map fst (group_by f xs))"
  by (simp add: group_by_def distinct_group_into)

lemma in_group_by:
  "(k, ys) \<in> set (group_by f xs) \<longleftrightarrow> (\<exists>x \<in> set xs. f x = k) \<and> ys = filter (\<lambda>x. f x = k) xs"
proof -
  have "(k, ys) \<in> set (group_by f xs) \<longleftrightarrow> map_of (group_by f xs) k = Some ys"
    using distinct_group_by [of f xs] by simp
  then show ?thesis by (auto simp: map_of_group_by)
qed

text \<open>\<open>new Map(pairs)\<close>: later pairs overwrite earlier ones in place.\<close>

definition js_map :: "('k \<times> 'v) list \<Rightarrow> ('k \<times> 'v) list" where
  "js_map ps = fold (\<lambda>(k, v). AList.update k v) ps []"

lemma fold_update_distinct:
  "distinct (map fst (m @ ps)) \<Longrightarrow> fold (\<lambda>(k, v). AList.update k v) ps m = m @ ps"
proof (induction ps arbitrary: m)
  case (Cons p ps)
  obtain k v where p: "p = (k, v)" by fastforce
  have "AList.update k v m = m @ [(k, v)]" if "k \<notin> fst ` set m" for m :: "('a \<times> 'b) list"
    using that by (induction m) auto
  then show ?case using Cons by (simp add: p)
qed simp

lemma js_map_distinct: "distinct (map fst ps) \<Longrightarrow> js_map ps = ps"
  using fold_update_distinct [of "[]" ps] by (simp add: js_map_def)

section \<open>Keyed collections\<close>

text \<open>
  Tracks, elements, scenes and keyframes are all arrays addressed by an identifier, updated by
  \<open>xs.map(x => x.id === k ? f(x) : x)\<close>. The interface: a key function that updates keep.
\<close>

definition update_by :: "('a \<Rightarrow> 'k) \<Rightarrow> 'k \<Rightarrow> ('a \<Rightarrow> 'a) \<Rightarrow> 'a list \<Rightarrow> 'a list" where
  [js_defs]: "update_by key k f xs = map (\<lambda>x. if key x = k then f x else x) xs"

definition lookup_by :: "('a \<Rightarrow> 'k) \<Rightarrow> 'k \<Rightarrow> 'a list \<Rightarrow> 'a option" where
  [js_defs]: "lookup_by key k xs = find (\<lambda>x. key x = k) xs"

lemma update_by_append: "update_by key k f (xs @ ys) = update_by key k f xs @ update_by key k f ys"
  by (simp add: update_by_def)

lemma update_by_Cons:
  "update_by key k f (x # xs) = (if key x = k then f x else x) # update_by key k f xs"
  by (simp add: update_by_def)

lemma update_by_id: "k \<notin> key ` set xs \<Longrightarrow> update_by key k f xs = xs"
  by (induction xs) (auto simp: update_by_def)

lemma find_append: "find P (xs @ ys) = (case find P xs of None \<Rightarrow> find P ys | Some x \<Rightarrow> Some x)"
  by (induction xs) auto

locale keyed_collection =
  fixes key :: "'a \<Rightarrow> 'k"
    and upd :: "('a \<Rightarrow> 'a) \<Rightarrow> bool"
  assumes upd_key: "upd f \<Longrightarrow> key (f x) = key x"
begin

lemma keys_update: "upd f \<Longrightarrow> map key (update_by key k f xs) = map key xs"
  by (induction xs) (auto simp: update_by_def upd_key)

lemma lookup_update_same:
  "upd f \<Longrightarrow> lookup_by key k (update_by key k f xs) = map_option f (lookup_by key k xs)"
  by (induction xs) (auto simp: update_by_def lookup_by_def upd_key)

lemma lookup_update_other:
  "upd f \<Longrightarrow> k' \<noteq> k \<Longrightarrow> lookup_by key k' (update_by key k f xs) = lookup_by key k' xs"
  by (induction xs) (auto simp: update_by_def lookup_by_def upd_key)

lemma lookup_Some: "lookup_by key k xs = Some x \<Longrightarrow> x \<in> set xs \<and> key x = k"
  unfolding lookup_by_def by (drule find_Some_setD) simp

lemma lookup_None: "lookup_by key k xs = None \<longleftrightarrow> k \<notin> key ` set xs"
  by (induction xs) (auto simp: lookup_by_def)

lemma lookup_distinct: "distinct (map key xs) \<Longrightarrow> x \<in> set xs \<Longrightarrow> lookup_by key (key x) xs = Some x"
  by (induction xs) (auto simp: lookup_by_def image_iff)

end

section \<open>Half-open intervals\<close>

abbreviation span_disjoint :: "int \<Rightarrow> int \<Rightarrow> int \<Rightarrow> int \<Rightarrow> bool" where
  "span_disjoint s e s' e' \<equiv> e \<le> s' \<or> e' \<le> s"

text \<open>Pairwise relations over lists: adjacent checks suffice for a transitive one.\<close>

lemma sorted_wrt_filter: "sorted_wrt R xs \<Longrightarrow> sorted_wrt R (filter P xs)"
  by (induction xs) auto

lemma sorted_wrt_map_mono:
  "sorted_wrt R xs \<Longrightarrow> (\<And>x y. x \<in> set xs \<Longrightarrow> y \<in> set xs \<Longrightarrow> R x y \<Longrightarrow> S (f x) (f y)) \<Longrightarrow>
   sorted_wrt S (map f xs)"
  by (induction xs) auto

text \<open>A symmetric pairwise property does not depend on the order of the list.\<close>

definition pairwise_list :: "('a \<Rightarrow> 'a \<Rightarrow> bool) \<Rightarrow> 'a list \<Rightarrow> bool" where
  "pairwise_list R xs \<longleftrightarrow> (\<forall>i < length xs. \<forall>j < i. R (xs ! j) (xs ! i))"

lemma pairwise_list_sorted_wrt: "pairwise_list R xs = sorted_wrt R xs"
  by (auto simp: pairwise_list_def sorted_wrt_iff_nth_less)

lemma sorted_wrt_mset_eq:
  assumes sym: "\<And>x y. R x y \<Longrightarrow> R y x" and "mset xs = mset ys"
  shows "sorted_wrt R xs = sorted_wrt R ys"
proof -
  have imp: "sorted_wrt R ys" if "sorted_wrt R xs" "mset xs = mset ys" for xs ys :: "'a list"
    using that
  proof (induction xs arbitrary: ys)
    case Nil
    then show ?case by simp
  next
    case (Cons x xs)
    then have "x \<in> set ys" by (metis list.set_intros(1) set_mset_mset)
    then obtain as bs where ys: "ys = as @ x # bs" by (meson split_list)
    with Cons.prems have m: "mset xs = mset (as @ bs)" by simp
    with Cons have "sorted_wrt R (as @ bs)" by simp
    moreover have "\<forall>y \<in> set (as @ bs). R x y"
      using Cons.prems(1) m by (metis list.simps(15) set_mset_mset sorted_wrt.simps(2))
    ultimately show ?case using sym by (auto simp: ys sorted_wrt_append)
  qed
  then show ?thesis using assms(2) by metis
qed

section \<open>Sorting with a comparator\<close>

text \<open>\<open>a.localeCompare(b)\<close>, which depends on the language of the browser, is a parameter of this type.\<close>

type_synonym locale_order = "string \<Rightarrow> string \<Rightarrow> int"

text \<open>\<open>xs.sort(cmp)\<close>, which is stable.\<close>

fun insert_by :: "('a \<Rightarrow> 'a \<Rightarrow> rat) \<Rightarrow> 'a \<Rightarrow> 'a list \<Rightarrow> 'a list" where
  "insert_by cmp x [] = [x]"
| "insert_by cmp x (y # ys) = (if cmp x y \<le> 0 then x # y # ys else y # insert_by cmp x ys)"

definition js_sort :: "('a \<Rightarrow> 'a \<Rightarrow> rat) \<Rightarrow> 'a list \<Rightarrow> 'a list" where
  "js_sort cmp xs = foldr (insert_by cmp) xs []"

text \<open>\<open>a || b\<close> on numbers.\<close>

definition or_else :: "rat \<Rightarrow> rat \<Rightarrow> rat" where
  "or_else a b = (if a \<noteq> 0 then a else b)"

lemma mset_insert_by [simp]: "mset (insert_by cmp x ys) = add_mset x (mset ys)"
  by (induction ys) auto

lemma mset_js_sort [simp]: "mset (js_sort cmp xs) = mset xs"
  by (induction xs) (auto simp: js_sort_def)

lemma set_js_sort [simp]: "set (js_sort cmp xs) = set xs"
  using mset_js_sort by (metis set_mset_mset)

lemma js_sort_eq_Nil [simp]: "js_sort cmp xs = [] \<longleftrightarrow> xs = []"
  by (metis mset_js_sort mset_zero_iff)

lemma length_js_sort [simp]: "length (js_sort cmp xs) = length xs"
  by (metis mset_js_sort size_mset)

end
