(* ===== verification/Undo_Stack.thy ===== *)
theory Undo_Stack
  imports Prelude
begin

text \<open>
  The contract of undoable steps: a step carries what it needs to restore the view of the state it
  started in, from any state of the same frame (whatever later steps, ripple and reactors did inside
  that frame). A sequence of such steps is undone by undoing each, last first; this serves the batch
  command as well as the history of the command manager.
\<close>

text \<open>A run of steps, each with the state it leads to.\<close>

fun run_of :: "('s \<Rightarrow> 'c \<Rightarrow> bool) \<Rightarrow> ('s \<Rightarrow> 's \<Rightarrow> bool) \<Rightarrow> 's \<Rightarrow> ('c \<times> 's) list \<Rightarrow> bool" where
  "run_of restores frame s [] = True"
| "run_of restores frame s ((c, s') # steps) = (restores s c \<and> frame s s' \<and> run_of restores frame s' steps)"

locale undo_stack =
  fixes undo :: "'c \<Rightarrow> 's \<Rightarrow> 's"
    and view :: "'s \<Rightarrow> 'v"
    and frame :: "'s \<Rightarrow> 's \<Rightarrow> bool"
    and restores :: "'s \<Rightarrow> 'c \<Rightarrow> bool"
  assumes frame_sym: "frame s s' \<Longrightarrow> frame s' s"
    and frame_trans: "frame s s' \<Longrightarrow> frame s' s'' \<Longrightarrow> frame s s''"
    and frame_view: "view s = view s' \<Longrightarrow> frame s s'"
    and restores_undo: "restores s c \<Longrightarrow> frame s s' \<Longrightarrow> view (undo c s') = view s"
begin

lemma undo_run:
  "run_of restores frame s steps \<Longrightarrow> steps \<noteq> [] \<Longrightarrow> frame s s'' \<Longrightarrow> view (foldr undo (map fst steps) s'') = view s"
proof (induction steps arbitrary: s)
  case (Cons step steps)
  obtain c s' where step: "step = (c, s')" by fastforce
  have c: "restores s c" "frame s s'" and r: "run_of restores frame s' steps" using Cons.prems(1) by (auto simp: step)
  show ?case
  proof (cases "steps = []")
    case True
    then show ?thesis using restores_undo [OF c(1) Cons.prems(3)] by (simp add: step)
  next
    case False
    have "frame s' s''" using frame_trans [OF frame_sym [OF c(2)] Cons.prems(3)] .
    from Cons.IH [OF r False this] have "frame s' (foldr undo (map fst steps) s'')" by (intro frame_view) simp
    then have "frame s (foldr undo (map fst steps) s'')" by (rule frame_trans [OF c(2)])
    then show ?thesis using restores_undo [OF c(1)] by (simp add: step)
  qed
qed simp

text \<open>From the last state of the run itself, the run may be empty.\<close>

lemma undo_run_last:
  assumes "run_of restores frame s steps" "view s'' = view (last (s # map snd steps))"
  shows "view (foldr undo (map fst steps) s'') = view s"
proof (cases "steps = []")
  case False
  have "frame s (last (s # map snd steps))" if "run_of restores frame s steps" for s steps
    using that
  proof (induction steps arbitrary: s)
    case Nil
    show ?case using frame_view by simp
  next
    case (Cons step steps)
    then show ?case by (cases step) (auto intro: frame_trans)
  qed
  from frame_trans [OF this [OF assms(1)] frame_view [OF assms(2) [symmetric]]] show ?thesis
    by (rule undo_run [OF assms(1) False])
qed (use assms in simp)

end

end
