(* ===== verification/Media_Time.thy ===== *)
theory Media_Time
  imports Prelude
begin

text \<open>
  Integer-tick time (\<open>wasm/media-time.ts\<close>) and constant-rate retiming (\<open>retime/\<close>). A \<open>MediaTime\<close>
  is an \<open>int\<close>; the functions of the \<open>opencut-wasm\<close> package, which is not part of the repository,
  are the fields of the parameter record \<open>wasm_api\<close>. Rates and the fractional products of a time
  with a rate are rationals, so the floating-point rounding of \<open>*\<close> and \<open>/\<close> is not modelled; every
  conversion back to ticks goes through \<open>roundMediaTime\<close>, which is.
\<close>

section \<open>The time lattice\<close>

record frame_rate =
  numerator :: int
  denominator :: int

text \<open>What the sources call of \<open>opencut-wasm\<close>; \<open>None\<close> is \<open>undefined\<close>. The last three fields are the colour
  conversions built on the package \<open>culori\<close> (a colour as its linear components, and back) and the cosine and sine the
  engine computes for an angle in degrees.\<close>

record wasm_api =
  ticksPerSecond :: int
  lastFrameTime_w :: "media_time \<Rightarrow> frame_rate \<Rightarrow> media_time option"
  mediaTimeFromSeconds_w :: "rat \<Rightarrow> media_time option"
  roundToFrame_w :: "media_time \<Rightarrow> frame_rate \<Rightarrow> media_time option"
  snappedSeekTime_w :: "media_time \<Rightarrow> media_time \<Rightarrow> frame_rate \<Rightarrow> media_time option"
  parseColor_w :: "string \<Rightarrow> (rat \<times> rat \<times> rat \<times> rat) option"
  formatColor_w :: "rat \<times> rat \<times> rat \<times> rat \<Rightarrow> string"
  cos_sin_w :: "rat \<Rightarrow> rat \<times> rat"

definition ZERO_MEDIA_TIME :: media_time where
  [simp]: "ZERO_MEDIA_TIME = 0"

text \<open>
  \<open>mediaTime\<close> throws on a fractional tick count unless the build is a production build. The
  result is the branded number itself.
\<close>

definition mediaTime :: "bool \<Rightarrow> rat \<Rightarrow> js_error + rat" where
  "mediaTime production ticks =
     (if \<not> production \<and> ticks \<notin> \<int> then Inl (Thrown ''mediaTime() requires an integer tick count'')
      else Inr ticks)"

text \<open>\<open>Math.round\<close> rounds half up, towards plus infinity.\<close>

definition math_round :: "rat \<Rightarrow> int" where
  "math_round x = \<lfloor>x + 1 / 2\<rfloor>"

definition roundMediaTime :: "rat \<Rightarrow> media_time" where
  "roundMediaTime t =
     (let roundedMagnitude = math_round \<bar>t\<bar>
      in if roundedMagnitude = 0 then 0
         else if t < 0 then - roundedMagnitude else roundedMagnitude)"

definition mediaTimeFromSeconds :: "wasm_api \<Rightarrow> rat \<Rightarrow> js_error + media_time" where
  "mediaTimeFromSeconds w seconds =
     (case mediaTimeFromSeconds_w w seconds of
        None \<Rightarrow> Inl (Thrown ''mediaTimeFromSeconds: rust returned undefined'')
      | Some t \<Rightarrow> Inr t)"

definition addMediaTime :: "media_time \<Rightarrow> media_time \<Rightarrow> media_time" where
  [simp]: "addMediaTime a b = a + b"

definition subMediaTime :: "media_time \<Rightarrow> media_time \<Rightarrow> media_time" where
  [simp]: "subMediaTime a b = a - b"

definition maxMediaTime :: "media_time \<Rightarrow> media_time \<Rightarrow> media_time" where
  "maxMediaTime a b = (if a > b then a else b)"

definition minMediaTime :: "media_time \<Rightarrow> media_time \<Rightarrow> media_time" where
  "minMediaTime a b = (if a < b then a else b)"

definition clampMediaTime :: "media_time \<Rightarrow> media_time \<Rightarrow> media_time \<Rightarrow> media_time" where
  "clampMediaTime t lo hi = (if t < lo then lo else if t > hi then hi else t)"

definition roundFrameTime :: "wasm_api \<Rightarrow> media_time \<Rightarrow> frame_rate \<Rightarrow> media_time" where
  "roundFrameTime w t fps = (case roundToFrame_w w t fps of None \<Rightarrow> t | Some r \<Rightarrow> r)"

definition roundFrameTicks :: "wasm_api \<Rightarrow> media_time \<Rightarrow> frame_rate \<Rightarrow> media_time" where
  "roundFrameTicks w ticks fps = (case roundToFrame_w w ticks fps of None \<Rightarrow> ticks | Some r \<Rightarrow> r)"

definition snapSeekMediaTime ::
    "wasm_api \<Rightarrow> media_time \<Rightarrow> media_time \<Rightarrow> frame_rate \<Rightarrow> media_time" where
  "snapSeekMediaTime w t dur fps =
     (case snappedSeekTime_w w t dur fps of None \<Rightarrow> t | Some r \<Rightarrow> r)"

definition lastFrameMediaTime :: "wasm_api \<Rightarrow> media_time \<Rightarrow> frame_rate \<Rightarrow> media_time" where
  "lastFrameMediaTime w dur fps = (case lastFrameTime_w w dur fps of None \<Rightarrow> dur | Some r \<Rightarrow> r)"

lemma maxMediaTime_max [simp]: "maxMediaTime a b = max a b"
  by (simp add: maxMediaTime_def max_def)

lemma minMediaTime_min [simp]: "minMediaTime a b = min a b"
  by (simp add: minMediaTime_def min_def)

lemma mediaTime_int [simp]: "mediaTime production (of_int n) = Inr (of_int n)"
  by (simp add: mediaTime_def)

lemma math_round_of_int [simp]: "math_round (of_int n) = n"
  by (simp add: math_round_def floor_eq_iff)

lemma math_round_0 [simp]: "math_round 0 = 0"
  using math_round_of_int [of 0] by simp

lemma math_round_mono: "x \<le> y \<Longrightarrow> math_round x \<le> math_round y"
  by (simp add: math_round_def floor_mono)

lemma math_round_nonneg: "0 \<le> x \<Longrightarrow> 0 \<le> math_round x"
  using math_round_mono [of 0 x] math_round_of_int [of 0] by simp

lemma math_round_error: "\<bar>of_int (math_round x) - x\<bar> \<le> 1 / 2"
  unfolding math_round_def by linarith

lemma roundMediaTime_nonneg: "0 \<le> x \<Longrightarrow> roundMediaTime x = math_round x"
  by (simp add: roundMediaTime_def Let_def)

lemma roundMediaTime_uminus: "roundMediaTime (- x) = - roundMediaTime x"
  by (auto simp: roundMediaTime_def Let_def)

lemma roundMediaTime_cases:
  obtains "0 \<le> x" "roundMediaTime x = math_round x"
  | "x < 0" "roundMediaTime x = - math_round (- x)"
proof (cases "0 \<le> x")
  case True
  then show ?thesis using that(1) roundMediaTime_nonneg by blast
next
  case False
  then have "roundMediaTime (- x) = math_round (- x)" by (simp add: roundMediaTime_nonneg)
  with False show ?thesis using that(2) roundMediaTime_uminus [of x] by simp
qed

lemma roundMediaTime_of_int [simp]: "roundMediaTime (of_int n) = n"
proof (cases "0 \<le> n")
  case True
  then show ?thesis by (simp add: roundMediaTime_nonneg)
next
  case False
  have "roundMediaTime (- of_int (- n)) = - roundMediaTime (of_int (- n))"
    by (rule roundMediaTime_uminus)
  moreover have "roundMediaTime (of_int (- n)) = - n"
    using False roundMediaTime_nonneg [of "of_int (- n)"] math_round_of_int [of "- n"] by simp
  ultimately show ?thesis by simp
qed

lemma roundMediaTime_ge_0: "0 \<le> x \<Longrightarrow> 0 \<le> roundMediaTime x"
  by (simp add: roundMediaTime_nonneg math_round_nonneg)

lemma roundMediaTime_error: "\<bar>of_int (roundMediaTime x) - x\<bar> \<le> 1 / 2"
proof (cases x rule: roundMediaTime_cases)
  case 1
  then show ?thesis using math_round_error [of x] by simp
next
  case 2
  then show ?thesis using math_round_error [of "- x"] unfolding 2(2) of_int_minus by linarith
qed

lemma roundMediaTime_mono: "x \<le> y \<Longrightarrow> roundMediaTime x \<le> roundMediaTime y"
proof (cases x rule: roundMediaTime_cases)
  case 1
  moreover assume "x \<le> y"
  ultimately show ?thesis by (simp add: roundMediaTime_nonneg math_round_mono)
next
  case 2
  assume "x \<le> y"
  show ?thesis
  proof (cases y rule: roundMediaTime_cases)
    case 1
    with 2 show ?thesis using math_round_nonneg [of "- x"] math_round_nonneg [of y] by simp
  next
    case y: 2
    with 2 \<open>x \<le> y\<close> show ?thesis using math_round_mono [of "- y" "- x"] by simp
  qed
qed

lemma clampMediaTime_bounds:
  "lo \<le> hi \<Longrightarrow> lo \<le> clampMediaTime t lo hi \<and> clampMediaTime t lo hi \<le> hi"
  by (auto simp: clampMediaTime_def)

lemma clampMediaTime_id: "lo \<le> t \<Longrightarrow> t \<le> hi \<Longrightarrow> clampMediaTime t lo hi = t"
  by (simp add: clampMediaTime_def)

section \<open>Retiming\<close>

record retime_config =
  rate :: js_number
  maintainPitch :: "bool option"

definition DEFAULT_RETIME_RATE :: rat where "DEFAULT_RETIME_RATE = 1"
definition MIN_RETIME_RATE :: rat where "MIN_RETIME_RATE = 1 / 100"
definition MAX_RETIME_RATE :: rat where "MAX_RETIME_RATE = 5"

definition clampRetimeRate :: "js_number \<Rightarrow> rat" where
  "clampRetimeRate r =
     (case r of
        Fin x \<Rightarrow> (if x \<le> 0 then DEFAULT_RETIME_RATE else min (max x MIN_RETIME_RATE) MAX_RETIME_RATE)
      | _ \<Rightarrow> DEFAULT_RETIME_RATE)"

definition buildConstantRetime :: "js_number \<Rightarrow> bool \<Rightarrow> retime_config" where
  "buildConstantRetime r pitch = \<lparr>rate = Fin (clampRetimeRate r), maintainPitch = Some pitch\<rparr>"

text \<open>\<open>retime?.rate ?? 1\<close>, made safe.\<close>

definition getEffectiveRateAt :: "retime_config option \<Rightarrow> rat" where
  "getEffectiveRateAt retime = clampRetimeRate (case retime of None \<Rightarrow> Fin 1 | Some c \<Rightarrow> rate c)"

definition getSourceTimeAtClipTime :: "rat \<Rightarrow> retime_config option \<Rightarrow> rat" where
  "getSourceTimeAtClipTime clipTime retime = clipTime * getEffectiveRateAt retime"

definition getClipTimeAtSourceTime :: "rat \<Rightarrow> retime_config option \<Rightarrow> rat" where
  "getClipTimeAtSourceTime sourceTime retime = sourceTime / getEffectiveRateAt retime"

definition getTimelineDurationForSourceSpan :: "rat \<Rightarrow> retime_config option \<Rightarrow> rat" where
  "getTimelineDurationForSourceSpan sourceSpan retime =
     (if sourceSpan \<le> 0 then 0 else sourceSpan / getEffectiveRateAt retime)"

definition getSourceSpanAtClipTime :: "rat \<Rightarrow> retime_config option \<Rightarrow> rat" where
  "getSourceSpanAtClipTime clipTime retime = max 0 (getSourceTimeAtClipTime clipTime retime)"

lemma clampRetimeRate_bounds:
  "MIN_RETIME_RATE \<le> clampRetimeRate r \<and> clampRetimeRate r \<le> MAX_RETIME_RATE"
  by (cases r) (auto simp: clampRetimeRate_def DEFAULT_RETIME_RATE_def MIN_RETIME_RATE_def
      MAX_RETIME_RATE_def)

lemma clampRetimeRate_idem: "clampRetimeRate (Fin (clampRetimeRate r)) = clampRetimeRate r"
  using clampRetimeRate_bounds [of r]
  by (auto simp: clampRetimeRate_def MIN_RETIME_RATE_def MAX_RETIME_RATE_def)

lemma effective_rate_bounds: "1 / 100 \<le> getEffectiveRateAt retime \<and> getEffectiveRateAt retime \<le> 5"
  using clampRetimeRate_bounds
  by (simp add: getEffectiveRateAt_def MIN_RETIME_RATE_def MAX_RETIME_RATE_def)

lemma effective_rate_pos: "0 < getEffectiveRateAt retime"
  using effective_rate_bounds [of retime] by linarith

lemma effective_rate_None [simp]: "getEffectiveRateAt None = 1"
  by (simp add: getEffectiveRateAt_def clampRetimeRate_def MIN_RETIME_RATE_def MAX_RETIME_RATE_def)

lemma sourceSpan_nonneg [simp]: "0 \<le> getSourceSpanAtClipTime t retime"
  by (simp add: getSourceSpanAtClipTime_def)

lemma sourceSpan_None: "getSourceSpanAtClipTime (of_int n) None = of_int (max 0 n)"
  by (simp add: getSourceSpanAtClipTime_def getSourceTimeAtClipTime_def max_def)

lemma sourceSpan_mono:
  "t \<le> t' \<Longrightarrow> getSourceSpanAtClipTime t retime \<le> getSourceSpanAtClipTime t' retime"
  using effective_rate_pos [of retime]
  by (auto simp: getSourceSpanAtClipTime_def getSourceTimeAtClipTime_def max_def mult_right_mono
      intro: order_trans mult_right_mono)

lemma timelineDuration_nonneg: "0 \<le> getTimelineDurationForSourceSpan s retime"
  using effective_rate_pos [of retime] by (simp add: getTimelineDurationForSourceSpan_def)

lemma timelineDuration_sourceSpan:
  "0 \<le> t \<Longrightarrow> getTimelineDurationForSourceSpan (getSourceSpanAtClipTime t retime) retime = t"
  using effective_rate_pos [of retime]
  by (auto simp: getTimelineDurationForSourceSpan_def getSourceSpanAtClipTime_def
      getSourceTimeAtClipTime_def max_def mult_le_0_iff)

end
