(* ===== verification/Animation.thy ===== *)
theory Animation
  imports Media_Time
begin

text \<open>
  Keyframe channels (\<open>animation/types.ts\<close>), their normal form and their value at a time
  (\<open>animation/interpolation.ts\<close>, \<open>animation/bezier.ts\<close>). A channel is a list of keys with integer
  times relative to the element; values and curve offsets are rationals.
\<close>

section \<open>Data\<close>

datatype interpolation = ILinear | IHold | IBezier
datatype segment_type = SStep | SLinear | SBezier
datatype tangent_mode = TAuto | TAligned | TBroken | TFlat
datatype extrapolation_mode = ExHold | ExLinear
datatype discrete_value = DBool bool | DString string
datatype binding_kind = KNumber | KVector2 | KColor | KDiscrete

record curve_handle =
  dt :: media_time
  dv :: rat

record scalar_key =
  sk_id :: uuid
  sk_time :: media_time
  sk_value :: rat
  leftHandle :: "curve_handle option"
  rightHandle :: "curve_handle option"
  segmentToNext :: segment_type
  tangentMode :: tangent_mode

record discrete_key =
  dk_id :: uuid
  dk_time :: media_time
  dk_value :: discrete_value

record scalar_channel =
  sc_keys :: "scalar_key list"
  extrapolation :: "(extrapolation_mode \<times> extrapolation_mode) option"

datatype channel = ScalarChannel scalar_channel | DiscreteChannel "discrete_key list"

text \<open>The components of a binding are pairs of a component key and a channel id.\<close>

record binding =
  b_path :: string
  b_kind :: binding_kind
  components :: "(string \<times> string) list"

text \<open>JavaScript objects whose properties may be present with the value \<open>undefined\<close>.\<close>

record element_animations =
  bindings :: "(string \<times> binding option) list"
  channels :: "(string \<times> channel option) list"

definition prop_get :: "(string \<times> 'a option) list \<Rightarrow> string \<Rightarrow> 'a option" where
  [js_defs]: "prop_get obj k = (case map_of obj k of None \<Rightarrow> None | Some v \<Rightarrow> v)"

section \<open>Normal form of a channel\<close>

definition normalizeRightHandle ::
    "curve_handle option \<Rightarrow> scalar_key \<Rightarrow> scalar_key \<Rightarrow> curve_handle option" where
  "normalizeRightHandle handle leftKey rightKey =
     map_option (\<lambda>h. let span = max 1 (sk_time rightKey - sk_time leftKey)
                     in \<lparr>dt = min span (max 0 (dt h)), dv = dv h\<rparr>) handle"

definition normalizeLeftHandle ::
    "curve_handle option \<Rightarrow> scalar_key \<Rightarrow> scalar_key \<Rightarrow> curve_handle option" where
  "normalizeLeftHandle handle leftKey rightKey =
     map_option (\<lambda>h. let span = max 1 (sk_time rightKey - sk_time leftKey)
                     in \<lparr>dt = max (- span) (min 0 (dt h)), dv = dv h\<rparr>) handle"

text \<open>\<open>prev\<close> is \<open>sortedKeys[index - 1]\<close>; only its time is read.\<close>

fun normalize_handles :: "scalar_key option \<Rightarrow> scalar_key list \<Rightarrow> scalar_key list" where
  "normalize_handles prev [] = []"
| "normalize_handles prev (k # ks) =
     k\<lparr>leftHandle :=
          (case prev of None \<Rightarrow> None | Some p \<Rightarrow> normalizeLeftHandle (leftHandle k) p k),
        rightHandle :=
          (case ks of [] \<Rightarrow> None | k' # _ \<Rightarrow> normalizeRightHandle (rightHandle k) k k')\<rparr>
     # normalize_handles (Some k) ks"

definition normalizeScalarChannel :: "scalar_channel \<Rightarrow> scalar_channel" where
  "normalizeScalarChannel c = c\<lparr>sc_keys := normalize_handles None (sort_key sk_time (sc_keys c))\<rparr>"

definition normalizeDiscreteKeys :: "discrete_key list \<Rightarrow> discrete_key list" where
  "normalizeDiscreteKeys ks = sort_key dk_time ks"

fun normalizeChannel :: "channel \<Rightarrow> channel" where
  "normalizeChannel (ScalarChannel c) = ScalarChannel (normalizeScalarChannel c)"
| "normalizeChannel (DiscreteChannel ks) = DiscreteChannel (normalizeDiscreteKeys ks)"

fun channel_size :: "channel \<Rightarrow> nat" where
  "channel_size (ScalarChannel c) = length (sc_keys c)"
| "channel_size (DiscreteChannel ks) = length ks"

definition hasChannelKeys :: "channel option \<Rightarrow> bool" where
  "hasChannelKeys ch = (case ch of None \<Rightarrow> False | Some c \<Rightarrow> 0 < channel_size c)"

fun key_times :: "channel \<Rightarrow> media_time list" where
  "key_times (ScalarChannel c) = map sk_time (sc_keys c)"
| "key_times (DiscreteChannel ks) = map dk_time ks"

fun key_ids :: "channel \<Rightarrow> uuid list" where
  "key_ids (ScalarChannel c) = map sk_id (sc_keys c)"
| "key_ids (DiscreteChannel ks) = map dk_id ks"

section \<open>Bezier segments\<close>

definition BEZIER_SOLVE_ITERATIONS :: nat where "BEZIER_SOLVE_ITERATIONS = 20"

definition getBezierPoint :: "rat \<Rightarrow> rat \<Rightarrow> rat \<Rightarrow> rat \<Rightarrow> rat \<Rightarrow> rat" where
  "getBezierPoint progress p0 p1 p2 p3 =
     (let mt = 1 - progress
      in mt * mt * mt * p0 + 3 * mt * mt * progress * p1
         + 3 * mt * progress * progress * p2 + progress * progress * progress * p3)"

text \<open>Handles as pairs of a time and a value offset; the default ones are fractional.\<close>

definition getDefaultRightHandle :: "scalar_key \<Rightarrow> scalar_key \<Rightarrow> rat \<times> rat" where
  "getDefaultRightHandle leftKey rightKey =
     (of_int (sk_time rightKey - sk_time leftKey) / 3, (sk_value rightKey - sk_value leftKey) / 3)"

definition getDefaultLeftHandle :: "scalar_key \<Rightarrow> scalar_key \<Rightarrow> rat \<times> rat" where
  "getDefaultLeftHandle leftKey rightKey =
     (- of_int (sk_time rightKey - sk_time leftKey) / 3, - (sk_value rightKey - sk_value leftKey) / 3)"

definition right_handle_of :: "scalar_key \<Rightarrow> scalar_key \<Rightarrow> rat \<times> rat" where
  "right_handle_of leftKey rightKey =
     (case rightHandle leftKey of Some h \<Rightarrow> (of_int (dt h), dv h)
      | None \<Rightarrow> getDefaultRightHandle leftKey rightKey)"

definition left_handle_of :: "scalar_key \<Rightarrow> scalar_key \<Rightarrow> rat \<times> rat" where
  "left_handle_of leftKey rightKey =
     (case leftHandle rightKey of Some h \<Rightarrow> (of_int (dt h), dv h)
      | None \<Rightarrow> getDefaultLeftHandle leftKey rightKey)"

definition bezier_time :: "scalar_key \<Rightarrow> scalar_key \<Rightarrow> rat \<Rightarrow> rat" where
  "bezier_time leftKey rightKey p =
     getBezierPoint p (of_int (sk_time leftKey))
       (of_int (sk_time leftKey) + fst (right_handle_of leftKey rightKey))
       (of_int (sk_time rightKey) + fst (left_handle_of leftKey rightKey))
       (of_int (sk_time rightKey))"

text \<open>The \<open>for\<close> loop over \<open>lower\<close> and \<open>upper\<close>.\<close>

fun bisect :: "(rat \<Rightarrow> rat) \<Rightarrow> rat \<Rightarrow> nat \<Rightarrow> rat \<Rightarrow> rat \<Rightarrow> rat \<times> rat" where
  "bisect f t 0 lower upper = (lower, upper)"
| "bisect f t (Suc n) lower upper =
     (let mid = (lower + upper) / 2
      in if f mid < t then bisect f t n mid upper else bisect f t n lower mid)"

definition solveBezierProgressForTime :: "rat \<Rightarrow> scalar_key \<Rightarrow> scalar_key \<Rightarrow> rat" where
  "solveBezierProgressForTime t leftKey rightKey =
     (case bisect (bezier_time leftKey rightKey) t BEZIER_SOLVE_ITERATIONS 0 1 of
        (lower, upper) \<Rightarrow> (lower + upper) / 2)"

section \<open>The value of a channel at a time\<close>

definition extrapolateScalarEdge ::
    "extrapolation_mode \<Rightarrow> scalar_key \<Rightarrow> scalar_key option \<Rightarrow> rat \<Rightarrow> rat" where
  "extrapolateScalarEdge mode edgeKey neighborKey t =
     (case neighborKey of
        None \<Rightarrow> sk_value edgeKey
      | Some nk \<Rightarrow>
          if mode = ExHold then sk_value edgeKey
          else let span = sk_time nk - sk_time edgeKey
               in if span = 0 then sk_value edgeKey
                  else sk_value edgeKey + ((t - of_int (sk_time edgeKey)) / of_int span)
                         * (sk_value nk - sk_value edgeKey))"

definition getScalarSegmentInterpolation :: "segment_type \<Rightarrow> interpolation" where
  "getScalarSegmentInterpolation seg =
     (case seg of SStep \<Rightarrow> IHold | SBezier \<Rightarrow> IBezier | SLinear \<Rightarrow> ILinear)"

definition lerpNumber :: "rat \<Rightarrow> rat \<Rightarrow> rat \<Rightarrow> rat" where
  "lerpNumber leftValue rightValue progress = leftValue + (rightValue - leftValue) * progress"

definition clamp01 :: "rat \<Rightarrow> rat" where
  "clamp01 v = max 0 (min 1 v)"

text \<open>The body of the loop over adjacent keys; \<open>None\<close> is \<open>continue\<close>.\<close>

definition segment_value :: "rat \<Rightarrow> scalar_key \<Rightarrow> scalar_key \<Rightarrow> rat option" where
  "segment_value t leftKey rightKey =
     (if t = of_int (sk_time rightKey) then Some (sk_value rightKey)
      else if \<not> (of_int (sk_time leftKey) \<le> t \<and> t \<le> of_int (sk_time rightKey)) then None
      else if segmentToNext leftKey = SStep then Some (sk_value leftKey)
      else let span = sk_time rightKey - sk_time leftKey
           in if span = 0 then Some (sk_value rightKey)
              else let progress = clamp01 ((t - of_int (sk_time leftKey)) / of_int span)
                   in if segmentToNext leftKey = SLinear
                      then Some (lerpNumber (sk_value leftKey) (sk_value rightKey) progress)
                      else Some (getBezierPoint (solveBezierProgressForTime t leftKey rightKey)
                             (sk_value leftKey)
                             (sk_value leftKey + snd (right_handle_of leftKey rightKey))
                             (sk_value rightKey + snd (left_handle_of leftKey rightKey))
                             (sk_value rightKey)))"

fun segments_value :: "rat \<Rightarrow> scalar_key list \<Rightarrow> rat option" where
  "segments_value t (k # k' # ks) =
     (case segment_value t k k' of Some v \<Rightarrow> Some v | None \<Rightarrow> segments_value t (k' # ks))"
| "segments_value t _ = None"

definition getScalarChannelValueAtTime :: "scalar_channel option \<Rightarrow> rat \<Rightarrow> rat \<Rightarrow> rat" where
  "getScalarChannelValueAtTime ch t fallbackValue =
     (case ch of
        None \<Rightarrow> fallbackValue
      | Some c \<Rightarrow>
          if sc_keys c = [] then fallbackValue
          else
            let keys = sc_keys (normalizeScalarChannel c);
                firstKey = hd keys; lastKey = last keys
            in if t \<le> of_int (sk_time firstKey)
               then if t < of_int (sk_time firstKey)
                    then extrapolateScalarEdge
                           (case extrapolation c of None \<Rightarrow> ExHold | Some (before, _) \<Rightarrow> before)
                           firstKey (js_at keys 1) t
                    else sk_value firstKey
               else if t \<ge> of_int (sk_time lastKey)
               then if t > of_int (sk_time lastKey)
                    then extrapolateScalarEdge
                           (case extrapolation c of None \<Rightarrow> ExHold | Some (_, after) \<Rightarrow> after)
                           lastKey (js_at keys (int (length keys) - 2)) t
                    else sk_value lastKey
               else case segments_value t keys of Some v \<Rightarrow> v | None \<Rightarrow> sk_value lastKey)"

text \<open>The loop that keeps the value of the last key not after \<open>t\<close>, stopping at the first later one.\<close>

fun discrete_scan :: "rat \<Rightarrow> discrete_value \<Rightarrow> discrete_key list \<Rightarrow> discrete_value" where
  "discrete_scan t cur [] = cur"
| "discrete_scan t cur (k # ks) =
     (if t < of_int (dk_time k) then cur else discrete_scan t (dk_value k) ks)"

definition getDiscreteChannelValueAtTime ::
    "discrete_key list option \<Rightarrow> rat \<Rightarrow> discrete_value \<Rightarrow> discrete_value" where
  "getDiscreteChannelValueAtTime ch t fallbackValue =
     (case ch of
        None \<Rightarrow> fallbackValue
      | Some ks \<Rightarrow> if ks = [] then fallbackValue
                 else discrete_scan t fallbackValue (normalizeDiscreteKeys ks))"

section \<open>Laws of the normal form\<close>

text \<open>
  What the keyframe operations rely on, for either kind of channel: the normal form is a
  permutation of the keys (identifiers and times are kept), sorted by time, and normalizing
  again changes nothing.
\<close>

locale channel_normal_form =
  fixes norm :: "'k list \<Rightarrow> 'k list"
    and key_time :: "'k \<Rightarrow> media_time"
    and key_id :: "'k \<Rightarrow> uuid"
  assumes norm_sorted: "sorted (map key_time (norm ks))"
    and norm_keys: "mset (map (\<lambda>k. (key_id k, key_time k)) (norm ks))
                    = mset (map (\<lambda>k. (key_id k, key_time k)) ks)"
    and norm_idem: "norm (norm ks) = norm ks"
begin

lemma length_norm [simp]: "length (norm ks) = length ks"
  using arg_cong [OF norm_keys [of ks], of size] by simp

lemma norm_Nil_iff [simp]: "norm ks = [] \<longleftrightarrow> ks = []"
  by (metis length_0_conv length_norm)

lemma mset_times_norm: "mset (map key_time (norm ks)) = mset (map key_time ks)"
  using arg_cong [OF norm_keys [of ks], of "image_mset snd"]
  by (simp add: image_mset.compositionality o_def flip: mset_map)

lemma mset_ids_norm: "mset (map key_id (norm ks)) = mset (map key_id ks)"
  using arg_cong [OF norm_keys [of ks], of "image_mset fst"]
  by (simp add: image_mset.compositionality o_def flip: mset_map)

lemma set_times_norm: "key_time ` set (norm ks) = key_time ` set ks"
  using arg_cong [OF mset_times_norm [of ks], of set_mset] by simp

lemma set_ids_norm: "key_id ` set (norm ks) = key_id ` set ks"
  using arg_cong [OF mset_ids_norm [of ks], of set_mset] by simp

lemma distinct_times_norm: "distinct (map key_time (norm ks)) = distinct (map key_time ks)"
  by (rule mset_eq_imp_distinct_iff) (rule mset_times_norm)

lemma distinct_ids_norm: "distinct (map key_id (norm ks)) = distinct (map key_id ks)"
  by (rule mset_eq_imp_distinct_iff) (rule mset_ids_norm)

lemma times_norm: "map key_time (norm ks) = sort (map key_time ks)"
  using norm_sorted mset_times_norm by (metis properties_for_sort)

end

lemma normalize_handles_proj [simp]:
  "map sk_time (normalize_handles p ks) = map sk_time ks"
  "map sk_id (normalize_handles p ks) = map sk_id ks"
  "map sk_value (normalize_handles p ks) = map sk_value ks"
  "map segmentToNext (normalize_handles p ks) = map segmentToNext ks"
  by (induction p ks rule: normalize_handles.induct) auto

lemma normalize_handles_pair:
  "map (\<lambda>k. (sk_id k, sk_time k)) (normalize_handles p ks) = map (\<lambda>k. (sk_id k, sk_time k)) ks"
  by (induction p ks rule: normalize_handles.induct) auto

lemma normalize_handles_prev_cong:
  "map_option sk_time p = map_option sk_time q \<Longrightarrow> normalize_handles p ks = normalize_handles q ks"
  by (cases ks) (auto simp: normalizeLeftHandle_def split: option.splits)

lemma normalize_handles_idem:
  "normalize_handles p (normalize_handles p ks) = normalize_handles p ks"
proof (induction p ks rule: normalize_handles.induct)
  case (1 p)
  then show ?case by simp
next
  case (2 p k ks)
  let ?k = "hd (normalize_handles p (k # ks))"
  have "normalize_handles (Some ?k) (normalize_handles (Some k) ks)
      = normalize_handles (Some k) (normalize_handles (Some k) ks)"
    by (rule normalize_handles_prev_cong) simp
  then show ?case using 2
    by (cases ks) (auto simp: normalizeLeftHandle_def normalizeRightHandle_def Let_def
        option.map_comp o_def split: option.splits)
qed

lemma sort_key_sorted_id: "sorted (map f xs) \<Longrightarrow> sort_key f xs = xs"
  by (simp add: sort_key_id_if_sorted)

abbreviation norm_scalar_keys :: "scalar_key list \<Rightarrow> scalar_key list" where
  "norm_scalar_keys ks \<equiv> normalize_handles None (sort_key sk_time ks)"

lemma sc_keys_normalize [simp]: "sc_keys (normalizeScalarChannel c) = norm_scalar_keys (sc_keys c)"
  by (simp add: normalizeScalarChannel_def)

lemma extrapolation_normalize [simp]: "extrapolation (normalizeScalarChannel c) = extrapolation c"
  by (simp add: normalizeScalarChannel_def)

interpretation scalar_nf: channel_normal_form norm_scalar_keys sk_time sk_id
proof unfold_locales
  fix ks
  show "sorted (map sk_time (norm_scalar_keys ks))" by simp
  show "mset (map (\<lambda>k. (sk_id k, sk_time k)) (norm_scalar_keys ks))
      = mset (map (\<lambda>k. (sk_id k, sk_time k)) ks)"
    by (simp add: normalize_handles_pair)
  have "sort_key sk_time (norm_scalar_keys ks) = norm_scalar_keys ks"
    by (rule sort_key_sorted_id) simp
  then show "norm_scalar_keys (norm_scalar_keys ks) = norm_scalar_keys ks"
    by (simp add: normalize_handles_idem)
qed

interpretation discrete_nf: channel_normal_form normalizeDiscreteKeys dk_time dk_id
  by unfold_locales (simp_all add: normalizeDiscreteKeys_def sort_key_sorted_id)

lemma normalizeScalarChannel_idem [simp]:
  "normalizeScalarChannel (normalizeScalarChannel c) = normalizeScalarChannel c"
  using scalar_nf.norm_idem [of "sc_keys c"] by (simp add: normalizeScalarChannel_def)

lemma normalizeChannel_idem: "normalizeChannel (normalizeChannel ch) = normalizeChannel ch"
  by (cases ch) (simp_all add: discrete_nf.norm_idem)

lemma channel_size_normalize [simp]: "channel_size (normalizeChannel ch) = channel_size ch"
  by (cases ch) simp_all

lemma hasChannelKeys_normalize [simp]:
  "hasChannelKeys (Some (normalizeChannel ch)) = hasChannelKeys (Some ch)"
  by (simp add: hasChannelKeys_def)

lemma key_times_normalize: "key_times (normalizeChannel ch) = sort (key_times ch)"
  by (cases ch) (simp_all add: scalar_nf.times_norm [simplified] discrete_nf.times_norm)

lemma mset_key_ids_normalize: "mset (key_ids (normalizeChannel ch)) = mset (key_ids ch)"
  using scalar_nf.mset_ids_norm discrete_nf.mset_ids_norm by (cases ch) simp_all

text \<open>Handles of a normalized channel stay inside the segment they shape.\<close>

definition handles_ok :: "scalar_key \<Rightarrow> scalar_key \<Rightarrow> bool" where
  "handles_ok k k' \<longleftrightarrow>
     (\<forall>h. rightHandle k = Some h \<longrightarrow> 0 \<le> dt h \<and> dt h \<le> max 1 (sk_time k' - sk_time k)) \<and>
     (\<forall>h. leftHandle k' = Some h \<longrightarrow> dt h \<le> 0 \<and> - max 1 (sk_time k' - sk_time k) \<le> dt h)"

fun handles_ok_list :: "scalar_key list \<Rightarrow> bool" where
  "handles_ok_list (k # k' # ks) \<longleftrightarrow> handles_ok k k' \<and> handles_ok_list (k' # ks)"
| "handles_ok_list _ \<longleftrightarrow> True"

lemma handles_ok_normalize: "handles_ok_list (normalize_handles p ks)"
proof (induction p ks rule: normalize_handles.induct)
  case (1 p)
  then show ?case by simp
next
  case (2 p k ks)
  then show ?case
    by (cases ks) (auto simp: handles_ok_def normalizeLeftHandle_def normalizeRightHandle_def Let_def)
qed

section \<open>Bisection and bezier points\<close>

lemma bisect_invariant:
  assumes "bisect f t n lower upper = (l, u)" and "lower \<le> upper"
  shows "lower \<le> l \<and> l \<le> u \<and> u \<le> upper \<and> u - l = (upper - lower) / 2 ^ n
         \<and> (l = lower \<or> f l < t) \<and> (u = upper \<or> t \<le> f u)"
  using assms
proof (induction n arbitrary: lower upper)
  case 0
  then show ?case by simp
next
  case (Suc n)
  define m where "m = (lower + upper) / 2"
  have m: "lower \<le> m" "m \<le> upper" using Suc.prems(2) by (auto simp: m_def field_simps)
  have w: "(upper - m) / 2 ^ n = (upper - lower) / 2 ^ Suc n"
    "(m - lower) / 2 ^ n = (upper - lower) / 2 ^ Suc n"
    by (simp_all add: m_def field_simps)
  show ?case
  proof (cases "f m < t")
    case True
    with Suc.prems have "bisect f t n m upper = (l, u)" by (simp add: Let_def m_def)
    from Suc.IH [OF this m(2)] show ?thesis using True m unfolding w by auto
  next
    case False
    with Suc.prems have "bisect f t n lower m = (l, u)" by (simp add: Let_def m_def)
    from Suc.IH [OF this m(1)] show ?thesis using False m unfolding w by auto
  qed
qed

lemma getBezierPoint_ends [simp]:
  "getBezierPoint 0 p0 p1 p2 p3 = p0" "getBezierPoint 1 p0 p1 p2 p3 = p3"
  by (simp_all add: getBezierPoint_def)

lemma bezier_time_ends [simp]:
  "bezier_time k k' 0 = of_int (sk_time k)" "bezier_time k k' 1 = of_int (sk_time k')"
  by (simp_all add: bezier_time_def)

text \<open>A bezier point is a convex combination of its control points.\<close>

lemma getBezierPoint_convex:
  assumes "0 \<le> p" "p \<le> 1" "lo \<le> p0" "lo \<le> p1" "lo \<le> p2" "lo \<le> p3"
  shows "lo \<le> getBezierPoint p p0 p1 p2 p3"
proof -
  let ?mt = "1 - p"
  have w: "0 \<le> ?mt * ?mt * ?mt" "0 \<le> 3 * ?mt * ?mt * p" "0 \<le> 3 * ?mt * p * p" "0 \<le> p * p * p"
    using assms(1,2) by simp_all
  have "lo = ?mt * ?mt * ?mt * lo + 3 * ?mt * ?mt * p * lo + 3 * ?mt * p * p * lo + p * p * p * lo"
    by (simp add: algebra_simps)
  also have "\<dots> \<le> ?mt * ?mt * ?mt * p0 + 3 * ?mt * ?mt * p * p1 + 3 * ?mt * p * p * p2 + p * p * p * p3"
    using w assms(3-6) by (intro add_mono mult_left_mono) auto
  finally show ?thesis by (simp add: getBezierPoint_def Let_def)
qed

lemma getBezierPoint_uminus:
  "getBezierPoint p (- p0) (- p1) (- p2) (- p3) = - getBezierPoint p p0 p1 p2 p3"
  by (simp add: getBezierPoint_def Let_def)

lemma getBezierPoint_convex_upper:
  assumes "0 \<le> p" "p \<le> 1" "p0 \<le> hi" "p1 \<le> hi" "p2 \<le> hi" "p3 \<le> hi"
  shows "getBezierPoint p p0 p1 p2 p3 \<le> hi"
  using getBezierPoint_convex [of p "- hi" "- p0" "- p1" "- p2" "- p3"] assms
  by (simp add: getBezierPoint_uminus)

section \<open>Channel values\<close>

lemma normalize_handles_value_pair:
  "map (\<lambda>k. (sk_time k, sk_value k, segmentToNext k)) (normalize_handles p ks)
   = map (\<lambda>k. (sk_time k, sk_value k, segmentToNext k)) ks"
  by (induction p ks rule: normalize_handles.induct) auto

lemma norm_keys_image:
  "(\<lambda>k. (sk_time k, sk_value k, segmentToNext k)) ` set (norm_scalar_keys ks)
   = (\<lambda>k. (sk_time k, sk_value k, segmentToNext k)) ` set ks"
  using arg_cong [OF normalize_handles_value_pair [of None "sort_key sk_time ks"], of set] by simp

lemma segments_value_at_key:
  assumes "sorted_wrt (<) (map sk_time ks)" and "k \<in> set (tl ks)"
  shows "segments_value (of_int (sk_time k)) ks = Some (sk_value k)"
  using assms
proof (induction "of_int (sk_time k) :: rat" ks rule: segments_value.induct)
  case (1 a b ks)
  show ?case
  proof (cases "k = b")
    case True
    then show ?thesis by (simp add: segment_value_def)
  next
    case False
    with 1 have k: "k \<in> set ks" and "sk_time b < sk_time k" by auto
    then have "segment_value (of_int (sk_time k)) a b = None" by (simp add: segment_value_def)
    moreover have "segments_value (of_int (sk_time k)) (b # ks) = Some (sk_value k)"
      using 1 k calculation by simp
    ultimately show ?thesis by simp
  qed
qed auto

lemma sorted_wrt_less_hd:
  "sorted_wrt (<) (map sk_time ks) \<Longrightarrow> k \<in> set ks \<Longrightarrow> k = hd ks \<or> sk_time (hd ks) < sk_time k"
  by (cases ks) auto

lemma sorted_wrt_less_last:
  "sorted_wrt (<) (map sk_time ks) \<Longrightarrow> k \<in> set ks \<Longrightarrow> k = last ks \<or> sk_time k < sk_time (last ks)"
  by (cases ks rule: rev_cases) (auto simp: sorted_wrt_append)

lemma norm_keys_strict:
  "distinct (map sk_time ks) \<Longrightarrow> sorted_wrt (<) (map sk_time (norm_scalar_keys ks))"
  using scalar_nf.norm_sorted [of ks] scalar_nf.distinct_times_norm [of ks]
  by (simp only: strict_sorted_iff)

lemma scalar_value_at_key:
  assumes "distinct (map sk_time (sc_keys c))" and "k \<in> set (sc_keys c)"
  shows "getScalarChannelValueAtTime (Some c) (of_int (sk_time k)) fb = sk_value k"
proof -
  let ?ks = "norm_scalar_keys (sc_keys c)"
  have "(sk_time k, sk_value k, segmentToNext k)
      \<in> (\<lambda>k. (sk_time k, sk_value k, segmentToNext k)) ` set ?ks"
    unfolding norm_keys_image using assms(2) by blast
  then obtain k' where k': "k' \<in> set ?ks" "sk_time k' = sk_time k" "sk_value k' = sk_value k"
    by auto
  have st: "sorted_wrt (<) (map sk_time ?ks)" using assms(1) by (rule norm_keys_strict)
  have ne: "?ks \<noteq> []" "sc_keys c \<noteq> []" using k'(1) assms(2) by auto
  consider "k' = hd ?ks" | "k' = last ?ks" "sk_time (hd ?ks) < sk_time k'"
    | "sk_time (hd ?ks) < sk_time k'" "sk_time k' < sk_time (last ?ks)"
    using sorted_wrt_less_hd [OF st k'(1)] sorted_wrt_less_last [OF st k'(1)] by blast
  then show ?thesis
  proof cases
    case 3
    then have "k' \<in> set (tl ?ks)" using k'(1) ne by (cases ?ks) auto
    then have "segments_value (of_int (sk_time k')) ?ks = Some (sk_value k')"
      by (rule segments_value_at_key [OF st])
    then show ?thesis
      using 3 k' ne by (simp add: getScalarChannelValueAtTime_def normalizeScalarChannel_def Let_def)
  qed (use k' ne in \<open>simp_all add: getScalarChannelValueAtTime_def normalizeScalarChannel_def Let_def\<close>)
qed

lemma lerpNumber_between:
  assumes "0 \<le> p" "p \<le> 1" "lo \<le> a" "lo \<le> b" "a \<le> hi" "b \<le> hi"
  shows "lo \<le> lerpNumber a b p \<and> lerpNumber a b p \<le> hi"
proof -
  have e: "lerpNumber a b p = (1 - p) * a + p * b" by (simp add: lerpNumber_def algebra_simps)
  have "(1 - p) * lo + p * lo \<le> (1 - p) * a + p * b" "(1 - p) * a + p * b \<le> (1 - p) * hi + p * hi"
    using assms by (auto intro!: add_mono mult_left_mono)
  then show ?thesis by (simp add: e algebra_simps)
qed

lemma clamp01_bounds: "0 \<le> clamp01 v" "clamp01 v \<le> 1"
  by (simp_all add: clamp01_def)

lemma segment_value_between:
  assumes "segment_value t k k' = Some v" "segmentToNext k \<noteq> SBezier"
    "lo \<le> sk_value k" "lo \<le> sk_value k'" "sk_value k \<le> hi" "sk_value k' \<le> hi"
  shows "lo \<le> v \<and> v \<le> hi"
  using assms
  by (cases "segmentToNext k")
    (auto simp: segment_value_def Let_def split: if_splits
      intro!: lerpNumber_between [THEN conjunct1] lerpNumber_between [THEN conjunct2]
        clamp01_bounds)

lemma segments_value_between:
  assumes "segments_value t ks = Some v"
    and "\<forall>k \<in> set ks. segmentToNext k \<noteq> SBezier \<and> lo \<le> sk_value k \<and> sk_value k \<le> hi"
  shows "lo \<le> v \<and> v \<le> hi"
  using assms
proof (induction t ks rule: segments_value.induct)
  case (1 t k k' ks)
  then show ?case
    by (cases "segment_value t k k'") (auto dest!: segment_value_between [where lo = lo and hi = hi])
qed auto

lemma extrapolate_hold: "extrapolateScalarEdge ExHold k n t = sk_value k"
  by (simp add: extrapolateScalarEdge_def split: option.splits)

lemma scalar_value_between:
  assumes "sc_keys c \<noteq> []" and "extrapolation c = None"
    and "\<forall>k \<in> set (sc_keys c). segmentToNext k \<noteq> SBezier \<and> lo \<le> sk_value k \<and> sk_value k \<le> hi"
  shows "lo \<le> getScalarChannelValueAtTime (Some c) t fb \<and> getScalarChannelValueAtTime (Some c) t fb \<le> hi"
proof -
  let ?ks = "norm_scalar_keys (sc_keys c)"
  have all: "\<forall>k \<in> set ?ks. segmentToNext k \<noteq> SBezier \<and> lo \<le> sk_value k \<and> sk_value k \<le> hi"
  proof
    fix k assume "k \<in> set ?ks"
    then have "(sk_time k, sk_value k, segmentToNext k)
        \<in> (\<lambda>k. (sk_time k, sk_value k, segmentToNext k)) ` set (sc_keys c)"
      using norm_keys_image [of "sc_keys c"] by blast
    then show "segmentToNext k \<noteq> SBezier \<and> lo \<le> sk_value k \<and> sk_value k \<le> hi"
      using assms(3) by auto
  qed
  have "hd ?ks \<in> set ?ks" "last ?ks \<in> set ?ks"
    using assms(1) scalar_nf.norm_Nil_iff [of "sc_keys c"] by (auto intro: hd_in_set last_in_set)
  then show ?thesis
    using assms(1,2) all segments_value_between [OF _ all, of t]
    by (auto simp: getScalarChannelValueAtTime_def normalizeScalarChannel_def Let_def extrapolate_hold split: option.splits)
qed

section \<open>Properties\<close>

text \<open>\<open>normalizeChannel\<close> is a normal form: it keeps exactly the keyframes of the channel
  (the identifiers with their multiplicity), puts the times in ascending order, puts every
  bezier handle inside its segment, and is idempotent.\<close>
theorem normalizeChannel_normal_form:
  "normalizeChannel (normalizeChannel ch) = normalizeChannel ch
   \<and> key_times (normalizeChannel ch) = sort (key_times ch)
   \<and> mset (key_ids (normalizeChannel ch)) = mset (key_ids ch)
   \<and> (case normalizeChannel ch of ScalarChannel c \<Rightarrow> handles_ok_list (sc_keys c)
      | DiscreteChannel ks \<Rightarrow> True)"
  using normalizeChannel_idem key_times_normalize mset_key_ids_normalize
  by (auto simp: handles_ok_normalize split: channel.splits elim!: normalizeChannel.elims)

text \<open>A scalar channel whose keyframes have distinct times takes, at the time of each keyframe,
  exactly the value of that keyframe, whatever the segment types, handles and extrapolation.\<close>
theorem channel_interpolates_keyframes:
  assumes "distinct (map sk_time (sc_keys c))" and "k \<in> set (sc_keys c)"
  shows "getScalarChannelValueAtTime (Some c) (of_int (sk_time k)) fb = sk_value k"
  using assms by (rule scalar_value_at_key)

theorem channel_interpolates_keyframes_witness:
  "getScalarChannelValueAtTime
     (Some \<lparr>sc_keys =
        [\<lparr>sk_id = ''b'', sk_time = 20, sk_value = 7, leftHandle = None, rightHandle = None,
          segmentToNext = SBezier, tangentMode = TFlat\<rparr>,
         \<lparr>sk_id = ''a'', sk_time = 10, sk_value = 3, leftHandle = None,
          rightHandle = Some \<lparr>dt = 40, dv = 2\<rparr>, segmentToNext = SBezier, tangentMode = TFlat\<rparr>],
        extrapolation = Some (ExLinear, ExLinear)\<rparr>) (of_int 20) 0 = 7"
  using channel_interpolates_keyframes [of "\<lparr>sc_keys =
        [\<lparr>sk_id = ''b'', sk_time = 20, sk_value = 7, leftHandle = None, rightHandle = None,
          segmentToNext = SBezier, tangentMode = TFlat\<rparr>,
         \<lparr>sk_id = ''a'', sk_time = 10, sk_value = 3, leftHandle = None,
          rightHandle = Some \<lparr>dt = 40, dv = 2\<rparr>, segmentToNext = SBezier, tangentMode = TFlat\<rparr>],
        extrapolation = Some (ExLinear, ExLinear)\<rparr>"
      "\<lparr>sk_id = ''b'', sk_time = 20, sk_value = 7, leftHandle = None, rightHandle = None,
          segmentToNext = SBezier, tangentMode = TFlat\<rparr>" 0]
  by simp

text \<open>Where no segment is a bezier curve and edges are held, the value of a scalar channel at
  any time lies between the least and the greatest keyframe value: interpolation never
  overshoots.\<close>
theorem channel_value_bounded:
  assumes "sc_keys c \<noteq> []" and "extrapolation c = None"
    and "\<forall>k \<in> set (sc_keys c). segmentToNext k \<noteq> SBezier \<and> lo \<le> sk_value k \<and> sk_value k \<le> hi"
  shows "lo \<le> getScalarChannelValueAtTime (Some c) t fb \<and> getScalarChannelValueAtTime (Some c) t fb \<le> hi"
  using assms by (rule scalar_value_between)

theorem channel_value_bounded_witness:
  "3 \<le> getScalarChannelValueAtTime
     (Some \<lparr>sc_keys =
        [\<lparr>sk_id = ''b'', sk_time = 20, sk_value = 7, leftHandle = None, rightHandle = None,
          segmentToNext = SLinear, tangentMode = TFlat\<rparr>,
         \<lparr>sk_id = ''a'', sk_time = 10, sk_value = 3, leftHandle = None, rightHandle = None,
          segmentToNext = SLinear, tangentMode = TFlat\<rparr>],
        extrapolation = None\<rparr>) 13 0"
  using channel_value_bounded [of "\<lparr>sc_keys =
        [\<lparr>sk_id = ''b'', sk_time = 20, sk_value = 7, leftHandle = None, rightHandle = None,
          segmentToNext = SLinear, tangentMode = TFlat\<rparr>,
         \<lparr>sk_id = ''a'', sk_time = 10, sk_value = 3, leftHandle = None, rightHandle = None,
          segmentToNext = SLinear, tangentMode = TFlat\<rparr>],
        extrapolation = None\<rparr>" 3 7 13 0]
  by simp

text \<open>The bezier solver is accurate to the width of its last bracket: for a time inside the
  segment, the progress it returns is the midpoint of an interval of width \<open>1 / 2 ^ 20\<close> inside
  \<open>[0, 1]\<close> on which the curve's time passes through the requested time.\<close>
theorem solveBezierProgress_brackets:
  assumes "of_int (sk_time k) \<le> t" and "t \<le> of_int (sk_time k')"
  shows "\<exists>l u. 0 \<le> l \<and> u \<le> 1 \<and> u - l = 1 / 2 ^ BEZIER_SOLVE_ITERATIONS
    \<and> solveBezierProgressForTime t k k' = (l + u) / 2
    \<and> bezier_time k k' l \<le> t \<and> t \<le> bezier_time k k' u"
proof -
  obtain l u where lu: "bisect (bezier_time k k') t BEZIER_SOLVE_ITERATIONS 0 1 = (l, u)" by fastforce
  from bisect_invariant [OF lu] assms show ?thesis
    by (intro exI [of _ l] exI [of _ u]) (auto simp: solveBezierProgressForTime_def lu)
qed

theorem solveBezierProgress_brackets_witness:
  "let k = \<lparr>sk_id = ''a'', sk_time = 0, sk_value = 0, leftHandle = None, rightHandle = None,
          segmentToNext = SBezier, tangentMode = TFlat\<rparr>;
       k' = \<lparr>sk_id = ''b'', sk_time = 30, sk_value = 9, leftHandle = None, rightHandle = None,
          segmentToNext = SLinear, tangentMode = TFlat\<rparr>
   in \<exists>l u. 0 \<le> l \<and> u \<le> 1 \<and> u - l = 1 / 2 ^ BEZIER_SOLVE_ITERATIONS
    \<and> solveBezierProgressForTime 10 k k' = (l + u) / 2
    \<and> bezier_time k k' l \<le> 10 \<and> 10 \<le> bezier_time k k' u"
  unfolding Let_def by (rule solveBezierProgress_brackets) simp_all

end
