(* ===== verification/Keyframes.thy ===== *)
theory Keyframes
  imports Animation
begin

text \<open>
  The keyframe operations of an element (\<open>animation/keyframes.ts\<close>, with the bindings of
  \<open>animation/binding-values.ts\<close>): inserting, removing, retiming and reshaping keyframes, cloning,
  splitting and clamping the animations of an element. \<open>generateUUID\<close> is the parameter
  \<open>gen\<close>, called with a running counter; operations that draw at most one identifier take it as
  the argument \<open>fresh\<close>. Colours are parsed by the third-party package \<open>culori\<close>: the parsed linear
  components are the parameter \<open>parseColor\<close>.
\<close>

section \<open>Values and bindings\<close>

datatype animation_value = VNumber rat | VString string | VBool bool | VVector rat rat
datatype component_value = CNumber rat | CDiscrete discrete_value

fun getBindingComponentKeys :: "binding_kind \<Rightarrow> string list" where
  "getBindingComponentKeys KVector2 = [''x'', ''y'']"
| "getBindingComponentKeys KColor = [''r'', ''g'', ''b'', ''a'']"
| "getBindingComponentKeys KNumber = [''value'']"
| "getBindingComponentKeys KDiscrete = [''value'']"

definition buildBindingChannelId :: "string \<Rightarrow> string \<Rightarrow> string" where
  "buildBindingChannelId path componentKey = path @ '':'' @ componentKey"

definition createAnimationBinding :: "string \<Rightarrow> binding_kind \<Rightarrow> binding" where
  "createAnimationBinding path kind =
     \<lparr>b_path = path, b_kind = kind,
      components = map (\<lambda>key. (key, buildBindingChannelId path key)) (getBindingComponentKeys kind)\<rparr>"

text \<open>A copy: the value of the object does not change.\<close>

definition cloneAnimationBinding :: "binding \<Rightarrow> binding" where
  [simp]: "cloneAnimationBinding b = b\<lparr>components := map (\<lambda>c. c) (components b)\<rparr>"

fun decomposeAnimationValue ::
    "(string \<Rightarrow> (rat \<times> rat \<times> rat \<times> rat) option) \<Rightarrow> binding_kind \<Rightarrow> animation_value \<Rightarrow>
     (string \<times> component_value) list option" where
  "decomposeAnimationValue parseColor KNumber (VNumber x) = Some [(''value'', CNumber x)]"
| "decomposeAnimationValue parseColor KVector2 (VVector x y) =
     Some [(''x'', CNumber x), (''y'', CNumber y)]"
| "decomposeAnimationValue parseColor KColor (VString s) =
     (case parseColor s of
        None \<Rightarrow> None
      | Some (r, g, b, a) \<Rightarrow>
          Some [(''r'', CNumber r), (''g'', CNumber g), (''b'', CNumber b), (''a'', CNumber a)])"
| "decomposeAnimationValue parseColor KDiscrete (VString s) = Some [(''value'', CDiscrete (DString s))]"
| "decomposeAnimationValue parseColor KDiscrete (VBool b) = Some [(''value'', CDiscrete (DBool b))]"
| "decomposeAnimationValue parseColor _ _ = None"

section \<open>Small helpers\<close>

definition toAnimation :: "element_animations \<Rightarrow> element_animations option" where
  "toAnimation a =
     (let nextBindings = filter (\<lambda>(_, b). b \<noteq> None) (bindings a);
          nextChannels = filter (\<lambda>(_, ch). hasChannelKeys ch) (channels a)
      in if nextBindings = [] \<or> nextChannels = [] then None
         else Some \<lparr>bindings = nextBindings, channels = nextChannels\<rparr>)"

definition cloneAnimationsState :: "element_animations option \<Rightarrow> element_animations" where
  "cloneAnimationsState a =
     \<lparr>bindings = (case a of None \<Rightarrow> [] | Some x \<Rightarrow> bindings x),
      channels = (case a of None \<Rightarrow> [] | Some x \<Rightarrow> channels x)\<rparr>"

fun is_discrete :: "channel \<Rightarrow> bool" where
  "is_discrete (DiscreteChannel _) = True"
| "is_discrete (ScalarChannel _) = False"

definition getPrimaryChannelId :: "binding \<Rightarrow> string option" where
  "getPrimaryChannelId b = (case components b of [] \<Rightarrow> None | (_, cid) # _ \<Rightarrow> Some cid)"

fun getScalarSegmentType :: "interpolation \<Rightarrow> segment_type" where
  "getScalarSegmentType IHold = SStep"
| "getScalarSegmentType IBezier = SBezier"
| "getScalarSegmentType ILinear = SLinear"

definition getInterpolationForBinding :: "binding_kind \<Rightarrow> interpolation option \<Rightarrow> interpolation" where
  "getInterpolationForBinding kind interp =
     (if kind = KDiscrete then IHold else case interp of Some i \<Rightarrow> i | None \<Rightarrow> ILinear)"

definition empty_scalar :: scalar_channel where
  "empty_scalar = \<lparr>sc_keys = [], extrapolation = None\<rparr>"

definition createEmptyChannelForBindingKind :: "binding_kind \<Rightarrow> channel" where
  "createEmptyChannelForBindingKind kind =
     (if kind = KDiscrete then DiscreteChannel [] else ScalarChannel empty_scalar)"

definition createScalarKey ::
    "uuid \<Rightarrow> media_time \<Rightarrow> rat \<Rightarrow> interpolation option \<Rightarrow> scalar_key option \<Rightarrow> scalar_key" where
  "createScalarKey kid t v interp previousKey =
     \<lparr>sk_id = kid, sk_time = t, sk_value = v,
      leftHandle = (case previousKey of None \<Rightarrow> None | Some k \<Rightarrow> leftHandle k),
      rightHandle = (case previousKey of None \<Rightarrow> None | Some k \<Rightarrow> rightHandle k),
      segmentToNext = (case previousKey of Some k \<Rightarrow> segmentToNext k
                       | None \<Rightarrow> getScalarSegmentType (case interp of None \<Rightarrow> ILinear | Some i \<Rightarrow> i)),
      tangentMode = (case previousKey of None \<Rightarrow> TFlat | Some k \<Rightarrow> tangentMode k)\<rparr>"

definition createDiscreteKey :: "uuid \<Rightarrow> media_time \<Rightarrow> discrete_value \<Rightarrow> discrete_key" where
  "createDiscreteKey kid t v = \<lparr>dk_id = kid, dk_time = t, dk_value = v\<rparr>"

definition getBinding :: "element_animations option \<Rightarrow> string \<Rightarrow> binding option" where
  "getBinding a path = (case a of None \<Rightarrow> None | Some x \<Rightarrow> prop_get (bindings x) path)"

definition getChannelById :: "element_animations option \<Rightarrow> string \<Rightarrow> channel option" where
  "getChannelById a cid = (case a of None \<Rightarrow> None | Some x \<Rightarrow> prop_get (channels x) cid)"

definition getBindingComponent :: "binding \<Rightarrow> string \<Rightarrow> (string \<times> string) option" where
  "getBindingComponent b componentKey = find (\<lambda>(key, _). key = componentKey) (components b)"

text \<open>JavaScript truthiness of an optional identifier, and \<open>keyframeId ?? generateUUID()\<close>.\<close>

definition truthy_id :: "uuid option \<Rightarrow> bool" where
  "truthy_id kid = (kid \<noteq> None \<and> kid \<noteq> Some [])"

definition id_or_fresh :: "uuid option \<Rightarrow> uuid \<Rightarrow> uuid" where
  "id_or_fresh kid fresh = (case kid of None \<Rightarrow> fresh | Some k \<Rightarrow> k)"

fun key_refs :: "channel \<Rightarrow> (uuid \<times> media_time) list" where
  "key_refs (ScalarChannel c) = map (\<lambda>k. (sk_id k, sk_time k)) (sc_keys c)"
| "key_refs (DiscreteChannel ks) = map (\<lambda>k. (dk_id k, dk_time k)) ks"

definition getTargetKeyMetadata ::
    "channel option \<Rightarrow> media_time \<Rightarrow> uuid option \<Rightarrow> uuid \<Rightarrow> uuid \<times> media_time" where
  "getTargetKeyMetadata ch t kid fresh =
     (let keys = (case ch of None \<Rightarrow> [] | Some c \<Rightarrow> key_refs (normalizeChannel c));
          byTime = (case find (\<lambda>(_, kt). kt = t) keys of
                      Some (i, kt) \<Rightarrow> (i, kt)
                    | None \<Rightarrow> (id_or_fresh kid fresh, t))
      in if truthy_id kid
         then case find (\<lambda>(i, _). Some i = kid) keys of Some (i, _) \<Rightarrow> (i, t) | None \<Rightarrow> byTime
         else byTime)"

section \<open>Inserting and updating keys\<close>

definition upsertDiscreteChannelKey ::
    "discrete_key list option \<Rightarrow> media_time \<Rightarrow> discrete_value \<Rightarrow> uuid option \<Rightarrow> uuid \<Rightarrow>
     discrete_key list" where
  "upsertDiscreteChannelKey ch t v kid fresh =
     (let keys = normalizeDiscreteKeys (case ch of None \<Rightarrow> [] | Some ks \<Rightarrow> ks);
          byTime = (case findIndex (\<lambda>k. dk_time k = t) keys of
                      Some i \<Rightarrow> normalizeDiscreteKeys
                        (keys[i := createDiscreteKey (dk_id (keys ! i)) (dk_time (keys ! i)) v])
                    | None \<Rightarrow> normalizeDiscreteKeys
                        (keys @ [createDiscreteKey (id_or_fresh kid fresh) t v]))
      in if truthy_id kid
         then case findIndex (\<lambda>k. Some (dk_id k) = kid) keys of
                Some i \<Rightarrow> normalizeDiscreteKeys (keys[i := createDiscreteKey (dk_id (keys ! i)) t v])
              | None \<Rightarrow> byTime
         else byTime)"

definition with_interpolation :: "interpolation option \<Rightarrow> scalar_key \<Rightarrow> scalar_key" where
  "with_interpolation interp k =
     (case interp of None \<Rightarrow> k | Some i \<Rightarrow> k\<lparr>segmentToNext := getScalarSegmentType i\<rparr>)"

definition upsertScalarChannelKey ::
    "scalar_channel option \<Rightarrow> media_time \<Rightarrow> rat \<Rightarrow> interpolation option \<Rightarrow> interpolation option \<Rightarrow>
     uuid option \<Rightarrow> uuid \<Rightarrow> scalar_channel" where
  "upsertScalarChannelKey ch t v interp defaultInterp kid fresh =
     (let norm = normalizeScalarChannel (case ch of None \<Rightarrow> empty_scalar | Some c \<Rightarrow> c);
          keys = sc_keys norm;
          finish = (\<lambda>ks. normalizeScalarChannel \<lparr>sc_keys = ks, extrapolation = extrapolation norm\<rparr>);
          byTime = (case findIndex (\<lambda>k. sk_time k = t) keys of
                      Some i \<Rightarrow> finish (keys[i := createScalarKey (sk_id (keys ! i)) (sk_time (keys ! i))
                                  v interp (Some (with_interpolation interp (keys ! i)))])
                    | None \<Rightarrow> finish (keys @ [createScalarKey (id_or_fresh kid fresh) t v
                                  (case interp of None \<Rightarrow> defaultInterp | Some i \<Rightarrow> Some i) None]))
      in if truthy_id kid
         then case findIndex (\<lambda>k. Some (sk_id k) = kid) keys of
                Some i \<Rightarrow> finish (keys[i := createScalarKey (sk_id (keys ! i)) t v interp
                            (Some (with_interpolation interp (keys ! i)))])
              | None \<Rightarrow> byTime
         else byTime)"

definition getChannel :: "element_animations option \<Rightarrow> string \<Rightarrow> channel option" where
  "getChannel a path =
     (case getBinding a path of
        None \<Rightarrow> None
      | Some b \<Rightarrow> (case getPrimaryChannelId b of
          None \<Rightarrow> None
        | Some cid \<Rightarrow> if cid = [] then None else getChannelById a cid))"

text \<open>
  One round of the loop over \<open>binding.components\<close>. The last case, a value of the other kind, does
  not occur: \<open>decomposeAnimationValue\<close> yields discrete values exactly for discrete bindings
  (lemma \<open>decompose_kind\<close>).
\<close>

definition upsert_component ::
    "element_animations option \<Rightarrow> binding_kind \<Rightarrow> (string \<times> component_value) list \<Rightarrow>
     uuid \<times> media_time \<Rightarrow> interpolation option \<Rightarrow> interpolation \<Rightarrow> uuid \<Rightarrow> (string \<times> string) \<Rightarrow>
     (string \<times> channel option) list \<Rightarrow> (string \<times> channel option) list" where
  "upsert_component a kind vals target explicit dflt fresh component chs =
     (case map_of vals (fst component) of
        None \<Rightarrow> chs
      | Some nextValue \<Rightarrow>
          let current = getChannelById a (snd component);
              targetChannel = (case current of
                  Some ch \<Rightarrow> if is_discrete ch = (kind = KDiscrete) then ch
                             else createEmptyChannelForBindingKind kind
                | None \<Rightarrow> createEmptyChannelForBindingKind kind)
          in case (targetChannel, nextValue) of
               (DiscreteChannel ks, CDiscrete v) \<Rightarrow>
                 AList.update (snd component) (Some (DiscreteChannel
                   (upsertDiscreteChannelKey (Some ks) (snd target) v (Some (fst target)) fresh))) chs
             | (ScalarChannel c, CNumber v) \<Rightarrow>
                 AList.update (snd component) (Some (ScalarChannel
                   (upsertScalarChannelKey (Some c) (snd target) v explicit (Some dflt)
                     (Some (fst target)) fresh))) chs
             | _ \<Rightarrow> chs)"

definition upsertPathKeyframe ::
    "(string \<Rightarrow> (rat \<times> rat \<times> rat \<times> rat) option) \<Rightarrow> element_animations option \<Rightarrow> string \<Rightarrow>
     media_time \<Rightarrow> animation_value \<Rightarrow> interpolation option \<Rightarrow> uuid option \<Rightarrow> binding_kind \<Rightarrow>
     interpolation \<Rightarrow> (animation_value \<Rightarrow> animation_value option) \<Rightarrow> uuid \<Rightarrow>
     element_animations option" where
  "upsertPathKeyframe parseColor a path t v interp kid kind defaultInterp coerceValue fresh =
     (case coerceValue v of
        None \<Rightarrow> a
      | Some coerced \<Rightarrow>
          let next = cloneAnimationsState a;
              binding = (case getBinding a path of
                  Some b \<Rightarrow> if b_kind b = kind then cloneAnimationBinding b
                            else createAnimationBinding path kind
                | None \<Rightarrow> createAnimationBinding path kind);
              target = getTargetKeyMetadata (getChannel a path) t kid fresh
          in case decomposeAnimationValue parseColor kind coerced of
               None \<Rightarrow> a
             | Some vals \<Rightarrow>
                 let explicit = (case interp of None \<Rightarrow> None
                        | Some i \<Rightarrow> Some (getInterpolationForBinding kind (Some i)));
                     dflt = getInterpolationForBinding kind (Some defaultInterp)
                 in toAnimation
                      \<lparr>bindings = AList.update path (Some binding) (bindings next),
                       channels = fold (upsert_component a kind vals target explicit dflt fresh)
                         (components binding) (channels next)\<rparr>)"

fun upsertKeyframe ::
    "channel option \<Rightarrow> media_time \<Rightarrow> animation_value \<Rightarrow> interpolation option \<Rightarrow> uuid option \<Rightarrow>
     uuid \<Rightarrow> channel option" where
  "upsertKeyframe None t v interp kid fresh = None"
| "upsertKeyframe (Some (DiscreteChannel ks)) t v interp kid fresh =
     (case v of
        VString s \<Rightarrow> Some (DiscreteChannel (upsertDiscreteChannelKey (Some ks) t (DString s) kid fresh))
      | VBool b \<Rightarrow> Some (DiscreteChannel (upsertDiscreteChannelKey (Some ks) t (DBool b) kid fresh))
      | _ \<Rightarrow> Some (DiscreteChannel ks))"
| "upsertKeyframe (Some (ScalarChannel c)) t v interp kid fresh =
     (case v of
        VNumber x \<Rightarrow> Some (ScalarChannel (upsertScalarChannelKey (Some c) t x interp None kid fresh))
      | _ \<Rightarrow> Some (ScalarChannel c))"

section \<open>Removing and retiming keys\<close>

fun filter_keys :: "(uuid \<Rightarrow> bool) \<Rightarrow> channel \<Rightarrow> channel" where
  "filter_keys P (ScalarChannel c) =
     ScalarChannel (c\<lparr>sc_keys := filter (\<lambda>k. P (sk_id k)) (sc_keys c)\<rparr>)"
| "filter_keys P (DiscreteChannel ks) = DiscreteChannel (filter (\<lambda>k. P (dk_id k)) ks)"

definition removeKeyframe :: "channel option \<Rightarrow> uuid \<Rightarrow> channel option" where
  "removeKeyframe ch kid =
     (case ch of
        None \<Rightarrow> None
      | Some c \<Rightarrow> let next = filter_keys (\<lambda>i. i \<noteq> kid) c
                  in if channel_size next = 0 then None else Some (normalizeChannel next))"

fun set_key_time :: "nat \<Rightarrow> media_time \<Rightarrow> channel \<Rightarrow> channel" where
  "set_key_time i t (ScalarChannel c) =
     ScalarChannel (c\<lparr>sc_keys := (sc_keys c)[i := (sc_keys c ! i)\<lparr>sk_time := t\<rparr>]\<rparr>)"
| "set_key_time i t (DiscreteChannel ks) = DiscreteChannel (ks[i := (ks ! i)\<lparr>dk_time := t\<rparr>])"

definition retimeKeyframe :: "channel option \<Rightarrow> uuid \<Rightarrow> media_time \<Rightarrow> channel option" where
  "retimeKeyframe ch kid t =
     (case ch of
        None \<Rightarrow> None
      | Some c \<Rightarrow> (case findIndex (\<lambda>i. i = kid) (key_ids c) of
                     None \<Rightarrow> Some c
                   | Some i \<Rightarrow> Some (normalizeChannel (set_key_time i t c))))"

text \<open>The branch for an absent or empty channel.\<close>

definition delete_component ::
    "element_animations \<Rightarrow> binding \<Rightarrow> string \<Rightarrow> string \<Rightarrow> element_animations option" where
  "delete_component next b cid path =
     (let chs = AList.delete cid (channels next);
          hasRemainingKeys = list_ex (\<lambda>(_, c). hasChannelKeys (prop_get chs c)) (components b)
      in toAnimation
           \<lparr>bindings = (if hasRemainingKeys then bindings next else AList.delete path (bindings next)),
            channels = chs\<rparr>)"

definition setBindingComponentChannel ::
    "element_animations option \<Rightarrow> string \<Rightarrow> string \<Rightarrow> channel option \<Rightarrow> element_animations option" where
  "setBindingComponentChannel a path componentKey ch =
     (case getBinding a path of
        None \<Rightarrow> a
      | Some b \<Rightarrow> (case getBindingComponent b componentKey of
          None \<Rightarrow> a
        | Some (_, cid) \<Rightarrow>
            let next = cloneAnimationsState a
            in case ch of
                 None \<Rightarrow> delete_component next b cid path
               | Some c \<Rightarrow>
                   if \<not> hasChannelKeys (Some c) then delete_component next b cid path
                   else toAnimation (next\<lparr>channels :=
                          AList.update cid (Some (normalizeChannel c)) (channels next)\<rparr>)))"

definition setChannel ::
    "element_animations option \<Rightarrow> string \<Rightarrow> channel option \<Rightarrow>
     js_error + element_animations option" where
  "setChannel a path ch =
     (case getBinding a path of
        None \<Rightarrow> Inr a
      | Some b \<Rightarrow>
          if length (components b) \<noteq> 1
          then Inl (Thrown ''setChannel only supports single-component bindings'')
          else Inr (setBindingComponentChannel a path (fst (hd (components b))) ch))"

text \<open>A patch field is absent (\<open>None\<close>), \<open>null\<close> (\<open>Some None\<close>) or a handle.\<close>

record curve_patch =
  p_leftHandle :: "curve_handle option option"
  p_rightHandle :: "curve_handle option option"
  p_segmentToNext :: "segment_type option"
  p_tangentMode :: "tangent_mode option"

definition patch_key :: "curve_patch \<Rightarrow> scalar_key \<Rightarrow> scalar_key" where
  "patch_key patch k =
     k\<lparr>leftHandle := (case p_leftHandle patch of None \<Rightarrow> leftHandle k | Some h \<Rightarrow> h),
       rightHandle := (case p_rightHandle patch of None \<Rightarrow> rightHandle k | Some h \<Rightarrow> h),
       segmentToNext := (case p_segmentToNext patch of None \<Rightarrow> segmentToNext k | Some g \<Rightarrow> g),
       tangentMode := (case p_tangentMode patch of None \<Rightarrow> tangentMode k | Some m \<Rightarrow> m)\<rparr>"

definition updateScalarKeyframeCurve ::
    "element_animations option \<Rightarrow> string \<Rightarrow> string \<Rightarrow> uuid \<Rightarrow> curve_patch \<Rightarrow>
     element_animations option" where
  "updateScalarKeyframeCurve a path componentKey kid patch =
     (case getBinding a path of
        None \<Rightarrow> a
      | Some b \<Rightarrow> (case getBindingComponent b componentKey of
          None \<Rightarrow> a
        | Some (_, cid) \<Rightarrow> (case getChannelById a cid of
            Some (ScalarChannel c) \<Rightarrow>
              (case findIndex (\<lambda>k. sk_id k = kid) (sc_keys c) of
                 None \<Rightarrow> a
               | Some i \<Rightarrow> setBindingComponentChannel a path componentKey
                   (Some (ScalarChannel \<lparr>sc_keys = (sc_keys c)[i := patch_key patch (sc_keys c ! i)],
                                         extrapolation = extrapolation c\<rparr>)))
          | _ \<Rightarrow> a)))"

definition removeElementKeyframe ::
    "element_animations option \<Rightarrow> string \<Rightarrow> uuid \<Rightarrow> element_animations option" where
  "removeElementKeyframe a path kid =
     (case getBinding a path of
        None \<Rightarrow> a
      | Some b \<Rightarrow>
          let next = cloneAnimationsState a;
              chs = fold (\<lambda>(_, cid) m. AList.update cid (removeKeyframe (prop_get m cid) kid) m)
                      (components b) (channels next);
              hasRemainingKeys = list_ex (\<lambda>(_, cid). hasChannelKeys (prop_get chs cid)) (components b)
          in if hasRemainingKeys then toAnimation \<lparr>bindings = bindings next, channels = chs\<rparr>
             else toAnimation \<lparr>bindings = AList.delete path (bindings next),
                    channels = fold (\<lambda>(_, cid). AList.delete cid) (components b) chs\<rparr>)"

definition retimeElementKeyframe ::
    "element_animations option \<Rightarrow> string \<Rightarrow> uuid \<Rightarrow> media_time \<Rightarrow> element_animations option" where
  "retimeElementKeyframe a path kid t =
     (case getBinding a path of
        None \<Rightarrow> a
      | Some b \<Rightarrow>
          let next = cloneAnimationsState a
          in toAnimation (next\<lparr>channels :=
               fold (\<lambda>(_, cid) m. AList.update cid (retimeKeyframe (prop_get m cid) kid t) m)
                 (components b) (channels next)\<rparr>))"

section \<open>Cloning\<close>

text \<open>The \<open>Map\<close> from old to new key ids of the primary channel; one \<open>generateUUID\<close> per key.\<close>

fun key_id_map :: "(nat \<Rightarrow> uuid) \<Rightarrow> nat \<Rightarrow> bool \<Rightarrow> uuid list \<Rightarrow> (uuid \<times> uuid) list \<Rightarrow>
    (uuid \<times> uuid) list \<times> nat" where
  "key_id_map gen n regen [] m = (m, n)"
| "key_id_map gen n regen (i # is) m =
     (if regen then key_id_map gen (Suc n) regen is (AList.update i (gen n) m)
      else key_id_map gen n regen is (AList.update i i m))"

fun map_key_ids :: "(uuid \<Rightarrow> uuid) \<Rightarrow> channel \<Rightarrow> channel" where
  "map_key_ids f (ScalarChannel c) =
     ScalarChannel (c\<lparr>sc_keys := map (\<lambda>k. k\<lparr>sk_id := f (sk_id k)\<rparr>) (sc_keys c)\<rparr>)"
| "map_key_ids f (DiscreteChannel ks) = DiscreteChannel (map (\<lambda>k. k\<lparr>dk_id := f (dk_id k)\<rparr>) ks)"

definition clone_component ::
    "element_animations \<Rightarrow> (uuid \<times> uuid) list \<Rightarrow> (string \<times> string) \<Rightarrow>
     (string \<times> channel option) list \<Rightarrow> (string \<times> channel option) list" where
  "clone_component a ids component chs =
     (case prop_get (channels a) (snd component) of
        None \<Rightarrow> chs
      | Some ch \<Rightarrow> AList.update (snd component)
          (Some (normalizeChannel
             (map_key_ids (\<lambda>i. case map_of ids i of None \<Rightarrow> i | Some j \<Rightarrow> j) ch))) chs)"

fun clone_bindings ::
    "(nat \<Rightarrow> uuid) \<Rightarrow> nat \<Rightarrow> bool \<Rightarrow> element_animations \<Rightarrow> (string \<times> binding option) list \<Rightarrow>
     (string \<times> channel option) list \<Rightarrow> (string \<times> channel option) list \<times> nat" where
  "clone_bindings gen n regen a [] chs = (chs, n)"
| "clone_bindings gen n regen a ((_, None) # bs) chs = clone_bindings gen n regen a bs chs"
| "clone_bindings gen n regen a ((_, Some b) # bs) chs =
     (let primary = prop_get (channels a)
            (case getPrimaryChannelId b of None \<Rightarrow> [] | Some cid \<Rightarrow> cid);
          (ids, n') = key_id_map gen n regen
            (case primary of None \<Rightarrow> [] | Some ch \<Rightarrow> key_ids ch) []
      in clone_bindings gen n' regen a bs (fold (clone_component a ids) (components b) chs))"

definition cloneAnimations ::
    "(nat \<Rightarrow> uuid) \<Rightarrow> nat \<Rightarrow> element_animations option \<Rightarrow> bool \<Rightarrow> element_animations option \<times> nat" where
  "cloneAnimations gen n a regen =
     (case a of
        None \<Rightarrow> (None, n)
      | Some x \<Rightarrow>
          let bs = map (\<lambda>(path, b). (path, map_option cloneAnimationBinding b)) (bindings x);
              (chs, n') = clone_bindings gen n regen x bs []
          in (toAnimation \<lparr>bindings = bs, channels = chs\<rparr>, n'))"

section \<open>Splitting at a time\<close>

definition norm_nonempty_scalar ::
    "(extrapolation_mode \<times> extrapolation_mode) option \<Rightarrow> scalar_key list \<Rightarrow> scalar_channel option" where
  "norm_nonempty_scalar ext ks =
     (if ks = [] then None
      else Some (normalizeScalarChannel \<lparr>sc_keys = ks, extrapolation = ext\<rparr>))"

definition norm_nonempty_discrete :: "discrete_key list \<Rightarrow> discrete_key list option" where
  "norm_nonempty_discrete ks = (if ks = [] then None else Some (normalizeDiscreteKeys ks))"

definition splitDiscreteChannelAtTime ::
    "discrete_key list option \<Rightarrow> media_time \<Rightarrow> uuid \<Rightarrow> uuid \<Rightarrow> bool \<Rightarrow>
     discrete_key list option \<times> discrete_key list option" where
  "splitDiscreteChannelAtTime ch splitTime leftId rightId boundary =
     (case ch of
        None \<Rightarrow> (None, None)
      | Some ks0 \<Rightarrow>
          if ks0 = [] then (None, None)
          else
            let keys = normalizeDiscreteKeys ks0;
                leftKeys = filter (\<lambda>k. dk_time k \<le> splitTime) keys;
                rightKeys = map (\<lambda>k. k\<lparr>dk_time := subMediaTime (dk_time k) splitTime\<rparr>)
                              (filter (\<lambda>k. splitTime \<le> dk_time k) keys)
            in if boundary
               then
                 let hasLeft = list_ex (\<lambda>k. dk_time k = splitTime) leftKeys;
                     hasRight = list_ex (\<lambda>k. dk_time k = 0) rightKeys;
                     v = getDiscreteChannelValueAtTime (Some keys) (of_int splitTime)
                           (dk_value (hd keys))
                 in (norm_nonempty_discrete
                       (if hasLeft then leftKeys else leftKeys @ [createDiscreteKey leftId splitTime v]),
                     norm_nonempty_discrete
                       (if hasRight then rightKeys
                        else createDiscreteKey rightId ZERO_MEDIA_TIME v # rightKeys))
               else (norm_nonempty_discrete leftKeys, norm_nonempty_discrete rightKeys))"

definition lerpPoint :: "rat \<times> rat \<Rightarrow> rat \<times> rat \<Rightarrow> rat \<Rightarrow> rat \<times> rat" where
  "lerpPoint left right progress =
     (fst left + (fst right - fst left) * progress, snd left + (snd right - snd left) * progress)"

text \<open>The segment the loop stops at.\<close>

fun find_segment :: "media_time \<Rightarrow> scalar_key list \<Rightarrow> (scalar_key \<times> scalar_key) option" where
  "find_segment t (k # k' # ks) =
     (if sk_time k < t \<and> t < sk_time k' then Some (k, k') else find_segment t (k' # ks))"
| "find_segment t _ = None"

definition shift_key :: "media_time \<Rightarrow> scalar_key \<Rightarrow> scalar_key" where
  "shift_key s k = k\<lparr>sk_time := subMediaTime (sk_time k) s\<rparr>"

text \<open>
  The bezier branch, by de Casteljau subdivision. \<open>filter (key.time < splitTime)\<close> contains
  \<open>leftKey\<close> already, and \<open>leftKey\<close> with its new handle is appended once more, as in the source.
\<close>

definition split_bezier_segment ::
    "scalar_key list \<Rightarrow> media_time \<Rightarrow> uuid \<Rightarrow> uuid \<Rightarrow> rat \<Rightarrow> scalar_key \<Rightarrow> scalar_key \<Rightarrow>
     scalar_key list \<times> scalar_key list" where
  "split_bezier_segment keys splitTime leftId rightId v leftKey rightKey =
     (let rh = right_handle_of leftKey rightKey;
          lh = left_handle_of leftKey rightKey;
          progress = solveBezierProgressForTime (of_int splitTime) leftKey rightKey;
          p0 = (of_int (sk_time leftKey), sk_value leftKey);
          p1 = (of_int (sk_time leftKey) + fst rh, sk_value leftKey + snd rh);
          p2 = (of_int (sk_time rightKey) + fst lh, sk_value rightKey + snd lh);
          p3 = (of_int (sk_time rightKey), sk_value rightKey);
          q0 = lerpPoint p0 p1 progress; q1 = lerpPoint p1 p2 progress;
          q2 = lerpPoint p2 p3 progress;
          r0 = lerpPoint q0 q1 progress; r1 = lerpPoint q1 q2 progress;
          splitPoint = lerpPoint r0 r1 progress
      in (filter (\<lambda>k. sk_time k < splitTime) keys
            @ [leftKey\<lparr>rightHandle :=
                 Some \<lparr>dt = roundMediaTime (fst q0 - fst p0), dv = snd q0 - snd p0\<rparr>\<rparr>,
               \<lparr>sk_id = leftId, sk_time = splitTime, sk_value = v,
                leftHandle = Some \<lparr>dt = roundMediaTime (fst r0 - fst splitPoint),
                                   dv = snd r0 - snd splitPoint\<rparr>,
                rightHandle = None,
                segmentToNext = segmentToNext leftKey, tangentMode = tangentMode leftKey\<rparr>],
          [\<lparr>sk_id = rightId, sk_time = ZERO_MEDIA_TIME, sk_value = v, leftHandle = None,
            rightHandle = Some \<lparr>dt = roundMediaTime (fst r1 - fst splitPoint),
                                dv = snd r1 - snd splitPoint\<rparr>,
            segmentToNext = SBezier, tangentMode = tangentMode leftKey\<rparr>,
           (shift_key splitTime rightKey)\<lparr>leftHandle :=
              Some \<lparr>dt = roundMediaTime (fst q2 - fst p3), dv = snd q2 - snd p3\<rparr>\<rparr>]
            @ map (shift_key splitTime) (filter (\<lambda>k. sk_time rightKey < sk_time k) keys)))"

definition splitScalarChannelAtTime ::
    "scalar_channel option \<Rightarrow> media_time \<Rightarrow> uuid \<Rightarrow> uuid \<Rightarrow> bool \<Rightarrow>
     scalar_channel option \<times> scalar_channel option" where
  "splitScalarChannelAtTime ch splitTime leftId rightId boundary =
     (case ch of
        None \<Rightarrow> (None, None)
      | Some c0 \<Rightarrow>
          if sc_keys c0 = [] then (None, None)
          else
            let c = normalizeScalarChannel c0;
                keys = sc_keys c;
                leftKeys = filter (\<lambda>k. sk_time k \<le> splitTime) keys;
                rightKeys = map (shift_key splitTime) (filter (\<lambda>k. splitTime \<le> sk_time k) keys);
                hasLeft = list_ex (\<lambda>k. sk_time k = splitTime) leftKeys;
                hasRight = list_ex (\<lambda>k. sk_time k = 0) rightKeys;
                finish = norm_nonempty_scalar (extrapolation c)
            in if \<not> boundary \<or> hasLeft \<and> hasRight then (finish leftKeys, finish rightKeys)
               else case find_segment splitTime keys of
                      None \<Rightarrow> (finish leftKeys, finish rightKeys)
                    | Some (leftKey, rightKey) \<Rightarrow>
                        let v = getScalarChannelValueAtTime (Some c) (of_int splitTime)
                                  (sk_value leftKey)
                        in if segmentToNext leftKey = SBezier
                           then case split_bezier_segment keys splitTime leftId rightId v
                                       leftKey rightKey of
                                  (ls, rs) \<Rightarrow> (finish ls, finish rs)
                           else (finish (leftKeys @
                                   [createScalarKey leftId splitTime v (Some ILinear) None]),
                                 finish (createScalarKey rightId ZERO_MEDIA_TIME v
                                   (Some (getScalarSegmentInterpolation (segmentToNext leftKey))) None
                                   # rightKeys)))"

text \<open>\<open>channel?.kind === "discrete"\<close> decides; an absent channel takes the scalar path.\<close>

definition split_channel ::
    "channel option \<Rightarrow> media_time \<Rightarrow> uuid \<Rightarrow> uuid \<Rightarrow> bool \<Rightarrow> channel option \<times> channel option" where
  "split_channel ch splitTime leftId rightId boundary =
     (case ch of
        Some (DiscreteChannel ks) \<Rightarrow>
          map_prod (map_option DiscreteChannel) (map_option DiscreteChannel)
            (splitDiscreteChannelAtTime (Some ks) splitTime leftId rightId boundary)
      | Some (ScalarChannel c) \<Rightarrow>
          map_prod (map_option ScalarChannel) (map_option ScalarChannel)
            (splitScalarChannelAtTime (Some c) splitTime leftId rightId boundary)
      | None \<Rightarrow> (None, None))"

definition set_if_some ::
    "string \<Rightarrow> 'a option \<Rightarrow> (string \<times> 'a option) list \<Rightarrow> (string \<times> 'a option) list" where
  "set_if_some k v obj = (case v of None \<Rightarrow> obj | Some x \<Rightarrow> AList.update k (Some x) obj)"

fun split_components ::
    "element_animations \<Rightarrow> media_time \<Rightarrow> uuid \<Rightarrow> uuid \<Rightarrow> bool \<Rightarrow> (string \<times> string) list \<Rightarrow>
     (string \<times> channel option) list \<times> (string \<times> channel option) list \<times> bool \<times> bool \<Rightarrow>
     (string \<times> channel option) list \<times> (string \<times> channel option) list \<times> bool \<times> bool" where
  "split_components a splitTime leftId rightId boundary [] st = st"
| "split_components a splitTime leftId rightId boundary ((_, cid) # cs) (ls, rs, hasL, hasR) =
     (case split_channel (prop_get (channels a) cid) splitTime leftId rightId boundary of
        (l, r) \<Rightarrow> split_components a splitTime leftId rightId boundary cs
                   (set_if_some cid l ls, set_if_some cid r rs, hasL \<or> l \<noteq> None, hasR \<or> r \<noteq> None))"

text \<open>The loop over the bindings; the two results are built side by side.\<close>

fun split_bindings ::
    "(nat \<Rightarrow> uuid) \<Rightarrow> element_animations \<Rightarrow> media_time \<Rightarrow> bool \<Rightarrow> nat \<Rightarrow>
     (string \<times> binding option) list \<Rightarrow> element_animations \<times> element_animations \<Rightarrow>
     (element_animations \<times> element_animations) \<times> nat" where
  "split_bindings gen a splitTime boundary n [] st = (st, n)"
| "split_bindings gen a splitTime boundary n ((_, None) # bs) st =
     split_bindings gen a splitTime boundary n bs st"
| "split_bindings gen a splitTime boundary n ((path, Some b) # bs) (la, ra) =
     (case split_components a splitTime (gen n) (gen (Suc n)) boundary (components b)
             (channels la, channels ra, False, False) of
        (ls, rs, hasL, hasR) \<Rightarrow>
          split_bindings gen a splitTime boundary (Suc (Suc n)) bs
            (\<lparr>bindings = (if hasL then AList.update path (Some (cloneAnimationBinding b)) (bindings la)
                          else bindings la), channels = ls\<rparr>,
             \<lparr>bindings = (if hasR then AList.update path (Some (cloneAnimationBinding b)) (bindings ra)
                          else bindings ra), channels = rs\<rparr>))"

definition splitAnimationsAtTime ::
    "(nat \<Rightarrow> uuid) \<Rightarrow> nat \<Rightarrow> element_animations option \<Rightarrow> media_time \<Rightarrow> bool \<Rightarrow>
     (element_animations option \<times> element_animations option) \<times> nat" where
  "splitAnimationsAtTime gen n a splitTime boundary =
     (case a of
        None \<Rightarrow> ((None, None), n)
      | Some x \<Rightarrow>
          case split_bindings gen x splitTime boundary n (bindings x)
                 (cloneAnimationsState None, cloneAnimationsState None) of
            ((la, ra), n') \<Rightarrow> ((toAnimation la, toAnimation ra), n'))"

definition clampAnimationsToDuration ::
    "(nat \<Rightarrow> uuid) \<Rightarrow> nat \<Rightarrow> element_animations option \<Rightarrow> media_time \<Rightarrow>
     element_animations option \<times> nat" where
  "clampAnimationsToDuration gen n a dur =
     (if a = None \<or> dur \<le> 0 then (None, n)
      else case splitAnimationsAtTime gen n a dur True of ((l, _), n') \<Rightarrow> (l, n'))"

section \<open>The invariant of an element's animations\<close>

text \<open>
  What \<open>toAnimation\<close> establishes and every operation keeps: property names are unique, no binding
  is \<open>undefined\<close>, every channel has keys and is in normal form, and neither map is empty (an element
  without animations has \<open>undefined\<close> instead).
\<close>

definition channels_normal :: "(string \<times> channel option) list \<Rightarrow> bool" where
  "channels_normal chs \<longleftrightarrow> distinct (map fst chs) \<and>
     (\<forall>(c, ch) \<in> set chs. \<forall>x. ch = Some x \<longrightarrow> normalizeChannel x = x)"

definition anim_inv :: "element_animations \<Rightarrow> bool" where
  "anim_inv a \<longleftrightarrow> distinct (map fst (bindings a)) \<and> channels_normal (channels a)
     \<and> bindings a \<noteq> [] \<and> channels a \<noteq> []
     \<and> (\<forall>(p, b) \<in> set (bindings a). b \<noteq> None) \<and> (\<forall>(c, ch) \<in> set (channels a). hasChannelKeys ch)"

definition anim_ok :: "element_animations option \<Rightarrow> bool" where
  "anim_ok a \<longleftrightarrow> (case a of None \<Rightarrow> True | Some x \<Rightarrow> anim_inv x)"

lemma distinct_fst_filter: "distinct (map fst xs) \<Longrightarrow> distinct (map fst (filter P xs))"
  by (induction xs) auto

lemma toAnimation_inv:
  "distinct (map fst bs) \<Longrightarrow> channels_normal chs \<Longrightarrow>
   anim_ok (toAnimation \<lparr>bindings = bs, channels = chs\<rparr>)"
  by (auto simp: toAnimation_def anim_ok_def anim_inv_def channels_normal_def Let_def
      distinct_fst_filter)

lemma in_set_update:
  "(c, v) \<in> set (AList.update k w m) \<Longrightarrow> (c = k \<and> v = w) \<or> (c, v) \<in> set m"
  by (induction m) (auto split: if_splits)

lemma in_set_delete: "(c, v) \<in> set (AList.delete k m) \<Longrightarrow> (c, v) \<in> set m"
  by (auto simp: AList.delete_eq)

lemma channels_normal_update [wf_intros]:
  "channels_normal chs \<Longrightarrow> (\<And>x. ch = Some x \<Longrightarrow> normalizeChannel x = x) \<Longrightarrow>
   channels_normal (AList.update k ch chs)"
  by (auto simp: channels_normal_def distinct_update dest!: in_set_update)

lemma channels_normal_delete [wf_intros]:
  "channels_normal chs \<Longrightarrow> channels_normal (AList.delete k chs)"
  unfolding channels_normal_def by (auto simp: distinct_delete dest!: in_set_delete)

lemma channels_normal_Nil [simp]: "channels_normal []"
  by (simp add: channels_normal_def)

lemma channels_normal_fold:
  "channels_normal chs \<Longrightarrow> (\<And>x m. channels_normal m \<Longrightarrow> channels_normal (f x m)) \<Longrightarrow>
   channels_normal (fold f xs chs)"
  by (induction xs arbitrary: chs) auto

lemma channels_normal_get:
  "channels_normal chs \<Longrightarrow> prop_get chs c = Some x \<Longrightarrow> normalizeChannel x = x"
  by (auto simp: channels_normal_def prop_get_def split: option.splits dest!: map_of_SomeD)

lemma anim_okD:
  assumes "anim_ok a"
  shows "distinct (map fst (bindings (cloneAnimationsState a)))"
    "channels_normal (channels (cloneAnimationsState a))"
  using assms by (auto simp: anim_ok_def anim_inv_def cloneAnimationsState_def split: option.splits)

lemma upsertDiscrete_normal:
  "normalizeDiscreteKeys (upsertDiscreteChannelKey ch t v kid fresh)
   = upsertDiscreteChannelKey ch t v kid fresh"
  by (simp add: upsertDiscreteChannelKey_def Let_def discrete_nf.norm_idem split: option.splits)

lemma upsertScalar_normal:
  "normalizeScalarChannel (upsertScalarChannelKey ch t v i d kid fresh)
   = upsertScalarChannelKey ch t v i d kid fresh"
  by (simp add: upsertScalarChannelKey_def Let_def split: option.splits)

lemma upsert_component_normal:
  "channels_normal chs \<Longrightarrow> channels_normal (upsert_component a kind vals target e d fresh cmp chs)"
  by (auto simp: upsert_component_def Let_def upsertDiscrete_normal upsertScalar_normal
      split: option.splits channel.splits component_value.splits if_splits intro!: wf_intros)

lemma removeKeyframe_normal: "removeKeyframe ch kid = Some x \<Longrightarrow> normalizeChannel x = x"
  by (auto simp: removeKeyframe_def Let_def normalizeChannel_idem split: option.splits if_splits)

lemma retimeKeyframe_normal:
  "retimeKeyframe ch kid t = Some x \<Longrightarrow> (\<And>y. ch = Some y \<Longrightarrow> normalizeChannel y = y) \<Longrightarrow>
   normalizeChannel x = x"
  by (auto simp: retimeKeyframe_def normalizeChannel_idem split: option.splits)

lemma upsertPathKeyframe_ok:
  assumes "anim_ok a"
  shows "anim_ok (upsertPathKeyframe pc a path t v i kid kind d coerce fresh)"
  using assms anim_okD [OF assms]
  by (auto simp: upsertPathKeyframe_def Let_def distinct_update split: option.splits
      intro!: toAnimation_inv channels_normal_fold upsert_component_normal)

lemma delete_component_ok:
  "distinct (map fst (bindings x)) \<Longrightarrow> channels_normal (channels x) \<Longrightarrow>
   anim_ok (delete_component x b cid path)"
  unfolding delete_component_def Let_def
  by (intro toAnimation_inv) (auto simp: distinct_delete intro: wf_intros)

lemma setBindingComponentChannel_ok:
  assumes "anim_ok a"
  shows "anim_ok (setBindingComponentChannel a path ck ch)"
proof -
  note d = anim_okD [OF assms]
  have "anim_ok (toAnimation ((cloneAnimationsState a)\<lparr>channels := AList.update cid
      (Some (normalizeChannel c)) (channels (cloneAnimationsState a))\<rparr>))" for cid c
    using d by (cases "cloneAnimationsState a")
      (auto intro!: toAnimation_inv wf_intros simp: normalizeChannel_idem)
  then show ?thesis using assms delete_component_ok [OF d]
    by (auto simp: setBindingComponentChannel_def Let_def split: option.splits)
qed

lemma updateScalarKeyframeCurve_ok:
  "anim_ok a \<Longrightarrow> anim_ok (updateScalarKeyframeCurve a path ck kid patch)"
  by (auto simp: updateScalarKeyframeCurve_def setBindingComponentChannel_ok
      split: option.splits channel.splits)

lemma removeElementKeyframe_ok:
  assumes "anim_ok a"
  shows "anim_ok (removeElementKeyframe a path kid)"
proof (cases "getBinding a path")
  case None
  then show ?thesis using assms by (simp add: removeElementKeyframe_def)
next
  case (Some b)
  note d = anim_okD [OF assms]
  have n: "channels_normal (fold (\<lambda>(_, cid) m. AList.update cid (removeKeyframe (prop_get m cid) kid) m)
      (components b) (channels (cloneAnimationsState a)))"
    using d(2) by (rule channels_normal_fold)
      (auto intro!: wf_intros dest: removeKeyframe_normal)
  show ?thesis unfolding removeElementKeyframe_def Some
    by (auto simp: Let_def distinct_delete d n dest: removeKeyframe_normal
        intro!: toAnimation_inv channels_normal_fold wf_intros)
qed

lemma retimeElementKeyframe_ok:
  assumes "anim_ok a"
  shows "anim_ok (retimeElementKeyframe a path kid t)"
proof (cases "getBinding a path")
  case None
  then show ?thesis using assms by (simp add: retimeElementKeyframe_def)
next
  case (Some b)
  note d = anim_okD [OF assms]
  have n: "channels_normal (fold (\<lambda>(_, cid) m. AList.update cid (retimeKeyframe (prop_get m cid) kid t) m)
      (components b) (channels (cloneAnimationsState a)))"
    using d(2) by (rule channels_normal_fold)
      (auto intro!: wf_intros dest: retimeKeyframe_normal channels_normal_get)
  then have "anim_ok (toAnimation \<lparr>bindings = bindings (cloneAnimationsState a), channels =
      fold (\<lambda>(_, cid) m. AList.update cid (retimeKeyframe (prop_get m cid) kid t) m)
        (components b) (channels (cloneAnimationsState a))\<rparr>)"
    using d(1) by (intro toAnimation_inv) auto
  then show ?thesis
    by (cases "cloneAnimationsState a") (simp add: retimeElementKeyframe_def Some)
qed

lemma clone_bindings_normal:
  "channels_normal chs \<Longrightarrow> channels_normal (fst (clone_bindings gen n regen a bs chs))"
proof (induction gen n regen a bs chs rule: clone_bindings.induct)
  case (3 gen n regen a p b bs chs)
  have "channels_normal (fold (clone_component a ids) (components b) chs)" for ids
    using 3(2) by (rule channels_normal_fold)
      (auto simp: clone_component_def normalizeChannel_idem split: option.splits intro!: wf_intros)
  with 3(1) show ?case by (auto simp: Let_def split: prod.splits)
qed simp_all

lemma cloneAnimations_ok:
  assumes "anim_ok a"
  shows "anim_ok (fst (cloneAnimations gen n a regen))"
proof (cases a)
  case None
  then show ?thesis by (simp add: cloneAnimations_def anim_ok_def)
next
  case (Some x)
  define bs where "bs = map (\<lambda>(path, b). (path, map_option cloneAnimationBinding b)) (bindings x)"
  obtain chs n' where c: "clone_bindings gen n regen x bs [] = (chs, n')" by fastforce
  have "map fst bs = map fst (bindings x)" by (simp add: bs_def comp_def case_prod_beta)
  then have "distinct (map fst bs)" using assms Some by (simp add: anim_ok_def anim_inv_def)
  moreover have "channels_normal chs"
    using clone_bindings_normal [OF channels_normal_Nil, of gen n regen x bs] c by simp
  ultimately have "anim_ok (toAnimation \<lparr>bindings = bs, channels = chs\<rparr>)" by (rule toAnimation_inv)
  then show ?thesis using Some c by (simp add: cloneAnimations_def flip: bs_def)
qed

section \<open>Splitting: normal form and time ranges\<close>

lemma norm_nonempty_scalar_Some:
  assumes "norm_nonempty_scalar e ks = Some x"
  shows "normalizeScalarChannel x = x" "sk_time ` set (sc_keys x) = sk_time ` set ks"
    "sc_keys x \<noteq> []"
  using assms scalar_nf.set_times_norm [of ks] scalar_nf.norm_Nil_iff [of ks]
  by (auto simp: norm_nonempty_scalar_def simp del: set_sort split: if_splits)

lemma norm_nonempty_discrete_Some:
  assumes "norm_nonempty_discrete ks = Some x"
  shows "normalizeDiscreteKeys x = x" "dk_time ` set x = dk_time ` set ks" "x \<noteq> []"
  using assms discrete_nf.set_times_norm [of ks] discrete_nf.norm_Nil_iff [of ks]
  by (auto simp: norm_nonempty_discrete_def discrete_nf.norm_idem split: if_splits)

lemma shift_key_proj [simp]:
  "sk_time (shift_key s k) = sk_time k - s" "sk_value (shift_key s k) = sk_value k"
  "sk_id (shift_key s k) = sk_id k" "segmentToNext (shift_key s k) = segmentToNext k"
  by (simp_all add: shift_key_def)

lemma find_segment_Some:
  "find_segment t ks = Some (k, k') \<Longrightarrow> sk_time k < t \<and> t < sk_time k' \<and> k \<in> set ks \<and> k' \<in> set ks"
  by (induction t ks rule: find_segment.induct) (auto split: if_splits)

lemma split_bezier_times:
  assumes "split_bezier_segment keys s li ri v k k' = (ls, rs)" and "sk_time k < s" and "s < sk_time k'"
  shows "\<forall>x \<in> set ls. sk_time x \<le> s" and "\<forall>x \<in> set rs. 0 \<le> sk_time x"
  using assms by (auto simp: split_bezier_segment_def Let_def)

lemma scalar_range_finish:
  assumes "norm_nonempty_scalar e ks = Some x" and "\<forall>k \<in> set ks. P (sk_time k)"
  shows "normalizeScalarChannel x = x \<and> sc_keys x \<noteq> [] \<and> (\<forall>k \<in> set (sc_keys x). P (sk_time k))"
proof -
  have "\<forall>t \<in> sk_time ` set (sc_keys x). P t"
    unfolding norm_nonempty_scalar_Some(2) [OF assms(1)] using assms(2) by blast
  then show ?thesis using norm_nonempty_scalar_Some(1,3) [OF assms(1)] by simp
qed

text \<open>Every branch of the scalar split ends in \<open>norm_nonempty_scalar\<close> of one of three key lists.\<close>

lemma splitScalar_cases:
  assumes "splitScalarChannelAtTime (Some c) s li ri b = (l, r)" and "sc_keys c \<noteq> []"
  defines "ks \<equiv> norm_scalar_keys (sc_keys c)"
  obtains (plain) "l = norm_nonempty_scalar (extrapolation c) (filter (\<lambda>k. sk_time k \<le> s) ks)"
      "r = norm_nonempty_scalar (extrapolation c) (map (shift_key s) (filter (\<lambda>k. s \<le> sk_time k) ks))"
      "b \<Longrightarrow> (\<exists>k \<in> set ks. sk_time k = s) \<or> find_segment s ks = None"
  | (bezier) k k' ls rs v where "b" "find_segment s ks = Some (k, k')" "segmentToNext k = SBezier"
      "split_bezier_segment ks s li ri v k k' = (ls, rs)"
      "l = norm_nonempty_scalar (extrapolation c) ls" "r = norm_nonempty_scalar (extrapolation c) rs"
  | (boundary) k k' v where "b" "find_segment s ks = Some (k, k')" "segmentToNext k \<noteq> SBezier"
      "v = getScalarChannelValueAtTime (Some (normalizeScalarChannel c)) (of_int s) (sk_value k)"
      "l = norm_nonempty_scalar (extrapolation c)
         (filter (\<lambda>k. sk_time k \<le> s) ks @ [createScalarKey li s v (Some ILinear) None])"
      "r = norm_nonempty_scalar (extrapolation c)
         (createScalarKey ri 0 v (Some (getScalarSegmentInterpolation (segmentToNext k))) None
          # map (shift_key s) (filter (\<lambda>k. s \<le> sk_time k) ks))"
proof -
  define lk where "lk = filter (\<lambda>k. sk_time k \<le> s) ks"
  define rk where "rk = map (shift_key s) (filter (\<lambda>k. s \<le> sk_time k) ks)"
  note defs = splitScalarChannelAtTime_def Let_def option.case if_not_P [OF assms(2)]
    sc_keys_normalize extrapolation_normalize ks_def [symmetric] lk_def [symmetric] rk_def [symmetric]
  show ?thesis
  proof (cases "\<not> b \<or> list_ex (\<lambda>k. sk_time k = s) lk \<and> list_ex (\<lambda>k. sk_time k = 0) rk")
    case True
    then have "b \<Longrightarrow> \<exists>k \<in> set ks. sk_time k = s" by (auto simp: list_ex_iff lk_def)
    moreover from True have "(l, r) = (norm_nonempty_scalar (extrapolation c) lk, norm_nonempty_scalar (extrapolation c) rk)"
      using assms(1) unfolding defs by (simp only: if_True)
    ultimately show ?thesis using plain unfolding lk_def rk_def by blast
  next
    case False
    then have b: "b" by blast
    note res = assms(1) [unfolded defs if_not_P [OF False]]
    show ?thesis
    proof (cases "find_segment s ks")
      case None
      with res show ?thesis using plain None unfolding lk_def rk_def by simp
    next
      case (Some p)
      then obtain k k' where p: "find_segment s ks = Some (k, k')" by (cases p) simp
      let ?v = "getScalarChannelValueAtTime (Some (normalizeScalarChannel c)) (of_int s) (sk_value k)"
      obtain bl br where sb: "split_bezier_segment ks s li ri ?v k k' = (bl, br)" by fastforce
      show ?thesis
      proof (cases "segmentToNext k = SBezier")
        case True
        then show ?thesis using bezier [OF b p True sb] res unfolding p option.case prod.case sb by simp
      next
        case False
        then show ?thesis using boundary [OF b p False refl] res
          unfolding p option.case prod.case lk_def rk_def ZERO_MEDIA_TIME_def by simp
      qed
    qed
  qed
qed

lemma splitScalar_times:
  assumes "splitScalarChannelAtTime ch s li ri b = (l, r)"
  shows "l = Some x \<Longrightarrow> normalizeScalarChannel x = x \<and> sc_keys x \<noteq> [] \<and> (\<forall>k \<in> set (sc_keys x). sk_time k \<le> s)"
    and "r = Some x \<Longrightarrow> normalizeScalarChannel x = x \<and> sc_keys x \<noteq> [] \<and> (\<forall>k \<in> set (sc_keys x). 0 \<le> sk_time k)"
proof -
  have "\<exists>e ls rs. l = norm_nonempty_scalar e ls \<and> r = norm_nonempty_scalar e rs
      \<and> (\<forall>k \<in> set ls. sk_time k \<le> s) \<and> (\<forall>k \<in> set rs. 0 \<le> sk_time k)"
  proof (cases "ch = None \<or> (\<exists>c. ch = Some c \<and> sc_keys c = [])")
    case True
    then have "l = norm_nonempty_scalar None []" "r = norm_nonempty_scalar None []"
      using assms by (auto simp: splitScalarChannelAtTime_def norm_nonempty_scalar_def)
    then show ?thesis by (intro exI [of _ None] exI [of _ "[]"]) simp
  next
    case False
    then obtain c where c: "ch = Some c" "sc_keys c \<noteq> []" by auto
    from assms [unfolded c(1)] c(2) show ?thesis
    proof (cases rule: splitScalar_cases)
      case plain
      show ?thesis unfolding plain(1,2) by (intro exI conjI, rule refl, rule refl) auto
    next
      case (bezier k k' ls rs v)
      with find_segment_Some [OF bezier(2)] show ?thesis
        by (intro exI [of _ "extrapolation c"] exI [of _ ls] exI [of _ rs]) (simp add: split_bezier_times)
    next
      case (boundary k k' v)
      show ?thesis unfolding boundary(5,6)
        by (intro exI conjI, rule refl, rule refl) (auto simp: createScalarKey_def)
    qed
  qed
  then show "l = Some x \<Longrightarrow> normalizeScalarChannel x = x \<and> sc_keys x \<noteq> [] \<and> (\<forall>k \<in> set (sc_keys x). sk_time k \<le> s)"
    and "r = Some x \<Longrightarrow> normalizeScalarChannel x = x \<and> sc_keys x \<noteq> [] \<and> (\<forall>k \<in> set (sc_keys x). 0 \<le> sk_time k)"
    using scalar_range_finish [of _ _ x "\<lambda>t. t \<le> s"] scalar_range_finish [of _ _ x "\<lambda>t. 0 \<le> t"]
    by metis+
qed

lemma discrete_range_finish:
  assumes "norm_nonempty_discrete ks = Some x" and "\<forall>k \<in> set ks. P (dk_time k)"
  shows "normalizeDiscreteKeys x = x \<and> x \<noteq> [] \<and> (\<forall>k \<in> set x. P (dk_time k))"
proof -
  have "\<forall>t \<in> dk_time ` set x. P t"
    unfolding norm_nonempty_discrete_Some(2) [OF assms(1)] using assms(2) by blast
  then show ?thesis using norm_nonempty_discrete_Some(1,3) [OF assms(1)] by simp
qed

lemma splitDiscrete_result:
  fixes s :: media_time
  assumes "ks \<noteq> []"
  defines "keys \<equiv> normalizeDiscreteKeys ks"
  defines "v \<equiv> getDiscreteChannelValueAtTime (Some keys) (of_int s) (dk_value (hd keys))"
  shows "splitDiscreteChannelAtTime (Some ks) s li ri b =
    (norm_nonempty_discrete (filter (\<lambda>k. dk_time k \<le> s) keys
       @ (if b \<and> s \<notin> dk_time ` set keys then [createDiscreteKey li s v] else [])),
     norm_nonempty_discrete ((if b \<and> s \<notin> dk_time ` set keys then [createDiscreteKey ri 0 v] else [])
       @ map (\<lambda>k. k\<lparr>dk_time := dk_time k - s\<rparr>) (filter (\<lambda>k. s \<le> dk_time k) keys)))"
proof -
  have "list_ex (\<lambda>k. dk_time k = s) (filter (\<lambda>k. dk_time k \<le> s) keys) \<longleftrightarrow> s \<in> dk_time ` set keys"
    "list_ex (\<lambda>k. dk_time k = 0) (map (\<lambda>k. k\<lparr>dk_time := dk_time k - s\<rparr>)
       (filter (\<lambda>k. s \<le> dk_time k) keys)) \<longleftrightarrow> s \<in> dk_time ` set keys"
    by (auto simp: list_ex_iff)
  then show ?thesis using assms(1)
    by (simp add: splitDiscreteChannelAtTime_def Let_def v_def flip: keys_def)
qed

lemma splitDiscrete_times:
  assumes "splitDiscreteChannelAtTime ch s li ri b = (l, r)"
  shows "l = Some x \<Longrightarrow> normalizeDiscreteKeys x = x \<and> x \<noteq> [] \<and> (\<forall>k \<in> set x. dk_time k \<le> s)"
    and "r = Some x \<Longrightarrow> normalizeDiscreteKeys x = x \<and> x \<noteq> [] \<and> (\<forall>k \<in> set x. 0 \<le> dk_time k)"
proof -
  have "\<exists>ls rs. l = norm_nonempty_discrete ls \<and> r = norm_nonempty_discrete rs
      \<and> (\<forall>k \<in> set ls. dk_time k \<le> s) \<and> (\<forall>k \<in> set rs. 0 \<le> dk_time k)"
  proof (cases "ch = None \<or> ch = Some []")
    case True
    then have "l = norm_nonempty_discrete []" "r = norm_nonempty_discrete []"
      using assms by (auto simp: splitDiscreteChannelAtTime_def norm_nonempty_discrete_def)
    then show ?thesis by (intro exI [of _ "[]"]) simp
  next
    case False
    then obtain ks where ks: "ch = Some ks" "ks \<noteq> []" by auto
    note lr = assms [unfolded ks(1) splitDiscrete_result [OF ks(2)] prod.inject]
    show ?thesis unfolding conjunct1 [OF lr, symmetric] conjunct2 [OF lr, symmetric]
      by (intro exI conjI, rule refl, rule refl) (auto simp: createDiscreteKey_def)
  qed
  then show "l = Some x \<Longrightarrow> normalizeDiscreteKeys x = x \<and> x \<noteq> [] \<and> (\<forall>k \<in> set x. dk_time k \<le> s)"
    and "r = Some x \<Longrightarrow> normalizeDiscreteKeys x = x \<and> x \<noteq> [] \<and> (\<forall>k \<in> set x. 0 \<le> dk_time k)"
    using discrete_range_finish [of _ x "\<lambda>t. t \<le> s"] discrete_range_finish [of _ x "\<lambda>t. 0 \<le> t"]
    by metis+
qed

text \<open>What a split promises of each side, as a predicate of one channel.\<close>

definition side_ok :: "(media_time \<Rightarrow> bool) \<Rightarrow> channel \<Rightarrow> bool" where
  "side_ok P ch \<longleftrightarrow> normalizeChannel ch = ch \<and> hasChannelKeys (Some ch) \<and> (\<forall>t \<in> set (key_times ch). P t)"

lemma split_channel_sides:
  assumes "split_channel ch s li ri b = (l, r)"
  shows "pred_option (side_ok (\<lambda>t. t \<le> s)) l" and "pred_option (side_ok (\<lambda>t. 0 \<le> t)) r"
proof -
  have "pred_option (side_ok (\<lambda>t. t \<le> s)) l \<and> pred_option (side_ok (\<lambda>t. 0 \<le> t)) r"
  proof (cases ch)
    case None
    then show ?thesis using assms by (simp add: split_channel_def)
  next
    case (Some y)
    show ?thesis
    proof (cases y)
      case (ScalarChannel c)
      obtain l' r' where sp: "splitScalarChannelAtTime (Some c) s li ri b = (l', r')" by fastforce
      then have "l = map_option ScalarChannel l'" "r = map_option ScalarChannel r'"
        using assms Some ScalarChannel by (simp_all add: split_channel_def)
      then show ?thesis using splitScalar_times [OF sp]
        by (auto simp: side_ok_def hasChannelKeys_def option.pred_set)
    next
      case (DiscreteChannel ks)
      obtain l' r' where sp: "splitDiscreteChannelAtTime (Some ks) s li ri b = (l', r')" by fastforce
      then have "l = map_option DiscreteChannel l'" "r = map_option DiscreteChannel r'"
        using assms Some DiscreteChannel by (simp_all add: split_channel_def)
      then show ?thesis using splitDiscrete_times [OF sp]
        by (auto simp: side_ok_def hasChannelKeys_def option.pred_set)
    qed
  qed
  then show "pred_option (side_ok (\<lambda>t. t \<le> s)) l" and "pred_option (side_ok (\<lambda>t. 0 \<le> t)) r"
    by blast+
qed

definition map_ok :: "(channel \<Rightarrow> bool) \<Rightarrow> (string \<times> channel option) list \<Rightarrow> bool" where
  "map_ok P chs \<longleftrightarrow> distinct (map fst chs) \<and> (\<forall>(c, ch) \<in> set chs. \<exists>x. ch = Some x \<and> P x)"

lemma map_ok_set_if_some:
  "map_ok P chs \<Longrightarrow> pred_option P v \<Longrightarrow> map_ok P (set_if_some k v chs)"
  by (cases v) (auto simp: map_ok_def set_if_some_def distinct_update dest!: in_set_update)

lemma split_components_sides:
  assumes "split_components a s li ri b cs (ls, rs, hl, hr) = (ls', rs', hl', hr')"
    and "map_ok (side_ok (\<lambda>t. t \<le> s)) ls" and "map_ok (side_ok (\<lambda>t. 0 \<le> t)) rs"
  shows "map_ok (side_ok (\<lambda>t. t \<le> s)) ls' \<and> map_ok (side_ok (\<lambda>t. 0 \<le> t)) rs'"
  using assms
proof (induction cs arbitrary: ls rs hl hr)
  case Nil
  then show ?case by simp
next
  case (Cons c cs)
  obtain k cid where c: "c = (k, cid)" by fastforce
  obtain l r where sp: "split_channel (prop_get (channels a) cid) s li ri b = (l, r)" by fastforce
  show ?case
    by (rule Cons.IH [of "set_if_some cid l ls" "set_if_some cid r rs" "hl \<or> l \<noteq> None" "hr \<or> r \<noteq> None"])
      (use Cons.prems split_channel_sides [OF sp] in \<open>auto simp: c sp map_ok_set_if_some\<close>)
qed

definition half_ok :: "(channel \<Rightarrow> bool) \<Rightarrow> element_animations \<Rightarrow> bool" where
  "half_ok P a \<longleftrightarrow> distinct (map fst (bindings a)) \<and> map_ok P (channels a)"

lemma split_bindings_sides:
  assumes "split_bindings gen a s b n bs (la, ra) = ((la', ra'), n')"
    and "half_ok (side_ok (\<lambda>t. t \<le> s)) la" and "half_ok (side_ok (\<lambda>t. 0 \<le> t)) ra"
  shows "half_ok (side_ok (\<lambda>t. t \<le> s)) la' \<and> half_ok (side_ok (\<lambda>t. 0 \<le> t)) ra'"
  using assms
proof (induction gen a s b n bs "(la, ra)" arbitrary: la ra rule: split_bindings.induct)
  case (3 gen a s b n path bd bs la ra)
  obtain ls rs hl hr where sp: "split_components a s (gen n) (gen (Suc n)) b (components bd)
      (channels la, channels ra, False, False) = (ls, rs, hl, hr)"
    by (metis prod_cases4)
  then have "map_ok (side_ok (\<lambda>t. t \<le> s)) ls \<and> map_ok (side_ok (\<lambda>t. 0 \<le> t)) rs"
    by (rule split_components_sides) (use 3(3,4) in \<open>auto simp: half_ok_def\<close>)
  then have "half_ok (side_ok (\<lambda>t. t \<le> s)) \<lparr>bindings = (if hl then AList.update path
      (Some (cloneAnimationBinding bd)) (bindings la) else bindings la), channels = ls\<rparr>"
    "half_ok (side_ok (\<lambda>t. 0 \<le> t)) \<lparr>bindings = (if hr then AList.update path
      (Some (cloneAnimationBinding bd)) (bindings ra) else bindings ra), channels = rs\<rparr>"
    using 3(3,4) by (simp_all add: half_ok_def distinct_update)
  with 3(1) [OF sp [symmetric] refl refl] 3(2) show ?case unfolding split_bindings.simps sp by simp
qed auto

lemma toAnimation_half:
  assumes "half_ok P a" and "\<And>x. P x \<Longrightarrow> normalizeChannel x = x"
  shows "anim_ok (toAnimation a) \<and> (\<forall>x. toAnimation a = Some x \<longrightarrow>
    (\<forall>(c, ch) \<in> set (channels x). \<exists>y. ch = Some y \<and> P y))"
proof -
  obtain bs chs where a: "a = \<lparr>bindings = bs, channels = chs\<rparr>" by (cases a) simp
  have "channels_normal chs" using assms by (auto simp: a half_ok_def map_ok_def channels_normal_def)
  then have "anim_ok (toAnimation a)" using assms(1) toAnimation_inv by (simp add: a half_ok_def)
  then show ?thesis using assms(1)
    by (auto simp: a toAnimation_def Let_def half_ok_def map_ok_def split: if_splits)
qed

lemma half_ok_empty [simp]: "half_ok P (cloneAnimationsState None)"
  by (simp add: half_ok_def cloneAnimationsState_def map_ok_def)

lemma splitAnimations_sides:
  assumes "splitAnimationsAtTime gen n a s b = ((l, r), n')"
  shows "anim_ok l \<and> anim_ok r"
    "\<forall>x. l = Some x \<longrightarrow> (\<forall>(c, ch) \<in> set (channels x). \<exists>y. ch = Some y \<and> side_ok (\<lambda>t. t \<le> s) y)"
    "\<forall>x. r = Some x \<longrightarrow> (\<forall>(c, ch) \<in> set (channels x). \<exists>y. ch = Some y \<and> side_ok (\<lambda>t. 0 \<le> t) y)"
proof -
  have "(anim_ok l \<and> (\<forall>x. l = Some x \<longrightarrow>
      (\<forall>(c, ch) \<in> set (channels x). \<exists>y. ch = Some y \<and> side_ok (\<lambda>t. t \<le> s) y)))
    \<and> (anim_ok r \<and> (\<forall>x. r = Some x \<longrightarrow>
      (\<forall>(c, ch) \<in> set (channels x). \<exists>y. ch = Some y \<and> side_ok (\<lambda>t. 0 \<le> t) y)))"
  proof (cases a)
    case None
    then show ?thesis using assms by (simp add: splitAnimationsAtTime_def anim_ok_def)
  next
    case (Some x)
    obtain la ra m where sp: "split_bindings gen x s b n (bindings x)
        (cloneAnimationsState None, cloneAnimationsState None) = ((la, ra), m)"
      by (metis prod.exhaust)
    then have h: "half_ok (side_ok (\<lambda>t. t \<le> s)) la \<and> half_ok (side_ok (\<lambda>t. 0 \<le> t)) ra"
      by (rule split_bindings_sides) simp_all
    moreover have "l = toAnimation la" "r = toAnimation ra"
      using assms Some sp by (simp_all add: splitAnimationsAtTime_def)
    ultimately show ?thesis
      using toAnimation_half [of "side_ok (\<lambda>t. t \<le> s)" la] toAnimation_half [of "side_ok (\<lambda>t. 0 \<le> t)" ra]
      by (simp add: side_ok_def)
  qed
  then show "anim_ok l \<and> anim_ok r"
    "\<forall>x. l = Some x \<longrightarrow> (\<forall>(c, ch) \<in> set (channels x). \<exists>y. ch = Some y \<and> side_ok (\<lambda>t. t \<le> s) y)"
    "\<forall>x. r = Some x \<longrightarrow> (\<forall>(c, ch) \<in> set (channels x). \<exists>y. ch = Some y \<and> side_ok (\<lambda>t. 0 \<le> t) y)"
    by blast+
qed

section \<open>Splitting keeps the values\<close>

lemma discrete_scan_last:
  "sorted (map dk_time ks) \<Longrightarrow>
   discrete_scan t cur ks = last (cur # map dk_value (filter (\<lambda>k. of_int (dk_time k) \<le> t) ks))"
proof (induction ks arbitrary: cur)
  case (Cons k ks)
  show ?case
  proof (cases "t < of_int (dk_time k)")
    case True
    have "of_int (dk_time k) \<le> (of_int (dk_time x) :: rat)" if "x \<in> set ks" for x
      using Cons.prems that by simp
    then have "filter (\<lambda>k. of_int (dk_time k) \<le> t) ks = []"
      using True by (force simp: filter_empty_conv)
    with True show ?thesis by simp
  qed (use Cons in simp)
qed simp

lemma filter_compose_le:
  "(\<And>x. x \<in> set xs \<Longrightarrow> P x \<Longrightarrow> Q x) \<Longrightarrow> filter P (filter Q xs) = filter P xs"
  by (induction xs) auto

lemma discrete_value_eq:
  assumes "ks \<noteq> []"
  shows "getDiscreteChannelValueAtTime (Some ks) t fb
    = last (fb # map dk_value (filter (\<lambda>k. of_int (dk_time k) \<le> t) (normalizeDiscreteKeys ks)))"
  using assms discrete_nf.norm_sorted [of ks]
  by (simp add: getDiscreteChannelValueAtTime_def discrete_scan_last del: last.simps)

lemma normalizeDiscreteKeys_sorted: "sorted (map dk_time ks) \<Longrightarrow> normalizeDiscreteKeys ks = ks"
  by (simp add: normalizeDiscreteKeys_def sort_key_sorted_id)

text \<open>A discrete channel, left of the split and at the split.\<close>

lemma splitDiscrete_left_value:
  assumes "ks \<noteq> []" and "\<exists>k \<in> set ks. dk_time k \<le> s" and "t \<le> of_int s"
    and "splitDiscreteChannelAtTime (Some ks) s li ri b = (l, r)"
  shows "getDiscreteChannelValueAtTime l t fb = getDiscreteChannelValueAtTime (Some ks) t fb"
proof -
  define keys where "keys = normalizeDiscreteKeys ks"
  define v where "v = getDiscreteChannelValueAtTime (Some keys) (of_int s) (dk_value (hd keys))"
  define lk where "lk = filter (\<lambda>k. dk_time k \<le> s) keys"
  define B where "B = (if b \<and> s \<notin> dk_time ` set keys then [createDiscreteKey li s v] else [])"
  have st: "sorted (map dk_time keys)" by (simp add: keys_def discrete_nf.norm_sorted)
  have ke: "keys \<noteq> []" "dk_time ` set keys = dk_time ` set ks" "normalizeDiscreteKeys keys = keys"
    using assms(1) by (simp_all add: keys_def discrete_nf.set_times_norm discrete_nf.norm_idem)
  have "\<exists>k \<in> set keys. dk_time k \<le> s" using assms(2) ke(2) by (metis image_iff)
  then have ne: "lk \<noteq> []" by (auto simp: lk_def filter_empty_conv)
  have stl: "sorted (map dk_time (lk @ B))"
    using st by (auto simp: lk_def B_def createDiscreteKey_def sorted_wrt_append sorted_filter)
  have l: "l = norm_nonempty_discrete (lk @ B)"
    using splitDiscrete_result [OF assms(1), of s li ri b] assms(4)
    by (simp add: lk_def B_def v_def keys_def)
  then have lv: "getDiscreteChannelValueAtTime l t fb
      = last (fb # map dk_value (filter (\<lambda>k. of_int (dk_time k) \<le> t) (lk @ B)))"
    using ne normalizeDiscreteKeys_sorted [OF stl]
    by (simp add: norm_nonempty_discrete_def discrete_value_eq del: last.simps)
  have ov: "getDiscreteChannelValueAtTime (Some ks) t fb
      = last (fb # map dk_value (filter (\<lambda>k. of_int (dk_time k) \<le> t) keys))"
    using assms(1) by (simp add: discrete_value_eq keys_def del: last.simps)
  have fl: "filter (\<lambda>k. of_int (dk_time k) \<le> t) lk = filter (\<lambda>k. of_int (dk_time k) \<le> t) keys"
    unfolding lk_def using assms(3) by (intro filter_compose_le) (metis of_int_le_iff order_trans)
  show ?thesis
  proof (cases "t < of_int s \<or> B = []")
    case True
    then have "filter (\<lambda>k. of_int (dk_time k) \<le> t) B = []"
      by (cases "B = []") (auto simp: B_def createDiscreteKey_def split: if_splits)
    then show ?thesis unfolding lv ov using fl by simp
  next
    case False
    then have t: "t = of_int s" and B: "B = [createDiscreteKey li s v]"
      using assms(3) by (auto simp: B_def split: if_splits)
    have "v = last (dk_value (hd keys) # map dk_value (filter (\<lambda>k. of_int (dk_time k) \<le> t) keys))"
      unfolding v_def t by (simp add: discrete_value_eq ke del: last.simps)
    moreover have "filter (\<lambda>k. (of_int (dk_time k) :: rat) \<le> of_int s) keys \<noteq> []"
      using ne by (simp add: lk_def)
    ultimately have "last (fb # map dk_value (filter (\<lambda>k. of_int (dk_time k) \<le> t) (lk @ B))) =
        last (fb # map dk_value (filter (\<lambda>k. of_int (dk_time k) \<le> t) keys))"
      by (simp add: B t createDiscreteKey_def)
    then show ?thesis by (simp only: lv ov)
  qed
qed

lemma sorted_filter_split:
  "sorted (map f xs) \<Longrightarrow> filter (\<lambda>x. f x < s) xs @ filter (\<lambda>x. s \<le> f x) xs = (xs :: 'a list)"
  for f :: "'a \<Rightarrow> int"
proof (induction xs)
  case (Cons x xs)
  show ?case
  proof (cases "f x < s")
    case False
    then have "filter (\<lambda>x. f x < s) xs = []" using Cons.prems by (force simp: filter_empty_conv)
    then show ?thesis using False Cons by simp
  qed (use Cons in simp)
qed simp

text \<open>And right of the split, where the channel restarts at 0.\<close>

lemma splitDiscrete_right_value:
  assumes "ks \<noteq> []" and "\<exists>k \<in> set ks. dk_time k \<le> s" and "0 \<le> t"
    and "splitDiscreteChannelAtTime (Some ks) s li ri True = (l, r)"
  shows "getDiscreteChannelValueAtTime r t fb = getDiscreteChannelValueAtTime (Some ks) (t + of_int s) fb"
proof -
  define keys where "keys = normalizeDiscreteKeys ks"
  define v where "v = getDiscreteChannelValueAtTime (Some keys) (of_int s) (dk_value (hd keys))"
  define rk where "rk = map (\<lambda>k. k\<lparr>dk_time := dk_time k - s\<rparr>) (filter (\<lambda>k. s \<le> dk_time k) keys)"
  define B where "B = (if s \<notin> dk_time ` set keys then [createDiscreteKey ri 0 v] else [])"
  have st: "sorted (map dk_time keys)" by (simp add: keys_def discrete_nf.norm_sorted)
  have ke: "keys \<noteq> []" "dk_time ` set keys = dk_time ` set ks" "normalizeDiscreteKeys keys = keys"
    using assms(1) by (simp_all add: keys_def discrete_nf.set_times_norm discrete_nf.norm_idem)
  have ex: "\<exists>k \<in> set keys. dk_time k \<le> s" using assms(2) ke(2) by (metis image_iff)
  have "sorted (map dk_time rk)"
    using sorted_filter [OF st, of "\<lambda>k. s \<le> dk_time k"]
    by (simp add: rk_def comp_def sorted_iff_nth_mono)
  then have str: "sorted (map dk_time (B @ rk))"
    by (auto simp: B_def rk_def createDiscreteKey_def)
  have ne: "filter (\<lambda>k. of_int (dk_time k) \<le> t) (B @ rk) \<noteq> []"
  proof (cases "s \<in> dk_time ` set keys")
    case True
    then obtain k where "k \<in> set keys" "dk_time k = s" by auto
    then have "k\<lparr>dk_time := dk_time k - s\<rparr> \<in> set rk" "dk_time (k\<lparr>dk_time := dk_time k - s\<rparr>) = 0"
      by (auto simp: rk_def intro!: image_eqI [of _ _ k])
    then show ?thesis using assms(3) by (force simp: filter_empty_conv)
  qed (use assms(3) in \<open>simp add: B_def createDiscreteKey_def\<close>)
  then have bne: "B @ rk \<noteq> []" by auto
  have r: "r = norm_nonempty_discrete (B @ rk)"
    using splitDiscrete_result [OF assms(1), of s li ri True] assms(4)
    by (simp add: rk_def B_def v_def keys_def)
  then have rv: "getDiscreteChannelValueAtTime r t fb
      = last (map dk_value (filter (\<lambda>k. of_int (dk_time k) \<le> t) (B @ rk)))"
    using discrete_value_eq [OF bne, of t fb]
    by (simp only: norm_nonempty_discrete_def bne if_False normalizeDiscreteKeys_sorted [OF str]
        last_ConsR map_is_Nil_conv ne not_False_eq_True)
  let ?lt = "filter (\<lambda>k. dk_time k < s) keys"
  let ?ge = "filter (\<lambda>k. of_int (dk_time k) \<le> t + of_int s) (filter (\<lambda>k. s \<le> dk_time k) keys)"
  have frk: "map dk_value (filter (\<lambda>k. of_int (dk_time k) \<le> t) rk) = map dk_value ?ge"
    by (simp add: rk_def filter_map comp_def algebra_simps)
  have flt: "filter (\<lambda>k. of_int (dk_time k) \<le> t + of_int s) ?lt = ?lt"
  proof (rule filter_True, rule)
    fix k assume "k \<in> set ?lt"
    then have "(of_int (dk_time k) :: rat) < of_int s" by simp
    then show "of_int (dk_time k) \<le> t + of_int s" using assms(3) by linarith
  qed
  have "keys = ?lt @ filter (\<lambda>k. s \<le> dk_time k) keys" using sorted_filter_split [OF st] by simp
  then have fk: "filter (\<lambda>k. of_int (dk_time k) \<le> t + of_int s) keys = ?lt @ ?ge"
    by (metis filter_append flt)
  have ov: "getDiscreteChannelValueAtTime (Some ks) (t + of_int s) fb
      = last (fb # map dk_value (?lt @ ?ge))"
    using assms(1) by (simp add: discrete_value_eq fk flip: keys_def del: last.simps)
  show ?thesis
  proof (cases "?ge = []")
    case False
    then have "last (map dk_value (filter (\<lambda>k. of_int (dk_time k) \<le> t) (B @ rk))) = last (map dk_value ?ge)"
      unfolding filter_append map_append frk by simp
    then show ?thesis unfolding rv ov using False by simp
  next
    case True
    then have B: "B = [createDiscreteKey ri 0 v]"
      using ne frk assms(3) by (auto simp: B_def split: if_splits)
    then have nk: "s \<notin> dk_time ` set keys" by (auto simp: B_def split: if_splits)
    have "filter (\<lambda>k. (of_int (dk_time k) :: rat) \<le> of_int s) keys = ?lt"
      using nk by (intro filter_cong) (auto simp: order_le_less)
    then have "v = last (dk_value (hd keys) # map dk_value ?lt)"
      unfolding v_def by (simp add: discrete_value_eq ke del: last.simps)
    moreover have "?lt \<noteq> []" using ex nk by (force simp: filter_empty_conv order_le_less)
    ultimately show ?thesis unfolding rv ov filter_append map_append frk True
      using assms(3) by (simp add: B createDiscreteKey_def)
  qed
qed

text \<open>
  The value of a channel whose edges are held, as one recursion over strictly ascending keys. Away
  from bezier segments it depends only on the times, values and segment types of the keys.
\<close>

fun held_value :: "scalar_key list \<Rightarrow> rat \<Rightarrow> rat" where
  "held_value [] t = 0"
| "held_value [k] t = sk_value k"
| "held_value (k # k' # ks) t =
     (if t \<le> of_int (sk_time k) then sk_value k
      else if t < of_int (sk_time k') then the (segment_value t k k')
      else held_value (k' # ks) t)"

abbreviation "shape k \<equiv> (sk_time k, sk_value k, segmentToNext k)"
abbreviation "ascending ks \<equiv> sorted_wrt (<) (map sk_time ks)"
abbreviation "bezier_free ks \<equiv> \<forall>k \<in> set ks. segmentToNext k \<noteq> SBezier"

lemma held_value_before: "t \<le> of_int (sk_time k) \<Longrightarrow> held_value (k # ks) t = sk_value k"
  by (cases ks) auto

lemma held_value_after:
  "ascending ks \<Longrightarrow> ks \<noteq> [] \<Longrightarrow> of_int (sk_time (last ks)) \<le> t \<Longrightarrow> held_value ks t = sk_value (last ks)"
proof (induction ks t rule: held_value.induct)
  case (3 k k' ks t)
  have "sk_time k' \<le> sk_time (last (k' # ks))"
    using 3(2) sorted_wrt_less_last [of "k' # ks" k'] by auto
  then have "of_int (sk_time k') \<le> t" using 3(4) by (simp add: order_trans [OF of_int_le_iff [THEN iffD2]])
  moreover have "(of_int (sk_time k) :: rat) < of_int (sk_time k')" using 3(2) by simp
  ultimately have "\<not> t \<le> of_int (sk_time k)" "\<not> t < of_int (sk_time k')" by linarith+
  with 3 show ?case by simp
qed simp_all

lemma segment_value_inside:
  assumes "of_int (sk_time k) < t" "t < of_int (sk_time k')" "segmentToNext k \<noteq> SBezier"
  shows "segment_value t k k' = Some (if segmentToNext k = SStep then sk_value k
    else sk_value k + (sk_value k' - sk_value k)
      * ((t - of_int (sk_time k)) / of_int (sk_time k' - sk_time k)))"
proof -
  have lt: "(of_int (sk_time k) :: rat) < of_int (sk_time k')" using assms by linarith
  have "0 \<le> (t - of_int (sk_time k)) / of_int (sk_time k' - sk_time k)"
    "(t - of_int (sk_time k)) / of_int (sk_time k' - sk_time k) \<le> 1"
    using assms lt by (simp_all add: divide_le_eq)
  then have "clamp01 ((t - of_int (sk_time k)) / of_int (sk_time k' - sk_time k))
      = (t - of_int (sk_time k)) / of_int (sk_time k' - sk_time k)"
    by (simp add: clamp01_def)
  then show ?thesis using assms lt
    by (cases "segmentToNext k") (simp_all add: segment_value_def Let_def lerpNumber_def)
qed

lemma segment_value_outside:
  "of_int (sk_time k') < t \<Longrightarrow> segment_value t k k' = None"
  by (simp add: segment_value_def)

lemma segment_value_defined:
  "of_int (sk_time k) \<le> t \<Longrightarrow> t \<le> of_int (sk_time k') \<Longrightarrow> \<exists>v. segment_value t k k' = Some v"
  by (simp add: segment_value_def Let_def)

lemma segments_held_value:
  "ascending ks \<Longrightarrow> ks \<noteq> [] \<Longrightarrow> of_int (sk_time (hd ks)) < t \<Longrightarrow> t < of_int (sk_time (last ks)) \<Longrightarrow>
   segments_value t ks = Some (held_value ks t)"
proof (induction t ks rule: segments_value.induct)
  case (1 t k k' ks)
  consider "t < of_int (sk_time k')" | "t = of_int (sk_time k')" | "of_int (sk_time k') < t" by linarith
  then show ?case
  proof cases
    case 1
    then show ?thesis using \<open>of_int (sk_time (hd (k # k' # ks))) < t\<close> segment_value_defined [of k t k'] by auto
  next
    case 2
    then show ?thesis using \<open>of_int (sk_time (hd (k # k' # ks))) < t\<close>
      by (simp add: segment_value_def held_value_before)
  next
    case 3
    then show ?thesis using 1 by (simp add: segment_value_outside)
  qed
qed auto

lemma value_held:
  assumes "sc_keys c \<noteq> []" and "extrapolation c = None" and "distinct (map sk_time (sc_keys c))"
  shows "getScalarChannelValueAtTime (Some c) t fb = held_value (norm_scalar_keys (sc_keys c)) t"
proof -
  let ?ks = "norm_scalar_keys (sc_keys c)"
  have asc: "ascending ?ks" using assms(3) by (rule norm_keys_strict)
  have ne: "?ks \<noteq> []" using assms(1) scalar_nf.norm_Nil_iff by blast
  have "t \<le> of_int (sk_time (hd ?ks)) \<Longrightarrow> held_value ?ks t = sk_value (hd ?ks)"
    using held_value_before [of t "hd ?ks" "tl ?ks"] ne by simp
  then show ?thesis
    using assms(1,2) held_value_after [OF asc ne, of t] segments_held_value [OF asc ne, of t]
    by (auto simp: getScalarChannelValueAtTime_def Let_def extrapolate_hold)
qed

lemma held_value_cong:
  "map shape ks = map shape ks' \<Longrightarrow> bezier_free ks \<Longrightarrow> held_value ks t = held_value ks' t"
proof (induction ks t arbitrary: ks' rule: held_value.induct)
  case (3 k k' ks t)
  obtain j j' js where ks': "ks' = j # j' # js" using 3(2) by (auto simp: map_eq_Cons_conv)
  with 3(2,3) have e: "shape k = shape j" "shape k' = shape j'" "segmentToNext k \<noteq> SBezier"
    "segmentToNext j \<noteq> SBezier" "map shape (k' # ks) = map shape (j' # js)" by auto
  show ?case
  proof (cases "t \<le> of_int (sk_time k) \<or> of_int (sk_time k') \<le> t")
    case True
    then show ?thesis using 3 e by (auto simp: ks')
  next
    case False
    then show ?thesis using e segment_value_inside [of k t k'] segment_value_inside [of j t j']
      by (simp add: ks')
  qed
qed auto

lemma held_value_shift:
  "bezier_free ks \<Longrightarrow> held_value (map (shift_key s) ks) t = held_value ks (t + of_int s)"
proof (induction ks rule: induct_list012)
  case (3 k k' ks)
  have c: "t \<le> of_int (sk_time k - s) \<longleftrightarrow> t + of_int s \<le> of_int (sk_time k)"
    "t < of_int (sk_time k' - s) \<longleftrightarrow> t + of_int s < of_int (sk_time k')"
    "t \<le> of_int (sk_time k' - s) \<longleftrightarrow> t + of_int s \<le> of_int (sk_time k')" by auto
  have "segment_value t (shift_key s k) (shift_key s k') = segment_value (t + of_int s) k k'"
    if "of_int (sk_time k) < t + of_int s" "t + of_int s < of_int (sk_time k')"
    using that 3(3) segment_value_inside [of k "t + of_int s" k']
      segment_value_inside [of "shift_key s k" t "shift_key s k'"]
    by (simp add: algebra_simps)
  with 3(2,3) c show ?case by (auto simp: not_le)
qed simp_all

text \<open>The two sides of a boundary inside a segment. \<open>B\<close> is the boundary key.\<close>

lemma segment_value_left_part:
  assumes "of_int (sk_time k) < t" "t < of_int (sk_time B)" "sk_time B < sk_time k'"
    "segmentToNext k \<noteq> SBezier" "sk_value B = the (segment_value (of_int (sk_time B)) k k')"
  shows "segment_value t k B = segment_value t k k'"
proof -
  have "(of_int (sk_time k) :: rat) < of_int (sk_time B)" using assms(1,2) by linarith
  then have kB: "sk_time k < sk_time B" by simp
  have "(of_int (sk_time B) :: rat) < of_int (sk_time k')" using assms(3) by simp
  then have tk': "t < of_int (sk_time k')" using assms(2) by linarith
  define w :: rat where "w = of_int (sk_time k' - sk_time k)"
  define u :: rat where "u = of_int (sk_time B - sk_time k)"
  have wu: "0 < w" "0 < u" using kB assms(3) by (simp_all add: w_def u_def)
  have B: "sk_value B = (if segmentToNext k = SStep then sk_value k
      else sk_value k + (sk_value k' - sk_value k) * (u / w))"
    using assms(3-5) kB segment_value_inside [of k "of_int (sk_time B)" k'] by (simp add: u_def w_def)
  have "segmentToNext k \<noteq> SStep \<Longrightarrow> (sk_value B - sk_value k) * ((t - of_int (sk_time k)) / u)
      = (sk_value k' - sk_value k) * ((t - of_int (sk_time k)) / w)"
    using wu by (simp add: B field_simps)
  then show ?thesis
    using segment_value_inside [OF assms(1,2,4)] segment_value_inside [OF assms(1) tk' assms(4)]
    by (simp add: u_def w_def)
qed

lemma segment_value_right_part:
  assumes "sk_time k < sk_time B" "of_int (sk_time B) < t" "t < of_int (sk_time k')"
    "segmentToNext k \<noteq> SBezier" "segmentToNext B = segmentToNext k"
    "sk_value B = the (segment_value (of_int (sk_time B)) k k')"
  shows "segment_value t B k' = segment_value t k k'"
proof -
  have "(of_int (sk_time B) :: rat) < of_int (sk_time k')" using assms(2,3) by linarith
  then have Bk': "sk_time B < sk_time k'" by simp
  have "(of_int (sk_time k) :: rat) < of_int (sk_time B)" using assms(1) by simp
  then have kt: "of_int (sk_time k) < t" using assms(2) by linarith
  define w :: rat where "w = of_int (sk_time k' - sk_time k)"
  define u :: rat where "u = of_int (sk_time k' - sk_time B)"
  define x :: rat where "x = of_int (sk_time k') - t"
  have wu: "0 < w" "0 < u" using Bk' assms(1) by (simp_all add: w_def u_def)
  have e: "of_int (sk_time B) - of_int (sk_time k) = w - u" "t - of_int (sk_time B) = u - x"
    "t - of_int (sk_time k) = w - x"
    by (simp_all add: w_def u_def x_def)
  have B: "sk_value B = (if segmentToNext k = SStep then sk_value k
      else sk_value k + (sk_value k' - sk_value k) * ((w - u) / w))"
    using assms(1,4,6) Bk' segment_value_inside [of k "of_int (sk_time B)" k']
    by (simp add: w_def u_def)
  have "segmentToNext k \<noteq> SStep \<Longrightarrow> sk_value B + (sk_value k' - sk_value B) * ((u - x) / u)
      = sk_value k + (sk_value k' - sk_value k) * ((w - x) / w)"
    using wu by (simp add: B field_simps)
  then show ?thesis
    using segment_value_inside [OF assms(2,3)] segment_value_inside [OF kt assms(3,4)] assms(4,5) B
    unfolding w_def [symmetric] u_def [symmetric] e by simp
qed

lemma held_value_left:
  assumes "ascending ks" "bezier_free ks" "ks \<noteq> []" "sk_time (hd ks) \<le> s" "s \<le> sk_time (last ks)"
    "t \<le> of_int s"
    "s \<in> sk_time ` set ks \<Longrightarrow> bs = []"
    "s \<notin> sk_time ` set ks \<Longrightarrow> \<exists>B. bs = [B] \<and> sk_time B = s \<and> sk_value B = held_value ks (of_int s)"
  shows "held_value (filter (\<lambda>k. sk_time k \<le> s) ks @ bs) t = held_value ks t"
  using assms
proof (induction ks rule: induct_list012)
  case (2 k)
  then have "bs = []" by simp
  with 2 show ?case by simp
next
  case (3 k k' ks)
  show ?case
  proof (cases "s < sk_time k'")
    case True
    then have f: "filter (\<lambda>k. sk_time k \<le> s) (k' # ks) = []" using "3.prems"(1) by (auto simp: filter_empty_conv)
    have kt: "(of_int s :: rat) < of_int (sk_time k')" using True by simp
    show ?thesis
    proof (cases "s = sk_time k")
      case True
      with 3 f show ?thesis by simp
    next
      case False
      have "s \<notin> sk_time ` set (k # k' # ks)" using False True "3.prems"(1) by auto
      then obtain B where B: "bs = [B]" "sk_time B = s" "sk_value B = held_value (k # k' # ks) (of_int s)"
        using "3.prems"(8) by blast
      have ks: "(of_int (sk_time k) :: rat) < of_int s" using False "3.prems"(4) by simp
      have v: "sk_value B = the (segment_value (of_int s) k k')" using B(3) ks kt by simp
      consider "t \<le> of_int (sk_time k)" | "of_int (sk_time k) < t" "t < of_int s" | "t = of_int s"
        using "3.prems"(6) by linarith
      then show ?thesis
      proof cases
        case 2
        then have "segment_value t k B = segment_value t k k'"
          using B(2) True v "3.prems"(2) by (intro segment_value_left_part) auto
        with 2 kt ks f show ?thesis using "3.prems"(4) by (simp add: B(1,2))
      qed (use ks kt f v "3.prems"(4) in \<open>simp_all add: B(1,2)\<close>)
    qed
  next
    case False
    have lt: "sk_time k < sk_time k'" using "3.prems"(1) by simp
    have hv: "held_value (k # k' # ks) (of_int s) = held_value (k' # ks) (of_int s)"
      using False lt by simp
    have "held_value (filter (\<lambda>k. sk_time k \<le> s) (k' # ks) @ bs) t = held_value (k' # ks) t"
      by (rule "3.IH"(2)) (use 3 False lt hv in auto)
    then show ?thesis using False lt by simp
  qed
qed simp

lemma held_value_right:
  assumes "ascending ks" "bezier_free ks" "ks \<noteq> []" "sk_time (hd ks) \<le> s" "s \<le> sk_time (last ks)"
    "0 \<le> t"
    "s \<in> sk_time ` set ks \<Longrightarrow> bs = []"
    "s \<notin> sk_time ` set ks \<Longrightarrow> \<exists>B k k'. bs = [B] \<and> sk_time B = 0 \<and> find_segment s ks = Some (k, k')
       \<and> segmentToNext B = segmentToNext k \<and> sk_value B = held_value ks (of_int s)"
  shows "held_value (bs @ map (shift_key s) (filter (\<lambda>k. s \<le> sk_time k) ks)) t = held_value ks (t + of_int s)"
  using assms
proof (induction ks rule: induct_list012)
  case (2 k)
  then have "bs = []" "s = sk_time k" by auto
  with 2 show ?case by simp
next
  case (3 k k' ks)
  show ?case
  proof (cases "s < sk_time k'")
    case True
    then have f: "filter (\<lambda>k. s \<le> sk_time k) (k' # ks) = k' # ks"
      using "3.prems"(1) by (intro filter_True) auto
    have kt: "(of_int s :: rat) < of_int (sk_time k')" using True by simp
    show ?thesis
    proof (cases "s = sk_time k")
      case True
      have "filter (\<lambda>k. s \<le> sk_time k) (k # k' # ks) = k # k' # ks" using f True by simp
      moreover have "bs = []" using True "3.prems"(7) by simp
      ultimately show ?thesis using held_value_shift [OF "3.prems"(2)] by simp
    next
      case False
      then have ks: "sk_time k < s" using "3.prems"(4) by simp
      have "s \<notin> sk_time ` set (k # k' # ks)" using False True "3.prems"(1) by auto
      then obtain B where B: "bs = [B]" "sk_time B = 0" "segmentToNext B = segmentToNext k"
          "sk_value B = held_value (k # k' # ks) (of_int s)"
        using "3.prems"(8) ks True by fastforce
      define B0 where "B0 = B\<lparr>sk_time := s\<rparr>"
      have B0: "B = shift_key s B0" "sk_time B0 = s" "segmentToNext B0 = segmentToNext k"
        "sk_value B0 = the (segment_value (of_int s) k k')"
        using B ks kt by (simp_all add: B0_def shift_key_def)
      have "held_value (B0 # k' # ks) (t + of_int s) = held_value (k # k' # ks) (t + of_int s)"
      proof (cases "t = 0 \<or> of_int (sk_time k') \<le> t + of_int s")
        case True
        then show ?thesis using ks kt "3.prems"(6) B0 by auto
      next
        case False
        then have "segment_value (t + of_int s) B0 k' = segment_value (t + of_int s) k k'"
          using ks "3.prems"(2,6) B0 by (intro segment_value_right_part) auto
        moreover have "of_int (sk_time k) < t + of_int s"
          using ks "3.prems"(6) of_int_less_iff [of "sk_time k" s, where 'a = rat] by linarith
        ultimately show ?thesis using False "3.prems"(6) B0(2) by simp
      qed
      moreover have "bezier_free (B0 # k' # ks)" using "3.prems"(2) B0(3) by simp
      moreover have "filter (\<lambda>k. s \<le> sk_time k) (k # k' # ks) = k' # ks" using f ks by simp
      ultimately show ?thesis using held_value_shift [of "B0 # k' # ks" s t] by (simp add: B(1) B0(1))
    qed
  next
    case False
    have lt: "sk_time k < sk_time k'" using "3.prems"(1) by simp
    have "\<not> t + of_int s < of_int (sk_time k')" using False "3.prems"(6)
        of_int_le_iff [of "sk_time k'" s, where 'a = rat] by linarith
    moreover from this have "\<not> t + of_int s \<le> of_int (sk_time k)"
      using lt of_int_less_iff [of "sk_time k" "sk_time k'", where 'a = rat] by linarith
    moreover have "held_value (bs @ map (shift_key s) (filter (\<lambda>k. s \<le> sk_time k) (k' # ks))) t
        = held_value (k' # ks) (t + of_int s)"
      by (rule "3.IH"(2)) (use 3 False lt in auto)
    moreover have "\<not> s \<le> sk_time k" using lt False by simp
    ultimately show ?thesis by simp
  qed
qed simp

text \<open>Normalizing strictly ascending keys changes no value of a bezier-free channel.\<close>

lemma value_of_ascending:
  assumes "ascending ks" "bezier_free ks" "ks \<noteq> []"
  shows "getScalarChannelValueAtTime (norm_nonempty_scalar None ks) t fb = held_value ks t"
proof -
  let ?c = "normalizeScalarChannel \<lparr>sc_keys = ks, extrapolation = None\<rparr>"
  have srt: "sort_key sk_time ks = ks"
    using assms(1) strict_sorted_imp_sorted by (intro sort_key_sorted_id) blast
  have dst: "distinct (map sk_time ks)" using assms(1) strict_sorted_iff by blast
  have m: "map shape (normalize_handles None ks) = map shape ks" by (rule normalize_handles_value_pair)
  have "sc_keys ?c \<noteq> []" "extrapolation ?c = None" "distinct (map sk_time (sc_keys ?c))"
    using assms(3) dst scalar_nf.norm_Nil_iff [of ks] by (auto simp: srt)
  then have "getScalarChannelValueAtTime (Some ?c) t fb = held_value (norm_scalar_keys (sc_keys ?c)) t"
    by (rule value_held)
  also have "norm_scalar_keys (sc_keys ?c) = normalize_handles None ks"
    using scalar_nf.norm_idem [of ks] by (simp add: srt)
  also have "held_value (normalize_handles None ks) t = held_value ks t"
    using held_value_cong [OF m [symmetric] assms(2)] by simp
  finally show ?thesis using assms(3) by (simp add: norm_nonempty_scalar_def)
qed

lemma find_segment_exists:
  "ascending ks \<Longrightarrow> ks \<noteq> [] \<Longrightarrow> sk_time (hd ks) \<le> s \<Longrightarrow> s \<le> sk_time (last ks) \<Longrightarrow>
   s \<notin> sk_time ` set ks \<Longrightarrow> find_segment s ks \<noteq> None"
  by (induction ks rule: induct_list012) auto

lemma find_segment_no_key:
  "ascending ks \<Longrightarrow> find_segment s ks = Some (k, k') \<Longrightarrow> s \<notin> sk_time ` set ks"
proof (induction ks rule: induct_list012)
  case (3 a b ks)
  then have "s \<notin> sk_time ` set (b # ks)"
    by (cases "sk_time a < s \<and> s < sk_time b") auto
  moreover have "s \<noteq> sk_time a"
    using 3(3,4) find_segment_Some [of s "b # ks" k k'] by (auto split: if_splits)
  ultimately show ?case by simp
qed simp_all

lemma getScalarSegmentInterpolation_type:
  "getScalarSegmentType (getScalarSegmentInterpolation g) = g"
  by (cases g) (simp_all add: getScalarSegmentInterpolation_def)

lemma splitScalar_values:
  assumes "distinct (map sk_time (sc_keys c))" "bezier_free (sc_keys c)" "extrapolation c = None"
    and "k\<^sub>0 \<in> set (sc_keys c)" "sk_time k\<^sub>0 \<le> s" "k\<^sub>1 \<in> set (sc_keys c)" "s \<le> sk_time k\<^sub>1"
    and "splitScalarChannelAtTime (Some c) s li ri True = (l, r)"
  shows "t \<le> of_int s \<Longrightarrow> getScalarChannelValueAtTime l t fb = getScalarChannelValueAtTime (Some c) t fb"
    and "0 \<le> t \<Longrightarrow> getScalarChannelValueAtTime r t fb = getScalarChannelValueAtTime (Some c) (t + of_int s) fb"
proof -
  define ks where "ks = norm_scalar_keys (sc_keys c)"
  have asc: "ascending ks" unfolding ks_def using assms(1) by (rule norm_keys_strict)
  have ne: "sc_keys c \<noteq> []" "ks \<noteq> []"
    using assms(4) scalar_nf.norm_Nil_iff [of "sc_keys c"] by (auto simp: ks_def)
  have "shape ` set ks = shape ` set (sc_keys c)" unfolding ks_def by (rule norm_keys_image)
  then have bf: "bezier_free ks" using assms(2) by (auto simp: set_eq_iff image_iff) metis
  have times: "sk_time ` set ks = sk_time ` set (sc_keys c)"
    unfolding ks_def by (rule scalar_nf.set_times_norm)
  obtain j where "j \<in> set ks" "sk_time j = sk_time k\<^sub>0" using times assms(4) by (metis imageE imageI)
  then have h: "sk_time (hd ks) \<le> s" using sorted_wrt_less_hd [OF asc] assms(5) by fastforce
  obtain j' where "j' \<in> set ks" "sk_time j' = sk_time k\<^sub>1" using times assms(6) by (metis imageE imageI)
  then have la: "s \<le> sk_time (last ks)" using sorted_wrt_less_last [OF asc] assms(7) by fastforce
  have orig: "getScalarChannelValueAtTime (Some c) t fb = held_value ks t" for t fb
    unfolding ks_def using ne(1) assms(3,1) by (rule value_held)
  have nval: "getScalarChannelValueAtTime (Some (normalizeScalarChannel c)) t fb = held_value ks t" for t fb
    using ne assms(1,3) by (subst value_held) (simp_all add: ks_def scalar_nf.norm_idem [simplified]
        scalar_nf.distinct_times_norm [simplified])
  have "\<exists>bl br. l = norm_nonempty_scalar None (filter (\<lambda>k. sk_time k \<le> s) ks @ bl)
      \<and> r = norm_nonempty_scalar None (br @ map (shift_key s) (filter (\<lambda>k. s \<le> sk_time k) ks))
      \<and> (s \<in> sk_time ` set ks \<longrightarrow> bl = [] \<and> br = [])
      \<and> (s \<notin> sk_time ` set ks \<longrightarrow> (\<exists>B. bl = [B] \<and> sk_time B = s \<and> segmentToNext B \<noteq> SBezier
           \<and> sk_value B = held_value ks (of_int s))
         \<and> (\<exists>B k k'. br = [B] \<and> sk_time B = 0 \<and> find_segment s ks = Some (k, k')
           \<and> segmentToNext B = segmentToNext k \<and> sk_value B = held_value ks (of_int s)))"
    using assms(8) ne(1)
  proof (cases rule: splitScalar_cases)
    case plain
    then have "s \<in> sk_time ` set ks" using find_segment_exists [OF asc ne(2) h la] unfolding ks_def by blast
    then show ?thesis using plain(1,2) assms(3) by (intro exI [of _ "[]"]) (simp flip: ks_def)
  next
    case (bezier k k' ls rs v)
    then show ?thesis using find_segment_Some [of s ks k k'] bf by (auto simp flip: ks_def)
  next
    case (boundary k k' v)
    have "s \<notin> sk_time ` set ks"
      using find_segment_no_key [OF asc] boundary(2) unfolding ks_def by blast
    then show ?thesis using boundary assms(3)
      by (intro exI [of _ "[createScalarKey li s v (Some ILinear) None]"]
          exI [of _ "[createScalarKey ri 0 v (Some (getScalarSegmentInterpolation (segmentToNext k))) None]"])
        (auto simp: createScalarKey_def nval getScalarSegmentInterpolation_type simp flip: ks_def)
  qed
  then obtain bl br where
      l: "l = norm_nonempty_scalar None (filter (\<lambda>k. sk_time k \<le> s) ks @ bl)"
      and r: "r = norm_nonempty_scalar None (br @ map (shift_key s) (filter (\<lambda>k. s \<le> sk_time k) ks))"
      and on: "s \<in> sk_time ` set ks \<Longrightarrow> bl = []" "s \<in> sk_time ` set ks \<Longrightarrow> br = []"
      and bl: "s \<notin> sk_time ` set ks \<Longrightarrow> \<exists>B. bl = [B] \<and> sk_time B = s \<and> segmentToNext B \<noteq> SBezier
           \<and> sk_value B = held_value ks (of_int s)"
      and br: "s \<notin> sk_time ` set ks \<Longrightarrow> \<exists>B k k'. br = [B] \<and> sk_time B = 0 \<and> find_segment s ks = Some (k, k')
           \<and> segmentToNext B = segmentToNext k \<and> sk_value B = held_value ks (of_int s)"
    by blast
  have bl': "\<exists>B. bl = [B] \<and> sk_time B = s \<and> sk_value B = held_value ks (of_int s)"
    if "s \<notin> sk_time ` set ks" using bl [OF that] by blast
  have "hd ks \<in> set ks" "last ks \<in> set ks" using ne(2) by auto
  then have ln: "filter (\<lambda>k. sk_time k \<le> s) ks @ bl \<noteq> []"
    and rn: "br @ map (shift_key s) (filter (\<lambda>k. s \<le> sk_time k) ks) \<noteq> []"
    using h la by (auto simp: filter_empty_conv)
  have "(\<exists>B. bl = [B] \<and> sk_time B = s \<and> s \<notin> sk_time ` set ks) \<or> bl = []"
    "(\<exists>B. br = [B] \<and> sk_time B = 0 \<and> s \<notin> sk_time ` set ks) \<or> br = []"
    using on bl br by blast+
  then have la': "ascending (filter (\<lambda>k. sk_time k \<le> s) ks @ bl)"
    and ra: "ascending (br @ map (shift_key s) (filter (\<lambda>k. s \<le> sk_time k) ks))"
    using asc by (auto simp: sorted_wrt_append sorted_wrt_map order_le_less image_iff
        intro!: sorted_wrt_filter)
  have "bezier_free bl" "bezier_free br"
    using on bl br bf by (force dest!: find_segment_Some)+
  then have lb: "bezier_free (filter (\<lambda>k. sk_time k \<le> s) ks @ bl)"
    and rb: "bezier_free (br @ map (shift_key s) (filter (\<lambda>k. s \<le> sk_time k) ks))"
    using bf by auto
  show "getScalarChannelValueAtTime l t fb = getScalarChannelValueAtTime (Some c) t fb" if "t \<le> of_int s"
    unfolding l orig value_of_ascending [OF la' lb ln]
    by (rule held_value_left [OF asc bf ne(2) h la that on(1) bl'])
  show "getScalarChannelValueAtTime r t fb = getScalarChannelValueAtTime (Some c) (t + of_int s) fb" if "0 \<le> t"
    unfolding r orig value_of_ascending [OF ra rb rn]
    by (rule held_value_right [OF asc bf ne(2) h la that on(2) br])
qed

section \<open>Inserting a keyframe\<close>

lemma value_normalize [simp]:
  "getScalarChannelValueAtTime (Some (normalizeScalarChannel c)) t fb = getScalarChannelValueAtTime (Some c) t fb"
  using scalar_nf.norm_idem [of "sc_keys c"] scalar_nf.norm_Nil_iff [of "sc_keys c"]
  by (simp add: getScalarChannelValueAtTime_def Let_def del: sort_key_simps)

lemma distinct_times_update:
  assumes "distinct (map sk_time ks)" "i < length ks" "sk_time y \<notin> sk_time ` (set ks - {ks ! i})"
  shows "distinct (map sk_time (ks[i := y]))"
proof -
  have "sk_time y \<notin> set (map sk_time ks) - {map sk_time ks ! i}"
    using assms by auto
  then show ?thesis using assms(1) by (simp add: map_update distinct_list_update)
qed

lemma in_set_list_update: "x \<in> set xs \<Longrightarrow> x \<noteq> xs ! i \<Longrightarrow> x \<in> set (xs[i := y])"
  by (metis in_set_conv_nth length_list_update nth_list_update_neq)

text \<open>
  Each branch of the upsert leaves a key list with distinct times that holds the new value at
  \<open>t\<close> and every key that is neither at \<open>t\<close> nor the one moved.
\<close>

lemma upsertScalar_keys:
  assumes "distinct (map sk_time (sc_keys c))"
    and "\<forall>k \<in> set (sc_keys c). kid = Some (sk_id k) \<longrightarrow> t \<notin> sk_time ` (set (sc_keys c) - {k})"
  defines "keys \<equiv> norm_scalar_keys (sc_keys c)"
  obtains ks where
    "upsertScalarChannelKey (Some c) t v i d kid fresh
     = normalizeScalarChannel \<lparr>sc_keys = ks, extrapolation = extrapolation c\<rparr>"
    "distinct (map sk_time ks)" "\<exists>k \<in> set ks. sk_time k = t \<and> sk_value k = v"
    "\<forall>k \<in> set keys. sk_time k \<noteq> t \<and> kid \<noteq> Some (sk_id k) \<longrightarrow> k \<in> set ks"
proof -
  have dk: "distinct (map sk_time keys)"
    unfolding keys_def using assms(1) scalar_nf.distinct_times_norm by blast
  have refs: "(\<lambda>k. (sk_id k, sk_time k)) ` set keys = (\<lambda>k. (sk_id k, sk_time k)) ` set (sc_keys c)"
    using arg_cong [OF scalar_nf.norm_keys [of "sc_keys c"], of set_mset] by (simp add: keys_def)
  have eq: "normalizeScalarChannel (case Some c of None \<Rightarrow> empty_scalar | Some c \<Rightarrow> c) = normalizeScalarChannel c"
    by simp
  note up = upsertScalarChannelKey_def [of "Some c" t v i d kid fresh, unfolded eq Let_def sc_keys_normalize
      extrapolation_normalize keys_def [symmetric]]
  let ?new = "\<lambda>n. createScalarKey (sk_id (keys ! n)) t v i (Some (with_interpolation i (keys ! n)))"
  consider (moved) n where "truthy_id kid" "findIndex (\<lambda>k. Some (sk_id k) = kid) keys = Some n"
    | (there) n where "\<not> truthy_id kid \<or> findIndex (\<lambda>k. Some (sk_id k) = kid) keys = None"
        "findIndex (\<lambda>k. sk_time k = t) keys = Some n"
    | (add) "\<not> truthy_id kid \<or> findIndex (\<lambda>k. Some (sk_id k) = kid) keys = None"
        "findIndex (\<lambda>k. sk_time k = t) keys = None"
    by (cases "findIndex (\<lambda>k. sk_time k = t) keys";
        cases "findIndex (\<lambda>k. Some (sk_id k) = kid) keys") auto
  then show thesis
  proof cases
    case (moved n)
    note n = findIndexD [OF moved(2)]
    have "t \<notin> sk_time ` (set keys - {keys ! n})"
    proof
      assume "t \<in> sk_time ` (set keys - {keys ! n})"
      then obtain k where k: "k \<in> set keys" "k \<noteq> keys ! n" "sk_time k = t" by auto
      obtain a where a: "a \<in> set (sc_keys c)" "sk_id a = sk_id (keys ! n)" "sk_time a = sk_time (keys ! n)"
        using refs n(3) by (auto simp: set_eq_iff image_iff) metis
      obtain b where b: "b \<in> set (sc_keys c)" "sk_time b = t"
        using refs k(1,3) by (auto simp: set_eq_iff image_iff) metis
      have "sk_time (keys ! n) \<noteq> t" using k n(3) dk by (auto simp: distinct_map inj_on_def)
      then have "b \<in> set (sc_keys c) - {a}" using a b by auto
      moreover have "kid = Some (sk_id a)" using n(2) a(2) by simp
      ultimately show False using assms(2) a(1) b(2) by blast
    qed
    then have "distinct (map sk_time (keys[n := ?new n]))"
      using dk n(1) by (intro distinct_times_update) (auto simp: createScalarKey_def)
    then show thesis
      by (rule that [rotated]) (use moved n in \<open>auto simp: up set_update_memI createScalarKey_def
          intro!: in_set_list_update bexI [OF _ set_update_memI]\<close>)
  next
    case (there n)
    note n = findIndexD [OF there(2)]
    have "distinct (map sk_time (keys[n := ?new n]))"
      using dk n by (intro distinct_times_update) (auto simp: createScalarKey_def distinct_map inj_on_def)
    then show thesis
      by (rule that [rotated]) (use there n in \<open>auto simp: up set_update_memI createScalarKey_def
          intro!: in_set_list_update bexI [OF _ set_update_memI]\<close>)
  next
    case add
    let ?k = "createScalarKey (id_or_fresh kid fresh) t v (case i of None \<Rightarrow> d | Some i \<Rightarrow> Some i) None"
    have "distinct (map sk_time (keys @ [?k]))"
      using dk add(2) by (auto simp: findIndex_None_iff createScalarKey_def)
    then show thesis
      by (rule that [rotated]) (use add in \<open>auto simp: up createScalarKey_def\<close>)
  qed
qed

section \<open>Properties\<close>

text \<open>Concrete channels for the witnesses.\<close>

definition demo_key :: "uuid \<Rightarrow> media_time \<Rightarrow> rat \<Rightarrow> segment_type \<Rightarrow> scalar_key" where
  "demo_key kid t v seg = \<lparr>sk_id = kid, sk_time = t, sk_value = v, leftHandle = None,
     rightHandle = None, segmentToNext = seg, tangentMode = TFlat\<rparr>"

definition demo_channel :: "segment_type \<Rightarrow> scalar_channel" where
  "demo_channel seg = \<lparr>sc_keys = [demo_key ''a'' 0 0 seg, demo_key ''b'' 30 6 seg], extrapolation = None\<rparr>"

definition demo_animations :: element_animations where
  "demo_animations = \<lparr>bindings = [(''opacity'', Some (createAnimationBinding ''opacity'' KNumber))],
     channels = [(''opacity:value'', Some (ScalarChannel (demo_channel SLinear)))]\<rparr>"

text \<open>Writing a keyframe is read back: after \<open>upsertScalarChannelKey\<close> at time \<open>t\<close> with value \<open>v\<close>
  the keyframe times are still distinct, the channel has the value \<open>v\<close> at \<open>t\<close>, and it keeps its
  value at every keyframe that is neither at \<open>t\<close> nor the keyframe being moved. (A keyframe
  addressed by its id may move to \<open>t\<close> when no other keyframe is there.)\<close>
theorem upsertScalar_reads_back:
  assumes "distinct (map sk_time (sc_keys c))"
    and "\<forall>k \<in> set (sc_keys c). kid = Some (sk_id k) \<longrightarrow> t \<notin> sk_time ` (set (sc_keys c) - {k})"
    and "c' = upsertScalarChannelKey (Some c) t v i d kid fresh"
  shows "distinct (map sk_time (sc_keys c'))
    \<and> getScalarChannelValueAtTime (Some c') (of_int t) fb = v
    \<and> (\<forall>k \<in> set (sc_keys c). sk_time k \<noteq> t \<and> kid \<noteq> Some (sk_id k) \<longrightarrow>
         getScalarChannelValueAtTime (Some c') (of_int (sk_time k)) fb = sk_value k)"
proof -
  let ?keys = "norm_scalar_keys (sc_keys c)"
  have p: "map (\<lambda>k. (sk_id k, sk_time k, sk_value k)) (normalize_handles p ks)
      = map (\<lambda>k. (sk_id k, sk_time k, sk_value k)) ks" for p ks
    by (induction p ks rule: normalize_handles.induct) auto
  obtain ks where ks: "c' = normalizeScalarChannel \<lparr>sc_keys = ks, extrapolation = extrapolation c\<rparr>"
      "distinct (map sk_time ks)" "\<exists>k \<in> set ks. sk_time k = t \<and> sk_value k = v"
      "\<forall>k \<in> set ?keys. sk_time k \<noteq> t \<and> kid \<noteq> Some (sk_id k) \<longrightarrow> k \<in> set ks"
    using upsertScalar_keys [OF assms(1,2), of v i d fresh] unfolding assms(3) by blast
  have at: "getScalarChannelValueAtTime (Some c') (of_int (sk_time k)) fb = sk_value k" if "k \<in> set ks" for k
    using scalar_value_at_key [of "\<lparr>sc_keys = ks, extrapolation = extrapolation c\<rparr>" k fb] ks(1,2) that by simp
  have "\<forall>k \<in> set (sc_keys c). \<exists>j \<in> set ?keys. sk_id j = sk_id k \<and> sk_time j = sk_time k \<and> sk_value j = sk_value k"
    using arg_cong [OF p [of None "sort_key sk_time (sc_keys c)"], of set]
    by (auto simp: set_eq_iff image_iff) metis
  moreover have "distinct (map sk_time (sc_keys c'))"
    using ks(2) scalar_nf.distinct_times_norm [of ks] by (simp add: ks(1))
  ultimately show ?thesis using at ks(3,4) by metis
qed

theorem upsertScalar_reads_back_witness:
  "getScalarChannelValueAtTime
     (Some (upsertScalarChannelKey (Some (demo_channel SBezier)) 12 5 None None (Some ''b'') ''u'')) (of_int 12) 0 = 5"
proof -
  have "distinct (map sk_time (sc_keys (demo_channel SBezier)))"
    "\<forall>k \<in> set (sc_keys (demo_channel SBezier)). Some ''b'' = Some (sk_id k) \<longrightarrow>
       12 \<notin> sk_time ` (set (sc_keys (demo_channel SBezier)) - {k})"
    by (auto simp: demo_channel_def demo_key_def)
  from upsertScalar_reads_back [OF this refl] show ?thesis by blast
qed

text \<open>C35: Every keyframe operation keeps the invariant of an element's animations (unique property
  names, no undefined binding, only non-empty channels in normal form, never an empty animation
  object).\<close>
theorem keyframe_operations_keep_invariant:
  assumes "anim_ok a"
  shows "anim_ok (upsertPathKeyframe pc a path t v i kid kind d coerce fresh)
    \<and> anim_ok (removeElementKeyframe a path kid') \<and> anim_ok (retimeElementKeyframe a path kid' t)
    \<and> anim_ok (setBindingComponentChannel a path ck ch)
    \<and> anim_ok (updateScalarKeyframeCurve a path ck kid' patch)
    \<and> anim_ok (fst (cloneAnimations gen n a regen))
    \<and> anim_ok (fst (fst (splitAnimationsAtTime gen n a s b)))
    \<and> anim_ok (snd (fst (splitAnimationsAtTime gen n a s b)))"
proof -
  have "anim_ok (fst (fst (splitAnimationsAtTime gen n a s b))) \<and> anim_ok (snd (fst (splitAnimationsAtTime gen n a s b)))"
    by (cases "splitAnimationsAtTime gen n a s b") (auto dest: splitAnimations_sides(1))
  then show ?thesis using assms
    by (simp add: upsertPathKeyframe_ok removeElementKeyframe_ok retimeElementKeyframe_ok
        setBindingComponentChannel_ok updateScalarKeyframeCurve_ok cloneAnimations_ok)
qed

theorem keyframe_operations_keep_invariant_witness:
  "anim_ok (removeElementKeyframe (Some demo_animations) ''opacity'' ''a'')"
proof -
  have "anim_ok (Some demo_animations)"
    by (simp add: demo_animations_def demo_channel_def demo_key_def anim_ok_def anim_inv_def
        channels_normal_def hasChannelKeys_def normalizeScalarChannel_def normalizeLeftHandle_def
        normalizeRightHandle_def)
  from keyframe_operations_keep_invariant [OF this] show ?thesis by blast
qed

text \<open>C34: Splitting a scalar channel without bezier segments, whose keyframes have different times, changes
  no rendered value: with the boundary keyframes the code inserts, the left half agrees with the original up
  to the split, and the right half, whose clock restarts at 0, agrees with the original from the split on.
  The split is at or between the first and the last keyframe, and edges are held. (Keyframes set by value
  have different times; moving one onto the time of another leaves two at that time, and then the values at
  that time may differ.)\<close>
theorem splitScalar_preserves_values:
  assumes "distinct (map sk_time (sc_keys c))" "bezier_free (sc_keys c)" "extrapolation c = None"
    and "k\<^sub>0 \<in> set (sc_keys c)" "sk_time k\<^sub>0 \<le> s" "k\<^sub>1 \<in> set (sc_keys c)" "s \<le> sk_time k\<^sub>1"
    and "splitScalarChannelAtTime (Some c) s li ri True = (l, r)"
  shows "(t \<le> of_int s \<longrightarrow> getScalarChannelValueAtTime l t fb = getScalarChannelValueAtTime (Some c) t fb)
    \<and> (0 \<le> t \<longrightarrow> getScalarChannelValueAtTime r t fb = getScalarChannelValueAtTime (Some c) (t + of_int s) fb)"
  using splitScalar_values [OF assms] by blast

theorem splitScalar_preserves_values_witness:
  "let c = demo_channel SLinear; (l, r) = splitScalarChannelAtTime (Some c) 10 ''x'' ''y'' True
   in getScalarChannelValueAtTime r 7 0 = getScalarChannelValueAtTime (Some c) (7 + of_int 10) 0"
proof -
  obtain l r where lr: "splitScalarChannelAtTime (Some (demo_channel SLinear)) 10 ''x'' ''y'' True = (l, r)"
    by fastforce
  show ?thesis
    using splitScalar_preserves_values [of "demo_channel SLinear" "demo_key ''a'' 0 0 SLinear" 10
        "demo_key ''b'' 30 6 SLinear", OF _ _ _ _ _ _ _ lr, of 7 0]
    by (simp add: lr) (simp add: demo_channel_def demo_key_def)
qed

text \<open>Splitting a discrete channel changes no value on either side, when the channel has a
  keyframe at or before the split.\<close>
theorem splitDiscrete_preserves_values:
  assumes "\<exists>k \<in> set ks. dk_time k \<le> s"
    and "splitDiscreteChannelAtTime (Some ks) s li ri True = (l, r)"
  shows "(t \<le> of_int s \<longrightarrow> getDiscreteChannelValueAtTime l t fb = getDiscreteChannelValueAtTime (Some ks) t fb)
    \<and> (0 \<le> t \<longrightarrow> getDiscreteChannelValueAtTime r t fb
                   = getDiscreteChannelValueAtTime (Some ks) (t + of_int s) fb)"
proof -
  have "ks \<noteq> []" using assms(1) by auto
  then show ?thesis
    using splitDiscrete_left_value [OF _ assms(1) _ assms(2)] splitDiscrete_right_value [OF _ assms(1) _ assms(2)]
    by blast
qed

theorem splitDiscrete_preserves_values_witness:
  "let ks = [createDiscreteKey ''a'' 0 (DBool True), createDiscreteKey ''b'' 20 (DBool False)];
       (l, r) = splitDiscreteChannelAtTime (Some ks) 15 ''x'' ''y'' True
   in getDiscreteChannelValueAtTime r 3 (DBool False) = getDiscreteChannelValueAtTime (Some ks) (3 + of_int 15) (DBool False)"
proof -
  let ?ks = "[createDiscreteKey ''a'' 0 (DBool True), createDiscreteKey ''b'' 20 (DBool False)]"
  obtain l r where lr: "splitDiscreteChannelAtTime (Some ?ks) 15 ''x'' ''y'' True = (l, r)" by fastforce
  show ?thesis
    using splitDiscrete_preserves_values [of ?ks 15, OF _ lr, of 3 "DBool False"]
    by (simp add: lr) (simp add: createDiscreteKey_def)
qed

text \<open>Splitting an element's animations puts every keyframe of the left half at or before the
  split and every keyframe of the right half at or after 0, in every channel, bezier segments
  included; hence \<open>clampAnimationsToDuration\<close> leaves no keyframe beyond the duration.\<close>
theorem splitAnimations_time_ranges:
  assumes "splitAnimationsAtTime gen n a s b = ((l, r), n')"
  shows "(\<forall>x c ch t. l = Some x \<and> (c, Some ch) \<in> set (channels x) \<and> t \<in> set (key_times ch) \<longrightarrow> t \<le> s)
    \<and> (\<forall>x c ch t. r = Some x \<and> (c, Some ch) \<in> set (channels x) \<and> t \<in> set (key_times ch) \<longrightarrow> 0 \<le> t)
    \<and> (\<forall>x c ch t. fst (clampAnimationsToDuration gen n a s) = Some x \<and> (c, Some ch) \<in> set (channels x)
         \<and> t \<in> set (key_times ch) \<longrightarrow> t \<le> s)"
proof -
  have left: "t \<le> s" if "splitAnimationsAtTime gen n a s b = ((Some x, r), n')" "(c, Some ch) \<in> set (channels x)"
      "t \<in> set (key_times ch)" for b r n' x c ch t
    using splitAnimations_sides(2) [OF that(1)] that(2,3) by (auto simp: side_ok_def)
  have "0 \<le> t" if "r = Some x" "(c, Some ch) \<in> set (channels x)" "t \<in> set (key_times ch)" for x c ch t
    using splitAnimations_sides(3) [OF assms] that by (auto simp: side_ok_def)
  moreover have "t \<le> s" if "fst (clampAnimationsToDuration gen n a s) = Some x" "(c, Some ch) \<in> set (channels x)"
      "t \<in> set (key_times ch)" for x c ch t
    using that left by (auto simp: clampAnimationsToDuration_def split: if_splits prod.splits)
  ultimately show ?thesis using left assms by blast
qed

theorem splitAnimations_time_ranges_witness:
  "case fst (clampAnimationsToDuration (\<lambda>i. replicate i CHR ''u'') 0 (Some demo_animations) 10) of
     None \<Rightarrow> False
   | Some x \<Rightarrow> list_all (\<lambda>(c, ch). case ch of None \<Rightarrow> False
       | Some y \<Rightarrow> list_all (\<lambda>t. t \<le> 10) (key_times y)) (channels x)"
proof -
  let ?g = "\<lambda>i. replicate i CHR ''u''"
  obtain l r n' where sp: "splitAnimationsAtTime ?g 0 (Some demo_animations) 10 True = ((l, r), n')"
    by (metis prod.exhaust)
  have "fst (clampAnimationsToDuration ?g 0 (Some demo_animations) 10) \<noteq> None" by code_simp
  then obtain x where x: "fst (clampAnimationsToDuration ?g 0 (Some demo_animations) 10) = Some x" by blast
  then have "l = Some x" by (simp add: clampAnimationsToDuration_def sp)
  then show ?thesis using splitAnimations_time_ranges [OF sp] splitAnimations_sides(2) [OF sp] x
    by (auto simp: list_all_iff split: option.splits)
qed

text \<open>Splitting inside a bezier segment duplicates a keyframe: the left channel holds the
  segment's left keyframe twice, so its keyframe ids are no longer distinct.\<close>
theorem splitScalar_bezier_duplicates_key:
  assumes "find_segment s (norm_scalar_keys (sc_keys c)) = Some (k, k')" and "segmentToNext k = SBezier"
    and "distinct (map sk_time (sc_keys c))" and "splitScalarChannelAtTime (Some c) s li ri True = (l, r)"
  shows "\<exists>x. l = Some x \<and> 2 \<le> count (mset (map sk_id (sc_keys x))) (sk_id k)"
proof -
  have asc: "ascending (norm_scalar_keys (sc_keys c))" using assms(3) by (rule norm_keys_strict)
  note seg = find_segment_Some [OF assms(1)]
  have ne: "sc_keys c \<noteq> []" using seg by auto
  from assms(4) ne show ?thesis
  proof (cases rule: splitScalar_cases)
    case plain
    then show ?thesis using find_segment_no_key [OF asc assms(1)] assms(1) by auto
  next
    case (bezier j j' ls rs v)
    then have j: "j = k" "j' = k'" using assms(1) by auto
    let ?lt = "filter (\<lambda>k. sk_time k < s) (norm_scalar_keys (sc_keys c))"
    obtain y z where ls: "ls = ?lt @ [y, z]" "sk_id y = sk_id k"
      using bezier(4) unfolding split_bezier_segment_def Let_def j by auto
    have "k \<in> set ?lt" using seg by simp
    then have "1 \<le> count (mset (map sk_id ?lt)) (sk_id k)" by (simp add: Suc_le_eq)
    then have "2 \<le> count (mset (map sk_id ls)) (sk_id k)" by (simp add: ls del: mset_map)
    then have "2 \<le> count (mset (map sk_id (norm_scalar_keys ls))) (sk_id k)"
      by (simp only: scalar_nf.mset_ids_norm)
    moreover have "l = Some (normalizeScalarChannel \<lparr>sc_keys = ls, extrapolation = extrapolation c\<rparr>)"
      using ls(1) bezier(5) by (simp add: norm_nonempty_scalar_def)
    ultimately show ?thesis by (simp only: sc_keys_normalize option.inject scalar_channel.simps ex_simps simp_thms)
  next
    case (boundary j j' v)
    then show ?thesis using assms(1,2) by simp
  qed
qed

theorem splitScalar_bezier_duplicates_key_witness:
  "\<exists>x. fst (splitScalarChannelAtTime (Some (demo_channel SBezier)) 10 ''x'' ''y'' True) = Some x
     \<and> 2 \<le> count (mset (map sk_id (sc_keys x))) ''a''"
proof -
  obtain l r where lr: "splitScalarChannelAtTime (Some (demo_channel SBezier)) 10 ''x'' ''y'' True = (l, r)"
    by fastforce
  have s: "norm_scalar_keys (sc_keys (demo_channel SBezier)) = [demo_key ''a'' 0 0 SBezier, demo_key ''b'' 30 6 SBezier]"
    by (simp add: demo_channel_def demo_key_def normalizeLeftHandle_def normalizeRightHandle_def)
  show ?thesis
    using splitScalar_bezier_duplicates_key [of 10 "demo_channel SBezier" "demo_key ''a'' 0 0 SBezier"
        "demo_key ''b'' 30 6 SBezier", OF _ _ _ lr]
    unfolding s by (simp add: lr) (simp add: demo_channel_def demo_key_def)
qed

end
