(* ===== verification/Timeline.thy ===== *)
theory Timeline
  imports Keyframes
begin

text \<open>
  The timeline's data (\<open>timeline/types.ts\<close>) and the operations on it that every other component
  calls: locating and updating tracks and elements (\<open>timeline/track-element-update.ts\<close>), element
  and track predicates (\<open>element-utils.ts\<close>, \<open>track-capabilities.ts\<close>, \<open>placement/compatibility.ts\<close>),
  the total duration (\<open>timeline/index.ts\<close>) and the overlap tests (\<open>placement/overlap.ts\<close>).

  An element is a JavaScript object of one of seven types. The properties the editing logic reads
  are fields of the record; the remaining ones (transform, opacity, text style, effects, masks,
  volume, buffers) travel unchanged in the field \<open>rest\<close>.
\<close>

section \<open>Elements, tracks and scenes\<close>

datatype track_type = TVideo | TText | TAudio | TGraphic | TEffect
datatype element_type = EVideo | EImage | EText | EAudio | ESticker | EGraphic | EEffect
datatype audio_source = SUpload | SLibrary

datatype js_value =
  JUndefined | JNumber rat | JString string | JBool bool | JArray "js_value list" | JObject "(string \<times> js_value) list"

record timeline_element =
  elementId :: uuid
  elementName :: string
  elementType :: element_type
  startTime :: media_time
  duration :: media_time
  trimStart :: media_time
  trimEnd :: media_time
  sourceDuration :: "media_time option"
  animations :: "element_animations option"
  retime :: "retime_config option"
  mediaId :: "string option"
  sourceType :: "audio_source option"
  el_hidden :: "bool option"
  el_muted :: "bool option"
  isSourceAudioEnabled :: "bool option"
  rest :: "(string \<times> js_value) list"

record track =
  trackId :: uuid
  trackName :: string
  trackType :: track_type
  elements :: "timeline_element list"
  tr_muted :: "bool option"
  tr_hidden :: "bool option"

record scene_tracks =
  overlay :: "track list"
  main :: track
  audio :: "track list"

record element_ref =
  ref_trackId :: uuid
  ref_elementId :: uuid

text \<open>\<open>[...tracks.overlay, tracks.main, ...tracks.audio]\<close>\<close>

definition orderedTracks :: "scene_tracks \<Rightarrow> track list" where
  "orderedTracks ts = overlay ts @ main ts # audio ts"

definition elementEnd :: "timeline_element \<Rightarrow> media_time" where
  "elementEnd e = startTime e + duration e"

section \<open>Predicates\<close>

definition canTrackHaveAudio :: "track \<Rightarrow> bool" where
  "canTrackHaveAudio tr \<longleftrightarrow> trackType tr = TAudio \<or> trackType tr = TVideo"

definition canTrackBeHidden :: "track \<Rightarrow> bool" where
  "canTrackBeHidden tr \<longleftrightarrow> trackType tr \<noteq> TAudio"

definition canElementHaveAudio :: "timeline_element \<Rightarrow> bool" where
  "canElementHaveAudio e \<longleftrightarrow> elementType e = EAudio \<or> elementType e = EVideo"

definition isVisualElement :: "timeline_element \<Rightarrow> bool" where
  "isVisualElement e \<longleftrightarrow> elementType e \<in> set [EVideo, EImage, EText, ESticker, EGraphic]"

definition isMaskableElement :: "timeline_element \<Rightarrow> bool" where
  "isMaskableElement e \<longleftrightarrow> elementType e \<in> set [EVideo, EImage, EGraphic]"

definition isRetimableElement :: "timeline_element \<Rightarrow> bool" where
  "isRetimableElement e \<longleftrightarrow> elementType e \<in> set [EVideo, EAudio]"

definition canElementBeHidden :: "timeline_element \<Rightarrow> bool" where
  "canElementBeHidden e \<longleftrightarrow> isVisualElement e"

definition hasMediaId :: "timeline_element \<Rightarrow> bool" where
  "hasMediaId e \<longleftrightarrow> mediaId e \<noteq> None"

definition requiresMediaId :: "timeline_element \<Rightarrow> bool" where
  "requiresMediaId e \<longleftrightarrow> elementType e = EVideo \<or> elementType e = EImage
     \<or> (elementType e = EAudio \<and> sourceType e = Some SUpload)"

fun getTrackTypeForElementType :: "element_type \<Rightarrow> track_type" where
  "getTrackTypeForElementType EAudio = TAudio"
| "getTrackTypeForElementType EText = TText"
| "getTrackTypeForElementType ESticker = TGraphic"
| "getTrackTypeForElementType EGraphic = TGraphic"
| "getTrackTypeForElementType EEffect = TEffect"
| "getTrackTypeForElementType EVideo = TVideo"
| "getTrackTypeForElementType EImage = TVideo"

definition canElementGoOnTrack :: "element_type \<Rightarrow> track_type \<Rightarrow> bool" where
  "canElementGoOnTrack et tt \<longleftrightarrow> getTrackTypeForElementType et = tt"

definition validateElementTrackCompatibility :: "timeline_element \<Rightarrow> track \<Rightarrow> bool" where
  "validateElementTrackCompatibility e tr \<longleftrightarrow> canElementGoOnTrack (elementType e) (trackType tr)"

fun DEFAULT_TRACK_NAMES :: "track_type \<Rightarrow> string" where
  "DEFAULT_TRACK_NAMES TVideo = ''Video track''"
| "DEFAULT_TRACK_NAMES TText = ''Text track''"
| "DEFAULT_TRACK_NAMES TAudio = ''Audio track''"
| "DEFAULT_TRACK_NAMES TGraphic = ''Graphic track''"
| "DEFAULT_TRACK_NAMES TEffect = ''Effect track''"

section \<open>Locating and updating\<close>

definition findTrackInSceneTracks :: "scene_tracks \<Rightarrow> uuid \<Rightarrow> track option" where
  "findTrackInSceneTracks ts tid =
     (if trackId (main ts) = tid then Some (main ts)
      else case find (\<lambda>tr. trackId tr = tid) (overlay ts) of
             Some tr \<Rightarrow> Some tr
           | None \<Rightarrow> find (\<lambda>tr. trackId tr = tid) (audio ts))"

definition updateTrackInSceneTracks ::
    "scene_tracks \<Rightarrow> uuid \<Rightarrow> (track \<Rightarrow> track) \<Rightarrow> scene_tracks" where
  "updateTrackInSceneTracks ts tid f =
     (if trackId (main ts) = tid then ts\<lparr>main := f (main ts)\<rparr>
      else case findIndex (\<lambda>tr. trackId tr = tid) (overlay ts) of
             Some i \<Rightarrow> ts\<lparr>overlay := (overlay ts)[i := f (overlay ts ! i)]\<rparr>
           | None \<Rightarrow> (case findIndex (\<lambda>tr. trackId tr = tid) (audio ts) of
               Some i \<Rightarrow> ts\<lparr>audio := (audio ts)[i := f (audio ts ! i)]\<rparr>
             | None \<Rightarrow> ts))"

text \<open>The optional \<open>elementPredicate\<close> defaults to true.\<close>

definition updateElementInTrack ::
    "track \<Rightarrow> uuid \<Rightarrow> (timeline_element \<Rightarrow> timeline_element) \<Rightarrow> (timeline_element \<Rightarrow> bool) \<Rightarrow> track" where
  "updateElementInTrack tr eid f P =
     tr\<lparr>elements := map (\<lambda>e. if elementId e \<noteq> eid then e else if \<not> P e then e else f e) (elements tr)\<rparr>"

definition updateElementInSceneTracks ::
    "scene_tracks \<Rightarrow> uuid \<Rightarrow> uuid \<Rightarrow> (timeline_element \<Rightarrow> timeline_element) \<Rightarrow>
     (timeline_element \<Rightarrow> bool) \<Rightarrow> scene_tracks" where
  "updateElementInSceneTracks ts tid eid f P =
     (if trackId (main ts) = tid then ts\<lparr>main := updateElementInTrack (main ts) eid f P\<rparr>
      else case findIndex (\<lambda>tr. trackId tr = tid) (overlay ts) of
             Some i \<Rightarrow> ts\<lparr>overlay := (overlay ts)[i := updateElementInTrack (overlay ts ! i) eid f P]\<rparr>
           | None \<Rightarrow> (case findIndex (\<lambda>tr. trackId tr = tid) (audio ts) of
               Some i \<Rightarrow> ts\<lparr>audio := (audio ts)[i := updateElementInTrack (audio ts ! i) eid f P]\<rparr>
             | None \<Rightarrow> ts))"

definition calculateTotalDuration :: "scene_tracks \<Rightarrow> media_time" where
  "calculateTotalDuration ts =
     fold (\<lambda>tr maxEnd. fold (\<lambda>e m. if startTime e + duration e > m then startTime e + duration e else m)
       (elements tr) maxEnd) (orderedTracks ts) ZERO_MEDIA_TIME"

definition getElementsAtTime :: "scene_tracks \<Rightarrow> rat \<Rightarrow> element_ref list" where
  "getElementsAtTime ts t =
     concat (map (\<lambda>tr. map (\<lambda>e. \<lparr>ref_trackId = trackId tr, ref_elementId = elementId e\<rparr>)
       (filter (\<lambda>e. of_int (startTime e) < t \<and> t < of_int (startTime e + duration e)) (elements tr)))
       (orderedTracks ts))"

section \<open>Overlap\<close>

record time_span =
  sp_start :: media_time
  sp_duration :: media_time
  sp_exclude :: "uuid option"

definition wouldElementOverlap ::
    "timeline_element list \<Rightarrow> media_time \<Rightarrow> media_time \<Rightarrow> uuid option \<Rightarrow> bool" where
  "wouldElementOverlap es s e excl =
     list_ex (\<lambda>x. if truthy_id excl \<and> excl = Some (elementId x) then False
                  else s < startTime x + duration x \<and> e > startTime x) es"

definition canPlaceTimeSpansOnTrack :: "track \<Rightarrow> time_span list \<Rightarrow> bool" where
  "canPlaceTimeSpansOnTrack tr spans =
     list_all (\<lambda>sp. \<not> wouldElementOverlap (elements tr) (sp_start sp) (sp_start sp + sp_duration sp)
        (sp_exclude sp)) spans"

section \<open>Well-formed timelines\<close>

text \<open>
  The type system of the sources (which track may hold which element, which tracks stand where)
  and the two invariants the editor maintains: distinct track ids, and no two elements of a track
  that overlap.
\<close>

definition track_typed :: "track \<Rightarrow> bool" where
  "track_typed tr \<longleftrightarrow> list_all (\<lambda>e. canElementGoOnTrack (elementType e) (trackType tr)) (elements tr)"

definition tracks_typed :: "scene_tracks \<Rightarrow> bool" where
  "tracks_typed ts \<longleftrightarrow> trackType (main ts) = TVideo
     \<and> list_all (\<lambda>tr. trackType tr \<noteq> TAudio) (overlay ts) \<and> list_all (\<lambda>tr. trackType tr = TAudio) (audio ts)
     \<and> list_all track_typed (orderedTracks ts)"

abbreviation elements_disjoint :: "timeline_element \<Rightarrow> timeline_element \<Rightarrow> bool" where
  "elements_disjoint a b \<equiv> span_disjoint (startTime a) (elementEnd a) (startTime b) (elementEnd b)"

definition no_overlap :: "timeline_element list \<Rightarrow> bool" where
  "no_overlap es \<longleftrightarrow> sorted_wrt elements_disjoint es"

definition tracks_ids_ok :: "scene_tracks \<Rightarrow> bool" where
  "tracks_ids_ok ts \<longleftrightarrow> distinct (map trackId (orderedTracks ts))"

definition tracks_no_overlap :: "scene_tracks \<Rightarrow> bool" where
  "tracks_no_overlap ts \<longleftrightarrow> list_all (\<lambda>tr. no_overlap (elements tr)) (orderedTracks ts)"

definition tracks_wf :: "scene_tracks \<Rightarrow> bool" where
  "tracks_wf ts \<longleftrightarrow> tracks_typed ts \<and> tracks_ids_ok ts \<and> tracks_no_overlap ts"

section \<open>Lemmas\<close>

interpretation track_coll: keyed_collection trackId "\<lambda>f. \<forall>tr. trackId (f tr) = trackId tr"
  by unfold_locales blast

interpretation element_coll: keyed_collection elementId "\<lambda>f. \<forall>e. elementId (f e) = elementId e"
  by unfold_locales blast

text \<open>With distinct keys, updating the first match is \<open>update_by\<close>.\<close>

lemma findIndex_update_by:
  "distinct (map key xs) \<Longrightarrow>
   (case findIndex (\<lambda>x. key x = k) xs of Some i \<Rightarrow> xs[i := f (xs ! i)] | None \<Rightarrow> xs) = update_by key k f xs"
proof (induction xs)
  case (Cons x xs)
  have "update_by key k f xs = xs" if "key x = k"
    using Cons.prems that by (simp add: update_by_id)
  then show ?case using Cons by (auto simp: update_by_def split: option.splits)
qed (simp add: update_by_def)

lemma updateElementInTrack_update_by:
  "elements (updateElementInTrack tr eid f P) = update_by elementId eid (\<lambda>e. if P e then f e else e) (elements tr)"
  by (simp add: updateElementInTrack_def update_by_def)

lemma updateElementInTrack_proj [simp]:
  "trackId (updateElementInTrack tr eid f P) = trackId tr"
  "trackType (updateElementInTrack tr eid f P) = trackType tr"
  by (simp_all add: updateElementInTrack_def)

lemma updateElement_via_track:
  "updateElementInSceneTracks ts tid eid f P
   = updateTrackInSceneTracks ts tid (\<lambda>tr. updateElementInTrack tr eid f P)"
  by (simp add: updateElementInSceneTracks_def updateTrackInSceneTracks_def)

lemma orderedTracks_update:
  assumes "tracks_ids_ok ts"
  shows "orderedTracks (updateTrackInSceneTracks ts tid f) = update_by trackId tid f (orderedTracks ts)"
proof -
  have d: "distinct (map trackId (overlay ts))" "distinct (map trackId (audio ts))"
    "trackId (main ts) \<notin> trackId ` set (overlay ts)" "trackId (main ts) \<notin> trackId ` set (audio ts)"
    "trackId ` set (overlay ts) \<inter> trackId ` set (audio ts) = {}"
    using assms by (auto simp: tracks_ids_ok_def orderedTracks_def)
  note o = findIndex_update_by [OF d(1), where k = tid and f = f]
    and a = findIndex_update_by [OF d(2), where k = tid and f = f]
  show ?thesis
  proof (cases "trackId (main ts) = tid")
    case True
    then have "update_by trackId tid f (overlay ts) = overlay ts" "update_by trackId tid f (audio ts) = audio ts"
      using d(3,4) by (auto intro!: update_by_id)
    with True show ?thesis
      by (simp add: updateTrackInSceneTracks_def orderedTracks_def update_by_append update_by_Cons)
  next
    case False
    show ?thesis
    proof (cases "findIndex (\<lambda>tr. trackId tr = tid) (overlay ts)")
      case None
      then have "update_by trackId tid f (overlay ts) = overlay ts" using o by simp
      with None False a show ?thesis
        by (auto simp: updateTrackInSceneTracks_def orderedTracks_def update_by_append update_by_Cons
            split: option.splits)
    next
      case (Some i)
      then have "tid \<in> trackId ` set (overlay ts)" using findIndexD [OF Some] by force
      then have "update_by trackId tid f (audio ts) = audio ts" using d(5) by (auto intro!: update_by_id)
      with Some False o show ?thesis
        by (simp add: updateTrackInSceneTracks_def orderedTracks_def update_by_append update_by_Cons)
    qed
  qed
qed

lemma findTrack_lookup:
  assumes "tracks_ids_ok ts"
  shows "findTrackInSceneTracks ts tid = lookup_by trackId tid (orderedTracks ts)"
proof (cases "trackId (main ts) = tid")
  case True
  then have "lookup_by trackId tid (overlay ts) = None"
    using assms by (auto simp: track_coll.lookup_None tracks_ids_ok_def orderedTracks_def)
  then show ?thesis using True
    by (auto simp: findTrackInSceneTracks_def orderedTracks_def lookup_by_def find_append)
next
  case False
  then show ?thesis
    by (auto simp: findTrackInSceneTracks_def orderedTracks_def lookup_by_def find_append split: option.splits)
qed

lemma set_orderedTracks: "set (orderedTracks ts) = set (overlay ts) \<union> {main ts} \<union> set (audio ts)"
  by (auto simp: orderedTracks_def)

lemma list_all_update_by:
  "list_all P xs \<Longrightarrow> (\<And>x. x \<in> set xs \<Longrightarrow> key x = k \<Longrightarrow> P (f x)) \<Longrightarrow> list_all P (update_by key k f xs)"
  by (auto simp: update_by_def list_all_iff)

lemma tracks_ids_update:
  "tracks_ids_ok ts \<Longrightarrow> \<forall>tr. trackId (f tr) = trackId tr \<Longrightarrow> tracks_ids_ok (updateTrackInSceneTracks ts tid f)"
  using track_coll.keys_update [of f tid "orderedTracks ts"]
  by (simp add: tracks_ids_ok_def orderedTracks_update)

lemma overlap_update:
  assumes "tracks_ids_ok ts" "tracks_no_overlap ts"
    "\<And>tr. tr \<in> set (orderedTracks ts) \<Longrightarrow> trackId tr = tid \<Longrightarrow> no_overlap (elements (f tr))"
  shows "tracks_no_overlap (updateTrackInSceneTracks ts tid f)"
  using assms unfolding tracks_no_overlap_def orderedTracks_update [OF assms(1)]
  by (intro list_all_update_by) auto

lemma typed_update:
  assumes "tracks_typed ts" "\<And>tr. trackType (f tr) = trackType tr"
    "\<And>tr. tr \<in> set (orderedTracks ts) \<Longrightarrow> trackId tr = tid \<Longrightarrow> track_typed (f tr)"
  shows "tracks_typed (updateTrackInSceneTracks ts tid f)"
proof -
  have u: "list_all P (xs[i := f (xs ! i)])"
    if "list_all P xs" "findIndex (\<lambda>tr. trackId tr = tid) xs = Some i"
      "\<And>tr. tr \<in> set xs \<Longrightarrow> trackId tr = tid \<Longrightarrow> P (f tr)" for P xs i
    using that findIndexD [OF that(2)] set_update_subset_insert [of xs i "f (xs ! i)"]
    by (auto simp: list_all_iff)
  show ?thesis
  proof (cases "trackId (main ts) = tid")
    case True
    then show ?thesis using assms
      by (auto simp: updateTrackInSceneTracks_def tracks_typed_def orderedTracks_def)
  next
    case False
    show ?thesis
      using assms False
      by (auto simp: updateTrackInSceneTracks_def tracks_typed_def orderedTracks_def list_all_iff [of _ "overlay ts"]
          list_all_iff [of _ "audio ts"] split: option.splits intro!: u)
  qed
qed

text \<open>Replacing the elements of a track, and appending to it.\<close>

lemma no_overlap_append:
  "no_overlap (xs @ ys) \<longleftrightarrow> no_overlap xs \<and> no_overlap ys \<and> (\<forall>x \<in> set xs. \<forall>y \<in> set ys. elements_disjoint x y)"
  by (simp add: no_overlap_def sorted_wrt_append)

lemma no_overlap_mset: "mset xs = mset ys \<Longrightarrow> no_overlap xs = no_overlap ys"
  unfolding no_overlap_def by (intro sorted_wrt_mset_eq) auto

lemma no_overlap_filter: "no_overlap xs \<Longrightarrow> no_overlap (filter P xs)"
  unfolding no_overlap_def by (rule sorted_wrt_filter)

lemma no_overlap_map:
  assumes "no_overlap xs"
    and "\<And>x y. x \<in> set xs \<Longrightarrow> y \<in> set xs \<Longrightarrow> elements_disjoint x y \<Longrightarrow> elements_disjoint (f x) (f y)"
  shows "no_overlap (map f xs)"
  using assms unfolding no_overlap_def by (rule sorted_wrt_map_mono)

text \<open>The overlap test of the code is disjointness of the half-open intervals.\<close>

lemma wouldElementOverlap_iff:
  "\<not> wouldElementOverlap es s e excl \<longleftrightarrow>
   (\<forall>x \<in> set es. truthy_id excl \<and> excl = Some (elementId x) \<or> span_disjoint s e (startTime x) (elementEnd x))"
  by (auto simp: wouldElementOverlap_def list_ex_iff elementEnd_def not_less)

lemma canPlace_iff:
  "canPlaceTimeSpansOnTrack tr spans \<longleftrightarrow> (\<forall>sp \<in> set spans. \<forall>x \<in> set (elements tr).
     truthy_id (sp_exclude sp) \<and> sp_exclude sp = Some (elementId x)
     \<or> span_disjoint (sp_start sp) (sp_start sp + sp_duration sp) (startTime x) (elementEnd x))"
  by (simp add: canPlaceTimeSpansOnTrack_def list_all_iff wouldElementOverlap_iff)

lemma fold_max_ge:
  "m \<le> fold (\<lambda>e m. if g e > m then g e else m) es (m :: int)
   \<and> (\<forall>e \<in> set es. g e \<le> fold (\<lambda>e m. if g e > m then g e else m) es m)
   \<and> (fold (\<lambda>e m. if g e > m then g e else m) es m = m
      \<or> (\<exists>e \<in> set es. fold (\<lambda>e m. if g e > m then g e else m) es m = g e))"
proof (induction es arbitrary: m)
  case (Cons e es)
  show ?case using Cons [of "if g e > m then g e else m"] by (auto split: if_splits)
qed simp

lemma fold_concat: "fold (\<lambda>tr. fold h (g tr)) xs m = fold h (concat (map g xs)) m"
  by (induction xs arbitrary: m) simp_all

lemma totalDuration_fold:
  "calculateTotalDuration ts
   = fold (\<lambda>e m. if elementEnd e > m then elementEnd e else m) (concat (map elements (orderedTracks ts))) 0"
  unfolding calculateTotalDuration_def elementEnd_def
  using fold_concat [of "\<lambda>e m. if startTime e + duration e > m then startTime e + duration e else m"
      elements "orderedTracks ts" 0] by simp

lemma totalDuration_least:
  shows "0 \<le> calculateTotalDuration ts"
    and "tr \<in> set (orderedTracks ts) \<Longrightarrow> e \<in> set (elements tr) \<Longrightarrow> elementEnd e \<le> calculateTotalDuration ts"
    and "calculateTotalDuration ts = 0
      \<or> (\<exists>tr \<in> set (orderedTracks ts). \<exists>e \<in> set (elements tr). calculateTotalDuration ts = elementEnd e)"
  using fold_max_ge [of 0 elementEnd "concat (map elements (orderedTracks ts))"]
  by (auto simp: totalDuration_fold)

section \<open>Properties\<close>

text \<open>The total duration of a timeline is the least time at or after 0 that no element reaches
  beyond.\<close>
theorem totalDuration_lub:
  "calculateTotalDuration ts \<le> t \<longleftrightarrow>
   0 \<le> t \<and> list_all (\<lambda>tr. list_all (\<lambda>e. startTime e + duration e \<le> t) (elements tr)) (orderedTracks ts)"
  (is "?l \<longleftrightarrow> ?r")
proof
  assume ?l
  then show ?r using totalDuration_least(1) [of ts] totalDuration_least(2) [of _ ts] unfolding elementEnd_def list_all_iff
    by (meson order.trans)
next
  assume ?r
  then show ?l using totalDuration_least(3) [of ts] by (auto simp: list_all_iff elementEnd_def)
qed

end
