(* ===== verification/Placement.thy ===== *)
theory Placement
  imports Timeline
begin

text \<open>
  Where an element goes (\<open>timeline/placement/\<close>): which track can take it, at which index a new
  track is opened, the rule that the main track starts at 0, and the insertion itself. Positions in
  the list of all tracks count the overlay tracks first, then the main track, then the audio tracks.
\<close>

section \<open>Data\<close>

datatype direction = Above | Below
datatype vertical_drag = DragUp | DragDown
datatype new_track_position = Highest | DefaultPosition

datatype placement_strategy =
  Explicit uuid
| FirstAvailable
| PreferIndex int direction "vertical_drag option" bool
| AboveSource int
| AlwaysNew new_track_position

datatype placement_result =
  ExistingTrack uuid int track_type "media_time option"
| NewTrack int "direction option" track_type

section \<open>The start of the main track\<close>

definition MAIN_TRACK_NAME :: string where "MAIN_TRACK_NAME = ''Main Track''"

definition keeps_element :: "uuid option \<Rightarrow> timeline_element \<Rightarrow> bool" where
  "keeps_element excl e \<longleftrightarrow> \<not> truthy_id excl \<or> Some (elementId e) \<noteq> excl"

definition earlier :: "timeline_element \<Rightarrow> timeline_element \<Rightarrow> timeline_element" where
  "earlier e earliest = (if startTime e < startTime earliest then e else earliest)"

definition getEarliestMainTrackElement :: "track \<Rightarrow> uuid option \<Rightarrow> timeline_element option" where
  "getEarliestMainTrackElement mainTrack excl =
     (case filter (keeps_element excl) (elements mainTrack) of
        [] \<Rightarrow> None
      | e # es \<Rightarrow> Some (fold earlier es e))"

definition enforceMainTrackStart ::
    "scene_tracks \<Rightarrow> uuid \<Rightarrow> media_time \<Rightarrow> uuid option \<Rightarrow> media_time" where
  "enforceMainTrackStart ts targetTrackId requested excl =
     (if trackId (main ts) \<noteq> targetTrackId then requested
      else case getEarliestMainTrackElement (main ts) excl of
             None \<Rightarrow> ZERO_MEDIA_TIME
           | Some e \<Rightarrow> if requested \<le> startTime e then ZERO_MEDIA_TIME else requested)"

section \<open>Indices of new tracks\<close>

definition getDefaultInsertIndexForTrack :: "scene_tracks \<Rightarrow> track_type \<Rightarrow> int" where
  "getDefaultInsertIndexForTrack ts tt =
     (if tt = TAudio then int (length (overlay ts)) + 1 + int (length (audio ts))
      else if tt = TEffect then 0
      else int (length (overlay ts)))"

definition getHighestInsertIndexForTrack :: "scene_tracks \<Rightarrow> track_type \<Rightarrow> int" where
  "getHighestInsertIndexForTrack ts tt = (if tt = TAudio then int (length (overlay ts)) + 1 else 0)"

definition resolvePreferredNewTrackPlacement ::
    "scene_tracks \<Rightarrow> track_type \<Rightarrow> int \<Rightarrow> direction \<Rightarrow> int \<times> direction option" where
  "resolvePreferredNewTrackPlacement ts tt preferred dir =
     (let trackCount = int (length (overlay ts)) + 1 + int (length (audio ts))
      in if trackCount = 0 then (0, if tt = TAudio then Some Below else None)
         else
           let safe = min (max preferred 0) (trackCount - 1);
               mainIndex = int (length (overlay ts));
               idx = (if dir = Above then safe else safe + 1)
           in if tt = TAudio
              then if safe \<le> mainIndex then (mainIndex + 1, Some Below) else (idx, Some dir)
              else if 0 \<le> mainIndex \<and> mainIndex < idx then (mainIndex, Some Above)
              else (idx, Some dir))"

section \<open>Empty tracks\<close>

definition buildEmptyTrack :: "uuid \<Rightarrow> track_type \<Rightarrow> string option \<Rightarrow> track" where
  "buildEmptyTrack tid tt name =
     \<lparr>trackId = tid,
      trackName = (case name of None \<Rightarrow> DEFAULT_TRACK_NAMES tt | Some n \<Rightarrow> n),
      trackType = tt, elements = [],
      tr_muted = (if tt = TVideo \<or> tt = TAudio then Some False else None),
      tr_hidden = (if tt = TAudio then None else Some False)\<rparr>"

section \<open>Applying a placement\<close>

definition insertIntoOverlayTracks :: "scene_tracks \<Rightarrow> int \<Rightarrow> track \<Rightarrow> track list" where
  "insertIntoOverlayTracks ts idx tr =
     insert_at (overlay ts) (max 0 (min idx (int (length (overlay ts))))) tr"

definition insertIntoAudioTracks :: "scene_tracks \<Rightarrow> int \<Rightarrow> track \<Rightarrow> track list" where
  "insertIntoAudioTracks ts idx tr =
     insert_at (audio ts) (max 0 (min (idx - int (length (overlay ts)) - 1) (int (length (audio ts))))) tr"

definition buildPlacedAudioTrack :: "uuid \<Rightarrow> timeline_element list \<Rightarrow> track" where
  "buildPlacedAudioTrack tid es = (buildEmptyTrack tid TAudio None)\<lparr>elements := es\<rparr>"

definition buildPlacedOverlayTrack :: "uuid \<Rightarrow> track_type \<Rightarrow> timeline_element list \<Rightarrow> track" where
  "buildPlacedOverlayTrack tid tt es = (buildEmptyTrack tid tt None)\<lparr>elements := es\<rparr>"

text \<open>\<open>fresh\<close> is the identifier drawn for a new track.\<close>

definition applyPlacement ::
    "scene_tracks \<Rightarrow> placement_result \<Rightarrow> timeline_element list \<Rightarrow> int option \<Rightarrow> uuid \<Rightarrow>
     (scene_tracks \<times> uuid) option" where
  "applyPlacement ts res es override fresh =
     (case res of
        ExistingTrack tid idx tt adj \<Rightarrow>
          (case js_at (orderedTracks ts) idx of
             None \<Rightarrow> None
           | Some target \<Rightarrow>
               Some (updateTrackInSceneTracks ts (trackId target) (\<lambda>tr. tr\<lparr>elements := elements tr @ es\<rparr>),
                     trackId target))
      | NewTrack insertIndex pos tt \<Rightarrow>
          let idx = (case override of None \<Rightarrow> insertIndex | Some i \<Rightarrow> i)
          in Some (if tt = TAudio
                   then ts\<lparr>audio := insertIntoAudioTracks ts idx (buildPlacedAudioTrack fresh es)\<rparr>
                   else ts\<lparr>overlay := insertIntoOverlayTracks ts idx (buildPlacedOverlayTrack fresh tt es)\<rparr>,
                   fresh))"

section \<open>Resolving a placement\<close>

definition buildExistingTrackResult ::
    "track \<Rightarrow> int \<Rightarrow> scene_tracks \<Rightarrow> time_span list \<Rightarrow> placement_result" where
  "buildExistingTrackResult tr idx ts spans =
     (let requested = (case spans of [] \<Rightarrow> ZERO_MEDIA_TIME | sp # _ \<Rightarrow> sp_start sp);
          excl = (case spans of [] \<Rightarrow> None | sp # _ \<Rightarrow> sp_exclude sp);
          adjusted = enforceMainTrackStart ts (trackId tr) requested excl
      in ExistingTrack (trackId tr) idx (trackType tr)
           (if adjusted \<noteq> requested then Some adjusted else None))"

definition findFirstAvailableTrackIndex :: "track list \<Rightarrow> track_type \<Rightarrow> time_span list \<Rightarrow> nat option" where
  "findFirstAvailableTrackIndex trs tt spans =
     findIndex (\<lambda>tr. trackType tr = tt \<and> canPlaceTimeSpansOnTrack tr spans) trs"

definition resolveAlwaysNewTrack :: "scene_tracks \<Rightarrow> track_type \<Rightarrow> new_track_position \<Rightarrow> placement_result" where
  "resolveAlwaysNewTrack ts tt pos =
     NewTrack (if pos = Highest then getHighestInsertIndexForTrack ts tt
               else getDefaultInsertIndexForTrack ts tt) None tt"

definition getInsertDirection :: "direction \<Rightarrow> vertical_drag option \<Rightarrow> direction" where
  "getInsertDirection hover drag =
     (case drag of Some DragUp \<Rightarrow> Above | Some DragDown \<Rightarrow> Below | None \<Rightarrow> hover)"

definition resolveTrackPlacement ::
    "scene_tracks \<Rightarrow> track_type \<Rightarrow> time_span list \<Rightarrow> placement_strategy \<Rightarrow> placement_result option" where
  "resolveTrackPlacement ts tt spans strategy =
     (let ordered = orderedTracks ts
      in case strategy of
           Explicit tid \<Rightarrow>
             (case findIndex (\<lambda>tr. trackId tr = tid) ordered of
                None \<Rightarrow> None
              | Some i \<Rightarrow> if trackType (ordered ! i) \<noteq> tt then None
                          else Some (buildExistingTrackResult (ordered ! i) (int i) ts spans))
         | FirstAvailable \<Rightarrow>
             (case findFirstAvailableTrackIndex ordered tt spans of
                Some i \<Rightarrow> Some (buildExistingTrackResult (ordered ! i) (int i) ts spans)
              | None \<Rightarrow> Some (resolveAlwaysNewTrack ts tt Highest))
         | PreferIndex idx hover drag newOnly \<Rightarrow>
             (let preferred = js_at ordered idx;
                  compatible = (case preferred of None \<Rightarrow> False | Some tr \<Rightarrow> trackType tr = tt)
              in if \<not> newOnly \<and> compatible \<and> canPlaceTimeSpansOnTrack (the preferred) spans
                 then Some (buildExistingTrackResult (the preferred) idx ts spans)
                 else case resolvePreferredNewTrackPlacement ts tt idx
                             (getInsertDirection hover (if compatible then None else drag)) of
                        (insertIndex, pos) \<Rightarrow> Some (NewTrack insertIndex pos tt))
         | AboveSource sourceIdx \<Rightarrow>
             (let aboveIdx = sourceIdx - 1;
                  fallback = (case findFirstAvailableTrackIndex ordered tt spans of
                      Some i \<Rightarrow> Some (buildExistingTrackResult (ordered ! i) (int i) ts spans)
                    | None \<Rightarrow> Some (NewTrack (getHighestInsertIndexForTrack ts tt) None tt))
              in case js_at ordered aboveIdx of
                   Some tr \<Rightarrow> if trackType tr = tt \<and> canPlaceTimeSpansOnTrack tr spans
                              then Some (buildExistingTrackResult tr aboveIdx ts spans) else fallback
                 | None \<Rightarrow> fallback)
         | AlwaysNew pos \<Rightarrow> Some (resolveAlwaysNewTrack ts tt pos))"

section \<open>Lemmas: the main track\<close>

lemma fold_earlier:
  "startTime (fold earlier es e) \<le> startTime e
   \<and> (\<forall>x \<in> set es. startTime (fold earlier es e) \<le> startTime x) \<and> fold earlier es e \<in> insert e (set es)"
proof (induction es arbitrary: e)
  case (Cons a es)
  show ?case using Cons [of "earlier a e"] by (auto simp: earlier_def split: if_splits)
qed simp

lemma earliest_Some:
  assumes "getEarliestMainTrackElement tr excl = Some e"
  shows "e \<in> set (elements tr) \<and> keeps_element excl e
    \<and> (\<forall>x \<in> set (elements tr). keeps_element excl x \<longrightarrow> startTime e \<le> startTime x)"
proof -
  obtain a as where f: "filter (keeps_element excl) (elements tr) = a # as" and e: "e = fold earlier as a"
    using assms by (auto simp: getEarliestMainTrackElement_def split: list.splits)
  have "set (a # as) = {x \<in> set (elements tr). keeps_element excl x}" using f by (metis set_filter)
  then show ?thesis using fold_earlier [where es = as and e = a] e by auto
qed

lemma earliest_None:
  "getEarliestMainTrackElement tr excl = None \<longleftrightarrow> (\<forall>x \<in> set (elements tr). \<not> keeps_element excl x)"
proof -
  have "getEarliestMainTrackElement tr excl = None \<longleftrightarrow> filter (keeps_element excl) (elements tr) = []"
    by (simp add: getEarliestMainTrackElement_def split: list.splits)
  then show ?thesis by (simp add: filter_empty_conv)
qed

text \<open>
  Moving a span that fits back to 0 keeps it clear of the other elements: nothing stands between
  0 and the requested start.
\<close>

lemma enforce_keeps_fit:
  assumes "0 \<le> s" and "\<forall>x \<in> set (elements tr). keeps_element excl x \<longrightarrow> 0 < duration x"
    and fit: "\<forall>x \<in> set (elements tr). keeps_element excl x \<longrightarrow> span_disjoint s (s + d) (startTime x) (elementEnd x)"
    and "tr \<in> set (orderedTracks ts)" "tracks_ids_ok ts"
    and s': "s' = enforceMainTrackStart ts (trackId tr) s excl"
  shows "\<forall>x \<in> set (elements tr). keeps_element excl x \<longrightarrow> span_disjoint s' (s' + d) (startTime x) (elementEnd x)"
proof (cases "s' = s")
  case True
  then show ?thesis using fit by simp
next
  case False
  then have m: "trackId (main ts) = trackId tr" and z: "s' = 0"
    using s' by (auto simp: enforceMainTrackStart_def split: if_splits option.splits)
  have "tr = main ts"
    using m assms(4,5) by (auto simp: tracks_ids_ok_def orderedTracks_def set_orderedTracks)
  show ?thesis
  proof (cases "getEarliestMainTrackElement (main ts) excl")
    case None
    then show ?thesis using \<open>tr = main ts\<close> by (auto simp: earliest_None)
  next
    case (Some e)
    note e = earliest_Some [OF Some]
    have "s \<le> startTime e" using False s' m Some by (auto simp: enforceMainTrackStart_def split: if_splits)
    moreover have "0 < duration e" "span_disjoint s (s + d) (startTime e) (elementEnd e)"
      using e assms(2) fit \<open>tr = main ts\<close> by blast+
    ultimately have "d \<le> startTime e" using assms(1) by (auto simp: elementEnd_def)
    then show ?thesis using e z \<open>tr = main ts\<close> by force
  qed
qed

section \<open>Lemmas: new tracks\<close>

lemma buildEmptyTrack_proj [simp]:
  "trackId (buildEmptyTrack tid tt n) = tid" "trackType (buildEmptyTrack tid tt n) = tt"
  "elements (buildEmptyTrack tid tt n) = []"
  by (simp_all add: buildEmptyTrack_def)

lemma placed_proj [simp]:
  "trackId (buildPlacedAudioTrack tid es) = tid" "trackType (buildPlacedAudioTrack tid es) = TAudio"
  "elements (buildPlacedAudioTrack tid es) = es"
  "trackId (buildPlacedOverlayTrack tid tt es) = tid" "trackType (buildPlacedOverlayTrack tid tt es) = tt"
  "elements (buildPlacedOverlayTrack tid tt es) = es"
  by (simp_all add: buildPlacedAudioTrack_def buildPlacedOverlayTrack_def)

text \<open>A track inserted into either section joins the list of all tracks, whatever the index.\<close>

lemma mset_ordered_insert:
  "mset (orderedTracks (ts\<lparr>overlay := insertIntoOverlayTracks ts i tr\<rparr>)) = add_mset tr (mset (orderedTracks ts))"
  "mset (orderedTracks (ts\<lparr>audio := insertIntoAudioTracks ts i tr\<rparr>)) = add_mset tr (mset (orderedTracks ts))"
  by (simp_all add: orderedTracks_def insertIntoOverlayTracks_def insertIntoAudioTracks_def)

lemma ordered_add_wf:
  assumes "tracks_wf ts" "mset (orderedTracks ts') = add_mset tr (mset (orderedTracks ts))"
    and "trackId tr \<notin> trackId ` set (orderedTracks ts)" "no_overlap (elements tr)" "track_typed tr"
  shows "tracks_ids_ok ts'" "tracks_no_overlap ts'" "list_all track_typed (orderedTracks ts')"
proof -
  have m: "mset (orderedTracks ts') = mset (tr # orderedTracks ts)" using assms(2) by simp
  have st: "set (orderedTracks ts') = insert tr (set (orderedTracks ts))"
    using arg_cong [OF m, of set_mset] by simp
  have "distinct (map trackId (orderedTracks ts')) = distinct (map trackId (tr # orderedTracks ts))"
    using m by (intro mset_eq_imp_distinct_iff) (simp only: mset_map)
  then show "tracks_ids_ok ts'" using assms(1,3) by (simp add: tracks_ids_ok_def tracks_wf_def)
  show "tracks_no_overlap ts'" "list_all track_typed (orderedTracks ts')"
    using assms(1,4,5) st by (auto simp: tracks_wf_def tracks_no_overlap_def tracks_typed_def list_all_iff)
qed

lemma placed_audio: "buildPlacedAudioTrack tid es = buildPlacedOverlayTrack tid TAudio es"
  by (simp add: buildPlacedAudioTrack_def buildPlacedOverlayTrack_def)

lemma new_track_wf:
  assumes "tracks_wf ts" "fresh \<notin> trackId ` set (orderedTracks ts)" "no_overlap es"
    "list_all (\<lambda>e. canElementGoOnTrack (elementType e) tt) es"
    and "applyPlacement ts (NewTrack i pos tt) es override fresh = Some (ts', tid)"
  shows "tracks_wf ts' \<and> tid = fresh
    \<and> mset (orderedTracks ts') = add_mset (buildPlacedOverlayTrack fresh tt es) (mset (orderedTracks ts))"
proof -
  let ?tr = "buildPlacedOverlayTrack fresh tt es"
  define j where "j = (case override of None \<Rightarrow> i | Some i \<Rightarrow> i)"
  have ts': "ts' = (if tt = TAudio then ts\<lparr>audio := insertIntoAudioTracks ts j ?tr\<rparr>
      else ts\<lparr>overlay := insertIntoOverlayTracks ts j ?tr\<rparr>)" "tid = fresh"
    using assms(5) by (cases "tt = TAudio"; simp add: applyPlacement_def Let_def placed_audio j_def)+
  have m: "mset (orderedTracks ts') = add_mset ?tr (mset (orderedTracks ts))"
    using mset_ordered_insert by (simp add: ts'(1))
  have all: "tracks_ids_ok ts'" "tracks_no_overlap ts'" "list_all track_typed (orderedTracks ts')"
    using ordered_add_wf [OF assms(1) m] assms(2-4) by (simp_all add: track_typed_def)
  have old: "trackType (main ts) = TVideo" "list_all (\<lambda>tr. trackType tr \<noteq> TAudio) (overlay ts)"
    "list_all (\<lambda>tr. trackType tr = TAudio) (audio ts)"
    using assms(1) by (simp_all add: tracks_wf_def tracks_typed_def)
  have "trackType (main ts') = TVideo" "list_all (\<lambda>tr. trackType tr \<noteq> TAudio) (overlay ts')"
    "list_all (\<lambda>tr. trackType tr = TAudio) (audio ts')"
    using old by (simp_all add: ts'(1) insertIntoAudioTracks_def insertIntoOverlayTracks_def list_all_iff)
  then show ?thesis using all m ts'(2) by (simp add: tracks_wf_def tracks_typed_def)
qed

text \<open>Appending elements that fit to an existing track.\<close>

lemma existing_track_wf:
  assumes "tracks_wf ts" "js_at (orderedTracks ts) idx = Some tr" "no_overlap es"
    "list_all (\<lambda>e. canElementGoOnTrack (elementType e) (trackType tr)) es"
    "\<forall>x \<in> set (elements tr). \<forall>e \<in> set es. elements_disjoint x e"
    and "applyPlacement ts (ExistingTrack tid0 idx tt adj) es override fresh = Some (ts', tid)"
  shows "tracks_wf ts' \<and> tid = trackId tr
    \<and> orderedTracks ts' = update_by trackId tid (\<lambda>tr. tr\<lparr>elements := elements tr @ es\<rparr>) (orderedTracks ts)"
proof -
  let ?f = "\<lambda>tr. tr\<lparr>elements := elements tr @ es\<rparr>"
  have ids: "tracks_ids_ok ts" and no: "tracks_no_overlap ts" and ty: "tracks_typed ts"
    using assms(1) by (simp_all add: tracks_wf_def)
  have tr: "tr \<in> set (orderedTracks ts)" using js_at_Some [OF assms(2)] by simp
  have same: "x = tr" if "x \<in> set (orderedTracks ts)" "trackId x = trackId tr" for x
    using that tr ids by (simp add: tracks_ids_ok_def distinct_map inj_on_def)
  have ts': "ts' = updateTrackInSceneTracks ts (trackId tr) ?f" "tid = trackId tr"
    using assms(2,6) by (auto simp: applyPlacement_def)
  have "tracks_ids_ok ts'" unfolding ts' using ids by (rule tracks_ids_update) simp
  moreover have "tracks_no_overlap ts'" unfolding ts' using ids no
    by (rule overlap_update) (use tr assms(3,5) no same in \<open>auto simp: no_overlap_append
      tracks_no_overlap_def list_all_iff\<close>)
  moreover have "tracks_typed ts'" unfolding ts' using ty
    by (rule typed_update) (use tr assms(4) ty same in \<open>auto simp: track_typed_def tracks_typed_def list_all_iff\<close>)
  ultimately show ?thesis using ids ts' by (simp add: tracks_wf_def orderedTracks_update)
qed

section \<open>Lemmas: every checked strategy finds room\<close>

lemma findFirstAvailable_fits:
  "findFirstAvailableTrackIndex trs tt spans = Some i \<Longrightarrow>
   i < length trs \<and> trackType (trs ! i) = tt \<and> canPlaceTimeSpansOnTrack (trs ! i) spans"
  by (auto simp: findFirstAvailableTrackIndex_def dest: findIndexD)

definition checks_room :: "placement_strategy \<Rightarrow> bool" where
  "checks_room strategy = (case strategy of Explicit _ \<Rightarrow> False | _ \<Rightarrow> True)"

lemma resolve_existing:
  assumes "resolveTrackPlacement ts tt spans strategy = Some (ExistingTrack tid idx tt' adj)"
    and "checks_room strategy"
  shows "\<exists>tr. js_at (orderedTracks ts) idx = Some tr \<and> trackType tr = tt \<and> canPlaceTimeSpansOnTrack tr spans
    \<and> ExistingTrack tid idx tt' adj = buildExistingTrackResult tr idx ts spans"
proof -
  have idx: "idx = j" if "ExistingTrack tid idx tt' adj = buildExistingTrackResult tr j ts spans" for tr j
    using that by (simp add: buildExistingTrackResult_def Let_def)
  have first: ?thesis if "findFirstAvailableTrackIndex (orderedTracks ts) tt spans = Some i"
    "ExistingTrack tid idx tt' adj = buildExistingTrackResult (orderedTracks ts ! i) (int i) ts spans" for i
    using findFirstAvailable_fits [OF that(1)] that(2) idx [OF that(2)]
    by (intro exI [of _ "orderedTracks ts ! i"]) simp
  have direct: ?thesis if "js_at (orderedTracks ts) j = Some tr" "trackType tr = tt"
    "canPlaceTimeSpansOnTrack tr spans"
    "ExistingTrack tid idx tt' adj = buildExistingTrackResult tr j ts spans" for tr j
    using that idx [OF that(4)] by blast
  show ?thesis
  proof (cases strategy)
    case (Explicit x)
    then show ?thesis using assms(2) by (simp add: checks_room_def)
  next
    case FirstAvailable
    then show ?thesis using assms(1) first
      by (auto simp: resolveTrackPlacement_def Let_def resolveAlwaysNewTrack_def split: option.splits)
  next
    case (PreferIndex j h d n)
    then show ?thesis using assms(1) direct [of j]
      by (auto simp: resolveTrackPlacement_def Let_def split: option.splits if_splits prod.splits)
  next
    case (AboveSource j)
    then show ?thesis using assms(1) first direct [of "j - 1"]
      by (auto simp: resolveTrackPlacement_def Let_def split: option.splits if_splits)
  next
    case (AlwaysNew x)
    then show ?thesis using assms(1) by (simp add: resolveTrackPlacement_def resolveAlwaysNewTrack_def)
  qed
qed

lemma resolve_new_type:
  "resolveTrackPlacement ts tt spans strategy = Some (NewTrack i pos tt') \<Longrightarrow> tt' = tt"
  by (auto simp: resolveTrackPlacement_def resolveAlwaysNewTrack_def buildExistingTrackResult_def Let_def
      split: placement_strategy.splits option.splits if_splits prod.splits)

lemma checked_strategy_resolves:
  "checks_room strategy \<Longrightarrow> resolveTrackPlacement ts tt spans strategy \<noteq> None"
  by (auto simp: resolveTrackPlacement_def checks_room_def Let_def
      split: placement_strategy.splits option.splits prod.splits)

section \<open>Properties\<close>

text \<open>The spans of elements, as the insertion commands build them.\<close>

definition span_of :: "timeline_element \<Rightarrow> time_span" where
  "span_of e = \<lparr>sp_start = startTime e, sp_duration = duration e, sp_exclude = None\<rparr>"

text \<open>The element at the start time the placement asks for.\<close>

definition with_adjusted_start :: "placement_result \<Rightarrow> timeline_element \<Rightarrow> timeline_element" where
  "with_adjusted_start res e =
     (case res of ExistingTrack _ _ _ (Some s) \<Rightarrow> e\<lparr>startTime := s\<rparr> | _ \<Rightarrow> e)"

lemma adjusted_fits:
  assumes "tracks_wf ts" "js_at (orderedTracks ts) idx = Some tr" "canPlaceTimeSpansOnTrack tr [span_of e]"
    and "ExistingTrack tid idx tt' adj = buildExistingTrackResult tr idx ts [span_of e]"
    and "0 \<le> startTime e" "\<forall>tr \<in> set (orderedTracks ts). \<forall>x \<in> set (elements tr). 0 < duration x"
    and "e' = with_adjusted_start (ExistingTrack tid idx tt' adj) e"
  shows "\<forall>x \<in> set (elements tr). elements_disjoint x e'"
proof -
  let ?s = "enforceMainTrackStart ts (trackId tr) (startTime e) None"
  have k: "keeps_element None x" for x by (simp add: keeps_element_def truthy_id_def)
  have tr: "tr \<in> set (orderedTracks ts)" using js_at_Some [OF assms(2)] by simp
  have fit: "\<forall>x \<in> set (elements tr). span_disjoint (startTime e) (startTime e + duration e) (startTime x) (elementEnd x)"
    using assms(3) by (simp add: canPlace_iff span_of_def truthy_id_def)
  have ids: "tracks_ids_ok ts" using assms(1) by (simp add: tracks_wf_def)
  have "\<forall>x \<in> set (elements tr). keeps_element None x \<longrightarrow> span_disjoint ?s (?s + duration e) (startTime x) (elementEnd x)"
    by (rule enforce_keeps_fit [OF assms(5) _ _ tr ids refl]) (use assms(6) tr fit in auto)
  moreover have "startTime e' = ?s" "duration e' = duration e"
    using assms(4,7) by (auto simp: with_adjusted_start_def buildExistingTrackResult_def span_of_def Let_def split: if_splits)
  ultimately show ?thesis using k by (auto simp: elementEnd_def)
qed

lemma place_element_wf:
  assumes "tracks_wf ts" "checks_room strategy" "canElementGoOnTrack (elementType e) tt"
    and "fresh \<notin> trackId ` set (orderedTracks ts)" "0 \<le> startTime e"
    and "\<forall>tr \<in> set (orderedTracks ts). \<forall>x \<in> set (elements tr). 0 < duration x"
  shows "\<exists>res ts' tid. resolveTrackPlacement ts tt [span_of e] strategy = Some res
    \<and> applyPlacement ts res [with_adjusted_start res e] override fresh = Some (ts', tid)
    \<and> tracks_wf ts'
    \<and> (\<exists>tr \<in> set (orderedTracks ts'). trackId tr = tid \<and> with_adjusted_start res e \<in> set (elements tr))"
proof -
  obtain res where res: "resolveTrackPlacement ts tt [span_of e] strategy = Some res"
    using checked_strategy_resolves [OF assms(2)] by blast
  let ?e = "with_adjusted_start res e"
  have et: "elementType ?e = elementType e"
    by (simp add: with_adjusted_start_def split: placement_result.splits option.splits)
  have one: "no_overlap [?e]" by (simp add: no_overlap_def)
  have "\<exists>ts' tid. applyPlacement ts res [?e] override fresh = Some (ts', tid) \<and> tracks_wf ts'
    \<and> (\<exists>tr \<in> set (orderedTracks ts'). trackId tr = tid \<and> ?e \<in> set (elements tr))"
  proof (cases res)
    case (ExistingTrack tid idx tt' adj)
    obtain tr where tr: "js_at (orderedTracks ts) idx = Some tr" "trackType tr = tt"
        "canPlaceTimeSpansOnTrack tr [span_of e]"
        "ExistingTrack tid idx tt' adj = buildExistingTrackResult tr idx ts [span_of e]"
      using resolve_existing [OF res [unfolded ExistingTrack] assms(2)] by blast
    obtain ts' tid' where ap: "applyPlacement ts res [?e] override fresh = Some (ts', tid')"
      using tr(1) by (auto simp: applyPlacement_def ExistingTrack)
    have "tracks_wf ts' \<and> tid' = trackId tr
      \<and> orderedTracks ts' = update_by trackId tid' (\<lambda>tr. tr\<lparr>elements := elements tr @ [?e]\<rparr>) (orderedTracks ts)"
      by (rule existing_track_wf [OF assms(1) tr(1) one, of tid tt' adj override fresh])
        (use assms(3) tr et ap adjusted_fits [OF assms(1) tr(1,3,4) assms(5,6) refl] in \<open>auto simp: ExistingTrack\<close>)
    moreover have "tr \<in> set (orderedTracks ts)" using js_at_Some [OF tr(1)] by simp
    ultimately have "tracks_wf ts'" "tid' = trackId tr"
      "tr\<lparr>elements := elements tr @ [?e]\<rparr> \<in> set (orderedTracks ts')"
      by (auto simp: update_by_def image_iff)
    then show ?thesis using ap
      by (intro exI [of _ ts'] exI [of _ tid'] conjI bexI [of _ "tr\<lparr>elements := elements tr @ [?e]\<rparr>"]) auto
  next
    case (NewTrack i pos tt')
    then have tt': "tt' = tt" using res resolve_new_type by blast
    obtain ts' tid' where ap: "applyPlacement ts res [?e] override fresh = Some (ts', tid')"
      by (auto simp: applyPlacement_def NewTrack Let_def)
    have w: "tracks_wf ts' \<and> tid' = fresh \<and> mset (orderedTracks ts')
        = add_mset (buildPlacedOverlayTrack fresh tt [?e]) (mset (orderedTracks ts))"
      by (rule new_track_wf [OF assms(1,4) one, of tt i pos override]) (use assms(3) et ap NewTrack tt' in auto)
    then have "buildPlacedOverlayTrack fresh tt [?e] \<in> set (orderedTracks ts')"
      by (metis set_mset_mset union_single_eq_member)
    then show ?thesis using w ap by (intro exI [of _ ts'] exI [of _ tid']) force
  qed
  then show ?thesis using res by blast
qed

text \<open>Several elements at the times they have.\<close>

lemma place_elements_wf:
  assumes "tracks_wf ts" "checks_room strategy" "list_all (\<lambda>e. canElementGoOnTrack (elementType e) tt) es" "no_overlap es"
    and "fresh \<notin> trackId ` set (orderedTracks ts)"
    and res: "resolveTrackPlacement ts tt (map span_of es) strategy = Some res"
  shows "\<exists>ts' tid. applyPlacement ts res es override fresh = Some (ts', tid) \<and> tracks_wf ts'
    \<and> (\<exists>tr \<in> set (orderedTracks ts'). trackId tr = tid \<and> set es \<subseteq> set (elements tr))
    \<and> (\<forall>tr \<in> set (orderedTracks ts). \<exists>tr' \<in> set (orderedTracks ts'). trackId tr' = trackId tr \<and> set (elements tr) \<subseteq> set (elements tr'))
    \<and> trackId ` set (orderedTracks ts') \<subseteq> insert fresh (trackId ` set (orderedTracks ts))
    \<and> trackId (main ts') = trackId (main ts) \<and> set (elements (main ts)) \<subseteq> set (elements (main ts'))"
proof (cases res)
  case (ExistingTrack tid idx tt' adj)
  obtain tr where tr: "js_at (orderedTracks ts) idx = Some tr" "trackType tr = tt" "canPlaceTimeSpansOnTrack tr (map span_of es)"
    using resolve_existing [OF res [unfolded ExistingTrack] assms(2)] by blast
  obtain ts' tid' where ap: "applyPlacement ts res es override fresh = Some (ts', tid')"
    using tr(1) by (auto simp: applyPlacement_def ExistingTrack)
  have fit: "elements_disjoint x e" if "x \<in> set (elements tr)" "e \<in> set es" for x e
    using tr(3) that by (force simp: canPlace_iff span_of_def truthy_id_def elementEnd_def)
  have w: "tracks_wf ts' \<and> tid' = trackId tr
      \<and> orderedTracks ts' = update_by trackId tid' (\<lambda>tr. tr\<lparr>elements := elements tr @ es\<rparr>) (orderedTracks ts)"
    by (rule existing_track_wf [OF assms(1) tr(1) assms(4), of tid tt' adj override fresh])
      (use assms(3) tr ap fit in \<open>auto simp: ExistingTrack\<close>)
  have ts': "ts' = updateTrackInSceneTracks ts (trackId tr) (\<lambda>tr. tr\<lparr>elements := elements tr @ es\<rparr>)"
    using ap tr(1) by (auto simp: applyPlacement_def ExistingTrack)
  have "trackId (main ts') = trackId (main ts)" "set (elements (main ts)) \<subseteq> set (elements (main ts'))"
    by (auto simp: ts' updateTrackInSceneTracks_def split: option.splits)
  moreover have "tr \<in> set (orderedTracks ts)" using js_at_Some [OF tr(1)] by simp
  then have "tr\<lparr>elements := elements tr @ es\<rparr> \<in> set (orderedTracks ts')" using w by (auto simp: update_by_def image_iff)
  then have "\<exists>tr \<in> set (orderedTracks ts'). trackId tr = tid' \<and> set es \<subseteq> set (elements tr)"
    by (rule bexI [rotated]) (use w in simp)
  moreover have "\<exists>y' \<in> set (orderedTracks ts'). trackId y' = trackId y \<and> set (elements y) \<subseteq> set (elements y')"
    if y: "y \<in> set (orderedTracks ts)" for y
    using y w by (intro bexI [of _ "if trackId y = tid' then y\<lparr>elements := elements y @ es\<rparr> else y"]) (auto simp: update_by_def image_iff)
  moreover have "map trackId (orderedTracks ts') = map trackId (orderedTracks ts)"
    using w track_coll.keys_update [of "\<lambda>tr. tr\<lparr>elements := elements tr @ es\<rparr>" tid' "orderedTracks ts"] by simp
  then have "trackId ` set (orderedTracks ts') \<subseteq> insert fresh (trackId ` set (orderedTracks ts))"
    unfolding list.set_map [symmetric] by auto
  ultimately show ?thesis using w ap by blast
next
  case (NewTrack i pos tt')
  then have tt': "tt' = tt" using res resolve_new_type by blast
  obtain ts' tid' where ap: "applyPlacement ts res es override fresh = Some (ts', tid')"
    by (auto simp: applyPlacement_def NewTrack Let_def)
  have w: "tracks_wf ts' \<and> tid' = fresh \<and> mset (orderedTracks ts')
      = add_mset (buildPlacedOverlayTrack fresh tt es) (mset (orderedTracks ts))"
    by (rule new_track_wf [OF assms(1,5,4), of tt i pos override]) (use assms(3) ap NewTrack tt' in auto)
  then have "set (orderedTracks ts') = insert (buildPlacedOverlayTrack fresh tt es) (set (orderedTracks ts))"
    by (metis set_mset_add_mset_insert set_mset_mset)
  moreover have "main ts' = main ts" using ap by (auto simp: applyPlacement_def NewTrack Let_def)
  ultimately show ?thesis using w ap by force
qed

text \<open>Placing an element keeps the timeline well formed. Any strategy but \<open>explicit\<close> resolves, and
  inserting the element where the placement says, at the start time it says, yields tracks with
  distinct ids, elements only on tracks of their type, and no two overlapping elements on a track;
  the element is then on the track whose id is returned.\<close>
theorem placement_keeps_tracks_wf:
  assumes "tracks_wf ts" "checks_room strategy" "canElementGoOnTrack (elementType e) tt"
    and "fresh \<notin> trackId ` set (orderedTracks ts)" "0 \<le> startTime e"
    and "\<forall>tr \<in> set (orderedTracks ts). \<forall>x \<in> set (elements tr). 0 < duration x"
  shows "\<exists>res ts' tid. resolveTrackPlacement ts tt [span_of e] strategy = Some res
    \<and> applyPlacement ts res [with_adjusted_start res e] None fresh = Some (ts', tid)
    \<and> tracks_wf ts'
    \<and> (\<exists>tr \<in> set (orderedTracks ts'). trackId tr = tid \<and> with_adjusted_start res e \<in> set (elements tr))"
  by (rule place_element_wf [OF assms])

definition demo_element :: "uuid \<Rightarrow> element_type \<Rightarrow> media_time \<Rightarrow> media_time \<Rightarrow> timeline_element" where
  "demo_element eid et s d =
     \<lparr>elementId = eid, elementName = eid, elementType = et, startTime = s, duration = d, trimStart = 0,
      trimEnd = 0, sourceDuration = None, animations = None, retime = None, mediaId = None,
      sourceType = None, el_hidden = None, el_muted = None, isSourceAudioEnabled = None, rest = []\<rparr>"

definition demo_tracks :: scene_tracks where
  "demo_tracks =
     \<lparr>overlay = [(buildEmptyTrack ''o'' TText None)\<lparr>elements := [demo_element ''t'' EText 0 10]\<rparr>],
      main = (buildEmptyTrack ''m'' TVideo None)\<lparr>elements := [demo_element ''v'' EVideo 20 30]\<rparr>,
      audio = []\<rparr>"

lemma demo_tracks_wf: "tracks_wf demo_tracks"
  by (simp add: demo_tracks_def demo_element_def tracks_wf_def tracks_typed_def track_typed_def tracks_ids_ok_def
      tracks_no_overlap_def orderedTracks_def no_overlap_def canElementGoOnTrack_def)

lemma demo_tracks_positive:
  "\<forall>tr \<in> set (orderedTracks demo_tracks). \<forall>x \<in> set (elements tr). 0 < duration x"
  by (simp add: demo_tracks_def demo_element_def orderedTracks_def)

theorem placement_keeps_tracks_wf_witness:
  "\<exists>res ts' tid. resolveTrackPlacement demo_tracks TVideo [span_of (demo_element ''w'' EImage 5 10)] FirstAvailable = Some res
    \<and> applyPlacement demo_tracks res [with_adjusted_start res (demo_element ''w'' EImage 5 10)] None ''n'' = Some (ts', tid)
    \<and> tracks_wf ts'
    \<and> (\<exists>tr \<in> set (orderedTracks ts'). trackId tr = tid
         \<and> with_adjusted_start res (demo_element ''w'' EImage 5 10) \<in> set (elements tr))"
  by (rule placement_keeps_tracks_wf [OF demo_tracks_wf _ _ _ _ demo_tracks_positive])
    (simp_all add: checks_room_def demo_element_def canElementGoOnTrack_def demo_tracks_def orderedTracks_def)

text \<open>The section of the track list a type of track belongs to.\<close>

definition in_section :: "scene_tracks \<Rightarrow> track_type \<Rightarrow> int \<Rightarrow> bool" where
  "in_section ts tt i =
     (if tt = TAudio then int (length (overlay ts)) + 1 \<le> i \<and> i \<le> int (length (orderedTracks ts))
      else 0 \<le> i \<and> i \<le> int (length (overlay ts)))"

lemma length_orderedTracks: "length (orderedTracks ts) = length (overlay ts) + 1 + length (audio ts)"
  by (simp add: orderedTracks_def)

lemma preferred_in_section:
  "in_section ts tt (fst (resolvePreferredNewTrackPlacement ts tt i dir))"
  by (auto simp: resolvePreferredNewTrackPlacement_def in_section_def length_orderedTracks Let_def Suc_le_eq)

lemma resolve_new_in_section:
  assumes "resolveTrackPlacement ts tt spans strategy = Some (NewTrack i pos tt')"
  shows "in_section ts tt i"
proof (cases strategy)
  case (PreferIndex j h d n)
  obtain i' pos' where p: "resolvePreferredNewTrackPlacement ts tt j
      (getInsertDirection h (if (case js_at (orderedTracks ts) j of None \<Rightarrow> False | Some tr \<Rightarrow> trackType tr = tt)
        then None else d)) = (i', pos')" by fastforce
  then have "in_section ts tt i'" using preferred_in_section [of ts tt j] by (metis fst_conv)
  then show ?thesis using assms PreferIndex p
    by (auto simp: resolveTrackPlacement_def Let_def buildExistingTrackResult_def split: if_splits)
qed (use assms in \<open>auto simp: resolveTrackPlacement_def resolveAlwaysNewTrack_def buildExistingTrackResult_def
      in_section_def getHighestInsertIndexForTrack_def getDefaultInsertIndexForTrack_def length_orderedTracks
      Let_def split: option.splits if_splits\<close>)

lemma take_drop_ordered_overlay:
  "n \<le> length (overlay ts) \<Longrightarrow> take n (orderedTracks ts) @ tr # drop n (orderedTracks ts)
   = (take n (overlay ts) @ tr # drop n (overlay ts)) @ main ts # audio ts"
  by (simp add: orderedTracks_def)

lemma take_drop_ordered_audio:
  "length (overlay ts) + 1 \<le> n \<Longrightarrow> take n (orderedTracks ts) @ tr # drop n (orderedTracks ts)
   = overlay ts @ main ts # take (n - length (overlay ts) - 1) (audio ts) @ tr
       # drop (n - length (overlay ts) - 1) (audio ts)"
  by (cases "n - length (overlay ts)") (simp_all add: orderedTracks_def)

text \<open>A new track opens exactly at the index the placement computed, counted over all tracks, and
  inside its section: audio tracks below the main track, every other type above it.\<close>
theorem new_track_opens_at_index:
  assumes "resolveTrackPlacement ts tt spans strategy = Some (NewTrack i pos tt')"
    and "applyPlacement ts (NewTrack i pos tt') es None fresh = Some (ts', tid)"
  shows "in_section ts tt i
    \<and> orderedTracks ts' = take (nat i) (orderedTracks ts) @ buildPlacedOverlayTrack fresh tt es
        # drop (nat i) (orderedTracks ts)"
proof -
  have sec: "in_section ts tt i" using assms(1) by (rule resolve_new_in_section)
  have tt': "tt' = tt" using assms(1) by (rule resolve_new_type)
  show ?thesis
  proof (cases "tt = TAudio")
    case True
    then have n: "length (overlay ts) + 1 \<le> nat i" "i - int (length (overlay ts)) - 1 \<le> int (length (audio ts))"
      "0 \<le> i - int (length (overlay ts)) - 1"
      using sec by (auto simp: in_section_def length_orderedTracks)
    then have p: "slice_pos (audio ts) (max 0 (min (i - int (length (overlay ts)) - 1) (int (length (audio ts)))))
        = nat i - length (overlay ts) - 1"
      by (simp add: slice_pos_def)
    have "ts' = ts\<lparr>audio := insertIntoAudioTracks ts i (buildPlacedOverlayTrack fresh tt es)\<rparr>"
      using assms(2) True tt' by (auto simp: applyPlacement_def placed_audio Let_def)
    then show ?thesis
      using sec take_drop_ordered_audio [OF n(1)] p
      by (simp add: orderedTracks_def insertIntoAudioTracks_def insert_at_def)
  next
    case False
    then have n: "nat i \<le> length (overlay ts)" "0 \<le> i" using sec by (auto simp: in_section_def)
    then have p: "slice_pos (overlay ts) (max 0 (min i (int (length (overlay ts))))) = nat i"
      by (simp add: slice_pos_def)
    have "ts' = ts\<lparr>overlay := insertIntoOverlayTracks ts i (buildPlacedOverlayTrack fresh tt es)\<rparr>"
      using assms(2) False tt' by (auto simp: applyPlacement_def Let_def)
    then show ?thesis
      using sec take_drop_ordered_overlay [OF n(1)] p
      by (simp add: orderedTracks_def insertIntoOverlayTracks_def insert_at_def)
  qed
qed

theorem new_track_opens_at_index_witness:
  "\<exists>ts'. applyPlacement demo_tracks (NewTrack 2 None TAudio) [] None ''n'' = Some (ts', ''n'')
     \<and> orderedTracks ts' = take 2 (orderedTracks demo_tracks) @ buildPlacedOverlayTrack ''n'' TAudio []
         # drop 2 (orderedTracks demo_tracks)"
proof -
  have r: "resolveTrackPlacement demo_tracks TAudio [] (AlwaysNew DefaultPosition) = Some (NewTrack 2 None TAudio)"
    by (simp add: resolveTrackPlacement_def resolveAlwaysNewTrack_def getDefaultInsertIndexForTrack_def demo_tracks_def)
  obtain ts' tid where a: "applyPlacement demo_tracks (NewTrack 2 None TAudio) [] None ''n'' = Some (ts', tid)"
    by (simp add: applyPlacement_def Let_def)
  then have "tid = ''n''" by (simp add: applyPlacement_def Let_def)
  with a show ?thesis using new_track_opens_at_index [OF r a] by simp
qed

end
