(* ===== verification/Update_Pipeline.thy ===== *)
theory Update_Pipeline
  imports Placement
begin

text \<open>
  The update of an element by a patch (\<open>timeline/update-pipeline.ts\<close>): the patch is applied, then
  the derive rules (a new retime changes the duration), then the enforce rules (animations are
  clamped to a changed duration; a changed start is kept at or after 0 and, on the main track, the
  first element stays at 0). A rule runs when one of its trigger fields changed.
\<close>

section \<open>Patches\<close>

text \<open>A patch is an object: a list of field assignments, with \<open>undefined\<close> values as \<open>None\<close>.\<close>

datatype field_update =
  PStartTime media_time
| PDuration media_time
| PTrimStart media_time
| PTrimEnd media_time
| PRetime "retime_config option"
| PAnimations "element_animations option"
| PName string
| PHidden "bool option"
| PMuted "bool option"
| PIsSourceAudioEnabled "bool option"
| PRest string js_value

type_synonym patch = "field_update list"

fun field_name :: "field_update \<Rightarrow> string" where
  "field_name (PStartTime _) = ''startTime''"
| "field_name (PDuration _) = ''duration''"
| "field_name (PTrimStart _) = ''trimStart''"
| "field_name (PTrimEnd _) = ''trimEnd''"
| "field_name (PRetime _) = ''retime''"
| "field_name (PAnimations _) = ''animations''"
| "field_name (PName _) = ''name''"
| "field_name (PHidden _) = ''hidden''"
| "field_name (PMuted _) = ''muted''"
| "field_name (PIsSourceAudioEnabled _) = ''isSourceAudioEnabled''"
| "field_name (PRest k _) = k"

fun assign_field :: "field_update \<Rightarrow> timeline_element \<Rightarrow> timeline_element" where
  "assign_field (PStartTime t) e = e\<lparr>startTime := t\<rparr>"
| "assign_field (PDuration t) e = e\<lparr>duration := t\<rparr>"
| "assign_field (PTrimStart t) e = e\<lparr>trimStart := t\<rparr>"
| "assign_field (PTrimEnd t) e = e\<lparr>trimEnd := t\<rparr>"
| "assign_field (PRetime r) e = e\<lparr>retime := r\<rparr>"
| "assign_field (PAnimations a) e = e\<lparr>animations := a\<rparr>"
| "assign_field (PName n) e = e\<lparr>elementName := n\<rparr>"
| "assign_field (PHidden b) e = e\<lparr>el_hidden := b\<rparr>"
| "assign_field (PMuted b) e = e\<lparr>el_muted := b\<rparr>"
| "assign_field (PIsSourceAudioEnabled b) e = e\<lparr>isSourceAudioEnabled := b\<rparr>"
| "assign_field (PRest k v) e = e\<lparr>rest := AList.update k v (rest e)\<rparr>"

definition apply_patch :: "patch \<Rightarrow> timeline_element \<Rightarrow> timeline_element" where
  "apply_patch p e = fold assign_field p e"

text \<open>\<open>patch.retime\<close>, when the patch has the property.\<close>

fun patch_retime :: "patch \<Rightarrow> retime_config option option" where
  "patch_retime [] = None"
| "patch_retime (PRetime r # p) = (case patch_retime p of None \<Rightarrow> Some r | Some r' \<Rightarrow> Some r')"
| "patch_retime (_ # p) = patch_retime p"

section \<open>Rules\<close>

definition getSourceDuration ::
    "media_time \<Rightarrow> media_time \<Rightarrow> media_time \<Rightarrow> media_time option \<Rightarrow> retime_config option \<Rightarrow> rat" where
  "getSourceDuration tStart tEnd dur srcDur rt =
     (case srcDur of
        Some d \<Rightarrow> of_int d
      | None \<Rightarrow> of_int tStart + getSourceSpanAtClipTime (of_int dur) rt + of_int tEnd)"

text \<open>The derive rule, with the fields it reports as changed.\<close>

definition derive_retime ::
    "timeline_element \<Rightarrow> timeline_element \<Rightarrow> patch \<Rightarrow> timeline_element \<times> string list" where
  "derive_retime e original p =
     (case patch_retime p of
        None \<Rightarrow> (e, [])
      | Some r \<Rightarrow>
          if \<not> isRetimableElement e then (e, [])
          else
            let nextRetime = map_option (\<lambda>c. c\<lparr>rate := Fin (clampRetimeRate (rate c))\<rparr>) r;
                srcDur = getSourceDuration (trimStart original) (trimEnd original) (duration original)
                  (if isRetimableElement original then sourceDuration original else None)
                  (if isRetimableElement original then retime original else None);
                visibleSourceSpan = max 0 (srcDur - of_int (trimStart e) - of_int (trimEnd e));
                nextDuration = roundMediaTime (getTimelineDurationForSourceSpan visibleSourceSpan nextRetime)
            in (e\<lparr>retime := nextRetime, duration := nextDuration\<rparr>, [''retime'', ''duration'']))"

definition enforce_duration :: "(nat \<Rightarrow> uuid) \<Rightarrow> nat \<Rightarrow> timeline_element \<Rightarrow> timeline_element \<times> nat" where
  "enforce_duration gen n e =
     (case clampAnimationsToDuration gen n (animations e) (duration e) of
        (a, n') \<Rightarrow> (e\<lparr>animations := a\<rparr>, n'))"

definition earliest_candidate :: "timeline_element list \<Rightarrow> timeline_element option" where
  "earliest_candidate es =
     fold (\<lambda>c earliest. case earliest of None \<Rightarrow> Some c
             | Some x \<Rightarrow> if startTime c < startTime x then Some c else Some x) es None"

definition enforce_start :: "scene_tracks \<Rightarrow> uuid \<Rightarrow> timeline_element \<Rightarrow> timeline_element" where
  "enforce_start ts tid e =
     (let requested = (if startTime e < ZERO_MEDIA_TIME then ZERO_MEDIA_TIME else startTime e)
      in if tid \<noteq> trackId (main ts) then e\<lparr>startTime := requested\<rparr>
         else case earliest_candidate (filter (\<lambda>c. elementId c \<noteq> elementId e) (elements (main ts))) of
                None \<Rightarrow> e\<lparr>startTime := ZERO_MEDIA_TIME\<rparr>
              | Some x \<Rightarrow> e\<lparr>startTime := (if requested \<le> startTime x then ZERO_MEDIA_TIME else requested)\<rparr>)"

section \<open>The pipeline\<close>

definition applyElementUpdate ::
    "(nat \<Rightarrow> uuid) \<Rightarrow> nat \<Rightarrow> timeline_element \<Rightarrow> patch \<Rightarrow> scene_tracks \<Rightarrow> uuid \<Rightarrow>
     timeline_element \<times> nat" where
  "applyElementUpdate gen n e p ts tid =
     (let e1 = apply_patch p e;
          changed = map field_name p;
          (e2, extra) = (if ''retime'' \<in> set changed then derive_retime e1 e p else (e1, []));
          changed' = changed @ extra;
          (e3, n') = (if ''duration'' \<in> set changed' then enforce_duration gen n e2 else (e2, n));
          e4 = (if ''startTime'' \<in> set changed' then enforce_start ts tid e3 else e3)
      in (e4, n'))"

section \<open>Lemmas\<close>

lemma assign_field_proj [simp]:
  "elementId (assign_field u e) = elementId e" "elementType (assign_field u e) = elementType e"
  "mediaId (assign_field u e) = mediaId e"
  by (cases u; simp)+

lemma apply_patch_proj [simp]:
  "elementId (apply_patch p e) = elementId e" "elementType (apply_patch p e) = elementType e"
  "mediaId (apply_patch p e) = mediaId e"
  by (induction p arbitrary: e) (simp_all add: apply_patch_def)

lemma derive_retime_proj [simp]:
  "elementId (fst (derive_retime e o' p)) = elementId e" "elementType (fst (derive_retime e o' p)) = elementType e"
  "mediaId (fst (derive_retime e o' p)) = mediaId e" "startTime (fst (derive_retime e o' p)) = startTime e"
  "animations (fst (derive_retime e o' p)) = animations e"
  by (simp_all add: derive_retime_def Let_def split: option.splits)

lemma enforce_duration_proj [simp]:
  "elementId (fst (enforce_duration gen n e)) = elementId e" "elementType (fst (enforce_duration gen n e)) = elementType e"
  "mediaId (fst (enforce_duration gen n e)) = mediaId e" "startTime (fst (enforce_duration gen n e)) = startTime e"
  "duration (fst (enforce_duration gen n e)) = duration e" "retime (fst (enforce_duration gen n e)) = retime e"
  by (simp_all add: enforce_duration_def split: prod.splits)

lemma enforce_start_proj [simp]:
  "elementId (enforce_start ts tid e) = elementId e" "elementType (enforce_start ts tid e) = elementType e"
  "mediaId (enforce_start ts tid e) = mediaId e" "duration (enforce_start ts tid e) = duration e"
  "animations (enforce_start ts tid e) = animations e" "retime (enforce_start ts tid e) = retime e"
  by (simp_all add: enforce_start_def Let_def split: option.splits)

lemma applyElementUpdate_eq:
  "fst (applyElementUpdate gen n e p ts tid) =
     (let e1 = apply_patch p e;
          r = (if ''retime'' \<in> field_name ` set p then derive_retime e1 e p else (e1, []));
          e3 = (if ''duration'' \<in> field_name ` set p \<union> set (snd r) then fst (enforce_duration gen n (fst r)) else fst r)
      in if ''startTime'' \<in> field_name ` set p \<union> set (snd r) then enforce_start ts tid e3 else e3)"
  by (simp add: applyElementUpdate_def Let_def split: prod.splits)

lemma applyElementUpdate_proj [simp]:
  "elementId (fst (applyElementUpdate gen n e p ts tid)) = elementId e"
  "elementType (fst (applyElementUpdate gen n e p ts tid)) = elementType e"
  "mediaId (fst (applyElementUpdate gen n e p ts tid)) = mediaId e"
  by (simp_all add: applyElementUpdate_eq Let_def)

lemma earliest_candidate_eq:
  "earliest_candidate es = (case es of [] \<Rightarrow> None | e # es \<Rightarrow> Some (fold earlier es e))"
proof -
  have "fold (\<lambda>c earliest. case earliest of None \<Rightarrow> Some c
      | Some x \<Rightarrow> if startTime c < startTime x then Some c else Some x) es (Some x) = Some (fold earlier es x)" for es x
    by (induction es arbitrary: x) (auto simp: earlier_def)
  then show ?thesis by (cases es) (simp_all add: earliest_candidate_def)
qed

text \<open>On the main track the enforce rule is the placement rule of \<open>enforceMainTrackStart\<close>.\<close>

lemma enforce_start_main:
  assumes "elementId e \<noteq> []"
  shows "startTime (enforce_start ts tid e) = enforceMainTrackStart ts tid (max 0 (startTime e)) (Some (elementId e))"
proof -
  have "filter (keeps_element (Some (elementId e))) (elements (main ts))
      = filter (\<lambda>c. elementId c \<noteq> elementId e) (elements (main ts))"
    using assms by (auto simp: keeps_element_def truthy_id_def intro!: filter_cong)
  then have "earliest_candidate (filter (\<lambda>c. elementId c \<noteq> elementId e) (elements (main ts)))
      = getEarliestMainTrackElement (main ts) (Some (elementId e))"
    by (simp add: earliest_candidate_eq getEarliestMainTrackElement_def)
  then show ?thesis
    by (auto simp: enforce_start_def enforceMainTrackStart_def Let_def max_def split: option.splits)
qed

lemma enforce_start_nonneg: "0 \<le> startTime (enforce_start ts tid e)"
  by (auto simp: enforce_start_def Let_def split: option.splits)

lemma clamp_ranges:
  "fst (clampAnimationsToDuration gen n a d) = Some x \<Longrightarrow> (c, Some ch) \<in> set (channels x) \<Longrightarrow>
   t \<in> set (key_times ch) \<Longrightarrow> t \<le> d"
proof -
  assume *: "fst (clampAnimationsToDuration gen n a d) = Some x" "(c, Some ch) \<in> set (channels x)"
    "t \<in> set (key_times ch)"
  obtain l r m where sp: "splitAnimationsAtTime gen n a d True = ((l, r), m)" by (metis prod.exhaust)
  then have "l = Some x" using *(1) by (simp add: clampAnimationsToDuration_def split: if_splits)
  then show "t \<le> d" using splitAnimations_sides(2) [OF sp] *(2,3) by (auto simp: side_ok_def)
qed

section \<open>Properties\<close>

text \<open>Keyframes of an element lie inside its duration.\<close>

definition keys_within :: "timeline_element \<Rightarrow> bool" where
  "keys_within e \<longleftrightarrow> (case animations e of None \<Rightarrow> True
     | Some x \<Rightarrow> list_all (\<lambda>(c, ch). case ch of None \<Rightarrow> True
         | Some y \<Rightarrow> list_all (\<lambda>t. t \<le> duration e) (key_times y)) (channels x))"

lemma keys_within_enforce: "keys_within (fst (enforce_duration gen n e))"
proof -
  obtain a m where cl: "clampAnimationsToDuration gen n (animations e) (duration e) = (a, m)" by fastforce
  show ?thesis using clamp_ranges [of gen n "animations e" "duration e"]
    by (auto simp: keys_within_def enforce_duration_def cl list_all_iff split: option.splits)
qed

text \<open>A patch that changes the duration or the retime of an element leaves no keyframe past the
  new end of the element, and every patch of the start leaves a start that is not negative and, on
  the main track, is the one the placement rule gives; the identity, type and media of the element
  never change.\<close>
theorem applyElementUpdate_enforces:
  assumes "e' = fst (applyElementUpdate gen n e p ts tid)"
  shows "(''duration'' \<in> field_name ` set p \<or> (''retime'' \<in> field_name ` set p \<and> patch_retime p \<noteq> None \<and> isRetimableElement e)
            \<longrightarrow> keys_within e')
    \<and> (''startTime'' \<in> field_name ` set p \<longrightarrow> 0 \<le> startTime e')
    \<and> (''startTime'' \<in> field_name ` set p \<and> elementId e \<noteq> [] \<longrightarrow>
         startTime e' = enforceMainTrackStart ts tid (max 0 (startTime (apply_patch p e))) (Some (elementId e)))
    \<and> elementId e' = elementId e \<and> elementType e' = elementType e \<and> mediaId e' = mediaId e"
proof -
  define r where "r = (if ''retime'' \<in> field_name ` set p then derive_retime (apply_patch p e) e p else (apply_patch p e, []))"
  define e3 where "e3 = (if ''duration'' \<in> field_name ` set p \<union> set (snd r) then fst (enforce_duration gen n (fst r)) else fst r)"
  have e': "e' = (if ''startTime'' \<in> field_name ` set p \<union> set (snd r) then enforce_start ts tid e3 else e3)"
    using assms by (simp add: applyElementUpdate_eq r_def e3_def Let_def)
  have kw: "keys_within (enforce_start ts tid x) = keys_within x" for x
    unfolding keys_within_def enforce_start_proj ..
  have "''duration'' \<in> set (snd r)"
    if "''retime'' \<in> field_name ` set p" "patch_retime p \<noteq> None" "isRetimableElement e"
    using that by (auto simp: r_def derive_retime_def Let_def isRetimableElement_def)
  then have 1: "keys_within e'" if "''duration'' \<in> field_name ` set p
      \<or> (''retime'' \<in> field_name ` set p \<and> patch_retime p \<noteq> None \<and> isRetimableElement e)"
    using that keys_within_enforce kw by (auto simp: e' e3_def)
  have s3: "startTime e3 = startTime (apply_patch p e)" "elementId e3 = elementId e"
    by (simp_all add: e3_def r_def)
  have 2: "startTime e' = startTime (enforce_start ts tid e3)" if "''startTime'' \<in> field_name ` set p"
    using that by (simp add: e')
  show ?thesis using 1 2 enforce_start_nonneg enforce_start_main [of e3] s3 assms by auto
qed

theorem applyElementUpdate_enforces_witness:
  "0 \<le> startTime (fst (applyElementUpdate (\<lambda>i. replicate i CHR ''u'') 0 (demo_element ''t'' EText 0 10)
     [PStartTime (- 5), PDuration 7] demo_tracks ''o''))"
  using applyElementUpdate_enforces [OF refl, of "[PStartTime (- 5), PDuration 7]"] by simp

text \<open>Changing the speed of a clip keeps the source material it shows: the new duration, played
  at the new rate, covers the visible source span of the clip up to half a tick of rounding at that
  rate, and the stored rate is within the allowed bounds.\<close>
theorem retime_keeps_source_span:
  assumes "isRetimableElement e" and "e' = fst (applyElementUpdate gen n e [PRetime (Some c)] ts tid)"
    and "visible = getSourceDuration (trimStart e) (trimEnd e) (duration e) (sourceDuration e) (retime e)
                - of_int (trimStart e) - of_int (trimEnd e)"
  shows "\<bar>of_int (duration e') * getEffectiveRateAt (retime e') - max 0 visible\<bar> \<le> getEffectiveRateAt (retime e') / 2
    \<and> 1 / 100 \<le> getEffectiveRateAt (retime e') \<and> getEffectiveRateAt (retime e') \<le> 5
    \<and> trimStart e' = trimStart e \<and> trimEnd e' = trimEnd e"
proof -
  let ?r = "Some (c\<lparr>rate := Fin (clampRetimeRate (rate c))\<rparr>)"
  let ?q = "getTimelineDurationForSourceSpan (max 0 visible) ?r"
  let ?k = "getEffectiveRateAt ?r"
  have tr: "trimStart (fst (enforce_duration gen n x)) = trimStart x"
    "trimEnd (fst (enforce_duration gen n x)) = trimEnd x" for x
    by (simp_all add: enforce_duration_def split: prod.splits)
  have e': "retime e' = ?r" "duration e' = roundMediaTime ?q" "trimStart e' = trimStart e" "trimEnd e' = trimEnd e"
    using assms(1) by (auto simp: assms(2,3) applyElementUpdate_eq derive_retime_def apply_patch_def
        isRetimableElement_def Let_def tr)
  have k: "0 < ?k" by (rule effective_rate_pos)
  have "?q * ?k = max 0 visible" using k by (simp add: getTimelineDurationForSourceSpan_def max_def)
  then have "of_int (duration e') * ?k - max 0 visible = (of_int (roundMediaTime ?q) - ?q) * ?k"
    by (simp add: e' left_diff_distrib)
  moreover have "\<bar>(of_int (roundMediaTime ?q) - ?q) * ?k\<bar> \<le> 1 / 2 * ?k"
    unfolding abs_mult using k roundMediaTime_error [of ?q] by (intro mult_mono) auto
  ultimately show ?thesis using effective_rate_bounds [of ?r] by (simp add: e')
qed

theorem retime_keeps_source_span_witness:
  "let e' = fst (applyElementUpdate (\<lambda>i. replicate i CHR ''u'') 0 (demo_element ''v'' EVideo 20 30)
       [PRetime (Some \<lparr>rate = Fin 4, maintainPitch = None\<rparr>)] demo_tracks ''m'')
   in \<bar>of_int (duration e') * getEffectiveRateAt (retime e') - 30\<bar> \<le> getEffectiveRateAt (retime e') / 2"
proof -
  have r: "isRetimableElement (demo_element ''v'' EVideo 20 30)"
    by (simp add: isRetimableElement_def demo_element_def)
  show ?thesis
    using retime_keeps_source_span [OF r refl refl, of "\<lambda>i. replicate i CHR ''u''" 0
        "\<lparr>rate = Fin 4, maintainPitch = None\<rparr>" demo_tracks "''m''"]
      sourceSpan_None [of 30]
    by (simp add: Let_def getSourceDuration_def demo_element_def)
qed

end
