(* ===== verification/Ripple.thy ===== *)
theory Ripple
  imports Placement
begin

text \<open>
  Ripple editing (\<open>ripple/\<close>): the time a command frees on a track is computed as a set of intervals
  (\<open>diff.ts\<close>) and everything behind it moves left to close the gaps (\<open>apply.ts\<close>, \<open>shift.ts\<close>).
  Intervals are half open, \<open>(s, e)\<close> for \<open>[s, e)\<close>.
\<close>

type_synonym interval = "int \<times> int"

section \<open>Shifting (\<open>shift.ts\<close>, \<open>apply.ts\<close>)\<close>

definition rippleShiftElements :: "timeline_element list \<Rightarrow> int \<Rightarrow> int \<Rightarrow> timeline_element list" where
  "rippleShiftElements es afterTime shiftAmount =
     map (\<lambda>e. if startTime e \<ge> afterTime then e\<lparr>startTime := startTime e - shiftAmount\<rparr> else e) es"

record ripple_adjustment =
  adj_trackId :: uuid
  adj_afterTime :: int
  adj_shiftAmount :: int

definition applyTrackRippleAdjustments :: "track \<Rightarrow> ripple_adjustment list \<Rightarrow> track" where
  "applyTrackRippleAdjustments tr adjs =
     (if adjs = [] then tr
      else tr\<lparr>elements := fold (\<lambda>a es. rippleShiftElements es (adj_afterTime a) (adj_shiftAmount a))
              (sort_key (\<lambda>a. - adj_afterTime a) adjs) (elements tr)\<rparr>)"

definition applyRippleAdjustments :: "scene_tracks \<Rightarrow> ripple_adjustment list \<Rightarrow> scene_tracks" where
  "applyRippleAdjustments ts adjs =
     (if adjs = [] then ts
      else let byTrack = group_by adj_trackId adjs;
               adjust = (\<lambda>tr. applyTrackRippleAdjustments tr
                 (case map_of byTrack (trackId tr) of None \<Rightarrow> [] | Some as \<Rightarrow> as))
           in \<lparr>overlay = map adjust (overlay ts), main = adjust (main ts), audio = map adjust (audio ts)\<rparr>)"

section \<open>Interval sets (\<open>diff.ts\<close>)\<close>

definition pushInterval :: "interval list \<Rightarrow> int \<Rightarrow> int \<Rightarrow> interval list" where
  "pushInterval is s e = (if e \<le> s then is else is @ [(s, e)])"

text \<open>The merge loop; the first argument is \<open>previousInterval\<close>, the last merged one.\<close>

fun merge_from :: "interval \<Rightarrow> interval list \<Rightarrow> interval list" where
  "merge_from (a, b) [] = [(a, b)]"
| "merge_from (a, b) ((c, d) # is) =
     (if c \<le> b then merge_from (a, max b d) is else (a, b) # merge_from (c, d) is)"

definition normalizeIntervals :: "interval list \<Rightarrow> interval list" where
  "normalizeIntervals is =
     (let valid = fold (\<lambda>(s, e) acc. pushInterval acc s e) is [];
          sorted = sort_key fst valid
      in case sorted of [] \<Rightarrow> [] | i # is' \<Rightarrow> merge_from i is')"

definition cut :: "interval \<Rightarrow> interval \<Rightarrow> interval list" where
  "cut ov rem =
     (if snd ov \<le> fst rem \<or> fst ov \<ge> snd rem then [rem]
      else pushInterval (pushInterval [] (fst rem) (fst ov)) (snd ov) (snd rem))"

fun subtract_loop :: "interval list \<Rightarrow> interval list \<Rightarrow> interval list" where
  "subtract_loop [] remaining = remaining"
| "subtract_loop (ov # ovs) remaining =
     (let next = concat (map (cut ov) remaining)
      in if next = [] then [] else subtract_loop ovs next)"

definition subtractSingleInterval :: "interval \<Rightarrow> interval list \<Rightarrow> interval list" where
  "subtractSingleInterval src ovs = subtract_loop ovs [src]"

definition subtractIntervalSets :: "interval list \<Rightarrow> interval list \<Rightarrow> interval list" where
  "subtractIntervalSets src ovs =
     concat (map (\<lambda>s. subtractSingleInterval s (normalizeIntervals ovs)) (normalizeIntervals src))"

definition buildAdjustments :: "uuid \<Rightarrow> interval list \<Rightarrow> ripple_adjustment list" where
  "buildAdjustments tid is =
     concat (map (\<lambda>(s, e). if e - s \<le> 0 then []
        else [\<lparr>adj_trackId = tid, adj_afterTime = e, adj_shiftAmount = e - s\<rparr>]) is)"

text \<open>A \<open>Map\<close> from element id to its span.\<close>

definition buildElementSpanMap :: "timeline_element list \<Rightarrow> (uuid \<times> interval) list" where
  "buildElementSpanMap es = js_map (map (\<lambda>e. (elementId e, (startTime e, startTime e + duration e))) es)"

definition collectTrackIntervals ::
    "(uuid \<times> interval) list \<Rightarrow> (uuid \<times> interval) list \<Rightarrow> uuid set \<Rightarrow> interval list \<times> interval list" where
  "collectTrackIntervals before after allAfterIds =
     (let vacated = fold (\<lambda>(i, (s, e)) acc.
            case map_of after i of
              None \<Rightarrow> if i \<in> allAfterIds then acc else pushInterval acc s e
            | Some (s', e') \<Rightarrow> if e > e' then pushInterval acc e' e else acc) before [];
          joined = fold (\<lambda>(i, (s, e)) acc. if map_of before i \<noteq> None then acc else pushInterval acc s e) after []
      in (normalizeIntervals vacated, normalizeIntervals joined))"

definition computeTrackRippleAdjustments ::
    "uuid \<Rightarrow> timeline_element list \<Rightarrow> timeline_element list \<Rightarrow> uuid set \<Rightarrow> ripple_adjustment list" where
  "computeTrackRippleAdjustments tid before after allAfterIds =
     (case collectTrackIntervals (buildElementSpanMap before) (buildElementSpanMap after) allAfterIds of
        (vacated, joined) \<Rightarrow> buildAdjustments tid (subtractIntervalSets vacated joined))"

definition computeRippleAdjustments :: "scene_tracks \<Rightarrow> scene_tracks \<Rightarrow> ripple_adjustment list" where
  "computeRippleAdjustments before after =
     (let afterById = js_map (map (\<lambda>tr. (trackId tr, tr)) (orderedTracks after));
          allAfterIds = set (concat (map (\<lambda>tr. map elementId (elements tr)) (orderedTracks after)))
      in concat (map (\<lambda>b. computeTrackRippleAdjustments (trackId b) (elements b)
           (case map_of afterById (trackId b) of None \<Rightarrow> [] | Some tr \<Rightarrow> elements tr) allAfterIds)
           (orderedTracks before)))"

section \<open>Interval sets denote sets of ticks\<close>

definition points :: "interval list \<Rightarrow> int set" where
  "points is = (\<Union>(a, b) \<in> set is. {a ..< b})"

definition normal :: "interval list \<Rightarrow> bool" where
  "normal is \<longleftrightarrow> sorted_wrt (\<lambda>x y. snd x < fst y) is \<and> (\<forall>i \<in> set is. fst i < snd i)"

lemma points_simps [simp]: "points [] = {}" "points (i # is) = {fst i ..< snd i} \<union> points is"
  "points (is @ js) = points is \<union> points js"
  by (auto simp: points_def)

lemma points_concat: "points (concat xs) = (\<Union>x \<in> set xs. points x)"
  by (induction xs) auto

lemma finite_points [simp]: "finite (points is)"
  by (induction "is") auto

lemma points_pushInterval: "points (pushInterval is s e) = points is \<union> {s ..< e}"
  by (auto simp: pushInterval_def)

lemma fold_push_valid:
  "fold (\<lambda>(s, e) acc. pushInterval acc s e) is acc = acc @ filter (\<lambda>(s, e). s < e) is"
  by (induction "is" arbitrary: acc) (auto simp: pushInterval_def)

lemma merge_from_points:
  "a < b \<Longrightarrow> sorted (map fst ((a, b) # is)) \<Longrightarrow> \<forall>(c, d) \<in> set is. c < d \<Longrightarrow>
   points (merge_from (a, b) is) = points ((a, b) # is)"
proof (induction "is" arbitrary: a b)
  case (Cons i "is")
  obtain c d where i: "i = (c, d)" by fastforce
  show ?case
  proof (cases "c \<le> b")
    case True
    have "points (merge_from (a, max b d) is) = points ((a, max b d) # is)"
      using Cons True by (intro Cons.IH) (auto simp: i)
    then show ?thesis using True Cons.prems by (auto simp: i)
  next
    case False
    have "points (merge_from (c, d) is) = points ((c, d) # is)"
      using Cons.prems by (intro Cons.IH) (auto simp: i)
    then show ?thesis using False by (simp add: i)
  qed
qed simp

lemma merge_from_normal:
  "a < b \<Longrightarrow> sorted (map fst ((a, b) # is)) \<Longrightarrow> \<forall>(c, d) \<in> set is. c < d \<Longrightarrow>
   normal (merge_from (a, b) is) \<and> (\<forall>i \<in> set (merge_from (a, b) is). a \<le> fst i)"
proof (induction "is" arbitrary: a b)
  case (Cons i "is")
  obtain c d where i: "i = (c, d)" by fastforce
  show ?case
  proof (cases "c \<le> b")
    case True
    have "normal (merge_from (a, max b d) is) \<and> (\<forall>i \<in> set (merge_from (a, max b d) is). a \<le> fst i)"
      using Cons True by (intro Cons.IH) (auto simp: i)
    then show ?thesis using True by (simp add: i)
  next
    case False
    have "normal (merge_from (c, d) is) \<and> (\<forall>i \<in> set (merge_from (c, d) is). c \<le> fst i)"
      using Cons.prems by (intro Cons.IH) (auto simp: i)
    then show ?thesis using False Cons.prems by (fastforce simp: i normal_def)
  qed
qed (simp add: normal_def)

lemma normalizeIntervals_spec:
  shows "points (normalizeIntervals is) = points is" and "normal (normalizeIntervals is)"
proof -
  let ?v = "filter (\<lambda>(s, e). s < e) is"
  have pv: "points ?v = points is" by (induction "is") (simp_all add: case_prod_beta)
  have st: "points (sort_key fst ?v) = points ?v" by (simp add: points_def)
  have ne: "normalizeIntervals is = (case sort_key fst ?v of [] \<Rightarrow> [] | i # is' \<Rightarrow> merge_from i is')"
    by (simp add: normalizeIntervals_def Let_def fold_push_valid)
  have "points (normalizeIntervals is) = points (sort_key fst ?v) \<and> normal (normalizeIntervals is)"
  proof (cases "sort_key fst ?v")
    case Nil
    then show ?thesis by (simp add: ne normal_def)
  next
    case (Cons i js)
    obtain a b where i: "i = (a, b)" by fastforce
    have "set (sort_key fst ?v) = set ?v" by simp
    then have "\<forall>(c, d) \<in> set (i # js). c < d" using Cons by auto
    moreover have "sorted (map fst (i # js))" using Cons sorted_sort_key [of fst ?v] by simp
    ultimately show ?thesis
      using merge_from_points [of a b js] merge_from_normal [of a b js] by (simp add: ne Cons i)
  qed
  then show "points (normalizeIntervals is) = points is" "normal (normalizeIntervals is)"
    using pv st by simp_all
qed

lemma points_cut: "fst ov < snd ov \<Longrightarrow> points (cut ov rem) = {fst rem ..< snd rem} - {fst ov ..< snd ov}"
  unfolding cut_def by (simp add: points_pushInterval) (auto simp: points_pushInterval)

lemma normal_cut:
  "fst ov < snd ov \<Longrightarrow> fst rem < snd rem \<Longrightarrow>
   normal (cut ov rem) \<and> (\<forall>i \<in> set (cut ov rem). fst rem \<le> fst i \<and> snd i \<le> snd rem)"
  by (auto simp: cut_def pushInterval_def normal_def)

lemma normal_concat:
  assumes "normal is" and "\<And>i. i \<in> set is \<Longrightarrow> normal (f i) \<and> (\<forall>j \<in> set (f i). fst i \<le> fst j \<and> snd j \<le> snd i)"
  shows "normal (concat (map f is))"
  using assms
proof (induction "is")
  case (Cons i "is")
  have "normal is" using Cons.prems(1) by (simp add: normal_def)
  then have "normal (concat (map f is))" by (rule Cons.IH) (use Cons.prems(2) in auto)
  moreover have "snd x < fst y" if x: "x \<in> set (f i)" and y: "y \<in> set (concat (map f is))" for x y
  proof -
    obtain j where j: "j \<in> set is" "y \<in> set (f j)" using y by auto
    have "snd x \<le> snd i" "fst j \<le> fst y" using Cons.prems(2) [of i] Cons.prems(2) [of j] x j by simp_all
    moreover have "snd i < fst j" using Cons.prems(1) j(1) by (simp add: normal_def)
    ultimately show ?thesis by linarith
  qed
  ultimately show ?case using Cons.prems(2) [of i] by (auto simp: normal_def sorted_wrt_append)
qed (simp add: normal_def)

lemma subtract_loop_spec:
  assumes "normal rems" and "\<forall>i \<in> set ovs. fst i < snd i"
  shows "points (subtract_loop ovs rems) = points rems - points ovs" and "normal (subtract_loop ovs rems)"
proof -
  have "points (subtract_loop ovs rems) = points rems - points ovs \<and> normal (subtract_loop ovs rems)"
    using assms
  proof (induction ovs arbitrary: rems)
    case (Cons ov ovs)
    have ov: "fst ov < snd ov" using Cons.prems(2) by auto
    let ?next = "concat (map (cut ov) rems)"
    have pn: "points ?next = points rems - {fst ov ..< snd ov}"
      using points_cut [OF ov] by (auto simp: points_concat points_def case_prod_beta)
    have "fst i < snd i" if "i \<in> set rems" for i using that Cons.prems(1) by (simp add: normal_def)
    then have nn: "normal ?next" using Cons.prems(1) normal_cut [OF ov] by (intro normal_concat) blast+
    show ?case
    proof (cases "?next = []")
      case True
      then have "points rems - {fst ov ..< snd ov} = {}" using pn unfolding True by simp
      moreover have "subtract_loop (ov # ovs) rems = []" unfolding subtract_loop.simps Let_def True by simp
      ultimately show ?thesis by (auto simp: normal_def)
    next
      case False
      then have "subtract_loop (ov # ovs) rems = subtract_loop ovs ?next"
        unfolding subtract_loop.simps Let_def by (rule if_not_P)
      with Cons.IH [OF nn] Cons.prems(2) pn show ?thesis by auto
    qed
  qed simp
  then show "points (subtract_loop ovs rems) = points rems - points ovs" "normal (subtract_loop ovs rems)"
    by blast+
qed

lemma normal_bounds:
  "normal is \<Longrightarrow> points is \<subseteq> {lo ..< hi} \<Longrightarrow> i \<in> set is \<Longrightarrow> lo \<le> fst i \<and> snd i \<le> hi"
proof -
  assume *: "normal is" "points is \<subseteq> {lo ..< hi}" "i \<in> set is"
  obtain a b where i: "i = (a, b)" by fastforce
  have "a < b" using *(1,3) by (auto simp: normal_def i)
  then have "a \<in> points is" "b - 1 \<in> points is" using *(3) by (force simp: points_def i)+
  then have "a \<in> {lo ..< hi}" "b - 1 \<in> {lo ..< hi}" using *(2) by blast+
  then show ?thesis by (simp add: i)
qed

lemma subtractIntervalSets_spec:
  shows "points (subtractIntervalSets src ovs) = points src - points ovs"
    and "normal (subtractIntervalSets src ovs)"
proof -
  let ?s = "normalizeIntervals src" and ?o = "normalizeIntervals ovs"
  have vo: "\<forall>i \<in> set ?o. fst i < snd i" using normalizeIntervals_spec(2) [of ovs] by (simp add: normal_def)
  have vs: "normal [i]" if "i \<in> set ?s" for i
    using that normalizeIntervals_spec(2) [of src] by (auto simp: normal_def)
  have one: "points (subtractSingleInterval i ?o) = {fst i ..< snd i} - points ovs"
    "normal (subtractSingleInterval i ?o)" if "i \<in> set ?s" for i
    using subtract_loop_spec [OF vs [OF that] vo] normalizeIntervals_spec(1) [of ovs]
    by (simp_all add: subtractSingleInterval_def)
  have "points (subtractIntervalSets src ovs) = points ?s - points ovs"
    using one(1) by (auto simp: subtractIntervalSets_def points_concat points_def case_prod_beta)
  then show "points (subtractIntervalSets src ovs) = points src - points ovs"
    by (simp add: normalizeIntervals_spec)
  show "normal (subtractIntervalSets src ovs)"
    unfolding subtractIntervalSets_def
  proof (rule normal_concat)
    show "normal ?s" by (rule normalizeIntervals_spec(2))
    fix i assume i: "i \<in> set ?s"
    have sub: "points (subtractSingleInterval i ?o) \<subseteq> {fst i ..< snd i}" using one(1) [OF i] by blast
    show "normal (subtractSingleInterval i ?o)
        \<and> (\<forall>j \<in> set (subtractSingleInterval i ?o). fst i \<le> fst j \<and> snd j \<le> snd i)"
      using one(2) [OF i] normal_bounds [OF one(2) [OF i] sub] by blast
  qed
qed


section \<open>Closing the gaps\<close>

text \<open>How far an element that starts at \<open>s\<close> moves: the length of the gaps that end at or before \<open>s\<close>.\<close>

definition closed_before :: "interval list \<Rightarrow> int \<Rightarrow> int" where
  "closed_before is s = sum_list (map (\<lambda>(a, b). b - a) (filter (\<lambda>(a, b). b \<le> s) is))"

definition shift_start :: "(int \<Rightarrow> int) \<Rightarrow> timeline_element \<Rightarrow> timeline_element" where
  "shift_start f e = e\<lparr>startTime := startTime e - f (startTime e)\<rparr>"

lemma shift_start_proj [simp]:
  "elementId (shift_start f e) = elementId e" "duration (shift_start f e) = duration e"
  "startTime (shift_start f e) = startTime e - f (startTime e)" "elementType (shift_start f e) = elementType e"
  by (simp_all add: shift_start_def)

lemma rippleShift_shift_start:
  "rippleShiftElements es b (b - a) = map (shift_start (\<lambda>s. if b \<le> s then b - a else 0)) es"
  by (auto simp: rippleShiftElements_def shift_start_def)

lemma normal_snoc: "normal (is @ [(a, b)]) \<longleftrightarrow> normal is \<and> a < b \<and> (\<forall>i \<in> set is. snd i < a)"
  by (auto simp: normal_def sorted_wrt_append)

lemma fold_shift_closed:
  "normal is \<Longrightarrow>
   fold (\<lambda>(a, b) es. rippleShiftElements es b (b - a)) (rev is) es = map (shift_start (closed_before is)) es"
proof (induction "is" arbitrary: es rule: rev_induct)
  case Nil
  then show ?case by (simp add: closed_before_def shift_start_def map_idI)
next
  case (snoc i "is")
  obtain a b where i: "i = (a, b)" by fastforce
  have n: "normal is" "a < b" "\<forall>i \<in> set is. snd i < a" using snoc.prems by (simp_all add: i normal_snoc)
  have all: "closed_before is s = closed_before is s'" if "a \<le> s" "a \<le> s'" for s s'
  proof -
    have "filter (\<lambda>(a, b). b \<le> s) is = filter (\<lambda>(a, b). b \<le> s') is"
      using that n(3) by (intro filter_cong) force+
    then show ?thesis by (simp add: closed_before_def)
  qed
  have c: "closed_before (is @ [(a, b)]) s = closed_before is s + (if b \<le> s then b - a else 0)" for s
    by (simp add: closed_before_def)
  have "shift_start (closed_before is) (shift_start (\<lambda>s. if b \<le> s then b - a else 0) e)
      = shift_start (closed_before (is @ [(a, b)])) e" for e
    using all [of "startTime e" "startTime e - (b - a)"] n(2) by (auto simp: shift_start_def c)
  then show ?case using snoc.IH [OF n(1)] by (simp add: i rippleShift_shift_start)
qed

lemma normal_sorted_snd: "normal is \<Longrightarrow> sorted_wrt (<) (map snd is)"
  unfolding normal_def sorted_wrt_map by (elim conjE, erule sorted_wrt_mono_rel [rotated]) force

lemma buildAdjustments_normal:
  assumes "normal is"
  shows "buildAdjustments tid is
    = map (\<lambda>(a, b). \<lparr>adj_trackId = tid, adj_afterTime = b, adj_shiftAmount = b - a\<rparr>) is"
proof -
  have "\<forall>i \<in> set is. fst i < snd i" using assms by (simp add: normal_def)
  then show ?thesis by (induction "is") (auto simp: buildAdjustments_def)
qed

lemma rev_filter_distinct:
  "distinct (map f xs) \<Longrightarrow> rev (filter (\<lambda>y. c = f y) xs) = filter (\<lambda>y. c = f y) xs"
proof (induction xs)
  case (Cons x xs)
  have "filter (\<lambda>y. c = f y) xs = []" if "c = f x" using Cons.prems that by (auto simp: filter_empty_conv)
  then show ?case using Cons by auto
qed simp

lemma sort_adjustments_rev:
  assumes "normal is"
  shows "sort_key (\<lambda>a. - adj_afterTime a) (buildAdjustments tid is) = rev (buildAdjustments tid is)"
proof (rule properties_for_sort_key)
  let ?as = "buildAdjustments tid is"
  have s: "sorted_wrt (<) (map adj_afterTime ?as)"
    using normal_sorted_snd [OF assms] by (simp add: buildAdjustments_normal [OF assms] comp_def case_prod_beta')
  show "mset (rev ?as) = mset ?as" by simp
  show "sorted (map (\<lambda>a. - adj_afterTime a) (rev ?as))"
    using s by (simp add: rev_map sorted_wrt_rev sorted_wrt_map) (erule sorted_wrt_mono_rel [rotated], simp)
  fix k
  have "distinct (map adj_afterTime ?as)" using s strict_sorted_iff by blast
  then have "distinct (map (\<lambda>a. - adj_afterTime a) ?as)" by (simp add: distinct_map inj_on_def)
  then show "filter (\<lambda>y. - adj_afterTime k = - adj_afterTime y) (rev ?as)
      = filter (\<lambda>y. - adj_afterTime k = - adj_afterTime y) ?as"
    by (simp only: rev_filter_distinct flip: rev_filter)
qed

lemma applyTrack_closed:
  assumes "normal is"
  shows "applyTrackRippleAdjustments tr (buildAdjustments tid is)
    = tr\<lparr>elements := map (shift_start (closed_before is)) (elements tr)\<rparr>"
proof (cases "is = []")
  case True
  moreover have "shift_start (closed_before []) = (\<lambda>e. e)"
    by (rule ext) (simp add: shift_start_def closed_before_def)
  ultimately show ?thesis by (simp add: applyTrackRippleAdjustments_def buildAdjustments_def)
next
  case False
  then have ne: "buildAdjustments tid is \<noteq> []" by (simp add: buildAdjustments_normal [OF assms])
  have "fold (\<lambda>a es. rippleShiftElements es (adj_afterTime a) (adj_shiftAmount a)) (rev (buildAdjustments tid is)) es
      = fold (\<lambda>(a, b) es. rippleShiftElements es b (b - a)) (rev is) es" for es
    by (simp add: buildAdjustments_normal [OF assms] rev_map fold_map comp_def case_prod_beta')
  then show ?thesis using ne fold_shift_closed [OF assms]
    by (simp add: applyTrackRippleAdjustments_def sort_adjustments_rev [OF assms])
qed

text \<open>The total length of normal intervals below \<open>s\<close> is the number of their ticks below \<open>s\<close>.\<close>

lemma closed_before_card:
  assumes "normal is" and "\<forall>(a, b) \<in> set is. b \<le> s \<or> s \<le> a"
  shows "closed_before is s = int (card {p \<in> points is. p < s})"
  using assms
proof (induction "is" rule: rev_induct)
  case (snoc i "is")
  obtain a b where i: "i = (a, b)" by fastforce
  have n: "normal is" "a < b" "\<forall>i \<in> set is. snd i < a" using snoc.prems(1) by (simp_all add: i normal_snoc)
  have IH: "closed_before is s = int (card {p \<in> points is. p < s})" using snoc n(1) by simp
  have below: "p < a" if "p \<in> points is" for p using that n(3) by (force simp: points_def)
  show ?case
  proof (cases "b \<le> s")
    case True
    have "{p \<in> points (is @ [i]). p < s} = {p \<in> points is. p < s} \<union> {a ..< b}"
      using True by (auto simp: i)
    moreover have "{p \<in> points is. p < s} \<inter> {a ..< b} = {}" using below by force
    ultimately have "card {p \<in> points (is @ [i]). p < s} = card {p \<in> points is. p < s} + nat (b - a)"
      by (simp add: card_Un_disjoint)
    then show ?thesis using IH True n(2) by (simp add: closed_before_def i)
  next
    case False
    then have "s \<le> a" using snoc.prems(2) by (auto simp: i)
    then have "{p \<in> points (is @ [i]). p < s} = {p \<in> points is. p < s}" by (auto simp: i)
    then show ?thesis using IH False by (simp add: closed_before_def i)
  qed
qed (simp add: closed_before_def)

section \<open>Deleting elements\<close>

text \<open>The tracks with only the elements that satisfy \<open>P\<close>.\<close>

definition keep_elements :: "(timeline_element \<Rightarrow> bool) \<Rightarrow> track \<Rightarrow> track" where
  "keep_elements P tr = tr\<lparr>elements := filter P (elements tr)\<rparr>"

definition keep_in_tracks :: "(timeline_element \<Rightarrow> bool) \<Rightarrow> scene_tracks \<Rightarrow> scene_tracks" where
  "keep_in_tracks P ts = \<lparr>overlay = map (keep_elements P) (overlay ts), main = keep_elements P (main ts),
     audio = map (keep_elements P) (audio ts)\<rparr>"

definition all_element_ids :: "scene_tracks \<Rightarrow> uuid list" where
  "all_element_ids ts = concat (map (\<lambda>tr. map elementId (elements tr)) (orderedTracks ts))"

abbreviation span_pair :: "timeline_element \<Rightarrow> interval" where
  "span_pair e \<equiv> (startTime e, startTime e + duration e)"

lemma distinct_concat_unique:
  "distinct (concat (map (\<lambda>x. map f (g x)) xs)) \<Longrightarrow> x \<in> set xs \<Longrightarrow> y \<in> set xs \<Longrightarrow> a \<in> set (g x) \<Longrightarrow>
   b \<in> set (g y) \<Longrightarrow> f a = f b \<Longrightarrow> a = b"
proof (induction xs)
  case (Cons z zs)
  consider "x = z" "y = z" | "x \<in> set zs" "y \<in> set zs" | "x = z" "y \<in> set zs" | "x \<in> set zs" "y = z"
    using Cons.prems by auto
  then show ?case
  proof cases
    case 1
    then show ?thesis using Cons.prems by (auto simp: distinct_map inj_on_def)
  next
    case 2
    then show ?thesis using Cons by auto
  next
    case 3
    then have "f a \<in> set (map f (g z))" "f a \<in> set (concat (map (\<lambda>x. map f (g x)) zs))"
      using Cons.prems by auto
    then show ?thesis using Cons.prems(1) by (auto simp: disjoint_iff)
  next
    case 4
    then have "f a \<in> set (map f (g z))" "f a \<in> set (concat (map (\<lambda>x. map f (g x)) zs))"
      using Cons.prems by auto
    then show ?thesis using Cons.prems(1) by (auto simp: disjoint_iff)
  qed
qed simp

lemma unique_element:
  "distinct (all_element_ids ts) \<Longrightarrow> tr \<in> set (orderedTracks ts) \<Longrightarrow> e \<in> set (elements tr) \<Longrightarrow>
   tr' \<in> set (orderedTracks ts) \<Longrightarrow> e' \<in> set (elements tr') \<Longrightarrow> elementId e = elementId e' \<Longrightarrow> e = e'"
  unfolding all_element_ids_def by (rule distinct_concat_unique)

lemma distinct_concat_same:
  "distinct (concat (map (\<lambda>x. map f (g x)) xs)) \<Longrightarrow> x \<in> set xs \<Longrightarrow> y \<in> set xs \<Longrightarrow> a \<in> set (g x) \<Longrightarrow>
   b \<in> set (g y) \<Longrightarrow> f a = f b \<Longrightarrow> x = y"
proof (induction xs)
  case (Cons z zs)
  have "f ` set (g z) \<inter> f ` (\<Union>v \<in> set zs. set (g v)) = {}" using Cons.prems(1) by (auto simp: disjoint_iff)
  then show ?case using Cons by (auto simp: disjoint_iff)
qed simp

lemma unique_track:
  "distinct (all_element_ids ts) \<Longrightarrow> tr \<in> set (orderedTracks ts) \<Longrightarrow> e \<in> set (elements tr) \<Longrightarrow>
   tr' \<in> set (orderedTracks ts) \<Longrightarrow> e' \<in> set (elements tr') \<Longrightarrow> elementId e = elementId e' \<Longrightarrow> tr = tr'"
  unfolding all_element_ids_def by (rule distinct_concat_same)

lemma ordered_keep: "orderedTracks (keep_in_tracks P ts) = map (keep_elements P) (orderedTracks ts)"
  by (simp add: keep_in_tracks_def orderedTracks_def)

lemma spanMap_distinct:
  "distinct (map elementId es) \<Longrightarrow> buildElementSpanMap es = map (\<lambda>e. (elementId e, span_pair e)) es"
  unfolding buildElementSpanMap_def by (rule js_map_distinct) (simp add: comp_def)

lemma map_of_spans:
  "distinct (map elementId es) \<Longrightarrow> e \<in> set es \<Longrightarrow>
   map_of (map (\<lambda>e. (elementId e, span_pair e)) es) (elementId e) = Some (span_pair e)"
  by (induction es) (auto simp: image_iff)

lemma map_of_spans_None:
  "map_of (map (\<lambda>e. (elementId e, span_pair e)) es) i = None \<longleftrightarrow> i \<notin> elementId ` set es"
  by (simp add: map_of_eq_None_iff image_image)

lemma fold_push_where:
  "points (fold (\<lambda>e acc. if Q e then pushInterval acc (fst (g e)) (snd (g e)) else acc) es acc)
   = points acc \<union> (\<Union>e \<in> {e \<in> set es. Q e}. {fst (g e) ..< snd (g e)})"
  by (induction es arbitrary: acc) (auto simp: points_pushInterval)

lemma fold_const: "fold (\<lambda>_ acc. acc) xs a = a"
  by (induction xs) auto

text \<open>Deletion frees exactly the ticks of the deleted elements.\<close>

lemma freed_points:
  assumes "distinct (map elementId es)" and "\<forall>e \<in> set es. \<not> P e \<longrightarrow> elementId e \<notin> ids"
    and "collectTrackIntervals (buildElementSpanMap es) (buildElementSpanMap (filter P es)) ids = (vac, joi)"
  shows "points (subtractIntervalSets vac joi)
    = (\<Union>e \<in> {e \<in> set es. \<not> P e}. {startTime e ..< startTime e + duration e})"
proof -
  let ?b = "map (\<lambda>e. (elementId e, span_pair e)) es" and ?a = "map (\<lambda>e. (elementId e, span_pair e)) (filter P es)"
  have da: "distinct (map elementId (filter P es))" using assms(1) by (simp add: distinct_map_filter)
  let ?step = "\<lambda>(i, (s, e)) acc. case map_of ?a i of
      None \<Rightarrow> if i \<in> ids then acc else pushInterval acc s e
    | Some (s', e') \<Rightarrow> if e > e' then pushInterval acc e' e else acc"
  have kept: "map_of ?a (elementId e) = (if P e then Some (span_pair e) else None)" if "e \<in> set es" for e
  proof (cases "P e")
    case True
    then show ?thesis using map_of_spans [OF da, of e] that by simp
  next
    case False
    have "elementId e \<notin> elementId ` set (filter P es)"
      using assms(1) that False by (auto simp: distinct_map inj_on_def)
    then show ?thesis using False by (simp only: map_of_spans_None if_False not_False_eq_True)
  qed
  have "fold ?step ?b acc = fold (\<lambda>e acc. if \<not> P e then pushInterval acc (fst (span_pair e)) (snd (span_pair e)) else acc) es acc" for acc
    unfolding fold_map comp_def using kept assms(2)
    by (intro fold_cong refl ext) (auto simp del: filter.simps)
  then have v: "points vac = (\<Union>e \<in> {e \<in> set es. \<not> P e}. {startTime e ..< startTime e + duration e})"
    using assms(3) fold_push_where [of "\<lambda>e. \<not> P e" span_pair es "[]"]
    by (auto simp: collectTrackIntervals_def spanMap_distinct [OF assms(1)] spanMap_distinct [OF da]
        normalizeIntervals_spec simp del: fold_map)
  have "map_of ?b i \<noteq> None" if "(i, x) \<in> set ?a" for i x
    using that by (auto simp: map_of_spans_None)
  then have "fold (\<lambda>(i, (s, e)) acc. if map_of ?b i \<noteq> None then acc else pushInterval acc s e) ?a [] = fold (\<lambda>_ acc. acc) ?a []"
    by (intro fold_cong refl ext) force
  also have "\<dots> = []" by (rule fold_const)
  finally have "joi = normalizeIntervals []"
    using assms(3) by (simp add: collectTrackIntervals_def spanMap_distinct [OF assms(1)] spanMap_distinct [OF da])
  then have "points joi = {}" by (simp add: normalizeIntervals_spec)
  then show ?thesis using v by (simp add: subtractIntervalSets_spec)
qed

lemma card_spans_below:
  assumes "no_overlap ds" and "\<forall>d \<in> set ds. 0 < duration d \<and> (elementEnd d \<le> s \<or> s \<le> startTime d)"
  shows "int (card {p \<in> (\<Union>d \<in> set ds. {startTime d ..< elementEnd d}). p < s})
    = sum_list (map duration (filter (\<lambda>d. elementEnd d \<le> s) ds))"
  using assms
proof (induction ds)
  case (Cons d ds)
  have no: "no_overlap ds" "\<forall>x \<in> set ds. elements_disjoint d x" using Cons.prems(1) by (auto simp: no_overlap_def)
  let ?U = "{p \<in> (\<Union>d \<in> set ds. {startTime d ..< elementEnd d}). p < s}"
  have IH: "int (card ?U) = sum_list (map duration (filter (\<lambda>d. elementEnd d \<le> s) ds))"
    using Cons no(1) by simp
  have fin: "finite ?U" by (rule finite_subset [of _ "\<Union>d \<in> set ds. {startTime d ..< elementEnd d}"]) auto
  show ?case
  proof (cases "elementEnd d \<le> s")
    case True
    have "{p \<in> (\<Union>d \<in> set (d # ds). {startTime d ..< elementEnd d}). p < s} = {startTime d ..< elementEnd d} \<union> ?U"
      using True by auto
    moreover have "{startTime d ..< elementEnd d} \<inter> ?U = {}" using no(2) by force
    ultimately have "card {p \<in> (\<Union>d \<in> set (d # ds). {startTime d ..< elementEnd d}). p < s}
        = nat (elementEnd d - startTime d) + card ?U"
      using fin by (simp add: card_Un_disjoint)
    then show ?thesis using True IH Cons.prems(2) by (simp add: elementEnd_def)
  next
    case False
    then have "{p \<in> (\<Union>d \<in> set (d # ds). {startTime d ..< elementEnd d}). p < s} = ?U"
      using Cons.prems(2) by auto
    then show ?thesis using False IH by simp
  qed
qed simp

lemma closed_before_deleted:
  assumes "normal is" and "points is = (\<Union>d \<in> set ds. {startTime d ..< elementEnd d})"
    and "no_overlap ds" and "\<forall>d \<in> set ds. 0 < duration d \<and> (elementEnd d \<le> s \<or> s < startTime d)"
  shows "closed_before is s = sum_list (map duration (filter (\<lambda>d. elementEnd d \<le> s) ds))"
proof -
  have "b \<le> s \<or> s \<le> a" if "(a, b) \<in> set is" for a b
  proof (rule ccontr)
    assume "\<not> (b \<le> s \<or> s \<le> a)"
    then have "s \<in> points is" using that unfolding points_def by (intro UN_I [of "(a, b)"]) auto
    then obtain d where "d \<in> set ds" "startTime d \<le> s" "s < elementEnd d" unfolding assms(2) by auto
    then show False using assms(4) by fastforce
  qed
  then have "closed_before is s = int (card {p \<in> points is. p < s})"
    using assms(1) by (intro closed_before_card) auto
  then show ?thesis using card_spans_below [OF assms(3), of s] assms(4) by (fastforce simp: assms(2))
qed

text \<open>One track: the kept elements move left by the total duration of the deleted ones before them.\<close>

definition ripple_deleted :: "(timeline_element \<Rightarrow> bool) \<Rightarrow> timeline_element list \<Rightarrow> timeline_element list" where
  "ripple_deleted P es =
     map (shift_start (\<lambda>s. sum_list (map duration (filter (\<lambda>d. \<not> P d \<and> elementEnd d \<le> s) es)))) (filter P es)"

lemma no_overlap_pair: "no_overlap es \<Longrightarrow> x \<in> set es \<Longrightarrow> y \<in> set es \<Longrightarrow> x = y \<or> elements_disjoint x y"
  by (induction es) (auto simp: no_overlap_def)

lemma track_ripple_deleted:
  assumes "distinct (map elementId (elements tr))" and "no_overlap (elements tr)"
    and "\<forall>e \<in> set (elements tr). 0 < duration e \<and> (\<not> P e \<longrightarrow> elementId e \<notin> ids)"
  shows "applyTrackRippleAdjustments (keep_elements P tr)
      (computeTrackRippleAdjustments tid (elements tr) (filter P (elements tr)) ids)
    = tr\<lparr>elements := ripple_deleted P (elements tr)\<rparr>"
proof -
  let ?es = "elements tr"
  obtain vac joi where c: "collectTrackIntervals (buildElementSpanMap ?es) (buildElementSpanMap (filter P ?es)) ids = (vac, joi)"
    by fastforce
  let ?fr = "subtractIntervalSets vac joi"
  let ?ds = "filter (\<lambda>e. \<not> P e) ?es"
  have pts: "points ?fr = (\<Union>d \<in> set ?ds. {startTime d ..< elementEnd d})"
    using freed_points [OF assms(1) _ c] assms(3) by (simp add: elementEnd_def)
  have n: "normal ?fr" by (rule subtractIntervalSets_spec(2))
  have "shift_start (closed_before ?fr) e
      = shift_start (\<lambda>s. sum_list (map duration (filter (\<lambda>d. \<not> P d \<and> elementEnd d \<le> s) ?es))) e"
    if e: "e \<in> set ?es" "P e" for e
  proof -
    have "0 < duration d \<and> (elementEnd d \<le> startTime e \<or> startTime e < startTime d)" if "d \<in> set ?ds" for d
      using no_overlap_pair [OF assms(2), of d e] that e assms(3) by (force simp: elementEnd_def)
    then have "closed_before ?fr (startTime e)
        = sum_list (map duration (filter (\<lambda>d. elementEnd d \<le> startTime e) ?ds))"
      by (intro closed_before_deleted [OF n pts]) (use assms(2) in \<open>auto intro: no_overlap_filter\<close>)
    then show ?thesis by (simp add: shift_start_def conj_commute)
  qed
  then have "map (shift_start (closed_before ?fr)) (filter P ?es) = ripple_deleted P ?es"
    by (auto simp: ripple_deleted_def)
  then show ?thesis using applyTrack_closed [OF n, of "keep_elements P tr" tid]
    by (simp add: computeTrackRippleAdjustments_def c keep_elements_def)
qed

lemma ripple_deleted_no_overlap:
  assumes "no_overlap es" and "\<forall>e \<in> set es. 0 < duration e"
  shows "no_overlap (ripple_deleted P es)"
  unfolding ripple_deleted_def
proof (rule no_overlap_map [OF no_overlap_filter [OF assms(1)]])
  let ?S = "\<lambda>s. sum_list (map duration (filter (\<lambda>d. \<not> P d \<and> elementEnd d \<le> s) es))"
  let ?ds = "filter (\<lambda>d. \<not> P d) es"
  have card: "?S (startTime e) = int (card {p \<in> (\<Union>d \<in> set ?ds. {startTime d ..< elementEnd d}). p < startTime e})"
    if "e \<in> set (filter P es)" for e
  proof -
    have "\<forall>d \<in> set ?ds. 0 < duration d \<and> (elementEnd d \<le> startTime e \<or> startTime e \<le> startTime d)"
      using no_overlap_pair [OF assms(1), of _ e] that assms(2) by (force simp: elementEnd_def)
    from card_spans_below [OF no_overlap_filter [OF assms(1)] this] show ?thesis by (simp add: conj_commute)
  qed
  have step: "startTime x + duration x - ?S (startTime x) \<le> startTime y - ?S (startTime y)"
    if x: "x \<in> set (filter P es)" and y: "y \<in> set (filter P es)" and xy: "elementEnd x \<le> startTime y" for x y
  proof -
    let ?X = "{p \<in> (\<Union>d \<in> set ?ds. {startTime d ..< elementEnd d}). p < startTime x}"
    let ?Y = "{p \<in> (\<Union>d \<in> set ?ds. {startTime d ..< elementEnd d}). p < startTime y}"
    have "?Y \<subseteq> ?X \<union> {elementEnd x ..< startTime y}"
    proof
      fix p assume p: "p \<in> ?Y"
      then obtain d where d: "d \<in> set ?ds" "startTime d \<le> p" "p < elementEnd d" by auto
      have "d \<noteq> x" using d(1) x by auto
      then have "elements_disjoint d x" using no_overlap_pair [OF assms(1), of d x] d(1) x by auto
      then show "p \<in> ?X \<union> {elementEnd x ..< startTime y}" using p d by auto
    qed
    moreover have "finite ?X" by (rule finite_subset [of _ "\<Union>d \<in> set ?ds. {startTime d ..< elementEnd d}"]) auto
    ultimately have "card ?Y \<le> card (?X \<union> {elementEnd x ..< startTime y})" by (intro card_mono) auto
    also have "\<dots> \<le> card ?X + card {elementEnd x ..< startTime y}" by (rule card_Un_le)
    finally have "int (card ?Y) \<le> int (card ?X) + (startTime y - elementEnd x)" using xy by simp
    then show ?thesis using card [OF x] card [OF y] by (simp add: elementEnd_def)
  qed
  fix x y
  assume "x \<in> set (filter P es)" "y \<in> set (filter P es)" "elements_disjoint x y"
  then show "elements_disjoint (shift_start ?S x) (shift_start ?S y)"
    using step [of x y] step [of y x] by (auto simp: elementEnd_def)
qed

section \<open>The whole timeline\<close>

lemma computeTrack_ids:
  "a \<in> set (computeTrackRippleAdjustments tid b c ids) \<Longrightarrow> adj_trackId a = tid"
  by (auto simp: computeTrackRippleAdjustments_def buildAdjustments_def split: prod.splits if_splits)

lemma filter_concat_own:
  assumes "distinct (map key xs)" and "x \<in> set xs" and "\<And>x a. x \<in> set xs \<Longrightarrow> a \<in> set (f x) \<Longrightarrow> g a = key x"
  shows "filter (\<lambda>a. g a = key x) (concat (map f xs)) = f x"
  using assms
proof (induction xs)
  case (Cons y ys)
  have y: "filter (\<lambda>a. g a = key x) (f y) = (if key y = key x then f y else [])"
    using Cons.prems(3) [of y] by (auto intro: filter_True simp: filter_empty_conv)
  show ?case
  proof (cases "x = y")
    case True
    have "filter (\<lambda>a. g a = key x) (concat (map f ys)) = []"
      using Cons.prems True by (auto simp: filter_empty_conv) (metis image_eqI)
    then show ?thesis using y True by simp
  next
    case False
    then have "x \<in> set ys" "key y \<noteq> key x" using Cons.prems(1,2) by auto
    then show ?thesis using y Cons by simp
  qed
qed simp

lemma orderedTracks_ripple:
  "orderedTracks (applyRippleAdjustments ts adjs)
   = map (\<lambda>tr. applyTrackRippleAdjustments tr (filter (\<lambda>a. adj_trackId a = trackId tr) adjs)) (orderedTracks ts)"
proof -
  have g: "(case map_of (group_by adj_trackId adjs) tid of None \<Rightarrow> [] | Some as \<Rightarrow> as)
      = filter (\<lambda>a. adj_trackId a = tid) adjs" for tid
    by (simp add: map_of_group_by filter_empty_conv)
  show ?thesis
    by (cases "adjs = []") (simp_all add: applyRippleAdjustments_def g orderedTracks_def Let_def
        applyTrackRippleAdjustments_def)
qed

lemma ripple_delete_tracks:
  assumes "tracks_ids_ok ts" and "tracks_no_overlap ts" and "distinct (all_element_ids ts)"
    and "\<forall>tr \<in> set (orderedTracks ts). \<forall>e \<in> set (elements tr). 0 < duration e"
  shows "orderedTracks (applyRippleAdjustments (keep_in_tracks P ts) (computeRippleAdjustments ts (keep_in_tracks P ts)))
    = map (\<lambda>tr. tr\<lparr>elements := ripple_deleted P (elements tr)\<rparr>) (orderedTracks ts)"
proof -
  let ?after = "keep_in_tracks P ts"
  define ids where "ids = set (concat (map (\<lambda>tr. map elementId (elements tr)) (orderedTracks ?after)))"
  have dt: "distinct (map trackId (orderedTracks ts))" using assms(1) by (simp add: tracks_ids_ok_def)
  have kid: "trackId (keep_elements P tr) = trackId tr" for tr by (simp add: keep_elements_def)
  have m: "map_of (js_map (map (\<lambda>tr. (trackId tr, tr)) (orderedTracks ?after))) (trackId tr) = Some (keep_elements P tr)"
    if "tr \<in> set (orderedTracks ts)" for tr
  proof -
    have "js_map (map (\<lambda>tr. (trackId tr, tr)) (orderedTracks ?after)) = map (\<lambda>tr. (trackId tr, tr)) (orderedTracks ?after)"
      by (rule js_map_distinct) (use dt in \<open>simp add: ordered_keep comp_def kid\<close>)
    then show ?thesis using dt that
      by (auto simp: ordered_keep comp_def kid intro!: map_of_is_SomeI)
  qed
  let ?f = "\<lambda>b. computeTrackRippleAdjustments (trackId b) (elements b) (filter P (elements b)) ids"
  have comp: "computeRippleAdjustments ts ?after = concat (map ?f (orderedTracks ts))"
    unfolding computeRippleAdjustments_def Let_def ids_def [symmetric]
    by (rule arg_cong [of _ _ concat], rule map_cong [OF refl]) (simp only: m option.case, simp add: keep_elements_def)
  have own: "filter (\<lambda>a. adj_trackId a = trackId tr) (concat (map ?f (orderedTracks ts))) = ?f tr"
    if "tr \<in> set (orderedTracks ts)" for tr
    by (rule filter_concat_own [OF dt that]) (rule computeTrack_ids)
  have each: "applyTrackRippleAdjustments (keep_elements P tr) (?f tr) = tr\<lparr>elements := ripple_deleted P (elements tr)\<rparr>"
    if tr: "tr \<in> set (orderedTracks ts)" for tr
  proof (rule track_ripple_deleted)
    show "distinct (map elementId (elements tr))"
      using assms(3) tr by (auto simp: all_element_ids_def distinct_concat_iff)
    show "no_overlap (elements tr)" using assms(2) tr by (auto simp: tracks_no_overlap_def list_all_iff)
    have "elementId e \<notin> ids" if e: "e \<in> set (elements tr)" "\<not> P e" for e
    proof
      assume "elementId e \<in> ids"
      then obtain tr' e' where *: "tr' \<in> set (orderedTracks ts)" "e' \<in> set (elements tr')" "P e'"
          "elementId e' = elementId e"
        by (auto simp: ids_def ordered_keep keep_elements_def)
      have "e' = e" using unique_element [OF assms(3) *(1,2) tr e(1) *(4)] .
      then show False using *(3) e(2) by simp
    qed
    then show "\<forall>e \<in> set (elements tr). 0 < duration e \<and> (\<not> P e \<longrightarrow> elementId e \<notin> ids)"
      using assms(4) tr by blast
  qed
  show ?thesis
    unfolding orderedTracks_ripple comp unfolding ordered_keep map_map comp_def kid
    by (rule map_cong [OF refl]) (simp only: own each)
qed

section \<open>Properties\<close>

text \<open>C21: Interval subtraction is exact: \<open>subtractIntervalSets\<close> denotes the set difference of the
  ticks of its arguments, and \<open>normalizeIntervals\<close> keeps the set of ticks; both results are sorted,
  non-empty and separated by gaps.\<close>
theorem interval_subtraction_exact:
  "points (subtractIntervalSets src ovs) = points src - points ovs \<and> normal (subtractIntervalSets src ovs)
   \<and> points (normalizeIntervals src) = points src \<and> normal (normalizeIntervals src)"
  using subtractIntervalSets_spec normalizeIntervals_spec by blast

text \<open>C4: Ripple deletion closes the gaps exactly. When elements are deleted from a well-formed
  timeline (positive durations, distinct ids), the ripple adjustments computed from the tracks
  before and after move every remaining element left by the total duration of the deleted elements
  that ended before it on its track, and change nothing else; no two elements of a track overlap.\<close>
theorem ripple_delete_closes_gaps:
  assumes "tracks_wf ts" and "distinct (all_element_ids ts)"
    and "\<forall>tr \<in> set (orderedTracks ts). \<forall>e \<in> set (elements tr). 0 < duration e"
    and "after = keep_in_tracks P ts"
    and "ts' = applyRippleAdjustments after (computeRippleAdjustments ts after)"
  shows "orderedTracks ts' = map (\<lambda>tr. tr\<lparr>elements := ripple_deleted P (elements tr)\<rparr>) (orderedTracks ts)
    \<and> tracks_no_overlap ts'"
proof -
  have w: "tracks_ids_ok ts" "tracks_no_overlap ts" using assms(1) by (simp_all add: tracks_wf_def)
  have eq: "orderedTracks ts' = map (\<lambda>tr. tr\<lparr>elements := ripple_deleted P (elements tr)\<rparr>) (orderedTracks ts)"
    unfolding assms(4,5) by (rule ripple_delete_tracks [OF w assms(2,3)])
  moreover have "tracks_no_overlap ts'"
    using w(2) assms(3) by (auto simp: tracks_no_overlap_def eq list_all_iff intro!: ripple_deleted_no_overlap)
  ultimately show ?thesis by blast
qed

definition demo_long :: scene_tracks where
  "demo_long = \<lparr>overlay = [], main = (buildEmptyTrack ''m'' TVideo None)\<lparr>elements :=
     [demo_element ''a'' EVideo 0 10, demo_element ''b'' EVideo 10 5, demo_element ''c'' EVideo 20 7]\<rparr>, audio = []\<rparr>"

theorem ripple_delete_closes_gaps_witness:
  "map startTime (elements (main (applyRippleAdjustments (keep_in_tracks (\<lambda>e. elementId e \<noteq> ''b'') demo_long)
     (computeRippleAdjustments demo_long (keep_in_tracks (\<lambda>e. elementId e \<noteq> ''b'') demo_long))))) = [0, 15]"
proof -
  have "tracks_wf demo_long" "distinct (all_element_ids demo_long)"
    "\<forall>tr \<in> set (orderedTracks demo_long). \<forall>e \<in> set (elements tr). 0 < duration e"
    by (simp_all add: demo_long_def demo_element_def tracks_wf_def tracks_typed_def track_typed_def
        tracks_ids_ok_def tracks_no_overlap_def orderedTracks_def no_overlap_def canElementGoOnTrack_def
        elementEnd_def all_element_ids_def)
  from ripple_delete_closes_gaps [OF this refl refl, of "\<lambda>e. elementId e \<noteq> ''b''"]
  have "orderedTracks (applyRippleAdjustments (keep_in_tracks (\<lambda>e. elementId e \<noteq> ''b'') demo_long)
     (computeRippleAdjustments demo_long (keep_in_tracks (\<lambda>e. elementId e \<noteq> ''b'') demo_long)))
     = [(main demo_long)\<lparr>elements := ripple_deleted (\<lambda>e. elementId e \<noteq> ''b'') (elements (main demo_long))\<rparr>]"
    by (simp add: demo_long_def orderedTracks_def)
  then have "main (applyRippleAdjustments (keep_in_tracks (\<lambda>e. elementId e \<noteq> ''b'') demo_long)
     (computeRippleAdjustments demo_long (keep_in_tracks (\<lambda>e. elementId e \<noteq> ''b'') demo_long)))
     = (main demo_long)\<lparr>elements := ripple_deleted (\<lambda>e. elementId e \<noteq> ''b'') (elements (main demo_long))\<rparr>"
    unfolding orderedTracks_def by (auto simp: append_eq_Cons_conv)
  then show ?thesis by (simp add: demo_long_def ripple_deleted_def demo_element_def elementEnd_def)
qed

end
