(* ===== verification/Group_Move.thy ===== *)
theory Group_Move
  imports Placement Ripple
begin

text \<open>
  Moving several elements by one drag (\<open>timeline/group-move/\<close>) and the command that applies the
  planned moves (\<open>commands/timeline/element/move-elements.ts\<close>).
\<close>

section \<open>Data\<close>

datatype track_section = SecOverlay | SecMain | SecAudio

record group_member =
  mem_ref :: element_ref
  mem_elementType :: element_type
  mem_duration :: media_time
  mem_timeOffset :: media_time
  mem_section :: track_section
  mem_sectionIndex :: int
  mem_displayIndex :: int

record move_group =
  anchor :: group_member
  members :: "group_member list"

record planned_track =
  pt_id :: uuid
  pt_type :: track_type
  pt_index :: int

record planned_move =
  sourceTrackId :: uuid
  targetTrackId :: uuid
  pm_elementId :: uuid
  newStartTime :: media_time

record group_move_result =
  moves :: "planned_move list"
  createTracks :: "planned_track list"
  targetSelection :: "element_ref list"

datatype move_target = ToExistingTrack uuid | ToNewTracks int "uuid list"

section \<open>Track placements (\<open>track-placement.ts\<close>)\<close>

record track_placement =
  tp_trackId :: uuid
  tp_trackType :: track_type
  tp_section :: track_section
  tp_sectionIndex :: int
  tp_displayIndex :: int

definition getTrackPlacementById :: "scene_tracks \<Rightarrow> uuid \<Rightarrow> track_placement option" where
  "getTrackPlacementById ts tid =
     (if trackId (main ts) = tid
      then Some \<lparr>tp_trackId = tid, tp_trackType = trackType (main ts), tp_section = SecMain,
                 tp_sectionIndex = - 1, tp_displayIndex = int (length (overlay ts))\<rparr>
      else case findIndex (\<lambda>tr. trackId tr = tid) (overlay ts) of
             Some i \<Rightarrow> Some \<lparr>tp_trackId = tid, tp_trackType = trackType (overlay ts ! i), tp_section = SecOverlay,
                            tp_sectionIndex = int i, tp_displayIndex = int i\<rparr>
           | None \<Rightarrow> (case findIndex (\<lambda>tr. trackId tr = tid) (audio ts) of
               Some i \<Rightarrow> Some \<lparr>tp_trackId = tid, tp_trackType = trackType (audio ts ! i), tp_section = SecAudio,
                            tp_sectionIndex = int i, tp_displayIndex = int (length (overlay ts)) + 1 + int i\<rparr>
             | None \<Rightarrow> None))"

definition getTrackPlacementByDisplayIndex :: "scene_tracks \<Rightarrow> int \<Rightarrow> track_placement option" where
  "getTrackPlacementByDisplayIndex ts i =
     (case js_at (orderedTracks ts) i of None \<Rightarrow> None | Some tr \<Rightarrow> getTrackPlacementById ts (trackId tr))"

section \<open>The group (\<open>build-group.ts\<close>)\<close>

definition find_ref :: "scene_tracks \<Rightarrow> element_ref \<Rightarrow> (track \<times> timeline_element) option" where
  "find_ref ts r =
     (case findTrackInSceneTracks ts (ref_trackId r) of
        None \<Rightarrow> None
      | Some tr \<Rightarrow> map_option (Pair tr) (find (\<lambda>e. elementId e = ref_elementId r) (elements tr)))"

definition build_member :: "scene_tracks \<Rightarrow> timeline_element \<Rightarrow> element_ref \<Rightarrow> group_member list" where
  "build_member ts anchorElement r =
     (case (find_ref ts r, getTrackPlacementById ts (ref_trackId r)) of
        (Some (tr, e), Some p) \<Rightarrow>
          [\<lparr>mem_ref = \<lparr>ref_trackId = trackId tr, ref_elementId = elementId e\<rparr>, mem_elementType = elementType e,
            mem_duration = duration e, mem_timeOffset = subMediaTime (startTime e) (startTime anchorElement),
            mem_section = tp_section p, mem_sectionIndex = tp_sectionIndex p, mem_displayIndex = tp_displayIndex p\<rparr>]
      | _ \<Rightarrow> [])"

definition buildMoveGroup :: "element_ref \<Rightarrow> element_ref list \<Rightarrow> scene_tracks \<Rightarrow> move_group option" where
  "buildMoveGroup anchorRef selected ts =
     (case (find_ref ts anchorRef, getTrackPlacementById ts (ref_trackId anchorRef)) of
        (Some (anchorTrack, anchorElement), Some _) \<Rightarrow>
          let orderedRefs = first_by ref_elementId [] (anchorRef # selected);
              mems = concat (map (build_member ts anchorElement) orderedRefs)
          in if mems = [] then None
             else (case find (\<lambda>m. mem_ref m = anchorRef) mems of
                     None \<Rightarrow> None
                   | Some a \<Rightarrow> Some \<lparr>anchor = a, members = mems\<rparr>)
      | _ \<Rightarrow> None)"

section \<open>Resolving the move (\<open>resolve-move.ts\<close>)\<close>

fun first_compatible :: "scene_tracks \<Rightarrow> track_type \<Rightarrow> uuid list \<Rightarrow> int list \<Rightarrow> track_placement option" where
  "first_compatible ts tt used [] = None"
| "first_compatible ts tt used (i # is) =
     (case getTrackPlacementByDisplayIndex ts i of
        None \<Rightarrow> first_compatible ts tt used is
      | Some p \<Rightarrow> if tp_trackType p = tt \<and> tp_trackId p \<notin> set used then Some p
                  else first_compatible ts tt used is)"

text \<open>The display indices the loop visits, upwards or downwards, while they are in range.\<close>

definition findCompatibleTrackPlacement ::
    "scene_tracks \<Rightarrow> track_type \<Rightarrow> int \<Rightarrow> bool \<Rightarrow> uuid list \<Rightarrow> track_placement option" where
  "findCompatibleTrackPlacement ts tt start up used =
     (let count = int (length (overlay ts)) + 1 + int (length (audio ts))
      in first_compatible ts tt used
           (if 0 \<le> start \<and> start < count then (if up then rev [0..start] else [start..count - 1]) else []))"

text \<open>One of the two loops away from the anchor, carrying the map and the used tracks.\<close>

fun assign_tracks ::
    "scene_tracks \<Rightarrow> bool \<Rightarrow> int \<Rightarrow> group_member list \<Rightarrow> (uuid \<times> uuid) list \<times> uuid list \<Rightarrow>
     ((uuid \<times> uuid) list \<times> uuid list) option" where
  "assign_tracks ts up boundary [] st = Some st"
| "assign_tracks ts up boundary (m # ms) (targets, used) =
     (case findCompatibleTrackPlacement ts (getTrackTypeForElementType (mem_elementType m))
             (if up then boundary - 1 else boundary + 1) up used of
        None \<Rightarrow> None
      | Some p \<Rightarrow> assign_tracks ts up (tp_displayIndex p) ms
          (AList.update (ref_elementId (mem_ref m)) (tp_trackId p) targets, tp_trackId p # used))"

definition resolveExistingTrackIdsByElementId ::
    "move_group \<Rightarrow> scene_tracks \<Rightarrow> int \<Rightarrow> (uuid \<times> uuid) list option" where
  "resolveExistingTrackIdsByElementId grp ts anchorIndex =
     (let sortedMembers = sort_key mem_displayIndex (members grp)
      in case findIndex (\<lambda>m. ref_elementId (mem_ref m) = ref_elementId (mem_ref (anchor grp))) sortedMembers of
           None \<Rightarrow> None
         | Some k \<Rightarrow> (case getTrackPlacementByDisplayIndex ts anchorIndex of
             None \<Rightarrow> None
           | Some p \<Rightarrow>
               (case assign_tracks ts True anchorIndex (rev (take k sortedMembers))
                       ([(ref_elementId (mem_ref (anchor grp)), tp_trackId p)], [tp_trackId p]) of
                  None \<Rightarrow> None
                | Some st \<Rightarrow> map_option fst (assign_tracks ts False anchorIndex (drop (Suc k) sortedMembers) st))))"

definition minimum_anchor_start :: "move_group \<Rightarrow> media_time" where
  "minimum_anchor_start grp =
     fold (\<lambda>m least. if mem_timeOffset m < ZERO_MEDIA_TIME
             then maxMediaTime least (subMediaTime ZERO_MEDIA_TIME (mem_timeOffset m)) else least)
       (members grp) ZERO_MEDIA_TIME"

definition clampAnchorStartTime ::
    "move_group \<Rightarrow> scene_tracks \<Rightarrow> media_time \<Rightarrow> (uuid \<times> uuid) list \<Rightarrow> media_time" where
  "clampAnchorStartTime grp ts anchorStart targets =
     (let least = minimum_anchor_start grp;
          clamped = (if anchorStart < least then least else anchorStart)
      in case find (\<lambda>m. map_of targets (ref_elementId (mem_ref m)) = Some (trackId (main ts))) (members grp) of
           None \<Rightarrow> clamped
         | Some onMain \<Rightarrow>
             let moving = set (map (\<lambda>m. ref_elementId (mem_ref m)) (members grp));
                 requested = addMediaTime clamped (mem_timeOffset onMain);
                 earliest = fold (\<lambda>e acc. case acc of None \<Rightarrow> Some (startTime e)
                       | Some t \<Rightarrow> if startTime e < t then Some (startTime e) else Some t)
                     (filter (\<lambda>e. elementId e \<notin> moving) (elements (main ts))) None
             in if (case earliest of None \<Rightarrow> True | Some t \<Rightarrow> requested \<le> t)
                then maxMediaTime least (subMediaTime ZERO_MEDIA_TIME (mem_timeOffset onMain))
                else clamped)"

fun adjacent_overlap :: "(media_time \<times> media_time) list \<Rightarrow> bool" where
  "adjacent_overlap ((s, d) # (s', d') # sps) = (s + d > s' \<or> adjacent_overlap ((s', d') # sps))"
| "adjacent_overlap _ = False"

definition hasOverlappingTimeSpans :: "time_span list \<Rightarrow> bool" where
  "hasOverlappingTimeSpans spans =
     adjacent_overlap (map (\<lambda>sp. (sp_start sp, sp_duration sp)) (sort_key sp_start spans))"

text \<open>The span of a planned move; the duration is 0 when the element is unknown.\<close>

definition move_span :: "(uuid \<times> timeline_element) list \<Rightarrow> planned_move \<Rightarrow> time_span" where
  "move_span sources mv =
     \<lparr>sp_start = newStartTime mv,
      sp_duration = (case map_of sources (pm_elementId mv) of None \<Rightarrow> ZERO_MEDIA_TIME | Some e \<Rightarrow> duration e),
      sp_exclude = None\<rparr>"

definition canApplyMovesToExistingTracks :: "scene_tracks \<Rightarrow> planned_move list \<Rightarrow> bool" where
  "canApplyMovesToExistingTracks ts mvs =
     (let moving = set (map pm_elementId mvs);
          sources = js_map (concat (map (\<lambda>tr. map (\<lambda>e. (elementId e, e)) (elements tr)) (orderedTracks ts)))
      in list_all (\<lambda>(tid, tmoves).
           case getTrackPlacementById ts tid of
             None \<Rightarrow> False
           | Some p \<Rightarrow> (case js_at (orderedTracks ts) (tp_displayIndex p) of
               None \<Rightarrow> False
             | Some tr \<Rightarrow>
                 let spans = map (move_span sources) tmoves
                 in \<not> hasOverlappingTimeSpans spans
                    \<and> canPlaceTimeSpansOnTrack (tr\<lparr>elements := filter (\<lambda>e. elementId e \<notin> moving) (elements tr)\<rparr>) spans))
         (group_by targetTrackId mvs))"

definition selection_of_moves :: "planned_move list \<Rightarrow> element_ref list" where
  "selection_of_moves mvs = map (\<lambda>mv. \<lparr>ref_trackId = targetTrackId mv, ref_elementId = pm_elementId mv\<rparr>) mvs"

definition resolveExistingTrackMove ::
    "move_group \<Rightarrow> scene_tracks \<Rightarrow> media_time \<Rightarrow> uuid \<Rightarrow> group_move_result option" where
  "resolveExistingTrackMove grp ts anchorStart tid =
     (case getTrackPlacementById ts tid of
        None \<Rightarrow> None
      | Some p \<Rightarrow> (case resolveExistingTrackIdsByElementId grp ts (tp_displayIndex p) of
          None \<Rightarrow> None
        | Some targets \<Rightarrow>
            let start = clampAnchorStartTime grp ts anchorStart targets;
                mvs = map (\<lambda>m. \<lparr>sourceTrackId = ref_trackId (mem_ref m),
                        targetTrackId = (case map_of targets (ref_elementId (mem_ref m)) of
                            None \<Rightarrow> ref_trackId (mem_ref m) | Some t \<Rightarrow> t),
                        pm_elementId = ref_elementId (mem_ref m),
                        newStartTime = addMediaTime start (mem_timeOffset m)\<rparr>) (members grp)
            in if \<not> canApplyMovesToExistingTracks ts mvs then None
               else Some \<lparr>moves = mvs, createTracks = [], targetSelection = selection_of_moves mvs\<rparr>))"

definition clampAudioInsertIndex :: "scene_tracks \<Rightarrow> int \<Rightarrow> int" where
  "clampAudioInsertIndex ts i =
     (let least = int (length (overlay ts)) + 1
      in max least (min i (least + int (length (audio ts)))))"

definition resolveNewTrackMove ::
    "move_group \<Rightarrow> scene_tracks \<Rightarrow> media_time \<Rightarrow> int \<Rightarrow> uuid list \<Rightarrow> group_move_result option" where
  "resolveNewTrackMove grp ts anchorStart insertIndex newIds =
     (let sortedMembers = sort_key mem_displayIndex (members grp)
      in case findIndex (\<lambda>m. ref_elementId (mem_ref m) = ref_elementId (mem_ref (anchor grp))) sortedMembers of
           None \<Rightarrow> None
         | Some k \<Rightarrow>
             if length newIds < length sortedMembers then None
             else
               let hasAudio = list_ex (\<lambda>m. mem_section m = SecAudio) sortedMembers;
                   hasNonAudio = list_ex (\<lambda>m. mem_section m \<noteq> SecAudio) sortedMembers
               in if hasAudio \<and> hasNonAudio then None
                  else
                    let start = clampAnchorStartTime grp ts anchorStart [];
                        block = (if hasAudio then clampAudioInsertIndex ts (insertIndex - int k)
                                 else max 0 (min (insertIndex - int k) (int (length (overlay ts)))));
                        numbered = zip sortedMembers (zip [0..<length sortedMembers] newIds);
                        mvs = map (\<lambda>(m, i, nid). \<lparr>sourceTrackId = ref_trackId (mem_ref m), targetTrackId = nid,
                                pm_elementId = ref_elementId (mem_ref m),
                                newStartTime = addMediaTime start (mem_timeOffset m)\<rparr>) numbered
                    in Some \<lparr>moves = mvs,
                         createTracks = map (\<lambda>(m, i, nid). \<lparr>pt_id = nid,
                           pt_type = getTrackTypeForElementType (mem_elementType m), pt_index = block + int i\<rparr>) numbered,
                         targetSelection = selection_of_moves mvs\<rparr>)"

definition resolveGroupMove ::
    "move_group \<Rightarrow> scene_tracks \<Rightarrow> media_time \<Rightarrow> move_target \<Rightarrow> group_move_result option" where
  "resolveGroupMove grp ts anchorStart target =
     (case target of
        ToNewTracks i ids \<Rightarrow> resolveNewTrackMove grp ts anchorStart i ids
      | ToExistingTrack tid \<Rightarrow> resolveExistingTrackMove grp ts anchorStart tid)"

section \<open>The command (\<open>move-elements.ts\<close>)\<close>

definition mapSceneTracks :: "(track \<Rightarrow> track) \<Rightarrow> scene_tracks \<Rightarrow> scene_tracks" where
  "mapSceneTracks f ts = \<lparr>overlay = map f (overlay ts), main = f (main ts), audio = map f (audio ts)\<rparr>"

definition insertTrackAtDisplayIndex :: "scene_tracks \<Rightarrow> track \<Rightarrow> int \<Rightarrow> scene_tracks" where
  "insertTrackAtDisplayIndex ts tr i =
     (if trackType tr = TAudio
      then let j = nat (max 0 (min (i - int (length (overlay ts)) - 1) (int (length (audio ts)))))
           in ts\<lparr>audio := take j (audio ts) @ tr # drop j (audio ts)\<rparr>
      else let j = nat (max 0 (min i (int (length (overlay ts)))))
           in ts\<lparr>overlay := take j (overlay ts) @ tr # drop j (overlay ts)\<rparr>)"

definition create_planned_tracks :: "planned_track list \<Rightarrow> scene_tracks \<Rightarrow> scene_tracks" where
  "create_planned_tracks pts ts =
     fold (\<lambda>p acc. insertTrackAtDisplayIndex acc (buildEmptyTrack (pt_id p) (pt_type p) None) (pt_index p))
       (sort_key pt_index pts) ts"

fun element_type_name :: "element_type \<Rightarrow> string" where
  "element_type_name EVideo = ''video''"
| "element_type_name EImage = ''image''"
| "element_type_name EText = ''text''"
| "element_type_name EAudio = ''audio''"
| "element_type_name ESticker = ''sticker''"
| "element_type_name EGraphic = ''graphic''"
| "element_type_name EEffect = ''effect''"

fun track_type_name :: "track_type \<Rightarrow> string" where
  "track_type_name TVideo = ''video''"
| "track_type_name TText = ''text''"
| "track_type_name TAudio = ''audio''"
| "track_type_name TGraphic = ''graphic''"
| "track_type_name TEffect = ''effect''"

text \<open>The message \<open>validateElementTrackCompatibility\<close> returns with \<open>isValid: false\<close>.\<close>

definition compatibility_error :: "timeline_element \<Rightarrow> track \<Rightarrow> string" where
  "compatibility_error e tr = element_type_name (elementType e) @ '' elements cannot be placed on ''
     @ track_type_name (trackType tr) @ '' tracks''"

text \<open>The validation loop: every moved element at its new start, or the error thrown.\<close>

definition validate_move :: "scene_tracks \<Rightarrow> scene_tracks \<Rightarrow> planned_move \<Rightarrow> js_error + timeline_element" where
  "validate_move saved created mv =
     (case find_ref saved \<lparr>ref_trackId = sourceTrackId mv, ref_elementId = pm_elementId mv\<rparr> of
        None \<Rightarrow> Inl (Thrown ''Source track or element not found'')
      | Some (_, e) \<Rightarrow> (case findTrackInSceneTracks created (targetTrackId mv) of
          None \<Rightarrow> Inl (Thrown ''Target track not found'')
        | Some target \<Rightarrow>
            if validateElementTrackCompatibility e target then Inr (e\<lparr>startTime := newStartTime mv\<rparr>)
            else Inl (Thrown (compatibility_error e target))))"

fun validate_moves ::
    "scene_tracks \<Rightarrow> scene_tracks \<Rightarrow> planned_move list \<Rightarrow> (uuid \<times> timeline_element) list \<Rightarrow>
     js_error + (uuid \<times> timeline_element) list" where
  "validate_moves saved created [] acc = Inr acc"
| "validate_moves saved created (mv # mvs) acc =
     (case validate_move saved created mv of
        Inl err \<Rightarrow> Inl err
      | Inr e \<Rightarrow> validate_moves saved created mvs (AList.update (pm_elementId mv) e acc))"

definition moved_to :: "planned_move list \<Rightarrow> (uuid \<times> timeline_element) list \<Rightarrow> uuid \<Rightarrow> timeline_element list" where
  "moved_to mvs moved tid =
     (case map_of (group_by fst (concat (map (\<lambda>mv. case map_of moved (pm_elementId mv) of
            None \<Rightarrow> [] | Some e \<Rightarrow> [(targetTrackId mv, e)]) mvs))) tid of
        None \<Rightarrow> [] | Some ps \<Rightarrow> map snd ps)"

definition moveElements ::
    "planned_move list \<Rightarrow> planned_track list \<Rightarrow> scene_tracks \<Rightarrow> js_error + scene_tracks" where
  "moveElements mvs pts saved =
     (let created = create_planned_tracks pts saved
      in case validate_moves saved created mvs [] of
           Inl err \<Rightarrow> Inl err
         | Inr moved \<Rightarrow>
             let movedIds = set (map pm_elementId mvs)
             in Inr (mapSceneTracks (\<lambda>tr. tr\<lparr>elements :=
                  filter (\<lambda>e. elementId e \<notin> movedIds) (elements tr) @ moved_to mvs moved (trackId tr)\<rparr>) created))"

section \<open>Spans that do not overlap\<close>

abbreviation spans_disjoint :: "time_span \<Rightarrow> time_span \<Rightarrow> bool" where
  "spans_disjoint a b \<equiv>
     span_disjoint (sp_start a) (sp_start a + sp_duration a) (sp_start b) (sp_start b + sp_duration b)"

lemma adjacent_sorted:
  "\<not> adjacent_overlap ps \<Longrightarrow> \<forall>p \<in> set ps. 0 \<le> snd p \<Longrightarrow> sorted_wrt (\<lambda>a b. fst a + snd a \<le> fst b) ps"
proof (induction ps rule: adjacent_overlap.induct)
  case (1 s d s' d' sps)
  then have ih: "sorted_wrt (\<lambda>a b. fst a + snd a \<le> fst b) ((s', d') # sps)" and "s + d \<le> s'" "0 \<le> d'" by auto
  then show ?case by (fastforce simp: sorted_wrt.simps)
qed simp_all

lemma not_overlapping_spans:
  assumes "\<not> hasOverlappingTimeSpans spans" "\<forall>sp \<in> set spans. 0 \<le> sp_duration sp"
  shows "sorted_wrt spans_disjoint spans"
proof -
  let ?s = "sort_key sp_start spans"
  have "sorted_wrt (\<lambda>a b. fst a + snd a \<le> fst b) (map (\<lambda>sp. (sp_start sp, sp_duration sp)) ?s)"
    using assms by (intro adjacent_sorted) (auto simp: hasOverlappingTimeSpans_def)
  then have "sorted_wrt (\<lambda>a b. sp_start a + sp_duration a \<le> sp_start b) ?s" by (simp add: sorted_wrt_map)
  then have "sorted_wrt spans_disjoint ?s" by (rule sorted_wrt_mono_rel [rotated]) simp
  moreover have "mset ?s = mset spans" by simp
  ultimately show ?thesis using sorted_wrt_mset_eq [of spans_disjoint ?s spans] by blast
qed

section \<open>Track placements\<close>

lemma getTrackPlacementById_Some:
  assumes "getTrackPlacementById ts tid = Some p"
  obtains tr where "js_at (orderedTracks ts) (tp_displayIndex p) = Some tr"
    "findTrackInSceneTracks ts tid = Some tr" "trackId tr = tid" "tp_trackId p = tid" "tp_trackType p = trackType tr"
    "tr \<in> set (orderedTracks ts)"
proof -
  consider (main) "trackId (main ts) = tid" 
    | (overlay) i where "trackId (main ts) \<noteq> tid" "findIndex (\<lambda>tr. trackId tr = tid) (overlay ts) = Some i"
    | (audio) i where "trackId (main ts) \<noteq> tid" "findIndex (\<lambda>tr. trackId tr = tid) (overlay ts) = None"
        "findIndex (\<lambda>tr. trackId tr = tid) (audio ts) = Some i"
    using assms by (auto simp: getTrackPlacementById_def split: if_splits option.splits)
  then show ?thesis
  proof cases
    case main
    then show ?thesis using assms that [of "main ts"]
      by (auto simp: getTrackPlacementById_def findTrackInSceneTracks_def orderedTracks_def js_at_def)
  next
    case overlay
    note d = findIndexD [OF overlay(2)]
    show ?thesis using assms overlay d that [of "overlay ts ! i"]
      by (auto simp: getTrackPlacementById_def findTrackInSceneTracks_def orderedTracks_def js_at_def find_findIndex
          nth_append)
  next
    case audio
    note d = findIndexD [OF audio(3)]
    have "(overlay ts @ main ts # audio ts) ! nat (int (length (overlay ts)) + 1 + int i) = audio ts ! i"
      using d(1) by (simp add: nth_append nat_add_distrib nat_diff_distrib)
    then show ?thesis using assms audio d that [of "audio ts ! i"]
      by (auto simp: getTrackPlacementById_def findTrackInSceneTracks_def orderedTracks_def js_at_def find_findIndex)
  qed
qed

lemma first_compatible_Some:
  "first_compatible ts tt used is = Some p \<Longrightarrow> \<exists>tr \<in> set (orderedTracks ts). trackId tr = tp_trackId p \<and> trackType tr = tt"
proof (induction ts tt used "is" rule: first_compatible.induct)
  case (2 ts tt used i "is")
  then show ?case
    by (auto simp: getTrackPlacementByDisplayIndex_def split: option.splits if_splits elim!: getTrackPlacementById_Some)
qed simp

section \<open>Applying moves\<close>

lemma find_ref_Some:
  assumes "find_ref ts r = Some (tr, e)"
  shows "findTrackInSceneTracks ts (ref_trackId r) = Some tr" "tr \<in> set (orderedTracks ts)" "e \<in> set (elements tr)"
    "trackId tr = ref_trackId r" "elementId e = ref_elementId r"
proof -
  have f: "findTrackInSceneTracks ts (ref_trackId r) = Some tr"
    and "find (\<lambda>e. elementId e = ref_elementId r) (elements tr) = Some e"
    using assms by (auto simp: find_ref_def split: option.splits)
  then show "e \<in> set (elements tr)" "elementId e = ref_elementId r" by (auto dest!: find_Some_setD)
  show "findTrackInSceneTracks ts (ref_trackId r) = Some tr" by (rule f)
  show "tr \<in> set (orderedTracks ts)" "trackId tr = ref_trackId r"
    using f by (auto simp: findTrackInSceneTracks_def orderedTracks_def split: if_splits option.splits
        dest!: find_Some_setD)
qed

lemma alist_update_fresh: "k \<notin> fst ` set m \<Longrightarrow> AList.update k v m = m @ [(k, v)]"
  by (induction m) auto

lemma validate_moves_all:
  "\<forall>mv \<in> set mvs. validate_move saved created mv = Inr (g mv) \<Longrightarrow> distinct (map pm_elementId mvs) \<Longrightarrow>
   fst ` set acc \<inter> pm_elementId ` set mvs = {} \<Longrightarrow>
   validate_moves saved created mvs acc = Inr (acc @ map (\<lambda>mv. (pm_elementId mv, g mv)) mvs)"
proof (induction mvs arbitrary: acc)
  case (Cons mv mvs)
  then have "AList.update (pm_elementId mv) (g mv) acc = acc @ [(pm_elementId mv, g mv)]"
    by (intro alist_update_fresh) auto
  moreover have "validate_moves saved created mvs (acc @ [(pm_elementId mv, g mv)])
      = Inr ((acc @ [(pm_elementId mv, g mv)]) @ map (\<lambda>mv. (pm_elementId mv, g mv)) mvs)"
    using Cons.prems by (intro Cons.IH) auto
  ultimately show ?case using Cons.prems by simp
qed simp

lemma moved_to_all:
  assumes "distinct (map pm_elementId mvs)"
  shows "moved_to mvs (map (\<lambda>mv. (pm_elementId mv, g mv)) mvs) tid = map g (filter (\<lambda>mv. targetTrackId mv = tid) mvs)"
proof -
  let ?m = "map (\<lambda>mv. (pm_elementId mv, g mv)) mvs"
  have "map_of ?m (pm_elementId mv) = Some (g mv)" if "mv \<in> set mvs" for mv
    using assms that by (intro map_of_is_SomeI) (auto simp: comp_def)
  then have "concat (map (\<lambda>mv. case map_of ?m (pm_elementId mv) of None \<Rightarrow> [] | Some e \<Rightarrow> [(targetTrackId mv, e)]) mvs)
      = concat (map (\<lambda>mv. [(targetTrackId mv, g mv)]) mvs)" by (intro arg_cong [where f = concat] map_cong) auto
  also have "\<dots> = map (\<lambda>mv. (targetTrackId mv, g mv)) mvs" by (induction mvs) auto
  finally show ?thesis
    by (auto simp: moved_to_def map_of_group_by filter_map comp_def filter_empty_conv)
qed

lemma ordered_mapSceneTracks [simp]: "orderedTracks (mapSceneTracks f ts) = map f (orderedTracks ts)"
  by (simp add: mapSceneTracks_def orderedTracks_def)

lemma mapSceneTracks_wf:
  assumes "tracks_wf ts" "\<And>tr. trackId (f tr) = trackId tr" "\<And>tr. trackType (f tr) = trackType tr"
    and "\<And>tr. tr \<in> set (orderedTracks ts) \<Longrightarrow> track_typed (f tr) \<and> no_overlap (elements (f tr))"
  shows "tracks_wf (mapSceneTracks f ts)"
proof -
  have "map trackId (map f (orderedTracks ts)) = map trackId (orderedTracks ts)" using assms(2) by simp
  then have "tracks_ids_ok (mapSceneTracks f ts)" using assms(1) by (simp add: tracks_wf_def tracks_ids_ok_def del: map_map)
  moreover have "tracks_typed (mapSceneTracks f ts)"
    using assms by (auto simp: tracks_wf_def tracks_typed_def list_all_iff) (auto simp: mapSceneTracks_def)
  moreover have "tracks_no_overlap (mapSceneTracks f ts)"
    using assms(4) by (simp add: tracks_no_overlap_def list_all_iff)
  ultimately show ?thesis by (simp add: tracks_wf_def)
qed

text \<open>What the resolved moves have to satisfy for the command to succeed and keep the timeline well formed.\<close>

lemma moveElements_wf:
  assumes wf: "tracks_wf created" "created = create_planned_tracks pts ts"
    and d: "distinct (map pm_elementId mvs)"
    and v: "\<forall>mv \<in> set mvs. validate_move ts created mv = Inr (g mv)"
    and fit: "\<And>tr. tr \<in> set (orderedTracks created) \<Longrightarrow>
        no_overlap (map g (filter (\<lambda>mv. targetTrackId mv = trackId tr) mvs))
        \<and> (\<forall>x \<in> set (elements tr). elementId x \<notin> pm_elementId ` set mvs \<longrightarrow>
             (\<forall>mv \<in> set mvs. targetTrackId mv = trackId tr \<longrightarrow> elements_disjoint x (g mv)))"
  shows "\<exists>ts'. moveElements mvs pts ts = Inr ts' \<and> tracks_wf ts'
    \<and> orderedTracks ts' = map (\<lambda>tr. tr\<lparr>elements := filter (\<lambda>e. elementId e \<notin> pm_elementId ` set mvs) (elements tr)
          @ map g (filter (\<lambda>mv. targetTrackId mv = trackId tr) mvs)\<rparr>) (orderedTracks created)"
proof -
  let ?f = "\<lambda>tr. tr\<lparr>elements := filter (\<lambda>e. elementId e \<notin> pm_elementId ` set mvs) (elements tr)
          @ map g (filter (\<lambda>mv. targetTrackId mv = trackId tr) mvs)\<rparr>"
  have eq: "moveElements mvs pts ts = Inr (mapSceneTracks ?f created)"
    using validate_moves_all [OF v d, of "[]"] moved_to_all [OF d, of g] wf(2)
    by (simp add: moveElements_def)
  have ids: "tracks_ids_ok created" using wf(1) by (simp add: tracks_wf_def)
  have "tracks_wf (mapSceneTracks ?f created)"
  proof (rule mapSceneTracks_wf [OF wf(1)])
    fix tr assume tr: "tr \<in> set (orderedTracks created)"
    have old: "track_typed tr" "no_overlap (elements tr)"
      using wf(1) tr by (auto simp: tracks_wf_def tracks_typed_def tracks_no_overlap_def list_all_iff)
    have "canElementGoOnTrack (elementType (g mv)) (trackType tr)" if "mv \<in> set mvs" "targetTrackId mv = trackId tr" for mv
    proof -
      have "findTrackInSceneTracks created (targetTrackId mv) = Some tr"
        using that(2) tr ids track_coll.lookup_distinct [of "orderedTracks created" tr]
        by (simp add: findTrack_lookup tracks_ids_ok_def)
      moreover have "validate_move ts created mv = Inr (g mv)" using v that(1) by blast
      ultimately obtain e where "canElementGoOnTrack (elementType e) (trackType tr)" "g mv = e\<lparr>startTime := newStartTime mv\<rparr>"
        by (auto simp: validate_move_def validateElementTrackCompatibility_def split: option.splits if_splits)
      then show ?thesis by simp
    qed
    then have "track_typed (?f tr)" using old(1) by (auto simp: track_typed_def list_all_iff)
    moreover have "no_overlap (elements (?f tr))"
      using fit [OF tr] no_overlap_filter [OF old(2)] by (auto simp: no_overlap_append)
    ultimately show "track_typed (?f tr) \<and> no_overlap (elements (?f tr))" ..
  qed simp_all
  then show ?thesis using eq by simp
qed

section \<open>The members of a group\<close>

text \<open>Every member is an element of the timeline, at a fixed offset from the anchor.\<close>

definition member_of :: "scene_tracks \<Rightarrow> media_time \<Rightarrow> group_member \<Rightarrow> timeline_element \<Rightarrow> bool" where
  "member_of ts t m e \<longleftrightarrow> (\<exists>tr. find_ref ts (mem_ref m) = Some (tr, e)) \<and> mem_elementType m = elementType e
     \<and> mem_timeOffset m = startTime e - t"

lemma build_member_ref:
  "map mem_ref (build_member ts a r) = (if build_member ts a r = [] then [] else [r])"
  by (auto simp: build_member_def find_ref_Some split: option.splits)

lemma build_member_of:
  assumes "m \<in> set (build_member ts a r)"
  shows "\<exists>e. member_of ts (startTime a) m e"
proof -
  obtain tr e p where f: "find_ref ts r = Some (tr, e)" and p: "getTrackPlacementById ts (ref_trackId r) = Some p"
    using assms by (cases "find_ref ts r"; cases "getTrackPlacementById ts (ref_trackId r)") (auto simp: build_member_def)
  have "\<lparr>ref_trackId = trackId tr, ref_elementId = elementId e\<rparr> = r" using find_ref_Some [OF f] by simp
  then have "member_of ts (startTime a) m e"
    using assms f p by (simp add: build_member_def member_of_def subMediaTime_def)
  then show ?thesis ..
qed

lemma concat_members_refs:
  "map mem_ref (concat (map (build_member ts a) rs)) = filter (\<lambda>r. build_member ts a r \<noteq> []) rs"
  by (induction rs) (auto simp: build_member_ref)

lemma buildMoveGroup_members:
  assumes "buildMoveGroup anchorRef selected ts = Some grp"
  obtains t where "\<forall>m \<in> set (members grp). \<exists>e. member_of ts t m e" "anchor grp \<in> set (members grp)"
    "distinct (map (\<lambda>m. ref_elementId (mem_ref m)) (members grp))"
proof -
  obtain a where m: "members grp = concat (map (build_member ts a) (first_by ref_elementId [] (anchorRef # selected)))"
    and an: "anchor grp \<in> set (members grp)"
    using assms unfolding buildMoveGroup_def
    by (cases "find_ref ts anchorRef"; cases "getTrackPlacementById ts (ref_trackId anchorRef)")
      (fastforce simp: Let_def simp del: first_by.simps set_concat split: option.splits if_splits dest!: find_Some_setD)+
  let ?rs = "first_by ref_elementId [] (anchorRef # selected)"
  have "map ref_elementId (map mem_ref (members grp)) = map ref_elementId (filter (\<lambda>r. build_member ts a r \<noteq> []) ?rs)"
    unfolding m concat_members_refs ..
  moreover have "distinct (map ref_elementId (filter (\<lambda>r. build_member ts a r \<noteq> []) ?rs))"
    by (rule distinct_map_filter) (rule distinct_first_by)
  ultimately have "distinct (map (\<lambda>m. ref_elementId (mem_ref m)) (members grp))" by (simp add: comp_def)
  moreover have "\<forall>x \<in> set (members grp). \<exists>e. member_of ts (startTime a) x e"
    unfolding m by (auto simp del: first_by.simps dest: build_member_of)
  ultimately show ?thesis using that an by blast
qed

section \<open>Moves onto existing tracks\<close>

abbreviation member_id :: "group_member \<Rightarrow> uuid" where
  "member_id m \<equiv> ref_elementId (mem_ref m)"

text \<open>A member's target is a track of the type its element needs.\<close>

definition has_target :: "scene_tracks \<Rightarrow> (uuid \<times> uuid) list \<Rightarrow> group_member \<Rightarrow> bool" where
  "has_target ts targets m \<longleftrightarrow> (\<exists>tr \<in> set (orderedTracks ts). map_of targets (member_id m) = Some (trackId tr)
     \<and> trackType tr = getTrackTypeForElementType (mem_elementType m))"

lemma has_target_cong:
  "has_target ts targets m \<Longrightarrow> map_of targets' (member_id m) = map_of targets (member_id m) \<Longrightarrow> has_target ts targets' m"
  by (simp add: has_target_def)

lemma assign_tracks_targets:
  "assign_tracks ts up b ms st = Some st' \<Longrightarrow> distinct (map member_id ms) \<Longrightarrow>
   (\<forall>m \<in> set ms. has_target ts (fst st') m)
   \<and> (\<forall>k. k \<notin> member_id ` set ms \<longrightarrow> map_of (fst st') k = map_of (fst st) k)"
proof (induction ts up b ms st arbitrary: st' rule: assign_tracks.induct)
  case (2 ts up b m ms targets used)
  obtain p where p: "findCompatibleTrackPlacement ts (getTrackTypeForElementType (mem_elementType m))
             (if up then b - 1 else b + 1) up used = Some p"
    and rec: "assign_tracks ts up (tp_displayIndex p) ms
          (AList.update (member_id m) (tp_trackId p) targets, tp_trackId p # used) = Some st'"
    using "2.prems"(1) by (auto split: option.splits)
  have d: "distinct (map member_id ms)" "member_id m \<notin> member_id ` set ms" using "2.prems"(2) by auto
  note ih = "2.IH" [OF p rec d(1)]
  have "map_of (fst st') (member_id m) = Some (tp_trackId p)" using ih d(2) by (simp add: update_conv')
  moreover obtain tr where "tr \<in> set (orderedTracks ts)" "trackId tr = tp_trackId p"
      "trackType tr = getTrackTypeForElementType (mem_elementType m)"
    using first_compatible_Some [OF p [unfolded findCompatibleTrackPlacement_def Let_def]] by blast
  ultimately have "has_target ts (fst st') m" unfolding has_target_def by (intro bexI [of _ tr]) simp_all
  then show ?case using ih by (auto simp: update_conv')
qed simp

lemma existing_targets:
  assumes r: "resolveExistingTrackIdsByElementId grp ts i = Some targets"
    and d: "distinct (map member_id (members grp))" and a: "anchor grp \<in> set (members grp)"
    and tr: "js_at (orderedTracks ts) i = Some tr" "trackType tr = getTrackTypeForElementType (mem_elementType (anchor grp))"
  shows "\<forall>m \<in> set (members grp). has_target ts targets m"
proof -
  let ?s = "sort_key mem_displayIndex (members grp)"
  obtain k p st st' where k: "findIndex (\<lambda>m. member_id m = member_id (anchor grp)) ?s = Some k"
    and p: "getTrackPlacementByDisplayIndex ts i = Some p"
    and up: "assign_tracks ts True i (rev (take k ?s)) ([(member_id (anchor grp), tp_trackId p)], [tp_trackId p]) = Some st"
    and down: "assign_tracks ts False i (drop (Suc k) ?s) st = Some st'" and t: "targets = fst st'"
    using r by (auto simp: resolveExistingTrackIdsByElementId_def Let_def split: option.splits)
  have s: "?s = take k ?s @ ?s ! k # drop (Suc k) ?s" using findIndexD(1) [OF k] by (rule id_take_nth_drop)
  have "distinct (map member_id ?s)" using d mset_eq_imp_distinct_iff [of "map member_id ?s" "map member_id (members grp)"] by simp
  then have ds: "distinct (map member_id (take k ?s @ ?s ! k # drop (Suc k) ?s))" using s by argo
  have ak: "member_id (?s ! k) = member_id (anchor grp)" using findIndexD(2) [OF k] .
  have mem: "set (members grp) = set (take k ?s) \<union> {?s ! k} \<union> set (drop (Suc k) ?s)"
    using arg_cong [OF s, of set] by auto
  have "tp_trackId p = trackId tr"
    using p tr(1) by (auto simp: getTrackPlacementByDisplayIndex_def elim: getTrackPlacementById_Some)
  moreover have "inj_on member_id (set (members grp))" using d by (simp add: distinct_map)
  then have "?s ! k = anchor grp" using ak a mem by (auto dest: inj_onD)
  ultimately have anc: "has_target ts [(member_id (anchor grp), tp_trackId p)] (?s ! k)"
    using js_at_Some [OF tr(1)] tr(2) by (auto simp: has_target_def)
  have U: "\<forall>m \<in> set (take k ?s). has_target ts (fst st) m"
      "\<forall>x. x \<notin> member_id ` set (take k ?s) \<longrightarrow> map_of (fst st) x = map_of [(member_id (anchor grp), tp_trackId p)] x"
    using assign_tracks_targets [OF up] ds by (simp_all add: rev_map [symmetric])
  have D: "\<forall>m \<in> set (drop (Suc k) ?s). has_target ts targets m"
      "\<forall>x. x \<notin> member_id ` set (drop (Suc k) ?s) \<longrightarrow> map_of targets x = map_of (fst st) x"
    using assign_tracks_targets [OF down] ds by (simp_all add: t)
  have out: "member_id (?s ! k) \<notin> member_id ` set (take k ?s)" "member_id (?s ! k) \<notin> member_id ` set (drop (Suc k) ?s)"
      "\<And>m. m \<in> set (take k ?s) \<Longrightarrow> member_id m \<notin> member_id ` set (drop (Suc k) ?s)"
    using ds unfolding map_append distinct_append list.map distinct.simps set_map list.set by blast+
  have "map_of targets (member_id (?s ! k)) = map_of [(member_id (anchor grp), tp_trackId p)] (member_id (?s ! k))"
    using U(2) D(2) out by metis
  then have "has_target ts targets (?s ! k)" by (rule has_target_cong [OF anc])
  moreover have "has_target ts targets m" if "m \<in> set (take k ?s)" for m
    by (rule has_target_cong [OF bspec [OF U(1) that]]) (use D(2) out(3) [OF that] in blast)
  ultimately show ?thesis using D(1) mem by blast
qed

section \<open>The clamped start\<close>

lemma minimum_anchor_fold:
  fixes least :: int
  defines "f \<equiv> \<lambda>m least. if mem_timeOffset m < ZERO_MEDIA_TIME
             then maxMediaTime least (subMediaTime ZERO_MEDIA_TIME (mem_timeOffset m)) else least"
  shows "least \<le> fold f ms least \<and> (0 \<le> least \<longrightarrow> (\<forall>m \<in> set ms. 0 \<le> fold f ms least + mem_timeOffset m))"
proof (induction ms arbitrary: least)
  case (Cons m ms)
  have "least \<le> f m least" "0 \<le> least \<Longrightarrow> 0 \<le> f m least + mem_timeOffset m" "0 \<le> least \<Longrightarrow> 0 \<le> f m least"
    by (auto simp: f_def maxMediaTime_def subMediaTime_def ZERO_MEDIA_TIME_def)
  then show ?case using Cons.IH [of "f m least"] by force
qed simp

lemma clampAnchorStart_ge: "minimum_anchor_start grp \<le> clampAnchorStartTime grp ts t targets"
  by (auto simp: clampAnchorStartTime_def Let_def maxMediaTime_def split: option.splits)

lemma clampAnchorStart_nonneg:
  "m \<in> set (members grp) \<Longrightarrow> 0 \<le> addMediaTime (clampAnchorStartTime grp ts t targets) (mem_timeOffset m)"
  using minimum_anchor_fold [of 0 "members grp"] clampAnchorStart_ge [of grp ts t targets]
  by (fastforce simp: minimum_anchor_start_def addMediaTime_def)

section \<open>The resolved moves\<close>

abbreviation move_ref :: "planned_move \<Rightarrow> element_ref" where
  "move_ref mv \<equiv> \<lparr>ref_trackId = sourceTrackId mv, ref_elementId = pm_elementId mv\<rparr>"

lemma element_ref_eta [simp]: "\<lparr>ref_trackId = ref_trackId x, ref_elementId = ref_elementId x\<rparr> = (x :: element_ref)"
  by (cases x) simp

text \<open>The moved copy of an element.\<close>

definition moved_element :: "scene_tracks \<Rightarrow> planned_move \<Rightarrow> timeline_element" where
  "moved_element ts mv = (case find_ref ts (move_ref mv) of
     None \<Rightarrow> undefined | Some (_, e) \<Rightarrow> e\<lparr>startTime := newStartTime mv\<rparr>)"

lemma validate_move_Inr:
  assumes "find_ref ts (move_ref mv) = Some (tr, e)" "tracks_ids_ok created"
    and "tr' \<in> set (orderedTracks created)" "trackId tr' = targetTrackId mv"
    and "trackType tr' = getTrackTypeForElementType (elementType e)"
  shows "validate_move ts created mv = Inr (moved_element ts mv)"
proof -
  have "findTrackInSceneTracks created (targetTrackId mv) = Some tr'"
    using assms(2-4) track_coll.lookup_distinct [of "orderedTracks created" tr']
    by (simp add: findTrack_lookup tracks_ids_ok_def)
  then show ?thesis using assms(1,5)
    by (simp add: validate_move_def moved_element_def validateElementTrackCompatibility_def canElementGoOnTrack_def)
qed

lemma sources_lookup:
  assumes "distinct (all_element_ids ts)" "tr \<in> set (orderedTracks ts)" "e \<in> set (elements tr)"
  shows "map_of (js_map (concat (map (\<lambda>tr. map (\<lambda>e. (elementId e, e)) (elements tr)) (orderedTracks ts)))) (elementId e)
    = Some e"
proof -
  let ?ps = "concat (map (\<lambda>tr. map (\<lambda>e. (elementId e, e)) (elements tr)) (orderedTracks ts))"
  have "map fst ?ps = all_element_ids ts" by (simp add: all_element_ids_def map_concat comp_def)
  then have d: "distinct (map fst ?ps)" using assms(1) by simp
  have "(elementId e, e) \<in> set ?ps" using assms(2,3) by auto
  then show ?thesis using d by (simp add: js_map_distinct map_of_is_SomeI)
qed

text \<open>The admission test of the code: on every target track the moved elements and the ones that stay
  are pairwise disjoint.\<close>

lemma canApply_fits:
  assumes c: "canApplyMovesToExistingTracks ts mvs" and u: "distinct (all_element_ids ts)"
    and ids: "tracks_ids_ok ts" and tr: "tr \<in> set (orderedTracks ts)"
    and src: "\<forall>mv \<in> set mvs. find_ref ts (move_ref mv) \<noteq> None"
    and pos: "\<forall>tr \<in> set (orderedTracks ts). \<forall>e \<in> set (elements tr). 0 \<le> duration e"
  shows "no_overlap (map (moved_element ts) (filter (\<lambda>mv. targetTrackId mv = trackId tr) mvs))
    \<and> (\<forall>x \<in> set (elements tr). elementId x \<notin> pm_elementId ` set mvs \<longrightarrow>
         (\<forall>mv \<in> set mvs. targetTrackId mv = trackId tr \<longrightarrow> elements_disjoint x (moved_element ts mv)))"
proof (cases "\<exists>mv \<in> set mvs. targetTrackId mv = trackId tr")
  case False
  then show ?thesis by (auto simp: no_overlap_def filter_empty_conv)
next
  case True
  let ?tm = "filter (\<lambda>mv. targetTrackId mv = trackId tr) mvs"
  let ?src = "js_map (concat (map (\<lambda>tr. map (\<lambda>e. (elementId e, e)) (elements tr)) (orderedTracks ts)))"
  have "(trackId tr, ?tm) \<in> set (group_by targetTrackId mvs)" using True by (simp add: in_group_by)
  then obtain p tr' where p: "getTrackPlacementById ts (trackId tr) = Some p"
    and tr': "js_at (orderedTracks ts) (tp_displayIndex p) = Some tr'"
    and ov: "\<not> hasOverlappingTimeSpans (map (move_span ?src) ?tm)"
    and fit: "canPlaceTimeSpansOnTrack (tr'\<lparr>elements := filter (\<lambda>e. elementId e \<notin> pm_elementId ` set mvs) (elements tr')\<rparr>)
        (map (move_span ?src) ?tm)"
    using c unfolding canApplyMovesToExistingTracks_def Let_def
    by (fastforce simp: list_all_iff split: option.splits)
  have "trackId tr' = trackId tr" using p tr' by (auto elim: getTrackPlacementById_Some)
  moreover have "tr' \<in> set (orderedTracks ts)" using js_at_Some [OF tr'] by simp
  ultimately have same: "tr' = tr" using ids tr by (auto simp: tracks_ids_ok_def distinct_map dest: inj_onD)
  have sp: "move_span ?src mv = \<lparr>sp_start = startTime (moved_element ts mv), sp_duration = duration (moved_element ts mv),
      sp_exclude = None\<rparr> \<and> 0 \<le> duration (moved_element ts mv)" if mv: "mv \<in> set mvs" for mv
  proof -
    obtain tr0 e where f: "find_ref ts (move_ref mv) = Some (tr0, e)" using src mv by fastforce
    note ff = find_ref_Some [OF f]
    have "map_of ?src (pm_elementId mv) = Some e" using sources_lookup [OF u ff(2,3)] ff(5) by simp
    then show ?thesis using f pos ff(2,3) by (simp add: move_span_def moved_element_def)
  qed
  have "sorted_wrt spans_disjoint (map (move_span ?src) ?tm)"
    using ov by (rule not_overlapping_spans) (auto simp: sp)
  then have "sorted_wrt (\<lambda>a b. spans_disjoint (move_span ?src a) (move_span ?src b)) ?tm" by (simp add: sorted_wrt_map)
  then have "sorted_wrt (\<lambda>a b. elements_disjoint (moved_element ts a) (moved_element ts b)) ?tm"
    by (rule sorted_wrt_mono_rel [rotated]) (simp add: sp elementEnd_def)
  then have "no_overlap (map (moved_element ts) ?tm)" by (simp add: no_overlap_def sorted_wrt_map)
  moreover have "elements_disjoint x (moved_element ts mv)"
    if "x \<in> set (elements tr)" "elementId x \<notin> pm_elementId ` set mvs" "mv \<in> set mvs" "targetTrackId mv = trackId tr" for x mv
  proof -
    have "move_span ?src mv \<in> set (map (move_span ?src) ?tm)" using that by simp
    moreover have "x \<in> set (elements (tr'\<lparr>elements := filter (\<lambda>e. elementId e \<notin> pm_elementId ` set mvs) (elements tr')\<rparr>))"
      using that same by simp
    ultimately show ?thesis using fit that(3) unfolding canPlace_iff by (fastforce simp: sp truthy_id_def elementEnd_def)
  qed
  ultimately show ?thesis by blast
qed

section \<open>Moves onto new tracks\<close>

abbreviation planned_empty :: "planned_track \<Rightarrow> track" where
  "planned_empty p \<equiv> buildEmptyTrack (pt_id p) (pt_type p) None"

lemma insertTrack_wf:
  assumes "tracks_wf ts" "trackId tr \<notin> trackId ` set (orderedTracks ts)" "elements tr = []"
  shows "tracks_wf (insertTrackAtDisplayIndex ts tr i)
    \<and> mset (orderedTracks (insertTrackAtDisplayIndex ts tr i)) = add_mset tr (mset (orderedTracks ts))"
proof -
  let ?ts = "insertTrackAtDisplayIndex ts tr i"
  have td: "mset (take j xs) + mset (drop j xs) = mset xs" for j and xs :: "track list"
    by (metis append_take_drop_id mset_append)
  have m: "mset (orderedTracks ?ts) = add_mset tr (mset (orderedTracks ts))"
    by (simp add: insertTrackAtDisplayIndex_def orderedTracks_def Let_def td)
  have td': "set (take j xs) \<subseteq> set xs" "set (drop j xs) \<subseteq> set xs" for j and xs :: "track list"
    by (simp_all add: set_take_subset set_drop_subset)
  have w: "tracks_ids_ok ?ts" "tracks_no_overlap ?ts" "list_all track_typed (orderedTracks ?ts)"
    using ordered_add_wf [OF assms(1) m assms(2)] assms(3) by (simp_all add: no_overlap_def track_typed_def)
  moreover have "tracks_typed ?ts"
    using assms(1) w(3) td' by (auto simp: tracks_wf_def tracks_typed_def list_all_iff insertTrackAtDisplayIndex_def Let_def
        dest!: subsetD [OF td'(1)] subsetD [OF td'(2)])
  ultimately show ?thesis using m by (simp add: tracks_wf_def)
qed

lemma create_planned_wf:
  assumes "tracks_wf ts" "distinct (map pt_id pts)" "pt_id ` set pts \<inter> trackId ` set (orderedTracks ts) = {}"
  shows "tracks_wf (create_planned_tracks pts ts)
    \<and> mset (orderedTracks (create_planned_tracks pts ts)) = mset (map planned_empty pts) + mset (orderedTracks ts)"
proof -
  define step where "step = (\<lambda>p acc. insertTrackAtDisplayIndex acc (planned_empty p) (pt_index p))"
  have gen: "tracks_wf (fold step ps ts)
      \<and> mset (orderedTracks (fold step ps ts)) = mset (map planned_empty ps) + mset (orderedTracks ts)"
    if "tracks_wf ts" "distinct (map pt_id ps)" "pt_id ` set ps \<inter> trackId ` set (orderedTracks ts) = {}" for ps ts
    using that
  proof (induction ps arbitrary: ts)
    case (Cons p ps)
    have i: "tracks_wf (step p ts)" "mset (orderedTracks (step p ts)) = add_mset (planned_empty p) (mset (orderedTracks ts))"
      using insertTrack_wf [of ts "planned_empty p" "pt_index p"] Cons.prems by (auto simp: step_def)
    have "set (orderedTracks (step p ts)) = insert (planned_empty p) (set (orderedTracks ts))"
      using arg_cong [OF i(2), of set_mset] by simp
    then have "tracks_wf (fold step ps (step p ts)) \<and> mset (orderedTracks (fold step ps (step p ts)))
        = mset (map planned_empty ps) + mset (orderedTracks (step p ts))"
      using Cons.prems i(1) by (intro Cons.IH) auto
    then show ?case using i(2) by simp
  qed simp
  have "distinct (map pt_id (sort_key pt_index pts))"
    using assms(2) mset_eq_imp_distinct_iff [of "map pt_id (sort_key pt_index pts)" "map pt_id pts"] by simp
  then show ?thesis using gen [of ts "sort_key pt_index pts"] assms(1,3)
    by (simp add: create_planned_tracks_def step_def)
qed

lemma distinct_filter_le1:
  "distinct (map f xs) \<Longrightarrow> filter (\<lambda>x. f x = k) xs = [] \<or> (\<exists>x \<in> set xs. f x = k \<and> filter (\<lambda>x. f x = k) xs = [x])"
proof (induction xs)
  case (Cons x xs)
  show ?case
  proof (cases "f x = k")
    case True
    then have "filter (\<lambda>x. f x = k) xs = []" using Cons.prems by (auto simp: filter_empty_conv image_iff)
    then show ?thesis using True by simp
  next
    case False
    then show ?thesis using Cons by auto
  qed
qed simp

section \<open>The shape of a resolved move\<close>

text \<open>Every member with its target track, moved to the clamped anchor start plus its offset.\<close>

abbreviation plan_move :: "media_time \<Rightarrow> group_member \<times> uuid \<Rightarrow> planned_move" where
  "plan_move start p \<equiv> \<lparr>sourceTrackId = ref_trackId (mem_ref (fst p)), targetTrackId = snd p,
     pm_elementId = member_id (fst p), newStartTime = addMediaTime start (mem_timeOffset (fst p))\<rparr>"

lemma map_zip_zip:
  "length xs = n \<Longrightarrow> n \<le> length ys \<Longrightarrow> map (\<lambda>(x, i, y). g x y) (zip xs (zip [a..<a + n] ys)) = map (\<lambda>p. g (fst p) (snd p)) (zip xs ys)"
  by (rule nth_equalityI) simp_all

lemma new_track_shape:
  assumes "resolveNewTrackMove grp ts t i ids = Some r"
  obtains start targets where "start = clampAnchorStartTime grp ts t targets"
    "length (members grp) \<le> length ids"
    "moves r = map (plan_move start) (zip (sort_key mem_displayIndex (members grp)) ids)"
    "map (\<lambda>p. (pt_id p, pt_type p)) (createTracks r)
       = map (\<lambda>p. (snd p, getTrackTypeForElementType (mem_elementType (fst p)))) (zip (sort_key mem_displayIndex (members grp)) ids)"
proof -
  let ?s = "sort_key mem_displayIndex (members grp)"
  let ?start = "clampAnchorStartTime grp ts t []"
  have l: "length ?s \<le> length ids"
    using assms unfolding resolveNewTrackMove_def Let_def by (auto split: option.splits if_splits)
  have m: "moves r = map (\<lambda>(m, i, nid). plan_move ?start (m, nid)) (zip ?s (zip [0..<0 + length ?s] ids))"
    using assms unfolding resolveNewTrackMove_def Let_def by (auto split: option.splits if_splits)
  have "map (\<lambda>p. (pt_id p, pt_type p)) (createTracks r)
      = map (\<lambda>(m, i, nid). (nid, getTrackTypeForElementType (mem_elementType m))) (zip ?s (zip [0..<0 + length ?s] ids))"
    using assms unfolding resolveNewTrackMove_def Let_def by (auto split: option.splits if_splits)
  moreover have "moves r = map (plan_move ?start) (zip ?s ids)"
    using m map_zip_zip [OF refl l, of "\<lambda>m nid. plan_move ?start (m, nid)" 0] by simp
  ultimately show ?thesis
    using that [of ?start "[]", OF refl] l map_zip_zip [OF refl l, of "\<lambda>m nid. (nid, getTrackTypeForElementType (mem_elementType m))" 0]
    by simp
qed

lemma existing_track_shape:
  assumes "resolveExistingTrackMove grp ts t tid = Some r"
  obtains p targets where "getTrackPlacementById ts tid = Some p"
    "resolveExistingTrackIdsByElementId grp ts (tp_displayIndex p) = Some targets"
    "moves r = map (plan_move (clampAnchorStartTime grp ts t targets)) (map (\<lambda>m. (m, case map_of targets (member_id m) of
        None \<Rightarrow> ref_trackId (mem_ref m) | Some x \<Rightarrow> x)) (members grp))"
    "createTracks r = []" "canApplyMovesToExistingTracks ts (moves r)"
  using assms unfolding resolveExistingTrackMove_def Let_def
  by (auto simp: comp_def split: option.splits if_splits)

lemma moves_shape:
  assumes "resolveGroupMove grp ts t target = Some r"
  obtains targets ps where "moves r = map (plan_move (clampAnchorStartTime grp ts t targets)) ps"
    "mset (map fst ps) = mset (members grp)"
proof (cases target)
  case (ToExistingTrack tid)
  then have "resolveExistingTrackMove grp ts t tid = Some r" using assms by (simp add: resolveGroupMove_def)
  then show ?thesis by (rule existing_track_shape) (rule that, assumption, simp add: comp_def)
next
  case (ToNewTracks i ids)
  let ?s = "sort_key mem_displayIndex (members grp)"
  have "resolveNewTrackMove grp ts t i ids = Some r" using assms ToNewTracks by (simp add: resolveGroupMove_def)
  then obtain targets where m: "moves r = map (plan_move (clampAnchorStartTime grp ts t targets)) (zip ?s ids)"
    and l: "length (members grp) \<le> length ids" by (rule new_track_shape) blast
  have "mset (map fst (zip ?s ids)) = mset (members grp)" using l by (simp add: map_fst_zip_take)
  then show ?thesis by (rule that [OF m])
qed

section \<open>Properties\<close>

text \<open>A resolved group move is rigid: one displacement applies to every moved element, and no element
  is moved before time zero. Every member of the group is moved, once.\<close>
theorem group_move_rigid:
  assumes "buildMoveGroup anchorRef selected ts = Some grp" "resolveGroupMove grp ts t target = Some r"
  shows "\<exists>d. list_all (\<lambda>mv. 0 \<le> newStartTime mv
        \<and> (\<exists>tr e. find_ref ts (move_ref mv) = Some (tr, e) \<and> newStartTime mv = startTime e + d)) (moves r)
    \<and> mset (map move_ref (moves r)) = mset (map mem_ref (members grp))"
proof -
  obtain t0 where mem: "\<forall>m \<in> set (members grp). \<exists>e. member_of ts t0 m e"
    using buildMoveGroup_members [OF assms(1)] by blast
  obtain targets ps where m: "moves r = map (plan_move (clampAnchorStartTime grp ts t targets)) ps"
    and ps: "mset (map fst ps) = mset (members grp)" using moves_shape [OF assms(2)] by blast
  let ?d = "clampAnchorStartTime grp ts t targets - t0"
  have "0 \<le> newStartTime mv \<and> (\<exists>tr e. find_ref ts (move_ref mv) = Some (tr, e) \<and> newStartTime mv = startTime e + ?d)"
    if mv_in: "mv \<in> set (moves r)" for mv
  proof -
    obtain p where p: "p \<in> set ps" and mv: "mv = plan_move (clampAnchorStartTime grp ts t targets) p"
      using mv_in unfolding m by auto
    have "fst p \<in> set (members grp)" using ps p by (metis image_eqI list.set_map set_mset_mset)
    moreover from this obtain e where "member_of ts t0 (fst p) e" using mem by blast
    ultimately show ?thesis using clampAnchorStart_nonneg [of "fst p" grp]
      by (auto simp: mv member_of_def addMediaTime_def)
  qed
  moreover have "map move_ref (moves r) = map mem_ref (map fst ps)" by (simp add: m comp_def)
  then have "mset (map move_ref (moves r)) = image_mset mem_ref (mset (map fst ps))" by (metis mset_map)
  then have "mset (map move_ref (moves r)) = mset (map mem_ref (members grp))" unfolding ps by simp
  ultimately show ?thesis by (auto simp: list_all_iff)
qed

lemma existing_move_applies:
  assumes wf: "tracks_wf ts" "distinct (all_element_ids ts)"
    and pos: "\<forall>tr \<in> set (orderedTracks ts). \<forall>e \<in> set (elements tr). 0 \<le> duration e"
    and g: "buildMoveGroup anchorRef selected ts = Some grp"
    and r: "resolveExistingTrackMove grp ts t (trackId tr0) = Some r"
    and tr0: "tr0 \<in> set (orderedTracks ts)" "trackType tr0 = getTrackTypeForElementType (mem_elementType (anchor grp))"
  shows "\<exists>ts'. moveElements (moves r) (createTracks r) ts = Inr ts' \<and> tracks_wf ts'"
proof -
  obtain t0 where mem: "\<forall>m \<in> set (members grp). \<exists>e. member_of ts t0 m e" and an: "anchor grp \<in> set (members grp)"
    and d: "distinct (map member_id (members grp))" using buildMoveGroup_members [OF g] by blast
  obtain p targets where p: "getTrackPlacementById ts (trackId tr0) = Some p"
    and tg: "resolveExistingTrackIdsByElementId grp ts (tp_displayIndex p) = Some targets"
    and m: "moves r = map (plan_move (clampAnchorStartTime grp ts t targets)) (map (\<lambda>m. (m, case map_of targets (member_id m) of
        None \<Rightarrow> ref_trackId (mem_ref m) | Some x \<Rightarrow> x)) (members grp))"
    and c: "createTracks r = []" "canApplyMovesToExistingTracks ts (moves r)"
    using existing_track_shape [OF r] by blast
  have ids: "tracks_ids_ok ts" using wf(1) by (simp add: tracks_wf_def)
  obtain tr where j: "js_at (orderedTracks ts) (tp_displayIndex p) = Some tr" and "trackId tr = trackId tr0"
    "tr \<in> set (orderedTracks ts)" using p by (auto elim: getTrackPlacementById_Some)
  then have "tr = tr0" using ids tr0(1) by (auto simp: tracks_ids_ok_def distinct_map dest: inj_onD)
  then have ht: "\<forall>m \<in> set (members grp). has_target ts targets m" using existing_targets [OF tg d an j] tr0(2) by simp
  have v: "validate_move ts ts mv = Inr (moved_element ts mv)" "find_ref ts (move_ref mv) \<noteq> None"
    if mv: "mv \<in> set (moves r)" for mv
  proof -
    obtain mb where mb: "mb \<in> set (members grp)" "move_ref mv = mem_ref mb"
      "targetTrackId mv = (case map_of targets (member_id mb) of None \<Rightarrow> ref_trackId (mem_ref mb) | Some x \<Rightarrow> x)"
      using mv unfolding m by auto
    obtain tr e where f: "find_ref ts (mem_ref mb) = Some (tr, e)" "mem_elementType mb = elementType e"
      using mem mb(1) by (auto simp: member_of_def)
    obtain tr' where "tr' \<in> set (orderedTracks ts)" "map_of targets (member_id mb) = Some (trackId tr')"
      "trackType tr' = getTrackTypeForElementType (mem_elementType mb)" using ht mb(1) by (auto simp: has_target_def)
    then show "validate_move ts ts mv = Inr (moved_element ts mv)" using f mb(2,3) ids
      by (intro validate_move_Inr [of ts mv tr e ts tr']) simp_all
    show "find_ref ts (move_ref mv) \<noteq> None" using f(1) mb(2) by simp
  qed
  have dm: "distinct (map pm_elementId (moves r))" using d by (simp add: m comp_def)
  have cr: "ts = create_planned_tracks (createTracks r) ts" using c(1) by (simp add: create_planned_tracks_def)
  have "\<exists>ts'. moveElements (moves r) (createTracks r) ts = Inr ts' \<and> tracks_wf ts'
      \<and> orderedTracks ts' = map (\<lambda>tr. tr\<lparr>elements := filter (\<lambda>e. elementId e \<notin> pm_elementId ` set (moves r)) (elements tr)
          @ map (moved_element ts) (filter (\<lambda>mv. targetTrackId mv = trackId tr) (moves r))\<rparr>) (orderedTracks ts)"
  proof (rule moveElements_wf [OF wf(1) cr dm])
    show "\<forall>mv \<in> set (moves r). validate_move ts ts mv = Inr (moved_element ts mv)" using v(1) by blast
    fix tr assume "tr \<in> set (orderedTracks ts)"
    then show "no_overlap (map (moved_element ts) (filter (\<lambda>mv. targetTrackId mv = trackId tr) (moves r)))
      \<and> (\<forall>x \<in> set (elements tr). elementId x \<notin> pm_elementId ` set (moves r) \<longrightarrow>
         (\<forall>mv \<in> set (moves r). targetTrackId mv = trackId tr \<longrightarrow> elements_disjoint x (moved_element ts mv)))"
      using v(2) by (intro canApply_fits [OF c(2) wf(2) ids _ _ pos]) auto
  qed
  then show ?thesis by blast
qed

lemma new_track_move_applies:
  assumes wf: "tracks_wf ts" and g: "buildMoveGroup anchorRef selected ts = Some grp"
    and r: "resolveNewTrackMove grp ts t i newIds = Some r"
    and fresh: "distinct newIds" "set newIds \<inter> trackId ` set (orderedTracks ts) = {}"
  shows "\<exists>ts'. moveElements (moves r) (createTracks r) ts = Inr ts' \<and> tracks_wf ts'"
proof -
  let ?s = "sort_key mem_displayIndex (members grp)"
  obtain t0 where mem: "\<forall>m \<in> set (members grp). \<exists>e. member_of ts t0 m e"
    and d: "distinct (map member_id (members grp))" using buildMoveGroup_members [OF g] by blast
  obtain start where l: "length (members grp) \<le> length newIds" and m: "moves r = map (plan_move start) (zip ?s newIds)"
    and c: "map (\<lambda>p. (pt_id p, pt_type p)) (createTracks r)
       = map (\<lambda>p. (snd p, getTrackTypeForElementType (mem_elementType (fst p)))) (zip ?s newIds)"
    using new_track_shape [OF r] by blast
  define created where "created = create_planned_tracks (createTracks r) ts"
  have snd: "map snd (zip ?s newIds) = take (length ?s) newIds" using l by (simp add: map_snd_zip_take)
  have pid: "map pt_id (createTracks r) = map snd (zip ?s newIds)" using arg_cong [OF c, of "map fst"] by (simp add: comp_def)
  have "distinct (map pt_id (createTracks r))" unfolding pid snd using fresh(1) by (rule distinct_take)
  moreover have "pt_id ` set (createTracks r) \<subseteq> set newIds"
    using arg_cong [OF pid, of set] unfolding snd by (simp add: set_take_subset)
  then have "pt_id ` set (createTracks r) \<inter> trackId ` set (orderedTracks ts) = {}" using fresh(2) by blast
  ultimately have cwf: "tracks_wf created"
      "mset (orderedTracks created) = mset (map planned_empty (createTracks r)) + mset (orderedTracks ts)"
    unfolding created_def using create_planned_wf [OF wf] by blast+
  have cset: "set (orderedTracks created) = planned_empty ` set (createTracks r) \<union> set (orderedTracks ts)"
    using arg_cong [OF cwf(2), of set_mset] by simp
  have ids: "tracks_ids_ok created" using cwf(1) by (simp add: tracks_wf_def)
  have v: "validate_move ts created mv = Inr (moved_element ts mv)" if mv_in: "mv \<in> set (moves r)" for mv
  proof -
    obtain p where p: "p \<in> set (zip ?s newIds)" "mv = plan_move start p" using mv_in unfolding m by auto
    then have "fst p \<in> set (members grp)" by (metis in_set_zipE prod.collapse set_sort)
    then obtain tr e where f: "find_ref ts (mem_ref (fst p)) = Some (tr, e)" "mem_elementType (fst p) = elementType e"
      using mem by (auto simp: member_of_def)
    have "(snd p, getTrackTypeForElementType (mem_elementType (fst p))) \<in> (\<lambda>p. (pt_id p, pt_type p)) ` set (createTracks r)"
      using arg_cong [OF c, of set] p(1) by force
    then obtain q where "q \<in> set (createTracks r)" "pt_id q = snd p"
      "pt_type q = getTrackTypeForElementType (mem_elementType (fst p))" by auto
    moreover from this have "planned_empty q \<in> set (orderedTracks created)" unfolding cset by blast
    ultimately show ?thesis using f p(2) ids by (intro validate_move_Inr [of ts mv tr e created "planned_empty q"]) simp_all
  qed
  have "map pm_elementId (moves r) = map member_id (map fst (zip ?s newIds))" by (simp add: m comp_def)
  also have "map fst (zip ?s newIds) = ?s" using l by (simp add: map_fst_zip_take)
  finally have dm: "distinct (map pm_elementId (moves r))"
    using d mset_eq_imp_distinct_iff [of "map member_id ?s" "map member_id (members grp)"] by simp
  have "map targetTrackId (moves r) = map snd (zip ?s newIds)" by (simp add: m comp_def)
  then have dt: "distinct (map targetTrackId (moves r))" "targetTrackId ` set (moves r) \<subseteq> set newIds"
    unfolding snd using distinct_take [OF fresh(1)] by (simp, metis list.set_map set_take_subset)
  have "\<exists>ts'. moveElements (moves r) (createTracks r) ts = Inr ts' \<and> tracks_wf ts'
      \<and> orderedTracks ts' = map (\<lambda>tr. tr\<lparr>elements := filter (\<lambda>e. elementId e \<notin> pm_elementId ` set (moves r)) (elements tr)
          @ map (moved_element ts) (filter (\<lambda>mv. targetTrackId mv = trackId tr) (moves r))\<rparr>) (orderedTracks created)"
  proof (rule moveElements_wf [OF cwf(1) created_def dm])
    show "\<forall>mv \<in> set (moves r). validate_move ts created mv = Inr (moved_element ts mv)" using v by blast
    fix tr assume tr: "tr \<in> set (orderedTracks created)"
    have "no_overlap (map (moved_element ts) (filter (\<lambda>mv. targetTrackId mv = trackId tr) (moves r)))"
      using distinct_filter_le1 [OF dt(1), of "trackId tr"] by (auto simp: no_overlap_def)
    moreover have "elements tr = []" if "mv \<in> set (moves r)" "targetTrackId mv = trackId tr" for mv
    proof -
      have "trackId tr \<in> set newIds" using dt(2) that by auto
      then have "tr \<notin> set (orderedTracks ts)" using fresh(2) by blast
      then show ?thesis using tr cset by auto
    qed
    ultimately show "no_overlap (map (moved_element ts) (filter (\<lambda>mv. targetTrackId mv = trackId tr) (moves r)))
      \<and> (\<forall>x \<in> set (elements tr). elementId x \<notin> pm_elementId ` set (moves r) \<longrightarrow>
         (\<forall>mv \<in> set (moves r). targetTrackId mv = trackId tr \<longrightarrow> elements_disjoint x (moved_element ts mv)))"
      by fastforce
  qed
  then show ?thesis by blast
qed

text \<open>C22: A group move the resolver accepts can be carried out: on a well-formed timeline with unique element
  ids the move command does not throw and leaves a well-formed timeline, no two elements of a track
  overlapping, whether the group moves onto existing tracks (the anchor's target being of the type the
  anchor needs) or onto new ones (with distinct fresh ids).\<close>
theorem resolved_group_move_applies:
  assumes "tracks_wf ts" "distinct (all_element_ids ts)"
    and "\<forall>tr \<in> set (orderedTracks ts). \<forall>e \<in> set (elements tr). 0 \<le> duration e"
    and "buildMoveGroup anchorRef selected ts = Some grp" "resolveGroupMove grp ts t target = Some r"
    and "case target of
        ToExistingTrack tid \<Rightarrow> (\<exists>tr \<in> set (orderedTracks ts). trackId tr = tid
          \<and> trackType tr = getTrackTypeForElementType (mem_elementType (anchor grp)))
      | ToNewTracks i ids \<Rightarrow> distinct ids \<and> set ids \<inter> trackId ` set (orderedTracks ts) = {}"
  shows "\<exists>ts'. moveElements (moves r) (createTracks r) ts = Inr ts' \<and> tracks_wf ts'"
proof (cases target)
  case (ToExistingTrack tid)
  then show ?thesis using assms by (auto simp: resolveGroupMove_def intro: existing_move_applies)
next
  case (ToNewTracks i ids)
  then show ?thesis using assms by (auto simp: resolveGroupMove_def intro: new_track_move_applies)
qed

section \<open>Witnesses\<close>

definition demo_anchor :: element_ref where "demo_anchor = \<lparr>ref_trackId = ''m'', ref_elementId = ''v''\<rparr>"
definition demo_selection :: "element_ref list" where
  "demo_selection = [demo_anchor, \<lparr>ref_trackId = ''o'', ref_elementId = ''t''\<rparr>]"

lemma demo_move_resolves:
  "case buildMoveGroup demo_anchor demo_selection demo_tracks of None \<Rightarrow> False
   | Some g \<Rightarrow> (case resolveGroupMove g demo_tracks 5 (ToNewTracks 0 [''n1'', ''n2'']) of None \<Rightarrow> False
       | Some r \<Rightarrow> map newStartTime (moves r) = [0, 20])"
  by code_simp

lemma demo_all_ids: "distinct (all_element_ids demo_tracks)"
  by (simp add: all_element_ids_def demo_tracks_def orderedTracks_def demo_element_def)

theorem group_move_rigid_witness:
  "case buildMoveGroup demo_anchor demo_selection demo_tracks of None \<Rightarrow> False
   | Some g \<Rightarrow> (case resolveGroupMove g demo_tracks 5 (ToNewTracks 0 [''n1'', ''n2'']) of None \<Rightarrow> False
       | Some r \<Rightarrow> \<exists>d. list_all (\<lambda>mv. 0 \<le> newStartTime mv
            \<and> (\<exists>tr e. find_ref demo_tracks (move_ref mv) = Some (tr, e) \<and> newStartTime mv = startTime e + d)) (moves r)
          \<and> mset (map move_ref (moves r)) = mset (map mem_ref (members g)))"
  using demo_move_resolves group_move_rigid by (auto split: option.splits)

theorem resolved_group_move_applies_witness:
  "case buildMoveGroup demo_anchor demo_selection demo_tracks of None \<Rightarrow> False
   | Some g \<Rightarrow> (case resolveGroupMove g demo_tracks 5 (ToNewTracks 0 [''n1'', ''n2'']) of None \<Rightarrow> False
       | Some r \<Rightarrow> \<exists>ts'. moveElements (moves r) (createTracks r) demo_tracks = Inr ts' \<and> tracks_wf ts')"
proof -
  obtain g r where g: "buildMoveGroup demo_anchor demo_selection demo_tracks = Some g"
    and r: "resolveGroupMove g demo_tracks 5 (ToNewTracks 0 [''n1'', ''n2'']) = Some r"
    using demo_move_resolves by (auto split: option.splits)
  have "\<exists>ts'. moveElements (moves r) (createTracks r) demo_tracks = Inr ts' \<and> tracks_wf ts'"
    by (rule resolved_group_move_applies [OF demo_tracks_wf demo_all_ids _ g r])
      (simp_all add: demo_tracks_def demo_element_def orderedTracks_def)
  then show ?thesis by (simp add: g r)
qed

end
