(* ===== verification/Selection.thy ===== *)
theory Selection
  imports Timeline
begin

text \<open>
  The two selection models of the editor: the generic list selection with an anchor
  (\<open>selection/state.ts\<close>), and the editor-wide selection of elements, keyframes and mask points with
  its snapshots and patches (\<open>selection/editor-selection.ts\<close>, \<open>core/managers/selection-manager.ts\<close>;
  listeners are left out).
\<close>

section \<open>List selection\<close>

record selection_state =
  selectedIds :: "uuid list"
  anchorId :: "uuid option"

definition last_opt :: "'a list \<Rightarrow> 'a option" where
  "last_opt xs = js_at xs (int (length xs) - 1)"

definition dedupeIds :: "uuid list \<Rightarrow> uuid list" where
  "dedupeIds ids = dedupe ids"

definition getRangeIds :: "uuid list \<Rightarrow> uuid \<Rightarrow> uuid \<Rightarrow> uuid list" where
  "getRangeIds orderedIds anc target =
     (case (findIndex (\<lambda>x. x = anc) orderedIds, findIndex (\<lambda>x. x = target) orderedIds) of
        (Some i, Some j) \<Rightarrow> take (Suc (max i j) - min i j) (drop (min i j) orderedIds)
      | _ \<Rightarrow> [target])"

definition replaceSelection :: "uuid list \<Rightarrow> uuid option \<Rightarrow> selection_state" where
  "replaceSelection ids anc =
     (let sel = dedupeIds ids
      in \<lparr>selectedIds = sel, anchorId = (case anc of Some a \<Rightarrow> Some a | None \<Rightarrow> last_opt sel)\<rparr>)"

definition clearSelection :: selection_state where
  "clearSelection = \<lparr>selectedIds = [], anchorId = None\<rparr>"

text \<open>\<open>state.anchorId && validIds.has(state.anchorId)\<close>: the empty string is falsy.\<close>

definition pruneSelection :: "selection_state \<Rightarrow> uuid list \<Rightarrow> selection_state" where
  "pruneSelection s orderedIds =
     (let sel = filter (\<lambda>x. x \<in> set orderedIds) (selectedIds s);
          anc = (case anchorId s of
                   Some a \<Rightarrow> if a \<noteq> [] \<and> a \<in> set orderedIds then Some a else last_opt sel
                 | None \<Rightarrow> last_opt sel)
      in if length sel = length (selectedIds s) \<and> anc = anchorId s then s
         else \<lparr>selectedIds = sel, anchorId = anc\<rparr>)"

definition isSelected :: "selection_state \<Rightarrow> uuid \<Rightarrow> bool" where
  "isSelected s x \<longleftrightarrow> x \<in> set (selectedIds s)"

definition toggleSelection :: "selection_state \<Rightarrow> uuid \<Rightarrow> selection_state" where
  "toggleSelection s x =
     (if isSelected s x
      then let sel = filter (\<lambda>y. y \<noteq> x) (selectedIds s)
           in replaceSelection sel (if anchorId s = Some x then last_opt sel else anchorId s)
      else replaceSelection (selectedIds s @ [x]) (Some x))"

definition selectRange :: "selection_state \<Rightarrow> uuid list \<Rightarrow> uuid \<Rightarrow> bool \<Rightarrow> selection_state" where
  "selectRange s orderedIds target isAdditive =
     (let anc = (case anchorId s of Some a \<Rightarrow> a
                 | None \<Rightarrow> (case last_opt (selectedIds s) of Some a \<Rightarrow> a | None \<Rightarrow> target));
          range = getRangeIds orderedIds anc target
      in replaceSelection (if isAdditive then dedupeIds (selectedIds s @ range) else range) (Some anc))"

definition applyBoxSelection :: "uuid list \<Rightarrow> uuid list \<Rightarrow> uuid option \<Rightarrow> bool \<Rightarrow> selection_state" where
  "applyBoxSelection intersected initialIds initialAnchor isAdditive =
     replaceSelection (if isAdditive then dedupeIds (initialIds @ intersected) else intersected)
       (if isAdditive then (case initialAnchor of Some a \<Rightarrow> Some a | None \<Rightarrow> last_opt intersected)
        else last_opt intersected)"

section \<open>Editor selection\<close>

record keyframe_ref =
  kr_trackId :: uuid
  kr_elementId :: uuid
  kr_propertyPath :: string
  kr_keyframeId :: uuid

record mask_point_selection =
  mp_trackId :: uuid
  mp_elementId :: uuid
  mp_maskId :: uuid
  mp_pointIds :: "uuid list"

record editor_selection =
  selectedElements :: "element_ref list"
  selectedKeyframes :: "keyframe_ref list"
  keyframeSelectionAnchor :: "keyframe_ref option"
  selectedMaskPoints :: "mask_point_selection option"

text \<open>A patch: \<open>None\<close> is a property that is left out, \<open>Some None\<close> an explicit \<open>null\<close>.\<close>

record selection_patch =
  p_elements :: "element_ref list option"
  p_keyframes :: "keyframe_ref list option"
  p_anchor :: "keyframe_ref option option"
  p_maskPoints :: "mask_point_selection option option"

datatype selection_kind = MaskPointsKind | KeyframesKind | ElementsKind

definition empty_selection :: editor_selection where
  "empty_selection = \<lparr>selectedElements = [], selectedKeyframes = [], keyframeSelectionAnchor = None,
     selectedMaskPoints = None\<rparr>"

definition getActiveSelectionKind :: "editor_selection \<Rightarrow> selection_kind option" where
  "getActiveSelectionKind s =
     (if (case selectedMaskPoints s of None \<Rightarrow> 0 | Some m \<Rightarrow> length (mp_pointIds m)) > 0 then Some MaskPointsKind
      else if length (selectedKeyframes s) > 0 then Some KeyframesKind
      else if length (selectedElements s) > 0 then Some ElementsKind else None)"

definition setSelectedElements :: "element_ref list \<Rightarrow> editor_selection \<Rightarrow> editor_selection" where
  "setSelectedElements es s = \<lparr>selectedElements = es, selectedKeyframes = [], keyframeSelectionAnchor = None,
     selectedMaskPoints = None\<rparr>"

text \<open>The optional \<open>anchorKeyframe\<close>: \<open>None\<close> is \<open>undefined\<close>, \<open>Some None\<close> is \<open>null\<close>.\<close>

definition setSelectedKeyframes ::
    "keyframe_ref list \<Rightarrow> keyframe_ref option option \<Rightarrow> editor_selection \<Rightarrow> editor_selection" where
  "setSelectedKeyframes ks anc s = s\<lparr>selectedKeyframes := ks,
     keyframeSelectionAnchor := (case anc of Some a \<Rightarrow> a
        | None \<Rightarrow> if length ks = 0 then None else keyframeSelectionAnchor s),
     selectedMaskPoints := None\<rparr>"

definition setSelectedMaskPoints :: "mask_point_selection option \<Rightarrow> editor_selection \<Rightarrow> editor_selection" where
  "setSelectedMaskPoints m s = s\<lparr>selectedMaskPoints :=
       (case m of Some p \<Rightarrow> if length (mp_pointIds p) > 0 then Some p else None | None \<Rightarrow> None),
     selectedKeyframes := [], keyframeSelectionAnchor := None\<rparr>"

definition clearEditorSelection :: "editor_selection \<Rightarrow> editor_selection" where
  "clearEditorSelection s = empty_selection"

definition clearKeyframeSelection :: "editor_selection \<Rightarrow> editor_selection" where
  "clearKeyframeSelection s = s\<lparr>selectedKeyframes := [], keyframeSelectionAnchor := None\<rparr>"

definition clearMaskPointSelection :: "editor_selection \<Rightarrow> editor_selection" where
  "clearMaskPointSelection s = s\<lparr>selectedMaskPoints := None\<rparr>"

definition clearMostSpecificSelection :: "editor_selection \<Rightarrow> editor_selection \<times> bool" where
  "clearMostSpecificSelection s =
     (case getActiveSelectionKind s of
        Some MaskPointsKind \<Rightarrow> (clearMaskPointSelection s, True)
      | Some KeyframesKind \<Rightarrow> (clearKeyframeSelection s, True)
      | Some ElementsKind \<Rightarrow> (setSelectedElements [] s, True)
      | None \<Rightarrow> (s, False))"

text \<open>A snapshot is a copy of the state; values are immutable here.\<close>

definition applySelectionPatch :: "selection_patch \<Rightarrow> editor_selection \<Rightarrow> editor_selection" where
  "applySelectionPatch p s =
     \<lparr>selectedElements = (case p_elements p of None \<Rightarrow> selectedElements s | Some es \<Rightarrow> es),
      selectedKeyframes = (case p_keyframes p of None \<Rightarrow> selectedKeyframes s | Some ks \<Rightarrow> ks),
      keyframeSelectionAnchor = (case p_anchor p of None \<Rightarrow> keyframeSelectionAnchor s | Some a \<Rightarrow> a),
      selectedMaskPoints = (case p_maskPoints p of None \<Rightarrow> selectedMaskPoints s | Some m \<Rightarrow> m)\<rparr>"

definition restoreSnapshot :: "editor_selection \<Rightarrow> editor_selection \<Rightarrow> editor_selection" where
  "restoreSnapshot snapshot s = snapshot"

text \<open>\<open>createElementSelectionResult\<close> of \<open>commands/base-command.ts\<close>.\<close>

definition createElementSelectionResult :: "element_ref list \<Rightarrow> selection_patch" where
  "createElementSelectionResult es =
     \<lparr>p_elements = Some es, p_keyframes = Some [], p_anchor = Some None, p_maskPoints = Some None\<rparr>"

section \<open>Lemmas\<close>

lemma last_opt_simps [simp]: "last_opt [] = None" "xs \<noteq> [] \<Longrightarrow> last_opt xs = Some (last xs)"
proof -
  have "nat (int n - 1) = n - 1" for n by simp
  then show "last_opt [] = None" "xs \<noteq> [] \<Longrightarrow> last_opt xs = Some (last xs)"
    by (simp_all add: last_opt_def js_at_def last_conv_nth Suc_le_eq)
qed

lemma replaceSelection_ids [simp]: "set (selectedIds (replaceSelection ids a)) = set ids"
  "distinct (selectedIds (replaceSelection ids a))"
  by (simp_all add: replaceSelection_def dedupeIds_def Let_def)


text \<open>A selection is sound when no id is selected twice and a non-empty selection has an anchor.\<close>

definition selection_ok :: "selection_state \<Rightarrow> bool" where
  "selection_ok s \<longleftrightarrow> distinct (selectedIds s) \<and> (selectedIds s \<noteq> [] \<longrightarrow> anchorId s \<noteq> None)"

lemma replaceSelection_ok: "selection_ok (replaceSelection ids a)"
  by (cases "dedupe ids = []") (auto simp: selection_ok_def replaceSelection_def dedupeIds_def Let_def split: option.splits)

lemma pruneSelection_ok:
  assumes "selection_ok s"
  shows "selection_ok (pruneSelection s ids) \<and> set (selectedIds (pruneSelection s ids)) = set (selectedIds s) \<inter> set ids"
proof -
  let ?sel = "filter (\<lambda>x. x \<in> set ids) (selectedIds s)"
  have "selectedIds (pruneSelection s ids) = ?sel"
  proof (cases "length ?sel = length (selectedIds s)")
    case True
    then have "selectedIds s = ?sel" by (metis length_filter_less filter_True order_less_irrefl)
    then show ?thesis by (auto simp: pruneSelection_def Let_def)
  qed (auto simp: pruneSelection_def Let_def)
  then have "set (selectedIds (pruneSelection s ids)) = set (selectedIds s) \<inter> set ids" by auto
  moreover have "selection_ok (pruneSelection s ids)" using assms
    by (cases "?sel = []") (auto simp: selection_ok_def pruneSelection_def Let_def split: option.splits)
  ultimately show ?thesis by simp
qed

lemma findIndex_nth: "distinct xs \<Longrightarrow> findIndex (\<lambda>x. x = a) xs = Some i \<longleftrightarrow> i < length xs \<and> xs ! i = a"
  by (auto simp: findIndex_Some_iff nth_eq_iff_index_eq)

lemma findIndex_ex: "a \<in> set xs \<Longrightarrow> \<exists>i. findIndex (\<lambda>x. x = a) xs = Some i"
  by (cases "findIndex (\<lambda>x. x = a) xs") (auto simp: findIndex_None_iff)

lemma range_index: "i < length xs \<Longrightarrow> j < length xs \<Longrightarrow>
   x \<in> set (take (Suc (max i j) - min i j) (drop (min i j) xs)) \<longleftrightarrow> (\<exists>k. min i j \<le> k \<and> k \<le> max i j \<and> xs ! k = x)"
proof -
  assume ij: "i < length xs" "j < length xs"
  let ?l = "min i j" and ?n = "Suc (max i j) - min i j"
  have len: "length (take ?n (drop ?l xs)) = ?n" using ij by auto
  have "x \<in> set (take ?n (drop ?l xs)) \<longleftrightarrow> (\<exists>m < ?n. xs ! (?l + m) = x)"
    unfolding in_set_conv_nth len using ij by auto
  also have "\<dots> \<longleftrightarrow> (\<exists>k. ?l \<le> k \<and> k \<le> max i j \<and> xs ! k = x)"
  proof
    assume "\<exists>m < ?n. xs ! (?l + m) = x"
    then obtain m where "m < ?n" "xs ! (?l + m) = x" by blast
    then show "\<exists>k. ?l \<le> k \<and> k \<le> max i j \<and> xs ! k = x" by (intro exI [of _ "?l + m"]) auto
  next
    assume "\<exists>k. ?l \<le> k \<and> k \<le> max i j \<and> xs ! k = x"
    then obtain k where "?l \<le> k" "k \<le> max i j" "xs ! k = x" by blast
    then show "\<exists>m < ?n. xs ! (?l + m) = x" by (intro exI [of _ "k - ?l"]) auto
  qed
  finally show ?thesis .
qed

section \<open>Properties\<close>

text \<open>Every list-selection operation yields a sound selection: no id twice, and an anchor whenever
  something is selected. Toggling flips membership of exactly the given id, and pruning keeps
  exactly the selected ids that still exist.\<close>
theorem selection_operations_sound:
  assumes "selection_ok s"
  shows "list_all selection_ok [replaceSelection ids a, clearSelection, pruneSelection s ids, toggleSelection s x,
        selectRange s ids x add, applyBoxSelection ids initial a add]
    \<and> set (selectedIds (toggleSelection s x)) = (if isSelected s x then set (selectedIds s) - {x} else insert x (set (selectedIds s)))
    \<and> set (selectedIds (pruneSelection s ids)) = set (selectedIds s) \<inter> set ids"
  using pruneSelection_ok [OF assms, of ids]
  by (auto simp: replaceSelection_ok selectRange_def applyBoxSelection_def toggleSelection_def Let_def clearSelection_def)
    (simp_all add: selection_ok_def)

theorem selection_operations_sound_witness:
  "set (selectedIds (toggleSelection \<lparr>selectedIds = [''a'', ''b''], anchorId = Some ''b''\<rparr> ''a'')) = {''b''}"
  using selection_operations_sound [of "\<lparr>selectedIds = [''a'', ''b''], anchorId = Some ''b''\<rparr>" "[]" None "''a''" False "[]"]
  by (auto simp: selection_ok_def isSelected_def)

text \<open>A range selection selects exactly the ids between the anchor and the target in display order,
  both included (and what was selected before, when additive), and keeps the anchor, so a further
  range pivots on it.\<close>
theorem selectRange_between:
  assumes "distinct orderedIds" "anchorId s = Some a" "orderedIds ! i = a" "orderedIds ! j = target"
    and "i < length orderedIds" "j < length orderedIds"
  shows "set (selectedIds (selectRange s orderedIds target add))
      = (if add then set (selectedIds s) else {}) \<union> {orderedIds ! k | k. min i j \<le> k \<and> k \<le> max i j}
    \<and> anchorId (selectRange s orderedIds target add) = Some a"
proof -
  have "findIndex (\<lambda>x. x = a) orderedIds = Some i" "findIndex (\<lambda>x. x = target) orderedIds = Some j"
    using assms by (simp_all add: findIndex_nth)
  then have r: "getRangeIds orderedIds a target = take (Suc (max i j) - min i j) (drop (min i j) orderedIds)"
    by (simp add: getRangeIds_def)
  have "set (getRangeIds orderedIds a target) = {orderedIds ! k | k. min i j \<le> k \<and> k \<le> max i j}"
    unfolding r using range_index [OF assms(5,6)] by (auto simp: set_eq_iff)
  then show ?thesis using assms(2)
    by (auto simp: selectRange_def Let_def dedupeIds_def) (simp_all add: replaceSelection_def Let_def)
qed

theorem selectRange_between_witness:
  "set (selectedIds (selectRange \<lparr>selectedIds = [''c''], anchorId = Some ''c''\<rparr> [''a'', ''b'', ''c'', ''d''] ''b'' False))
    = {[''a'', ''b'', ''c'', ''d''] ! k | k. (1 :: nat) \<le> k \<and> k \<le> 2}"
  using selectRange_between [of "[''a'', ''b'', ''c'', ''d'']" "\<lparr>selectedIds = [''c''], anchorId = Some ''c''\<rparr>" "''c''" 2 1 "''b''" False]
  by (simp add: numeral_2_eq_2)

end
