(* ===== verification/Element_Commands.thy ===== *)
theory Element_Commands
  imports Update_Pipeline Group_Move Selection
begin

text \<open>
  What the timeline commands compute from the tracks they find (\<open>commands/timeline/element/\<close>:
  delete, split, duplicate, update, move; \<open>commands/timeline/track/\<close>: add, remove, mute, hide). The
  calls of \<open>generateUUID\<close> draw from a supply \<open>gen\<close>, with a counter that is threaded in the order
  the code calls it.
\<close>

section \<open>Outcomes\<close>

text \<open>What \<open>execute\<close> does: the argument of \<open>updateTracks\<close>, when it is called, and the selection it returns.\<close>

record outcome =
  out_tracks :: "scene_tracks option"
  out_selection :: "selection_patch option"

abbreviation unchanged :: outcome where
  "unchanged \<equiv> \<lparr>out_tracks = None, out_selection = None\<rparr>"

abbreviation updated :: "scene_tracks \<Rightarrow> selection_patch option \<Rightarrow> outcome" where
  "updated ts sel \<equiv> \<lparr>out_tracks = Some ts, out_selection = sel\<rparr>"

section \<open>Deleting (\<open>delete-elements.ts\<close>)\<close>

definition removeTrackElements :: "element_ref list \<Rightarrow> track \<Rightarrow> track" where
  "removeTrackElements refs tr = tr\<lparr>elements :=
     filter (\<lambda>e. \<not> list_ex (\<lambda>r. ref_trackId r = trackId tr \<and> ref_elementId r = elementId e) refs) (elements tr)\<rparr>"

definition deleteElements :: "element_ref list \<Rightarrow> scene_tracks \<Rightarrow> outcome" where
  "deleteElements refs ts =
     updated \<lparr>overlay = map (removeTrackElements refs) (overlay ts), main = removeTrackElements refs (main ts),
              audio = map (removeTrackElements refs) (audio ts)\<rparr>
       (Some (createElementSelectionResult []))"

section \<open>Splitting (\<open>split-elements.ts\<close>)\<close>

datatype retain_side = RetainBoth | RetainLeft | RetainRight

text \<open>One element: the elements that replace it, the ids of the right halves, and the counter.\<close>

definition split_element ::
    "(nat \<Rightarrow> uuid) \<Rightarrow> retain_side \<Rightarrow> media_time \<Rightarrow> nat \<Rightarrow> timeline_element \<Rightarrow>
     timeline_element list \<times> uuid list \<times> nat" where
  "split_element gen side t n e =
     (if t \<le> startTime e \<or> t \<ge> startTime e + duration e then ([e], [], n)
      else
        let relativeTime = subMediaTime t (startTime e);
            rightDuration = subMediaTime (duration e) relativeTime;
            retimeRef = (if isRetimableElement e then retime e else None);
            leftSourceSpan = roundMediaTime (getSourceSpanAtClipTime (of_int relativeTime) retimeRef);
            totalSourceSpan = roundMediaTime (getSourceSpanAtClipTime (of_int (duration e)) retimeRef);
            rightSourceSpan = subMediaTime totalSourceSpan leftSourceSpan;
            ((leftAnims, rightAnims), n') = splitAnimationsAtTime gen n (animations e) relativeTime True;
            left = e\<lparr>duration := relativeTime, trimEnd := addMediaTime (trimEnd e) rightSourceSpan,
                     elementName := elementName e @ '' (left)'', animations := leftAnims\<rparr>;
            right = e\<lparr>elementId := gen n', startTime := t, duration := rightDuration,
                      trimStart := addMediaTime (trimStart e) leftSourceSpan,
                      elementName := elementName e @ '' (right)'', animations := rightAnims\<rparr>
        in case side of
             RetainLeft \<Rightarrow> ([left], [], n')
           | RetainRight \<Rightarrow> ([right], [gen n'], Suc n')
           | RetainBoth \<Rightarrow> ([left, right], [gen n'], Suc n'))"

fun split_elements ::
    "(nat \<Rightarrow> uuid) \<Rightarrow> uuid list \<Rightarrow> retain_side \<Rightarrow> media_time \<Rightarrow> nat \<Rightarrow> timeline_element list \<Rightarrow>
     timeline_element list \<times> uuid list \<times> nat" where
  "split_elements gen targets side t n [] = ([], [], n)"
| "split_elements gen targets side t n (e # es) =
     (let (xs, rights, n') = (if elementId e \<in> set targets then split_element gen side t n e else ([e], [], n));
          (ys, rights', n'') = split_elements gen targets side t n' es
      in (xs @ ys, rights @ rights', n''))"

definition splitTrack ::
    "(nat \<Rightarrow> uuid) \<Rightarrow> element_ref list \<Rightarrow> retain_side \<Rightarrow> media_time \<Rightarrow> nat \<Rightarrow> track \<Rightarrow>
     track \<times> element_ref list \<times> nat" where
  "splitTrack gen refs side t n tr =
     (let toSplit = filter (\<lambda>r. ref_trackId r = trackId tr) refs
      in if toSplit = [] then (tr, [], n)
         else let (es, rights, n') = split_elements gen (map ref_elementId toSplit) side t n (elements tr)
              in (tr\<lparr>elements := es\<rparr>, map (\<lambda>i. \<lparr>ref_trackId = trackId tr, ref_elementId = i\<rparr>) rights, n'))"

fun split_track_list ::
    "(nat \<Rightarrow> uuid) \<Rightarrow> element_ref list \<Rightarrow> retain_side \<Rightarrow> media_time \<Rightarrow> nat \<Rightarrow> track list \<Rightarrow>
     track list \<times> element_ref list \<times> nat" where
  "split_track_list gen refs side t n [] = ([], [], n)"
| "split_track_list gen refs side t n (tr # trs) =
     (let (tr', rights, n') = splitTrack gen refs side t n tr;
          (trs', rights', n'') = split_track_list gen refs side t n' trs
      in (tr' # trs', rights @ rights', n''))"

definition splitElements ::
    "(nat \<Rightarrow> uuid) \<Rightarrow> nat \<Rightarrow> element_ref list \<Rightarrow> media_time \<Rightarrow> retain_side \<Rightarrow> scene_tracks \<Rightarrow> outcome \<times> nat" where
  "splitElements gen n refs t side ts =
     (let (ov, r1, n1) = split_track_list gen refs side t n (overlay ts);
          (m, r2, n2) = splitTrack gen refs side t n1 (main ts);
          (au, r3, n3) = split_track_list gen refs side t n2 (audio ts);
          rights = r1 @ r2 @ r3
      in (updated \<lparr>overlay = ov, main = m, audio = au\<rparr>
            (if length rights > 0 then Some (createElementSelectionResult rights) else None), n3))"

section \<open>Duplicating (\<open>duplicate-elements.ts\<close>)\<close>

definition buildDuplicateElement ::
    "(nat \<Rightarrow> uuid) \<Rightarrow> nat \<Rightarrow> timeline_element \<Rightarrow> uuid \<Rightarrow> media_time \<Rightarrow> timeline_element \<times> nat" where
  "buildDuplicateElement gen n e eid start =
     (case cloneAnimations gen n (animations e) True of
        (a, n') \<Rightarrow> (e\<lparr>elementId := eid, elementName := elementName e @ '' (copy)'', startTime := start, animations := a\<rparr>, n'))"

fun duplicate_elements ::
    "(nat \<Rightarrow> uuid) \<Rightarrow> uuid set \<Rightarrow> nat \<Rightarrow> timeline_element list \<Rightarrow> timeline_element list \<times> nat" where
  "duplicate_elements gen ids n [] = ([], n)"
| "duplicate_elements gen ids n (e # es) =
     (if elementId e \<notin> ids then duplicate_elements gen ids n es
      else let (d, n') = buildDuplicateElement gen (Suc n) e (gen n) (startTime e);
               (ds, n'') = duplicate_elements gen ids n' es
           in (d # ds, n''))"

text \<open>The loop over the tracks of the saved state; the state is the new tracks, the references of the
  duplicates and the counter.\<close>

fun duplicate_tracks ::
    "(nat \<Rightarrow> uuid) \<Rightarrow> element_ref list \<Rightarrow> track list \<Rightarrow> scene_tracks \<times> element_ref list \<times> nat \<Rightarrow>
     scene_tracks \<times> element_ref list \<times> nat" where
  "duplicate_tracks gen refs [] st = st"
| "duplicate_tracks gen refs (tr # trs) (ts, dups, n) =
     (let toDuplicate = filter (\<lambda>r. ref_trackId r = trackId tr) refs
      in if toDuplicate = [] then duplicate_tracks gen refs trs (ts, dups, n)
         else
           let (es, n') = duplicate_elements gen (set (map ref_elementId toDuplicate)) n (elements tr)
           in case resolveTrackPlacement ts (trackType tr) [] (AlwaysNew Highest) of
                Some (NewTrack i pos tt) \<Rightarrow>
                  (case applyPlacement ts (NewTrack i pos tt) es None (gen n') of
                     None \<Rightarrow> duplicate_tracks gen refs trs (ts, dups, Suc n')
                   | Some (ts', tid) \<Rightarrow> duplicate_tracks gen refs trs
                       (ts', dups @ map (\<lambda>e. \<lparr>ref_trackId = tid, ref_elementId = elementId e\<rparr>) es, Suc n'))
              | _ \<Rightarrow> duplicate_tracks gen refs trs (ts, dups, n'))"

definition duplicateElements ::
    "(nat \<Rightarrow> uuid) \<Rightarrow> nat \<Rightarrow> element_ref list \<Rightarrow> scene_tracks \<Rightarrow> outcome \<times> nat" where
  "duplicateElements gen n refs ts =
     (case duplicate_tracks gen refs (orderedTracks ts) (ts, [], n) of
        (ts', dups, n') \<Rightarrow>
          (updated ts' (if length dups > 0 then Some (createElementSelectionResult dups) else None), n'))"

section \<open>Updating (\<open>update-elements.ts\<close>)\<close>

definition update_step ::
    "(nat \<Rightarrow> uuid) \<Rightarrow> element_ref \<times> patch \<Rightarrow> scene_tracks \<times> nat \<Rightarrow> scene_tracks \<times> nat" where
  "update_step gen u st =
     (case (u, st) of ((r, p), (ts, n)) \<Rightarrow>
        (case find_ref ts r of
           None \<Rightarrow> (ts, n)
         | Some (_, e) \<Rightarrow>
             (case applyElementUpdate gen n e p ts (ref_trackId r) of
                (e', n') \<Rightarrow> (updateElementInSceneTracks ts (ref_trackId r) (ref_elementId r) (\<lambda>_. e') (\<lambda>_. True), n'))))"

definition updateElements ::
    "(nat \<Rightarrow> uuid) \<Rightarrow> nat \<Rightarrow> (element_ref \<times> patch) list \<Rightarrow> scene_tracks \<Rightarrow> outcome \<times> nat" where
  "updateElements gen n updates ts =
     (case fold (update_step gen) updates (ts, n) of (ts', n') \<Rightarrow> (updated ts' None, n'))"

section \<open>Tracks (\<open>commands/timeline/track/\<close>)\<close>

definition buildAudioTrackState :: "scene_tracks \<Rightarrow> int \<Rightarrow> uuid \<Rightarrow> scene_tracks" where
  "buildAudioTrackState ts i tid =
     (let j = max 0 (i - int (length (overlay ts)) - 1)
      in ts\<lparr>audio := insert_at (audio ts) j (buildEmptyTrack tid TAudio None)\<rparr>)"

text \<open>The index is clamped from above only; a negative one counts from the end, as \<open>slice\<close> does.\<close>

definition buildOverlayTrackState :: "scene_tracks \<Rightarrow> int \<Rightarrow> uuid \<Rightarrow> track_type \<Rightarrow> scene_tracks" where
  "buildOverlayTrackState ts i tid tt =
     (let j = min i (int (length (overlay ts)))
      in ts\<lparr>overlay := insert_at (overlay ts) j (buildEmptyTrack tid tt None)\<rparr>)"

definition addTrack :: "track_type \<Rightarrow> int option \<Rightarrow> uuid \<Rightarrow> scene_tracks \<Rightarrow> outcome" where
  "addTrack tt idx tid ts =
     (let i = (case idx of Some i \<Rightarrow> i | None \<Rightarrow> getDefaultInsertIndexForTrack ts tt)
      in updated (if tt = TAudio then buildAudioTrackState ts i tid else buildOverlayTrackState ts i tid tt) None)"

definition removeTrack :: "uuid \<Rightarrow> scene_tracks \<Rightarrow> outcome" where
  "removeTrack tid ts =
     updated (ts\<lparr>overlay := filter (\<lambda>tr. trackId tr \<noteq> tid) (overlay ts),
                 audio := filter (\<lambda>tr. trackId tr \<noteq> tid) (audio ts)\<rparr>) None"

text \<open>\<open>!track.muted\<close>: an absent flag is falsy.\<close>

definition js_not :: "bool option \<Rightarrow> bool option" where
  "js_not b = Some (b \<noteq> Some True)"

definition toggleTrackMute :: "uuid \<Rightarrow> scene_tracks \<Rightarrow> outcome" where
  "toggleTrackMute tid ts =
     (if findTrackInSceneTracks ts tid = None then unchanged
      else updated (updateTrackInSceneTracks ts tid
             (\<lambda>tr. if canTrackHaveAudio tr then tr\<lparr>tr_muted := js_not (tr_muted tr)\<rparr> else tr)) None)"

definition toggleTrackVisibility :: "uuid \<Rightarrow> scene_tracks \<Rightarrow> outcome" where
  "toggleTrackVisibility tid ts =
     (if findTrackInSceneTracks ts tid = None then unchanged
      else updated (updateTrackInSceneTracks ts tid
             (\<lambda>tr. if canTrackBeHidden tr then tr\<lparr>tr_hidden := js_not (tr_hidden tr)\<rparr> else tr)) None)"

section \<open>Replacing the elements of each track\<close>

text \<open>A command that keeps the tracks and replaces their elements keeps the timeline well formed when it
  does so track by track.\<close>

definition track_refines :: "track \<Rightarrow> track \<Rightarrow> bool" where
  "track_refines tr tr' \<longleftrightarrow> trackId tr' = trackId tr \<and> trackType tr' = trackType tr
     \<and> (no_overlap (elements tr) \<longrightarrow> no_overlap (elements tr')) \<and> (track_typed tr \<longrightarrow> track_typed tr')"

lemma track_refines_refl [simp]: "track_refines tr tr"
  by (simp add: track_refines_def)

lemma refines_all:
  assumes "list_all2 track_refines xs ys"
  shows "map trackId ys = map trackId xs" "map trackType ys = map trackType xs"
    "list_all (\<lambda>tr. no_overlap (elements tr)) xs \<Longrightarrow> list_all (\<lambda>tr. no_overlap (elements tr)) ys"
    "list_all track_typed xs \<Longrightarrow> list_all track_typed ys"
  using assms by (induction xs ys rule: list_all2_induct) (auto simp: track_refines_def)

lemma list_all_type: "list_all (\<lambda>tr. P (trackType tr)) xs = list_all P (map trackType xs)"
  by (simp add: list.pred_map comp_def)

lemma refines_wf:
  assumes "list_all2 track_refines (overlay ts) (overlay ts')" "track_refines (main ts) (main ts')"
    and "list_all2 track_refines (audio ts) (audio ts')" and "tracks_wf ts"
  shows "tracks_wf ts'"
proof -
  have o: "list_all2 track_refines (orderedTracks ts) (orderedTracks ts')"
    using assms(1-3) by (simp add: orderedTracks_def list_all2_appendI)
  note r = refines_all [OF o] and ov = refines_all(2) [OF assms(1)] and au = refines_all(2) [OF assms(3)]
  have "tracks_ids_ok ts'" using assms(4) r(1) by (simp add: tracks_wf_def tracks_ids_ok_def)
  moreover have "tracks_no_overlap ts'" using assms(4) r(3) by (simp add: tracks_wf_def tracks_no_overlap_def)
  moreover have "tracks_typed ts'"
    using assms(2,4) r(4) ov au
    by (simp add: tracks_wf_def tracks_typed_def track_refines_def list_all_type [of "\<lambda>x. x \<noteq> TAudio"]
        list_all_type [of "\<lambda>x. x = TAudio"])
  ultimately show ?thesis by (simp add: tracks_wf_def)
qed

lemma refines_map: "(\<And>x. track_refines x (f x)) \<Longrightarrow> list_all2 track_refines xs (map f xs)"
  by (simp add: list_all2_map2 list_all2_same)

lemma refines_filter:
  "tr' = tr\<lparr>elements := filter P (elements tr)\<rparr> \<Longrightarrow> track_refines tr tr'"
  by (auto simp: track_refines_def track_typed_def list_all_iff no_overlap_filter)

section \<open>Splitting\<close>

lemma split_element_parts:
  assumes "split_element gen side t n e = (xs, rs, n')"
  shows "no_overlap xs" "x \<in> set xs \<Longrightarrow> startTime e \<le> startTime x \<and> elementEnd x \<le> elementEnd e \<and> elementType x = elementType e"
  using assms
  by (auto simp: split_element_def Let_def no_overlap_def elementEnd_def subMediaTime_def split: if_splits prod.splits retain_side.splits)

text \<open>Each new element lies within the element it comes from.\<close>

lemma split_elements_parts:
  "split_elements gen targets side t n es = (xs, rs, n') \<Longrightarrow> no_overlap es \<Longrightarrow>
   no_overlap xs \<and> (\<forall>x \<in> set xs. \<exists>e \<in> set es. startTime e \<le> startTime x \<and> elementEnd x \<le> elementEnd e \<and> elementType x = elementType e)"
proof (induction es arbitrary: n xs rs n')
  case (Cons e es)
  obtain ys r1 m zs r2 k where y: "(if elementId e \<in> set targets then split_element gen side t n e else ([e], [], n)) = (ys, r1, m)"
    and z: "split_elements gen targets side t m es = (zs, r2, k)" and xs: "xs = ys @ zs"
    using Cons.prems(1) by (auto simp: Let_def split: prod.splits)
  have es: "no_overlap es" "\<forall>e' \<in> set es. elements_disjoint e e'" using Cons.prems(2) by (auto simp: no_overlap_def)
  have ih: "no_overlap zs" "\<forall>x \<in> set zs. \<exists>e \<in> set es. startTime e \<le> startTime x \<and> elementEnd x \<le> elementEnd e \<and> elementType x = elementType e"
    using Cons.IH [OF z es(1)] by auto
  have yp: "no_overlap ys" "\<forall>x \<in> set ys. startTime e \<le> startTime x \<and> elementEnd x \<le> elementEnd e \<and> elementType x = elementType e"
    using y split_element_parts [of gen side t n e ys r1 m] by (auto simp: no_overlap_def split: if_splits)
  have "elements_disjoint x y" if x: "x \<in> set ys" and y: "y \<in> set zs" for x y
  proof -
    obtain e' where "e' \<in> set es" "startTime e' \<le> startTime y" "elementEnd y \<le> elementEnd e'" using ih(2) y by blast
    moreover have "startTime e \<le> startTime x" "elementEnd x \<le> elementEnd e" using yp(2) x by blast+
    ultimately show ?thesis using es(2) by force
  qed
  then show ?case using ih yp by (auto simp: xs no_overlap_append)
qed simp

lemma split_elements_types:
  "split_elements gen targets side t n es = (xs, rs, n') \<Longrightarrow> \<forall>x \<in> set xs. \<exists>e \<in> set es. elementType x = elementType e"
proof (induction es arbitrary: n xs rs n')
  case (Cons e es)
  obtain ys r1 m zs r2 k where y: "(if elementId e \<in> set targets then split_element gen side t n e else ([e], [], n)) = (ys, r1, m)"
    and z: "split_elements gen targets side t m es = (zs, r2, k)" and xs: "xs = ys @ zs"
    using Cons.prems(1) by (auto simp: Let_def split: prod.splits)
  have "\<forall>x \<in> set ys. elementType x = elementType e"
    using y split_element_parts(2) [of gen side t n e ys r1 m] by (auto split: if_splits)
  then show ?case using Cons.IH [OF z] by (auto simp: xs)
qed simp

lemma splitTrack_refines:
  assumes "splitTrack gen refs side t n tr = (tr', rs, n')"
  shows "track_refines tr tr'"
proof (cases "filter (\<lambda>r. ref_trackId r = trackId tr) refs = []")
  case True
  then show ?thesis using assms by (simp add: splitTrack_def)
next
  case False
  then obtain targets xs rights m where sp: "split_elements gen targets side t n (elements tr) = (xs, rights, m)"
    and tr': "tr' = tr\<lparr>elements := xs\<rparr>"
    using assms by (auto simp: splitTrack_def Let_def split: prod.splits)
  have ty: "\<forall>x \<in> set xs. \<exists>e \<in> set (elements tr). elementType x = elementType e"
    using split_elements_types [OF sp] by blast
  then have "track_typed tr'" if "track_typed tr"
    using that by (auto simp: track_typed_def list_all_iff tr')
  then show ?thesis using split_elements_parts [OF sp] by (simp add: track_refines_def tr')
qed

lemma split_track_list_refines: "split_track_list gen refs side t n trs = (trs', rs, n') \<Longrightarrow> list_all2 track_refines trs trs'"
proof (induction trs arbitrary: n trs' rs n')
  case (Cons tr trs)
  then show ?case by (auto simp: Let_def split: prod.splits dest: splitTrack_refines)
qed simp

lemma splitElements_wf:
  assumes "tracks_wf ts"
  shows "\<exists>ts'. out_tracks (fst (splitElements gen n refs t side ts)) = Some ts' \<and> tracks_wf ts'"
proof -
  obtain ov r1 n1 where o: "split_track_list gen refs side t n (overlay ts) = (ov, r1, n1)" using prod_cases3 by blast
  obtain m r2 n2 where m: "splitTrack gen refs side t n1 (main ts) = (m, r2, n2)" using prod_cases3 by blast
  obtain au r3 n3 where a: "split_track_list gen refs side t n2 (audio ts) = (au, r3, n3)" using prod_cases3 by blast
  have "tracks_wf \<lparr>overlay = ov, main = m, audio = au\<rparr>"
    using split_track_list_refines [OF o] splitTrack_refines [OF m] split_track_list_refines [OF a]
    by (intro refines_wf [OF _ _ _ assms]) simp_all
  then show ?thesis by (simp add: splitElements_def o m a)
qed

section \<open>Duplicating\<close>

lemma key_id_map_mono: "n \<le> snd (key_id_map gen n regen is m)"
  by (induction gen n regen "is" m rule: key_id_map.induct) (auto intro: Suc_leD)

lemma clone_bindings_mono: "n \<le> snd (clone_bindings gen n regen a bs chs)"
proof (induction gen n regen a bs chs rule: clone_bindings.induct)
  case (3 gen n regen a p b bs chs)
  let ?p = "prop_get (channels a) (case getPrimaryChannelId b of None \<Rightarrow> [] | Some cid \<Rightarrow> cid)"
  obtain ids m where k: "key_id_map gen n regen (case ?p of None \<Rightarrow> [] | Some ch \<Rightarrow> key_ids ch) [] = (ids, m)" by fastforce
  have "n \<le> m" using key_id_map_mono [of n gen regen "case ?p of None \<Rightarrow> [] | Some ch \<Rightarrow> key_ids ch" "[]"] by (simp add: k)
  also have "m \<le> snd (clone_bindings gen m regen a bs (fold (clone_component a ids) (components b) chs))"
    by (rule "3" [OF refl k [symmetric] refl])
  finally show ?case by (simp add: k)
qed simp_all

lemma cloneAnimations_mono: "n \<le> snd (cloneAnimations gen n a regen)"
proof (cases a)
  case (Some x)
  then show ?thesis using clone_bindings_mono [of n gen regen x "map (\<lambda>(path, b). (path, map_option cloneAnimationBinding b)) (bindings x)" "[]"]
    by (auto simp: cloneAnimations_def Let_def split: prod.splits)
qed (simp add: cloneAnimations_def)

lemma buildDuplicate_parts:
  assumes "buildDuplicateElement gen n e eid start = (d, n')"
  shows "n \<le> n'" "startTime d = start" "duration d = duration e" "elementType d = elementType e" "elementId d = eid"
  using assms cloneAnimations_mono [of n gen "animations e" True] by (auto simp: buildDuplicateElement_def split: prod.splits)

lemma duplicate_elements_parts:
  "duplicate_elements gen ids n es = (ds, n') \<Longrightarrow>
   n \<le> n' \<and> map (\<lambda>d. (startTime d, duration d, elementType d)) ds
     = map (\<lambda>e. (startTime e, duration e, elementType e)) (filter (\<lambda>e. elementId e \<in> ids) es)"
proof (induction es arbitrary: n ds n')
  case (Cons e es)
  show ?case
  proof (cases "elementId e \<in> ids")
    case True
    obtain d m ds' where d: "buildDuplicateElement gen (Suc n) e (gen n) (startTime e) = (d, m)"
      and ds': "duplicate_elements gen ids m es = (ds', n')" and ds: "ds = d # ds'"
      using Cons.prems True by (auto simp: Let_def split: prod.splits)
    show ?thesis using Cons.IH [OF ds'] buildDuplicate_parts [OF d] True by (simp add: ds)
  next
    case False
    then show ?thesis using Cons by simp
  qed
qed simp

lemma no_overlap_cong:
  assumes "map (\<lambda>d. (startTime d, duration d, elementType d)) xs = map (\<lambda>e. (startTime e, duration e, elementType e)) ys"
  shows "no_overlap xs = no_overlap ys"
    "list_all (\<lambda>e. canElementGoOnTrack (elementType e) tt) xs = list_all (\<lambda>e. canElementGoOnTrack (elementType e) tt) ys"
proof -
  let ?f = "\<lambda>e. (startTime e, duration e, elementType e)"
  have "no_overlap zs = sorted_wrt (\<lambda>(s, d, _) (s', d', _). s + d \<le> s' \<or> s' + d' \<le> s) (map ?f zs)" for zs
    by (simp add: no_overlap_def sorted_wrt_map elementEnd_def)
  then show "no_overlap xs = no_overlap ys" using assms by simp
  have "list_all (\<lambda>e. canElementGoOnTrack (elementType e) tt) zs = list_all (\<lambda>(_, _, y). canElementGoOnTrack y tt) (map ?f zs)" for zs
    by (simp add: list.pred_map comp_def)
  from this [of xs] this [of ys] show "list_all (\<lambda>e. canElementGoOnTrack (elementType e) tt) xs
      = list_all (\<lambda>e. canElementGoOnTrack (elementType e) tt) ys" unfolding assms by simp
qed

text \<open>An id supply whose values from \<open>n\<close> on are new.\<close>

definition fresh_supply :: "(nat \<Rightarrow> uuid) \<Rightarrow> nat \<Rightarrow> uuid set \<Rightarrow> bool" where
  "fresh_supply gen n S \<longleftrightarrow> inj gen \<and> (\<forall>k \<ge> n. gen k \<notin> S)"

lemma fresh_supply_mono: "fresh_supply gen n S \<Longrightarrow> n \<le> m \<Longrightarrow> fresh_supply gen m S"
  by (auto simp: fresh_supply_def)

lemma fresh_supply_insert: "fresh_supply gen n S \<Longrightarrow> n \<le> m \<Longrightarrow> fresh_supply gen (Suc m) (insert (gen m) S)"
  unfolding fresh_supply_def by (auto dest: injD)

lemma resolve_always_new: "\<exists>i pos. resolveTrackPlacement ts tt [] (AlwaysNew Highest) = Some (NewTrack i pos tt)"
  by (simp add: resolveTrackPlacement_def resolveAlwaysNewTrack_def)

lemma duplicate_tracks_wf:
  "tracks_wf ts \<Longrightarrow> fresh_supply gen n (trackId ` set (orderedTracks ts)) \<Longrightarrow>
   \<forall>tr \<in> set trs. no_overlap (elements tr) \<and> track_typed tr \<Longrightarrow>
   tracks_wf (fst (duplicate_tracks gen refs trs (ts, dups, n)))"
proof (induction trs arbitrary: ts dups n)
  case (Cons tr trs)
  let ?to = "filter (\<lambda>r. ref_trackId r = trackId tr) refs"
  show ?case
  proof (cases "?to = []")
    case True
    then show ?thesis using Cons by simp
  next
    case False
    obtain es m where es: "duplicate_elements gen (set (map ref_elementId ?to)) n (elements tr) = (es, m)" by fastforce
    note p = duplicate_elements_parts [OF es]
    obtain i pos where r: "resolveTrackPlacement ts (trackType tr) [] (AlwaysNew Highest) = Some (NewTrack i pos (trackType tr))"
      using resolve_always_new by blast
    obtain ts' tid where a: "applyPlacement ts (NewTrack i pos (trackType tr)) es None (gen m) = Some (ts', tid)"
      by (simp add: applyPlacement_def Let_def)
    have "no_overlap es" "list_all (\<lambda>e. canElementGoOnTrack (elementType e) (trackType tr)) es"
      using no_overlap_cong [OF conjunct2 [OF p]] Cons.prems(3)
      by (auto simp: no_overlap_filter track_typed_def list_all_iff)
    moreover have "gen m \<notin> trackId ` set (orderedTracks ts)"
      using Cons.prems(2) conjunct1 [OF p] by (simp add: fresh_supply_def)
    ultimately have w: "tracks_wf ts'"
        "mset (orderedTracks ts') = add_mset (buildPlacedOverlayTrack (gen m) (trackType tr) es) (mset (orderedTracks ts))"
      using new_track_wf [OF Cons.prems(1) _ _ _ a] by blast+
    have "set (orderedTracks ts') = insert (buildPlacedOverlayTrack (gen m) (trackType tr) es) (set (orderedTracks ts))"
      using arg_cong [OF w(2), of set_mset] by simp
    then have f: "fresh_supply gen (Suc m) (trackId ` set (orderedTracks ts'))"
      using fresh_supply_insert [OF Cons.prems(2) conjunct1 [OF p]] by simp
    have "duplicate_tracks gen refs (tr # trs) (ts, dups, n) = duplicate_tracks gen refs trs
        (ts', dups @ map (\<lambda>e. \<lparr>ref_trackId = tid, ref_elementId = elementId e\<rparr>) es, Suc m)"
      unfolding duplicate_tracks.simps Let_def if_not_P [OF False] es r placement_result.case option.case prod.case a ..
    then show ?thesis using Cons.IH [OF w(1) f] Cons.prems(3) by simp
  qed
qed simp

lemma duplicateElements_wf:
  assumes "tracks_wf ts" "fresh_supply gen n (trackId ` set (orderedTracks ts))"
  shows "\<exists>ts'. out_tracks (fst (duplicateElements gen n refs ts)) = Some ts' \<and> tracks_wf ts'"
proof -
  have "\<forall>tr \<in> set (orderedTracks ts). no_overlap (elements tr) \<and> track_typed tr"
    using assms(1) by (auto simp: tracks_wf_def tracks_typed_def tracks_no_overlap_def list_all_iff)
  from duplicate_tracks_wf [OF assms this, of refs "[]"] show ?thesis
    by (auto simp: duplicateElements_def split: prod.splits)
qed

section \<open>Tracks\<close>

lemma deleteElements_wf: "tracks_wf ts \<Longrightarrow> \<exists>ts'. out_tracks (deleteElements refs ts) = Some ts' \<and> tracks_wf ts'"
  unfolding deleteElements_def
  by (auto intro!: refines_wf [of ts] refines_map refines_filter simp: removeTrackElements_def)

lemma removeTrack_wf:
  assumes "tracks_wf ts"
  shows "\<exists>ts'. out_tracks (removeTrack tid ts) = Some ts' \<and> tracks_wf ts'"
proof -
  have "distinct (map trackId (filter P (overlay ts) @ main ts # filter Q (audio ts)))" for P Q
    using assms by (auto simp: tracks_wf_def tracks_ids_ok_def orderedTracks_def distinct_map_filter)
  then show ?thesis using assms
    by (auto simp: removeTrack_def tracks_wf_def tracks_typed_def tracks_ids_ok_def tracks_no_overlap_def orderedTracks_def
        list_all_iff)
qed

lemma update_flag_wf:
  assumes "tracks_wf ts" "\<And>tr. trackId (f tr) = trackId tr" "\<And>tr. trackType (f tr) = trackType tr" "\<And>tr. elements (f tr) = elements tr"
  shows "tracks_wf (updateTrackInSceneTracks ts tid f)"
proof -
  have t: "\<And>tr. tr \<in> set (orderedTracks ts) \<Longrightarrow> track_typed tr \<and> no_overlap (elements tr)"
    using assms(1) by (auto simp: tracks_wf_def tracks_typed_def tracks_no_overlap_def list_all_iff)
  show ?thesis using assms t unfolding tracks_wf_def
    by (auto intro!: typed_update tracks_ids_update overlap_update simp: track_typed_def)
qed

lemma addTrack_wf:
  assumes "tracks_wf ts" "tid \<notin> trackId ` set (orderedTracks ts)"
  shows "\<exists>ts'. out_tracks (addTrack tt idx tid ts) = Some ts' \<and> tracks_wf ts'"
proof -
  let ?tr = "buildEmptyTrack tid tt None"
  have a: "tracks_wf (ts\<lparr>audio := insert_at (audio ts) j ?tr\<rparr>)" if "tt = TAudio" for j
  proof -
    have "mset (orderedTracks (ts\<lparr>audio := insert_at (audio ts) j ?tr\<rparr>)) = add_mset ?tr (mset (orderedTracks ts))"
      by (simp add: orderedTracks_def)
    from ordered_add_wf [OF assms(1) this] assms(2) show ?thesis using assms(1) that
      by (auto simp: tracks_wf_def tracks_typed_def no_overlap_def track_typed_def list_all_iff)
  qed
  have o: "tracks_wf (ts\<lparr>overlay := insert_at (overlay ts) j ?tr\<rparr>)" if "tt \<noteq> TAudio" for j
  proof -
    have "mset (orderedTracks (ts\<lparr>overlay := insert_at (overlay ts) j ?tr\<rparr>)) = add_mset ?tr (mset (orderedTracks ts))"
      by (simp add: orderedTracks_def)
    from ordered_add_wf [OF assms(1) this] assms(2) show ?thesis using assms(1) that
      by (auto simp: tracks_wf_def tracks_typed_def no_overlap_def track_typed_def list_all_iff)
  qed
  show ?thesis using a o by (simp add: addTrack_def Let_def buildAudioTrackState_def buildOverlayTrackState_def)
qed

lemma span_nonneg: "0 \<le> x \<Longrightarrow> getSourceSpanAtClipTime x rt = x * getEffectiveRateAt rt"
  using effective_rate_pos [of rt] by (simp add: getSourceSpanAtClipTime_def getSourceTimeAtClipTime_def)

lemma round_difference: "\<bar>of_int (roundMediaTime x - roundMediaTime y) - (x - y)\<bar> \<le> 1"
  using roundMediaTime_error [of x] roundMediaTime_error [of y] unfolding of_int_diff by linarith

section \<open>Properties\<close>

text \<open>C33: Splitting an element strictly inside its span gives two adjacent elements that cover it exactly,
  and loses no source: the left keeps the trim at the start, the right the trim at the end, the two
  source spans add up to the span of the whole to the tick, and the right one differs by at most one
  tick from the exact source span of its duration.\<close>
theorem split_conserves_source:
  assumes "startTime e < t" "t < elementEnd e" "split_element gen RetainBoth t n e = ([l, r], ids, n')"
    and "rt = (if isRetimableElement e then retime e else None)"
  shows "startTime l = startTime e \<and> elementEnd l = t \<and> startTime r = t \<and> elementEnd r = elementEnd e
    \<and> elementId l = elementId e \<and> ids = [elementId r]
    \<and> trimStart l = trimStart e \<and> trimEnd r = trimEnd e
    \<and> (trimStart r - trimStart l) + (trimEnd l - trimEnd r) = roundMediaTime (getSourceSpanAtClipTime (of_int (duration e)) rt)
    \<and> trimStart r = trimStart e + roundMediaTime (getSourceSpanAtClipTime (of_int (duration l)) rt)
    \<and> \<bar>of_int (trimEnd l - trimEnd e) - getSourceSpanAtClipTime (of_int (duration r)) rt\<bar> \<le> 1"
proof -
  obtain la ra m where a: "splitAnimationsAtTime gen n (animations e) (subMediaTime t (startTime e)) True = ((la, ra), m)"
    by (metis prod.exhaust)
  have l: "l = e\<lparr>duration := t - startTime e, trimEnd := trimEnd e
        + (roundMediaTime (getSourceSpanAtClipTime (of_int (duration e)) rt)
           - roundMediaTime (getSourceSpanAtClipTime (of_int (t - startTime e)) rt)),
        elementName := elementName e @ '' (left)'', animations := la\<rparr>"
    and r: "r = e\<lparr>elementId := gen m, startTime := t, duration := duration e - (t - startTime e),
        trimStart := trimStart e + roundMediaTime (getSourceSpanAtClipTime (of_int (t - startTime e)) rt),
        elementName := elementName e @ '' (right)'', animations := ra\<rparr>"
    and i: "ids = [gen m]"
    using assms a by (auto simp: split_element_def Let_def elementEnd_def subMediaTime_def addMediaTime_def)
  let ?span = "\<lambda>d. getSourceSpanAtClipTime d rt"
  have lin: "?span (of_int (duration e)) - ?span (of_int (t - startTime e)) = ?span (of_int (duration e - (t - startTime e)))"
    using span_nonneg [of "of_int (duration e)" rt] span_nonneg [of "of_int (t - startTime e)" rt]
      span_nonneg [of "of_int (duration e - (t - startTime e))" rt] assms(1,2)
    by (simp add: elementEnd_def algebra_simps)
  from round_difference [of "?span (of_int (duration e))" "?span (of_int (t - startTime e))"] lin
  have "\<bar>of_int (roundMediaTime (?span (of_int (duration e))) - roundMediaTime (?span (of_int (t - startTime e))))
      - ?span (of_int (duration e - (t - startTime e)))\<bar> \<le> 1" by simp
  then show ?thesis using assms(1,2) by (simp add: l r i elementEnd_def)
qed

definition demo_retimed :: timeline_element where
  "demo_retimed = (demo_element ''v'' EVideo 20 30)\<lparr>retime := Some \<lparr>rate = Fin (3 / 2), maintainPitch = None\<rparr>\<rparr>"

theorem split_conserves_source_witness:
  "case split_element (\<lambda>i. replicate i CHR ''u'') RetainBoth 31 0 demo_retimed of
     ([l, r], ids, _) \<Rightarrow> elementEnd l = 31 \<and> startTime r = 31 \<and> elementEnd r = 50
       \<and> trimStart r - trimStart l = 17 \<and> trimEnd l - trimEnd r = 28
   | _ \<Rightarrow> False"
proof -
  let ?g = "\<lambda>i. replicate i CHR ''u''"
  obtain l r ids n' where s: "split_element ?g RetainBoth 31 0 demo_retimed = ([l, r], ids, n')"
    by (simp add: split_element_def demo_retimed_def demo_element_def Let_def splitAnimationsAtTime_def subMediaTime_def)
  have rt: "(if isRetimableElement demo_retimed then retime demo_retimed else None) = Some \<lparr>rate = Fin (3 / 2), maintainPitch = None\<rparr>"
    by (simp add: demo_retimed_def demo_element_def isRetimableElement_def)
  have span: "roundMediaTime (getSourceSpanAtClipTime 30 (Some \<lparr>rate = Fin (3 / 2), maintainPitch = None\<rparr>)) = 45"
    "roundMediaTime (getSourceSpanAtClipTime 11 (Some \<lparr>rate = Fin (3 / 2), maintainPitch = None\<rparr>)) = 17"
    by code_simp+
  have d: "startTime demo_retimed = 20" "elementEnd demo_retimed = 50" "duration demo_retimed = 30"
    by (simp_all add: demo_retimed_def demo_element_def elementEnd_def)
  from split_conserves_source [OF _ _ s refl] show ?thesis
    by (auto simp: s d rt span elementEnd_def)
qed

text \<open>C26: The commands that delete, split and duplicate elements and that add, remove, mute and hide tracks
  keep the timeline well formed: every track typed, track ids distinct, no two elements of a track
  overlapping. New ids come from a supply of unused ones.\<close>
theorem timeline_commands_keep_wf:
  assumes "tracks_wf ts" "fresh_supply gen n (trackId ` set (orderedTracks ts))"
    and "out \<in> set [deleteElements refs ts, fst (splitElements gen n refs t side ts), fst (duplicateElements gen n refs ts),
      addTrack tt idx (gen n) ts, removeTrack tid ts, toggleTrackMute tid ts, toggleTrackVisibility tid ts]"
  shows "case out_tracks out of None \<Rightarrow> True | Some ts' \<Rightarrow> tracks_wf ts'"
proof -
  have "gen n \<notin> trackId ` set (orderedTracks ts)" using assms(2) by (simp add: fresh_supply_def)
  note w = deleteElements_wf [OF assms(1), of refs] splitElements_wf [OF assms(1), of gen n refs t side]
    duplicateElements_wf [OF assms(1,2), of refs] addTrack_wf [OF assms(1) this, of tt idx] removeTrack_wf [OF assms(1), of tid]
  have "case out_tracks (toggleTrackMute tid ts) of None \<Rightarrow> True | Some ts' \<Rightarrow> tracks_wf ts'"
    "case out_tracks (toggleTrackVisibility tid ts) of None \<Rightarrow> True | Some ts' \<Rightarrow> tracks_wf ts'"
    using assms(1) by (auto simp: toggleTrackMute_def toggleTrackVisibility_def intro!: update_flag_wf)
  with w assms(3) show ?thesis by auto
qed


lemma replicate_supply: "S \<inter> range (\<lambda>k. replicate k CHR ''u'') = {} \<Longrightarrow> fresh_supply (\<lambda>k. replicate k CHR ''u'') n S"
  by (auto simp: fresh_supply_def inj_def)

theorem timeline_commands_keep_wf_witness:
  "case out_tracks (fst (duplicateElements (\<lambda>k. replicate k CHR ''u'') 0 demo_selection demo_tracks)) of
     None \<Rightarrow> False | Some ts' \<Rightarrow> tracks_wf ts'"
proof -
  have "fresh_supply (\<lambda>k. replicate k CHR ''u'') 0 (trackId ` set (orderedTracks demo_tracks))"
    by (rule replicate_supply) (auto simp: demo_tracks_def orderedTracks_def Cons_replicate_eq)
  from timeline_commands_keep_wf [OF demo_tracks_wf this,
      of "fst (duplicateElements (\<lambda>k. replicate k CHR ''u'') 0 demo_selection demo_tracks)" demo_selection]
  show ?thesis by (simp add: duplicateElements_def split: prod.splits)
qed

end
