(* ===== verification/Project.thy ===== *)
theory Project
  imports Media_Time
begin

text \<open>
  The project's settings (\<open>project/types.ts\<close>, \<open>commands/project/update-project-settings.ts\<close>), the
  media assets (\<open>media/types.ts\<close>, \<open>services/storage/types.ts\<close>) and the frame-rate arithmetic
  (\<open>fps/utils.ts\<close>): turning a measured rate into a fraction, and raising the project's rate to that
  of imported videos. A measured rate is a finite number, here a rational.
\<close>

section \<open>Settings and assets\<close>

datatype background = ColorBackground string | BlurBackground rat
datatype canvas_size_mode = Preset | Custom
datatype media_type = MImage | MVideo | MAudio

record canvas_size =
  cs_width :: rat
  cs_height :: rat

text \<open>An absent field of the settings is \<open>None\<close>, a \<open>null\<close> one \<open>Some None\<close>.\<close>

record project_settings =
  fps :: frame_rate
  canvasSize :: canvas_size
  canvasSizeMode :: "canvas_size_mode option"
  lastCustomCanvasSize :: "canvas_size option option"
  originalCanvasSize :: "canvas_size option option"
  background :: background

datatype settings_update =
  SFps frame_rate
| SCanvasSize canvas_size
| SCanvasSizeMode "canvas_size_mode option"
| SLastCustomCanvasSize "canvas_size option option"
| SOriginalCanvasSize "canvas_size option option"
| SBackground background

fun assign_setting :: "settings_update \<Rightarrow> project_settings \<Rightarrow> project_settings" where
  "assign_setting (SFps r) s = s\<lparr>fps := r\<rparr>"
| "assign_setting (SCanvasSize c) s = s\<lparr>canvasSize := c\<rparr>"
| "assign_setting (SCanvasSizeMode m) s = s\<lparr>canvasSizeMode := m\<rparr>"
| "assign_setting (SLastCustomCanvasSize c) s = s\<lparr>lastCustomCanvasSize := c\<rparr>"
| "assign_setting (SOriginalCanvasSize c) s = s\<lparr>originalCanvasSize := c\<rparr>"
| "assign_setting (SBackground b) s = s\<lparr>background := b\<rparr>"

text \<open>\<open>{ ...settings, ...updates }\<close>\<close>

definition merge_settings :: "settings_update list \<Rightarrow> project_settings \<Rightarrow> project_settings" where
  "merge_settings us s = fold assign_setting us s"

record media_asset =
  assetId :: uuid
  assetName :: string
  assetType :: media_type
  assetWidth :: "rat option"
  assetHeight :: "rat option"
  assetFps :: "rat option"
  hasAudio :: "bool option"

text \<open>A number that is there and not 0.\<close>

definition truthy_number :: "rat option \<Rightarrow> bool" where
  "truthy_number x \<longleftrightarrow> (case x of None \<Rightarrow> False | Some v \<Rightarrow> v \<noteq> 0)"

section \<open>Frame rates (\<open>fps/utils.ts\<close>)\<close>

definition frameRateToFloat :: "frame_rate \<Rightarrow> rat" where
  "frameRateToFloat r = of_int (numerator r) / of_int (denominator r)"

definition frameRatesEqual :: "frame_rate \<Rightarrow> frame_rate \<Rightarrow> bool" where
  "frameRatesEqual a b \<longleftrightarrow> numerator a = numerator b \<and> denominator a = denominator b"

definition STANDARD_FRAME_RATES :: "(rat \<times> frame_rate) list" where
  "STANDARD_FRAME_RATES =
     [(24000 / 1001, \<lparr>numerator = 24000, denominator = 1001\<rparr>),
      (24, \<lparr>numerator = 24, denominator = 1\<rparr>),
      (25, \<lparr>numerator = 25, denominator = 1\<rparr>),
      (30000 / 1001, \<lparr>numerator = 30000, denominator = 1001\<rparr>),
      (30, \<lparr>numerator = 30, denominator = 1\<rparr>),
      (48, \<lparr>numerator = 48, denominator = 1\<rparr>),
      (50, \<lparr>numerator = 50, denominator = 1\<rparr>),
      (60000 / 1001, \<lparr>numerator = 60000, denominator = 1001\<rparr>),
      (60, \<lparr>numerator = 60, denominator = 1\<rparr>),
      (120, \<lparr>numerator = 120, denominator = 1\<rparr>)]"

definition STANDARD_FRAME_RATE_TOLERANCE :: rat where
  "STANDARD_FRAME_RATE_TOLERANCE = 1 / 100"

text \<open>The loop of \<open>gcd\<close>; its operands are not negative.\<close>

fun gcd_loop :: "nat \<Rightarrow> nat \<Rightarrow> nat" where
  "gcd_loop a b = (if b = 0 then a else gcd_loop b (a mod b))"

declare gcd_loop.simps [simp del]

definition js_gcd :: "int \<Rightarrow> int \<Rightarrow> int" where
  "js_gcd l r = (let a = gcd_loop (nat \<bar>l\<bar>) (nat \<bar>r\<bar>) in if a = 0 then 1 else int a)"

definition ARBITRARY_DENOMINATOR :: int where
  "ARBITRARY_DENOMINATOR = 1000000"

definition floatToFrameRate :: "rat \<Rightarrow> frame_rate" where
  "floatToFrameRate x =
     (case find (\<lambda>c. \<bar>x - fst c\<bar> \<le> STANDARD_FRAME_RATE_TOLERANCE) STANDARD_FRAME_RATES of
        Some c \<Rightarrow> snd c
      | None \<Rightarrow>
          if x \<in> \<int> then \<lparr>numerator = \<lfloor>x\<rfloor>, denominator = 1\<rparr>
          else let scaledNumerator = math_round (x * of_int ARBITRARY_DENOMINATOR);
                   divisor = js_gcd scaledNumerator ARBITRARY_DENOMINATOR
               in \<lparr>numerator = scaledNumerator div divisor, denominator = ARBITRARY_DENOMINATOR div divisor\<rparr>)"

definition getHighestImportedVideoFps :: "media_asset list \<Rightarrow> rat option" where
  "getHighestImportedVideoFps assets =
     fold (\<lambda>a highest.
        if assetType a \<noteq> MVideo then highest
        else case assetFps a of
               None \<Rightarrow> highest
             | Some f \<Rightarrow> if f \<le> 0 then highest
                        else (case highest of None \<Rightarrow> Some f | Some h \<Rightarrow> Some (max h f)))
       assets None"

definition getRaisedProjectFpsForImportedMedia :: "frame_rate \<Rightarrow> media_asset list \<Rightarrow> frame_rate option" where
  "getRaisedProjectFpsForImportedMedia current assets =
     (case getHighestImportedVideoFps assets of
        None \<Rightarrow> None
      | Some h \<Rightarrow> if h \<le> frameRateToFloat current then None else Some (floatToFrameRate h))"

section \<open>Properties\<close>

lemma gcd_loop_gcd: "gcd_loop a b = gcd a b"
proof (induction a b rule: gcd_loop.induct)
  case (1 a b)
  show ?case
  proof (cases "b = 0")
    case False
    have "gcd_loop a b = gcd_loop b (a mod b)" by (rule trans [OF gcd_loop.simps if_not_P [OF False]])
    also have "\<dots> = gcd b (a mod b)" using 1 [OF False] .
    also have "\<dots> = gcd a b" by (rule gcd_red_nat [symmetric])
    finally show ?thesis .
  next
    case True
    have "gcd_loop a b = a" by (rule trans [OF gcd_loop.simps if_P [OF True]])
    then show ?thesis by (simp add: True)
  qed
qed

lemma js_gcd_eq:
  assumes "r \<noteq> 0"
  shows "js_gcd l r = gcd l r"
proof -
  have i: "int (gcd_loop (nat \<bar>l\<bar>) (nat \<bar>r\<bar>)) = gcd l r"
    unfolding gcd_loop_gcd by (rule gcd_int_def [symmetric])
  moreover have "gcd l r \<noteq> 0" using assms by (simp add: gcd_eq_0_iff)
  ultimately have "gcd_loop (nat \<bar>l\<bar>) (nat \<bar>r\<bar>) \<noteq> 0" by linarith
  then show ?thesis using i unfolding js_gcd_def Let_def by (simp only: if_False)
qed

lemma arbitrary_rate:
  assumes "x \<notin> \<int>" "d = js_gcd (math_round (x * of_int ARBITRARY_DENOMINATOR)) ARBITRARY_DENOMINATOR"
    and "r = \<lparr>numerator = math_round (x * of_int ARBITRARY_DENOMINATOR) div d, denominator = ARBITRARY_DENOMINATOR div d\<rparr>"
  shows "0 < denominator r" "coprime (numerator r) (denominator r)" "\<bar>frameRateToFloat r - x\<bar> \<le> 1 / 2000000"
proof -
  let ?n = "math_round (x * of_int ARBITRARY_DENOMINATOR)" and ?D = ARBITRARY_DENOMINATOR
  have D: "0 < ?D" by (simp add: ARBITRARY_DENOMINATOR_def)
  have d: "d = gcd ?n ?D" using assms(2) js_gcd_eq [of ?D ?n] D by simp
  have dpos: "0 < d" using D by (simp add: d)
  have dvd: "d dvd ?n" "d dvd ?D" by (simp_all add: d)
  show pos: "0 < denominator r" using D dpos dvd(2) by (simp add: assms(3) pos_imp_zdiv_pos_iff zdvd_imp_le)
  show "coprime (numerator r) (denominator r)"
    using D by (simp add: assms(3) d div_gcd_coprime)
  have "frameRateToFloat r = of_int ?n / of_int ?D"
    using dvd dpos by (simp add: frameRateToFloat_def assms(3) of_int_div)
  then have "(frameRateToFloat r - x) * 1000000 = of_int ?n - x * of_int ?D"
    by (simp add: ARBITRARY_DENOMINATOR_def algebra_simps)
  moreover have "\<bar>of_int ?n - x * of_int ?D\<bar> \<le> 1 / 2" by (rule math_round_error)
  ultimately have "\<bar>frameRateToFloat r - x\<bar> * 1000000 \<le> 1 / 2" by (metis abs_mult abs_numeral)
  then show "\<bar>frameRateToFloat r - x\<bar> \<le> 1 / 2000000" by simp
qed

lemma ntsc_coprime:
  "gcd 24000 (1001 :: int) = 1" "gcd 30000 (1001 :: int) = 1" "gcd 60000 (1001 :: int) = 1"
  by code_simp+

lemma standard_rates:
  "(v, r) \<in> set STANDARD_FRAME_RATES \<Longrightarrow>
   frameRateToFloat r = v \<and> 0 < denominator r \<and> coprime (numerator r) (denominator r)"
  by (auto simp: STANDARD_FRAME_RATES_def frameRateToFloat_def) (simp_all add: coprime_iff_gcd_eq_1 ntsc_coprime)

text \<open>The fraction chosen for a measured frame rate is in lowest terms with a positive denominator,
  and no further than the tolerance of 0.01 from the measured rate.\<close>
theorem floatToFrameRate_close:
  "0 < denominator (floatToFrameRate x)
   \<and> coprime (numerator (floatToFrameRate x)) (denominator (floatToFrameRate x))
   \<and> \<bar>frameRateToFloat (floatToFrameRate x) - x\<bar> \<le> 1 / 100"
proof (cases "find (\<lambda>c. \<bar>x - fst c\<bar> \<le> STANDARD_FRAME_RATE_TOLERANCE) STANDARD_FRAME_RATES")
  case (Some c)
  obtain v r where c: "c = (v, r)" by fastforce
  then have "(v, r) \<in> set STANDARD_FRAME_RATES" "\<bar>x - v\<bar> \<le> 1 / 100"
    using find_Some_setD [OF Some] by (simp_all add: STANDARD_FRAME_RATE_TOLERANCE_def)
  moreover from this have "frameRateToFloat r = v \<and> 0 < denominator r \<and> coprime (numerator r) (denominator r)"
    by (intro standard_rates)
  moreover have "floatToFrameRate x = r" by (simp add: floatToFrameRate_def Some c)
  ultimately show ?thesis by (simp add: abs_minus_commute)
next
  case None
  show ?thesis
  proof (cases "x \<in> \<int>")
    case True
    then show ?thesis using None by (auto simp: floatToFrameRate_def frameRateToFloat_def elim: Ints_cases)
  next
    case False
    have "floatToFrameRate x = \<lparr>numerator = math_round (x * of_int ARBITRARY_DENOMINATOR) div js_gcd (math_round (x * of_int ARBITRARY_DENOMINATOR)) ARBITRARY_DENOMINATOR,
       denominator = ARBITRARY_DENOMINATOR div js_gcd (math_round (x * of_int ARBITRARY_DENOMINATOR)) ARBITRARY_DENOMINATOR\<rparr>"
      using None False by (simp add: floatToFrameRate_def Let_def)
    from arbitrary_rate [OF False refl this] show ?thesis by force
  qed
qed

text \<open>The standard rates are recognised from their own value.\<close>

lemma standard_roundtrip: "list_all (\<lambda>(v, r). floatToFrameRate (frameRateToFloat r) = r) STANDARD_FRAME_RATES"
  by code_simp

lemma highest_fold:
  assumes "\<And>h. h0 = Some h \<Longrightarrow> 0 < h"
  shows "fold (\<lambda>a highest. if assetType a \<noteq> MVideo then highest
        else case assetFps a of None \<Rightarrow> highest
             | Some f \<Rightarrow> if f \<le> 0 then highest else (case highest of None \<Rightarrow> Some f | Some h \<Rightarrow> Some (max h f))) assets h0 = Some h \<Longrightarrow>
     (h0 = Some h \<or> (\<exists>a \<in> set assets. assetType a = MVideo \<and> assetFps a = Some h)) \<and> 0 < h
     \<and> (\<forall>x. h0 = Some x \<longrightarrow> x \<le> h) \<and> (\<forall>a \<in> set assets. assetType a = MVideo \<longrightarrow> (\<forall>f. assetFps a = Some f \<longrightarrow> f \<le> h))"
  using assms
proof (induction assets arbitrary: h0)
  case (Cons a assets)
  let ?h1 = "if assetType a \<noteq> MVideo then h0
        else case assetFps a of None \<Rightarrow> h0
             | Some f \<Rightarrow> if f \<le> 0 then h0 else (case h0 of None \<Rightarrow> Some f | Some h \<Rightarrow> Some (max h f))"
  have pos: "\<And>h. ?h1 = Some h \<Longrightarrow> 0 < h" using Cons.prems(2) by (auto split: option.splits if_splits simp: max_def)
  note ih = Cons.IH [OF _ pos]
  from Cons.prems(1) have "(?h1 = Some h \<or> (\<exists>a \<in> set assets. assetType a = MVideo \<and> assetFps a = Some h)) \<and> 0 < h
     \<and> (\<forall>x. ?h1 = Some x \<longrightarrow> x \<le> h) \<and> (\<forall>a \<in> set assets. assetType a = MVideo \<longrightarrow> (\<forall>f. assetFps a = Some f \<longrightarrow> f \<le> h))"
    by (intro ih) simp_all
  then show ?case by (auto split: option.splits if_splits simp: max_def)
qed auto

lemma highest_imported:
  assumes "getHighestImportedVideoFps assets = Some h"
  shows "\<exists>a \<in> set assets. assetType a = MVideo \<and> assetFps a = Some h"
    and "0 < h" and "\<forall>a \<in> set assets. assetType a = MVideo \<longrightarrow> (\<forall>f. assetFps a = Some f \<longrightarrow> f \<le> h)"
  using highest_fold [of None assets h] assms by (simp_all add: getHighestImportedVideoFps_def)

text \<open>Importing videos raises the project's frame rate to within 0.01 of the fastest of them when that
  one is faster, and otherwise leaves it alone.\<close>
theorem ratchet_follows_fastest:
  assumes "getRaisedProjectFpsForImportedMedia current assets = Some r"
  shows "(\<exists>a \<in> set assets. assetType a = MVideo \<and> (\<exists>f. assetFps a = Some f \<and> frameRateToFloat current < f
            \<and> \<bar>frameRateToFloat r - f\<bar> \<le> 1 / 100))
    \<and> (\<forall>a \<in> set assets. assetType a = MVideo \<longrightarrow> (\<forall>f. assetFps a = Some f \<longrightarrow> f - 1 / 100 \<le> frameRateToFloat r))"
proof -
  obtain h where h: "getHighestImportedVideoFps assets = Some h" "frameRateToFloat current < h" "r = floatToFrameRate h"
    using assms by (auto simp: getRaisedProjectFpsForImportedMedia_def split: option.splits if_splits)
  note hi = highest_imported [OF h(1)]
  have "\<bar>frameRateToFloat r - h\<bar> \<le> 1 / 100" using floatToFrameRate_close [of h] h(3) by simp
  then have close: "\<bar>frameRateToFloat r - h\<bar> \<le> 1 / 100" "h - 1 / 100 \<le> frameRateToFloat r" by linarith+
  have "f - 1 / 100 \<le> frameRateToFloat r" if "f \<le> h" for f using close(2) that by linarith
  then show ?thesis using hi(1,3) h(2) close(1) by blast
qed

theorem ratchet_follows_fastest_witness:
  "\<bar>frameRateToFloat (floatToFrameRate (60)) - 60\<bar> \<le> 1 / 100"
proof -
  let ?a = "\<lparr>assetId = ''X'', assetName = ''x.mp4'', assetType = MVideo, assetWidth = None, assetHeight = None,
     assetFps = Some (60), hasAudio = None\<rparr> :: media_asset"
  have "getRaisedProjectFpsForImportedMedia \<lparr>numerator = 30, denominator = 1\<rparr> [?a] = Some (floatToFrameRate (60))"
    by (simp add: getRaisedProjectFpsForImportedMedia_def getHighestImportedVideoFps_def frameRateToFloat_def)
  from ratchet_follows_fastest [OF this] show ?thesis by simp
qed

end
