(* ===== verification/Insert_Commands.thy ===== *)
theory Insert_Commands
  imports Element_Commands Project
begin

text \<open>
  The commands that bring elements in: inserting a new element
  (\<open>commands/timeline/element/insert-element.ts\<close>), pasting copied ones
  (\<open>commands/timeline/clipboard/paste.ts\<close>, with the element half of \<open>clipboard/handlers/elements.ts\<close>)
  and separating the audio of a video (\<open>toggle-source-audio-separation.ts\<close>,
  \<open>timeline/audio-separation/index.ts\<close>).
\<close>

section \<open>Inserting (\<open>insert-element.ts\<close>)\<close>

text \<open>A \<open>CreateTimelineElement\<close>: an element whose id is not used yet and whose trims and duration may be
  absent.\<close>

record create_element =
  ce_element :: timeline_element
  ce_trimStart :: "media_time option"
  ce_trimEnd :: "media_time option"
  ce_duration :: "media_time option"

datatype insert_placement = ExplicitPlacement uuid | AutoPlacement "track_type option" "int option"

definition DEFAULT_NEW_ELEMENT_DURATION :: "wasm_api \<Rightarrow> media_time" where
  "DEFAULT_NEW_ELEMENT_DURATION w = 5 * ticksPerSecond w"

definition truthy_field :: "string \<Rightarrow> timeline_element \<Rightarrow> bool" where
  "truthy_field k e =
     (case map_of (rest e) k of
        None \<Rightarrow> False
      | Some JUndefined \<Rightarrow> False
      | Some (JString s) \<Rightarrow> s \<noteq> []
      | Some (JNumber x) \<Rightarrow> x \<noteq> 0
      | Some (JBool b) \<Rightarrow> b
      | _ \<Rightarrow> True)"

text \<open>The ids that \<open>registerDefaultGraphics\<close> registers.\<close>

definition graphicsRegistry :: "string list" where
  "graphicsRegistry = [''rectangle'', ''ellipse'', ''polygon'', ''star'']"

definition validateElementBasics :: "timeline_element \<Rightarrow> bool" where
  "validateElementBasics e \<longleftrightarrow>
     \<not> (requiresMediaId e \<and> mediaId e = None)
     \<and> \<not> (elementType e = EAudio \<and> sourceType e = Some SLibrary \<and> \<not> truthy_field ''sourceUrl'' e)
     \<and> \<not> (elementType e = ESticker \<and> \<not> truthy_field ''stickerId'' e)
     \<and> \<not> (elementType e = EGraphic
          \<and> (\<not> truthy_field ''definitionId'' e
             \<or> (case map_of (rest e) ''definitionId'' of Some (JString s) \<Rightarrow> s \<notin> set graphicsRegistry | _ \<Rightarrow> True)))
     \<and> \<not> (elementType e = EText \<and> \<not> truthy_field ''content'' e)
     \<and> \<not> (elementType e = EEffect \<and> \<not> truthy_field ''effectType'' e)"

definition buildElement :: "wasm_api \<Rightarrow> uuid \<Rightarrow> create_element \<Rightarrow> timeline_element" where
  "buildElement w eid c = (ce_element c)\<lparr>elementId := eid,
     trimStart := (case ce_trimStart c of None \<Rightarrow> 0 | Some t \<Rightarrow> t),
     trimEnd := (case ce_trimEnd c of None \<Rightarrow> 0 | Some t \<Rightarrow> t),
     duration := (case ce_duration c of None \<Rightarrow> DEFAULT_NEW_ELEMENT_DURATION w | Some t \<Rightarrow> t)\<rparr>"

text \<open>How many ids \<open>applyPlacement\<close> draws.\<close>

definition ids_drawn :: "placement_result \<Rightarrow> nat" where
  "ids_drawn res = (case res of NewTrack _ _ _ \<Rightarrow> 1 | ExistingTrack _ _ _ _ \<Rightarrow> 0)"

definition applyPlacementResult ::
    "(nat \<Rightarrow> uuid) \<Rightarrow> nat \<Rightarrow> insert_placement \<Rightarrow> timeline_element \<Rightarrow> scene_tracks \<Rightarrow>
     (scene_tracks \<times> uuid) option \<times> nat" where
  "applyPlacementResult gen n pl e ts =
     (let tt = (case pl of AutoPlacement (Some tt) _ \<Rightarrow> tt | _ \<Rightarrow> getTrackTypeForElementType (elementType e));
          refused = (case pl of AutoPlacement (Some tt) _ \<Rightarrow> \<not> canElementGoOnTrack (elementType e) tt | _ \<Rightarrow> False)
      in if refused then (None, n)
         else case resolveTrackPlacement ts tt [span_of e]
                (case pl of ExplicitPlacement tid \<Rightarrow> Explicit tid | AutoPlacement _ _ \<Rightarrow> FirstAvailable) of
                None \<Rightarrow> (None, n)
              | Some res \<Rightarrow>
                  (applyPlacement ts res [with_adjusted_start res e]
                     (case pl of AutoPlacement _ idx \<Rightarrow> idx | ExplicitPlacement _ \<Rightarrow> None) (gen n),
                   n + ids_drawn res))"

definition total_elements :: "scene_tracks \<Rightarrow> nat" where
  "total_elements ts = length (elements (main ts)) + sum_list (map (\<lambda>tr. length (elements tr)) (overlay ts))
     + sum_list (map (\<lambda>tr. length (elements tr)) (audio ts))"

text \<open>The first video or image of a timeline decides the canvas size, a video the frame rate too.\<close>

definition settings_for_first ::
    "media_asset list \<Rightarrow> project_settings \<Rightarrow> timeline_element \<Rightarrow> settings_update list" where
  "settings_for_first assets settings e =
     (case find (\<lambda>a. Some (assetId a) = mediaId e) assets of
        None \<Rightarrow> []
      | Some a \<Rightarrow>
          (case (assetWidth a, assetHeight a) of
             (Some w, Some h) \<Rightarrow>
               if w \<noteq> 0 \<and> h \<noteq> 0
               then let size = \<lparr>cs_width = w, cs_height = h\<rparr>
                    in SCanvasSize size #
                       (case originalCanvasSize settings of
                          Some (Some _) \<Rightarrow> [] | _ \<Rightarrow> [SOriginalCanvasSize (Some (Some size))])
               else []
           | _ \<Rightarrow> [])
          @ (if assetType a = MVideo
             then (case assetFps a of Some f \<Rightarrow> if f \<noteq> 0 then [SFps (floatToFrameRate f)] else [] | None \<Rightarrow> []) else []))"

text \<open>\<open>execute\<close>: what becomes of the settings, of the tracks and the selection, and the id counter. The
  element's own id is drawn by the constructor.\<close>

definition insertElement ::
    "wasm_api \<Rightarrow> (nat \<Rightarrow> uuid) \<Rightarrow> nat \<Rightarrow> media_asset list \<Rightarrow> project_settings \<Rightarrow> create_element \<Rightarrow> insert_placement \<Rightarrow> uuid \<Rightarrow>
     scene_tracks \<Rightarrow> settings_update list \<times> outcome \<times> nat" where
  "insertElement w gen n assets settings c pl eid ts =
     (if \<not> validateElementBasics (ce_element c) then ([], unchanged, n)
      else
        let e = buildElement w eid c
        in case applyPlacementResult gen n pl e ts of
             (None, n') \<Rightarrow> ([], unchanged, n')
           | (Some (ts', tid), n') \<Rightarrow>
               (if total_elements ts = 0 \<and> (elementType e = EVideo \<or> elementType e = EImage)
                then settings_for_first assets settings e else [],
                updated ts' (Some (createElementSelectionResult [\<lparr>ref_trackId = tid, ref_elementId = eid\<rparr>])), n'))"

section \<open>Pasting (\<open>paste.ts\<close>)\<close>

record clipboard_item =
  ci_trackId :: uuid
  ci_trackType :: track_type
  ci_element :: timeline_element

text \<open>\<open>ElementsClipboardHandler.copy\<close> over \<open>getElementsWithTracks\<close>; the id of a copied element is
  not used any more.\<close>

definition getElementsWithTracks :: "element_ref list \<Rightarrow> scene_tracks \<Rightarrow> (track \<times> timeline_element) list" where
  "getElementsWithTracks refs ts = List.map_filter (find_ref ts) refs"

definition copyElements :: "element_ref list \<Rightarrow> scene_tracks \<Rightarrow> clipboard_item list option" where
  "copyElements refs ts =
     (if refs = [] then None
      else let items = map (\<lambda>(tr, e). \<lparr>ci_trackId = trackId tr, ci_trackType = trackType tr, ci_element = e\<rparr>)
                         (getElementsWithTracks refs ts)
           in if items = [] then None else Some items)"

definition paste_min_start :: "clipboard_item list \<Rightarrow> media_time" where
  "paste_min_start items =
     (case items of [] \<Rightarrow> 0
      | i # is \<Rightarrow> fold (\<lambda>x earliest. if startTime (ci_element x) < earliest then startTime (ci_element x) else earliest)
          (i # is) (startTime (ci_element i)))"

definition groupClipboardItemsByTrackId :: "clipboard_item list \<Rightarrow> (uuid \<times> clipboard_item list) list" where
  "groupClipboardItemsByTrackId items = group_by ci_trackId items"

fun buildPastedElements ::
    "(nat \<Rightarrow> uuid) \<Rightarrow> nat \<Rightarrow> clipboard_item list \<Rightarrow> media_time \<Rightarrow> media_time \<Rightarrow> timeline_element list \<times> nat" where
  "buildPastedElements gen n [] minStart t = ([], n)"
| "buildPastedElements gen n (i # is) minStart t =
     (let e = ci_element i;
          relativeOffset = subMediaTime (startTime e) minStart;
          start = maxMediaTime ZERO_MEDIA_TIME (addMediaTime t relativeOffset);
          (a, n') = cloneAnimations gen (Suc n) (animations e) True;
          (es, n'') = buildPastedElements gen n' is minStart t
      in (e\<lparr>elementId := gen n, startTime := start, animations := a\<rparr> # es, n''))"

text \<open>On the main track the whole group follows its earliest element to the start of the track.\<close>

definition shift_to_main_start :: "scene_tracks \<Rightarrow> placement_result \<Rightarrow> timeline_element list \<Rightarrow> timeline_element list" where
  "shift_to_main_start ts res es =
     (case res of
        NewTrack _ _ _ \<Rightarrow> es
      | ExistingTrack _ idx _ _ \<Rightarrow>
          (case (js_at (orderedTracks ts) idx, es) of
             (Some target, x # xs) \<Rightarrow>
               if trackId target = trackId (main ts)
               then let earliest = fold earlier xs x;
                        adjusted = enforceMainTrackStart ts (trackId target) (startTime earliest) None;
                        delta = subMediaTime adjusted (startTime earliest)
                    in if delta \<noteq> ZERO_MEDIA_TIME
                       then map (\<lambda>e. e\<lparr>startTime := maxMediaTime ZERO_MEDIA_TIME (addMediaTime (startTime e) delta)\<rparr>) es
                       else es
               else es
           | _ \<Rightarrow> es))"

definition paste_group ::
    "(nat \<Rightarrow> uuid) \<Rightarrow> media_time \<Rightarrow> media_time \<Rightarrow> uuid \<times> clipboard_item list \<Rightarrow>
     scene_tracks \<times> element_ref list \<times> nat \<Rightarrow> scene_tracks \<times> element_ref list \<times> nat" where
  "paste_group gen minStart t grp st =
     (case (grp, st) of ((tid, items), (ts, pasted, n)) \<Rightarrow>
        (case buildPastedElements gen n items minStart t of
           ([], n') \<Rightarrow> (ts, pasted, n')
         | (es, n') \<Rightarrow>
             let tt = ci_trackType (hd items);
                 sourceIdx = (case findIndex (\<lambda>tr. trackId tr = tid) (orderedTracks ts) of None \<Rightarrow> -1 | Some i \<Rightarrow> int i)
             in case resolveTrackPlacement ts tt (map span_of es) (AboveSource sourceIdx) of
                  None \<Rightarrow> (ts, pasted, n')
                | Some res \<Rightarrow>
                    let es' = shift_to_main_start ts res es
                    in case applyPlacement ts res es' None (gen n') of
                         None \<Rightarrow> (ts, pasted, n' + ids_drawn res)
                       | Some (ts', target) \<Rightarrow>
                           (ts', pasted @ map (\<lambda>e. \<lparr>ref_trackId = target, ref_elementId = elementId e\<rparr>) es', n' + ids_drawn res)))"

definition pasteElements ::
    "(nat \<Rightarrow> uuid) \<Rightarrow> nat \<Rightarrow> media_time \<Rightarrow> clipboard_item list \<Rightarrow> scene_tracks \<Rightarrow> outcome \<times> nat" where
  "pasteElements gen n t items ts =
     (if items = [] then (unchanged, n)
      else case fold (paste_group gen (paste_min_start items) t) (groupClipboardItemsByTrackId items) (ts, [], n) of
             (ts', pasted, n') \<Rightarrow>
               (updated ts' (if length pasted > 0 then Some (createElementSelectionResult pasted) else None), n'))"

section \<open>Separating audio (\<open>audio-separation/index.ts\<close>, \<open>toggle-source-audio-separation.ts\<close>)\<close>

definition source_audio_enabled :: "timeline_element \<Rightarrow> bool" where
  "source_audio_enabled e \<longleftrightarrow> isSourceAudioEnabled e \<noteq> Some False"

definition isSourceAudioSeparated :: "timeline_element \<Rightarrow> bool" where
  "isSourceAudioSeparated e \<longleftrightarrow> \<not> source_audio_enabled e"

definition canExtractSourceAudio :: "timeline_element \<Rightarrow> media_asset option \<Rightarrow> bool" where
  "canExtractSourceAudio e asset \<longleftrightarrow> elementType e = EVideo \<and> source_audio_enabled e
     \<and> (case asset of None \<Rightarrow> False | Some a \<Rightarrow> hasAudio a \<noteq> Some False)"

definition canRecoverSourceAudio :: "timeline_element \<Rightarrow> bool" where
  "canRecoverSourceAudio e \<longleftrightarrow> elementType e = EVideo \<and> isSourceAudioSeparated e"

definition canToggleSourceAudio :: "timeline_element \<Rightarrow> media_asset option \<Rightarrow> bool" where
  "canToggleSourceAudio e asset \<longleftrightarrow> canRecoverSourceAudio e \<or> canExtractSourceAudio e asset"

definition doesElementHaveEnabledAudio :: "timeline_element \<Rightarrow> media_asset option \<Rightarrow> bool" where
  "doesElementHaveEnabledAudio e asset \<longleftrightarrow> elementType e = EAudio
     \<or> (case asset of None \<Rightarrow> False | Some a \<Rightarrow> hasAudio a \<noteq> Some False) \<and> source_audio_enabled e"

definition cloneVolumeAnimations ::
    "(nat \<Rightarrow> uuid) \<Rightarrow> nat \<Rightarrow> element_animations option \<Rightarrow> element_animations option \<times> nat" where
  "cloneVolumeAnimations gen n a =
     (case a of
        None \<Rightarrow> (None, n)
      | Some x \<Rightarrow>
          (case prop_get (bindings x) ''volume'' of
             None \<Rightarrow> (None, n)
           | Some b \<Rightarrow>
               let subset = js_map (List.map_filter (\<lambda>(_, cid). map_option (\<lambda>ch. (cid, Some ch)) (prop_get (channels x) cid)) (components b))
               in if subset = [] then (None, n)
                  else cloneAnimations gen n (Some \<lparr>bindings = [(''volume'', Some b)], channels = subset\<rparr>) True))"

text \<open>The new element without its id.\<close>

definition buildSeparatedAudioElement ::
    "(nat \<Rightarrow> uuid) \<Rightarrow> nat \<Rightarrow> timeline_element \<Rightarrow> timeline_element \<times> nat" where
  "buildSeparatedAudioElement gen n e =
     (case cloneVolumeAnimations gen n (animations e) of
        (a, n') \<Rightarrow>
          (\<lparr>elementId = [], elementName = elementName e, elementType = EAudio, startTime = startTime e,
            duration = duration e, trimStart = trimStart e, trimEnd = trimEnd e, sourceDuration = sourceDuration e,
            animations = a, retime = retime e, mediaId = mediaId e, sourceType = Some SUpload, el_hidden = None,
            el_muted = (case el_muted e of None \<Rightarrow> Some False | m \<Rightarrow> m), isSourceAudioEnabled = None,
            rest = [(''volume'', case map_of (rest e) ''volume'' of None \<Rightarrow> JNumber 0 | Some v \<Rightarrow> v)]\<rparr>, n'))"

definition updateSourceAudioEnabled :: "scene_tracks \<Rightarrow> element_ref \<Rightarrow> bool \<Rightarrow> scene_tracks" where
  "updateSourceAudioEnabled ts r b =
     updateElementInSceneTracks ts (ref_trackId r) (ref_elementId r) (\<lambda>e. e\<lparr>isSourceAudioEnabled := Some b\<rparr>)
       (\<lambda>e. elementType e = EVideo)"

definition toggleSourceAudioSeparation ::
    "(nat \<Rightarrow> uuid) \<Rightarrow> nat \<Rightarrow> media_asset list \<Rightarrow> element_ref \<Rightarrow> scene_tracks \<Rightarrow> outcome \<times> nat" where
  "toggleSourceAudioSeparation gen n assets r ts =
     (case find (\<lambda>tr. trackId tr = ref_trackId r) (orderedTracks ts) of
        None \<Rightarrow> (unchanged, n)
      | Some tr \<Rightarrow>
          (case find (\<lambda>e. elementId e = ref_elementId r) (elements tr) of
             None \<Rightarrow> (unchanged, n)
           | Some e \<Rightarrow>
               if elementType e \<noteq> EVideo then (unchanged, n)
               else if isSourceAudioSeparated e then (updated (updateSourceAudioEnabled ts r True) None, n)
               else if \<not> canExtractSourceAudio e (find (\<lambda>a. Some (assetId a) = mediaId e) assets) then (unchanged, n)
               else if duration e \<le> 0 then (unchanged, n)
               else
                 let (a, n') = buildSeparatedAudioElement gen n e;
                     a' = a\<lparr>elementId := gen n'\<rparr>
                 in case resolveTrackPlacement ts TAudio [span_of a'] FirstAvailable of
                      None \<Rightarrow> (unchanged, Suc n')
                    | Some res \<Rightarrow>
                        (case applyPlacement ts res [a'] None (gen (Suc n')) of
                           None \<Rightarrow> (unchanged, Suc n' + ids_drawn res)
                         | Some (ts', _) \<Rightarrow> (updated (updateSourceAudioEnabled ts' r False) None, Suc n' + ids_drawn res))))"

section \<open>Inserting keeps the timeline well formed\<close>

lemma fresh_supply_here: "fresh_supply gen n S \<Longrightarrow> gen n \<notin> S"
  by (simp add: fresh_supply_def)

lemma buildElement_proj [simp]:
  "elementId (buildElement w eid c) = eid" "elementType (buildElement w eid c) = elementType (ce_element c)"
  "startTime (buildElement w eid c) = startTime (ce_element c)"
  by (simp_all add: buildElement_def)

lemma with_adjusted_proj [simp]:
  "elementId (with_adjusted_start res e) = elementId e" "elementType (with_adjusted_start res e) = elementType e"
  by (simp_all add: with_adjusted_start_def split: placement_result.splits option.splits)

text \<open>Inserting a valid element without naming a track always finds a place: the timeline stays well
  formed, the element is on the track that the selection then names, and that track is of its type.\<close>
theorem insert_auto_places:
  assumes "tracks_wf ts" "validateElementBasics (ce_element c)" "0 \<le> startTime (ce_element c)"
    and "fresh_supply gen n (trackId ` set (orderedTracks ts))"
    and "\<forall>tr \<in> set (orderedTracks ts). \<forall>x \<in> set (elements tr). 0 < duration x"
    and "case tt of None \<Rightarrow> True | Some t \<Rightarrow> canElementGoOnTrack (elementType (ce_element c)) t"
  shows "\<exists>us ts' tid n' tr e. insertElement w gen n assets settings c (AutoPlacement tt idx) eid ts
      = (us, updated ts' (Some (createElementSelectionResult [\<lparr>ref_trackId = tid, ref_elementId = eid\<rparr>])), n')
    \<and> tracks_wf ts' \<and> tr \<in> set (orderedTracks ts') \<and> trackId tr = tid \<and> e \<in> set (elements tr) \<and> elementId e = eid
    \<and> canElementGoOnTrack (elementType (ce_element c)) (trackType tr)"
proof -
  let ?e = "buildElement w eid c"
  define t where "t = (case tt of None \<Rightarrow> getTrackTypeForElementType (elementType ?e) | Some t \<Rightarrow> t)"
  have go: "canElementGoOnTrack (elementType ?e) t" using assms(6) by (auto simp: t_def canElementGoOnTrack_def split: option.splits)
  obtain res ts' tid where res: "resolveTrackPlacement ts t [span_of ?e] FirstAvailable = Some res"
      "applyPlacement ts res [with_adjusted_start res ?e] idx (gen n) = Some (ts', tid)" "tracks_wf ts'"
    and tr: "\<exists>tr \<in> set (orderedTracks ts'). trackId tr = tid \<and> with_adjusted_start res ?e \<in> set (elements tr)"
    using place_element_wf [OF assms(1) _ go fresh_supply_here [OF assms(4)], of FirstAvailable idx] assms(3,5)
    by (auto simp: checks_room_def)
  obtain tr where tr: "tr \<in> set (orderedTracks ts')" "trackId tr = tid" "with_adjusted_start res ?e \<in> set (elements tr)"
    using tr by blast
  have "track_typed tr" using res(3) tr(1) by (simp add: tracks_wf_def tracks_typed_def list_all_iff)
  then have ty: "canElementGoOnTrack (elementType (ce_element c)) (trackType tr)"
    using tr(3) by (fastforce simp: track_typed_def list_all_iff)
  have "applyPlacementResult gen n (AutoPlacement tt idx) ?e ts = (Some (ts', tid), n + ids_drawn res)"
    using res(1,2) go by (cases tt) (simp_all add: applyPlacementResult_def t_def)
  then have ins: "insertElement w gen n assets settings c (AutoPlacement tt idx) eid ts
      = (if total_elements ts = 0 \<and> (elementType ?e = EVideo \<or> elementType ?e = EImage) then settings_for_first assets settings ?e else [],
         updated ts' (Some (createElementSelectionResult [\<lparr>ref_trackId = tid, ref_elementId = eid\<rparr>])), n + ids_drawn res)"
    using assms(2) by (simp add: insertElement_def)
  show ?thesis unfolding ins using res(3) tr ty
    by (intro exI [of _ tr] exI [of _ "with_adjusted_start res ?e"] exI conjI) (rule refl, simp_all)
qed

text \<open>A refused insertion leaves tracks, settings and selection alone: an element that lacks what its type
  requires, or a requested track type that the element cannot go on.\<close>
lemma insert_refused:
  assumes "\<not> validateElementBasics (ce_element c) \<or> (case pl of AutoPlacement (Some t) _ \<Rightarrow> \<not> canElementGoOnTrack (elementType (ce_element c)) t | _ \<Rightarrow> False)"
  shows "insertElement w gen n assets settings c pl eid ts = ([], unchanged, n)"
  using assms by (auto simp: insertElement_def applyPlacementResult_def split: insert_placement.splits option.splits)

section \<open>Pasting\<close>

text \<open>What a copied group of elements satisfies: they fit the type of their track and do not overlap.\<close>

definition clipboard_ok :: "clipboard_item list \<Rightarrow> bool" where
  "clipboard_ok items \<longleftrightarrow> no_overlap (map ci_element items)
     \<and> list_all (\<lambda>i. canElementGoOnTrack (elementType (ci_element i)) (ci_trackType (hd items))) items"

lemma min_start_fold:
  "fold (\<lambda>x earliest. if startTime (ci_element x) < earliest then startTime (ci_element x) else earliest) items m \<le> m
   \<and> (\<forall>i \<in> set items. fold (\<lambda>x earliest. if startTime (ci_element x) < earliest then startTime (ci_element x) else earliest) items m
       \<le> startTime (ci_element i))"
proof (induction items arbitrary: m)
  case (Cons a items)
  show ?case using Cons [of "if startTime (ci_element a) < m then startTime (ci_element a) else m"] by auto
qed simp

lemma paste_min_start_le: "i \<in> set items \<Longrightarrow> paste_min_start items \<le> startTime (ci_element i)"
  using min_start_fold [of items "startTime (ci_element (hd items))"]
  by (cases items) (auto simp: paste_min_start_def)

text \<open>A pasted element keeps the span of the copied one, moved to the paste time.\<close>

definition pasted_as :: "media_time \<Rightarrow> media_time \<Rightarrow> clipboard_item \<Rightarrow> timeline_element \<Rightarrow> bool" where
  "pasted_as minStart t i x \<longleftrightarrow> startTime x = t + (startTime (ci_element i) - minStart) \<and> duration x = duration (ci_element i)
     \<and> elementName x = elementName (ci_element i) \<and> elementType x = elementType (ci_element i)
     \<and> trimStart x = trimStart (ci_element i) \<and> trimEnd x = trimEnd (ci_element i)"

lemma buildPasted:
  assumes "buildPastedElements gen n items minStart t = (es, n')" "0 \<le> t" "\<forall>i \<in> set items. minStart \<le> startTime (ci_element i)"
  shows "list_all2 (pasted_as minStart t) items es \<and> n \<le> n'"
  using assms
proof (induction items arbitrary: n es n')
  case (Cons i items)
  obtain a m where a: "cloneAnimations gen (Suc n) (animations (ci_element i)) True = (a, m)" by fastforce
  obtain xs k where xs: "buildPastedElements gen m items minStart t = (xs, k)" by fastforce
  have "es = (ci_element i)\<lparr>elementId := gen n, startTime := max 0 (t + (startTime (ci_element i) - minStart)), animations := a\<rparr> # xs" "n' = k"
    using Cons.prems(1) a xs by (auto simp: Let_def)
  moreover have "list_all2 (pasted_as minStart t) items xs" "m \<le> k" using Cons.IH [OF xs] Cons.prems by simp_all
  moreover have "pasted_as minStart t i ((ci_element i)\<lparr>elementId := gen n, startTime := max 0 (t + (startTime (ci_element i) - minStart)), animations := a\<rparr>)"
    using Cons.prems(2,3) by (simp add: pasted_as_def)
  moreover have "Suc n \<le> m" using cloneAnimations_mono [of "Suc n" gen "animations (ci_element i)" True] a by simp
  ultimately show ?case by simp
qed simp

lemma pasted_no_overlap: "list_all2 (pasted_as minStart t) items es \<Longrightarrow> no_overlap (map ci_element items) \<Longrightarrow> no_overlap es"
proof (induction items es rule: list_all2_induct)
  case (Cons i items e es)
  have "elements_disjoint e x" if "x \<in> set es" for x
  proof -
    obtain j where "j \<in> set items" "pasted_as minStart t j x"
      using Cons.hyps(2) \<open>x \<in> set es\<close> by (metis list_all2_conv_all_nth in_set_conv_nth)
    then show ?thesis using Cons.hyps(1) Cons.prems by (force simp: no_overlap_def pasted_as_def elementEnd_def)
  qed
  then show ?case using Cons by (simp add: no_overlap_def)
qed (simp add: no_overlap_def)

text \<open>Nothing is shifted when the main track already has an element that starts before the paste time.\<close>

lemma no_shift:
  assumes "\<exists>x \<in> set (elements (main ts)). startTime x < t" "\<forall>e \<in> set es. t \<le> startTime e"
  shows "shift_to_main_start ts res es = es"
proof -
  obtain x where x: "x \<in> set (elements (main ts))" "startTime x < t" using assms(1) by blast
  have k: "keeps_element None y" for y by (simp add: keeps_element_def truthy_id_def)
  obtain y where y: "getEarliestMainTrackElement (main ts) None = Some y"
    using x(1) k earliest_None [of "main ts" None] by (cases "getEarliestMainTrackElement (main ts) None") auto
  have "startTime y < t" using earliest_Some [OF y] x k by force
  moreover have "t \<le> startTime (fold earlier zs z)" if "es = z # zs" for z zs
    using fold_earlier [of zs z] assms(2) that by auto
  ultimately have "enforceMainTrackStart ts tid (startTime (fold earlier zs z)) None = startTime (fold earlier zs z)"
    if "es = z # zs" for z zs tid using y that by (force simp: enforceMainTrackStart_def)
  then show ?thesis
    by (simp add: shift_to_main_start_def Let_def split: placement_result.splits option.splits list.splits)
qed

definition keeps_elements :: "scene_tracks \<Rightarrow> scene_tracks \<Rightarrow> bool" where
  "keeps_elements ts ts' \<longleftrightarrow> (\<forall>tr \<in> set (orderedTracks ts). \<exists>tr' \<in> set (orderedTracks ts').
     trackId tr' = trackId tr \<and> set (elements tr) \<subseteq> set (elements tr'))"

lemma keeps_elements_trans: "keeps_elements a b \<Longrightarrow> keeps_elements b c \<Longrightarrow> keeps_elements a c"
  unfolding keeps_elements_def by (metis order_trans)

definition paste_state :: "(nat \<Rightarrow> uuid) \<Rightarrow> media_time \<Rightarrow> scene_tracks \<Rightarrow> nat \<Rightarrow> bool" where
  "paste_state gen t ts n \<longleftrightarrow> tracks_wf ts \<and> fresh_supply gen n (trackId ` set (orderedTracks ts))
     \<and> (\<exists>x \<in> set (elements (main ts)). startTime x < t)"

definition is_pasted :: "media_time \<Rightarrow> media_time \<Rightarrow> scene_tracks \<Rightarrow> clipboard_item \<Rightarrow> bool" where
  "is_pasted minStart t ts i \<longleftrightarrow> (\<exists>tr \<in> set (orderedTracks ts). \<exists>x \<in> set (elements tr). pasted_as minStart t i x)"

lemma is_pasted_kept: "is_pasted m t ts i \<Longrightarrow> keeps_elements ts ts' \<Longrightarrow> is_pasted m t ts' i"
  unfolding is_pasted_def keeps_elements_def by (meson subsetD)

lemma fresh_supply_after:
  assumes "fresh_supply gen n S" "S' \<subseteq> insert (gen m) S" "n \<le> m" "gen m \<in> S' \<longrightarrow> gen m \<in> S \<or> m < n'" "m \<le> n'"
  shows "fresh_supply gen n' S'"
proof -
  have "gen k \<notin> S'" if k: "n' \<le> k" for k
  proof
    assume "gen k \<in> S'"
    then have "gen k = gen m" using assms(1-3,5) k by (auto simp: fresh_supply_def)
    then have "k = m" using assms(1) by (auto simp: fresh_supply_def dest: injD)
    then show False using \<open>gen k \<in> S'\<close> assms k by (auto simp: fresh_supply_def)
  qed
  then show ?thesis using assms(1) by (simp add: fresh_supply_def)
qed

lemma paste_group_ok:
  assumes "paste_state gen t ts n" "0 \<le> t" "items \<noteq> []" "clipboard_ok items"
    and "\<forall>i \<in> set items. minStart \<le> startTime (ci_element i)"
    and "paste_group gen minStart t (k, items) (ts, pasted, n) = (ts', pasted', n')"
  shows "paste_state gen t ts' n' \<and> keeps_elements ts ts' \<and> (\<forall>i \<in> set items. is_pasted minStart t ts' i)"
proof -
  have st: "tracks_wf ts" "fresh_supply gen n (trackId ` set (orderedTracks ts))" "\<exists>x \<in> set (elements (main ts)). startTime x < t"
    using assms(1) by (simp_all add: paste_state_def)
  obtain es m where b: "buildPastedElements gen n items minStart t = (es, m)" by fastforce
  have p: "list_all2 (pasted_as minStart t) items es" "n \<le> m" using buildPasted [OF b assms(2,5)] by simp_all
  obtain e0 es0 where es: "es = e0 # es0" using p(1) assms(3) by (cases es) auto
  define tt where "tt = ci_trackType (hd items)"
  have ex: "\<exists>i \<in> set items. pasted_as minStart t i e" if e: "e \<in> set es" for e
    using p(1) e by (metis list_all2_conv_all_nth in_set_conv_nth)
  have no: "no_overlap es" using pasted_no_overlap [OF p(1)] assms(4) by (simp add: clipboard_ok_def)
  have ty: "list_all (\<lambda>e. canElementGoOnTrack (elementType e) tt) es"
    using ex assms(4) by (fastforce simp: list_all_iff clipboard_ok_def tt_def pasted_as_def)
  have late: "\<forall>e \<in> set es. t \<le> startTime e" using ex assms(5) by (force simp: pasted_as_def)
  obtain idx where idx: "idx = (case findIndex (\<lambda>tr. trackId tr = k) (orderedTracks ts) of None \<Rightarrow> -1 | Some i \<Rightarrow> int i)" by blast
  have cr: "checks_room (AboveSource idx)" by (simp add: checks_room_def)
  obtain res where res: "resolveTrackPlacement ts tt (map span_of es) (AboveSource idx) = Some res"
    using checked_strategy_resolves [OF cr] by blast
  have fr: "gen m \<notin> trackId ` set (orderedTracks ts)" using st(2) p(2) by (simp add: fresh_supply_def)
  obtain ts1 tid where ap: "applyPlacement ts res es None (gen m) = Some (ts1, tid)" and w: "tracks_wf ts1"
    and tr: "\<exists>tr \<in> set (orderedTracks ts1). trackId tr = tid \<and> set es \<subseteq> set (elements tr)"
    and keep: "keeps_elements ts ts1"
    and ids: "trackId ` set (orderedTracks ts1) \<subseteq> insert (gen m) (trackId ` set (orderedTracks ts))"
    and mn: "set (elements (main ts)) \<subseteq> set (elements (main ts1))"
    using place_elements_wf [OF st(1) cr ty no fr res, of None] unfolding keeps_elements_def by blast
  have out: "ts' = ts1" "n' = m + ids_drawn res"
    using assms(6) b es res ap no_shift [OF st(3) late] by (auto simp: paste_group_def tt_def idx Let_def)
  have "gen m \<notin> trackId ` set (orderedTracks ts1) \<or> ids_drawn res = 1"
  proof (cases res)
    case (ExistingTrack a i b c)
    then have "ts1 = updateTrackInSceneTracks ts tid (\<lambda>tr. tr\<lparr>elements := elements tr @ es\<rparr>)"
      using ap by (auto simp: applyPlacement_def split: option.splits)
    then have "map trackId (orderedTracks ts1) = map trackId (orderedTracks ts)"
      using st(1) track_coll.keys_update [of "\<lambda>tr. tr\<lparr>elements := elements tr @ es\<rparr>" tid "orderedTracks ts"]
      by (simp add: orderedTracks_update tracks_wf_def)
    then show ?thesis using fr unfolding list.set_map [symmetric] by simp
  qed (simp add: ids_drawn_def)
  then have "fresh_supply gen n' (trackId ` set (orderedTracks ts1))"
    using fresh_supply_after [OF st(2) ids p(2), of n'] out(2) by auto
  moreover have "\<exists>x \<in> set (elements (main ts1)). startTime x < t" using st(3) mn by blast
  moreover have "is_pasted minStart t ts1 i" if i: "i \<in> set items" for i
  proof -
    obtain e where "e \<in> set es" "pasted_as minStart t i e" using p(1) i by (metis list_all2_conv_all_nth in_set_conv_nth)
    then show ?thesis using tr by (auto simp: is_pasted_def)
  qed
  ultimately show ?thesis using w keep by (simp add: out(1) paste_state_def)
qed

lemma paste_groups_ok:
  assumes "paste_state gen t ts n" "0 \<le> t"
    and "\<forall>(k, items) \<in> set groups. items \<noteq> [] \<and> clipboard_ok items \<and> (\<forall>i \<in> set items. minStart \<le> startTime (ci_element i))"
    and "fold (paste_group gen minStart t) groups (ts, pasted, n) = (ts', pasted', n')"
  shows "paste_state gen t ts' n' \<and> keeps_elements ts ts' \<and> (\<forall>(k, items) \<in> set groups. \<forall>i \<in> set items. is_pasted minStart t ts' i)"
  using assms
proof (induction groups arbitrary: ts pasted n)
  case Nil
  then show ?case by (auto simp: keeps_elements_def)
next
  case (Cons grp groups)
  obtain k items where g: "grp = (k, items)" by fastforce
  obtain ts1 p1 n1 where o: "paste_group gen minStart t grp (ts, pasted, n) = (ts1, p1, n1)" using prod_cases3 by blast
  have "paste_state gen t ts1 n1 \<and> keeps_elements ts ts1 \<and> (\<forall>i \<in> set items. is_pasted minStart t ts1 i)"
    by (rule paste_group_ok [OF Cons.prems(1,2) _ _ _ o [unfolded g]]) (use Cons.prems(3) g in auto)
  moreover from this have "paste_state gen t ts' n' \<and> keeps_elements ts1 ts' \<and> (\<forall>(k, items) \<in> set groups. \<forall>i \<in> set items. is_pasted minStart t ts' i)"
    by (intro Cons.IH [of ts1 n1 p1]) (use Cons.prems o in auto)
  ultimately show ?case by (auto simp: g intro: keeps_elements_trans is_pasted_kept)
qed

lemma no_overlap_two:
  assumes "no_overlap es" "x \<in> set es" "y \<in> set es" "x \<noteq> y"
  shows "elements_disjoint x y"
  using assms by (induction es) (auto simp: no_overlap_def)

lemma sorted_wrt_distinct:
  "distinct xs \<Longrightarrow> (\<And>x y. x \<in> set xs \<Longrightarrow> y \<in> set xs \<Longrightarrow> x \<noteq> y \<Longrightarrow> R x y) \<Longrightarrow> sorted_wrt R xs"
  by (induction xs) auto

lemma map_filter_distinct:
  assumes "\<And>x y z. x \<in> set xs \<Longrightarrow> y \<in> set xs \<Longrightarrow> f x = Some z \<Longrightarrow> f y = Some z \<Longrightarrow> x = y" "distinct xs"
  shows "distinct (List.map_filter f xs)"
  using assms
proof (induction xs)
  case (Cons x xs)
  have "distinct (List.map_filter f xs)" using Cons.IH Cons.prems by (metis distinct.simps(2) list.set_intros(2))
  moreover have "z \<notin> set (List.map_filter f xs)" if "f x = Some z" for z
    using Cons.prems that by (fastforce simp: List.map_filter_def)
  ultimately show ?case by (auto simp: List.map_filter_simps split: option.splits)
qed (simp add: List.map_filter_simps)

text \<open>What \<open>copyElements\<close> puts in the clipboard.\<close>

lemma copied_group_ok:
  assumes "tracks_wf ts" "distinct refs" "copyElements refs ts = Some items" "is = filter (\<lambda>i. ci_trackId i = k) items"
  shows "clipboard_ok is"
proof -
  let ?item = "\<lambda>(tr, e). \<lparr>ci_trackId = trackId tr, ci_trackType = trackType tr, ci_element = e\<rparr>"
  let ?found = "List.map_filter (find_ref ts) refs"
  have items: "items = map ?item ?found" using assms(3)
    by (auto simp: copyElements_def getElementsWithTracks_def Let_def split: if_splits)
  have mem: "fst x \<in> set (orderedTracks ts) \<and> snd x \<in> set (elements (fst x))" if x_in: "x \<in> set ?found" for x
  proof -
    obtain r where "find_ref ts r = Some (fst x, snd x)" using x_in by (auto simp: List.map_filter_def)
    then show ?thesis using find_ref_Some(2,3) by blast
  qed
  have same: "x = y" if x: "find_ref ts x = Some z" and y: "find_ref ts y = Some z" for x y z
    using find_ref_Some [of ts x "fst z" "snd z"] find_ref_Some [of ts y "fst z" "snd z"] x y by simp
  have df: "distinct ?found" by (rule map_filter_distinct [OF same assms(2)])
  have one: "fst x = fst y" if "x \<in> set ?found" "y \<in> set ?found" "trackId (fst x) = trackId (fst y)" for x y
    using mem [OF that(1)] mem [OF that(2)] that(3) assms(1) by (auto simp: tracks_wf_def tracks_ids_ok_def distinct_map inj_on_def)
  define fs where "fs = filter (\<lambda>x. trackId (fst x) = k) ?found"
  have dfs: "distinct fs" unfolding fs_def by (rule distinct_filter [OF df])
  have fs: "is = map ?item fs" using assms(4) by (auto simp: items fs_def filter_map comp_def split_beta)
  have "elements_disjoint (snd x) (snd y)" if xy: "x \<in> set fs" "y \<in> set fs" "x \<noteq> y" for x y
  proof -
    have t: "fst x = fst y" using xy one [of x y] by (auto simp: fs_def)
    have "no_overlap (elements (fst x))" "snd x \<in> set (elements (fst x))" "snd y \<in> set (elements (fst x))"
      using xy mem [of x] mem [of y] assms(1) t
      by (auto simp: fs_def tracks_wf_def tracks_no_overlap_def list_all_iff)
    then show ?thesis using no_overlap_two xy(3) t by (metis prod_eqI)
  qed
  then have "sorted_wrt (\<lambda>x y. elements_disjoint (snd x) (snd y)) fs"
    by (intro sorted_wrt_distinct [OF dfs]) simp_all
  then have "no_overlap (map ci_element is)" by (simp add: no_overlap_def fs sorted_wrt_map split_beta)
  moreover have "canElementGoOnTrack (elementType (snd x)) (trackType (fst (hd fs)))" if x: "x \<in> set fs" for x
  proof -
    have "hd fs \<in> set fs" using x by (cases fs) auto
    then have t: "fst x = fst (hd fs)" using x one [of x "hd fs"] by (auto simp: fs_def)
    have "track_typed (fst x)" "snd x \<in> set (elements (fst x))"
      using x mem [of x] assms(1) by (auto simp: fs_def tracks_wf_def tracks_typed_def list_all_iff)
    then show ?thesis by (simp add: track_typed_def list_all_iff t)
  qed
  then have "list_all (\<lambda>i. canElementGoOnTrack (elementType (ci_element i)) (ci_trackType (hd is))) is"
    by (cases fs) (simp_all add: fs list_all_iff split_beta)
  ultimately show ?thesis by (simp add: clipboard_ok_def)
qed

text \<open>C32: Copying elements and pasting them at a time keeps the timeline well formed and pastes every element
  with its duration and trims, the earliest at the paste time and the others at their distance from
  it; what was there before stays. The main track must already have an element that starts before
  the paste time (otherwise the pasted group is pulled to the start of the main track).\<close>
theorem copy_paste:
  assumes "tracks_wf ts0" "distinct refs" "copyElements refs ts0 = Some items"
    and "tracks_wf ts" "fresh_supply gen n (trackId ` set (orderedTracks ts))" "0 \<le> t"
    and "\<exists>x \<in> set (elements (main ts)). startTime x < t"
  shows "\<exists>ts'. out_tracks (fst (pasteElements gen n t items ts)) = Some ts' \<and> tracks_wf ts' \<and> keeps_elements ts ts'
    \<and> (\<forall>i \<in> set items. is_pasted (paste_min_start items) t ts' i)"
proof -
  have ne: "items \<noteq> []" using assms(3) by (auto simp: copyElements_def Let_def split: if_splits)
  obtain ts' pasted n' where f: "fold (paste_group gen (paste_min_start items) t) (groupClipboardItemsByTrackId items) (ts, [], n) = (ts', pasted, n')"
    using prod_cases3 by blast
  have grp: "is = filter (\<lambda>i. ci_trackId i = k) items \<and> is \<noteq> []" if "(k, is) \<in> set (groupClipboardItemsByTrackId items)" for k "is"
    using that by (auto simp: groupClipboardItemsByTrackId_def in_group_by filter_empty_conv)
  have "paste_state gen t ts' n' \<and> keeps_elements ts ts'
      \<and> (\<forall>(k, is) \<in> set (groupClipboardItemsByTrackId items). \<forall>i \<in> set is. is_pasted (paste_min_start items) t ts' i)"
  proof (rule paste_groups_ok [OF _ assms(6) _ f])
    show "paste_state gen t ts n" using assms(4,5,7) by (simp add: paste_state_def)
    show "\<forall>(k, is) \<in> set (groupClipboardItemsByTrackId items). is \<noteq> [] \<and> clipboard_ok is
        \<and> (\<forall>i \<in> set is. paste_min_start items \<le> startTime (ci_element i))"
      using grp copied_group_ok [OF assms(1-3)] by (force intro: paste_min_start_le)
  qed
  moreover have "i \<in> set (filter (\<lambda>j. ci_trackId j = ci_trackId i) items)
      \<and> (ci_trackId i, filter (\<lambda>j. ci_trackId j = ci_trackId i) items) \<in> set (groupClipboardItemsByTrackId items)"
    if "i \<in> set items" for i using that by (auto simp: groupClipboardItemsByTrackId_def in_group_by)
  ultimately have "paste_state gen t ts' n'" "keeps_elements ts ts'" "\<forall>i \<in> set items. is_pasted (paste_min_start items) t ts' i"
    by fast+
  then show ?thesis using f ne by (simp add: pasteElements_def paste_state_def)
qed

definition demo_copied :: "clipboard_item list" where
  "demo_copied = [\<lparr>ci_trackId = ''gone'', ci_trackType = TVideo, ci_element = demo_element ''a'' EVideo 0 3\<rparr>,
     \<lparr>ci_trackId = ''gone'', ci_trackType = TVideo, ci_element = demo_element ''b'' EVideo 16 3\<rparr>]"

definition demo_main_only :: scene_tracks where
  "demo_main_only = \<lparr>overlay = [],
     main = (buildEmptyTrack ''m'' TVideo None)\<lparr>elements := [demo_element ''x'' EVideo 10 10]\<rparr>, audio = []\<rparr>"

text \<open>Pasting before the first element of the main track can produce overlapping elements: room is checked
  where the elements are pasted, but then the whole group is pulled to the start of the track. Two
  elements at 0 and 16, pasted at 5 beside an element at 10 to 20, fit at 5 and 21 and land at 0 and 16.\<close>
theorem paste_can_overlap:
  "tracks_wf demo_main_only
   \<and> (case out_tracks (fst (pasteElements (\<lambda>k. replicate k CHR ''u'') 1 5 demo_copied demo_main_only)) of
        None \<Rightarrow> False
      | Some ts' \<Rightarrow> \<not> tracks_no_overlap ts' \<and> map startTime (elements (main ts')) = [10, 0, 16])"
  by code_simp

section \<open>Separating audio\<close>

lemma separated_audio_proj:
  assumes "buildSeparatedAudioElement gen n e = (a, n')"
  shows "elementType a = EAudio" "startTime a = startTime e" "duration a = duration e" "trimStart a = trimStart e"
    "trimEnd a = trimEnd e" "sourceDuration a = sourceDuration e" "retime a = retime e" "mediaId a = mediaId e" "n \<le> n'"
proof -
  have "n \<le> snd (cloneVolumeAnimations gen n x)" for x
    by (auto simp: cloneVolumeAnimations_def Let_def cloneAnimations_mono split: option.splits)
  from this [of "animations e"] show "n \<le> n'" using assms by (auto simp: buildSeparatedAudioElement_def split: prod.splits)
qed (use assms in \<open>auto simp: buildSeparatedAudioElement_def split: prod.splits\<close>)

lemma refines_list_update: "(\<And>x. track_refines x (f x)) \<Longrightarrow> list_all2 track_refines xs (xs[i := f (xs ! i)])"
  by (cases "i < length xs") (auto simp: list_all2_conv_all_nth nth_list_update)

lemma refines_same: "list_all2 track_refines xs xs"
  by (simp add: list_all2_same)

lemma updateSourceAudio_wf: "tracks_wf ts \<Longrightarrow> tracks_wf (updateSourceAudioEnabled ts r b)"
proof -
  assume wf: "tracks_wf ts"
  have "track_refines tr (updateElementInTrack tr i (\<lambda>e. e\<lparr>isSourceAudioEnabled := Some b\<rparr>) P)" for tr i P
  proof -
    have "elements_disjoint (f x) (f y) = elements_disjoint x y"
      if "\<And>x. startTime (f x) = startTime x \<and> duration (f x) = duration x" for f x y
      using that by (simp add: elementEnd_def)
    then show ?thesis
      by (auto simp: track_refines_def updateElementInTrack_def no_overlap_def sorted_wrt_map track_typed_def list_all_iff elementEnd_def
          intro: sorted_wrt_mono_rel [rotated])
  qed
  then have one: "track_refines tr (updateElementInTrack tr (ref_elementId r) (\<lambda>e. e\<lparr>isSourceAudioEnabled := Some b\<rparr>) (\<lambda>e. elementType e = EVideo))" for tr .
  have upd: "list_all2 track_refines xs (xs[i := updateElementInTrack (xs ! i) (ref_elementId r)
      (\<lambda>e. e\<lparr>isSourceAudioEnabled := Some b\<rparr>) (\<lambda>e. elementType e = EVideo)])" for xs i
    by (rule refines_list_update [where f = "\<lambda>tr. updateElementInTrack tr (ref_elementId r)
      (\<lambda>e. e\<lparr>isSourceAudioEnabled := Some b\<rparr>) (\<lambda>e. elementType e = EVideo)"]) (rule one)
  show ?thesis
  proof (rule refines_wf [OF _ _ _ wf])
    show "list_all2 track_refines (overlay ts) (overlay (updateSourceAudioEnabled ts r b))"
      "track_refines (main ts) (main (updateSourceAudioEnabled ts r b))"
      "list_all2 track_refines (audio ts) (audio (updateSourceAudioEnabled ts r b))"
      by (simp_all add: updateSourceAudioEnabled_def updateElementInSceneTracks_def upd refines_same one split: option.splits)
  qed
qed

lemma find_distinct: "distinct (map key xs) \<Longrightarrow> x \<in> set xs \<Longrightarrow> key x = k \<Longrightarrow> find (\<lambda>y. key y = k) xs = Some x"
  by (induction xs) (auto simp: image_iff)

text \<open>Separating the audio of a video leaves the timeline well formed, with an audio element over the same
  span of the timeline and of the source on an audio track, and the video's own audio turned off.\<close>
theorem separate_audio:
  assumes wf: "tracks_wf ts" and fresh: "fresh_supply gen n (trackId ` set (orderedTracks ts))"
    and tr: "tr \<in> set (orderedTracks ts)" "trackId tr = ref_trackId r" "distinct (map elementId (elements tr))"
    and e: "e \<in> set (elements tr)" "elementId e = ref_elementId r" "0 < duration e"
    and can: "canExtractSourceAudio e (find (\<lambda>a. Some (assetId a) = mediaId e) assets)"
  shows "\<exists>ts' n' track_a a. toggleSourceAudioSeparation gen n assets r ts = (updated ts' None, n') \<and> tracks_wf ts'
    \<and> track_a \<in> set (orderedTracks ts') \<and> trackType track_a = TAudio \<and> a \<in> set (elements track_a) \<and> elementType a = EAudio
    \<and> startTime a = startTime e \<and> duration a = duration e \<and> trimStart a = trimStart e \<and> trimEnd a = trimEnd e
    \<and> retime a = retime e \<and> mediaId a = mediaId e
    \<and> (\<exists>tr' \<in> set (orderedTracks ts'). trackId tr' = trackId tr \<and> e\<lparr>isSourceAudioEnabled := Some False\<rparr> \<in> set (elements tr'))"
proof -
  obtain a0 m where b: "buildSeparatedAudioElement gen n e = (a0, m)" by fastforce
  note pr = separated_audio_proj [OF b]
  let ?a = "a0\<lparr>elementId := gen m\<rparr>"
  have video: "elementType e = EVideo" "\<not> isSourceAudioSeparated e"
    using can by (simp_all add: canExtractSourceAudio_def isSourceAudioSeparated_def)
  have cr: "checks_room FirstAvailable" by (simp add: checks_room_def)
  obtain res where res: "resolveTrackPlacement ts TAudio (map span_of [?a]) FirstAvailable = Some res"
    using checked_strategy_resolves [OF cr] by blast
  have fr: "gen (Suc m) \<notin> trackId ` set (orderedTracks ts)" using fresh pr(9) by (simp add: fresh_supply_def)
  have ty: "list_all (\<lambda>e. canElementGoOnTrack (elementType e) TAudio) [?a]" "no_overlap [?a]"
    by (simp_all add: canElementGoOnTrack_def pr no_overlap_def)
  obtain ts1 tid where ap: "applyPlacement ts res [?a] None (gen (Suc m)) = Some (ts1, tid)" and w: "tracks_wf ts1"
    and ta: "\<exists>tr \<in> set (orderedTracks ts1). trackId tr = tid \<and> set [?a] \<subseteq> set (elements tr)"
    and keep: "\<forall>tr \<in> set (orderedTracks ts). \<exists>tr' \<in> set (orderedTracks ts1). trackId tr' = trackId tr \<and> set (elements tr) \<subseteq> set (elements tr')"
    using place_elements_wf [OF wf cr ty fr res, of None] by blast
  let ?f = "\<lambda>tr. updateElementInTrack tr (ref_elementId r) (\<lambda>e. e\<lparr>isSourceAudioEnabled := Some False\<rparr>) (\<lambda>e. elementType e = EVideo)"
  let ?ts' = "updateSourceAudioEnabled ts1 r False"
  have ord: "orderedTracks ?ts' = update_by trackId (ref_trackId r) ?f (orderedTracks ts1)"
    using w by (simp add: updateSourceAudioEnabled_def updateElement_via_track orderedTracks_update tracks_wf_def)
  have ids: "distinct (map trackId (orderedTracks ts))" using wf by (simp add: tracks_wf_def tracks_ids_ok_def)
  have eq: "toggleSourceAudioSeparation gen n assets r ts = (updated ?ts' None, Suc m + ids_drawn res)"
    using find_distinct [OF ids tr(1,2)] find_distinct [OF tr(3) e(1,2)] e(3) video can b res ap
    by (simp add: toggleSourceAudioSeparation_def)
  obtain tra where tra: "tra \<in> set (orderedTracks ts1)" "?a \<in> set (elements tra)" using ta by auto
  have "track_typed tra" using w tra(1) by (simp add: tracks_wf_def tracks_typed_def list_all_iff)
  then have tta: "trackType tra = TAudio" using tra(2) pr(1) by (fastforce simp: track_typed_def list_all_iff canElementGoOnTrack_def)
  define tra' where "tra' = (if trackId tra = ref_trackId r then ?f tra else tra)"
  have tra': "tra' \<in> set (orderedTracks ?ts')" "trackType tra' = TAudio" "?a \<in> set (elements tra')"
    using tra tta pr(1) by (auto simp: tra'_def ord update_by_def updateElementInTrack_def image_iff)
  obtain tr1 where tr1: "tr1 \<in> set (orderedTracks ts1)" "trackId tr1 = trackId tr" "e \<in> set (elements tr1)" using keep tr(1) e(1) by blast
  have "?f tr1 \<in> set (orderedTracks ?ts')" "e\<lparr>isSourceAudioEnabled := Some False\<rparr> \<in> set (elements (?f tr1))"
    using tr1 tr(2) e(2) video(1) by (auto simp: ord update_by_def updateElementInTrack_def image_iff)
  then have "\<exists>tr' \<in> set (orderedTracks ?ts'). trackId tr' = trackId tr \<and> e\<lparr>isSourceAudioEnabled := Some False\<rparr> \<in> set (elements tr')"
    using tr1(2) by (intro bexI [of _ "?f tr1"]) simp_all
  then show ?thesis unfolding eq using tra' updateSourceAudio_wf [OF w] pr
    by (intro exI [of _ ?ts'] exI [of _ "Suc m + ids_drawn res"] exI [of _ tra'] exI [of _ ?a]) simp
qed

section \<open>Witnesses\<close>

definition demo_ids :: "nat \<Rightarrow> uuid" where "demo_ids k = replicate (k + 2) CHR ''u''"

lemma demo_fresh: "fresh_supply demo_ids n (trackId ` set (orderedTracks demo_tracks))"
  by (auto simp: fresh_supply_def demo_tracks_def orderedTracks_def demo_ids_def inj_def)

definition demo_text :: create_element where
  "demo_text = \<lparr>ce_element = (demo_element ''x'' EText 3 5)\<lparr>rest := [(''content'', JString ''hi'')]\<rparr>, ce_trimStart = None,
     ce_trimEnd = None, ce_duration = Some 4\<rparr>"

theorem insert_auto_places_witness:
  "\<forall>w st. \<exists>us ts' tid n'. insertElement w demo_ids 0 [] st demo_text (AutoPlacement None None) ''x'' demo_tracks
      = (us, updated ts' (Some (createElementSelectionResult [\<lparr>ref_trackId = tid, ref_elementId = ''x''\<rparr>])), n') \<and> tracks_wf ts'"
proof (intro allI)
  fix w st
  have "validateElementBasics (ce_element demo_text)" "0 \<le> startTime (ce_element demo_text)" by code_simp+
  from insert_auto_places [OF demo_tracks_wf this demo_fresh demo_tracks_positive, where tt = None and w = w and assets = "[]" and settings = st and idx = None and eid = "''x''" and n = 0]
  show "\<exists>us ts' tid n'. insertElement w demo_ids 0 [] st demo_text (AutoPlacement None None) ''x'' demo_tracks
      = (us, updated ts' (Some (createElementSelectionResult [\<lparr>ref_trackId = tid, ref_elementId = ''x''\<rparr>])), n') \<and> tracks_wf ts'"
    by auto
qed

definition demo_refs :: "element_ref list" where
  "demo_refs = [\<lparr>ref_trackId = ''m'', ref_elementId = ''v''\<rparr>, \<lparr>ref_trackId = ''o'', ref_elementId = ''t''\<rparr>]"

theorem copy_paste_witness:
  "\<exists>items ts'. copyElements demo_refs demo_tracks = Some items
     \<and> out_tracks (fst (pasteElements demo_ids 0 25 items demo_tracks)) = Some ts' \<and> tracks_wf ts'
     \<and> (\<forall>i \<in> set items. is_pasted (paste_min_start items) 25 ts' i)"
proof -
  have "case copyElements demo_refs demo_tracks of None \<Rightarrow> False | Some _ \<Rightarrow> True" by code_simp
  then obtain items where i: "copyElements demo_refs demo_tracks = Some items" by (auto split: option.splits)
  have "\<exists>x \<in> set (elements (main demo_tracks)). startTime x < 25" by (simp add: demo_tracks_def demo_element_def)
  moreover have "distinct demo_refs" by (simp add: demo_refs_def)
  ultimately show ?thesis using copy_paste [OF demo_tracks_wf _ i demo_tracks_wf demo_fresh, of 25 0] i by auto
qed

definition demo_video_tracks :: scene_tracks where
  "demo_video_tracks = demo_tracks\<lparr>main := (main demo_tracks)\<lparr>elements := [(demo_element ''v'' EVideo 20 30)\<lparr>mediaId := Some ''X''\<rparr>]\<rparr>\<rparr>"

definition demo_video_asset :: media_asset where
  "demo_video_asset = \<lparr>assetId = ''X'', assetName = ''x.mp4'', assetType = MVideo, assetWidth = None, assetHeight = None,
     assetFps = Some 60, hasAudio = None\<rparr>"

theorem separate_audio_witness:
  "\<exists>ts' n' track_a a. toggleSourceAudioSeparation demo_ids 0 [demo_video_asset] \<lparr>ref_trackId = ''m'', ref_elementId = ''v''\<rparr> demo_video_tracks
      = (updated ts' None, n') \<and> tracks_wf ts' \<and> track_a \<in> set (orderedTracks ts') \<and> a \<in> set (elements track_a)
    \<and> elementType a = EAudio \<and> startTime a = 20 \<and> duration a = 30"
proof -
  let ?e = "(demo_element ''v'' EVideo 20 30)\<lparr>mediaId := Some ''X''\<rparr>"
  have wf: "tracks_wf demo_video_tracks"
    using demo_tracks_wf by (simp add: demo_video_tracks_def demo_tracks_def demo_element_def tracks_wf_def tracks_typed_def
        track_typed_def tracks_ids_ok_def tracks_no_overlap_def orderedTracks_def no_overlap_def canElementGoOnTrack_def)
  have fr: "fresh_supply demo_ids 0 (trackId ` set (orderedTracks demo_video_tracks))"
    using demo_fresh [of 0] by (simp add: demo_video_tracks_def demo_tracks_def orderedTracks_def)
  have can: "canExtractSourceAudio ?e (find (\<lambda>a. Some (assetId a) = mediaId ?e) [demo_video_asset])" by code_simp
  from separate_audio [OF wf fr, of "main demo_video_tracks" "\<lparr>ref_trackId = ''m'', ref_elementId = ''v''\<rparr>" ?e "[demo_video_asset]"] can
  show ?thesis
    by (simp add: demo_video_tracks_def demo_tracks_def orderedTracks_def demo_element_def) blast
qed

end
