(* ===== verification/Snapping.thy ===== *)
theory Snapping
  imports Timeline
begin

text \<open>
  Snapping a time to the nearest point of interest (\<open>timeline/snapping/\<close>, with the point sources
  \<open>element-snap-source.ts\<close>, \<open>playhead-snap-source.ts\<close> and \<open>bookmarks/snap-source.ts\<close>). Distances and
  thresholds are rationals, \<open>Number.POSITIVE_INFINITY\<close> is \<open>None\<close>.
\<close>

datatype snap_point_type = ElementStart | ElementEnd | Playhead | BookmarkPoint | KeyframePoint

record snap_point =
  snap_time :: media_time
  snap_type :: snap_point_type
  snap_elementId :: "uuid option"
  snap_trackId :: "uuid option"

record snap_result =
  snappedTime :: media_time
  snapPoint :: "snap_point option"
  snapDistance :: "rat option"

record bookmark =
  bm_time :: media_time
  bm_note :: "string option"
  bm_color :: "string option"
  bm_duration :: "media_time option"

definition BASE_TIMELINE_PIXELS_PER_SECOND :: rat where "BASE_TIMELINE_PIXELS_PER_SECOND = 50"

definition getTimelineSnapThresholdInTicks :: "wasm_api \<Rightarrow> rat \<Rightarrow> rat \<Rightarrow> rat" where
  "getTimelineSnapThresholdInTicks w zoomLevel snapThresholdPx =
     (snapThresholdPx / (BASE_TIMELINE_PIXELS_PER_SECOND * zoomLevel)) * of_int (ticksPerSecond w)"

text \<open>The sources are thunks; their results are concatenated.\<close>

definition buildTimelineSnapPoints :: "snap_point list list \<Rightarrow> snap_point list" where
  "buildTimelineSnapPoints sources = concat sources"

definition getElementEdgeSnapPoints :: "scene_tracks \<Rightarrow> uuid set \<Rightarrow> snap_point list" where
  "getElementEdgeSnapPoints ts excludeIds =
     concat (map (\<lambda>tr. concat (map (\<lambda>e.
         if elementId e \<in> excludeIds then []
         else [\<lparr>snap_time = startTime e, snap_type = ElementStart,
                snap_elementId = Some (elementId e), snap_trackId = Some (trackId tr)\<rparr>,
               \<lparr>snap_time = addMediaTime (startTime e) (duration e), snap_type = ElementEnd,
                snap_elementId = Some (elementId e), snap_trackId = Some (trackId tr)\<rparr>])
       (elements tr))) (orderedTracks ts))"

definition getPlayheadSnapPoints :: "media_time \<Rightarrow> snap_point list" where
  "getPlayheadSnapPoints t = [\<lparr>snap_time = t, snap_type = Playhead, snap_elementId = None, snap_trackId = None\<rparr>]"

definition getBookmarkSnapPoints :: "bookmark list \<Rightarrow> media_time option \<Rightarrow> snap_point list" where
  "getBookmarkSnapPoints bms excludeTime =
     concat (map (\<lambda>b. if excludeTime = Some (bm_time b) then []
       else [\<lparr>snap_time = bm_time b, snap_type = BookmarkPoint, snap_elementId = None, snap_trackId = None\<rparr>]) bms)"

text \<open>The loop state is the closest point so far with its distance.\<close>

definition snap_step :: "media_time \<Rightarrow> rat \<Rightarrow> snap_point \<Rightarrow> (snap_point \<times> rat) option \<Rightarrow> (snap_point \<times> rat) option" where
  "snap_step target maxDistance p best =
     (let distance = of_int \<bar>target - snap_time p\<bar>
      in if distance \<le> maxDistance \<and> (case best of None \<Rightarrow> True | Some (_, d) \<Rightarrow> distance < d)
         then Some (p, distance) else best)"

definition resolveTimelineSnap :: "media_time \<Rightarrow> snap_point list \<Rightarrow> rat \<Rightarrow> snap_result" where
  "resolveTimelineSnap target points maxDistance =
     (case fold (snap_step target maxDistance) points None of
        None \<Rightarrow> \<lparr>snappedTime = target, snapPoint = None, snapDistance = None\<rparr>
      | Some (p, d) \<Rightarrow> \<lparr>snappedTime = snap_time p, snapPoint = Some p, snapDistance = Some d\<rparr>)"

section \<open>Lemmas\<close>

abbreviation snap_dist :: "media_time \<Rightarrow> snap_point \<Rightarrow> rat" where
  "snap_dist target p \<equiv> of_int \<bar>target - snap_time p\<bar>"

text \<open>The invariant of the loop: the best point so far is a nearest one of those within reach.\<close>

definition best_of :: "media_time \<Rightarrow> rat \<Rightarrow> snap_point set \<Rightarrow> (snap_point \<times> rat) option \<Rightarrow> bool" where
  "best_of target maxD S best \<longleftrightarrow>
     (case best of
        None \<Rightarrow> \<forall>p \<in> S. maxD < snap_dist target p
      | Some (p, d) \<Rightarrow> p \<in> S \<and> d = snap_dist target p \<and> d \<le> maxD \<and> (\<forall>q \<in> S. d \<le> snap_dist target q))"

lemma best_of_step:
  "best_of target maxD S best \<Longrightarrow> best_of target maxD (insert p S) (snap_step target maxD p best)"
  by (cases best) (auto simp: best_of_def snap_step_def Let_def not_le intro: order.trans)

lemma best_of_fold:
  "best_of target maxD S best \<Longrightarrow> best_of target maxD (S \<union> set ps) (fold (snap_step target maxD) ps best)"
proof (induction ps arbitrary: S best)
  case (Cons p ps)
  from Cons.IH [OF best_of_step [OF Cons.prems, of p]] show ?case by simp
qed simp

lemma resolveTimelineSnap_best:
  "best_of target maxD (set ps) (fold (snap_step target maxD) ps None)"
  using best_of_fold [of target maxD "{}" None ps] by (simp add: best_of_def)

lemma resolveTimelineSnap_cases:
  obtains (none) "snapPoint (resolveTimelineSnap target ps maxD) = None"
      "snappedTime (resolveTimelineSnap target ps maxD) = target"
      "snapDistance (resolveTimelineSnap target ps maxD) = None" "\<forall>p \<in> set ps. maxD < snap_dist target p"
  | (some) p where "snapPoint (resolveTimelineSnap target ps maxD) = Some p" "p \<in> set ps"
      "snappedTime (resolveTimelineSnap target ps maxD) = snap_time p"
      "snapDistance (resolveTimelineSnap target ps maxD) = Some (snap_dist target p)"
      "snap_dist target p \<le> maxD" "\<forall>q \<in> set ps. snap_dist target p \<le> snap_dist target q"
  using resolveTimelineSnap_best [of target maxD ps]
  by (cases "fold (snap_step target maxD) ps None") (auto simp: best_of_def resolveTimelineSnap_def)

section \<open>Properties\<close>

text \<open>Snapping returns a nearest point within the threshold, or leaves the time unchanged exactly
  when no point is within the threshold; the snapped time is never further than the threshold.\<close>
theorem resolveTimelineSnap_nearest:
  assumes "r = resolveTimelineSnap target ps maxD"
  shows "(snapPoint r = None \<longleftrightarrow> (\<forall>p \<in> set ps. maxD < snap_dist target p))
    \<and> (snapPoint r = None \<longrightarrow> snappedTime r = target)
    \<and> (\<forall>p. snapPoint r = Some p \<longrightarrow> p \<in> set ps \<and> snappedTime r = snap_time p \<and> snap_dist target p \<le> maxD
         \<and> (\<forall>q \<in> set ps. snap_dist target p \<le> snap_dist target q))"
proof (cases rule: resolveTimelineSnap_cases [of target ps maxD])
  case none
  then show ?thesis by (simp add: assms)
next
  case (some p)
  then show ?thesis by (force simp: assms)
qed

theorem resolveTimelineSnap_nearest_witness:
  "snappedTime (resolveTimelineSnap 100 (getPlayheadSnapPoints 93) 10) = 93"
proof -
  have "snapPoint (resolveTimelineSnap 100 (getPlayheadSnapPoints 93) 10) \<noteq> None"
    using resolveTimelineSnap_nearest [of _ 100 "getPlayheadSnapPoints 93" 10, OF refl] by (simp add: getPlayheadSnapPoints_def)
  then show ?thesis
    using resolveTimelineSnap_nearest [of _ 100 "getPlayheadSnapPoints 93" 10, OF refl]
    by (auto simp: getPlayheadSnapPoints_def)
qed

end
