(* ===== verification/Group_Resize.thy ===== *)
theory Group_Resize
  imports Timeline
begin

text \<open>
  Resizing several elements by one drag (\<open>timeline/group-resize/\<close>): the drag delta is clamped to
  what every member allows, snapped to a frame once, clamped again, and turned into one patch per
  member. The frame snapping of \<open>opencut-wasm\<close> is the parameter \<open>w\<close>; nothing is assumed of it.
\<close>

datatype resize_side = LeftSide | RightSide

record resize_member =
  gm_ref :: element_ref
  gm_startTime :: media_time
  gm_duration :: media_time
  gm_trimStart :: media_time
  gm_trimEnd :: media_time
  gm_sourceDuration :: "media_time option"
  gm_retime :: "retime_config option"
  leftNeighborBound :: "media_time option"
  rightNeighborBound :: "media_time option"

record resize_update =
  gu_ref :: element_ref
  gu_trimStart :: media_time
  gu_trimEnd :: media_time
  gu_startTime :: media_time
  gu_duration :: media_time

section \<open>Source spans\<close>

definition getSourceDeltaForClipDelta :: "resize_member \<Rightarrow> media_time \<Rightarrow> media_time" where
  "getSourceDeltaForClipDelta m clipDelta =
     (case gm_retime m of
        None \<Rightarrow> clipDelta
      | Some rt \<Rightarrow> roundMediaTime
          (if 0 \<le> clipDelta then getSourceSpanAtClipTime (of_int clipDelta) (Some rt)
           else - getSourceSpanAtClipTime (of_int \<bar>clipDelta\<bar>) (Some rt)))"

definition getVisibleSourceSpanForDuration :: "resize_member \<Rightarrow> media_time \<Rightarrow> media_time" where
  "getVisibleSourceSpanForDuration m dur =
     (case gm_retime m of None \<Rightarrow> dur
      | Some rt \<Rightarrow> roundMediaTime (getSourceSpanAtClipTime (of_int dur) (Some rt)))"

definition getDurationForVisibleSourceSpan :: "resize_member \<Rightarrow> media_time \<Rightarrow> media_time" where
  "getDurationForVisibleSourceSpan m srcSpan =
     (case gm_retime m of None \<Rightarrow> srcSpan
      | Some rt \<Rightarrow> roundMediaTime (getTimelineDurationForSourceSpan (of_int srcSpan) (Some rt)))"

definition member_source_duration :: "resize_member \<Rightarrow> media_time" where
  "member_source_duration m =
     (case gm_sourceDuration m of Some d \<Rightarrow> d
      | None \<Rightarrow> addMediaTime (addMediaTime (gm_trimStart m) (getVisibleSourceSpanForDuration m (gm_duration m)))
                  (gm_trimEnd m))"

section \<open>Bounds of one member\<close>

definition getMinimumAllowedDeltaTime :: "resize_member \<Rightarrow> resize_side \<Rightarrow> media_time \<Rightarrow> media_time" where
  "getMinimumAllowedDeltaTime m side minDuration =
     (if side = RightSide then subMediaTime minDuration (gm_duration m)
      else
        let leftNeighborFloor = (case leftNeighborBound m of
              Some b \<Rightarrow> subMediaTime b (gm_startTime m)
            | None \<Rightarrow> subMediaTime ZERO_MEDIA_TIME (gm_startTime m))
        in if gm_sourceDuration m = None then leftNeighborFloor
           else
             let maximumSourceExtension = subMediaTime
                   (getDurationForVisibleSourceSpan m
                     (addMediaTime (getVisibleSourceSpanForDuration m (gm_duration m)) (gm_trimStart m)))
                   (gm_duration m)
             in maxMediaTime leftNeighborFloor (subMediaTime ZERO_MEDIA_TIME maximumSourceExtension))"

definition getMaximumAllowedDeltaTime :: "resize_member \<Rightarrow> resize_side \<Rightarrow> media_time \<Rightarrow> media_time option" where
  "getMaximumAllowedDeltaTime m side minDuration =
     (if side = LeftSide then Some (subMediaTime (gm_duration m) minDuration)
      else
        let rightNeighborCeiling = map_option
              (\<lambda>b. subMediaTime b (addMediaTime (gm_startTime m) (gm_duration m))) (rightNeighborBound m)
        in if gm_sourceDuration m = None then rightNeighborCeiling
           else
             let maximumDuration = getDurationForVisibleSourceSpan m
                   (subMediaTime (member_source_duration m) (gm_trimStart m));
                 sourceDurationCeiling = subMediaTime maximumDuration (gm_duration m)
             in case rightNeighborCeiling of
                  None \<Rightarrow> Some sourceDurationCeiling
                | Some c \<Rightarrow> Some (minMediaTime c sourceDurationCeiling))"

section \<open>The resize\<close>

definition buildResizeUpdate :: "resize_side \<Rightarrow> media_time \<Rightarrow> resize_member \<Rightarrow> resize_update" where
  "buildResizeUpdate side delta m =
     (let sourceDelta = getSourceDeltaForClipDelta m delta
      in if side = LeftSide
         then \<lparr>gu_ref = gm_ref m,
               gu_trimStart = maxMediaTime ZERO_MEDIA_TIME (addMediaTime (gm_trimStart m) sourceDelta),
               gu_trimEnd = gm_trimEnd m,
               gu_startTime = addMediaTime (gm_startTime m) delta,
               gu_duration = subMediaTime (gm_duration m) delta\<rparr>
         else \<lparr>gu_ref = gm_ref m,
               gu_trimStart = gm_trimStart m,
               gu_trimEnd = maxMediaTime ZERO_MEDIA_TIME (subMediaTime (gm_trimEnd m) sourceDelta),
               gu_startTime = gm_startTime m,
               gu_duration = addMediaTime (gm_duration m) delta\<rparr>)"

text \<open>The loop that tightens the two bounds over the remaining members.\<close>

definition tighten ::
    "resize_side \<Rightarrow> media_time \<Rightarrow> resize_member \<Rightarrow> media_time \<times> media_time option \<Rightarrow>
     media_time \<times> media_time option" where
  "tighten side minDuration m bounds =
     (maxMediaTime (fst bounds) (getMinimumAllowedDeltaTime m side minDuration),
      case getMaximumAllowedDeltaTime m side minDuration of
        None \<Rightarrow> snd bounds
      | Some mx \<Rightarrow> (case snd bounds of None \<Rightarrow> Some mx | Some cur \<Rightarrow> Some (minMediaTime cur mx)))"

definition clamp_to_bounds :: "media_time \<times> media_time option \<Rightarrow> media_time \<Rightarrow> media_time" where
  "clamp_to_bounds bounds t =
     (case snd bounds of None \<Rightarrow> maxMediaTime (fst bounds) t | Some mx \<Rightarrow> clampMediaTime t (fst bounds) mx)"

definition frame_duration :: "wasm_api \<Rightarrow> frame_rate \<Rightarrow> media_time" where
  "frame_duration w fps = math_round (of_int (ticksPerSecond w * denominator fps) / of_int (numerator fps))"

definition resize_bounds ::
    "resize_member list \<Rightarrow> resize_side \<Rightarrow> media_time \<Rightarrow> media_time \<times> media_time option" where
  "resize_bounds members side minDuration =
     fold (tighten side minDuration) (tl members)
       (getMinimumAllowedDeltaTime (hd members) side minDuration,
        getMaximumAllowedDeltaTime (hd members) side minDuration)"

definition computeGroupResize ::
    "wasm_api \<Rightarrow> resize_member list \<Rightarrow> resize_side \<Rightarrow> media_time \<Rightarrow> frame_rate \<Rightarrow>
     media_time \<times> resize_update list" where
  "computeGroupResize w members side delta fps =
     (if members = [] then (ZERO_MEDIA_TIME, [])
      else
        let minDuration = frame_duration w fps;
            bounds = resize_bounds members side minDuration;
            clamped = clamp_to_bounds bounds delta;
            snapped = roundFrameTicks w clamped fps;
            final = clamp_to_bounds bounds snapped
        in (final, map (buildResizeUpdate side final) members))"

section \<open>Lemmas\<close>

definition inside_bounds :: "media_time \<times> media_time option \<Rightarrow> media_time \<Rightarrow> bool" where
  "inside_bounds bounds t \<longleftrightarrow> fst bounds \<le> t \<and> (case snd bounds of None \<Rightarrow> True | Some mx \<Rightarrow> t \<le> mx)"

lemma clamp_to_bounds_inside: "inside_bounds bounds z \<Longrightarrow> inside_bounds bounds (clamp_to_bounds bounds t)"
  by (auto simp: inside_bounds_def clamp_to_bounds_def clampMediaTime_def split: option.splits)

lemma inside_tighten:
  "inside_bounds (tighten side d m bounds) t \<longleftrightarrow>
   inside_bounds bounds t \<and> inside_bounds (getMinimumAllowedDeltaTime m side d, getMaximumAllowedDeltaTime m side d) t"
  by (auto simp: inside_bounds_def tighten_def split: option.splits)

lemma inside_fold:
  "inside_bounds (fold (tighten side d) ms bounds) t \<longleftrightarrow> inside_bounds bounds t
   \<and> (\<forall>m \<in> set ms. inside_bounds (getMinimumAllowedDeltaTime m side d, getMaximumAllowedDeltaTime m side d) t)"
  by (induction ms arbitrary: bounds) (auto simp: inside_tighten)

text \<open>The tightened bounds are the intersection of the members' bounds.\<close>

lemma inside_resize_bounds:
  "members \<noteq> [] \<Longrightarrow> inside_bounds (resize_bounds members side d) t \<longleftrightarrow>
   (\<forall>m \<in> set members. inside_bounds (getMinimumAllowedDeltaTime m side d, getMaximumAllowedDeltaTime m side d) t)"
  by (cases members) (auto simp: resize_bounds_def inside_fold)

text \<open>
  What the callers guarantee of a member: it is at least one frame long, lies between its
  neighbours, starts at or after 0, and its trims and visible span fit its source.
\<close>

definition member_ok :: "media_time \<Rightarrow> resize_member \<Rightarrow> bool" where
  "member_ok minDuration m \<longleftrightarrow> minDuration \<le> gm_duration m \<and> 0 \<le> gm_startTime m
     \<and> 0 \<le> gm_trimStart m \<and> 0 \<le> gm_trimEnd m
     \<and> (case leftNeighborBound m of None \<Rightarrow> True | Some b \<Rightarrow> 0 \<le> b \<and> b \<le> gm_startTime m)
     \<and> (case rightNeighborBound m of None \<Rightarrow> True | Some b \<Rightarrow> gm_startTime m + gm_duration m \<le> b)
     \<and> (case gm_sourceDuration m of None \<Rightarrow> True
        | Some s \<Rightarrow> gm_trimStart m + getVisibleSourceSpanForDuration m (gm_duration m) + gm_trimEnd m = s)"

lemma roundMediaTime_eqI: "\<bar>x - of_int n\<bar> < 1 / 2 \<Longrightarrow> 0 \<le> x \<Longrightarrow> roundMediaTime x = n"
proof -
  assume *: "\<bar>x - of_int n\<bar> < 1 / 2" "0 \<le> x"
  have "of_int n \<le> x + 1 / 2" "x + 1 / 2 < of_int n + 1" using *(1) by linarith+
  then show ?thesis using *(2) by (simp add: roundMediaTime_nonneg math_round_def floor_unique)
qed

text \<open>At normal speed or faster, rounding to source ticks and back restores a duration.\<close>

lemma duration_roundtrip:
  assumes "0 \<le> dur" and "1 \<le> getEffectiveRateAt rt"
  shows "roundMediaTime (getTimelineDurationForSourceSpan
    (of_int (roundMediaTime (getSourceSpanAtClipTime (of_int dur) rt))) rt) = dur"
proof -
  let ?r = "getEffectiveRateAt rt"
  let ?x = "of_int dur * ?r"
  have x: "getSourceSpanAtClipTime (of_int dur) rt = ?x" "0 \<le> ?x"
    using assms by (simp_all add: getSourceSpanAtClipTime_def getSourceTimeAtClipTime_def)
  define n where "n = roundMediaTime ?x"
  have n: "0 \<le> n" "\<bar>of_int n - ?x\<bar> \<le> 1 / 2" using roundMediaTime_ge_0 [OF x(2)] roundMediaTime_error [of ?x] by (auto simp: n_def)
  have t: "getTimelineDurationForSourceSpan (of_int n) rt = of_int n / ?r"
    using n(1) by (auto simp: getTimelineDurationForSourceSpan_def)
  show ?thesis
  proof (cases "?r = 1")
    case True
    then have "n = dur" by (simp add: n_def)
    then show ?thesis using True t by (simp add: x(1) n_def [symmetric])
  next
    case False
    have "of_int n / ?r - of_int dur = (of_int n - ?x) / ?r" using assms(2) by (simp add: field_simps)
    also have "\<bar>\<dots>\<bar> = \<bar>of_int n - ?x\<bar> / ?r" using assms(2) by simp
    also have "\<dots> \<le> 1 / 2 / ?r" using n(2) assms(2) by (intro divide_right_mono) auto
    also have "\<dots> < 1 / 2" using False assms(2) by (simp add: divide_simps)
    finally have "\<bar>of_int n / ?r - of_int dur\<bar> < 1 / 2" .
    then show ?thesis using n(1) assms(2) by (simp add: x(1) n_def [symmetric] t roundMediaTime_eqI)
  qed
qed

definition fast_enough :: "resize_member \<Rightarrow> bool" where
  "fast_enough m \<longleftrightarrow> gm_retime m = None \<or> 1 \<le> getEffectiveRateAt (gm_retime m)"

lemma duration_visible_ge:
  assumes "0 \<le> dur" "0 \<le> x" "fast_enough m"
  shows "dur \<le> getDurationForVisibleSourceSpan m (getVisibleSourceSpanForDuration m dur + x)"
proof (cases "gm_retime m")
  case None
  then show ?thesis using assms by (simp add: getDurationForVisibleSourceSpan_def getVisibleSourceSpanForDuration_def)
next
  case (Some rt)
  let ?v = "roundMediaTime (getSourceSpanAtClipTime (of_int dur) (Some rt))"
  have "getTimelineDurationForSourceSpan (of_int ?v) (Some rt) \<le> getTimelineDurationForSourceSpan (of_int (?v + x)) (Some rt)"
    using effective_rate_pos [of "Some rt"] assms(2)
    by (auto simp: getTimelineDurationForSourceSpan_def divide_right_mono)
  then have "roundMediaTime (getTimelineDurationForSourceSpan (of_int ?v) (Some rt))
      \<le> roundMediaTime (getTimelineDurationForSourceSpan (of_int (?v + x)) (Some rt))"
    by (rule roundMediaTime_mono)
  then show ?thesis using duration_roundtrip [OF assms(1), of "Some rt"] assms(3)
    by (simp add: fast_enough_def getDurationForVisibleSourceSpan_def getVisibleSourceSpanForDuration_def Some)
qed

lemma zero_allowed:
  assumes "member_ok d m" "fast_enough m" "0 \<le> d"
  shows "inside_bounds (getMinimumAllowedDeltaTime m side d, getMaximumAllowedDeltaTime m side d) 0"
proof -
  have dur: "0 \<le> gm_duration m" using assms by (auto simp: member_ok_def)
  have L: "gm_duration m \<le> getDurationForVisibleSourceSpan m
      (getVisibleSourceSpanForDuration m (gm_duration m) + gm_trimStart m)"
    using dur assms by (intro duration_visible_ge) (auto simp: member_ok_def)
  have R: "gm_duration m \<le> getDurationForVisibleSourceSpan m (s - gm_trimStart m)"
    if "gm_sourceDuration m = Some s" for s
  proof -
    have "s - gm_trimStart m = getVisibleSourceSpanForDuration m (gm_duration m) + gm_trimEnd m"
      using assms(1) that by (auto simp: member_ok_def)
    then show ?thesis using dur assms by (simp add: duration_visible_ge member_ok_def)
  qed
  show ?thesis using assms(1) L R
    by (cases side) (auto simp: inside_bounds_def member_ok_def getMinimumAllowedDeltaTime_def
        getMaximumAllowedDeltaTime_def member_source_duration_def Let_def split: option.splits)
qed

text \<open>The final delta is allowed by every member.\<close>

lemma final_delta_allowed:
  assumes "members \<noteq> []" "\<forall>m \<in> set members. member_ok (frame_duration w fps) m \<and> fast_enough m"
    "0 \<le> frame_duration w fps" "computeGroupResize w members side delta fps = (final, ups)" "m \<in> set members"
  shows "inside_bounds (getMinimumAllowedDeltaTime m side (frame_duration w fps),
    getMaximumAllowedDeltaTime m side (frame_duration w fps)) final"
proof -
  let ?b = "resize_bounds members side (frame_duration w fps)"
  have "inside_bounds ?b 0" using assms(1-3) by (auto simp: inside_resize_bounds intro!: zero_allowed)
  from clamp_to_bounds_inside [OF this] have "inside_bounds ?b final"
    using assms(1,4) by (auto simp: computeGroupResize_def Let_def)
  then show ?thesis using assms(1,5) by (simp add: inside_resize_bounds)
qed

lemma resize_updates:
  "members \<noteq> [] \<Longrightarrow> computeGroupResize w members side delta fps = (final, ups) \<Longrightarrow>
   ups = map (buildResizeUpdate side final) members"
  by (auto simp: computeGroupResize_def Let_def)

lemma update_ok:
  assumes "member_ok d m" "0 \<le> d"
    "inside_bounds (getMinimumAllowedDeltaTime m side d, getMaximumAllowedDeltaTime m side d) delta"
    and "u = buildResizeUpdate side delta m"
  shows "d \<le> gu_duration u \<and> 0 \<le> gu_startTime u \<and> 0 \<le> gu_trimStart u \<and> 0 \<le> gu_trimEnd u
    \<and> (\<forall>b. leftNeighborBound m = Some b \<longrightarrow> b \<le> gu_startTime u)
    \<and> (\<forall>b. rightNeighborBound m = Some b \<longrightarrow> gu_startTime u + gu_duration u \<le> b)
    \<and> (side = LeftSide \<longrightarrow> gu_startTime u + gu_duration u = gm_startTime m + gm_duration m)
    \<and> (side = RightSide \<longrightarrow> gu_startTime u = gm_startTime m)"
  using assms
  by (cases side) (auto simp: buildResizeUpdate_def Let_def inside_bounds_def member_ok_def
      getMinimumAllowedDeltaTime_def getMaximumAllowedDeltaTime_def split: option.splits if_splits)

lemma update_conserves_source:
  assumes "member_ok d m" "gm_retime m = None" "gm_sourceDuration m = Some s"
    "inside_bounds (getMinimumAllowedDeltaTime m side d, getMaximumAllowedDeltaTime m side d) delta"
    and "u = buildResizeUpdate side delta m"
  shows "gu_trimStart u + gu_duration u + gu_trimEnd u = s"
  using assms
  by (cases side) (auto simp: buildResizeUpdate_def Let_def inside_bounds_def member_ok_def
      getMinimumAllowedDeltaTime_def getMaximumAllowedDeltaTime_def getSourceDeltaForClipDelta_def
      getDurationForVisibleSourceSpan_def getVisibleSourceSpanForDuration_def member_source_duration_def
      split: option.splits if_splits)

section \<open>Properties\<close>

text \<open>C20: A group resize respects every member, whatever the frame snapping does: after it each
  element is still at least one frame long, starts at or after 0, stays between its neighbours, has
  trims that are not negative, and keeps the edge that was not dragged; an element played at its
  recorded speed shows, with its trims, exactly its source. (Members come in consistent, and are not
  slowed down.)\<close>
theorem groupResize_respects_members:
  assumes "\<forall>m \<in> set members. member_ok (frame_duration w fps) m \<and> fast_enough m"
    and "0 \<le> frame_duration w fps" and "computeGroupResize w members side delta fps = (final, ups)"
    and "m \<in> set members" and "u = buildResizeUpdate side final m"
  shows "u \<in> set ups \<and> gu_ref u = gm_ref m
    \<and> frame_duration w fps \<le> gu_duration u \<and> 0 \<le> gu_startTime u \<and> 0 \<le> gu_trimStart u \<and> 0 \<le> gu_trimEnd u
    \<and> (\<forall>b. leftNeighborBound m = Some b \<longrightarrow> b \<le> gu_startTime u)
    \<and> (\<forall>b. rightNeighborBound m = Some b \<longrightarrow> gu_startTime u + gu_duration u \<le> b)
    \<and> (side = LeftSide \<longrightarrow> gu_startTime u + gu_duration u = gm_startTime m + gm_duration m)
    \<and> (side = RightSide \<longrightarrow> gu_startTime u = gm_startTime m)
    \<and> (\<forall>s. gm_retime m = None \<and> gm_sourceDuration m = Some s \<longrightarrow> gu_trimStart u + gu_duration u + gu_trimEnd u = s)"
proof -
  have ne: "members \<noteq> []" using assms(4) by auto
  have ok: "member_ok (frame_duration w fps) m" using assms(1,4) by blast
  note al = final_delta_allowed [OF ne assms(1-4)]
  have "u \<in> set ups" using resize_updates [OF ne assms(3)] assms(4,5) by simp
  moreover have "gu_ref u = gm_ref m" by (simp add: assms(5) buildResizeUpdate_def Let_def)
  ultimately show ?thesis
    using update_ok [OF ok assms(2) al assms(5)] update_conserves_source [OF ok _ _ al assms(5)] by blast
qed

definition demo_wasm :: wasm_api where
  "demo_wasm = \<lparr>ticksPerSecond = 120000, lastFrameTime_w = (\<lambda>_ _. None), mediaTimeFromSeconds_w = (\<lambda>_. None),
     roundToFrame_w = (\<lambda>_ _. None), snappedSeekTime_w = (\<lambda>_ _ _. None),
     parseColor_w = (\<lambda>_. None), formatColor_w = (\<lambda>_. []), cos_sin_w = (\<lambda>_. (1, 0))\<rparr>"

definition demo_member :: "retime_config option \<Rightarrow> resize_member" where
  "demo_member rt = \<lparr>gm_ref = \<lparr>ref_trackId = ''m'', ref_elementId = ''v''\<rparr>, gm_startTime = 8000, gm_duration = 40000,
     gm_trimStart = 6000, gm_trimEnd = 3000, gm_sourceDuration = Some (6000 + 60000 + 3000), gm_retime = rt,
     leftNeighborBound = Some 2000, rightNeighborBound = None\<rparr>"

definition demo_plain_member :: resize_member where
  "demo_plain_member = (demo_member None)\<lparr>gm_sourceDuration := Some 49000\<rparr>"

theorem groupResize_respects_members_witness:
  "case computeGroupResize demo_wasm [demo_plain_member] LeftSide (- 100000) \<lparr>numerator = 30, denominator = 1\<rparr> of
     (final, ups) \<Rightarrow> 2000 \<le> gu_startTime (buildResizeUpdate LeftSide final demo_plain_member)"
proof -
  obtain final ups where c: "computeGroupResize demo_wasm [demo_plain_member] LeftSide (- 100000)
      \<lparr>numerator = 30, denominator = 1\<rparr> = (final, ups)" by fastforce
  have f: "frame_duration demo_wasm \<lparr>numerator = 30, denominator = 1\<rparr> = 4000"
    using math_round_of_int [of 4000] by (simp add: frame_duration_def demo_wasm_def)
  have "\<forall>m \<in> set [demo_plain_member]. member_ok (frame_duration demo_wasm \<lparr>numerator = 30, denominator = 1\<rparr>) m \<and> fast_enough m"
    by (simp add: f member_ok_def fast_enough_def demo_plain_member_def demo_member_def getVisibleSourceSpanForDuration_def)
  moreover have "0 \<le> frame_duration demo_wasm \<lparr>numerator = 30, denominator = 1\<rparr>" by (simp add: f)
  ultimately have "\<forall>b. leftNeighborBound demo_plain_member = Some b
      \<longrightarrow> b \<le> gu_startTime (buildResizeUpdate LeftSide final demo_plain_member)"
    using groupResize_respects_members [OF _ _ c, of demo_plain_member] by simp
  then show ?thesis by (simp add: c) (simp add: demo_plain_member_def demo_member_def)
qed

text \<open>With a retimed member the source is not conserved exactly: a clip at speed 3/2 that fits its
  source to the tick is resized by one tick, and its trims plus its duration at that speed no
  longer add up to the source duration, because the source delta is rounded on its own.\<close>
theorem groupResize_retimed_drifts:
  "let rt = Some \<lparr>rate = Fin (3 / 2), maintainPitch = None\<rparr>; m = demo_member rt;
       (final, ups) = computeGroupResize demo_wasm [m] LeftSide 1 \<lparr>numerator = 30, denominator = 1\<rparr>;
       u = hd ups
   in of_int (gm_trimStart m) + of_int (gm_duration m) * (3 / 2) + of_int (gm_trimEnd m) = (69000 :: rat)
      \<and> final = 1
      \<and> of_int (gu_trimStart u) + of_int (gu_duration u) * (3 / 2) + of_int (gu_trimEnd u) = (69000 + 1 / 2 :: rat)"
  by code_simp

end
