(* ===== verification/Keyframe_Query.thy ===== *)
theory Keyframe_Query
  imports Keyframes Snapping Group_Move Group_Resize "HOL-Library.Sublist"
begin

text \<open>
  Reading keyframes (\<open>animation/keyframe-query.ts\<close>, \<open>resolve.ts\<close>, \<open>values.ts\<close>, \<open>graph-channels.ts\<close>,
  \<open>property-groups.ts\<close>), the paths they are bound to (\<open>path.ts\<close>, \<open>effect-param-channel.ts\<close>,
  \<open>graphic-param-channel.ts\<close>), and snapping a group of elements to the edges and keyframes of the others
  (\<open>timeline/animation-snap-points.ts\<close>, \<open>timeline/group-move/snap.ts\<close>). Parsing and printing colours
  is the package \<open>culori\<close>: the parameters \<open>parseColor\<close> and \<open>formatColor\<close>, on linear components.
\<close>

section \<open>Paths\<close>

definition ANIMATION_PROPERTY_PATHS :: "string list" where
  "ANIMATION_PROPERTY_PATHS =
     [''transform.positionX'', ''transform.positionY'', ''transform.scaleX'', ''transform.scaleY'', ''transform.rotate'',
      ''opacity'', ''volume'', ''color'', ''background.color'', ''background.paddingX'', ''background.paddingY'',
      ''background.offsetX'', ''background.offsetY'', ''background.cornerRadius'']"

definition EFFECT_PARAM_PATH_PREFIX :: string where "EFFECT_PARAM_PATH_PREFIX = ''effects.''"
definition EFFECT_PARAM_PATH_SUFFIX :: string where "EFFECT_PARAM_PATH_SUFFIX = ''.params.''"
definition GRAPHIC_PARAM_PATH_PREFIX :: string where "GRAPHIC_PARAM_PATH_PREFIX = ''params.''"

text \<open>\<open>s.indexOf(pat)\<close>, with \<open>None\<close> for \<open>-1\<close>.\<close>

fun indexOf :: "string \<Rightarrow> string \<Rightarrow> nat option" where
  "indexOf pat s =
     (if prefix pat s then Some 0 else case s of [] \<Rightarrow> None | _ # s' \<Rightarrow> map_option Suc (indexOf pat s'))"

declare indexOf.simps [simp del]

definition buildEffectParamPath :: "string \<Rightarrow> string \<Rightarrow> string" where
  "buildEffectParamPath effectId paramKey = EFFECT_PARAM_PATH_PREFIX @ effectId @ EFFECT_PARAM_PATH_SUFFIX @ paramKey"

definition isEffectParamPath :: "string \<Rightarrow> bool" where
  "isEffectParamPath path \<longleftrightarrow> prefix EFFECT_PARAM_PATH_PREFIX path \<and> indexOf EFFECT_PARAM_PATH_SUFFIX path \<noteq> None"

definition parseEffectParamPath :: "string \<Rightarrow> (string \<times> string) option" where
  "parseEffectParamPath path =
     (if \<not> isEffectParamPath path then None
      else
        let withoutPrefix = drop (length EFFECT_PARAM_PATH_PREFIX) path
        in case indexOf EFFECT_PARAM_PATH_SUFFIX withoutPrefix of
             None \<Rightarrow> None
           | Some i \<Rightarrow>
               let effectId = take i withoutPrefix; paramKey = drop (i + length EFFECT_PARAM_PATH_SUFFIX) withoutPrefix
               in if i = 0 \<or> effectId = [] \<or> paramKey = [] then None else Some (effectId, paramKey))"

definition buildGraphicParamPath :: "string \<Rightarrow> string" where
  "buildGraphicParamPath paramKey = GRAPHIC_PARAM_PATH_PREFIX @ paramKey"

definition isGraphicParamPath :: "string \<Rightarrow> bool" where
  "isGraphicParamPath path \<longleftrightarrow> prefix GRAPHIC_PARAM_PATH_PREFIX path"

definition parseGraphicParamPath :: "string \<Rightarrow> string option" where
  "parseGraphicParamPath path =
     (if \<not> isGraphicParamPath path then None
      else let paramKey = drop (length GRAPHIC_PARAM_PATH_PREFIX) path in if length paramKey > 0 then Some paramKey else None)"

definition isAnimationPropertyPath :: "string \<Rightarrow> bool" where
  "isAnimationPropertyPath path \<longleftrightarrow> path \<in> set ANIMATION_PROPERTY_PATHS"

definition isAnimationPath :: "string \<Rightarrow> bool" where
  "isAnimationPath path \<longleftrightarrow> isAnimationPropertyPath path \<or> isGraphicParamPath path \<or> isEffectParamPath path"

section \<open>Values\<close>

type_synonym color_parser = "string \<Rightarrow> (rat \<times> rat \<times> rat \<times> rat) option"
type_synonym color_printer = "rat \<times> rat \<times> rat \<times> rat \<Rightarrow> string"

text \<open>The value of a channel at a time; a fallback of the other kind is returned as it is.\<close>

fun getChannelValueAtTime :: "channel option \<Rightarrow> rat \<Rightarrow> component_value \<Rightarrow> component_value" where
  "getChannelValueAtTime (Some (ScalarChannel c)) t (CNumber x) =
     (if sc_keys c = [] then CNumber x else CNumber (getScalarChannelValueAtTime (Some c) t x))"
| "getChannelValueAtTime (Some (DiscreteChannel ks)) t (CDiscrete d) =
     (if ks = [] then CDiscrete d else CDiscrete (getDiscreteChannelValueAtTime (Some ks) t d))"
| "getChannelValueAtTime _ t v = v"

fun number_of :: "component_value option \<Rightarrow> rat option" where
  "number_of (Some (CNumber x)) = Some x"
| "number_of _ = None"

definition composeAnimationValue :: "color_printer \<Rightarrow> binding_kind \<Rightarrow> (string \<times> component_value) list \<Rightarrow> animation_value option" where
  "composeAnimationValue formatColor kind vs =
     (let n = (\<lambda>k. number_of (map_of vs k))
      in case kind of
           KNumber \<Rightarrow> map_option VNumber (n ''value'')
         | KVector2 \<Rightarrow> (case (n ''x'', n ''y'') of (Some x, Some y) \<Rightarrow> Some (VVector x y) | _ \<Rightarrow> None)
         | KColor \<Rightarrow> (case (n ''r'', n ''g'', n ''b'', n ''a'') of
             (Some r, Some g, Some b, Some a) \<Rightarrow> Some (VString (formatColor (r, g, b, a))) | _ \<Rightarrow> None)
         | KDiscrete \<Rightarrow> (case map_of vs ''value'' of
             Some (CDiscrete (DString s)) \<Rightarrow> Some (VString s) | Some (CDiscrete (DBool b)) \<Rightarrow> Some (VBool b) | _ \<Rightarrow> None))"

definition getElementLocalTime :: "rat \<Rightarrow> rat \<Rightarrow> rat \<Rightarrow> rat" where
  "getElementLocalTime timelineTime start dur =
     (let localTime = timelineTime - start in if localTime \<le> 0 then 0 else if localTime \<ge> dur then dur else localTime)"

definition zero_component :: "channel option \<Rightarrow> component_value" where
  "zero_component ch = (case ch of Some (DiscreteChannel _) \<Rightarrow> CDiscrete (DBool False) | _ \<Rightarrow> CNumber 0)"

definition resolveAnimationPathValueAtTime ::
    "color_parser \<Rightarrow> color_printer \<Rightarrow> element_animations option \<Rightarrow> string \<Rightarrow> rat \<Rightarrow> animation_value \<Rightarrow> animation_value" where
  "resolveAnimationPathValueAtTime parseColor formatColor a path t fallback =
     (case getBinding a path of
        None \<Rightarrow> fallback
      | Some b \<Rightarrow>
          (case decomposeAnimationValue parseColor (b_kind b) fallback of
             None \<Rightarrow> fallback
           | Some fs \<Rightarrow>
               let vs = js_map (map (\<lambda>(key, cid).
                     let ch = getChannelById a cid
                     in (key, getChannelValueAtTime ch t (case map_of fs key of Some v \<Rightarrow> v | None \<Rightarrow> zero_component ch))) (components b))
               in case composeAnimationValue formatColor (b_kind b) vs of Some v \<Rightarrow> v | None \<Rightarrow> fallback))"

definition resolveEffectParamsAtTime ::
    "color_parser \<Rightarrow> color_printer \<Rightarrow> string \<Rightarrow> (string \<times> animation_value) list \<Rightarrow> element_animations option \<Rightarrow> rat \<Rightarrow>
     (string \<times> animation_value) list" where
  "resolveEffectParamsAtTime parseColor formatColor effectId params a t =
     map (\<lambda>(paramKey, staticValue).
       let path = buildEffectParamPath effectId paramKey
       in (paramKey, if getBinding a path \<noteq> None
            then resolveAnimationPathValueAtTime parseColor formatColor a path (max 0 t) staticValue else staticValue)) params"

definition resolveGraphicParamsAtTime ::
    "color_parser \<Rightarrow> color_printer \<Rightarrow> (string \<times> animation_value) list \<Rightarrow> (string \<times> animation_value) list \<Rightarrow> element_animations option \<Rightarrow> rat \<Rightarrow>
     (string \<times> animation_value) list" where
  "resolveGraphicParamsAtTime parseColor formatColor params definitions a t =
     fold (\<lambda>(key, default) resolved.
       let path = buildGraphicParamPath key
       in if getBinding a path = None then resolved
          else AList.update key (resolveAnimationPathValueAtTime parseColor formatColor a path (max 0 t)
                 (case map_of params key of Some v \<Rightarrow> v | None \<Rightarrow> default)) resolved) definitions params"

definition resolveNumberAtTime :: "color_parser \<Rightarrow> color_printer \<Rightarrow> rat \<Rightarrow> element_animations option \<Rightarrow> string \<Rightarrow> rat \<Rightarrow> animation_value" where
  "resolveNumberAtTime parseColor formatColor base a path t =
     resolveAnimationPathValueAtTime parseColor formatColor a path (max 0 t) (VNumber base)"

definition resolveOpacityAtTime :: "color_parser \<Rightarrow> color_printer \<Rightarrow> rat \<Rightarrow> element_animations option \<Rightarrow> rat \<Rightarrow> animation_value" where
  "resolveOpacityAtTime parseColor formatColor base a t =
     resolveAnimationPathValueAtTime parseColor formatColor a ''opacity'' (max 0 t) (VNumber base)"

definition resolveColorAtTime :: "color_parser \<Rightarrow> color_printer \<Rightarrow> string \<Rightarrow> element_animations option \<Rightarrow> string \<Rightarrow> rat \<Rightarrow> animation_value" where
  "resolveColorAtTime parseColor formatColor base a path t =
     resolveAnimationPathValueAtTime parseColor formatColor a path (max 0 t) (VString base)"

definition removeEffectParamKeyframe :: "element_animations option \<Rightarrow> string \<Rightarrow> string \<Rightarrow> uuid \<Rightarrow> element_animations option" where
  "removeEffectParamKeyframe a effectId paramKey keyframeId = removeElementKeyframe a (buildEffectParamPath effectId paramKey) keyframeId"

section \<open>Keyframes of an element\<close>

record keyframe_match =
  componentIndex :: nat
  km_id :: uuid
  km_time :: media_time
  km_interpolation :: interpolation

record element_keyframe =
  ek_path :: string
  ek_id :: uuid
  ek_time :: media_time
  ek_value :: animation_value
  ek_interpolation :: interpolation

fun getKeyframeInterpolation :: "channel \<Rightarrow> (uuid \<times> media_time \<times> interpolation) list" where
  "getKeyframeInterpolation (ScalarChannel c) =
     map (\<lambda>k. (sk_id k, sk_time k, getScalarSegmentInterpolation (segmentToNext k))) (sc_keys c)"
| "getKeyframeInterpolation (DiscreteChannel ks) = map (\<lambda>k. (dk_id k, dk_time k, IHold)) ks"

definition component_matches :: "element_animations \<Rightarrow> nat \<Rightarrow> string \<Rightarrow> keyframe_match list" where
  "component_matches a i cid =
     (case prop_get (channels a) cid of
        None \<Rightarrow> []
      | Some ch \<Rightarrow> map (\<lambda>(kid, t, ip). \<lparr>componentIndex = i, km_id = kid, km_time = t, km_interpolation = ip\<rparr>)
                      (getKeyframeInterpolation ch))"

definition getBindingKeyframeMatches :: "element_animations \<Rightarrow> binding \<Rightarrow> keyframe_match list" where
  "getBindingKeyframeMatches a b = concat (map (\<lambda>(i, _, cid). component_matches a i cid) (List.enumerate 0 (components b)))"

text \<open>The loop that builds \<open>uniqueMatches\<close>; its first argument is the last entry so far.\<close>

fun unique_from :: "keyframe_match \<Rightarrow> keyframe_match list \<Rightarrow> keyframe_match list" where
  "unique_from prev [] = [prev]"
| "unique_from prev (m # ms) =
     (if km_time prev \<noteq> km_time m then prev # unique_from m ms
      else if componentIndex prev \<noteq> 0 \<and> componentIndex m = 0 then unique_from m ms
      else unique_from prev ms)"

definition getUniqueBindingKeyframeMatches :: "element_animations \<Rightarrow> binding \<Rightarrow> keyframe_match list" where
  "getUniqueBindingKeyframeMatches a b =
     (case sort_key km_time (sort_key componentIndex (getBindingKeyframeMatches a b)) of [] \<Rightarrow> [] | m # ms \<Rightarrow> unique_from m ms)"

definition getPreferredBindingKeyframeMatch :: "keyframe_match list \<Rightarrow> keyframe_match option" where
  "getPreferredBindingKeyframeMatch ms =
     (case find (\<lambda>m. componentIndex m = 0) ms of
        Some m \<Rightarrow> Some m | None \<Rightarrow> (case ms of [] \<Rightarrow> None | m # _ \<Rightarrow> Some m))"

definition getBindingFallbackValue :: "channel option \<Rightarrow> component_value" where
  "getBindingFallbackValue ch =
     (case ch of
        Some (ScalarChannel c) \<Rightarrow> (case sc_keys c of [] \<Rightarrow> CNumber 0 | k # _ \<Rightarrow> CNumber (sk_value k))
      | Some (DiscreteChannel ks) \<Rightarrow> (case ks of [] \<Rightarrow> CDiscrete (DBool False) | k # _ \<Rightarrow> CDiscrete (dk_value k))
      | None \<Rightarrow> CNumber 0)"

definition getComposedBindingValueAtTime :: "color_printer \<Rightarrow> element_animations \<Rightarrow> binding \<Rightarrow> media_time \<Rightarrow> animation_value option" where
  "getComposedBindingValueAtTime formatColor a b t =
     composeAnimationValue formatColor (b_kind b)
       (js_map (map (\<lambda>(key, cid). let ch = prop_get (channels a) cid in (key, getChannelValueAtTime ch (of_int t) (getBindingFallbackValue ch)))
          (components b)))"

definition toElementKeyframe :: "color_printer \<Rightarrow> element_animations \<Rightarrow> binding \<Rightarrow> string \<Rightarrow> keyframe_match \<Rightarrow> element_keyframe option" where
  "toElementKeyframe formatColor a b path m =
     map_option (\<lambda>v. \<lparr>ek_path = path, ek_id = km_id m, ek_time = km_time m, ek_value = v, ek_interpolation = km_interpolation m\<rparr>)
       (getComposedBindingValueAtTime formatColor a b (km_time m))"

definition binding_keyframes :: "color_printer \<Rightarrow> element_animations \<Rightarrow> string \<Rightarrow> binding \<Rightarrow> element_keyframe list" where
  "binding_keyframes formatColor a path b = List.map_filter (toElementKeyframe formatColor a b path) (getUniqueBindingKeyframeMatches a b)"

definition getElementKeyframes :: "color_printer \<Rightarrow> element_animations option \<Rightarrow> element_keyframe list" where
  "getElementKeyframes formatColor anims =
     (case anims of
        None \<Rightarrow> []
      | Some a \<Rightarrow> concat (map (\<lambda>(path, b). case b of
            None \<Rightarrow> [] | Some b \<Rightarrow> if isAnimationPath path then binding_keyframes formatColor a path b else []) (bindings a)))"

definition hasKeyframesForPath :: "element_animations option \<Rightarrow> string \<Rightarrow> bool" where
  "hasKeyframesForPath a path =
     (case getBinding a path of None \<Rightarrow> False | Some b \<Rightarrow> list_ex (\<lambda>(_, cid). hasChannelKeys (getChannelById a cid)) (components b))"

definition preferred_keyframe :: "color_printer \<Rightarrow> (keyframe_match \<Rightarrow> bool) \<Rightarrow> element_animations option \<Rightarrow> string \<Rightarrow> element_keyframe option" where
  "preferred_keyframe formatColor P anims path =
     (case (anims, getBinding anims path) of
        (Some a, Some b) \<Rightarrow>
          (case getPreferredBindingKeyframeMatch (filter P (getBindingKeyframeMatches a b)) of
             None \<Rightarrow> None | Some m \<Rightarrow> toElementKeyframe formatColor a b path m)
      | _ \<Rightarrow> None)"

definition getKeyframeAtTime :: "color_printer \<Rightarrow> element_animations option \<Rightarrow> string \<Rightarrow> media_time \<Rightarrow> element_keyframe option" where
  "getKeyframeAtTime formatColor a path t = preferred_keyframe formatColor (\<lambda>m. km_time m = t) a path"

definition getKeyframeById :: "color_printer \<Rightarrow> element_animations option \<Rightarrow> string \<Rightarrow> uuid \<Rightarrow> element_keyframe option" where
  "getKeyframeById formatColor a path kid = preferred_keyframe formatColor (\<lambda>m. km_id m = kid) a path"

definition ANIMATION_PROPERTY_GROUPS :: "(string \<times> string list) list" where
  "ANIMATION_PROPERTY_GROUPS = [(''transform.scale'', [''transform.scaleX'', ''transform.scaleY''])]"

definition getGroupKeyframesAtTime :: "color_printer \<Rightarrow> element_animations option \<Rightarrow> string \<Rightarrow> media_time \<Rightarrow> (string \<times> uuid) list" where
  "getGroupKeyframesAtTime formatColor a grp t =
     List.map_filter (\<lambda>path. map_option (\<lambda>kf. (path, ek_id kf)) (getKeyframeAtTime formatColor a path t))
       (case map_of ANIMATION_PROPERTY_GROUPS grp of None \<Rightarrow> [] | Some paths \<Rightarrow> paths)"

definition hasGroupKeyframeAtTime :: "color_printer \<Rightarrow> element_animations option \<Rightarrow> string \<Rightarrow> media_time \<Rightarrow> bool" where
  "hasGroupKeyframeAtTime formatColor a grp t \<longleftrightarrow> length (getGroupKeyframesAtTime formatColor a grp t) > 0"

subsection \<open>Editable channels (\<open>graph-channels.ts\<close>)\<close>

definition getEditableScalarChannels :: "element_animations option \<Rightarrow> string \<Rightarrow> (binding \<times> (string \<times> string \<times> scalar_channel) list) option" where
  "getEditableScalarChannels a path =
     map_option (\<lambda>b. (b, List.map_filter (\<lambda>(key, cid).
       case getChannelById a cid of Some (ScalarChannel c) \<Rightarrow> Some (key, cid, c) | _ \<Rightarrow> None) (components b))) (getBinding a path)"

definition getEditableScalarChannel :: "element_animations option \<Rightarrow> string \<Rightarrow> string \<Rightarrow> (string \<times> string \<times> scalar_channel) option" where
  "getEditableScalarChannel a path componentKey =
     (case getEditableScalarChannels a path of None \<Rightarrow> None | Some (_, chs) \<Rightarrow> find (\<lambda>(key, _, _). key = componentKey) chs)"

text \<open>The keyframe with its index, the one before and the one after.\<close>

definition getScalarKeyframeContext ::
    "element_animations option \<Rightarrow> string \<Rightarrow> string \<Rightarrow> uuid \<Rightarrow> (scalar_key \<times> nat \<times> scalar_key option \<times> scalar_key option) option" where
  "getScalarKeyframeContext a path componentKey kid =
     (case getEditableScalarChannel a path componentKey of
        None \<Rightarrow> None
      | Some (_, _, c) \<Rightarrow>
          (case findIndex (\<lambda>k. sk_id k = kid) (sc_keys c) of
             None \<Rightarrow> None
           | Some i \<Rightarrow> Some (sc_keys c ! i, i, js_at (sc_keys c) (int i - 1), js_at (sc_keys c) (int i + 1))))"

section \<open>Snapping with keyframes\<close>

definition getAnimationKeyframeSnapPointsForTimeline :: "color_printer \<Rightarrow> scene_tracks \<Rightarrow> uuid set \<Rightarrow> snap_point list" where
  "getAnimationKeyframeSnapPointsForTimeline formatColor ts excludeIds =
     concat (map (\<lambda>tr. concat (map (\<lambda>e.
         if elementId e \<in> excludeIds then []
         else map (\<lambda>kf. \<lparr>snap_time = addMediaTime (startTime e) (ek_time kf), snap_type = KeyframePoint,
                snap_elementId = Some (elementId e), snap_trackId = Some (trackId tr)\<rparr>) (getElementKeyframes formatColor (animations e)))
       (elements tr))) (orderedTracks ts))"

definition group_snap_points :: "color_printer \<Rightarrow> move_group \<Rightarrow> scene_tracks \<Rightarrow> media_time \<Rightarrow> snap_point list" where
  "group_snap_points formatColor g ts playheadTime =
     (let excludeIds = set (map (\<lambda>m. ref_elementId (mem_ref m)) (members g))
      in buildTimelineSnapPoints [getElementEdgeSnapPoints ts excludeIds, getPlayheadSnapPoints playheadTime,
           getAnimationKeyframeSnapPointsForTimeline formatColor ts excludeIds])"

text \<open>The state of the loop over the members: the closest distance so far (\<open>None\<close> is infinity), the snapped anchor
  time and the snap point; \<open>try_snap\<close> snaps one edge, which lies \<open>offset\<close> after the anchor.\<close>

type_synonym group_snap = "rat option \<times> media_time \<times> snap_point option"

definition try_snap :: "snap_point list \<Rightarrow> rat \<Rightarrow> media_time \<Rightarrow> media_time \<Rightarrow> group_snap \<Rightarrow> group_snap" where
  "try_snap pts maxD anchorStart offset st =
     (let r = resolveTimelineSnap (addMediaTime anchorStart offset) pts maxD
      in case (snapPoint r, snapDistance r) of
           (Some p, Some d) \<Rightarrow>
             if (case fst st of None \<Rightarrow> True | Some c \<Rightarrow> d < c)
             then (Some d, subMediaTime (snappedTime r) offset, Some p) else st
         | _ \<Rightarrow> st)"

definition snap_member :: "snap_point list \<Rightarrow> rat \<Rightarrow> media_time \<Rightarrow> group_member \<Rightarrow> group_snap \<Rightarrow> group_snap" where
  "snap_member pts maxD anchorStart m st =
     try_snap pts maxD anchorStart (addMediaTime (mem_timeOffset m) (mem_duration m))
       (try_snap pts maxD anchorStart (mem_timeOffset m) st)"

definition snapGroupEdges ::
    "wasm_api \<Rightarrow> color_printer \<Rightarrow> move_group \<Rightarrow> media_time \<Rightarrow> scene_tracks \<Rightarrow> media_time \<Rightarrow> rat \<Rightarrow> media_time \<times> snap_point option" where
  "snapGroupEdges w formatColor g anchorStart ts playheadTime zoomLevel =
     snd (fold (snap_member (group_snap_points formatColor g ts playheadTime) (getTimelineSnapThresholdInTicks w zoomLevel 10) anchorStart)
            (members g) (None, anchorStart, None))"

section \<open>Lemmas\<close>

subsection \<open>Paths\<close>

lemma indexOf_SomeD: "indexOf pat s = Some i \<Longrightarrow> s = take i s @ pat @ drop (i + length pat) s"
proof (induction s arbitrary: i)
  case (Cons c s)
  show ?case
  proof (cases "prefix pat (c # s)")
    case True
    then show ?thesis using Cons.prems by (subst (asm) indexOf.simps) (auto elim!: prefixE)
  next
    case False
    then show ?thesis using Cons by (subst (asm) (2) indexOf.simps) auto
  qed
qed (subst (asm) indexOf.simps, auto split: if_splits)

lemma indexOf_append:
  assumes "\<And>c. c \<in> set e \<Longrightarrow> c \<noteq> hd pat" "pat \<noteq> []"
  shows "indexOf pat (e @ pat @ k) = Some (length e)"
  using assms
proof (induction e)
  case Nil
  then show ?case by (subst indexOf.simps) simp
next
  case (Cons c e)
  have "\<not> prefix pat ((c # e) @ pat @ k)" using Cons.prems by (cases pat) auto
  then show ?case using Cons by (subst indexOf.simps) simp
qed

lemma indexOf_occurs: "indexOf pat (xs @ pat @ ys) \<noteq> None"
proof (induction xs)
  case Nil
  then show ?case by (subst indexOf.simps) simp
next
  case (Cons x xs)
  then show ?case by (subst indexOf.simps) auto
qed

lemma isEffectParamPath_build [simp]: "isEffectParamPath (buildEffectParamPath e k)"
  using indexOf_occurs [of EFFECT_PARAM_PATH_SUFFIX "EFFECT_PARAM_PATH_PREFIX @ e" k]
  by (simp add: isEffectParamPath_def buildEffectParamPath_def)

lemma parseEffectParamPath_build:
  assumes "CHR ''.'' \<notin> set e" "e \<noteq> []" "k \<noteq> []"
  shows "parseEffectParamPath (buildEffectParamPath e k) = Some (e, k)"
proof -
  have "indexOf EFFECT_PARAM_PATH_SUFFIX (e @ EFFECT_PARAM_PATH_SUFFIX @ k) = Some (length e)"
    using assms by (intro indexOf_append) (auto simp: EFFECT_PARAM_PATH_SUFFIX_def)
  then show ?thesis using assms isEffectParamPath_build [of e k]
    by (simp add: parseEffectParamPath_def buildEffectParamPath_def)
qed

lemma build_parseEffectParamPath: "parseEffectParamPath p = Some (e, k) \<Longrightarrow> buildEffectParamPath e k = p"
proof -
  assume *: "parseEffectParamPath p = Some (e, k)"
  then obtain r where r: "p = EFFECT_PARAM_PATH_PREFIX @ r"
    by (auto simp: parseEffectParamPath_def isEffectParamPath_def elim: prefixE split: if_splits)
  from * obtain i where i: "indexOf EFFECT_PARAM_PATH_SUFFIX r = Some i" "e = take i r"
      "k = drop (i + length EFFECT_PARAM_PATH_SUFFIX) r"
    by (auto simp: r parseEffectParamPath_def Let_def split: if_splits option.splits)
  show ?thesis using indexOf_SomeD [OF i(1)] by (simp add: r i(2,3) buildEffectParamPath_def)
qed

subsection \<open>Keyframe matches\<close>

lemma component_matches_index: "m \<in> set (component_matches a i cid) \<Longrightarrow> componentIndex m = i"
  by (auto simp: component_matches_def split: option.splits)

lemma matches_sorted:
  "sorted (map componentIndex (concat (map (\<lambda>(i, _, cid). component_matches a i cid) (List.enumerate n cs))))"
proof (induction cs arbitrary: n)
  case (Cons c cs)
  have "map componentIndex (component_matches a n cid) = map (\<lambda>_. n) (component_matches a n cid)" for cid
    by (simp add: component_matches_index cong: map_cong)
  then show ?case using Cons [of "Suc n"]
    by (cases c) (auto simp: sorted_append map_replicate_const dest!: component_matches_index in_set_enumerate_eq [THEN iffD1])
qed simp

lemma preferred_skip:
  "km_time p = km_time m \<Longrightarrow>
    getPreferredBindingKeyframeMatch (p # m # ms) =
      getPreferredBindingKeyframeMatch ((if componentIndex p \<noteq> 0 \<and> componentIndex m = 0 then m else p) # ms)"
  by (auto simp: getPreferredBindingKeyframeMatch_def split: option.splits)

lemma find_unique_from:
  "sorted (map km_time (p # ms)) \<Longrightarrow>
    find (\<lambda>m. km_time m = t) (unique_from p ms) = getPreferredBindingKeyframeMatch (filter (\<lambda>m. km_time m = t) (p # ms))"
proof (induction ms arbitrary: p)
  case Nil
  then show ?case by (simp add: getPreferredBindingKeyframeMatch_def)
next
  case (Cons m ms)
  show ?case
  proof (cases "km_time p = km_time m")
    case True
    then show ?thesis using Cons.IH [of m] Cons.IH [of p] Cons.prems preferred_skip [OF True]
      by auto
  next
    case False
    then have "\<forall>x \<in> set (m # ms). km_time p < km_time x" using Cons.prems by fastforce
    then have *: "filter (\<lambda>m. km_time m = t) (m # ms) = []" if "km_time p = t" using that by (auto simp: filter_empty_conv)
    show ?thesis
    proof (cases "km_time p = t")
      case True
      then show ?thesis using False * by (simp add: getPreferredBindingKeyframeMatch_def del: filter.simps(2)) simp
    next
      case ne: False
      then show ?thesis using False Cons.IH [of m] Cons.prems by simp
    qed
  qed
qed

lemma find_unique_matches:
  "find (\<lambda>m. km_time m = t) (getUniqueBindingKeyframeMatches a b) =
     getPreferredBindingKeyframeMatch (filter (\<lambda>m. km_time m = t) (getBindingKeyframeMatches a b))"
proof -
  let ?ms = "getBindingKeyframeMatches a b"
  have id: "sort_key componentIndex ?ms = ?ms"
    using matches_sorted [of a 0 "components b"] by (intro sort_key_id_if_sorted) (simp add: getBindingKeyframeMatches_def)
  have st: "filter (\<lambda>m. km_time m = t) (sort_key km_time ?ms) = filter (\<lambda>m. km_time m = t) ?ms"
    by (rule sort_key_stable)
  show ?thesis
  proof (cases "sort_key km_time ?ms")
    case Nil
    then show ?thesis using st id by (simp add: getUniqueBindingKeyframeMatches_def getPreferredBindingKeyframeMatch_def)
  next
    case (Cons m ms)
    then have "sorted (map km_time (m # ms))" by (metis sorted_sort_key)
    from find_unique_from [OF this, of t] show ?thesis
      using st id Cons by (simp add: getUniqueBindingKeyframeMatches_def)
  qed
qed

lemma unique_from_times:
  "sorted (map km_time (p # ms)) \<Longrightarrow> sorted_wrt (<) (map km_time (unique_from p ms)) \<and> km_time ` set (unique_from p ms) = km_time ` set (p # ms)"
proof (induction ms arbitrary: p)
  case (Cons m ms)
  show ?case
  proof (cases "km_time p = km_time m")
    case True
    then show ?thesis using Cons.IH [of m] Cons.IH [of p] Cons.prems by auto
  next
    case False
    then have "\<forall>x \<in> set (m # ms). km_time p < km_time x" using Cons.prems by fastforce
    then have "\<forall>x \<in> km_time ` set (unique_from m ms). km_time p < x" using Cons.IH [of m] Cons.prems by auto
    then have "\<forall>x \<in> set (unique_from m ms). km_time p < km_time x" by simp
    then show ?thesis using False Cons.IH [of m] Cons.prems by (auto simp: image_insert)
  qed
qed simp

lemma unique_matches_times:
  "sorted_wrt (<) (map km_time (getUniqueBindingKeyframeMatches a b))
   \<and> km_time ` set (getUniqueBindingKeyframeMatches a b) = km_time ` set (getBindingKeyframeMatches a b)"
proof (cases "sort_key km_time (sort_key componentIndex (getBindingKeyframeMatches a b))")
  case Nil
  then show ?thesis by (simp add: getUniqueBindingKeyframeMatches_def) (metis set_empty set_sort)
next
  case (Cons m ms)
  then have "sorted (map km_time (m # ms))" "set (m # ms) = set (getBindingKeyframeMatches a b)"
    by (metis sorted_sort_key) (metis Cons set_sort)
  then show ?thesis using unique_from_times [of m ms] Cons by (simp add: getUniqueBindingKeyframeMatches_def)
qed

subsection \<open>Snapping a group\<close>

text \<open>The invariant of the loop over the edges, whose offsets from the anchor are \<open>E\<close>.\<close>

definition group_best :: "snap_point list \<Rightarrow> rat \<Rightarrow> media_time \<Rightarrow> media_time set \<Rightarrow> group_snap \<Rightarrow> bool" where
  "group_best pts maxD start E st \<longleftrightarrow>
     (case st of
        (None, a, None) \<Rightarrow> a = start \<and> (\<forall>d \<in> E. \<forall>q \<in> set pts. maxD < snap_dist (start + d) q)
      | (Some c, a, Some p) \<Rightarrow>
          p \<in> set pts \<and> (\<exists>d \<in> E. a + d = snap_time p) \<and> c = of_int \<bar>a - start\<bar> \<and> c \<le> maxD
          \<and> (\<forall>d \<in> E. \<forall>q \<in> set pts. c \<le> snap_dist (start + d) q)
      | _ \<Rightarrow> False)"

lemma group_best_try:
  assumes "group_best pts maxD start E st"
  shows "group_best pts maxD start (insert d E) (try_snap pts maxD start d st)"
proof -
  obtain c a p where st: "st = (c, a, p)" by (cases st) auto
  show ?thesis
  proof (cases rule: resolveTimelineSnap_cases [of "start + d" pts maxD])
    case none
    then show ?thesis using assms
      by (cases c; cases p) (auto simp: st group_best_def try_snap_def Let_def addMediaTime_def intro: order.trans less_imp_le)
  next
    case (some q)
    have d: "\<bar>start + d - snap_time q\<bar> = \<bar>snap_time q - d - start\<bar>" by simp
    have far: "\<forall>e \<in> insert d E. \<forall>x \<in> set pts. snap_dist (start + d) q \<le> snap_dist (start + e) x"
      if "\<forall>e \<in> E. \<forall>x \<in> set pts. maxD < snap_dist (start + e) x"
      using some(6) that order.trans [OF some(5) less_imp_le] by blast
    have near: "\<forall>e \<in> insert d E. \<forall>x \<in> set pts. snap_dist (start + d) q \<le> snap_dist (start + e) x"
      if "\<forall>e \<in> E. \<forall>x \<in> set pts. c' \<le> snap_dist (start + e) x" "snap_dist (start + d) q < c'" for c'
      using some(6) that(1) order.trans [OF less_imp_le [OF that(2)]] by blast
    have le: "\<forall>x \<in> set pts. c' \<le> snap_dist (start + d) x" if "\<not> snap_dist (start + d) q < c'" for c'
      using some(6) order.trans [OF that [unfolded not_less]] by blast
    show ?thesis
    proof (cases c; cases p)
      assume "c = None" "p = None"
      then show ?thesis using assms some far
        by (simp add: st group_best_def try_snap_def d del: of_int_abs of_int_add of_int_diff)
    next
      fix c' p' assume *: "c = Some c'" "p = Some p'"
      then show ?thesis using assms some near [of c'] le [of c']
        by (cases "snap_dist (start + d) q < c'") (auto simp add: st group_best_def try_snap_def d simp del: of_int_abs of_int_add of_int_diff)
    qed (use assms in \<open>auto simp: st group_best_def\<close>)
  qed
qed

definition edge_offsets :: "move_group \<Rightarrow> media_time set" where
  "edge_offsets g = (\<Union>m \<in> set (members g). {mem_timeOffset m, mem_timeOffset m + mem_duration m})"

lemma group_best_members:
  "group_best pts maxD start E st \<Longrightarrow>
    group_best pts maxD start (E \<union> (\<Union>m \<in> set ms. {mem_timeOffset m, mem_timeOffset m + mem_duration m}))
      (fold (snap_member pts maxD start) ms st)"
proof (induction ms arbitrary: E st)
  case (Cons m ms)
  have "group_best pts maxD start (insert (mem_timeOffset m + mem_duration m) (insert (mem_timeOffset m) E)) (snap_member pts maxD start m st)"
    unfolding snap_member_def addMediaTime_def by (intro group_best_try Cons.prems)
  from Cons.IH [OF this] show ?case by (simp add: insert_commute Un_commute Un_left_commute)
qed simp

section \<open>Properties\<close>

text \<open>The path of an effect parameter and its two parts determine each other: a path built from a dot-free effect id
  (ids are UUIDs) and a parameter key is parsed back into them, whatever dots the key has, it is recognised as an
  animation path, and a path that parses is the path built from what it parses to.\<close>
theorem effect_path_roundtrip:
  "(CHR ''.'' \<notin> set e \<and> e \<noteq> [] \<and> k \<noteq> [] \<longrightarrow>
      parseEffectParamPath (buildEffectParamPath e k) = Some (e, k) \<and> isAnimationPath (buildEffectParamPath e k))
   \<and> (parseEffectParamPath p = Some (e, k) \<longrightarrow> buildEffectParamPath e k = p)
   \<and> (parseGraphicParamPath p = Some k \<longleftrightarrow> p = buildGraphicParamPath k \<and> k \<noteq> [])"
proof -
  have "parseGraphicParamPath p = Some k \<longleftrightarrow> p = buildGraphicParamPath k \<and> k \<noteq> []"
    by (auto simp: parseGraphicParamPath_def buildGraphicParamPath_def isGraphicParamPath_def Let_def elim!: prefixE)
  then show ?thesis
    using parseEffectParamPath_build [of e k] build_parseEffectParamPath [of p e k] by (auto simp: isAnimationPath_def)
qed

theorem effect_path_roundtrip_witness:
  "parseEffectParamPath (buildEffectParamPath ''ab'' ''blur.params.x'') = Some (''ab'', ''blur.params.x'')"
  using effect_path_roundtrip [of "''ab''" "''blur.params.x''"] by simp

text \<open>The keyframe found at a time is the one the list of the element's keyframes shows there: the search over all
  component channels that prefers the first component agrees with looking the time up in the merged list, whose
  times are strictly increasing and are exactly the times at which some component channel has a keyframe.\<close>
theorem keyframe_lookup_agrees:
  assumes "getBinding (Some a) path = Some b"
  shows "getKeyframeAtTime formatColor (Some a) path t =
      (case find (\<lambda>m. km_time m = t) (getUniqueBindingKeyframeMatches a b) of
         None \<Rightarrow> None | Some m \<Rightarrow> toElementKeyframe formatColor a b path m)
    \<and> sorted_wrt (<) (map km_time (getUniqueBindingKeyframeMatches a b))
    \<and> km_time ` set (getUniqueBindingKeyframeMatches a b) = km_time ` set (getBindingKeyframeMatches a b)"
  using unique_matches_times [of a b] assms
  by (simp add: getKeyframeAtTime_def preferred_keyframe_def find_unique_matches)

text \<open>Snapping a group puts one edge of one of its members exactly on a snap point, moves the group by no more than the
  threshold, and no edge of the group is nearer to any snap point; it leaves the group where it is exactly when no
  edge has a snap point within the threshold.\<close>
theorem snapGroupEdges_nearest:
  assumes "snapGroupEdges w formatColor g start ts playhead zoom = (a, sp)"
    and "pts = group_snap_points formatColor g ts playhead" and "maxD = getTimelineSnapThresholdInTicks w zoom 10"
  shows "case sp of
      None \<Rightarrow> a = start \<and> (\<forall>d \<in> edge_offsets g. \<forall>q \<in> set pts. maxD < snap_dist (start + d) q)
    | Some p \<Rightarrow> p \<in> set pts \<and> (\<exists>d \<in> edge_offsets g. a + d = snap_time p) \<and> of_int \<bar>a - start\<bar> \<le> maxD
        \<and> (\<forall>d \<in> edge_offsets g. \<forall>q \<in> set pts. of_int \<bar>a - start\<bar> \<le> snap_dist (start + d) q)"
proof -
  have "group_best pts maxD start ({} \<union> edge_offsets g) (fold (snap_member pts maxD start) (members g) (None, start, None))"
    unfolding edge_offsets_def by (rule group_best_members) (simp add: group_best_def)
  then show ?thesis using assms
    by (auto simp: group_best_def snapGroupEdges_def split: prod.splits option.splits)
qed

section \<open>Witnesses\<close>

theorem keyframe_lookup_agrees_witness:
  "map_option ek_value (getKeyframeAtTime (\<lambda>_. []) (Some demo_animations) ''opacity'' 30) = Some (VNumber 6)"
proof -
  let ?b = "createAnimationBinding ''opacity'' KNumber"
  have "getBinding (Some demo_animations) ''opacity'' = Some ?b"
    by (simp add: getBinding_def demo_animations_def prop_get_def)
  note * = keyframe_lookup_agrees [OF this, of "\<lambda>_. []" 30]
  have "map_option (toElementKeyframe (\<lambda>_. []) demo_animations ?b ''opacity'')
      (find (\<lambda>m. km_time m = 30) (getUniqueBindingKeyframeMatches demo_animations ?b))
     = Some (Some \<lparr>ek_path = ''opacity'', ek_id = ''b'', ek_time = 30, ek_value = VNumber 6, ek_interpolation = ILinear\<rparr>)"
    by code_simp
  then show ?thesis using * by (auto split: option.splits)
qed

definition demo_group :: move_group where
  "demo_group = (let m = \<lparr>mem_ref = demo_anchor, mem_elementType = EVideo, mem_duration = 30, mem_timeOffset = 0,
     mem_section = SecMain, mem_sectionIndex = -1, mem_displayIndex = 1\<rparr> in \<lparr>anchor = m, members = [m]\<rparr>)"

lemma demo_snap:
  "snapGroupEdges demo_wasm (\<lambda>_. []) demo_group 83 demo_tracks 120 1 =
     (90, Some \<lparr>snap_time = 120, snap_type = Playhead, snap_elementId = None, snap_trackId = None\<rparr>)"
  by code_simp

theorem snapGroupEdges_nearest_witness:
  "\<exists>d \<in> edge_offsets demo_group. \<exists>p. snapGroupEdges demo_wasm (\<lambda>_. []) demo_group 83 demo_tracks 120 1 = (90, Some p)
     \<and> 90 + d = snap_time p"
  using snapGroupEdges_nearest [OF demo_snap refl refl] by (simp add: demo_snap)

end
