(* ===== verification/Animation_Targets.thy ===== *)
theory Animation_Targets
  imports Keyframe_Query
begin

text \<open>
  What can be animated: parameter definitions and their registries (\<open>params/index.ts\<close>, \<open>params/registry.ts\<close>,
  \<open>effects\<close>, \<open>graphics/definitions\<close>), coercion of values (\<open>animation/animated-params.ts\<close>, \<open>utils/math.ts\<close>), the
  registry of element properties (\<open>timeline/animation-properties.ts\<close>) and the resolution of a path to its target
  (\<open>timeline/animation-targets.ts\<close>). Fields of an element beyond those of the timeline are in its list \<open>rest\<close>; labels,
  groups, keywords and the renderers of definitions are left out.
\<close>

section \<open>Objects\<close>

fun js_fields :: "js_value option \<Rightarrow> (string \<times> js_value) list" where
  "js_fields (Some (JObject ps)) = ps"
| "js_fields _ = []"

fun js_items :: "js_value option \<Rightarrow> js_value list" where
  "js_items (Some (JArray xs)) = xs"
| "js_items _ = []"

definition js_prop :: "string \<Rightarrow> js_value \<Rightarrow> js_value option" where
  "js_prop k v = map_of (js_fields (Some v)) k"

definition has_id :: "string \<Rightarrow> js_value \<Rightarrow> bool" where
  "has_id i v \<longleftrightarrow> js_prop ''id'' v = Some (JString i)"

text \<open>\<open>o.k1.k2\<close> and \<open>{...o, k1: {...o.k1, k2: v}}\<close> for a chain of keys.\<close>

fun at_path :: "string list \<Rightarrow> (string \<times> js_value) list \<Rightarrow> js_value option" where
  "at_path [] ob = Some (JObject ob)"
| "at_path [k] ob = map_of ob k"
| "at_path (k # k' # ks) ob = (case map_of ob k of Some (JObject ob') \<Rightarrow> at_path (k' # ks) ob' | _ \<Rightarrow> None)"

fun put_path :: "string list \<Rightarrow> js_value \<Rightarrow> (string \<times> js_value) list \<Rightarrow> (string \<times> js_value) list" where
  "put_path [] v ob = ob"
| "put_path [k] v ob = AList.update k v ob"
| "put_path (k # k' # ks) v ob = AList.update k (JObject (put_path (k' # ks) v (js_fields (map_of ob k)))) ob"

fun to_animation_value :: "js_value \<Rightarrow> animation_value option" where
  "to_animation_value (JNumber x) = Some (VNumber x)"
| "to_animation_value (JString s) = Some (VString s)"
| "to_animation_value (JBool b) = Some (VBool b)"
| "to_animation_value _ = None"

fun of_animation_value :: "animation_value \<Rightarrow> js_value" where
  "of_animation_value (VNumber x) = JNumber x"
| "of_animation_value (VString s) = JString s"
| "of_animation_value (VBool b) = JBool b"
| "of_animation_value (VVector x y) = JObject [(''x'', JNumber x), (''y'', JNumber y)]"

section \<open>Numbers\<close>

definition clamp :: "rat \<Rightarrow> rat \<Rightarrow> rat \<Rightarrow> rat" where
  "clamp v lo hi = max lo (min hi v)"

definition clampRound :: "rat \<Rightarrow> rat \<Rightarrow> rat \<Rightarrow> int" where
  "clampRound v lo hi = math_round (clamp v lo hi)"

text \<open>The number of digits after the point in which a step is printed, and the exponent when it is printed as
  \<open>1e-7\<close>. A double has fewer than 340 of them.\<close>

fun least_digits :: "(rat \<Rightarrow> bool) \<Rightarrow> nat \<Rightarrow> rat \<Rightarrow> nat" where
  "least_digits P 0 x = 0"
| "least_digits P (Suc k) x = (if P x then 0 else Suc (least_digits P k (10 * x)))"

definition getFractionDigitsForStep :: "rat \<Rightarrow> nat" where
  "getFractionDigitsForStep step =
     (if 0 < step \<and> step < 1 / 10 ^ 6 then least_digits (\<lambda>x. 1 \<le> x) 340 step
      else least_digits (\<lambda>x. of_int \<lfloor>x\<rfloor> = x) 340 step)"

text \<open>\<open>Number(x.toFixed(d))\<close>: halves are rounded away from zero.\<close>

definition to_fixed :: "nat \<Rightarrow> rat \<Rightarrow> rat" where
  "to_fixed d x = (if x < 0 then - (of_int (math_round (- x * 10 ^ d)) / 10 ^ d) else of_int (math_round (x * 10 ^ d)) / 10 ^ d)"

definition snapToStep :: "rat \<Rightarrow> rat \<Rightarrow> rat" where
  "snapToStep value step =
     (if step \<le> 0 then value
      else to_fixed (getFractionDigitsForStep step) (of_int (math_round (value / step)) * step))"

record numeric_spec =
  ns_min :: "rat option"
  ns_max :: "rat option"
  ns_step :: "rat option"

definition at_least :: "rat option \<Rightarrow> rat \<Rightarrow> rat" where
  "at_least lo x = (case lo of None \<Rightarrow> x | Some l \<Rightarrow> max l x)"

definition at_most :: "rat option \<Rightarrow> rat \<Rightarrow> rat" where
  "at_most hi x = (case hi of None \<Rightarrow> x | Some h \<Rightarrow> min h x)"

definition applyNumericSpec :: "rat \<Rightarrow> numeric_spec option \<Rightarrow> rat" where
  "applyNumericSpec value numericRange =
     (case numericRange of
        None \<Rightarrow> value
      | Some r \<Rightarrow>
          let stepped = (case ns_step r of None \<Rightarrow> value | Some s \<Rightarrow> snapToStep value s)
          in at_most (ns_max r) (at_least (ns_min r) stepped))"

fun coerceNumberValue :: "numeric_spec option \<Rightarrow> animation_value \<Rightarrow> animation_value option" where
  "coerceNumberValue r (VNumber x) = Some (VNumber (applyNumericSpec x r))"
| "coerceNumberValue r _ = None"

fun coerceColorValue :: "color_parser \<Rightarrow> animation_value \<Rightarrow> animation_value option" where
  "coerceColorValue parseColor (VString s) = (if parseColor s = None then None else Some (VString s))"
| "coerceColorValue parseColor _ = None"

section \<open>Parameters and registries\<close>

datatype param_definition =
  NumberParam (param_key: string) rat rat "rat option" rat
| BooleanParam (param_key: string) bool
| ColorParam (param_key: string) string
| SelectParam (param_key: string) string "string list"

fun param_default :: "param_definition \<Rightarrow> animation_value" where
  "param_default (NumberParam _ d _ _ _) = VNumber d"
| "param_default (BooleanParam _ d) = VBool d"
| "param_default (ColorParam _ d) = VString d"
| "param_default (SelectParam _ d _) = VString d"

definition buildDefaultParamValues :: "param_definition list \<Rightarrow> (string \<times> js_value) list" where
  "buildDefaultParamValues ps = fold (\<lambda>p values. AList.update (param_key p) (of_animation_value (param_default p)) values) ps []"

fun getAnimationParamValueKind :: "param_definition \<Rightarrow> binding_kind" where
  "getAnimationParamValueKind (NumberParam _ _ _ _ _) = KNumber"
| "getAnimationParamValueKind (ColorParam _ _) = KColor"
| "getAnimationParamValueKind _ = KDiscrete"

fun getAnimationParamDefaultInterpolation :: "param_definition \<Rightarrow> interpolation" where
  "getAnimationParamDefaultInterpolation (NumberParam _ _ _ _ _) = ILinear"
| "getAnimationParamDefaultInterpolation (ColorParam _ _) = ILinear"
| "getAnimationParamDefaultInterpolation _ = IHold"

fun getAnimationParamNumericRange :: "param_definition \<Rightarrow> numeric_spec option" where
  "getAnimationParamNumericRange (NumberParam _ _ lo hi step) = Some \<lparr>ns_min = Some lo, ns_max = hi, ns_step = Some step\<rparr>"
| "getAnimationParamNumericRange _ = None"

fun coerceAnimationParamValue :: "param_definition \<Rightarrow> animation_value \<Rightarrow> animation_value option" where
  "coerceAnimationParamValue (NumberParam _ _ lo hi step) (VNumber x) = Some (VNumber (at_most hi (max lo (snapToStep x step))))"
| "coerceAnimationParamValue (ColorParam _ _) (VString s) = Some (VString s)"
| "coerceAnimationParamValue (BooleanParam _ _) (VBool b) = Some (VBool b)"
| "coerceAnimationParamValue (SelectParam _ _ options) (VString s) = (if s \<in> set options then Some (VString s) else None)"
| "coerceAnimationParamValue _ _ = None"

text \<open>A \<open>DefinitionRegistry\<close> is the insertion ordered map of its definitions.\<close>

definition registry_register :: "string \<Rightarrow> 'd \<Rightarrow> (string \<times> 'd) list \<Rightarrow> (string \<times> 'd) list" where
  "registry_register key d reg = AList.update key d reg"

definition registry_has :: "string \<Rightarrow> (string \<times> 'd) list \<Rightarrow> bool" where
  "registry_has key reg \<longleftrightarrow> map_of reg key \<noteq> None"

definition registry_get :: "string \<Rightarrow> string \<Rightarrow> (string \<times> 'd) list \<Rightarrow> js_error + 'd" where
  "registry_get entityName key reg =
     (case map_of reg key of None \<Rightarrow> Inl (Thrown (''Unknown '' @ entityName @ '': '' @ key)) | Some d \<Rightarrow> Inr d)"

definition register_missing :: "(string \<times> 'd) list \<Rightarrow> (string \<times> 'd) list \<Rightarrow> (string \<times> 'd) list" where
  "register_missing ds reg = fold (\<lambda>(key, d) r. if registry_has key r then r else registry_register key d r) ds reg"

definition blurEffectDefinition :: "param_definition list" where
  "blurEffectDefinition = [NumberParam ''intensity'' 15 0 (Some 100) 1]"

definition defaultEffects :: "(string \<times> param_definition list) list" where
  "defaultEffects = [(''blur'', blurEffectDefinition)]"

definition registerDefaultEffects :: "(string \<times> param_definition list) list \<Rightarrow> (string \<times> param_definition list) list" where
  "registerDefaultEffects reg = register_missing defaultEffects reg"

text \<open>The registry once \<open>EditorCore\<close> has been constructed: nothing else registers an effect.\<close>

definition effectsRegistry :: "(string \<times> param_definition list) list" where
  "effectsRegistry = registerDefaultEffects []"

definition STROKE_ALIGN_PARAM :: param_definition where
  "STROKE_ALIGN_PARAM = SelectParam ''strokeAlign'' ''center'' [''inside'', ''center'', ''outside'']"

definition fill_and_stroke_params :: "param_definition list" where
  "fill_and_stroke_params = [ColorParam ''fill'' ''#ffffff'', ColorParam ''stroke'' ''#000000'',
     NumberParam ''strokeWidth'' 0 0 (Some 64) 1, STROKE_ALIGN_PARAM]"

definition RECTANGLE_PARAMS :: "param_definition list" where
  "RECTANGLE_PARAMS = fill_and_stroke_params @ [NumberParam ''cornerRadius'' 0 0 (Some 50) 1]"

definition ELLIPSE_PARAMS :: "param_definition list" where
  "ELLIPSE_PARAMS = fill_and_stroke_params"

definition POLYGON_PARAMS :: "param_definition list" where
  "POLYGON_PARAMS = fill_and_stroke_params @ [NumberParam ''sides'' 5 3 (Some 12) 1, NumberParam ''cornerRadius'' 0 0 (Some 50) 1]"

definition STAR_PARAMS :: "param_definition list" where
  "STAR_PARAMS = fill_and_stroke_params @ [NumberParam ''points'' 5 3 (Some 12) 1, NumberParam ''depth'' 45 1 (Some 99) 1]"

definition defaultGraphicDefinitions :: "(string \<times> param_definition list) list" where
  "defaultGraphicDefinitions =
     [(''rectangle'', RECTANGLE_PARAMS), (''ellipse'', ELLIPSE_PARAMS), (''polygon'', POLYGON_PARAMS), (''star'', STAR_PARAMS)]"

definition registerDefaultGraphics :: "(string \<times> param_definition list) list \<Rightarrow> (string \<times> param_definition list) list" where
  "registerDefaultGraphics reg = register_missing defaultGraphicDefinitions reg"

text \<open>The registry starts empty and every look-up registers the defaults first.\<close>

definition getGraphicDefinition :: "string \<Rightarrow> js_error + param_definition list" where
  "getGraphicDefinition definitionId = registry_get ''graphic'' definitionId (registerDefaultGraphics [])"

text \<open>An instance of an effect with a new id.\<close>

definition buildDefaultEffectInstance :: "string \<Rightarrow> uuid \<Rightarrow> js_error + js_value" where
  "buildDefaultEffectInstance effectType new =
     (case registry_get ''effect'' effectType effectsRegistry of
        Inl err \<Rightarrow> Inl err
      | Inr ps \<Rightarrow> Inr (JObject [(''id'', JString new), (''type'', JString effectType),
          (''params'', JObject (buildDefaultParamValues ps)), (''enabled'', JBool True)]))"

definition resolveGraphicParams :: "param_definition list \<Rightarrow> (string \<times> js_value) list option \<Rightarrow> (string \<times> js_value) list" where
  "resolveGraphicParams ps params =
     fold (\<lambda>(k, v). AList.update k v) (case params of None \<Rightarrow> [] | Some q \<Rightarrow> q) (buildDefaultParamValues ps)"

section \<open>Properties of elements\<close>

record property_definition =
  pd_kind :: binding_kind
  pd_defaultInterpolation :: interpolation
  pd_range :: "numeric_spec option"
  pd_supports :: "timeline_element \<Rightarrow> bool"
  pd_getValue :: "timeline_element \<Rightarrow> animation_value option"
  pd_coerce :: "animation_value \<Rightarrow> animation_value option"
  pd_setValue :: "timeline_element \<Rightarrow> animation_value \<Rightarrow> timeline_element"

definition createNumberPropertyDefinition ::
    "numeric_spec option \<Rightarrow> (timeline_element \<Rightarrow> bool) \<Rightarrow> (timeline_element \<Rightarrow> animation_value option) \<Rightarrow>
     (timeline_element \<Rightarrow> animation_value \<Rightarrow> timeline_element) \<Rightarrow> property_definition" where
  "createNumberPropertyDefinition numericRange supports getValue setValue =
     \<lparr>pd_kind = KNumber, pd_defaultInterpolation = ILinear, pd_range = numericRange, pd_supports = supports, pd_getValue = getValue,
      pd_coerce = coerceNumberValue numericRange, pd_setValue = setValue\<rparr>"

text \<open>The values of a property: the field at a chain of keys, for the elements that have it, with the default of \<open>??\<close>.\<close>

definition get_field :: "(timeline_element \<Rightarrow> bool) \<Rightarrow> string list \<Rightarrow> animation_value option \<Rightarrow> timeline_element \<Rightarrow> animation_value option" where
  "get_field P path dflt e =
     (if P e then (case at_path path (rest e) of None \<Rightarrow> dflt | Some JUndefined \<Rightarrow> dflt | Some v \<Rightarrow> to_animation_value v) else None)"

definition set_field :: "(timeline_element \<Rightarrow> bool) \<Rightarrow> string list \<Rightarrow> timeline_element \<Rightarrow> animation_value \<Rightarrow> timeline_element" where
  "set_field P path e v = (if P e then e\<lparr>rest := put_path path (of_animation_value v) (rest e)\<rparr> else e)"

definition number_field :: "numeric_spec option \<Rightarrow> (timeline_element \<Rightarrow> bool) \<Rightarrow> string list \<Rightarrow> animation_value option \<Rightarrow> property_definition" where
  "number_field numericRange P path dflt = createNumberPropertyDefinition numericRange P (get_field P path dflt) (set_field P path)"

definition color_field :: "color_parser \<Rightarrow> (timeline_element \<Rightarrow> bool) \<Rightarrow> string list \<Rightarrow> property_definition" where
  "color_field parseColor P path =
     \<lparr>pd_kind = KColor, pd_defaultInterpolation = ILinear, pd_range = None, pd_supports = P,
      pd_getValue = get_field P path None, pd_coerce = coerceColorValue parseColor, pd_setValue = set_field P path\<rparr>"

abbreviation is_text :: "timeline_element \<Rightarrow> bool" where
  "is_text e \<equiv> elementType e = EText"

abbreviation spec :: "rat option \<Rightarrow> rat option \<Rightarrow> rat \<Rightarrow> numeric_spec option" where
  "spec lo hi step \<equiv> Some \<lparr>ns_min = lo, ns_max = hi, ns_step = Some step\<rparr>"

definition ANIMATION_PROPERTY_REGISTRY :: "color_parser \<Rightarrow> (string \<times> property_definition) list" where
  "ANIMATION_PROPERTY_REGISTRY parseColor =
     [(''transform.positionX'', number_field (spec None None 1) isVisualElement [''transform'', ''position'', ''x''] None),
      (''transform.positionY'', number_field (spec None None 1) isVisualElement [''transform'', ''position'', ''y''] None),
      (''transform.scaleX'', number_field (spec (Some (1 / 100)) None (1 / 100)) isVisualElement [''transform'', ''scaleX''] None),
      (''transform.scaleY'', number_field (spec (Some (1 / 100)) None (1 / 100)) isVisualElement [''transform'', ''scaleY''] None),
      (''transform.rotate'', number_field (spec (Some (- 360)) (Some 360) 1) isVisualElement [''transform'', ''rotate''] None),
      (''opacity'', number_field (spec (Some 0) (Some 1) (1 / 100)) isVisualElement [''opacity''] None),
      (''volume'', number_field (spec (Some (- 60)) (Some 20) (1 / 100)) canElementHaveAudio [''volume''] (Some (VNumber 0))),
      (''color'', color_field parseColor is_text [''color'']),
      (''background.color'', color_field parseColor is_text [''background'', ''color'']),
      (''background.paddingX'', number_field (spec (Some 0) None 1) is_text [''background'', ''paddingX''] (Some (VNumber 30))),
      (''background.paddingY'', number_field (spec (Some 0) None 1) is_text [''background'', ''paddingY''] (Some (VNumber 42))),
      (''background.offsetX'', number_field (spec None None 1) is_text [''background'', ''offsetX''] (Some (VNumber 0))),
      (''background.offsetY'', number_field (spec None None 1) is_text [''background'', ''offsetY''] (Some (VNumber 0))),
      (''background.cornerRadius'', number_field (spec (Some 0) (Some 100) 1) is_text [''background'', ''cornerRadius''] (Some (VNumber 0)))]"

text \<open>A path outside the registry has no definition; the functions are called with paths of the registry.\<close>

definition getAnimationPropertyDefinition :: "color_parser \<Rightarrow> string \<Rightarrow> property_definition option" where
  "getAnimationPropertyDefinition parseColor path = map_of (ANIMATION_PROPERTY_REGISTRY parseColor) path"

definition supportsAnimationProperty :: "color_parser \<Rightarrow> timeline_element \<Rightarrow> string \<Rightarrow> bool" where
  "supportsAnimationProperty parseColor e path =
     (case getAnimationPropertyDefinition parseColor path of None \<Rightarrow> False | Some d \<Rightarrow> pd_supports d e)"

definition getElementBaseValueForProperty :: "color_parser \<Rightarrow> timeline_element \<Rightarrow> string \<Rightarrow> animation_value option" where
  "getElementBaseValueForProperty parseColor e path =
     (case getAnimationPropertyDefinition parseColor path of
        None \<Rightarrow> None | Some d \<Rightarrow> if \<not> pd_supports d e then None else pd_getValue d e)"

definition withElementBaseValueForProperty :: "color_parser \<Rightarrow> timeline_element \<Rightarrow> string \<Rightarrow> animation_value \<Rightarrow> timeline_element" where
  "withElementBaseValueForProperty parseColor e path v =
     (case getAnimationPropertyDefinition parseColor path of
        None \<Rightarrow> e
      | Some d \<Rightarrow> (case pd_coerce d v of
          None \<Rightarrow> e
        | Some coerced \<Rightarrow> if \<not> pd_supports d e then e else pd_setValue d e coerced))"

definition coerceAnimationValueForProperty :: "color_parser \<Rightarrow> string \<Rightarrow> animation_value \<Rightarrow> animation_value option" where
  "coerceAnimationValueForProperty parseColor path v =
     (case getAnimationPropertyDefinition parseColor path of None \<Rightarrow> None | Some d \<Rightarrow> pd_coerce d v)"

definition upsertElementKeyframe ::
    "color_parser \<Rightarrow> element_animations option \<Rightarrow> string \<Rightarrow> media_time \<Rightarrow> animation_value \<Rightarrow> interpolation option \<Rightarrow> uuid option \<Rightarrow> uuid \<Rightarrow>
     element_animations option" where
  "upsertElementKeyframe parseColor a path t v interp kid fresh =
     (case getAnimationPropertyDefinition parseColor path of
        None \<Rightarrow> a
      | Some d \<Rightarrow> (case pd_coerce d v of
          None \<Rightarrow> a
        | Some coerced \<Rightarrow> upsertPathKeyframe parseColor a path t coerced interp kid (pd_kind d) (pd_defaultInterpolation d) (pd_coerce d) fresh))"

section \<open>Targets\<close>

record path_descriptor =
  d_kind :: binding_kind
  d_defaultInterpolation :: interpolation
  d_range :: "numeric_spec option"
  d_coerce :: "animation_value \<Rightarrow> animation_value option"
  d_base :: "animation_value option"
  d_setBase :: "animation_value \<Rightarrow> timeline_element"

text \<open>\<open>params[key] ?? default\<close>\<close>

definition param_or_default :: "(string \<times> js_value) list \<Rightarrow> param_definition \<Rightarrow> animation_value option" where
  "param_or_default params p =
     (case map_of params (param_key p) of None \<Rightarrow> Some (param_default p) | Some JUndefined \<Rightarrow> Some (param_default p) | Some v \<Rightarrow> to_animation_value v)"

definition param_descriptor ::
    "timeline_element \<Rightarrow> param_definition \<Rightarrow> (string \<times> js_value) list \<Rightarrow> (js_value \<Rightarrow> timeline_element) \<Rightarrow> path_descriptor" where
  "param_descriptor e p params store_value =
     \<lparr>d_kind = getAnimationParamValueKind p, d_defaultInterpolation = getAnimationParamDefaultInterpolation p,
      d_range = getAnimationParamNumericRange p, d_coerce = coerceAnimationParamValue p, d_base = param_or_default params p,
      d_setBase = (\<lambda>v. case coerceAnimationParamValue p v of None \<Rightarrow> e | Some c \<Rightarrow> store_value (of_animation_value c))\<rparr>"

definition find_param :: "string \<Rightarrow> param_definition list \<Rightarrow> param_definition option" where
  "find_param key ps = find (\<lambda>p. param_key p = key) ps"

fun js_text :: "js_value option \<Rightarrow> string" where
  "js_text (Some (JString s)) = s"
| "js_text _ = ''undefined''"

definition buildGraphicParamDescriptor :: "timeline_element \<Rightarrow> string \<Rightarrow> js_error + path_descriptor option" where
  "buildGraphicParamDescriptor e key =
     (if elementType e \<noteq> EGraphic then Inr None
      else case getGraphicDefinition (js_text (map_of (rest e) ''definitionId'')) of
             Inl err \<Rightarrow> Inl err
           | Inr ps \<Rightarrow> Inr (map_option (\<lambda>p. param_descriptor e p (js_fields (map_of (rest e) ''params''))
               (\<lambda>v. e\<lparr>rest := put_path [''params'', param_key p] v (rest e)\<rparr>)) (find_param key ps)))"

definition element_effects :: "timeline_element \<Rightarrow> js_value list" where
  "element_effects e = js_items (map_of (rest e) ''effects'')"

text \<open>\<open>{...candidate, params: {...candidate.params, [key]: v}}\<close>\<close>

definition put_effect_param :: "string \<Rightarrow> js_value \<Rightarrow> js_value \<Rightarrow> js_value" where
  "put_effect_param key v effect = JObject (put_path [''params'', key] v (js_fields (Some effect)))"

definition buildEffectParamDescriptor :: "timeline_element \<Rightarrow> string \<Rightarrow> string \<Rightarrow> js_error + path_descriptor option" where
  "buildEffectParamDescriptor e effectId key =
     (if \<not> isVisualElement e then Inr None
      else case find (has_id effectId) (element_effects e) of
             None \<Rightarrow> Inr None
           | Some effect \<Rightarrow>
               (case registry_get ''effect'' (js_text (js_prop ''type'' effect)) (registerDefaultEffects effectsRegistry) of
                  Inl err \<Rightarrow> Inl err
                | Inr ps \<Rightarrow> Inr (map_option (\<lambda>p. param_descriptor e p (js_fields (js_prop ''params'' effect))
                    (\<lambda>v. e\<lparr>rest := AList.update ''effects'' (JArray (map (\<lambda>c. if has_id effectId c then put_effect_param (param_key p) v c else c)
                       (element_effects e))) (rest e)\<rparr>)) (find_param key ps))))"

definition resolveAnimationTarget :: "color_parser \<Rightarrow> timeline_element \<Rightarrow> string \<Rightarrow> js_error + path_descriptor option" where
  "resolveAnimationTarget parseColor e path =
     (if isAnimationPropertyPath path
      then case getAnimationPropertyDefinition parseColor path of
             None \<Rightarrow> Inr None
           | Some d \<Rightarrow>
               if \<not> pd_supports d e then Inr None
               else Inr (Some
                 \<lparr>d_kind = pd_kind d, d_defaultInterpolation = pd_defaultInterpolation d, d_range = pd_range d,
                  d_coerce = coerceAnimationValueForProperty parseColor path,
                  d_base = getElementBaseValueForProperty parseColor e path,
                  d_setBase = (\<lambda>v. case pd_coerce d v of None \<Rightarrow> e | Some c \<Rightarrow> withElementBaseValueForProperty parseColor e path c)\<rparr>)
      else case parseGraphicParamPath path of
             Some key \<Rightarrow> buildGraphicParamDescriptor e key
           | None \<Rightarrow> (case parseEffectParamPath path of
               Some (effectId, key) \<Rightarrow> buildEffectParamDescriptor e effectId key
             | None \<Rightarrow> Inr None))"

section \<open>Reading what was written\<close>

text \<open>The contract of a place that can be read and written.\<close>

locale field_lens =
  fixes get :: "'o \<Rightarrow> 'v option" and put :: "'v \<Rightarrow> 'o \<Rightarrow> 'o"
  assumes get_put: "get (put v x) = Some v" and put_put: "put v (put u x) = put v x"
begin

lemma put_idem: "put v (put v x) = put v x"
  by (rule put_put)

lemma put_eq_iff: "put v x = put u x \<longleftrightarrow> v = u"
  by (metis get_put option.inject)

end

lemma map_of_update_same [simp]: "map_of (AList.update k v m) k = Some v"
  by (simp add: update_conv)

lemma map_of_update_other [simp]: "j \<noteq> k \<Longrightarrow> map_of (AList.update k v m) j = map_of m j"
  by (simp add: update_conv)

lemma at_put_path: "at_path (k # ks) (put_path (k # ks) v ob) = Some v"
  by (induction "k # ks" v ob arbitrary: k ks rule: put_path.induct) simp_all

lemma put_put_path: "put_path (k # ks) v (put_path (k # ks) u ob) = put_path (k # ks) v ob"
  by (induction "k # ks" u ob arbitrary: k ks rule: put_path.induct) simp_all

lemma at_put_other: "k \<noteq> j \<Longrightarrow> at_path (j # js) (put_path (k # ks) v ob) = at_path (j # js) ob"
  by (cases ks; cases js) simp_all

interpretation path: field_lens "at_path (k # ks)" "put_path (k # ks)" for k ks
  by unfold_locales (rule at_put_path put_put_path)+

section \<open>Snapping\<close>

lemma to_fixed_exact:
  assumes "x * 10 ^ d = of_int k"
  shows "to_fixed d x = x"
proof -
  have x: "x = of_int k / 10 ^ d" using assms by (simp add: field_simps)
  have "math_round (- x * 10 ^ d) = - k" using math_round_of_int [of "- k"] by (simp add: x)
  then show ?thesis by (simp add: to_fixed_def assms x)
qed

text \<open>The steps in use are printed exactly: with that many digits they are whole numbers.\<close>

definition exact_step :: "rat \<Rightarrow> bool" where
  "exact_step s \<longleftrightarrow> 0 < s \<and> of_int \<lfloor>s * 10 ^ getFractionDigitsForStep s\<rfloor> = s * 10 ^ getFractionDigitsForStep s"

lemma snap_exact: "exact_step s \<Longrightarrow> snapToStep v s = of_int (math_round (v / s)) * s"
proof -
  assume s: "exact_step s"
  have "of_int (math_round (v / s)) * s * 10 ^ getFractionDigitsForStep s
      = of_int (math_round (v / s) * \<lfloor>s * 10 ^ getFractionDigitsForStep s\<rfloor>)"
    using s unfolding exact_step_def by (simp add: mult.assoc del: floor_eq_iff of_int_floor_cancel)
  from to_fixed_exact [OF this] show ?thesis using s by (simp add: snapToStep_def exact_step_def)
qed

lemma snap_multiple: "exact_step s \<Longrightarrow> snapToStep (of_int k * s) s = of_int k * s"
  by (simp add: snap_exact exact_step_def math_round_of_int)

text \<open>A bound is met exactly by a value of the grid.\<close>

definition on_grid :: "rat \<Rightarrow> rat option \<Rightarrow> bool" where
  "on_grid s b \<longleftrightarrow> (case b of None \<Rightarrow> True | Some x \<Rightarrow> of_int \<lfloor>x / s\<rfloor> * s = x)"

definition spec_ok :: "numeric_spec \<Rightarrow> bool" where
  "spec_ok r \<longleftrightarrow> (case ns_step r of None \<Rightarrow> True | Some s \<Rightarrow> exact_step s \<and> on_grid s (ns_min r) \<and> on_grid s (ns_max r))
     \<and> (case (ns_min r, ns_max r) of (Some lo, Some hi) \<Rightarrow> lo \<le> hi | _ \<Rightarrow> True)"

lemma bounded_on_grid:
  assumes "on_grid s lo" "on_grid s hi"
  shows "\<exists>k. at_most hi (at_least lo (of_int j * s)) = of_int k * s"
proof -
  have g: "on_grid s b \<Longrightarrow> b = Some x \<Longrightarrow> \<exists>k. x = of_int k * s" for b x
    by (auto simp: on_grid_def intro!: exI [of _ "\<lfloor>x / s\<rfloor>"])
  show ?thesis
    using g [OF assms(1)] g [OF assms(2)] by (cases lo; cases hi) (auto simp: at_most_def at_least_def min_def max_def)
qed

lemma at_most_at_least_idem:
  "(case (lo, hi) of (Some l, Some h) \<Rightarrow> l \<le> h | _ \<Rightarrow> True) \<Longrightarrow>
   at_most hi (at_least lo (at_most hi (at_least lo x))) = at_most hi (at_least lo x)"
  by (cases lo; cases hi) (auto simp: at_most_def at_least_def)

lemma applyNumericSpec_idem:
  assumes "spec_ok r"
  shows "applyNumericSpec (applyNumericSpec x (Some r)) (Some r) = applyNumericSpec x (Some r)"
proof (cases "ns_step r")
  case None
  then show ?thesis using assms by (simp add: applyNumericSpec_def spec_ok_def at_most_at_least_idem)
next
  case (Some s)
  have ok: "exact_step s" "on_grid s (ns_min r)" "on_grid s (ns_max r)"
      "case (ns_min r, ns_max r) of (Some lo, Some hi) \<Rightarrow> lo \<le> hi | _ \<Rightarrow> True"
    using assms Some by (simp_all add: spec_ok_def)
  obtain k where k: "applyNumericSpec x (Some r) = of_int k * s"
    using bounded_on_grid [OF ok(2,3)] by (auto simp: applyNumericSpec_def Some snap_exact [OF ok(1)])
  have "applyNumericSpec (of_int k * s) (Some r) = at_most (ns_max r) (at_least (ns_min r) (applyNumericSpec x (Some r)))"
    by (simp add: k) (simp add: applyNumericSpec_def Some snap_multiple [OF ok(1)])
  also have "\<dots> = applyNumericSpec x (Some r)"
    using at_most_at_least_idem [OF ok(4)] by (simp add: applyNumericSpec_def Some)
  finally show ?thesis by (simp add: k)
qed

lemma applyNumericSpec_range:
  assumes "case (ns_min r, ns_max r) of (Some lo, Some hi) \<Rightarrow> lo \<le> hi | _ \<Rightarrow> True"
  shows "(\<forall>lo. ns_min r = Some lo \<longrightarrow> lo \<le> applyNumericSpec x (Some r)) \<and> (\<forall>hi. ns_max r = Some hi \<longrightarrow> applyNumericSpec x (Some r) \<le> hi)"
  using assms by (auto simp: applyNumericSpec_def at_most_def at_least_def Let_def split: option.splits)

section \<open>The contract of a property\<close>

text \<open>Coercing twice is coercing once, and what is set is what is read back; nothing but the other fields of the element
  changes, so the element stays one that has the property.\<close>

locale property_law =
  fixes d :: property_definition
  assumes coerce_idem: "pd_coerce d v = Some v' \<Longrightarrow> pd_coerce d v' = Some v'"
    and get_set: "pd_supports d e \<Longrightarrow> pd_coerce d v = Some v' \<Longrightarrow> pd_getValue d (pd_setValue d e v') = Some v'"
    and set_core: "(pd_setValue d e v)\<lparr>rest := r\<rparr> = e\<lparr>rest := r\<rparr>"
    and supports_core: "pd_supports d (e\<lparr>rest := r\<rparr>) = pd_supports d e"
    and keyframes_irrelevant: "pd_supports d (e\<lparr>animations := a\<rparr>) = pd_supports d e"
      "pd_getValue d (e\<lparr>animations := a\<rparr>) = pd_getValue d e"
begin

lemma supports_set: "pd_supports d (pd_setValue d e v) = pd_supports d e"
  by (metis set_core supports_core timeline_element.surjective timeline_element.update_convs(16))

end

lemma get_set_field:
  assumes "P e" "\<And>e r. P (e\<lparr>rest := r\<rparr>) = P e" "to_animation_value (of_animation_value v) = Some v"
  shows "get_field P (k # ks) dflt (set_field P (k # ks) e v) = Some v"
  using assms by (cases v) (simp_all add: get_field_def set_field_def at_put_path)

lemma number_field_law:
  assumes "spec_ok r" "\<And>e x. P (e\<lparr>rest := x\<rparr>) = P e" "\<And>e a. P (e\<lparr>animations := a\<rparr>) = P e"
  shows "property_law (number_field (Some r) P (k # ks) dflt)"
proof
  fix v v'
  assume "pd_coerce (number_field (Some r) P (k # ks) dflt) v = Some v'"
  then obtain x where x: "v = VNumber x" "v' = VNumber (applyNumericSpec x (Some r))"
    by (cases v) (auto simp: number_field_def createNumberPropertyDefinition_def)
  show "pd_coerce (number_field (Some r) P (k # ks) dflt) v' = Some v'"
    by (simp add: x number_field_def createNumberPropertyDefinition_def applyNumericSpec_idem [OF assms(1)])
  fix e
  assume "pd_supports (number_field (Some r) P (k # ks) dflt) e"
  then show "pd_getValue (number_field (Some r) P (k # ks) dflt) (pd_setValue (number_field (Some r) P (k # ks) dflt) e v') = Some v'"
    using get_set_field [OF _ assms(2)] by (simp add: x number_field_def createNumberPropertyDefinition_def)
qed (simp_all add: number_field_def createNumberPropertyDefinition_def set_field_def get_field_def assms(2,3))

lemma color_field_law:
  assumes "\<And>e x. P (e\<lparr>rest := x\<rparr>) = P e" "\<And>e a. P (e\<lparr>animations := a\<rparr>) = P e"
  shows "property_law (color_field parseColor P (k # ks))"
proof
  fix v v'
  assume "pd_coerce (color_field parseColor P (k # ks)) v = Some v'"
  then obtain s where x: "v = VString s" "v' = VString s" "parseColor s \<noteq> None"
    by (cases v) (auto simp: color_field_def split: if_splits)
  show "pd_coerce (color_field parseColor P (k # ks)) v' = Some v'" using x by (simp add: color_field_def)
  fix e
  assume "pd_supports (color_field parseColor P (k # ks)) e"
  then show "pd_getValue (color_field parseColor P (k # ks)) (pd_setValue (color_field parseColor P (k # ks)) e v') = Some v'"
    using get_set_field [OF _ assms(1)] by (simp add: x color_field_def)
qed (simp_all add: color_field_def set_field_def get_field_def assms)

lemma steps_ok: "exact_step 1" "exact_step (1 / 100)"
  by (code_simp, code_simp)

lemma element_kinds [simp]:
  "isVisualElement (e\<lparr>rest := r\<rparr>) = isVisualElement e" "canElementHaveAudio (e\<lparr>rest := r\<rparr>) = canElementHaveAudio e"
  "isVisualElement (e\<lparr>animations := a\<rparr>) = isVisualElement e" "canElementHaveAudio (e\<lparr>animations := a\<rparr>) = canElementHaveAudio e"
  by (simp_all add: isVisualElement_def canElementHaveAudio_def)

lemma registry_law:
  assumes "getAnimationPropertyDefinition parseColor path = Some d"
  shows "property_law d"
proof -
  have "list_all (\<lambda>(_, d). property_law d) (ANIMATION_PROPERTY_REGISTRY parseColor)"
    unfolding ANIMATION_PROPERTY_REGISTRY_def list.pred_inject prod.case
    by (intro conjI number_field_law color_field_law; simp add: spec_ok_def on_grid_def steps_ok)
  then show ?thesis using assms map_of_SomeD [of "ANIMATION_PROPERTY_REGISTRY parseColor" path d]
    by (auto simp: getAnimationPropertyDefinition_def list_all_iff)
qed

section \<open>Base values\<close>

lemma coerceParam_value: "coerceAnimationParamValue p v = Some v' \<Longrightarrow> to_animation_value (of_animation_value v') = Some v'"
  by (cases "(p, v)" rule: coerceAnimationParamValue.cases) (auto split: if_splits)

lemma param_or_default_put:
  assumes "coerceAnimationParamValue p v = Some v'" "map_of params (param_key p) = Some (of_animation_value v')"
  shows "param_or_default params p = Some v'"
  using assms coerceParam_value [OF assms(1)] by (cases v') (simp_all add: param_or_default_def)

lemma property_paths: "map fst (ANIMATION_PROPERTY_REGISTRY parseColor) = ANIMATION_PROPERTY_PATHS"
  by (simp add: ANIMATION_PROPERTY_REGISTRY_def ANIMATION_PROPERTY_PATHS_def)

lemma property_defined:
  assumes "isAnimationPropertyPath path"
  obtains d where "getAnimationPropertyDefinition parseColor path = Some d"
proof -
  have "path \<in> fst ` set (ANIMATION_PROPERTY_REGISTRY parseColor)"
    using assms by (metis isAnimationPropertyPath_def property_paths set_map)
  then show ?thesis using that
    by (cases "map_of (ANIMATION_PROPERTY_REGISTRY parseColor) path")
      (auto simp: getAnimationPropertyDefinition_def map_of_eq_None_iff)
qed

text \<open>What a target keeps when its base value is written.\<close>

definition same_target :: "path_descriptor \<Rightarrow> path_descriptor \<Rightarrow> bool" where
  "same_target d d' \<longleftrightarrow> d_kind d' = d_kind d \<and> d_coerce d' = d_coerce d \<and> d_defaultInterpolation d' = d_defaultInterpolation d
     \<and> d_range d' = d_range d"

definition writes_base :: "color_parser \<Rightarrow> timeline_element \<Rightarrow> string \<Rightarrow> path_descriptor \<Rightarrow> animation_value \<Rightarrow> animation_value \<Rightarrow> bool" where
  "writes_base parseColor e path t v v' \<longleftrightarrow>
     (\<exists>t'. resolveAnimationTarget parseColor (d_setBase t v) path = Inr (Some t') \<and> d_base t' = Some v' \<and> same_target t t')
     \<and> d_setBase t v = e\<lparr>rest := rest (d_setBase t v)\<rparr>"

lemma property_base_value:
  assumes path: "isAnimationPropertyPath path" and "resolveAnimationTarget parseColor e path = Inr (Some t)" "d_coerce t v = Some v'"
  shows "writes_base parseColor e path t v v'"
proof -
  obtain d where d: "getAnimationPropertyDefinition parseColor path = Some d" using property_defined [OF path] by blast
  note law = registry_law [OF d]
  have sup: "pd_supports d e" and t: "d_coerce t = pd_coerce d" and
    set: "d_setBase t = (\<lambda>v. case pd_coerce d v of None \<Rightarrow> e | Some c \<Rightarrow> withElementBaseValueForProperty parseColor e path c)"
    using assms(2) path d by (auto simp: resolveAnimationTarget_def coerceAnimationValueForProperty_def fun_eq_iff split: if_splits)
  have c: "pd_coerce d v = Some v'" using assms(3) by (simp add: t)
  have new: "d_setBase t v = pd_setValue d e v'"
    using property_law.coerce_idem [OF law c] sup by (simp add: set c withElementBaseValueForProperty_def d)
  have "pd_supports d (pd_setValue d e v')" "pd_getValue d (pd_setValue d e v') = Some v'"
    using property_law.supports_set [OF law] property_law.get_set [OF law sup c] sup by simp_all
  moreover have "pd_setValue d e v' = e\<lparr>rest := rest (pd_setValue d e v')\<rparr>"
    using property_law.set_core [OF law, where e = e and v = v' and r = "rest (pd_setValue d e v')"] by simp
  ultimately show ?thesis using assms(2) path d
    by (auto simp: writes_base_def new resolveAnimationTarget_def same_target_def getElementBaseValueForProperty_def split: if_splits)
qed

lemma find_param_key: "find_param key ps = Some p \<Longrightarrow> param_key p = key"
  by (auto simp: find_param_def dest: find_Some_setD)

lemma param_descriptor_law:
  assumes "d_coerce (param_descriptor e p params store_value) v = Some v'"
  shows "d_setBase (param_descriptor e p params store_value) v = store_value (of_animation_value v')" "coerceAnimationParamValue p v = Some v'"
  using assms by (simp_all add: param_descriptor_def)

lemma graphic_base_value:
  assumes path: "\<not> isAnimationPropertyPath path" "parseGraphicParamPath path = Some key"
    and target: "resolveAnimationTarget parseColor e path = Inr (Some t)" and c: "d_coerce t v = Some v'"
  shows "writes_base parseColor e path t v v'"
proof -
  have b: "buildGraphicParamDescriptor e key = Inr (Some t)" using target path by (simp add: resolveAnimationTarget_def)
  then obtain ps p where ps: "elementType e = EGraphic" "getGraphicDefinition (js_text (map_of (rest e) ''definitionId'')) = Inr ps"
      "find_param key ps = Some p" and t: "t = param_descriptor e p (js_fields (map_of (rest e) ''params''))
         (\<lambda>v. e\<lparr>rest := put_path [''params'', param_key p] v (rest e)\<rparr>)"
    by (auto simp: buildGraphicParamDescriptor_def split: if_splits sum.splits)
  note law = param_descriptor_law [OF c [unfolded t]]
  have base: "param_or_default (js_fields (map_of (put_path [''params'', param_key p] (of_animation_value v') (rest e)) ''params'')) p = Some v'"
    by (rule param_or_default_put [OF law(2)]) simp
  define e' where "e' = e\<lparr>rest := put_path [''params'', param_key p] (of_animation_value v') (rest e)\<rparr>"
  have new: "d_setBase t v = e'" unfolding t e'_def law(1) ..
  have "resolveAnimationTarget parseColor e' path = Inr (Some (param_descriptor e' p (js_fields (map_of (rest e') ''params''))
      (\<lambda>x. e'\<lparr>rest := put_path [''params'', param_key p] x (rest e')\<rparr>)))"
    using ps path by (simp add: resolveAnimationTarget_def buildGraphicParamDescriptor_def e'_def)
  moreover have "param_or_default (js_fields (map_of (rest e') ''params'')) p = Some v'" using base by (simp add: e'_def)
  moreover have "e' = e\<lparr>rest := rest e'\<rparr>" by (simp add: e'_def)
  ultimately show ?thesis unfolding writes_base_def new by (simp add: t param_descriptor_def same_target_def)
qed

lemma js_prop_put_effect_param:
  "js_prop ''params'' (put_effect_param key v c) = Some (JObject (AList.update key v (js_fields (js_prop ''params'' c))))"
  "k \<noteq> ''params'' \<Longrightarrow> js_prop k (put_effect_param key v c) = js_prop k c"
  by (simp_all add: js_prop_def put_effect_param_def)

lemma find_map_effect:
  "(\<And>x. P (f x) = P x) \<Longrightarrow> find P (map f xs) = map_option f (find P xs)"
  by (induction xs) auto

lemma effect_base_value:
  assumes path: "\<not> isAnimationPropertyPath path" "parseGraphicParamPath path = None" "parseEffectParamPath path = Some (effectId, key)"
    and target: "resolveAnimationTarget parseColor e path = Inr (Some t)" and c: "d_coerce t v = Some v'"
  shows "writes_base parseColor e path t v v'"
proof -
  let ?store_value = "\<lambda>e p x. e\<lparr>rest := AList.update ''effects'' (JArray (map (\<lambda>c. if has_id effectId c then put_effect_param (param_key p) x c else c)
     (element_effects e))) (rest e)\<rparr>"
  have b: "buildEffectParamDescriptor e effectId key = Inr (Some t)" using target path by (simp add: resolveAnimationTarget_def)
  then obtain effect ps p where ps: "isVisualElement e" "find (has_id effectId) (element_effects e) = Some effect"
      "registry_get ''effect'' (js_text (js_prop ''type'' effect)) (registerDefaultEffects effectsRegistry) = Inr ps"
      "find_param key ps = Some p" and t: "t = param_descriptor e p (js_fields (js_prop ''params'' effect)) (?store_value e p)"
    by (auto simp: buildEffectParamDescriptor_def split: if_splits sum.splits option.splits)
  note law = param_descriptor_law [OF c [unfolded t]]
  let ?x = "of_animation_value v'"
  define e' where "e' = ?store_value e p ?x"
  have new: "d_setBase t v = e'" unfolding t e'_def law(1) ..
  have keep: "has_id effectId (if has_id effectId c then put_effect_param (param_key p) ?x c else c) = has_id effectId c" for c
    by (simp add: has_id_def js_prop_put_effect_param)
  have "has_id effectId effect" using ps(2) by (auto dest: find_Some_setD)
  then have found: "find (has_id effectId) (element_effects e') = Some (put_effect_param (param_key p) ?x effect)"
    using find_map_effect [where P = "has_id effectId", OF keep, of "element_effects e"]
    by (simp add: ps(2)) (simp add: e'_def element_effects_def)
  have base: "param_or_default (js_fields (js_prop ''params'' (put_effect_param (param_key p) ?x effect))) p = Some v'"
    by (rule param_or_default_put [OF law(2)]) (simp add: js_prop_put_effect_param)
  have "isVisualElement e'" using ps(1) by (simp add: e'_def)
  then have "resolveAnimationTarget parseColor e' path =
      Inr (Some (param_descriptor e' p (js_fields (js_prop ''params'' (put_effect_param (param_key p) ?x effect))) (?store_value e' p)))"
    using ps(3,4) path by (simp add: resolveAnimationTarget_def buildEffectParamDescriptor_def found js_prop_put_effect_param)
  moreover have "e' = e\<lparr>rest := rest e'\<rparr>" by (simp add: e'_def)
  ultimately show ?thesis using base unfolding writes_base_def new by (simp add: t param_descriptor_def same_target_def)
qed

lemma target_writes_base:
  assumes "resolveAnimationTarget parseColor e path = Inr (Some t)" "d_coerce t v = Some v'"
  shows "writes_base parseColor e path t v v'"
proof (cases "isAnimationPropertyPath path")
  case False
  then show ?thesis using assms graphic_base_value [OF False _ assms] effect_base_value [OF False _ _ assms]
    by (auto simp: resolveAnimationTarget_def split: option.splits)
qed (use property_base_value assms in blast)

lemma param_descriptor_rejects: "d_coerce (param_descriptor e p ps f) v = None \<Longrightarrow> d_setBase (param_descriptor e p ps f) v = e"
  by (simp add: param_descriptor_def)

lemma target_rejects:
  assumes "resolveAnimationTarget parseColor e path = Inr (Some t)" "d_coerce t v = None"
  shows "d_setBase t v = e"
  using assms param_descriptor_rejects
  by (auto simp: resolveAnimationTarget_def coerceAnimationValueForProperty_def buildGraphicParamDescriptor_def
      buildEffectParamDescriptor_def split: if_splits option.splits sum.splits)

lemma setBase_core:
  assumes "resolveAnimationTarget parseColor e path = Inr (Some t)"
  shows "d_setBase t v = e\<lparr>rest := rest (d_setBase t v)\<rparr>"
  using target_writes_base [OF assms] target_rejects [OF assms] by (cases "d_coerce t v") (auto simp: writes_base_def)

text \<open>A target does not depend on the keyframes.\<close>

definition target_view :: "path_descriptor \<Rightarrow> binding_kind \<times> (animation_value \<Rightarrow> animation_value option) \<times> animation_value option" where
  "target_view t = (d_kind t, d_coerce t, d_base t)"

lemma target_without_keyframes:
  assumes "resolveAnimationTarget parseColor e path = Inr (Some t)"
  shows "\<exists>t'. resolveAnimationTarget parseColor (e\<lparr>animations := a\<rparr>) path = Inr (Some t') \<and> target_view t' = target_view t"
proof (cases "isAnimationPropertyPath path")
  case True
  obtain d where d: "getAnimationPropertyDefinition parseColor path = Some d" using property_defined [OF True] by blast
  note irr = property_law.keyframes_irrelevant [OF registry_law [OF d]]
  show ?thesis using assms True d
    by (auto simp: resolveAnimationTarget_def target_view_def getElementBaseValueForProperty_def irr split: if_splits)
next
  case False
  then show ?thesis using assms
    by (auto simp: resolveAnimationTarget_def target_view_def buildGraphicParamDescriptor_def buildEffectParamDescriptor_def
        param_descriptor_def element_effects_def split: if_splits option.splits sum.splits)
qed

text \<open>Every target of an animation is a place with a base value: writing a value that can be coerced leaves a target of the
  same kind whose base value is the coerced one, although properties are coerced twice on the way, and changes nothing else of
  the element's timing, identity or keyframes.\<close>
theorem base_value_law:
  assumes "resolveAnimationTarget parseColor e path = Inr (Some t)" "d_coerce t v = Some v'"
  shows "(\<exists>t'. resolveAnimationTarget parseColor (d_setBase t v) path = Inr (Some t') \<and> d_base t' = Some v' \<and> d_kind t' = d_kind t \<and> d_coerce t' = d_coerce t)
    \<and> d_setBase t v = e\<lparr>rest := rest (d_setBase t v)\<rparr>"
  using target_writes_base [OF assms] by (auto simp: writes_base_def same_target_def)

definition demo_target_clip :: timeline_element where
  "demo_target_clip = \<lparr>elementId = ''c'', elementName = ''Clip'', elementType = EVideo, startTime = 50, duration = 100, trimStart = 0, trimEnd = 0,
     sourceDuration = None, animations = None, retime = None, mediaId = Some ''m'', sourceType = None, el_hidden = None, el_muted = None,
     isSourceAudioEnabled = None, rest = [(''opacity'', JNumber 1)]\<rparr>"

lemma demo_target:
  obtains t where "resolveAnimationTarget parseColor demo_target_clip ''opacity'' = Inr (Some t)"
    "d_coerce t = coerceNumberValue (spec (Some 0) (Some 1) (1 / 100))" "d_kind t = KNumber"
proof -
  have "isAnimationPropertyPath ''opacity''" "isVisualElement demo_target_clip"
    "getAnimationPropertyDefinition parseColor ''opacity'' = Some (number_field (spec (Some 0) (Some 1) (1 / 100)) isVisualElement [''opacity''] None)"
    by (simp_all add: isAnimationPropertyPath_def ANIMATION_PROPERTY_PATHS_def getAnimationPropertyDefinition_def ANIMATION_PROPERTY_REGISTRY_def
        isVisualElement_def demo_target_clip_def)
  then show ?thesis using that
    by (simp add: resolveAnimationTarget_def number_field_def createNumberPropertyDefinition_def coerceAnimationValueForProperty_def fun_eq_iff)
qed

lemma demo_opacity_snap: "applyNumericSpec (127 / 100) (spec (Some 0) (Some 1) (1 / 100)) = 1" by code_simp

theorem base_value_law_witness:
  "\<exists>t t'. resolveAnimationTarget (\<lambda>_. None) demo_target_clip ''opacity'' = Inr (Some t) \<and>
     resolveAnimationTarget (\<lambda>_. None) (d_setBase t (VNumber (127 / 100))) ''opacity'' = Inr (Some t') \<and> d_base t' = Some (VNumber 1)"
proof -
  obtain t where t: "resolveAnimationTarget (\<lambda>_. None) demo_target_clip ''opacity'' = Inr (Some t)"
      "d_coerce t = coerceNumberValue (spec (Some 0) (Some 1) (1 / 100))"
    by (rule demo_target)
  have "d_coerce t (VNumber (127 / 100)) = Some (VNumber 1)" by (simp add: t(2) demo_opacity_snap)
  from base_value_law [OF t(1) this] show ?thesis using t(1) by blast
qed

end
