(* ===== verification/Custom_Mask.thy ===== *)
theory Custom_Mask
  imports Media_Time
begin

text \<open>
  The paths of custom masks (\<open>masks/custom-path.ts\<close>, \<open>masks/definitions/custom.ts\<close>): closed or open chains of cubic
  curves in coordinates relative to the element, their place on the canvas, removing and inserting points, and moving the
  centre of the mask to the middle of its path. Coordinates are elements of a linearly ordered field: rationals where the
  timeline stores them, reals where the rotation is taken exactly. The parameter \<open>trig\<close> gives the cosine and the sine of an
  angle in degrees.
\<close>

section \<open>Points\<close>

record 'a path_point =
  pt_id :: string
  pt_x :: 'a
  pt_y :: 'a
  inX :: 'a
  inY :: 'a
  outX :: 'a
  outY :: 'a

record 'a element_bounds =
  eb_cx :: 'a
  eb_cy :: 'a
  eb_width :: 'a
  eb_height :: 'a

record 'a custom_params =
  cm_path :: "'a path_point list"
  cm_closed :: bool
  cm_centerX :: 'a
  cm_centerY :: 'a
  cm_rotation :: 'a
  cm_scale :: 'a

definition removeCustomMaskPoints :: "('p \<Rightarrow> string) \<Rightarrow> 'p list \<Rightarrow> string list \<Rightarrow> 'p list" where
  "removeCustomMaskPoints point_id points pointIds =
     (if pointIds = [] then points else filter (\<lambda>p. point_id p \<notin> set pointIds) points)"

definition getCustomMaskClosedStateAfterPointRemoval :: "bool \<Rightarrow> nat \<Rightarrow> bool" where
  "getCustomMaskClosedStateAfterPointRemoval wasClosed remainingPointCount \<longleftrightarrow> wasClosed \<and> remainingPointCount \<ge> 3"

section \<open>Places on the canvas\<close>

definition rotatePoint :: "('a::linordered_field \<Rightarrow> 'a \<times> 'a) \<Rightarrow> 'a \<times> 'a \<Rightarrow> 'a \<Rightarrow> 'a \<times> 'a" where
  "rotatePoint trig p degrees =
     (case (trig degrees, p) of ((c, s), (x, y)) \<Rightarrow> (x * c - y * s, x * s + y * c))"

definition getCustomMaskCenterCanvasPoint :: "'a::linordered_field \<Rightarrow> 'a \<Rightarrow> 'a element_bounds \<Rightarrow> 'a \<times> 'a" where
  "getCustomMaskCenterCanvasPoint centerX centerY b = (eb_cx b + centerX * eb_width b, eb_cy b + centerY * eb_height b)"

definition customMaskLocalPointToCanvas ::
    "('a::linordered_field \<Rightarrow> 'a \<times> 'a) \<Rightarrow> 'a custom_params \<Rightarrow> 'a element_bounds \<Rightarrow> 'a \<times> 'a \<Rightarrow> 'a \<times> 'a" where
  "customMaskLocalPointToCanvas trig m b p =
     (let c = getCustomMaskCenterCanvasPoint (cm_centerX m) (cm_centerY m) b;
          r = rotatePoint trig (fst p * eb_width b * cm_scale m, snd p * eb_height b * cm_scale m) (cm_rotation m)
      in (fst c + fst r, snd c + snd r))"

definition customMaskCanvasPointToLocal ::
    "('a::linordered_field \<Rightarrow> 'a \<times> 'a) \<Rightarrow> 'a custom_params \<Rightarrow> 'a element_bounds \<Rightarrow> 'a \<times> 'a \<Rightarrow> 'a \<times> 'a" where
  "customMaskCanvasPointToLocal trig m b p =
     (let c = getCustomMaskCenterCanvasPoint (cm_centerX m) (cm_centerY m) b;
          r = rotatePoint trig (fst p - fst c, snd p - snd c) (- cm_rotation m)
      in (if eb_width b = 0 then 0 else fst r / (eb_width b * cm_scale m),
          if eb_height b = 0 then 0 else snd r / (eb_height b * cm_scale m)))"

text \<open>The anchor and the two handles of a point.\<close>

definition anchor :: "'a::linordered_field path_point \<Rightarrow> 'a \<times> 'a" where "anchor p = (pt_x p, pt_y p)"
definition in_handle :: "'a::linordered_field path_point \<Rightarrow> 'a \<times> 'a" where "in_handle p = (pt_x p + inX p, pt_y p + inY p)"
definition out_handle :: "'a::linordered_field path_point \<Rightarrow> 'a \<times> 'a" where "out_handle p = (pt_x p + outX p, pt_y p + outY p)"

type_synonym 'a canvas_anchor = "string \<times> ('a \<times> 'a) \<times> ('a \<times> 'a) \<times> ('a \<times> 'a)"

definition canvas_anchors ::
    "('a::linordered_field \<Rightarrow> 'a \<times> 'a) \<Rightarrow> 'a custom_params \<Rightarrow> 'a element_bounds \<Rightarrow> 'a canvas_anchor list" where
  "canvas_anchors trig m b =
     map (\<lambda>p. let to_canvas = customMaskLocalPointToCanvas trig m b
              in (pt_id p, to_canvas (anchor p), to_canvas (in_handle p), to_canvas (out_handle p))) (cm_path m)"

record 'a point_bounds =
  minX :: 'a
  maxX :: 'a
  minY :: 'a
  maxY :: 'a

definition pb_width :: "'a::linordered_field point_bounds \<Rightarrow> 'a" where "pb_width pb = max 1 (maxX pb - minX pb)"
definition pb_height :: "'a::linordered_field point_bounds \<Rightarrow> 'a" where "pb_height pb = max 1 (maxY pb - minY pb)"
definition pb_centerX :: "'a::linordered_field point_bounds \<Rightarrow> 'a" where "pb_centerX pb = (minX pb + maxX pb) / 2"
definition pb_centerY :: "'a::linordered_field point_bounds \<Rightarrow> 'a" where "pb_centerY pb = (minY pb + maxY pb) / 2"

definition getCanvasPointBounds :: "('a::linordered_field \<times> 'a) list \<Rightarrow> 'a point_bounds option" where
  "getCanvasPointBounds points =
     (case points of
        [] \<Rightarrow> None
      | (x, y) # restPoints \<Rightarrow>
          Some (fold (\<lambda>(x, y) pb. \<lparr>minX = min (minX pb) x, maxX = max (maxX pb) x, minY = min (minY pb) y, maxY = max (maxY pb) y\<rparr>)
            restPoints \<lparr>minX = x, maxX = x, minY = y, maxY = y\<rparr>))"

definition getCustomMaskCanvasGeometry ::
    "('a::linordered_field \<Rightarrow> 'a \<times> 'a) \<Rightarrow> 'a custom_params \<Rightarrow> 'a element_bounds \<Rightarrow> 'a canvas_anchor list \<times> 'a point_bounds option" where
  "getCustomMaskCanvasGeometry trig m b =
     (let anchors = canvas_anchors trig m b;
          geometryPoints = concat (map (\<lambda>(_, a, i, u). [a, i, u]) anchors)
      in (anchors, if geometryPoints = [] then None else getCanvasPointBounds geometryPoints))"

section \<open>Segments\<close>

type_synonym 'a cubic = "('a \<times> 'a) \<times> ('a \<times> 'a) \<times> ('a \<times> 'a) \<times> ('a \<times> 'a)"

definition clampUnit :: "'a::linordered_field \<Rightarrow> 'a" where
  "clampUnit v = min 1 (max 0 v)"

definition getDistanceSquared :: "'a::linordered_field \<times> 'a \<Rightarrow> 'a \<times> 'a \<Rightarrow> 'a" where
  "getDistanceSquared a b = (let dx = fst a - fst b; dy = snd a - snd b in dx * dx + dy * dy)"

definition lerp_point :: "'a::linordered_field \<times> 'a \<Rightarrow> 'a \<times> 'a \<Rightarrow> 'a \<Rightarrow> 'a \<times> 'a" where
  "lerp_point a b t = (fst a + (fst b - fst a) * t, snd a + (snd b - snd a) * t)"

definition bernstein :: "'a::linordered_field \<Rightarrow> 'a \<Rightarrow> 'a \<Rightarrow> 'a \<Rightarrow> 'a \<Rightarrow> 'a" where
  "bernstein t a b c d = (1 - t) ^ 3 * a + 3 * (1 - t) ^ 2 * t * b + 3 * (1 - t) * t ^ 2 * c + t ^ 3 * d"

definition evaluateCubicBezier :: "'a::linordered_field cubic \<Rightarrow> 'a \<Rightarrow> 'a \<times> 'a" where
  "evaluateCubicBezier q t =
     (case q of (p0, p1, p2, p3) \<Rightarrow>
        (bernstein t (fst p0) (fst p1) (fst p2) (fst p3), bernstein t (snd p0) (snd p1) (snd p2) (snd p3)))"

definition getCustomMaskSegmentCount :: "'a path_point list \<Rightarrow> bool \<Rightarrow> nat" where
  "getCustomMaskSegmentCount points isClosed =
     (if length points < 2 then 0 else if isClosed then length points else length points - 1)"

definition getCustomMaskSegmentIndices :: "'a path_point list \<Rightarrow> int \<Rightarrow> bool \<Rightarrow> (nat \<times> nat) option" where
  "getCustomMaskSegmentIndices points segmentIndex isClosed =
     (if segmentIndex < 0 \<or> segmentIndex \<ge> int (getCustomMaskSegmentCount points isClosed) then None
      else Some (nat segmentIndex, (nat segmentIndex + 1) mod length points))"

text \<open>The segments on the canvas, without their ids and their SVG text.\<close>

definition getCustomMaskCanvasSegments ::
    "('a::linordered_field \<Rightarrow> 'a \<times> 'a) \<Rightarrow> 'a custom_params \<Rightarrow> 'a element_bounds \<Rightarrow> (nat \<times> 'a cubic) list" where
  "getCustomMaskCanvasSegments trig m b =
     (let anchors = fst (getCustomMaskCanvasGeometry trig m b)
      in map (\<lambda>i. case (anchors ! i, anchors ! (Suc i mod length anchors)) of
               ((_, a, _, u), (_, a', i', _)) \<Rightarrow> (i, (a, u, i', a'))) [0..<getCustomMaskSegmentCount (cm_path m) (cm_closed m)])"

text \<open>The two searches: a candidate replaces the best one when it is strictly nearer.\<close>

definition closer :: "'a::linordered_field cubic \<Rightarrow> 'a \<times> 'a \<Rightarrow> 'a \<Rightarrow> 'a \<times> 'a \<Rightarrow> 'a \<times> 'a" where
  "closer q target t best =
     (let d = getDistanceSquared target (evaluateCubicBezier q t) in if d < snd best then (t, d) else best)"

fun refine_search :: "'a::linordered_field cubic \<Rightarrow> 'a \<times> 'a \<Rightarrow> nat \<Rightarrow> 'a \<Rightarrow> 'a \<times> 'a \<Rightarrow> 'a \<times> 'a" where
  "refine_search q target 0 step best = best"
| "refine_search q target (Suc k) step best =
     refine_search q target k (step / 2)
       (fold (closer q target) (map clampUnit [fst best - step, fst best, fst best + step]) best)"

definition findClosestPointOnCustomMaskSegment ::
    "('a::linordered_field \<Rightarrow> 'a \<times> 'a) \<Rightarrow> 'a custom_params \<Rightarrow> 'a element_bounds \<Rightarrow> int \<Rightarrow> 'a \<times> 'a \<Rightarrow> ('a \<times> 'a \<times> 'a) option" where
  "findClosestPointOnCustomMaskSegment trig m b segmentIndex canvasPoint =
     (case find (\<lambda>(i, _). int i = segmentIndex) (getCustomMaskCanvasSegments trig m b) of
        None \<Rightarrow> None
      | Some (_, q) \<Rightarrow>
          let best = fold (closer q canvasPoint) (map (\<lambda>k. of_nat k / 24) [0..<25]) (0, getDistanceSquared canvasPoint (fst q));
              t = min (999 / 1000) (max (1 / 1000) (fst (refine_search q canvasPoint 8 (1 / 24) best)))
          in Some (t, evaluateCubicBezier q t))"

definition insertPointIntoCustomMaskSegment ::
    "'a::linordered_field path_point list \<Rightarrow> int \<Rightarrow> string \<Rightarrow> 'a \<Rightarrow> bool \<Rightarrow> 'a path_point list" where
  "insertPointIntoCustomMaskSegment points segmentIndex pointId t isClosed =
     (case getCustomMaskSegmentIndices points segmentIndex isClosed of
        None \<Rightarrow> points
      | Some (startIndex, endIndex) \<Rightarrow>
          let startPoint = points ! startIndex;
              endPoint = points ! endIndex;
              clampedT = min (999 / 1000) (max (1 / 1000) t);
              p0 = anchor startPoint; p1 = out_handle startPoint; p2 = in_handle endPoint; p3 = anchor endPoint;
              p01 = lerp_point p0 p1 clampedT; p12 = lerp_point p1 p2 clampedT; p23 = lerp_point p2 p3 clampedT;
              p012 = lerp_point p01 p12 clampedT; p123 = lerp_point p12 p23 clampedT;
              splitPoint = lerp_point p012 p123 clampedT;
              next1 = points[startIndex := startPoint\<lparr>outX := fst p01 - pt_x startPoint, outY := snd p01 - pt_y startPoint\<rparr>];
              next2 = next1[endIndex := endPoint\<lparr>inX := fst p23 - pt_x endPoint, inY := snd p23 - pt_y endPoint\<rparr>]
          in insert_at next2 (int endIndex)
               \<lparr>pt_id = pointId, pt_x = fst splitPoint, pt_y = snd splitPoint,
                inX = fst p012 - fst splitPoint, inY = snd p012 - snd splitPoint,
                outX = fst p123 - fst splitPoint, outY = snd p123 - snd splitPoint\<rparr>)"

definition getCustomMaskLocalBounds :: "'a::linordered_field path_point list \<Rightarrow> 'a element_bounds \<Rightarrow> ('a \<times> 'a) option" where
  "getCustomMaskLocalBounds points b =
     map_option (\<lambda>pb. (pb_width pb, pb_height pb))
       (getCanvasPointBounds (concat (map (\<lambda>p. map (\<lambda>(x, y). (x * eb_width b, y * eb_height b)) [anchor p, in_handle p, out_handle p]) points)))"

section \<open>Centring\<close>

definition recenterCustomMaskPath ::
    "('a::linordered_field \<Rightarrow> 'a \<times> 'a) \<Rightarrow> 'a custom_params \<Rightarrow> 'a element_bounds \<Rightarrow> 'a \<times> 'a \<times> 'a path_point list" where
  "recenterCustomMaskPath trig m b =
     (if cm_path m = [] then (cm_centerX m, cm_centerY m, cm_path m)
      else case getCustomMaskCanvasGeometry trig m b of
             (_, None) \<Rightarrow> (cm_centerX m, cm_centerY m, cm_path m)
           | (anchors, Some pb) \<Rightarrow>
               let x = (if eb_width b = 0 then 0 else (pb_centerX pb - eb_cx b) / eb_width b);
                   y = (if eb_height b = 0 then 0 else (pb_centerY pb - eb_cy b) / eb_height b);
                   to_local = customMaskCanvasPointToLocal trig (m\<lparr>cm_centerX := x, cm_centerY := y\<rparr>) b
               in (x, y, map (\<lambda>(i, a, h, u).
                    let a' = to_local a; h' = to_local h; u' = to_local u
                    in \<lparr>pt_id = i, pt_x = fst a', pt_y = snd a', inX = fst h' - fst a', inY = snd h' - snd a',
                        outX = fst u' - fst a', outY = snd u' - snd a'\<rparr>) anchors))"

definition with_recentered :: "'a \<times> 'a \<times> 'a path_point list \<Rightarrow> 'a custom_params \<Rightarrow> 'a custom_params" where
  "with_recentered r m = (case r of (x, y, ps) \<Rightarrow> m\<lparr>cm_centerX := x, cm_centerY := y, cm_path := ps\<rparr>)"

definition appendPointToCustomMask ::
    "('a::linordered_field \<Rightarrow> 'a \<times> 'a) \<Rightarrow> 'a custom_params \<Rightarrow> 'a \<times> 'a \<Rightarrow> 'a element_bounds \<Rightarrow> string \<Rightarrow> 'a custom_params" where
  "appendPointToCustomMask trig m canvasPoint b new =
     (let corner = (\<lambda>x y. \<lparr>pt_id = new, pt_x = x, pt_y = y, inX = 0, inY = 0, outX = 0, outY = 0\<rparr>)
      in if cm_path m = []
         then m\<lparr>cm_centerX := (if eb_width b = 0 then 0 else (fst canvasPoint - eb_cx b) / eb_width b),
                cm_centerY := (if eb_height b = 0 then 0 else (snd canvasPoint - eb_cy b) / eb_height b),
                cm_rotation := 0, cm_scale := 1, cm_path := [corner 0 0]\<rparr>
         else let p = customMaskCanvasPointToLocal trig m b canvasPoint
              in with_recentered (recenterCustomMaskPath trig (m\<lparr>cm_path := cm_path m @ [corner (fst p) (snd p)]\<rparr>) b) m)"

definition insertPointOnCustomMaskSegment ::
    "('a::linordered_field \<Rightarrow> 'a \<times> 'a) \<Rightarrow> 'a custom_params \<Rightarrow> int \<Rightarrow> 'a \<times> 'a \<Rightarrow> 'a element_bounds \<Rightarrow> string \<Rightarrow> 'a custom_params option" where
  "insertPointOnCustomMaskSegment trig m segmentIndex canvasPoint b pointId =
     (if getCustomMaskSegmentCount (cm_path m) (cm_closed m) = 0 then None
      else case findClosestPointOnCustomMaskSegment trig m b segmentIndex canvasPoint of
             None \<Rightarrow> None
           | Some (t, _) \<Rightarrow>
               let nextPoints = insertPointIntoCustomMaskSegment (cm_path m) segmentIndex pointId t (cm_closed m)
               in if length nextPoints = length (cm_path m) then None
                  else Some (with_recentered (recenterCustomMaskPath trig (m\<lparr>cm_path := nextPoints\<rparr>) b) m))"

section \<open>Drawing\<close>

datatype 'a path_op = MoveTo "'a \<times> 'a" | BezierCurveTo "'a \<times> 'a" "'a \<times> 'a" "'a \<times> 'a" | ClosePath

definition buildCustomMaskPath2D ::
    "('a::linordered_field \<Rightarrow> 'a \<times> 'a) \<Rightarrow> 'a custom_params \<Rightarrow> 'a element_bounds \<Rightarrow> bool \<Rightarrow> 'a path_op list" where
  "buildCustomMaskPath2D trig m b isClosed =
     (if cm_path m = [] then []
      else let anchors = fst (getCustomMaskCanvasGeometry trig m b);
               curve = (\<lambda>previous current. BezierCurveTo (snd (snd (snd previous))) (fst (snd (snd current))) (fst (snd current)))
           in MoveTo (fst (snd (hd anchors)))
              # map (\<lambda>i. curve (anchors ! (i - 1)) (anchors ! i)) [1..<length anchors]
              @ (if isClosed \<and> length anchors > 1 then [curve (last anchors) (hd anchors), ClosePath] else []))"

end
