(* ===== verification/Attribute_Commands.thy ===== *)
theory Attribute_Commands
  imports Element_Commands Animation_Targets Custom_Mask
begin

text \<open>
  The commands on the effects, masks and keyframes of one element (\<open>commands/timeline/element/effects\<close>, \<open>masks\<close> and
  \<open>keyframes\<close>, \<open>commands/timeline/clipboard/paste-keyframes.ts\<close>) and what the clipboard takes of keyframes
  (\<open>clipboard/handlers/keyframes.ts\<close>). A command is the update it makes of the element it names; the update may throw.
\<close>

section \<open>Effects\<close>

fun js_truthy :: "js_value option \<Rightarrow> bool" where
  "js_truthy None = False"
| "js_truthy (Some JUndefined) = False"
| "js_truthy (Some (JNumber x)) = (x \<noteq> 0)"
| "js_truthy (Some (JString s)) = (s \<noteq> [])"
| "js_truthy (Some (JBool b)) = b"
| "js_truthy _ = True"

definition put_field :: "string \<Rightarrow> js_value \<Rightarrow> js_value \<Rightarrow> js_value" where
  "put_field k v ob = JObject (AList.update k v (js_fields (Some ob)))"

definition with_effects :: "js_value list \<Rightarrow> timeline_element \<Rightarrow> timeline_element" where
  "with_effects xs e = e\<lparr>rest := AList.update ''effects'' (JArray xs) (rest e)\<rparr>"

definition addEffectToElement :: "string \<Rightarrow> uuid \<Rightarrow> timeline_element \<Rightarrow> js_error + timeline_element" where
  "addEffectToElement effectType new e =
     (case buildDefaultEffectInstance effectType new of
        Inl err \<Rightarrow> Inl err | Inr effect \<Rightarrow> Inr (with_effects (element_effects e @ [effect]) e))"

definition removeEffectFromElement :: "uuid \<Rightarrow> timeline_element \<Rightarrow> timeline_element" where
  "removeEffectFromElement effectId e = with_effects (filter (\<lambda>x. \<not> has_id effectId x) (element_effects e)) e"

definition toggleEffectOnElement :: "uuid \<Rightarrow> timeline_element \<Rightarrow> timeline_element" where
  "toggleEffectOnElement effectId e =
     with_effects (map (\<lambda>x. if has_id effectId x then put_field ''enabled'' (JBool (\<not> js_truthy (js_prop ''enabled'' x))) x else x)
       (element_effects e)) e"

definition updateEffectParamsOnElement :: "uuid \<Rightarrow> (string \<times> js_value) list \<Rightarrow> timeline_element \<Rightarrow> timeline_element" where
  "updateEffectParamsOnElement effectId params e =
     with_effects (map (\<lambda>x. if \<not> has_id effectId x then x
       else put_field ''params'' (JObject (fold (\<lambda>(k, v) next. if v \<noteq> JUndefined then AList.update k v next else next) params
              (js_fields (js_prop ''params'' x)))) x) (element_effects e)) e"

text \<open>\<open>effects.splice(fromIndex, 1)\<close> and \<open>effects.splice(toIndex, 0, moved)\<close>: an index past the end takes nothing out,
  and \<open>undefined\<close> goes in.\<close>

definition move_item :: "js_value list \<Rightarrow> int \<Rightarrow> int \<Rightarrow> js_value list" where
  "move_item xs fromIndex toIndex =
     (let i = slice_pos xs fromIndex
      in insert_at (take i xs @ drop (Suc i) xs) toIndex (if i < length xs then xs ! i else JUndefined))"

definition reorderEffectsOnElement :: "int \<Rightarrow> int \<Rightarrow> timeline_element \<Rightarrow> timeline_element" where
  "reorderEffectsOnElement fromIndex toIndex e = with_effects (move_item (element_effects e) fromIndex toIndex) e"

section \<open>Masks\<close>

definition element_masks :: "timeline_element \<Rightarrow> js_value list" where
  "element_masks e = js_items (map_of (rest e) ''masks'')"

definition with_masks :: "js_value list \<Rightarrow> timeline_element \<Rightarrow> timeline_element" where
  "with_masks xs e = e\<lparr>rest := AList.update ''masks'' (JArray xs) (rest e)\<rparr>"

definition removeMaskFromElement :: "uuid \<Rightarrow> timeline_element \<Rightarrow> timeline_element" where
  "removeMaskFromElement maskId e = with_masks (filter (\<lambda>x. \<not> has_id maskId x) (element_masks e)) e"

definition toggleMaskInvertedOnElement :: "uuid \<Rightarrow> timeline_element \<Rightarrow> timeline_element" where
  "toggleMaskInvertedOnElement maskId e =
     with_masks (map (\<lambda>x. if \<not> has_id maskId x then x
       else let params = js_fields (js_prop ''params'' x)
            in put_field ''params'' (JObject (AList.update ''inverted'' (JBool (\<not> js_truthy (map_of params ''inverted''))) params)) x)
       (element_masks e)) e"

fun number_or_zero :: "js_value option \<Rightarrow> rat" where
  "number_or_zero (Some (JNumber x)) = x"
| "number_or_zero _ = 0"

text \<open>The points and parameters of a stored custom mask, all of whose numbers are present.\<close>

definition point_of_js :: "js_value \<Rightarrow> rat path_point" where
  "point_of_js v = (let n = (\<lambda>k. number_or_zero (js_prop k v)) in
     \<lparr>pt_id = js_text (js_prop ''id'' v), pt_x = n ''x'', pt_y = n ''y'', inX = n ''inX'', inY = n ''inY'', outX = n ''outX'', outY = n ''outY''\<rparr>)"

definition js_of_point :: "rat path_point \<Rightarrow> js_value" where
  "js_of_point p = JObject [(''id'', JString (pt_id p)), (''x'', JNumber (pt_x p)), (''y'', JNumber (pt_y p)), (''inX'', JNumber (inX p)),
     (''inY'', JNumber (inY p)), (''outX'', JNumber (outX p)), (''outY'', JNumber (outY p))]"

definition custom_params_of_js :: "(string \<times> js_value) list \<Rightarrow> rat custom_params" where
  "custom_params_of_js ps = (let n = (\<lambda>k. number_or_zero (map_of ps k)) in
     \<lparr>cm_path = map point_of_js (js_items (map_of ps ''path'')), cm_closed = js_truthy (map_of ps ''closed''),
      cm_centerX = n ''centerX'', cm_centerY = n ''centerY'', cm_rotation = n ''rotation'', cm_scale = n ''scale''\<rparr>)"

definition is_custom_mask :: "uuid \<Rightarrow> js_value \<Rightarrow> bool" where
  "is_custom_mask maskId x \<longleftrightarrow> has_id maskId x \<and> js_prop ''type'' x = Some (JString ''custom'')"

definition insertPointIntoCustomMask ::
    "wasm_api \<Rightarrow> int \<Rightarrow> rat \<times> rat \<Rightarrow> rat element_bounds \<Rightarrow> uuid \<Rightarrow> js_value \<Rightarrow> js_value \<times> bool" where
  "insertPointIntoCustomMask w segmentIndex canvasPoint b new theMask =
     (let params = js_fields (js_prop ''params'' theMask)
      in case insertPointOnCustomMaskSegment (cos_sin_w w) (custom_params_of_js params) segmentIndex canvasPoint b new of
           None \<Rightarrow> (theMask, False)
         | Some m \<Rightarrow> (put_field ''params'' (JObject (AList.update ''path'' (JArray (map js_of_point (cm_path m)))
             (AList.update ''centerY'' (JNumber (cm_centerY m)) (AList.update ''centerX'' (JNumber (cm_centerX m)) params)))) theMask, True))"

text \<open>The flag is \<open>didInsertPoint\<close>. An id is never empty, so that it is also whether \<open>insertedPointId\<close> is set.\<close>

definition insertPointIntoElementMask ::
    "wasm_api \<Rightarrow> uuid \<Rightarrow> int \<Rightarrow> rat \<times> rat \<Rightarrow> rat element_bounds \<Rightarrow> uuid \<Rightarrow> timeline_element \<Rightarrow> timeline_element \<times> bool" where
  "insertPointIntoElementMask w maskId segmentIndex canvasPoint b new e =
     (let results = map (\<lambda>x. if \<not> is_custom_mask maskId x then (x, False) else insertPointIntoCustomMask w segmentIndex canvasPoint b new x)
            (element_masks e);
          didInsertPoint = list_ex snd results
      in (if didInsertPoint then with_masks (map fst results) e else e, didInsertPoint))"

definition deletePointsFromCustomMask :: "uuid list \<Rightarrow> js_value \<Rightarrow> js_value \<times> bool" where
  "deletePointsFromCustomMask pointIds theMask =
     (let params = js_fields (js_prop ''params'' theMask);
          points = js_items (map_of params ''path'');
          nextPoints = removeCustomMaskPoints (\<lambda>p. js_text (js_prop ''id'' p)) points pointIds
      in if length nextPoints = length points then (theMask, False)
         else (put_field ''params'' (JObject (AList.update ''closed''
                 (JBool (getCustomMaskClosedStateAfterPointRemoval (js_truthy (map_of params ''closed'')) (length nextPoints)))
                 (AList.update ''path'' (JArray nextPoints) params))) theMask, True))"

definition deletePointsFromElementMask :: "uuid \<Rightarrow> uuid list \<Rightarrow> timeline_element \<Rightarrow> timeline_element \<times> bool" where
  "deletePointsFromElementMask maskId pointIds e =
     (let results = map (\<lambda>x. if \<not> is_custom_mask maskId x then (x, False) else deletePointsFromCustomMask pointIds x) (element_masks e);
          didDeletePoints = list_ex snd results
      in (if didDeletePoints then with_masks (map fst results) e else e, didDeletePoints))"

section \<open>Keyframes\<close>

definition bounded_time :: "media_time \<Rightarrow> timeline_element \<Rightarrow> media_time" where
  "bounded_time t e = maxMediaTime ZERO_MEDIA_TIME (minMediaTime t (duration e))"

definition upsertKeyframeOnElement ::
    "wasm_api \<Rightarrow> string \<Rightarrow> media_time \<Rightarrow> animation_value \<Rightarrow> interpolation option \<Rightarrow> uuid option \<Rightarrow> uuid \<Rightarrow> timeline_element \<Rightarrow>
     js_error + timeline_element" where
  "upsertKeyframeOnElement w path t v interp kid fresh e =
     (case resolveAnimationTarget (parseColor_w w) e path of
        Inl err \<Rightarrow> Inl err
      | Inr None \<Rightarrow> Inr e
      | Inr (Some target) \<Rightarrow> Inr (e\<lparr>animations := upsertPathKeyframe (parseColor_w w) (animations e) path (bounded_time t e) v interp kid
          (d_kind target) (d_defaultInterpolation target) (d_coerce target) fresh\<rparr>))"

definition removeKeyframeAndPersist ::
    "wasm_api \<Rightarrow> string \<Rightarrow> uuid \<Rightarrow> animation_value option \<Rightarrow> timeline_element \<Rightarrow> js_error + timeline_element" where
  "removeKeyframeAndPersist w path kid valueAtPlayhead e =
     (case resolveAnimationTarget (parseColor_w w) e path of
        Inl err \<Rightarrow> Inl err
      | Inr None \<Rightarrow> Inr e
      | Inr (Some target) \<Rightarrow>
          let nextAnimations = removeElementKeyframe (animations e) path kid;
              isChannelNowEmpty = (\<not> hasKeyframesForPath nextAnimations path);
              baseElement = (case valueAtPlayhead of Some v \<Rightarrow> if isChannelNowEmpty then d_setBase target v else e | None \<Rightarrow> e)
          in Inr (baseElement\<lparr>animations := nextAnimations\<rparr>))"

definition retimeKeyframeOnElement :: "wasm_api \<Rightarrow> string \<Rightarrow> uuid \<Rightarrow> media_time \<Rightarrow> timeline_element \<Rightarrow> js_error + timeline_element" where
  "retimeKeyframeOnElement w path kid nextTime e =
     (case resolveAnimationTarget (parseColor_w w) e path of
        Inl err \<Rightarrow> Inl err
      | Inr None \<Rightarrow> Inr e
      | Inr (Some _) \<Rightarrow> Inr (e\<lparr>animations := retimeElementKeyframe (animations e) path kid (bounded_time nextTime e)\<rparr>))"

definition updateCurveOnElement ::
    "wasm_api \<Rightarrow> string \<Rightarrow> string \<Rightarrow> uuid \<Rightarrow> curve_patch \<Rightarrow> timeline_element \<Rightarrow> js_error + timeline_element" where
  "updateCurveOnElement w path componentKey kid patch e =
     (case resolveAnimationTarget (parseColor_w w) e path of
        Inl err \<Rightarrow> Inl err
      | Inr None \<Rightarrow> Inr e
      | Inr (Some _) \<Rightarrow> Inr (e\<lparr>animations := updateScalarKeyframeCurve (animations e) path componentKey kid patch\<rparr>))"

definition removeEffectParamKeyframeOnElement :: "uuid \<Rightarrow> string \<Rightarrow> uuid \<Rightarrow> timeline_element \<Rightarrow> timeline_element" where
  "removeEffectParamKeyframeOnElement effectId paramKey kid e =
     e\<lparr>animations := removeEffectParamKeyframe (animations e) effectId paramKey kid\<rparr>"

section \<open>Keyframes on the clipboard\<close>

record keyframe_item =
  ki_path :: string
  ki_timeOffset :: media_time
  ki_value :: animation_value
  ki_interpolation :: interpolation
  ki_curvePatches :: "(string \<times> curve_patch) list"

definition resolveSingleSourceElement :: "keyframe_ref list \<Rightarrow> element_ref option" where
  "resolveSingleSourceElement ks =
     (case ks of
        [] \<Rightarrow> None
      | k # _ \<Rightarrow> if list_all (\<lambda>x. kr_trackId x = kr_trackId k \<and> kr_elementId x = kr_elementId k) ks
                 then Some \<lparr>ref_trackId = kr_trackId k, ref_elementId = kr_elementId k\<rparr> else None)"

definition getCurvePatches :: "timeline_element \<Rightarrow> string \<Rightarrow> uuid \<Rightarrow> (string \<times> curve_patch) list" where
  "getCurvePatches e path kid =
     (case getBinding (animations e) path of
        None \<Rightarrow> []
      | Some b \<Rightarrow> concat (map (\<lambda>(key, cid).
          case getChannelById (animations e) cid of
            Some (ScalarChannel c) \<Rightarrow> (case find (\<lambda>k. sk_id k = kid) (sc_keys c) of
              None \<Rightarrow> []
            | Some k \<Rightarrow> [(key, \<lparr>p_leftHandle = Some (leftHandle k), p_rightHandle = Some (rightHandle k),
                                p_segmentToNext = Some (segmentToNext k), p_tangentMode = Some (tangentMode k)\<rparr>)])
          | _ \<Rightarrow> []) (components b)))"

definition buildClipboardItem :: "color_printer \<Rightarrow> timeline_element \<Rightarrow> keyframe_ref \<Rightarrow> (media_time \<times> keyframe_item) option" where
  "buildClipboardItem formatColor e r =
     map_option (\<lambda>k. (ek_time k, \<lparr>ki_path = kr_propertyPath r, ki_timeOffset = 0, ki_value = ek_value k,
        ki_interpolation = ek_interpolation k, ki_curvePatches = getCurvePatches e (kr_propertyPath r) (kr_keyframeId r)\<rparr>))
       (getKeyframeById formatColor (animations e) (kr_propertyPath r) (kr_keyframeId r))"

definition item_order :: "locale_order \<Rightarrow> keyframe_item \<Rightarrow> keyframe_item \<Rightarrow> rat" where
  "item_order cmp l r = or_else (of_int (ki_timeOffset l - ki_timeOffset r)) (of_int (cmp (ki_path l) (ki_path r)))"

definition copyKeyframes ::
    "color_printer \<Rightarrow> locale_order \<Rightarrow> keyframe_ref list \<Rightarrow> scene_tracks \<Rightarrow> (element_ref \<times> keyframe_item list) option" where
  "copyKeyframes formatColor cmp selected ts =
     (case resolveSingleSourceElement selected of
        None \<Rightarrow> None
      | Some source \<Rightarrow> (case find_ref ts source of
          None \<Rightarrow> None
        | Some (_, e) \<Rightarrow>
            let rawItems = List.map_filter (buildClipboardItem formatColor e) selected
            in if rawItems = [] then None
               else let minTime = Min (set (map fst rawItems))
                    in Some (source, js_sort (item_order cmp) (map (\<lambda>(t, i). i\<lparr>ki_timeOffset := subMediaTime t minTime\<rparr>) rawItems))))"

definition apply_curve_patches :: "string \<Rightarrow> uuid \<Rightarrow> (string \<times> curve_patch) list \<Rightarrow> element_animations option \<Rightarrow> element_animations option" where
  "apply_curve_patches path kid patches a =
     fold (\<lambda>(key, patch) a. case updateScalarKeyframeCurve a path key kid patch of None \<Rightarrow> a | Some x \<Rightarrow> Some x) patches a"

definition paste_item :: "wasm_api \<Rightarrow> media_time \<Rightarrow> keyframe_item \<Rightarrow> uuid \<Rightarrow> timeline_element \<Rightarrow> js_error + timeline_element" where
  "paste_item w t item new e =
     (case resolveAnimationTarget (parseColor_w w) e (ki_path item) of
        Inl err \<Rightarrow> Inl err
      | Inr None \<Rightarrow> Inr e
      | Inr (Some target) \<Rightarrow>
          let keyframeTime = bounded_time (addMediaTime t (ki_timeOffset item)) e;
              nextAnimations = upsertPathKeyframe (parseColor_w w) (animations e) (ki_path item) keyframeTime (ki_value item)
                (Some (ki_interpolation item)) (Some new) (d_kind target) (d_defaultInterpolation target) (d_coerce target) new;
              patched = (case getKeyframeAtTime (formatColor_w w) nextAnimations (ki_path item) keyframeTime of
                  None \<Rightarrow> nextAnimations
                | Some k \<Rightarrow> apply_curve_patches (ki_path item) (ek_id k) (ki_curvePatches item) nextAnimations)
          in Inr (e\<lparr>animations := patched\<rparr>))"

fun pasteKeyframesIntoElement ::
    "wasm_api \<Rightarrow> (nat \<Rightarrow> uuid) \<Rightarrow> nat \<Rightarrow> media_time \<Rightarrow> keyframe_item list \<Rightarrow> timeline_element \<Rightarrow> js_error + timeline_element" where
  "pasteKeyframesIntoElement w gen n t [] e = Inr e"
| "pasteKeyframesIntoElement w gen n t (item # is) e =
     (case paste_item w t item (gen n) e of Inl err \<Rightarrow> Inl err | Inr e' \<Rightarrow> pasteKeyframesIntoElement w gen (Suc n) t is e')"

section \<open>The commands\<close>

datatype attribute_command =
  AddClipEffectCommand string
| RemoveClipEffectCommand uuid
| ToggleClipEffectCommand uuid
| UpdateClipEffectParamsCommand uuid "(string \<times> js_value) list"
| ReorderClipEffectsCommand int int
| RemoveMaskCommand uuid
| ToggleMaskInvertedCommand uuid
| InsertCustomMaskPointCommand uuid int "rat \<times> rat" "rat element_bounds"
| DeleteCustomMaskPointsCommand uuid "uuid list"
| UpsertKeyframeCommand string media_time animation_value "interpolation option" "uuid option"
| RemoveKeyframeCommand string uuid "animation_value option"
| RetimeKeyframeCommand string uuid media_time
| UpdateScalarKeyframeCurveCommand string string uuid curve_patch
| UpsertEffectParamKeyframeCommand uuid string media_time animation_value "interpolation option" "uuid option"
| RemoveEffectParamKeyframeCommand uuid string uuid
| PasteKeyframesCommand media_time "keyframe_item list"

text \<open>The predicate of \<open>updateElementInSceneTracks\<close>, by default true.\<close>

fun applies_to :: "attribute_command \<Rightarrow> timeline_element \<Rightarrow> bool" where
  "applies_to (AddClipEffectCommand _) = isVisualElement"
| "applies_to (RemoveClipEffectCommand _) = isVisualElement"
| "applies_to (ToggleClipEffectCommand _) = isVisualElement"
| "applies_to (UpdateClipEffectParamsCommand _ _) = isVisualElement"
| "applies_to (ReorderClipEffectsCommand _ _) = isVisualElement"
| "applies_to (RemoveMaskCommand _) = isMaskableElement"
| "applies_to (ToggleMaskInvertedCommand _) = isMaskableElement"
| "applies_to (InsertCustomMaskPointCommand _ _ _ _) = isMaskableElement"
| "applies_to (DeleteCustomMaskPointsCommand _ _) = isMaskableElement"
| "applies_to (UpsertEffectParamKeyframeCommand _ _ _ _ _ _) = isVisualElement"
| "applies_to (RemoveEffectParamKeyframeCommand _ _ _) = isVisualElement"
| "applies_to _ = (\<lambda>_. True)"

fun attribute_update ::
    "wasm_api \<Rightarrow> (nat \<Rightarrow> uuid) \<Rightarrow> nat \<Rightarrow> attribute_command \<Rightarrow> timeline_element \<Rightarrow> js_error + timeline_element" where
  "attribute_update w gen n (AddClipEffectCommand effectType) = addEffectToElement effectType (gen n)"
| "attribute_update w gen n (RemoveClipEffectCommand i) = Inr \<circ> removeEffectFromElement i"
| "attribute_update w gen n (ToggleClipEffectCommand i) = Inr \<circ> toggleEffectOnElement i"
| "attribute_update w gen n (UpdateClipEffectParamsCommand i ps) = Inr \<circ> updateEffectParamsOnElement i ps"
| "attribute_update w gen n (ReorderClipEffectsCommand a b) = Inr \<circ> reorderEffectsOnElement a b"
| "attribute_update w gen n (RemoveMaskCommand i) = Inr \<circ> removeMaskFromElement i"
| "attribute_update w gen n (ToggleMaskInvertedCommand i) = Inr \<circ> toggleMaskInvertedOnElement i"
| "attribute_update w gen n (InsertCustomMaskPointCommand i k p b) = Inr \<circ> fst \<circ> insertPointIntoElementMask w i k p b (gen n)"
| "attribute_update w gen n (DeleteCustomMaskPointsCommand i ids) = Inr \<circ> fst \<circ> deletePointsFromElementMask i ids"
| "attribute_update w gen n (UpsertKeyframeCommand path t v interp kid) = upsertKeyframeOnElement w path t v interp kid (gen n)"
| "attribute_update w gen n (RemoveKeyframeCommand path kid v) = removeKeyframeAndPersist w path kid v"
| "attribute_update w gen n (RetimeKeyframeCommand path kid t) = retimeKeyframeOnElement w path kid t"
| "attribute_update w gen n (UpdateScalarKeyframeCurveCommand path ck kid patch) = updateCurveOnElement w path ck kid patch"
| "attribute_update w gen n (UpsertEffectParamKeyframeCommand i key t v interp kid) =
     upsertKeyframeOnElement w (buildEffectParamPath i key) t v interp kid (gen n)"
| "attribute_update w gen n (RemoveEffectParamKeyframeCommand i key kid) = Inr \<circ> removeEffectParamKeyframeOnElement i key kid"
| "attribute_update w gen n (PasteKeyframesCommand t items) = pasteKeyframesIntoElement w gen n t items"

text \<open>The elements the update reaches, and the first exception among them.\<close>

definition reached :: "scene_tracks \<Rightarrow> element_ref \<Rightarrow> (timeline_element \<Rightarrow> bool) \<Rightarrow> timeline_element list" where
  "reached ts r P =
     (case findTrackInSceneTracks ts (ref_trackId r) of
        None \<Rightarrow> [] | Some tr \<Rightarrow> filter (\<lambda>e. elementId e = ref_elementId r \<and> P e) (elements tr))"

fun first_error :: "(js_error + 'a) list \<Rightarrow> js_error option" where
  "first_error [] = None"
| "first_error (Inl err # _) = Some err"
| "first_error (Inr _ # rs) = first_error rs"

text \<open>The selection a mask command returns; \<open>None\<close> when it reports no change and leaves the tracks alone.\<close>

fun attribute_selection ::
    "wasm_api \<Rightarrow> (nat \<Rightarrow> uuid) \<Rightarrow> nat \<Rightarrow> element_ref \<Rightarrow> attribute_command \<Rightarrow> timeline_element list \<Rightarrow> selection_patch option option" where
  "attribute_selection w gen n r (InsertCustomMaskPointCommand i k p b) es =
     (if list_ex (\<lambda>e. snd (insertPointIntoElementMask w i k p b (gen n) e)) es
      then Some (Some \<lparr>p_elements = None, p_keyframes = None, p_anchor = None,
        p_maskPoints = Some (Some \<lparr>mp_trackId = ref_trackId r, mp_elementId = ref_elementId r, mp_maskId = i, mp_pointIds = [gen n]\<rparr>)\<rparr>)
      else None)"
| "attribute_selection w gen n r (DeleteCustomMaskPointsCommand i ids) es =
     (if list_ex (\<lambda>e. snd (deletePointsFromElementMask i ids e)) es
      then Some (Some \<lparr>p_elements = None, p_keyframes = None, p_anchor = None, p_maskPoints = Some None\<rparr>)
      else None)"
| "attribute_selection w gen n r _ es = Some None"

fun ids_used :: "attribute_command \<Rightarrow> nat" where
  "ids_used (PasteKeyframesCommand _ items) = length items"
| "ids_used _ = 1"

definition run_attribute ::
    "wasm_api \<Rightarrow> (nat \<Rightarrow> uuid) \<Rightarrow> nat \<Rightarrow> element_ref \<Rightarrow> attribute_command \<Rightarrow> scene_tracks \<Rightarrow> (js_error + outcome) \<times> nat" where
  "run_attribute w gen n r c ts =
     (let f = attribute_update w gen n c;
          es = reached ts r (applies_to c)
      in (case first_error (map f es) of
            Some err \<Rightarrow> Inl err
          | None \<Rightarrow> Inr (case attribute_selection w gen n r c es of
              None \<Rightarrow> unchanged
            | Some sel \<Rightarrow> updated (updateElementInSceneTracks ts (ref_trackId r) (ref_elementId r)
                (\<lambda>e. case f e of Inl _ \<Rightarrow> e | Inr e' \<Rightarrow> e') (applies_to c)) sel),
          n + ids_used c))"

end
