(* ===== verification/Scenes.thy ===== *)
theory Scenes
  imports Snapping Placement
begin

text \<open>
  Scenes (\<open>timeline/scenes.ts\<close>) and the bookmarks of a scene (\<open>timeline/bookmarks/utils.ts\<close>). The
  creation and modification dates of a scene are left out.
\<close>

section \<open>Scenes\<close>

record scene =
  sceneId :: uuid
  sceneName :: string
  isMain :: bool
  tracks :: scene_tracks
  bookmarks :: "bookmark list"

definition getMainScene :: "scene list \<Rightarrow> scene option" where
  "getMainScene scenes = find isMain scenes"

text \<open>The two ids stand for the two calls of \<open>generateUUID\<close>.\<close>

definition buildDefaultScene :: "uuid \<Rightarrow> uuid \<Rightarrow> string \<Rightarrow> bool \<Rightarrow> scene" where
  "buildDefaultScene sid mainTrackId name m =
     \<lparr>sceneId = sid, sceneName = name, isMain = m,
      tracks = \<lparr>overlay = [], main = \<lparr>trackId = mainTrackId, trackName = MAIN_TRACK_NAME, trackType = TVideo, elements = [],
                  tr_muted = Some False, tr_hidden = Some False\<rparr>, audio = []\<rparr>,
      bookmarks = []\<rparr>"

definition ensureMainScene :: "uuid \<Rightarrow> uuid \<Rightarrow> scene list \<Rightarrow> scene list" where
  "ensureMainScene sid mainTrackId scenes =
     (if \<not> list_ex isMain scenes then buildDefaultScene sid mainTrackId ''Main scene'' True # scenes else scenes)"

definition canDeleteScene :: "scene \<Rightarrow> js_error + unit" where
  "canDeleteScene s = (if isMain s then Inl (Thrown ''Cannot delete main scene'') else Inr ())"

definition getFallbackSceneAfterDelete :: "scene list \<Rightarrow> uuid \<Rightarrow> uuid option \<Rightarrow> scene option" where
  "getFallbackSceneAfterDelete scenes deletedId currentId =
     (if currentId \<noteq> Some deletedId
      then (case currentId of None \<Rightarrow> None | Some c \<Rightarrow> find (\<lambda>s. sceneId s = c) scenes)
      else getMainScene scenes)"

definition findCurrentScene :: "scene list \<Rightarrow> uuid \<Rightarrow> scene option" where
  "findCurrentScene scenes currentId =
     (case find (\<lambda>s. sceneId s = currentId) scenes of
        Some s \<Rightarrow> Some s
      | None \<Rightarrow> (case getMainScene scenes of Some s \<Rightarrow> Some s | None \<Rightarrow> js_at scenes 0))"

definition getProjectDurationFromScenes :: "scene list \<Rightarrow> media_time" where
  "getProjectDurationFromScenes scenes =
     (case (case getMainScene scenes of Some s \<Rightarrow> Some s | None \<Rightarrow> js_at scenes 0) of
        None \<Rightarrow> ZERO_MEDIA_TIME
      | Some s \<Rightarrow> calculateTotalDuration (tracks s))"

text \<open>\<open>updates\<close>, a partial scene, is the function that overrides its fields.\<close>

definition updateSceneInArray :: "scene list \<Rightarrow> uuid \<Rightarrow> (scene \<Rightarrow> scene) \<Rightarrow> scene list" where
  "updateSceneInArray scenes sid updates = map (\<lambda>s. if sceneId s = sid then updates s else s) scenes"

section \<open>Bookmarks\<close>

definition bookmarkTimeEqual :: "media_time \<Rightarrow> media_time \<Rightarrow> bool" where
  "bookmarkTimeEqual bookmarkTime frameTime \<longleftrightarrow> bookmarkTime = frameTime"

definition findBookmarkIndex :: "bookmark list \<Rightarrow> media_time \<Rightarrow> nat option" where
  "findBookmarkIndex bms t = findIndex (\<lambda>b. bookmarkTimeEqual (bm_time b) t) bms"

definition isBookmarkAtTime :: "bookmark list \<Rightarrow> media_time \<Rightarrow> bool" where
  "isBookmarkAtTime bms t = list_ex (\<lambda>b. bookmarkTimeEqual (bm_time b) t) bms"

definition toggleBookmarkInArray :: "bookmark list \<Rightarrow> media_time \<Rightarrow> bookmark list" where
  "toggleBookmarkInArray bms t =
     (case findBookmarkIndex bms t of
        Some i \<Rightarrow> take i bms @ drop (Suc i) bms
      | None \<Rightarrow> sort_key bm_time (bms @ [\<lparr>bm_time = t, bm_note = None, bm_color = None, bm_duration = None\<rparr>]))"

definition removeBookmarkFromArray :: "bookmark list \<Rightarrow> media_time \<Rightarrow> bookmark list" where
  "removeBookmarkFromArray bms t = filter (\<lambda>b. \<not> bookmarkTimeEqual (bm_time b) t) bms"

text \<open>\<open>updates\<close>, a partial bookmark without its time, is the function that overrides its fields.\<close>

definition updateBookmarkInArray :: "bookmark list \<Rightarrow> media_time \<Rightarrow> (bookmark \<Rightarrow> bookmark) \<Rightarrow> bookmark list" where
  "updateBookmarkInArray bms t updates =
     (case findBookmarkIndex bms t of None \<Rightarrow> bms | Some i \<Rightarrow> bms[i := updates (bms ! i)])"

definition moveBookmarkInArray :: "bookmark list \<Rightarrow> media_time \<Rightarrow> media_time \<Rightarrow> bookmark list" where
  "moveBookmarkInArray bms fromTime toTime =
     (case findBookmarkIndex bms fromTime of
        None \<Rightarrow> bms
      | Some i \<Rightarrow> sort_key bm_time (bms[i := (bms ! i)\<lparr>bm_time := toTime\<rparr>]))"

definition getFrameTime :: "wasm_api \<Rightarrow> media_time \<Rightarrow> frame_rate \<Rightarrow> media_time" where
  "getFrameTime w t fps = roundFrameTime w t fps"

definition getBookmarkAtTime :: "bookmark list \<Rightarrow> media_time \<Rightarrow> bookmark option" where
  "getBookmarkAtTime bms t = (case findBookmarkIndex bms t of None \<Rightarrow> None | Some i \<Rightarrow> Some (bms ! i))"

definition getBookmarksActiveAtTime :: "bookmark list \<Rightarrow> media_time \<Rightarrow> bookmark list" where
  "getBookmarksActiveAtTime bms t =
     filter (\<lambda>b. let start = bm_time b;
                     finish = (case bm_duration b of Some d \<Rightarrow> if d > 0 then addMediaTime start d else start | None \<Rightarrow> start)
                 in t \<ge> start \<and> t \<le> finish) bms"

section \<open>Lemmas\<close>

text \<open>Bookmarks are kept in strictly increasing time order.\<close>

definition bookmarks_ok :: "bookmark list \<Rightarrow> bool" where
  "bookmarks_ok bms \<longleftrightarrow> sorted_wrt (\<lambda>a b. bm_time a < bm_time b) bms"

lemma bookmarks_ok_iff: "bookmarks_ok bms \<longleftrightarrow> sorted (map bm_time bms) \<and> distinct (map bm_time bms)"
  unfolding bookmarks_ok_def strict_sorted_iff [symmetric] by (simp add: sorted_wrt_map)

lemma sorted_bookmarks_ok:
  "distinct (map bm_time bms) \<Longrightarrow> bookmarks_ok (sort_key bm_time bms)"
  using mset_eq_imp_distinct_iff [of "map bm_time (sort_key bm_time bms)" "map bm_time bms"] by (simp add: bookmarks_ok_iff)

lemma bookmark_index_None: "findBookmarkIndex bms t = None \<longleftrightarrow> t \<notin> bm_time ` set bms"
  by (auto simp: findBookmarkIndex_def findIndex_None_iff bookmarkTimeEqual_def)

lemma bookmark_index_Some:
  assumes "findBookmarkIndex bms t = Some i"
  shows "i < length bms" "bm_time (bms ! i) = t"
  using assms findIndexD [of _ bms i] by (auto simp: findBookmarkIndex_def bookmarkTimeEqual_def)

lemma bookmark_split:
  assumes "findBookmarkIndex bms t = Some i"
  shows "bms = take i bms @ bms ! i # drop (Suc i) bms"
  using bookmark_index_Some(1) [OF assms] by (rule id_take_nth_drop)

lemma remove_at_filter:
  assumes "bookmarks_ok bms" "findBookmarkIndex bms t = Some i"
  shows "take i bms @ drop (Suc i) bms = filter (\<lambda>b. bm_time b \<noteq> t) bms"
proof -
  let ?a = "take i bms" and ?b = "drop (Suc i) bms"
  have "distinct (map bm_time (?a @ bms ! i # ?b))"
    using assms(1) bookmark_split [OF assms(2)] by (simp add: bookmarks_ok_iff)
  then have "t \<notin> bm_time ` set ?a" "t \<notin> bm_time ` set ?b" using bookmark_index_Some [OF assms(2)] by auto
  then have "filter (\<lambda>b. bm_time b \<noteq> t) ?a = ?a" "filter (\<lambda>b. bm_time b \<noteq> t) ?b = ?b"
    by (auto simp: filter_id_conv)
  then have "filter (\<lambda>b. bm_time b \<noteq> t) (?a @ bms ! i # ?b) = ?a @ ?b" using bookmark_index_Some [OF assms(2)] by simp
  then show ?thesis using bookmark_split [OF assms(2)] by simp
qed

lemma map_update_time: "i < length bms \<Longrightarrow> map bm_time (bms[i := x]) = (map bm_time bms)[i := bm_time x]"
  by (simp add: map_update)


lemma toggle_add:
  assumes "bookmarks_ok bms" "findBookmarkIndex bms t = None"
  shows "bookmarks_ok (toggleBookmarkInArray bms t)" "filter (\<lambda>b. bm_time b \<noteq> t) (toggleBookmarkInArray bms t) = bms"
    "isBookmarkAtTime (toggleBookmarkInArray bms t) t"
proof -
  let ?n = "\<lparr>bm_time = t, bm_note = None, bm_color = None, bm_duration = None\<rparr>"
  have r: "toggleBookmarkInArray bms t = sort_key bm_time (bms @ [?n])" by (simp add: toggleBookmarkInArray_def assms(2))
  have free: "t \<notin> bm_time ` set bms" using assms(2) by (simp add: bookmark_index_None)
  show "bookmarks_ok (toggleBookmarkInArray bms t)"
    unfolding r using assms(1) free by (intro sorted_bookmarks_ok) (simp add: bookmarks_ok_iff)
  have "filter (\<lambda>b. bm_time b \<noteq> t) (bms @ [?n]) = bms" using free by (auto simp: filter_id_conv)
  then show "filter (\<lambda>b. bm_time b \<noteq> t) (toggleBookmarkInArray bms t) = bms"
    unfolding r filter_sort using assms(1) by (simp add: sort_key_id_if_sorted bookmarks_ok_iff)
  show "isBookmarkAtTime (toggleBookmarkInArray bms t) t"
    unfolding r by (simp add: isBookmarkAtTime_def list_ex_iff bookmarkTimeEqual_def)
qed

lemma toggle_remove:
  assumes "bookmarks_ok bms" "findBookmarkIndex bms t \<noteq> None"
  shows "toggleBookmarkInArray bms t = filter (\<lambda>b. bm_time b \<noteq> t) bms"
  using assms remove_at_filter by (auto simp: toggleBookmarkInArray_def)

lemma isBookmark_index: "isBookmarkAtTime bms t \<longleftrightarrow> findBookmarkIndex bms t \<noteq> None"
  by (auto simp: bookmark_index_None isBookmarkAtTime_def list_ex_iff bookmarkTimeEqual_def)

lemma bookmarks_ok_filter: "bookmarks_ok bms \<Longrightarrow> bookmarks_ok (filter P bms)"
  unfolding bookmarks_ok_def by (rule sorted_wrt_filter)

lemma bookmarks_ok_update:
  assumes "bookmarks_ok bms" "\<And>b. bm_time (updates b) = bm_time b"
  shows "bookmarks_ok (updateBookmarkInArray bms t updates)"
proof (cases "findBookmarkIndex bms t")
  case (Some i)
  have "map bm_time (bms[i := updates (bms ! i)]) = map bm_time bms"
    using bookmark_index_Some(1) [OF Some] by (simp add: map_update assms(2) list_update_same_conv)
  then show ?thesis using assms(1) by (simp add: updateBookmarkInArray_def Some bookmarks_ok_iff)
qed (simp add: updateBookmarkInArray_def assms(1))

section \<open>Properties\<close>

text \<open>Toggling, removing and annotating keep the bookmarks of a scene in strictly increasing time
  order; toggling flips whether the frame is bookmarked and touches no other frame, and toggling a
  free frame twice is the identity.\<close>
theorem bookmark_operations_keep_order:
  assumes "bookmarks_ok bms" "\<And>b. bm_time (updates b) = bm_time b"
  shows "list_all bookmarks_ok [toggleBookmarkInArray bms t, removeBookmarkFromArray bms t, updateBookmarkInArray bms t updates]
    \<and> isBookmarkAtTime (toggleBookmarkInArray bms t) t = (\<not> isBookmarkAtTime bms t)
    \<and> filter (\<lambda>b. bm_time b \<noteq> t) (toggleBookmarkInArray bms t) = filter (\<lambda>b. bm_time b \<noteq> t) bms
    \<and> (isBookmarkAtTime bms t \<or> toggleBookmarkInArray (toggleBookmarkInArray bms t) t = bms)"
proof (cases "findBookmarkIndex bms t")
  case None
  note a = toggle_add [OF assms(1) None]
  have "t \<notin> bm_time ` set bms" using None by (simp add: bookmark_index_None)
  then have "filter (\<lambda>b. bm_time b \<noteq> t) bms = bms" by (auto simp: filter_id_conv)
  moreover have "toggleBookmarkInArray (toggleBookmarkInArray bms t) t = bms"
    using toggle_remove [OF a(1)] a(2,3) by (simp add: isBookmark_index)
  ultimately show ?thesis using a assms None
    by (simp add: bookmarks_ok_update bookmarks_ok_filter removeBookmarkFromArray_def isBookmark_index)
next
  case (Some i)
  then have r: "toggleBookmarkInArray bms t = filter (\<lambda>b. bm_time b \<noteq> t) bms" using toggle_remove [OF assms(1)] by simp
  have "\<not> isBookmarkAtTime (filter (\<lambda>b. bm_time b \<noteq> t) bms) t"
    by (auto simp: isBookmarkAtTime_def list_ex_iff bookmarkTimeEqual_def)
  then show ?thesis using assms Some unfolding r
    by (simp add: bookmarks_ok_update bookmarks_ok_filter removeBookmarkFromArray_def isBookmark_index)
qed

definition demo_bookmarks :: "bookmark list" where
  "demo_bookmarks = [\<lparr>bm_time = 10, bm_note = Some ''intro'', bm_color = None, bm_duration = None\<rparr>,
     \<lparr>bm_time = 30, bm_note = None, bm_color = None, bm_duration = Some 5\<rparr>]"

theorem bookmark_operations_keep_order_witness:
  "toggleBookmarkInArray (toggleBookmarkInArray demo_bookmarks 20) 20 = demo_bookmarks"
  using bookmark_operations_keep_order [of demo_bookmarks "\<lambda>b. b\<lparr>bm_note := None\<rparr>" 20]
  by (auto simp: demo_bookmarks_def bookmarks_ok_def isBookmarkAtTime_def bookmarkTimeEqual_def)

text \<open>Moving a bookmark keeps the times sorted, and keeps them strictly increasing when the target
  frame has no bookmark yet; onto a bookmarked frame it leaves two bookmarks at one time, of which a
  following toggle removes only one.\<close>
theorem moveBookmark_order:
  assumes "bookmarks_ok bms"
  shows "sorted (map bm_time (moveBookmarkInArray bms fromTime toTime))
    \<and> (isBookmarkAtTime bms toTime \<or> bookmarks_ok (moveBookmarkInArray bms fromTime toTime))
    \<and> moveBookmarkInArray demo_bookmarks 10 30 = [(demo_bookmarks ! 0)\<lparr>bm_time := 30\<rparr>, demo_bookmarks ! 1]
    \<and> isBookmarkAtTime (toggleBookmarkInArray (moveBookmarkInArray demo_bookmarks 10 30) 30) 30"
proof -
  have "sorted (map bm_time (moveBookmarkInArray bms fromTime toTime))"
    using assms by (auto simp: moveBookmarkInArray_def bookmarks_ok_iff split: option.splits)
  moreover have "bookmarks_ok (moveBookmarkInArray bms fromTime toTime)" if free: "\<not> isBookmarkAtTime bms toTime"
  proof (cases "findBookmarkIndex bms fromTime")
    case (Some i)
    have "toTime \<notin> set (map bm_time bms)" using free by (simp add: isBookmark_index bookmark_index_None)
    then have "distinct ((map bm_time bms)[i := toTime])"
      using assms by (intro distinct_list_update) (auto simp: bookmarks_ok_iff)
    then show ?thesis by (simp add: moveBookmarkInArray_def Some sorted_bookmarks_ok map_update)
  qed (simp add: moveBookmarkInArray_def assms)
  moreover have m: "moveBookmarkInArray demo_bookmarks 10 30 = [(demo_bookmarks ! 0)\<lparr>bm_time := 30\<rparr>, demo_bookmarks ! 1]"
    by (simp add: moveBookmarkInArray_def findBookmarkIndex_def bookmarkTimeEqual_def demo_bookmarks_def)
  moreover have "isBookmarkAtTime (toggleBookmarkInArray (moveBookmarkInArray demo_bookmarks 10 30) 30) 30"
    unfolding m by (simp add: toggleBookmarkInArray_def findBookmarkIndex_def bookmarkTimeEqual_def demo_bookmarks_def
        isBookmarkAtTime_def)
  ultimately show ?thesis by blast
qed

theorem moveBookmark_order_witness: "bookmarks_ok (moveBookmarkInArray demo_bookmarks 10 40)"
  using moveBookmark_order [of demo_bookmarks 10 40]
  by (simp add: demo_bookmarks_def bookmarks_ok_def isBookmarkAtTime_def bookmarkTimeEqual_def)

end
