(* ===== verification/Editor.thy ===== *)
theory Editor
  imports Undo_Stack Insert_Commands Attribute_Commands Scenes Ripple
begin

text \<open>
  The editor's state and its command history: the scene list and the active scene
  (\<open>core/managers/scenes-manager.ts\<close>), the settings of the project (\<open>project-manager.ts\<close>), the media
  assets (\<open>media-manager.ts\<close>), \<open>updateTracks\<close> and the preview overlay of
  \<open>core/managers/timeline-manager.ts\<close>, the commands as objects that save what they overwrite
  (\<open>commands/\<close>), the history with undo, redo, ripple and reactors (\<open>core/managers/commands.ts\<close>) and the
  reactor that removes empty tracks (\<open>core/index.ts\<close>). An exception is a value: \<open>execute\<close> returns the
  state it leaves behind together with the error.

  The model is of an editor with an open project: \<open>project.getActive\<close> throws without one. The copy of
  the scene list in the project object, listeners, dates, object URLs and the caches and the storage
  of media files are left out.
\<close>

section \<open>Commands\<close>

datatype timeline_command =
  DeleteElementsCommand "element_ref list"
| SplitElementsCommand "element_ref list" media_time retain_side
| DuplicateElementsCommand "element_ref list"
| UpdateElementsCommand "(element_ref \<times> patch) list"
| MoveElementCommand "planned_move list" "planned_track list"
| AddTrackCommand track_type "int option" uuid
| RemoveTrackCommand uuid
| ToggleTrackMuteCommand uuid
| ToggleTrackVisibilityCommand uuid
| InsertElementCommand create_element insert_placement uuid
| PasteCommand media_time "clipboard_item list"
| ToggleSourceAudioSeparationCommand element_ref
| AttributeCommand element_ref attribute_command

record bookmark_patch =
  bp_note :: "string option option"
  bp_color :: "string option option"
  bp_duration :: "media_time option option"

datatype scene_command =
  CreateSceneCommand string bool
| DeleteSceneCommand uuid
| RenameSceneCommand uuid string
| ToggleBookmarkCommand media_time
| RemoveBookmarkCommand media_time
| UpdateBookmarkCommand media_time bookmark_patch
| MoveBookmarkCommand media_time media_time

text \<open>The private fields of a scene command: \<open>savedScenes\<close>, \<open>savedActiveSceneId\<close>, and whether
  \<open>deletedScene\<close> or \<open>previousName\<close> is set where the command has it.\<close>

record scene_memory =
  savedScenes :: "scene list option"
  savedActiveSceneId :: "uuid option"
  target_found :: bool

text \<open>The private fields of \<open>AddMediaAssetCommand\<close> and \<open>RemoveMediaAssetCommand\<close>.\<close>

record add_media_memory =
  am_savedAssets :: "media_asset list option"
  am_previousFps :: "frame_rate option"
  am_appliedFps :: "frame_rate option"

record remove_media_memory =
  rm_savedAssets :: "media_asset list option"
  rm_savedTracks :: "scene_tracks option"
  rm_removedAsset :: "media_asset option"

datatype command =
  TimelineCommand timeline_command "scene_tracks option"
| TracksSnapshotCommand scene_tracks scene_tracks
| SceneCommand scene_command scene_memory
| UpdateProjectSettingsCommand "settings_update list" "project_settings option"
| AddMediaAssetCommand media_asset add_media_memory
| RemoveMediaAssetCommand uuid remove_media_memory
| BatchCommand "command list"

record history_entry =
  he_command :: command
  he_previousSelection :: editor_selection
  he_selectionOverride :: "editor_selection option"

section \<open>State\<close>

record editor =
  scene_list :: "scene list"
  active :: "scene option"
  selection :: editor_selection
  isRippleEnabled :: bool
  projectSettings :: project_settings
  mediaAssets :: "media_asset list"
  previewOverlay :: "(uuid \<times> patch) list"
  previewTracks :: "scene_tracks option"
  nested :: "history_entry list"
  id_counter :: nat

text \<open>\<open>nested\<close> holds the history entries that commands executed inside the current command push, latest
  first; \<open>id_counter\<close> is the position in the supply of ids.\<close>

definition updateSceneTracks :: "scene_tracks \<Rightarrow> editor \<Rightarrow> editor" where
  "updateSceneTracks ts ed =
     (case active ed of
        None \<Rightarrow> ed
      | Some s \<Rightarrow>
          let s' = s\<lparr>tracks := ts\<rparr>
          in ed\<lparr>scene_list := map (\<lambda>x. if sceneId x = sceneId s then s' else x) (scene_list ed), active := Some s'\<rparr>)"

definition updateTracks :: "scene_tracks \<Rightarrow> editor \<Rightarrow> editor" where
  "updateTracks ts ed = updateSceneTracks ts (ed\<lparr>previewOverlay := [], previewTracks := None\<rparr>)"

definition setScenes :: "scene list \<Rightarrow> uuid option \<Rightarrow> editor \<Rightarrow> editor" where
  "setScenes ss activeId ed =
     (let next = (case activeId of Some i \<Rightarrow> Some i | None \<Rightarrow> map_option sceneId (active ed))
      in ed\<lparr>scene_list := ss,
            active := (if truthy_id next then find (\<lambda>s. Some (sceneId s) = next) ss else None)\<rparr>)"

section \<open>Around a command: ripple, selection, reactors\<close>

definition ripple_snapshot :: "editor \<Rightarrow> scene_tracks option" where
  "ripple_snapshot e = (if isRippleEnabled e then map_option tracks (active e) else None)"

definition applyRippleIfEnabled :: "scene_tracks option \<Rightarrow> editor \<Rightarrow> editor" where
  "applyRippleIfEnabled before e =
     (case before of
        None \<Rightarrow> e
      | Some b \<Rightarrow>
          if \<not> isRippleEnabled e then e
          else (case active e of
                  None \<Rightarrow> e
                | Some s \<Rightarrow>
                    let adjustments = computeRippleAdjustments b (tracks s)
                    in if adjustments = [] then e
                       else updateTracks (applyRippleAdjustments (tracks s) adjustments) e))"

definition applySelectionOverride :: "selection_patch option \<Rightarrow> editor \<Rightarrow> editor_selection option \<times> editor" where
  "applySelectionOverride res e =
     (case res of
        None \<Rightarrow> (None, e)
      | Some p \<Rightarrow> let s = applySelectionPatch p (selection e) in (Some s, e\<lparr>selection := s\<rparr>))"

text \<open>The reactor of \<open>EditorCore\<close>: overlay and audio tracks without elements are removed.\<close>

definition prune_tracks :: "scene_tracks \<Rightarrow> scene_tracks" where
  "prune_tracks ts = ts\<lparr>overlay := filter (\<lambda>tr. length (elements tr) > 0) (overlay ts),
     audio := filter (\<lambda>tr. length (elements tr) > 0) (audio ts)\<rparr>"

definition run_reactors :: "editor \<Rightarrow> editor" where
  "run_reactors e =
     (case active e of
        None \<Rightarrow> e
      | Some s \<Rightarrow>
          let pruned = prune_tracks (tracks s)
          in if length (overlay pruned) \<noteq> length (overlay (tracks s)) \<or> length (audio pruned) \<noteq> length (audio (tracks s))
             then updateTracks pruned e else e)"

text \<open>What \<open>execute\<close> and \<open>redo\<close> share; an exception leaves the history as it is.\<close>

definition perform ::
    "((js_error + selection_patch option) \<times> command \<times> editor) \<Rightarrow> editor \<Rightarrow> (js_error option \<times> history_entry option \<times> editor)" where
  "perform result e0 =
     (case result of
        (Inl err, _, e) \<Rightarrow> (Some err, None, e)
      | (Inr sel, c, e) \<Rightarrow>
          let e1 = applyRippleIfEnabled (ripple_snapshot e0) e;
              (override, e2) = applySelectionOverride sel e1
          in (None, Some \<lparr>he_command = c, he_previousSelection = selection e0, he_selectionOverride = override\<rparr>,
              run_reactors e2))"

section \<open>Executing\<close>

definition run_timeline ::
    "wasm_api \<Rightarrow> (nat \<Rightarrow> uuid) \<Rightarrow> media_asset list \<Rightarrow> project_settings \<Rightarrow> nat \<Rightarrow> timeline_command \<Rightarrow> scene_tracks \<Rightarrow>
     (js_error + outcome) \<times> nat" where
  "run_timeline w gen assets settings n c ts =
     (case c of
        DeleteElementsCommand refs \<Rightarrow> (Inr (deleteElements refs ts), n)
      | SplitElementsCommand refs t side \<Rightarrow> map_prod Inr (\<lambda>k. k) (splitElements gen n refs t side ts)
      | DuplicateElementsCommand refs \<Rightarrow> map_prod Inr (\<lambda>k. k) (duplicateElements gen n refs ts)
      | UpdateElementsCommand us \<Rightarrow> map_prod Inr (\<lambda>k. k) (updateElements gen n us ts)
      | MoveElementCommand mvs pts \<Rightarrow>
          (case moveElements mvs pts ts of
             Inl err \<Rightarrow> (Inl err, n)
           | Inr ts' \<Rightarrow> (Inr (updated ts' (Some (createElementSelectionResult (selection_of_moves mvs)))), n))
      | AddTrackCommand tt idx tid \<Rightarrow> (Inr (addTrack tt idx tid ts), n)
      | RemoveTrackCommand tid \<Rightarrow> (Inr (removeTrack tid ts), n)
      | ToggleTrackMuteCommand tid \<Rightarrow> (Inr (toggleTrackMute tid ts), n)
      | ToggleTrackVisibilityCommand tid \<Rightarrow> (Inr (toggleTrackVisibility tid ts), n)
      | InsertElementCommand ce pl eid \<Rightarrow> map_prod Inr (\<lambda>k. k) (snd (insertElement w gen n assets settings ce pl eid ts))
      | PasteCommand t items \<Rightarrow> map_prod Inr (\<lambda>k. k) (pasteElements gen n t items ts)
      | ToggleSourceAudioSeparationCommand r \<Rightarrow> map_prod Inr (\<lambda>k. k) (toggleSourceAudioSeparation gen n assets r ts)
      | AttributeCommand r a \<Rightarrow> run_attribute w gen n r a ts)"

text \<open>The settings an insertion writes, outside the history; no other timeline command writes any.\<close>

definition settings_of_command ::
    "wasm_api \<Rightarrow> (nat \<Rightarrow> uuid) \<Rightarrow> editor \<Rightarrow> timeline_command \<Rightarrow> scene_tracks \<Rightarrow> settings_update list" where
  "settings_of_command w gen ed c ts =
     (case c of
        InsertElementCommand ce pl eid \<Rightarrow>
          fst (insertElement w gen (id_counter ed) (mediaAssets ed) (projectSettings ed) ce pl eid ts)
      | _ \<Rightarrow> [])"

text \<open>Pasting nothing returns before the tracks are saved.\<close>

fun pastes_nothing :: "timeline_command \<Rightarrow> bool" where
  "pastes_nothing (PasteCommand _ items) = (items = [])"
| "pastes_nothing (AttributeCommand _ (PasteKeyframesCommand _ items)) = (items = [])"
| "pastes_nothing _ = False"

definition patch_bookmark :: "bookmark_patch \<Rightarrow> bookmark \<Rightarrow> bookmark" where
  "patch_bookmark p b =
     b\<lparr>bm_note := (case bp_note p of None \<Rightarrow> bm_note b | Some x \<Rightarrow> x),
       bm_color := (case bp_color p of None \<Rightarrow> bm_color b | Some x \<Rightarrow> x),
       bm_duration := (case bp_duration p of None \<Rightarrow> bm_duration b | Some x \<Rightarrow> x)\<rparr>"

type_synonym scene_result = "(js_error + selection_patch option) \<times> scene_memory \<times> editor"

definition createScene :: "(nat \<Rightarrow> uuid) \<Rightarrow> string \<Rightarrow> bool \<Rightarrow> scene_memory \<Rightarrow> editor \<Rightarrow> scene_result" where
  "createScene gen name m mem ed =
     (let n = id_counter ed
      in (Inr None, mem\<lparr>savedScenes := Some (scene_list ed)\<rparr>,
          setScenes (scene_list ed @ [buildDefaultScene (gen n) (gen (Suc n)) name m]) None
            (ed\<lparr>id_counter := Suc (Suc n)\<rparr>)))"

definition deleteScene :: "uuid \<Rightarrow> scene_memory \<Rightarrow> editor \<Rightarrow> scene_result" where
  "deleteScene sid mem ed =
     (case active ed of
        None \<Rightarrow> (Inl (Thrown ''No active scene.''), mem, ed)
      | Some a \<Rightarrow>
          let found = find (\<lambda>s. sceneId s = sid) (scene_list ed);
              mem' = mem\<lparr>savedScenes := Some (scene_list ed), savedActiveSceneId := Some (sceneId a),
                         target_found := (found \<noteq> None)\<rparr>
          in (case found of
                None \<Rightarrow> (Inr None, mem', ed)
              | Some s \<Rightarrow>
                  (case canDeleteScene s of
                     Inl _ \<Rightarrow> (Inr None, mem', ed)
                   | Inr _ \<Rightarrow>
                       let remaining = filter (\<lambda>s. sceneId s \<noteq> sid) (scene_list ed)
                       in (Inr None, mem', setScenes remaining
                            (map_option sceneId (getFallbackSceneAfterDelete remaining sid (Some (sceneId a)))) ed))))"

definition renameScene :: "uuid \<Rightarrow> string \<Rightarrow> scene_memory \<Rightarrow> editor \<Rightarrow> scene_result" where
  "renameScene sid name mem ed =
     (case find (\<lambda>s. sceneId s = sid) (scene_list ed) of
        None \<Rightarrow> (Inr None, mem\<lparr>savedScenes := Some (scene_list ed)\<rparr>, ed)
      | Some s \<Rightarrow> (Inr None, mem\<lparr>savedScenes := Some (scene_list ed), target_found := True\<rparr>,
          setScenes (updateSceneInArray (scene_list ed) sid (\<lambda>s. s\<lparr>sceneName := name\<rparr>)) None ed))"

text \<open>What the four bookmark commands share: the scenes are saved and the bookmarks of the active scene
  replaced, unless the command returns early.\<close>

definition edit_bookmarks ::
    "(frame_rate \<Rightarrow> bookmark list \<Rightarrow> bookmark list option) \<Rightarrow> scene_memory \<Rightarrow> editor \<Rightarrow> scene_result" where
  "edit_bookmarks edit mem ed =
     (case active ed of
        None \<Rightarrow> (Inl (Thrown ''No active scene.''), mem, ed)
      | Some a \<Rightarrow>
          (case edit (fps (projectSettings ed)) (bookmarks a) of
             None \<Rightarrow> (Inr None, mem\<lparr>savedScenes := Some (scene_list ed)\<rparr>, ed)
           | Some bms \<Rightarrow> (Inr None, mem\<lparr>savedScenes := Some (scene_list ed)\<rparr>,
               setScenes (updateSceneInArray (scene_list ed) (sceneId a) (\<lambda>s. s\<lparr>bookmarks := bms\<rparr>)) None ed)))"

definition toggleBookmark :: "wasm_api \<Rightarrow> media_time \<Rightarrow> scene_memory \<Rightarrow> editor \<Rightarrow> scene_result" where
  "toggleBookmark w t = edit_bookmarks (\<lambda>r bms. Some (toggleBookmarkInArray bms (getFrameTime w t r)))"

definition removeBookmark :: "wasm_api \<Rightarrow> media_time \<Rightarrow> scene_memory \<Rightarrow> editor \<Rightarrow> scene_result" where
  "removeBookmark w t = edit_bookmarks (\<lambda>r bms.
     let bms' = removeBookmarkFromArray bms (getFrameTime w t r)
     in if length bms' = length bms then None else Some bms')"

definition updateBookmark :: "wasm_api \<Rightarrow> media_time \<Rightarrow> bookmark_patch \<Rightarrow> scene_memory \<Rightarrow> editor \<Rightarrow> scene_result" where
  "updateBookmark w t p = edit_bookmarks (\<lambda>r bms. Some (updateBookmarkInArray bms (getFrameTime w t r) (patch_bookmark p)))"

definition moveBookmark :: "wasm_api \<Rightarrow> media_time \<Rightarrow> media_time \<Rightarrow> scene_memory \<Rightarrow> editor \<Rightarrow> scene_result" where
  "moveBookmark w t t' = edit_bookmarks (\<lambda>r bms. Some (moveBookmarkInArray bms (getFrameTime w t r) (getFrameTime w t' r)))"

definition execute_scene :: "wasm_api \<Rightarrow> (nat \<Rightarrow> uuid) \<Rightarrow> scene_command \<Rightarrow> scene_memory \<Rightarrow> editor \<Rightarrow> scene_result" where
  "execute_scene w gen c =
     (case c of
        CreateSceneCommand name m \<Rightarrow> createScene gen name m
      | DeleteSceneCommand sid \<Rightarrow> deleteScene sid
      | RenameSceneCommand sid name \<Rightarrow> renameScene sid name
      | ToggleBookmarkCommand t \<Rightarrow> toggleBookmark w t
      | RemoveBookmarkCommand t \<Rightarrow> removeBookmark w t
      | UpdateBookmarkCommand t p \<Rightarrow> updateBookmark w t p
      | MoveBookmarkCommand t t' \<Rightarrow> moveBookmark w t t')"

definition execute_timeline ::
    "wasm_api \<Rightarrow> (nat \<Rightarrow> uuid) \<Rightarrow> timeline_command \<Rightarrow> scene_tracks option \<Rightarrow> editor \<Rightarrow>
     (js_error + selection_patch option) \<times> command \<times> editor" where
  "execute_timeline w gen c saved ed =
     (if pastes_nothing c then (Inr None, TimelineCommand c saved, ed)
      else case active ed of
        None \<Rightarrow> (Inl (Thrown ''No active scene.''), TimelineCommand c saved, ed)
      | Some s \<Rightarrow>
          let (res, n) = run_timeline w gen (mediaAssets ed) (projectSettings ed) (id_counter ed) c (tracks s);
              ed' = ed\<lparr>id_counter := n,
                projectSettings := merge_settings (settings_of_command w gen ed c (tracks s)) (projectSettings ed)\<rparr>;
              c' = TimelineCommand c (Some (tracks s))
          in (case res of
                Inl err \<Rightarrow> (Inl err, c', ed')
              | Inr out \<Rightarrow> (Inr (out_selection out), c',
                  case out_tracks out of None \<Rightarrow> ed' | Some ts \<Rightarrow> updateTracks ts ed')))"

subsection \<open>Media assets (\<open>commands/media/\<close>)\<close>

definition addMediaAsset :: "media_asset \<Rightarrow> add_media_memory \<Rightarrow> editor \<Rightarrow>
    (js_error + selection_patch option) \<times> add_media_memory \<times> editor" where
  "addMediaAsset asset mem ed =
     (let applied = getRaisedProjectFpsForImportedMedia (fps (projectSettings ed)) [asset]
      in (Inr None,
          mem\<lparr>am_savedAssets := Some (mediaAssets ed), am_previousFps := Some (fps (projectSettings ed)), am_appliedFps := applied\<rparr>,
          ed\<lparr>mediaAssets := mediaAssets ed @ [asset],
             projectSettings := merge_settings (case applied of None \<Rightarrow> [] | Some r \<Rightarrow> [SFps r]) (projectSettings ed)\<rparr>))"

definition media_refs :: "uuid \<Rightarrow> scene_tracks \<Rightarrow> element_ref list" where
  "media_refs aid ts =
     concat (map (\<lambda>tr. map (\<lambda>e. \<lparr>ref_trackId = trackId tr, ref_elementId = elementId e\<rparr>)
       (filter (\<lambda>e. mediaId e = Some aid) (elements tr))) (orderedTracks ts))"

text \<open>\<open>editor.timeline.deleteElements\<close> inside a command: a whole execution, with ripple, selection,
  reactors and an entry of its own.\<close>

definition nested_delete :: "wasm_api \<Rightarrow> (nat \<Rightarrow> uuid) \<Rightarrow> element_ref list \<Rightarrow> editor \<Rightarrow> editor" where
  "nested_delete w gen refs ed =
     (case perform (execute_timeline w gen (DeleteElementsCommand refs) None ed) ed of
        (_, None, e) \<Rightarrow> e
      | (_, Some entry, e) \<Rightarrow> e\<lparr>nested := entry # nested e\<rparr>)"

definition removeMediaAsset :: "wasm_api \<Rightarrow> (nat \<Rightarrow> uuid) \<Rightarrow> uuid \<Rightarrow> remove_media_memory \<Rightarrow> editor \<Rightarrow>
    (js_error + selection_patch option) \<times> remove_media_memory \<times> editor" where
  "removeMediaAsset w gen aid mem ed =
     (let mem1 = mem\<lparr>rm_savedAssets := Some (mediaAssets ed)\<rparr>
      in case active ed of
           None \<Rightarrow> (Inl (Thrown ''No active scene.''), mem1, ed)
         | Some s \<Rightarrow>
             let found = find (\<lambda>a. assetId a = aid) (mediaAssets ed);
                 mem2 = mem1\<lparr>rm_savedTracks := Some (tracks s), rm_removedAsset := found\<rparr>
             in case found of
                  None \<Rightarrow> (Inr None, mem2, ed)
                | Some _ \<Rightarrow>
                    let ed1 = ed\<lparr>mediaAssets := filter (\<lambda>a. assetId a \<noteq> aid) (mediaAssets ed)\<rparr>;
                        refs = media_refs aid (tracks s)
                    in (Inr None, mem2, if length refs > 0 then nested_delete w gen refs ed1 else ed1))"

definition undo_add_media :: "add_media_memory \<Rightarrow> editor \<Rightarrow> editor" where
  "undo_add_media mem ed = (case am_savedAssets mem of None \<Rightarrow> ed | Some as \<Rightarrow> ed\<lparr>mediaAssets := as\<rparr>)"

text \<open>The restored asset has a new object URL, which is not modelled.\<close>

definition undo_remove_media :: "uuid \<Rightarrow> remove_media_memory \<Rightarrow> editor \<Rightarrow> editor" where
  "undo_remove_media aid mem ed =
     (let ed1 = (case (rm_savedAssets mem, rm_removedAsset mem) of
            (Some as, Some a) \<Rightarrow> ed\<lparr>mediaAssets := map (\<lambda>x. if assetId x = aid then a else x) as\<rparr>
          | _ \<Rightarrow> ed)
      in case rm_savedTracks mem of None \<Rightarrow> ed1 | Some ts \<Rightarrow> updateTracks ts ed1)"

subsection \<open>Every command\<close>

text \<open>\<open>execute\<close>: the result or the exception, the command with its saved state, and the editor.\<close>

fun execute :: "wasm_api \<Rightarrow> (nat \<Rightarrow> uuid) \<Rightarrow> command \<Rightarrow> editor \<Rightarrow>
    (js_error + selection_patch option) \<times> command \<times> editor"
and execute_all :: "wasm_api \<Rightarrow> (nat \<Rightarrow> uuid) \<Rightarrow> command list \<Rightarrow> selection_patch option \<Rightarrow> editor \<Rightarrow>
    (js_error + selection_patch option) \<times> command list \<times> editor" where
  "execute w gen (TimelineCommand c saved) ed = execute_timeline w gen c saved ed"
| "execute w gen (TracksSnapshotCommand before after) ed =
     (Inr None, TracksSnapshotCommand before after, updateTracks after ed)"
| "execute w gen (SceneCommand c mem) ed =
     (case execute_scene w gen c mem ed of (res, mem', ed') \<Rightarrow> (res, SceneCommand c mem', ed'))"
| "execute w gen (UpdateProjectSettingsCommand us saved) ed =
     (Inr None, UpdateProjectSettingsCommand us (Some (projectSettings ed)),
      ed\<lparr>projectSettings := merge_settings us (projectSettings ed)\<rparr>)"
| "execute w gen (AddMediaAssetCommand asset mem) ed =
     (case addMediaAsset asset mem ed of (res, mem', ed') \<Rightarrow> (res, AddMediaAssetCommand asset mem', ed'))"
| "execute w gen (RemoveMediaAssetCommand aid mem) ed =
     (case removeMediaAsset w gen aid mem ed of (res, mem', ed') \<Rightarrow> (res, RemoveMediaAssetCommand aid mem', ed'))"
| "execute w gen (BatchCommand cs) ed =
     (case execute_all w gen cs None ed of (res, cs', ed') \<Rightarrow> (res, BatchCommand cs', ed'))"
| "execute_all w gen [] latest ed = (Inr latest, [], ed)"
| "execute_all w gen (c # cs) latest ed =
     (case execute w gen c ed of
        (Inl err, c', ed') \<Rightarrow> (Inl err, c' # cs, ed')
      | (Inr sel, c', ed') \<Rightarrow>
          (case execute_all w gen cs (case sel of None \<Rightarrow> latest | Some p \<Rightarrow> Some p) ed' of
             (res, cs', ed'') \<Rightarrow> (res, c' # cs', ed'')))"

definition undo_scene :: "scene_command \<Rightarrow> scene_memory \<Rightarrow> editor \<Rightarrow> editor" where
  "undo_scene c mem ed =
     (case savedScenes mem of
        None \<Rightarrow> ed
      | Some ss \<Rightarrow>
          (case c of
             DeleteSceneCommand _ \<Rightarrow> if target_found mem then setScenes ss (savedActiveSceneId mem) ed else ed
           | RenameSceneCommand _ _ \<Rightarrow> if target_found mem then setScenes ss None ed else ed
           | _ \<Rightarrow> setScenes ss None ed))"

fun undo_command :: "command \<Rightarrow> editor \<Rightarrow> editor" where
  "undo_command (TimelineCommand c saved) ed = (case saved of None \<Rightarrow> ed | Some ts \<Rightarrow> updateTracks ts ed)"
| "undo_command (TracksSnapshotCommand before after) ed = updateTracks before ed"
| "undo_command (SceneCommand c mem) ed = undo_scene c mem ed"
| "undo_command (UpdateProjectSettingsCommand us saved) ed =
     (case saved of None \<Rightarrow> ed | Some st \<Rightarrow> ed\<lparr>projectSettings := st\<rparr>)"
| "undo_command (AddMediaAssetCommand asset mem) ed = undo_add_media mem ed"
| "undo_command (RemoveMediaAssetCommand aid mem) ed = undo_remove_media aid mem ed"
| "undo_command (BatchCommand cs) ed = foldr undo_command cs ed"

text \<open>No command overrides \<open>redo\<close> except the batch, whose \<open>redo\<close> is its \<open>execute\<close> with the
  commands' \<open>redo\<close>.\<close>

definition redo_command :: "wasm_api \<Rightarrow> (nat \<Rightarrow> uuid) \<Rightarrow> command \<Rightarrow> editor \<Rightarrow>
    (js_error + selection_patch option) \<times> command \<times> editor" where
  "redo_command w gen c ed = execute w gen c ed"

section \<open>The command manager\<close>

record manager =
  ed :: editor
  history :: "history_entry list"
  redoStack :: "history_entry list"

text \<open>Both stacks have their top at the head.\<close>

text \<open>A nested execution pushes its entry before the outer one and empties the redo stack.\<close>

definition begin_command :: "editor \<Rightarrow> editor" where
  "begin_command e = e\<lparr>nested := []\<rparr>"

definition manager_execute :: "wasm_api \<Rightarrow> (nat \<Rightarrow> uuid) \<Rightarrow> command \<Rightarrow> manager \<Rightarrow> js_error option \<times> manager" where
  "manager_execute w gen c m =
     (case perform (execute w gen c (begin_command (ed m))) (begin_command (ed m)) of
        (err, None, e) \<Rightarrow> (err, m\<lparr>ed := e, history := nested e @ history m,
           redoStack := (if nested e = [] then redoStack m else [])\<rparr>)
      | (err, Some entry, e) \<Rightarrow> (err, m\<lparr>ed := e, history := entry # nested e @ history m, redoStack := []\<rparr>))"

definition manager_push :: "command \<Rightarrow> manager \<Rightarrow> manager" where
  "manager_push c m = m\<lparr>history := \<lparr>he_command = c, he_previousSelection = selection (ed m),
     he_selectionOverride = None\<rparr> # history m, redoStack := []\<rparr>"

definition manager_undo :: "manager \<Rightarrow> manager" where
  "manager_undo m =
     (case history m of
        [] \<Rightarrow> m
      | entry # hs \<Rightarrow>
          let e1 = undo_command (he_command entry) (ed m);
              e2 = (if he_selectionOverride entry \<noteq> None
                    then e1\<lparr>selection := restoreSnapshot (he_previousSelection entry) (selection e1)\<rparr> else e1)
          in m\<lparr>ed := e2, history := hs, redoStack := entry # redoStack m\<rparr>)"

definition manager_redo :: "wasm_api \<Rightarrow> (nat \<Rightarrow> uuid) \<Rightarrow> manager \<Rightarrow> js_error option \<times> manager" where
  "manager_redo w gen m =
     (case redoStack m of
        [] \<Rightarrow> (None, m)
      | entry # rs \<Rightarrow>
          (case perform (redo_command w gen (he_command entry) (begin_command (ed m))) (begin_command (ed m)) of
             (err, None, e) \<Rightarrow> (err, m\<lparr>ed := e, history := nested e @ history m, redoStack := (if nested e = [] then rs else [])\<rparr>)
           | (err, Some entry', e) \<Rightarrow> (err, m\<lparr>ed := e, history := entry' # nested e @ history m,
               redoStack := (if nested e = [] then rs else [])\<rparr>)))"

definition manager_clear :: "manager \<Rightarrow> manager" where
  "manager_clear m = m\<lparr>history := [], redoStack := []\<rparr>"

lemma merge_settings_Nil [simp]: "merge_settings [] st = st"
  by (simp add: merge_settings_def)

lemma editor_same [simp]: "e\<lparr>id_counter := id_counter e, projectSettings := projectSettings e\<rparr> = (e :: editor)"
  by (cases e) simp

lemma execute_delete:
  assumes "active e = Some s" "deleteElements refs (tracks s) = updated ts sel"
  shows "execute w gen (TimelineCommand (DeleteElementsCommand refs) saved) e
    = (Inr sel, TimelineCommand (DeleteElementsCommand refs) (Some (tracks s)), updateTracks ts e)"
  using assms by (simp add: execute_timeline_def run_timeline_def settings_of_command_def)

section \<open>Frames\<close>

text \<open>What undo restores, and the states that differ at most in the tracks of the active scene (and in
  selection and ids).\<close>

definition scenes_of :: "editor \<Rightarrow> scene list \<times> scene option" where
  "scenes_of e = (scene_list e, active e)"

definition same_frame :: "editor \<Rightarrow> editor \<Rightarrow> bool" where
  "same_frame e e' \<longleftrightarrow> (\<forall>ts. scenes_of (updateTracks ts e) = scenes_of (updateTracks ts e'))"

definition restores :: "editor \<Rightarrow> command \<Rightarrow> bool" where
  "restores e c \<longleftrightarrow> (\<forall>e'. same_frame e e' \<longrightarrow> scenes_of (undo_command c e') = scenes_of e)"

definition undo_entry :: "history_entry \<Rightarrow> editor \<Rightarrow> editor" where
  "undo_entry entry e =
     (let e1 = undo_command (he_command entry) e
      in if he_selectionOverride entry \<noteq> None
         then e1\<lparr>selection := restoreSnapshot (he_previousSelection entry) (selection e1)\<rparr> else e1)"

text \<open>The active scene is an entry of the list, and scene ids are distinct.\<close>

definition editor_ok :: "editor \<Rightarrow> bool" where
  "editor_ok e \<longleftrightarrow> (case active e of None \<Rightarrow> False | Some s \<Rightarrow> s \<in> set (scene_list e)) \<and> distinct (map sceneId (scene_list e))"

lemma updateTracks_scenes:
  "scenes_of e = scenes_of e' \<Longrightarrow> scenes_of (updateTracks ts e) = scenes_of (updateTracks ts e')"
  by (auto simp: scenes_of_def updateTracks_def updateSceneTracks_def Let_def split: option.splits)

lemma updateTracks_twice [simp]: "updateTracks ts (updateTracks ts' e) = updateTracks ts e"
  by (auto simp: updateTracks_def updateSceneTracks_def Let_def split: option.splits)

lemma updateTracks_proj [simp]:
  "selection (updateTracks ts e) = selection e" "isRippleEnabled (updateTracks ts e) = isRippleEnabled e"
  "projectSettings (updateTracks ts e) = projectSettings e" "mediaAssets (updateTracks ts e) = mediaAssets e"
  "nested (updateTracks ts e) = nested e" "id_counter (updateTracks ts e) = id_counter e"
  by (simp_all add: updateTracks_def updateSceneTracks_def Let_def split: option.splits)

lemma scenes_of_proj [simp]:
  "scenes_of (e\<lparr>selection := x\<rparr>) = scenes_of e" "scenes_of (e\<lparr>id_counter := n\<rparr>) = scenes_of e"
  "scenes_of (e\<lparr>projectSettings := p\<rparr>) = scenes_of e" "scenes_of (begin_command e) = scenes_of e"
  by (simp_all add: scenes_of_def begin_command_def)

lemma begin_command_proj [simp]:
  "active (begin_command e) = active e" "selection (begin_command e) = selection e" "scene_list (begin_command e) = scene_list e"
  "isRippleEnabled (begin_command e) = isRippleEnabled e" "nested (begin_command e) = []"
  by (simp_all add: begin_command_def)

lemma same_frame_updateTracks: "same_frame e (updateTracks ts e)"
  by (simp add: same_frame_def)

lemma same_frame_trans: "same_frame e e' \<Longrightarrow> same_frame e' e'' \<Longrightarrow> same_frame e e''"
  by (simp add: same_frame_def)

lemma same_frame_view: "scenes_of e = scenes_of e' \<Longrightarrow> same_frame e e'"
  by (auto simp: same_frame_def intro: updateTracks_scenes)

interpretation command_stack: undo_stack undo_command scenes_of same_frame restores
proof unfold_locales
  show "same_frame s s' \<Longrightarrow> same_frame s' s" for s s' by (simp add: same_frame_def)
qed (auto intro: same_frame_trans same_frame_view simp: restores_def)

interpretation history_stack: undo_stack undo_entry scenes_of same_frame "\<lambda>e entry. restores e (he_command entry)"
proof unfold_locales
  show "same_frame s s' \<Longrightarrow> same_frame s' s" for s s' by (simp add: same_frame_def)
qed (auto intro: same_frame_trans same_frame_view simp: restores_def undo_entry_def Let_def)

lemma updateTracks_same: "editor_ok e \<Longrightarrow> active e = Some s \<Longrightarrow> scenes_of (updateTracks (tracks s) e) = scenes_of e"
proof -
  assume ok: "editor_ok e" and a: "active e = Some s"
  have "x = s" if "x \<in> set (scene_list e)" "sceneId x = sceneId s" for x
    using ok a that by (auto simp: editor_ok_def distinct_map dest: inj_onD)
  then have "map (\<lambda>x. if sceneId x = sceneId s then s else x) (scene_list e) = scene_list e" by (intro map_idI) auto
  then show ?thesis by (simp add: updateTracks_def updateSceneTracks_def a scenes_of_def)
qed

lemma editor_ok_updateTracks: "editor_ok e \<Longrightarrow> editor_ok (updateTracks ts e)"
  by (auto simp: editor_ok_def updateTracks_def updateSceneTracks_def Let_def comp_def if_distrib cong: if_cong split: option.splits)

lemma editor_ok_scenes: "scenes_of e = scenes_of e' \<Longrightarrow> editor_ok e = editor_ok e'"
  by (simp add: editor_ok_def scenes_of_def split: option.splits)

section \<open>Commands restore what they overwrite\<close>

text \<open>The commands that write tracks only: the timeline commands, and batches of them.\<close>

fun tracks_only :: "command \<Rightarrow> bool" where
  "tracks_only (TimelineCommand c _) = (\<not> pastes_nothing c)"
| "tracks_only (TracksSnapshotCommand _ _) = False"
| "tracks_only (UpdateProjectSettingsCommand _ _) = False"
| "tracks_only (AddMediaAssetCommand _ _) = False"
| "tracks_only (RemoveMediaAssetCommand _ _) = False"
| "tracks_only (SceneCommand _ _) = False"
| "tracks_only (BatchCommand cs) = (cs \<noteq> [] \<and> list_all tracks_only cs)"

text \<open>What a successful execution guarantees.\<close>

definition stays :: "editor \<Rightarrow> editor \<Rightarrow> bool" where
  "stays e e' \<longleftrightarrow> same_frame e e' \<and> editor_ok e' \<and> selection e' = selection e \<and> isRippleEnabled e' = isRippleEnabled e
     \<and> nested e' = nested e"

lemma stays_view:
  "editor_ok e \<Longrightarrow> scenes_of e' = scenes_of e \<Longrightarrow> selection e' = selection e \<Longrightarrow> isRippleEnabled e' = isRippleEnabled e \<Longrightarrow>
   nested e' = nested e \<Longrightarrow> stays e e'"
  using editor_ok_scenes [of e e'] by (simp add: stays_def same_frame_view)

lemma stays_trans: "stays e e' \<Longrightarrow> stays e' e'' \<Longrightarrow> stays e e''"
  by (auto simp: stays_def intro: same_frame_trans)

lemma stays_tracks: "editor_ok e \<Longrightarrow> stays e (updateTracks ts e)"
  by (simp add: stays_def same_frame_updateTracks editor_ok_updateTracks)

lemma stays_counter: "editor_ok e \<Longrightarrow> stays e (e\<lparr>id_counter := n, projectSettings := p\<rparr>)"
  by (rule stays_view) simp_all

lemma stays_updateTracks: "editor_ok e \<Longrightarrow> stays e (updateTracks ts (e\<lparr>id_counter := n, projectSettings := p\<rparr>))"
proof -
  assume ok: "editor_ok e"
  have c: "stays e (e\<lparr>id_counter := n, projectSettings := p\<rparr>)" using ok by (rule stays_counter)
  then have "editor_ok (e\<lparr>id_counter := n, projectSettings := p\<rparr>)" by (simp add: stays_def)
  from stays_trans [OF c stays_tracks [OF this]] show ?thesis .
qed

lemma stays_refl: "editor_ok e \<Longrightarrow> stays e e"
  by (simp add: stays_def same_frame_view)

lemma restores_timeline:
  assumes "editor_ok e" "active e = Some s"
  shows "restores e (TimelineCommand c (Some (tracks s)))"
  unfolding restores_def
proof (intro allI impI)
  fix e' assume "same_frame e e'"
  then have "scenes_of (updateTracks (tracks s) e') = scenes_of (updateTracks (tracks s) e)" by (simp add: same_frame_def)
  then show "scenes_of (undo_command (TimelineCommand c (Some (tracks s))) e') = scenes_of e"
    using updateTracks_same [OF assms] by simp
qed

lemma execute_timeline_restores:
  assumes "editor_ok e" "\<not> pastes_nothing c" "execute w gen (TimelineCommand c saved) e = (res, c', e')"
  shows "stays e e' \<and> restores e c' \<and> tracks_only c'"
proof -
  obtain s where s: "active e = Some s" using assms(1) by (auto simp: editor_ok_def split: option.splits)
  show ?thesis using assms restores_timeline [OF assms(1) s] stays_updateTracks [OF assms(1)] stays_counter [OF assms(1)]
    by (auto simp: execute_timeline_def s Let_def split: prod.splits sum.splits option.splits)
qed

lemma execute_restores:
  "(tracks_only c \<longrightarrow> editor_ok e \<longrightarrow> execute w gen c e = (res, c', e') \<longrightarrow>
     stays e e' \<and> tracks_only c' \<and> (\<forall>r. res = Inr r \<longrightarrow> restores e c'))"
  "(list_all tracks_only cs \<longrightarrow> editor_ok e \<longrightarrow> execute_all w gen cs latest e = (res, cs', e') \<longrightarrow>
     stays e e' \<and> list_all tracks_only cs' \<and> length cs' = length cs
     \<and> (\<forall>r. res = Inr r \<longrightarrow> (\<exists>steps. run_of restores same_frame e steps \<and> map fst steps = cs')))"
proof (induction c e and cs latest e arbitrary: res c' e' and res cs' e' rule: execute_execute_all.induct)
  case (1 w gen c saved e)
  show ?case using execute_timeline_restores [of e c w gen saved res c' e'] unfolding tracks_only.simps(1) by blast
next
  case (7 w gen cs e)
  show ?case
  proof (intro impI)
    assume t: "tracks_only (BatchCommand cs)" and ok: "editor_ok e" and ex: "execute w gen (BatchCommand cs) e = (res, c', e')"
    obtain cs' where all: "execute_all w gen cs None e = (res, cs', e')" and c': "c' = BatchCommand cs'"
      using ex by (auto split: prod.splits)
    have st: "stays e e'" "list_all tracks_only cs'" "length cs' = length cs"
      and run: "\<forall>r. res = Inr r \<longrightarrow> (\<exists>steps. run_of restores same_frame e steps \<and> map fst steps = cs')"
      using 7 t ok all by auto
    have ne: "cs' \<noteq> []" using st(3) t by auto
    have "restores e c'" if r: "res = Inr r" for r
    proof -
      obtain steps where s: "run_of restores same_frame e steps" "map fst steps = cs'" using run r by blast
      then have "steps \<noteq> []" using ne by auto
      then show ?thesis using command_stack.undo_run [OF s(1)] unfolding restores_def c' s(2) by simp
    qed
    then show "stays e e' \<and> tracks_only c' \<and> (\<forall>r. res = Inr r \<longrightarrow> restores e c')" using st ne by (simp add: c')
  qed
next
  case (8 w gen latest e)
  then show ?case by (auto simp: stays_refl intro: exI [of _ "[]"])
next
  case (9 w gen c cs latest e)
  show ?case
  proof (intro impI)
    assume t: "list_all tracks_only (c # cs)" and ok: "editor_ok e"
      and ex: "execute_all w gen (c # cs) latest e = (res, cs', e')"
    obtain r1 c1 e1 where c1: "execute w gen c e = (r1, c1, e1)" using prod_cases3 by blast
    have h: "stays e e1" "tracks_only c1" "\<forall>r. r1 = Inr r \<longrightarrow> restores e c1" using "9.IH"(1) t ok c1 by auto
    have ok1: "editor_ok e1" using h(1) by (simp add: stays_def)
    show "stays e e' \<and> list_all tracks_only cs' \<and> length cs' = length (c # cs)
        \<and> (\<forall>r. res = Inr r \<longrightarrow> (\<exists>steps. run_of restores same_frame e steps \<and> map fst steps = cs'))"
    proof (cases r1)
      case (Inl err)
      then show ?thesis using ex c1 h t by auto
    next
      case (Inr sel)
      obtain cs1 where all: "execute_all w gen cs (case sel of None \<Rightarrow> latest | Some p \<Rightarrow> Some p) e1 = (res, cs1, e')"
        and cs': "cs' = c1 # cs1" using ex c1 Inr by (auto split: prod.splits)
      have k: "stays e1 e'" "list_all tracks_only cs1" "length cs1 = length cs"
        and run: "\<forall>r. res = Inr r \<longrightarrow> (\<exists>steps. run_of restores same_frame e1 steps \<and> map fst steps = cs1)"
        using "9.IH"(2) [OF c1 [symmetric] Inr refl] t ok1 all by auto
      have "\<exists>steps. run_of restores same_frame e steps \<and> map fst steps = cs'" if r: "res = Inr r" for r
      proof -
        obtain steps where "run_of restores same_frame e1 steps" "map fst steps = cs1" using run r by blast
        then have "run_of restores same_frame e ((c1, e1) # steps) \<and> map fst ((c1, e1) # steps) = cs'"
          using h(1,3) Inr by (simp add: cs' stays_def)
        then show ?thesis by blast
      qed
      then show ?thesis using k h stays_trans by (auto simp: cs')
    qed
  qed
qed simp_all

section \<open>The manager\<close>

lemma stays_ripple: "editor_ok e \<Longrightarrow> stays e (applyRippleIfEnabled b e)"
  using stays_tracks [of e] stays_refl [of e]
  by (auto simp: applyRippleIfEnabled_def Let_def split: option.splits)

lemma stays_reactors: "editor_ok e \<Longrightarrow> stays e (run_reactors e)"
  using stays_tracks [of e] stays_refl [of e]
  by (auto simp: run_reactors_def Let_def split: option.splits)

lemma ok_selection [simp]: "editor_ok (e\<lparr>selection := x\<rparr>) = editor_ok e"
  by (rule editor_ok_scenes) simp

lemma perform_restores:
  assumes "editor_ok e" "tracks_only c" "perform (execute w gen c e) e = (err, Some entry, e')"
  shows "editor_ok e' \<and> same_frame e e' \<and> restores e (he_command entry) \<and> tracks_only (he_command entry) \<and> err = None
    \<and> he_previousSelection entry = selection e \<and> (he_selectionOverride entry = None \<longrightarrow> selection e' = selection e)
    \<and> nested e' = nested e"
proof -
  obtain sel c' e1 where ex: "execute w gen c e = (Inr sel, c', e1)"
    using assms(3) by (auto simp: perform_def split: prod.splits sum.splits)
  have c: "stays e e1" "restores e c'" "tracks_only c'" using execute_restores(1) assms(1,2) ex by blast+
  let ?e2 = "applyRippleIfEnabled (ripple_snapshot e) e1"
  have ok1: "editor_ok e1" using c(1) by (simp add: stays_def)
  have s2: "stays e ?e2" using stays_trans [OF c(1) stays_ripple [OF ok1]] .
  obtain override e3 where o: "applySelectionOverride sel ?e2 = (override, e3)" by fastforce
  have e3: "scenes_of e3 = scenes_of ?e2" "override = None \<Longrightarrow> e3 = ?e2" "nested e3 = nested ?e2"
    using o by (auto simp: applySelectionOverride_def Let_def split: option.splits)
  have ok3: "editor_ok e3" using s2 editor_ok_scenes [OF e3(1)] by (simp add: stays_def)
  have f3: "same_frame e e3" using s2 same_frame_trans [OF _ same_frame_view [OF e3(1) [symmetric]]] by (auto simp: stays_def)
  have s4: "stays e3 (run_reactors e3)" using stays_reactors [OF ok3] .
  have res: "entry = \<lparr>he_command = c', he_previousSelection = selection e, he_selectionOverride = override\<rparr>"
      "e' = run_reactors e3" "err = None"
    using assms(3) by (simp_all add: perform_def ex o)
  show ?thesis using c s4 s2 same_frame_trans [OF f3] e3(2,3) by (auto simp: res stays_def)
qed

lemma manager_undo_entry:
  "history m = entry # hs \<Longrightarrow> manager_undo m = m\<lparr>ed := undo_entry entry (ed m), history := hs, redoStack := entry # redoStack m\<rparr>"
  by (simp add: manager_undo_def undo_entry_def Let_def)

lemma manager_execute_Some:
  assumes "manager_execute w gen c m = (None, m')"
  obtains entry where "perform (execute w gen c (begin_command (ed m))) (begin_command (ed m)) = (None, Some entry, ed m')"
    "history m' = entry # nested (ed m') @ history m" "redoStack m' = []"
proof -
  obtain err entry e where p: "perform (execute w gen c (begin_command (ed m))) (begin_command (ed m)) = (err, entry, e)"
    using prod_cases3 by blast
  have "err \<noteq> None \<or> entry \<noteq> None" using p by (auto simp: perform_def split: prod.splits sum.splits)
  then show ?thesis using assms p that by (cases entry) (auto simp: manager_execute_def)
qed

lemma same_frame_begin [simp]: "same_frame (begin_command e) e' = same_frame e e'"
  using updateTracks_scenes [of "begin_command e" e] by (simp add: same_frame_def)

lemma editor_ok_begin [simp]: "editor_ok (begin_command e) = editor_ok e"
  by (rule editor_ok_scenes) simp

lemma restores_begin [simp]: "restores (begin_command e) c = restores e c"
  by (simp add: restores_def)

text \<open>A command on tracks pushes one entry.\<close>

lemma manager_execute_restores:
  assumes "editor_ok (ed m)" "tracks_only c" "manager_execute w gen c m = (None, m')"
  obtains entry where "history m' = entry # history m" "redoStack m' = []"
    "editor_ok (ed m')" "same_frame (ed m) (ed m')" "restores (ed m) (he_command entry)" "tracks_only (he_command entry)"
    "he_previousSelection entry = selection (ed m)" "he_selectionOverride entry = None \<longrightarrow> selection (ed m') = selection (ed m)"
proof -
  obtain entry where p: "perform (execute w gen c (begin_command (ed m))) (begin_command (ed m)) = (None, Some entry, ed m')"
    and h: "history m' = entry # nested (ed m') @ history m" "redoStack m' = []"
    using manager_execute_Some [OF assms(3)] by blast
  note r = perform_restores [OF _ assms(2) p]
  show ?thesis by (rule that [of entry]) (use h r assms(1) in auto)
qed

lemma undo_selection:
  assumes "tracks_only c"
  shows "selection (undo_command c e) = selection e"
  using assms
proof (induction c arbitrary: e)
  case (TimelineCommand c saved)
  then show ?case by (cases saved) simp_all
next
  case (BatchCommand cs)
  have "list_all tracks_only xs \<Longrightarrow> set xs \<subseteq> set cs \<Longrightarrow> selection (foldr undo_command xs e) = selection e" for xs
    using BatchCommand.IH by (induction xs) auto
  then show ?case using BatchCommand.prems by simp
qed simp_all

text \<open>A sequence of commands that all succeed.\<close>

fun execute_commands :: "wasm_api \<Rightarrow> (nat \<Rightarrow> uuid) \<Rightarrow> command list \<Rightarrow> manager \<Rightarrow> manager option" where
  "execute_commands w gen [] m = Some m"
| "execute_commands w gen (c # cs) m =
     (case manager_execute w gen c m of (None, m') \<Rightarrow> execute_commands w gen cs m' | (Some _, _) \<Rightarrow> None)"

lemma execute_commands_run:
  "execute_commands w gen cs m = Some m' \<Longrightarrow> list_all tracks_only cs \<Longrightarrow> editor_ok (ed m) \<Longrightarrow>
   \<exists>steps. run_of (\<lambda>e entry. restores e (he_command entry)) same_frame (ed m) steps \<and> length steps = length cs
     \<and> history m' = rev (map fst steps) @ history m \<and> last (ed m # map snd steps) = ed m'"
proof (induction cs arbitrary: m)
  case Nil
  then show ?case by (intro exI [of _ "[]"]) simp
next
  case (Cons c cs)
  obtain m1 where m1: "manager_execute w gen c m = (None, m1)" and rest: "execute_commands w gen cs m1 = Some m'"
    using Cons.prems(1) by (auto split: prod.splits option.splits)
  have c: "tracks_only c" using Cons.prems(2) by simp
  obtain entry where h: "history m1 = entry # history m"
    and pr: "editor_ok (ed m1)" "same_frame (ed m) (ed m1)" "restores (ed m) (he_command entry)"
    by (rule manager_execute_restores [OF Cons.prems(3) c m1])
  obtain steps where s: "run_of (\<lambda>e entry. restores e (he_command entry)) same_frame (ed m1) steps" "length steps = length cs"
      "history m' = rev (map fst steps) @ history m1" "last (ed m1 # map snd steps) = ed m'"
    using Cons.IH [OF rest _ pr(1)] Cons.prems(2) by auto
  show ?case using s pr h by (intro exI [of _ "(entry, ed m1) # steps"]) simp
qed

lemma undo_entries:
  "history m = rev entries @ h \<Longrightarrow>
   ed ((manager_undo ^^ length entries) m) = foldr undo_entry entries (ed m) \<and> history ((manager_undo ^^ length entries) m) = h"
proof (induction entries arbitrary: m rule: rev_induct)
  case (snoc entry entries)
  have u: "manager_undo m = m\<lparr>ed := undo_entry entry (ed m), history := rev entries @ h, redoStack := entry # redoStack m\<rparr>"
    using manager_undo_entry snoc.prems by simp
  show ?case using snoc.IH [of "manager_undo m"] by (simp add: u funpow_swap1)
qed simp

section \<open>Properties\<close>

text \<open>C1: Undo takes back a command exactly: after a successful execution of any timeline command, or batch
  of timeline commands, with ripple editing on or off and after the removal of empty tracks, undo
  restores the scene list, the active scene, the selection and the history, and offers the command
  for redo.\<close>
theorem undo_reverts_execute:
  assumes "editor_ok (ed m)" "tracks_only c" "manager_execute w gen c m = (None, m')"
  shows "scene_list (ed (manager_undo m')) = scene_list (ed m) \<and> active (ed (manager_undo m')) = active (ed m)
    \<and> selection (ed (manager_undo m')) = selection (ed m)
    \<and> history (manager_undo m') = history m \<and> redoStack (manager_undo m') = [hd (history m')]"
proof -
  obtain entry where h: "history m' = entry # history m" "redoStack m' = []"
    and r: "editor_ok (ed m')" "same_frame (ed m) (ed m')" "restores (ed m) (he_command entry)" "tracks_only (he_command entry)"
      "he_previousSelection entry = selection (ed m)" "he_selectionOverride entry = None \<longrightarrow> selection (ed m') = selection (ed m)"
    by (rule manager_execute_restores [OF assms])
  have "scenes_of (undo_command (he_command entry) (ed m')) = scenes_of (ed m)" using r by (auto simp: restores_def)
  then have "scenes_of (undo_entry entry (ed m')) = scenes_of (ed m)" by (simp add: undo_entry_def Let_def)
  moreover have "selection (undo_entry entry (ed m')) = selection (ed m)"
    using r undo_selection [of "he_command entry" "ed m'"] by (simp add: undo_entry_def Let_def restoreSnapshot_def)
  ultimately show ?thesis by (simp add: manager_undo_entry [OF h(1)] h scenes_of_def)
qed

definition demo_scene :: scene where
  "demo_scene = \<lparr>sceneId = ''s'', sceneName = ''Main scene'', isMain = True, tracks = demo_tracks, bookmarks = []\<rparr>"

definition demo_settings :: project_settings where
  "demo_settings = \<lparr>fps = \<lparr>numerator = 30, denominator = 1\<rparr>, canvasSize = \<lparr>cs_width = 1920, cs_height = 1080\<rparr>,
     canvasSizeMode = None, lastCustomCanvasSize = None, originalCanvasSize = None, background = ColorBackground ''#000000''\<rparr>"

definition demo_manager :: "bool \<Rightarrow> manager" where
  "demo_manager ripple = \<lparr>ed = \<lparr>scene_list = [demo_scene], active = Some demo_scene, selection = empty_selection,
     isRippleEnabled = ripple, projectSettings = demo_settings, mediaAssets = [], previewOverlay = [], previewTracks = None,
     nested = [], id_counter = 0\<rparr>, history = [], redoStack = []\<rparr>"

definition demo_supply :: "nat \<Rightarrow> uuid" where
  "demo_supply k = replicate (Suc k) CHR ''u''"

lemma demo_manager_ok: "editor_ok (ed (demo_manager b))"
  by (simp add: demo_manager_def editor_ok_def)

abbreviation demo_commands :: "command list" where
  "demo_commands \<equiv> [TimelineCommand (SplitElementsCommand [demo_anchor] 30 RetainBoth) None,
     TimelineCommand (DeleteElementsCommand [\<lparr>ref_trackId = ''m'', ref_elementId = ''u''\<rparr>]) None]"

theorem undo_reverts_execute_witness:
  "\<forall>w. active (ed (manager_undo (snd (manager_execute w demo_supply (hd demo_commands) (demo_manager True))))) = Some demo_scene"
proof
  fix w
  have "fst (manager_execute w demo_supply (hd demo_commands) (demo_manager True)) = None" by code_simp
  then obtain m' where m': "manager_execute w demo_supply (hd demo_commands) (demo_manager True) = (None, m')"
    by (metis prod.collapse)
  have "tracks_only (hd demo_commands)" by simp
  from undo_reverts_execute [OF demo_manager_ok this m']
  show "active (ed (manager_undo (snd (manager_execute w demo_supply (hd demo_commands) (demo_manager True))))) = Some demo_scene"
    unfolding m' by (simp add: demo_manager_def)
qed

text \<open>C2: Undoing as many times as timeline commands, or batches of them, were executed returns to the start: the
  scene list and the active scene are those from before the first command, and the history is as it was.
  The commands on scenes, media and project settings are not meant; a removed media asset leaves another
  entry behind.\<close>
theorem undo_history:
  assumes "execute_commands w gen cs m = Some m'" "list_all tracks_only cs" "editor_ok (ed m)"
    and "m\<^sub>0 = (manager_undo ^^ length cs) m'"
  shows "scene_list (ed m\<^sub>0) = scene_list (ed m) \<and> active (ed m\<^sub>0) = active (ed m) \<and> history m\<^sub>0 = history m"
proof -
  obtain steps where s: "run_of (\<lambda>e entry. restores e (he_command entry)) same_frame (ed m) steps" "length steps = length cs"
      "history m' = rev (map fst steps) @ history m" "last (ed m # map snd steps) = ed m'"
    using execute_commands_run [OF assms(1-3)] by blast
  have u: "ed m\<^sub>0 = foldr undo_entry (map fst steps) (ed m')" "history m\<^sub>0 = history m"
    using undo_entries [OF s(3)] s(2) assms(4) by simp_all
  have "scenes_of (foldr undo_entry (map fst steps) (ed m')) = scenes_of (ed m)"
    using history_stack.undo_run_last [OF s(1), of "ed m'"] s(4) by simp
  then show ?thesis using u by (simp add: scenes_of_def)
qed


theorem undo_history_witness:
  "\<forall>w. case execute_commands w demo_supply demo_commands (demo_manager True) of None \<Rightarrow> False
     | Some m \<Rightarrow> active (ed ((manager_undo ^^ 2) m)) = Some demo_scene"
proof
  fix w
  have "\<not> Option.is_none (execute_commands w demo_supply demo_commands (demo_manager True))" by code_simp
  then obtain m where m: "execute_commands w demo_supply demo_commands (demo_manager True) = Some m"
    by (auto simp: Option.is_none_def)
  have "active (ed ((manager_undo ^^ length demo_commands) m)) = Some demo_scene"
    using undo_history [OF m _ demo_manager_ok refl] by (simp add: demo_manager_def)
  then show "case execute_commands w demo_supply demo_commands (demo_manager True) of None \<Rightarrow> False
     | Some m \<Rightarrow> active (ed ((manager_undo ^^ 2) m)) = Some demo_scene"
    unfolding m by (simp add: numeral_2_eq_2)
qed

section \<open>Empty tracks\<close>

lemma prune_noop:
  "length (overlay (prune_tracks ts)) = length (overlay ts) \<Longrightarrow> length (audio (prune_tracks ts)) = length (audio ts) \<Longrightarrow>
   prune_tracks ts = ts"
proof -
  assume l: "length (overlay (prune_tracks ts)) = length (overlay ts)" "length (audio (prune_tracks ts)) = length (audio ts)"
  have f: "filter P xs = xs" if "length (filter P xs) = length xs" for P and xs :: "track list"
    using that by (metis filter_True length_filter_less order_less_irrefl)
  have "overlay (prune_tracks ts) = overlay ts" "audio (prune_tracks ts) = audio ts"
    using l f by (simp_all add: prune_tracks_def)
  then show ?thesis by (simp add: prune_tracks_def)
qed

lemma updateTracks_active: "active e = Some s \<Longrightarrow> active (updateTracks ts e) = Some (s\<lparr>tracks := ts\<rparr>)"
  by (simp add: updateTracks_def updateSceneTracks_def Let_def)

lemma run_reactors_active:
  "active e = Some s \<Longrightarrow> \<exists>s'. active (run_reactors e) = Some s' \<and> tracks s' = prune_tracks (tracks s)"
  using prune_noop [of "tracks s"] by (auto simp: run_reactors_def Let_def updateTracks_active)

lemma prune_idem [simp]: "prune_tracks (prune_tracks ts) = prune_tracks ts"
  by (simp add: prune_tracks_def)

lemma perform_pruned:
  assumes "perform res e0 = (err, Some entry, e)" "active e = Some s"
  shows "prune_tracks (tracks s) = tracks s"
proof -
  obtain e2 where e: "e = run_reactors e2" using assms(1) by (auto simp: perform_def Let_def split: prod.splits sum.splits)
  show ?thesis
  proof (cases "active e2")
    case None
    then show ?thesis using assms(2) by (simp add: e run_reactors_def)
  next
    case (Some s2)
    then show ?thesis using run_reactors_active [OF Some] assms(2) by (auto simp: e)
  qed
qed

lemma prune_addTrack:
  "out_tracks (addTrack tt idx tid ts) = Some ts' \<Longrightarrow> prune_tracks ts' = prune_tracks ts"
  by (auto simp: addTrack_def Let_def buildAudioTrackState_def buildOverlayTrackState_def prune_tracks_def
      filter_insert_at_neg split: if_splits)

text \<open>After any command no overlay or audio track is empty; only the main track may be.\<close>
theorem no_empty_tracks_after_command:
  assumes "manager_execute w gen c m = (None, m')" "active (ed m') = Some s"
  shows "list_all (\<lambda>tr. elements tr \<noteq> []) (overlay (tracks s) @ audio (tracks s))"
proof -
  obtain entry where "perform (execute w gen c (begin_command (ed m))) (begin_command (ed m)) = (None, Some entry, ed m')"
    using manager_execute_Some [OF assms(1)] by blast
  from perform_pruned [OF this assms(2)] have p: "prune_tracks (tracks s) = tracks s" .
  have "\<forall>tr \<in> set (overlay (prune_tracks (tracks s))). elements tr \<noteq> []" "\<forall>tr \<in> set (audio (prune_tracks (tracks s))). elements tr \<noteq> []"
    by (auto simp: prune_tracks_def)
  then show ?thesis unfolding p by (auto simp: list_all_iff)
qed

theorem no_empty_tracks_after_command_witness:
  "\<forall>w. case active (ed (snd (manager_execute w demo_supply (TimelineCommand (DeleteElementsCommand demo_selection) None) (demo_manager False)))) of
     None \<Rightarrow> False | Some s \<Rightarrow> list_all (\<lambda>tr. elements tr \<noteq> []) (overlay (tracks s) @ audio (tracks s))"
proof
  fix w
  let ?r = "manager_execute w demo_supply (TimelineCommand (DeleteElementsCommand demo_selection) None) (demo_manager False)"
  have f: "fst ?r = None" and a: "\<not> Option.is_none (active (ed (snd ?r)))" by code_simp+
  obtain s where s: "active (ed (snd ?r)) = Some s" using a by (auto simp: Option.is_none_def)
  have "?r = (None, snd ?r)" using f by (metis prod.collapse)
  from no_empty_tracks_after_command [OF this s]
  show "case active (ed (snd ?r)) of None \<Rightarrow> False | Some s \<Rightarrow> list_all (\<lambda>tr. elements tr \<noteq> []) (overlay (tracks s) @ audio (tracks s))"
    by (simp only: s option.case)
qed

text \<open>Adding a track has no effect: the new track is empty, and the reactor that runs after the command
  removes it again, so the id \<open>addTrack\<close> returns names no track.\<close>
theorem addTrack_vanishes:
  assumes "editor_ok (ed m)" "active (ed m) = Some s" "prune_tracks (tracks s) = tracks s" "\<not> isRippleEnabled (ed m)"
    and "manager_execute w gen (TimelineCommand (AddTrackCommand tt idx tid) saved) m = (None, m')"
  shows "scene_list (ed m') = scene_list (ed m) \<and> active (ed m') = active (ed m)"
proof -
  obtain ts where ts: "out_tracks (addTrack tt idx tid (tracks s)) = Some ts" "out_selection (addTrack tt idx tid (tracks s)) = None"
    by (simp add: addTrack_def Let_def)
  define e where "e = begin_command (ed m)"
  have a: "active e = Some s" "scenes_of e = scenes_of (ed m)" "\<not> isRippleEnabled e"
    using assms(2,4) by (simp_all add: e_def)
  have ex: "execute w gen (TimelineCommand (AddTrackCommand tt idx tid) saved) (begin_command (ed m))
      = (Inr None, TimelineCommand (AddTrackCommand tt idx tid) (Some (tracks s)), updateTracks ts e)"
    using assms(2) ts by (simp add: execute_timeline_def run_timeline_def settings_of_command_def e_def)
  have "ed m' = run_reactors (updateTracks ts e)"
    using assms(4,5) unfolding manager_execute_def ex
    by (auto simp: perform_def Let_def applyRippleIfEnabled_def ripple_snapshot_def applySelectionOverride_def)
  moreover have pr: "prune_tracks ts = tracks s" using prune_addTrack [OF ts(1)] assms(3) by simp
  have "run_reactors (updateTracks ts e) = updateTracks (tracks s) e"
    using prune_noop [of ts] by (auto simp: run_reactors_def updateTracks_active [OF a(1)] Let_def pr)
  moreover have "editor_ok e" using assms(1) editor_ok_scenes [OF a(2)] by simp
  ultimately have "scenes_of (ed m') = scenes_of e" using updateTracks_same [OF _ a(1)] by simp
  then show ?thesis using a(2) by (simp add: scenes_of_def)
qed

theorem addTrack_vanishes_witness:
  "\<forall>w. active (ed (snd (manager_execute w demo_supply (TimelineCommand (AddTrackCommand TAudio None ''n'') None) (demo_manager False))))
     = Some demo_scene"
proof
  fix w
  let ?r = "manager_execute w demo_supply (TimelineCommand (AddTrackCommand TAudio None ''n'') None) (demo_manager False)"
  have "fst ?r = None" by code_simp
  then have r: "?r = (None, snd ?r)" by (metis prod.collapse)
  have "active (ed (snd ?r)) = active (ed (demo_manager False))"
    using addTrack_vanishes [OF demo_manager_ok _ _ _ r, of demo_scene]
    by (simp add: demo_manager_def demo_scene_def prune_tracks_def demo_tracks_def)
  then show "active (ed (snd ?r)) = Some demo_scene" by (simp add: demo_manager_def)
qed

section \<open>Scene commands\<close>

definition active_id :: "editor \<Rightarrow> uuid option" where
  "active_id e = map_option sceneId (active e)"

lemma updateTracks_id [simp]: "active_id (updateTracks ts e) = active_id e"
  by (auto simp: active_id_def updateTracks_def updateSceneTracks_def Let_def split: option.splits)

lemma perform_id: "perform (Inr sel, c, e) e0 = (err, Some entry, e') \<Longrightarrow> active_id e' = active_id e \<and> he_command entry = c"
proof -
  assume p: "perform (Inr sel, c, e) e0 = (err, Some entry, e')"
  have r: "active_id (applyRippleIfEnabled b x) = active_id x" for b x
    by (auto simp: applyRippleIfEnabled_def Let_def split: option.splits)
  have s: "active_id (snd (applySelectionOverride sel x)) = active_id x" for x
    by (auto simp: active_id_def applySelectionOverride_def Let_def split: option.splits)
  have t: "active_id (run_reactors x) = active_id x" for x
    by (auto simp: run_reactors_def Let_def split: option.splits)
  show ?thesis using p r [of "ripple_snapshot e0" e] s [of "applyRippleIfEnabled (ripple_snapshot e0) e"]
    by (auto simp: perform_def Let_def t split: prod.splits)
qed

lemma find_scene: "distinct (map sceneId ss) \<Longrightarrow> s \<in> set ss \<Longrightarrow> find (\<lambda>x. sceneId x = sceneId s) ss = Some s"
  by (induction ss) (auto simp: image_iff)

lemma setScenes_restores:
  assumes "editor_ok e" "active e = Some a" "sceneId a \<noteq> []"
    and "activeId = Some (sceneId a) \<or> activeId = None \<and> active_id e' = Some (sceneId a)"
  shows "scenes_of (setScenes (scene_list e) activeId e') = scenes_of e"
  using assms find_scene [of "scene_list e" a]
  by (auto simp: active_id_def setScenes_def scenes_of_def editor_ok_def Let_def truthy_id_def split: option.splits)

lemma find_updateScene:
  "(\<And>s. sceneId (f s) = sceneId s) \<Longrightarrow> a \<in> set ss \<Longrightarrow>
   \<exists>s. find (\<lambda>s. sceneId s = sceneId a) (updateSceneInArray ss i f) = Some s \<and> sceneId s = sceneId a"
  by (induction ss) (auto simp: updateSceneInArray_def)

lemma setScenes_id:
  assumes "active e = Some a" "sceneId a \<noteq> []" "\<exists>s. find (\<lambda>s. sceneId s = sceneId a) ss = Some s \<and> sceneId s = sceneId a"
  shows "active_id (setScenes ss None e) = Some (sceneId a)"
  using assms by (auto simp: active_id_def setScenes_def Let_def truthy_id_def)

text \<open>The scene a command names is there.\<close>

fun scene_command_applies :: "scene_command \<Rightarrow> editor \<Rightarrow> bool" where
  "scene_command_applies (CreateSceneCommand _ _) e = True"
| "scene_command_applies (DeleteSceneCommand sid) e = (sid \<in> sceneId ` set (scene_list e))"
| "scene_command_applies (RenameSceneCommand sid _) e = (sid \<in> sceneId ` set (scene_list e))"
| "scene_command_applies _ e = True"

lemma edit_bookmarks_saves:
  assumes "editor_ok e" "active e = Some a" "sceneId a \<noteq> []"
    and "edit_bookmarks f mem e = (res, mem', e')"
  shows "savedScenes mem' = Some (scene_list e) \<and> active_id e' = Some (sceneId a)"
proof -
  have "a \<in> set (scene_list e)" using assms(1,2) by (simp add: editor_ok_def)
  then have "active_id (setScenes (updateSceneInArray (scene_list e) (sceneId a) (\<lambda>s. s\<lparr>bookmarks := b\<rparr>)) None e) = Some (sceneId a)" for b
    by (intro setScenes_id [OF assms(2,3)] find_updateScene) simp_all
  then show ?thesis using assms by (auto simp: edit_bookmarks_def active_id_def split: option.splits)
qed

lemma bookmark_undo:
  assumes "editor_ok e" "active e = Some a" "sceneId a \<noteq> []" "edit_bookmarks f mem e = (res, mem', e1)" "active_id e' = active_id e1"
  shows "savedScenes mem' = Some (scene_list e)" "scenes_of (setScenes (scene_list e) None e') = scenes_of e"
  using edit_bookmarks_saves [OF assms(1-4)] setScenes_restores [OF assms(1-3), of None e'] assms(5) by simp_all

lemma scene_command_undo:
  assumes ok: "editor_ok e" "active e = Some a" "sceneId a \<noteq> []" and app: "scene_command_applies c e"
    and ex: "execute_scene w gen c mem e = (res, mem', e1)" and "active_id e' = active_id e1"
  shows "scenes_of (undo_scene c mem' e') = scenes_of e"
proof (cases c)
  case (CreateSceneCommand name m)
  let ?ss = "scene_list e @ [buildDefaultScene (gen (id_counter e)) (gen (Suc (id_counter e))) name m]"
  have "a \<in> set (scene_list e)" using ok by (simp add: editor_ok_def)
  then have "find (\<lambda>s. sceneId s = sceneId a) ?ss = Some a"
    using find_scene [of "scene_list e" a] ok(1) by (simp add: find_append editor_ok_def)
  then have "active_id e1 = Some (sceneId a)"
    using ex ok by (auto simp: CreateSceneCommand execute_scene_def createScene_def Let_def setScenes_def truthy_id_def active_id_def)
  moreover have "savedScenes mem' = Some (scene_list e)"
    using ex by (auto simp: CreateSceneCommand execute_scene_def createScene_def Let_def)
  ultimately show ?thesis using setScenes_restores [OF ok] assms(6) by (simp add: CreateSceneCommand undo_scene_def)
next
  case (DeleteSceneCommand sid)
  obtain s where s: "find (\<lambda>s. sceneId s = sid) (scene_list e) = Some s"
    using app by (cases "find (\<lambda>s. sceneId s = sid) (scene_list e)") (auto simp: DeleteSceneCommand find_None_iff)
  have "mem' = mem\<lparr>savedScenes := Some (scene_list e), savedActiveSceneId := Some (sceneId a), target_found := True\<rparr>"
    using ex ok(2) s by (auto simp: DeleteSceneCommand execute_scene_def deleteScene_def Let_def split: sum.splits)
  then show ?thesis using setScenes_restores [OF ok] by (simp add: DeleteSceneCommand undo_scene_def)
next
  case (RenameSceneCommand sid name)
  obtain s where s: "find (\<lambda>s. sceneId s = sid) (scene_list e) = Some s"
    using app by (cases "find (\<lambda>s. sceneId s = sid) (scene_list e)") (auto simp: RenameSceneCommand find_None_iff)
  have "a \<in> set (scene_list e)" using ok by (simp add: editor_ok_def)
  then have "active_id (setScenes (updateSceneInArray (scene_list e) sid (\<lambda>s. s\<lparr>sceneName := name\<rparr>)) None e) = Some (sceneId a)"
    by (intro setScenes_id [OF ok(2,3)] find_updateScene) simp_all
  then have "active_id e1 = Some (sceneId a)" "savedScenes mem' = Some (scene_list e)" "target_found mem'"
    using ex s by (auto simp: RenameSceneCommand execute_scene_def renameScene_def)
  then show ?thesis using setScenes_restores [OF ok] assms(6) by (simp add: RenameSceneCommand undo_scene_def)
qed (use ex bookmark_undo [OF ok] assms(6) in
      \<open>auto simp: execute_scene_def undo_scene_def toggleBookmark_def removeBookmark_def updateBookmark_def moveBookmark_def\<close>)

text \<open>Undo takes back the commands on scenes and bookmarks: creating, deleting and renaming a scene and
  toggling, removing, annotating and moving a bookmark, when what the command names exists.\<close>
theorem undo_reverts_scene_command:
  assumes "editor_ok (ed m)" "active (ed m) = Some a" "sceneId a \<noteq> []" "scene_command_applies c (ed m)"
    and "manager_execute w gen (SceneCommand c mem) m = (None, m')"
  shows "scene_list (ed (manager_undo m')) = scene_list (ed m) \<and> active (ed (manager_undo m')) = active (ed m)"
proof -
  let ?e = "begin_command (ed m)"
  obtain entry where p: "perform (execute w gen (SceneCommand c mem) ?e) ?e = (None, Some entry, ed m')"
    and h: "history m' = entry # nested (ed m') @ history m" using manager_execute_Some [OF assms(5)] by blast
  obtain res mem' e1 where ex: "execute_scene w gen c mem ?e = (res, mem', e1)" using prod_cases3 by blast
  obtain sel where "res = Inr sel" using p ex by (cases res) (auto simp: perform_def)
  then have id: "active_id (ed m') = active_id e1" "he_command entry = SceneCommand c mem'"
    using p ex perform_id [of sel "SceneCommand c mem'" e1 ?e] by auto
  have "scene_command_applies c ?e" using assms(4) by (cases c) simp_all
  then have "scenes_of (undo_entry entry (ed m')) = scenes_of (ed m)"
    using scene_command_undo [OF _ _ assms(3) _ ex id(1)] assms(1,2) by (simp add: undo_entry_def Let_def id(2))
  then show ?thesis by (simp add: manager_undo_entry [OF h] scenes_of_def)
qed

theorem undo_reverts_scene_command_witness:
  "\<forall>w. active (ed (manager_undo (snd (manager_execute w demo_supply
      (SceneCommand (RenameSceneCommand ''s'' ''Intro'') \<lparr>savedScenes = None, savedActiveSceneId = None, target_found = False\<rparr>)
      (demo_manager False))))) = Some demo_scene"
proof
  fix w
  let ?c = "SceneCommand (RenameSceneCommand ''s'' ''Intro'') \<lparr>savedScenes = None, savedActiveSceneId = None, target_found = False\<rparr>"
  have "fst (manager_execute w demo_supply ?c (demo_manager False)) = None" by code_simp
  then have r: "manager_execute w demo_supply ?c (demo_manager False) = (None, snd (manager_execute w demo_supply ?c (demo_manager False)))"
    by (metis prod.collapse)
  from undo_reverts_scene_command [OF demo_manager_ok _ _ _ r, of demo_scene]
  show "active (ed (manager_undo (snd (manager_execute w demo_supply ?c (demo_manager False))))) = Some demo_scene"
    by (simp add: demo_manager_def demo_scene_def)
qed

end
