(* ===== verification/Attribute_Proofs.thy ===== *)
theory Attribute_Proofs
  imports Attribute_Commands
begin

text \<open>
  What the commands on effects, masks and keyframes keep: the structure of the timeline, the normal form of the animations
  and the place of keyframes inside the element.
\<close>

section \<open>The times of keyframes\<close>

definition chan_times :: "(string \<times> channel option) list \<Rightarrow> media_time set" where
  "chan_times chs = {t. \<exists>c ch. (c, Some ch) \<in> set chs \<and> t \<in> set (key_times ch)}"

definition anim_times :: "element_animations option \<Rightarrow> media_time set" where
  "anim_times a = (case a of None \<Rightarrow> {} | Some x \<Rightarrow> chan_times (channels x))"

lemma chan_times_update:
  assumes "chan_times m \<subseteq> T" "\<And>c. ch = Some c \<Longrightarrow> set (key_times c) \<subseteq> T"
  shows "chan_times (AList.update k ch m) \<subseteq> T"
proof
  fix t
  assume "t \<in> chan_times (AList.update k ch m)"
  then obtain c x where "(c, Some x) \<in> set (AList.update k ch m)" "t \<in> set (key_times x)" by (auto simp: chan_times_def)
  then show "t \<in> T" using assms in_set_update [of c "Some x" k ch m] by (auto simp: chan_times_def)
qed

lemma chan_times_put:
  "chan_times m \<subseteq> T \<Longrightarrow> set (key_times c) \<subseteq> T \<Longrightarrow> chan_times (AList.update k (Some c) m) \<subseteq> T"
  by (rule chan_times_update) auto

lemma chan_times_delete: "chan_times m \<subseteq> T \<Longrightarrow> chan_times (AList.delete k m) \<subseteq> T"
  by (auto simp: chan_times_def dest: in_set_delete)

lemma chan_times_fold: "chan_times m \<subseteq> T \<Longrightarrow> (\<And>x m. chan_times m \<subseteq> T \<Longrightarrow> chan_times (f x m) \<subseteq> T) \<Longrightarrow> chan_times (fold f xs m) \<subseteq> T"
  by (induction xs arbitrary: m) auto

lemma toAnimation_times: "chan_times (channels x) \<subseteq> T \<Longrightarrow> anim_times (toAnimation x) \<subseteq> T"
  by (auto simp: toAnimation_def anim_times_def chan_times_def Let_def)

lemma prop_get_times: "prop_get m c = Some ch \<Longrightarrow> set (key_times ch) \<subseteq> chan_times m"
  by (auto simp: prop_get_def chan_times_def split: option.splits dest!: map_of_SomeD)

lemma clone_times: "chan_times (channels (cloneAnimationsState a)) = anim_times a"
  by (auto simp: cloneAnimationsState_def anim_times_def chan_times_def split: option.splits)

lemma channel_by_id_times: "getChannelById a c = Some ch \<Longrightarrow> set (key_times ch) \<subseteq> anim_times a"
  by (auto simp: getChannelById_def anim_times_def split: option.splits dest: prop_get_times)

lemma target_time: "snd (getTargetKeyMetadata ch t kid fresh) = t"
  by (auto simp: getTargetKeyMetadata_def Let_def split: option.splits dest: find_Some_setD)

lemma image_update: "f ` set (xs[i := x]) \<subseteq> insert (f x) (f ` set xs)"
  using set_update_subset_insert [of xs i x] by auto

lemma found_time: "findIndex (\<lambda>k. f k = t) ks = Some i \<Longrightarrow> f (ks ! i) = t"
  using findIndexD(2) by fastforce

lemma upsertDiscrete_times: "dk_time ` set (upsertDiscreteChannelKey (Some ks) t v kid fresh) \<subseteq> insert t (dk_time ` set ks)"
proof -
  define ns where "ns = normalizeDiscreteKeys ks"
  have ns: "dk_time ` set ns = dk_time ` set ks" by (simp add: ns_def discrete_nf.set_times_norm)
  have "dk_time ` set (normalizeDiscreteKeys (ns[i := createDiscreteKey k t v])) \<subseteq> insert t (dk_time ` set ks)" for i k
    using image_update [of dk_time ns i "createDiscreteKey k t v"] by (simp add: discrete_nf.set_times_norm createDiscreteKey_def ns)
  moreover have "dk_time ` set (normalizeDiscreteKeys (ns @ [createDiscreteKey k t v])) \<subseteq> insert t (dk_time ` set ks)" for k
    by (simp add: discrete_nf.set_times_norm createDiscreteKey_def image_Un ns)
  ultimately show ?thesis unfolding upsertDiscreteChannelKey_def Let_def option.case ns_def [symmetric]
    by (simp add: found_time [of dk_time] split: option.split)
qed

lemma upsertScalar_times: "sk_time ` set (sc_keys (upsertScalarChannelKey (Some c) t v i d kid fresh)) \<subseteq> insert t (sk_time ` set (sc_keys c))"
proof -
  define ns where "ns = sc_keys (normalizeScalarChannel c)"
  have ns: "sk_time ` set ns = sk_time ` set (sc_keys c)" using scalar_nf.set_times_norm [of "sc_keys c"] by (simp add: ns_def)
  have "sk_time ` set (norm_scalar_keys (ns[j := createScalarKey k t v x y])) \<subseteq> insert t (sk_time ` set (sc_keys c))" for j k x y
    using image_update [of sk_time ns j "createScalarKey k t v x y"] scalar_nf.set_times_norm [of "ns[j := createScalarKey k t v x y]"]
    by (simp add: createScalarKey_def ns)
  moreover have "sk_time ` set (norm_scalar_keys (ns @ [createScalarKey k t v x y])) \<subseteq> insert t (sk_time ` set (sc_keys c))" for k x y
    using scalar_nf.set_times_norm [of "ns @ [createScalarKey k t v x y]"] by (simp add: createScalarKey_def image_Un ns)
  ultimately show ?thesis unfolding upsertScalarChannelKey_def Let_def option.case ns_def [symmetric]
    by (simp add: found_time [of sk_time] split: option.split)
qed

lemma upsert_component_times:
  assumes "anim_times a \<subseteq> T" "t \<in> T" "chan_times chs \<subseteq> T" "snd target = t"
  shows "chan_times (upsert_component a kind vals target ex df fresh cmp chs) \<subseteq> T"
proof -
  have empty: "set (key_times (createEmptyChannelForBindingKind kind)) \<subseteq> T"
    by (simp add: createEmptyChannelForBindingKind_def empty_scalar_def)
  define tc where "tc = (case getChannelById a (snd cmp) of
      Some ch \<Rightarrow> if is_discrete ch = (kind = KDiscrete) then ch else createEmptyChannelForBindingKind kind
    | None \<Rightarrow> createEmptyChannelForBindingKind kind)"
  have times: "set (key_times tc) \<subseteq> T"
    using empty assms(1) channel_by_id_times [of a "snd cmp"] by (auto simp: tc_def split: option.splits)
  show ?thesis
  proof (cases "map_of vals (fst cmp)")
    case None
    then show ?thesis using assms(3) by (simp add: upsert_component_def)
  next
    case (Some v)
    show ?thesis
    proof (cases tc)
      case (ScalarChannel c)
      then have "sk_time ` set (sc_keys (upsertScalarChannelKey (Some c) t x i d k fresh)) \<subseteq> T" for x i d k
        using upsertScalar_times [of c t x i d k fresh] assms(2) times by fastforce
      then show ?thesis unfolding upsert_component_def Let_def tc_def [symmetric] assms(4) Some ScalarChannel
        using assms(3) by (cases v) (simp_all add: chan_times_put)
    next
      case (DiscreteChannel ks)
      then have "dk_time ` set (upsertDiscreteChannelKey (Some ks) t x k fresh) \<subseteq> T" for x k
        using upsertDiscrete_times [of ks t x k fresh] assms(2) times by fastforce
      then show ?thesis unfolding upsert_component_def Let_def tc_def [symmetric] assms(4) Some DiscreteChannel
        using assms(3) by (cases v) (simp_all add: chan_times_put)
    qed
  qed
qed

lemma upsertPath_times:
  "anim_times (upsertPathKeyframe pc a path t v i kid kind d coerce fresh) \<subseteq> insert t (anim_times a)"
proof -
  have "chan_times (fold (upsert_component a kind vals (getTargetKeyMetadata (getChannel a path) t kid fresh) ex df fresh) cs
      (channels (cloneAnimationsState a))) \<subseteq> insert t (anim_times a)" for vals ex df cs
  proof (rule chan_times_fold)
    show "chan_times (upsert_component a kind vals (getTargetKeyMetadata (getChannel a path) t kid fresh) ex df fresh x m) \<subseteq> insert t (anim_times a)"
      if "chan_times m \<subseteq> insert t (anim_times a)" for x m
      by (rule upsert_component_times [OF subset_insertI insertI1 that target_time])
  qed (auto simp: clone_times)
  then show ?thesis unfolding upsertPathKeyframe_def Let_def by (simp add: toAnimation_times subset_insertI split: option.split)
qed

lemma removeKeyframe_times:
  assumes "removeKeyframe ch kid = Some c"
  shows "\<exists>c'. ch = Some c' \<and> set (key_times c) \<subseteq> set (key_times c')"
proof -
  have "set (key_times (filter_keys P c')) \<subseteq> set (key_times c')" for P c' by (cases c') auto
  then show ?thesis using assms by (fastforce simp: removeKeyframe_def Let_def key_times_normalize split: option.splits if_splits)
qed

lemma retimeKeyframe_times:
  assumes "retimeKeyframe ch kid t = Some c"
  shows "\<exists>c'. ch = Some c' \<and> set (key_times c) \<subseteq> insert t (set (key_times c'))"
proof -
  have "set (key_times (set_key_time i t c')) \<subseteq> insert t (set (key_times c'))" for i c'
    using image_update [of sk_time _ i "_\<lparr>sk_time := t\<rparr>"] image_update [of dk_time _ i "_\<lparr>dk_time := t\<rparr>"]
    by (cases c') simp_all
  then show ?thesis using assms by (fastforce simp: retimeKeyframe_def key_times_normalize split: option.splits)
qed

lemma removeElementKeyframe_times: "anim_times (removeElementKeyframe a path kid) \<subseteq> anim_times a"
proof (cases "getBinding a path")
  case (Some b)
  have "chan_times (fold (\<lambda>(_, cid) m. AList.update cid (removeKeyframe (prop_get m cid) kid) m) (components b) (channels (cloneAnimationsState a)))
      \<subseteq> anim_times a"
  proof (rule chan_times_fold)
    fix x m
    assume m: "chan_times m \<subseteq> anim_times a"
    have "set (key_times c) \<subseteq> anim_times a" if "removeKeyframe (prop_get m (snd x)) kid = Some c" for c
      using removeKeyframe_times [OF that] m prop_get_times by blast
    then show "chan_times ((\<lambda>(_, cid) m. AList.update cid (removeKeyframe (prop_get m cid) kid) m) x m) \<subseteq> anim_times a"
      using m by (simp add: case_prod_beta chan_times_update)
  qed (simp add: clone_times)
  then show ?thesis unfolding removeElementKeyframe_def Some
    by (simp add: Let_def toAnimation_times chan_times_fold chan_times_delete case_prod_beta)
qed (simp add: removeElementKeyframe_def)

lemma retimeElementKeyframe_times: "anim_times (retimeElementKeyframe a path kid t) \<subseteq> insert t (anim_times a)"
proof (cases "getBinding a path")
  case (Some b)
  have "chan_times (fold (\<lambda>(_, cid) m. AList.update cid (retimeKeyframe (prop_get m cid) kid t) m) (components b) (channels (cloneAnimationsState a)))
      \<subseteq> insert t (anim_times a)"
  proof (rule chan_times_fold)
    fix x m
    assume m: "chan_times m \<subseteq> insert t (anim_times a)"
    have "set (key_times c) \<subseteq> insert t (anim_times a)" if "retimeKeyframe (prop_get m (snd x)) kid t = Some c" for c
      using retimeKeyframe_times [OF that] m prop_get_times by blast
    then show "chan_times ((\<lambda>(_, cid) m. AList.update cid (retimeKeyframe (prop_get m cid) kid t) m) x m) \<subseteq> insert t (anim_times a)"
      using m by (simp add: case_prod_beta chan_times_update)
  qed (auto simp: clone_times)
  then show ?thesis unfolding retimeElementKeyframe_def Some by (simp add: Let_def toAnimation_times)
qed (auto simp: retimeElementKeyframe_def)

lemma setComponent_times:
  "set (key_times c) \<subseteq> anim_times a \<Longrightarrow> anim_times (setBindingComponentChannel a path ck (Some c)) \<subseteq> anim_times a"
  unfolding setBindingComponentChannel_def Let_def delete_component_def
  by (simp add: toAnimation_times chan_times_put chan_times_delete clone_times key_times_normalize split: option.split)

lemma updateCurve_times: "anim_times (updateScalarKeyframeCurve a path ck kid patch) \<subseteq> anim_times a"
proof -
  have "set (key_times (ScalarChannel \<lparr>sc_keys = (sc_keys c)[i := patch_key patch (sc_keys c ! i)], extrapolation = extrapolation c\<rparr>)) \<subseteq> anim_times a"
    if "getChannelById a cid = Some (ScalarChannel c)" "i < length (sc_keys c)" for cid c i
    using that(2) channel_by_id_times [OF that(1)] image_update [of sk_time "sc_keys c" i "patch_key patch (sc_keys c ! i)"]
    by (auto simp: patch_key_def)
  then show ?thesis unfolding updateScalarKeyframeCurve_def
    by (simp add: setComponent_times findIndexD(1) del: key_times.simps split: option.split channel.split)
qed

section \<open>What an update keeps\<close>

text \<open>An update changes the keyframes and the other fields of the element only.\<close>

definition same_core :: "timeline_element \<Rightarrow> timeline_element \<Rightarrow> bool" where
  "same_core e e' \<longleftrightarrow> e' = e\<lparr>animations := animations e', rest := rest e'\<rparr>"

definition keys_ok :: "timeline_element \<Rightarrow> bool" where
  "keys_ok e \<longleftrightarrow> anim_ok (animations e) \<and> 0 \<le> duration e \<and> anim_times (animations e) \<subseteq> {0..duration e}"

lemma same_core_simps:
  "same_core e e' \<Longrightarrow> elementId e' = elementId e" "same_core e e' \<Longrightarrow> elementType e' = elementType e"
  "same_core e e' \<Longrightarrow> startTime e' = startTime e" "same_core e e' \<Longrightarrow> duration e' = duration e"
  unfolding same_core_def
  by (drule arg_cong [where f = elementId], simp) (drule arg_cong [where f = elementType], simp,
    drule arg_cong [where f = startTime], simp, drule arg_cong [where f = duration], simp)

lemma same_core_refl [simp]: "same_core e e" by (simp add: same_core_def)
lemma same_core_rest [simp]: "same_core e (e\<lparr>rest := r\<rparr>)" by (simp add: same_core_def)
lemma same_core_animations [simp]: "same_core e (e\<lparr>animations := a\<rparr>)" by (simp add: same_core_def)

lemma same_core_trans: "same_core a b \<Longrightarrow> same_core b c \<Longrightarrow> same_core a c"
  unfolding same_core_def by (cases a; cases b; cases c) simp

lemma bounded_time_range: "0 \<le> duration e \<Longrightarrow> bounded_time t e \<in> {0..duration e}"
  by (simp add: bounded_time_def maxMediaTime_def minMediaTime_def)

text \<open>An update that only writes other fields, and one that writes keyframes with times inside the element.\<close>

definition good_update :: "(timeline_element \<Rightarrow> js_error + timeline_element) \<Rightarrow> bool" where
  "good_update f \<longleftrightarrow> (\<forall>e e'. f e = Inr e' \<longrightarrow> same_core e e' \<and> (keys_ok e \<longrightarrow> keys_ok e'))"

lemma keys_ok_rest [simp]: "keys_ok (e\<lparr>rest := r\<rparr>) = keys_ok e"
  by (simp add: keys_ok_def)

lemma good_rest: "(\<And>e. f e = e\<lparr>rest := rest (f e)\<rparr>) \<Longrightarrow> good_update (Inr \<circ> f)"
  unfolding good_update_def comp_def sum.inject by (metis keys_ok_rest same_core_rest)

lemma good_animations:
  assumes "anim_ok (animations e) \<Longrightarrow> anim_ok a" "0 \<le> duration e \<Longrightarrow> anim_times a \<subseteq> anim_times (animations e) \<union> {0..duration e}" "keys_ok e"
  shows "keys_ok (e\<lparr>animations := a\<rparr>)"
  using assms by (auto simp: keys_ok_def)

lemma good_effects:
  "good_update (addEffectToElement ty new)" "good_update (Inr \<circ> removeEffectFromElement i)" "good_update (Inr \<circ> toggleEffectOnElement i)"
  "good_update (Inr \<circ> updateEffectParamsOnElement i ps)" "good_update (Inr \<circ> reorderEffectsOnElement a b)"
  by (simp add: good_update_def addEffectToElement_def with_effects_def split: sum.splits)
    (rule good_rest, simp add: removeEffectFromElement_def toggleEffectOnElement_def updateEffectParamsOnElement_def
      reorderEffectsOnElement_def with_effects_def)+

lemma good_masks:
  "good_update (Inr \<circ> removeMaskFromElement i)" "good_update (Inr \<circ> toggleMaskInvertedOnElement i)"
  "good_update (Inr \<circ> (fst \<circ> insertPointIntoElementMask w i k p b new))" "good_update (Inr \<circ> (fst \<circ> deletePointsFromElementMask i ids))"
  by (rule good_rest, simp add: removeMaskFromElement_def toggleMaskInvertedOnElement_def insertPointIntoElementMask_def
      deletePointsFromElementMask_def with_masks_def Let_def)+

lemma good_upsert: "good_update (upsertKeyframeOnElement w path t v i kid fresh)"
  unfolding good_update_def
proof (intro allI impI)
  fix e e'
  assume "upsertKeyframeOnElement w path t v i kid fresh e = Inr e'"
  then consider "e' = e" | a where "e' = e\<lparr>animations := a\<rparr>" "anim_ok (animations e) \<Longrightarrow> anim_ok a" "anim_times a \<subseteq> insert (bounded_time t e) (anim_times (animations e))"
    using upsertPathKeyframe_ok upsertPath_times by (auto simp: upsertKeyframeOnElement_def split: sum.splits option.splits)
  then show "same_core e e' \<and> (keys_ok e \<longrightarrow> keys_ok e')"
  proof cases
    case 2
    then show ?thesis using bounded_time_range [of e t] by (auto intro!: good_animations dest: subsetD)
  qed simp
qed

lemma good_retime: "good_update (retimeKeyframeOnElement w path kid t)"
  unfolding good_update_def
proof (intro allI impI)
  fix e e'
  assume "retimeKeyframeOnElement w path kid t e = Inr e'"
  then consider "e' = e" | "e' = e\<lparr>animations := retimeElementKeyframe (animations e) path kid (bounded_time t e)\<rparr>"
    by (auto simp: retimeKeyframeOnElement_def split: sum.splits option.splits)
  then show "same_core e e' \<and> (keys_ok e \<longrightarrow> keys_ok e')"
  proof cases
    case 2
    then show ?thesis using bounded_time_range [of e t] retimeElementKeyframe_times [of "animations e" path kid "bounded_time t e"]
      by (auto intro!: good_animations retimeElementKeyframe_ok dest: subsetD)
  qed simp
qed

lemma good_curve: "good_update (updateCurveOnElement w path ck kid patch)"
  using updateCurve_times updateScalarKeyframeCurve_ok
  by (fastforce simp: good_update_def updateCurveOnElement_def intro!: good_animations split: sum.splits option.splits)

lemma good_remove: "good_update (removeKeyframeAndPersist w path kid v)"
  unfolding good_update_def
proof (intro allI impI)
  fix e e'
  assume "removeKeyframeAndPersist w path kid v e = Inr e'"
  then have "e' = e \<or> (\<exists>r. e' = e\<lparr>rest := r, animations := removeElementKeyframe (animations e) path kid\<rparr>)"
    using setBase_core [of "parseColor_w w" e path]
    by (auto simp: removeKeyframeAndPersist_def Let_def split: sum.splits option.splits if_splits) (metis timeline_element.surjective timeline_element.update_convs(16))+
  moreover have "anim_times (removeElementKeyframe (animations e) path kid) \<subseteq> {0..duration e}" if "keys_ok e"
    using that removeElementKeyframe_times unfolding keys_ok_def by (meson subset_trans)
  ultimately show "same_core e e' \<and> (keys_ok e \<longrightarrow> keys_ok e')"
    using removeElementKeyframe_ok [of "animations e" path kid] by (elim disjE exE) (simp_all add: same_core_def keys_ok_def)
qed

lemma good_remove_effect_param: "good_update (Inr \<circ> removeEffectParamKeyframeOnElement i key kid)"
  using removeElementKeyframe_times removeElementKeyframe_ok
  by (fastforce simp: good_update_def removeEffectParamKeyframeOnElement_def removeEffectParamKeyframe_def intro!: good_animations)

lemma curve_patches:
  "(anim_ok a \<longrightarrow> anim_ok (apply_curve_patches path kid ps a)) \<and> anim_times (apply_curve_patches path kid ps a) \<subseteq> anim_times a"
proof (induction ps arbitrary: a)
  case (Cons p ps)
  let ?a = "case updateScalarKeyframeCurve a path (fst p) kid (snd p) of None \<Rightarrow> a | Some x \<Rightarrow> Some x"
  have "(anim_ok a \<longrightarrow> anim_ok ?a) \<and> anim_times ?a \<subseteq> anim_times a"
    using updateScalarKeyframeCurve_ok [of a path "fst p" kid "snd p"] updateCurve_times [of a path "fst p" kid "snd p"]
    by (auto split: option.splits)
  then show ?case using Cons [of ?a] by (auto simp: apply_curve_patches_def case_prod_beta)
qed (simp add: apply_curve_patches_def)

lemma paste_item_cases:
  assumes "paste_item w t item new e = Inr e'"
  shows "\<exists>a. e' = e\<lparr>animations := a\<rparr> \<and> (anim_ok (animations e) \<longrightarrow> anim_ok a)
    \<and> anim_times a \<subseteq> insert (bounded_time (t + ki_timeOffset item) e) (anim_times (animations e))"
proof (cases "resolveAnimationTarget (parseColor_w w) e (ki_path item)")
  case (Inr tgt)
  show ?thesis
  proof (cases tgt)
    case None
    then show ?thesis using assms Inr by (auto simp: paste_item_def intro!: exI [of _ "animations e"])
  next
    case (Some target)
    define k where "k = bounded_time (t + ki_timeOffset item) e"
    define n where "n = upsertPathKeyframe (parseColor_w w) (animations e) (ki_path item) k (ki_value item)
      (Some (ki_interpolation item)) (Some new) (d_kind target) (d_defaultInterpolation target) (d_coerce target) new"
    have n: "anim_ok (animations e) \<longrightarrow> anim_ok n" "anim_times n \<subseteq> insert k (anim_times (animations e))"
      using upsertPathKeyframe_ok upsertPath_times by (simp_all add: n_def)
    have "e' = e\<lparr>animations := n\<rparr> \<or> (\<exists>i. e' = e\<lparr>animations := apply_curve_patches (ki_path item) i (ki_curvePatches item) n\<rparr>)"
      using assms by (auto simp: paste_item_def Inr Some Let_def k_def n_def split: option.splits)
    then show ?thesis using n curve_patches [of n "ki_path item" _ "ki_curvePatches item"] unfolding k_def by (metis subset_trans)
  qed
qed (use assms in \<open>simp add: paste_item_def\<close>)

lemma good_paste: "good_update (pasteKeyframesIntoElement w gen n t items)"
proof (induction items arbitrary: n)
  case (Cons item items)
  have step: "same_core e e' \<and> (keys_ok e \<longrightarrow> keys_ok e')" if "paste_item w t item (gen n) e = Inr e'" for e e'
    using paste_item_cases [OF that] bounded_time_range [of e "t + ki_timeOffset item"]
    by (auto intro!: good_animations dest: subsetD)
  show ?case unfolding good_update_def
  proof (intro allI impI)
    fix e e'
    assume "pasteKeyframesIntoElement w gen n t (item # items) e = Inr e'"
    then obtain e1 where "paste_item w t item (gen n) e = Inr e1" "pasteKeyframesIntoElement w gen (Suc n) t items e1 = Inr e'"
      by (auto split: sum.splits)
    then show "same_core e e' \<and> (keys_ok e \<longrightarrow> keys_ok e')"
      using step Cons [of "Suc n"] same_core_trans unfolding good_update_def by blast
  qed
qed (simp add: good_update_def)

lemma good_attribute: "good_update (attribute_update w gen n c)"
  by (cases c) (simp_all add: good_effects good_masks good_upsert good_retime good_curve good_remove good_remove_effect_param good_paste
    comp_assoc del: pasteKeyframesIntoElement.simps)

section \<open>Where keyframes go\<close>

text \<open>A time inside an element.\<close>

definition inside :: "timeline_element \<Rightarrow> media_time \<Rightarrow> media_time" where
  "inside e t = max 0 (min t (duration e))"

lemma bounded_inside: "bounded_time t e = inside e t"
  by (auto simp: bounded_time_def maxMediaTime_def minMediaTime_def inside_def)

text \<open>The times a command asks for.\<close>

fun requested :: "attribute_command \<Rightarrow> media_time list" where
  "requested (UpsertKeyframeCommand _ t _ _ _) = [t]"
| "requested (RetimeKeyframeCommand _ _ t) = [t]"
| "requested (UpsertEffectParamKeyframeCommand _ _ t _ _ _) = [t]"
| "requested (PasteKeyframesCommand t items) = map (\<lambda>i. t + ki_timeOffset i) items"
| "requested _ = []"

definition times_from :: "media_time list \<Rightarrow> timeline_element \<Rightarrow> timeline_element \<Rightarrow> bool" where
  "times_from ts e e' \<longleftrightarrow> anim_times (animations e') \<subseteq> anim_times (animations e) \<union> inside e ` set ts"

lemma times_from_same: "animations e' = animations e \<Longrightarrow> times_from ts e e'"
  by (simp add: times_from_def)

lemma times_masks: "animations (fst (insertPointIntoElementMask w i k p b new e)) = animations e"
    "animations (fst (deletePointsFromElementMask i ids e)) = animations e" "animations (removeMaskFromElement i e) = animations e"
    "animations (toggleMaskInvertedOnElement i e) = animations e"
  by (simp_all add: insertPointIntoElementMask_def deletePointsFromElementMask_def removeMaskFromElement_def toggleMaskInvertedOnElement_def
      with_masks_def Let_def)

lemma times_effects: "addEffectToElement ty new e = Inr e' \<Longrightarrow> animations e' = animations e"
    "animations (removeEffectFromElement i e) = animations e" "animations (toggleEffectOnElement i e) = animations e"
    "animations (updateEffectParamsOnElement i ps e) = animations e" "animations (reorderEffectsOnElement a b e) = animations e"
  by (auto simp: addEffectToElement_def removeEffectFromElement_def toggleEffectOnElement_def updateEffectParamsOnElement_def
      reorderEffectsOnElement_def with_effects_def split: sum.splits)

lemma times_upsert: "upsertKeyframeOnElement w path t v i kid fresh e = Inr e' \<Longrightarrow> times_from [t] e e'"
  using upsertPath_times by (fastforce simp: upsertKeyframeOnElement_def times_from_def bounded_inside split: sum.splits option.splits)

lemma times_retime: "retimeKeyframeOnElement w path kid t e = Inr e' \<Longrightarrow> times_from [t] e e'"
  using retimeElementKeyframe_times by (fastforce simp: retimeKeyframeOnElement_def times_from_def bounded_inside split: sum.splits option.splits)

lemma times_curve: "updateCurveOnElement w path ck kid patch e = Inr e' \<Longrightarrow> times_from [] e e'"
  using updateCurve_times by (fastforce simp: updateCurveOnElement_def times_from_def split: sum.splits option.splits)

lemma times_remove: "removeKeyframeAndPersist w path kid v e = Inr e' \<Longrightarrow> times_from [] e e'"
  using removeElementKeyframe_times [of "animations e" path kid]
  by (auto simp: removeKeyframeAndPersist_def times_from_def Let_def split: sum.splits option.splits)

lemma times_paste: "pasteKeyframesIntoElement w gen n t items e = Inr e' \<Longrightarrow> times_from (map (\<lambda>i. t + ki_timeOffset i) items) e e'"
proof (induction items arbitrary: n e)
  case (Cons item items)
  then obtain e1 where e1: "paste_item w t item (gen n) e = Inr e1" "pasteKeyframesIntoElement w gen (Suc n) t items e1 = Inr e'"
    by (auto split: sum.splits)
  obtain a where a: "e1 = e\<lparr>animations := a\<rparr>" "anim_times a \<subseteq> insert (bounded_time (t + ki_timeOffset item) e) (anim_times (animations e))"
    using paste_item_cases [OF e1(1)] by blast
  have "inside e1 = inside e" by (simp add: a(1) inside_def fun_eq_iff)
  then show ?case using Cons.IH [OF e1(2)] a by (auto simp: times_from_def bounded_inside)
qed (simp add: times_from_def)

lemma times_remove_param: "times_from [] e (removeEffectParamKeyframeOnElement i key kid e)"
  using removeElementKeyframe_times
  by (simp add: removeEffectParamKeyframeOnElement_def removeEffectParamKeyframe_def times_from_def)

lemma times_attribute: "attribute_update w gen n c e = Inr e' \<Longrightarrow> times_from (requested c) e e'"
  by (cases c) (auto simp: times_upsert times_retime times_curve times_remove times_remove_param times_paste
      simp del: pasteKeyframesIntoElement.simps intro: times_from_same times_effects times_masks)

text \<open>A keyframe that is set is there, when the property accepts its value. The binding of an animated property has the
  components of its kind.\<close>

definition bindings_fit :: "element_animations option \<Rightarrow> bool" where
  "bindings_fit a \<longleftrightarrow> (\<forall>path b. getBinding a path = Some b \<longrightarrow> map fst (components b) = getBindingComponentKeys (b_kind b))"

definition accepted :: "wasm_api \<Rightarrow> timeline_element \<Rightarrow> string \<Rightarrow> animation_value \<Rightarrow> bool" where
  "accepted w e path v \<longleftrightarrow> (case resolveAnimationTarget (parseColor_w w) e path of
     Inr (Some target) \<Rightarrow> (case d_coerce target v of Some v' \<Rightarrow> decomposeAnimationValue (parseColor_w w) (d_kind target) v' \<noteq> None | None \<Rightarrow> False)
   | _ \<Rightarrow> False)"

lemma chan_timesI: "(c, Some ch) \<in> set m \<Longrightarrow> t \<in> set (key_times ch) \<Longrightarrow> t \<in> chan_times m"
  by (auto simp: chan_times_def)

lemma toAnimation_times_ge:
  assumes "(p, Some b) \<in> set (bindings x)"
  shows "chan_times (channels x) \<subseteq> anim_times (toAnimation x)"
proof
  fix t
  assume "t \<in> chan_times (channels x)"
  then obtain c ch where ch: "(c, Some ch) \<in> set (channels x)" "t \<in> set (key_times ch)" by (auto simp: chan_times_def)
  then have "hasChannelKeys (Some ch)" by (cases ch) (auto simp: hasChannelKeys_def)
  then have "(c, Some ch) \<in> set (filter (\<lambda>(_, ch). hasChannelKeys ch) (channels x))" using ch(1) by simp
  moreover have "(p, Some b) \<in> set (filter (\<lambda>(_, b). b \<noteq> None) (bindings x))" using assms by simp
  ultimately show "t \<in> anim_times (toAnimation x)"
    using ch(2) by (auto simp: toAnimation_def anim_times_def Let_def filter_empty_conv intro: chan_timesI)
qed

lemma upsertScalar_has: "t \<in> sk_time ` set (sc_keys (upsertScalarChannelKey (Some c) t v i d kid fresh))"
proof -
  define ns where "ns = sc_keys (normalizeScalarChannel c)"
  have upd: "t \<in> sk_time ` set (norm_scalar_keys (ns[j := createScalarKey k t v x y]))" if "j < length ns" for j k x y
    using that set_update_memI [of j ns "createScalarKey k t v x y"] by (force simp: scalar_nf.set_times_norm createScalarKey_def)
  have app: "t \<in> sk_time ` set (norm_scalar_keys (ns @ [createScalarKey k t v x y]))" for k x y
    by (simp add: scalar_nf.set_times_norm createScalarKey_def)
  show ?thesis unfolding upsertScalarChannelKey_def Let_def option.case ns_def [symmetric]
    by (simp add: upd app findIndexD(1) found_time [of sk_time] split: option.split)
qed

lemma upsertDiscrete_has: "t \<in> dk_time ` set (upsertDiscreteChannelKey (Some ks) t v kid fresh)"
proof -
  define ns where "ns = normalizeDiscreteKeys ks"
  have upd: "t \<in> dk_time ` set (normalizeDiscreteKeys (ns[j := createDiscreteKey k t v]))" if "j < length ns" for j k
    using that set_update_memI [of j ns "createDiscreteKey k t v"] by (force simp: discrete_nf.set_times_norm createDiscreteKey_def)
  have app: "t \<in> dk_time ` set (normalizeDiscreteKeys (ns @ [createDiscreteKey k t v]))" for k
    by (simp add: discrete_nf.set_times_norm createDiscreteKey_def)
  show ?thesis unfolding upsertDiscreteChannelKey_def Let_def option.case ns_def [symmetric]
    by (simp add: upd app findIndexD(1) found_time [of dk_time] split: option.split)
qed

lemma update_mem: "(k, v) \<in> set (AList.update k v m)" "c \<noteq> k \<Longrightarrow> (c, x) \<in> set m \<Longrightarrow> (c, x) \<in> set (AList.update k v m)"
  by (induction m) auto

fun is_discrete_value :: "component_value \<Rightarrow> bool" where
  "is_discrete_value (CDiscrete _) = True"
| "is_discrete_value (CNumber _) = False"

lemma decompose_kind:
  assumes "decomposeAnimationValue pc kind v = Some vals"
  shows "list_all (\<lambda>(_, v). is_discrete_value v = (kind = KDiscrete)) vals" "map fst vals = getBindingComponentKeys kind"
  using assms by (cases "(pc, kind, v)" rule: decomposeAnimationValue.cases; auto split: option.splits)+

text \<open>One component: the keyframe is in its channel, or it stays where it was already.\<close>

lemma upsert_component_has:
  assumes "snd target = t" "list_all (\<lambda>(_, v). is_discrete_value v = (kind = KDiscrete)) vals"
    and "map_of vals (fst cmp) \<noteq> None \<or> t \<in> chan_times chs"
  shows "t \<in> chan_times (upsert_component a kind vals target ex df fresh cmp chs)"
proof -
  define tc where "tc = (case getChannelById a (snd cmp) of
      Some ch \<Rightarrow> if is_discrete ch = (kind = KDiscrete) then ch else createEmptyChannelForBindingKind kind
    | None \<Rightarrow> createEmptyChannelForBindingKind kind)"
  have tc: "is_discrete tc = (kind = KDiscrete)" by (auto simp: tc_def createEmptyChannelForBindingKind_def split: option.split)
  show ?thesis
  proof (cases "map_of vals (fst cmp)")
    case (Some v)
    then have v: "is_discrete_value v = (kind = KDiscrete)" using assms(2) by (auto simp: list_all_iff dest: map_of_SomeD)
    have put: "t \<in> chan_times (AList.update k (Some ch) chs)" if "t \<in> set (key_times ch)" for k ch
      using that by (rule chan_timesI [OF update_mem(1)])
    show ?thesis unfolding upsert_component_def Let_def tc_def [symmetric] assms(1) Some
      using tc v by (cases tc; cases v) (auto intro!: put simp: upsertScalar_has upsertDiscrete_has)
  qed (use assms(3) in \<open>simp add: upsert_component_def\<close>)
qed

lemma upsertPath_has:
  assumes "coerce v = Some v'" "decomposeAnimationValue pc kind v' \<noteq> None" "bindings_fit a"
  shows "t \<in> anim_times (upsertPathKeyframe pc a path t v i kid kind d coerce fresh)"
proof -
  obtain vals where vals: "decomposeAnimationValue pc kind v' = Some vals" using assms(2) by blast
  define b where "b = (case getBinding a path of Some b \<Rightarrow> if b_kind b = kind then cloneAnimationBinding b else createAnimationBinding path kind
    | None \<Rightarrow> createAnimationBinding path kind)"
  have keys: "map fst (components b) = getBindingComponentKeys kind"
    using assms(3) by (auto simp: b_def bindings_fit_def createAnimationBinding_def comp_def split: option.split)
  define step where "step ex df = upsert_component a kind vals (getTargetKeyMetadata (getChannel a path) t kid fresh) ex df fresh" for ex df
  have has: "t \<in> chan_times (step ex df x m)" if "map_of vals (fst x) \<noteq> None \<or> t \<in> chan_times m" for ex df x m
    using that unfolding step_def by (intro upsert_component_has [OF target_time decompose_kind(1) [OF vals]])
  have stays: "t \<in> chan_times m \<Longrightarrow> t \<in> chan_times (fold (step ex df) cs m)" for ex df cs m
    by (induction cs arbitrary: m) (simp_all add: has)
  obtain x cs where cs: "components b = x # cs" using keys by (cases "components b"; cases kind) auto
  have "fst x \<in> fst ` set vals" using keys cs decompose_kind(2) [OF vals] by (metis list.set_intros(1) list.set_map list.simps(9))
  then have "map_of vals (fst x) \<noteq> None" by (simp add: map_of_eq_None_iff)
  then have all: "t \<in> chan_times (fold (step ex df) (components b) m)" for ex df m by (simp add: cs stays has)
  show ?thesis
    unfolding upsertPathKeyframe_def assms(1) vals option.case Let_def b_def [symmetric] step_def [symmetric]
    by (rule subsetD [OF toAnimation_times_ge [of path b]]) (simp_all add: update_mem all)
qed

lemma set_times:
  assumes "upsertKeyframeOnElement w path t v i kid fresh e = Inr e'" "accepted w e path v" "bindings_fit (animations e)"
  shows "inside e t \<in> anim_times (animations e')"
  using assms upsertPath_has
  by (fastforce simp: upsertKeyframeOnElement_def accepted_def bounded_inside split: sum.splits option.splits)

text \<open>Changing a curve moves no keyframe.\<close>

lemma updateCurve_keeps:
  assumes "anim_ok a"
  shows "anim_times a \<subseteq> anim_times (updateScalarKeyframeCurve a path ck kid patch)"
proof -
  have set: "anim_times a \<subseteq> anim_times (setBindingComponentChannel a path ck (Some (ScalarChannel c')))"
    if b: "getBinding a path = Some b" "getBindingComponent b ck = Some (x, cid)" "getChannelById a cid = Some (ScalarChannel c)"
      and c': "sk_time ` set (sc_keys c') = sk_time ` set (sc_keys c)" for b x cid c c'
  proof -
    obtain y where y: "a = Some y" using b(1) by (cases a) (simp_all add: getBinding_def)
    have d: "distinct (map fst (channels y))" "\<forall>(c, ch) \<in> set (channels y). hasChannelKeys ch"
      using assms by (auto simp: y anim_ok_def anim_inv_def channels_normal_def)
    have m: "map_of (channels y) cid = Some (Some (ScalarChannel c))"
      using b(3) by (auto simp: y getChannelById_def prop_get_def split: option.splits)
    have keys: "hasChannelKeys (Some (ScalarChannel c'))"
      using d(2) c' map_of_SomeD [OF m] by (force simp: hasChannelKeys_def)
    have "t \<in> chan_times (AList.update cid (Some (normalizeChannel (ScalarChannel c'))) (channels y))" if "t \<in> chan_times (channels y)" for t
    proof -
      from that obtain k ch where k: "(k, Some ch) \<in> set (channels y)" "t \<in> set (key_times ch)" by (auto simp: chan_times_def)
      show ?thesis
      proof (cases "k = cid")
        case True
        then have "ch = ScalarChannel c" using m map_of_is_SomeI [OF d(1) k(1)] by simp
        then have "t \<in> set (key_times (normalizeChannel (ScalarChannel c')))" using k(2) c' by (simp add: key_times_normalize)
        then show ?thesis by (rule chan_timesI [OF update_mem(1)])
      qed (use k in \<open>auto intro: chan_timesI update_mem(2)\<close>)
    qed
    moreover have "(path, Some b) \<in> set (bindings y)"
      using b(1) by (auto simp: y getBinding_def prop_get_def split: option.splits dest: map_of_SomeD)
    ultimately show ?thesis
      using toAnimation_times_ge [of path b "(cloneAnimationsState a)\<lparr>channels := AList.update cid (Some (normalizeChannel (ScalarChannel c'))) (channels y)\<rparr>"] keys
      by (auto simp: setBindingComponentChannel_def b [unfolded y] y cloneAnimationsState_def anim_times_def [of "Some y"] dest: subsetD)
  qed
  have p: "sk_time ` set (sc_keys \<lparr>sc_keys = (sc_keys c)[i := patch_key patch (sc_keys c ! i)], extrapolation = x\<rparr>) = sk_time ` set (sc_keys c)"
    if "i < length (sc_keys c)" for c i x
  proof -
    have "map sk_time ((sc_keys c)[i := patch_key patch (sc_keys c ! i)]) = map sk_time (sc_keys c)"
      using that by (simp add: map_update patch_key_def list_update_same_conv)
    then show ?thesis unfolding scalar_channel.select_convs by (metis list.set_map)
  qed
  show ?thesis unfolding updateScalarKeyframeCurve_def
    by (auto split: option.splits channel.splits dest!: findIndexD(1) intro: subsetD [OF set [OF _ _ _ p]])
qed

lemma curve_patches_keep: "anim_ok a \<Longrightarrow> anim_times a \<subseteq> anim_times (apply_curve_patches path kid ps a)"
proof (induction ps arbitrary: a)
  case (Cons p ps)
  let ?u = "updateScalarKeyframeCurve a path (fst p) kid (snd p)"
  let ?a = "case ?u of None \<Rightarrow> a | Some x \<Rightarrow> Some x"
  have "anim_ok ?a \<and> anim_times a \<subseteq> anim_times ?a"
    using Cons.prems updateScalarKeyframeCurve_ok [of a path "fst p" kid "snd p"] updateCurve_keeps [of a path "fst p" kid "snd p"]
    by (auto split: option.splits)
  then show ?case using Cons.IH [of ?a] by (auto simp: apply_curve_patches_def case_prod_beta)
qed (simp add: apply_curve_patches_def)

lemma pasted_times:
  assumes "paste_item w t item new e = Inr e'" "accepted w e (ki_path item) (ki_value item)" "bindings_fit (animations e)" "anim_ok (animations e)"
  shows "inside e (t + ki_timeOffset item) \<in> anim_times (animations e')"
proof -
  obtain target v' where target: "resolveAnimationTarget (parseColor_w w) e (ki_path item) = Inr (Some target)"
      "d_coerce target (ki_value item) = Some v'" "decomposeAnimationValue (parseColor_w w) (d_kind target) v' \<noteq> None"
    using assms(2) by (auto simp: accepted_def split: sum.splits option.splits)
  define n where "n = upsertPathKeyframe (parseColor_w w) (animations e) (ki_path item) (bounded_time (t + ki_timeOffset item) e) (ki_value item)
      (Some (ki_interpolation item)) (Some new) (d_kind target) (d_defaultInterpolation target) (d_coerce target) new"
  have n: "inside e (t + ki_timeOffset item) \<in> anim_times n" "anim_ok n"
    using upsertPath_has [of "d_coerce target", OF target(2,3) assms(3)] upsertPathKeyframe_ok [OF assms(4)] by (simp_all add: n_def bounded_inside)
  have "animations e' = n \<or> (\<exists>k. animations e' = apply_curve_patches (ki_path item) k (ki_curvePatches item) n)"
    using assms(1) by (auto simp: paste_item_def target Let_def n_def split: option.splits)
  then show ?thesis using n curve_patches_keep [OF n(2)] by (metis subsetD)
qed

section \<open>The commands on the timeline\<close>

lemma first_error_None: "first_error rs = None \<Longrightarrow> x \<in> set rs \<Longrightarrow> \<exists>y. x = Inr y"
  by (induction rs rule: first_error.induct) auto

lemma update_by_map: "update_by key k f xs = map (\<lambda>x. if key x = k then f x else x) xs"
  by (simp add: update_by_def)

lemma core_update_wf:
  assumes "tracks_wf ts" "\<And>e. same_core e (f e)"
  shows "tracks_wf (updateElementInSceneTracks ts tid eid f P)"
proof -
  note core = same_core_simps [OF assms(2)]
  have same: "no_overlap (elements (updateElementInTrack tr eid f P))" if "no_overlap (elements tr)" for tr
    using no_overlap_map [OF that, of "\<lambda>e. if elementId e \<noteq> eid then e else if \<not> P e then e else f e"]
    by (simp add: updateElementInTrack_def elementEnd_def core)
  have typed: "track_typed (updateElementInTrack tr eid f P)" if "track_typed tr" for tr
    using that by (auto simp: track_typed_def updateElementInTrack_def list_all_iff core)
  have t: "\<And>tr. tr \<in> set (orderedTracks ts) \<Longrightarrow> track_typed tr \<and> no_overlap (elements tr)"
    using assms(1) by (auto simp: tracks_wf_def tracks_typed_def tracks_no_overlap_def list_all_iff)
  show ?thesis using assms(1) t unfolding tracks_wf_def updateElement_via_track
    by (auto intro!: typed_update tracks_ids_update overlap_update simp: same typed)
qed


section \<open>The value under the playhead\<close>

lemma prop_get_filter:
  "distinct (map fst m) \<Longrightarrow> (\<And>v. Q v \<Longrightarrow> v \<noteq> None) \<Longrightarrow> prop_get (filter (\<lambda>(_, v). Q v) m) k = (if Q (prop_get m k) then prop_get m k else None)"
proof (induction m)
  case (Cons a m)
  obtain j v where a: "a = (j, v)" by fastforce
  show ?case
  proof (cases "j = k")
    case True
    then have "map_of m k = None" using Cons.prems(1) by (simp add: a map_of_eq_None_iff)
    then have "map_of (filter (\<lambda>(_, v). Q v) m) k = None" by (auto simp: map_of_eq_None_iff)
    then show ?thesis using True Cons.prems by (auto simp: a prop_get_def split: option.splits)
  next
    case False
    then show ?thesis using Cons by (simp add: a prop_get_def)
  qed
qed (auto simp: prop_get_def)

lemma toAnimation_binding:
  assumes "distinct (map fst bs)" "distinct (map fst chs)" "prop_get bs p = Some b" "hasChannelKeys (prop_get chs c)"
  shows "getBinding (toAnimation \<lparr>bindings = bs, channels = chs\<rparr>) p = Some b"
    "getChannelById (toAnimation \<lparr>bindings = bs, channels = chs\<rparr>) c = prop_get chs c"
proof -
  have b: "prop_get (filter (\<lambda>(_, b). b \<noteq> None) bs) p = Some b"
    using assms(3) by (subst prop_get_filter [OF assms(1), of "\<lambda>b. b \<noteq> None"]) simp_all
  have c: "prop_get (filter (\<lambda>(_, ch). hasChannelKeys ch) chs) c = prop_get chs c"
    using assms(4) by (subst prop_get_filter [OF assms(2)]) (auto simp: hasChannelKeys_def split: option.splits)
  have "filter (\<lambda>(_, b). b \<noteq> None) bs \<noteq> []" using b by (metis map_of.simps(1) option.case(1) option.distinct(1) prop_get_def)
  moreover have "filter (\<lambda>(_, ch). hasChannelKeys ch) chs \<noteq> []"
    using c assms(4) by (metis hasChannelKeys_def map_of.simps(1) option.case(1) prop_get_def)
  ultimately have "toAnimation \<lparr>bindings = bs, channels = chs\<rparr> = Some \<lparr>bindings = filter (\<lambda>(_, b). b \<noteq> None) bs,
      channels = filter (\<lambda>(_, ch). hasChannelKeys ch) chs\<rparr>" by (simp add: toAnimation_def)
  then show "getBinding (toAnimation \<lparr>bindings = bs, channels = chs\<rparr>) p = Some b"
    "getChannelById (toAnimation \<lparr>bindings = bs, channels = chs\<rparr>) c = prop_get chs c"
    using b c by (simp_all add: getBinding_def getChannelById_def del: not_None_eq)
qed

lemma toAnimation_deleted: "getBinding (toAnimation \<lparr>bindings = AList.delete p bs, channels = chs\<rparr>) p = None"
proof -
  have "p \<notin> fst ` set (filter (\<lambda>(_, b). b \<noteq> None) (AList.delete p bs))" by (auto dest: in_set_delete simp: AList.delete_eq)
  then have "map_of (filter (\<lambda>(_, b). b \<noteq> None) (AList.delete p bs)) p = None" by (simp add: map_of_eq_None_iff)
  then show ?thesis by (simp add: toAnimation_def getBinding_def prop_get_def Let_def)
qed

lemma removed_without_binding:
  assumes "anim_ok a" "\<not> hasKeyframesForPath (removeElementKeyframe a path kid) path"
  shows "getBinding (removeElementKeyframe a path kid) path = None"
proof (cases "getBinding a path")
  case None
  then show ?thesis by (simp add: removeElementKeyframe_def)
next
  case (Some b)
  define chs where "chs = fold (\<lambda>(_, cid) m. AList.update cid (removeKeyframe (prop_get m cid) kid) m) (components b) (channels (cloneAnimationsState a))"
  note d = anim_okD [OF assms(1)]
  have "channels_normal chs" unfolding chs_def
    using d(2) by (rule channels_normal_fold) (auto intro!: wf_intros dest: removeKeyframe_normal)
  then have cd: "distinct (map fst chs)" by (simp add: channels_normal_def)
  have b: "prop_get (bindings (cloneAnimationsState a)) path = Some b"
    using Some by (simp add: getBinding_def cloneAnimationsState_def split: option.splits)
  note unfolded = removeElementKeyframe_def Some Let_def option.case chs_def [symmetric]
  show ?thesis
  proof (cases "list_ex (\<lambda>(_, cid). hasChannelKeys (prop_get chs cid)) (components b)")
    case True
    then obtain k c where kc: "(k, c) \<in> set (components b)" "hasChannelKeys (prop_get chs c)" by (auto simp: list_ex_iff)
    have "hasKeyframesForPath (toAnimation \<lparr>bindings = bindings (cloneAnimationsState a), channels = chs\<rparr>) path"
      using kc toAnimation_binding [OF d(1) cd b kc(2)] by (auto simp: hasKeyframesForPath_def list_ex_iff intro!: bexI [of _ "(k, c)"])
    then show ?thesis using assms(2) True unfolding unfolded by simp
  next
    case False
    then show ?thesis unfolding unfolded by (simp add: toAnimation_deleted)
  qed
qed

text \<open>C24: When the last keyframe of a property is removed, the element keeps the value it showed under the playhead: that value,
  coerced to what the property allows, becomes the base value and is what the property resolves to at every time.\<close>
theorem removed_keyframe_value_stays:
  assumes "anim_ok (animations e)" "resolveAnimationTarget (parseColor_w w) e path = Inr (Some t)" "d_coerce t v = Some v'"
    and "removeKeyframeAndPersist w path kid (Some v) e = Inr e'" "\<not> hasKeyframesForPath (animations e') path"
  shows "\<exists>t'. resolveAnimationTarget (parseColor_w w) e' path = Inr (Some t') \<and> d_base t' = Some v' \<and>
    (\<forall>time. resolveAnimationPathValueAtTime (parseColor_w w) (formatColor_w w) (animations e') path time v' = v')"
proof -
  define a where "a = removeElementKeyframe (animations e) path kid"
  obtain t1 where t1: "resolveAnimationTarget (parseColor_w w) (d_setBase t v) path = Inr (Some t1)" "d_base t1 = Some v'"
    using target_writes_base [OF assms(2,3)] by (auto simp: writes_base_def)
  have empty: "\<not> hasKeyframesForPath a path" using assms(4,5) by (auto simp: removeKeyframeAndPersist_def assms(2) Let_def a_def)
  then have e': "e' = (d_setBase t v)\<lparr>animations := a\<rparr>" using assms(4) by (simp add: removeKeyframeAndPersist_def assms(2) Let_def a_def)
  obtain t2 where "resolveAnimationTarget (parseColor_w w) e' path = Inr (Some t2)" "target_view t2 = target_view t1"
    using target_without_keyframes [OF t1(1)] e' by blast
  moreover have "getBinding a path = None" using removed_without_binding [OF assms(1)] empty by (simp add: a_def)
  ultimately show ?thesis using t1(2) e' by (auto simp: target_view_def resolveAnimationPathValueAtTime_def)
qed

section \<open>Examples\<close>

definition demo_clips :: scene_tracks where
  "demo_clips = \<lparr>overlay = [], main = (buildEmptyTrack ''m'' TVideo None)\<lparr>elements := [demo_target_clip]\<rparr>, audio = []\<rparr>"

lemma demo_clips_wf: "tracks_wf demo_clips"
  by (simp add: tracks_wf_def tracks_typed_def tracks_ids_ok_def tracks_no_overlap_def track_typed_def no_overlap_def demo_clips_def
      orderedTracks_def demo_target_clip_def canElementGoOnTrack_def)


definition demo_fade_channel :: channel where
  "demo_fade_channel = ScalarChannel \<lparr>sc_keys = [\<lparr>sk_id = ''k'', sk_time = 10, sk_value = 1 / 4,
     leftHandle = None, rightHandle = None, segmentToNext = SLinear, tangentMode = TFlat\<rparr>], extrapolation = None\<rparr>"

definition demo_fade :: "element_animations option" where
  "demo_fade = Some \<lparr>bindings = [(''opacity'', Some (createAnimationBinding ''opacity'' KNumber))], channels = [(''opacity:value'', Some demo_fade_channel)]\<rparr>"

lemma demo_fade_channel_normal: "normalizeChannel demo_fade_channel = demo_fade_channel" "hasChannelKeys (Some demo_fade_channel)"
  by code_simp+

lemma demo_fade_ok: "anim_ok demo_fade"
  by (simp add: demo_fade_def anim_ok_def anim_inv_def channels_normal_def demo_fade_channel_normal)

lemma demo_fade_removed: "removeElementKeyframe demo_fade ''opacity'' ''k'' = None"
  by code_simp

theorem removed_keyframe_value_stays_witness:
  "\<exists>e' t'. removeKeyframeAndPersist demo_wasm ''opacity'' ''k'' (Some (VNumber (127 / 100))) (demo_target_clip\<lparr>animations := demo_fade\<rparr>) = Inr e' \<and>
     resolveAnimationTarget (parseColor_w demo_wasm) e' ''opacity'' = Inr (Some t') \<and> d_base t' = Some (VNumber 1)"
proof -
  let ?e = "demo_target_clip\<lparr>animations := demo_fade\<rparr>"
  obtain t0 where t0: "resolveAnimationTarget (parseColor_w demo_wasm) demo_target_clip ''opacity'' = Inr (Some t0)"
      "d_coerce t0 = coerceNumberValue (spec (Some 0) (Some 1) (1 / 100))"
    by (rule demo_target)
  obtain t where t: "resolveAnimationTarget (parseColor_w demo_wasm) ?e ''opacity'' = Inr (Some t)" "d_coerce t = d_coerce t0"
    using target_without_keyframes [OF t0(1), of demo_fade] by (auto simp: target_view_def)
  have v: "d_coerce t (VNumber (127 / 100)) = Some (VNumber 1)" by (simp add: t(2) t0(2) demo_opacity_snap)
  have empty: "\<not> hasKeyframesForPath None p" for p by (simp add: hasKeyframesForPath_def getBinding_def)
  obtain e' where e': "removeKeyframeAndPersist demo_wasm ''opacity'' ''k'' (Some (VNumber (127 / 100))) ?e = Inr e'" "animations e' = None"
    by (auto simp: removeKeyframeAndPersist_def t(1) demo_fade_removed empty)
  have "anim_ok (animations ?e)" "\<not> hasKeyframesForPath (animations e') ''opacity''" by (simp_all add: demo_fade_ok e'(2) empty)
  from removed_keyframe_value_stays [OF this(1) t(1) v e'(1) this(2)] show ?thesis using e'(1) by blast
qed

end
