(* ===== verification/Clipboard.thy ===== *)
theory Clipboard
  imports Editor Attribute_Proofs
begin

text \<open>
  The clipboard of the editor: the handlers of elements and keyframes (\<open>clipboard/handlers\<close>) and the manager that keeps one
  entry and pastes it through the command history (\<open>core/managers/clipboard-manager.ts\<close>).
\<close>

section \<open>Handlers\<close>

datatype clipboard_entry =
  ElementsClipboardEntry "clipboard_item list"
| KeyframesClipboardEntry element_ref "keyframe_item list"

text \<open>What a handler may read of the editor: the tracks of the active scene, if there is one, and the selection.\<close>

definition elements_copy :: "editor \<Rightarrow> clipboard_item list option" where
  "elements_copy e = (case active e of None \<Rightarrow> None | Some s \<Rightarrow> copyElements (selectedElements (selection e)) (tracks s))"

definition elements_paste :: "clipboard_item list \<Rightarrow> editor \<Rightarrow> media_time \<Rightarrow> command option" where
  "elements_paste items e t = (if items = [] then None else Some (TimelineCommand (PasteCommand t items) None))"

definition keyframes_copy :: "color_printer \<Rightarrow> locale_order \<Rightarrow> editor \<Rightarrow> (element_ref \<times> keyframe_item list) option" where
  "keyframes_copy formatColor cmp e =
     (case active e of None \<Rightarrow> None | Some s \<Rightarrow> copyKeyframes formatColor cmp (selectedKeyframes (selection e)) (tracks s))"

definition keyframes_paste :: "element_ref \<times> keyframe_item list \<Rightarrow> editor \<Rightarrow> media_time \<Rightarrow> command option" where
  "keyframes_paste entry e t =
     (case selectedElements (selection e) of
        [] \<Rightarrow> None
      | target # _ \<Rightarrow> if snd entry = [] then None
          else Some (TimelineCommand (AttributeCommand target (PasteKeyframesCommand t (snd entry))) None))"

definition copyClipboardEntry :: "color_printer \<Rightarrow> locale_order \<Rightarrow> editor \<Rightarrow> clipboard_entry option" where
  "copyClipboardEntry formatColor cmp e =
     (if selectedKeyframes (selection e) \<noteq> [] then map_option (\<lambda>(r, is). KeyframesClipboardEntry r is) (keyframes_copy formatColor cmp e)
      else if selectedElements (selection e) \<noteq> [] then map_option ElementsClipboardEntry (elements_copy e)
      else None)"

fun buildPasteClipboardCommand :: "clipboard_entry \<Rightarrow> editor \<Rightarrow> media_time \<Rightarrow> command option" where
  "buildPasteClipboardCommand (ElementsClipboardEntry items) e t = elements_paste items e t"
| "buildPasteClipboardCommand (KeyframesClipboardEntry r items) e t = keyframes_paste (r, items) e t"

section \<open>The manager\<close>

definition clipboard_copy :: "color_printer \<Rightarrow> locale_order \<Rightarrow> editor \<Rightarrow> clipboard_entry option \<Rightarrow> bool \<times> clipboard_entry option" where
  "clipboard_copy formatColor cmp e entry =
     (case copyClipboardEntry formatColor cmp e of None \<Rightarrow> (False, entry) | Some en \<Rightarrow> (True, Some en))"

text \<open>\<open>now\<close> is the time of the playhead.\<close>

definition clipboard_paste ::
    "wasm_api \<Rightarrow> (nat \<Rightarrow> uuid) \<Rightarrow> clipboard_entry option \<Rightarrow> media_time option \<Rightarrow> media_time \<Rightarrow> manager \<Rightarrow> (js_error + bool) \<times> manager" where
  "clipboard_paste w gen entry t now m =
     (case entry of
        None \<Rightarrow> (Inr False, m)
      | Some en \<Rightarrow>
          (case buildPasteClipboardCommand en (ed m) (case t of Some x \<Rightarrow> x | None \<Rightarrow> now) of
             None \<Rightarrow> (Inr False, m)
           | Some c \<Rightarrow> (case manager_execute w gen c m of
               (Some err, m') \<Rightarrow> (Inl err, m')
             | (None, m') \<Rightarrow> (Inr True, m'))))"

section \<open>The interface of a handler\<close>

text \<open>A handler copies only what it says it can copy, pastes whatever it copied wherever it accepts the selection, and pastes by
  a command that the history can take back.\<close>

locale clipboard_handler =
  fixes canCopy :: "editor \<Rightarrow> bool"
    and copy :: "editor \<Rightarrow> 'e option"
    and paste :: "'e \<Rightarrow> editor \<Rightarrow> media_time \<Rightarrow> command option"
    and accepts :: "editor \<Rightarrow> bool"
  assumes copies: "copy e = Some en \<Longrightarrow> canCopy e"
    and pastes: "copy e = Some en \<Longrightarrow> (paste en e' t \<noteq> None) = accepts e'"
    and by_command: "paste en e t = Some c \<Longrightarrow> tracks_only c"
begin

lemma paste_undone:
  assumes "editor_ok (ed m)" "paste en (ed m) t = Some c" "manager_execute w gen c m = (None, m')"
  shows "scenes_of (ed (manager_undo m')) = scenes_of (ed m) \<and> selection (ed (manager_undo m')) = selection (ed m)
    \<and> history (manager_undo m') = history m"
proof -
  obtain entry where h: "history m' = entry # history m"
    and r: "editor_ok (ed m')" "same_frame (ed m) (ed m')" "restores (ed m) (he_command entry)" "tracks_only (he_command entry)"
      "he_previousSelection entry = selection (ed m)" "he_selectionOverride entry = None \<longrightarrow> selection (ed m') = selection (ed m)"
    using manager_execute_restores [OF assms(1) by_command [OF assms(2)] assms(3)] by metis
  have "scenes_of (undo_command (he_command entry) (ed m')) = scenes_of (ed m)" using r by (auto simp: restores_def)
  moreover have "selection (undo_entry entry (ed m')) = selection (ed m)"
    using r undo_selection [of "he_command entry" "ed m'"] by (simp add: undo_entry_def Let_def restoreSnapshot_def)
  ultimately show ?thesis by (simp add: manager_undo_entry [OF h] h undo_entry_def Let_def scenes_of_def)
qed

end

interpretation elements_handler: clipboard_handler "\<lambda>e. selectedElements (selection e) \<noteq> []" elements_copy elements_paste "\<lambda>_. True"
  by unfold_locales (auto simp: elements_copy_def elements_paste_def copyElements_def Let_def split: option.splits if_splits)

lemma copied_items: "copyKeyframes f cmp ks ts = Some (src, items) \<Longrightarrow> ks \<noteq> [] \<and> items \<noteq> []"
  by (auto simp: copyKeyframes_def resolveSingleSourceElement_def Let_def split: option.splits if_splits list.splits)

interpretation keyframes_handler: clipboard_handler "\<lambda>e. selectedKeyframes (selection e) \<noteq> []" "keyframes_copy formatColor cmp"
    keyframes_paste "\<lambda>e. selectedElements (selection e) \<noteq> []"
  using copied_items by unfold_locales (fastforce simp: keyframes_copy_def keyframes_paste_def split: option.splits if_splits list.splits)+

section \<open>Properties\<close>

text \<open>C31: Copying and pasting: what was copied can always be pasted, whatever is selected by then, except that keyframes need a
  selected element to go to; a paste that succeeds is one step of the history, whose undo gives back the scenes, the selection
  and the history.\<close>
theorem paste_of_copy_undone:
  assumes "clipboard_copy formatColor cmp e entry = (True, entry')" "editor_ok (ed m)"
    and "clipboard_paste w gen entry' t now m = (Inr b, m')"
  shows "b = ((\<exists>items. entry' = Some (ElementsClipboardEntry items)) \<or> selectedElements (selection (ed m)) \<noteq> [])
    \<and> (b \<longrightarrow> scenes_of (ed (manager_undo m')) = scenes_of (ed m) \<and> selection (ed (manager_undo m')) = selection (ed m)
      \<and> history (manager_undo m') = history m)
    \<and> (\<not> b \<longrightarrow> m' = m)"
proof -
  obtain en where en: "copyClipboardEntry formatColor cmp e = Some en" "entry' = Some en"
    using assms(1) by (auto simp: clipboard_copy_def split: option.splits)
  let ?t = "case t of Some x \<Rightarrow> x | None \<Rightarrow> now"
  have can: "(buildPasteClipboardCommand en (ed m) ?t \<noteq> None)
      = ((\<exists>items. en = ElementsClipboardEntry items) \<or> selectedElements (selection (ed m)) \<noteq> [])"
    using en(1) elements_handler.pastes keyframes_handler.pastes [of formatColor cmp]
    by (fastforce simp: copyClipboardEntry_def split: if_splits)
  show ?thesis
  proof (cases "buildPasteClipboardCommand en (ed m) ?t")
    case None
    then show ?thesis using assms(3) can en(2) by (auto simp: clipboard_paste_def)
  next
    case (Some c)
    then have ex: "b" "manager_execute w gen c m = (None, m')"
      using assms(3) by (auto simp: clipboard_paste_def en(2) split: prod.splits option.splits)
    have "scenes_of (ed (manager_undo m')) = scenes_of (ed m) \<and> selection (ed (manager_undo m')) = selection (ed m)
        \<and> history (manager_undo m') = history m"
      using elements_handler.paste_undone [OF assms(2) _ ex(2)] keyframes_handler.paste_undone [OF assms(2) _ ex(2)] Some
      by (cases en) simp_all
    then show ?thesis using can ex(1) Some by (simp add: en(2))
  qed
qed

definition demo_selected :: manager where
  "demo_selected = (demo_manager False)\<lparr>ed := (ed (demo_manager False))\<lparr>selection :=
     empty_selection\<lparr>selectedElements := [\<lparr>ref_trackId = ''m'', ref_elementId = ''v''\<rparr>]\<rparr>\<rparr>\<rparr>"

theorem paste_of_copy_undone_witness:
  "\<forall>w. active (ed (manager_undo (snd (clipboard_paste w demo_supply (snd (clipboard_copy (\<lambda>_. []) (\<lambda>_ _. 0) (ed demo_selected) None)) None 100
     (demo_manager False))))) = Some demo_scene"
proof
  fix w
  let ?en = "snd (clipboard_copy (\<lambda>_. []) (\<lambda>_ _. 0) (ed demo_selected) None)"
  let ?r = "clipboard_paste w demo_supply ?en None 100 (demo_manager False)"
  have f: "fst ?r = Inr True" by code_simp
  have c: "fst (clipboard_copy (\<lambda>_. []) (\<lambda>_ _. 0) (ed demo_selected) None) = True" by code_simp
  have copied: "clipboard_copy (\<lambda>_. []) (\<lambda>_ _. 0) (ed demo_selected) None = (True, ?en)" using c by (simp add: prod_eq_iff)
  have pasted: "?r = (Inr True, snd ?r)" using f by (simp add: prod_eq_iff)
  have "scenes_of (ed (manager_undo (snd ?r))) = scenes_of (ed (demo_manager False))"
    using paste_of_copy_undone [OF copied demo_manager_ok pasted] by simp
  then show "active (ed (manager_undo (snd ?r))) = Some demo_scene"
    by (simp add: scenes_of_def demo_manager_def)
qed

section \<open>Where a pasted keyframe lands\<close>

text \<open>What looking up an element gives after it was updated.\<close>

lemma find_ref_update:
  assumes "tracks_wf ts" "find_ref ts r = Some (tr, e)" "P e" "\<And>x. elementId (f x) = elementId x"
  shows "\<exists>tr'. find_ref (updateElementInSceneTracks ts (ref_trackId r) (ref_elementId r) f P) r = Some (tr', f e)"
proof -
  let ?g = "\<lambda>tr. updateElementInTrack tr (ref_elementId r) f P"
  have ids: "tracks_ids_ok ts" using assms(1) by (simp add: tracks_wf_def)
  have g: "\<forall>tr. trackId (?g tr) = trackId tr" by (simp add: updateElementInTrack_def)
  have l: "lookup_by trackId (ref_trackId r) (orderedTracks ts) = Some tr" "find (\<lambda>e. elementId e = ref_elementId r) (elements tr) = Some e"
    using assms(2) by (auto simp: find_ref_def findTrack_lookup [OF ids] split: option.splits)
  have "find (\<lambda>e. elementId e = k) (map (\<lambda>x. if elementId x \<noteq> k then x else if \<not> P x then x else f x) xs) = Some (f e)"
    if "find (\<lambda>e. elementId e = k) xs = Some e" for k xs
    using that by (induction xs) (auto simp: assms(3,4) split: if_splits)
  then have "find (\<lambda>e. elementId e = ref_elementId r) (elements (?g tr)) = Some (f e)"
    using l(2) by (simp add: updateElementInTrack_def)
  then show ?thesis
    using track_coll.lookup_update_same [of ?g "ref_trackId r" "orderedTracks ts"] l(1) g
    by (simp add: find_ref_def updateElement_via_track findTrack_lookup [OF tracks_ids_update [OF ids g]] orderedTracks_update [OF ids])
qed

text \<open>C40: Pasting a keyframe at the playhead: keyframe times are relative to the start of their element, but the command the
  clipboard builds carries the time on the timeline. So on a clip that does not begin at zero, with the playhead over it, the
  pasted keyframe is not put under the playhead but later, by the start of the clip or at its end.\<close>
theorem pasted_keyframe_misses_playhead:
  assumes "active edt = Some s" "tracks_wf (tracks s)" "selectedElements (selection edt) = target # others"
    and "find_ref (tracks s) target = Some (tr, e)" "0 < startTime e" "startTime e \<le> playhead" "playhead < elementEnd e"
    and "anim_ok (animations e)" "bindings_fit (animations e)" "accepted w e (ki_path item) (ki_value item)" "ki_timeOffset item = 0"
    and "playhead - startTime e \<notin> anim_times (animations e)"
    and "buildPasteClipboardCommand (KeyframesClipboardEntry src [item]) edt playhead = Some c" "execute w gen c edt = (Inr sel, c', edt')"
  shows "\<exists>s' tr' e'. active edt' = Some s' \<and> find_ref (tracks s') target = Some (tr', e') \<and> startTime e' = startTime e \<and> duration e' = duration e
    \<and> playhead - startTime e \<notin> anim_times (animations e') \<and> min playhead (duration e) \<in> anim_times (animations e')"
proof -
  have c: "c = TimelineCommand (AttributeCommand target (PasteKeyframesCommand playhead [item])) None"
    using assms(13) by (simp add: keyframes_paste_def assms(3))
  let ?a = "PasteKeyframesCommand playhead [item]"
  let ?f = "attribute_update w gen (id_counter edt) ?a"
  let ?u = "\<lambda>e. case ?f e of Inl _ \<Rightarrow> e | Inr e' \<Rightarrow> e'"
  have ran: "run_timeline w gen as ps (id_counter edt) (AttributeCommand target ?a) (tracks s)
      = (case first_error (map ?f (reached (tracks s) target (applies_to ?a))) of Some err \<Rightarrow> Inl err
         | None \<Rightarrow> Inr (updated (updateElementInSceneTracks (tracks s) (ref_trackId target) (ref_elementId target) ?u (applies_to ?a)) None),
         id_counter edt + 1)" for as ps
    by (simp add: run_timeline_def run_attribute_def Let_def del: attribute_update.simps applies_to.simps split: option.split)
  have run: "first_error (map ?f (reached (tracks s) target (applies_to ?a))) = None"
    using assms(14) by (cases "first_error (map ?f (reached (tracks s) target (applies_to ?a)))")
      (simp_all add: c execute_timeline_def assms(1) Let_def ran del: attribute_update.simps applies_to.simps)
  have edt': "active edt' = Some (s\<lparr>tracks := updateElementInSceneTracks (tracks s) (ref_trackId target) (ref_elementId target) ?u (applies_to ?a)\<rparr>)"
    using assms(14) by (auto simp: c execute_timeline_def assms(1) Let_def ran run updateTracks_active
        simp del: attribute_update.simps applies_to.simps)
  have core: "elementId (?u x) = elementId x" "startTime (?u x) = startTime x" "duration (?u x) = duration x" for x
    using good_attribute [of w gen "id_counter edt" ?a] same_core_simps
    by (auto simp: good_update_def simp del: attribute_update.simps split: sum.split)
  have e: "e \<in> set (reached (tracks s) target (applies_to ?a))"
    using assms(4) by (auto simp: find_ref_def reached_def find_Some_iff split: option.splits)
  then obtain e' where e': "?f e = Inr e'" using first_error_None [OF run] by fastforce
  then have paste: "paste_item w playhead item (gen (id_counter edt)) e = Inr e'" by (auto split: sum.splits)
  obtain a where a: "e' = e\<lparr>animations := a\<rparr>" "anim_times a \<subseteq> insert (inside e playhead) (anim_times (animations e))"
    using paste_item_cases [OF paste] by (auto simp: bounded_inside assms(11))
  have "inside e playhead = min playhead (duration e)" "playhead - startTime e \<noteq> min playhead (duration e)"
    using assms(5-7) by (auto simp: inside_def elementEnd_def)
  moreover have "inside e playhead \<in> anim_times (animations e')"
    using pasted_times [OF paste assms(10,9,8)] by (simp add: assms(11))
  ultimately have "playhead - startTime e \<notin> anim_times (animations e')" "min playhead (duration e) \<in> anim_times (animations e')"
    using a assms(12) by auto
  moreover obtain tr' where "find_ref (updateElementInSceneTracks (tracks s) (ref_trackId target) (ref_elementId target) ?u (applies_to ?a)) target = Some (tr', ?u e)"
    using find_ref_update [OF assms(2,4) _ core(1), of "applies_to ?a"] by auto
  moreover have "?u e = e'" using e' by simp
  ultimately show ?thesis using core(2,3) [of e] edt' by (intro exI [of _ "s\<lparr>tracks := updateElementInSceneTracks (tracks s) (ref_trackId target) (ref_elementId target) ?u (applies_to ?a)\<rparr>"] exI [of _ tr'] exI [of _ e']) simp
qed

definition demo_over_clip :: editor where
  "demo_over_clip = (ed demo_selected)\<lparr>active := Some (demo_scene\<lparr>tracks := demo_clips\<rparr>),
     selection := empty_selection\<lparr>selectedElements := [\<lparr>ref_trackId = ''m'', ref_elementId = ''c''\<rparr>]\<rparr>\<rparr>"

definition demo_key_item :: keyframe_item where
  "demo_key_item = \<lparr>ki_path = ''opacity'', ki_timeOffset = 0, ki_value = VNumber (1 / 2), ki_interpolation = ILinear, ki_curvePatches = []\<rparr>"

theorem pasted_keyframe_misses_playhead_witness:
  "\<exists>c sel c' edt' s' tr' e'. buildPasteClipboardCommand (KeyframesClipboardEntry \<lparr>ref_trackId = ''m'', ref_elementId = ''c''\<rparr> [demo_key_item])
       demo_over_clip 120 = Some c
     \<and> execute demo_wasm demo_supply c demo_over_clip = (Inr sel, c', edt') \<and> active edt' = Some s'
     \<and> find_ref (tracks s') \<lparr>ref_trackId = ''m'', ref_elementId = ''c''\<rparr> = Some (tr', e') \<and> startTime e' = 50
     \<and> 70 \<notin> anim_times (animations e') \<and> 100 \<in> anim_times (animations e')"
proof -
  let ?r = "\<lparr>ref_trackId = ''m'', ref_elementId = ''c''\<rparr>"
  let ?a = "PasteKeyframesCommand 120 [demo_key_item]"
  let ?c = "TimelineCommand (AttributeCommand ?r ?a) None"
  have sc: "active demo_over_clip = Some (demo_scene\<lparr>tracks := demo_clips\<rparr>)" "selectedElements (selection demo_over_clip) = [?r]"
    by (simp_all add: demo_over_clip_def)
  have b: "buildPasteClipboardCommand (KeyframesClipboardEntry ?r [demo_key_item]) demo_over_clip 120 = Some ?c"
    by (simp add: keyframes_paste_def sc)
  obtain t where t: "resolveAnimationTarget (parseColor_w demo_wasm) demo_target_clip ''opacity'' = Inr (Some t)"
      "d_coerce t = coerceNumberValue (spec (Some 0) (Some 1) (1 / 100))" "d_kind t = KNumber" by (rule demo_target)
  have es: "reached demo_clips ?r (applies_to ?a) = [demo_target_clip]"
    by (simp add: reached_def findTrackInSceneTracks_def demo_clips_def orderedTracks_def demo_target_clip_def)
  have "\<exists>x. paste_item demo_wasm 120 demo_key_item k demo_target_clip = Inr x" for k
    by (auto simp: paste_item_def demo_key_item_def t(1) Let_def split: option.split)
  then have "\<exists>ts n. run_timeline demo_wasm demo_supply as ps (id_counter demo_over_clip) (AttributeCommand ?r ?a) demo_clips = (Inr (updated ts None), n)" for as ps
    unfolding run_timeline_def run_attribute_def Let_def timeline_command.case es by (auto split: sum.split) (metis sum.distinct(1))
  then obtain ts n where "run_timeline demo_wasm demo_supply (mediaAssets demo_over_clip) (projectSettings demo_over_clip) (id_counter demo_over_clip) (AttributeCommand ?r ?a) demo_clips
      = (Inr (updated ts None), n)" by blast
  then obtain c' edt' where x: "execute demo_wasm demo_supply ?c demo_over_clip = (Inr None, c', edt')"
    by (simp add: execute_timeline_def sc Let_def)
  have f: "find_ref demo_clips ?r = Some (main demo_clips, demo_target_clip)"
    by (simp add: find_ref_def findTrackInSceneTracks_def demo_clips_def orderedTracks_def demo_target_clip_def)
  have d: "startTime demo_target_clip = 50" "duration demo_target_clip = 100" "animations demo_target_clip = None" by (simp_all add: demo_target_clip_def)
  have acc: "accepted demo_wasm demo_target_clip (ki_path demo_key_item) (ki_value demo_key_item)" by (simp add: accepted_def demo_key_item_def t)
  have "\<exists>s' tr' e'. active edt' = Some s' \<and> find_ref (tracks s') ?r = Some (tr', e') \<and> startTime e' = startTime demo_target_clip
      \<and> duration e' = duration demo_target_clip \<and> 120 - startTime demo_target_clip \<notin> anim_times (animations e')
      \<and> min 120 (duration demo_target_clip) \<in> anim_times (animations e')"
    by (rule pasted_keyframe_misses_playhead [where gen = demo_supply and w = demo_wasm and item = demo_key_item, OF sc(1) _ sc(2) _ _ _ _ _ _ acc _ _ b x])
      (simp_all add: demo_clips_wf f d elementEnd_def bindings_fit_def getBinding_def anim_times_def anim_ok_def demo_key_item_def)
  then show ?thesis using b x unfolding d by auto
qed

section \<open>The offsets of copied keyframes\<close>

lemma insert_by_sorted:
  assumes "\<And>x y. cmp x y \<le> 0 \<Longrightarrow> f x \<le> f y" "\<And>x y. \<not> cmp x y \<le> 0 \<Longrightarrow> f y \<le> f x"
  shows "sorted (map f xs) \<Longrightarrow> sorted (map (f :: 'a \<Rightarrow> 'b :: linorder) (insert_by cmp x xs))"
proof (induction xs)
  case (Cons y ys)
  have "set (insert_by cmp x ys) = insert x (set ys)" by (metis mset_insert_by set_mset_add_mset_insert set_mset_mset)
  then show ?case using Cons assms by (fastforce intro: order_trans)
qed simp

lemma js_sort_sorted:
  assumes "\<And>x y. cmp x y \<le> 0 \<Longrightarrow> f x \<le> f y" "\<And>x y. \<not> cmp x y \<le> 0 \<Longrightarrow> f y \<le> f x"
  shows "sorted (map (f :: 'a \<Rightarrow> 'b :: linorder) (js_sort cmp xs))"
  by (induction xs) (simp_all add: js_sort_def insert_by_sorted [OF assms])

text \<open>The clipboard keeps keyframes relative to the earliest one: the offsets are in order and start at zero, and with the time of
  that keyframe added they are exactly the selected keyframes of the one element, each with its property, value and
  interpolation.\<close>
theorem copied_keyframes_relative:
  assumes "copyKeyframes formatColor cmp selected ts = Some (source, items)"
  shows "sorted (map ki_timeOffset items) \<and> ki_timeOffset (hd items) = 0 \<and>
    (\<exists>tr e first. find_ref ts source = Some (tr, e) \<and>
       mset (map (\<lambda>i. (ki_path i, first + ki_timeOffset i, ki_value i, ki_interpolation i)) items)
       = mset (List.map_filter (\<lambda>r. map_option (\<lambda>k. (kr_propertyPath r, ek_time k, ek_value k, ek_interpolation k))
           (getKeyframeById formatColor (animations e) (kr_propertyPath r) (kr_keyframeId r))) selected))"
proof -
  obtain tr e where e: "find_ref ts source = Some (tr, e)" and s: "resolveSingleSourceElement selected = Some source"
    using assms by (auto simp: copyKeyframes_def Let_def split: option.splits if_splits)
  define raw where "raw = List.map_filter (buildClipboardItem formatColor e) selected"
  define first where "first = Min (set (map fst raw))"
  define rel where "rel = map (\<lambda>(t, i). i\<lparr>ki_timeOffset := t - first\<rparr>) raw"
  have raw: "raw \<noteq> []" and items: "items = js_sort (item_order cmp) rel"
    using assms by (auto simp: copyKeyframes_def e s Let_def raw_def rel_def first_def split: if_splits)
  have sorted: "sorted (map ki_timeOffset items)" unfolding items
    by (rule js_sort_sorted) (auto simp: item_order_def or_else_def split: if_splits)
  have "first \<in> fst ` set raw" "\<forall>t \<in> fst ` set raw. first \<le> t" using raw by (simp_all add: first_def)
  then have zero: "0 \<in> ki_timeOffset ` set items" "\<forall>i \<in> set items. 0 \<le> ki_timeOffset i"
    by (force simp: items rel_def)+
  have "ki_timeOffset (hd items) = 0"
    using sorted zero by (cases items) fastforce+
  moreover have "mset (map (\<lambda>i. (ki_path i, first + ki_timeOffset i, ki_value i, ki_interpolation i)) items)
      = mset (map (\<lambda>x. (ki_path (snd x), fst x, ki_value (snd x), ki_interpolation (snd x))) raw)"
    unfolding items rel_def by (simp add: image_mset.compositionality comp_def split_def)
  moreover have "map (\<lambda>x. (ki_path (snd x), fst x, ki_value (snd x), ki_interpolation (snd x))) raw
      = List.map_filter (\<lambda>r. map_option (\<lambda>k. (kr_propertyPath r, ek_time k, ek_value k, ek_interpolation k))
          (getKeyframeById formatColor (animations e) (kr_propertyPath r) (kr_keyframeId r))) selected"
    unfolding raw_def
    by (induction selected) (auto simp: List.map_filter_def buildClipboardItem_def)
  ultimately have "ki_timeOffset (hd items) = 0 \<and>
      mset (map (\<lambda>i. (ki_path i, first + ki_timeOffset i, ki_value i, ki_interpolation i)) items)
      = mset (List.map_filter (\<lambda>r. map_option (\<lambda>k. (kr_propertyPath r, ek_time k, ek_value k, ek_interpolation k))
          (getKeyframeById formatColor (animations e) (kr_propertyPath r) (kr_keyframeId r))) selected)" by (simp only: simp_thms)
  then show ?thesis using sorted e by (intro conjI exI [of _ tr] exI [of _ e] exI [of _ first]) (simp_all only: simp_thms)
qed

definition demo_faded :: scene_tracks where
  "demo_faded = demo_clips\<lparr>main := (main demo_clips)\<lparr>elements := [demo_target_clip\<lparr>animations := demo_fade\<rparr>]\<rparr>\<rparr>"

definition demo_key_ref :: keyframe_ref where
  "demo_key_ref = \<lparr>kr_trackId = ''m'', kr_elementId = ''c'', kr_propertyPath = ''opacity'', kr_keyframeId = ''k''\<rparr>"

theorem copied_keyframes_relative_witness:
  "case copyKeyframes (\<lambda>_. []) (\<lambda>_ _. 0) [demo_key_ref] demo_faded of None \<Rightarrow> False
   | Some (source, items) \<Rightarrow> length items = 1 \<and> ki_timeOffset (hd items) = 0"
proof -
  have "map_option (length \<circ> snd) (copyKeyframes (\<lambda>_. []) (\<lambda>_ _. 0) [demo_key_ref] demo_faded) = Some 1" by code_simp
  then obtain source items where c: "copyKeyframes (\<lambda>_. []) (\<lambda>_ _. 0) [demo_key_ref] demo_faded = Some (source, items)" "length items = 1"
    by auto
  then show ?thesis using copied_keyframes_relative [OF c(1)] by simp
qed

end
