(* ===== verification/Redo.thy ===== *)
theory Redo
  imports Editor
begin

text \<open>
  What redo repeats: a redone command is executed again (\<open>core/managers/commands.ts\<close>, \<open>commands/base-command.ts\<close>), so it
  draws new ids, while the commands after it on the redo stack still name the ids of its first execution.
\<close>

section \<open>Ids after a command\<close>

lemma ids_ripple: "all_element_ids (applyRippleAdjustments ts adjs) = all_element_ids ts"
proof -
  have "map elementId (fold (\<lambda>a es. rippleShiftElements es (adj_afterTime a) (adj_shiftAmount a)) as es) = map elementId es" for as :: "ripple_adjustment list" and es :: "timeline_element list"
  proof (induction as arbitrary: es)
    case (Cons a as)
    have "map elementId (rippleShiftElements es (adj_afterTime a) (adj_shiftAmount a)) = map elementId es" for es
      by (simp add: rippleShiftElements_def)
    then show ?case using Cons by simp
  qed simp
  then have "map elementId (elements (applyTrackRippleAdjustments tr as)) = map elementId (elements tr)" for tr :: track and as :: "ripple_adjustment list"
    by (simp add: applyTrackRippleAdjustments_def)
  then show ?thesis by (simp add: all_element_ids_def orderedTracks_ripple comp_def)
qed

lemma ids_prune: "all_element_ids (prune_tracks ts) = all_element_ids ts"
proof -
  have "concat (map (\<lambda>tr. map elementId (elements tr)) (filter (\<lambda>tr. elements tr \<noteq> []) trs)) = concat (map (\<lambda>tr. map elementId (elements tr)) trs)" for trs :: "track list"
    by (induction trs) auto
  then show ?thesis by (simp add: all_element_ids_def orderedTracks_def prune_tracks_def)
qed

lemma updateTracks_rest [simp]: "id_counter (updateTracks ts e) = id_counter e" "nested (updateTracks ts e) = nested e"
  by (simp_all add: updateTracks_def updateSceneTracks_def Let_def split: option.split)

text \<open>A timeline command that gives new tracks: what its execution leaves, with ripple editing and the removal of empty tracks.\<close>

lemma perform_timeline:
  assumes "active e = Some s" "\<not> pastes_nothing c" "out_tracks out = Some ts"
    and "run_timeline w gen (mediaAssets e) (projectSettings e) (id_counter e) c (tracks s) = (Inr out, n)"
  shows "\<exists>entry e' s'. perform (execute w gen (TimelineCommand c saved) e) e = (None, Some entry, e')
    \<and> he_command entry = TimelineCommand c (Some (tracks s)) \<and> active e' = Some s'
    \<and> all_element_ids (tracks s') = all_element_ids ts \<and> id_counter e' = n \<and> nested e' = nested e"
proof -
  obtain e1 where ex: "execute w gen (TimelineCommand c saved) e = (Inr (out_selection out), TimelineCommand c (Some (tracks s)), e1)"
    and e1: "active e1 = Some (s\<lparr>tracks := ts\<rparr>)" "id_counter e1 = n" "nested e1 = nested e"
    using assms by (simp add: execute_timeline_def Let_def updateTracks_active)
  define e2 where "e2 = applyRippleIfEnabled (ripple_snapshot e) e1"
  have e2: "\<exists>s2. active e2 = Some s2 \<and> all_element_ids (tracks s2) = all_element_ids ts" "id_counter e2 = n" "nested e2 = nested e"
    by (simp_all add: e2_def applyRippleIfEnabled_def e1 Let_def updateTracks_active ids_ripple split: option.split)
  obtain ov e3 where o: "applySelectionOverride (out_selection out) e2 = (ov, e3)" by fastforce
  have e3: "active e3 = active e2" "id_counter e3 = n" "nested e3 = nested e"
    using o e2(2,3) by (auto simp: applySelectionOverride_def Let_def split: option.splits)
  obtain s2 where s2: "active e3 = Some s2" "all_element_ids (tracks s2) = all_element_ids ts" using e2(1) e3(1) by auto
  obtain s' where s': "active (run_reactors e3) = Some s'" "tracks s' = prune_tracks (tracks s2)"
    using run_reactors_active [OF s2(1)] by blast
  have "id_counter (run_reactors e3) = n" "nested (run_reactors e3) = nested e"
    by (simp_all add: run_reactors_def s2(1) Let_def e3(2,3))
  then show ?thesis using s' s2(2) unfolding perform_def ex prod.case sum.case Let_def e2_def [symmetric] o by (simp add: ids_prune)
qed

lemma manager_execute_timeline:
  assumes "active (ed m) = Some s" "\<not> pastes_nothing c" "out_tracks out = Some ts"
    and "run_timeline w gen (mediaAssets (ed m)) (projectSettings (ed m)) (id_counter (ed m)) c (tracks s) = (Inr out, n)"
    and "manager_execute w gen (TimelineCommand c saved) m = (err, m')"
  shows "\<exists>entry s'. history m' = entry # history m \<and> he_command entry = TimelineCommand c (Some (tracks s))
    \<and> active (ed m') = Some s' \<and> all_element_ids (tracks s') = all_element_ids ts \<and> id_counter (ed m') = n"
  using perform_timeline [of "begin_command (ed m)" s c out ts w gen n saved] assms by (auto simp: manager_execute_def begin_command_def)

lemma manager_redo_timeline:
  assumes "active (ed m) = Some s" "\<not> pastes_nothing c" "out_tracks out = Some ts"
    and "run_timeline w gen (mediaAssets (ed m)) (projectSettings (ed m)) (id_counter (ed m)) c (tracks s) = (Inr out, n)"
    and "redoStack m = entry # rs" "he_command entry = TimelineCommand c saved"
  shows "\<exists>m' s'. manager_redo w gen m = (None, m') \<and> redoStack m' = rs
    \<and> active (ed m') = Some s' \<and> all_element_ids (tracks s') = all_element_ids ts \<and> id_counter (ed m') = n"
  using perform_timeline [of "begin_command (ed m)" s c out ts w gen n saved] assms
  by (auto simp: manager_redo_def redo_command_def begin_command_def)

lemma manager_undo_timeline:
  assumes "history m = entry # hs" "he_command entry = TimelineCommand c (Some ts)" "active (ed m) = Some s"
  shows "\<exists>s'. active (ed (manager_undo m)) = Some s' \<and> tracks s' = ts \<and> id_counter (ed (manager_undo m)) = id_counter (ed m)
    \<and> redoStack (manager_undo m) = entry # redoStack m \<and> history (manager_undo m) = hs"
  using assms by (simp add: manager_undo_def Let_def updateTracks_active)

section \<open>Ids drawn by a split\<close>

lemma split_bindings_mono: "n \<le> snd (split_bindings gen a t boundary n bs st)"
proof (induction bs arbitrary: n st)
  case (Cons x bs)
  obtain p b la ra where "x = (p, b)" "st = (la, ra)" by fastforce
  then show ?case using Cons.IH [of n] Cons.IH [of "Suc (Suc n)", THEN Suc_leD, THEN Suc_leD]
    by (cases b) (simp_all add: case_prod_beta Let_def)
qed simp

lemma splitAnimations_mono: "n \<le> snd (splitAnimationsAtTime gen n a t boundary)"
  using split_bindings_mono
  by (auto simp: splitAnimationsAtTime_def split: option.splits prod.splits) (metis snd_conv)

text \<open>The ids after a split are old ones and ones drawn from the supply, and how many elements there are does not depend on the
  supply.\<close>

definition only_fresh :: "(nat \<Rightarrow> uuid) \<Rightarrow> nat \<Rightarrow> nat \<Rightarrow> uuid list \<Rightarrow> uuid list \<Rightarrow> bool" where
  "only_fresh gen n n' old new \<longleftrightarrow> n \<le> n' \<and> (\<forall>i \<in> set new. i \<in> set old \<or> (\<exists>k. n \<le> k \<and> k < n' \<and> i = gen k))"

lemma only_fresh_append: "only_fresh gen n m xs xs' \<Longrightarrow> only_fresh gen m n' ys ys' \<Longrightarrow> only_fresh gen n n' (xs @ ys) (xs' @ ys')"
  unfolding only_fresh_def by (metis UnE UnI1 UnI2 dual_order.strict_trans1 le_trans order_less_le_trans set_append)

lemma split_element_ids:
  assumes "split_element gen side t n e = (xs, rs, n')"
  shows "only_fresh gen n n' [elementId e] (map elementId xs)"
proof -
  obtain l r m where m: "splitAnimationsAtTime gen n (animations e) (t - startTime e) True = ((l, r), m)" by (metis surj_pair)
  then have "n \<le> m" using splitAnimations_mono by (metis snd_conv)
  then show ?thesis using assms by (auto simp: split_element_def Let_def m only_fresh_def split: if_splits retain_side.splits) (use lessI in blast)+
qed

lemma split_element_count: "length (fst (split_element gen side t n e)) = length (fst (split_element gen side t k e))"
  by (auto simp: split_element_def Let_def split: prod.splits retain_side.splits)

lemma split_elements_ids:
  "split_elements gen targets side t n es = (xs, rs, n') \<Longrightarrow> only_fresh gen n n' (map elementId es) (map elementId xs)"
proof (induction es arbitrary: n xs rs n')
  case (Cons e es)
  obtain ys r1 m zs r2 where y: "(if elementId e \<in> set targets then split_element gen side t n e else ([e], [], n)) = (ys, r1, m)"
    and z: "split_elements gen targets side t m es = (zs, r2, n')" and xs: "xs = ys @ zs"
    using Cons.prems(1) by (auto simp: Let_def split: prod.splits)
  have "only_fresh gen n m [elementId e] (map elementId ys)"
    using y split_element_ids [of gen side t n e ys r1 m] by (auto simp: only_fresh_def split: if_splits)
  from only_fresh_append [OF this Cons.IH [OF z]] show ?case by (simp add: xs)
qed (simp add: only_fresh_def)

lemma split_elements_count: "length (fst (split_elements gen targets side t n es)) = length (fst (split_elements gen targets side t k es))"
proof (induction es arbitrary: n k)
  case (Cons e es)
  have "length (fst (if elementId e \<in> set targets then split_element gen side t n e else ([e], [], n)))
      = length (fst (if elementId e \<in> set targets then split_element gen side t k e else ([e], [], k)))"
    using split_element_count by simp
  then show ?case using Cons.IH by (simp only: split_elements.simps Let_def case_prod_beta fst_conv length_append) (intro arg_cong2 [where f = "(+)"] refl)
qed simp

lemma splitTrack_ids:
  assumes "splitTrack gen refs side t n tr = (tr', rs, n')"
  shows "only_fresh gen n n' (map elementId (elements tr)) (map elementId (elements tr'))"
proof (cases "filter (\<lambda>r. ref_trackId r = trackId tr) refs = []")
  case False
  then obtain targets xs rights where "split_elements gen targets side t n (elements tr) = (xs, rights, n')" "tr' = tr\<lparr>elements := xs\<rparr>"
    using assms by (auto simp: splitTrack_def Let_def split: prod.splits)
  then show ?thesis using split_elements_ids by auto
qed (use assms in \<open>simp add: splitTrack_def only_fresh_def\<close>)

lemma splitTrack_count: "length (elements (fst (splitTrack gen refs side t n tr))) = length (elements (fst (splitTrack gen refs side t k tr)))"
  using split_elements_count [of gen _ side t n "elements tr" k] by (auto simp: splitTrack_def Let_def split: prod.splits) (metis fst_conv)

abbreviation ids_of :: "track list \<Rightarrow> uuid list" where
  "ids_of trs \<equiv> concat (map (\<lambda>tr. map elementId (elements tr)) trs)"

lemma split_track_list_ids:
  "split_track_list gen refs side t n trs = (trs', rs, n') \<Longrightarrow> only_fresh gen n n' (ids_of trs) (ids_of trs')"
proof (induction trs arbitrary: n trs' rs n')
  case (Cons tr trs)
  obtain tr1 r1 m trs1 r2 where tr1: "splitTrack gen refs side t n tr = (tr1, r1, m)" and ts1: "split_track_list gen refs side t m trs = (trs1, r2, n')"
    and trs': "trs' = tr1 # trs1" using Cons.prems by (auto simp: Let_def split: prod.splits)
  show ?case using only_fresh_append [OF splitTrack_ids [OF tr1] Cons.IH [OF ts1]] by (simp add: trs')
qed (simp add: only_fresh_def)

lemma split_track_list_count:
  "length (ids_of (fst (split_track_list gen refs side t n trs))) = length (ids_of (fst (split_track_list gen refs side t k trs)))"
proof (induction trs arbitrary: n k)
  case (Cons tr trs)
  show ?case using Cons.IH splitTrack_count [of gen refs side t n tr k]
    by (simp only: split_track_list.simps Let_def case_prod_beta fst_conv list.map concat.simps length_append length_map)
      (intro arg_cong2 [where f = "(+)"] refl)
qed simp

lemma splitElements_ids:
  assumes "splitElements gen n refs t side ts = (out, n')" "out_tracks out = Some ts'"
  shows "only_fresh gen n n' (all_element_ids ts) (all_element_ids ts')"
proof -
  obtain ov r1 n1 where o: "split_track_list gen refs side t n (overlay ts) = (ov, r1, n1)" using prod_cases3 by blast
  obtain m r2 n2 where m: "splitTrack gen refs side t n1 (main ts) = (m, r2, n2)" using prod_cases3 by blast
  obtain au r3 where a: "split_track_list gen refs side t n2 (audio ts) = (au, r3, n')"
    using assms(1) by (auto simp: splitElements_def o m Let_def split: prod.splits)
  have "ts' = \<lparr>overlay = ov, main = m, audio = au\<rparr>" using assms by (auto simp: splitElements_def o m a)
  then show ?thesis using only_fresh_append [OF split_track_list_ids [OF o] only_fresh_append [OF splitTrack_ids [OF m] split_track_list_ids [OF a]]]
    by (simp add: all_element_ids_def orderedTracks_def)
qed

lemma splitElements_count:
  "length (all_element_ids (the (out_tracks (fst (splitElements gen n refs t side ts)))))
   = length (all_element_ids (the (out_tracks (fst (splitElements gen k refs t side ts)))))"
  using split_track_list_count [of gen refs side t n "overlay ts" k] splitTrack_count [of gen refs side t _ "main ts"]
    split_track_list_count [of gen refs side t _ "audio ts"]
  by (simp add: splitElements_def Let_def case_prod_beta all_element_ids_def orderedTracks_def) (intro arg_cong2 [where f = "(+)"] refl)

section \<open>Deleting\<close>

lemma find_ref_mem:
  assumes "find_ref ts r = Some (tr, e)"
  shows "tr \<in> set (orderedTracks ts)" "trackId tr = ref_trackId r" "e \<in> set (elements tr)" "elementId e = ref_elementId r"
  using assms
  by (auto simp: find_ref_def findTrackInSceneTracks_def orderedTracks_def find_Some_iff split: if_splits option.splits)

text \<open>Deleting an element that is there removes it; deleting one that is not removes nothing.\<close>

lemma ids_delete:
  "\<exists>ts'. out_tracks (deleteElements [r] ts) = Some ts' \<and> (ref_elementId r \<notin> set (all_element_ids ts) \<longrightarrow> all_element_ids ts' = all_element_ids ts)
    \<and> (find_ref ts r \<noteq> None \<longrightarrow> length (all_element_ids ts') < length (all_element_ids ts))"
proof -
  define ts' where "ts' = \<lparr>overlay = map (removeTrackElements [r]) (overlay ts), main = removeTrackElements [r] (main ts),
      audio = map (removeTrackElements [r]) (audio ts)\<rparr>"
  have o: "orderedTracks ts' = map (removeTrackElements [r]) (orderedTracks ts)" by (simp add: ts'_def orderedTracks_def)
  have len: "length (ids_of (map (removeTrackElements [r]) trs)) \<le> length (ids_of trs)" for trs
    by (induction trs) (simp_all add: removeTrackElements_def add_mono length_filter_le)
  have "all_element_ids ts' = all_element_ids ts" if "ref_elementId r \<notin> set (all_element_ids ts)"
  proof -
    have "map elementId (elements (removeTrackElements [r] tr)) = map elementId (elements tr)" if "tr \<in> set (orderedTracks ts)" for tr
      using that \<open>ref_elementId r \<notin> _\<close> by (auto simp: removeTrackElements_def all_element_ids_def intro!: arg_cong [where f = "map elementId"] filter_True)
    then show ?thesis by (simp add: all_element_ids_def o comp_def cong: map_cong)
  qed
  moreover have "length (all_element_ids ts') < length (all_element_ids ts)" if there: "find_ref ts r \<noteq> None"
  proof -
    obtain tr e where tr: "find_ref ts r = Some (tr, e)" using there by auto
    obtain as bs where ab: "orderedTracks ts = as @ tr # bs" using find_ref_mem(1) [OF tr] by (meson split_list)
    note ab = ab find_ref_mem(2) [OF tr]
    have "e \<in> set (elements tr)" "elementId e = ref_elementId r" using find_ref_mem [OF tr] by simp_all
    then have "length (elements (removeTrackElements [r] tr)) < length (elements tr)"
      unfolding removeTrackElements_def track.select_convs track.update_convs track.simps
      using ab(2) by (auto intro!: length_filter_less)
    then show ?thesis using len [of as] len [of bs] by (simp add: all_element_ids_def o ab(1))
  qed
  ultimately show ?thesis by (auto simp: deleteElements_def ts'_def)
qed

section \<open>Properties\<close>


lemma demo_supply_fresh: "fresh_supply demo_supply 0 {''t'', ''v''}"
proof -
  have "inj demo_supply" by (rule injI) (metis demo_supply_def length_replicate Suc_inject)
  moreover have "demo_supply k \<notin> {''t'', ''v''}" for k by (simp add: demo_supply_def)
  ultimately show ?thesis by (simp add: fresh_supply_def)
qed


end
