(* ===== verification/Js_Strings.thy ===== *)
theory Js_Strings
  imports Prelude
begin

text \<open>
  What the source uses of JavaScript's strings: trimming, lower case, digits and their value, splitting at a character and
  joining. A character is one of the first 256 code points.
\<close>

section \<open>White space and case\<close>

definition js_space :: "char \<Rightarrow> bool" where
  "js_space c \<longleftrightarrow> of_char c \<in> {9, 10, 11, 12, 13, 32, 160 :: nat}"

definition js_trim :: "string \<Rightarrow> string" where
  "js_trim s = rev (dropWhile js_space (rev (dropWhile js_space s)))"

definition js_lower :: "string \<Rightarrow> string" where
  "js_lower s = map (\<lambda>c. let n = of_char c :: nat in if 65 \<le> n \<and> n \<le> 90 then char_of (n + 32) else c) s"

section \<open>Numbers\<close>

text \<open>\<open>String(n)\<close> of a natural number.\<close>

fun show_nat :: "nat \<Rightarrow> string" where
  "show_nat n = (if n < 10 then [char_of (48 + n)] else show_nat (n div 10) @ [char_of (48 + n mod 10)])"

declare show_nat.simps [simp del]

definition is_digit :: "char \<Rightarrow> bool" where "is_digit c \<longleftrightarrow> 48 \<le> (of_char c :: nat) \<and> (of_char c :: nat) \<le> 57"

definition digits_value :: "string \<Rightarrow> nat" where
  "digits_value ds = foldl (\<lambda>v c. 10 * v + (of_char c - 48)) 0 ds"

lemma show_nat_digits: "c \<in> set (show_nat n) \<Longrightarrow> of_char c < (58 :: nat)"
proof (induction n rule: show_nat.induct)
  case (1 n)
  have digit: "of_char (char_of (48 + d)) < (58 :: nat)" if "d < 10" for d :: nat
    using that by (simp add: of_char_of)
  show ?case
  proof (cases "n < 10")
    case True
    then have "c = char_of (48 + n)" using "1.prems" by (simp add: show_nat.simps [of n])
    then show ?thesis using digit [OF True] by simp
  next
    case False
    then have "c \<in> set (show_nat (n div 10)) \<or> c = char_of (48 + n mod 10)"
      using "1.prems" by (auto simp: show_nat.simps [of n])
    then show ?thesis using "1.IH" [OF False] digit [of "n mod 10"] by auto
  qed
qed

lemma show_nat_not_Nil [simp]: "show_nat n \<noteq> []"
  by (subst show_nat.simps) simp

lemma digits_value_append: "digits_value (xs @ [c]) = 10 * digits_value xs + (of_char c - 48)"
  by (simp add: digits_value_def)

lemma show_nat_value: "show_nat k \<noteq> [] \<and> list_all is_digit (show_nat k) \<and> digits_value (show_nat k) = k"
proof (induction k rule: show_nat.induct)
  case (1 k)
  show ?case
  proof (cases "k < 10")
    case True
    then show ?thesis by (simp add: show_nat.simps [of k] is_digit_def digits_value_def)
  next
    case False
    then show ?thesis using 1 by (simp add: show_nat.simps [of k] is_digit_def digits_value_append)
  qed
qed

section \<open>Splitting and joining\<close>

text \<open>\<open>s.split(c)\<close> and \<open>lines.join(c)\<close>.\<close>

fun js_split :: "char \<Rightarrow> string \<Rightarrow> string list" where
  "js_split c [] = [[]]"
| "js_split c (x # xs) = (if x = c then [] # js_split c xs else (case js_split c xs of [] \<Rightarrow> [[x]] | l # ls \<Rightarrow> (x # l) # ls))"

fun js_join :: "char \<Rightarrow> string list \<Rightarrow> string" where
  "js_join c [] = []"
| "js_join c [l] = l"
| "js_join c (l # ls) = l @ c # js_join c ls"

lemma js_split_not_Nil [simp]: "js_split c s \<noteq> []"
  by (induction s) (auto split: list.splits)

lemma js_split_plain: "c \<notin> set l \<Longrightarrow> js_split c l = [l]"
  by (induction l) auto

lemma js_split_append: "c \<notin> set l \<Longrightarrow> js_split c (l @ c # s) = l # js_split c s"
  by (induction l) auto

lemma js_split_join: "ls \<noteq> [] \<Longrightarrow> \<forall>l \<in> set ls. c \<notin> set l \<Longrightarrow> js_split c (js_join c ls) = ls"
  by (induction c ls rule: js_join.induct) (auto simp: js_split_plain js_split_append)

lemma js_split_parts: "\<forall>l \<in> set (js_split c s). c \<notin> set l"
proof (induction s)
  case (Cons x s)
  obtain l ls where "js_split c s = l # ls" by (cases "js_split c s") auto
  then show ?case using Cons by auto
qed simp

lemma js_join_split [simp]: "js_join c (js_split c s) = s"
proof (induction s)
  case (Cons x s)
  obtain l ls where "js_split c s = l # ls" by (cases "js_split c s") auto
  then show ?case using Cons by (cases ls) auto
qed simp

text \<open>A string without white space at its ends.\<close>

definition trimmed :: "string \<Rightarrow> bool" where
  "trimmed s \<longleftrightarrow> s = [] \<or> \<not> js_space (hd s) \<and> \<not> js_space (last s)"

lemma js_trim_trimmed: "trimmed s \<Longrightarrow> js_trim s = s"
  using dropWhile_eq_self_iff [of js_space s] dropWhile_eq_self_iff [of js_space "rev s"]
  by (auto simp: trimmed_def js_trim_def hd_rev)

lemma trimmed_js_trim [simp]: "trimmed (js_trim s)"
proof -
  define u where "u = dropWhile js_space s"
  have hd: "u \<noteq> [] \<Longrightarrow> \<not> js_space (hd u)" by (simp add: u_def hd_dropWhile)
  obtain v where v: "u = js_trim s @ v" "list_all js_space v"
    using takeWhile_dropWhile_id [of js_space "rev u"]
    by (metis js_trim_def list_all_iff rev_append rev_rev_ident set_rev set_takeWhileD u_def)
  have "js_trim s \<noteq> [] \<Longrightarrow> \<not> js_space (last (js_trim s))"
    by (simp add: js_trim_def last_rev hd_dropWhile)
  moreover have "js_trim s \<noteq> [] \<Longrightarrow> hd (js_trim s) = hd u" by (simp add: v(1))
  ultimately show ?thesis using hd v(1) by (auto simp: trimmed_def)
qed

end
