(* ===== verification/Subtitles.thy ===== *)
theory Subtitles
  imports Js_Strings Media_Time "HOL-Library.Monad_Syntax"
begin

text \<open>
  Subtitle files (\<open>subtitles/srt.ts\<close>, \<open>ass.ts\<close>, \<open>parse.ts\<close>): a file becomes cues with a time in seconds, a text and, for ASS, a
  style. A regular expression of the source is the function that recognises it; a number that is not finite is a
  value of \<^typ>\<open>js_number\<close> or \<open>None\<close>.
\<close>

section \<open>Data\<close>

record placement_style =
  verticalAlign :: "string option"
  marginLeftRatio :: "rat option"
  marginRightRatio :: "rat option"
  marginVerticalRatio :: "rat option"

record style_overrides =
  ov_fontSize :: "rat option"
  fontSizeRatioOfPlayHeight :: "rat option"
  ov_fontFamily :: "string option"
  ov_color :: "string option"
  ov_background :: "(bool \<times> string) option"
  ov_textAlign :: "string option"
  ov_fontWeight :: "string option"
  ov_fontStyle :: "string option"
  ov_textDecoration :: "string option"
  ov_letterSpacing :: "rat option"
  ov_lineHeight :: "rat option"
  ov_placement :: "placement_style option"

record subtitle_cue =
  cue_text :: string
  cue_startTime :: rat
  cue_duration :: rat
  cue_style :: "style_overrides option"

record subtitle_result =
  captions :: "subtitle_cue list"
  skippedCueCount :: nat
  warnings :: "string list"

definition LF :: char where "LF = CHR 0x0A"
definition CR :: char where "CR = CHR 0x0D"

section \<open>Shared recognisers\<close>

text \<open>\<open>input.replace(/\r\n?/g, "\n")\<close>.\<close>

fun normalize_newlines :: "string \<Rightarrow> string" where
  "normalize_newlines [] = []"
| "normalize_newlines (c # s) =
     (if c = CR then LF # normalize_newlines (if s \<noteq> [] \<and> hd s = LF then tl s else s) else c # normalize_newlines s)"

text \<open>Exactly \<open>n\<close> digits; between one and \<open>n\<close> digits, as many as there are; one character.\<close>

definition digits_exactly :: "nat \<Rightarrow> string \<Rightarrow> (string \<times> string) option" where
  "digits_exactly n s = (if n \<le> length s \<and> list_all is_digit (take n s) then Some (take n s, drop n s) else None)"

definition digits_upto :: "nat \<Rightarrow> string \<Rightarrow> (string \<times> string) option" where
  "digits_upto n s = (let ds = takeWhile is_digit (take n s) in if ds = [] then None else Some (ds, drop (length ds) s))"

definition one_of :: "string \<Rightarrow> string \<Rightarrow> string option" where
  "one_of cs s = (case s of [] \<Rightarrow> None | c # r \<Rightarrow> if c \<in> set cs then Some r else None)"

text \<open>\<open>\d{2}:\d{2}:\d{2}\<close>, a separator and one to three digits: the four groups and what follows.\<close>

type_synonym stamp = "string \<times> string \<times> string \<times> string"

definition clock :: "(string \<Rightarrow> (string \<times> string) option) \<Rightarrow> string \<Rightarrow> string \<Rightarrow> (stamp \<times> string) option" where
  "clock hours seps s =
     do { (h, s) \<leftarrow> hours s; s \<leftarrow> one_of '':'' s; (m, s) \<leftarrow> digits_exactly 2 s; s \<leftarrow> one_of '':'' s; (sec, s) \<leftarrow> digits_exactly 2 s;
          s \<leftarrow> one_of seps s; (f, s) \<leftarrow> digits_upto 3 s; Some ((h, m, sec, f), s) }"

fun stamp_seconds :: "stamp \<Rightarrow> rat" where
  "stamp_seconds (h, m, s, f) =
     of_nat (digits_value h) * 3600 + of_nat (digits_value m) * 60 + of_nat (digits_value s)
     + of_nat (digits_value (f @ replicate (3 - length f) CHR ''0'')) / 1000"

section \<open>SRT (\<open>srt.ts\<close>)\<close>

text \<open>\<open>normalized.split(/\n{2,}/)\<close>.\<close>

function split_blocks :: "string \<Rightarrow> string list" where
  "split_blocks [] = [[]]"
| "split_blocks (c # s) =
     (if c = LF \<and> s \<noteq> [] \<and> hd s = LF then [] # split_blocks (dropWhile (\<lambda>x. x = LF) s)
      else (case split_blocks s of [] \<Rightarrow> [[c]] | b # bs \<Rightarrow> (c # b) # bs))"
  by pat_completeness auto
termination by (relation "measure length") (auto simp: le_imp_less_Suc length_dropWhile_le)

text \<open>\<open>TIMESTAMP_SEPARATOR = /\s*-->\s*/\<close>: the first occurrence, and \<open>split\<close> at all of them.\<close>

fun find_arrow :: "string \<Rightarrow> (string \<times> string) option" where
  "find_arrow [] = None"
| "find_arrow (c # s) =
     (if take 3 (c # s) = ''-->'' then Some ([], drop 3 (c # s)) else map_option (\<lambda>(a, b). (c # a, b)) (find_arrow s))"

definition has_arrow :: "string \<Rightarrow> bool" where
  "has_arrow s \<longleftrightarrow> find_arrow s \<noteq> None"

definition trim_right :: "string \<Rightarrow> string" where
  "trim_right s = rev (dropWhile js_space (rev s))"

lemma find_arrow_shorter: "find_arrow s = Some (a, b) \<Longrightarrow> length b < length s"
  by (induction s arbitrary: a) (auto split: if_splits)

function split_arrows :: "string \<Rightarrow> string list" where
  "split_arrows s =
     (case find_arrow s of
        None \<Rightarrow> [s]
      | Some (a, b) \<Rightarrow> trim_right a # split_arrows (dropWhile js_space b))"
  by auto
termination
  by (relation "measure length") (auto dest!: find_arrow_shorter intro: le_less_trans [OF length_dropWhile_le])

declare split_arrows.simps [simp del]

definition TIMESTAMP_PATTERN :: "string \<Rightarrow> bool" where
  "TIMESTAMP_PATTERN s \<longleftrightarrow>
     (case clock (digits_exactly 2) '',.'' s of
        None \<Rightarrow> False
      | Some (_, r) \<Rightarrow>
          let r = dropWhile js_space r
          in take 3 r = ''-->'' \<and> clock (digits_exactly 2) '',.'' (dropWhile js_space (drop 3 r)) \<noteq> None)"

fun replace_first :: "char \<Rightarrow> char \<Rightarrow> string \<Rightarrow> string" where
  "replace_first a b [] = []"
| "replace_first a b (c # s) = (if c = a then b # s else c # replace_first a b s)"

definition parseSrtTimestamp :: "string \<Rightarrow> rat option" where
  "parseSrtTimestamp s =
     (case clock (digits_exactly 2) ''.'' (replace_first CHR '','' CHR ''.'' (js_trim s)) of
        Some (g, []) \<Rightarrow> Some (stamp_seconds g) | _ \<Rightarrow> None)"

text \<open>What the loop makes of one block: a cue, or nothing when it is skipped.\<close>

definition parse_block :: "string \<Rightarrow> subtitle_cue option" where
  "parse_block block =
     (let lines = filter (\<lambda>l. l \<noteq> []) (map js_trim (js_split LF block))
      in if length lines < 2 then None
         else let timestampIndex = (if has_arrow (lines ! 0) then 0 else 1);
                  timestampLine = lines ! timestampIndex
              in if \<not> TIMESTAMP_PATTERN timestampLine then None
                 else let txt' = js_trim (js_join LF (drop (timestampIndex + 1) lines))
                      in if txt' = [] then None
                         else (case split_arrows timestampLine of
                             rawStart # rawEnd # _ \<Rightarrow>
                               if rawStart = [] \<or> rawEnd = [] then None
                               else (case (parseSrtTimestamp rawStart, parseSrtTimestamp rawEnd) of
                                   (Some startTime, Some endTime) \<Rightarrow>
                                     if endTime - startTime \<le> 0 then None
                                     else Some \<lparr>cue_text = txt', cue_startTime = startTime, cue_duration = endTime - startTime, cue_style = None\<rparr>
                                 | _ \<Rightarrow> None)
                           | _ \<Rightarrow> None))"

definition parseSrt :: "string \<Rightarrow> subtitle_result" where
  "parseSrt input =
     (let normalized = js_trim (normalize_newlines input)
      in if normalized = [] then \<lparr>captions = [], skippedCueCount = 0, warnings = []\<rparr>
         else let parsed = map parse_block (split_blocks normalized)
              in \<lparr>captions = List.map_filter (\<lambda>x. x) parsed, skippedCueCount = length (filter (\<lambda>x. x = None) parsed), warnings = []\<rparr>)"

section \<open>Numbers of a file\<close>

text \<open>\<open>Number.parseFloat\<close> and \<open>Number.parseInt(_, 10)\<close>, without rounding.\<close>

fun parse_sign :: "string \<Rightarrow> int \<times> string" where
  "parse_sign [] = (1, [])"
| "parse_sign (c # s) = (if c = CHR ''-'' then (-1, s) else if c = CHR ''+'' then (1, s) else (1, c # s))"

definition exponent_of :: "string \<Rightarrow> int" where
  "exponent_of s =
     (case one_of ''eE'' s of
        None \<Rightarrow> 0
      | Some r \<Rightarrow> (case parse_sign r of (sg, u) \<Rightarrow> sg * int (digits_value (takeWhile is_digit u))))"

definition power_of_ten :: "int \<Rightarrow> rat" where
  "power_of_ten e = (if 0 \<le> e then 10 ^ nat e else 1 / 10 ^ nat (- e))"

definition parseFloat :: "string \<Rightarrow> js_number" where
  "parseFloat s =
     (case parse_sign (dropWhile js_space s) of (sg, u) \<Rightarrow>
        if take 8 u = ''Infinity'' then (if sg = 1 then PosInfinity else NegInfinity)
        else let ds = takeWhile is_digit u;
                 r = drop (length ds) u;
                 fs = (case one_of ''.'' r of None \<Rightarrow> [] | Some x \<Rightarrow> takeWhile is_digit x);
                 after = (case one_of ''.'' r of None \<Rightarrow> r | Some x \<Rightarrow> drop (length fs) x)
             in if ds = [] \<and> fs = [] then NaN
                else Fin (of_int sg * (of_nat (digits_value (ds @ fs)) / 10 ^ length fs) * power_of_ten (exponent_of after)))"

definition parseInt10 :: "string \<Rightarrow> int option" where
  "parseInt10 s =
     (case parse_sign (dropWhile js_space s) of (sg, u) \<Rightarrow>
        let ds = takeWhile is_digit u in if ds = [] then None else Some (sg * int (digits_value ds)))"

fun finite_number :: "js_number \<Rightarrow> rat option" where
  "finite_number (Fin x) = Some x"
| "finite_number _ = None"

text \<open>\<open>Math.round\<close>, \<open>(x || 0) > 0\<close> and \<open>(x || 0) !== 0\<close>.\<close>

definition round_number :: "js_number \<Rightarrow> int option" where
  "round_number x = map_option math_round (finite_number x)"

fun positive_number :: "js_number \<Rightarrow> bool" where
  "positive_number (Fin x) = (0 < x)"
| "positive_number PosInfinity = True"
| "positive_number _ = False"

fun nonzero_number :: "js_number \<Rightarrow> bool" where
  "nonzero_number (Fin x) = (x \<noteq> 0)"
| "nonzero_number NaN = False"
| "nonzero_number _ = True"

section \<open>ASS styles (\<open>ass.ts\<close>)\<close>

type_synonym ass_record = "(string \<times> string) list"

definition field_number :: "string \<Rightarrow> ass_record \<Rightarrow> js_number" where
  "field_number k r = parseFloat (case map_of r k of None \<Rightarrow> [] | Some v \<Rightarrow> v)"

definition parseAssBoolean :: "string option \<Rightarrow> bool option" where
  "parseAssBoolean v = (case v of None \<Rightarrow> None | Some s \<Rightarrow> if js_trim s = [] then None else map_option (\<lambda>n. n \<noteq> 0) (parseInt10 (js_trim s)))"

definition hex_digit :: "char \<Rightarrow> nat option" where
  "hex_digit c = (let n = of_char c in
     if 48 \<le> n \<and> n \<le> 57 then Some (n - 48) else if 65 \<le> n \<and> n \<le> 70 then Some (n - 55) else if 97 \<le> n \<and> n \<le> 102 then Some (n - 87) else None)"

definition hex_value :: "string \<Rightarrow> nat" where
  "hex_value s = foldl (\<lambda>v c. 16 * v + (case hex_digit c of Some d \<Rightarrow> d | None \<Rightarrow> 0)) 0 s"

text \<open>\<open>.replace(/^&?H/i, "")\<close>.\<close>

definition drop_hex_prefix :: "string \<Rightarrow> string" where
  "drop_hex_prefix s =
     (let r = (case one_of ''&'' s of None \<Rightarrow> s | Some r \<Rightarrow> r)
      in case one_of ''Hh'' r of Some u \<Rightarrow> u | None \<Rightarrow> s)"

text \<open>A number of thousandths as JavaScript prints it.\<close>

definition show_thousandths :: "nat \<Rightarrow> string" where
  "show_thousandths k =
     (let f = show_nat (k mod 1000)
      in show_nat (k div 1000) @ (if k mod 1000 = 0 then []
           else CHR ''.'' # rev (dropWhile (\<lambda>c. c = CHR ''0'') (rev (replicate (3 - length f) CHR ''0'' @ f)))))"

definition parseAssColor :: "string option \<Rightarrow> (string \<times> rat) option" where
  "parseAssColor v =
     (case v of
        None \<Rightarrow> None
      | Some [] \<Rightarrow> None
      | Some s \<Rightarrow>
          let u = drop_hex_prefix (js_trim s);
              normalized = replicate (8 - length u) CHR ''0'' @ u
          in if length normalized \<noteq> 8 \<or> \<not> list_all (\<lambda>c. hex_digit c \<noteq> None) normalized then None
             else let alphaHex = take 2 normalized; blueHex = take 2 (drop 2 normalized);
                      greenHex = take 2 (drop 4 normalized); redHex = take 2 (drop 6 normalized);
                      alpha = 1 - of_nat (hex_value alphaHex) / 255
                  in if alpha \<ge> 1 then Some (js_lower (''#'' @ redHex @ greenHex @ blueHex), alpha)
                     else Some (''rgba('' @ show_nat (hex_value redHex) @ '', '' @ show_nat (hex_value greenHex) @ '', '' @ show_nat (hex_value blueHex)
                            @ '', '' @ show_thousandths (nat (math_round (alpha * 1000))) @ '')'', alpha))"

definition ALIGNMENT_MAP :: "int \<Rightarrow> (string \<times> string) option" where
  "ALIGNMENT_MAP n =
     (if n \<in> {1..9}
      then Some ([''left'', ''center'', ''right''] ! nat ((n - 1) mod 3), [''bottom'', ''middle'', ''top''] ! nat ((n - 1) div 3))
      else None)"

definition mapped_alignment :: "js_number \<Rightarrow> string \<times> string" where
  "mapped_alignment a = (case Option.bind (round_number a) ALIGNMENT_MAP of Some x \<Rightarrow> x | None \<Rightarrow> (''center'', ''bottom''))"

definition ass_placement :: "ass_record \<Rightarrow> rat \<Rightarrow> rat \<Rightarrow> placement_style option" where
  "ass_placement r playResX playResY =
     (let l = finite_number (field_number ''marginl'' r); rt = finite_number (field_number ''marginr'' r); v = finite_number (field_number ''marginv'' r);
          va = snd (mapped_alignment (field_number ''alignment'' r))
      in if l \<noteq> None \<or> rt \<noteq> None \<or> v \<noteq> None \<or> va \<noteq> ''bottom''
         then Some \<lparr>verticalAlign = Some va, marginLeftRatio = map_option (\<lambda>x. x / playResX) l,
                marginRightRatio = map_option (\<lambda>x. x / playResX) rt, marginVerticalRatio = map_option (\<lambda>x. x / playResY) v\<rparr>
         else None)"

definition ass_unsupported :: "ass_record \<Rightarrow> bool" where
  "ass_unsupported r =
     (let n = (\<lambda>k. field_number k r);
          off = (\<lambda>k. case finite_number (n k) of None \<Rightarrow> False | Some x \<Rightarrow> x \<noteq> 100);
          on = (\<lambda>k. parseAssBoolean (map_of r k) = Some True)
      in if round_number (n ''borderstyle'') \<noteq> Some 1 \<and> round_number (n ''borderstyle'') \<noteq> Some 3 then True
         else positive_number (n ''outline'') \<or> positive_number (n ''shadow'') \<or> nonzero_number (n ''angle'')
            \<or> off ''scalex'' \<or> off ''scaley'' \<or> on ''underline'' \<and> on ''strikeout'')"

definition ass_decoration :: "ass_record \<Rightarrow> string option" where
  "ass_decoration r =
     (if parseAssBoolean (map_of r ''underline'') = Some True then Some ''underline''
      else if parseAssBoolean (map_of r ''strikeout'') = Some True then Some ''line-through'' else None)"

definition mapAssStyleToSubtitleStyle :: "ass_record \<Rightarrow> rat \<Rightarrow> rat \<Rightarrow> style_overrides \<times> bool" where
  "mapAssStyleToSubtitleStyle r playResX playResY =
     (let fontSizeRatio = map_option (\<lambda>x. of_int (math_round (x / playResY * 1000)) / 1000) (finite_number (field_number ''fontsize'' r))
      in (\<lparr>ov_fontSize = None,
           fontSizeRatioOfPlayHeight = (case fontSizeRatio of Some x \<Rightarrow> if 0 < x then Some x else None | None \<Rightarrow> None),
           ov_fontFamily = (case map_of r ''fontname'' of None \<Rightarrow> None | Some f \<Rightarrow> if f = [] then None else Some (js_trim f)),
           ov_color = map_option fst (parseAssColor (map_of r ''primarycolour'')),
           ov_background = (case parseAssColor (map_of r ''backcolour'') of
               None \<Rightarrow> None
             | Some (css, alpha) \<Rightarrow> if round_number (field_number ''borderstyle'' r) = Some 3
                 then Some (0 < alpha, if 0 < alpha then css else ''transparent'') else None),
           ov_textAlign = Some (fst (mapped_alignment (field_number ''alignment'' r))),
           ov_fontWeight = map_option (\<lambda>b. if b then ''bold'' else ''normal'') (parseAssBoolean (map_of r ''bold'')),
           ov_fontStyle = map_option (\<lambda>b. if b then ''italic'' else ''normal'') (parseAssBoolean (map_of r ''italic'')),
           ov_textDecoration = ass_decoration r,
           ov_letterSpacing = finite_number (field_number ''spacing'' r),
           ov_lineHeight = None,
           ov_placement = ass_placement r playResX playResY\<rparr>,
          ass_unsupported r))"

section \<open>ASS events\<close>

definition parseAssFormat :: "string \<Rightarrow> string list" where
  "parseAssFormat line = map (\<lambda>f. js_lower (js_trim f)) (js_split CHR '','' (tl (dropWhile (\<lambda>c. c \<noteq> CHR '':'') line)))"

text \<open>\<open>left\<close> counts the fields that may still end at a comma.\<close>

fun split_fields :: "nat \<Rightarrow> string \<Rightarrow> string \<Rightarrow> string list" where
  "split_fields left current [] = [js_trim current]"
| "split_fields left current (c # s) =
     (if c = CHR '','' \<and> 0 < left then js_trim current # split_fields (left - 1) [] s else split_fields left (current @ [c]) s)"

definition splitAssFields :: "string \<Rightarrow> nat \<Rightarrow> string list" where
  "splitAssFields v expectedFieldCount = (if expectedFieldCount \<le> 1 then [v] else split_fields (expectedFieldCount - 1) [] v)"

definition mapFieldsToRecord :: "string list \<Rightarrow> string list \<Rightarrow> ass_record" where
  "mapFieldsToRecord names vals = fold (\<lambda>(k, v) r. AList.update k v r) (zip names vals) []"

definition parseAssTimestamp :: "string option \<Rightarrow> rat option" where
  "parseAssTimestamp v =
     (case v of
        None \<Rightarrow> None
      | Some s \<Rightarrow> if s = [] then None
          else (case clock (\<lambda>s. digits_upto (length s) s) ''.'' (js_trim s) of Some (g, []) \<Rightarrow> Some (stamp_seconds g) | _ \<Rightarrow> None))"

text \<open>\<open>/\{[^}]*\}/\<close>: whether it occurs, and the text without it; and \<open>replace\<close> of an escape by one character.\<close>

fun has_tag :: "string \<Rightarrow> bool" where
  "has_tag [] = False"
| "has_tag (c # s) \<longleftrightarrow> c = CHR ''{'' \<and> CHR ''}'' \<in> set s \<or> has_tag s"

function strip_tags :: "string \<Rightarrow> string" where
  "strip_tags [] = []"
| "strip_tags (c # s) =
     (if c = CHR ''{'' \<and> CHR ''}'' \<in> set s then strip_tags (tl (dropWhile (\<lambda>x. x \<noteq> CHR ''}'') s)) else c # strip_tags s)"
  by pat_completeness auto
termination
proof (relation "measure length")
  fix c s
  show "(tl (dropWhile (\<lambda>x. x \<noteq> CHR ''}'') s), c # s) \<in> measure length"
    using length_dropWhile_le [of "\<lambda>x. x \<noteq> CHR ''}''" s] by simp
qed auto

fun replace_escape :: "string \<Rightarrow> char \<Rightarrow> string \<Rightarrow> string" where
  "replace_escape cs x (a # b # s) = (if a = CHR 92 \<and> b \<in> set cs then x # replace_escape cs x s else a # replace_escape cs x (b # s))"
| "replace_escape cs x s = s"

definition stripAssText :: "string \<Rightarrow> string \<times> bool" where
  "stripAssText s =
     (js_trim (replace_escape ''n'' LF (replace_escape ''h'' CHR '' '' (replace_escape ''Nn'' LF (strip_tags s)))), has_tag s)"

record ass_state =
  currentSection :: string
  playResX :: rat
  playResY :: rat
  styleFormat :: "string list option"
  eventFormat :: "string list option"
  ass_styles :: "(string \<times> style_overrides) list"
  ass_captions :: "subtitle_cue list"
  ass_skipped :: nat
  strippedInlineTagCueCount :: nat
  skippedNonDialogueEventCount :: nat
  ignoredEffectCount :: nat
  missingStyleCueCount :: nat
  usesHeavilyUnsupportedStyles :: bool

definition ass_initial :: ass_state where
  "ass_initial = \<lparr>currentSection = [], playResX = 384, playResY = 288, styleFormat = None, eventFormat = None, ass_styles = [], ass_captions = [],
     ass_skipped = 0, strippedInlineTagCueCount = 0, skippedNonDialogueEventCount = 0, ignoredEffectCount = 0, missingStyleCueCount = 0,
     usesHeavilyUnsupportedStyles = False\<rparr>"

definition starts_with :: "string \<Rightarrow> string \<Rightarrow> bool" where
  "starts_with p s \<longleftrightarrow> take (length p) s = p"

definition section_name :: "string \<Rightarrow> string option" where
  "section_name line = (if 3 \<le> length line \<and> hd line = CHR ''['' \<and> last line = CHR '']'' then Some (js_lower (js_trim (butlast (tl line)))) else None)"

definition script_info_line :: "string \<Rightarrow> ass_state \<Rightarrow> ass_state" where
  "script_info_line line st =
     (case js_split CHR '':'' line of
        [] \<Rightarrow> st
      | rawKey # values \<Rightarrow>
          if rawKey = [] \<or> values = [] then st
          else (case finite_number (parseFloat (js_trim (js_join CHR '':'' values))) of
              None \<Rightarrow> st
            | Some v \<Rightarrow> if v \<le> 0 then st
                else let key = js_lower (js_trim rawKey)
                     in if key = ''playresx'' then st\<lparr>playResX := v\<rparr> else if key = ''playresy'' then st\<lparr>playResY := v\<rparr> else st))"

definition style_line :: "string \<Rightarrow> ass_state \<Rightarrow> ass_state" where
  "style_line line st =
     (if starts_with ''Format:'' line then st\<lparr>styleFormat := Some (parseAssFormat line)\<rparr>
      else case styleFormat st of
        None \<Rightarrow> st
      | Some fmt \<Rightarrow>
          if \<not> starts_with ''Style:'' line then st
          else let vals = splitAssFields (js_trim (drop 6 line)) (length fmt)
               in if length vals \<noteq> length fmt then st
                  else let r = mapFieldsToRecord fmt vals
                       in case map_of r ''name'' of
                            None \<Rightarrow> st
                          | Some [] \<Rightarrow> st
                          | Some name \<Rightarrow>
                              (case mapAssStyleToSubtitleStyle r (playResX st) (playResY st) of (style, unsupported) \<Rightarrow>
                                st\<lparr>usesHeavilyUnsupportedStyles := usesHeavilyUnsupportedStyles st \<or> unsupported,
                                   ass_styles := AList.update (js_lower name) style (ass_styles st)\<rparr>))"

definition dialogue_cue :: "ass_record \<Rightarrow> rat \<Rightarrow> rat \<Rightarrow> ass_state \<Rightarrow> ass_state" where
  "dialogue_cue r start duration st =
     (case stripAssText (case map_of r ''text'' of None \<Rightarrow> [] | Some x \<Rightarrow> x) of (text', hadTags) \<Rightarrow>
        let st1 = st\<lparr>strippedInlineTagCueCount := strippedInlineTagCueCount st + of_bool hadTags\<rparr>
        in if text' = [] then st1\<lparr>ass_skipped := ass_skipped st1 + 1\<rparr>
           else let effect = (case map_of r ''effect'' of None \<Rightarrow> [] | Some x \<Rightarrow> js_trim x);
                    name = (case map_of r ''style'' of None \<Rightarrow> [] | Some x \<Rightarrow> js_lower (js_trim x));
                    referenced = (if name = [] then None else map_of (ass_styles st1) name)
                in st1\<lparr>ignoredEffectCount := ignoredEffectCount st1 + of_bool (effect \<noteq> []),
                       missingStyleCueCount := missingStyleCueCount st1 + of_bool (name \<noteq> [] \<and> referenced = None),
                       ass_captions := ass_captions st1 @ [\<lparr>cue_text = text', cue_startTime = start, cue_duration = duration,
                         cue_style = (case referenced of Some x \<Rightarrow> Some x | None \<Rightarrow> map_of (ass_styles st1) ''default'')\<rparr>]\<rparr>)"

definition event_line :: "string \<Rightarrow> ass_state \<Rightarrow> ass_state" where
  "event_line line st =
     (if starts_with ''Format:'' line then st\<lparr>eventFormat := Some (parseAssFormat line)\<rparr>
      else case eventFormat st of
        None \<Rightarrow> st
      | Some fmt \<Rightarrow>
          if starts_with ''Dialogue:'' line
          then let vals = splitAssFields (js_trim (drop 9 line)) (length fmt)
               in if length vals \<noteq> length fmt then st\<lparr>ass_skipped := ass_skipped st + 1\<rparr>
                  else let r = mapFieldsToRecord fmt vals
                       in case (parseAssTimestamp (map_of r ''start''), parseAssTimestamp (map_of r ''end'')) of
                            (Some start, Some end') \<Rightarrow>
                              if end' - start \<le> 0 then st\<lparr>ass_skipped := ass_skipped st + 1\<rparr> else dialogue_cue r start (end' - start) st
                          | _ \<Rightarrow> st\<lparr>ass_skipped := ass_skipped st + 1\<rparr>
          else if CHR '':'' \<in> set line then st\<lparr>skippedNonDialogueEventCount := skippedNonDialogueEventCount st + 1\<rparr> else st)"

definition ass_line :: "string \<Rightarrow> ass_state \<Rightarrow> ass_state" where
  "ass_line rawLine st =
     (let line = js_trim rawLine
      in if line = [] \<or> starts_with '';'' line then st
         else case section_name line of
           Some name \<Rightarrow> st\<lparr>currentSection := name\<rparr>
         | None \<Rightarrow>
             if currentSection st = ''script info'' then script_info_line line st
             else if currentSection st \<in> {''v4 styles'', ''v4+ styles''} then style_line line st
             else if currentSection st = ''events'' then event_line line st
             else st)"

definition ass_warnings :: "ass_state \<Rightarrow> string list" where
  "ass_warnings st =
     (let note = (\<lambda>n pre post. if 0 < n then [pre @ show_nat n @ post] else [])
      in note (strippedInlineTagCueCount st) ''Stripped unsupported ASS inline override tags from '' '' subtitle cue(s).''
         @ note (ignoredEffectCount st) ''Ignored ASS event effects in '' '' subtitle cue(s).''
         @ note (missingStyleCueCount st) ''Fell back to default subtitle styling for '' '' cue(s) that referenced missing ASS styles.''
         @ note (skippedNonDialogueEventCount st) ''Ignored '' '' non-dialogue ASS event(s).''
         @ (if usesHeavilyUnsupportedStyles st
            then [''Ignored unsupported ASS style features such as outline, shadow, rotation, or scaling.''] else []))"

definition parseAss :: "string \<Rightarrow> subtitle_result" where
  "parseAss input =
     (let normalized = js_trim (normalize_newlines input)
      in if normalized = [] then \<lparr>captions = [], skippedCueCount = 0, warnings = []\<rparr>
         else let st = fold ass_line (js_split LF normalized) ass_initial
              in \<lparr>captions = ass_captions st, skippedCueCount = ass_skipped st, warnings = ass_warnings st\<rparr>)"

section \<open>Files (\<open>parse.ts\<close>)\<close>

definition getFileExtension :: "string \<Rightarrow> string" where
  "getFileExtension fileName = js_lower (last (js_split CHR ''.'' fileName))"

definition parseSubtitleFile :: "string \<Rightarrow> string \<Rightarrow> js_error + subtitle_result" where
  "parseSubtitleFile fileName input =
     (let extension = getFileExtension fileName
      in if extension = ''srt'' then Inr (parseSrt input)
         else if extension = ''ass'' then Inr (parseAss input)
         else Inl (Thrown ''Unsupported subtitle format''))"

end
