(* ===== verification/Subtitle_Elements.thy ===== *)
theory Subtitle_Elements
  imports Editor Subtitles
begin

text \<open>
  Subtitles on the timeline: the text element that is made of a cue, wrapped and placed on the canvas
  (\<open>subtitles/build-subtitle-text-element.ts\<close>, with \<open>text/layout.ts\<close>), and the track that a file's cues go to (\<open>subtitles/insert.ts\<close>).

  The canvas that measures text is a parameter: \<open>None\<close> when there is none, and otherwise the width of a text in a font
  (style, weight, size in pixels and quoted family) at a letter spacing.
\<close>

section \<open>Text blocks (\<open>text/layout.ts\<close>)\<close>

record text_rect =
  tr_left :: rat
  tr_top :: rat
  tr_width :: rat
  tr_height :: rat

record text_block =
  visualCenterOffset :: rat
  block_height :: rat
  block_maxWidth :: rat

record text_background =
  bg_enabled :: bool
  bg_color :: string
  bg_cornerRadius :: rat
  bg_paddingX :: rat
  bg_paddingY :: rat
  bg_offsetX :: rat
  bg_offsetY :: rat

definition measureTextBlock :: "rat list \<Rightarrow> rat \<Rightarrow> text_block" where
  "measureTextBlock widths lineHeightPx =
     \<lparr>visualCenterOffset = (of_nat (length widths) - 1) * lineHeightPx / 2, block_height = of_nat (length widths) * lineHeightPx,
      block_maxWidth = fold (\<lambda>x m. max m x) widths 0\<rparr>"

definition getTextRect :: "string \<Rightarrow> text_block \<Rightarrow> text_rect" where
  "getTextRect textAlign b =
     \<lparr>tr_left = (if textAlign = ''left'' then 0 else if textAlign = ''right'' then - block_maxWidth b else - block_maxWidth b / 2),
      tr_top = - block_height b / 2, tr_width = block_maxWidth b, tr_height = block_height b\<rparr>"

definition isTextBackgroundVisible :: "text_background \<Rightarrow> bool" where
  "isTextBackgroundVisible b \<longleftrightarrow> bg_enabled b \<and> bg_color b \<noteq> [] \<and> bg_color b \<noteq> ''transparent''"

definition getTextBackgroundRect :: "string \<Rightarrow> text_block \<Rightarrow> text_background \<Rightarrow> rat \<Rightarrow> text_rect option" where
  "getTextBackgroundRect textAlign b bg fontSizeRatio =
     (if \<not> isTextBackgroundVisible bg then None
      else let r = getTextRect textAlign b; paddingX = bg_paddingX bg * fontSizeRatio; paddingY = bg_paddingY bg * fontSizeRatio
           in Some \<lparr>tr_left = tr_left r - paddingX + bg_offsetX bg, tr_top = tr_top r - paddingY + bg_offsetY bg,
                tr_width = tr_width r + paddingX * 2, tr_height = tr_height r + paddingY * 2\<rparr>)"

definition getTextVisualRect :: "string \<Rightarrow> text_block \<Rightarrow> text_background \<Rightarrow> rat \<Rightarrow> text_rect" where
  "getTextVisualRect textAlign b bg fontSizeRatio =
     (let r = getTextRect textAlign b
      in case getTextBackgroundRect textAlign b bg fontSizeRatio of
           None \<Rightarrow> r
         | Some g \<Rightarrow>
             let left = min (tr_left r) (tr_left g); top' = min (tr_top r) (tr_top g);
                 right = max (tr_left r + tr_width r) (tr_left g + tr_width g); bottom = max (tr_top r + tr_height r) (tr_top g + tr_height g)
             in \<lparr>tr_left = left, tr_top = top', tr_width = right - left, tr_height = bottom - top'\<rparr>)"

section \<open>Wrapping\<close>

text \<open>\<open>text.replace(/\r\n/g, "\n")\<close> and \<open>split(/\s+/)\<close>.\<close>

fun join_crlf :: "string \<Rightarrow> string" where
  "join_crlf (a # b # s) = (if a = CR \<and> b = LF then LF # join_crlf s else a # join_crlf (b # s))"
| "join_crlf s = s"

function split_words :: "string \<Rightarrow> string list" where
  "split_words [] = [[]]"
| "split_words (c # s) =
     (if js_space c then [] # split_words (dropWhile js_space s)
      else (case split_words s of [] \<Rightarrow> [[c]] | w # ws \<Rightarrow> (c # w) # ws))"
  by pat_completeness auto
termination by (relation "measure length") (auto simp: le_imp_less_Suc length_dropWhile_le)

fun wrap_words :: "(string \<Rightarrow> rat) \<Rightarrow> rat \<Rightarrow> string \<Rightarrow> string list \<Rightarrow> string list" where
  "wrap_words width maxWidth currentLine [] = [currentLine]"
| "wrap_words width maxWidth currentLine (w # ws) =
     (let nextLine = currentLine @ CHR '' '' # w
      in if width nextLine \<le> maxWidth then wrap_words width maxWidth nextLine ws
         else currentLine # wrap_words width maxWidth w ws)"

definition wrap_paragraph :: "(string \<Rightarrow> rat) \<Rightarrow> rat \<Rightarrow> string \<Rightarrow> string" where
  "wrap_paragraph width maxWidth paragraph =
     (if js_trim paragraph = [] then []
      else case split_words (js_trim paragraph) of
        [] \<Rightarrow> []
      | w # ws \<Rightarrow> js_join LF (wrap_words width maxWidth w ws))"

definition wrapSubtitleText :: "(string \<Rightarrow> rat) \<Rightarrow> rat \<Rightarrow> string \<Rightarrow> string" where
  "wrapSubtitleText width maxWidth s = js_join LF (map (wrap_paragraph width maxWidth) (js_split LF (join_crlf (js_trim s))))"

section \<open>Style and place\<close>

record resolved_style =
  rs_fontFamily :: string
  rs_fontSize :: rat
  rs_color :: string
  rs_textAlign :: string
  rs_fontWeight :: string
  rs_fontStyle :: string
  rs_textDecoration :: string
  rs_letterSpacing :: rat
  rs_lineHeight :: rat
  rs_background :: text_background
  rs_placement :: placement_style

definition or_default :: "'a option \<Rightarrow> 'a \<Rightarrow> 'a" where
  "or_default v d = (case v of None \<Rightarrow> d | Some x \<Rightarrow> x)"

definition default_background :: text_background where
  "default_background = \<lparr>bg_enabled = False, bg_color = ''#000000'', bg_cornerRadius = 0, bg_paddingX = 30, bg_paddingY = 42, bg_offsetX = 0, bg_offsetY = 0\<rparr>"

definition no_overrides :: style_overrides where
  "no_overrides = \<lparr>ov_fontSize = None, fontSizeRatioOfPlayHeight = None, ov_fontFamily = None, ov_color = None, ov_background = None,
     ov_textAlign = None, ov_fontWeight = None, ov_fontStyle = None, ov_textDecoration = None, ov_letterSpacing = None, ov_lineHeight = None,
     ov_placement = None\<rparr>"

definition resolveSubtitleStyle :: "style_overrides option \<Rightarrow> resolved_style" where
  "resolveSubtitleStyle style =
     (let s = or_default style no_overrides;
          p = or_default (ov_placement s) \<lparr>verticalAlign = None, marginLeftRatio = None, marginRightRatio = None, marginVerticalRatio = None\<rparr>
      in \<lparr>rs_fontFamily = or_default (ov_fontFamily s) ''Arial'',
          rs_fontSize = (case fontSizeRatioOfPlayHeight s of Some r \<Rightarrow> r * 90 | None \<Rightarrow> or_default (ov_fontSize s) 5),
          rs_color = or_default (ov_color s) ''#ffffff'', rs_textAlign = or_default (ov_textAlign s) ''center'',
          rs_fontWeight = or_default (ov_fontWeight s) ''bold'', rs_fontStyle = or_default (ov_fontStyle s) ''normal'',
          rs_textDecoration = or_default (ov_textDecoration s) ''none'', rs_letterSpacing = or_default (ov_letterSpacing s) 0,
          rs_lineHeight = or_default (ov_lineHeight s) (6 / 5),
          rs_background = (case ov_background s of None \<Rightarrow> default_background | Some (on, c) \<Rightarrow> default_background\<lparr>bg_enabled := on, bg_color := c\<rparr>),
          rs_placement = p\<lparr>verticalAlign := Some (or_default (verticalAlign p) ''bottom'')\<rparr>\<rparr>)"

definition resolveTargetWidth :: "rat \<Rightarrow> placement_style \<Rightarrow> rat" where
  "resolveTargetWidth canvasWidth p =
     (let l = or_default (marginLeftRatio p) 0; r = or_default (marginRightRatio p) 0
      in if l > 0 \<or> r > 0 then max 0 (canvasWidth * (1 - l - r)) else canvasWidth * (4 / 5))"

definition resolvePositionX :: "rat \<Rightarrow> string \<Rightarrow> placement_style \<Rightarrow> text_rect \<Rightarrow> rat" where
  "resolvePositionX canvasWidth textAlign p v =
     (let leftMargin = canvasWidth * or_default (marginLeftRatio p) 0; rightMargin = canvasWidth * or_default (marginRightRatio p) 0;
          canvasCenterX = canvasWidth / 2
      in if textAlign = ''left'' then leftMargin - tr_left v - canvasCenterX
         else if textAlign = ''right'' then canvasWidth - rightMargin - (tr_left v + tr_width v) - canvasCenterX
         else let availableWidth = canvasWidth - leftMargin - rightMargin; targetCenterX = leftMargin + availableWidth / 2
              in targetCenterX - (tr_left v + tr_width v / 2) - canvasCenterX)"

definition resolvePositionY :: "rat \<Rightarrow> placement_style \<Rightarrow> text_rect \<Rightarrow> rat" where
  "resolvePositionY canvasHeight p v =
     (let margin = canvasHeight * or_default (marginVerticalRatio p) (1 / 20); canvasCenterY = canvasHeight / 2
      in if verticalAlign p = Some ''top'' then margin - tr_top v - canvasCenterY
         else if verticalAlign p = Some ''middle'' then canvasHeight / 2 - (tr_top v + tr_height v / 2) - canvasCenterY
         else canvasHeight - margin - (tr_top v + tr_height v) - canvasCenterY)"

section \<open>Elements\<close>

type_synonym font = "string \<times> string \<times> rat \<times> string"
type_synonym measurement = "(font \<Rightarrow> rat \<Rightarrow> string \<Rightarrow> rat) option"

definition quoteFontFamily :: "string \<Rightarrow> string" where
  "quoteFontFamily f = CHR 34 # concat (map (\<lambda>c. if c = CHR 34 then [CHR 92, CHR 34] else [c]) f) @ [CHR 34]"

definition measureWrappedTextBlock :: "(string \<Rightarrow> rat) \<Rightarrow> string \<Rightarrow> rat \<Rightarrow> resolved_style \<Rightarrow> text_rect" where
  "measureWrappedTextBlock width content canvasHeight s =
     (let lineHeightPx = rs_lineHeight s * (rs_fontSize s * (canvasHeight / 90));
          b = measureTextBlock (map width (js_split LF content)) lineHeightPx
      in getTextVisualRect (rs_textAlign s) b (rs_background s) (rs_fontSize s / 15))"

text \<open>The font that the canvas is set to: style, weight, size and family of \<open>fontString\<close>.\<close>

definition caption_font :: "resolved_style \<Rightarrow> rat \<Rightarrow> font" where
  "caption_font s canvasHeight = (if rs_fontStyle s = ''italic'' then ''italic'' else ''normal'', rs_fontWeight s,
     rs_fontSize s * (canvasHeight / 90), quoteFontFamily (rs_fontFamily s))"

definition caption_layout :: "measurement \<Rightarrow> resolved_style \<Rightarrow> string \<Rightarrow> rat \<Rightarrow> rat \<Rightarrow> string \<times> rat \<times> rat" where
  "caption_layout ctx s t canvasWidth canvasHeight =
     (case ctx of
        None \<Rightarrow> (t, 0, 0)
      | Some measureText \<Rightarrow>
          let width = measureText (caption_font s canvasHeight) (rs_letterSpacing s);
              content = wrapSubtitleText width (resolveTargetWidth canvasWidth (rs_placement s)) t;
              v = measureWrappedTextBlock width content canvasHeight s
          in (content, resolvePositionX canvasWidth (rs_textAlign s) (rs_placement s) v, resolvePositionY canvasHeight (rs_placement s) v))"

definition background_object :: "text_background \<Rightarrow> js_value" where
  "background_object b = JObject [(''enabled'', JBool (bg_enabled b)), (''color'', JString (bg_color b)), (''cornerRadius'', JNumber (bg_cornerRadius b)),
     (''paddingX'', JNumber (bg_paddingX b)), (''paddingY'', JNumber (bg_paddingY b)), (''offsetX'', JNumber (bg_offsetX b)), (''offsetY'', JNumber (bg_offsetY b))]"

definition text_fields :: "resolved_style \<Rightarrow> string \<times> rat \<times> rat \<Rightarrow> (string \<times> js_value) list" where
  "text_fields s l =
     (case l of (content, x, y) \<Rightarrow>
       [(''content'', JString content), (''fontSize'', JNumber (rs_fontSize s)), (''fontFamily'', JString (rs_fontFamily s)), (''color'', JString (rs_color s)),
        (''background'', background_object (rs_background s)), (''textAlign'', JString (rs_textAlign s)), (''fontWeight'', JString (rs_fontWeight s)),
        (''fontStyle'', JString (rs_fontStyle s)), (''textDecoration'', JString (rs_textDecoration s)), (''letterSpacing'', JNumber (rs_letterSpacing s)),
        (''lineHeight'', JNumber (rs_lineHeight s)),
        (''transform'', JObject [(''scaleX'', JNumber 1), (''scaleY'', JNumber 1), (''position'', JObject [(''x'', JNumber x), (''y'', JNumber y)]), (''rotate'', JNumber 0)]),
        (''opacity'', JNumber 1)])"

definition buildSubtitleTextElement ::
    "wasm_api \<Rightarrow> measurement \<Rightarrow> rat \<Rightarrow> rat \<Rightarrow> nat \<Rightarrow> subtitle_cue \<Rightarrow> js_error + create_element" where
  "buildSubtitleTextElement w ctx canvasWidth canvasHeight index caption =
     (let s = resolveSubtitleStyle (cue_style caption);
          l = caption_layout ctx s (cue_text caption) canvasWidth canvasHeight
      in case mediaTimeFromSeconds w (cue_duration caption) of
           Inl err \<Rightarrow> Inl err
         | Inr d \<Rightarrow>
             (case mediaTimeFromSeconds w (cue_startTime caption) of
                Inl err \<Rightarrow> Inl err
              | Inr start \<Rightarrow> Inr \<lparr>ce_element = \<lparr>elementId = [], elementName = ''Caption '' @ show_nat (index + 1), elementType = EText, startTime = start,
                    duration = d, trimStart = 0, trimEnd = 0, sourceDuration = None, animations = None, retime = None, mediaId = None, sourceType = None,
                    el_hidden = None, el_muted = None, isSourceAudioEnabled = None, rest = text_fields s l\<rparr>,
                  ce_trimStart = Some 0, ce_trimEnd = Some 0, ce_duration = Some d\<rparr>))"

section \<open>The track (\<open>insert.ts\<close>)\<close>

text \<open>The commands of the batch: the constructors draw the ids, the track's first. An exception of the time conversion comes before
  anything is executed.\<close>

fun caption_elements :: "wasm_api \<Rightarrow> measurement \<Rightarrow> rat \<Rightarrow> rat \<Rightarrow> nat \<Rightarrow> subtitle_cue list \<Rightarrow> js_error + create_element list" where
  "caption_elements w ctx cw ch k [] = Inr []"
| "caption_elements w ctx cw ch k (c # cs) =
     (case buildSubtitleTextElement w ctx cw ch k c of
        Inl err \<Rightarrow> Inl err
      | Inr e \<Rightarrow> (case caption_elements w ctx cw ch (Suc k) cs of Inl err \<Rightarrow> Inl err | Inr es \<Rightarrow> Inr (e # es)))"

definition caption_commands :: "(nat \<Rightarrow> uuid) \<Rightarrow> nat \<Rightarrow> create_element list \<Rightarrow> command list" where
  "caption_commands gen n es =
     TimelineCommand (AddTrackCommand TText (Some 0) (gen n)) None #
       map (\<lambda>(k, e). TimelineCommand (InsertElementCommand e (ExplicitPlacement (gen n)) (gen (Suc (n + k)))) None) (List.enumerate 0 es)"

definition insertCaptionChunksAsTextTrack ::
    "wasm_api \<Rightarrow> (nat \<Rightarrow> uuid) \<Rightarrow> measurement \<Rightarrow> subtitle_cue list \<Rightarrow> manager \<Rightarrow> (js_error + uuid option) \<times> manager" where
  "insertCaptionChunksAsTextTrack w gen ctx cues m =
     (if cues = [] then (Inr None, m)
      else let n = id_counter (ed m); size = canvasSize (projectSettings (ed m))
           in case caption_elements w ctx (cs_width size) (cs_height size) 0 cues of
                Inl err \<Rightarrow> (Inl err, m)
              | Inr es \<Rightarrow>
                  (case manager_execute w gen (BatchCommand (caption_commands gen n es)) (m\<lparr>ed := (ed m)\<lparr>id_counter := Suc (n + length es)\<rparr>\<rparr>) of
                     (Some err, m') \<Rightarrow> (Inl err, m')
                   | (None, m') \<Rightarrow> (Inr (Some (gen n)), m')))"

end
