(* ===== verification/Subtitle_Proofs.thy ===== *)
theory Subtitle_Proofs
  imports Subtitles
begin

text \<open>
  What the subtitle parsers guarantee: the cues of any file are proper ones, and a file written in the usual form is read
  back exactly.
\<close>

section \<open>Proper cues\<close>

definition cue_ok :: "subtitle_cue \<Rightarrow> bool" where
  "cue_ok c \<longleftrightarrow> 0 \<le> cue_startTime c \<and> 0 < cue_duration c \<and> cue_text c \<noteq> [] \<and> trimmed (cue_text c)"

lemma stamp_seconds_nonneg: "0 \<le> stamp_seconds g"
  by (cases g rule: stamp_seconds.cases) simp

lemma parseSrtTimestamp_nonneg: "parseSrtTimestamp s = Some t \<Longrightarrow> 0 \<le> t"
  by (auto simp: parseSrtTimestamp_def stamp_seconds_nonneg split: option.splits list.splits prod.splits)

lemma parseAssTimestamp_nonneg: "parseAssTimestamp v = Some t \<Longrightarrow> 0 \<le> t"
  by (auto simp: parseAssTimestamp_def stamp_seconds_nonneg split: option.splits list.splits prod.splits if_splits)

lemma parse_block_ok: "parse_block b = Some c \<Longrightarrow> cue_ok c"
  by (auto simp: parse_block_def Let_def cue_ok_def parseSrtTimestamp_nonneg split: if_splits list.splits option.splits)

lemma dialogue_ok:
  "0 \<le> start \<Longrightarrow> 0 < d \<Longrightarrow> list_all cue_ok (ass_captions st) \<Longrightarrow> list_all cue_ok (ass_captions (dialogue_cue r start d st))"
  by (auto simp: dialogue_cue_def stripAssText_def Let_def cue_ok_def)

lemma event_line_ok: "list_all cue_ok (ass_captions st) \<Longrightarrow> list_all cue_ok (ass_captions (event_line l st))"
  by (auto simp: event_line_def Let_def dialogue_ok parseAssTimestamp_nonneg split: option.splits)

lemma ass_line_ok: "list_all cue_ok (ass_captions st) \<Longrightarrow> list_all cue_ok (ass_captions (ass_line l st))"
  by (auto simp: ass_line_def Let_def event_line_ok script_info_line_def style_line_def split: option.splits list.splits prod.splits)

lemma ass_lines_ok: "list_all cue_ok (ass_captions st) \<Longrightarrow> list_all cue_ok (ass_captions (fold ass_line ls st))"
  by (induction ls arbitrary: st) (simp_all add: ass_line_ok)

text \<open>Whatever a subtitle file holds, its cues are proper ones: they start at or after zero, last longer than nothing and have a
  text that is not empty and has no white space at its ends; any other extension than srt and ass is refused.\<close>
theorem subtitle_cues_ok:
  "case parseSubtitleFile fileName input of
     Inl err \<Rightarrow> getFileExtension fileName \<noteq> ''srt'' \<and> getFileExtension fileName \<noteq> ''ass''
   | Inr r \<Rightarrow> list_all cue_ok (captions r)"
proof -
  have "list_all cue_ok (captions (parseSrt input))"
    using parse_block_ok by (auto simp: parseSrt_def Let_def list_all_iff List.map_filter_def)
  moreover have "list_all cue_ok (captions (parseAss input))"
    by (simp add: parseAss_def Let_def ass_lines_ok ass_initial_def)
  ultimately show ?thesis by (simp add: parseSubtitleFile_def Let_def)
qed

section \<open>Files in the usual form\<close>

definition digit_char :: "nat \<Rightarrow> char" where
  "digit_char d = char_of (48 + d mod 10)"

definition two_digits :: "nat \<Rightarrow> string" where
  "two_digits n = [digit_char (n div 10), digit_char n]"

definition three_digits :: "nat \<Rightarrow> string" where
  "three_digits n = [digit_char (n div 100), digit_char (n div 10), digit_char n]"

text \<open>A time in milliseconds.\<close>

definition srt_time :: "nat \<Rightarrow> string" where
  "srt_time ms = two_digits (ms div 3600000) @ CHR '':'' # two_digits (ms div 60000 mod 60) @ CHR '':'' # two_digits (ms div 1000 mod 60)
     @ CHR '','' # three_digits (ms mod 1000)"

type_synonym srt_cue = "nat \<times> nat \<times> string list"

fun srt_lines :: "nat \<times> srt_cue \<Rightarrow> string list" where
  "srt_lines (i, a, b, ls) = show_nat i # (srt_time a @ '' --> '' @ srt_time b) # ls"

fun write_srt :: "(nat \<times> srt_cue) list \<Rightarrow> string" where
  "write_srt [] = []"
| "write_srt [c] = js_join LF (srt_lines c)"
| "write_srt (c # cs) = js_join LF (srt_lines c) @ LF # LF # write_srt cs"

definition line_ok :: "string \<Rightarrow> bool" where
  "line_ok l \<longleftrightarrow> l \<noteq> [] \<and> trimmed l \<and> LF \<notin> set l \<and> CR \<notin> set l"

definition srt_cue_ok :: "srt_cue \<Rightarrow> bool" where
  "srt_cue_ok c \<longleftrightarrow> (case c of (a, b, ls) \<Rightarrow> a < b \<and> b < 360000000 \<and> ls \<noteq> [] \<and> list_all line_ok ls)"

fun cue_of :: "srt_cue \<Rightarrow> subtitle_cue" where
  "cue_of (a, b, ls) = \<lparr>cue_text = js_join LF ls, cue_startTime = of_nat a / 1000, cue_duration = of_nat b / 1000 - of_nat a / 1000, cue_style = None\<rparr>"

lemma digit_char [simp]: "is_digit (digit_char d)" "of_char (digit_char d) = 48 + d mod 10" "\<not> js_space (digit_char d)"
  by (simp_all add: digit_char_def is_digit_def js_space_def)

lemma is_digit_not: "is_digit c \<Longrightarrow> c \<noteq> LF \<and> c \<noteq> CR \<and> c \<noteq> CHR ''-'' \<and> \<not> js_space c \<and> c \<noteq> CHR '',''"
  by (auto simp: is_digit_def LF_def CR_def js_space_def)

lemma digits_value_two: "n < 100 \<Longrightarrow> digits_value (two_digits n) = n"
  by (simp add: digits_value_def two_digits_def)

lemma digits_value_three:
  assumes "n < 1000"
  shows "digits_value (three_digits n) = n"
proof -
  have "n div 100 = n div 10 div 10" "n div 100 < 10" using assms by (simp_all add: div_mult2_eq [symmetric] less_mult_imp_div_less)
  then show ?thesis by (simp add: digits_value_def three_digits_def)
qed

lemma clock_time:
  assumes "sep \<in> set seps"
  shows "clock (digits_exactly 2) seps (two_digits h @ CHR '':'' # two_digits m @ CHR '':'' # two_digits s @ sep # three_digits f @ r)
    = Some ((two_digits h, two_digits m, two_digits s, three_digits f), r)"
  using assms by (simp add: clock_def digits_exactly_def one_of_def digits_upto_def two_digits_def three_digits_def numeral_3_eq_3 numeral_2_eq_2)

lemma srt_time_seconds:
  assumes "ms < 360000000"
  shows "parseSrtTimestamp (srt_time ms) = Some (of_nat ms / 1000)"
proof -
  define h m s f where "h = ms div 3600000" and "m = ms div 60000 mod 60" and "s = ms div 1000 mod 60" and "f = ms mod 1000"
  have b: "h < 100" "m < 100" "s < 100" "f < 1000" using assms by (simp_all add: h_def m_def s_def f_def less_mult_imp_div_less)
  have sum: "ms = ((h * 60 + m) * 60 + s) * 1000 + f"
  proof -
    define t where "t = ms div 1000"
    have "s = t mod 60" "m = t div 60 mod 60" "h = t div 60 div 60" by (simp_all add: s_def m_def h_def t_def div_mult2_eq [symmetric])
    then have "(h * 60 + m) * 60 + s = t" by simp
    then show ?thesis by (simp add: t_def f_def)
  qed
  have t: "srt_time ms = two_digits h @ CHR '':'' # two_digits m @ CHR '':'' # two_digits s @ CHR '','' # three_digits f"
    by (simp add: srt_time_def h_def m_def s_def f_def)
  have "trimmed (srt_time ms)" by (simp add: t trimmed_def two_digits_def three_digits_def)
  moreover have "replace_first CHR '','' CHR ''.'' (srt_time ms)
      = two_digits h @ CHR '':'' # two_digits m @ CHR '':'' # two_digits s @ CHR ''.'' # three_digits f @ []"
    using is_digit_not by (auto simp: t two_digits_def)
  ultimately have "parseSrtTimestamp (srt_time ms) = Some (stamp_seconds (two_digits h, two_digits m, two_digits s, three_digits f))"
    by (simp only: parseSrtTimestamp_def js_trim_trimmed) (subst clock_time, simp_all)
  also have "stamp_seconds (two_digits h, two_digits m, two_digits s, three_digits f) = of_nat ms / 1000"
    using b by (simp add: digits_value_two digits_value_three sum) (simp add: three_digits_def digits_value_three [unfolded three_digits_def])
  finally show ?thesis .
qed

lemma normalize_plain: "CR \<notin> set s \<Longrightarrow> normalize_newlines s = s"
  by (induction s) auto

lemma split_blocks_not_Nil [simp]: "split_blocks s \<noteq> []"
  by (cases s) (auto split: list.splits)

lemma split_blocks_line: "LF \<notin> set l \<Longrightarrow> split_blocks (l @ s) = (l @ hd (split_blocks s)) # tl (split_blocks s)"
  by (induction l) auto

lemma split_blocks_end: "LF \<notin> set l \<Longrightarrow> split_blocks l = [l]"
  using split_blocks_line [of l "[]"] by simp

lemma split_blocks_next: "LF \<notin> set l \<Longrightarrow> s \<noteq> [] \<Longrightarrow> hd s \<noteq> LF \<Longrightarrow> split_blocks (l @ LF # s) = (l @ LF # hd (split_blocks s)) # tl (split_blocks s)"
  using split_blocks_line [of l "LF # s"] by (auto split: list.splits)

lemma split_blocks_gap: "LF \<notin> set l \<Longrightarrow> s \<noteq> [] \<Longrightarrow> hd s \<noteq> LF \<Longrightarrow> split_blocks (l @ LF # LF # s) = l # split_blocks s"
  using split_blocks_line [of l "LF # LF # s"] dropWhile_eq_self_iff [of "\<lambda>x. x = LF" s] by simp

definition plain_line :: "string \<Rightarrow> bool" where
  "plain_line l \<longleftrightarrow> l \<noteq> [] \<and> LF \<notin> set l"

lemma join_head: "ls \<noteq> [] \<Longrightarrow> list_all plain_line ls \<Longrightarrow> js_join LF ls @ s \<noteq> [] \<and> hd (js_join LF ls @ s) \<noteq> LF"
  by (cases "(LF, ls)" rule: js_join.cases) (auto simp: plain_line_def hd_append dest: hd_in_set)

lemma split_blocks_one: "ls \<noteq> [] \<Longrightarrow> list_all plain_line ls \<Longrightarrow> split_blocks (js_join LF ls) = [js_join LF ls]"
proof (induction LF ls rule: js_join.induct)
  case (3 l l' ls)
  then show ?case using join_head [of "l' # ls" "[]"] by (simp add: split_blocks_next plain_line_def)
qed (auto simp: split_blocks_end plain_line_def)

lemma split_blocks_cons:
  "ls \<noteq> [] \<Longrightarrow> list_all plain_line ls \<Longrightarrow> s \<noteq> [] \<Longrightarrow> hd s \<noteq> LF \<Longrightarrow> split_blocks (js_join LF ls @ LF # LF # s) = js_join LF ls # split_blocks s"
proof (induction LF ls rule: js_join.induct)
  case (3 l l' ls)
  then show ?case using join_head [of "l' # ls" "LF # LF # s"] by (simp add: split_blocks_next plain_line_def)
qed (auto simp: split_blocks_gap plain_line_def)

lemma srt_time_LF: "LF \<notin> set (srt_time n)"
  using is_digit_not by (auto simp: srt_time_def two_digits_def three_digits_def LF_def) (metis LF_def digit_char(1))+

lemma srt_lines_plain: "srt_cue_ok c \<Longrightarrow> srt_lines (i, c) \<noteq> [] \<and> list_all plain_line (srt_lines (i, c))"
proof -
  assume c: "srt_cue_ok c"
  obtain a b ls where abl: "c = (a, b, ls)" by (cases c)
  have "LF \<notin> set (show_nat i)" using show_nat_value [of i] is_digit_not by (auto simp: list_all_iff)
  then show ?thesis using c srt_time_LF by (auto simp: abl srt_cue_ok_def plain_line_def line_ok_def list_all_iff LF_def)
qed

lemma split_written:
  "cs \<noteq> [] \<Longrightarrow> list_all (\<lambda>(_, c). srt_cue_ok c) cs \<Longrightarrow>
   split_blocks (write_srt cs) = map (\<lambda>c. js_join LF (srt_lines c)) cs \<and> write_srt cs \<noteq> [] \<and> hd (write_srt cs) \<noteq> LF"
proof (induction cs rule: write_srt.induct)
  case (2 c)
  obtain i x where c: "c = (i, x)" by (rule prod.exhaust)
  then show ?case using 2 srt_lines_plain [of x i] join_head [of "srt_lines c" "[]"] by (simp add: split_blocks_one del: srt_lines.simps)
next
  case (3 c c' cs)
  obtain i x where c: "c = (i, x)" by (rule prod.exhaust)
  show ?case using 3 srt_lines_plain [of x i] join_head [of "srt_lines c"] by (simp add: c split_blocks_cons del: srt_lines.simps)
qed simp

section \<open>Reading it back\<close>

lemma no_arrow: "CHR ''-'' \<notin> set s \<Longrightarrow> find_arrow s = None"
  by (induction s) auto

lemma first_arrow: "CHR ''-'' \<notin> set a \<Longrightarrow> find_arrow (a @ ''-->'' @ b) = Some (a, b)"
  by (induction a) auto

lemma digit_char_neq: "digit_char d \<noteq> CHR ''-''" "CHR ''-'' \<noteq> digit_char d" "CR \<noteq> digit_char d" "digit_char d \<noteq> CR"
  using is_digit_not [OF digit_char(1), of d] by auto

lemma srt_time_chars: "CHR ''-'' \<notin> set (srt_time n)" "trimmed (srt_time n)" "srt_time n \<noteq> []" "CR \<notin> set (srt_time n)"
  by (simp_all add: srt_time_def two_digits_def three_digits_def trimmed_def digit_char_neq) (simp add: CR_def)

lemma split_time_line:
  assumes "CHR ''-'' \<notin> set y" "y \<noteq> []" "\<not> js_space (hd y)"
  shows "split_arrows (srt_time a @ '' --> '' @ y) = [srt_time a, y]"
proof -
  have space: "js_space CHR '' ''" by (simp add: js_space_def)
  have "find_arrow ((srt_time a @ '' '') @ ''-->'' @ '' '' @ y) = Some (srt_time a @ '' '', '' '' @ y)"
    by (rule first_arrow) (simp add: srt_time_chars)
  moreover have "trim_right (srt_time a @ '' '') = srt_time a"
    using srt_time_chars [of a] dropWhile_eq_self_iff [of js_space "rev (srt_time a)"] by (simp add: trim_right_def space trimmed_def hd_rev)
  moreover have "dropWhile js_space ('' '' @ y) = y"
    using assms dropWhile_eq_self_iff [of js_space y] by (simp add: space)
  ultimately show ?thesis by (subst split_arrows.simps) (simp add: split_arrows.simps [of y] no_arrow assms(1))
qed

lemma time_line_pattern: "TIMESTAMP_PATTERN (srt_time a @ '' --> '' @ srt_time b @ r)"
proof -
  have space: "js_space CHR '' ''" "\<not> js_space CHR ''-''" by (simp_all add: js_space_def)
  have c: "clock (digits_exactly 2) '',.'' (srt_time n @ r) = Some ((two_digits (n div 3600000), two_digits (n div 60000 mod 60),
      two_digits (n div 1000 mod 60), three_digits (n mod 1000)), r)" for n r
    using clock_time [of "CHR '',''" "'',.''"] by (simp add: srt_time_def)
  have "dropWhile js_space (srt_time b @ r) = srt_time b @ r"
    using srt_time_chars [of b] dropWhile_eq_self_iff [of js_space "srt_time b @ r"] by (simp add: trimmed_def)
  then show ?thesis using c [of a "'' --> '' @ srt_time b @ r"] c [of b r] by (simp add: TIMESTAMP_PATTERN_def space)
qed

lemma number_line: "line_ok (show_nat i)" "CHR ''-'' \<notin> set (show_nat i)"
  using show_nat_value [of i] is_digit_not by (auto simp: line_ok_def trimmed_def list_all_iff)

lemma block_lines:
  assumes "L \<noteq> []" "list_all (\<lambda>l. l \<noteq> [] \<and> trimmed l \<and> LF \<notin> set l) L"
  shows "filter (\<lambda>l. l \<noteq> []) (map js_trim (js_split LF (js_join LF L))) = L"
proof -
  have "js_split LF (js_join LF L) = L" using assms by (intro js_split_join) (auto simp: list_all_iff)
  moreover have "map js_trim L = L" "filter (\<lambda>l. l \<noteq> []) L = L" using assms(2) by (auto simp: js_trim_trimmed map_idI list_all_iff)
  ultimately show ?thesis by simp
qed

lemma trimmed_join: "ls \<noteq> [] \<Longrightarrow> list_all line_ok ls \<Longrightarrow> js_join LF ls \<noteq> [] \<and> trimmed (js_join LF ls)"
proof (induction LF ls rule: js_join.induct)
  case (3 l l' ls)
  then show ?case by (auto simp: line_ok_def trimmed_def hd_append)
qed (auto simp: line_ok_def)

lemma parse_lines:
  assumes "filter (\<lambda>l. l \<noteq> []) (map js_trim (js_split LF b)) = n # T # ls" "CHR ''-'' \<notin> set n" "TIMESTAMP_PATTERN T" "split_arrows T = [x, y]"
    and "x \<noteq> []" "y \<noteq> []" "trimmed (js_join LF ls)" "js_join LF ls \<noteq> []"
  shows "parse_block b = (case (parseSrtTimestamp x, parseSrtTimestamp y) of
      (Some s, Some e) \<Rightarrow> if e - s \<le> 0 then None else Some \<lparr>cue_text = js_join LF ls, cue_startTime = s, cue_duration = e - s, cue_style = None\<rparr>
    | _ \<Rightarrow> None)"
  unfolding parse_block_def assms(1) Let_def by (simp add: assms js_trim_trimmed has_arrow_def no_arrow split: option.split)

lemma parse_time_line:
  assumes "srt_cue_ok (a, b, ls)" "y = srt_time b @ r" "trimmed y" "LF \<notin> set r" "CHR ''-'' \<notin> set r"
  shows "parse_block (js_join LF (show_nat i # (srt_time a @ '' --> '' @ y) # ls)) =
    (case (parseSrtTimestamp (srt_time a), parseSrtTimestamp y) of
      (Some s, Some e) \<Rightarrow> if e - s \<le> 0 then None else Some \<lparr>cue_text = js_join LF ls, cue_startTime = s, cue_duration = e - s, cue_style = None\<rparr>
    | _ \<Rightarrow> None)"
proof -
  have ok: "ls \<noteq> []" "list_all line_ok ls" using assms(1) by (simp_all add: srt_cue_ok_def)
  have y: "y \<noteq> []" "CHR ''-'' \<notin> set y" "\<not> js_space (hd y)" using assms srt_time_chars [of b] by (simp_all add: trimmed_def)
  let ?T = "srt_time a @ '' --> '' @ y"
  have "?T \<noteq> []" "trimmed ?T" using y(1) assms(3) srt_time_chars [of a] by (simp_all add: trimmed_def)
  moreover have "LF \<notin> set ?T" using srt_time_LF [of a] srt_time_LF [of b] assms(2,4) by (simp add: LF_def)
  ultimately have "list_all (\<lambda>l. l \<noteq> [] \<and> trimmed l \<and> LF \<notin> set l) (show_nat i # ?T # ls)"
    using number_line(1) [of i] ok(2) by (auto simp: line_ok_def list_all_iff)
  note lines = block_lines [OF _ this, simplified]
  have "TIMESTAMP_PATTERN ?T" using time_line_pattern [of a b r] by (simp only: assms(2))
  from parse_lines [OF _ number_line(2) this split_time_line [OF y(2,1,3)] srt_time_chars(3) y(1)] show ?thesis
    using lines trimmed_join [OF ok] by simp
qed

lemma parse_written:
  assumes "srt_cue_ok c"
  shows "parse_block (js_join LF (srt_lines (i, c))) = Some (cue_of c)"
proof -
  obtain a b ls where c: "c = (a, b, ls)" by (cases c)
  have ok: "a < b" "b < 360000000" using assms by (simp_all add: srt_cue_ok_def c)
  then show ?thesis using parse_time_line [of a b ls "srt_time b" "[]" i] assms
    by (simp add: c srt_time_chars srt_time_seconds field_simps)
qed

lemma join_last: "ls \<noteq> [] \<Longrightarrow> last ls \<noteq> [] \<Longrightarrow> js_join LF ls \<noteq> [] \<and> last (js_join LF ls) = last (last ls)"
  by (induction LF ls rule: js_join.induct) auto

lemma join_chars: "set (js_join LF ls) \<subseteq> insert LF (\<Union> (set ` set ls))"
  by (induction LF ls rule: js_join.induct) auto

lemma written_block:
  assumes "srt_cue_ok c"
  shows "CR \<notin> set (js_join LF (srt_lines (i, c)))" "is_digit (hd (js_join LF (srt_lines (i, c)) @ r))"
    "\<not> js_space (last (js_join LF (srt_lines (i, c))))" "js_join LF (srt_lines (i, c)) \<noteq> []"
proof -
  obtain a b ls where c: "c = (a, b, ls)" by (cases c)
  have ok: "ls \<noteq> []" "list_all line_ok ls" using assms by (simp_all add: srt_cue_ok_def c)
  have num: "list_all is_digit (show_nat i)" "show_nat i \<noteq> []" using show_nat_value by simp_all
  have "\<forall>l \<in> set (srt_lines (i, c)). CR \<notin> set l"
    using num(1) is_digit_not srt_time_chars(4) ok(2) by (auto simp: c list_all_iff line_ok_def CR_def)
  moreover have "CR \<noteq> LF" by (simp add: CR_def LF_def)
  ultimately show "CR \<notin> set (js_join LF (srt_lines (i, c)))" using join_chars [of "srt_lines (i, c)"] by blast
  show "is_digit (hd (js_join LF (srt_lines (i, c)) @ r))" using num by (cases "show_nat i") (auto simp: c)
  have l: "last ls \<in> set ls" using ok(1) by simp
  have "line_ok (last ls)" using ok(2) l by (simp add: list_all_iff)
  then show "\<not> js_space (last (js_join LF (srt_lines (i, c))))" "js_join LF (srt_lines (i, c)) \<noteq> []"
    using ok(1) join_last [of "srt_lines (i, c)"] by (auto simp: c line_ok_def trimmed_def)
qed

lemma written_chars:
  "cs \<noteq> [] \<Longrightarrow> list_all (\<lambda>(_, c). srt_cue_ok c) cs \<Longrightarrow>
   CR \<notin> set (write_srt cs) \<and> write_srt cs \<noteq> [] \<and> is_digit (hd (write_srt cs)) \<and> \<not> js_space (last (write_srt cs))"
proof (induction cs rule: write_srt.induct)
  case (2 c)
  obtain i x where c: "c = (i, x)" by (rule prod.exhaust)
  then show ?case using 2 written_block(1,3,4) [of x i] written_block(2) [of x i "[]"] by (simp del: srt_lines.simps)
next
  case (3 c c' cs)
  obtain i x where c: "c = (i, x)" by (rule prod.exhaust)
  have "CR \<noteq> LF" by (simp add: CR_def LF_def)
  then show ?case using 3 written_block(1,3,4) [of x i] written_block(2) [of x i "LF # LF # write_srt (c' # cs)"] by (simp add: c del: srt_lines.simps)
qed simp

text \<open>C27: A subtitle file in the usual SRT form is read back exactly: for any cues whose times are below a hundred hours and in
  order, and whose lines are not empty and neither begin nor end with white space (which the parser would trim), every cue comes
  back with its times and its text, numbered in any way, and none is skipped.\<close>
theorem srt_roundtrip:
  assumes "cs \<noteq> []" "list_all (\<lambda>(_, c). srt_cue_ok c) cs"
  shows "parseSrt (write_srt cs) = \<lparr>captions = map (cue_of \<circ> snd) cs, skippedCueCount = 0, warnings = []\<rparr>"
proof -
  have w: "js_trim (normalize_newlines (write_srt cs)) = write_srt cs"
    using written_chars [OF assms] is_digit_not by (simp add: normalize_plain js_trim_trimmed trimmed_def)
  have "map parse_block (split_blocks (write_srt cs)) = map (Some \<circ> cue_of \<circ> snd) cs"
    using split_written [OF assms] assms(2) parse_written by (auto simp: list_all_iff simp del: srt_lines.simps)
  moreover have "write_srt cs \<noteq> []" using split_written [OF assms] by simp
  ultimately show ?thesis unfolding parseSrt_def w Let_def by (simp add: List.map_filter_def comp_def)
qed

theorem srt_roundtrip_witness:
  "captions (parseSrt (write_srt [(1, 1500, 2250, [''Hello,'', ''world'']), (7, 3000, 3001, [''-->''])]))
   = [\<lparr>cue_text = js_join LF [''Hello,'', ''world''], cue_startTime = 3 / 2, cue_duration = 3 / 4, cue_style = None\<rparr>,
      \<lparr>cue_text = ''-->'', cue_startTime = 3, cue_duration = 1 / 1000, cue_style = None\<rparr>]"
proof -
  have "list_all (\<lambda>(_, c). srt_cue_ok c) [(1 :: nat, 1500, 2250, [''Hello,'', ''world'']), (7, 3000, 3001, [''-->''])]"
    by (simp add: srt_cue_ok_def line_ok_def trimmed_def js_space_def LF_def CR_def)
  from srt_roundtrip [OF _ this] show ?thesis by (simp del: write_srt.simps)
qed

text \<open>The second time of a line with something behind it.\<close>

lemma trailing_time:
  assumes "p \<noteq> []" "trimmed p"
  shows "parseSrtTimestamp (srt_time b @ CHR '' '' # p) = None"
proof -
  have "trimmed (srt_time b @ CHR '' '' # p)" using assms srt_time_chars [of b] by (simp add: trimmed_def)
  moreover have "replace_first CHR '','' CHR ''.'' (srt_time b @ r)
      = two_digits (b div 3600000) @ CHR '':'' # two_digits (b div 60000 mod 60) @ CHR '':'' # two_digits (b div 1000 mod 60) @ CHR ''.'' # three_digits (b mod 1000) @ r" for r
    using is_digit_not [OF digit_char(1)] by (simp add: srt_time_def two_digits_def)
  ultimately show ?thesis by (simp only: parseSrtTimestamp_def js_trim_trimmed) (subst clock_time, simp_all)
qed

text \<open>A cue whose time line carries more than the two times, as the coordinates that SRT files may give, is lost: the line passes
  the pattern, which has no end anchor, and then the second time, which has one, is no time.\<close>
theorem positioned_cue_lost:
  assumes "p \<noteq> []" "trimmed p" "CHR ''-'' \<notin> set p" "LF \<notin> set p" "srt_cue_ok (a, b, ls)"
  shows "TIMESTAMP_PATTERN (srt_time a @ '' --> '' @ srt_time b @ CHR '' '' # p)
    \<and> parse_block (js_join LF (show_nat i # (srt_time a @ '' --> '' @ srt_time b @ CHR '' '' # p) # ls)) = None"
proof -
  have "trimmed (srt_time b @ CHR '' '' # p)" using assms(1,2) srt_time_chars [of b] by (simp add: trimmed_def)
  moreover have "CHR '' '' \<noteq> LF" by (simp add: LF_def)
  ultimately show ?thesis
    using time_line_pattern [of a b "CHR '' '' # p"] parse_time_line [OF assms(5) refl, of "CHR '' '' # p" i] trailing_time [OF assms(1,2), of b] assms(3,4)
    by (simp split: option.split)
qed

theorem positioned_cue_lost_witness:
  "parse_block (js_join LF (show_nat 1 # (srt_time 1000 @ '' --> '' @ srt_time 2000 @ CHR '' '' # ''X1:40 X2:600'') # [''Hello''])) = None"
proof -
  have "srt_cue_ok (1000, 2000, [''Hello''])" by (simp add: srt_cue_ok_def line_ok_def trimmed_def js_space_def LF_def CR_def)
  then show ?thesis by (intro conjunct2 [OF positioned_cue_lost]) (simp_all add: trimmed_def js_space_def LF_def)
qed

end
