(* ===== verification/Caption_Proofs.thy ===== *)
theory Caption_Proofs
  imports Subtitle_Elements Subtitle_Proofs Group_Resize
begin

text \<open>
  What happens to a subtitle on its way to the timeline: wrapping keeps the words, the text stays between its margins, and the
  cues of a file all arrive on one new track, where nothing keeps them apart.
\<close>

section \<open>Words\<close>

fun words_acc :: "string \<Rightarrow> string \<Rightarrow> string list" where
  "words_acc cur [] = (if cur = [] then [] else [cur])"
| "words_acc cur (c # s) = (if js_space c then (if cur = [] then [] else [cur]) @ words_acc [] s else words_acc (cur @ [c]) s)"

definition words :: "string \<Rightarrow> string list" where
  "words s = words_acc [] s"

lemma words_acc_append: "js_space c \<Longrightarrow> words_acc cur (a @ c # b) = words_acc cur a @ words b"
  by (induction a arbitrary: cur) (auto simp: words_def)

lemma words_append: "js_space c \<Longrightarrow> words (a @ c # b) = words a @ words b"
  using words_acc_append by (simp add: words_def)

lemma words_Nil [simp]: "words [] = []" by (simp add: words_def)

lemma words_space [simp]: "js_space c \<Longrightarrow> words (c # s) = words s"
  using words_append [of c "[]" s] by simp

lemma words_dropWhile [simp]: "words (dropWhile js_space s) = words s"
  by (induction s) auto

lemma words_snoc: "js_space c \<Longrightarrow> words (s @ [c]) = words s"
  using words_append [of c s "[]"] by simp

lemma words_drop_end: "words (rev (dropWhile js_space (rev s))) = words s"
  by (induction s rule: rev_induct) (auto simp: words_snoc)

lemma words_js_trim [simp]: "words (js_trim s) = words s"
  by (simp add: js_trim_def words_drop_end)

lemma words_one: "list_all (\<lambda>c. \<not> js_space c) s \<Longrightarrow> words_acc cur s = (if cur @ s = [] then [] else [cur @ s])"
  by (induction s arbitrary: cur) auto

lemma split_words_not_Nil [simp]: "split_words s \<noteq> []"
  by (cases s) (auto split: list.splits)

lemma split_words_acc: "filter (\<lambda>w. w \<noteq> []) ((cur @ hd (split_words s)) # tl (split_words s)) = words_acc cur s"
proof (induction s arbitrary: cur rule: split_words.induct)
  case (2 c s)
  show ?case
  proof (cases "js_space c")
    case True
    obtain w ws where w: "split_words (dropWhile js_space s) = w # ws" by (cases "split_words (dropWhile js_space s)") auto
    then have "filter (\<lambda>w. w \<noteq> []) (split_words (dropWhile js_space s)) = words (dropWhile js_space s)"
      using 2(1) [OF True, of "[]"] by (simp add: words_def)
    then show ?thesis using True by (simp add: words_def [symmetric])
  next
    case False
    obtain w ws where w: "split_words s = w # ws" by (cases "split_words s") auto
    then show ?thesis using 2(2) [OF False, of "cur @ [c]"] False by simp
  qed
qed simp

lemma split_words_words: "filter (\<lambda>w. w \<noteq> []) (split_words s) = words s"
  using split_words_acc [of "[]" s] by (simp add: words_def)

lemma split_words_spaceless: "list_all (list_all (\<lambda>c. \<not> js_space c)) (split_words s)"
proof (induction s rule: split_words.induct)
  case (2 c s)
  then show ?case by (cases "split_words s") auto
qed simp

lemma LF_space [simp]: "js_space LF" "js_space CR" "js_space CHR '' ''"
  by (simp_all add: js_space_def LF_def CR_def)

lemma words_join: "words (js_join LF ls) = concat (map words ls)"
  by (induction LF ls rule: js_join.induct) (simp_all add: words_append)

lemma words_acc_join_crlf: "words_acc cur (join_crlf s) = words_acc cur s"
  by (induction s arbitrary: cur rule: join_crlf.induct) auto

lemma words_join_crlf [simp]: "words (join_crlf s) = words s"
  using words_acc_join_crlf by (simp add: words_def)

section \<open>Wrapping\<close>

lemma wrap_words_words: "concat (map words (wrap_words f m cur ws)) = words cur @ concat (map words ws)"
  by (induction ws arbitrary: cur) (simp_all add: Let_def words_append)

lemma words_of_words: "concat (map words (split_words s)) = words s"
proof -
  have "concat (map words ws) = filter (\<lambda>w. w \<noteq> []) ws" if "list_all (list_all (\<lambda>c. \<not> js_space c)) ws" for ws
    using that by (induction ws) (auto simp: words_def words_one)
  then show ?thesis using split_words_spaceless split_words_words by metis
qed

lemma wrap_paragraph_words: "words (wrap_paragraph f m p) = words p"
proof (cases "js_trim p = []")
  case True
  then show ?thesis using words_js_trim [of p] by (simp add: wrap_paragraph_def)
next
  case False
  obtain w ws where w: "split_words (js_trim p) = w # ws" by (cases "split_words (js_trim p)") auto
  then show ?thesis using False words_of_words [of "js_trim p"] by (simp add: wrap_paragraph_def words_join wrap_words_words)
qed

definition spaceless :: "string \<Rightarrow> bool" where
  "spaceless s \<longleftrightarrow> (\<forall>c \<in> set s. \<not> js_space c)"

lemma wrap_words_step:
  "wrap_words f m cur (w # ws) = wrap_words f m (cur @ CHR '' '' # w) ws \<and> f (cur @ CHR '' '' # w) \<le> m
   \<or> wrap_words f m cur (w # ws) = cur # wrap_words f m w ws"
  by (auto simp: Let_def)

lemma wrap_words_lines: "\<forall>l \<in> set (wrap_words f m cur ws). f l \<le> m \<or> l = cur \<or> l \<in> set ws"
proof (induction ws arbitrary: cur)
  case (Cons w ws)
  show ?case using wrap_words_step [of f m cur w ws]
  proof (elim disjE)
    assume s: "wrap_words f m cur (w # ws) = wrap_words f m (cur @ CHR '' '' # w) ws \<and> f (cur @ CHR '' '' # w) \<le> m"
    then show ?thesis using Cons [of "cur @ CHR '' '' # w"] by (metis list.set_intros(2))
  next
    assume "wrap_words f m cur (w # ws) = cur # wrap_words f m w ws"
    then show ?thesis using Cons [of w] by (metis list.set_intros set_ConsD)
  qed
qed simp

lemma wrap_words_LF: "LF \<notin> set cur \<Longrightarrow> \<forall>w \<in> set ws. LF \<notin> set w \<Longrightarrow> \<forall>l \<in> set (wrap_words f m cur ws). LF \<notin> set l"
proof (induction ws arbitrary: cur)
  case (Cons w ws)
  have "CHR '' '' \<noteq> LF" by (simp add: LF_def)
  then have joined: "LF \<notin> set (cur @ CHR '' '' # w)" and w: "LF \<notin> set w" and ws: "\<forall>w \<in> set ws. LF \<notin> set w" using Cons.prems by simp_all
  show ?case using wrap_words_step [of f m cur w ws] Cons.IH [OF joined ws] Cons.IH [OF w ws] Cons.prems(1) by (metis set_ConsD)
qed simp

text \<open>The lines of a wrapped paragraph.\<close>

definition paragraph_lines :: "(string \<Rightarrow> rat) \<Rightarrow> rat \<Rightarrow> string \<Rightarrow> string list" where
  "paragraph_lines f m p =
     (if js_trim p = [] then [[]] else wrap_words f m (hd (split_words (js_trim p))) (tl (split_words (js_trim p))))"

lemma wrap_words_not_Nil [simp]: "wrap_words f m cur ws \<noteq> []"
  by (induction ws arbitrary: cur) (auto simp: Let_def)

lemma wrap_paragraph_lines: "wrap_paragraph f m p = js_join LF (paragraph_lines f m p)" "paragraph_lines f m p \<noteq> []"
  by (auto simp: wrap_paragraph_def paragraph_lines_def split: list.split)

lemma paragraph_lines_ok:
  assumes "l \<in> set (paragraph_lines f m p)"
  shows "LF \<notin> set l \<and> (f l \<le> m \<or> spaceless l \<and> (l = [] \<or> l \<in> set (words p)))"
proof (cases "js_trim p = []")
  case True
  then show ?thesis using assms by (simp add: paragraph_lines_def spaceless_def)
next
  case False
  obtain w ws where w: "split_words (js_trim p) = w # ws" by (cases "split_words (js_trim p)") auto
  have sp: "\<forall>x \<in> set (w # ws). spaceless x" using split_words_spaceless [of "js_trim p"] by (auto simp: w spaceless_def list_all_iff)
  have "\<forall>x \<in> set (w # ws). x = [] \<or> x \<in> set (words p)"
    using arg_cong [OF split_words_words [of "js_trim p"], of set] by (auto simp: w split: if_splits)
  then show ?thesis using assms False w sp wrap_words_lines [of f m w ws] wrap_words_LF [of w ws f m] LF_space(1)
    by (fastforce simp: paragraph_lines_def spaceless_def)
qed

lemma join_join: "\<forall>ls \<in> set lss. ls \<noteq> [] \<Longrightarrow> js_join LF (map (js_join LF) lss) = js_join LF (concat lss)"
proof (induction lss)
  case (Cons ls lss)
  have app: "xs \<noteq> [] \<Longrightarrow> ys \<noteq> [] \<Longrightarrow> js_join LF (xs @ ys) = js_join LF xs @ LF # js_join LF ys" for xs ys
    by (induction LF xs rule: js_join.induct) (auto simp: neq_Nil_conv)
  show ?case using Cons by (cases lss) (auto simp: app)
qed simp

lemma wrapped:
  "words (wrapSubtitleText f m s) = words s
   \<and> list_all (\<lambda>l. f l \<le> m \<or> spaceless l \<and> (l = [] \<or> l \<in> set (words s))) (js_split LF (wrapSubtitleText f m s))"
proof -
  define ps where "ps = js_split LF (join_crlf (js_trim s))"
  have ws: "concat (map words ps) = words s" using words_join [of ps] by (simp add: ps_def)
  have "words (wrapSubtitleText f m s) = concat (map words ps)"
    by (simp add: wrapSubtitleText_def words_join ps_def [symmetric] comp_def wrap_paragraph_words)
  moreover have "map (wrap_paragraph f m) ps = map (js_join LF) (map (paragraph_lines f m) ps)" by (simp add: wrap_paragraph_lines(1))
  then have "wrapSubtitleText f m s = js_join LF (concat (map (paragraph_lines f m) ps))"
    using join_join [of "map (paragraph_lines f m) ps"] wrap_paragraph_lines(2) by (simp add: wrapSubtitleText_def ps_def [symmetric] del: map_map)
  moreover have "js_split LF (js_join LF (concat (map (paragraph_lines f m) ps))) = concat (map (paragraph_lines f m) ps)"
  proof (rule js_split_join)
    have "ps \<noteq> []" by (simp add: ps_def)
    then show "concat (map (paragraph_lines f m) ps) \<noteq> []" using wrap_paragraph_lines(2) by (cases ps) simp_all
    show "\<forall>l \<in> set (concat (map (paragraph_lines f m) ps)). LF \<notin> set l" using paragraph_lines_ok by fastforce
  qed
  moreover have "f l \<le> m \<or> spaceless l \<and> (l = [] \<or> l \<in> set (words s))" if "p \<in> set ps" "l \<in> set (paragraph_lines f m p)" for p l
  proof -
    have "set (words p) \<subseteq> set (words s)" using that(1) by (auto simp flip: ws)
    then show ?thesis using paragraph_lines_ok [OF that(2)] by blast
  qed
  ultimately show ?thesis using ws by (simp add: list_all_iff)
qed

text \<open>C29: Wrapping a subtitle changes nothing but white space: the words stay the same in the same order, and every line fits into the
  width unless it is a single word.\<close>
theorem wrap_keeps_words:
  "words (wrapSubtitleText f m s) = words s
   \<and> list_all (\<lambda>l. f l \<le> m \<or> spaceless l \<and> (l = [] \<or> l \<in> set (words s))) (js_split LF (wrapSubtitleText f m s))"
  by (rule wrapped)

section \<open>The place on the canvas\<close>

lemma fold_max: "(0 :: rat) \<le> fold (\<lambda>x m. max m x) xs 0 \<and> (\<forall>b \<ge> 0. (\<forall>x \<in> set xs. x \<le> b) \<longrightarrow> fold (\<lambda>x m. max m x) xs 0 \<le> b)"
proof -
  have "c \<le> fold (\<lambda>x m. max m x) xs c \<and> (\<forall>b \<ge> c. (\<forall>x \<in> set xs. x \<le> b) \<longrightarrow> fold (\<lambda>x m. max m x) xs c \<le> b)" for c :: rat
  proof (induction xs arbitrary: c)
    case (Cons x xs)
    show ?case using Cons [of "max c x"] by auto
  qed simp
  then show ?thesis by simp
qed

definition margin_left :: "resolved_style \<Rightarrow> rat" where "margin_left s = or_default (marginLeftRatio (rs_placement s)) 0"
definition margin_right :: "resolved_style \<Rightarrow> rat" where "margin_right s = or_default (marginRightRatio (rs_placement s)) 0"

lemma target_width:
  assumes "0 \<le> cw" "0 \<le> margin_left s" "0 \<le> margin_right s" "margin_left s + margin_right s \<le> 1"
  shows "0 \<le> resolveTargetWidth cw (rs_placement s)" "resolveTargetWidth cw (rs_placement s) \<le> cw - cw * margin_left s - cw * margin_right s"
proof -
  have "0 \<le> cw * (1 - margin_left s - margin_right s)" using assms by (intro mult_nonneg_nonneg) simp_all
  then show "0 \<le> resolveTargetWidth cw (rs_placement s)" "resolveTargetWidth cw (rs_placement s) \<le> cw - cw * margin_left s - cw * margin_right s"
    using assms unfolding resolveTargetWidth_def Let_def margin_left_def [symmetric] margin_right_def [symmetric] by (auto simp: algebra_simps)
qed

text \<open>C30: A caption stays between its margins: when each of its words fits into the width the style leaves, and its background is not
  drawn, the wrapped text lies between the left and the right margin of the canvas, for every alignment.\<close>
theorem caption_inside_margins:
  assumes "0 \<le> cw" "0 \<le> margin_left s" "0 \<le> margin_right s" "margin_left s + margin_right s \<le> 1" "\<not> isTextBackgroundVisible (rs_background s)"
    and "width = measureText (caption_font s ch) (rs_letterSpacing s)"
    and "list_all (\<lambda>x. width x \<le> resolveTargetWidth cw (rs_placement s)) ([] # words t)"
    and "caption_layout (Some measureText) s t cw ch = (content, x, y)" "v = measureWrappedTextBlock width content ch s"
  shows "words content = words t \<and> cw * margin_left s \<le> cw / 2 + x + tr_left v
    \<and> cw / 2 + x + tr_left v + tr_width v \<le> cw - cw * margin_right s"
proof -
  define m where "m = resolveTargetWidth cw (rs_placement s)"
  have m: "0 \<le> m" "m \<le> cw - cw * margin_left s - cw * margin_right s" using target_width [OF assms(1-4)] by (simp_all add: m_def)
  have c: "content = wrapSubtitleText width m t" "x = resolvePositionX cw (rs_textAlign s) (rs_placement s) v"
    using assms(8) by (auto simp: caption_layout_def Let_def assms(6,9) m_def)
  have "\<forall>line \<in> set (js_split LF content). width line \<le> m"
    using wrapped [of width m t] assms(7) by (auto simp: c(1) m_def list_all_iff)
  moreover have v: "tr_width v = fold (\<lambda>x m. max m x) (map width (js_split LF content)) 0"
      "tr_left v = (if rs_textAlign s = ''left'' then 0 else if rs_textAlign s = ''right'' then - tr_width v else - tr_width v / 2)"
    by (simp_all add: assms(9) measureWrappedTextBlock_def getTextVisualRect_def getTextBackgroundRect_def assms(5) getTextRect_def measureTextBlock_def Let_def)
  ultimately have w: "0 \<le> tr_width v" "tr_width v \<le> m" using fold_max [of "map width (js_split LF content)"] m(1) by auto
  have "cw * margin_left s \<le> cw / 2 + x + tr_left v \<and> cw / 2 + x + tr_left v + tr_width v \<le> cw - cw * margin_right s"
    using w m v(2) unfolding c(2) resolvePositionX_def Let_def margin_left_def [symmetric] margin_right_def [symmetric]
    by (auto simp: field_simps)
  then show ?thesis using wrapped [of width m t] by (simp add: c(1))
qed

section \<open>The track of the captions\<close>

lemma insert_caption:
  assumes "overlay ts = tr # os" "trackId tr = tid" "trackType tr = TText" "trackId (main ts) \<noteq> tid"
    and "elementType (ce_element c) = EText" "truthy_field ''content'' (ce_element c)"
  shows "insertElement w gen n assets settings c (ExplicitPlacement tid) eid ts
    = ([], updated (ts\<lparr>overlay := tr\<lparr>elements := elements tr @ [buildElement w eid c]\<rparr> # os\<rparr>)
        (Some (createElementSelectionResult [\<lparr>ref_trackId = tid, ref_elementId = eid\<rparr>])), n)"
proof -
  have e: "elementType (buildElement w eid c) = EText" using assms(5) by (simp add: buildElement_def)
  have res: "resolveTrackPlacement ts TText [span_of (buildElement w eid c)] (Explicit tid) = Some (ExistingTrack tid 0 TText None)"
    using assms(1-4) by (simp add: resolveTrackPlacement_def orderedTracks_def buildExistingTrackResult_def enforceMainTrackStart_def Let_def)
  have "applyPlacementResult gen n (ExplicitPlacement tid) (buildElement w eid c) ts
      = (Some (ts\<lparr>overlay := tr\<lparr>elements := elements tr @ [buildElement w eid c]\<rparr> # os\<rparr>, tid), n)"
    using assms(1-4) e res by (simp add: applyPlacementResult_def applyPlacement_def ids_drawn_def with_adjusted_start_def js_at_def orderedTracks_def
        updateTrackInSceneTracks_def)
  then show ?thesis using assms(5,6) e by (simp add: insertElement_def validateElementBasics_def requiresMediaId_def)
qed

text \<open>Executing the insertions one after the other.\<close>

lemma insert_captions:
  assumes "active e = Some s" "overlay (tracks s) = tr # os" "trackId tr = tid" "trackType tr = TText" "trackId (main (tracks s)) \<noteq> tid"
    and "list_all (\<lambda>c. elementType (ce_element c) = EText \<and> truthy_field ''content'' (ce_element c)) es"
  shows "\<exists>sel cs' e' s'. execute_all w gen (map (\<lambda>(k, c). TimelineCommand (InsertElementCommand c (ExplicitPlacement tid) (f k)) None) (List.enumerate j es)) latest e
      = (Inr sel, cs', e') \<and> active e' = Some s' \<and>
      tracks s' = (tracks s)\<lparr>overlay := tr\<lparr>elements := elements tr @ map (\<lambda>(k, c). buildElement w (f k) c) (List.enumerate j es)\<rparr> # os\<rparr>"
  using assms
proof (induction es arbitrary: e s tr j latest)
  case (Cons c es)
  define tr' where "tr' = tr\<lparr>elements := elements tr @ [buildElement w (f j) c]\<rparr>"
  define s1 where "s1 = s\<lparr>tracks := (tracks s)\<lparr>overlay := tr' # os\<rparr>\<rparr>"
  obtain sel1 c1 e1 where x: "execute w gen (TimelineCommand (InsertElementCommand c (ExplicitPlacement tid) (f j)) None) e = (Inr sel1, c1, e1)"
      "active e1 = Some s1"
    using Cons.prems insert_caption [of "tracks s" tr os tid c w gen "id_counter e" "mediaAssets e" "projectSettings e" "f j"]
    by (simp add: execute_timeline_def run_timeline_def settings_of_command_def merge_settings_def updateTracks_def updateSceneTracks_def s1_def tr'_def Let_def)
  have "overlay (tracks s1) = tr' # os" "trackId tr' = tid" "trackType tr' = TText" "trackId (main (tracks s1)) \<noteq> tid"
    using Cons.prems by (simp_all add: s1_def tr'_def)
  from Cons.IH [OF x(2) this, of "Suc j" "case sel1 of None \<Rightarrow> latest | Some p \<Rightarrow> Some p"] Cons.prems(6) show ?case
    using x(1) by (auto simp: s1_def tr'_def)
qed auto

text \<open>The text element that a cue becomes.\<close>

definition caption_as :: "wasm_api \<Rightarrow> subtitle_cue \<Rightarrow> timeline_element \<Rightarrow> bool" where
  "caption_as w c x \<longleftrightarrow> mediaTimeFromSeconds w (cue_startTime c) = Inr (startTime x) \<and> mediaTimeFromSeconds w (cue_duration c) = Inr (duration x)
     \<and> elementType x = EText \<and> (\<exists>t. map_of (rest x) ''content'' = Some (JString t) \<and> t \<noteq> [] \<and> words t = words (cue_text c))"

lemma words_some: "s \<noteq> [] \<Longrightarrow> trimmed s \<Longrightarrow> words s \<noteq> []"
proof -
  have "words_acc cur s \<noteq> []" if "cur \<noteq> []" for cur s using that by (induction s arbitrary: cur) auto
  then show "s \<noteq> [] \<Longrightarrow> trimmed s \<Longrightarrow> words s \<noteq> []" by (cases s) (auto simp: words_def trimmed_def)
qed

lemma built_caption:
  assumes "buildSubtitleTextElement w ctx cw ch k c = Inr e" "cue_ok c"
  shows "caption_as w c (buildElement w eid e) \<and> elementType (ce_element e) = EText \<and> truthy_field ''content'' (ce_element e)"
proof -
  let ?s = "resolveSubtitleStyle (cue_style c)"
  obtain t x y where l: "caption_layout ctx ?s (cue_text c) cw ch = (t, x, y)" by (rule prod_cases3)
  have "words t = words (cue_text c)" using l wrapped by (auto simp: caption_layout_def Let_def split: option.splits)
  moreover from this have "t \<noteq> []" using assms(2) words_some [of "cue_text c"] by (auto simp: cue_ok_def)
  ultimately show ?thesis using assms(1) l
    by (auto simp: buildSubtitleTextElement_def Let_def caption_as_def buildElement_def truthy_field_def text_fields_def split: sum.splits)
qed

lemma built_captions:
  assumes "caption_elements w ctx cw ch k cues = Inr es" "list_all cue_ok cues"
  shows "list_all2 (caption_as w) cues (map (\<lambda>(k, c). buildElement w (f k) c) (List.enumerate j es))
    \<and> list_all (\<lambda>c. elementType (ce_element c) = EText \<and> truthy_field ''content'' (ce_element c)) es"
  using assms
proof (induction cues arbitrary: k es j)
  case (Cons c cues)
  obtain e es' where "buildSubtitleTextElement w ctx cw ch k c = Inr e" "caption_elements w ctx cw ch (Suc k) cues = Inr es'" "es = e # es'"
    using Cons.prems(1) by (auto split: sum.splits)
  then show ?case using Cons.IH [of "Suc k" es' "Suc j"] Cons.prems(2) built_caption by auto
qed simp

lemma captions_inserted:
  assumes "active e = Some s" "gen n \<notin> trackId ` set (orderedTracks (tracks s))" "list_all cue_ok cues"
    and "caption_elements w ctx cw ch 0 cues = Inr es" "execute w gen (BatchCommand (caption_commands gen n es)) e = (res, c', e')"
  shows "\<exists>s' tr. active e' = Some s' \<and> tracks s' = (tracks s)\<lparr>overlay := tr # overlay (tracks s)\<rparr> \<and> trackId tr = gen n \<and> trackType tr = TText
    \<and> list_all2 (caption_as w) cues (elements tr) \<and> \<not> isl res"
proof -
  define tr where "tr = buildEmptyTrack (gen n) TText None"
  define s1 where "s1 = s\<lparr>tracks := (tracks s)\<lparr>overlay := tr # overlay (tracks s)\<rparr>\<rparr>"
  obtain c1 e1 where x: "execute w gen (TimelineCommand (AddTrackCommand TText (Some 0) (gen n)) None) e = (Inr None, c1, e1)" "active e1 = Some s1"
    using assms(1) by (simp add: execute_timeline_def run_timeline_def settings_of_command_def merge_settings_def updateTracks_def updateSceneTracks_def
        s1_def tr_def Let_def addTrack_def buildOverlayTrackState_def insert_at_def slice_pos_def)
  have t: "overlay (tracks s1) = tr # overlay (tracks s)" "trackId tr = gen n" "trackType tr = TText" "trackId (main (tracks s1)) \<noteq> gen n"
    using assms(2) by (auto simp: s1_def tr_def buildEmptyTrack_def orderedTracks_def)
  have b: "list_all (\<lambda>c. elementType (ce_element c) = EText \<and> truthy_field ''content'' (ce_element c)) es"
      "list_all2 (caption_as w) cues (map (\<lambda>(k, c). buildElement w (gen (Suc (n + k))) c) (List.enumerate 0 es))"
    using built_captions [OF assms(4,3), of "\<lambda>k. gen (Suc (n + k))" 0] by simp_all
  from insert_captions [OF x(2) t b(1), of w gen "\<lambda>k. gen (Suc (n + k))" 0 None] show ?thesis using assms(5) x(1) b(2) t
    by (auto simp: caption_commands_def s1_def tr_def buildEmptyTrack_def split: prod.splits)
qed

text \<open>C28: The captions of a subtitle file all arrive: inserting them succeeds and puts them, in their order, on one new text track above
  all others, each with the times of its cue and its words, and changes nothing else; the timeline stays well formed exactly when
  the captions do not overlap.\<close>
theorem captions_arrive:
  assumes "active e = Some s" "gen n \<notin> trackId ` set (orderedTracks (tracks s))" "list_all cue_ok cues"
    and "caption_elements w ctx cw ch 0 cues = Inr es" "execute w gen (BatchCommand (caption_commands gen n es)) e = (res, c', e')" "tracks_wf (tracks s)"
  shows "\<exists>s' tr. active e' = Some s' \<and> tracks s' = (tracks s)\<lparr>overlay := tr # overlay (tracks s)\<rparr> \<and> trackId tr = gen n
    \<and> list_all2 (caption_as w) cues (elements tr) \<and> \<not> isl res \<and> tracks_wf (tracks s') = no_overlap (elements tr)"
proof -
  obtain s' tr where r: "active e' = Some s'" "tracks s' = (tracks s)\<lparr>overlay := tr # overlay (tracks s)\<rparr>" "trackId tr = gen n" "trackType tr = TText"
      "list_all2 (caption_as w) cues (elements tr)" "\<not> isl res"
    using captions_inserted [OF assms(1-5)] by blast
  have "track_typed tr" using r(4,5) by (auto simp: track_typed_def list_all_iff canElementGoOnTrack_def caption_as_def list_all2_conv_all_nth in_set_conv_nth)
  then have "tracks_wf (tracks s') = no_overlap (elements tr)"
    using assms(2,6) r(2-4) by (auto simp: tracks_wf_def tracks_typed_def tracks_ids_ok_def tracks_no_overlap_def orderedTracks_def list_all_iff)
  then show ?thesis using r by blast
qed

section \<open>Examples\<close>

definition demo_measure :: "font \<Rightarrow> rat \<Rightarrow> string \<Rightarrow> rat" where
  "demo_measure f spacing t = 60 * of_nat (length t)"

theorem caption_inside_margins_witness:
  "case caption_layout (Some demo_measure) (resolveSubtitleStyle None) ''Hello wide world'' 1000 500 of (content, x, y) \<Rightarrow>
     0 \<le> 500 + x + tr_left (measureWrappedTextBlock (demo_measure (caption_font (resolveSubtitleStyle None) 500) 0) content 500 (resolveSubtitleStyle None))"
proof -
  let ?s = "resolveSubtitleStyle None"
  obtain content x y where l: "caption_layout (Some demo_measure) ?s ''Hello wide world'' 1000 500 = (content, x, y)" by (rule prod_cases3)
  have "list_all (\<lambda>x. demo_measure (caption_font ?s 500) (rs_letterSpacing ?s) x \<le> resolveTargetWidth 1000 (rs_placement ?s)) ([] # words ''Hello wide world'')"
    by code_simp
  moreover have "margin_left ?s = 0" "margin_right ?s = 0" "\<not> isTextBackgroundVisible (rs_background ?s)" "rs_letterSpacing ?s = 0"
    by (simp_all add: margin_left_def margin_right_def resolveSubtitleStyle_def or_default_def no_overrides_def isTextBackgroundVisible_def default_background_def Let_def)
  ultimately show ?thesis using caption_inside_margins [of 1000 ?s _ demo_measure 500 "''Hello wide world''" content x y] l by simp
qed

definition demo_seconds :: wasm_api where
  "demo_seconds = demo_wasm\<lparr>mediaTimeFromSeconds_w := \<lambda>x. Some \<lfloor>x * 10\<rfloor>\<rparr>"

definition demo_cue :: "rat \<Rightarrow> rat \<Rightarrow> subtitle_cue" where
  "demo_cue a d = \<lparr>cue_text = ''Hello'', cue_startTime = a, cue_duration = d, cue_style = None\<rparr>"

lemma demo_cue_ok: "0 \<le> a \<Longrightarrow> 0 < d \<Longrightarrow> cue_ok (demo_cue a d)"
  by (simp add: demo_cue_def cue_ok_def trimmed_def js_space_def)

lemma demo_caption:
  "\<exists>es. caption_elements demo_seconds None 1000 500 0 [demo_cue a d, demo_cue a' d'] = Inr es"
  by (simp add: buildSubtitleTextElement_def mediaTimeFromSeconds_def demo_seconds_def Let_def)

lemma demo_track_fresh: "demo_supply 0 \<notin> trackId ` set (orderedTracks (tracks demo_scene))"
  by (simp add: demo_supply_def demo_scene_def demo_tracks_def orderedTracks_def buildEmptyTrack_def)

theorem captions_arrive_witness:
  "\<exists>es s' tr. caption_elements demo_seconds None 1000 500 0 [demo_cue 1 2, demo_cue 4 1] = Inr es \<and>
     active (snd (snd (execute demo_seconds demo_supply (BatchCommand (caption_commands demo_supply 0 es)) (ed (demo_manager False))))) = Some s'
     \<and> overlay (tracks s') = tr # overlay demo_tracks \<and> list_all2 (caption_as demo_seconds) [demo_cue 1 2, demo_cue 4 1] (elements tr)"
proof -
  obtain es where es: "caption_elements demo_seconds None 1000 500 0 [demo_cue 1 2, demo_cue 4 1] = Inr es" using demo_caption by blast
  obtain res c' e' where x: "execute demo_seconds demo_supply (BatchCommand (caption_commands demo_supply 0 es)) (ed (demo_manager False)) = (res, c', e')"
    by (rule prod_cases3)
  have a: "active (ed (demo_manager False)) = Some demo_scene" by (simp add: demo_manager_def)
  have "tracks_wf (tracks demo_scene)" by (simp add: demo_scene_def demo_tracks_wf)
  from captions_arrive [OF a demo_track_fresh _ es x this] show ?thesis using es x demo_cue_ok by (auto simp: demo_scene_def)
qed

end
