(* ===== verification/Custom_Mask_Proofs.thy ===== *)
theory Custom_Mask_Proofs
  imports Custom_Mask
begin

text \<open>
  What editing a custom mask guarantees: moving the centre leaves every point where it is on the canvas, and inserting a
  point on a segment does not change the outline.
\<close>

section \<open>Curves\<close>

text \<open>The curves a path draws, from the position of the pen on, and the points on them.\<close>

fun curves_of :: "'a \<times> 'a \<Rightarrow> 'a path_op list \<Rightarrow> 'a cubic list" where
  "curves_of pen [] = []"
| "curves_of pen (MoveTo p # ops) = curves_of p ops"
| "curves_of pen (BezierCurveTo c1 c2 p # ops) = (pen, c1, c2, p) # curves_of p ops"
| "curves_of pen (ClosePath # ops) = curves_of pen ops"

definition curve_points :: "'a::linordered_field cubic list \<Rightarrow> ('a \<times> 'a) set" where
  "curve_points qs = (\<Union>q \<in> set qs. evaluateCubicBezier q ` {0..1})"

definition drawn_points :: "'a::linordered_field path_op list \<Rightarrow> ('a \<times> 'a) set" where
  "drawn_points ops = curve_points (curves_of (0, 0) ops)"

text \<open>The two halves of a curve (de Casteljau).\<close>

definition left_half :: "'a::linordered_field cubic \<Rightarrow> 'a \<Rightarrow> 'a cubic" where
  "left_half q t = (case q of (p0, p1, p2, p3) \<Rightarrow>
     let p01 = lerp_point p0 p1 t; p12 = lerp_point p1 p2 t; p23 = lerp_point p2 p3 t;
         p012 = lerp_point p01 p12 t; p123 = lerp_point p12 p23 t
     in (p0, p01, p012, lerp_point p012 p123 t))"

definition right_half :: "'a::linordered_field cubic \<Rightarrow> 'a \<Rightarrow> 'a cubic" where
  "right_half q t = (case q of (p0, p1, p2, p3) \<Rightarrow>
     let p01 = lerp_point p0 p1 t; p12 = lerp_point p1 p2 t; p23 = lerp_point p2 p3 t;
         p012 = lerp_point p01 p12 t; p123 = lerp_point p12 p23 t
     in (lerp_point p012 p123 t, p123, p23, p3))"

lemma evaluate_left_half: "evaluateCubicBezier (left_half q t) s = evaluateCubicBezier q (t * s)"
  by (cases q) (simp add: left_half_def evaluateCubicBezier_def lerp_point_def bernstein_def Let_def
    power2_eq_square power3_eq_cube algebra_simps)

lemma evaluate_right_half: "evaluateCubicBezier (right_half q t) s = evaluateCubicBezier q (t + (1 - t) * s)"
  by (cases q) (simp add: right_half_def evaluateCubicBezier_def lerp_point_def bernstein_def Let_def
    power2_eq_square power3_eq_cube algebra_simps)

lemma halves_cover:
  fixes t :: "'a::linordered_field"
  assumes "0 < t" "t < 1"
  shows "evaluateCubicBezier (left_half q t) ` {0..1} \<union> evaluateCubicBezier (right_half q t) ` {0..1} = evaluateCubicBezier q ` {0..1}"
proof -
  have "(*) t ` {0..1} = {0..t}" using assms by (auto simp: image_iff mult_le_one intro!: bexI [of _ "_ / t"])
  moreover have "(\<lambda>s. t + (1 - t) * s) ` {0..1} = {t..1}"
  proof
    have "0 \<le> (1 - t) * s \<and> (1 - t) * s \<le> 1 - t" if "0 \<le> s" "s \<le> 1" for s
      using that assms mult_left_le [of s "1 - t"] by simp
    then show "(\<lambda>s. t + (1 - t) * s) ` {0..1} \<subseteq> {t..1}" by (fastforce simp: le_diff_eq add.commute)
    show "{t..1} \<subseteq> (\<lambda>s. t + (1 - t) * s) ` {0..1}"
    proof
      fix x assume "x \<in> {t..1}"
      then show "x \<in> (\<lambda>s. t + (1 - t) * s) ` {0..1}" using assms
        by (intro image_eqI [of _ _ "(x - t) / (1 - t)"]) (simp_all add: divide_simps)
    qed
  qed
  moreover have "{0..t} \<union> {t..1} = {0..1}" using assms by auto
  moreover have "evaluateCubicBezier (left_half q t) ` {0..1} = evaluateCubicBezier q ` (*) t ` {0..1}"
    "evaluateCubicBezier (right_half q t) ` {0..1} = evaluateCubicBezier q ` (\<lambda>s. t + (1 - t) * s) ` {0..1}"
    by (simp_all add: image_image evaluate_left_half evaluate_right_half)
  ultimately show ?thesis by (metis image_Un)
qed

section \<open>Rotation\<close>

text \<open>What is used of the cosine and the sine.\<close>

locale rotation =
  fixes trig :: "'a::linordered_field \<Rightarrow> 'a \<times> 'a"
  assumes unit: "fst (trig r) * fst (trig r) + snd (trig r) * snd (trig r) = 1"
    and opposite: "trig (- r) = (fst (trig r), - snd (trig r))"
begin

lemma rotate_back: "rotatePoint trig (rotatePoint trig p (- r)) r = p"
proof -
  obtain x y where p: "p = (x, y)" by fastforce
  obtain c s where t: "trig r = (c, s)" by fastforce
  have u: "c * c + s * s = 1" using unit [of r] by (simp add: t)
  have "(x * c + y * s) * c - (y * c - x * s) * s = x * (c * c + s * s)"
    "(x * c + y * s) * s + (y * c - x * s) * c = y * (c * c + s * s)" by (simp_all add: algebra_simps)
  then show ?thesis by (simp add: rotatePoint_def opposite p t u)
qed

lemma canvas_of_local:
  assumes "eb_width b \<noteq> 0" "eb_height b \<noteq> 0" "cm_scale m \<noteq> 0"
  shows "customMaskLocalPointToCanvas trig m b (customMaskCanvasPointToLocal trig m b p) = p"
proof -
  let ?c = "getCustomMaskCenterCanvasPoint (cm_centerX m) (cm_centerY m) b"
  let ?r = "rotatePoint trig (fst p - fst ?c, snd p - snd ?c) (- cm_rotation m)"
  have "(fst ?r / (eb_width b * cm_scale m) * eb_width b * cm_scale m, snd ?r / (eb_height b * cm_scale m) * eb_height b * cm_scale m) = ?r"
    using assms by (simp add: prod_eq_iff)
  then show ?thesis using assms
    by (simp add: customMaskLocalPointToCanvas_def customMaskCanvasPointToLocal_def Let_def rotate_back)
qed

lemma recenter_keeps_anchors:
  assumes "eb_width b \<noteq> 0" "eb_height b \<noteq> 0" "cm_scale m \<noteq> 0"
  shows "canvas_anchors trig (with_recentered (recenterCustomMaskPath trig m b) m) b = canvas_anchors trig m b"
proof (cases "cm_path m = [] \<or> snd (getCustomMaskCanvasGeometry trig m b) = None")
  case True
  then show ?thesis
    by (cases "getCustomMaskCanvasGeometry trig m b") (auto simp: recenterCustomMaskPath_def with_recentered_def canvas_anchors_def)
next
  case False
  then obtain pb where g: "getCustomMaskCanvasGeometry trig m b = (canvas_anchors trig m b, Some pb)"
    by (cases "getCustomMaskCanvasGeometry trig m b") (auto simp: getCustomMaskCanvasGeometry_def Let_def split: if_splits)
  define x where "x = (pb_centerX pb - eb_cx b) / eb_width b"
  define y where "y = (pb_centerY pb - eb_cy b) / eb_height b"
  let ?m = "m\<lparr>cm_centerX := x, cm_centerY := y\<rparr>"
  have canvas: "customMaskLocalPointToCanvas trig (?m\<lparr>cm_path := ps\<rparr>) b (customMaskCanvasPointToLocal trig ?m b p) = p" for ps p
    using canvas_of_local [of b ?m p] assms by (simp add: customMaskLocalPointToCanvas_def)
  show ?thesis using False assms canvas
    by (simp add: recenterCustomMaskPath_def g x_def [symmetric] y_def [symmetric] Let_def with_recentered_def
        canvas_anchors_def [of trig "m\<lparr>cm_centerX := x, cm_centerY := y, cm_path := _\<rparr>"] case_prod_beta
        anchor_def in_handle_def out_handle_def comp_def map_idI prod_eq_iff)
qed

end

definition degrees_cos_sin :: "real \<Rightarrow> real \<times> real" where
  "degrees_cos_sin r = (cos (r * pi / 180), sin (r * pi / 180))"

interpretation degrees: rotation degrees_cos_sin
  by unfold_locales (simp_all add: degrees_cos_sin_def flip: power2_eq_square)

section \<open>Segments\<close>

text \<open>The four points of a segment in the coordinates of the mask.\<close>

definition seg_at :: "'a::linordered_field path_point list \<Rightarrow> nat \<Rightarrow> 'a cubic" where
  "seg_at ps j = (let k = Suc j mod length ps in (anchor (ps ! j), out_handle (ps ! j), in_handle (ps ! k), anchor (ps ! k)))"

definition map_cubic :: "('a \<times> 'a \<Rightarrow> 'a \<times> 'a) \<Rightarrow> 'a cubic \<Rightarrow> 'a cubic" where
  "map_cubic f q = (case q of (p0, p1, p2, p3) \<Rightarrow> (f p0, f p1, f p2, f p3))"

lemma canvas_segments:
  "map snd (getCustomMaskCanvasSegments trig m b)
   = map (map_cubic (customMaskLocalPointToCanvas trig m b) \<circ> seg_at (cm_path m)) [0..<getCustomMaskSegmentCount (cm_path m) (cm_closed m)]"
proof -
  have "j < length (cm_path m) \<and> Suc j mod length (cm_path m) < length (cm_path m)"
    if "j < getCustomMaskSegmentCount (cm_path m) (cm_closed m)" for j
  proof
    show j: "j < length (cm_path m)" using that by (simp add: getCustomMaskSegmentCount_def split: if_splits)
    then show "Suc j mod length (cm_path m) < length (cm_path m)" by (intro mod_less_divisor) linarith
  qed
  then show ?thesis
    by (simp add: getCustomMaskCanvasSegments_def getCustomMaskCanvasGeometry_def canvas_anchors_def Let_def map_cubic_def seg_at_def)
qed

lemma curves_of_chain:
  assumes "j < n"
  shows "curves_of (A j) (map (\<lambda>i. BezierCurveTo (U (i - 1)) (H i) (A i)) [Suc j..<n] @ ops)
    = map (\<lambda>i. (A i, U i, H (Suc i), A (Suc i))) [j..<n - 1] @ curves_of (A (n - 1)) ops"
  using assms
proof (induction "n - j" arbitrary: j)
  case (Suc k)
  show ?case
  proof (cases "Suc j < n")
    case True
    then have "[Suc j..<n] = Suc j # [Suc (Suc j)..<n]" "[j..<n - 1] = j # [Suc j..<n - 1]" by (simp_all add: upt_conv_Cons)
    then show ?thesis using Suc.hyps(1) [of "Suc j"] Suc.hyps(2) True by simp
  next
    case False
    then have "n = Suc j" using Suc.prems by simp
    then show ?thesis by simp
  qed
qed simp

lemma drawn_segments:
  "drawn_points (buildCustomMaskPath2D trig m b (cm_closed m)) = curve_points (map snd (getCustomMaskCanvasSegments trig m b))"
proof (cases "cm_path m")
  case Nil
  then show ?thesis
    by (simp add: drawn_points_def buildCustomMaskPath2D_def curve_points_def getCustomMaskCanvasSegments_def getCustomMaskSegmentCount_def)
next
  case (Cons p ps)
  define as where "as = canvas_anchors trig m b"
  have len: "length as = Suc (length ps)" by (simp add: as_def canvas_anchors_def Cons)
  let ?A = "\<lambda>i. fst (snd (as ! i))" and ?H = "\<lambda>i. fst (snd (snd (as ! i)))" and ?U = "\<lambda>i. snd (snd (snd (as ! i)))"
  have "as \<noteq> []" using len by auto
  then have hl: "hd as = as ! 0" "last as = as ! (length as - 1)" by (rule hd_conv_nth, rule last_conv_nth)
  have "curves_of (0, 0) (buildCustomMaskPath2D trig m b (cm_closed m))
      = map (\<lambda>i. (?A i, ?U i, ?H (Suc i), ?A (Suc i))) [0..<length as - 1]
        @ (if cm_closed m \<and> length as > 1 then [(?A (length as - 1), ?U (length as - 1), ?H 0, ?A 0)] else [])"
    using curves_of_chain [of 0 "length as" ?A ?U ?H] len
    by (simp add: buildCustomMaskPath2D_def Cons getCustomMaskCanvasGeometry_def Let_def hl flip: as_def)
  also have "\<dots> = map (\<lambda>i. (?A i, ?U i, ?H (Suc i mod length as), ?A (Suc i mod length as)))
      [0..<getCustomMaskSegmentCount (cm_path m) (cm_closed m)]"
    using len by (auto simp: getCustomMaskSegmentCount_def Cons upt_Suc_append)
  also have "\<dots> = map snd (getCustomMaskCanvasSegments trig m b)"
    by (simp add: getCustomMaskCanvasSegments_def getCustomMaskCanvasGeometry_def Let_def case_prod_beta flip: as_def)
  finally show ?thesis by (simp add: drawn_points_def)
qed

text \<open>The map to the canvas is affine, so it commutes with evaluating a curve.\<close>

lemma evaluate_map_cubic:
  "evaluateCubicBezier (map_cubic (customMaskLocalPointToCanvas trig m b) q) t = customMaskLocalPointToCanvas trig m b (evaluateCubicBezier q t)"
proof -
  obtain c s where cs: "trig (cm_rotation m) = (c, s)" by fastforce
  obtain x0 y0 x1 y1 x2 y2 x3 y3 where q: "q = ((x0, y0), (x1, y1), (x2, y2), (x3, y3))" by (metis prod.exhaust)
  have one: "bernstein t k k k k = k" for k :: 'a
    by (simp add: bernstein_def power2_eq_square power3_eq_cube algebra_simps)
  have lin: "bernstein t (k + (u * x0 - v * y0)) (k + (u * x1 - v * y1)) (k + (u * x2 - v * y2)) (k + (u * x3 - v * y3))
      = bernstein t k k k k + (u * bernstein t x0 x1 x2 x3 - v * bernstein t y0 y1 y2 y3)" for k u v
    by (simp add: bernstein_def algebra_simps)
  show ?thesis
    using lin [of "eb_cx b + cm_centerX m * eb_width b" "eb_width b * cm_scale m * c" "eb_height b * cm_scale m * s"]
      lin [of "eb_cy b + cm_centerY m * eb_height b" "eb_width b * cm_scale m * s" "- (eb_height b * cm_scale m * c)"]
    by (simp add: q map_cubic_def evaluateCubicBezier_def customMaskLocalPointToCanvas_def rotatePoint_def cs Let_def one
        getCustomMaskCenterCanvasPoint_def mult.commute mult.left_commute)
qed

lemma drawn_image:
  "drawn_points (buildCustomMaskPath2D trig m b (cm_closed m))
   = customMaskLocalPointToCanvas trig m b ` curve_points (map (seg_at (cm_path m)) [0..<getCustomMaskSegmentCount (cm_path m) (cm_closed m)])"
  unfolding drawn_segments canvas_segments curve_points_def
  by (auto simp: evaluate_map_cubic [abs_def] image_UN image_image)

section \<open>Inserting a point\<close>

text \<open>\<open>ps'\<close> is \<open>ps\<close> with new handles at the two ends of segment \<open>i\<close>; \<open>N\<close> goes in between.\<close>

lemma split_open_segments:
  assumes len: "length ps = n" "length ps' = n" and i: "Suc i < n" "i < cnt" and cnt: "cnt = (if c then n else n - 1)"
    and A: "\<And>j. j < n \<Longrightarrow> anchor (ps' ! j) = anchor (ps ! j)"
    and U: "\<And>j. j < n \<Longrightarrow> j \<noteq> i \<Longrightarrow> out_handle (ps' ! j) = out_handle (ps ! j)"
    and H: "\<And>j. j < n \<Longrightarrow> j \<noteq> Suc i \<Longrightarrow> in_handle (ps' ! j) = in_handle (ps ! j)"
  shows "seg_at (insert_at ps' (int (Suc i)) N) ` {0..<Suc cnt}
    = {(anchor (ps ! i), out_handle (ps' ! i), in_handle N, anchor N), (anchor N, out_handle N, in_handle (ps' ! Suc i), anchor (ps ! Suc i))}
      \<union> seg_at ps ` ({0..<cnt} - {i})"
proof -
  define qs where "qs = insert_at ps' (int (Suc i)) N"
  have q: "qs = take (Suc i) ps' @ N # drop (Suc i) ps'" using i len by (simp add: qs_def insert_at_def slice_pos_def del: of_nat_Suc)
  have lq: "length qs = Suc n" by (simp add: qs_def len)
  have at: "j \<le> i \<Longrightarrow> qs ! j = ps' ! j" "qs ! Suc i = N" "i < j \<Longrightarrow> j < n \<Longrightarrow> qs ! Suc j = ps' ! j" for j
    using i len by (simp_all add: q nth_append)
  have before: "seg_at qs j = seg_at ps j" if "j < i" for j
    using that i by (simp add: seg_at_def Let_def lq len at A U H)
  have after: "seg_at qs (Suc j) = seg_at ps j" if "i < j" "j < cnt" for j
  proof (cases "Suc j < n")
    case True
    then show ?thesis using that i by (simp add: seg_at_def Let_def lq len at A U H)
  next
    case False
    then have "Suc j = n" using that cnt by (auto split: if_splits)
    then show ?thesis using that i at(1) [of 0] by (auto simp add: seg_at_def Let_def lq len at A U H)
  qed
  have mid: "seg_at qs i = (anchor (ps ! i), out_handle (ps' ! i), in_handle N, anchor N)"
      "seg_at qs (Suc i) = (anchor N, out_handle N, in_handle (ps' ! Suc i), anchor (ps ! Suc i))"
    using i by (simp_all add: seg_at_def Let_def lq len at A)
  have "{0..<Suc cnt} = {0..<i} \<union> {i, Suc i} \<union> Suc ` {Suc i..<cnt}" "{0..<cnt} - {i} = {0..<i} \<union> {Suc i..<cnt}"
    using i by (auto simp: image_iff)
  moreover have "seg_at qs ` {0..<i} = seg_at ps ` {0..<i}" "seg_at qs ` Suc ` {Suc i..<cnt} = seg_at ps ` {Suc i..<cnt}"
    unfolding image_image using before after by (intro image_cong; simp)+
  ultimately show ?thesis unfolding qs_def [symmetric] by (simp only: image_Un image_insert image_empty mid) blast
qed

lemma split_closing_segment:
  assumes len: "length ps = n" "length ps' = n" and i: "n = Suc i" "0 < i"
    and A: "\<And>j. j < n \<Longrightarrow> anchor (ps' ! j) = anchor (ps ! j)"
    and U: "\<And>j. j < n \<Longrightarrow> j \<noteq> i \<Longrightarrow> out_handle (ps' ! j) = out_handle (ps ! j)"
    and H: "\<And>j. j < n \<Longrightarrow> j \<noteq> 0 \<Longrightarrow> in_handle (ps' ! j) = in_handle (ps ! j)"
  shows "seg_at (insert_at ps' 0 N) ` {0..<Suc n}
    = {(anchor (ps ! i), out_handle (ps' ! i), in_handle N, anchor N), (anchor N, out_handle N, in_handle (ps' ! 0), anchor (ps ! 0))}
      \<union> seg_at ps ` ({0..<n} - {i})"
proof -
  have q: "insert_at ps' 0 N = N # ps'" by (simp add: insert_at_def slice_pos_def)
  have inner: "seg_at (N # ps') (Suc j) = seg_at ps j" if "j < i" for j
    using that i by (simp add: seg_at_def Let_def len A U H)
  have ends: "seg_at (N # ps') 0 = (anchor N, out_handle N, in_handle (ps' ! 0), anchor (ps ! 0))"
      "seg_at (N # ps') n = (anchor (ps ! i), out_handle (ps' ! i), in_handle N, anchor N)"
    using i by (simp_all add: seg_at_def Let_def len A)
  have "{0..<Suc n} = {0, n} \<union> Suc ` {0..<i}" "{0..<n} - {i} = {0..<i}" using i by (auto simp: image_iff less_Suc_eq_0_disj) (metis not0_implies_Suc)+
  moreover have "seg_at (N # ps') ` Suc ` {0..<i} = seg_at ps ` {0..<i}" unfolding image_image using inner by (intro image_cong) simp_all
  ultimately show ?thesis unfolding q by (simp only: image_Un image_insert image_empty ends) blast
qed

lemma curve_points_map: "curve_points (map f [0..<k]) = (\<Union>q \<in> f ` {0..<k}. evaluateCubicBezier q ` {0..1})"
  by (simp add: curve_points_def)

lemma clamped_t: "0 < min (999 / 1000) (max (1 / 1000) (t :: 'a::linordered_field)) \<and> min (999 / 1000) (max (1 / 1000) t) < 1"
  by (simp add: min_less_iff_disj)

lemma insert_keeps_curve:
  fixes ps :: "'a::linordered_field path_point list"
  assumes seg: "getCustomMaskSegmentIndices ps k c \<noteq> None"
  shows "curve_points (map (seg_at (insertPointIntoCustomMaskSegment ps k new t c)) [0..<Suc (getCustomMaskSegmentCount ps c)])
    = curve_points (map (seg_at ps) [0..<getCustomMaskSegmentCount ps c])"
proof -
  define n where "n = length ps"
  define i where "i = nat k"
  define e where "e = Suc i mod n"
  define t' where "t' = min (999 / 1000) (max (1 / 1000) t)"
  let ?cnt = "getCustomMaskSegmentCount ps c" and ?q = "seg_at ps i"
  have idx: "getCustomMaskSegmentIndices ps k c = Some (i, e)" and i: "i < ?cnt" "2 \<le> n" and cnt: "?cnt = (if c then n else n - 1)"
    using seg by (auto simp: getCustomMaskSegmentIndices_def getCustomMaskSegmentCount_def i_def e_def n_def split: if_splits)
  have ie: "i < n" "e < n" "e \<noteq> i"
    using i cnt by (auto simp: e_def mod_Suc split: if_splits)
  define S E where "S = ps ! i" and "E = ps ! e"
  define p01 where "p01 = lerp_point (anchor S) (out_handle S) t'"
  define p23 where "p23 = lerp_point (in_handle E) (anchor E) t'"
  define ps' where "ps' = ps[i := S\<lparr>outX := fst p01 - pt_x S, outY := snd p01 - pt_y S\<rparr>,
    e := E\<lparr>inX := fst p23 - pt_x E, inY := snd p23 - pt_y E\<rparr>]"
  obtain N where ins: "insertPointIntoCustomMaskSegment ps k new t c = insert_at ps' (int e) N"
    and L: "(anchor S, p01, in_handle N, anchor N) = left_half ?q t'" and R: "(anchor N, out_handle N, p23, anchor E) = right_half ?q t'"
    unfolding insertPointIntoCustomMaskSegment_def idx option.case prod.case Let_def
    by (fold t'_def S_def E_def p01_def p23_def)
      (auto simp: ps'_def seg_at_def Let_def left_half_def right_half_def S_def E_def p01_def p23_def e_def n_def
        anchor_def in_handle_def out_handle_def)
  have A: "anchor (ps' ! j) = anchor (ps ! j)" "j \<noteq> i \<Longrightarrow> out_handle (ps' ! j) = out_handle (ps ! j)"
      "j \<noteq> e \<Longrightarrow> in_handle (ps' ! j) = in_handle (ps ! j)" if "j < n" for j
    using that ie by (auto simp: ps'_def n_def nth_list_update S_def E_def anchor_def out_handle_def in_handle_def)
  have UH: "out_handle (ps' ! i) = p01" "in_handle (ps' ! e) = p23"
    using ie by (auto simp: ps'_def n_def nth_list_update out_handle_def in_handle_def)
  have len: "length ps = n" "length ps' = n" by (simp_all add: n_def ps'_def)
  have "seg_at (insert_at ps' (int e) N) ` {0..<Suc ?cnt} = {left_half ?q t', right_half ?q t'} \<union> seg_at ps ` ({0..<?cnt} - {i})"
  proof (cases "Suc i < n")
    case True
    then have e: "e = Suc i" by (simp add: e_def)
    show ?thesis using split_open_segments [OF len True i(1) cnt, of N] A UH L R unfolding e S_def E_def by metis
  next
    case False
    then have "n = Suc i" using ie by simp
    then have e: "e = 0" "n = Suc i" "?cnt = n" "0 < i" using ie i cnt by (auto simp: e_def split: if_splits)
    show ?thesis using split_closing_segment [OF len e(2,4), of N] A UH L R unfolding e S_def E_def by (metis of_nat_0)
  qed
  then have "curve_points (map (seg_at (insert_at ps' (int e) N)) [0..<Suc ?cnt])
      = (evaluateCubicBezier (left_half ?q t') ` {0..1} \<union> evaluateCubicBezier (right_half ?q t') ` {0..1})
        \<union> (\<Union>q \<in> seg_at ps ` ({0..<?cnt} - {i}). evaluateCubicBezier q ` {0..1})"
    unfolding curve_points_map by (simp add: Un_assoc)
  also have "\<dots> = (\<Union>q \<in> insert ?q (seg_at ps ` ({0..<?cnt} - {i})). evaluateCubicBezier q ` {0..1})"
    using clamped_t [of t] by (simp add: halves_cover t'_def)
  also have "insert ?q (seg_at ps ` ({0..<?cnt} - {i})) = seg_at ps ` {0..<?cnt}" using i by (auto simp: image_iff)
  finally show ?thesis unfolding ins curve_points_map .
qed

lemma insert_length:
  "getCustomMaskSegmentIndices ps k c \<noteq> None \<Longrightarrow> length (insertPointIntoCustomMaskSegment ps k new t c) = Suc (length ps)"
  by (auto simp: insertPointIntoCustomMaskSegment_def Let_def split: option.splits)

text \<open>C25: Inserting a point on a segment of a custom mask does not change the mask: although the segment is split, the handles
  of its ends are replaced and the path is expressed around a new centre, the points the path draws on the canvas are the
  same; the path has one point more, with the given id.\<close>
theorem inserted_point_keeps_outline:
  assumes "insertPointOnCustomMaskSegment degrees_cos_sin m k p b new = Some m'"
    and "eb_width b \<noteq> 0" "eb_height b \<noteq> 0" "cm_scale m \<noteq> 0"
  shows "drawn_points (buildCustomMaskPath2D degrees_cos_sin m' b (cm_closed m')) = drawn_points (buildCustomMaskPath2D degrees_cos_sin m b (cm_closed m))
    \<and> length (cm_path m') = Suc (length (cm_path m)) \<and> new \<in> pt_id ` set (cm_path m')"
proof -
  let ?T = degrees_cos_sin
  obtain t where t: "findClosestPointOnCustomMaskSegment ?T m b k p \<noteq> None"
    and len: "length (insertPointIntoCustomMaskSegment (cm_path m) k new t (cm_closed m)) \<noteq> length (cm_path m)"
    and m': "m' = with_recentered (recenterCustomMaskPath ?T (m\<lparr>cm_path := insertPointIntoCustomMaskSegment (cm_path m) k new t (cm_closed m)\<rparr>) b) m"
    using assms(1) by (auto simp: insertPointOnCustomMaskSegment_def Let_def split: option.splits if_splits)
  define np where "np = insertPointIntoCustomMaskSegment (cm_path m) k new t (cm_closed m)"
  let ?m1 = "m\<lparr>cm_path := np\<rparr>"
  have seg: "getCustomMaskSegmentIndices (cm_path m) k (cm_closed m) \<noteq> None"
  proof
    assume "getCustomMaskSegmentIndices (cm_path m) k (cm_closed m) = None"
    then show False using len by (simp add: insertPointIntoCustomMaskSegment_def)
  qed
  note one_more = insert_length [OF seg, of new t, folded np_def]
  have "2 \<le> length (cm_path m)" using seg by (auto simp: getCustomMaskSegmentIndices_def getCustomMaskSegmentCount_def split: if_splits)
  then have cnt: "getCustomMaskSegmentCount np (cm_closed m) = Suc (getCustomMaskSegmentCount (cm_path m) (cm_closed m))"
    using one_more by (auto simp: getCustomMaskSegmentCount_def)
  have "m' = with_recentered (recenterCustomMaskPath ?T ?m1 b) ?m1"
    by (simp add: m' np_def with_recentered_def split: prod.splits)
  then have anchors: "canvas_anchors ?T m' b = canvas_anchors ?T ?m1 b" and closed: "cm_closed m' = cm_closed m"
    using degrees.recenter_keeps_anchors [of b ?m1] assms(2-4) by (simp_all add: with_recentered_def split: prod.splits)
  have ids: "map pt_id (cm_path m') = map pt_id np"
    using arg_cong [OF anchors, of "map fst"] by (simp add: canvas_anchors_def comp_def Let_def)
  then have len': "length (cm_path m') = length np" by (metis length_map)
  then have "buildCustomMaskPath2D ?T m' b (cm_closed m') = buildCustomMaskPath2D ?T ?m1 b (cm_closed ?m1)"
    using one_more anchors by (auto simp: buildCustomMaskPath2D_def getCustomMaskCanvasGeometry_def Let_def closed)
  moreover have "drawn_points (buildCustomMaskPath2D ?T ?m1 b (cm_closed ?m1)) = drawn_points (buildCustomMaskPath2D ?T m b (cm_closed m))"
  proof -
    have "customMaskLocalPointToCanvas ?T ?m1 b = customMaskLocalPointToCanvas ?T m b"
      by (simp add: customMaskLocalPointToCanvas_def fun_eq_iff)
    then show ?thesis
      unfolding drawn_image using insert_keeps_curve [OF seg, of new t] by (simp add: cnt del: upt_Suc flip: np_def)
  qed
  moreover have "new \<in> pt_id ` set np"
  proof -
    obtain i j where "getCustomMaskSegmentIndices (cm_path m) k (cm_closed m) = Some (i, j)" using seg by auto
    then show ?thesis unfolding np_def insertPointIntoCustomMaskSegment_def Let_def by (simp only: option.case prod.case set_insert_at image_insert) simp
  qed
  ultimately show ?thesis using len' one_more arg_cong [OF ids, of set] by simp
qed

definition demo_mask :: "real custom_params" where
  "demo_mask = \<lparr>cm_path = [\<lparr>pt_id = ''a'', pt_x = 0, pt_y = 0, inX = 0, inY = 0, outX = 1, outY = 0\<rparr>,
     \<lparr>pt_id = ''b'', pt_x = 1, pt_y = 1, inX = 0, inY = - 1, outX = 0, outY = 0\<rparr>], cm_closed = True,
     cm_centerX = 0, cm_centerY = 0, cm_rotation = 30, cm_scale = 2\<rparr>"

definition demo_bounds :: "real element_bounds" where
  "demo_bounds = \<lparr>eb_cx = 50, eb_cy = 50, eb_width = 100, eb_height = 80\<rparr>"

lemma demo_insert: "insertPointOnCustomMaskSegment degrees_cos_sin demo_mask 1 (60, 60) demo_bounds ''n'' \<noteq> None"
proof -
  have "findClosestPointOnCustomMaskSegment degrees_cos_sin demo_mask demo_bounds 1 (60, 60) \<noteq> None"
    by (simp add: findClosestPointOnCustomMaskSegment_def getCustomMaskCanvasSegments_def getCustomMaskSegmentCount_def demo_mask_def
        Let_def upt_rec split: prod.splits option.splits)
  moreover have "length (insertPointIntoCustomMaskSegment (cm_path demo_mask) 1 ''n'' t (cm_closed demo_mask)) = 3" for t
    by (subst insert_length) (simp_all add: getCustomMaskSegmentIndices_def getCustomMaskSegmentCount_def demo_mask_def)
  ultimately show ?thesis
    by (auto simp: insertPointOnCustomMaskSegment_def getCustomMaskSegmentCount_def Let_def) (simp_all add: demo_mask_def)
qed

theorem inserted_point_keeps_outline_witness:
  "\<exists>m'. insertPointOnCustomMaskSegment degrees_cos_sin demo_mask 1 (60, 60) demo_bounds ''n'' = Some m' \<and> length (cm_path m') = 3
     \<and> drawn_points (buildCustomMaskPath2D degrees_cos_sin m' demo_bounds (cm_closed m'))
       = drawn_points (buildCustomMaskPath2D degrees_cos_sin demo_mask demo_bounds True)"
proof -
  obtain m' where m': "insertPointOnCustomMaskSegment degrees_cos_sin demo_mask 1 (60, 60) demo_bounds ''n'' = Some m'"
    using demo_insert by blast
  have facts: "eb_width demo_bounds \<noteq> 0" "eb_height demo_bounds \<noteq> 0" "cm_scale demo_mask \<noteq> 0" "cm_closed demo_mask"
      "length (cm_path demo_mask) = 2"
    by (simp_all add: demo_bounds_def demo_mask_def)
  from inserted_point_keeps_outline [OF m' facts(1-3)] show ?thesis by (intro exI [of _ m']) (simp add: m' facts)
qed

end
