(* ===== verification/Media_Library.thy ===== *)
theory Media_Library
  imports Editor
begin

text \<open>
  The media assets of a project as the user sees them (\<open>core/managers/media-manager.ts\<close>,
  \<open>commands/media/\<close>): removing assets together with the elements that use them, and what happens
  when storing a new asset fails. Removing an asset deletes its elements through the timeline
  manager, so one command executes another.
\<close>

section \<open>Operations\<close>

definition fresh_remove :: "uuid \<Rightarrow> command" where
  "fresh_remove aid = RemoveMediaAssetCommand aid \<lparr>rm_savedAssets = None, rm_savedTracks = None, rm_removedAsset = None\<rparr>"

definition removeMediaAssets :: "wasm_api \<Rightarrow> (nat \<Rightarrow> uuid) \<Rightarrow> uuid list \<Rightarrow> manager \<Rightarrow> js_error option \<times> manager" where
  "removeMediaAssets w gen ids m =
     (case dedupe ids of
        [] \<Rightarrow> (None, m)
      | [i] \<Rightarrow> manager_execute w gen (fresh_remove i) m
      | is \<Rightarrow> manager_execute w gen (BatchCommand (map fresh_remove is)) m)"

text \<open>The handler of a failed \<open>saveMediaAsset\<close> of \<open>AddMediaAssetCommand\<close>: the asset goes, its elements
  are deleted, and the frame rate that the import raised is lowered again unless another video needs
  it.\<close>

definition restoreProjectFpsAfterFailedSave :: "add_media_memory \<Rightarrow> editor \<Rightarrow> editor" where
  "restoreProjectFpsAfterFailedSave mem e =
     (case (am_previousFps mem, am_appliedFps mem) of
        (Some previous, Some applied) \<Rightarrow>
          if \<not> frameRatesEqual (fps (projectSettings e)) applied then e
          else if (case getHighestImportedVideoFps (mediaAssets e) of
                     None \<Rightarrow> False | Some h \<Rightarrow> h \<ge> frameRateToFloat applied) then e
          else e\<lparr>projectSettings := merge_settings [SFps previous] (projectSettings e)\<rparr>
      | _ \<Rightarrow> e)"

definition addMediaAssetFailed :: "wasm_api \<Rightarrow> (nat \<Rightarrow> uuid) \<Rightarrow> media_asset \<Rightarrow> add_media_memory \<Rightarrow> manager \<Rightarrow> js_error option \<times> manager" where
  "addMediaAssetFailed w gen asset mem m =
     (let m1 = m\<lparr>ed := (ed m)\<lparr>mediaAssets := filter (\<lambda>a. assetId a \<noteq> assetId asset) (mediaAssets (ed m))\<rparr>\<rparr>
      in case active (ed m1) of
           None \<Rightarrow> (Some (Thrown ''No active scene.''), m1)
         | Some s \<Rightarrow>
             let refs = media_refs (assetId asset) (tracks s);
                 (err, m2) = (if length refs > 0
                   then manager_execute w gen (TimelineCommand (DeleteElementsCommand refs) None) m1 else (None, m1))
             in (case err of
                   Some x \<Rightarrow> (Some x, m2)
                 | None \<Rightarrow> (None, m2\<lparr>ed := restoreProjectFpsAfterFailedSave mem (ed m2)\<rparr>)))"

section \<open>Lemmas\<close>

lemma updateTracks_assets: "mediaAssets (run_reactors e) = mediaAssets e" "mediaAssets (applyRippleIfEnabled b e) = mediaAssets e"
  "mediaAssets (snd (applySelectionOverride sel e)) = mediaAssets e"
  by (simp_all add: run_reactors_def applyRippleIfEnabled_def applySelectionOverride_def Let_def split: option.splits)

lemma updateTracks_nested: "nested (run_reactors e) = nested e" "nested (applyRippleIfEnabled b e) = nested e"
  "nested (snd (applySelectionOverride sel e)) = nested e"
  by (simp_all add: run_reactors_def applyRippleIfEnabled_def applySelectionOverride_def Let_def split: option.splits)

text \<open>What happens around a command that returns no selection stays in the frame.\<close>

lemma perform_around:
  assumes "editor_ok e1"
  obtains entry e' where "perform (Inr sel, c, e1) e0 = (None, Some entry, e')" "he_command entry = c" "same_frame e1 e'"
    "editor_ok e'" "mediaAssets e' = mediaAssets e1" "nested e' = nested e1"
    "he_selectionOverride entry = None \<longleftrightarrow> sel = None" "he_previousSelection entry = selection e0"
proof -
  let ?e2 = "applyRippleIfEnabled (ripple_snapshot e0) e1"
  obtain override e3 where o: "applySelectionOverride sel ?e2 = (override, e3)" by fastforce
  have e3: "scenes_of e3 = scenes_of ?e2" "override = None \<longleftrightarrow> sel = None"
    using o by (auto simp: applySelectionOverride_def Let_def split: option.splits)
  have s2: "stays e1 ?e2" by (rule stays_ripple [OF assms])
  have ok3: "editor_ok e3" using s2 editor_ok_scenes [OF e3(1)] by (simp add: stays_def)
  have "same_frame e1 e3" using s2 same_frame_trans [OF _ same_frame_view [OF e3(1) [symmetric]]] by (auto simp: stays_def)
  moreover have "stays e3 (run_reactors e3)" by (rule stays_reactors [OF ok3])
  ultimately have f: "same_frame e1 (run_reactors e3)" "editor_ok (run_reactors e3)"
    using same_frame_trans by (auto simp: stays_def)
  have "mediaAssets e3 = mediaAssets e1" "nested e3 = nested e1"
    using updateTracks_assets(2,3) updateTracks_nested(2,3) o by (metis snd_conv)+
  then show ?thesis using that [of _ "run_reactors e3"] f e3(2) by (simp add: perform_def o updateTracks_assets updateTracks_nested)
qed

lemma nested_delete_ok:
  assumes "editor_ok e"
  shows "same_frame e (nested_delete w gen refs e) \<and> editor_ok (nested_delete w gen refs e)
    \<and> mediaAssets (nested_delete w gen refs e) = mediaAssets e \<and> length (nested (nested_delete w gen refs e)) = Suc (length (nested e))"
proof -
  obtain s where s: "active e = Some s" using assms by (auto simp: editor_ok_def split: option.splits)
  obtain ts sel where d: "deleteElements refs (tracks s) = updated ts sel" by (simp add: deleteElements_def)
  have ex: "execute_timeline w gen (DeleteElementsCommand refs) None e = (Inr sel, TimelineCommand (DeleteElementsCommand refs) (Some (tracks s)), updateTracks ts e)"
    using execute_delete [OF s d, of w gen None] by simp
  obtain entry e' where p: "perform (execute_timeline w gen (DeleteElementsCommand refs) None e) e = (None, Some entry, e')"
      "same_frame (updateTracks ts e) e'" "editor_ok e'" "mediaAssets e' = mediaAssets (updateTracks ts e)" "nested e' = nested (updateTracks ts e)"
    unfolding ex by (rule perform_around [OF editor_ok_updateTracks [OF assms, of ts]])
  have n: "nested_delete w gen refs e = e'\<lparr>nested := entry # nested e'\<rparr>" by (simp add: nested_delete_def p(1))
  have v: "scenes_of (e'\<lparr>nested := entry # nested e'\<rparr>) = scenes_of e'" by (simp add: scenes_of_def)
  have "same_frame e e'" using same_frame_trans [OF same_frame_updateTracks p(2)] .
  then have "same_frame e (nested_delete w gen refs e)" unfolding n using same_frame_trans [OF _ same_frame_view [OF v [symmetric]]] by blast
  then show ?thesis using p editor_ok_scenes [OF v] by (simp add: n)
qed

section \<open>Properties\<close>

text \<open>Undo of the removal of an asset brings back the assets, the scene list and the active scene, ripple
  editing on or off; but when the asset was in use, the history still has one entry more than before
  the removal, the deletion that the command executed itself.\<close>
theorem undo_remove_media:
  assumes "editor_ok (ed m)" "distinct (map assetId (mediaAssets (ed m)))" "a \<in> set (mediaAssets (ed m))"
    and "active (ed m) = Some s" "manager_execute w gen (fresh_remove (assetId a)) m = (None, m')"
  shows "mediaAssets (ed (manager_undo m')) = mediaAssets (ed m) \<and> scene_list (ed (manager_undo m')) = scene_list (ed m)
    \<and> active (ed (manager_undo m')) = active (ed m)
    \<and> length (history (manager_undo m')) = length (history m) + (if media_refs (assetId a) (tracks s) = [] then 0 else 1)"
proof -
  let ?i = "assetId a" and ?e = "begin_command (ed m)"
  define mem where "mem = \<lparr>rm_savedAssets = Some (mediaAssets ?e), rm_savedTracks = Some (tracks s), rm_removedAsset = Some a\<rparr>"
  define e1 where "e1 = ?e\<lparr>mediaAssets := filter (\<lambda>a. assetId a \<noteq> ?i) (mediaAssets ?e)\<rparr>"
  define e2 where "e2 = (if length (media_refs ?i (tracks s)) > 0 then nested_delete w gen (media_refs ?i (tracks s)) e1 else e1)"
  have as: "mediaAssets ?e = mediaAssets (ed m)" by (simp add: begin_command_def)
  have fnd: "find (\<lambda>x. assetId x = ?i) (mediaAssets ?e) = Some a" unfolding as by (rule find_distinct [OF assms(2,3) refl])
  have ex: "execute w gen (fresh_remove ?i) ?e = (Inr None, RemoveMediaAssetCommand ?i mem, e2)"
    using assms(4) fnd by (simp add: fresh_remove_def removeMediaAsset_def Let_def mem_def e2_def e1_def)
  have v1: "scenes_of e1 = scenes_of (ed m)" by (simp add: e1_def scenes_of_def)
  have ok1: "editor_ok e1" using assms(1) editor_ok_scenes [OF v1] by simp
  have f2: "same_frame (ed m) e2 \<and> editor_ok e2 \<and> length (nested e2) = (if media_refs ?i (tracks s) = [] then 0 else 1)"
  proof -
    have "same_frame (ed m) e1" by (rule same_frame_view [OF v1 [symmetric]])
    then show ?thesis using nested_delete_ok [OF ok1, of w gen "media_refs ?i (tracks s)"] ok1 same_frame_trans
      by (auto simp: e2_def e1_def)
  qed
  have ok2: "editor_ok e2" using f2 by simp
  obtain entry e3 where p: "perform (execute w gen (fresh_remove ?i) ?e) ?e = (None, Some entry, e3)"
      "he_command entry = RemoveMediaAssetCommand ?i mem" "same_frame e2 e3" "nested e3 = nested e2" "he_selectionOverride entry = None"
    unfolding ex using perform_around [OF ok2, of None "RemoveMediaAssetCommand ?i mem" ?e] by metis
  have m': "ed m' = e3" "history m' = entry # nested e2 @ history m"
    using assms(5) p(1,4) by (auto simp: manager_execute_def)
  let ?as = "map (\<lambda>x. if assetId x = ?i then a else x) (mediaAssets (ed m))"
  have same: "?as = mediaAssets (ed m)" using assms(2,3) by (intro map_idI) (auto simp: distinct_map dest: inj_onD)
  have u: "undo_command (he_command entry) e3 = updateTracks (tracks s) (e3\<lparr>mediaAssets := mediaAssets (ed m)\<rparr>)"
    by (simp add: p(2) undo_remove_media_def mem_def as same)
  have "same_frame (ed m) e3" using f2 p(3) same_frame_trans by blast
  moreover have "scenes_of (updateTracks (tracks s) (e3\<lparr>mediaAssets := mediaAssets (ed m)\<rparr>)) = scenes_of (updateTracks (tracks s) e3)"
    by (rule updateTracks_scenes) (simp add: scenes_of_def)
  ultimately have "scenes_of (updateTracks (tracks s) (e3\<lparr>mediaAssets := mediaAssets (ed m)\<rparr>)) = scenes_of (ed m)"
    using updateTracks_same [OF assms(1,4)] by (simp add: same_frame_def)
  then show ?thesis using f2 by (simp add: manager_undo_entry [OF m'(2)] m'(1) undo_entry_def u p(5) scenes_of_def)
qed

definition demo_clip :: "uuid \<Rightarrow> uuid \<Rightarrow> media_time \<Rightarrow> media_time \<Rightarrow> timeline_element" where
  "demo_clip i aid start len = (demo_element i EVideo start len)\<lparr>mediaId := Some aid\<rparr>"

definition demo_asset :: media_asset where
  "demo_asset = \<lparr>assetId = ''X'', assetName = ''x.mp4'', assetType = MVideo, assetWidth = None, assetHeight = None,
     assetFps = None, hasAudio = None\<rparr>"

definition demo_media_scene :: scene where
  "demo_media_scene = demo_scene\<lparr>tracks := \<lparr>overlay = [], main = (buildEmptyTrack ''m'' TVideo None)\<lparr>elements :=
     [demo_clip ''a'' ''X'' 0 10, demo_clip ''b'' ''Y'' 10 10, demo_clip ''d'' ''Y'' 40 10]\<rparr>, audio = []\<rparr>\<rparr>"

definition demo_media_manager :: "bool \<Rightarrow> manager" where
  "demo_media_manager ripple = (demo_manager ripple)\<lparr>ed := (ed (demo_manager ripple))\<lparr>scene_list := [demo_media_scene],
     active := Some demo_media_scene, mediaAssets := [demo_asset]\<rparr>\<rparr>"

definition main_starts :: "manager \<Rightarrow> (uuid \<times> media_time) list" where
  "main_starts m = (case active (ed m) of None \<Rightarrow> [] | Some s \<Rightarrow> map (\<lambda>e. (elementId e, startTime e)) (elements (main (tracks s))))"

theorem undo_remove_media_witness:
  "\<forall>w. active (ed (manager_undo (snd (manager_execute w demo_supply (fresh_remove ''X'') (demo_media_manager True))))) = Some demo_media_scene
     \<and> length (history (manager_undo (snd (manager_execute w demo_supply (fresh_remove ''X'') (demo_media_manager True))))) = 1"
proof
  fix w
  let ?r = "manager_execute w demo_supply (fresh_remove ''X'') (demo_media_manager True)"
  have ok: "editor_ok (ed (demo_media_manager True))" by (simp add: demo_media_manager_def editor_ok_def)
  have "fst ?r = None" by code_simp
  then have r: "manager_execute w demo_supply (fresh_remove (assetId demo_asset)) (demo_media_manager True) = (None, snd ?r)"
    by (metis demo_asset_def media_asset.select_convs(1) prod.collapse)
  have i: "assetId demo_asset = ''X''" by (simp add: demo_asset_def)
  have refs: "media_refs ''X'' (tracks demo_media_scene) \<noteq> []"
    by (simp add: media_refs_def demo_media_scene_def orderedTracks_def demo_clip_def)
  from undo_remove_media [OF ok _ _ _ r, of demo_media_scene] refs
  show "active (ed (manager_undo (snd ?r))) = Some demo_media_scene \<and> length (history (manager_undo (snd ?r))) = 1"
    by (simp add: i demo_media_manager_def demo_manager_def)
qed

text \<open>With ripple editing on, removing an asset closes the gaps twice: the deletion that the command
  executes shifts the later elements, and the command itself shifts them again for the same freed
  time. Deleting the first clip by hand moves the last one from 40 to 30, removing its asset moves it
  to 10; and undo followed by redo of the removal leaves three entries in the history.\<close>
theorem media_removal_ripples_twice:
  "main_starts (snd (manager_execute w demo_supply
      (TimelineCommand (DeleteElementsCommand [\<lparr>ref_trackId = ''m'', ref_elementId = ''a''\<rparr>]) None) (demo_media_manager True)))
     = [(''b'', 0), (''d'', 30)]
   \<and> main_starts (snd (manager_execute w demo_supply (fresh_remove ''X'') (demo_media_manager True))) = [(''b'', 0), (''d'', 10)]
   \<and> length (history (snd (manager_redo w demo_supply (manager_undo (snd (manager_execute w demo_supply (fresh_remove ''X'') (demo_media_manager True))))))) = 3"
  by code_simp

end
