(* ===== verification/Timeline_Manager.thy ===== *)
theory Timeline_Manager
  imports Editor
begin

text \<open>
  The timeline manager (\<open>core/managers/timeline-manager.ts\<close>): queries on the active scene, the element
  operations that are not a command of their own, and the preview overlay, which shows changes of
  elements without committing them. The operations that only wrap a command are the command's own
  (\<open>Editor\<close>).

  The overlay is compared with \<open>Object.is\<close>; values that are equal but distinct objects count as
  unchanged here, which differs only in whether the preview is computed again.
\<close>

section \<open>Queries\<close>

definition getTotalDuration :: "editor \<Rightarrow> media_time" where
  "getTotalDuration e = (case active e of None \<Rightarrow> ZERO_MEDIA_TIME | Some s \<Rightarrow> calculateTotalDuration (tracks s))"

definition getLastFrameTime :: "wasm_api \<Rightarrow> editor \<Rightarrow> media_time" where
  "getLastFrameTime w e =
     (let dur = getTotalDuration e
      in if dur \<le> 0 then dur else lastFrameMediaTime w dur (fps (projectSettings e)))"

definition getTrackById :: "uuid \<Rightarrow> editor \<Rightarrow> track option" where
  "getTrackById tid e = (case active e of None \<Rightarrow> None | Some s \<Rightarrow> findTrackInSceneTracks (tracks s) tid)"

definition getElementByRef :: "element_ref \<Rightarrow> editor \<Rightarrow> timeline_element option" where
  "getElementByRef r e =
     (case getTrackById (ref_trackId r) e of
        None \<Rightarrow> None | Some tr \<Rightarrow> find (\<lambda>x. elementId x = ref_elementId r) (elements tr))"

definition findTrackIdForElement :: "uuid \<Rightarrow> editor \<Rightarrow> uuid option" where
  "findTrackIdForElement eid e =
     (case active e of
        None \<Rightarrow> None
      | Some s \<Rightarrow>
          let has = (\<lambda>tr. list_ex (\<lambda>x. elementId x = eid) (elements tr))
          in if has (main (tracks s)) then Some (trackId (main (tracks s)))
             else case find has (overlay (tracks s)) of
                    Some tr \<Rightarrow> Some (trackId tr)
                  | None \<Rightarrow> map_option trackId (find has (audio (tracks s))))"

section \<open>Updating elements\<close>

text \<open>Without history the command runs on its own: no ripple, no reactors, no entry.\<close>

definition tm_updateElements :: "wasm_api \<Rightarrow> (nat \<Rightarrow> uuid) \<Rightarrow> (element_ref \<times> patch) list \<Rightarrow> bool \<Rightarrow> manager \<Rightarrow> js_error option \<times> manager" where
  "tm_updateElements w gen us pushHistory m =
     (if us = [] then (None, m)
      else if pushHistory then manager_execute w gen (TimelineCommand (UpdateElementsCommand us) None) m
      else case execute w gen (TimelineCommand (UpdateElementsCommand us) None) (ed m) of
             (Inl err, _, e) \<Rightarrow> (Some err, m\<lparr>ed := e\<rparr>)
           | (Inr _, _, e) \<Rightarrow> (None, m\<lparr>ed := e\<rparr>))"

definition updateElementTrim ::
    "wasm_api \<Rightarrow> (nat \<Rightarrow> uuid) \<Rightarrow> uuid \<Rightarrow> media_time \<Rightarrow> media_time \<Rightarrow> media_time option \<Rightarrow> media_time option \<Rightarrow> bool \<Rightarrow>
     manager \<Rightarrow> js_error option \<times> manager" where
  "updateElementTrim w gen eid tStart tEnd start dur pushHistory m =
     (case findTrackIdForElement eid (ed m) of
        None \<Rightarrow> (None, m)
      | Some tid \<Rightarrow>
          if tid = [] then (None, m)
          else tm_updateElements w gen
                 [(\<lparr>ref_trackId = tid, ref_elementId = eid\<rparr>,
                   [PTrimStart tStart, PTrimEnd tEnd]
                   @ (case start of None \<Rightarrow> [] | Some t \<Rightarrow> [PStartTime t])
                   @ (case dur of None \<Rightarrow> [] | Some t \<Rightarrow> [PDuration t]))] pushHistory m)"

definition updateElementRetime ::
    "wasm_api \<Rightarrow> (nat \<Rightarrow> uuid) \<Rightarrow> element_ref \<Rightarrow> retime_config option \<Rightarrow> bool \<Rightarrow> manager \<Rightarrow> js_error option \<times> manager" where
  "updateElementRetime w gen r rt pushHistory m = tm_updateElements w gen [(r, [PRetime rt])] pushHistory m"

definition tm_moveElements :: "wasm_api \<Rightarrow> (nat \<Rightarrow> uuid) \<Rightarrow> planned_move list \<Rightarrow> planned_track list \<Rightarrow> manager \<Rightarrow> js_error option \<times> manager" where
  "tm_moveElements w gen mvs pts m =
     (if mvs = [] then (None, m) else manager_execute w gen (TimelineCommand (MoveElementCommand mvs pts) None) m)"

text \<open>What \<open>toggleElementsVisibility\<close> and \<open>toggleElementsMuted\<close> share: the flag is set on all the
  elements that can have it when one of them lacks it, and cleared otherwise.\<close>

definition toggle_updates ::
    "(timeline_element \<Rightarrow> bool) \<Rightarrow> (timeline_element \<Rightarrow> bool option) \<Rightarrow> (bool option \<Rightarrow> field_update) \<Rightarrow> element_ref list \<Rightarrow> editor \<Rightarrow>
     (element_ref \<times> patch) list" where
  "toggle_updates can flag mk refs e =
     (let should = list_ex (\<lambda>r. case getElementByRef r e of None \<Rightarrow> False | Some x \<Rightarrow> can x \<and> flag x \<noteq> Some True) refs
      in List.map_filter (\<lambda>r. case getElementByRef r e of
           None \<Rightarrow> None | Some x \<Rightarrow> if can x then Some (r, [mk (Some should)]) else None) refs)"

definition toggleElementsVisibility :: "wasm_api \<Rightarrow> (nat \<Rightarrow> uuid) \<Rightarrow> element_ref list \<Rightarrow> manager \<Rightarrow> js_error option \<times> manager" where
  "toggleElementsVisibility w gen refs m =
     tm_updateElements w gen (toggle_updates canElementBeHidden el_hidden PHidden refs (ed m)) True m"

definition toggleElementsMuted :: "wasm_api \<Rightarrow> (nat \<Rightarrow> uuid) \<Rightarrow> element_ref list \<Rightarrow> manager \<Rightarrow> js_error option \<times> manager" where
  "toggleElementsMuted w gen refs m =
     tm_updateElements w gen (toggle_updates canElementHaveAudio el_muted PMuted refs (ed m)) True m"

section \<open>The preview\<close>

definition isPreviewActive :: "editor \<Rightarrow> bool" where
  "isPreviewActive e \<longleftrightarrow> length (previewOverlay e) > 0"

definition overlay_track :: "(uuid \<times> patch) list \<Rightarrow> track \<Rightarrow> track" where
  "overlay_track ov tr =
     (if \<not> list_ex (\<lambda>x. map_of ov (elementId x) \<noteq> None) (elements tr) then tr
      else tr\<lparr>elements := map (\<lambda>x. case map_of ov (elementId x) of None \<Rightarrow> x | Some p \<Rightarrow> apply_patch p x) (elements tr)\<rparr>)"

definition applyPreviewOverlay :: "(uuid \<times> patch) list \<Rightarrow> scene_tracks \<Rightarrow> scene_tracks" where
  "applyPreviewOverlay ov ts =
     (if length ov = 0 then ts
      else \<lparr>overlay = map (overlay_track ov) (overlay ts), main = overlay_track ov (main ts),
            audio = map (overlay_track ov) (audio ts)\<rparr>)"

text \<open>The value a patch has for a field; \<open>None\<close> is \<open>undefined\<close>, absent or assigned.\<close>

fun assigns_undefined :: "field_update \<Rightarrow> bool" where
  "assigns_undefined (PRetime r) = (r = None)"
| "assigns_undefined (PAnimations a) = (a = None)"
| "assigns_undefined (PHidden b) = (b = None)"
| "assigns_undefined (PMuted b) = (b = None)"
| "assigns_undefined (PIsSourceAudioEnabled b) = (b = None)"
| "assigns_undefined _ = False"

definition patch_lookup :: "patch \<Rightarrow> string \<Rightarrow> field_update option" where
  "patch_lookup p k =
     (case find (\<lambda>u. field_name u = k) (rev p) of
        None \<Rightarrow> None | Some u \<Rightarrow> if assigns_undefined u then None else Some u)"

definition preview_step :: "uuid \<times> patch \<Rightarrow> (uuid \<times> patch) list \<times> nat \<Rightarrow> (uuid \<times> patch) list \<times> nat" where
  "preview_step upd st =
     (case (upd, st) of ((eid, p), (ov, changed)) \<Rightarrow>
        let existing = (case map_of ov eid of None \<Rightarrow> [] | Some q \<Rightarrow> q)
        in if list_ex (\<lambda>u. patch_lookup existing (field_name u) \<noteq> patch_lookup p (field_name u)) p
           then (AList.update eid (existing @ p) ov, Suc changed) else (ov, changed))"

definition previewElements :: "(element_ref \<times> patch) list \<Rightarrow> editor \<Rightarrow> editor" where
  "previewElements updates e =
     (case fold preview_step (map (\<lambda>(r, p). (ref_elementId r, p)) updates) (previewOverlay e, 0) of
        (ov, changed) \<Rightarrow>
          let e1 = e\<lparr>previewOverlay := ov\<rparr>
          in case active e1 of
               None \<Rightarrow> e1
             | Some s \<Rightarrow> if changed = 0 then e1 else e1\<lparr>previewTracks := Some (applyPreviewOverlay ov (tracks s))\<rparr>)"

definition commitPreview :: "manager \<Rightarrow> manager" where
  "commitPreview m =
     (if length (previewOverlay (ed m)) = 0 then m
      else case active (ed m) of
             None \<Rightarrow> m
           | Some s \<Rightarrow>
               let after = (case previewTracks (ed m) of Some ts \<Rightarrow> ts | None \<Rightarrow> applyPreviewOverlay (previewOverlay (ed m)) (tracks s));
                   m1 = manager_push (TracksSnapshotCommand (tracks s) after) m
               in m1\<lparr>ed := updateTracks after ((ed m1)\<lparr>previewOverlay := [], previewTracks := None\<rparr>)\<rparr>)"

definition discardPreview :: "editor \<Rightarrow> editor" where
  "discardPreview e = (if length (previewOverlay e) = 0 then e else e\<lparr>previewOverlay := [], previewTracks := None\<rparr>)"

definition getPreviewTracks :: "editor \<Rightarrow> scene_tracks option" where
  "getPreviewTracks e = (case previewTracks e of Some ts \<Rightarrow> Some ts | None \<Rightarrow> map_option tracks (active e))"

text \<open>\<open>ScenesManager.switchToScene\<close>\<close>

definition switchToScene :: "uuid \<Rightarrow> editor \<Rightarrow> js_error + editor" where
  "switchToScene sid e =
     (case find (\<lambda>s. sceneId s = sid) (scene_list e) of
        None \<Rightarrow> Inl (Thrown ''Scene not found'')
      | Some s \<Rightarrow> Inr (e\<lparr>active := Some s\<rparr>))"

section \<open>Lemmas\<close>

text \<open>The preview shows the overlay over the tracks of the active scene.\<close>

definition preview_ok :: "editor \<Rightarrow> bool" where
  "preview_ok e \<longleftrightarrow> (case active e of
     None \<Rightarrow> previewTracks e = None
   | Some s \<Rightarrow> previewTracks e = (if previewOverlay e = [] then None else Some (applyPreviewOverlay (previewOverlay e) (tracks s))))"

lemma preview_step_changed:
  "fold preview_step us (ov, n) = (ov', n') \<Longrightarrow> n \<le> n' \<and> (n' = n \<longrightarrow> ov' = ov) \<and> (ov \<noteq> [] \<or> n < n' \<longrightarrow> ov' \<noteq> [])"
proof (induction us arbitrary: ov n)
  case (Cons u us)
  obtain ov1 n1 where s: "preview_step u (ov, n) = (ov1, n1)" by fastforce
  have "AList.update k v al \<noteq> []" for k v and al :: "(uuid \<times> patch) list" by (cases al) auto
  then have "n \<le> n1" "n1 = n \<longrightarrow> ov1 = ov" "ov \<noteq> [] \<or> n < n1 \<longrightarrow> ov1 \<noteq> []"
    using s by (auto simp: preview_step_def Let_def split: prod.splits if_splits)
  moreover have "n1 \<le> n' \<and> (n' = n1 \<longrightarrow> ov' = ov1) \<and> (ov1 \<noteq> [] \<or> n1 < n' \<longrightarrow> ov' \<noteq> [])"
    by (rule Cons.IH) (use Cons.prems s in simp)
  ultimately show ?case by auto
qed simp

lemma previewElements_ok: "preview_ok e \<Longrightarrow> active e \<noteq> None \<Longrightarrow> preview_ok (previewElements us e)"
proof -
  assume ok: "preview_ok e" "active e \<noteq> None"
  obtain ov n where f: "fold preview_step (map (\<lambda>(r, p). (ref_elementId r, p)) us) (previewOverlay e, 0) = (ov, n)" by fastforce
  note c = preview_step_changed [OF f]
  obtain s where s: "active e = Some s" using ok(2) by blast
  show ?thesis
  proof (cases "n = 0")
    case True
    then show ?thesis using ok(1) c s by (simp add: previewElements_def f preview_ok_def)
  next
    case False
    then show ?thesis using c s by (simp add: previewElements_def f preview_ok_def)
  qed
qed

lemma previewElements_scenes [simp]: "scenes_of (previewElements us e) = scenes_of e"
  by (auto simp: previewElements_def scenes_of_def Let_def split: prod.splits option.splits)

lemma apply_patch_append: "apply_patch (p @ q) x = apply_patch q (apply_patch p x)"
  by (simp add: apply_patch_def)

lemma apply_patch_id: "elementId (apply_patch p x) = elementId x"
  unfolding apply_patch_def by (induction p arbitrary: x) simp_all

lemma overlay_track_map:
  "overlay_track ov tr = tr\<lparr>elements := map (\<lambda>x. case map_of ov (elementId x) of None \<Rightarrow> x | Some p \<Rightarrow> apply_patch p x) (elements tr)\<rparr>"
proof (cases "list_ex (\<lambda>x. map_of ov (elementId x) \<noteq> None) (elements tr)")
  case False
  then have "map (\<lambda>x. case map_of ov (elementId x) of None \<Rightarrow> x | Some p \<Rightarrow> apply_patch p x) (elements tr) = elements tr"
    by (intro map_idI) (auto simp: list_ex_iff split: option.splits)
  then show ?thesis using False by (simp add: overlay_track_def)
qed (simp add: overlay_track_def)

section \<open>Properties\<close>

text \<open>A preview never touches the scenes; what it shows is the committed tracks with the merged patches
  applied; discarding it shows the committed tracks again.\<close>
theorem preview_shows_overlay:
  assumes "preview_ok e" "active e = Some s"
  shows "scene_list (previewElements us e) = scene_list e \<and> active (previewElements us e) = active e
    \<and> preview_ok (previewElements us e)
    \<and> getPreviewTracks (previewElements us e) = Some (applyPreviewOverlay (previewOverlay (previewElements us e)) (tracks s))
    \<and> preview_ok (discardPreview (previewElements us e)) \<and> getPreviewTracks (discardPreview (previewElements us e)) = Some (tracks s)"
proof -
  let ?e = "previewElements us e"
  have sc: "scene_list ?e = scene_list e" "active ?e = active e" using previewElements_scenes [of us e] by (simp_all add: scenes_of_def)
  have ok: "preview_ok ?e" using previewElements_ok [OF assms(1)] assms(2) by simp
  then have pt: "previewTracks ?e = (if previewOverlay ?e = [] then None else Some (applyPreviewOverlay (previewOverlay ?e) (tracks s)))"
    using sc assms(2) by (simp add: preview_ok_def)
  show ?thesis using sc ok pt assms(2)
    by (cases "previewOverlay ?e = []") (simp_all add: getPreviewTracks_def discardPreview_def preview_ok_def applyPreviewOverlay_def)
qed

theorem preview_shows_overlay_witness:
  "\<forall>b. getPreviewTracks (discardPreview (previewElements [(demo_anchor, [PStartTime 5])] (ed (demo_manager b)))) = Some demo_tracks"
proof
  fix b
  have "preview_ok (ed (demo_manager b))" "active (ed (demo_manager b)) = Some demo_scene"
    by (simp_all add: preview_ok_def demo_manager_def)
  from preview_shows_overlay [OF this] show "getPreviewTracks (discardPreview (previewElements [(demo_anchor, [PStartTime 5])] (ed (demo_manager b)))) = Some demo_tracks"
    by (simp add: demo_scene_def)
qed

text \<open>Committing a preview makes the active scene what the preview showed, as one undoable step: undo
  restores the scene list, the active scene and the history, and no preview is left.\<close>
theorem commit_preview_undo:
  assumes "editor_ok (ed m)" "preview_ok (ed m)" "active (ed m) = Some s" "isPreviewActive (ed m)"
  shows "map_option tracks (active (ed (commitPreview m))) = getPreviewTracks (ed m)
    \<and> \<not> isPreviewActive (ed (commitPreview m)) \<and> preview_ok (ed (commitPreview m))
    \<and> scene_list (ed (manager_undo (commitPreview m))) = scene_list (ed m)
    \<and> active (ed (manager_undo (commitPreview m))) = active (ed m)
    \<and> history (manager_undo (commitPreview m)) = history m"
proof -
  define ts where "ts = applyPreviewOverlay (previewOverlay (ed m)) (tracks s)"
  have pt: "previewTracks (ed m) = Some ts" using assms(2-4) by (simp add: preview_ok_def isPreviewActive_def ts_def)
  let ?e = "updateTracks ts ((ed m)\<lparr>previewOverlay := [], previewTracks := None\<rparr>)"
  have same: "?e = updateTracks ts (ed m)" by (simp add: updateTracks_def)
  have c: "ed (commitPreview m) = updateTracks ts (ed m)"
      "history (commitPreview m) = \<lparr>he_command = TracksSnapshotCommand (tracks s) ts, he_previousSelection = selection (ed m),
         he_selectionOverride = None\<rparr> # history m"
    using assms(3,4) pt same by (simp_all add: commitPreview_def isPreviewActive_def manager_push_def)
  have prev: "previewOverlay (updateTracks ts (ed m)) = []" "previewTracks (updateTracks ts (ed m)) = None"
    by (simp_all add: updateTracks_def updateSceneTracks_def Let_def split: option.splits)
  have u: "ed (manager_undo (commitPreview m)) = updateTracks (tracks s) (ed m)" "history (manager_undo (commitPreview m)) = history m"
    by (simp_all add: manager_undo_entry [OF c(2)] undo_entry_def c(1))
  have sc: "scenes_of (updateTracks (tracks s) (ed m)) = scenes_of (ed m)" by (rule updateTracks_same [OF assms(1,3)])
  show ?thesis using u sc prev updateTracks_active [OF assms(3), of ts] pt
    by (simp add: c(1) getPreviewTracks_def isPreviewActive_def preview_ok_def scenes_of_def)
qed

definition demo_previewed :: manager where
  "demo_previewed = (demo_manager False)\<lparr>ed := previewElements [(demo_anchor, [PStartTime 5])] (ed (demo_manager False))\<rparr>"

theorem commit_preview_undo_witness:
  "active (ed (manager_undo (commitPreview demo_previewed))) = Some demo_scene"
proof -
  have p: "preview_ok (ed (demo_manager False))" "active (ed (demo_manager False)) = Some demo_scene"
    by (simp_all add: preview_ok_def demo_manager_def)
  have s: "scenes_of (ed demo_previewed) = scenes_of (ed (demo_manager False))" by (simp add: demo_previewed_def)
  have "editor_ok (ed demo_previewed)" using editor_ok_scenes [OF s] demo_manager_ok by simp
  moreover have "preview_ok (ed demo_previewed)" using previewElements_ok p by (simp add: demo_previewed_def)
  moreover have "active (ed demo_previewed) = Some demo_scene" using s p(2) by (simp add: scenes_of_def)
  moreover have "isPreviewActive (ed demo_previewed)" by code_simp
  ultimately show ?thesis using commit_preview_undo [of demo_previewed demo_scene] by simp
qed

definition demo_two_scenes :: editor where
  "demo_two_scenes = (ed (demo_manager False))\<lparr>scene_list := [demo_scene, demo_scene\<lparr>sceneId := ''s2'', tracks := demo_tracks\<lparr>overlay := []\<rparr>\<rparr>]\<rparr>"

text \<open>The preview survives a switch to another scene: committing it there replaces the tracks of that
  scene by the previewed tracks of the scene that was left.\<close>
theorem preview_leaks_into_other_scene:
  "case switchToScene ''s2'' (previewElements [(demo_anchor, [PStartTime 5])] demo_two_scenes) of
     Inl _ \<Rightarrow> False
   | Inr e \<Rightarrow> map_option (\<lambda>s. length (overlay (tracks s))) (active e) = Some 0
       \<and> map_option sceneId (active (ed (commitPreview ((demo_manager False)\<lparr>ed := e\<rparr>)))) = Some ''s2''
       \<and> map_option (\<lambda>s. length (overlay (tracks s))) (active (ed (commitPreview ((demo_manager False)\<lparr>ed := e\<rparr>)))) = Some 1"
  by code_simp

end
