(* ===== verification/Playback.thy ===== *)
theory Playback
  imports Timeline_Manager
begin

text \<open>
  The playback manager (\<open>core/managers/playback-manager.ts\<close>): the playhead, the frame loop driven by
  \<open>requestAnimationFrame\<close>, volume and mute. The duration of the timeline is an argument (it is
  \<open>getTotalDuration\<close> of the editor), and so is \<open>performance.now()\<close>, in milliseconds. The frames the browser
  has scheduled are the list \<open>pending\<close>; their ids start at 1. An exception of \<open>mediaTimeFromSeconds\<close> ends the
  method that called it. The listeners are left out.
\<close>

section \<open>State\<close>

record playback =
  isPlaying :: bool
  currentTime :: media_time
  pb_volume :: rat
  pb_muted :: bool
  previousVolume :: rat
  isScrubbing :: bool
  playbackTimer :: "nat option"
  playbackStartWallTime :: rat
  playbackStartTime :: media_time
  pending :: "nat list"
  next_frame :: nat

definition initial_playback :: playback where
  "initial_playback = \<lparr>isPlaying = False, currentTime = 0, pb_volume = 1, pb_muted = False, previousVolume = 1,
     isScrubbing = False, playbackTimer = None, playbackStartWallTime = 0, playbackStartTime = 0, pending = [], next_frame = 1\<rparr>"

section \<open>Operations\<close>

definition clampTimeToTimeline :: "media_time \<Rightarrow> media_time \<Rightarrow> media_time" where
  "clampTimeToTimeline maxTime t = clampMediaTime t ZERO_MEDIA_TIME maxTime"

definition cancelFrame :: "nat \<Rightarrow> playback \<Rightarrow> playback" where
  "cancelFrame i p = p\<lparr>pending := filter (\<lambda>j. j \<noteq> i) (pending p)\<rparr>"

definition requestFrame :: "playback \<Rightarrow> playback" where
  "requestFrame p = p\<lparr>pending := pending p @ [next_frame p], playbackTimer := Some (next_frame p), next_frame := Suc (next_frame p)\<rparr>"

definition stopTimer :: "playback \<Rightarrow> playback" where
  "stopTimer p = (case playbackTimer p of None \<Rightarrow> p | Some i \<Rightarrow> (cancelFrame i p)\<lparr>playbackTimer := None\<rparr>)"

definition pause :: "playback \<Rightarrow> playback" where
  "pause p = stopTimer (p\<lparr>isPlaying := False\<rparr>)"

definition updateTime :: "wasm_api \<Rightarrow> frame_rate \<Rightarrow> media_time \<Rightarrow> rat \<Rightarrow> playback \<Rightarrow> js_error option \<times> playback" where
  "updateTime w r maxTime now p =
     (if \<not> isPlaying p then (None, p)
      else
        let elapsedSeconds = (now - playbackStartWallTime p) / 1000
        in case mediaTimeFromSeconds w elapsedSeconds of
             Inl err \<Rightarrow> (Some err, p)
           | Inr t \<Rightarrow>
               let rawTime = addMediaTime (playbackStartTime p) t;
                   newTime = roundFrameTime w rawTime r
               in if newTime \<ge> maxTime then (None, (pause p)\<lparr>currentTime := maxTime\<rparr>)
                  else (None, requestFrame (p\<lparr>currentTime := newTime\<rparr>)))"

definition startTimer :: "wasm_api \<Rightarrow> frame_rate \<Rightarrow> media_time \<Rightarrow> rat \<Rightarrow> playback \<Rightarrow> js_error option \<times> playback" where
  "startTimer w r maxTime now p =
     (let p1 = (case playbackTimer p of None \<Rightarrow> p | Some i \<Rightarrow> cancelFrame i p)
      in updateTime w r maxTime now (p1\<lparr>playbackStartWallTime := now, playbackStartTime := currentTime p1\<rparr>))"

definition seek :: "media_time \<Rightarrow> rat \<Rightarrow> media_time \<Rightarrow> playback \<Rightarrow> playback" where
  "seek maxTime now t p =
     (let p1 = p\<lparr>currentTime := clampTimeToTimeline maxTime t\<rparr>
      in if isPlaying p1 then p1\<lparr>playbackStartWallTime := now, playbackStartTime := currentTime p1\<rparr> else p1)"

definition play :: "wasm_api \<Rightarrow> frame_rate \<Rightarrow> media_time \<Rightarrow> rat \<Rightarrow> playback \<Rightarrow> js_error option \<times> playback" where
  "play w r maxTime now p =
     (if maxTime \<le> 0 then (None, p)
      else let p1 = (if currentTime p \<ge> maxTime then seek maxTime now ZERO_MEDIA_TIME p else p)
           in startTimer w r maxTime now (p1\<lparr>isPlaying := True\<rparr>))"

definition toggle :: "wasm_api \<Rightarrow> frame_rate \<Rightarrow> media_time \<Rightarrow> rat \<Rightarrow> playback \<Rightarrow> js_error option \<times> playback" where
  "toggle w r maxTime now p = (if isPlaying p then (None, pause p) else play w r maxTime now p)"

definition setVolume :: "rat \<Rightarrow> playback \<Rightarrow> playback" where
  "setVolume v p =
     (let clamped = max 0 (min 1 v);
          p1 = p\<lparr>pb_volume := clamped, pb_muted := (clamped = 0)\<rparr>
      in if clamped > 0 then p1\<lparr>previousVolume := clamped\<rparr> else p1)"

definition mute :: "playback \<Rightarrow> playback" where
  "mute p =
     (let p1 = (if pb_volume p > 0 then p\<lparr>previousVolume := pb_volume p\<rparr> else p)
      in p1\<lparr>pb_muted := True, pb_volume := 0\<rparr>)"

definition unmute :: "playback \<Rightarrow> playback" where
  "unmute p = p\<lparr>pb_muted := False, pb_volume := previousVolume p\<rparr>"

definition toggleMute :: "playback \<Rightarrow> playback" where
  "toggleMute p = (if pb_muted p then unmute p else mute p)"

definition setScrubbing :: "bool \<Rightarrow> playback \<Rightarrow> playback" where
  "setScrubbing b p = p\<lparr>isScrubbing := b\<rparr>"

text \<open>Run whenever the timeline or the scenes change, with the new duration.\<close>

definition reconcileTimelineScope :: "media_time \<Rightarrow> playback \<Rightarrow> playback" where
  "reconcileTimelineScope maxTime p =
     (let nextTime = clampTimeToTimeline maxTime (currentTime p);
          shouldPause = isPlaying p \<and> nextTime \<ge> maxTime;
          timeChanged = nextTime \<noteq> currentTime p
      in if \<not> timeChanged \<and> \<not> shouldPause then p
         else (if shouldPause then stopTimer (p\<lparr>isPlaying := False\<rparr>) else p)\<lparr>currentTime := nextTime\<rparr>)"

text \<open>The browser runs a frame it has scheduled.\<close>

definition frame_fires :: "wasm_api \<Rightarrow> frame_rate \<Rightarrow> media_time \<Rightarrow> rat \<Rightarrow> nat \<Rightarrow> playback \<Rightarrow> js_error option \<times> playback" where
  "frame_fires w r maxTime now i p = updateTime w r maxTime now (cancelFrame i p)"

section \<open>The manager among its events\<close>

datatype playback_event =
  Play | Pause | Toggle | Seek media_time | SetVolume rat | Mute | Unmute | ToggleMute | SetScrubbing bool
| TimelineChanged media_time | FrameFires nat

text \<open>The state of the system: the duration of the timeline, the clock, and the manager.\<close>

type_synonym playback_system = "media_time \<times> rat \<times> playback"

fun playback_event_step :: "wasm_api \<Rightarrow> frame_rate \<Rightarrow> rat \<Rightarrow> playback_event \<Rightarrow> playback_system \<Rightarrow> playback_system" where
  "playback_event_step w r now Play (d, c, p) = (d, now, snd (play w r d now p))"
| "playback_event_step w r now Pause (d, c, p) = (d, now, pause p)"
| "playback_event_step w r now Toggle (d, c, p) = (d, now, snd (toggle w r d now p))"
| "playback_event_step w r now (Seek t) (d, c, p) = (d, now, seek d now t p)"
| "playback_event_step w r now (SetVolume v) (d, c, p) = (d, now, setVolume v p)"
| "playback_event_step w r now Mute (d, c, p) = (d, now, mute p)"
| "playback_event_step w r now Unmute (d, c, p) = (d, now, unmute p)"
| "playback_event_step w r now ToggleMute (d, c, p) = (d, now, toggleMute p)"
| "playback_event_step w r now (SetScrubbing b) (d, c, p) = (d, now, setScrubbing b p)"
| "playback_event_step w r now (TimelineChanged d') (d, c, p) = (d', now, reconcileTimelineScope d' p)"
| "playback_event_step w r now (FrameFires i) (d, c, p) = (d, now, snd (frame_fires w r d now i p))"

fun enabled :: "playback_event \<Rightarrow> playback_system \<Rightarrow> bool" where
  "enabled (FrameFires i) (d, c, p) = (i \<in> set (pending p))"
| "enabled (TimelineChanged d') s = (0 \<le> d')"
| "enabled _ s = True"

inductive playback_reach :: "wasm_api \<Rightarrow> frame_rate \<Rightarrow> media_time \<Rightarrow> playback_system \<Rightarrow> bool" for w r d0 where
  init: "playback_reach w r d0 (d0, 0, initial_playback)"
| step: "playback_reach w r d0 s \<Longrightarrow> enabled ev s \<Longrightarrow> fst (snd s) \<le> now \<Longrightarrow> playback_reach w r d0 (playback_event_step w r now ev s)"

section \<open>The invariant\<close>

text \<open>What the package promises: a conversion of seconds always succeeds, and neither it nor rounding to a
  frame makes a time negative.\<close>

definition wasm_times :: "wasm_api \<Rightarrow> bool" where
  "wasm_times w \<longleftrightarrow> (\<forall>s \<ge> 0. \<exists>t \<ge> 0. mediaTimeFromSeconds_w w s = Some t)
     \<and> (\<forall>t r t'. 0 \<le> t \<longrightarrow> roundToFrame_w w t r = Some t' \<longrightarrow> 0 \<le> t')"

definition frames_ok :: "playback \<Rightarrow> bool" where
  "frames_ok p \<longleftrightarrow> (if isPlaying p then \<exists>i. playbackTimer p = Some i \<and> pending p = [i] else pending p = [])"

definition playback_inv :: "playback_system \<Rightarrow> bool" where
  "playback_inv s \<longleftrightarrow> (case s of (d, c, p) \<Rightarrow>
     0 \<le> currentTime p \<and> currentTime p \<le> d \<and> frames_ok p
     \<and> (isPlaying p \<longrightarrow> 0 \<le> playbackStartTime p \<and> playbackStartWallTime p \<le> c)
     \<and> 0 \<le> pb_volume p \<and> pb_volume p \<le> 1 \<and> 0 < previousVolume p \<and> previousVolume p \<le> 1 \<and> (pb_muted p \<longleftrightarrow> pb_volume p = 0))"

lemma clamp_bounds: "0 \<le> d \<Longrightarrow> 0 \<le> clampTimeToTimeline d t \<and> clampTimeToTimeline d t \<le> d"
  by (simp add: clampTimeToTimeline_def clampMediaTime_def)

lemma roundFrame_nonneg: "wasm_times w \<Longrightarrow> 0 \<le> t \<Longrightarrow> 0 \<le> roundFrameTime w t r"
  by (auto simp: wasm_times_def roundFrameTime_def split: option.splits)

lemma pause_frames: "frames_ok p \<or> pending p = [] \<Longrightarrow> frames_ok (pause p) \<and> \<not> isPlaying (pause p) \<and> pending (pause p) = []"
  by (auto simp: frames_ok_def pause_def stopTimer_def cancelFrame_def split: if_splits option.splits)

lemma pause_proj [simp]:
  "currentTime (pause p) = currentTime p" "pb_volume (pause p) = pb_volume p" "pb_muted (pause p) = pb_muted p"
  "previousVolume (pause p) = previousVolume p" "isPlaying (pause p) = False"
  by (simp_all add: pause_def stopTimer_def cancelFrame_def split: option.splits)

text \<open>One run of the loop body, started with no frame scheduled.\<close>

lemma updateTime_playing:
  assumes "wasm_times w" "isPlaying p" "pending p = []" "playbackStartWallTime p \<le> now" "0 \<le> playbackStartTime p" "0 \<le> d"
  shows "\<exists>t \<ge> 0. mediaTimeFromSeconds_w w ((now - playbackStartWallTime p) / 1000) = Some t
    \<and> fst (updateTime w r d now p) = None
    \<and> (let new = roundFrameTime w (playbackStartTime p + t) r
       in snd (updateTime w r d now p)
          = (if new \<ge> d then (pause p)\<lparr>currentTime := d\<rparr> else requestFrame (p\<lparr>currentTime := new\<rparr>)) \<and> 0 \<le> new)"
proof -
  have "0 \<le> (now - playbackStartWallTime p) / 1000" using assms(4) by simp
  then obtain t where t: "0 \<le> t" "mediaTimeFromSeconds_w w ((now - playbackStartWallTime p) / 1000) = Some t"
    using assms(1) unfolding wasm_times_def by blast
  have "0 \<le> roundFrameTime w (playbackStartTime p + t) r" using roundFrame_nonneg [OF assms(1)] assms(5) t(1) by simp
  then show ?thesis using t assms(2) by (intro exI [of _ t]) (simp add: updateTime_def Let_def mediaTimeFromSeconds_def)
qed

lemma updateTime_inv:
  assumes "wasm_times w" "isPlaying p" "pending p = []" "playbackStartWallTime p \<le> now" "0 \<le> playbackStartTime p" "0 \<le> d"
    and "0 \<le> pb_volume p \<and> pb_volume p \<le> 1 \<and> 0 < previousVolume p \<and> previousVolume p \<le> 1 \<and> (pb_muted p \<longleftrightarrow> pb_volume p = 0)"
  shows "playback_inv (d, now, snd (updateTime w r d now p))"
proof -
  obtain t where t: "snd (updateTime w r d now p)
      = (if roundFrameTime w (playbackStartTime p + t) r \<ge> d then (pause p)\<lparr>currentTime := d\<rparr>
         else requestFrame (p\<lparr>currentTime := roundFrameTime w (playbackStartTime p + t) r\<rparr>))"
      "0 \<le> roundFrameTime w (playbackStartTime p + t) r"
    using updateTime_playing [OF assms(1-6), of r] by (auto simp: Let_def)
  show ?thesis
  proof (cases "roundFrameTime w (playbackStartTime p + t) r \<ge> d")
    case True
    have "pending (pause p) = []" using pause_frames [of p] assms(3) by simp
    then show ?thesis using assms(6,7) by (simp add: t(1) True playback_inv_def frames_ok_def)
  next
    case False
    then show ?thesis using assms t(2) by (simp add: t(1) playback_inv_def frames_ok_def requestFrame_def)
  qed
qed

lemma volume_inv:
  assumes "playback_inv (d, c, p)" "c \<le> now"
  shows "playback_inv (d, now, setVolume v p)" "playback_inv (d, now, mute p)" "playback_inv (d, now, unmute p)"
    "playback_inv (d, now, setScrubbing b p)"
  using assms by (auto simp: playback_inv_def setVolume_def mute_def unmute_def setScrubbing_def Let_def frames_ok_def)

lemma pause_inv: "playback_inv (d, c, p) \<Longrightarrow> playback_inv (d, now, pause p)"
  using pause_frames [of p] by (auto simp: playback_inv_def)

lemma seek_inv: "playback_inv (d, c, p) \<Longrightarrow> 0 \<le> d \<Longrightarrow> playback_inv (d, now, seek d now t p)"
  using clamp_bounds [of d t] by (auto simp: playback_inv_def seek_def Let_def frames_ok_def)

lemma play_inv:
  assumes "wasm_times w" "playback_inv (d, c, p)" "c \<le> now"
  shows "playback_inv (d, now, snd (play w r d now p))"
proof (cases "d \<le> 0")
  case True
  then show ?thesis using assms(2,3) by (auto simp: play_def playback_inv_def)
next
  case False
  define p1 where "p1 = (if currentTime p \<ge> d then seek d now ZERO_MEDIA_TIME p else p)"
  have i: "playback_inv (d, now, p1)" using seek_inv [OF assms(2), of now ZERO_MEDIA_TIME] assms(2,3) False
    by (auto simp: p1_def playback_inv_def)
  define p2 where "p2 = (case playbackTimer (p1\<lparr>isPlaying := True\<rparr>) of None \<Rightarrow> p1\<lparr>isPlaying := True\<rparr> | Some i \<Rightarrow> cancelFrame i (p1\<lparr>isPlaying := True\<rparr>))"
  have p2: "pending p2 = []" "isPlaying p2" "currentTime p2 = currentTime p1" "pb_volume p2 = pb_volume p1" "pb_muted p2 = pb_muted p1"
      "previousVolume p2 = previousVolume p1"
    using i by (auto simp: p2_def cancelFrame_def playback_inv_def frames_ok_def split: option.splits if_splits)
  have "snd (play w r d now p) = snd (updateTime w r d now (p2\<lparr>playbackStartWallTime := now, playbackStartTime := currentTime p2\<rparr>))"
    using False unfolding play_def startTimer_def Let_def p1_def [symmetric] p2_def [symmetric] by simp
  moreover have "playback_inv (d, now, snd (updateTime w r d now (p2\<lparr>playbackStartWallTime := now, playbackStartTime := currentTime p2\<rparr>)))"
    by (rule updateTime_inv [OF assms(1)]) (use p2 i False in \<open>auto simp: playback_inv_def\<close>)
  ultimately show ?thesis by simp
qed

lemma frame_inv:
  assumes "wasm_times w" "playback_inv (d, c, p)" "c \<le> now" "i \<in> set (pending p)"
  shows "playback_inv (d, now, snd (frame_fires w r d now i p))"
proof -
  have "isPlaying p" "pending p = [i]" using assms(2,4) by (auto simp: playback_inv_def frames_ok_def split: if_splits)
  then show ?thesis using assms(2,3) unfolding frame_fires_def
    by (intro updateTime_inv [OF assms(1)]) (auto simp: playback_inv_def cancelFrame_def)
qed

lemma reconcile_inv:
  assumes "playback_inv (d, c, p)" "c \<le> now" "0 \<le> d'"
  shows "playback_inv (d', now, reconcileTimelineScope d' p)"
proof -
  note b = clamp_bounds [OF assms(3), of "currentTime p"]
  have ps: "stopTimer (p\<lparr>isPlaying := False\<rparr>) = pause p" by (simp add: pause_def)
  have inv: "playback_inv (d, now, p)" "playback_inv (d, now, pause p)" using assms(1,2) pause_inv by (auto simp: playback_inv_def)
  have "playback_inv (d', now, p\<lparr>currentTime := clampTimeToTimeline d' (currentTime p)\<rparr>)"
    "playback_inv (d', now, (pause p)\<lparr>currentTime := clampTimeToTimeline d' (currentTime p)\<rparr>)"
    using inv b by (auto simp: playback_inv_def frames_ok_def)
  then show ?thesis using inv(1) b
    by (cases "clampTimeToTimeline d' (currentTime p) = currentTime p")
      (auto simp: reconcileTimelineScope_def Let_def ps playback_inv_def)
qed

lemma playback_inv_step:
  assumes "wasm_times w" "playback_inv s" "enabled ev s" "fst (snd s) \<le> now"
  shows "playback_inv (playback_event_step w r now ev s)"
proof -
  obtain d c p where s: "s = (d, c, p)" using prod_cases3 by blast
  have inv: "playback_inv (d, c, p)" "c \<le> now" and d: "0 \<le> d" using assms(2,4) by (auto simp: s playback_inv_def)
  show ?thesis using assms(3) inv pause_inv [OF inv(1)] volume_inv [OF inv] seek_inv [OF inv(1) d] play_inv [OF assms(1) inv]
      frame_inv [OF assms(1) inv] reconcile_inv [OF inv]
    by (cases ev) (auto simp: s toggle_def toggleMute_def)
qed

lemma reach_inv:
  assumes "wasm_times w" "0 \<le> d0" "playback_reach w r d0 s"
  shows "playback_inv s"
  using assms(3)
proof induction
  case init
  then show ?case using assms(2) by (simp add: playback_inv_def initial_playback_def frames_ok_def)
next
  case (step s ev now)
  then show ?case using playback_inv_step [OF assms(1)] by blast
qed

section \<open>Properties\<close>

text \<open>C18: However the user plays, pauses, seeks, mutes and edits the timeline: the playhead stays within the
  timeline; one animation frame is scheduled exactly while playing and none otherwise; the volume is
  between 0 and 1, is 0 exactly when muted, and there is an audible volume to return to.\<close>
theorem playback_safe:
  assumes "wasm_times w" "0 \<le> d0" "playback_reach w r d0 (d, c, p)"
  shows "0 \<le> currentTime p \<and> currentTime p \<le> d
    \<and> (if isPlaying p then \<exists>i. playbackTimer p = Some i \<and> pending p = [i] else pending p = [])
    \<and> 0 \<le> pb_volume p \<and> pb_volume p \<le> 1 \<and> (pb_muted p \<longleftrightarrow> pb_volume p = 0) \<and> 0 < previousVolume p"
proof -
  from reach_inv [OF assms(1,2) assms(3)] show ?thesis by (auto simp: playback_inv_def frames_ok_def)
qed

definition demo_wasm :: wasm_api where
  "demo_wasm = \<lparr>ticksPerSecond = 1000, lastFrameTime_w = \<lambda>_ _. None, mediaTimeFromSeconds_w = \<lambda>s. Some \<lfloor>s * 1000\<rfloor>,
     roundToFrame_w = \<lambda>t _. Some t, snappedSeekTime_w = \<lambda>_ _ _. None,
     parseColor_w = \<lambda>_. None, formatColor_w = \<lambda>_. [], cos_sin_w = \<lambda>_. (1, 0)\<rparr>"

lemma demo_wasm_times: "wasm_times demo_wasm"
  by (simp add: wasm_times_def demo_wasm_def)

lemma demo_reach: "playback_reach demo_wasm r 500 (playback_event_step demo_wasm r 10 Play (500, 0, initial_playback))"
  by (rule playback_reach.step [OF playback_reach.init]) simp_all

lemma demo_playing:
  "playback_event_step demo_wasm r 10 Play (500, 0, initial_playback) = (500, 10, initial_playback\<lparr>isPlaying := True,
     playbackTimer := Some 1, playbackStartWallTime := 10, pending := [1], next_frame := 2\<rparr>)"
  by (simp add: play_def startTimer_def updateTime_def initial_playback_def demo_wasm_def mediaTimeFromSeconds_def roundFrameTime_def
      requestFrame_def numeral_2_eq_2)

theorem playback_safe_witness:
  "\<forall>r. case playback_event_step demo_wasm r 10 Play (500, 0, initial_playback) of (d, c, p) \<Rightarrow>
     currentTime p \<le> d \<and> isPlaying p \<and> (\<exists>i. playbackTimer p = Some i \<and> pending p = [i])"
proof
  fix r
  from playback_safe [OF demo_wasm_times _ demo_reach [of r, unfolded demo_playing]]
  show "case playback_event_step demo_wasm r 10 Play (500, 0, initial_playback) of (d, c, p) \<Rightarrow>
     currentTime p \<le> d \<and> isPlaying p \<and> (\<exists>i. playbackTimer p = Some i \<and> pending p = [i])"
    unfolding demo_playing by simp
qed

text \<open>The browser running every frame the manager asks for, the \<open>n\<close>-th one at time \<open>clock n\<close>.\<close>

fun run_frames :: "wasm_api \<Rightarrow> frame_rate \<Rightarrow> media_time \<Rightarrow> (nat \<Rightarrow> rat) \<Rightarrow> playback \<Rightarrow> nat \<Rightarrow> playback" where
  "run_frames w r d clock p 0 = p"
| "run_frames w r d clock p (Suc n) =
     (let q = run_frames w r d clock p n
      in case pending q of [] \<Rightarrow> q | i # _ \<Rightarrow> snd (frame_fires w r d (clock n) i q))"

text \<open>Converted seconds keep pace with the clock up to a tick, and rounding to a frame loses at most \<open>b\<close>
  ticks.\<close>

definition wasm_progress :: "wasm_api \<Rightarrow> int \<Rightarrow> bool" where
  "wasm_progress w b \<longleftrightarrow> 0 < ticksPerSecond w
     \<and> (\<forall>s t. 0 \<le> s \<longrightarrow> mediaTimeFromSeconds_w w s = Some t \<longrightarrow> s * of_int (ticksPerSecond w) - 1 \<le> of_int t)
     \<and> (\<forall>t r t'. roundToFrame_w w t r = Some t' \<longrightarrow> t - b \<le> t')"

definition still_playing :: "media_time \<Rightarrow> rat \<Rightarrow> playback \<Rightarrow> playback \<Rightarrow> bool" where
  "still_playing d c p q \<longleftrightarrow> playback_inv (d, c, q) \<and> isPlaying q
     \<and> playbackStartWallTime q = playbackStartWallTime p \<and> playbackStartTime q = playbackStartTime p"

lemma frame_step:
  assumes "wasm_times w" "still_playing d c p q" "c \<le> now"
  shows "\<exists>i t. pending q = [i] \<and> mediaTimeFromSeconds_w w ((now - playbackStartWallTime p) / 1000) = Some t
    \<and> (let q' = snd (frame_fires w r d now i q); new = roundFrameTime w (playbackStartTime p + t) r
       in if new \<ge> d then \<not> isPlaying q' \<and> currentTime q' = d \<and> pending q' = [] else still_playing d now p q')"
proof -
  have inv: "playback_inv (d, c, q)" and q: "isPlaying q" "playbackStartWallTime q = playbackStartWallTime p" "playbackStartTime q = playbackStartTime p"
    using assms(2) by (simp_all add: still_playing_def)
  obtain i where i: "pending q = [i]" using inv q(1) by (auto simp: playback_inv_def frames_ok_def)
  let ?q = "cancelFrame i q"
  have c: "isPlaying ?q" "pending ?q = []" "playbackStartWallTime ?q \<le> now" "0 \<le> playbackStartTime ?q" "0 \<le> d"
    using inv q i assms(3) by (auto simp: cancelFrame_def playback_inv_def)
  obtain t where t: "mediaTimeFromSeconds_w w ((now - playbackStartWallTime ?q) / 1000) = Some t"
      "snd (updateTime w r d now ?q) = (if roundFrameTime w (playbackStartTime ?q + t) r \<ge> d then (pause ?q)\<lparr>currentTime := d\<rparr>
        else requestFrame (?q\<lparr>currentTime := roundFrameTime w (playbackStartTime ?q + t) r\<rparr>))"
    using updateTime_playing [OF assms(1) c, of r] by (auto simp: Let_def)
  have inv': "playback_inv (d, now, snd (frame_fires w r d now i q))" using frame_inv [OF assms(1) inv assms(3)] i by simp
  have "pending (pause ?q) = []" using pause_frames [of ?q] c(2) by simp
  then show ?thesis using i t inv' q
    by (intro exI [of _ i] exI [of _ t])
      (auto simp: Let_def frame_fires_def still_playing_def cancelFrame_def requestFrame_def)
qed

lemma run_frames_progress:
  assumes "wasm_times w" "still_playing d c p p" "c \<le> clock 0" "mono clock"
  shows "(\<exists>k \<le> n. \<not> isPlaying (run_frames w r d clock p k) \<and> currentTime (run_frames w r d clock p k) = d \<and> pending (run_frames w r d clock p k) = [])
    \<or> still_playing d (if n = 0 then c else clock (n - 1)) p (run_frames w r d clock p n)"
proof (induction n)
  case 0
  then show ?case using assms(2) by simp
next
  case (Suc n)
  let ?c = "if n = 0 then c else clock (n - 1)" and ?q = "run_frames w r d clock p n"
  show ?case
  proof (cases "still_playing d ?c p ?q")
    case True
    have "?c \<le> clock n" using assms(3,4) by (auto simp: mono_def)
    from frame_step [OF assms(1) True this, of r] obtain i t where i: "pending ?q = [i]"
      and st: "let q' = snd (frame_fires w r d (clock n) i ?q); new = roundFrameTime w (playbackStartTime p + t) r
       in if new \<ge> d then \<not> isPlaying q' \<and> currentTime q' = d \<and> pending q' = [] else still_playing d (clock n) p q'" by blast
    have "run_frames w r d clock p (Suc n) = snd (frame_fires w r d (clock n) i ?q)" using i by simp
    then show ?thesis using st by (auto simp: Let_def split: if_splits)
  next
    case False
    then show ?thesis using Suc by (meson le_SucI)
  qed
qed

text \<open>C19: Playback comes to its end: once playing, if the browser goes on running frames and the clock goes on,
  the manager reaches the end of the timeline, stops there and schedules no further frame.\<close>
theorem playback_ends:
  assumes "wasm_times w" "wasm_progress w b" "0 \<le> d0" "playback_reach w r d0 (d, c, p)" "isPlaying p"
    and "mono clock" "c \<le> clock 0" "\<forall>x. \<exists>n. x \<le> clock n"
  shows "\<exists>n. \<not> isPlaying (run_frames w r d clock p n) \<and> currentTime (run_frames w r d clock p n) = d
    \<and> pending (run_frames w r d clock p n) = []"
proof -
  have inv: "playback_inv (d, c, p)" by (rule reach_inv [OF assms(1,3,4)])
  have sp: "still_playing d c p p" using inv assms(5) by (simp add: still_playing_def)
  let ?tps = "of_int (ticksPerSecond w) :: rat"
  have tps: "0 < ?tps" using assms(2) by (simp add: wasm_progress_def)
  define y where "y = of_int (\<bar>d\<bar> + \<bar>b\<bar> + 1) / ?tps"
  define x where "x = playbackStartWallTime p + 1000 * y"
  obtain n where n: "x \<le> clock n" using assms(8) by blast
  let ?q = "run_frames w r d clock p n" and ?c = "if n = 0 then c else clock (n - 1)"
  have cn: "?c \<le> clock n" using assms(6,7) by (auto simp: mono_def)
  have "\<exists>k \<le> Suc n. \<not> isPlaying (run_frames w r d clock p k) \<and> currentTime (run_frames w r d clock p k) = d \<and> pending (run_frames w r d clock p k) = []"
  proof (cases "still_playing d ?c p ?q")
    case True
    from frame_step [OF assms(1) True cn, of r] obtain i t where i: "pending ?q = [i]"
      and t: "mediaTimeFromSeconds_w w ((clock n - playbackStartWallTime p) / 1000) = Some t"
      and st: "let q' = snd (frame_fires w r d (clock n) i ?q); new = roundFrameTime w (playbackStartTime p + t) r
       in if new \<ge> d then \<not> isPlaying q' \<and> currentTime q' = d \<and> pending q' = [] else still_playing d (clock n) p q'" by blast
    have "y \<le> (clock n - playbackStartWallTime p) / 1000" using n by (simp add: x_def)
    then have s: "of_int (\<bar>d\<bar> + \<bar>b\<bar> + 1) / ?tps \<le> (clock n - playbackStartWallTime p) / 1000" by (simp only: y_def)
    have "0 \<le> of_int (\<bar>d\<bar> + \<bar>b\<bar> + 1) / ?tps" using tps by simp
    then have "(clock n - playbackStartWallTime p) / 1000 * ?tps - 1 \<le> of_int t"
      using assms(2) t s unfolding wasm_progress_def by (meson order_trans)
    moreover have "of_int (\<bar>d\<bar> + \<bar>b\<bar> + 1) \<le> (clock n - playbackStartWallTime p) / 1000 * ?tps"
      using s tps by (simp add: pos_divide_le_eq)
    ultimately have "of_int (\<bar>d\<bar> + \<bar>b\<bar>) \<le> (of_int t :: rat)" by simp
    then have "\<bar>d\<bar> + \<bar>b\<bar> \<le> t" by (simp only: of_int_le_iff)
    moreover have "0 \<le> playbackStartTime p" using inv assms(5) by (simp add: playback_inv_def)
    moreover have "playbackStartTime p + t - \<bar>b\<bar> \<le> roundFrameTime w (playbackStartTime p + t) r"
    proof (cases "roundToFrame_w w (playbackStartTime p + t) r")
      case (Some t')
      then have "playbackStartTime p + t - b \<le> t'" using assms(2) by (simp add: wasm_progress_def)
      then show ?thesis using abs_ge_self [of b] by (simp add: roundFrameTime_def Some)
    qed (simp add: roundFrameTime_def)
    ultimately have "roundFrameTime w (playbackStartTime p + t) r \<ge> d" by linarith
    moreover have "run_frames w r d clock p (Suc n) = snd (frame_fires w r d (clock n) i ?q)" using i by simp
    ultimately show ?thesis using st by (auto simp: Let_def)
  next
    case False
    then show ?thesis using run_frames_progress [OF assms(1) sp assms(7,6), of n r] by (meson le_SucI)
  qed
  then show ?thesis by blast
qed

theorem playback_ends_witness:
  "\<forall>r. \<exists>n. \<not> isPlaying (run_frames demo_wasm r 500 (\<lambda>n. of_nat n + 10) (initial_playback\<lparr>isPlaying := True,
     playbackTimer := Some 1, playbackStartWallTime := 10, pending := [1], next_frame := 2\<rparr>) n)"
proof
  fix r
  have pr: "wasm_progress demo_wasm 0" by (simp add: wasm_progress_def demo_wasm_def) linarith
  have ub: "\<forall>x. \<exists>n. x \<le> of_nat n + (10 :: rat)" 
  proof
    fix x :: rat
    obtain n where "x < of_nat n" using reals_Archimedean2 by blast
    then have "x \<le> of_nat n + 10" by simp
    then show "\<exists>n. x \<le> of_nat n + (10 :: rat)" ..
  qed
  from playback_ends [OF demo_wasm_times pr _ demo_reach [of r, unfolded demo_playing] _ _ _ ub]
  show "\<exists>n. \<not> isPlaying (run_frames demo_wasm r 500 (\<lambda>n. of_nat n + 10) (initial_playback\<lparr>isPlaying := True,
     playbackTimer := Some 1, playbackStartWallTime := 10, pending := [1], next_frame := 2\<rparr>) n)"
    by (auto simp: mono_def)
qed

end
