(* ===== verification/Saving.thy ===== *)
theory Saving
  imports Prelude
begin

text \<open>
  The save manager (\<open>core/managers/save-manager.ts\<close>) and \<open>saveCurrentProject\<close> of \<open>core/managers/project-manager.ts\<close>:
  changes mark the project dirty, a debounced timeout saves it, and changes made while a save runs are saved after it. The
  methods are functions on the manager's fields; what they find around them is a second record.

  What is saved has two parts: the list of scenes, which the scenes manager holds, and the project object \<open>active\<close> (settings,
  current scene, thumbnail, view state), which \<open>saveCurrentProject\<close> reads before it waits for the store and assigns again after
  it. Both are numbered by the change that produced them: \<open>scenes_now\<close> and \<open>project_now\<close> are what the editor holds,
  \<open>in_flight\<close> and \<open>stored\<close> the pairs being saved and in the store, \<open>scenes_due\<close> and \<open>project_due\<close> what there was at the last
  accepted mark. \<open>overwritten\<close> records that the assignment after a save has replaced a newer project object. The model is
  of one project; the store keeps what it has when it refuses a save.
\<close>

section \<open>State\<close>

record saver =
  isPaused :: bool
  isSaving :: bool
  hasPendingSave :: bool
  armed :: bool
  subscribed :: bool

text \<open>\<open>armed\<close>: the timeout of \<open>saveTimer\<close> is scheduled and has not fired. \<open>subscribed\<close>: the list of
  unsubscribe handlers is not empty.\<close>

record save_world =
  projectActive :: bool
  isLoading :: bool
  isMigrating :: bool
  scenes_now :: nat
  project_now :: nat
  project_changes :: nat
  scenes_due :: nat
  project_due :: nat
  in_flight :: "nat \<times> nat"
  stored :: "nat \<times> nat"
  overwritten :: bool

type_synonym save_system = "saver \<times> save_world"

definition initial_saver :: saver where
  "initial_saver = \<lparr>isPaused = False, isSaving = False, hasPendingSave = False, armed = False, subscribed = False\<rparr>"

section \<open>Methods\<close>

definition queueSave :: "saver \<Rightarrow> saver" where
  "queueSave s = (if isSaving s then s else s\<lparr>armed := True\<rparr>)"

definition clearTimer :: "saver \<Rightarrow> saver" where
  "clearTimer s = s\<lparr>armed := False\<rparr>"

definition start :: "saver \<Rightarrow> saver" where
  "start s = (if subscribed s then s else s\<lparr>subscribed := True\<rparr>)"

definition stop :: "saver \<Rightarrow> saver" where
  "stop s = clearTimer (s\<lparr>subscribed := False\<rparr>)"

definition pause_saves :: "saver \<Rightarrow> saver" where
  "pause_saves s = s\<lparr>isPaused := True\<rparr>"

definition resume_saves :: "saver \<Rightarrow> saver" where
  "resume_saves s = (let s1 = s\<lparr>isPaused := False\<rparr> in if hasPendingSave s1 then queueSave s1 else s1)"

definition markDirty :: "bool \<Rightarrow> saver \<Rightarrow> saver" where
  "markDirty force s = (if isPaused s \<and> \<not> force then s else queueSave (s\<lparr>hasPendingSave := True\<rparr>))"

definition getIsDirty :: "saver \<Rightarrow> bool" where
  "getIsDirty s \<longleftrightarrow> hasPendingSave s \<or> isSaving s"

definition can_save :: "save_world \<Rightarrow> bool" where
  "can_save v \<longleftrightarrow> projectActive v \<and> \<not> isLoading v \<and> \<not> isMigrating v"

text \<open>\<open>saveNow\<close> up to its \<open>await\<close>: the scenes and the project object are read when the save starts. Without a project
  \<open>getActive\<close> throws, which leaves the state as the early returns do.\<close>

definition saveNow :: "save_system \<Rightarrow> save_system" where
  "saveNow st =
     (case st of (s, v) \<Rightarrow>
        if isSaving s then (s, v)
        else if \<not> hasPendingSave s then (s, v)
        else if \<not> can_save v then (s, v)
        else (clearTimer (s\<lparr>isSaving := True, hasPendingSave := False\<rparr>), v\<lparr>in_flight := (scenes_now v, project_now v)\<rparr>))"

text \<open>The rest of \<open>saveCurrentProject\<close>, \<open>this.active = updatedProject\<close> when the store has accepted the save, and the
  \<open>finally\<close> block of \<open>saveNow\<close>.\<close>

definition saved_project :: "save_world \<Rightarrow> save_world" where
  "saved_project v = v\<lparr>stored := in_flight v, projectActive := True, project_now := snd (in_flight v),
     overwritten := (overwritten v \<or> project_now v \<noteq> snd (in_flight v))\<rparr>"

definition save_returns :: "bool \<Rightarrow> save_system \<Rightarrow> save_system" where
  "save_returns ok st =
     (case st of (s, v) \<Rightarrow>
        (let s1 = s\<lparr>isSaving := False\<rparr> in if hasPendingSave s1 then queueSave s1 else s1,
         if ok then saved_project v else v))"

definition all_due :: "save_world \<Rightarrow> save_world" where
  "all_due v = v\<lparr>scenes_due := scenes_now v, project_due := project_now v\<rparr>"

definition flush :: "save_system \<Rightarrow> save_system" where
  "flush st = (case st of (s, v) \<Rightarrow> saveNow (s\<lparr>hasPendingSave := True\<rparr>, all_due v))"

definition timer_fires :: "save_system \<Rightarrow> save_system" where
  "timer_fires st = (case st of (s, v) \<Rightarrow> saveNow (s\<lparr>armed := False\<rparr>, v))"

definition mark :: "bool \<Rightarrow> save_system \<Rightarrow> save_system" where
  "mark force st = (case st of (s, v) \<Rightarrow> (markDirty force s, if isPaused s \<and> \<not> force then v else all_due v))"

text \<open>A change of the scenes notifies the manager when it is subscribed.\<close>

definition edit :: "save_system \<Rightarrow> save_system" where
  "edit st =
     (case st of (s, v) \<Rightarrow>
        let v1 = v\<lparr>scenes_now := Suc (scenes_now v)\<rparr> in if subscribed s then mark False (s, v1) else (s, v1))"

text \<open>A new project object: \<open>updateThumbnail\<close>, \<open>setTimelineViewState\<close> and the command on settings change nothing without a
  project and mark the change themselves; \<open>switchToScene\<close>, where \<open>getActive\<close> throws without one, notifies through the scenes.\<close>

definition new_project :: "save_world \<Rightarrow> save_world" where
  "new_project v = v\<lparr>project_changes := Suc (project_changes v), project_now := Suc (project_changes v)\<rparr>"

definition edit_project :: "save_system \<Rightarrow> save_system" where
  "edit_project st = (case st of (s, v) \<Rightarrow> if \<not> projectActive v then (s, v) else mark False (s, new_project v))"

definition switch_scene :: "save_system \<Rightarrow> save_system" where
  "switch_scene st =
     (case st of (s, v) \<Rightarrow>
        if \<not> projectActive v then (s, v)
        else if subscribed s then mark False (s, new_project v) else (s, new_project v))"

section \<open>Steps\<close>

inductive save_step :: "bool \<Rightarrow> save_system \<Rightarrow> save_system \<Rightarrow> bool" for failures where
  Edit: "save_step failures st (edit st)"
| EditProject: "save_step failures st (edit_project st)"
| SwitchScene: "save_step failures st (switch_scene st)"
| Mark: "save_step failures st (mark force st)"
| Start: "save_step failures (s, v) (start s, v)"
| Stop: "save_step failures (s, v) (stop s, v)"
| PauseSaves: "save_step failures (s, v) (pause_saves s, v)"
| ResumeSaves: "save_step failures (s, v) (resume_saves s, v)"
| Flush: "save_step failures st (flush st)"
| TimerFires: "armed (fst st) \<Longrightarrow> save_step failures st (timer_fires st)"
| SaveReturns: "isSaving (fst st) \<Longrightarrow> ok \<or> failures \<Longrightarrow> save_step failures st (save_returns ok st)"
| World: "save_step failures (s, v) (s, v\<lparr>projectActive := a, isLoading := l, isMigrating := g\<rparr>)"

inductive_cases save_stepE: "save_step failures st st'"

inductive save_reach :: "bool \<Rightarrow> save_system \<Rightarrow> bool" for failures where
  init: "stored v = (scenes_now v, project_now v) \<Longrightarrow> scenes_due v \<le> scenes_now v \<Longrightarrow> project_due v \<le> project_now v \<Longrightarrow>
     project_now v = project_changes v \<Longrightarrow> \<not> overwritten v \<Longrightarrow> save_reach failures (initial_saver, v)"
| step: "save_reach failures st \<Longrightarrow> save_step failures st st' \<Longrightarrow> save_reach failures st'"

section \<open>Invariant\<close>

text \<open>What is due of a part is stored, being saved, or waits to be saved; for the project object as long as it has not been
  overwritten.\<close>

definition part_inv :: "saver \<Rightarrow> nat \<Rightarrow> nat \<Rightarrow> nat \<Rightarrow> nat \<Rightarrow> bool" where
  "part_inv s now due fl st \<longleftrightarrow> due \<le> now \<and> st \<le> now \<and> (isSaving s \<longrightarrow> st \<le> fl \<and> fl \<le> now)
     \<and> (due \<le> st \<or> hasPendingSave s \<or> isSaving s \<and> due \<le> fl)"

definition save_inv :: "save_system \<Rightarrow> bool" where
  "save_inv st \<longleftrightarrow> (case st of (s, v) \<Rightarrow>
     project_now v \<le> project_changes v \<and> (isSaving s \<longrightarrow> \<not> armed s \<and> snd (in_flight v) \<le> project_changes v) \<and>
     part_inv s (scenes_now v) (scenes_due v) (fst (in_flight v)) (fst (stored v)) \<and>
     (overwritten v \<or> project_now v = project_changes v \<and>
        part_inv s (project_now v) (project_due v) (snd (in_flight v)) (snd (stored v))))"

lemmas save_defs = queueSave_def clearTimer_def start_def stop_def pause_saves_def resume_saves_def markDirty_def saveNow_def
  save_returns_def flush_def timer_fires_def mark_def edit_def edit_project_def switch_scene_def new_project_def all_due_def
  saved_project_def

lemma save_inv_methods:
  assumes "save_inv (s, v)"
  shows "save_inv (edit (s, v))" "save_inv (edit_project (s, v))" "save_inv (switch_scene (s, v))" "save_inv (mark force (s, v))"
    "save_inv (start s, v)" "save_inv (stop s, v)" "save_inv (pause_saves s, v)" "save_inv (resume_saves s, v)"
    "save_inv (flush (s, v))" "save_inv (timer_fires (s, v))" "isSaving s \<Longrightarrow> save_inv (save_returns ok (s, v)) \<or> \<not> ok"
  using assms by (auto simp: save_inv_def part_inv_def save_defs Let_def)

lemma save_inv_step:
  assumes "save_step False st st'" "save_inv st"
  shows "save_inv st'"
  using assms(1)
proof cases
  case (World s v a l g)
  then show ?thesis using assms(2) by (simp add: save_inv_def)
qed (use assms(2) save_inv_methods [of "fst st" "snd st"] in auto)

section \<open>Properties\<close>

lemma save_reach_inv:
  assumes "save_reach False st"
  shows "save_inv st"
  using assms
proof induction
  case (init v)
  then show ?case by (simp add: save_inv_def part_inv_def initial_saver_def)
next
  case (step st st')
  then show ?case using save_inv_step by blast
qed

text \<open>C16: While no save fails, a project that is not reported dirty is in the store, whatever the order of changes, pauses,
  timeouts, flushes and finishing saves: the scenes as they were at the last change that the manager accepted (a change while
  saving is paused is not accepted) or later ones, and likewise the project object with its settings and current scene,
  unless a finishing save has overwritten a newer project object in memory.\<close>
theorem clean_means_stored:
  assumes "save_reach False (s, v)" "\<not> getIsDirty s"
  shows "scenes_due v \<le> fst (stored v) \<and> (\<not> overwritten v \<longrightarrow> project_due v \<le> snd (stored v))"
  using save_reach_inv [OF assms(1)] assms(2) by (auto simp: save_inv_def part_inv_def getIsDirty_def)

definition demo_world :: save_world where
  "demo_world = \<lparr>projectActive = True, isLoading = False, isMigrating = False, scenes_now = 0, project_now = 0, project_changes = 0,
     scenes_due = 0, project_due = 0, in_flight = (0, 0), stored = (0, 0), overwritten = False\<rparr>"

definition demo_saved :: save_system where
  "demo_saved = save_returns True (timer_fires (edit_project (edit (start initial_saver, demo_world))))"

theorem clean_means_stored_witness:
  "\<not> getIsDirty (fst demo_saved) \<and> scenes_due (snd demo_saved) = 1 \<and> 1 \<le> fst (stored (snd demo_saved))
    \<and> project_due (snd demo_saved) = 1 \<and> 1 \<le> snd (stored (snd demo_saved))"
proof -
  let ?e = "edit_project (edit (start initial_saver, demo_world))"
  have r0: "save_reach False (initial_saver, demo_world)" by (rule save_reach.init) (simp_all add: demo_world_def)
  have r1: "save_reach False (start initial_saver, demo_world)" by (rule save_reach.step [OF r0 save_step.Start])
  have r2: "save_reach False ?e" by (intro save_reach.step [OF _ save_step.EditProject] save_reach.step [OF _ save_step.Edit] r1)
  have r3: "save_reach False (timer_fires ?e)"
    by (rule save_reach.step [OF r2 save_step.TimerFires]) (simp add: save_defs Let_def initial_saver_def)
  have r4: "save_reach False demo_saved" unfolding demo_saved_def
    by (rule save_reach.step [OF r3 save_step.SaveReturns]) (simp_all add: save_defs Let_def initial_saver_def demo_world_def can_save_def)
  have d: "\<not> getIsDirty (fst demo_saved)" "scenes_due (snd demo_saved) = 1" "project_due (snd demo_saved) = 1"
      "\<not> overwritten (snd demo_saved)"
    by (simp_all add: demo_saved_def save_defs Let_def initial_saver_def demo_world_def can_save_def getIsDirty_def)
  have "save_reach False (fst demo_saved, snd demo_saved)" using r4 by simp
  from clean_means_stored [OF this d(1)] show ?thesis using d by simp
qed

text \<open>The events still to come when the user stops editing: a running save ends, the timeout fires and the
  save it starts ends.\<close>

definition settle :: "save_system \<Rightarrow> save_system" where
  "settle st =
     (let st1 = (if isSaving (fst st) then save_returns True st else st);
          st2 = (if armed (fst st1) then timer_fires st1 else st1)
      in if isSaving (fst st2) then save_returns True st2 else st2)"

text \<open>C17: A change is saved once the user pauses. Whatever the manager was doing, a change of the scenes noticed while saving
  is not paused and the project can be saved reaches the store after the running save, the timeout and the save it starts; the
  project is then clean, with no timeout left. So does a change of the project object (settings, current scene, thumbnail) when
  no save is running.\<close>
theorem change_is_saved:
  assumes "subscribed s" "\<not> isPaused s" "can_save v"
  shows "fst (stored (snd (settle (edit (s, v))))) = Suc (scenes_now v) \<and> \<not> getIsDirty (fst (settle (edit (s, v))))
    \<and> \<not> armed (fst (settle (edit (s, v))))
    \<and> (\<not> isSaving s \<longrightarrow> (\<forall>st' \<in> {edit_project (s, v), switch_scene (s, v)}.
      snd (stored (snd (settle st'))) = Suc (project_changes v) \<and> project_now (snd (settle st')) = Suc (project_changes v)
      \<and> \<not> getIsDirty (fst (settle st')) \<and> \<not> armed (fst (settle st'))))"
  using assms by (auto simp: settle_def save_defs getIsDirty_def can_save_def Let_def)

theorem change_is_saved_witness:
  "fst (stored (snd (settle (edit (start initial_saver, demo_world))))) = 1
    \<and> snd (stored (snd (settle (switch_scene (start initial_saver, demo_world))))) = 1"
proof -
  have "subscribed (start initial_saver)" "\<not> isPaused (start initial_saver)" "can_save demo_world" "\<not> isSaving (start initial_saver)"
    by (simp_all add: start_def initial_saver_def can_save_def demo_world_def)
  from change_is_saved [OF this(1-3)] this(4) show ?thesis
    by (simp add: demo_world_def)
qed

text \<open>C37: A change of the project object made while a save runs is lost: when the store has accepted the save, the object that
  was read before it is assigned again. Switching the scene or changing a setting during any running save that succeeds leaves,
  once the manager has settled, the old object in the editor and in the store, and the project is reported clean.\<close>
theorem change_during_save_lost:
  assumes "save_reach False (s, v)" "isSaving s" "subscribed s" "\<not> isPaused s" "can_save v"
    and "st' = edit_project (s, v) \<or> st' = switch_scene (s, v)"
  shows "project_now (snd st') = Suc (project_changes v) \<and> project_due (snd st') = Suc (project_changes v)
    \<and> project_now (snd (settle st')) = snd (in_flight v) \<and> snd (stored (snd (settle st'))) = snd (in_flight v)
    \<and> snd (in_flight v) < Suc (project_changes v) \<and> \<not> getIsDirty (fst (settle st'))"
proof -
  have "snd (in_flight v) \<le> project_changes v" using save_reach_inv [OF assms(1)] assms(2) by (simp add: save_inv_def)
  then show ?thesis using assms(2-6) by (auto simp: settle_def save_defs getIsDirty_def can_save_def Let_def)
qed

text \<open>C39: A save that fails is forgotten, since \<open>saveCurrentProject\<close> catches the error: unless another change came
  meanwhile, the project is reported clean with its changes not in the store, and no timeout is left. A timeout that fires
  while the project is loading or being migrated leaves the change waiting with no timeout; and a flush during a running save
  returns at once, with the latest change neither stored nor being saved.\<close>
theorem saves_can_be_forgotten:
  assumes "subscribed s" "\<not> isPaused s"
  shows "(\<not> isSaving s \<and> can_save v \<longrightarrow> (case save_returns False (timer_fires (edit (s, v))) of (s', v') \<Rightarrow>
      \<not> getIsDirty s' \<and> \<not> armed s' \<and> scenes_due v' = Suc (scenes_now v) \<and> stored v' = stored v))
    \<and> (\<not> isSaving s \<and> \<not> can_save v \<longrightarrow> (case timer_fires (edit (s, v)) of (s', v') \<Rightarrow>
      hasPendingSave s' \<and> \<not> armed s' \<and> \<not> isSaving s' \<and> scenes_due v' = Suc (scenes_now v) \<and> stored v' = stored v))
    \<and> (isSaving s \<longrightarrow> (case flush (edit (s, v)) of (s', v') \<Rightarrow>
      scenes_due v' = Suc (scenes_now v) \<and> in_flight v' = in_flight v \<and> stored v' = stored v \<and> isSaving s'))"
  using assms by (auto simp: save_defs getIsDirty_def can_save_def Let_def split: if_splits)

theorem saves_can_be_forgotten_witness:
  "(case save_returns False (timer_fires (edit (start initial_saver, demo_world))) of (s', v') \<Rightarrow>
     \<not> getIsDirty s' \<and> \<not> armed s' \<and> scenes_due v' = 1 \<and> stored v' = (0, 0))
   \<and> (case timer_fires (edit (start initial_saver, demo_world\<lparr>isMigrating := True\<rparr>)) of (s', v') \<Rightarrow> hasPendingSave s' \<and> \<not> armed s')
   \<and> (case flush (edit (timer_fires (edit (start initial_saver, demo_world)))) of (s', v') \<Rightarrow> scenes_due v' = 2 \<and> stored v' = (0, 0))"
proof -
  obtain s v where e: "timer_fires (edit (start initial_saver, demo_world)) = (s, v)" by (cases "timer_fires (edit (start initial_saver, demo_world))")
  then have f: "isSaving s" "subscribed s" "\<not> isPaused s" "scenes_now v = 1" "stored v = (0, 0)"
    by (auto simp: save_defs Let_def initial_saver_def demo_world_def can_save_def)
  have i: "subscribed (start initial_saver)" "\<not> isPaused (start initial_saver)" "\<not> isSaving (start initial_saver)"
      "can_save demo_world" "\<not> can_save (demo_world\<lparr>isMigrating := True\<rparr>)"
    by (simp_all add: start_def initial_saver_def can_save_def demo_world_def)
  show ?thesis
    using saves_can_be_forgotten [OF i(1,2), of demo_world] saves_can_be_forgotten [OF i(1,2), of "demo_world\<lparr>isMigrating := True\<rparr>"]
      saves_can_be_forgotten [OF f(2,3), of v] i(3-5) f e
    by (auto simp: demo_world_def split: prod.splits)
qed

theorem change_during_save_lost_witness:
  "\<exists>st. isSaving (fst st) \<and> project_now (snd (switch_scene st)) = 1 \<and> project_now (snd (settle (switch_scene st))) = 0
    \<and> snd (stored (snd (settle (switch_scene st)))) = 0 \<and> \<not> getIsDirty (fst (settle (switch_scene st)))"
proof -
  let ?e = "timer_fires (edit (start initial_saver, demo_world))"
  have r0: "save_reach False (initial_saver, demo_world)" by (rule save_reach.init) (simp_all add: demo_world_def)
  have r1: "save_reach False (start initial_saver, demo_world)" by (rule save_reach.step [OF r0 save_step.Start])
  have r2: "save_reach False (edit (start initial_saver, demo_world))" by (rule save_reach.step [OF r1 save_step.Edit])
  have r3: "save_reach False ?e"
    by (rule save_reach.step [OF r2 save_step.TimerFires]) (simp add: save_defs Let_def initial_saver_def)
  obtain s v where e: "?e = (s, v)" by (cases ?e)
  then have f: "isSaving s" "subscribed s" "\<not> isPaused s" "can_save v" "snd (in_flight v) = 0" "project_changes v = 0"
    by (auto simp: save_defs Let_def initial_saver_def demo_world_def can_save_def)
  have reach: "save_reach False (s, v)" using r3 e by simp
  show ?thesis using change_during_save_lost [OF reach f(1-4), of "switch_scene (s, v)"] f by (intro exI [of _ "(s, v)"]) simp
qed

end
