(* ===== verification/Stored_Record.thy ===== *)
theory Stored_Record
  imports Media_Time Js_Strings
begin

text \<open>
  Project records as the storage migrations see them (\<open>services/storage/migrations/transformers\<close>):
  values of unknown shape, read from the database. An object is the list of its own properties; an
  array or a date is an object too (\<open>isRecord\<close>), and spreading it keeps its indexed entries or
  nothing. Numbers are the finite ones. The order of properties is the order of insertion.
\<close>

section \<open>Values\<close>

datatype stored =
  SUndef
| SNull
| SBool bool
| SNum rat
| SStr string
| SDate string
| SArr "stored list"
| SObj "(string \<times> stored) list"

fun isRecord :: "stored \<Rightarrow> bool" where
  "isRecord (SDate _) = True"
| "isRecord (SArr _) = True"
| "isRecord (SObj _) = True"
| "isRecord _ = False"

text \<open>The properties that \<open>{ ...v }\<close> copies.\<close>

fun own_props :: "stored \<Rightarrow> (string \<times> stored) list" where
  "own_props (SObj kvs) = kvs"
| "own_props (SArr xs) = zip (map show_nat [0..<length xs]) xs"
| "own_props _ = []"

text \<open>\<open>v[k]\<close>, \<open>k in v\<close>, \<open>{ ...v, [k]: x }\<close>, and the rest of \<open>const { k, ...rest } = v\<close>.\<close>

definition getp :: "string \<Rightarrow> stored \<Rightarrow> stored" where
  "getp k v = (case map_of (own_props v) k of None \<Rightarrow> SUndef | Some x \<Rightarrow> x)"

definition hasp :: "string \<Rightarrow> stored \<Rightarrow> bool" where
  "hasp k v \<longleftrightarrow> map_of (own_props v) k \<noteq> None"

definition put :: "string \<Rightarrow> stored \<Rightarrow> stored \<Rightarrow> stored" where
  "put k x v = SObj (AList.update k x (own_props v))"

definition without :: "string \<Rightarrow> stored \<Rightarrow> stored" where
  "without k v = SObj (filter (\<lambda>(j, _). j \<noteq> k) (own_props v))"

fun is_num :: "stored \<Rightarrow> bool" where
  "is_num (SNum _) = True"
| "is_num _ = False"

fun is_str :: "stored \<Rightarrow> bool" where
  "is_str (SStr _) = True"
| "is_str _ = False"

fun is_bool :: "stored \<Rightarrow> bool" where
  "is_bool (SBool _) = True"
| "is_bool _ = False"

fun is_arr :: "stored \<Rightarrow> bool" where
  "is_arr (SArr _) = True"
| "is_arr _ = False"

fun items :: "stored \<Rightarrow> stored list" where
  "items (SArr xs) = xs"
| "items _ = []"

text \<open>\<open>typeof v === "number" ? v : d\<close> and the same for strings.\<close>

fun getNumberValue :: "stored \<Rightarrow> rat \<Rightarrow> rat" where
  "getNumberValue (SNum x) d = x"
| "getNumberValue _ d = d"

fun getStringValue :: "stored \<Rightarrow> string \<Rightarrow> string" where
  "getStringValue (SStr s) d = s"
| "getStringValue _ d = d"

fun truthy :: "stored \<Rightarrow> bool" where
  "truthy SUndef = False"
| "truthy SNull = False"
| "truthy (SBool b) = b"
| "truthy (SNum x) = (x \<noteq> 0)"
| "truthy (SStr s) = (s \<noteq> [])"
| "truthy _ = True"

section \<open>Projects (\<open>utils.ts\<close>, \<open>types.ts\<close>)\<close>

fun nonempty_string :: "stored \<Rightarrow> string option" where
  "nonempty_string (SStr s) = (if s = [] then None else Some s)"
| "nonempty_string _ = None"

definition getProjectId :: "stored \<Rightarrow> string option" where
  "getProjectId p =
     (case nonempty_string (getp ''id'' p) of
        Some i \<Rightarrow> Some i
      | None \<Rightarrow> if \<not> isRecord (getp ''metadata'' p) then None else nonempty_string (getp ''id'' (getp ''metadata'' p)))"

datatype migration_result = Skipped string | Migrated stored

text \<open>The traversal that the transformers repeat: when \<open>v\<close> has an array under \<open>k\<close>, map it.
  Where the sources keep \<open>v\<close> itself when no entry has changed, the value is the same.\<close>

definition map_items :: "string \<Rightarrow> (stored \<Rightarrow> stored) \<Rightarrow> stored \<Rightarrow> stored" where
  "map_items k f v = (if isRecord v \<and> is_arr (getp k v) then put k (SArr (map f (items (getp k v)))) v else v)"

definition map_elements :: "(stored \<Rightarrow> stored) \<Rightarrow> stored \<Rightarrow> stored" where
  "map_elements f = map_items ''scenes'' (map_items ''tracks'' (map_items ''elements'' f))"

text \<open>How a transformer begins: up to version 20 a record is refused when it has no id or a newer
  version; from 21 on its version has to be the one before.\<close>

definition skip_before :: "nat \<Rightarrow> stored \<Rightarrow> string option" where
  "skip_before n p =
     (if getProjectId p = None then Some ''no project id''
      else case getp ''version'' p of
             SNum v \<Rightarrow> if v \<ge> of_nat n then Some (''already v'' @ show_nat n) else None
           | _ \<Rightarrow> None)"

definition skip_exact :: "nat \<Rightarrow> stored \<Rightarrow> string option" where
  "skip_exact n p =
     (if getProjectId p = None then Some ''no project id''
      else case getp ''version'' p of
             SNum v \<Rightarrow>
               if v \<ge> of_nat n then Some (''already v'' @ show_nat n)
               else if v \<noteq> of_nat (n - 1) then Some (''not v'' @ show_nat (n - 1)) else None
           | _ \<Rightarrow> Some ''invalid version'')"

definition with_version :: "nat \<Rightarrow> stored \<Rightarrow> stored" where
  "with_version n p = put ''version'' (SNum (of_nat n)) p"

definition upgrade :: "string option \<Rightarrow> nat \<Rightarrow> (stored \<Rightarrow> stored) \<Rightarrow> stored \<Rightarrow> migration_result" where
  "upgrade skip n f p = (case skip of Some r \<Rightarrow> Skipped r | None \<Rightarrow> Migrated (with_version n (f p)))"

section \<open>Lemmas\<close>

lemma own_props_put [simp]: "own_props (put k x v) = AList.update k x (own_props v)"
  by (simp add: put_def)

lemma getp_put [simp]: "getp k (put j x v) = (if k = j then x else getp k v)"
  by (simp add: getp_def update_conv')

lemma getp_SObj [simp]: "getp k (SObj ((j, x) # kvs)) = (if k = j then x else getp k (SObj kvs))" "getp k (SObj []) = SUndef"
  by (simp_all add: getp_def)

lemma hasp_put [simp]: "hasp k (put j x v) \<longleftrightarrow> k = j \<or> hasp k v"
  by (simp add: hasp_def update_conv')

lemma isRecord_put [simp]: "isRecord (put k x v)"
  by (simp add: put_def)

lemma map_of_filter_ne: "map_of (filter (\<lambda>(j, _). j \<noteq> k) al) i = (if i = k then None else map_of al i)"
  by (induction al) auto

lemma getp_without [simp]: "getp k (without j v) = (if k = j then SUndef else getp k v)"
  by (simp add: getp_def without_def map_of_filter_ne)

lemma hasp_without [simp]: "hasp k (without j v) \<longleftrightarrow> k \<noteq> j \<and> hasp k v"
  by (simp add: hasp_def without_def map_of_filter_ne)

lemma isRecord_without [simp]: "isRecord (without k v)"
  by (simp add: without_def)

lemma getp_not_record: "\<not> isRecord v \<Longrightarrow> getp k v = SUndef"
  by (cases v) (simp_all add: getp_def)

lemma isRecord_getp: "getp k v \<noteq> SUndef \<Longrightarrow> isRecord v"
  using getp_not_record by blast

lemma isRecord_arr: "is_arr (getp k v) \<Longrightarrow> isRecord v"
  using isRecord_getp [of k v] by (cases "getp k v") simp_all

lemma is_arrE:
  assumes "is_arr v"
  obtains xs where "v = SArr xs"
  using assms by (cases v) auto

lemma getp_map_items: "getp j (map_items k f v) = (if j = k then case getp k v of SArr xs \<Rightarrow> SArr (map f xs) | x \<Rightarrow> x else getp j v)"
  using isRecord_arr [of k v] by (cases "getp k v") (auto simp: map_items_def)

lemma isRecord_map_items [simp]: "isRecord (map_items k f v) = isRecord v"
  by (simp add: map_items_def)

text \<open>What a step keeps of a project: every property outside a set of keys.\<close>

definition keeps_outside :: "string set \<Rightarrow> stored \<Rightarrow> stored \<Rightarrow> bool" where
  "keeps_outside ks p q \<longleftrightarrow> (\<forall>k. k \<notin> ks \<longrightarrow> getp k q = getp k p)"

lemma keeps_outside_refl [simp]: "keeps_outside ks p p"
  by (simp add: keeps_outside_def)

lemma keeps_outside_trans: "keeps_outside ks p q \<Longrightarrow> keeps_outside ks q r \<Longrightarrow> keeps_outside ks p r"
  by (simp add: keeps_outside_def)

lemma keeps_outside_mono: "keeps_outside ks p q \<Longrightarrow> ks \<subseteq> js \<Longrightarrow> keeps_outside js p q"
  by (auto simp: keeps_outside_def)

lemma keeps_outside_put: "k \<in> ks \<Longrightarrow> keeps_outside ks p q \<Longrightarrow> keeps_outside ks p (put k x q)"
  by (auto simp: keeps_outside_def)

lemma keeps_outside_map_items: "k \<in> ks \<Longrightarrow> keeps_outside ks p q \<Longrightarrow> keeps_outside ks p (map_items k f q)"
  by (auto simp: keeps_outside_def getp_map_items)

lemma keeps_outside_map_elements: "''scenes'' \<in> ks \<Longrightarrow> keeps_outside ks p q \<Longrightarrow> keeps_outside ks p (map_elements f q)"
  by (simp add: map_elements_def keeps_outside_map_items)

text \<open>The id survives when \<open>id\<close> is kept and the metadata stay a record with the same \<open>id\<close>.\<close>

lemma getProjectId_cong:
  assumes "getp ''id'' q = getp ''id'' p"
    and "isRecord (getp ''metadata'' p) \<Longrightarrow> isRecord (getp ''metadata'' q) \<and> getp ''id'' (getp ''metadata'' q) = getp ''id'' (getp ''metadata'' p)"
    and "\<not> isRecord (getp ''metadata'' p) \<Longrightarrow> getp ''id'' (getp ''metadata'' q) = SUndef"
  shows "getProjectId q = getProjectId p"
proof (cases "isRecord (getp ''metadata'' p)")
  case True
  note m = assms(2) [OF True]
  show ?thesis unfolding getProjectId_def assms(1) m [THEN conjunct2] using True m by simp
next
  case False
  then show ?thesis using assms(1,3) by (simp add: getProjectId_def split: option.split)
qed

lemma getProjectId_eq: "getp ''id'' q = getp ''id'' p \<Longrightarrow> getp ''metadata'' q = getp ''metadata'' p \<Longrightarrow> getProjectId q = getProjectId p"
  by (simp only: getProjectId_def)

text \<open>An array has no properties but its entries.\<close>

lemma getp_SArr:
  assumes "k \<noteq> []" "of_char (hd k) \<ge> (58 :: nat)"
  shows "getp k (SArr xs) = SUndef"
proof -
  have "k \<noteq> show_nat n" for n using assms show_nat_digits [of "hd (show_nat n)" n] by auto
  then have "k \<notin> fst ` set (zip (map show_nat [0..<length xs]) xs)" 
    using set_zip_leftD [of k _ "map show_nat [0..<length xs]" xs] by fastforce
  then show ?thesis by (simp add: getp_def map_of_eq_None_iff [THEN iffD2])
qed

end
