(* ===== verification/Migrations_Early.thy ===== *)
theory Migrations_Early
  imports Stored_Record
begin

text \<open>
  The transformers that bring a stored project from version 0 to version 10
  (\<open>services/storage/migrations/transformers/v0-to-v1.ts\<close> to \<open>v9-to-v10.ts\<close>), with the loading of
  the old timeline databases of \<open>v1-to-v2.ts\<close>.

  Parameters: the current time as an ISO string, the ids drawn by \<open>generateUUID\<close> (a supply \<open>gen\<close> and a
  counter), and the metadata of the media files. The databases of the old timelines are part of the state, because
  the second migration deletes them.
\<close>

section \<open>The environment of a migration\<close>

record legacy_env =
  now :: string
  media_metadata :: "string \<Rightarrow> string \<Rightarrow> stored option"

text \<open>The old timelines by the name of their database.\<close>

type_synonym timelines = "(string \<times> stored) list"

section \<open>Version 0 to 1\<close>

definition transformProjectV0ToV1 :: "string \<Rightarrow> uuid \<Rightarrow> stored \<Rightarrow> migration_result" where
  "transformProjectV0ToV1 t sid p =
     (if items (getp ''scenes'' p) \<noteq> [] then Skipped ''already has scenes''
      else
        let mainScene = SObj [(''id'', SStr sid), (''name'', SStr ''Main scene''), (''isMain'', SBool True),
              (''tracks'', SArr []), (''bookmarks'', SArr []), (''createdAt'', SStr t), (''updatedAt'', SStr t)];
            updated = put ''version'' (SNum 1) (put ''currentSceneId'' (SStr sid) (put ''scenes'' (SArr [mainScene]) p))
        in Migrated (if isRecord (getp ''metadata'' p)
             then put ''metadata'' (put ''updatedAt'' (SStr t) (getp ''metadata'' p)) updated
             else put ''updatedAt'' (SStr t) updated))"

section \<open>Version 1 to 2\<close>

record v1_context =
  legacyTracksBySceneId :: "(string \<times> stored list) list"
  mediaTypesById :: "(string \<times> stored) list"

definition num_field :: "string \<Rightarrow> stored \<Rightarrow> rat \<Rightarrow> string \<times> stored" where
  "num_field k v d = (k, SNum (getNumberValue (getp k v) d))"

definition str_field :: "string \<Rightarrow> stored \<Rightarrow> string \<Rightarrow> string \<times> stored" where
  "str_field k v d = (k, SStr (getStringValue (getp k v) d))"

text \<open>\<open>getStringValue(...) || d\<close>\<close>

definition choice_field :: "string \<Rightarrow> stored \<Rightarrow> string \<Rightarrow> string \<times> stored" where
  "choice_field k v d = (let s = getStringValue (getp k v) d in (k, SStr (if s = [] then d else s)))"

definition optional_string :: "stored \<Rightarrow> stored" where
  "optional_string v = (if is_str v then v else SUndef)"

fun normalizeDateString :: "string \<Rightarrow> stored \<Rightarrow> string" where
  "normalizeDateString t (SDate s) = s"
| "normalizeDateString t (SStr s) = s"
| "normalizeDateString t _ = t"

definition time_fields :: "stored \<Rightarrow> (string \<times> stored) list" where
  "time_fields v = [num_field ''duration'' v 0, num_field ''startTime'' v 0, num_field ''trimStart'' v 0, num_field ''trimEnd'' v 0]"

definition v2_transform :: "rat \<Rightarrow> rat \<Rightarrow> rat \<Rightarrow> stored" where
  "v2_transform x y r = SObj [(''scale'', SNum 1), (''position'', SObj [(''x'', SNum x), (''y'', SNum y)]), (''rotate'', SNum r)]"

definition v2_media_element :: "v1_context \<Rightarrow> stored \<Rightarrow> stored option" where
  "v2_media_element ctx e =
     (if \<not> isRecord e \<or> getp ''type'' e \<noteq> SStr ''media'' then None
      else case nonempty_string (getp ''mediaId'' e) of
             None \<Rightarrow> None
           | Some mid \<Rightarrow>
               Some (SObj (
                 if map_of (mediaTypesById ctx) mid = Some (SStr ''image'')
                 then [str_field ''id'' e [], str_field ''name'' e [], (''type'', SStr ''image''), (''mediaId'', SStr mid)]
                   @ time_fields e @ [(''hidden'', SBool False), (''transform'', v2_transform 0 0 0), (''opacity'', SNum 1)]
                 else [str_field ''id'' e [], str_field ''name'' e [], (''type'', SStr ''video''), (''mediaId'', SStr mid),
                   (''muted'', SBool (getp ''muted'' e = SBool True)), (''hidden'', SBool False),
                   (''transform'', v2_transform 0 0 0), (''opacity'', SNum 1)] @ time_fields e)))"

definition transformMediaTrack :: "v1_context \<Rightarrow> bool \<Rightarrow> stored \<Rightarrow> stored" where
  "transformMediaTrack ctx isMain tr =
     SObj [str_field ''id'' tr [], str_field ''name'' tr [], (''type'', SStr ''video''),
       (''elements'', SArr (List.map_filter (v2_media_element ctx) (items (getp ''elements'' tr)))),
       (''isMain'', SBool isMain), (''muted'', SBool False), (''hidden'', SBool False)]"

definition v2_text_element :: "stored \<Rightarrow> stored option" where
  "v2_text_element e =
     (if \<not> isRecord e \<or> getp ''type'' e \<noteq> SStr ''text'' then None
      else Some (SObj (
        [str_field ''id'' e [], str_field ''name'' e [], (''type'', SStr ''text''), str_field ''content'' e [],
         num_field ''fontSize'' e 16, str_field ''fontFamily'' e ''Arial'', str_field ''color'' e ''#000000'',
         (''background'', SObj [(''enabled'', SBool False),
            (''color'', SStr (getStringValue (getp ''backgroundColor'' e) ''transparent'')),
            (''cornerRadius'', SNum 0), (''paddingX'', SNum 8), (''paddingY'', SNum 4), (''offsetX'', SNum 0), (''offsetY'', SNum 0)]),
         choice_field ''textAlign'' e ''left'', choice_field ''fontWeight'' e ''normal'',
         choice_field ''fontStyle'' e ''normal'', choice_field ''textDecoration'' e ''none'', (''hidden'', SBool False),
         (''transform'', v2_transform (getNumberValue (getp ''x'' e) 0) (getNumberValue (getp ''y'' e) 0)
            (getNumberValue (getp ''rotation'' e) 0)),
         num_field ''opacity'' e 1] @ time_fields e)))"

definition transformTextTrack :: "stored \<Rightarrow> stored" where
  "transformTextTrack tr =
     SObj [str_field ''id'' tr [], str_field ''name'' tr [], (''type'', SStr ''text''),
       (''elements'', SArr (List.map_filter v2_text_element (items (getp ''elements'' tr)))), (''hidden'', SBool False)]"

definition v2_audio_element :: "stored \<Rightarrow> stored option" where
  "v2_audio_element e =
     (if \<not> isRecord e \<or> getp ''type'' e \<noteq> SStr ''audio'' then None
      else case nonempty_string (getp ''mediaId'' e) of
             None \<Rightarrow> None
           | Some mid \<Rightarrow>
               Some (SObj ([str_field ''id'' e [], str_field ''name'' e [], (''type'', SStr ''audio''),
                 (''sourceType'', SStr ''upload''), (''mediaId'', SStr mid), (''volume'', SNum 1)] @ time_fields e)))"

definition transformAudioTrack :: "stored \<Rightarrow> stored" where
  "transformAudioTrack tr =
     SObj [str_field ''id'' tr [], str_field ''name'' tr [], (''type'', SStr ''audio''),
       (''elements'', SArr (List.map_filter v2_audio_element (items (getp ''elements'' tr)))), (''muted'', SBool False)]"

text \<open>The flag is \<open>isFirstVideoTrackFound\<close>.\<close>

fun transformTracks :: "v1_context \<Rightarrow> bool \<Rightarrow> stored list \<Rightarrow> stored list" where
  "transformTracks ctx found [] = []"
| "transformTracks ctx found (tr # trs) =
     (if \<not> isRecord tr then transformTracks ctx found trs
      else if getp ''type'' tr = SStr ''media'' then transformMediaTrack ctx (\<not> found) tr # transformTracks ctx True trs
      else if getp ''type'' tr = SStr ''text'' then transformTextTrack tr # transformTracks ctx found trs
      else if getp ''type'' tr = SStr ''audio'' then transformAudioTrack tr # transformTracks ctx found trs
      else transformTracks ctx found trs)"

definition findMainSceneId :: "stored list \<Rightarrow> string option" where
  "findMainSceneId scenes =
     (case find (\<lambda>s. isRecord s \<and> getp ''isMain'' s = SBool True \<and> is_str (getp ''id'' s)) scenes of
        Some s \<Rightarrow> Some (getStringValue (getp ''id'' s) [])
      | None \<Rightarrow> map_option (\<lambda>s. getStringValue (getp ''id'' s) []) (find (\<lambda>s. isRecord s \<and> is_str (getp ''id'' s)) scenes))"

definition getCurrentSceneId :: "stored \<Rightarrow> stored list \<Rightarrow> string" where
  "getCurrentSceneId v scenes =
     (case nonempty_string v of Some i \<Rightarrow> i | None \<Rightarrow> (case findMainSceneId scenes of Some i \<Rightarrow> i | None \<Rightarrow> []))"

definition add_legacy_bookmarks :: "string option \<Rightarrow> stored list \<Rightarrow> stored \<Rightarrow> stored" where
  "add_legacy_bookmarks mainSceneId legacy s =
     (if \<not> isRecord s then s
      else if (case mainSceneId of None \<Rightarrow> False | Some i \<Rightarrow> i \<noteq> [] \<and> getp ''id'' s \<noteq> SStr i) then s
      else if items (getp ''bookmarks'' s) \<noteq> [] then s
      else put ''bookmarks'' (SArr legacy) s)"

definition applyLegacyBookmarks :: "stored list \<Rightarrow> stored list \<Rightarrow> stored list" where
  "applyLegacyBookmarks legacy scenes =
     (if legacy = [] then scenes else map (add_legacy_bookmarks (findMainSceneId scenes) legacy) scenes)"

definition getBackgroundValue :: "stored \<Rightarrow> stored \<Rightarrow> stored \<Rightarrow> stored \<Rightarrow> stored" where
  "getBackgroundValue v bgType bgColor blur =
     (if isRecord v
      then (if getp ''type'' v = SStr ''blur''
            then SObj [(''type'', SStr ''blur''), (''blurIntensity'', SNum (getNumberValue (getp ''blurIntensity'' v) 10))]
            else SObj [(''type'', SStr ''color''), (''color'', SStr (getStringValue (getp ''color'' v) ''#000000''))])
      else if bgType = SStr ''blur''
      then SObj [(''type'', SStr ''blur''), (''blurIntensity'', SNum (getNumberValue blur 10))]
      else SObj [(''type'', SStr ''color''), (''color'', SStr (getStringValue bgColor ''#000000''))])"

definition getCanvasSizeValue :: "stored \<Rightarrow> stored" where
  "getCanvasSizeValue v =
     (if isRecord v then SObj [num_field ''width'' v 1920, num_field ''height'' v 1080]
      else SObj [(''width'', SNum 1920), (''height'', SNum 1080)])"

definition v2_metadata :: "string \<Rightarrow> string \<Rightarrow> stored \<Rightarrow> stored" where
  "v2_metadata t pid p =
     (let m = getp ''metadata'' p
      in if isRecord m
         then SObj [str_field ''id'' m pid, str_field ''name'' m [], (''thumbnail'', optional_string (getp ''thumbnail'' m)),
                (''createdAt'', SStr (normalizeDateString t (getp ''createdAt'' m))),
                (''updatedAt'', SStr (normalizeDateString t (getp ''updatedAt'' m)))]
         else SObj [(''id'', SStr pid), str_field ''name'' p [], (''thumbnail'', optional_string (getp ''thumbnail'' p)),
                (''createdAt'', SStr (normalizeDateString t (getp ''createdAt'' p))),
                (''updatedAt'', SStr (normalizeDateString t (getp ''updatedAt'' p)))])"

definition v2_scene :: "v1_context \<Rightarrow> stored \<Rightarrow> stored" where
  "v2_scene ctx s =
     (if \<not> isRecord s then s
      else case nonempty_string (getp ''id'' s) of
             None \<Rightarrow> s
           | Some sid \<Rightarrow>
               if items (getp ''tracks'' s) \<noteq> [] then s
               else put ''tracks'' (SArr (transformTracks ctx False
                 (case map_of (legacyTracksBySceneId ctx) sid of None \<Rightarrow> [] | Some trs \<Rightarrow> trs))) s)"

definition v2_settings :: "stored \<Rightarrow> stored" where
  "v2_settings p =
     (let s = getp ''settings'' p
      in if isRecord s
         then SObj [num_field ''fps'' s 30, (''canvasSize'', getCanvasSizeValue (getp ''canvasSize'' s)),
                (''background'', getBackgroundValue (getp ''background'' s) SUndef SUndef SUndef), (''originalCanvasSize'', SNull)]
         else SObj [num_field ''fps'' p 30, (''canvasSize'', getCanvasSizeValue (getp ''canvasSize'' p)),
                (''background'', getBackgroundValue (getp ''background'' p) (getp ''backgroundType'' p)
                   (getp ''backgroundColor'' p) (getp ''blurIntensity'' p)), (''originalCanvasSize'', SNull)])"

definition migrateProject_v2 :: "string \<Rightarrow> v1_context \<Rightarrow> string \<Rightarrow> stored \<Rightarrow> stored" where
  "migrateProject_v2 t ctx pid p =
     (let scenes = applyLegacyBookmarks (items (getp ''bookmarks'' p)) (map (v2_scene ctx) (items (getp ''scenes'' p)))
      in put ''version'' (SNum 2) (put ''settings'' (v2_settings p)
           (put ''currentSceneId'' (SStr (getCurrentSceneId (getp ''currentSceneId'' p) scenes))
             (put ''scenes'' (SArr scenes) (put ''metadata'' (v2_metadata t pid p) p)))))"

definition isV2Project :: "stored \<Rightarrow> bool" where
  "isV2Project p \<longleftrightarrow> (case getp ''version'' p of SNum v \<Rightarrow> v \<ge> 2 | _ \<Rightarrow> False)
     \<or> isRecord (getp ''metadata'' p) \<and> isRecord (getp ''settings'' p)"

definition transformProjectV1ToV2 :: "string \<Rightarrow> v1_context \<Rightarrow> stored \<Rightarrow> migration_result" where
  "transformProjectV1ToV2 t ctx p =
     (case getProjectId p of
        None \<Rightarrow> Skipped ''no project id''
      | Some pid \<Rightarrow> if isV2Project p then Skipped ''already v2'' else Migrated (migrateProject_v2 t ctx pid p))"

subsection \<open>The databases of the old timelines (\<open>v1-to-v2.ts\<close>)\<close>

definition project_db :: "string \<Rightarrow> string" where
  "project_db pid = ''video-editor-timelines-'' @ pid"

definition scene_db :: "string \<Rightarrow> string \<Rightarrow> string" where
  "scene_db pid sid = project_db pid @ ''-'' @ sid"

definition loadLegacyTracksForScene :: "timelines \<Rightarrow> string \<Rightarrow> string \<Rightarrow> bool \<Rightarrow> stored list" where
  "loadLegacyTracksForScene dbs pid sid isMain =
     (let data = (case map_of dbs (scene_db pid sid) of
                    Some d \<Rightarrow> Some d | None \<Rightarrow> if isMain then map_of dbs (project_db pid) else None)
      in case data of None \<Rightarrow> [] | Some d \<Rightarrow> items (getp ''tracks'' d))"

definition loadLegacyTracksBySceneId :: "timelines \<Rightarrow> string \<Rightarrow> stored \<Rightarrow> (string \<times> stored list) list" where
  "loadLegacyTracksBySceneId dbs pid p =
     js_map (List.map_filter (\<lambda>s.
       if isRecord s \<and> is_str (getp ''id'' s)
       then let sid = getStringValue (getp ''id'' s) []
            in Some (sid, loadLegacyTracksForScene dbs pid sid (getp ''isMain'' s = SBool True))
       else None) (items (getp ''scenes'' p)))"

definition collectLegacyMediaIds :: "(string \<times> stored list) list \<Rightarrow> string list" where
  "collectLegacyMediaIds tracksById =
     dedupe (concat (map (\<lambda>(_, trs).
       concat (map (\<lambda>tr.
         if isRecord tr \<and> getp ''type'' tr = SStr ''media''
         then concat (map (\<lambda>e. if isRecord e \<and> getp ''type'' e = SStr ''media'' \<and> is_str (getp ''mediaId'' e)
                then [getStringValue (getp ''mediaId'' e) []] else []) (items (getp ''elements'' tr)))
         else []) trs)) tracksById))"

definition loadMediaTypesById :: "legacy_env \<Rightarrow> string \<Rightarrow> (string \<times> stored list) list \<Rightarrow> (string \<times> stored) list" where
  "loadMediaTypesById env pid tracksById =
     List.map_filter (\<lambda>mid. map_option (\<lambda>d. (mid, getp ''type'' d)) (media_metadata env (''video-editor-media-'' @ pid) mid))
       (collectLegacyMediaIds tracksById)"

definition loadV1ToV2Context :: "legacy_env \<Rightarrow> timelines \<Rightarrow> string \<Rightarrow> stored \<Rightarrow> v1_context" where
  "loadV1ToV2Context env dbs pid p =
     (let trs = loadLegacyTracksBySceneId dbs pid p
      in \<lparr>legacyTracksBySceneId = trs, mediaTypesById = loadMediaTypesById env pid trs\<rparr>)"

definition getLegacyTimelineDbNames :: "string \<Rightarrow> stored \<Rightarrow> string list" where
  "getLegacyTimelineDbNames pid p =
     (if is_arr (getp ''scenes'' p)
      then concat (map (\<lambda>s. if isRecord s \<and> is_str (getp ''id'' s) then [scene_db pid (getStringValue (getp ''id'' s) [])] else [])
             (items (getp ''scenes'' p))) @ [project_db pid]
      else [project_db pid])"

definition run_v1_to_v2 :: "legacy_env \<Rightarrow> string \<Rightarrow> stored \<Rightarrow> timelines \<Rightarrow> migration_result \<times> timelines" where
  "run_v1_to_v2 env pid p dbs =
     (case transformProjectV1ToV2 (now env) (loadV1ToV2Context env dbs pid p) p of
        Skipped r \<Rightarrow> (Skipped r, dbs)
      | Migrated q \<Rightarrow> (Migrated q, filter (\<lambda>(name, _). name \<notin> set (getLegacyTimelineDbNames pid q)) dbs))"

section \<open>Version 2 to 3: the duration\<close>

definition element_end :: "stored \<Rightarrow> rat" where
  "element_end e = getNumberValue (getp ''startTime'' e) 0 + getNumberValue (getp ''duration'' e) 0"

definition getDurationFromScenes :: "stored list \<Rightarrow> rat" where
  "getDurationFromScenes scenes =
     (case (case find (\<lambda>s. isRecord s \<and> getp ''isMain'' s = SBool True) scenes of Some s \<Rightarrow> Some s | None \<Rightarrow> find isRecord scenes) of
        None \<Rightarrow> 0
      | Some s \<Rightarrow>
          fold (\<lambda>tr acc. if isRecord tr
             then fold (\<lambda>e acc. if isRecord e then max acc (element_end e) else acc) (items (getp ''elements'' tr)) acc
             else acc) (items (getp ''tracks'' s)) 0)"

definition add_duration :: "stored \<Rightarrow> stored" where
  "add_duration p =
     (let dur = SNum (getDurationFromScenes (filter isRecord (items (getp ''scenes'' p))));
          m = getp ''metadata'' p
      in put ''metadata'' (if isRecord m then put ''duration'' dur m else SObj [(''duration'', dur)]) p)"

definition isV3Project :: "stored \<Rightarrow> bool" where
  "isV3Project p \<longleftrightarrow> (case getp ''version'' p of SNum v \<Rightarrow> v \<ge> 3 | _ \<Rightarrow> False)
     \<or> isRecord (getp ''metadata'' p) \<and> is_num (getp ''duration'' (getp ''metadata'' p))"

definition transformProjectV2ToV3 :: "stored \<Rightarrow> migration_result" where
  "transformProjectV2ToV3 p =
     upgrade (if getProjectId p = None then Some ''no project id'' else if isV3Project p then Some ''already v3'' else None)
       3 add_duration p"

section \<open>Version 3 to 4: font weights\<close>

definition numeric_font_weights :: "(rat \<times> string) list" where
  "numeric_font_weights = [(100, ''100''), (200, ''200''), (300, ''300''), (400, ''400''), (500, ''500''), (600, ''600''),
     (700, ''700''), (800, ''800''), (900, ''900'')]"

definition LEGACY_FONT_WEIGHT_MAP :: "(string \<times> string) list" where
  "LEGACY_FONT_WEIGHT_MAP = [(''normal'', ''400''), (''bold'', ''700'')]"

fun normalizeFontWeight :: "stored \<Rightarrow> stored" where
  "normalizeFontWeight (SNum x) = (case map_of numeric_font_weights x of Some s \<Rightarrow> SStr s | None \<Rightarrow> SNum x)"
| "normalizeFontWeight (SStr s) =
     (let n = js_lower (js_trim s)
      in case map_of LEGACY_FONT_WEIGHT_MAP n of
           Some w \<Rightarrow> SStr w
         | None \<Rightarrow> if n \<in> snd ` set numeric_font_weights then SStr n else SStr s)"
| "normalizeFontWeight v = v"

definition normalizeTextElementFontWeight :: "stored \<Rightarrow> stored" where
  "normalizeTextElementFontWeight e =
     (if \<not> isRecord e \<or> getp ''type'' e \<noteq> SStr ''text'' then e
      else let w = normalizeFontWeight (getp ''fontWeight'' e)
           in if w = getp ''fontWeight'' e then e else put ''fontWeight'' w e)"

definition normalizeTrackTextFontWeights :: "stored \<Rightarrow> stored" where
  "normalizeTrackTextFontWeights tr =
     (if \<not> isRecord tr \<or> getp ''type'' tr \<noteq> SStr ''text'' then tr
      else map_items ''elements'' normalizeTextElementFontWeight tr)"

definition normalizeProjectTextFontWeights :: "stored \<Rightarrow> stored" where
  "normalizeProjectTextFontWeights = map_items ''scenes'' (map_items ''tracks'' normalizeTrackTextFontWeights)"

definition transformProjectV3ToV4 :: "stored \<Rightarrow> migration_result" where
  "transformProjectV3ToV4 p = upgrade (skip_before 4 p) 4 normalizeProjectTextFontWeights p"

section \<open>Version 4 to 5: sticker ids\<close>

definition KNOWN_STICKER_PROVIDER_IDS :: "string list" where
  "KNOWN_STICKER_PROVIDER_IDS = [''icons'', ''emoji'', ''flags'', ''shapes'']"

definition normalizeStickerId :: "string option \<Rightarrow> string option" where
  "normalizeStickerId v =
     (case v of
        None \<Rightarrow> None
      | Some s \<Rightarrow>
          if s = [] then None
          else if CHR '':'' \<notin> set s then Some (''icons:'' @ s)
          else if takeWhile (\<lambda>c. c \<noteq> CHR '':'') s \<in> set KNOWN_STICKER_PROVIDER_IDS then Some s
          else Some (''icons:'' @ s))"

definition migrateStickerElement :: "stored \<Rightarrow> stored" where
  "migrateStickerElement e =
     (if \<not> isRecord e \<or> getp ''type'' e \<noteq> SStr ''sticker'' then e
      else
        let str = (\<lambda>v. case v of SStr s \<Rightarrow> Some s | _ \<Rightarrow> None);
            existing = str (getp ''stickerId'' e);
            legacy = str (getp ''iconName'' e);
            normalized = normalizeStickerId (case existing of Some s \<Rightarrow> Some s | None \<Rightarrow> legacy)
        in if \<not> hasp ''iconName'' e \<and> \<not> hasp ''color'' e \<and> normalized = existing then e
           else let remaining = without ''color'' (without ''iconName'' e)
                in case normalized of Some s \<Rightarrow> put ''stickerId'' (SStr s) remaining | None \<Rightarrow> remaining)"

definition transformProjectV4ToV5 :: "stored \<Rightarrow> migration_result" where
  "transformProjectV4ToV5 p = upgrade (skip_before 5 p) 5 (map_elements migrateStickerElement) p"

section \<open>Version 5 to 6: bookmarks\<close>

definition migrateBookmark_v6 :: "stored \<Rightarrow> stored" where
  "migrateBookmark_v6 b = (if is_num b then SObj [(''time'', b)] else b)"

definition migrateProjectBookmarks :: "stored \<Rightarrow> stored" where
  "migrateProjectBookmarks = map_items ''scenes'' (map_items ''bookmarks'' migrateBookmark_v6)"

definition transformProjectV5ToV6 :: "stored \<Rightarrow> migration_result" where
  "transformProjectV5ToV6 p = upgrade (skip_before 6 p) 6 migrateProjectBookmarks p"

section \<open>Version 6 to 7: text backgrounds\<close>

definition migrateTextElement_v7 :: "stored \<Rightarrow> stored" where
  "migrateTextElement_v7 e =
     (if \<not> isRecord e \<or> getp ''type'' e \<noteq> SStr ''text'' \<or> isRecord (getp ''background'' e) then e
      else put ''background''
             (SObj [(''color'', SStr (getStringValue (getp ''backgroundColor'' e) ''transparent'')),
                (''cornerRadius'', SNum 0), (''paddingX'', SNum 8), (''paddingY'', SNum 4), (''offsetX'', SNum 0), (''offsetY'', SNum 0)])
             (without ''backgroundColor'' e))"

definition transformProjectV6ToV7 :: "stored \<Rightarrow> migration_result" where
  "transformProjectV6ToV7 p = upgrade (skip_before 7 p) 7 (map_elements migrateTextElement_v7) p"

section \<open>Version 7 to 8: source durations\<close>

definition migrateElement_v8 :: "stored \<Rightarrow> stored" where
  "migrateElement_v8 e =
     (if \<not> isRecord e \<or> getp ''type'' e \<notin> {SStr ''video'', SStr ''audio''} \<or> is_num (getp ''sourceDuration'' e) then e
      else put ''sourceDuration'' (SNum (getNumberValue (getp ''trimStart'' e) 0 + getNumberValue (getp ''duration'' e) 0
             + getNumberValue (getp ''trimEnd'' e) 0)) e)"

definition transformProjectV7ToV8 :: "stored \<Rightarrow> migration_result" where
  "transformProjectV7ToV8 p = upgrade (skip_before 8 p) 8 (map_elements migrateElement_v8) p"

section \<open>Version 8 to 9: visible backgrounds; version 9 to 10\<close>

definition migrateTextElement_v9 :: "stored \<Rightarrow> stored" where
  "migrateTextElement_v9 e =
     (let bg = getp ''background'' e
      in if \<not> isRecord e \<or> getp ''type'' e \<noteq> SStr ''text'' \<or> \<not> isRecord bg \<or> is_bool (getp ''enabled'' bg) then e
         else put ''background'' (put ''enabled'' (SBool (getStringValue (getp ''color'' bg) ''transparent'' \<noteq> ''transparent'')) bg) e)"

definition migrateTrackTextElements_v9 :: "stored \<Rightarrow> stored" where
  "migrateTrackTextElements_v9 tr =
     (if \<not> isRecord tr \<or> getp ''type'' tr \<noteq> SStr ''text'' then tr else map_items ''elements'' migrateTextElement_v9 tr)"

definition transformProjectV8ToV9 :: "stored \<Rightarrow> migration_result" where
  "transformProjectV8ToV9 p = upgrade (skip_before 9 p) 9 (map_items ''scenes'' (map_items ''tracks'' migrateTrackTextElements_v9)) p"

definition transformProjectV9ToV10 :: "stored \<Rightarrow> migration_result" where
  "transformProjectV9ToV10 p = upgrade (skip_before 10 p) 10 (\<lambda>p. p) p"

end
