(* ===== verification/Migrations_Middle.thy ===== *)
theory Migrations_Middle
  imports Stored_Record
begin

text \<open>
  The transformers that bring a stored project from version 10 to version 22
  (\<open>services/storage/migrations/transformers/v10-to-v11.ts\<close> to \<open>v21-to-v22.ts\<close>). The functions of
  \<open>Math\<close> without an exact rational value and the colour parser of the package \<open>culori\<close> are parameters.
\<close>

record math_fns =
  math_pi :: rat
  math_cos :: "rat \<Rightarrow> rat"
  math_sin :: "rat \<Rightarrow> rat"
  math_log10 :: "rat \<Rightarrow> rat"
  math_pow :: "rat \<Rightarrow> rat \<Rightarrow> rat"

text \<open>\<open>{ ...v }\<close>\<close>

definition copy :: "stored \<Rightarrow> stored" where
  "copy v = SObj (own_props v)"

section \<open>Version 10 to 11: separate scales\<close>

definition migrate_scale_channels :: "stored \<Rightarrow> stored \<Rightarrow> stored" where
  "migrate_scale_channels animations migrated =
     (let channels = getp ''channels'' animations; scaleChannel = getp ''transform.scale'' channels
      in if isRecord animations \<and> isRecord channels \<and> isRecord scaleChannel \<and> is_arr (getp ''keyframes'' scaleChannel)
         then let keyframes = items (getp ''keyframes'' scaleChannel);
                  newChannels = put ''transform.scaleY'' (put ''keyframes'' (SArr (map (\<lambda>kf. if isRecord kf then copy kf else kf) keyframes)) scaleChannel)
                    (put ''transform.scaleX'' (put ''keyframes'' (SArr keyframes) scaleChannel)
                      (put ''transform.scale'' SUndef channels))
              in put ''animations'' (put ''channels'' newChannels animations) migrated
         else migrated)"

definition migrateElementScale :: "stored \<Rightarrow> stored" where
  "migrateElementScale e =
     (let transform = getp ''transform'' e; scale = getp ''scale'' transform
      in if \<not> isRecord e \<or> \<not> isRecord transform \<or> \<not> is_num scale then e
         else migrate_scale_channels (getp ''animations'' e)
                (put ''transform'' (put ''scale'' SUndef (put ''scaleY'' scale (put ''scaleX'' scale transform))) e))"

definition transformProjectV10ToV11 :: "stored \<Rightarrow> migration_result" where
  "transformProjectV10ToV11 p = upgrade (skip_before 11 p) 11 (map_elements migrateElementScale) p"

section \<open>Version 11 to 12: position as a vector\<close>

record scalar_keyframe =
  sk_id :: string
  sk_time :: rat
  sk_value :: rat
  sk_interpolation :: string

definition keyframe_of :: "stored \<Rightarrow> scalar_keyframe option" where
  "keyframe_of kf =
     (case (getp ''id'' kf, getp ''time'' kf, getp ''value'' kf) of
        (SStr i, SNum t, SNum v) \<Rightarrow>
          Some \<lparr>sk_id = i, sk_time = t, sk_value = v, sk_interpolation = getStringValue (getp ''interpolation'' kf) ''linear''\<rparr>
      | _ \<Rightarrow> None)"

definition getKeyframes :: "stored \<Rightarrow> scalar_keyframe list" where
  "getKeyframes channel = List.map_filter keyframe_of (items (getp ''keyframes'' channel))"

fun interpolate_pairs :: "rat \<Rightarrow> scalar_keyframe list \<Rightarrow> rat option" where
  "interpolate_pairs t (l # r # ks) =
     (if t < sk_time l \<or> t > sk_time r then interpolate_pairs t (r # ks)
      else if sk_interpolation l = ''hold'' then Some (sk_value l)
      else Some (sk_value l + (sk_value r - sk_value l) * ((t - sk_time l) / (sk_time r - sk_time l))))"
| "interpolate_pairs t _ = None"

definition interpolateScalarAtTime :: "scalar_keyframe list \<Rightarrow> rat \<Rightarrow> rat \<Rightarrow> rat" where
  "interpolateScalarAtTime keyframes t fallback =
     (case sort_key sk_time keyframes of
        [] \<Rightarrow> fallback
      | k # ks \<Rightarrow>
          if t \<le> sk_time k then sk_value k
          else if t \<ge> sk_time (last (k # ks)) then sk_value (last (k # ks))
          else (case interpolate_pairs t (k # ks) of Some v \<Rightarrow> v | None \<Rightarrow> sk_value (last (k # ks))))"

text \<open>One keyframe of the vector channel. A time always comes from one of the two channels, so
  \<open>crypto.randomUUID\<close>, here \<open>fresh\<close>, is never reached.\<close>

definition vector_keyframe :: "string \<Rightarrow> rat \<Rightarrow> rat \<Rightarrow> scalar_keyframe list \<Rightarrow> scalar_keyframe list \<Rightarrow> rat \<Rightarrow> stored" where
  "vector_keyframe fresh baseX baseY xs ys t =
     (let near = (\<lambda>kf. \<bar>sk_time kf - t\<bar> < 1 / 1000); xKf = find near xs; yKf = find near ys;
          x = (case xKf of Some kf \<Rightarrow> sk_value kf | None \<Rightarrow> interpolateScalarAtTime xs t baseX);
          y = (case yKf of Some kf \<Rightarrow> sk_value kf | None \<Rightarrow> interpolateScalarAtTime ys t baseY);
          pick = (\<lambda>f d. case xKf of Some kf \<Rightarrow> f kf | None \<Rightarrow> (case yKf of Some kf \<Rightarrow> f kf | None \<Rightarrow> d))
      in SObj [(''id'', SStr (pick sk_id fresh)), (''time'', SNum t), (''value'', SObj [(''x'', SNum x), (''y'', SNum y)]),
           (''interpolation'', SStr (pick sk_interpolation ''linear''))])"

definition migrateElementPosition :: "string \<Rightarrow> stored \<Rightarrow> stored" where
  "migrateElementPosition fresh e =
     (let animations = getp ''animations'' e; channels = getp ''channels'' animations;
          xChannel = getp ''transform.position.x'' channels; yChannel = getp ''transform.position.y'' channels
      in if \<not> isRecord e \<or> \<not> isRecord animations \<or> \<not> isRecord channels \<or> \<not> truthy xChannel \<and> \<not> truthy yChannel then e
         else
           let position = getp ''position'' (getp ''transform'' e);
               xs = getKeyframes xChannel; ys = getKeyframes yChannel;
               allTimes = sort (dedupe (map sk_time xs @ map sk_time ys));
               vectorKeyframes = map (vector_keyframe fresh (getNumberValue (getp ''x'' position) 0)
                 (getNumberValue (getp ''y'' position) 0) xs ys) allTimes;
               newChannels = put ''transform.position'' (SObj [(''valueKind'', SStr ''vector''), (''keyframes'', SArr vectorKeyframes)])
                 (put ''transform.position.y'' SUndef (put ''transform.position.x'' SUndef channels))
           in put ''animations'' (put ''channels'' newChannels animations) e)"

definition transformProjectV11ToV12 :: "string \<Rightarrow> stored \<Rightarrow> migration_result" where
  "transformProjectV11ToV12 fresh p = upgrade (skip_before 12 p) 12 (map_elements (migrateElementPosition fresh)) p"

section \<open>Versions 12 to 14: masks\<close>

definition bool_or :: "stored \<Rightarrow> bool \<Rightarrow> stored" where
  "bool_or v d = (if is_bool v then v else SBool d)"

definition migrateMask_v13 :: "stored \<Rightarrow> stored" where
  "migrateMask_v13 msk =
     (if \<not> isRecord msk then msk
      else
        let stroke = getp ''stroke'' msk;
            params = put ''strokeWidth'' (SNum (getNumberValue (getp ''width'' stroke) 0))
              (put ''strokeColor'' (SStr (getStringValue (getp ''color'' stroke) ''#ffffff''))
                (put ''inverted'' (bool_or (getp ''inverted'' msk) False)
                  (put ''feather'' (SNum (getNumberValue (getp ''feather'' msk) 0)) (copy (getp ''params'' msk)))))
        in put ''stroke'' SUndef (put ''inverted'' SUndef (put ''feather'' SUndef (put ''params'' params msk))))"

definition transformProjectV12ToV13 :: "stored \<Rightarrow> migration_result" where
  "transformProjectV12ToV13 p = upgrade (skip_before 13 p) 13 (map_elements (map_items ''masks'' migrateMask_v13)) p"

definition migrateSplitMask :: "math_fns \<Rightarrow> stored \<Rightarrow> stored" where
  "migrateSplitMask mf msk =
     (if \<not> isRecord msk \<or> getp ''type'' msk \<noteq> SStr ''split'' then msk
      else
        let params = getp ''params'' msk;
            position = getNumberValue (getp ''position'' params) (1 / 2);
            angleRad = getNumberValue (getp ''rotation'' params) 0 * math_pi mf / 180
        in put ''params'' (put ''y'' (SNum ((position - 1 / 2) * math_sin mf angleRad))
             (put ''x'' (SNum ((position - 1 / 2) * math_cos mf angleRad)) (without ''position'' params))) msk)"

definition transformProjectV13ToV14 :: "math_fns \<Rightarrow> stored \<Rightarrow> migration_result" where
  "transformProjectV13ToV14 mf p = upgrade (skip_before 14 p) 14 (map_elements (map_items ''masks'' (migrateSplitMask mf))) p"

section \<open>Versions 14 to 17: stickers and strokes\<close>

definition backfillStickerIntrinsicDimensions :: "stored \<Rightarrow> stored" where
  "backfillStickerIntrinsicDimensions e =
     (if \<not> isRecord e \<or> getp ''type'' e \<noteq> SStr ''sticker''
        \<or> is_num (getp ''intrinsicWidth'' e) \<and> is_num (getp ''intrinsicHeight'' e) then e
      else put ''intrinsicHeight'' (SNum 200) (put ''intrinsicWidth'' (SNum 200) e))"

definition transformProjectV14ToV15 :: "stored \<Rightarrow> migration_result" where
  "transformProjectV14ToV15 p = upgrade (skip_before 15 p) 15 (map_elements backfillStickerIntrinsicDimensions) p"

definition renameStickerTracksToGraphic :: "stored \<Rightarrow> stored" where
  "renameStickerTracksToGraphic tr =
     (if \<not> isRecord tr \<or> getp ''type'' tr \<noteq> SStr ''sticker'' then tr else put ''type'' (SStr ''graphic'') tr)"

definition transformProjectV15ToV16 :: "stored \<Rightarrow> migration_result" where
  "transformProjectV15ToV16 p = upgrade (skip_before 16 p) 16 (map_items ''scenes'' (map_items ''tracks'' renameStickerTracksToGraphic)) p"

definition backfillMaskStrokeAlign :: "stored \<Rightarrow> stored" where
  "backfillMaskStrokeAlign msk =
     (let params = getp ''params'' msk
      in if \<not> isRecord msk \<or> \<not> isRecord params \<or> is_str (getp ''strokeAlign'' params) then msk
         else put ''params'' (put ''strokeAlign'' (SStr ''center'') params) msk)"

definition transformProjectV16ToV17 :: "stored \<Rightarrow> migration_result" where
  "transformProjectV16ToV17 p = upgrade (skip_before 17 p) 17 (map_elements (map_items ''masks'' backfillMaskStrokeAlign)) p"

section \<open>Version 17 to 18: volumes in decibels\<close>

definition clampDb :: "rat \<Rightarrow> rat" where
  "clampDb v = min 20 (max (- 60) v)"

definition linearGainToDb :: "math_fns \<Rightarrow> rat \<Rightarrow> rat" where
  "linearGainToDb mf gain = (if gain \<le> 0 then - 60 else clampDb (20 * math_log10 mf gain))"

definition migrateElementVolumes :: "math_fns \<Rightarrow> stored \<Rightarrow> stored" where
  "migrateElementVolumes mf e =
     (if \<not> isRecord e \<or> getp ''type'' e \<notin> {SStr ''audio'', SStr ''video''} then e
      else put ''volume'' (SNum (case getp ''volume'' e of SNum g \<Rightarrow> linearGainToDb mf g | _ \<Rightarrow> 0)) e)"

definition transformProjectV17ToV18 :: "math_fns \<Rightarrow> stored \<Rightarrow> migration_result" where
  "transformProjectV17ToV18 mf p = upgrade (skip_before 18 p) 18 (map_elements (migrateElementVolumes mf)) p"

section \<open>Versions 18 to 21: settings and source audio\<close>

definition migrateCanvasSizeSettings :: "stored \<Rightarrow> stored" where
  "migrateCanvasSizeSettings p =
     (let settings = getp ''settings'' p
      in if \<not> isRecord settings then p
         else put ''settings'' (put ''lastCustomCanvasSize'' SNull (put ''canvasSizeMode'' (SStr ''preset'') settings)) p)"

definition transformProjectV18ToV19 :: "stored \<Rightarrow> migration_result" where
  "transformProjectV18ToV19 p = upgrade (skip_before 19 p) 19 migrateCanvasSizeSettings p"

definition migrateElement_v20 :: "stored \<Rightarrow> stored" where
  "migrateElement_v20 e =
     (if \<not> isRecord e \<or> getp ''type'' e \<noteq> SStr ''video'' then e
      else put ''isSourceAudioEnabled'' (bool_or (getp ''isSourceAudioEnabled'' e) True) e)"

definition transformProjectV19ToV20 :: "stored \<Rightarrow> migration_result" where
  "transformProjectV19ToV20 p = upgrade (skip_before 20 p) 20 (map_elements migrateElement_v20) p"

definition migrateBackgroundBlurScale :: "stored \<Rightarrow> stored" where
  "migrateBackgroundBlurScale p =
     (let settings = getp ''settings'' p; background = getp ''background'' settings
      in if \<not> isRecord settings then p
         else if \<not> isRecord background \<or> getp ''type'' background \<noteq> SStr ''blur'' then put ''settings'' (copy settings) p
         else put ''settings'' (put ''background''
                (put ''blurIntensity'' (SNum (case getp ''blurIntensity'' background of SNum x \<Rightarrow> x * 5 | _ \<Rightarrow> 50)) background)
                settings) p)"

definition transformProjectV20ToV21 :: "stored \<Rightarrow> migration_result" where
  "transformProjectV20ToV21 p = upgrade (skip_exact 21 p) 21 migrateBackgroundBlurScale p"

section \<open>Version 21 to 22: bindings and channels\<close>

definition srgbToLinear :: "math_fns \<Rightarrow> rat \<Rightarrow> rat" where
  "srgbToLinear mf v = (if v \<le> 4045 / 100000 then v / (1292 / 100) else math_pow mf ((v + 55 / 1000) / (1055 / 1000)) (24 / 10))"

text \<open>What \<open>parse\<close> and \<open>converter("rgb")\<close> of \<open>culori\<close> make of a colour: its components and its alpha,
  each of which may be missing.\<close>

type_synonym color_parser = "string \<Rightarrow> (rat option \<times> rat option \<times> rat option \<times> rat option) option"

definition parseColorToLinearRgba :: "math_fns \<Rightarrow> color_parser \<Rightarrow> string \<Rightarrow> (string \<times> rat) list option" where
  "parseColorToLinearRgba mf parse color =
     (case parse color of
        None \<Rightarrow> None
      | Some (r, g, b, alpha) \<Rightarrow>
          let lin = (\<lambda>c. srgbToLinear mf (case c of Some v \<Rightarrow> v | None \<Rightarrow> 0))
          in Some [(''r'', lin r), (''g'', lin g), (''b'', lin b),
               (''a'', max 0 (min 1 (case alpha of Some v \<Rightarrow> v | None \<Rightarrow> 1)))])"

definition buildChannelId :: "string \<Rightarrow> string \<Rightarrow> string" where
  "buildChannelId propertyPath componentKey = propertyPath @ '':'' @ componentKey"

text \<open>A legacy keyframe: its id, its time, its value and whether it holds.\<close>

type_synonym 'v legacy_keyframe = "string \<times> rat \<times> 'v \<times> bool"

definition legacy_keyframe_of :: "(stored \<Rightarrow> 'v option) \<Rightarrow> stored \<Rightarrow> 'v legacy_keyframe option" where
  "legacy_keyframe_of valid kf =
     (case (getp ''id'' kf, getp ''time'' kf, valid (getp ''value'' kf)) of
        (SStr i, SNum t, Some v) \<Rightarrow> Some (i, t, v, getp ''interpolation'' kf = SStr ''hold'')
      | _ \<Rightarrow> None)"

definition getLegacyScalarKeyframes :: "(stored \<Rightarrow> 'v option) \<Rightarrow> stored \<Rightarrow> 'v legacy_keyframe list" where
  "getLegacyScalarKeyframes valid channel = List.map_filter (legacy_keyframe_of valid) (items (getp ''keyframes'' channel))"

definition getLegacyDiscreteKeyframes :: "stored \<Rightarrow> stored legacy_keyframe list" where
  "getLegacyDiscreteKeyframes channel =
     List.map_filter (legacy_keyframe_of (\<lambda>v. if is_str v \<or> is_bool v then Some v else None)) (items (getp ''keyframes'' channel))"

fun number_value :: "stored \<Rightarrow> rat option" where
  "number_value (SNum x) = Some x"
| "number_value _ = None"

definition isLegacyVectorValue :: "stored \<Rightarrow> (rat \<times> rat) option" where
  "isLegacyVectorValue v =
     (case (getp ''x'' v, getp ''y'' v) of (SNum x, SNum y) \<Rightarrow> Some (x, y) | _ \<Rightarrow> None)"

fun string_value :: "stored \<Rightarrow> string option" where
  "string_value (SStr s) = Some s"
| "string_value _ = None"

definition toScalarKeyframe :: "rat legacy_keyframe \<Rightarrow> stored" where
  "toScalarKeyframe kf =
     (case kf of (i, t, v, hold) \<Rightarrow>
        SObj [(''id'', SStr i), (''time'', SNum t), (''value'', SNum v),
          (''segmentToNext'', SStr (if hold then ''step'' else ''linear'')), (''tangentMode'', SStr ''flat'')])"

text \<open>A binding with its channels.\<close>

type_synonym migrated_channel = "stored \<times> (string \<times> stored) list"

definition build_binding :: "string \<Rightarrow> string \<Rightarrow> (string \<times> stored) list \<Rightarrow> string list \<Rightarrow> stored" where
  "build_binding path kind extra keys =
     SObj ([(''path'', SStr path), (''kind'', SStr kind)] @ extra @
       [(''components'', SArr (map (\<lambda>k. SObj [(''key'', SStr k), (''channelId'', SStr (buildChannelId path k))]) keys))])"

definition scalar_channel_of :: "rat legacy_keyframe list \<Rightarrow> stored" where
  "scalar_channel_of keys = SObj [(''kind'', SStr ''scalar''), (''keys'', SArr (map toScalarKeyframe keys))]"

definition migrateNumberChannel :: "string \<Rightarrow> stored \<Rightarrow> migrated_channel option" where
  "migrateNumberChannel path channel =
     (case getLegacyScalarKeyframes number_value channel of
        [] \<Rightarrow> None
      | keys \<Rightarrow> Some (build_binding path ''number'' [] [''value''],
          [(buildChannelId path ''value'', scalar_channel_of keys)]))"

definition migrateDiscreteChannel :: "string \<Rightarrow> stored \<Rightarrow> migrated_channel option" where
  "migrateDiscreteChannel path channel =
     (case getLegacyDiscreteKeyframes channel of
        [] \<Rightarrow> None
      | keys \<Rightarrow> Some (build_binding path ''discrete'' [] [''value''],
          [(buildChannelId path ''value'', SObj [(''kind'', SStr ''discrete''),
             (''keys'', SArr (map (\<lambda>(i, t, v, _). SObj [(''id'', SStr i), (''time'', SNum t), (''value'', v)]) keys))])]))"

definition migrateVectorChannel :: "string \<Rightarrow> stored \<Rightarrow> migrated_channel option" where
  "migrateVectorChannel path channel =
     (case getLegacyScalarKeyframes isLegacyVectorValue channel of
        [] \<Rightarrow> None
      | keys \<Rightarrow> Some (build_binding path ''vector2'' [] [''x'', ''y''],
          [(buildChannelId path ''x'', scalar_channel_of (map (\<lambda>(i, t, v, h). (i, t, fst v, h)) keys)),
           (buildChannelId path ''y'', scalar_channel_of (map (\<lambda>(i, t, v, h). (i, t, snd v, h)) keys))]))"

definition COLOR_COMPONENT_KEYS :: "string list" where
  "COLOR_COMPONENT_KEYS = [''r'', ''g'', ''b'', ''a'']"

definition migrateColorChannel :: "math_fns \<Rightarrow> color_parser \<Rightarrow> string \<Rightarrow> stored \<Rightarrow> migrated_channel option" where
  "migrateColorChannel mf parse path channel =
     (case List.map_filter (\<lambda>(i, t, s, h). map_option (\<lambda>rgba. (i, t, rgba, h)) (parseColorToLinearRgba mf parse s))
             (getLegacyScalarKeyframes string_value channel) of
        [] \<Rightarrow> None
      | keys \<Rightarrow> Some (build_binding path ''color'' [(''colorSpace'', SStr ''srgb-linear'')] COLOR_COMPONENT_KEYS,
          map (\<lambda>k. (buildChannelId path k,
            scalar_channel_of (map (\<lambda>(i, t, rgba, h). (i, t, case map_of rgba k of Some v \<Rightarrow> v | None \<Rightarrow> 0, h)) keys)))
          COLOR_COMPONENT_KEYS))"

definition migrateLegacyChannel :: "math_fns \<Rightarrow> color_parser \<Rightarrow> string \<Rightarrow> stored \<Rightarrow> migrated_channel option" where
  "migrateLegacyChannel mf parse path channel =
     (if \<not> isRecord channel then None
      else if getp ''valueKind'' channel = SStr ''number'' then migrateNumberChannel path channel
      else if getp ''valueKind'' channel = SStr ''discrete'' then migrateDiscreteChannel path channel
      else if getp ''valueKind'' channel = SStr ''vector'' then migrateVectorChannel path channel
      else if getp ''valueKind'' channel = SStr ''color'' then migrateColorChannel mf parse path channel
      else None)"

definition migrateLegacyAnimations :: "math_fns \<Rightarrow> color_parser \<Rightarrow> stored \<Rightarrow> stored option" where
  "migrateLegacyAnimations mf parse animations =
     (let legacy = getp ''channels'' animations
      in if \<not> isRecord legacy then None
         else case fold (\<lambda>(path, channel) (bs, cs).
                case migrateLegacyChannel mf parse path channel of
                  None \<Rightarrow> (bs, cs)
                | Some (b, chs) \<Rightarrow> (put path b bs, fold (\<lambda>(cid, c). put cid c) chs cs)) (own_props legacy) (SObj [], SObj []) of
                (bs, cs) \<Rightarrow> if own_props bs = [] then None else Some (SObj [(''bindings'', bs), (''channels'', cs)]))"

definition migrateElementAnimations :: "math_fns \<Rightarrow> color_parser \<Rightarrow> stored \<Rightarrow> stored" where
  "migrateElementAnimations mf parse e =
     (let animations = getp ''animations'' e
      in if \<not> isRecord e \<or> \<not> isRecord animations \<or> isRecord (getp ''bindings'' animations) then e
         else case migrateLegacyAnimations mf parse animations of
                None \<Rightarrow> without ''animations'' e
              | Some a \<Rightarrow> put ''animations'' a e)"

definition transformProjectV21ToV22 :: "math_fns \<Rightarrow> color_parser \<Rightarrow> stored \<Rightarrow> migration_result" where
  "transformProjectV21ToV22 mf parse p = upgrade (skip_exact 22 p) 22 (map_elements (migrateElementAnimations mf parse)) p"

end
