(* ===== verification/Migrations_Late.thy ===== *)
theory Migrations_Late
  imports Migrations_Middle Project
begin

text \<open>
  The transformers that bring a stored project from version 22 to version 28
  (\<open>services/storage/migrations/transformers/v22-to-v23.ts\<close> to \<open>v27-to-v28.ts\<close>): times in ticks,
  frame rates as fractions, the three groups of tracks, positions per axis, mask paths as points.
  \<open>JSON.parse\<close> is a parameter, and ids come from a supply with a counter.
\<close>

section \<open>Shared traversals\<close>

text \<open>\<open>migrateTimeFields\<close> of the migrations to 23 and 28, over the conversion of one value.\<close>

definition migrateTimeFields :: "(stored \<Rightarrow> stored) \<Rightarrow> string list \<Rightarrow> stored \<Rightarrow> stored" where
  "migrateTimeFields conv keys r =
     fold (\<lambda>k next. if hasp k r then put k (conv (getp k r)) next else next) keys (copy r)"

definition put_if :: "bool \<Rightarrow> string \<Rightarrow> stored \<Rightarrow> stored \<Rightarrow> stored" where
  "put_if c k x v = (if c then put k x v else v)"

definition element_times :: "string list" where
  "element_times = [''duration'', ''startTime'', ''trimStart'', ''trimEnd'', ''sourceDuration'']"

definition migrate_keyframe_times :: "(stored \<Rightarrow> stored) \<Rightarrow> stored \<Rightarrow> stored" where
  "migrate_keyframe_times conv kf =
     (if \<not> isRecord kf then kf
      else
        let l = getp ''leftHandle'' kf; r = getp ''rightHandle'' kf
        in put_if (isRecord r) ''rightHandle'' (migrateTimeFields conv [''dt''] r)
             (put_if (isRecord l) ''leftHandle'' (migrateTimeFields conv [''dt''] l)
               (migrateTimeFields conv [''time''] kf)))"

definition migrate_animation_times :: "(stored \<Rightarrow> stored) \<Rightarrow> stored \<Rightarrow> stored" where
  "migrate_animation_times conv animations =
     (let channels = getp ''channels'' animations
      in if \<not> isRecord channels then animations
         else put ''channels'' (SObj (map (\<lambda>(cid, c). (cid, map_items ''keys'' (migrate_keyframe_times conv) c)) (own_props channels))) animations)"

definition migrate_element_times :: "(stored \<Rightarrow> stored) \<Rightarrow> stored \<Rightarrow> stored" where
  "migrate_element_times conv e =
     (if \<not> isRecord e then e
      else let a = getp ''animations'' e
           in put_if (isRecord a) ''animations'' (migrate_animation_times conv a) (migrateTimeFields conv element_times e))"

definition migrate_bookmark_times :: "(stored \<Rightarrow> stored) \<Rightarrow> stored \<Rightarrow> stored" where
  "migrate_bookmark_times conv b = (if \<not> isRecord b then b else migrateTimeFields conv [''time'', ''duration''] b)"

text \<open>Mapping the three groups of tracks, as the migrations to 25, 27 and 28 do.\<close>

definition map_track_groups :: "(stored \<Rightarrow> stored) \<Rightarrow> stored \<Rightarrow> stored" where
  "map_track_groups f trs =
     (let m = getp ''main'' trs; o' = getp ''overlay'' trs; a = getp ''audio'' trs
      in put_if (is_arr a) ''audio'' (SArr (map f (items a)))
           (put_if (is_arr o') ''overlay'' (SArr (map f (items o')))
             (put_if (isRecord m) ''main'' (f m) (copy trs))))"

definition map_scene_tracks :: "(stored \<Rightarrow> stored) \<Rightarrow> stored \<Rightarrow> stored" where
  "map_scene_tracks f s =
     (if \<not> isRecord s \<or> \<not> isRecord (getp ''tracks'' s) then s
      else put ''tracks'' (map_track_groups f (getp ''tracks'' s)) s)"

section \<open>Version 22 to 23: ticks and frame rates\<close>

definition TICKS_PER_SECOND_v23 :: rat where
  "TICKS_PER_SECOND_v23 = 120000"

fun migrateTimeValue :: "stored \<Rightarrow> stored" where
  "migrateTimeValue (SNum x) = SNum (of_int (math_round (x * TICKS_PER_SECOND_v23)))"
| "migrateTimeValue v = v"

definition STANDARD_FRAME_RATES_v23 :: "(rat \<times> int \<times> int) list" where
  "STANDARD_FRAME_RATES_v23 =
     [(24000 / 1001, 24000, 1001), (24, 24, 1), (25, 25, 1), (30000 / 1001, 30000, 1001), (30, 30, 1), (48, 48, 1), (50, 50, 1),
      (60000 / 1001, 60000, 1001), (60, 60, 1), (120, 120, 1)]"

definition rate_object :: "int \<Rightarrow> int \<Rightarrow> stored" where
  "rate_object n d = SObj [(''numerator'', SNum (of_int n)), (''denominator'', SNum (of_int d))]"

definition greatestCommonDivisor :: "int \<Rightarrow> int \<Rightarrow> int" where
  "greatestCommonDivisor left right =
     (let d = gcd_loop (nat \<bar>left\<bar>) (nat \<bar>right\<bar>) in if d = 0 then 1 else int d)"

definition migrateFrameRate :: "stored \<Rightarrow> stored" where
  "migrateFrameRate v =
     (case v of
        SNum x \<Rightarrow>
          if x \<le> 0 then v
          else (case find (\<lambda>(r, _, _). \<bar>x - r\<bar> \<le> 1 / 100) STANDARD_FRAME_RATES_v23 of
                  Some (_, n, d) \<Rightarrow> rate_object n d
                | None \<Rightarrow>
                    if of_int \<lfloor>x\<rfloor> = x then rate_object \<lfloor>x\<rfloor> 1
                    else let scaled = math_round (x * 1000000); divisor = greatestCommonDivisor scaled 1000000
                         in rate_object (scaled div divisor) (1000000 div divisor))
      | _ \<Rightarrow> v)"

definition migrateScene_v23 :: "stored \<Rightarrow> stored" where
  "migrateScene_v23 s =
     (if \<not> isRecord s then s
      else map_items ''tracks'' (map_items ''elements'' (migrate_element_times migrateTimeValue))
             (map_items ''bookmarks'' (migrate_bookmark_times migrateTimeValue) (copy s)))"

definition migrateSettings_v23 :: "stored \<Rightarrow> stored" where
  "migrateSettings_v23 s = put_if (hasp ''fps'' s) ''fps'' (migrateFrameRate (getp ''fps'' s)) (copy s)"

definition migrateProject_v23 :: "stored \<Rightarrow> stored" where
  "migrateProject_v23 p =
     (let m = getp ''metadata'' p; s = getp ''settings'' p; v = getp ''timelineViewState'' p
      in map_items ''scenes'' migrateScene_v23
           (put_if (isRecord v) ''timelineViewState'' (migrateTimeFields migrateTimeValue [''playheadTime''] v)
             (put_if (isRecord s) ''settings'' (migrateSettings_v23 s)
               (put_if (isRecord m) ''metadata'' (migrateTimeFields migrateTimeValue [''duration''] m) (copy p)))))"

definition transformProjectV22ToV23 :: "stored \<Rightarrow> migration_result" where
  "transformProjectV22ToV23 p = upgrade (skip_exact 23 p) 23 migrateProject_v23 p"

section \<open>Version 23 to 24: three groups of tracks\<close>

definition findMainTrack :: "stored list \<Rightarrow> nat option" where
  "findMainTrack trs =
     (case findIndex (\<lambda>tr. isRecord tr \<and> getp ''type'' tr = SStr ''video'' \<and> getp ''isMain'' tr = SBool True) trs of
        Some i \<Rightarrow> Some i
      | None \<Rightarrow> findIndex (\<lambda>tr. isRecord tr \<and> getp ''type'' tr = SStr ''video'') trs)"

definition buildEmptyMainTrack :: "uuid \<Rightarrow> stored" where
  "buildEmptyMainTrack i = SObj [(''id'', SStr i), (''name'', SStr ''Main''), (''type'', SStr ''video''), (''elements'', SArr []),
     (''muted'', SBool False), (''hidden'', SBool False)]"

definition migrateTrack_v24 :: "stored \<Rightarrow> stored" where
  "migrateTrack_v24 tr = (if \<not> isRecord tr then tr else put ''isMain'' SUndef tr)"

definition is_audio_track :: "stored \<Rightarrow> bool" where
  "is_audio_track tr \<longleftrightarrow> isRecord tr \<and> getp ''type'' tr = SStr ''audio''"

definition overlay_of :: "stored list \<Rightarrow> stored list" where
  "overlay_of trs =
     filter (\<lambda>tr. isRecord tr \<and> getp ''type'' tr \<noteq> SStr ''audio'')
       (map migrateTrack_v24 (case findMainTrack trs of None \<Rightarrow> trs | Some i \<Rightarrow> take i trs @ drop (Suc i) trs))"

definition audio_of :: "stored list \<Rightarrow> stored list" where
  "audio_of trs = filter is_audio_track (map migrateTrack_v24 trs)"

definition main_of :: "(nat \<Rightarrow> uuid) \<Rightarrow> nat \<Rightarrow> stored list \<Rightarrow> stored \<times> nat" where
  "main_of gen n trs =
     (case findMainTrack trs of
        Some i \<Rightarrow> (migrateTrack_v24 (trs ! i), n)
      | None \<Rightarrow> (migrateTrack_v24 (buildEmptyMainTrack (gen n)), Suc n))"

definition migrateScene_v24 :: "(nat \<Rightarrow> uuid) \<Rightarrow> nat \<Rightarrow> stored \<Rightarrow> stored \<times> nat" where
  "migrateScene_v24 gen n s =
     (if \<not> isRecord s \<or> \<not> is_arr (getp ''tracks'' s) then (s, n)
      else let trs = items (getp ''tracks'' s); (m, n') = main_of gen n trs
           in (put ''tracks'' (SObj [(''overlay'', SArr (overlay_of trs)), (''main'', m), (''audio'', SArr (audio_of trs))]) s, n'))"

primrec map_ids :: "(nat \<Rightarrow> 'a \<Rightarrow> 'a \<times> nat) \<Rightarrow> nat \<Rightarrow> 'a list \<Rightarrow> 'a list \<times> nat" where
  "map_ids f n [] = ([], n)"
| "map_ids f n (x # xs) = (let (y, n1) = f n x; (ys, n2) = map_ids f n1 xs in (y # ys, n2))"

text \<open>\<open>migrateProject\<close> of the migrations to 24 and 26.\<close>

definition map_scenes_ids :: "(nat \<Rightarrow> stored \<Rightarrow> stored \<times> nat) \<Rightarrow> nat \<Rightarrow> stored \<Rightarrow> stored \<times> nat" where
  "map_scenes_ids f n p =
     (if \<not> is_arr (getp ''scenes'' p) then (p, n)
      else let (ss, n') = map_ids f n (items (getp ''scenes'' p)) in (put ''scenes'' (SArr ss) p, n'))"

definition upgrade_ids :: "string option \<Rightarrow> nat \<Rightarrow> (nat \<Rightarrow> stored \<Rightarrow> stored \<times> nat) \<Rightarrow> nat \<Rightarrow> stored \<Rightarrow> migration_result \<times> nat" where
  "upgrade_ids skip v f n p =
     (case skip of Some r \<Rightarrow> (Skipped r, n) | None \<Rightarrow> let (q, n') = f n p in (Migrated (with_version v q), n'))"

definition transformProjectV23ToV24 :: "(nat \<Rightarrow> uuid) \<Rightarrow> nat \<Rightarrow> stored \<Rightarrow> migration_result \<times> nat" where
  "transformProjectV23ToV24 gen n p = upgrade_ids (skip_exact 24 p) 24 (map_scenes_ids (migrateScene_v24 gen)) n p"

section \<open>Version 24 to 25: positions per axis\<close>

definition number_binding :: "string \<Rightarrow> stored" where
  "number_binding path = SObj [(''path'', SStr path), (''kind'', SStr ''number''),
     (''components'', SArr [SObj [(''key'', SStr ''value''), (''channelId'', SStr (path @ '':value''))]])]"

definition migrateAnimations_v25 :: "stored \<Rightarrow> stored" where
  "migrateAnimations_v25 a =
     (let bs = getp ''bindings'' a; cs = getp ''channels'' a; pos = getp ''transform.position'' bs;
          x = getp ''transform.position:x'' cs; y = getp ''transform.position:y'' cs
      in if \<not> isRecord bs \<or> \<not> isRecord cs \<or> \<not> isRecord pos \<or> getp ''kind'' pos \<noteq> SStr ''vector2'' then a
         else
           let nextBindings = put ''transform.positionY'' (number_binding ''transform.positionY'')
                 (put ''transform.positionX'' (number_binding ''transform.positionX'') (put ''transform.position'' SUndef bs));
               nextChannels = put_if (isRecord y) ''transform.positionY:value'' y
                 (put_if (isRecord x) ''transform.positionX:value'' x
                   (put ''transform.position:y'' SUndef (put ''transform.position:x'' SUndef cs)))
           in put ''channels'' nextChannels (put ''bindings'' nextBindings a))"

definition migrateElement_v25 :: "stored \<Rightarrow> stored" where
  "migrateElement_v25 e =
     (let a = getp ''animations'' e
      in if \<not> isRecord e \<or> \<not> isRecord a then e
         else if migrateAnimations_v25 a = a then e else put ''animations'' (migrateAnimations_v25 a) e)"

definition transformProjectV24ToV25 :: "stored \<Rightarrow> migration_result" where
  "transformProjectV24ToV25 p =
     upgrade (skip_exact 25 p) 25 (map_items ''scenes'' (map_scene_tracks (map_items ''elements'' migrateElement_v25))) p"

section \<open>Version 25 to 26: repairing flat track lists\<close>

definition migrateScene_v26 :: "(nat \<Rightarrow> uuid) \<Rightarrow> nat \<Rightarrow> stored \<Rightarrow> stored \<times> nat" where
  "migrateScene_v26 gen n s =
     (let t = getp ''tracks'' s
      in if \<not> isRecord s then (s, n)
         else if isRecord t \<and> is_arr (getp ''overlay'' t) \<and> is_arr (getp ''audio'' t) then (s, n)
         else
           let trs = (case t of SArr xs \<Rightarrow> xs | _ \<Rightarrow> map snd (own_props t)); (m, n') = main_of gen n trs
           in (put ''tracks'' (SObj [(''main'', m), (''overlay'', SArr (overlay_of trs)), (''audio'', SArr (audio_of trs))]) s, n'))"

definition transformProjectV25ToV26 :: "(nat \<Rightarrow> uuid) \<Rightarrow> nat \<Rightarrow> stored \<Rightarrow> migration_result \<times> nat" where
  "transformProjectV25ToV26 gen n p = upgrade_ids (skip_exact 26 p) 26 (map_scenes_ids (migrateScene_v26 gen)) n p"

section \<open>Version 26 to 27: mask paths\<close>

definition isCustomMaskPathPoint :: "stored \<Rightarrow> bool" where
  "isCustomMaskPathPoint v \<longleftrightarrow> is_str (getp ''id'' v)
     \<and> list_all (\<lambda>k. is_num (getp k v)) [''x'', ''y'', ''inX'', ''inY'', ''outX'', ''outY'']"

definition parseCustomMaskPath :: "(string \<Rightarrow> stored option) \<Rightarrow> string \<Rightarrow> stored list" where
  "parseCustomMaskPath json_parse path =
     (if path = [] then []
      else case json_parse path of None \<Rightarrow> [] | Some v \<Rightarrow> filter isCustomMaskPathPoint (items v))"

definition migrateMask_v27 :: "(string \<Rightarrow> stored option) \<Rightarrow> stored \<Rightarrow> stored" where
  "migrateMask_v27 json_parse msk =
     (let params = getp ''params'' msk
      in if \<not> isRecord msk \<or> getp ''type'' msk \<noteq> SStr ''custom'' \<or> \<not> isRecord params then msk
         else case getp ''path'' params of
                SStr path \<Rightarrow> put ''params'' (put ''path'' (SArr (parseCustomMaskPath json_parse path)) params) msk
              | _ \<Rightarrow> msk)"

definition transformProjectV26ToV27 :: "(string \<Rightarrow> stored option) \<Rightarrow> stored \<Rightarrow> migration_result" where
  "transformProjectV26ToV27 json_parse p =
     upgrade (skip_exact 27 p) 27
       (map_items ''scenes'' (map_scene_tracks (map_items ''elements'' (map_items ''masks'' (migrateMask_v27 json_parse))))) p"

section \<open>Version 27 to 28: whole ticks\<close>

fun normalizeMediaTimeValue :: "stored \<Rightarrow> stored" where
  "normalizeMediaTimeValue (SNum x) = SNum (of_int (roundMediaTime x))"
| "normalizeMediaTimeValue v = v"

definition migrateScene_v28 :: "stored \<Rightarrow> stored" where
  "migrateScene_v28 s =
     (if \<not> isRecord s then s
      else map_scene_tracks (map_items ''elements'' (migrate_element_times normalizeMediaTimeValue))
             (map_items ''bookmarks'' (migrate_bookmark_times normalizeMediaTimeValue) (copy s)))"

definition migrateProject_v28 :: "stored \<Rightarrow> stored" where
  "migrateProject_v28 p =
     (let m = getp ''metadata'' p; v = getp ''timelineViewState'' p
      in map_items ''scenes'' migrateScene_v28
           (put_if (isRecord v) ''timelineViewState'' (migrateTimeFields normalizeMediaTimeValue [''playheadTime''] v)
             (put_if (isRecord m) ''metadata'' (migrateTimeFields normalizeMediaTimeValue [''duration''] m) (copy p))))"

definition transformProjectV27ToV28 :: "stored \<Rightarrow> migration_result" where
  "transformProjectV27ToV28 p = upgrade (skip_exact 28 p) 28 migrateProject_v28 p"

end
