(* ===== verification/Migration_Runner.thy ===== *)
theory Migration_Runner
  imports Migrations_Early Migrations_Late
begin

text \<open>
  The chain of storage migrations (\<open>services/storage/migrations/chain.ts\<close>, \<open>base.ts\<close>, \<open>v*-to-v*.ts\<close>) and the runner that applies
  it to every stored project (\<open>runner.ts\<close>, with \<open>set\<close> of \<open>services/storage/indexeddb-adapter.ts\<close>).
  A write to the project store may fail; the run then ends with the error. The progress callbacks, the
  minimal display time and the removal of the old meta database are left out.
\<close>

section \<open>The chain\<close>

record migration_env =
  legacy :: legacy_env
  maths :: math_fns
  colors :: color_parser
  json_parse :: "string \<Rightarrow> stored option"
  new_id :: "nat \<Rightarrow> uuid"

text \<open>What a migration changes besides the project: the old timelines and the position in the supply of ids.\<close>

type_synonym run_state = "timelines \<times> nat"

record migration =
  m_from :: nat
  m_to :: nat
  m_run :: "string \<Rightarrow> stored \<Rightarrow> run_state \<Rightarrow> migration_result \<times> run_state"

definition plain :: "nat \<Rightarrow> (stored \<Rightarrow> migration_result) \<Rightarrow> migration" where
  "plain n f = \<lparr>m_from = n, m_to = Suc n, m_run = (\<lambda>_ p st. (f p, st))\<rparr>"

definition drawing :: "nat \<Rightarrow> (nat \<Rightarrow> stored \<Rightarrow> migration_result \<times> nat) \<Rightarrow> migration" where
  "drawing n f = \<lparr>m_from = n, m_to = Suc n, m_run = (\<lambda>_ p (dbs, i). let (r, i') = f i p in (r, dbs, i'))\<rparr>"

definition V0toV1Migration :: "migration_env \<Rightarrow> migration" where
  "V0toV1Migration env = drawing 0 (\<lambda>i p.
     case transformProjectV0ToV1 (now (legacy env)) (new_id env i) p of
       Skipped r \<Rightarrow> (Skipped r, i) | Migrated q \<Rightarrow> (Migrated q, Suc i))"

text \<open>The deletion of the old databases succeeds; the code logs a failure and goes on.\<close>

definition V1toV2Migration :: "migration_env \<Rightarrow> migration" where
  "V1toV2Migration env = \<lparr>m_from = 1, m_to = 2,
     m_run = (\<lambda>pid p (dbs, i). let (r, dbs') = run_v1_to_v2 (legacy env) pid p dbs in (r, dbs', i))\<rparr>"

definition V11toV12Migration :: "migration_env \<Rightarrow> migration" where
  "V11toV12Migration env = \<lparr>m_from = 11, m_to = 12,
     m_run = (\<lambda>_ p (dbs, i). (transformProjectV11ToV12 (new_id env i) p, dbs, i))\<rparr>"

definition migrations :: "migration_env \<Rightarrow> migration list" where
  "migrations env =
     [V0toV1Migration env,
      V1toV2Migration env,
      plain 2 transformProjectV2ToV3,
      plain 3 transformProjectV3ToV4,
      plain 4 transformProjectV4ToV5,
      plain 5 transformProjectV5ToV6,
      plain 6 transformProjectV6ToV7,
      plain 7 transformProjectV7ToV8,
      plain 8 transformProjectV8ToV9,
      plain 9 transformProjectV9ToV10,
      plain 10 transformProjectV10ToV11,
      V11toV12Migration env,
      plain 12 transformProjectV12ToV13,
      plain 13 (transformProjectV13ToV14 (maths env)),
      plain 14 transformProjectV14ToV15,
      plain 15 transformProjectV15ToV16,
      plain 16 transformProjectV16ToV17,
      plain 17 (transformProjectV17ToV18 (maths env)),
      plain 18 transformProjectV18ToV19,
      plain 19 transformProjectV19ToV20,
      plain 20 transformProjectV20ToV21,
      plain 21 (transformProjectV21ToV22 (maths env) (colors env)),
      plain 22 transformProjectV22ToV23,
      drawing 23 (transformProjectV23ToV24 (new_id env)),
      plain 24 transformProjectV24ToV25,
      drawing 25 (transformProjectV25ToV26 (new_id env)),
      plain 26 (transformProjectV26ToV27 (json_parse env)),
      plain 27 transformProjectV27ToV28]"

section \<open>The runner\<close>

definition LATEST_VERSION :: nat where
  "LATEST_VERSION = 28"

definition getProjectVersion :: "stored \<Rightarrow> rat" where
  "getProjectVersion p =
     (case getp ''version'' p of
        SNum v \<Rightarrow> v
      | _ \<Rightarrow> if items (getp ''scenes'' p) \<noteq> [] then 1 else 0)"

record storage =
  project_records :: "stored list"
  old_timelines :: timelines
  next_id :: nat

text \<open>\<open>IndexedDBAdapter.set\<close>: the record \<open>{ id: key, ...value }\<close> under its \<open>id\<close>.\<close>

definition record_for :: "string \<Rightarrow> stored \<Rightarrow> stored" where
  "record_for key v = SObj (if hasp ''id'' v then own_props v else (''id'', SStr key) # own_props v)"

definition adapter_set :: "stored \<Rightarrow> stored list \<Rightarrow> stored list" where
  "adapter_set r rs =
     (if list_ex (\<lambda>x. getp ''id'' x = getp ''id'' r) rs
      then map (\<lambda>x. if getp ''id'' x = getp ''id'' r then r else x) rs else rs @ [r])"

text \<open>The loop over the migrations for one project. \<open>writable\<close> tells whether the store takes a record;
  \<open>current\<close> is \<open>currentVersion\<close>, \<open>written\<close> the number of records written so far.\<close>

fun migrate_loop ::
    "(stored \<Rightarrow> bool) \<Rightarrow> migration list \<Rightarrow> string \<Rightarrow> rat \<Rightarrow> stored \<Rightarrow> nat \<Rightarrow> storage \<Rightarrow> js_error option \<times> nat \<times> storage" where
  "migrate_loop writable [] pid current p written st = (None, written, st)"
| "migrate_loop writable (m # ms) pid current p written st =
     (if of_nat (m_from m) \<noteq> current then migrate_loop writable ms pid current p written st
      else case m_run m pid p (old_timelines st, next_id st) of
             (Skipped _, dbs, i) \<Rightarrow> (None, written, st\<lparr>old_timelines := dbs, next_id := i\<rparr>)
           | (Migrated q, dbs, i) \<Rightarrow>
               let st1 = st\<lparr>old_timelines := dbs, next_id := i\<rparr>; r = record_for pid q
               in if writable r
                  then migrate_loop writable ms pid (of_nat (m_to m)) q (Suc written)
                         (st1\<lparr>project_records := adapter_set r (project_records st1)\<rparr>)
                  else (Some (Thrown ''QuotaExceededError''), written, st1))"

definition migrate_project ::
    "(stored \<Rightarrow> bool) \<Rightarrow> migration list \<Rightarrow> stored \<Rightarrow> nat \<times> storage \<Rightarrow> js_error option \<times> nat \<times> storage" where
  "migrate_project writable ordered p acc =
     (case acc of (written, st) \<Rightarrow>
        if \<not> isRecord p then (None, written, st)
        else case getProjectId p of
               None \<Rightarrow> (None, written, st)
             | Some pid \<Rightarrow>
                 let current = getProjectVersion p; target = (if ordered = [] then current else of_nat (m_to (last ordered)))
                 in if current \<ge> target then (None, written, st)
                    else migrate_loop writable ordered pid current p written st)"

fun migrate_all ::
    "(stored \<Rightarrow> bool) \<Rightarrow> migration list \<Rightarrow> stored list \<Rightarrow> nat \<times> storage \<Rightarrow> js_error option \<times> nat \<times> storage" where
  "migrate_all writable ordered [] acc = (None, acc)"
| "migrate_all writable ordered (p # ps) acc =
     (case migrate_project writable ordered p acc of
        (Some err, acc') \<Rightarrow> (Some err, acc')
      | (None, acc') \<Rightarrow> migrate_all writable ordered ps acc')"

definition runStorageMigrations :: "(stored \<Rightarrow> bool) \<Rightarrow> migration list \<Rightarrow> storage \<Rightarrow> js_error option \<times> nat \<times> storage" where
  "runStorageMigrations writable loaded st =
     (if project_records st = [] then (None, 0, st)
      else if \<not> list_ex (\<lambda>p. isRecord p \<and> getProjectVersion p < of_nat LATEST_VERSION) (project_records st) then (None, 0, st)
      else migrate_all writable (sort_key m_from loaded) (project_records st) (0, st))"

end
