(* ===== verification/Migration_Steps.thy ===== *)
theory Migration_Steps
  imports Migration_Runner
begin

text \<open>
  What every storage migration keeps: the id of the project, the properties it does not migrate, the
  scenes, and the elements of each scene, and that from version 3 on a migration accepts every project
  of its version.
\<close>

section \<open>What a migration keeps\<close>

text \<open>The tracks of a scene in any version: the three groups when they are there, else the entries.\<close>

definition all_tracks :: "stored \<Rightarrow> stored list" where
  "all_tracks t =
     (if isRecord t \<and> is_arr (getp ''overlay'' t) \<and> is_arr (getp ''audio'' t)
      then items (getp ''overlay'' t) @ [getp ''main'' t] @ items (getp ''audio'' t) else map snd (own_props t))"

definition track_element_ids :: "stored \<Rightarrow> stored list" where
  "track_element_ids tr = map (getp ''id'') (items (getp ''elements'' tr))"

definition scene_element_ids :: "stored \<Rightarrow> stored multiset" where
  "scene_element_ids s = mset (concat (map track_element_ids (all_tracks (getp ''tracks'' s))))"

text \<open>The scenes of a project with the elements in each of them.\<close>

definition scene_content :: "stored \<Rightarrow> (stored \<times> stored multiset) list" where
  "scene_content p = map (\<lambda>s. (getp ''id'' s, scene_element_ids s)) (items (getp ''scenes'' p))"

definition migrated_keys :: "string set" where
  "migrated_keys = {''metadata'', ''scenes'', ''settings'', ''timelineViewState'', ''version''}"

text \<open>What the versions 26 and 28 promise: tracks in groups, and times that are whole numbers of ticks.\<close>

fun whole :: "stored \<Rightarrow> bool" where
  "whole (SNum x) = (of_int \<lfloor>x\<rfloor> = x)"
| "whole _ = True"

definition keyframe_whole :: "stored \<Rightarrow> bool" where
  "keyframe_whole kf \<longleftrightarrow> whole (getp ''time'' kf) \<and> whole (getp ''dt'' (getp ''leftHandle'' kf)) \<and> whole (getp ''dt'' (getp ''rightHandle'' kf))"

definition element_whole :: "stored \<Rightarrow> bool" where
  "element_whole e \<longleftrightarrow> list_all (\<lambda>k. whole (getp k e)) element_times
     \<and> list_all (\<lambda>(_, c). list_all keyframe_whole (items (getp ''keys'' c))) (own_props (getp ''channels'' (getp ''animations'' e)))"

definition track_whole :: "stored \<Rightarrow> bool" where
  "track_whole tr \<longleftrightarrow> list_all element_whole (items (getp ''elements'' tr))"

definition scene_whole :: "stored \<Rightarrow> bool" where
  "scene_whole s \<longleftrightarrow> list_all (\<lambda>b. whole (getp ''time'' b) \<and> whole (getp ''duration'' b)) (items (getp ''bookmarks'' s))
     \<and> (let t = getp ''tracks'' s
        in list_all track_whole (items (getp ''overlay'' t)) \<and> track_whole (getp ''main'' t) \<and> list_all track_whole (items (getp ''audio'' t)))"

definition scene_grouped :: "stored \<Rightarrow> bool" where
  "scene_grouped s \<longleftrightarrow> isRecord s \<longrightarrow> is_arr (getp ''overlay'' (getp ''tracks'' s)) \<and> is_arr (getp ''audio'' (getp ''tracks'' s))"

definition schema :: "nat \<Rightarrow> stored \<Rightarrow> bool" where
  "schema n p \<longleftrightarrow> (26 \<le> n \<longrightarrow> list_all scene_grouped (items (getp ''scenes'' p)))
     \<and> (28 \<le> n \<longrightarrow> list_all scene_whole (items (getp ''scenes'' p)) \<and> whole (getp ''duration'' (getp ''metadata'' p))
          \<and> whole (getp ''playheadTime'' (getp ''timelineViewState'' p)))"

definition upholds :: "nat \<Rightarrow> stored \<Rightarrow> stored \<Rightarrow> bool" where
  "upholds n p q \<longleftrightarrow> (\<forall>k. getp ''version'' p = SNum (of_nat k) \<longrightarrow> schema k p \<longrightarrow> schema n q)"

definition step_ok :: "nat \<Rightarrow> stored \<Rightarrow> stored \<Rightarrow> bool" where
  "step_ok n p q \<longleftrightarrow> isRecord q \<and> getp ''version'' q = SNum (of_nat n) \<and> getProjectId q = getProjectId p
     \<and> keeps_outside migrated_keys p q \<and> scene_content q = scene_content p \<and> upholds n p q"

lemma upholds_trans: "upholds a p q \<Longrightarrow> getp ''version'' q = SNum (of_nat a) \<Longrightarrow> upholds b q r \<Longrightarrow> upholds b p r"
  by (simp add: upholds_def)

lemma upholds_at: "getp ''version'' p = SNum (of_nat n) \<Longrightarrow> schema n p \<longrightarrow> schema v q \<Longrightarrow> upholds v p q"
  by (simp add: upholds_def)

lemma upholds_early: "n < 26 \<Longrightarrow> upholds n p q"
  by (simp add: upholds_def schema_def)

lemma items_map_items: "items (getp k (map_items k f v)) = map f (items (getp k v))"
  by (cases "getp k v") (simp_all add: getp_map_items)

lemma track_element_ids_map: "(\<And>e. getp ''id'' (f e) = getp ''id'' e) \<Longrightarrow> track_element_ids (map_items ''elements'' f tr) = track_element_ids tr"
  by (simp add: track_element_ids_def items_map_items)

lemma all_tracks_SArr [simp]: "all_tracks (SArr xs) = xs"
  by (simp add: all_tracks_def getp_SArr)

lemma scene_element_ids_map:
  assumes "\<And>tr. track_element_ids (f tr) = track_element_ids tr"
  shows "scene_element_ids (map_items ''tracks'' f s) = scene_element_ids s"
proof (cases "getp ''tracks'' s")
  case (SArr xs)
  then show ?thesis using assms by (simp add: scene_element_ids_def getp_map_items comp_def)
qed (simp_all add: scene_element_ids_def getp_map_items)

lemma scene_content_map:
  assumes "\<And>s. getp ''id'' (f s) = getp ''id'' s" "\<And>s. scene_element_ids (f s) = scene_element_ids s"
  shows "scene_content (map_items ''scenes'' f p) = scene_content p"
  using assms by (simp add: scene_content_def items_map_items)

text \<open>What a step may change: nothing, the scenes, or records under other keys.\<close>

definition quiet :: "stored \<Rightarrow> stored \<Rightarrow> bool" where
  "quiet p q \<longleftrightarrow> isRecord q \<and> keeps_outside migrated_keys p q \<and> getProjectId q = getProjectId p \<and> scene_content q = scene_content p"

lemma with_version_ok: "quiet p q \<Longrightarrow> upholds n p q \<Longrightarrow> step_ok n p (with_version n q)"
  using getProjectId_eq [of "with_version n q" q]
  by (simp add: quiet_def step_ok_def with_version_def scene_content_def keeps_outside_put migrated_keys_def upholds_def schema_def)

lemma upgrade_ok: "quiet p (f p) \<Longrightarrow> upholds n p (f p) \<Longrightarrow> \<exists>q. upgrade None n f p = Migrated q \<and> step_ok n p q"
  by (simp add: upgrade_def with_version_ok)

lemma quiet_refl: "isRecord p \<Longrightarrow> quiet p p"
  by (simp add: quiet_def)

lemma quiet_map_scenes:
  assumes "isRecord p" "\<And>s. getp ''id'' (f s) = getp ''id'' s" "\<And>s. scene_element_ids (f s) = scene_element_ids s"
  shows "quiet p (map_items ''scenes'' f p)"
  using assms(1) scene_content_map [OF assms(2,3), of p] getProjectId_eq [of "map_items ''scenes'' f p" p]
  by (simp add: quiet_def keeps_outside_map_items migrated_keys_def getp_map_items)

lemma quiet_map_tracks:
  assumes "isRecord p" "\<And>tr. track_element_ids (f tr) = track_element_ids tr"
  shows "quiet p (map_items ''scenes'' (map_items ''tracks'' f) p)"
  by (rule quiet_map_scenes) (simp_all add: assms scene_element_ids_map getp_map_items)

lemma quiet_map_elements:
  assumes "isRecord p" "\<And>e. getp ''id'' (f e) = getp ''id'' e"
  shows "quiet p (map_elements f p)"
  unfolding map_elements_def by (rule quiet_map_tracks) (simp_all add: assms track_element_ids_map)

lemma quiet_trans: "quiet p q \<Longrightarrow> quiet q r \<Longrightarrow> quiet p r"
  unfolding quiet_def by (auto intro: keeps_outside_trans)

lemma quiet_put:
  assumes "quiet p q" "k \<in> {''settings'', ''timelineViewState''}"
  shows "quiet p (put k x q)"
  using assms getProjectId_eq [of "put k x q" q]
  by (auto simp: quiet_def scene_content_def keeps_outside_put migrated_keys_def)

lemma quiet_put_metadata:
  assumes "quiet p q" "isRecord x" "getp ''id'' x = getp ''id'' (getp ''metadata'' p)"
  shows "quiet p (put ''metadata'' x q)"
proof -
  have "getProjectId (put ''metadata'' x q) = getProjectId p"
    using assms getp_not_record [of "getp ''metadata'' p" "''id''"]
    by (intro getProjectId_cong) (auto simp: quiet_def keeps_outside_def migrated_keys_def)
  then show ?thesis using assms(1) by (simp add: quiet_def scene_content_def keeps_outside_put migrated_keys_def)
qed

section \<open>Every step from version 3 on\<close>

named_theorems keeps_id \<open>transformers of elements and scenes keep the \<open>id\<close>\<close>

lemma early_keeps_id [keeps_id]:
  "getp ''id'' (normalizeTextElementFontWeight e) = getp ''id'' e"
  "getp ''id'' (migrateStickerElement e) = getp ''id'' e"
  "getp ''id'' (migrateTextElement_v7 e) = getp ''id'' e"
  "getp ''id'' (migrateElement_v8 e) = getp ''id'' e"
  "getp ''id'' (migrateTextElement_v9 e) = getp ''id'' e"
  by (simp_all add: normalizeTextElementFontWeight_def migrateStickerElement_def migrateTextElement_v7_def migrateElement_v8_def
    migrateTextElement_v9_def Let_def split: option.split)

lemma getp_copy [simp]: "getp k (copy v) = getp k v" "hasp k (copy v) = hasp k v" "isRecord (copy v)" "own_props (copy v) = own_props v"
  by (simp_all add: copy_def getp_def hasp_def)

lemma getp_put_if [simp]: "getp k (put_if c j x v) = (if c \<and> k = j then x else getp k v)" "isRecord (put_if c j x v) = (c \<or> isRecord v)"
  by (simp_all add: put_if_def)

lemma middle_keeps_id [keeps_id]:
  "getp ''id'' (migrateElementScale e) = getp ''id'' e"
  "getp ''id'' (migrateElementPosition fresh e) = getp ''id'' e"
  "getp ''id'' (map_items ''masks'' g e) = getp ''id'' e"
  "getp ''id'' (backfillStickerIntrinsicDimensions e) = getp ''id'' e"
  "getp ''id'' (migrateElementVolumes mf e) = getp ''id'' e"
  "getp ''id'' (migrateElement_v20 e) = getp ''id'' e"
  "getp ''id'' (migrateElementAnimations mf parse e) = getp ''id'' e"
  "getp ''id'' (migrateElement_v25 e) = getp ''id'' e"
  by (simp_all add: migrateElementScale_def migrate_scale_channels_def migrateElementPosition_def getp_map_items
    backfillStickerIntrinsicDimensions_def migrateElementVolumes_def migrateElement_v20_def migrateElementAnimations_def
    migrateElement_v25_def Let_def split: option.split)

lemma getp_migrateTimeFields:
  "getp k (migrateTimeFields conv ks r) = (if k \<in> set ks \<and> hasp k r then conv (getp k r) else getp k r)"
proof -
  have "getp k (fold (\<lambda>k next. if hasp k r then put k (conv (getp k r)) next else next) ks x)
    = (if k \<in> set ks \<and> hasp k r then conv (getp k r) else getp k x)" for x
    by (induction ks arbitrary: x) auto
  then show ?thesis by (simp add: migrateTimeFields_def)
qed

lemma isRecord_migrateTimeFields [simp]: "isRecord (migrateTimeFields conv ks r)"
proof -
  have "isRecord x \<Longrightarrow> isRecord (fold (\<lambda>k next. if hasp k r then put k (conv (getp k r)) next else next) ks x)" for x
    by (induction ks arbitrary: x) auto
  then show ?thesis by (simp add: migrateTimeFields_def)
qed

lemma times_keeps_id [keeps_id]: "getp ''id'' (migrate_element_times conv e) = getp ''id'' e"
  by (simp add: migrate_element_times_def Let_def getp_migrateTimeFields element_times_def)

text \<open>A migration that accepts every project of its version.\<close>

definition steady :: "migration \<Rightarrow> bool" where
  "steady m \<longleftrightarrow> (\<forall>pid p st. isRecord p \<longrightarrow> getProjectId p \<noteq> None \<longrightarrow> getp ''version'' p = SNum (of_nat (m_from m)) \<longrightarrow>
     (\<exists>q st'. m_run m pid p st = (Migrated q, st') \<and> step_ok (m_to m) p q))"

lemma skip_None:
  assumes "getProjectId p \<noteq> None" "getp ''version'' p = SNum (of_nat n)"
  shows "skip_before (Suc n) p = None" "skip_exact (Suc n) p = None"
  using assms by (simp_all add: skip_before_def skip_exact_def)

lemma steady_before:
  assumes "\<And>p. T p = upgrade (skip_before v p) v f p" "v = Suc n" "\<And>p. isRecord p \<Longrightarrow> quiet p (f p)" "v < 26"
  shows "steady (plain n T)"
  using assms(1,3,4) skip_None(1) upgrade_ok [of _ f "Suc n"] by (simp add: steady_def plain_def assms(2) upholds_early)

lemma steady_exact:
  assumes "\<And>p. T p = upgrade (skip_exact v p) v f p" "v = Suc n" "\<And>p. isRecord p \<Longrightarrow> quiet p (f p)"
    "\<And>p. v < 26 \<or> (schema n p \<longrightarrow> schema v (f p))"
  shows "steady (plain n T)"
proof -
  have "upholds (Suc n) p (f p)" if "getp ''version'' p = SNum (of_nat n)" for p
    using upholds_at [OF that] assms(4) [of p] assms(2) upholds_early by blast
  then show ?thesis
    using assms(1,3) skip_None(2) upgrade_ok [of _ f "Suc n"] by (simp add: steady_def plain_def assms(2))
qed

lemma track_ids_early:
  "track_element_ids (normalizeTrackTextFontWeights tr) = track_element_ids tr"
  "track_element_ids (migrateTrackTextElements_v9 tr) = track_element_ids tr"
  "track_element_ids (renameStickerTracksToGraphic tr) = track_element_ids tr"
  by (simp_all add: normalizeTrackTextFontWeights_def migrateTrackTextElements_v9_def items_map_items keeps_id
    renameStickerTracksToGraphic_def track_element_ids_def)

lemma steady_3_10:
  "steady (plain 3 transformProjectV3ToV4)" "steady (plain 4 transformProjectV4ToV5)" "steady (plain 6 transformProjectV6ToV7)"
  "steady (plain 7 transformProjectV7ToV8)" "steady (plain 8 transformProjectV8ToV9)" "steady (plain 9 transformProjectV9ToV10)"
  by (rule steady_before, rule transformProjectV3ToV4_def transformProjectV4ToV5_def transformProjectV6ToV7_def
      transformProjectV7ToV8_def transformProjectV8ToV9_def transformProjectV9ToV10_def,
    simp, simp add: normalizeProjectTextFontWeights_def quiet_map_tracks quiet_map_elements quiet_refl track_ids_early keeps_id, simp)+

lemma steady_5: "steady (plain 5 transformProjectV5ToV6)"
  by (rule steady_before [OF transformProjectV5ToV6_def])
    (simp_all add: migrateProjectBookmarks_def quiet_map_scenes getp_map_items scene_element_ids_def)

lemma steady_10_20:
  "steady (plain 10 transformProjectV10ToV11)" "steady (plain 12 transformProjectV12ToV13)"
  "steady (plain 13 (transformProjectV13ToV14 mf))" "steady (plain 14 transformProjectV14ToV15)" "steady (plain 15 transformProjectV15ToV16)"
  "steady (plain 16 transformProjectV16ToV17)" "steady (plain 17 (transformProjectV17ToV18 mf))" "steady (plain 19 transformProjectV19ToV20)"
  by (rule steady_before, rule transformProjectV10ToV11_def transformProjectV12ToV13_def transformProjectV13ToV14_def
      transformProjectV14ToV15_def transformProjectV15ToV16_def transformProjectV16ToV17_def transformProjectV17ToV18_def
      transformProjectV19ToV20_def,
    simp, simp add: quiet_map_tracks quiet_map_elements track_ids_early keeps_id, simp)+

lemma steady_11: "steady (V11toV12Migration env)"
proof -
  have "quiet p (map_elements (migrateElementPosition fresh) p)" if "isRecord p" for p fresh
    using that by (simp add: quiet_map_elements keeps_id)
  then show ?thesis
    using skip_None(1) [of _ 11] upgrade_ok [of _ "map_elements (migrateElementPosition fresh)" 12 for fresh]
    by (simp add: steady_def V11toV12Migration_def transformProjectV11ToV12_def upholds_early split: prod.splits)
qed

lemma steady_18_20: "steady (plain 18 transformProjectV18ToV19)" "steady (plain 20 transformProjectV20ToV21)"
proof -
  have q: "quiet p (migrateCanvasSizeSettings p)" "quiet p (migrateBackgroundBlurScale p)" if "isRecord p" for p
    using that by (simp_all add: migrateCanvasSizeSettings_def migrateBackgroundBlurScale_def Let_def quiet_put quiet_refl)
  show "steady (plain 18 transformProjectV18ToV19)" by (rule steady_before [OF transformProjectV18ToV19_def]) (simp_all add: q)
  show "steady (plain 20 transformProjectV20ToV21)" by (rule steady_exact [OF transformProjectV20ToV21_def]) (simp_all add: q)
qed

lemma steady_21: "steady (plain 21 (transformProjectV21ToV22 mf parse))"
  by (rule steady_exact [OF transformProjectV21ToV22_def]) (simp_all add: quiet_map_elements keeps_id)


lemma quiet_copy: "quiet p (copy p)"
  using getProjectId_eq [of "copy p" p] by (simp add: quiet_def keeps_outside_def scene_content_def)

lemma quiet_put_if: "quiet p q \<Longrightarrow> k \<in> {''settings'', ''timelineViewState''} \<Longrightarrow> quiet p (put_if c k x q)"
  by (simp add: put_if_def quiet_put)

lemma quiet_metadata_times:
  "quiet p q \<Longrightarrow> quiet p (put_if c ''metadata'' (migrateTimeFields conv [''duration''] (getp ''metadata'' p)) q)"
  by (simp add: put_if_def quiet_put_metadata getp_migrateTimeFields)

lemma scene_v23_keeps: "getp ''id'' (migrateScene_v23 s) = getp ''id'' s" "scene_element_ids (migrateScene_v23 s) = scene_element_ids s"
proof -
  have "scene_element_ids (map_items ''bookmarks'' f (copy s)) = scene_element_ids s" for f
    by (simp add: scene_element_ids_def getp_map_items)
  then show "scene_element_ids (migrateScene_v23 s) = scene_element_ids s"
    by (simp add: migrateScene_v23_def scene_element_ids_map track_element_ids_map keeps_id)
qed (simp add: migrateScene_v23_def getp_map_items)

lemma steady_22: "steady (plain 22 transformProjectV22ToV23)"
proof -
  have "quiet p (migrateProject_v23 p)" if "isRecord p" for p
  proof -
    let ?q = "put_if (isRecord (getp ''timelineViewState'' p)) ''timelineViewState''
        (migrateTimeFields migrateTimeValue [''playheadTime''] (getp ''timelineViewState'' p))
      (put_if (isRecord (getp ''settings'' p)) ''settings'' (migrateSettings_v23 (getp ''settings'' p))
        (put_if (isRecord (getp ''metadata'' p)) ''metadata''
          (migrateTimeFields migrateTimeValue [''duration''] (getp ''metadata'' p)) (copy p)))"
    have q: "quiet p ?q" by (simp add: quiet_put_if quiet_metadata_times quiet_copy)
    moreover have "isRecord ?q" by simp
    ultimately show ?thesis
      using quiet_map_scenes [of ?q migrateScene_v23] quiet_trans [of p ?q] by (simp add: migrateProject_v23_def scene_v23_keeps Let_def)
  qed
  then show ?thesis by (intro steady_exact [OF transformProjectV22ToV23_def]) simp_all
qed

subsection \<open>Grouping the tracks\<close>

lemma track_ids_v24 [simp]: "track_element_ids (migrateTrack_v24 tr) = track_element_ids tr"
  by (simp add: migrateTrack_v24_def track_element_ids_def)

lemma track_ids_not_record: "\<not> isRecord tr \<Longrightarrow> track_element_ids tr = []"
  by (simp add: track_element_ids_def getp_not_record)

lemma grouped_ids:
  "mset (concat (map track_element_ids (filter (\<lambda>tr. isRecord tr \<and> getp ''type'' tr \<noteq> SStr ''audio'') (map migrateTrack_v24 trs))))
   + mset (concat (map track_element_ids (filter is_audio_track (map migrateTrack_v24 trs))))
   = mset (concat (map track_element_ids trs))"
proof (induction trs)
  case (Cons tr trs)
  have "isRecord (migrateTrack_v24 tr) = isRecord tr" by (simp add: migrateTrack_v24_def)
  then show ?case using Cons.IH track_ids_not_record [of tr] by (auto simp: is_audio_track_def)
qed simp

lemma findMainTrack_Some: "findMainTrack trs = Some i \<Longrightarrow> i < length trs \<and> isRecord (trs ! i) \<and> getp ''type'' (trs ! i) = SStr ''video''"
  by (auto simp: findMainTrack_def dest: findIndexD split: option.splits)

lemma groups_keep_ids:
  "mset (concat (map track_element_ids (overlay_of trs))) + mset (track_element_ids (fst (main_of gen n trs)))
    + mset (concat (map track_element_ids (audio_of trs))) = mset (concat (map track_element_ids trs))"
proof (cases "findMainTrack trs")
  case None
  have "track_element_ids (buildEmptyMainTrack x) = []" for x by (simp add: buildEmptyMainTrack_def track_element_ids_def getp_def)
  then show ?thesis using None grouped_ids [of trs] by (simp add: overlay_of_def audio_of_def main_of_def)
next
  case (Some i)
  note i = findMainTrack_Some [OF Some]
  let ?rest = "take i trs @ drop (Suc i) trs"
  have trs: "trs = take i trs @ trs ! i # drop (Suc i) trs" using i by (simp add: id_take_nth_drop)
  have "\<not> is_audio_track (migrateTrack_v24 (trs ! i))" using i by (simp add: is_audio_track_def migrateTrack_v24_def)
  then have a: "audio_of trs = filter is_audio_track (map migrateTrack_v24 ?rest)"
    unfolding audio_of_def by (subst trs) simp
  have o': "overlay_of trs = filter (\<lambda>tr. isRecord tr \<and> getp ''type'' tr \<noteq> SStr ''audio'') (map migrateTrack_v24 ?rest)"
    by (simp add: overlay_of_def Some)
  have "mset (concat (map track_element_ids trs)) = mset (concat (map track_element_ids ?rest)) + mset (track_element_ids (trs ! i))"
    by (subst trs) simp
  moreover have "track_element_ids (fst (main_of gen n trs)) = track_element_ids (trs ! i)" by (simp add: main_of_def Some)
  moreover have "mset (concat (map track_element_ids (overlay_of trs))) + mset (concat (map track_element_ids (audio_of trs)))
      = mset (concat (map track_element_ids ?rest))"
    unfolding a o' by (rule grouped_ids)
  ultimately show ?thesis by (metis union_assoc union_commute)
qed

lemma element_ids_groups:
  assumes "isRecord (getp ''tracks'' s')" "getp ''overlay'' (getp ''tracks'' s') = SArr (overlay_of trs)"
    "getp ''main'' (getp ''tracks'' s') = fst (main_of gen n trs)" "getp ''audio'' (getp ''tracks'' s') = SArr (audio_of trs)"
  shows "scene_element_ids s' = mset (concat (map track_element_ids trs))"
  using groups_keep_ids [of trs gen n] by (simp add: scene_element_ids_def all_tracks_def assms ac_simps)

lemma scene_v24_keeps:
  "getp ''id'' (fst (migrateScene_v24 gen n s)) = getp ''id'' s" "scene_element_ids (fst (migrateScene_v24 gen n s)) = scene_element_ids s"
proof -
  show "getp ''id'' (fst (migrateScene_v24 gen n s)) = getp ''id'' s" by (simp add: migrateScene_v24_def Let_def split: prod.splits)
  show "scene_element_ids (fst (migrateScene_v24 gen n s)) = scene_element_ids s"
  proof (cases "isRecord s \<and> is_arr (getp ''tracks'' s)")
    case True
    then obtain xs where xs: "getp ''tracks'' s = SArr xs" by (auto elim: is_arrE)
    have "scene_element_ids (fst (migrateScene_v24 gen n s)) = mset (concat (map track_element_ids xs))"
      using True xs by (intro element_ids_groups [where gen = gen and n = n]) (simp_all add: migrateScene_v24_def case_prod_beta)
    then show ?thesis by (simp add: scene_element_ids_def xs)
  qed (auto simp: migrateScene_v24_def)
qed

lemma scene_v26_keeps:
  "getp ''id'' (fst (migrateScene_v26 gen n s)) = getp ''id'' s" "scene_element_ids (fst (migrateScene_v26 gen n s)) = scene_element_ids s"
proof -
  let ?t = "getp ''tracks'' s" let ?trs = "case ?t of SArr xs \<Rightarrow> xs | _ \<Rightarrow> map snd (own_props ?t)"
  show "getp ''id'' (fst (migrateScene_v26 gen n s)) = getp ''id'' s" by (simp add: migrateScene_v26_def Let_def split: prod.splits)
  show "scene_element_ids (fst (migrateScene_v26 gen n s)) = scene_element_ids s"
  proof (cases "\<not> isRecord s \<or> isRecord ?t \<and> is_arr (getp ''overlay'' ?t) \<and> is_arr (getp ''audio'' ?t)")
    case True
    then show ?thesis by (auto simp: migrateScene_v26_def Let_def)
  next
    case False
    have "scene_element_ids (fst (migrateScene_v26 gen n s)) = mset (concat (map track_element_ids ?trs))"
      using False by (intro element_ids_groups [where gen = gen and n = n])
        (auto simp: migrateScene_v26_def Let_def case_prod_beta)
    moreover have "all_tracks ?t = ?trs" using False by (cases ?t) (auto simp: all_tracks_def)
    ultimately show ?thesis by (simp add: scene_element_ids_def)
  qed
qed

lemma scene_v26_grouped: "scene_grouped (fst (migrateScene_v26 gen n s))"
  by (auto simp: scene_grouped_def migrateScene_v26_def Let_def case_prod_beta)

lemma map_ids_keeps: "(\<And>n x. g (fst (f n x)) = g x) \<Longrightarrow> map g (fst (map_ids f n xs)) = map g xs"
proof (induction xs arbitrary: n)
  case (Cons x xs)
  show ?case using Cons.IH [OF Cons.prems, of "snd (f n x)"] Cons.prems [of n x] by (simp add: case_prod_beta Let_def)
qed simp

lemma steady_drawing:
  assumes "\<And>n p. T n p = upgrade_ids (skip_exact v p) v (map_scenes_ids f) n p" "v = Suc k"
    "\<And>n s. getp ''id'' (fst (f n s)) = getp ''id'' s" "\<And>n s. scene_element_ids (fst (f n s)) = scene_element_ids s"
    "\<And>n s. v < 26 \<or> v = 26 \<and> scene_grouped (fst (f n s))"
  shows "steady (drawing k T)"
proof -
  have q: "quiet p (fst (map_scenes_ids f n p))" if "isRecord p" for n p
  proof (cases "is_arr (getp ''scenes'' p)")
    case True
    have "map (\<lambda>s. (getp ''id'' s, scene_element_ids s)) (fst (map_ids f n xs)) = map (\<lambda>s. (getp ''id'' s, scene_element_ids s)) xs" for xs
      by (rule map_ids_keeps) (simp add: assms(3,4))
    then show ?thesis
      using True that getProjectId_eq [of "put ''scenes'' x p" p for x]
      by (simp add: map_scenes_ids_def quiet_def scene_content_def keeps_outside_put migrated_keys_def case_prod_beta Let_def)
  qed (simp add: map_scenes_ids_def that quiet_refl)
  have "upholds v p (fst (map_scenes_ids f n p))" for n p
  proof (cases "v < 26")
    case False
    have "list_all P (fst (map_ids f n xs))" if "\<And>n s. P (fst (f n s))" for P xs
      using that by (induction xs arbitrary: n) (simp_all add: case_prod_beta Let_def)
    then show ?thesis
      using False assms(5) by (cases "getp ''scenes'' p") (auto simp: upholds_def schema_def map_scenes_ids_def case_prod_beta Let_def)
  qed (simp add: upholds_early)
  then show ?thesis
    using skip_None(2) with_version_ok [OF q]
    by (simp add: steady_def drawing_def assms(1,2) upgrade_ids_def case_prod_beta Let_def)
qed

lemma steady_23_25: "steady (drawing 23 (transformProjectV23ToV24 gen))" "steady (drawing 25 (transformProjectV25ToV26 gen))"
  by (rule steady_drawing, rule transformProjectV23ToV24_def transformProjectV25ToV26_def,
    simp, simp add: scene_v24_keeps scene_v26_keeps, simp add: scene_v24_keeps scene_v26_keeps, simp add: scene_v26_grouped)+


subsection \<open>The steps on grouped tracks\<close>

lemma concat_ids_update:
  assumes "map_of al k = Some y" "track_element_ids x = track_element_ids y"
  shows "concat (map (track_element_ids \<circ> snd) (AList.update k x al)) = concat (map (track_element_ids \<circ> snd) al)"
  using assms by (induction al) auto

lemma own_prop_Some: "getp k v \<noteq> SUndef \<Longrightarrow> map_of (own_props v) k = Some (getp k v)"
  by (simp add: getp_def split: option.splits)

lemma track_ids_SArr [simp]: "track_element_ids (SArr xs) = []"
  by (simp add: track_element_ids_def getp_SArr)

lemma concat_ids_put_if:
  assumes "c \<Longrightarrow> getp k v \<noteq> SUndef \<and> track_element_ids x = track_element_ids (getp k v)"
  shows "concat (map (track_element_ids \<circ> snd) (own_props (put_if c k x v))) = concat (map (track_element_ids \<circ> snd) (own_props v))"
  using assms concat_ids_update [OF own_prop_Some] by (simp add: put_if_def)

lemma all_tracks_map_groups:
  assumes "isRecord t" "\<And>tr. track_element_ids (f tr) = track_element_ids tr"
  shows "concat (map track_element_ids (all_tracks (map_track_groups f t))) = concat (map track_element_ids (all_tracks t))"
proof (cases "is_arr (getp ''overlay'' t) \<and> is_arr (getp ''audio'' t)")
  case True
  then show ?thesis using assms by (auto simp: all_tracks_def map_track_groups_def Let_def comp_def)
next
  case False
  then have "all_tracks (map_track_groups f t) = map snd (own_props (map_track_groups f t))" "all_tracks t = map snd (own_props t)"
    by (auto simp: all_tracks_def map_track_groups_def Let_def)
  moreover have "concat (map (track_element_ids \<circ> snd) (own_props (map_track_groups f t))) = concat (map (track_element_ids \<circ> snd) (own_props t))"
    unfolding map_track_groups_def Let_def
    by (subst concat_ids_put_if, auto elim!: is_arrE simp: assms(2))+
  ultimately show ?thesis by simp
qed

lemma scene_tracks_keeps:
  assumes "\<And>tr. track_element_ids (f tr) = track_element_ids tr"
  shows "getp ''id'' (map_scene_tracks f s) = getp ''id'' s" "scene_element_ids (map_scene_tracks f s) = scene_element_ids s"
  using all_tracks_map_groups [OF _ assms, of "getp ''tracks'' s"]
  by (auto simp: map_scene_tracks_def scene_element_ids_def)

lemma getp_map_groups:
  "getp ''overlay'' (map_track_groups f t) = (if is_arr (getp ''overlay'' t) then SArr (map f (items (getp ''overlay'' t))) else getp ''overlay'' t)"
  "getp ''audio'' (map_track_groups f t) = (if is_arr (getp ''audio'' t) then SArr (map f (items (getp ''audio'' t))) else getp ''audio'' t)"
  "getp ''main'' (map_track_groups f t) = (if isRecord (getp ''main'' t) then f (getp ''main'' t) else getp ''main'' t)"
  by (simp_all add: map_track_groups_def Let_def)

lemma scene_tracks_grouped: "scene_grouped s \<Longrightarrow> scene_grouped (map_scene_tracks f s)"
  by (auto simp: scene_grouped_def map_scene_tracks_def getp_map_groups)

lemma steady_24: "steady (plain 24 transformProjectV24ToV25)"
  by (rule steady_exact [OF transformProjectV24ToV25_def]) (simp_all add: quiet_map_scenes scene_tracks_keeps track_element_ids_map keeps_id)

lemma steady_26: "steady (plain 26 (transformProjectV26ToV27 parse))"
proof (rule steady_exact [OF transformProjectV26ToV27_def])
  let ?f = "map_items ''elements'' (map_items ''masks'' (migrateMask_v27 parse))"
  show "quiet p (map_items ''scenes'' (map_scene_tracks ?f) p)" if "isRecord p" for p
    using that by (simp add: quiet_map_scenes scene_tracks_keeps track_element_ids_map keeps_id)
  show "27 < (26 :: nat) \<or> (schema 26 p \<longrightarrow> schema 27 (map_items ''scenes'' (map_scene_tracks ?f) p))" for p
    by (auto simp: schema_def items_map_items list_all_iff scene_tracks_grouped)
qed simp

lemma scene_v28_keeps: "getp ''id'' (migrateScene_v28 s) = getp ''id'' s" "scene_element_ids (migrateScene_v28 s) = scene_element_ids s"
proof -
  let ?f = "map_items ''elements'' (migrate_element_times normalizeMediaTimeValue)"
  have f: "track_element_ids (?f tr) = track_element_ids tr" for tr by (simp add: track_element_ids_map keeps_id)
  have "scene_element_ids (map_items ''bookmarks'' g (copy s)) = scene_element_ids s" for g
    by (simp add: scene_element_ids_def getp_map_items)
  then show "scene_element_ids (migrateScene_v28 s) = scene_element_ids s"
    by (simp add: migrateScene_v28_def scene_tracks_keeps [OF f])
  show "getp ''id'' (migrateScene_v28 s) = getp ''id'' s"
    by (simp add: migrateScene_v28_def scene_tracks_keeps [OF f] getp_map_items)
qed

lemma not_hasp: "\<not> hasp k v \<Longrightarrow> getp k v = SUndef"
  by (simp add: hasp_def getp_def)

lemma whole_normalize [simp]: "whole (normalizeMediaTimeValue v)"
  by (cases v) simp_all

lemma whole_times: "whole (getp k (migrateTimeFields normalizeMediaTimeValue ks r))" if "k \<in> set ks"
  using that by (simp add: getp_migrateTimeFields not_hasp)

lemma keyframe_times_whole: "keyframe_whole (migrate_keyframe_times normalizeMediaTimeValue kf)"
  by (simp add: keyframe_whole_def migrate_keyframe_times_def Let_def getp_not_record getp_migrateTimeFields not_hasp)

lemma element_times_whole: "element_whole (migrate_element_times normalizeMediaTimeValue e)"
proof (cases "isRecord e")
  case True
  let ?a = "getp ''animations'' e"
  have "list_all (\<lambda>k. whole (getp k (migrate_element_times normalizeMediaTimeValue e))) element_times"
    using True whole_times [of _ element_times e] by (simp add: migrate_element_times_def Let_def list_all_iff element_times_def)
  moreover have "list_all (\<lambda>(_, c). list_all keyframe_whole (items (getp ''keys'' c)))
      (own_props (getp ''channels'' (getp ''animations'' (migrate_element_times normalizeMediaTimeValue e))))"
  proof -
    have "own_props (getp ''channels'' (migrate_animation_times normalizeMediaTimeValue ?a))
        = map (\<lambda>(cid, c). (cid, map_items ''keys'' (migrate_keyframe_times normalizeMediaTimeValue) c)) (own_props (getp ''channels'' ?a))"
      by (cases "getp ''channels'' ?a") (simp_all add: migrate_animation_times_def)
    moreover have "getp ''animations'' (migrate_element_times normalizeMediaTimeValue e)
        = (if isRecord ?a then migrate_animation_times normalizeMediaTimeValue ?a else ?a)"
      using True by (simp add: migrate_element_times_def Let_def getp_migrateTimeFields element_times_def)
    ultimately show ?thesis
      by (auto simp: list_all_iff items_map_items keyframe_times_whole getp_not_record)
  qed
  ultimately show ?thesis by (simp add: element_whole_def)
qed (simp add: migrate_element_times_def element_whole_def getp_not_record element_times_def)

lemma track_times_whole: "track_whole (map_items ''elements'' (migrate_element_times normalizeMediaTimeValue) tr)"
  by (simp add: track_whole_def items_map_items list_all_iff element_times_whole)

lemma scene_v28_whole: "scene_whole (migrateScene_v28 s)"
proof -
  let ?f = "map_items ''elements'' (migrate_element_times normalizeMediaTimeValue)"
  have b: "whole (getp ''time'' (migrate_bookmark_times normalizeMediaTimeValue b))" "whole (getp ''duration'' (migrate_bookmark_times normalizeMediaTimeValue b))" for b
    by (auto simp: migrate_bookmark_times_def getp_not_record whole_times)
  have t: "track_whole tr" if "\<not> isRecord tr" for tr using that by (simp add: track_whole_def getp_not_record)
  have i: "items v = []" if "\<not> is_arr v" for v using that by (cases v) simp_all
  show ?thesis
    by (auto simp: scene_whole_def migrateScene_v28_def map_scene_tracks_def getp_map_items items_map_items list_all_iff b getp_map_groups
      track_times_whole t getp_not_record Let_def i split: stored.splits)
qed

lemma scene_v28_grouped: "scene_grouped s \<Longrightarrow> scene_grouped (migrateScene_v28 s)"
  using scene_tracks_grouped [of "map_items ''bookmarks'' f (copy s)" for f]
  by (auto simp: migrateScene_v28_def scene_grouped_def getp_map_items)

lemma steady_27: "steady (plain 27 transformProjectV27ToV28)"
proof -
  define q where "q p = put_if (isRecord (getp ''timelineViewState'' p)) ''timelineViewState''
        (migrateTimeFields normalizeMediaTimeValue [''playheadTime''] (getp ''timelineViewState'' p))
      (put_if (isRecord (getp ''metadata'' p)) ''metadata''
        (migrateTimeFields normalizeMediaTimeValue [''duration''] (getp ''metadata'' p)) (copy p))" for p
  have m: "migrateProject_v28 p = map_items ''scenes'' migrateScene_v28 (q p)" for p by (simp add: migrateProject_v28_def q_def Let_def)
  have "quiet p (q p)" "isRecord (q p)" for p by (simp_all add: q_def quiet_put_if quiet_metadata_times quiet_copy)
  then have "quiet p (migrateProject_v28 p)" for p
    using quiet_map_scenes [of "q p" migrateScene_v28] quiet_trans [of p "q p"] by (simp add: m scene_v28_keeps)
  moreover have "schema 27 p \<longrightarrow> schema 28 (migrateProject_v28 p)" for p
  proof -
    have "items (getp ''scenes'' (migrateProject_v28 p)) = map migrateScene_v28 (items (getp ''scenes'' p))"
      by (simp add: m items_map_items q_def)
    moreover have "whole (getp ''duration'' (getp ''metadata'' (migrateProject_v28 p)))"
      "whole (getp ''playheadTime'' (getp ''timelineViewState'' (migrateProject_v28 p)))"
      by (auto simp: m q_def getp_map_items whole_times getp_not_record)
    ultimately show ?thesis by (auto simp: schema_def list_all_iff scene_v28_whole scene_v28_grouped)
  qed
  ultimately show ?thesis by (intro steady_exact [OF transformProjectV27ToV28_def]) simp_all
qed

lemmas steady_steps = steady_3_10 steady_5 steady_10_20 steady_11 steady_18_20 steady_21 steady_22 steady_23_25 steady_24 steady_26 steady_27

lemma migrations_steady: "list_all steady (drop 3 (migrations env))"
  by (simp add: migrations_def steady_steps)

lemma migrations_numbered: "map m_from (migrations env) = [0..<28]" "map m_to (migrations env) = [1..<29]" "length (migrations env) = 28"
  by (simp_all add: migrations_def V0toV1Migration_def V1toV2Migration_def V11toV12Migration_def plain_def drawing_def upt_rec)

end
