(* ===== verification/Migration_Theorems.thy ===== *)
theory Migration_Theorems
  imports Migration_Steps
begin

text \<open>
  The runner over a chain of migrations, proved once in a locale for any numbered chain whose migrations accept
  every project from some version on, and the properties of the chain of the sources.
\<close>

section \<open>Any chain\<close>

lemma step_ok_trans: "step_ok a p q \<Longrightarrow> step_ok b q r \<Longrightarrow> step_ok b p r"
  unfolding step_ok_def by (auto intro: keeps_outside_trans upholds_trans)

lemma step_ok_id: "step_ok n p q \<Longrightarrow> getp ''id'' q = getp ''id'' p"
  by (simp add: step_ok_def keeps_outside_def migrated_keys_def)

lemma step_ok_copy [simp]: "step_ok n p (copy q) = (isRecord q \<longrightarrow> step_ok n p q)" if "isRecord q"
  using that getProjectId_eq [of "copy q" q] by (simp add: step_ok_def keeps_outside_def scene_content_def upholds_def schema_def)

definition replace_record :: "stored \<Rightarrow> stored list \<Rightarrow> stored list" where
  "replace_record r rs = map (\<lambda>x. if getp ''id'' x = getp ''id'' r then r else x) rs"

lemma adapter_set_replaces: "\<exists>x \<in> set rs. getp ''id'' x = getp ''id'' r \<Longrightarrow> adapter_set r rs = replace_record r rs"
  by (auto simp: adapter_set_def replace_record_def list_ex_iff)

lemma replace_replace: "getp ''id'' r = getp ''id'' r' \<Longrightarrow> replace_record r (replace_record r' rs) = replace_record r rs"
  by (simp add: replace_record_def)

lemma replace_has: "\<exists>x \<in> set rs. getp ''id'' x = getp ''id'' r \<Longrightarrow> \<exists>x \<in> set (replace_record r' rs). getp ''id'' x = getp ''id'' r"
  if "getp ''id'' r' = getp ''id'' r"
  using that by (force simp: replace_record_def)

lemma record_for_eq: "getp ''id'' q \<noteq> SUndef \<Longrightarrow> record_for pid q = copy q"
  by (auto simp: record_for_def copy_def hasp_def getp_def split: option.splits)

text \<open>One migration of a chain, run on a project of the version it is for, and what the store then holds: the project after a
  whole number of migrations, as it is or as a copy.\<close>

definition migrates_to :: "migration list \<Rightarrow> stored \<Rightarrow> stored \<Rightarrow> bool" where
  "migrates_to ms p q \<longleftrightarrow> (\<exists>m \<in> set ms. getp ''version'' p = SNum (of_nat (m_from m)) \<and>
     (\<exists>pid rst rst'. m_run m pid p rst = (Migrated q, rst')))"

definition migrated_whole :: "migration list \<Rightarrow> stored \<Rightarrow> stored \<Rightarrow> bool" where
  "migrated_whole ms p r \<longleftrightarrow> (\<exists>q. (migrates_to ms)\<^sup>*\<^sup>* p q \<and> (r = q \<or> r = copy q))"

lemma migrated_whole_refl [simp]: "migrated_whole ms p p"
  by (auto simp: migrated_whole_def)

lemma migrated_whole_copy: "migrates_to ms p q \<Longrightarrow> migrated_whole ms p (copy q)"
  by (auto simp: migrated_whole_def)

lemma migrated_whole_step: "migrates_to ms p q \<Longrightarrow> migrated_whole ms q r \<Longrightarrow> migrated_whole ms p r"
  by (auto simp: migrated_whole_def intro: converse_rtranclp_into_rtranclp)

text \<open>What a run of the loop from version \<open>k\<close> leaves: every record it writes is the project after some whole
  number of migrations, and it stops before the last version \<open>n\<close> only because a write failed.\<close>

definition loop_result ::
    "migration list \<Rightarrow> (stored \<Rightarrow> bool) \<Rightarrow> nat \<Rightarrow> stored \<Rightarrow> stored list \<Rightarrow> nat \<Rightarrow> js_error option \<times> nat \<times> storage \<Rightarrow> bool" where
  "loop_result ms writable k p rs w res \<longleftrightarrow> (case res of (err, w', st') \<Rightarrow>
     (\<exists>j. w' = w + (j - k) \<and> k \<le> j \<and> j \<le> length ms \<and> (err = None \<longrightarrow> j = length ms) \<and> ((\<forall>x. writable x) \<longrightarrow> err = None)
        \<and> (if j = k then project_records st' = rs else \<exists>r. step_ok j p r \<and> migrated_whole ms p r \<and> project_records st' = replace_record r rs)))"

lemma loop_result_step:
  assumes "step_ok (Suc k) p q" "migrates_to ms p q" "loop_result ms writable (Suc k) q (replace_record (copy q) rs) (Suc w) res"
  shows "loop_result ms writable k p rs w res"
proof -
  obtain err w' st' where res: "res = (err, w', st')" by (cases res)
  obtain j where j: "w' = Suc w + (j - Suc k)" "Suc k \<le> j" "j \<le> length ms" "err = None \<longrightarrow> j = length ms" "(\<forall>x. writable x) \<longrightarrow> err = None"
    and rec: "if j = Suc k then project_records st' = replace_record (copy q) rs
      else \<exists>r. step_ok j q r \<and> migrated_whole ms q r \<and> project_records st' = replace_record r (replace_record (copy q) rs)"
    using assms(3) unfolding loop_result_def res prod.case by blast
  have "\<exists>r. step_ok j p r \<and> migrated_whole ms p r \<and> project_records st' = replace_record r rs"
  proof (cases "j = Suc k")
    case True
    moreover have "isRecord q" using assms(1) by (simp add: step_ok_def)
    ultimately show ?thesis using rec assms(1) migrated_whole_copy [OF assms(2)] by (intro exI [of _ "copy q"]) simp
  next
    case False
    then obtain r where r: "step_ok j q r" "migrated_whole ms q r" "project_records st' = replace_record r (replace_record (copy q) rs)"
      using rec by auto
    then show ?thesis using replace_replace [of r "copy q" rs] step_ok_id [OF r(1)] step_ok_trans [OF assms(1) r(1)]
        migrated_whole_step [OF assms(2) r(2)] by auto
  qed
  then show ?thesis using j unfolding loop_result_def res by (intro case_prodI exI [of _ j]) auto
qed

text \<open>A stored project that a chain up to version \<open>n\<close> accepts from version \<open>first\<close> on; its \<open>id\<close> is its key in the store.\<close>

definition eligible :: "nat \<Rightarrow> nat \<Rightarrow> stored \<Rightarrow> bool" where
  "eligible first n p \<longleftrightarrow> isRecord p \<and> nonempty_string (getp ''id'' p) \<noteq> None
     \<and> (case getp ''version'' p of SNum v \<Rightarrow> v \<in> of_nat ` {first..n} | _ \<Rightarrow> False)"

lemma eligibleE:
  assumes "eligible first n p"
  obtains k where "isRecord p" "getProjectId p \<noteq> None" "getp ''id'' p \<noteq> SUndef" "getp ''version'' p = SNum (of_nat k)" "first \<le> k" "k \<le> n"
proof -
  have p: "isRecord p" "nonempty_string (getp ''id'' p) \<noteq> None" using assms by (simp_all add: eligible_def)
  then have i: "getProjectId p \<noteq> None" "getp ''id'' p \<noteq> SUndef" by (auto simp: getProjectId_def)
  obtain k where "getp ''version'' p = SNum (of_nat k)" "first \<le> k" "k \<le> n"
    using assms by (auto simp: eligible_def split: stored.splits)
  then show thesis using p i that by blast
qed

lemma step_ok_refl: "isRecord p \<Longrightarrow> getp ''version'' p = SNum (of_nat k) \<Longrightarrow> step_ok k p p"
  by (simp add: step_ok_def upholds_def)

lemma eligible_refl: "eligible first n p \<Longrightarrow> \<exists>j \<le> n. step_ok j p p"
  by (metis eligibleE step_ok_refl)

lemma replace_middle:
  assumes "distinct (map (getp ''id'') (xs @ p # ys))" "getp ''id'' r = getp ''id'' p"
  shows "replace_record r (xs @ p # ys) = xs @ r # ys"
proof -
  have "map (\<lambda>x. if getp ''id'' x = getp ''id'' r then r else x) zs = zs" if "getp ''id'' r \<notin> getp ''id'' ` set zs" for zs
    using that by (intro map_idI) (metis imageI)
  then show ?thesis using assms by (auto simp: replace_record_def)
qed

locale migration_chain =
  fixes ms :: "migration list" and first :: nat
  assumes numbered: "i < length ms \<Longrightarrow> m_from (ms ! i) = i \<and> m_to (ms ! i) = Suc i"
    and accepts: "first \<le> i \<Longrightarrow> i < length ms \<Longrightarrow> steady (ms ! i)"
begin

lemma ordered: "sort_key m_from ms = ms"
proof (rule sort_key_id_if_sorted)
  have "map m_from ms = [0..<length ms]" using numbered by (intro nth_equalityI) simp_all
  then show "sorted (map m_from ms)" by simp
qed

lemma loop:
  assumes "isRecord p" "getProjectId p \<noteq> None" "getp ''id'' p \<noteq> SUndef" "getp ''version'' p = SNum (of_nat k)" "first \<le> k" "k \<le> length ms"
    "i \<le> k" "\<exists>x \<in> set (project_records st). getp ''id'' x = getp ''id'' p"
  shows "loop_result ms writable k p (project_records st) w (migrate_loop writable (drop i ms) pid (of_nat k) p w st)"
  using assms
proof (induction "length ms - i" arbitrary: i k p w st)
  case 0
  then have "k = length ms" "drop i ms = []" by simp_all
  then show ?case by (simp add: loop_result_def)
next
  case (Suc l)
  then have i: "i < length ms" by simp
  then have dr: "drop i ms = ms ! i # drop (Suc i) ms" by (simp add: Cons_nth_drop_Suc)
  note num = numbered [OF i]
  show ?case
  proof (cases "i = k")
    case False
    then have "migrate_loop writable (drop i ms) pid (of_nat k) p w st = migrate_loop writable (drop (Suc i) ms) pid (of_nat k) p w st"
      by (simp add: dr num)
    moreover have "Suc i \<le> k" using False Suc.prems(7) by simp
    ultimately show ?thesis using Suc.hyps(1) [of "Suc i" p k st w] Suc.hyps(2) Suc.prems by simp
  next
    case True
    note dr = dr [unfolded True] and num = num [unfolded True]
    have "steady (ms ! k)" using accepts Suc.prems(5) True i by simp
    then obtain q dbs n where run: "m_run (ms ! k) pid p (old_timelines st, next_id st) = (Migrated q, dbs, n)" and q: "step_ok (Suc k) p q"
      unfolding steady_def using Suc.prems(1,2,4) num by (metis prod.collapse)
    have idq: "getp ''id'' q = getp ''id'' p" by (rule step_ok_id [OF q])
    have rq: "isRecord q" "getp ''version'' q = SNum (of_nat (Suc k))" "getProjectId q = getProjectId p"
      using q by (simp_all add: step_ok_def)
    have rec: "record_for pid q = copy q" using idq Suc.prems(3) by (intro record_for_eq) simp
    show ?thesis
    proof (cases "writable (copy q)")
      case False
      then show ?thesis using Suc.prems(6) by (auto simp: loop_result_def dr num True run rec intro!: exI [of _ k])
    next
      case wr: True
      have ex: "\<exists>x \<in> set (project_records st). getp ''id'' x = getp ''id'' (copy q)" using Suc.prems(8) idq by simp
      let ?st = "st\<lparr>old_timelines := dbs, next_id := n, project_records := replace_record (copy q) (project_records st)\<rparr>"
      have eq: "migrate_loop writable (drop i ms) pid (of_nat k) p w st = migrate_loop writable (drop (Suc i) ms) pid (of_nat (Suc k)) q (Suc w) ?st"
        using wr by (simp add: dr num True run rec adapter_set_replaces [OF ex])
      have ex2: "\<exists>x \<in> set (project_records ?st). getp ''id'' x = getp ''id'' q"
        using replace_has [of "copy q" q "project_records st"] ex by simp
      have "loop_result ms writable (Suc k) q (project_records ?st) (Suc w)
          (migrate_loop writable (drop (Suc i) ms) pid (of_nat (Suc k)) q (Suc w) ?st)"
        by (rule Suc.hyps(1)) (use Suc.hyps(2) Suc.prems(2,3,5) rq idq i True ex2 in simp_all)
      moreover have "migrates_to ms p q"
        unfolding migrates_to_def using run Suc.prems(4) num True i by (intro bexI [of _ "ms ! k"] conjI exI) simp_all
      ultimately show ?thesis using loop_result_step [OF q] eq by simp
    qed
  qed
qed

lemma project:
  assumes "ms \<noteq> []" "eligible first (length ms) p" "project_records st = xs @ p # ys" "distinct (map (getp ''id'') (xs @ p # ys))"
    "migrate_project writable ms p (w, st) = (err, w', st')"
  shows "\<exists>j r. step_ok j p r \<and> migrated_whole ms p r \<and> j \<le> length ms \<and> project_records st' = xs @ r # ys \<and> (err = None \<longrightarrow> j = length ms) \<and> ((\<forall>x. writable x) \<longrightarrow> err = None)"
proof -
  obtain k where p: "isRecord p" "getProjectId p \<noteq> None" "getp ''id'' p \<noteq> SUndef" "getp ''version'' p = SNum (of_nat k)" "first \<le> k" "k \<le> length ms"
    using assms(2) by (rule eligibleE)
  obtain pid where pid: "getProjectId p = Some pid" using p(2) by blast
  have target: "m_to (last ms) = length ms" using numbered [of "length ms - 1"] assms(1) by (simp add: last_conv_nth)
  have ver: "getProjectVersion p = of_nat k" using p(4) by (simp add: getProjectVersion_def)
  show ?thesis
  proof (cases "k = length ms")
    case True
    then have "err = None" "st' = st" using assms(1,5) p(1) pid ver target by (simp_all add: migrate_project_def)
    then show ?thesis using step_ok_refl [OF p(1,4)] True assms(3) migrated_whole_refl by blast
  next
    case False
    then have "migrate_project writable ms p (w, st) = migrate_loop writable (drop 0 ms) pid (of_nat k) p w st"
      using assms(1) p(1,6) pid ver target by (simp add: migrate_project_def)
    moreover have "loop_result ms writable k p (project_records st) w (migrate_loop writable (drop 0 ms) pid (of_nat k) p w st)"
      by (rule loop) (use p assms(3) in auto)
    ultimately have res: "loop_result ms writable k p (project_records st) w (err, w', st')" using assms(5) by simp
    then obtain j where j: "j \<le> length ms" "err = None \<longrightarrow> j = length ms" "(\<forall>x. writable x) \<longrightarrow> err = None"
      and rec: "if j = k then project_records st' = project_records st else \<exists>r. step_ok j p r \<and> migrated_whole ms p r \<and> project_records st' = replace_record r (project_records st)"
      unfolding loop_result_def prod.case by blast
    show ?thesis
    proof (cases "j = k")
      case True
      then show ?thesis using rec j assms(3) step_ok_refl [OF p(1,4)] migrated_whole_refl [of ms p] by auto
    next
      case False
      then obtain r where "step_ok j p r" "migrated_whole ms p r" "project_records st' = replace_record r (xs @ p # ys)" using rec assms(3) by auto
      then show ?thesis using replace_middle [OF assms(4), of r] step_ok_id [of j p r] j by auto
    qed
  qed
qed

lemma all_projects:
  assumes "ms \<noteq> []" "\<forall>p \<in> set ps. eligible first (length ms) p" "project_records st = xs @ ps" "distinct (map (getp ''id'') (xs @ ps))"
    "migrate_all writable ms ps (w, st) = (err, w', st')"
  shows "\<exists>rs. project_records st' = xs @ rs \<and> list_all2 (\<lambda>p r. migrated_whole ms p r \<and> (\<exists>j \<le> length ms. step_ok j p r)) ps rs
    \<and> (err = None \<longrightarrow> list_all2 (step_ok (length ms)) ps rs) \<and> ((\<forall>x. writable x) \<longrightarrow> err = None)"
  using assms
proof (induction ps arbitrary: xs st w)
  case (Cons p ps)
  obtain err1 w1 st1 where one: "migrate_project writable ms p (w, st) = (err1, w1, st1)" by (metis prod_cases3)
  obtain j r where r: "step_ok j p r" "j \<le> length ms" "project_records st1 = xs @ r # ps" "migrated_whole ms p r" "err1 = None \<longrightarrow> j = length ms"
      "(\<forall>x. writable x) \<longrightarrow> err1 = None"
    using project [OF Cons.prems(1) _ Cons.prems(3,4) one] Cons.prems(2) by auto
  show ?case
  proof (cases err1)
    case None
    have "distinct (map (getp ''id'') ((xs @ [r]) @ ps))" using Cons.prems(4) step_ok_id [OF r(1)] by simp
    moreover have "migrate_all writable ms ps (w1, st1) = (err, w', st')" using Cons.prems(5) one None by simp
    ultimately obtain rs where rs: "project_records st' = (xs @ [r]) @ rs" "list_all2 (\<lambda>p r. migrated_whole ms p r \<and> (\<exists>j \<le> length ms. step_ok j p r)) ps rs"
      "err = None \<longrightarrow> list_all2 (step_ok (length ms)) ps rs" "(\<forall>x. writable x) \<longrightarrow> err = None"
      using Cons.IH [of st1 "xs @ [r]" w1] Cons.prems(1,2) r(3) by auto
    then show ?thesis using r None by (intro exI [of _ "r # rs"]) auto
  next
    case (Some e)
    have "list_all2 (\<lambda>p r. migrated_whole ms p r \<and> (\<exists>j \<le> length ms. step_ok j p r)) ps ps"
      using Cons.prems(2) by (intro list.rel_refl_strong conjI migrated_whole_refl eligible_refl [of first]) simp
    moreover have "err = Some e" "st' = st1" using Cons.prems(5) one Some by auto
    ultimately show ?thesis using r Some by (intro exI [of _ "r # ps"]) auto
  qed
qed simp

end

interpretation chain: migration_chain "migrations env" 3 for env
proof
  fix i assume i: "i < length (migrations env)"
  have "map m_from (migrations env) ! i = i" "map m_to (migrations env) ! i = Suc i"
    using i by (simp_all add: migrations_numbered)
  then show "m_from (migrations env ! i) = i \<and> m_to (migrations env ! i) = Suc i" using i by simp
  assume "3 \<le> i"
  then have "migrations env ! i = drop 3 (migrations env) ! (i - 3)" using i by simp
  then show "steady (migrations env ! i)"
    using migrations_steady [of env] i \<open>3 \<le> i\<close> by (metis length_drop diff_less_mono list_all_length)
qed


section \<open>The chain of the sources\<close>

lemma migrations_not_Nil: "migrations env \<noteq> []"
  by (simp add: migrations_def)

lemma runner_result:
  assumes "\<forall>p \<in> set (project_records st). eligible 3 LATEST_VERSION p" "distinct (map (getp ''id'') (project_records st))"
    "runStorageMigrations writable (migrations env) st = (err, w, st')"
  shows "list_all2 (\<lambda>p r. migrated_whole (migrations env) p r \<and> (\<exists>j \<le> LATEST_VERSION. step_ok j p r)) (project_records st) (project_records st')
    \<and> (err = None \<longrightarrow> list_all2 (step_ok LATEST_VERSION) (project_records st) (project_records st')) \<and> ((\<forall>x. writable x) \<longrightarrow> err = None)"
proof (cases "list_ex (\<lambda>p. isRecord p \<and> getProjectVersion p < of_nat LATEST_VERSION) (project_records st)")
  case False
  then have "err = None" "st' = st" using assms(3) by (simp_all add: runStorageMigrations_def split: if_splits)
  moreover have ok: "step_ok LATEST_VERSION p p" if p: "p \<in> set (project_records st)" for p
  proof -
    obtain k where k: "isRecord p" "getp ''version'' p = SNum (of_nat k)" "k \<le> LATEST_VERSION"
      using eligibleE [of 3 LATEST_VERSION p] assms(1) p by blast
    then have "k = LATEST_VERSION" using False p by (auto simp: list_ex_iff getProjectVersion_def)
    then show ?thesis using step_ok_refl [OF k(1,2)] by simp
  qed
  ultimately show ?thesis by (auto intro!: list.rel_refl_strong ok)
next
  case True
  have len: "length (migrations env) = LATEST_VERSION" by (simp add: migrations_numbered LATEST_VERSION_def)
  have "migrate_all writable (migrations env) (project_records st) (0, st) = (err, w, st')"
    using assms(3) True by (auto simp: runStorageMigrations_def chain.ordered split: if_splits)
  then obtain rs where "project_records st' = [] @ rs"
    "list_all2 (\<lambda>p r. migrated_whole (migrations env) p r \<and> (\<exists>j \<le> LATEST_VERSION. step_ok j p r)) (project_records st) rs"
    "err = None \<longrightarrow> list_all2 (step_ok LATEST_VERSION) (project_records st) rs" "(\<forall>x. writable x) \<longrightarrow> err = None"
    using chain.all_projects [of env "project_records st" st "[]" writable 0 err w st'] assms(1,2) migrations_not_Nil unfolding len by auto
  then show ?thesis by simp
qed

text \<open>C5: While writes succeed, running the storage migrations brings every stored project of version 3 or later to
  the latest version: the run ends without error, and each record keeps its id, every property the
  migrations do not own, its scenes, and the elements of every scene.\<close>
theorem migrations_complete:
  assumes "\<forall>p \<in> set (project_records st). eligible 3 LATEST_VERSION p" "distinct (map (getp ''id'') (project_records st))" "\<forall>x. writable x"
  shows "\<exists>w st'. runStorageMigrations writable (migrations env) st = (None, w, st')
    \<and> list_all2 (\<lambda>p r. getp ''version'' r = SNum (of_nat LATEST_VERSION) \<and> getProjectId r = getProjectId p
        \<and> keeps_outside migrated_keys p r \<and> scene_content r = scene_content p) (project_records st) (project_records st')"
proof -
  obtain err w st' where run: "runStorageMigrations writable (migrations env) st = (err, w, st')" by (metis prod_cases3)
  note res = runner_result [OF assms(1,2) run]
  then have "list_all2 (step_ok LATEST_VERSION) (project_records st) (project_records st')" using assms(3) by blast
  then have "list_all2 (\<lambda>p r. getp ''version'' r = SNum (of_nat LATEST_VERSION) \<and> getProjectId r = getProjectId p
        \<and> keeps_outside migrated_keys p r \<and> scene_content r = scene_content p) (project_records st) (project_records st')"
    by (rule list.rel_mono_strong) (simp add: step_ok_def)
  then show ?thesis using run res assms(3) by blast
qed

text \<open>C6: A migration that is cut off by a failing write loses nothing: whatever the store refuses, every record of version 3
  or later is afterwards the project as it was or the result of a whole number of migrations of the chain, each run on the
  result of the one before and on the version it is for; its version says which, and its id, the properties the
  migrations do not own, all its scenes and the elements of every scene are kept.\<close>
theorem migrations_crash_safe:
  assumes "\<forall>p \<in> set (project_records st). eligible 3 LATEST_VERSION p" "distinct (map (getp ''id'') (project_records st))"
    "runStorageMigrations writable (migrations env) st = (err, w, st')"
  shows "list_all2 (\<lambda>p r. migrated_whole (migrations env) p r \<and> (\<exists>j \<le> LATEST_VERSION. getp ''version'' r = SNum (of_nat j) \<and> getProjectId r = getProjectId p
        \<and> keeps_outside migrated_keys p r \<and> scene_content r = scene_content p)) (project_records st) (project_records st')"
  using runner_result [OF assms] by (auto elim!: list.rel_mono_strong simp: step_ok_def)

text \<open>C7: A project of a version from 3 to 25 has, after a run without error, the shape the editor reads: the overlay and the
  audio tracks of every scene are arrays, which together with the main track hold exactly the elements the scene had, none is
  lost or doubled, and every number stored as a time of an element, a keyframe, a bookmark, the metadata or the view state is a whole number of
  ticks.\<close>
theorem migrated_projects_typed:
  assumes "\<forall>p \<in> set (project_records st). eligible 3 25 p" "distinct (map (getp ''id'') (project_records st))"
    "runStorageMigrations writable (migrations env) st = (None, w, st')" "r \<in> set (project_records st')"
  shows "list_all scene_grouped (items (getp ''scenes'' r)) \<and> list_all scene_whole (items (getp ''scenes'' r))
    \<and> whole (getp ''duration'' (getp ''metadata'' r)) \<and> whole (getp ''playheadTime'' (getp ''timelineViewState'' r))
    \<and> (\<exists>p \<in> set (project_records st). getp ''id'' p = getp ''id'' r \<and> scene_content r = scene_content p)"
proof -
  have el: "eligible 3 LATEST_VERSION p" if "eligible 3 25 p" for p
    using that by (auto simp: eligible_def LATEST_VERSION_def split: stored.splits)
  have "list_all2 (step_ok LATEST_VERSION) (project_records st) (project_records st')"
    using runner_result [OF _ assms(2,3)] assms(1) el by blast
  then obtain p where p: "p \<in> set (project_records st)" "step_ok LATEST_VERSION p r"
    using assms(4) by (metis list_all2_conv_all_nth in_set_conv_nth)
  obtain k where k: "getp ''version'' p = SNum (of_nat k)" "k \<le> 25" using eligibleE [of 3 25 p] assms(1) p(1) by blast
  then have "schema k p" by (simp add: schema_def)
  then have "schema LATEST_VERSION r" using p(2) k(1) by (auto simp: step_ok_def upholds_def)
  then show ?thesis using p step_ok_id [OF p(2)] by (auto simp: schema_def LATEST_VERSION_def step_ok_def)
qed


section \<open>Projects that do not migrate, and what a failing write loses\<close>

definition demo_env :: migration_env where
  "demo_env = \<lparr>legacy = \<lparr>now = ''2025-01-01T00:00:00.000Z'', media_metadata = (\<lambda>_ _. None)\<rparr>,
     maths = \<lparr>math_pi = 3, math_cos = (\<lambda>x. x), math_sin = (\<lambda>x. x), math_log10 = (\<lambda>x. x), math_pow = (\<lambda>x y. x)\<rparr>,
     colors = (\<lambda>_. None), json_parse = (\<lambda>_. None), new_id = show_nat\<rparr>"

definition demo_v1_storage :: storage where
  "demo_v1_storage = \<lparr>
     project_records = [SObj [(''id'', SStr ''p''), (''name'', SStr ''demo''),
       (''scenes'', SArr [SObj [(''id'', SStr ''s''), (''isMain'', SBool True), (''tracks'', SArr [])]])]],
     old_timelines = [(scene_db ''p'' ''s'', SObj [(''tracks'', SArr [SObj [(''id'', SStr ''t''), (''type'', SStr ''media''),
       (''elements'', SArr [SObj [(''id'', SStr ''e''), (''type'', SStr ''media''), (''mediaId'', SStr ''m''), (''duration'', SNum (3 / 2))]])]])])],
     next_id = 0\<rparr>"

lemma loop_skips:
  assumes "\<forall>m \<in> set ms. of_nat (m_from m) \<noteq> v"
  shows "migrate_loop writable (ms @ ms') pid v p w st = migrate_loop writable ms' pid v p w st"
  using assms by (induction ms) auto

lemma v2_scenes_keep_ids:
  assumes "s \<in> set (items (getp ''scenes'' p))" "isRecord s"
  shows "\<exists>s' \<in> set (items (getp ''scenes'' (migrateProject_v2 t ctx pid p))). isRecord s' \<and> getp ''id'' s' = getp ''id'' s"
proof -
  have 1: "isRecord (v2_scene ctx s)" "getp ''id'' (v2_scene ctx s) = getp ''id'' s"
    using assms(2) by (simp_all add: v2_scene_def split: option.splits)
  have 2: "\<exists>s' \<in> set (applyLegacyBookmarks legacy ss). isRecord s' \<and> getp ''id'' s' = getp ''id'' x" if "x \<in> set ss" "isRecord x" for legacy ss x
  proof -
    have "isRecord (add_legacy_bookmarks m legacy x)" "getp ''id'' (add_legacy_bookmarks m legacy x) = getp ''id'' x" for m
      using that(2) by (simp_all add: add_legacy_bookmarks_def)
    then show ?thesis using that by (cases "legacy = []") (auto simp: applyLegacyBookmarks_def)
  qed
  show ?thesis using 2 [of "v2_scene ctx s" "map (v2_scene ctx) (items (getp ''scenes'' p))"] 1 assms(1)
    by (simp add: migrateProject_v2_def Let_def)
qed

lemma deleted_timelines:
  assumes "transformProjectV1ToV2 t ctx p = Migrated q" "s \<in> set (items (getp ''scenes'' p))" "isRecord s" "getp ''id'' s = SStr sid"
    "\<forall>name \<in> set (getLegacyTimelineDbNames pid q). map_of dbs name = None"
  shows "loadLegacyTracksForScene dbs pid sid isMain = []"
proof -
  obtain pid' where q: "q = migrateProject_v2 t ctx pid' p"
    using assms(1) by (auto simp: transformProjectV1ToV2_def split: option.splits if_splits)
  obtain s' where "s' \<in> set (items (getp ''scenes'' q))" "isRecord s'" "getp ''id'' s' = SStr sid"
    using v2_scenes_keep_ids [OF assms(2,3)] assms(4) q by metis
  moreover have "is_arr (getp ''scenes'' q)" by (simp add: q migrateProject_v2_def Let_def)
  ultimately have "scene_db pid sid \<in> set (getLegacyTimelineDbNames pid q)" "project_db pid \<in> set (getLegacyTimelineDbNames pid q)"
    by (auto simp: getLegacyTimelineDbNames_def intro!: bexI [of _ s'])
  then show ?thesis using assms(5) by (simp add: loadLegacyTracksForScene_def)
qed

text \<open>C38: A write that fails after the second migration loses the timelines of a version-1 project: the
  migration deletes the old timeline databases before the runner stores the migrated project. The
  run ends with the error, the project stays as it was, and for every scene of it there is nothing
  left to load.\<close>
theorem legacy_timelines_lost:
  assumes "project_records st = [p]" "isRecord p" "getProjectId p = Some pid" "getProjectVersion p = 1" "\<not> isV2Project p" "\<forall>r. \<not> writable r"
  shows "\<exists>err st'. runStorageMigrations writable (migrations env) st = (Some err, 0, st') \<and> project_records st' = [p]
    \<and> (\<forall>s sid isMain. s \<in> set (items (getp ''scenes'' p)) \<longrightarrow> isRecord s \<longrightarrow> getp ''id'' s = SStr sid \<longrightarrow>
         loadLegacyTracksForScene (old_timelines st') pid sid isMain = [])"
proof -
  obtain q where q: "transformProjectV1ToV2 (now (legacy env)) (loadV1ToV2Context (legacy env) (old_timelines st) pid p) p = Migrated q"
    using assms(3,5) by (simp add: transformProjectV1ToV2_def)
  define dbs where "dbs = filter (\<lambda>(name, _). name \<notin> set (getLegacyTimelineDbNames pid q)) (old_timelines st)"
  have ms: "migrations env = [V0toV1Migration env] @ V1toV2Migration env # drop 2 (migrations env)" by (simp add: migrations_def)
  have "migrate_loop writable (migrations env) pid 1 p 0 st = (Some (Thrown ''QuotaExceededError''), 0, st\<lparr>old_timelines := dbs\<rparr>)"
    by (subst ms, subst loop_skips) (simp_all add: V0toV1Migration_def V1toV2Migration_def drawing_def run_v1_to_v2_def q dbs_def assms(6))
  moreover have "m_to (last (migrations env)) = 28" by (simp add: migrations_def plain_def)
  ultimately have run: "runStorageMigrations writable (migrations env) st = (Some (Thrown ''QuotaExceededError''), 0, st\<lparr>old_timelines := dbs\<rparr>)"
    using assms(1-4) by (simp add: runStorageMigrations_def chain.ordered LATEST_VERSION_def migrate_project_def migrations_not_Nil)
  have "map_of dbs name = None" if "name \<in> set (getLegacyTimelineDbNames pid q)" for name
    using that by (auto simp: dbs_def map_of_eq_None_iff)
  then have "loadLegacyTracksForScene dbs pid sid isMain = []" if "s \<in> set (items (getp ''scenes'' p))" "isRecord s" "getp ''id'' s = SStr sid" for s sid isMain
    using deleted_timelines [OF q that] by blast
  then show ?thesis using run assms(1) by auto
qed

text \<open>A project of version 2 whose metadata already have a duration is taken for a newer one and never
  migrates: the third migration skips it, the runner gives up on it without an error, and it keeps
  version 2 at every start.\<close>
theorem v2_with_duration_stuck:
  assumes "isRecord p" "getProjectId p \<noteq> None" "getp ''version'' p = SNum 2" "is_num (getp ''duration'' (getp ''metadata'' p))"
    "project_records st = [p]"
  shows "runStorageMigrations writable (migrations env) st = (None, 0, st)"
proof -
  obtain pid where pid: "getProjectId p = Some pid" using assms(2) by blast
  have "isRecord (getp ''metadata'' p)" 
    using assms(4) getp_not_record [of "getp ''metadata'' p" "''duration''"] by (cases "isRecord (getp ''metadata'' p)") simp_all
  then have skip: "transformProjectV2ToV3 p = Skipped ''already v3''"
    using assms(4) pid by (simp add: transformProjectV2ToV3_def isV3Project_def upgrade_def)
  have ms: "migrations env = [V0toV1Migration env, V1toV2Migration env] @ plain 2 transformProjectV2ToV3 # drop 3 (migrations env)"
    by (simp add: migrations_def)
  have "migrate_loop writable (migrations env) pid 2 p 0 st = (None, 0, st)"
    by (subst ms, subst loop_skips) (simp_all add: V0toV1Migration_def V1toV2Migration_def drawing_def plain_def skip)
  moreover have "m_to (last (migrations env)) = 28" by (simp add: migrations_def plain_def)
  ultimately show ?thesis
    using assms(1,3,5) pid
    by (simp add: runStorageMigrations_def chain.ordered LATEST_VERSION_def getProjectVersion_def migrate_project_def migrations_not_Nil)
qed

text \<open>A flat list of tracks that the migration to 25 spread into an object is recovered by the migration to 26: the
  entries come back in their order and are sorted into the three groups. What the migration to 25 was
  to do to the elements (\<open>f\<close>) has not happened to them.\<close>
theorem flat_tracks_recovered:
  assumes "getp ''tracks'' s = SArr trs"
  shows "let t = getp ''tracks'' (fst (migrateScene_v26 gen n (map_scene_tracks f s)))
    in getp ''main'' t = fst (main_of gen n trs) \<and> getp ''overlay'' t = SArr (overlay_of trs) \<and> getp ''audio'' t = SArr (audio_of trs)"
proof -
  have s: "isRecord s" using assms isRecord_getp [of "''tracks''" s] by simp
  have "getp k (SArr trs) = SUndef" if "k \<in> {''main'', ''overlay'', ''audio''}" for k using that by (auto intro: getp_SArr)
  then have t: "getp ''tracks'' (map_scene_tracks f s) = SObj (zip (map show_nat [0..<length trs]) trs)"
    using s assms by (simp add: map_scene_tracks_def map_track_groups_def put_if_def copy_def)
  have g: "getp k (SObj (zip (map show_nat [0..<length trs]) trs)) = getp k (SArr trs)" for k by (simp add: getp_def)
  have "isRecord (map_scene_tracks f s)" using s by (simp add: map_scene_tracks_def)
  then show ?thesis by (simp add: migrateScene_v26_def t g getp_SArr Let_def case_prod_beta)
qed

section \<open>Witnesses\<close>

definition demo_v3_project :: stored where
  "demo_v3_project = SObj [(''id'', SStr ''p''), (''version'', SNum 3), (''metadata'', SObj [(''duration'', SNum (1 / 3))]),
     (''scenes'', SArr [SObj [(''id'', SStr ''s''), (''isMain'', SBool True), (''bookmarks'', SArr [SNum (1 / 2)]),
       (''tracks'', SArr [SObj [(''id'', SStr ''t''), (''type'', SStr ''text''),
         (''elements'', SArr [SObj [(''id'', SStr ''e''), (''type'', SStr ''text''), (''fontWeight'', SStr '' Bold ''), (''startTime'', SNum (1 / 7))]])]])]])]"

definition demo_v3_storage :: storage where
  "demo_v3_storage = \<lparr>project_records = [demo_v3_project], old_timelines = [], next_id = 0\<rparr>"

lemma demo_v3_eligible: "eligible 3 25 demo_v3_project" "eligible 3 LATEST_VERSION demo_v3_project"
  by (simp_all add: eligible_def demo_v3_project_def LATEST_VERSION_def image_iff bexI [of _ 3])

theorem migrations_complete_witness:
  "\<exists>w st'. runStorageMigrations (\<lambda>_. True) (migrations demo_env) demo_v3_storage = (None, w, st')
    \<and> list_all2 (\<lambda>p r. getp ''version'' r = SNum (of_nat LATEST_VERSION) \<and> getProjectId r = getProjectId p
        \<and> keeps_outside migrated_keys p r \<and> scene_content r = scene_content p) (project_records demo_v3_storage) (project_records st')"
  by (rule migrations_complete) (simp_all add: demo_v3_storage_def demo_v3_eligible)

theorem migrations_crash_safe_witness:
  "list_all2 (\<lambda>p r. migrated_whole (migrations demo_env) p r \<and> (\<exists>j \<le> LATEST_VERSION. getp ''version'' r = SNum (of_nat j) \<and> getProjectId r = getProjectId p
        \<and> keeps_outside migrated_keys p r \<and> scene_content r = scene_content p)) (project_records demo_v3_storage)
     (project_records (snd (snd (runStorageMigrations (\<lambda>r. getp ''version'' r \<noteq> SNum 9) (migrations demo_env) demo_v3_storage))))"
  by (rule migrations_crash_safe [of demo_v3_storage _ demo_env])
    (simp_all add: demo_v3_storage_def demo_v3_eligible prod_eq_iff)

theorem migrated_projects_typed_witness:
  "\<exists>r. project_records (snd (snd (runStorageMigrations (\<lambda>_. True) (migrations demo_env) demo_v3_storage))) = [r]
    \<and> list_all scene_grouped (items (getp ''scenes'' r)) \<and> list_all scene_whole (items (getp ''scenes'' r))
    \<and> whole (getp ''duration'' (getp ''metadata'' r)) \<and> whole (getp ''playheadTime'' (getp ''timelineViewState'' r))"
proof -
  let ?run = "runStorageMigrations (\<lambda>_. True) (migrations demo_env) demo_v3_storage"
  have e: "\<forall>p \<in> set (project_records demo_v3_storage). eligible 3 25 p" "distinct (map (getp ''id'') (project_records demo_v3_storage))"
    by (simp_all add: demo_v3_storage_def demo_v3_eligible)
  obtain err w st' where r0: "?run = (err, w, st')" by (metis prod_cases3)
  have "\<forall>p \<in> set (project_records demo_v3_storage). eligible 3 LATEST_VERSION p" by (simp add: demo_v3_storage_def demo_v3_eligible)
  note res = runner_result [OF this e(2) r0]
  then have "err = None" "length (project_records st') = 1" by (auto dest: list_all2_lengthD simp: demo_v3_storage_def)
  then obtain r where run: "?run = (None, w, st')" "project_records st' = [r]" using r0 by (auto simp: length_Suc_conv)
  show ?thesis using migrated_projects_typed [OF e run(1), of r] run by simp
qed

theorem legacy_timelines_lost_witness:
  "\<exists>err st'. runStorageMigrations (\<lambda>_. False) (migrations demo_env) demo_v1_storage = (Some err, 0, st')
    \<and> loadLegacyTracksForScene (old_timelines demo_v1_storage) ''p'' ''s'' True \<noteq> []
    \<and> loadLegacyTracksForScene (old_timelines st') ''p'' ''s'' True = []"
proof -
  let ?s = "SObj [(''id'', SStr ''s''), (''isMain'', SBool True), (''tracks'', SArr [])]"
  let ?p = "SObj [(''id'', SStr ''p''), (''name'', SStr ''demo''), (''scenes'', SArr [?s])]"
  have "\<exists>err st'. runStorageMigrations (\<lambda>_. False) (migrations demo_env) demo_v1_storage = (Some err, 0, st') \<and> project_records st' = [?p]
    \<and> (\<forall>s sid isMain. s \<in> set (items (getp ''scenes'' ?p)) \<longrightarrow> isRecord s \<longrightarrow> getp ''id'' s = SStr sid \<longrightarrow>
         loadLegacyTracksForScene (old_timelines st') ''p'' sid isMain = [])"
    by (rule legacy_timelines_lost) (simp_all add: demo_v1_storage_def getProjectId_def getProjectVersion_def isV2Project_def)
  moreover have "loadLegacyTracksForScene (old_timelines demo_v1_storage) ''p'' ''s'' True \<noteq> []"
    by (simp add: demo_v1_storage_def loadLegacyTracksForScene_def)
  ultimately show ?thesis by fastforce
qed

theorem v2_with_duration_stuck_witness:
  "let p = SObj [(''id'', SStr ''p''), (''version'', SNum 2), (''metadata'', SObj [(''duration'', SNum 5)])];
       st = \<lparr>project_records = [p], old_timelines = [], next_id = 0\<rparr>
   in runStorageMigrations (\<lambda>_. True) (migrations demo_env) st = (None, 0, st)"
  unfolding Let_def by (rule v2_with_duration_stuck) (simp_all add: getProjectId_def)

theorem flat_tracks_recovered_witness:
  "let s = SObj [(''tracks'', SArr [SObj [(''id'', SStr ''a''), (''type'', SStr ''audio'')], SObj [(''id'', SStr ''v''), (''type'', SStr ''video'')]])];
       t = getp ''tracks'' (fst (migrateScene_v26 show_nat 0 (map_scene_tracks (\<lambda>tr. tr) s)))
   in getp ''id'' (getp ''main'' t) = SStr ''v'' \<and> getp ''overlay'' t = SArr [] \<and> length (items (getp ''audio'' t)) = 1"
proof -
  let ?trs = "[SObj [(''id'', SStr ''a''), (''type'', SStr ''audio'')], SObj [(''id'', SStr ''v''), (''type'', SStr ''video'')]]"
  have "getp ''id'' (fst (main_of show_nat 0 ?trs)) = SStr ''v''" "overlay_of ?trs = []" "length (audio_of ?trs) = 1"
    by code_simp+
  then show ?thesis
    using flat_tracks_recovered [of "SObj [(''tracks'', SArr ?trs)]" ?trs show_nat 0 "\<lambda>tr. tr"] by (simp add: Let_def)
qed

end
