(* ===== verification/Canvas_Layout.thy ===== *)
theory Canvas_Layout
  imports Stored_Record
begin

text \<open>
  The nodes and edges of the workspace canvas (\<open>web/src/features/canvas/types.ts\<close>) and their automatic layout
  (\<open>canvas/layout.ts\<close>). A node keeps what the sources read or write of a React Flow node; its \<open>data\<close> is a
  JavaScript object. Identifiers are not empty, so a \<open>parentId\<close> is falsy exactly when it is \<open>None\<close>. Coordinates are
  exact rationals. The order \<open>localeCompare\<close> of the host is the parameter \<open>cmp\<close>.
\<close>

section \<open>Nodes and edges\<close>

record canvas_node =
  node_id :: string
  node_type :: "string option"
  node_pos :: "rat \<times> rat"
  parentId :: "string option"
  extentParent :: bool
  node_hidden :: "bool option"
  measured :: "(rat option \<times> rat option) option"
  node_width :: "rat option"
  node_height :: "rat option"
  node_style :: stored
  node_data :: stored

record canvas_edge =
  edge_id :: string
  edge_source :: string
  edge_target :: string
  edge_type :: string

datatype layout_mode = LAuto | LHorizontal | LVertical | LGrid | LTree

section \<open>Sizes and positions\<close>

definition COMPONENT_GAP :: rat where "COMPONENT_GAP = 240"
definition ISOLATED_GAP :: rat where "ISOLATED_GAP = 240"
definition MIN_LAYER_PADDING :: rat where "MIN_LAYER_PADDING = 160"
definition MAX_LAYER_PADDING :: rat where "MAX_LAYER_PADDING = 260"
definition ROW_PADDING :: rat where "ROW_PADDING = 40"

abbreviation node_x :: "canvas_node \<Rightarrow> rat" where "node_x n \<equiv> fst (node_pos n)"
abbreviation node_y :: "canvas_node \<Rightarrow> rat" where "node_y n \<equiv> snd (node_pos n)"

definition estimated_size :: "string option \<Rightarrow> rat \<times> rat" where
  "estimated_size t =
     (case t of
        None \<Rightarrow> (260, 160)
      | Some s \<Rightarrow> (case map_of
          [(''image'', (280, 280)), (''video'', (300, 300)), (''audio'', (280, 140)), (''prompt'', (260, 120)),
           (''agent'', (280, 180)), (''aiTypo'', (280, 220)), (''tool'', (280, 200)), (''group'', (300, 200)),
           (''composition'', (280, 220))] s of None \<Rightarrow> (260, 160) | Some wh \<Rightarrow> wh))"

definition measured_or :: "rat option \<Rightarrow> rat option \<Rightarrow> rat" where
  "measured_or m d = (case m of Some x \<Rightarrow> x | None \<Rightarrow> (case d of Some x \<Rightarrow> x | None \<Rightarrow> 0))"

definition getNodeSize :: "canvas_node \<Rightarrow> rat \<times> rat" where
  "getNodeSize n =
     (let measuredW = (case measured n of Some (w, _) \<Rightarrow> w | None \<Rightarrow> None);
          measuredH = (case measured n of Some (_, h) \<Rightarrow> h | None \<Rightarrow> None)
      in (max (fst (estimated_size (node_type n))) (measured_or measuredW (node_width n)),
          max (snd (estimated_size (node_type n))) (measured_or measuredH (node_height n))))"

definition getLayerPadding :: "rat \<Rightarrow> rat" where
  "getLayerPadding layerWidth = min MAX_LAYER_PADDING (max MIN_LAYER_PADDING (of_int (math_round (layerWidth * (32 / 100)))))"

definition getNodeCenterY :: "canvas_node \<Rightarrow> rat" where
  "getNodeCenterY n = node_y n + snd (getNodeSize n) / 2"

definition getValidEdges :: "canvas_node list \<Rightarrow> canvas_edge list \<Rightarrow> canvas_edge list" where
  "getValidEdges ns es =
     (let ids = node_id ` set ns in filter (\<lambda>e. edge_source e \<in> ids \<and> edge_target e \<in> ids) es)"

text \<open>\<open>getBounds\<close> of a list that is not empty: least and greatest x, least and greatest y.\<close>

definition getBounds :: "canvas_node list \<Rightarrow> rat \<times> rat \<times> rat \<times> rat" where
  "getBounds ns = (Min (node_x ` set ns), Max (node_x ` set ns), Min (node_y ` set ns), Max (node_y ` set ns))"

definition sortByPosition :: "locale_order \<Rightarrow> canvas_node \<Rightarrow> canvas_node \<Rightarrow> rat" where
  "sortByPosition cmp a b =
     or_else (node_x a - node_x b) (or_else (node_y a - node_y b) (of_int (cmp (node_id a) (node_id b))))"

section \<open>Components\<close>

text \<open>The set \<open>adj.get(v)\<close>, in the order of insertion.\<close>

definition neighbours :: "canvas_edge list \<Rightarrow> string \<Rightarrow> string list" where
  "neighbours es v = dedupe (concat (map (\<lambda>e.
     (if edge_source e = v then [edge_target e] else []) @ (if edge_target e = v then [edge_source e] else [])) es))"

text \<open>\<open>new Map(nodes.map(n => [n.id, n])).get(v)\<close>: the last entry of an id wins.\<close>

definition node_by_id :: "canvas_node list \<Rightarrow> string \<Rightarrow> canvas_node option" where
  "node_by_id ns v = find (\<lambda>n. node_id n = v) (rev ns)"

lemma visit_measure:
  fixes conn :: "string list"
  defines "C \<equiv> set conn"
  assumes "fresh = filter (\<lambda>nb. nb \<in> set conn \<and> nb \<notin> set visited) (neighbours es cur)"
  shows "length (rev fresh @ stack) + card (set conn - set (visited @ fresh)) < Suc (length stack + card (set conn - set visited))"
proof -
  have C: "finite C" by (simp add: C_def)
  have d: "distinct fresh" "set fresh \<subseteq> C - set visited" by (auto simp: C_def assms(2) neighbours_def)
  have "C - set (visited @ fresh) = (C - set visited) - set fresh" by auto
  then have "card (C - set (visited @ fresh)) = card (C - set visited) - length fresh"
    using d C by (simp add: card_Diff_subset distinct_card)
  moreover have "length fresh \<le> card (C - set visited)"
    using d C card_mono [of "C - set visited" "set fresh"] by (simp add: distinct_card)
  ultimately show ?thesis by (simp add: C_def)
qed

text \<open>The loop over the stack, whose top is the head here; it returns the component and the visited ids.\<close>

function visit_component ::
    "canvas_node list \<Rightarrow> canvas_edge list \<Rightarrow> string list \<Rightarrow> string list \<Rightarrow> string list \<Rightarrow> canvas_node list \<Rightarrow> canvas_node list \<times> string list" where
  "visit_component ns es conn [] visited found = (found, visited)"
| "visit_component ns es conn (cur # stack) visited found =
     (let fresh = filter (\<lambda>nb. nb \<in> set conn \<and> nb \<notin> set visited) (neighbours es cur)
      in visit_component ns es conn (rev fresh @ stack) (visited @ fresh)
           (found @ (case node_by_id ns cur of Some n \<Rightarrow> [n] | None \<Rightarrow> [])))"
  by pat_completeness auto

termination
  by (relation "measure (\<lambda>(ns, es, conn, stack, visited, found). length stack + card (set conn - set visited))")
    (simp_all add: visit_measure [OF refl] del: length_append set_append)

definition collect_component ::
    "locale_order \<Rightarrow> canvas_node list \<Rightarrow> canvas_edge list \<Rightarrow> string list \<Rightarrow> string \<Rightarrow> canvas_node list list \<times> string list \<Rightarrow> canvas_node list list \<times> string list" where
  "collect_component cmp ns es conn v st =
     (case st of (comps, visited) \<Rightarrow>
        if v \<in> set visited then (comps, visited)
        else case visit_component ns es conn [v] (visited @ [v]) [] of
               (found, visited') \<Rightarrow> (comps @ [js_sort (sortByPosition cmp) found], visited'))"

definition component_order :: "canvas_node list \<Rightarrow> canvas_node list \<Rightarrow> rat" where
  "component_order a b =
     (case (getBounds a, getBounds b) of ((ax, aX, ay, aY), (bx, bX, by, bY)) \<Rightarrow>
        or_else ((ax + aX) / 2 - (bx + bX) / 2) ((ay + aY) / 2 - (by + bY) / 2))"

definition partitionGraph ::
    "locale_order \<Rightarrow> canvas_node list \<Rightarrow> canvas_edge list \<Rightarrow> canvas_node list list \<times> canvas_node list" where
  "partitionGraph cmp ns es =
     (let validEdges = getValidEdges ns es;
          conn = map node_id (filter (\<lambda>n. neighbours validEdges (node_id n) \<noteq> []) ns);
          comps = fst (fold (collect_component cmp ns validEdges conn) conn ([], []));
          isolated = js_sort (sortByPosition cmp) (filter (\<lambda>n. node_id n \<notin> set conn) ns)
      in (js_sort component_order comps, isolated))"

section \<open>One component\<close>

definition outgoing :: "canvas_edge list \<Rightarrow> string \<Rightarrow> string list" where
  "outgoing es v = map edge_target (filter (\<lambda>e. edge_source e = v) es)"

definition incoming :: "canvas_edge list \<Rightarrow> string \<Rightarrow> string list" where
  "incoming es v = map edge_source (filter (\<lambda>e. edge_target e = v) es)"

text \<open>\<open>m.get(k) ?? d\<close>\<close>

definition get_or :: "('k \<times> 'v) list \<Rightarrow> 'k \<Rightarrow> 'v \<Rightarrow> 'v" where
  "get_or m k d = (case map_of m k of Some v \<Rightarrow> v | None \<Rightarrow> d)"

subsection \<open>Layers\<close>

type_synonym layering = "canvas_node list \<times> (string \<times> int) list \<times> (string \<times> int) list"

definition relax_target :: "locale_order \<Rightarrow> canvas_node list \<Rightarrow> int \<Rightarrow> string \<Rightarrow> layering \<Rightarrow> layering" where
  "relax_target cmp component layer tid st =
     (case st of (queue, layers, indegree) \<Rightarrow>
        let layers' = AList.update tid (max (get_or layers tid 0) (layer + 1)) layers;
            d = get_or indegree tid 0 - 1;
            indegree' = AList.update tid d indegree
        in (if d = 0
            then js_sort (sortByPosition cmp) (case node_by_id component tid of Some n \<Rightarrow> queue @ [n] | None \<Rightarrow> queue)
            else queue, layers', indegree'))"

definition open_degrees :: "(string \<times> int) list \<Rightarrow> nat" where
  "open_degrees indegree = sum_list (map (nat \<circ> snd) indegree)"

lemma open_degrees_decrease:
  assumes "d = get_or m k 0 - 1"
  shows "open_degrees (AList.update k d m) + (if d = 0 then 1 else 0) \<le> open_degrees m"
  using assms
proof (induction m)
  case Nil
  then show ?case by (simp add: open_degrees_def get_or_def)
next
  case (Cons p m)
  then show ?case by (cases p) (auto simp: open_degrees_def get_or_def)
qed

lemma relax_target_measure:
  "relax_target cmp component layer tid (q, ls, deg) = (q', ls', deg') \<Longrightarrow>
    length q' + open_degrees deg' \<le> length q + open_degrees deg"
  using open_degrees_decrease [OF refl, where m = deg and k = tid]
  by (auto simp: relax_target_def Let_def split: if_splits option.splits)

lemma relax_targets_measure:
  "fold (relax_target cmp component layer) tids (q, ls, deg) = (q', ls', deg') \<Longrightarrow>
    length q' + open_degrees deg' \<le> length q + open_degrees deg"
proof (induction tids arbitrary: q ls deg)
  case (Cons tid tids)
  obtain q1 ls1 deg1 where *: "relax_target cmp component layer tid (q, ls, deg) = (q1, ls1, deg1)" by (metis prod_cases3)
  with Cons.prems have "fold (relax_target cmp component layer) tids (q1, ls1, deg1) = (q', ls', deg')" by simp
  from Cons.IH [OF this] relax_target_measure [OF *] show ?case by simp
qed simp

text \<open>The loop over the queue.\<close>

function assign_layers :: "locale_order \<Rightarrow> canvas_node list \<Rightarrow> canvas_edge list \<Rightarrow> canvas_node list \<Rightarrow>
    (string \<times> int) list \<Rightarrow> (string \<times> int) list \<Rightarrow> (string \<times> int) list" where
  "assign_layers cmp component es [] layers indegree = layers"
| "assign_layers cmp component es (cur # queue) layers indegree =
     (case fold (relax_target cmp component (get_or layers (node_id cur) 0)) (outgoing es (node_id cur)) (queue, layers, indegree) of
        (queue', layers', indegree') \<Rightarrow> assign_layers cmp component es queue' layers' indegree')"
  by pat_completeness auto
termination
  by (relation "measure (\<lambda>(cmp, component, es, queue, layers, indegree). length queue + open_degrees indegree)")
    (auto simp: less_Suc_eq_le intro: relax_targets_measure split: prod.splits)

definition component_layers :: "locale_order \<Rightarrow> canvas_node list \<Rightarrow> canvas_edge list \<Rightarrow> (string \<times> int) list" where
  "component_layers cmp component es =
     (let indegree = map (\<lambda>n. (node_id n, int (length (incoming es (node_id n))))) component;
          queue = js_sort (sortByPosition cmp) (filter (\<lambda>n. get_or indegree (node_id n) 0 = 0) component);
          layers = assign_layers cmp component es queue [] indegree;
          maxL = Max (insert (-1) (snd ` set layers))
      in fold (\<lambda>(i, n). AList.update (node_id n) (maxL + 1 + int i))
           (List.enumerate 0 (filter (\<lambda>n. map_of layers (node_id n) = None) component)) layers)"

definition layer_groups :: "canvas_node list \<Rightarrow> (string \<times> int) list \<Rightarrow> string list list" where
  "layer_groups component layers =
     map (\<lambda>(_, ns). map node_id ns) (sort_key fst (group_by (\<lambda>n. get_or layers (node_id n) 0) component))"

subsection \<open>Crossing reduction\<close>

type_synonym ordering = "string list list \<times> (string \<times> rat) list"

definition set_positions :: "string list \<Rightarrow> (string \<times> rat) list \<Rightarrow> (string \<times> rat) list" where
  "set_positions layer pos = fold (\<lambda>(i, v). AList.update v (of_nat i)) (List.enumerate 0 layer) pos"

definition barycenter :: "(string \<Rightarrow> string list) \<Rightarrow> (string \<times> rat) list \<Rightarrow> string \<Rightarrow> rat" where
  "barycenter adj pos v =
     (if adj v = [] then get_or pos v 0 else sum_list (map (\<lambda>u. get_or pos u 0) (adj v)) / of_nat (length (adj v)))"

definition reorder_layer :: "locale_order \<Rightarrow> (string \<Rightarrow> string list) \<Rightarrow> nat \<Rightarrow> ordering \<Rightarrow> ordering" where
  "reorder_layer cmp adj i st =
     (case st of (layers, pos) \<Rightarrow>
        let zipped = js_sort (\<lambda>a b. or_else (snd a - snd b) (of_int (cmp (fst a) (fst b))))
              (map (\<lambda>v. (v, barycenter adj pos v)) (layers ! i));
            layer = map fst zipped
        in (layers[i := layer], set_positions layer pos))"

definition crossing_pass :: "locale_order \<Rightarrow> canvas_edge list \<Rightarrow> ordering \<Rightarrow> ordering" where
  "crossing_pass cmp es st =
     (let n = length (fst st);
          forward = fold (reorder_layer cmp (incoming es)) [1..<n] st
      in fold (reorder_layer cmp (outgoing es)) (rev [0..<n - 1]) forward)"

definition reduce_crossings :: "locale_order \<Rightarrow> canvas_edge list \<Rightarrow> string list list \<Rightarrow> string list list" where
  "reduce_crossings cmp es layers =
     fst (fold (\<lambda>_. crossing_pass cmp es) [0..<4] (layers, fold set_positions layers []))"

subsection \<open>Coordinates\<close>

fun stack_nodes :: "rat \<Rightarrow> rat \<Rightarrow> canvas_node list \<Rightarrow> canvas_node list" where
  "stack_nodes x y [] = []"
| "stack_nodes x y (n # ns) = n\<lparr>node_pos := (x, y)\<rparr> # stack_nodes x (y + (snd (getNodeSize n) + ROW_PADDING)) ns"

definition layer_width :: "canvas_node list \<Rightarrow> rat" where
  "layer_width ns = (if ns = [] then 0 else Max ((fst \<circ> getNodeSize) ` set ns))"

definition layer_top :: "canvas_node list \<Rightarrow> canvas_edge list \<Rightarrow> (string \<times> rat) list \<Rightarrow> canvas_node list \<Rightarrow> rat" where
  "layer_top component es placed ns =
     (let anchor = (\<lambda>n. let ps = incoming es (node_id n)
            in if ps = [] then getNodeCenterY n
               else sum_list (map (\<lambda>p. get_or placed p (case node_by_id component p of Some m \<Rightarrow> getNodeCenterY m | None \<Rightarrow> 0)) ps)
                    / of_nat (length ps));
          targetCenter = sum_list (map anchor ns) / of_nat (length ns);
          totalHeight = sum_list (map (snd \<circ> getNodeSize) ns) + ROW_PADDING * of_nat (length ns - 1)
      in of_int (math_round (targetCenter - totalHeight / 2)))"

definition place_layer ::
    "canvas_node list \<Rightarrow> canvas_edge list \<Rightarrow> string list \<Rightarrow> canvas_node list \<times> rat \<times> (string \<times> rat) list \<Rightarrow>
     canvas_node list \<times> rat \<times> (string \<times> rat) list" where
  "place_layer component es layerIds st =
     (case st of (result, curX, placed) \<Rightarrow>
        let ns = List.map_filter (node_by_id component) layerIds;
            lw = layer_width ns;
            positioned = stack_nodes curX (layer_top component es placed ns) ns
        in (result @ positioned, curX + (lw + getLayerPadding lw),
            fold (\<lambda>n. AList.update (node_id n) (getNodeCenterY n)) positioned placed))"

definition layoutComponent :: "locale_order \<Rightarrow> canvas_node list \<Rightarrow> canvas_edge list \<Rightarrow> rat \<Rightarrow> canvas_node list \<times> rat" where
  "layoutComponent cmp component es startX =
     (let ids = node_id ` set component;
          compEdges = filter (\<lambda>e. edge_source e \<in> ids \<and> edge_target e \<in> ids) es;
          layers = reduce_crossings cmp compEdges (layer_groups component (component_layers cmp component compEdges))
      in case fold (place_layer component compEdges) layers ([], startX, []) of
           (result, curX, _) \<Rightarrow>
             let lastW = (if layers = [] then 0 else layer_width (List.map_filter (node_by_id component) (last layers)))
             in (result, max (curX - startX - getLayerPadding lastW) 0))"

section \<open>The whole graph\<close>

definition partitionGrouped :: "canvas_node list \<Rightarrow> canvas_node list \<times> (string \<times> canvas_node list) list" where
  "partitionGrouped ns =
     (filter (\<lambda>n. parentId n = None) ns, group_by (\<lambda>n. the (parentId n)) (filter (\<lambda>n. parentId n \<noteq> None) ns))"

definition reattachGroupChildren :: "canvas_node list \<Rightarrow> (string \<times> canvas_node list) list \<Rightarrow> canvas_node list" where
  "reattachGroupChildren laidOutRoots children = laidOutRoots @ concat (map snd children)"

text \<open>\<open>Math.ceil(Math.sqrt(n))\<close>\<close>

definition ceil_sqrt :: "nat \<Rightarrow> nat" where
  "ceil_sqrt n = hd (filter (\<lambda>c. n \<le> c * c) [0..<Suc n])"

definition gridLayout :: "canvas_node list \<Rightarrow> canvas_node list" where
  "gridLayout ns =
     (let cols = max 2 (ceil_sqrt (length ns)); startX = Min (node_x ` set ns); startY = Min (node_y ` set ns)
      in map (\<lambda>(i, n). n\<lparr>node_pos := (startX + of_nat (i mod cols) * 320, startY + of_nat (i div cols) * 320)\<rparr>) (List.enumerate 0 ns))"

definition place_component :: "locale_order \<Rightarrow> canvas_edge list \<Rightarrow> canvas_node list \<Rightarrow> canvas_node list \<times> rat \<Rightarrow> canvas_node list \<times> rat" where
  "place_component cmp es component st =
     (case st of (result, cursorX) \<Rightarrow>
        case layoutComponent cmp component es cursorX of (ns, w) \<Rightarrow> (result @ ns, cursorX + (w + COMPONENT_GAP)))"

definition horizontalLayout :: "locale_order \<Rightarrow> canvas_node list \<Rightarrow> canvas_edge list \<Rightarrow> canvas_node list" where
  "horizontalLayout cmp ns es =
     (let validEdges = getValidEdges ns es
      in case partitionGraph cmp ns validEdges of
           (components, isolated) \<Rightarrow>
             if components = [] then ns
             else
               let cursor0 = Min ((\<lambda>c. fst (getBounds c)) ` set components);
                   (result, cursorX) = fold (place_component cmp validEdges) components ([], cursor0)
               in if isolated \<noteq> [] then result @ stack_nodes (cursorX + ISOLATED_GAP) (Min (node_y ` set ns)) isolated else result)"

definition verticalLayout :: "locale_order \<Rightarrow> canvas_node list \<Rightarrow> canvas_edge list \<Rightarrow> canvas_node list" where
  "verticalLayout cmp ns es =
     (let horizontal = horizontalLayout cmp ns es;
          (minX, maxX, minY, maxY) = getBounds horizontal;
          cx = (minX + maxX) / 2; cy = (minY + maxY) / 2
      in map (\<lambda>n. n\<lparr>node_pos := (cy + (node_y n - cy) * (7 / 10), cx + (node_x n - cx) * (13 / 10))\<rparr>) horizontal)"

definition detectLayoutMode :: "canvas_node list \<Rightarrow> canvas_edge list \<Rightarrow> layout_mode" where
  "detectLayoutMode ns es =
     (let roots = filter (\<lambda>n. parentId n = None) ns;
          validEdges = getValidEdges roots es;
          connectedCount = int (card (edge_source ` set validEdges \<union> edge_target ` set validEdges));
          isolatedCount = int (length roots) - connectedCount;
          maxOut = Max (insert 0 ((\<lambda>e. length (outgoing validEdges (edge_source e))) ` set validEdges))
      in if isolatedCount > connectedCount \<and> isolatedCount \<ge> 4 then LGrid
         else if maxOut \<le> 1 then LHorizontal else LTree)"

text \<open>The box around nodes with their sizes.\<close>

definition box_of :: "canvas_node list \<Rightarrow> rat \<times> rat \<times> rat \<times> rat" where
  "box_of ns = (Min (node_x ` set ns), Max ((\<lambda>n. node_x n + fst (getNodeSize n)) ` set ns),
     Min (node_y ` set ns), Max ((\<lambda>n. node_y n + snd (getNodeSize n)) ` set ns))"

definition resize_group :: "string \<Rightarrow> canvas_node list \<Rightarrow> canvas_node list \<Rightarrow> canvas_node list" where
  "resize_group gid laid processed =
     (let (minX, maxX, minY, maxY) = box_of laid;
          groupWidth = maxX - minX + 20 * 2; groupHeight = maxY - minY + 40 + 20
      in map (\<lambda>n.
           if parentId n = Some gid then n\<lparr>node_pos := (node_x n - minX + 20, node_y n - minY + 40)\<rparr>
           else if node_id n = gid
           then n\<lparr>measured := Some (Some groupWidth, Some groupHeight), node_width := Some groupWidth, node_height := Some groupHeight,
                  node_style := put ''height'' (SNum groupHeight) (put ''width'' (SNum groupWidth) (node_style n))\<rparr>
           else n) processed)"

definition is_pinned :: "canvas_node \<Rightarrow> bool" where
  "is_pinned n \<longleftrightarrow> (truthy (getp ''pinned'' (node_data n)) \<or> truthy (getp ''locked'' (node_data n))) \<and> parentId n = None"

function autoLayoutGraph :: "locale_order \<Rightarrow> canvas_node list \<Rightarrow> canvas_edge list \<Rightarrow> layout_mode \<Rightarrow> canvas_node list"
  and autoLayoutGraphInner :: "locale_order \<Rightarrow> canvas_node list \<Rightarrow> canvas_edge list \<Rightarrow> layout_mode \<Rightarrow> canvas_node list" where
  "autoLayoutGraph cmp ns es mode =
     (if length ns \<le> 1 then ns
      else
        let pinned = filter is_pinned ns; unpinned = filter (\<lambda>n. \<not> is_pinned n) ns
        in if filter (\<lambda>n. parentId n = None) unpinned = [] then ns
           else autoLayoutGraphInner cmp unpinned es mode @ pinned)"
| "autoLayoutGraphInner cmp ns es mode =
     (if length ns \<le> 1 then ns
      else
        let groupIds = dedupe (map node_id (filter (\<lambda>n. node_type n = Some ''group'') ns));
            processed = fold (\<lambda>gid acc.
              let children = filter (\<lambda>n. parentId n = Some gid) acc
              in if children = [] then acc
                 else
                   let laid = autoLayoutGraph cmp children es LAuto;
                       acc' = map (\<lambda>n. if node_id n \<in> node_id ` set children
                         then (case find (\<lambda>lc. node_id lc = node_id n) laid of Some lc \<Rightarrow> lc | None \<Rightarrow> n) else n) acc
                   in resize_group gid laid acc') groupIds ns;
            (roots, children) = partitionGrouped processed;
            laidOutRoots = (case (if mode = LAuto then detectLayoutMode roots es else mode) of
                LGrid \<Rightarrow> gridLayout roots | LVertical \<Rightarrow> verticalLayout cmp roots es | _ \<Rightarrow> horizontalLayout cmp roots es)
        in reattachGroupChildren laidOutRoots children)"
  by pat_completeness auto
termination
  by (relation "measure (\<lambda>x. case x of Inl (cmp, ns, es, mode) \<Rightarrow> if filter (\<lambda>n. parentId n = None) ns = [] then 0 else 2
        | Inr (cmp, ns, es, mode) \<Rightarrow> 1)") (auto simp: filter_empty_conv)

declare autoLayoutGraph.simps [simp del] autoLayoutGraphInner.simps [simp del]

end
