(* ===== verification/Canvas_Store.thy ===== *)
theory Canvas_Store
  imports Canvas_Layout Migrations_Early
begin

text \<open>
  The store of the workspace canvas (\<open>canvas/store.ts\<close>): nodes and edges with a bounded history of snapshots, grouping,
  saving to the server or to the browser, loading, and rebuilding a canvas from the messages of a thread. The module
  variables \<open>nodeCounter\<close>, \<open>intentionalClear\<close> and \<open>fitViewTimer\<close> are fields of the state. A snapshot is a deep
  copy, which is the value itself. The keyboard handlers are those of \<open>CanvasView.tsx\<close>.
\<close>

section \<open>State\<close>

type_synonym snapshot = "canvas_node list \<times> canvas_edge list"

record viewport =
  vp_x :: rat
  vp_y :: rat
  vp_zoom :: rat

record canvas_state =
  cv_nodes :: "canvas_node list"
  cv_edges :: "canvas_edge list"
  cv_viewport :: viewport
  cv_history :: "snapshot list"
  historyIndex :: int
  fitViewTrigger :: nat
  highlightedTurnId :: "string option"
  pendingBranchNodeId :: "string option"
  cv_layoutMode :: layout_mode
  isUserInteracting :: bool
  nodeCounter :: nat
  intentionalClear :: bool
  fitViewTimer :: bool

definition MAX_HISTORY :: nat where "MAX_HISTORY = 50"

definition INFINITE_CANVAS_KEY :: string where "INFINITE_CANVAS_KEY = ''__infinite__''"

definition default_viewport :: viewport where "default_viewport = \<lparr>vp_x = 100, vp_y = 50, vp_zoom = 8 / 10\<rparr>"

definition initial_canvas :: canvas_state where
  "initial_canvas = \<lparr>cv_nodes = [], cv_edges = [], cv_viewport = default_viewport, cv_history = [], historyIndex = -1, fitViewTrigger = 0,
     highlightedTurnId = None, pendingBranchNodeId = None, cv_layoutMode = LAuto, isUserInteracting = False, nodeCounter = 0,
     intentionalClear = False, fitViewTimer = False\<rparr>"

section \<open>Identifiers\<close>

definition node_name :: "nat \<Rightarrow> string" where "node_name k = ''node_'' @ show_nat k"

definition nextNodeId :: "canvas_state \<Rightarrow> string \<times> canvas_state" where
  "nextNodeId s = (node_name (nodeCounter s), s\<lparr>nodeCounter := Suc (nodeCounter s)\<rparr>)"

text \<open>The number that \<open>/^node_(\d+)$/\<close> finds in an id.\<close>

definition id_number :: "string \<Rightarrow> string \<Rightarrow> nat option" where
  "id_number pre v =
     (let ds = drop (length pre) v
      in if take (length pre) v = pre \<and> ds \<noteq> [] \<and> list_all is_digit ds then Some (digits_value ds) else None)"

definition sync_count :: "string \<Rightarrow> string \<Rightarrow> nat \<Rightarrow> nat" where
  "sync_count pre v c = (case id_number pre v of Some k \<Rightarrow> max c (k + 1) | None \<Rightarrow> c)"

definition syncCounter :: "canvas_node list \<Rightarrow> canvas_state \<Rightarrow> canvas_state" where
  "syncCounter ns s = s\<lparr>nodeCounter := fold (\<lambda>n. sync_count ''node_'' (node_id n)) ns (nodeCounter s)\<rparr>"

section \<open>Mutations\<close>

definition deferredFitView :: "canvas_state \<Rightarrow> canvas_state" where
  "deferredFitView s = s\<lparr>fitViewTimer := True\<rparr>"

definition triggerFitView :: "canvas_state \<Rightarrow> canvas_state" where
  "triggerFitView s = s\<lparr>fitViewTrigger := Suc (fitViewTrigger s)\<rparr>"

text \<open>The timeout of \<open>deferredFitView\<close>.\<close>

definition fit_view_fires :: "canvas_state \<Rightarrow> canvas_state" where
  "fit_view_fires s = (if isUserInteracting s then s else triggerFitView s)\<lparr>fitViewTimer := False\<rparr>"

text \<open>\<open>{ ...data, ...patch }\<close>\<close>

definition merge_data :: "stored \<Rightarrow> (string \<times> stored) list \<Rightarrow> stored" where
  "merge_data d patch = SObj (fold (\<lambda>(k, v). AList.update k v) patch (own_props d))"

definition addNode :: "string option \<Rightarrow> canvas_node \<Rightarrow> canvas_state \<Rightarrow> string \<times> canvas_state" where
  "addNode given spec s =
     (let (i, s1) = (case given of Some i \<Rightarrow> (i, s) | None \<Rightarrow> nextNodeId s)
      in (i, s1\<lparr>cv_nodes := cv_nodes s1 @ [spec\<lparr>node_id := i, node_data := SObj (own_props (node_data spec))\<rparr>]\<rparr>))"

definition updateNode :: "string \<Rightarrow> (string \<times> stored) list \<Rightarrow> canvas_state \<Rightarrow> canvas_state" where
  "updateNode i patch s =
     s\<lparr>cv_nodes := map (\<lambda>n. if node_id n = i then n\<lparr>node_data := merge_data (node_data n) patch\<rparr> else n) (cv_nodes s)\<rparr>"

definition is_locked :: "canvas_node \<Rightarrow> bool" where
  "is_locked n \<longleftrightarrow> truthy (getp ''locked'' (node_data n))"

definition drop_nodes :: "string set \<Rightarrow> canvas_state \<Rightarrow> canvas_state" where
  "drop_nodes ids s = s\<lparr>cv_nodes := filter (\<lambda>n. node_id n \<notin> ids) (cv_nodes s),
     cv_edges := filter (\<lambda>e. edge_source e \<notin> ids \<and> edge_target e \<notin> ids) (cv_edges s)\<rparr>"

definition removeNode :: "string \<Rightarrow> canvas_state \<Rightarrow> canvas_state" where
  "removeNode i s =
     (case find (\<lambda>n. node_id n = i) (cv_nodes s) of
        Some n \<Rightarrow> if is_locked n then s else drop_nodes {i} s
      | None \<Rightarrow> drop_nodes {i} s)"

definition removeNodes :: "string list \<Rightarrow> canvas_state \<Rightarrow> canvas_state" where
  "removeNodes ids s =
     (let deletable = node_id ` set (filter (\<lambda>n. node_id n \<in> set ids \<and> \<not> is_locked n) (cv_nodes s))
      in if deletable = {} then s else drop_nodes deletable s)"

definition removeEdges :: "string list \<Rightarrow> canvas_state \<Rightarrow> canvas_state" where
  "removeEdges ids s = s\<lparr>cv_edges := filter (\<lambda>e. edge_id e \<notin> set ids) (cv_edges s)\<rparr>"

definition addEdge :: "canvas_edge \<Rightarrow> canvas_state \<Rightarrow> canvas_state" where
  "addEdge e s = (if \<exists>x \<in> set (cv_edges s). edge_id x = edge_id e then s else s\<lparr>cv_edges := cv_edges s @ [e]\<rparr>)"

definition togglePinNode :: "string \<Rightarrow> canvas_state \<Rightarrow> canvas_state" where
  "togglePinNode i s = s\<lparr>cv_nodes := map (\<lambda>n. if node_id n = i
     then n\<lparr>node_data := merge_data (node_data n) [(''pinned'', SBool (\<not> truthy (getp ''pinned'' (node_data n))))]\<rparr> else n) (cv_nodes s)\<rparr>"

definition set_collapsed :: "bool \<Rightarrow> string \<Rightarrow> canvas_state \<Rightarrow> canvas_state" where
  "set_collapsed c gid s = s\<lparr>cv_nodes := map (\<lambda>n.
     if node_id n = gid then n\<lparr>node_data := merge_data (node_data n) [(''collapsed'', SBool c)]\<rparr>
     else if parentId n = Some gid then n\<lparr>node_hidden := Some c\<rparr> else n) (cv_nodes s)\<rparr>"

definition collapseGroup :: "string \<Rightarrow> canvas_state \<Rightarrow> canvas_state" where
  "collapseGroup gid s = set_collapsed True gid s"

definition expandGroup :: "string \<Rightarrow> canvas_state \<Rightarrow> canvas_state" where
  "expandGroup gid s = set_collapsed False gid s"

section \<open>Groups\<close>

definition release_child :: "canvas_node \<Rightarrow> canvas_node \<Rightarrow> canvas_node" where
  "release_child g n = n\<lparr>parentId := None, extentParent := False, node_hidden := Some False,
     node_pos := (node_x n + node_x g, node_y n + node_y g)\<rparr>"

definition ungroupNodes :: "string \<Rightarrow> canvas_state \<Rightarrow> canvas_state" where
  "ungroupNodes gid s =
     (case find (\<lambda>n. node_id n = gid) (cv_nodes s) of
        None \<Rightarrow> s
      | Some g \<Rightarrow>
          s\<lparr>cv_nodes := map (\<lambda>n. if parentId n = Some gid then release_child g n else n) (filter (\<lambda>n. node_id n \<noteq> gid) (cv_nodes s)),
            cv_edges := filter (\<lambda>e. edge_source e \<noteq> gid \<and> edge_target e \<noteq> gid) (cv_edges s)\<rparr>)"

text \<open>\<open>n.measured?.width || d\<close>\<close>

definition nonzero_or :: "rat option \<Rightarrow> rat \<Rightarrow> rat" where
  "nonzero_or x d = (case x of None \<Rightarrow> d | Some v \<Rightarrow> if v = 0 then d else v)"

definition drawn_width :: "canvas_node \<Rightarrow> rat" where
  "drawn_width n = nonzero_or (case measured n of Some (w, _) \<Rightarrow> w | None \<Rightarrow> None) 280"

definition drawn_height :: "canvas_node \<Rightarrow> rat" where
  "drawn_height n = nonzero_or (case measured n of Some (_, h) \<Rightarrow> h | None \<Rightarrow> None) 160"

definition group_label :: "string option \<Rightarrow> nat \<Rightarrow> string" where
  "group_label l k = (case l of Some s \<Rightarrow> if s = [] then ''Group ('' @ show_nat k @ '')'' else s | None \<Rightarrow> ''Group ('' @ show_nat k @ '')'')"

text \<open>The left and upper edge of a group around some nodes.\<close>

definition group_corner :: "canvas_node list \<Rightarrow> rat \<times> rat" where
  "group_corner targets = (Min (node_x ` set targets) - 20, Min (node_y ` set targets) - 40)"

definition group_node :: "string \<Rightarrow> string option \<Rightarrow> canvas_node list \<Rightarrow> canvas_node" where
  "group_node gid l targets =
     (let minX = Min (node_x ` set targets); minY = Min (node_y ` set targets);
          maxX = Max ((\<lambda>n. node_x n + drawn_width n) ` set targets); maxY = Max ((\<lambda>n. node_y n + drawn_height n) ` set targets)
      in \<lparr>node_id = gid, node_type = Some ''group'', node_pos = group_corner targets, parentId = None, extentParent = False,
          node_hidden = None, measured = None, node_width = None, node_height = None,
          node_style = SObj [(''width'', SNum (maxX - minX + 20 * 2)), (''height'', SNum (maxY - minY + 40 + 20))],
          node_data = SObj [(''nodeType'', SStr ''group''), (''label'', SStr (group_label l (length targets))), (''status'', SStr ''done'')]\<rparr>)"

definition adopt_child :: "string \<Rightarrow> rat \<times> rat \<Rightarrow> canvas_node \<Rightarrow> canvas_node" where
  "adopt_child gid corner n = n\<lparr>parentId := Some gid, extentParent := True, node_pos := (node_x n - fst corner, node_y n - snd corner)\<rparr>"

text \<open>The empty string stands for no group.\<close>

definition groupNodes :: "string list \<Rightarrow> string option \<Rightarrow> canvas_state \<Rightarrow> string \<times> canvas_state" where
  "groupNodes ids l s =
     (if length ids < 2 then ([], s)
      else
        let parents = dedupe (List.map_filter parentId (filter (\<lambda>n. node_id n \<in> set ids) (cv_nodes s)));
            s2 = fold ungroupNodes parents s;
            targets = filter (\<lambda>n. node_id n \<in> set ids) (cv_nodes s2)
        in if length targets < 2 then ([], s2)
           else
             let (gid, s3) = nextNodeId (syncCounter (cv_nodes s) s2);
                 corner = group_corner targets
             in (gid, s3\<lparr>cv_nodes := group_node gid l targets #
                    map (\<lambda>n. if node_id n \<in> set ids then adopt_child gid corner n else n) (cv_nodes s3)\<rparr>))"

datatype alignment = AlignLeft | AlignRight | AlignTop | AlignBottom | AlignCenterV | AlignCenterH

definition alignNodes :: "string list \<Rightarrow> alignment \<Rightarrow> canvas_state \<Rightarrow> canvas_state" where
  "alignNodes ids al s =
     (let targets = filter (\<lambda>n. node_id n \<in> set ids) (cv_nodes s)
      in if length targets < 2 then s
         else
           let minX = Min (node_x ` set targets); minY = Min (node_y ` set targets);
               maxX = Max ((\<lambda>n. node_x n + drawn_width n) ` set targets); maxY = Max ((\<lambda>n. node_y n + drawn_height n) ` set targets);
               pos = (\<lambda>n. case al of
                   AlignLeft \<Rightarrow> (minX, node_y n) | AlignRight \<Rightarrow> (maxX - drawn_width n, node_y n)
                 | AlignTop \<Rightarrow> (node_x n, minY) | AlignBottom \<Rightarrow> (node_x n, maxY - drawn_height n)
                 | AlignCenterH \<Rightarrow> ((minX + maxX) / 2 - drawn_width n / 2, node_y n)
                 | AlignCenterV \<Rightarrow> (node_x n, (minY + maxY) / 2 - drawn_height n / 2))
           in s\<lparr>cv_nodes := map (\<lambda>n. if node_id n \<in> set ids then n\<lparr>node_pos := pos n\<rparr> else n) (cv_nodes s)\<rparr>)"

section \<open>History\<close>

definition pushHistory :: "snapshot \<Rightarrow> canvas_state \<Rightarrow> canvas_state" where
  "pushHistory snap s =
     (let h = take (nat (historyIndex s + 1)) (cv_history s) @ [snap];
          h' = (if length h > MAX_HISTORY then tl h else h)
      in s\<lparr>cv_history := h', historyIndex := int (length h') - 1\<rparr>)"

definition commitHistory :: "canvas_state \<Rightarrow> canvas_state" where
  "commitHistory s =
     (let snap = (cv_nodes s, cv_edges s)
      in if cv_history s = [] then s\<lparr>cv_history := [snap], historyIndex := 0\<rparr> else pushHistory snap s)"

definition canUndo :: "canvas_state \<Rightarrow> bool" where "canUndo s \<longleftrightarrow> historyIndex s > 0"

definition canRedo :: "canvas_state \<Rightarrow> bool" where "canRedo s \<longleftrightarrow> historyIndex s < int (length (cv_history s)) - 1"

definition show_snapshot :: "int \<Rightarrow> canvas_state \<Rightarrow> canvas_state" where
  "show_snapshot i s =
     (case js_at (cv_history s) i of
        None \<Rightarrow> s
      | Some (ns, es) \<Rightarrow> s\<lparr>cv_nodes := ns, cv_edges := es, historyIndex := i\<rparr>)"

definition undo_canvas :: "canvas_state \<Rightarrow> canvas_state" where
  "undo_canvas s = (if historyIndex s \<le> 0 then s else show_snapshot (historyIndex s - 1) s)"

definition redo_canvas :: "canvas_state \<Rightarrow> canvas_state" where
  "redo_canvas s = (if historyIndex s \<ge> int (length (cv_history s)) - 1 then s else show_snapshot (historyIndex s + 1) s)"

definition resetCanvas :: "canvas_state \<Rightarrow> canvas_state" where
  "resetCanvas s = s\<lparr>nodeCounter := 0, intentionalClear := True, cv_nodes := [], cv_edges := [], cv_viewport := default_viewport,
     cv_history := [], historyIndex := -1\<rparr>"

section \<open>Saving and loading\<close>

datatype save_result = SaveSkipped | SaveSent "canvas_node list" "canvas_edge list" viewport | SaveFailed

text \<open>\<open>ok k\<close>: the server accepts the request of attempt \<open>k\<close>.\<close>

definition saveToServer :: "(nat \<Rightarrow> bool) \<Rightarrow> canvas_state \<Rightarrow> save_result \<times> canvas_state" where
  "saveToServer ok s =
     (if cv_nodes s = [] \<and> cv_edges s = [] \<and> \<not> intentionalClear s then (SaveSkipped, s)
      else (if list_ex ok [0..<4] then SaveSent (cv_nodes s) (cv_edges s) (cv_viewport s) else SaveFailed, s\<lparr>intentionalClear := False\<rparr>))"

text \<open>\<open>JSON.parse(JSON.stringify(v))\<close>: undefined properties are dropped, undefined entries are \<open>null\<close>, a date is a string.\<close>

fun json_value :: "stored \<Rightarrow> stored" where
  "json_value (SObj kvs) = SObj (map (\<lambda>(k, v). (k, json_value v)) (filter (\<lambda>(_, v). v \<noteq> SUndef) kvs))"
| "json_value (SArr xs) = SArr (map (\<lambda>v. if v = SUndef then SNull else json_value v) xs)"
| "json_value (SDate d) = SStr d"
| "json_value v = v"

definition json_node :: "canvas_node \<Rightarrow> canvas_node" where
  "json_node n = n\<lparr>node_style := json_value (node_style n), node_data := json_value (node_data n)\<rparr>"

text \<open>\<open>localStorage\<close>: the canvases by thread; \<open>fits\<close> is false when the quota is exceeded.\<close>

type_synonym local_store = "(string \<times> (canvas_node list \<times> canvas_edge list \<times> viewport)) list"

definition saveToLocalStorage :: "bool \<Rightarrow> string \<Rightarrow> canvas_state \<Rightarrow> local_store \<Rightarrow> local_store" where
  "saveToLocalStorage fits thread s ls =
     (if fits then AList.update thread (map json_node (cv_nodes s), cv_edges s, cv_viewport s) ls else ls)"

definition loadFromLocalStorage :: "string \<Rightarrow> local_store \<Rightarrow> canvas_state \<Rightarrow> bool \<times> canvas_state" where
  "loadFromLocalStorage thread ls s =
     (case map_of ls thread of
        None \<Rightarrow> (False, s)
      | Some (ns, es, vp) \<Rightarrow>
          if ns = [] then (False, s)
          else (True, (syncCounter ns s)\<lparr>cv_nodes := ns, cv_edges := es, cv_viewport := vp\<rparr>))"

text \<open>The entry that \<open>resetCanvas\<close> removes; \<open>thread\<close> is what the location's hash names.\<close>

definition reset_local :: "string option \<Rightarrow> local_store \<Rightarrow> local_store" where
  "reset_local thread ls = AList.delete (case thread of Some t \<Rightarrow> t | None \<Rightarrow> INFINITE_CANVAS_KEY) ls"

definition clearForLoad :: "canvas_state \<Rightarrow> canvas_state" where
  "clearForLoad s = s\<lparr>nodeCounter := 0, cv_nodes := [], cv_edges := [], cv_viewport := default_viewport, cv_history := [], historyIndex := -1\<rparr>"

subsection \<open>What is kept of a saved canvas (\<open>persistence.ts\<close>)\<close>

definition hasMediaUrl :: "canvas_node \<Rightarrow> bool" where
  "hasMediaUrl n =
     (if node_type n \<notin> Some ` {''image'', ''video'', ''audio''} then True
      else case getp ''mediaUrl'' (node_data n) of SStr u \<Rightarrow> js_trim u \<noteq> [] | _ \<Rightarrow> False)"

text \<open>A type that is absent or empty is falsy; an absent id is the empty string.\<close>

definition unusable :: "canvas_node \<Rightarrow> bool" where
  "unusable n \<longleftrightarrow> node_id n = [] \<or> node_type n = None \<or> node_type n = Some [] \<or> \<not> hasMediaUrl n"

definition settle_status :: "canvas_node \<Rightarrow> canvas_node" where
  "settle_status n =
     (if getp ''status'' (node_data n) = SStr ''running''
      then let d = put ''status'' (SStr ''done'') (node_data n)
           in n\<lparr>node_data := (if truthy (getp ''endTime'' d) then d else put ''endTime'' (getp ''startTime'' d) d)\<rparr>
      else n)"

definition sanitizeLoadedCanvas :: "canvas_node list \<Rightarrow> canvas_edge list \<Rightarrow> canvas_node list \<times> canvas_edge list" where
  "sanitizeLoadedCanvas rawNodes rawEdges =
     (let removedIds = node_id ` set (filter unusable rawNodes); ns = map settle_status rawNodes
      in if removedIds = {} then (ns, rawEdges)
         else (filter (\<lambda>n. node_id n \<notin> removedIds) ns,
               filter (\<lambda>e. edge_source e \<notin> removedIds \<and> edge_target e \<notin> removedIds) rawEdges))"

text \<open>The response of \<open>canvas/load\<close>; \<open>None\<close> when the request fails.\<close>

definition loadFromServer :: "(canvas_node list \<times> canvas_edge list \<times> viewport option) option \<Rightarrow> canvas_state \<Rightarrow> js_error option \<times> canvas_state" where
  "loadFromServer response s0 =
     (let s = s0\<lparr>intentionalClear := False\<rparr>
      in case response of
           None \<Rightarrow> (Some (Thrown ''canvas/load''), s)
         | Some (rawNodes, rawEdges, vp) \<Rightarrow>
             (case sanitizeLoadedCanvas rawNodes rawEdges of
                (loadedNodes, loadedEdges) \<Rightarrow>
                  if loadedNodes = [] \<and> cv_nodes s \<noteq> [] then (None, s)
                  else
                    let finalNodes = loadedNodes @ filter (\<lambda>n. node_id n \<notin> node_id ` set loadedNodes) (cv_nodes s);
                        finalEdges = loadedEdges @ filter (\<lambda>e. edge_id e \<notin> edge_id ` set loadedEdges) (cv_edges s)
                    in (None, deferredFitView ((syncCounter finalNodes s)\<lparr>cv_nodes := finalNodes, cv_edges := finalEdges,
                          cv_viewport := (case vp of Some v \<Rightarrow> v | None \<Rightarrow> default_viewport), cv_history := [], historyIndex := -1\<rparr>))))"

section \<open>Rebuilding from the messages of a thread\<close>

record artifact =
  art_type :: string
  art_url :: string
  art_name :: "string option"

record history_item =
  role :: string
  hi_content :: string
  tool_name :: "string option"
  hi_artifacts :: "artifact list option"
  created_at :: string

record turn =
  turn_user :: history_item
  turn_tools :: "history_item list"
  turn_assistant :: "history_item option"

text \<open>The loop that groups the items; the state is \<open>turns\<close> and \<open>current\<close>.\<close>

definition group_item :: "history_item \<Rightarrow> turn list \<times> turn option \<Rightarrow> turn list \<times> turn option" where
  "group_item i st =
     (case st of (turns, current) \<Rightarrow>
        if role i = ''user''
        then (turns @ (case current of Some t \<Rightarrow> [t] | None \<Rightarrow> []), Some \<lparr>turn_user = i, turn_tools = [], turn_assistant = None\<rparr>)
        else case current of
               None \<Rightarrow> (turns, None)
             | Some t \<Rightarrow>
                 (turns, Some (if role i = ''assistant'' then t\<lparr>turn_assistant := Some i\<rparr>
                               else if role i = ''tool'' then t\<lparr>turn_tools := turn_tools t @ [i]\<rparr> else t)))"

definition turns_of :: "history_item list \<Rightarrow> turn list" where
  "turns_of is = (case fold group_item is ([], None) of (turns, current) \<Rightarrow> turns @ (case current of Some t \<Rightarrow> [t] | None \<Rightarrow> []))"

text \<open>\<open>new Date(created_at).getTime() || Date.now()\<close>, with the parser of dates as a parameter.\<close>

definition time_or_now :: "(string \<Rightarrow> rat option) \<Rightarrow> rat \<Rightarrow> string \<Rightarrow> rat" where
  "time_or_now parseDate nowMs d = nonzero_or (parseDate d) nowMs"

record rebuild =
  rb_nodes :: "canvas_node list"
  rb_edges :: "canvas_edge list"
  nodeIdx :: nat
  edgeIdx :: nat
  lastMainId :: "string option"

definition plain_node :: "string \<Rightarrow> string \<Rightarrow> rat \<times> rat \<Rightarrow> (string \<times> stored) list \<Rightarrow> canvas_node" where
  "plain_node i t pos d = \<lparr>node_id = i, node_type = Some t, node_pos = pos, parentId = None, extentParent = False, node_hidden = None,
     measured = None, node_width = None, node_height = None, node_style = SUndef, node_data = SObj d\<rparr>"

definition rebuild_node :: "string \<Rightarrow> (string \<times> stored) list \<Rightarrow> rebuild \<Rightarrow> string \<times> rebuild" where
  "rebuild_node t d r =
     (let i = node_name (nodeIdx r) in (i, r\<lparr>rb_nodes := rb_nodes r @ [plain_node i t (0, 0) d], nodeIdx := Suc (nodeIdx r)\<rparr>))"

definition edge_name :: "nat \<Rightarrow> string" where "edge_name k = ''edge_'' @ show_nat k"

definition rebuild_edge :: "string \<Rightarrow> string \<Rightarrow> rebuild \<Rightarrow> rebuild" where
  "rebuild_edge a b r =
     r\<lparr>rb_edges := rb_edges r @ [\<lparr>edge_id = edge_name (edgeIdx r), edge_source = a, edge_target = b, edge_type = ''flow''\<rparr>], edgeIdx := Suc (edgeIdx r)\<rparr>"

text \<open>\<open>a || b || c\<close>\<close>

definition first_nonempty :: "string option list \<Rightarrow> string \<Rightarrow> string" where
  "first_nonempty xs d = (case find (\<lambda>x. x \<noteq> None \<and> x \<noteq> Some []) xs of Some (Some s) \<Rightarrow> s | _ \<Rightarrow> d)"

definition rebuild_artifact :: "(string \<Rightarrow> rat) \<Rightarrow> string \<Rightarrow> history_item \<Rightarrow> artifact \<Rightarrow> rebuild \<Rightarrow> rebuild" where
  "rebuild_artifact time parent tool art r =
     (if art_type art \<notin> {''image'', ''video'', ''audio''} then r
      else
        let ts = SNum (time (created_at tool));
            (i, r1) = rebuild_node (art_type art)
              [(''nodeType'', SStr (art_type art)), (''label'', SStr (first_nonempty [art_name art, tool_name tool] (art_type art))),
               (''status'', SStr ''done''), (''mediaType'', SStr (art_type art)), (''mediaUrl'', SStr (art_url art)),
               (''startTime'', ts), (''endTime'', ts)] r
        in rebuild_edge parent i r1)"

definition rebuild_tool :: "(string \<Rightarrow> rat) \<Rightarrow> string \<Rightarrow> history_item \<Rightarrow> rebuild \<Rightarrow> rebuild" where
  "rebuild_tool time parent tool r =
     (case hi_artifacts tool of None \<Rightarrow> r | Some arts \<Rightarrow> fold (rebuild_artifact time parent tool) arts r)"

definition rebuild_turn :: "(string \<Rightarrow> rat) \<Rightarrow> turn \<Rightarrow> rebuild \<Rightarrow> rebuild" where
  "rebuild_turn time t r =
     (let (promptId, r1) = rebuild_node ''prompt''
            [(''nodeType'', SStr ''prompt''), (''label'', SStr ''Prompt''), (''status'', SStr ''done''),
             (''content'', SStr (take 300 (hi_content (turn_user t)))), (''startTime'', SNum (time (created_at (turn_user t))))] r;
          r2 = (case lastMainId r1 of Some m \<Rightarrow> rebuild_edge m promptId r1 | None \<Rightarrow> r1)\<lparr>lastMainId := Some promptId\<rparr>
      in case turn_assistant t of
           None \<Rightarrow> fold (rebuild_tool time promptId) (turn_tools t) r2
         | Some a \<Rightarrow>
             let ts = SNum (time (created_at a));
                 (agentId, r3) = rebuild_node ''agent''
                   [(''nodeType'', SStr ''agent''), (''label'', SStr ''Thinking''), (''status'', SStr ''done''),
                    (''content'', SStr (take 500 (hi_content a))), (''startTime'', ts), (''endTime'', ts)] r2;
                 r4 = (rebuild_edge promptId agentId r3)\<lparr>lastMainId := Some agentId\<rparr>
             in fold (rebuild_tool time agentId) (turn_tools t) r4)"

definition rebuild_graph :: "(string \<Rightarrow> rat) \<Rightarrow> history_item list \<Rightarrow> rebuild" where
  "rebuild_graph time is =
     fold (rebuild_turn time) (turns_of is) \<lparr>rb_nodes = [], rb_edges = [], nodeIdx = 0, edgeIdx = 0, lastMainId = None\<rparr>"

text \<open>The state that \<open>rebuildFromHistory\<close> leaves, and the canvas that it sends to the server.\<close>

definition rebuildFromHistory ::
    "locale_order \<Rightarrow> (string \<Rightarrow> rat) \<Rightarrow> history_item list \<Rightarrow> canvas_state \<Rightarrow> canvas_state \<times> (canvas_node list \<times> canvas_edge list) option" where
  "rebuildFromHistory cmp time is s =
     (let r = rebuild_graph time is
      in if rb_nodes r = [] then (s, None)
         else
           let laidOut = autoLayoutGraph cmp (rb_nodes r) (rb_edges r) LAuto
           in (deferredFitView ((syncCounter laidOut s)\<lparr>cv_nodes := laidOut, cv_edges := rb_edges r, cv_viewport := default_viewport,
                 cv_history := [], historyIndex := -1\<rparr>), Some (laidOut, rb_edges r)))"

section \<open>Keyboard handlers (\<open>CanvasView.tsx\<close>)\<close>

text \<open>Delete: the nodes and edges that are selected are given by their ids.\<close>

definition delete_selected :: "string list \<Rightarrow> string list \<Rightarrow> canvas_state \<Rightarrow> canvas_state" where
  "delete_selected selectedNodes selectedEdges s =
     (let deletable = filter (\<lambda>i. \<exists>n \<in> set (cv_nodes s). node_id n = i \<and> \<not> is_locked n) selectedNodes
      in if deletable = [] \<and> selectedEdges = [] then s
         else
           let s1 = commitHistory s;
               s2 = (if deletable \<noteq> [] then removeNodes deletable s1 else s1)
           in if selectedEdges \<noteq> [] then removeEdges selectedEdges s2 else s2)"

definition auto_layout_key :: "locale_order \<Rightarrow> canvas_state \<Rightarrow> canvas_state" where
  "auto_layout_key cmp s =
     (let s1 = commitHistory s
      in deferredFitView (s1\<lparr>cv_nodes := autoLayoutGraph cmp (cv_nodes s) (cv_edges s) (cv_layoutMode s)\<rparr>))"

definition group_key :: "string list \<Rightarrow> canvas_state \<Rightarrow> canvas_state" where
  "group_key selected s = (if length selected \<ge> 2 then snd (groupNodes selected None (commitHistory s)) else s)"

end
