(* ===== verification/Media_Extract.thy ===== *)
theory Media_Extract
  imports Canvas_Store
begin

text \<open>
  Events of the agent's stream (\<open>web/src/features/rpc/types.ts\<close>), the media that the result of a tool names
  (\<open>media/extractMedia.ts\<close>) and the stable address of a medium (\<open>canvas/mediaCache.ts\<close>). The regular
  expressions are written out as searches: a run of the allowed characters is as long as possible, and the last extension in
  it that fits wins. Text is a list of characters below 256; the types that the sources assert hold.
\<close>

section \<open>Stream events\<close>

record stream_event =
  ev_type :: string
  ev_name :: "string option"
  ev_tool_use_id :: "string option"
  ev_text :: "string option"
  ev_input :: stored
  ev_output :: stored
  ev_is_error :: bool

section \<open>Addresses in text\<close>

definition image_exts :: "string list" where "image_exts = [''png'', ''jpeg'', ''jpg'', ''gif'', ''webp'']"
definition video_exts :: "string list" where "video_exts = [''mp4'', ''webm'']"
definition audio_exts :: "string list" where "audio_exts = [''mp3'', ''wav'', ''ogg'']"

definition quote_char :: "char \<Rightarrow> bool" where "quote_char c \<longleftrightarrow> of_char c \<in> {34, 39 :: nat}"

definition word_char :: "char \<Rightarrow> bool" where
  "word_char c \<longleftrightarrow> (let n = of_char c :: nat in (48 \<le> n \<and> n \<le> 57) \<or> (65 \<le> n \<and> n \<le> 90) \<or> (97 \<le> n \<and> n \<le> 122) \<or> n = 95)"

definition path_char :: "char \<Rightarrow> bool" where "path_char c \<longleftrightarrow> word_char c \<or> c \<in> set ''/._-''"

text \<open>The extension, in lower case, that the text begins with.\<close>

definition ext_at :: "string list \<Rightarrow> string \<Rightarrow> string option" where
  "ext_at exts t = find (\<lambda>e. js_lower (take (length e) t) = e) exts"

text \<open>The last position \<open>p\<close> from 1 to \<open>k\<close> of the run where a dot and an extension follow and \<open>ok\<close> holds of what comes after.\<close>

fun last_ext :: "string list \<Rightarrow> (string \<Rightarrow> bool) \<Rightarrow> string \<Rightarrow> nat \<Rightarrow> (nat \<times> string) option" where
  "last_ext exts ok t 0 = None"
| "last_ext exts ok t (Suc k) =
     (case (if take 1 (drop (Suc k) t) = ''.'' then ext_at exts (drop (Suc (Suc k)) t) else None) of
        Some e \<Rightarrow> if ok (drop (Suc (Suc k) + length e) t) then Some (Suc k, e) else last_ext exts ok t k
      | None \<Rightarrow> last_ext exts ok t k)"

text \<open>The first position where \<open>f\<close> finds a match.\<close>

fun first_match :: "(string \<Rightarrow> 'a option) \<Rightarrow> string \<Rightarrow> 'a option" where
  "first_match f [] = f []"
| "first_match f (c # t) = (case f (c # t) of Some m \<Rightarrow> Some m | None \<Rightarrow> first_match f t)"

text \<open>\<open>/https?:\/\/[^\s"']+\.(png|...)(\?[^\s"']*)?/i\<close>: the address and its extension.\<close>

definition url_at :: "string \<Rightarrow> (string \<times> string) option" where
  "url_at t =
     (let k = (if js_lower (take 8 t) = ''https://'' then 8 else if js_lower (take 7 t) = ''http://'' then 7 else 0);
          run = takeWhile (\<lambda>c. \<not> js_space c \<and> \<not> quote_char c) (drop k t)
      in if k = 0 then None
         else case last_ext (image_exts @ [''svg''] @ video_exts @ audio_exts) (\<lambda>_. True) run (length run) of
                None \<Rightarrow> None
              | Some (p, e) \<Rightarrow>
                  let n = Suc p + length e
                  in Some (take k t @ (if take 1 (drop n run) = ''?'' then run else take n run), e))"

text \<open>\<open>/\/[\w/._-]+\.(png|...)\b/i\<close>\<close>

definition path_at :: "string \<Rightarrow> (string \<times> string) option" where
  "path_at t =
     (let run = takeWhile path_char (drop 1 t)
      in if take 1 t \<noteq> ''/'' then None
         else case last_ext (image_exts @ video_exts @ audio_exts) (\<lambda>r. \<not> (case r of c # _ \<Rightarrow> word_char c | [] \<Rightarrow> False)) run (length run) of
                None \<Rightarrow> None
              | Some (p, e) \<Rightarrow> Some (take 1 t @ take (Suc p + length e) run, e))"

text \<open>\<open>/(?:^|[\s"'=])([\w.][\w./_-]*\/[\w./_-]*\.(png|...))(?:\s|$|["'])/i\<close>: since no character that may follow is one of a
  path, the path is the whole run.\<close>

definition relative_run :: "string \<Rightarrow> (string \<times> string) option" where
  "relative_run t =
     (let run = takeWhile path_char t; rest = drop (length run) t
      in case last_ext (image_exts @ video_exts @ audio_exts) (\<lambda>r. r = []) run (length run) of
           None \<Rightarrow> None
         | Some (p, e) \<Rightarrow>
             if (word_char (hd run) \<or> hd run = CHR ''.'') \<and> CHR ''/'' \<in> set (drop 1 (take p run)) \<and>
                (case rest of c # _ \<Rightarrow> js_space c \<or> quote_char c | [] \<Rightarrow> True)
             then Some (run, e) else None)"

definition relative_at :: "string \<Rightarrow> (string \<times> string) option" where
  "relative_at t = (case t of c # r \<Rightarrow> if js_space c \<or> quote_char c \<or> c = CHR ''='' then relative_run r else None | [] \<Rightarrow> None)"

definition relative_match :: "string \<Rightarrow> (string \<times> string) option" where
  "relative_match t = (case relative_run t of Some m \<Rightarrow> Some m | None \<Rightarrow> first_match relative_at t)"

definition type_of_ext :: "string \<Rightarrow> string" where
  "type_of_ext e = (if e \<in> set video_exts then ''video'' else if e \<in> set audio_exts then ''audio'' else ''image'')"

definition media_in_text :: "string \<Rightarrow> (string \<times> string) option" where
  "media_in_text t =
     (case first_match url_at t of
        Some (u, e) \<Rightarrow> Some (type_of_ext e, u)
      | None \<Rightarrow>
          (case first_match path_at t of
             Some (p, e) \<Rightarrow> Some (type_of_ext e, ''/api/files'' @ p)
           | None \<Rightarrow> (case relative_match t of Some (p, e) \<Rightarrow> Some (type_of_ext e, ''/api/files/'' @ p) | None \<Rightarrow> None)))"

section \<open>The media of a result\<close>

text \<open>\<open>a ?? b\<close>, and a value read as a string.\<close>

definition coalesce :: "stored \<Rightarrow> stored \<Rightarrow> stored" where
  "coalesce a b = (if a \<in> {SUndef, SNull} then b else a)"

fun text_of :: "stored \<Rightarrow> string" where
  "text_of (SStr t) = t"
| "text_of _ = []"

definition starts_with :: "string \<Rightarrow> string \<Rightarrow> bool" where "starts_with p t \<longleftrightarrow> take (length p) t = p"

definition media_of_file :: "stored \<Rightarrow> (string \<times> string) option" where
  "media_of_file d =
     (let mime = text_of (getp ''media_type'' d);
          path = (if truthy (getp ''absolute_path'' d) then text_of (getp ''absolute_path'' d) else text_of (getp ''path'' d));
          t = (if starts_with ''video/'' mime then ''video'' else if starts_with ''audio/'' mime then ''audio'' else ''image'')
      in if truthy (getp ''media_type'' d) \<and> (truthy (getp ''absolute_path'' d) \<or> truthy (getp ''path'' d))
         then Some (t, if starts_with ''/'' path then ''/api/files'' @ path else ''/api/files/'' @ path)
         else None)"

text \<open>The type and the address.\<close>

definition extractMedia :: "stream_event \<Rightarrow> (string \<times> string) option" where
  "extractMedia evt =
     (let out = ev_output evt;
          metadata = getp ''metadata'' out;
          structured = getp ''structured'' metadata;
          mediaType = coalesce (getp ''media_type'' structured) (getp ''media_type'' out);
          mediaUrl = coalesce (getp ''media_url'' structured) (getp ''media_url'' out)
      in if \<not> isRecord out then None
         else if truthy mediaType \<and> truthy mediaUrl then Some (text_of mediaType, text_of mediaUrl)
         else case media_of_file (getp ''data'' metadata) of
                Some m \<Rightarrow> Some m
              | None \<Rightarrow> if truthy (getp ''output'' out) then media_in_text (text_of (getp ''output'' out)) else None)"

section \<open>Stable addresses\<close>

definition isRemoteMediaUrl :: "string \<Rightarrow> bool" where
  "isRemoteMediaUrl u \<longleftrightarrow> js_lower (take 7 u) = ''http://'' \<or> js_lower (take 8 u) = ''https://'' \<or> js_lower (take 5 u) = ''data:''"

record cached_media =
  cm_url :: string
  cm_path :: "string option"
  cm_source :: "string option"

definition filled :: "stored \<Rightarrow> string option" where
  "filled v = (case v of SStr t \<Rightarrow> if js_trim t \<noteq> [] then Some t else None | _ \<Rightarrow> None)"

text \<open>\<open>answer\<close> is what the call \<open>media/cache\<close> gives: \<open>None\<close> when there is no client, \<open>Some None\<close> when the call fails.\<close>

definition cacheCanvasMedia :: "stored option option \<Rightarrow> string \<Rightarrow> cached_media" where
  "cacheCanvasMedia answer rawUrl =
     (let trimmed = js_trim rawUrl;
          source = (if isRemoteMediaUrl trimmed then Some trimmed else None)
      in if trimmed = [] then \<lparr>cm_url = trimmed, cm_path = None, cm_source = None\<rparr>
         else case answer of
                Some (Some res) \<Rightarrow>
                  \<lparr>cm_url = (case filled (getp ''url'' res) of Some u \<Rightarrow> u | None \<Rightarrow> trimmed),
                   cm_path = filled (getp ''path'' res),
                   cm_source = (case filled (getp ''source_url'' res) of Some u \<Rightarrow> Some u | None \<Rightarrow> source)\<rparr>
              | _ \<Rightarrow> \<lparr>cm_url = trimmed, cm_path = None, cm_source = source\<rparr>)"

text \<open>\<open>answer\<close> is what \<open>media/data_url\<close> gives.\<close>

definition resolveCanvasReferenceUrl :: "stored option option \<Rightarrow> stored \<Rightarrow> string" where
  "resolveCanvasReferenceUrl answer d =
     (let data_url = (case (filled (getp ''mediaPath'' d), answer) of
                        (Some _, Some (Some res)) \<Rightarrow> filled (getp ''data_url'' res)
                      | _ \<Rightarrow> None)
      in case data_url of
           Some u \<Rightarrow> js_trim u
         | None \<Rightarrow>
             (case filled (getp ''sourceUrl'' d) of
                Some u \<Rightarrow> js_trim u
              | None \<Rightarrow> (case filled (getp ''mediaUrl'' d) of Some u \<Rightarrow> js_trim u | None \<Rightarrow> [])))"

section \<open>What is found is there\<close>

lemma first_match_sound: "first_match f t = Some m \<Longrightarrow> \<exists>i \<le> length t. f (drop i t) = Some m"
proof (induction f t rule: first_match.induct)
  case (2 f c t)
  show ?case
  proof (cases "f (c # t)")
    case None
    with 2 obtain i where "i \<le> length t" "f (drop i t) = Some m" by auto
    then show ?thesis by (intro exI [of _ "Suc i"]) simp
  next
    case (Some m')
    with 2 show ?thesis by (intro exI [of _ 0]) simp
  qed
qed auto

lemma prefix_of_run: "w = take n (takeWhile P (drop k t)) \<Longrightarrow> \<exists>b. t = take k t @ w @ b"
  by (metis append.assoc append_take_drop_id takeWhile_dropWhile_id)

lemma lower_char: "(let n = of_char c :: nat in if 65 \<le> n \<and> n \<le> 90 then char_of (n + 32) else c) = d \<Longrightarrow> of_char d < (97 :: nat) \<Longrightarrow> c = d"
  by (auto simp: Let_def of_char_of split: if_splits)

lemma lower_slash: "CHR ''/'' \<in> set (js_lower t) \<Longrightarrow> CHR ''/'' \<in> set t"
  by (auto simp: js_lower_def dest!: lower_char [OF sym])

lemma url_at_sound: "url_at t = Some (u, e) \<Longrightarrow> CHR ''/'' \<in> set u \<and> (\<exists>b. t = u @ b)"
proof -
  assume m: "url_at t = Some (u, e)"
  define k where "k = (if js_lower (take 8 t) = ''https://'' then 8 else if js_lower (take 7 t) = ''http://'' then 7 else 0 :: nat)"
  define run where "run = takeWhile (\<lambda>c. \<not> js_space c \<and> \<not> quote_char c) (drop k t)"
  have "js_lower (take k t) = ''https://'' \<or> js_lower (take k t) = ''http://''" using m by (auto simp: url_at_def k_def Let_def split: if_splits)
  then have "CHR ''/'' \<in> set (js_lower (take k t))" by auto
  then have "CHR ''/'' \<in> set (take k t)" by (rule lower_slash)
  moreover have "\<exists>n. u = take k t @ take n run"
  proof -
    have "u = take k t @ run \<or> (\<exists>n. u = take k t @ take n run)"
      using m unfolding url_at_def k_def [symmetric] Let_def run_def [symmetric] by (auto split: if_splits option.splits)
    then show ?thesis by (metis order_refl take_all)
  qed
  ultimately show ?thesis using prefix_of_run [OF refl, of t k] by (auto simp: run_def)
qed

lemma path_at_sound: "path_at t = Some (u, e) \<Longrightarrow> CHR ''/'' \<in> set u \<and> (\<exists>b. t = u @ b)"
  using prefix_of_run [OF refl, of t 1] by (auto simp: path_at_def Let_def simp del: take_Suc split: if_splits option.splits)

lemma relative_run_sound: "relative_run t = Some (u, e) \<Longrightarrow> CHR ''/'' \<in> set u \<and> (\<exists>b. t = u @ b)"
proof -
  assume m: "relative_run t = Some (u, e)"
  then have "u = takeWhile path_char t" by (auto simp: relative_run_def Let_def split: if_splits option.splits)
  moreover have "\<exists>p. CHR ''/'' \<in> set (drop 1 (take p u))" using m calculation
    by (auto simp: relative_run_def Let_def split: if_splits option.splits)
  ultimately show ?thesis by (metis in_set_dropD in_set_takeD takeWhile_dropWhile_id)
qed

lemma relative_match_sound: "relative_match t = Some (u, e) \<Longrightarrow> CHR ''/'' \<in> set u \<and> (\<exists>a b. t = a @ u @ b)"
proof (cases "relative_run t")
  case None
  assume "relative_match t = Some (u, e)"
  with None obtain i where i: "relative_at (drop i t) = Some (u, e)" using first_match_sound by (force simp: relative_match_def)
  then obtain c r where r: "drop i t = c # r" "relative_run r = Some (u, e)"
    by (auto simp: relative_at_def split: list.splits if_splits)
  then have "t = (take i t @ [c]) @ r" by (metis append.assoc append_Cons append_Nil append_take_drop_id)
  then show ?thesis using relative_run_sound [OF r(2)] by (metis append.assoc)
next
  case (Some m)
  assume "relative_match t = Some (u, e)"
  then show ?thesis using Some relative_run_sound [of t u e] by (auto simp: relative_match_def intro: exI [of _ "[]"])
qed

lemma first_match_within:
  assumes "first_match f t = Some (u, e)" "\<And>t. f t = Some (u, e) \<Longrightarrow> CHR ''/'' \<in> set u \<and> (\<exists>b. t = u @ b)"
  shows "CHR ''/'' \<in> set u \<and> (\<exists>a b. t = a @ u @ b)"
proof -
  from first_match_sound [OF assms(1)] obtain i where "f (drop i t) = Some (u, e)" by blast
  then show ?thesis using assms(2) by (metis append_take_drop_id)
qed

text \<open>An address of a medium that is found in the output of a tool is a part of that output, or the server's path of one,
  and the part has a slash: a file name alone, as in a listing of a directory, is not taken for a medium. The type of what is
  found is one that the canvas shows.\<close>

theorem media_in_text_sound:
  assumes "media_in_text t = Some (ty, u)"
  shows "\<exists>w a b. t = a @ w @ b \<and> CHR ''/'' \<in> set w \<and> u \<in> {w, ''/api/files'' @ w, ''/api/files/'' @ w} \<and> ty \<in> {''image'', ''video'', ''audio''}"
proof -
  consider (url) w e where "first_match url_at t = Some (w, e)" "ty = type_of_ext e" "u = w"
    | (path) w e where "first_match path_at t = Some (w, e)" "ty = type_of_ext e" "u = ''/api/files'' @ w"
    | (rel) w e where "relative_match t = Some (w, e)" "ty = type_of_ext e" "u = ''/api/files/'' @ w"
    using assms by (auto simp: media_in_text_def split: option.splits prod.splits)
  then obtain w e where "CHR ''/'' \<in> set w \<and> (\<exists>a b. t = a @ w @ b)" "ty = type_of_ext e" "u \<in> {w, ''/api/files'' @ w, ''/api/files/'' @ w}"
  proof cases
    case url
    show thesis by (rule that [OF first_match_within [OF url(1) url_at_sound] url(2)]) (simp_all add: url(3))
  next
    case path
    show thesis by (rule that [OF first_match_within [OF path(1) path_at_sound] path(2)]) (simp_all add: path(3))
  next
    case rel
    show thesis by (rule that [OF relative_match_sound [OF rel(1)] rel(2)]) (simp_all add: rel(3))
  qed
  moreover have "type_of_ext e \<in> {''image'', ''video'', ''audio''}" for e by (simp add: type_of_ext_def)
  ultimately show ?thesis by blast
qed

theorem media_in_text_sound_witness:
  "media_in_text ''see /out/a.png'' = Some (''image'', ''/api/files/out/a.png'') \<and> media_in_text ''a.png b.mp4'' = None"
proof -
  have "media_in_text ''a.png b.mp4'' = None"
  proof (rule ccontr)
    assume "media_in_text ''a.png b.mp4'' \<noteq> None"
    then obtain ty u where "media_in_text ''a.png b.mp4'' = Some (ty, u)" by fastforce
    from media_in_text_sound [OF this] obtain w a b where "''a.png b.mp4'' = a @ w @ b" "CHR ''/'' \<in> set w" by blast
    then have "CHR ''/'' \<in> set ''a.png b.mp4''" by (metis Un_iff set_append)
    then show False by simp
  qed
  moreover have "media_in_text ''see /out/a.png'' = Some (''image'', ''/api/files/out/a.png'')" by code_simp
  ultimately show ?thesis by blast
qed

text \<open>The search for relative paths comes after the one for absolute paths, which also fits the tail of a relative path: the
  example of the sources, \<open>output/images/cat.png\<close>, loses its first directory and names another file. Only a name that is
  nothing but an extension reaches the search for relative paths.\<close>

theorem relative_paths_misread:
  "media_in_text ''output/images/cat.png'' = Some (''image'', ''/api/files/images/cat.png'') \<and>
   relative_match ''output/images/cat.png'' = Some (''output/images/cat.png'', ''png'') \<and>
   media_in_text ''output/.png'' = Some (''image'', ''/api/files/output/.png'')"
  by code_simp

end
