(* ===== verification/Canvas_Bridge.thy ===== *)
theory Canvas_Bridge
  imports Media_Extract
begin

text \<open>
  The bridge that turns the agent's stream of events into nodes and edges of the canvas
  (\<open>canvas/SessionCanvasBridge.ts\<close>), and the loading of a thread's canvas around it (\<open>canvas/useCanvasBridge.ts\<close>).
  An operation takes the bridge and the canvas. A timer is a flag and its handler an operation of its own; so is the
  continuation of \<open>stabilizeMediaNode\<close>. \<open>t\<close> is what \<open>Date.now()\<close> returns during the operation and \<open>stringify\<close> stands for
  the printing of an output as JSON. Times in nodes are numbers.
\<close>

section \<open>State\<close>

record bridge =
  agentNodeId :: "string option"
  turnActive :: bool
  toolNodeMap :: "(string \<times> string) list"
  edgeCounter :: nat
  agentContent :: string
  deltaTimer :: bool
  lastNodeId :: "string option"
  childCountAtParent :: "(string \<times> nat) list"
  seenMediaUrls :: "string list"
  toolSeqCounter :: nat
  pendingToolInput :: stored
  nodeMap :: "canvas_node list option"
  nodeMapGeneration :: int
  currentTurnId :: "string option"
  turnNodeIds :: "string list"
  layoutTimer :: bool
  br_loading :: bool
  eventQueue :: "stream_event list"

definition new_bridge :: bridge where
  "new_bridge = \<lparr>agentNodeId = None, turnActive = False, toolNodeMap = [], edgeCounter = 0, agentContent = [], deltaTimer = False,
     lastNodeId = None, childCountAtParent = [], seenMediaUrls = [], toolSeqCounter = 0, pendingToolInput = SUndef, nodeMap = None,
     nodeMapGeneration = -1, currentTurnId = None, turnNodeIds = [], layoutTimer = False, br_loading = False, eventQueue = []\<rparr>"

type_synonym bridged = "bridge \<times> canvas_state"

definition ALWAYS_SHOW_TOOLS :: "string list" where
  "ALWAYS_SHOW_TOOLS = [''generate_image'', ''edit_image'', ''generate_video'', ''edit_video'', ''text_to_speech'', ''design_voice'', ''transcribe_audio'']"

definition MEDIA_REF_KEYS :: "string list" where
  "MEDIA_REF_KEYS = [''reference_image'', ''image_url'', ''video_url'', ''reference_video'']"

definition H_GAP :: rat where "H_GAP = 320"
definition V_GAP :: rat where "V_GAP = 160"
definition MAX_SEEN_MEDIA :: nat where "MAX_SEEN_MEDIA = 500"

definition bridge_reset :: "bridge \<Rightarrow> bridge" where
  "bridge_reset b = b\<lparr>agentNodeId := None, turnActive := False, toolNodeMap := [], agentContent := [], deltaTimer := False,
     layoutTimer := False, lastNodeId := None, childCountAtParent := [], toolSeqCounter := 0, nodeMap := None, nodeMapGeneration := -1,
     br_loading := False, eventQueue := [], currentTurnId := None, turnNodeIds := []\<rparr>"

definition hardReset :: "bridge \<Rightarrow> bridge" where
  "hardReset b = (bridge_reset b)\<lparr>edgeCounter := 0, seenMediaUrls := []\<rparr>"

section \<open>Labels\<close>

text \<open>The ASCII marks that end a sentence; the full-width ones of the code are not among the 8-bit characters of a string here.\<close>

definition sentence_end :: "char \<Rightarrow> bool" where "sentence_end c \<longleftrightarrow> c \<in> set ''.!?'' \<or> c = CHR 0x0A"

text \<open>The last index below \<open>k\<close> whose character satisfies \<open>P\<close>, or -1.\<close>

fun last_index :: "(char \<Rightarrow> bool) \<Rightarrow> string \<Rightarrow> nat \<Rightarrow> int" where
  "last_index P t 0 = -1"
| "last_index P t (Suc k) = (if k < length t \<and> P (t ! k) then int k else last_index P t k)"

definition truncateLabel :: "string \<Rightarrow> nat \<Rightarrow> string" where
  "truncateLabel t m =
     (if length t \<le> m then t
      else
        let lastPunct = last_index sentence_end t m; lastSpace = last_index (\<lambda>c. c = CHR '' '') t (Suc m)
        in if of_int lastPunct > of_nat m * (4 / 10 :: rat) then take (nat lastPunct + 1) t
           else if of_int lastSpace > of_nat m * (4 / 10 :: rat) then take (nat lastSpace) t @ ''...''
           else take m t @ ''...'')"

text \<open>\<open>None\<close> when the prompt is a value without \<open>split\<close>, where the code throws.\<close>

definition generateNodeLabel :: "string \<Rightarrow> stored \<Rightarrow> string option" where
  "generateNodeLabel toolName input =
     (let raw = coalesce (getp ''prompt'' input) (getp ''text'' input)
      in if \<not> truthy raw then Some toolName
         else case raw of
                SStr r \<Rightarrow>
                  let first = js_trim (takeWhile (\<lambda>c. \<not> sentence_end c) r);
                      truncated = take 30 r;
                      lastSpace = last_index (\<lambda>c. c = CHR '' '') truncated (length truncated)
                  in Some (if 0 < length first \<and> length first \<le> 30 then first
                           else if length r \<le> 30 then r
                           else (if lastSpace > 10 then take (nat lastSpace) truncated else truncated) @ ''...'')
              | _ \<Rightarrow> None)"

section \<open>Nodes and edges\<close>

definition nextPosition :: "string option \<Rightarrow> bridged \<Rightarrow> (rat \<times> rat) \<times> bridge" where
  "nextPosition parent st =
     (case st of (b, s) \<Rightarrow>
        case parent of
          None \<Rightarrow> ((0, 0), b)
        | Some p \<Rightarrow>
            let b1 = (if nodeMap b = None \<or> nodeMapGeneration b \<noteq> int (length (cv_nodes s))
                      then b\<lparr>nodeMap := Some (cv_nodes s), nodeMapGeneration := int (length (cv_nodes s))\<rparr> else b)
            in case node_by_id (the (nodeMap b1)) p of
                 None \<Rightarrow> ((0, 0), b1)
               | Some n \<Rightarrow>
                   let childIndex = get_or (childCountAtParent b1) p 0
                   in ((node_x n + H_GAP, node_y n + of_nat childIndex * V_GAP),
                       b1\<lparr>childCountAtParent := AList.update p (Suc childIndex) (childCountAtParent b1)\<rparr>))"

definition bridge_edge :: "string \<Rightarrow> string \<Rightarrow> string \<Rightarrow> bridged \<Rightarrow> bridged" where
  "bridge_edge ty src tgt st =
     (case st of (b, s) \<Rightarrow>
        (b\<lparr>edgeCounter := Suc (edgeCounter b)\<rparr>,
         addEdge \<lparr>edge_id = edge_name (edgeCounter b), edge_source = src, edge_target = tgt, edge_type = ty\<rparr> s))"

text \<open>\<open>if (parent) this.addEdge(parent, id)\<close>\<close>

definition edge_from :: "string option \<Rightarrow> string \<Rightarrow> bridged \<Rightarrow> bridged" where
  "edge_from parent i st = (case parent of None \<Rightarrow> st | Some p \<Rightarrow> bridge_edge ''flow'' p i st)"

definition scheduleLayout :: "bridged \<Rightarrow> bridged" where
  "scheduleLayout st = (fst st\<lparr>layoutTimer := True\<rparr>, snd st)"

definition layout_timer_fires :: "bridged \<Rightarrow> bridged" where
  "layout_timer_fires st =
     (case st of (b, s) \<Rightarrow>
        (b\<lparr>layoutTimer := False\<rparr>, if cv_nodes s = [] \<or> isUserInteracting s then s else triggerFitView s))"

definition turn_field :: "bridge \<Rightarrow> string \<times> stored" where
  "turn_field b = (''turnId'', case currentTurnId b of Some i \<Rightarrow> if i = [] then SUndef else SStr i | None \<Rightarrow> SUndef)"

text \<open>The steps that most events share: a new node after a parent, which becomes the last one.\<close>

definition new_node :: "string \<Rightarrow> rat \<times> rat \<Rightarrow> (string \<times> stored) list \<Rightarrow> bridged \<Rightarrow> string \<times> bridged" where
  "new_node ty pos d st =
     (case st of (b, s) \<Rightarrow> case addNode None (plain_node [] ty pos (d @ [turn_field b])) s of (i, s1) \<Rightarrow> (i, (b, s1)))"

text \<open>\<open>a < b\<close> on strings.\<close>

fun str_less :: "string \<Rightarrow> string \<Rightarrow> bool" where
  "str_less _ [] = False"
| "str_less [] (_ # _) = True"
| "str_less (c # x) (d # y) = ((of_char c :: nat) < of_char d \<or> (c = d \<and> str_less x y))"

definition restoreLastNode :: "bridged \<Rightarrow> bridged" where
  "restoreLastNode st =
     (case st of (b, s) \<Rightarrow>
        case cv_nodes s of
          [] \<Rightarrow> st
        | n0 # _ \<Rightarrow>
            let counter = fold (\<lambda>e. sync_count ''edge_'' (edge_id e)) (cv_edges s) (edgeCounter b);
                time = (\<lambda>n. let e = getNumberValue (getp ''endTime'' (node_data n)) 0
                            in if e \<noteq> 0 then e else getNumberValue (getp ''startTime'' (node_data n)) 0);
                later = (\<lambda>n (best, bestTime).
                   if time n > bestTime \<or> (time n = bestTime \<and> str_less (node_id best) (node_id n))
                   then (n, time n) else (best, bestTime))
            in (b\<lparr>edgeCounter := counter, lastNodeId := Some (node_id (fst (fold later (cv_nodes s) (n0, 0))))\<rparr>, s))"

definition addPrompt :: "rat \<Rightarrow> string \<Rightarrow> string option \<Rightarrow> bridged \<Rightarrow> string \<times> bridged" where
  "addPrompt t txt parentNode st0 =
     (let st = (if lastNodeId (fst st0) = None \<and> cv_nodes (snd st0) \<noteq> [] then restoreLastNode st0 else st0);
          prevLastNode = (case parentNode of Some p \<Rightarrow> if p = [] then lastNodeId (fst st) else Some p | None \<Rightarrow> lastNodeId (fst st));
          (i, st1) = new_node ''prompt'' (0, 0) [(''nodeType'', SStr ''prompt''), (''label'', SStr ''Prompt''), (''status'', SStr ''done''),
             (''content'', SStr txt), (''startTime'', SNum t)] st;
          (b, s) = edge_from prevLastNode i st1
      in (i, (b\<lparr>lastNodeId := Some i, turnNodeIds := [i]\<rparr>, s)))"

definition setCurrentTurnId :: "string \<Rightarrow> bridged \<Rightarrow> bridged" where
  "setCurrentTurnId tid st =
     (case st of (b, s) \<Rightarrow> (b\<lparr>currentTurnId := Some tid\<rparr>, fold (\<lambda>i. updateNode i [(''turnId'', SStr tid)]) (turnNodeIds b) s))"

section \<open>Tools\<close>

definition agent_or_last :: "bridge \<Rightarrow> string option" where
  "agent_or_last b = (case agentNodeId b of Some a \<Rightarrow> Some a | None \<Rightarrow> lastNodeId b)"

text \<open>\<open>None\<close> when the label throws; the position has been reserved then.\<close>

definition createToolNode :: "rat \<Rightarrow> string \<Rightarrow> string \<Rightarrow> bridged \<Rightarrow> string option \<times> bridged" where
  "createToolNode t toolId name st =
     (case st of (b, s) \<Rightarrow>
        let parent = agent_or_last b; (pos, b1) = nextPosition parent (b, s)
        in case generateNodeLabel name (pendingToolInput b1) of
             None \<Rightarrow> (None, (b1, s))
           | Some l \<Rightarrow>
               let (i, (b2, s2)) = new_node ''tool'' pos [(''nodeType'', SStr ''tool''), (''label'', SStr l), (''toolName'', SStr name),
                     (''toolParams'', pendingToolInput b1), (''status'', SStr ''running''), (''startTime'', SNum t)] (b1, s);
                   (b3, s3) = edge_from parent i (b2\<lparr>pendingToolInput := SUndef, toolNodeMap := AList.update toolId i (toolNodeMap b2),
                                turnNodeIds := turnNodeIds b2 @ [i]\<rparr>, s2)
               in (Some i, (b3\<lparr>lastNodeId := Some i\<rparr>, s3)))"

fun nonempty_texts :: "stored list \<Rightarrow> string list" where
  "nonempty_texts [] = []"
| "nonempty_texts (v # vs) = (case v of SStr u \<Rightarrow> if u = [] then [] else [u] | _ \<Rightarrow> []) @ nonempty_texts vs"

definition ref_urls :: "stored \<Rightarrow> string list" where
  "ref_urls input = nonempty_texts (map (\<lambda>k. getp k input) MEDIA_REF_KEYS @ items (getp ''reference_images'' input))"

definition reference_type :: "bridge \<Rightarrow> stored \<Rightarrow> string" where
  "reference_type b d =
     (if truthy (getp ''turnId'' d) \<and> (case currentTurnId b of Some i \<Rightarrow> i \<noteq> [] \<and> getp ''turnId'' d \<noteq> SStr i | None \<Rightarrow> False)
      then ''context'' else ''reference'')"

definition refers :: "string list \<Rightarrow> canvas_node \<Rightarrow> bool" where
  "refers urls n \<longleftrightarrow>
     truthy (getp ''mediaUrl'' (node_data n)) \<and>
     (getp ''mediaUrl'' (node_data n) \<in> SStr ` set urls \<or> getp ''sourceUrl'' (node_data n) \<in> SStr ` set urls)"

definition linkMediaReferences :: "string \<Rightarrow> stored \<Rightarrow> bridged \<Rightarrow> bridged" where
  "linkMediaReferences tool input st =
     (if \<not> truthy input then st
      else fold (\<lambda>n st'. bridge_edge (reference_type (fst st) (node_data n)) (node_id n) tool st')
             (filter (refers (ref_urls input)) (cv_nodes (snd st))) st)"

section \<open>Media\<close>

definition remember_url :: "string \<Rightarrow> bridge \<Rightarrow> bridge" where
  "remember_url u b =
     (let seen = seenMediaUrls b @ [u] in b\<lparr>seenMediaUrls := (if length seen > MAX_SEEN_MEDIA then tl seen else seen)\<rparr>)"

definition media_node_type :: "string \<Rightarrow> string" where
  "media_node_type ty = (if ty = ''video'' then ''video'' else if ty = ''audio'' then ''audio'' else ''image'')"

definition media_label :: "string \<Rightarrow> string" where
  "media_label ty = (if ty = ''video'' then ''Video'' else if ty = ''audio'' then ''Audio'' else ''Image'')"

definition upgrade_node :: "rat \<Rightarrow> string \<Rightarrow> string \<Rightarrow> canvas_node \<Rightarrow> canvas_node" where
  "upgrade_node t ty u n = n\<lparr>node_type := Some (media_node_type ty), node_data := merge_data (node_data n)
     [(''nodeType'', SStr (media_node_type ty)), (''mediaType'', SStr ty), (''mediaUrl'', SStr u), (''status'', SStr ''done''), (''endTime'', SNum t)]\<rparr>"

definition media_result_node :: "rat \<Rightarrow> string \<Rightarrow> string \<Rightarrow> bridged \<Rightarrow> bridged" where
  "media_result_node t ty u st =
     (case st of (b, s) \<Rightarrow>
        let parent = agent_or_last b; (pos, b1) = nextPosition parent (b, s);
            (i, st1) = new_node (media_node_type ty) pos [(''nodeType'', SStr (media_node_type ty)), (''label'', SStr (media_label ty)),
               (''status'', SStr ''done''), (''mediaType'', SStr ty), (''mediaUrl'', SStr u), (''startTime'', SNum t), (''endTime'', SNum t)] (b1, s);
            (b2, s2) = edge_from parent i st1
        in scheduleLayout (b2\<lparr>lastNodeId := Some i, turnNodeIds := turnNodeIds b2 @ [i]\<rparr>, s2))"

text \<open>The rest of \<open>stabilizeMediaNode\<close> once the stable address is known.\<close>

definition stabilizeMediaNode :: "string \<Rightarrow> string \<Rightarrow> cached_media \<Rightarrow> canvas_state \<Rightarrow> canvas_state" where
  "stabilizeMediaNode i rawUrl c s =
     (if cm_url c = [] \<or> cm_url c = rawUrl then s
      else updateNode i [(''mediaUrl'', SStr (cm_url c)), (''mediaPath'', case cm_path c of Some p \<Rightarrow> SStr p | None \<Rightarrow> SUndef),
             (''sourceUrl'', case cm_source c of Some p \<Rightarrow> SStr p | None \<Rightarrow> SUndef)] s)"

section \<open>Events\<close>

definition skill_activation :: "rat \<Rightarrow> stream_event \<Rightarrow> bridged \<Rightarrow> bridged" where
  "skill_activation t evt st =
     (let name = (case ev_name evt of Some n \<Rightarrow> if n = [] then ''Skill'' else n | None \<Rightarrow> ''Skill'');
          d = getp ''description'' (ev_output evt);
          parent = lastNodeId (fst st);
          (pos, b1) = nextPosition parent st;
          (i, st1) = new_node ''skill'' pos [(''nodeType'', SStr ''skill''), (''label'', SStr name), (''status'', SStr ''done''),
             (''content'', if truthy d then d else SStr []), (''startTime'', SNum t)] (b1, snd st);
          (b2, s2) = edge_from parent i st1
      in scheduleLayout (b2\<lparr>lastNodeId := Some i, turnNodeIds := turnNodeIds b2 @ [i]\<rparr>, s2))"

definition content_block_start :: "rat \<Rightarrow> bridged \<Rightarrow> bridged" where
  "content_block_start t st =
     (if agentNodeId (fst st) \<noteq> None \<and> turnActive (fst st) then st
      else
        let parent = lastNodeId (fst st);
            (pos, b1) = nextPosition parent st;
            (i, (b2, s2)) = new_node ''agent'' pos [(''nodeType'', SStr ''agent''), (''label'', SStr ''Thinking''), (''status'', SStr ''running''),
               (''content'', SStr []), (''startTime'', SNum t)] (b1, snd st);
            (b3, s3) = edge_from parent i (b2\<lparr>agentNodeId := Some i, agentContent := [], turnActive := True, turnNodeIds := turnNodeIds b2 @ [i]\<rparr>, s2)
        in scheduleLayout (b3\<lparr>lastNodeId := Some i\<rparr>, s3))"

text \<open>The content of the agent's node.\<close>

definition show_content :: "bridged \<Rightarrow> canvas_state" where
  "show_content st =
     (case agentNodeId (fst st) of
        None \<Rightarrow> snd st
      | Some a \<Rightarrow> updateNode a [(''content'', SStr (agentContent (fst st)))] (snd st))"

definition content_block_delta :: "stream_event \<Rightarrow> bridged \<Rightarrow> bridged" where
  "content_block_delta evt st =
     (case st of (b, s) \<Rightarrow>
        if agentNodeId b = None then st
        else (b\<lparr>agentContent := agentContent b @ (case ev_text evt of Some x \<Rightarrow> x | None \<Rightarrow> []), deltaTimer := True\<rparr>, s))"

definition delta_timer_fires :: "bridged \<Rightarrow> bridged" where
  "delta_timer_fires st = (fst st\<lparr>deltaTimer := False\<rparr>, show_content st)"

definition content_block_stop :: "bridged \<Rightarrow> bridged" where
  "content_block_stop st = (fst st\<lparr>deltaTimer := False\<rparr>, show_content st)"

definition tool_start :: "rat \<Rightarrow> stream_event \<Rightarrow> bridged \<Rightarrow> bridged" where
  "tool_start t evt st =
     (case st of (b0, s) \<Rightarrow>
        let (toolId, b) = (case ev_tool_use_id evt of
               Some i \<Rightarrow> if i = [] then (''tool_'' @ show_nat (Suc (toolSeqCounter b0)) @ ''_'' @ show_nat (nat \<lfloor>t\<rfloor>), b0\<lparr>toolSeqCounter := Suc (toolSeqCounter b0)\<rparr>)
                         else (i, b0)
             | None \<Rightarrow> (''tool_'' @ show_nat (Suc (toolSeqCounter b0)) @ ''_'' @ show_nat (nat \<lfloor>t\<rfloor>), b0\<lparr>toolSeqCounter := Suc (toolSeqCounter b0)\<rparr>));
            name = (case ev_name evt of Some n \<Rightarrow> n | None \<Rightarrow> [])
        in if js_lower name \<in> set ALWAYS_SHOW_TOOLS
           then (case createToolNode t toolId name (b\<lparr>pendingToolInput := ev_input evt\<rparr>, s) of
                   (None, st1) \<Rightarrow> st1
                 | (Some i, st1) \<Rightarrow> scheduleLayout (linkMediaReferences i (ev_input evt) st1))
           else (b\<lparr>pendingToolInput := SUndef\<rparr>, s))"

definition event_tool :: "stream_event \<Rightarrow> string" where
  "event_tool evt = (case ev_tool_use_id evt of Some i \<Rightarrow> i | None \<Rightarrow> [])"

definition tool_output :: "(stored \<Rightarrow> string) \<Rightarrow> stream_event \<Rightarrow> bridged \<Rightarrow> bridged" where
  "tool_output stringify evt st =
     (case st of (b, s) \<Rightarrow>
        case map_of (toolNodeMap b) (event_tool evt) of
          None \<Rightarrow> st
        | Some i \<Rightarrow>
            if ev_output evt \<in> {SUndef, SNull} then st
            else (b, updateNode i [(''content'', SStr (take 500 (case ev_output evt of SStr x \<Rightarrow> x | v \<Rightarrow> stringify v)))] s))"

definition tool_result :: "rat \<Rightarrow> stream_event \<Rightarrow> bridged \<Rightarrow> bridged" where
  "tool_result t evt st =
     (case st of (b0, s) \<Rightarrow>
        let raw = (if ev_is_error evt then None else extractMedia evt);
            media = (case raw of Some (ty, u) \<Rightarrow> if u \<noteq> [] \<and> u \<notin> set (seenMediaUrls b0) then raw else None | None \<Rightarrow> None);
            b = (case media of Some (_, u) \<Rightarrow> remember_url u b0 | None \<Rightarrow> b0)
        in case map_of (toolNodeMap b) (event_tool evt) of
             Some i \<Rightarrow>
               (case media of
                  Some (ty, u) \<Rightarrow> (b, s\<lparr>cv_nodes := map (\<lambda>n. if node_id n = i then upgrade_node t ty u n else n) (cv_nodes s)\<rparr>)
                | None \<Rightarrow> (b, updateNode i [(''status'', SStr (if ev_is_error evt then ''error'' else ''done'')), (''endTime'', SNum t)] s))
           | None \<Rightarrow> (case media of Some (ty, u) \<Rightarrow> media_result_node t ty u (b, s) | None \<Rightarrow> (b, s)))"

definition processEvent :: "(stored \<Rightarrow> string) \<Rightarrow> rat \<Rightarrow> stream_event \<Rightarrow> bridged \<Rightarrow> bridged" where
  "processEvent stringify t evt st =
     (if br_loading (fst st) then (fst st\<lparr>eventQueue := eventQueue (fst st) @ [evt]\<rparr>, snd st)
      else if ev_type evt = ''skill_activation'' then skill_activation t evt st
      else if ev_type evt = ''content_block_start'' then content_block_start t st
      else if ev_type evt = ''content_block_delta'' then content_block_delta evt st
      else if ev_type evt = ''content_block_stop'' then content_block_stop st
      else if ev_type evt = ''tool_execution_start'' then tool_start t evt st
      else if ev_type evt = ''tool_execution_output'' then tool_output stringify evt st
      else if ev_type evt = ''tool_execution_result'' then tool_result t evt st
      else st)"

text \<open>Creating the label of a tool throws when the input has a prompt that is no string; \<open>processEvent\<close> then ends with the state
  reached.\<close>

definition event_throws :: "stream_event \<Rightarrow> bool" where
  "event_throws evt \<longleftrightarrow>
     (let name = (case ev_name evt of Some n \<Rightarrow> n | None \<Rightarrow> [])
      in ev_type evt = ''tool_execution_start'' \<and> js_lower name \<in> set ALWAYS_SHOW_TOOLS \<and> generateNodeLabel name (ev_input evt) = None)"

text \<open>The setter of \<open>loading\<close>: the queued events in order, up to one that throws.\<close>

fun process_queued :: "(stored \<Rightarrow> string) \<Rightarrow> rat \<Rightarrow> stream_event list \<Rightarrow> bridged \<Rightarrow> bridged" where
  "process_queued stringify t [] st = st"
| "process_queued stringify t (evt # evts) st =
     (let st' = processEvent stringify t evt st in if event_throws evt then st' else process_queued stringify t evts st')"

definition setLoading :: "(stored \<Rightarrow> string) \<Rightarrow> rat \<Rightarrow> bool \<Rightarrow> bridged \<Rightarrow> bridged" where
  "setLoading stringify t v st =
     (let b = fst st\<lparr>br_loading := v\<rparr>
      in if v then (b, snd st) else process_queued stringify t (eventQueue b) (b\<lparr>eventQueue := []\<rparr>, snd st))"

section \<open>The end of a turn\<close>

definition linkParentGroups :: "string \<Rightarrow> bridged \<Rightarrow> bridged" where
  "linkParentGroups gid st =
     (let ns = cv_nodes (snd st); es = cv_edges (snd st);
          childIds = node_id ` set (filter (\<lambda>n. parentId n = Some gid) ns);
          linked = dedupe (List.map_filter (\<lambda>e.
             if edge_target e \<notin> childIds then None
             else case node_by_id ns (edge_source e) of
                    None \<Rightarrow> None
                  | Some n \<Rightarrow> if parentId n = Some gid then None else parentId n) es)
      in fold (\<lambda>p st'. if \<exists>e \<in> set es. edge_source e = p \<and> edge_target e = gid then st' else bridge_edge ''flow'' p gid st') linked st)"

definition turn_label :: "bridged \<Rightarrow> string" where
  "turn_label st =
     (let ids = turnNodeIds (fst st);
          c = (case find (\<lambda>n. node_id n = hd ids) (cv_nodes (snd st)) of Some n \<Rightarrow> text_of (getp ''content'' (node_data n)) | None \<Rightarrow> [])
      in if c \<noteq> [] then truncateLabel c 30 else ''Turn ('' @ show_nat (length ids) @ '')'')"

definition group_turn :: "bridged \<Rightarrow> bridged" where
  "group_turn st =
     (case st of (b, s) \<Rightarrow>
        if length (turnNodeIds b) \<ge> 2
        then case groupNodes (turnNodeIds b) (Some (turn_label st)) s of
               (gid, s1) \<Rightarrow> if gid = [] then (b, s1) else linkParentGroups gid (b, s1)
        else st)"

definition finish_agent :: "rat \<Rightarrow> bridged \<Rightarrow> bridged" where
  "finish_agent t st =
     (case st of (b, s) \<Rightarrow>
        (b\<lparr>layoutTimer := False, turnActive := False\<rparr>,
         case agentNodeId b of Some a \<Rightarrow> updateNode a [(''status'', SStr ''done''), (''endTime'', SNum t)] s | None \<Rightarrow> s))"

definition finalize :: "locale_order \<Rightarrow> rat \<Rightarrow> bridged \<Rightarrow> bridged" where
  "finalize cmp t st =
     (case group_turn (finish_agent t st) of
        (b, s) \<Rightarrow>
          if cv_nodes s = [] then (b, s)
          else (b, deferredFitView (commitHistory (s\<lparr>cv_nodes := autoLayoutGraph cmp (cv_nodes s) (cv_edges s) (cv_layoutMode s)\<rparr>))))"

section \<open>Loading a thread (\<open>useCanvasBridge.ts\<close>)\<close>

text \<open>What happens when the thread changes, before an answer arrives.\<close>

definition begin_load :: "bridged \<Rightarrow> bridged" where
  "begin_load st = ((bridge_reset (fst st))\<lparr>br_loading := True\<rparr>, clearForLoad (snd st))"

text \<open>Without a thread: the canvas of the browser.\<close>

definition load_infinite :: "(stored \<Rightarrow> string) \<Rightarrow> rat \<Rightarrow> local_store \<Rightarrow> bridged \<Rightarrow> bridged" where
  "load_infinite stringify t ls st =
     (case begin_load st of
        (b, s) \<Rightarrow> setLoading stringify t False (restoreLastNode (b, snd (loadFromLocalStorage INFINITE_CANVAS_KEY ls s))))"

text \<open>With a thread: the answers of \<open>canvas/load\<close>, of \<open>thread/history\<close> and of the \<open>canvas/save\<close> after a rebuild; \<open>None\<close> or
  \<open>False\<close> when the request fails.\<close>

record load_answers =
  la_canvas :: "(canvas_node list \<times> canvas_edge list \<times> viewport option) option"
  la_history :: "history_item list option"
  la_saved :: bool

definition fall_back :: "string \<Rightarrow> local_store \<Rightarrow> bridged \<Rightarrow> bridged" where
  "fall_back thread ls st = restoreLastNode (fst st, snd (loadFromLocalStorage thread ls (snd st)))"

definition answer_load ::
    "locale_order \<Rightarrow> (string \<Rightarrow> rat) \<Rightarrow> string \<Rightarrow> local_store \<Rightarrow> load_answers \<Rightarrow> bridged \<Rightarrow> bridged" where
  "answer_load cmp time thread ls ans st =
     (case loadFromServer (la_canvas ans) (snd st) of
        (Some _, s1) \<Rightarrow> fall_back thread ls (fst st, s1)
      | (None, s1) \<Rightarrow>
          let st1 = restoreLastNode (fst st, s1)
          in if cv_nodes s1 \<noteq> [] then st1
             else case la_history ans of
                    None \<Rightarrow> fall_back thread ls st1
                  | Some is \<Rightarrow>
                      (case rebuildFromHistory cmp time is (snd st1) of
                         (s2, sent) \<Rightarrow>
                           if sent \<noteq> None \<and> \<not> la_saved ans then fall_back thread ls (fst st1, s2) else restoreLastNode (fst st1, s2)))"

definition finish_load ::
    "locale_order \<Rightarrow> (stored \<Rightarrow> string) \<Rightarrow> (string \<Rightarrow> rat) \<Rightarrow> rat \<Rightarrow> string \<Rightarrow> local_store \<Rightarrow> load_answers \<Rightarrow> bridged \<Rightarrow> bridged" where
  "finish_load cmp stringify time t thread ls ans st = setLoading stringify t False (answer_load cmp time thread ls ans st)"

text \<open>The end of a turn, with the save that follows: what goes to the server, and to the browser when the server fails.\<close>

definition turn_finished ::
    "locale_order \<Rightarrow> rat \<Rightarrow> (nat \<Rightarrow> bool) \<Rightarrow> bool \<Rightarrow> string \<Rightarrow> local_store \<Rightarrow> bridged \<Rightarrow> save_result \<times> local_store \<times> bridged" where
  "turn_finished cmp t ok fits thread ls st =
     (case finalize cmp t st of
        (b, s) \<Rightarrow>
          (case saveToServer ok s of
             (r, s1) \<Rightarrow> (r, if r = SaveFailed then saveToLocalStorage fits thread s1 ls else ls, (b, s1))))"

text \<open>The canvas that another tab sends.\<close>

definition receive_update :: "canvas_node list \<times> canvas_edge list \<times> viewport \<Rightarrow> canvas_state \<Rightarrow> canvas_state" where
  "receive_update m s = (case m of (ns, es, vp) \<Rightarrow> s\<lparr>cv_nodes := ns, cv_edges := es, cv_viewport := vp\<rparr>)"

end
