(* ===== verification/Canvas_Layout_Proofs.thy ===== *)
theory Canvas_Layout_Proofs
  imports Canvas_Layout
begin

text \<open>
  What the automatic layout of the canvas guarantees: it keeps every node, and nodes it arranges do not overlap.
\<close>

section \<open>Grouping\<close>

lemma mset_update_group:
  "mset (concat (map snd (AList.update k ((case map_of m k of None \<Rightarrow> [] | Some ys \<Rightarrow> ys) @ [x]) m)))
    = add_mset x (mset (concat (map snd m)))"
  by (induction m) (auto split: option.splits)

lemma mset_group_into: "mset (concat (map snd (group_into f m xs))) = mset (concat (map snd m)) + mset xs"
  by (induction f m xs rule: group_into.induct) (simp_all add: mset_update_group)

lemma mset_group_by: "mset (concat (map snd (group_by f xs))) = mset xs"
  by (simp add: group_by_def mset_group_into)

lemma mset_concat_mset_eq: "mset xss = mset yss \<Longrightarrow> mset (concat xss) = mset (concat yss)"
  by (metis mset_concat mset_map sum_mset_sum_list)

lemma mset_concat_map_mset: "map mset xss = map mset yss \<Longrightarrow> mset (concat xss) = mset (concat yss)"
  by (simp add: mset_concat)

lemma map_filter_append [simp]: "List.map_filter f (xs @ ys) = List.map_filter f xs @ List.map_filter f ys"
  by (simp add: List.map_filter_def)

lemma mset_map_filter_cong: "mset xs = mset ys \<Longrightarrow> mset (List.map_filter f xs) = mset (List.map_filter f ys)"
  by (simp add: List.map_filter_def)

section \<open>Looking nodes up\<close>

lemma node_by_id_Some: "node_by_id ns v = Some n \<Longrightarrow> n \<in> set ns \<and> node_id n = v"
  by (auto simp: node_by_id_def dest: find_Some_setD)

lemma node_by_id_in:
  assumes "distinct (map node_id ns)" "n \<in> set ns"
  shows "node_by_id ns (node_id n) = Some n"
proof (cases "node_by_id ns (node_id n)")
  case None
  then show ?thesis using assms(2) by (auto simp: node_by_id_def find_None_iff)
next
  case (Some m)
  then show ?thesis using node_by_id_Some [OF Some] assms by (metis distinct_map inj_onD)
qed

lemma map_filter_ids:
  assumes "distinct (map node_id ns)" "set ms \<subseteq> set ns"
  shows "List.map_filter (node_by_id ns) (map node_id ms) = ms"
  using assms(2) by (induction ms) (auto simp: node_by_id_in [OF assms(1)])

lemma nodes_by_ids:
  assumes "distinct (map node_id ns)" "mset vs = mset (map node_id ns)"
  shows "mset (List.map_filter (node_by_id ns) vs) = mset ns"
  using mset_map_filter_cong [OF assms(2), of "node_by_id ns"] map_filter_ids [OF assms(1) subset_refl] by simp

section \<open>Boxes\<close>

lemma getNodeSize_pos [simp]: "getNodeSize (n\<lparr>node_pos := p\<rparr>) = getNodeSize n"
  by (simp add: getNodeSize_def)

lemma size_positive: "0 < fst (getNodeSize n)" "0 < snd (getNodeSize n)"
proof -
  have "0 < fst (estimated_size t) \<and> 0 < snd (estimated_size t)" for t
    by (auto simp: estimated_size_def split: option.splits if_splits)
  then show "0 < fst (getNodeSize n)" "0 < snd (getNodeSize n)" by (auto simp: getNodeSize_def less_max_iff_disj)
qed

lemma padding_positive: "0 < getLayerPadding w"
  by (simp add: getLayerPadding_def MAX_LAYER_PADDING_def MIN_LAYER_PADDING_def less_max_iff_disj)

abbreviation node_right :: "canvas_node \<Rightarrow> rat" where "node_right n \<equiv> node_x n + fst (getNodeSize n)"
abbreviation node_bottom :: "canvas_node \<Rightarrow> rat" where "node_bottom n \<equiv> node_y n + snd (getNodeSize n)"

text \<open>The boxes of two nodes do not overlap.\<close>

definition boxes_apart :: "canvas_node \<Rightarrow> canvas_node \<Rightarrow> bool" where
  "boxes_apart a b \<longleftrightarrow> node_right a \<le> node_x b \<or> node_right b \<le> node_x a \<or> node_bottom a \<le> node_y b \<or> node_bottom b \<le> node_y a"

definition within_x :: "rat \<Rightarrow> rat \<Rightarrow> canvas_node list \<Rightarrow> bool" where
  "within_x l r ns \<longleftrightarrow> (\<forall>n \<in> set ns. l \<le> node_x n \<and> node_right n \<le> r)"

lemma within_x_mono: "within_x l r ns \<Longrightarrow> l' \<le> l \<Longrightarrow> r \<le> r' \<Longrightarrow> within_x l' r' ns"
  by (fastforce simp: within_x_def)

lemma apart_append:
  assumes "sorted_wrt boxes_apart xs" "sorted_wrt boxes_apart ys" "within_x l m xs" "within_x m' r ys" "m \<le> m'"
  shows "sorted_wrt boxes_apart (xs @ ys)"
  using assms by (fastforce simp: sorted_wrt_append boxes_apart_def within_x_def)

lemma stack_nodes_props:
  "length (stack_nodes x y ns) = length ns
   \<and> (\<forall>n \<in> set (stack_nodes x y ns). node_x n = x \<and> y \<le> node_y n)
   \<and> sorted_wrt boxes_apart (stack_nodes x y ns)"
proof (induction ns arbitrary: y)
  case (Cons n ns)
  let ?y = "y + (snd (getNodeSize n) + ROW_PADDING)"
  have le: "y + snd (getNodeSize n) \<le> ?y" "y \<le> ?y" using size_positive(2) [of n] by (simp_all add: ROW_PADDING_def)
  have "\<forall>m \<in> set (stack_nodes x ?y ns). boxes_apart (n\<lparr>node_pos := (x, y)\<rparr>) m"
    using Cons [of ?y] le by (fastforce simp: boxes_apart_def)
  then show ?case using Cons [of ?y] le by fastforce
qed simp

lemma stack_nodes_sizes: "getNodeSize ` set (stack_nodes x y ns) = getNodeSize ` set ns"
  by (induction ns arbitrary: y) auto

lemma layer_width_ge: "n \<in> set ns \<Longrightarrow> fst (getNodeSize n) \<le> layer_width ns"
  by (auto simp: layer_width_def intro!: Max_ge)

lemma stack_within: "within_x x (x + layer_width ns) (stack_nodes x y ns)"
proof -
  have "\<exists>m \<in> set ns. getNodeSize n = getNodeSize m" if "n \<in> set (stack_nodes x y ns)" for n
    using stack_nodes_sizes [of x y ns] that by (metis imageE imageI)
  then show ?thesis using stack_nodes_props [of x y ns] layer_width_ge [of _ ns] by (fastforce simp: within_x_def)
qed

section \<open>No overlap\<close>

text \<open>After some layers the next one starts right of everything placed, the padding of the last one apart.\<close>

definition layers_placed :: "rat \<Rightarrow> rat \<Rightarrow> canvas_node list \<times> rat \<times> (string \<times> rat) list \<Rightarrow> bool" where
  "layers_placed startX pad st \<longleftrightarrow>
     (case st of (result, curX, _) \<Rightarrow> sorted_wrt boxes_apart result \<and> within_x startX (curX - pad) result \<and> startX \<le> curX - pad)"

lemma place_layer_placed:
  assumes "layers_placed startX pad st" "0 \<le> pad"
  shows "layers_placed startX (getLayerPadding (layer_width (List.map_filter (node_by_id component) ids))) (place_layer component es ids st)"
proof -
  obtain result curX placed where st: "st = (result, curX, placed)" by (cases st) auto
  define ns where "ns = List.map_filter (node_by_id component) ids"
  define y where "y = layer_top component es placed ns"
  have w: "within_x startX (curX - pad) result" "sorted_wrt boxes_apart result" "startX \<le> curX - pad"
    using assms(1) by (simp_all add: st layers_placed_def)
  have lw: "0 \<le> layer_width ns"
  proof (cases ns)
    case (Cons n _)
    then show ?thesis using layer_width_ge [of n ns] size_positive(1) [of n] by simp
  qed (simp add: layer_width_def)
  have s: "within_x curX (curX + layer_width ns) (stack_nodes curX y ns)" by (rule stack_within)
  have "sorted_wrt boxes_apart (result @ stack_nodes curX y ns)"
    by (rule apart_append [OF w(2) _ w(1) s]) (use stack_nodes_props [of curX y ns] assms(2) in auto)
  moreover have "within_x startX (curX + layer_width ns) (result @ stack_nodes curX y ns)"
  proof -
    have "within_x startX (curX + layer_width ns) result" using w lw assms(2) by (auto intro: within_x_mono)
    moreover have "within_x startX (curX + layer_width ns) (stack_nodes curX y ns)"
      using s w(3) assms(2) by (auto intro: within_x_mono)
    ultimately show ?thesis by (auto simp: within_x_def)
  qed
  ultimately show ?thesis
    using w(3) lw assms(2) by (simp add: st layers_placed_def place_layer_def Let_def ns_def [symmetric] y_def [symmetric])
qed

lemma place_layers_placed:
  "layers_placed startX (if layers = [] then 0 else getLayerPadding (layer_width (List.map_filter (node_by_id component) (last layers))))
     (fold (place_layer component es) layers ([], startX, []))"
proof (induction layers rule: rev_induct)
  case Nil
  then show ?case by (simp add: layers_placed_def within_x_def)
next
  case (snoc ids layers)
  have "0 \<le> (if layers = [] then 0 else getLayerPadding (layer_width (List.map_filter (node_by_id component) (last layers))))"
    using padding_positive less_imp_le by auto
  from place_layer_placed [OF snoc.IH this] show ?case by simp
qed

lemma layoutComponent_placed:
  assumes "layoutComponent cmp component es startX = (ns, w)"
  shows "sorted_wrt boxes_apart ns \<and> within_x startX (startX + w) ns \<and> 0 \<le> w"
proof -
  define es' where "es' = filter (\<lambda>e. edge_source e \<in> node_id ` set component \<and> edge_target e \<in> node_id ` set component) es"
  define layers where "layers = reduce_crossings cmp es' (layer_groups component (component_layers cmp component es'))"
  obtain result curX placed where f: "fold (place_layer component es') layers ([], startX, []) = (result, curX, placed)"
    by (metis prod_cases3)
  note pl = place_layers_placed [of startX layers component es', unfolded f]
  show ?thesis
  proof (cases "layers = []")
    case True
    then have "ns = []" "w = 0"
      using assms f padding_positive [of 0]
      by (auto simp: layoutComponent_def Let_def es'_def [symmetric] layers_def [symmetric] max_def split: if_splits)
    then show ?thesis by (simp add: within_x_def)
  next
    case False
    then have "ns = result" "w = curX - startX - getLayerPadding (layer_width (List.map_filter (node_by_id component) (last layers)))"
      using assms f pl
      by (auto simp: layoutComponent_def Let_def es'_def [symmetric] layers_def [symmetric] layers_placed_def)
    moreover from this have "curX - getLayerPadding (layer_width (List.map_filter (node_by_id component) (last layers))) = startX + w" by simp
    ultimately show ?thesis using pl False by (auto simp: layers_placed_def)
  qed
qed

lemma place_components_placed:
  assumes "fold (place_component cmp es) cs ([], x0) = (result, x)"
  shows "sorted_wrt boxes_apart result \<and> within_x x0 x result \<and> x0 \<le> x"
  using assms
proof (induction cs arbitrary: result x rule: rev_induct)
  case Nil
  then show ?case by (simp add: within_x_def)
next
  case (snoc c cs)
  obtain r1 x1 where f: "fold (place_component cmp es) cs ([], x0) = (r1, x1)" by fastforce
  obtain ns w where l: "layoutComponent cmp c es x1 = (ns, w)" by fastforce
  note ih = snoc.IH [OF f] and pl = layoutComponent_placed [OF l]
  have r: "result = r1 @ ns" "x = x1 + (w + COMPONENT_GAP)" using snoc.prems f l by (auto simp: place_component_def [of _ _ c])
  have "sorted_wrt boxes_apart (r1 @ ns)" by (rule apart_append [of _ _ x0 x1 x1 "x1 + w"]) (use ih pl in auto)
  moreover have "within_x x0 x r1" "within_x x0 x ns"
    using within_x_mono [of x0 x1 r1 x0 x] within_x_mono [of x1 "x1 + w" ns x0 x] ih pl r by (simp_all add: COMPONENT_GAP_def)
  ultimately show ?case using ih pl r by (auto simp: within_x_def COMPONENT_GAP_def)
qed

lemma horizontalLayout_apart:
  assumes "fst (partitionGraph cmp ns (getValidEdges ns es)) \<noteq> []"
  shows "sorted_wrt boxes_apart (horizontalLayout cmp ns es)"
proof -
  obtain cs lone where p: "partitionGraph cmp ns (getValidEdges ns es) = (cs, lone)" by fastforce
  define x0 where "x0 = Min ((\<lambda>c. fst (getBounds c)) ` set cs)"
  obtain result x where f: "fold (place_component cmp (getValidEdges ns es)) cs ([], x0) = (result, x)" by fastforce
  note pl = place_components_placed [OF f]
  let ?y = "Min (node_y ` set ns)"
  have "sorted_wrt boxes_apart (result @ stack_nodes (x + ISOLATED_GAP) ?y lone)"
    by (rule apart_append [OF _ _ _ stack_within]) (use pl stack_nodes_props [of "x + ISOLATED_GAP" ?y lone] in \<open>auto simp: ISOLATED_GAP_def\<close>)
  then show ?thesis using assms p f pl by (simp add: horizontalLayout_def Let_def x0_def [symmetric])
qed

section \<open>No node is lost\<close>

text \<open>What the layout does not touch: everything but position and size.\<close>

definition style_rest :: "stored \<Rightarrow> stored" where
  "style_rest v = SObj (filter (\<lambda>(k, _). k \<notin> {''width'', ''height''}) (own_props v))"

lemma style_rest_put [simp]: "k \<in> {''width'', ''height''} \<Longrightarrow> style_rest (put k x v) = style_rest v"
proof -
  assume k: "k \<in> {''width'', ''height''}"
  have "filter (\<lambda>(k, _). k \<notin> {''width'', ''height''}) (AList.update k x al) = filter (\<lambda>(k, _). k \<notin> {''width'', ''height''}) al" for al
    using k by (induction al) auto
  then show ?thesis by (simp add: style_rest_def)
qed

definition content_of :: "canvas_node \<Rightarrow> canvas_node" where
  "content_of n = n\<lparr>node_pos := (0, 0), measured := None, node_width := None, node_height := None, node_style := style_rest (node_style n)\<rparr>"

lemma content_of_pos [simp]: "content_of (n\<lparr>node_pos := p\<rparr>) = content_of n"
  by (simp add: content_of_def)

lemma map_content_stack [simp]: "map content_of (stack_nodes x y ns) = map content_of ns"
  by (induction ns arbitrary: y) auto

lemma visit_component_collects:
  assumes "distinct (map node_id ns)" "set conn \<subseteq> node_id ` set ns" "set stack \<subseteq> set conn"
    and "visit_component ns es conn stack visited found = (found', visited')"
  shows "\<exists>fresh. visited' = visited @ fresh \<and> distinct fresh \<and> set fresh \<subseteq> set conn - set visited
     \<and> mset found' = mset found + mset (List.map_filter (node_by_id ns) (stack @ fresh))"
  using assms
proof (induction ns es conn stack visited found arbitrary: found' visited' rule: visit_component.induct)
  case (2 ns es conn cur stack visited found)
  define new where "new = filter (\<lambda>nb. nb \<in> set conn \<and> nb \<notin> set visited) (neighbours es cur)"
  have new: "distinct new" "set new \<subseteq> set conn - set visited" by (auto simp: new_def neighbours_def)
  obtain n where n: "node_by_id ns cur = Some n"
    using 2(3,4,2) node_by_id_in [OF 2(2)] by fastforce
  have v: "visit_component ns es conn (rev new @ stack) (visited @ new) (found @ (case node_by_id ns cur of None \<Rightarrow> [] | Some n \<Rightarrow> [n]))
      = (found', visited')"
    using 2(5) by (simp add: new_def Let_def)
  have "set (rev new @ stack) \<subseteq> set conn" using 2(4) new by auto
  from 2(1) [OF new_def 2(2,3) this v] n obtain fresh where
    f: "visited' = (visited @ new) @ fresh" "distinct fresh" "set fresh \<subseteq> set conn - set (visited @ new)"
      "mset found' = mset (found @ [n]) + mset (List.map_filter (node_by_id ns) ((rev new @ stack) @ fresh))"
    by auto
  have "mset (List.map_filter (node_by_id ns) ((rev new @ stack) @ fresh)) = mset (List.map_filter (node_by_id ns) (stack @ new @ fresh))"
    by (rule mset_map_filter_cong) simp
  then have "mset found' = mset found + mset (List.map_filter (node_by_id ns) ((cur # stack) @ new @ fresh))"
    using f(4) n by simp
  then show ?case using f new by (intro exI [of _ "new @ fresh"]) auto
qed auto

text \<open>The components found so far are the visited nodes.\<close>

definition collected :: "canvas_node list \<Rightarrow> string list \<Rightarrow> canvas_node list list \<times> string list \<Rightarrow> bool" where
  "collected ns conn st \<longleftrightarrow>
     (case st of (comps, visited) \<Rightarrow> distinct visited \<and> set visited \<subseteq> set conn
        \<and> mset (concat comps) = mset (List.map_filter (node_by_id ns) visited))"

lemma collect_component_collected:
  assumes "distinct (map node_id ns)" "set conn \<subseteq> node_id ` set ns" "v \<in> set conn" "collected ns conn st"
  shows "collected ns conn (collect_component cmp ns es conn v st)
    \<and> insert v (set (snd st)) \<subseteq> set (snd (collect_component cmp ns es conn v st))"
proof -
  obtain comps visited where st: "st = (comps, visited)" by fastforce
  show ?thesis
  proof (cases "v \<in> set visited")
    case False
    obtain found visited' where vc: "visit_component ns es conn [v] (visited @ [v]) [] = (found, visited')" by fastforce
    from visit_component_collects [OF assms(1,2) _ vc] assms(3) obtain fresh where
      f: "visited' = visited @ [v] @ fresh" "distinct fresh" "set fresh \<subseteq> set conn - set (visited @ [v])"
        "mset found = mset (List.map_filter (node_by_id ns) ([v] @ fresh))" by auto
    have "collect_component cmp ns es conn v st = (comps @ [js_sort (sortByPosition cmp) found], visited')"
      using False vc by (simp add: st collect_component_def del: visit_component.simps)
    then show ?thesis using assms(3,4) False f by (auto simp: st collected_def)
  qed (use assms(4) in \<open>simp add: st collect_component_def\<close>)
qed

lemma collect_components:
  assumes "distinct (map node_id ns)" "set conn \<subseteq> node_id ` set ns" "set vs \<subseteq> set conn" "collected ns conn st"
  shows "collected ns conn (fold (collect_component cmp ns es conn) vs st)
    \<and> set vs \<union> set (snd st) \<subseteq> set (snd (fold (collect_component cmp ns es conn) vs st))"
  using assms(3,4)
proof (induction vs arbitrary: st)
  case (Cons v vs)
  from collect_component_collected [OF assms(1,2) _ Cons.prems(2), of v cmp es] Cons.prems(1)
  have c: "collected ns conn (collect_component cmp ns es conn v st)"
      "insert v (set (snd st)) \<subseteq> set (snd (collect_component cmp ns es conn v st))" by auto
  from Cons.IH [OF _ c(1)] Cons.prems(1) c(2) show ?case by fastforce
qed simp

lemma partition_keeps_nodes:
  assumes "distinct (map node_id ns)" "partitionGraph cmp ns es = (comps, lone)"
  shows "mset (concat comps @ lone) = mset ns"
proof -
  define ves where "ves = getValidEdges ns es"
  define P where "P n \<longleftrightarrow> neighbours ves (node_id n) \<noteq> []" for n :: canvas_node
  define conn where "conn = map node_id (filter P ns)"
  define found where "found = fold (collect_component cmp ns ves conn) conn ([], [])"
  have sub: "set conn \<subseteq> node_id ` set ns" by (auto simp: conn_def)
  have c: "collected ns conn found" "set conn \<subseteq> set (snd found)"
    using collect_components [OF assms(1) sub subset_refl, of "([], [])" cmp ves] by (auto simp: found_def collected_def)
  then obtain cs visited where fd: "found = (cs, visited)" "distinct visited" "set visited = set conn"
      "mset (concat cs) = mset (List.map_filter (node_by_id ns) visited)" by (auto simp: collected_def split: prod.splits)
  have d: "distinct conn" using assms(1) by (simp add: conn_def distinct_map_filter)
  have "mset visited = mset conn" using fd(2,3) d by (simp add: set_eq_iff_mset_eq_distinct [symmetric])
  then have "mset (concat cs) = mset (List.map_filter (node_by_id ns) conn)" using fd(4) mset_map_filter_cong by metis
  then have cs: "mset (concat cs) = mset (filter P ns)" using map_filter_ids [OF assms(1), of "filter P ns"] by (simp add: conn_def)
  have "(node_id n \<notin> set conn) = (\<not> P n)" if "n \<in> set ns" for n
    using that assms(1) by (auto simp: conn_def P_def)
  then have "filter (\<lambda>n. node_id n \<notin> set conn) ns = filter (\<lambda>n. \<not> P n) ns" by (auto intro: filter_cong)
  moreover have eq: "partitionGraph cmp ns es
      = (js_sort component_order (fst found), js_sort (sortByPosition cmp) (filter (\<lambda>n. node_id n \<notin> set conn) ns))"
    unfolding partitionGraph_def Let_def found_def conn_def P_def ves_def ..
  ultimately have "mset lone = mset (filter (\<lambda>n. \<not> P n) ns)" "mset comps = mset cs"
    using assms(2) fd(1) eq by auto
  then show ?thesis using mset_concat_mset_eq [of comps cs] cs by (simp add: multiset_partition [of "mset ns" P, symmetric])
qed

lemma collect_component_fst:
  "fst (collect_component cmp ns es conn v st) \<noteq> [] \<longleftrightarrow> fst st \<noteq> [] \<or> v \<notin> set (snd st)"
  by (auto simp: collect_component_def split: prod.splits)

lemma partition_nonempty:
  assumes "e \<in> set (getValidEdges ns es)"
  shows "fst (partitionGraph cmp ns es) \<noteq> []"
proof -
  define ves where "ves = getValidEdges ns es"
  define conn where "conn = map node_id (filter (\<lambda>n. neighbours ves (node_id n) \<noteq> []) ns)"
  have "edge_target e \<in> set (neighbours ves (edge_source e))" using assms by (auto simp: neighbours_def ves_def)
  then have v: "edge_source e \<in> set conn" using assms by (force simp: conn_def getValidEdges_def)
  have keep: "fst (fold (collect_component cmp ns ves conn) vs st) \<noteq> []" if "fst st \<noteq> []" for vs st
    using that by (induction vs arbitrary: st) (auto simp: collect_component_fst)
  obtain u us where "conn = u # us" using v by (cases conn) auto
  then have "fst (fold (collect_component cmp ns ves conn) conn ([], [])) \<noteq> []"
    using keep [of "collect_component cmp ns ves conn u ([], [])" us] by (simp add: collect_component_fst)
  then show ?thesis unfolding partitionGraph_def Let_def conn_def ves_def by simp
qed

lemma layer_groups_keep: "mset (concat (layer_groups component layers)) = mset (map node_id component)"
proof -
  let ?g = "group_by (\<lambda>n. get_or layers (node_id n) 0) component"
  have "concat (layer_groups component layers) = map node_id (concat (map snd (sort_key fst ?g)))"
    by (auto simp: layer_groups_def map_concat intro!: arg_cong [where f = concat])
  moreover have "mset (concat (map snd (sort_key fst ?g))) = mset (concat (map snd ?g))"
    by (rule mset_concat_mset_eq) simp
  ultimately show ?thesis by (simp add: mset_group_by)
qed

lemma reorder_layer_keeps: "map mset (fst (reorder_layer cmp adj i st)) = map mset (fst st)"
proof -
  have "map mset (ls[i := map fst (js_sort c (map (\<lambda>v. (v, f v)) (ls ! i)))]) = map mset ls" for ls :: "string list list" and c f
  proof (cases "i < length ls")
    case True
    have "mset (map fst (js_sort c (map (\<lambda>v. (v, f v)) (ls ! i)))) = mset (ls ! i)"
      by (simp add: multiset.map_comp o_def)
    then show ?thesis using True by (simp add: map_update) (metis list_update_id map_update)
  qed (simp add: list_update_beyond)
  then show ?thesis by (auto simp: reorder_layer_def Let_def split: prod.splits)
qed

lemma reorder_layers_keep: "map mset (fst (fold (reorder_layer cmp adj) is st)) = map mset (fst st)"
  by (induction "is" arbitrary: st) (simp_all add: reorder_layer_keeps)

lemma reduce_crossings_keeps: "map mset (reduce_crossings cmp es layers) = map mset layers"
proof -
  have "map mset (fst (crossing_pass cmp es st)) = map mset (fst st)" for st
    by (simp add: crossing_pass_def Let_def reorder_layers_keep)
  then have "map mset (fst (fold (\<lambda>_. crossing_pass cmp es) xs st)) = map mset (fst st)" for xs :: "nat list" and st
    by (induction xs arbitrary: st) simp_all
  then show ?thesis by (simp add: reduce_crossings_def del: upt_Suc)
qed

lemma place_layers_keep:
  "map content_of (fst (fold (place_layer component es) layers st))
    = map content_of (fst st) @ map content_of (List.map_filter (node_by_id component) (concat layers))"
proof (induction layers arbitrary: st)
  case (Cons ids layers)
  show ?case using Cons [of "place_layer component es ids st"]
    by (simp add: place_layer_def Let_def split: prod.splits)
qed (simp add: List.map_filter_def)

lemma layoutComponent_keeps:
  assumes "distinct (map node_id component)"
  shows "mset (map content_of (fst (layoutComponent cmp component es startX))) = mset (map content_of component)"
proof -
  define es' where "es' = filter (\<lambda>e. edge_source e \<in> node_id ` set component \<and> edge_target e \<in> node_id ` set component) es"
  define layers where "layers = reduce_crossings cmp es' (layer_groups component (component_layers cmp component es'))"
  have "fst (layoutComponent cmp component es startX) = fst (fold (place_layer component es') layers ([], startX, []))"
    by (simp add: layoutComponent_def Let_def es'_def [symmetric] layers_def [symmetric] split: prod.splits)
  then have "map content_of (fst (layoutComponent cmp component es startX))
      = map content_of (List.map_filter (node_by_id component) (concat layers))" by (simp add: place_layers_keep)
  moreover have "mset (concat layers) = mset (map node_id component)"
    using mset_concat_map_mset [OF reduce_crossings_keeps] layer_groups_keep by (metis layers_def)
  then have "mset (List.map_filter (node_by_id component) (concat layers)) = mset component" by (rule nodes_by_ids [OF assms])
  ultimately show ?thesis by (metis mset_map)
qed

lemma place_components_keep:
  assumes "\<forall>c \<in> set cs. distinct (map node_id c)"
  shows "mset (map content_of (fst (fold (place_component cmp es) cs st))) = mset (map content_of (fst st)) + mset (map content_of (concat cs))"
  using assms
proof (induction cs arbitrary: st)
  case (Cons c cs)
  obtain r x where st: "st = (r, x)" by fastforce
  have "fst (place_component cmp es c st) = r @ fst (layoutComponent cmp c es x)" by (simp add: st place_component_def split: prod.splits)
  then show ?case using Cons.IH [of "place_component cmp es c st"] Cons.prems layoutComponent_keeps [of c cmp es x]
    by (simp add: st add.assoc)
qed simp

lemma horizontalLayout_keeps:
  assumes "distinct (map node_id ns)"
  shows "mset (map content_of (horizontalLayout cmp ns es)) = mset (map content_of ns)"
proof -
  obtain cs lone where p: "partitionGraph cmp ns (getValidEdges ns es) = (cs, lone)" by fastforce
  note k = partition_keeps_nodes [OF assms p]
  have "distinct (map node_id (concat cs @ lone))" using k assms by (metis mset_eq_imp_distinct_iff mset_map)
  then have d: "\<forall>c \<in> set cs. distinct (map node_id c)" by (auto simp: map_concat distinct_concat_iff)
  obtain result x where f: "fold (place_component cmp (getValidEdges ns es)) cs ([], Min ((\<lambda>c. fst (getBounds c)) ` set cs)) = (result, x)"
    by fastforce
  have r: "mset (map content_of result) = mset (map content_of (concat cs))"
    using place_components_keep [OF d, of cmp "getValidEdges ns es" "([], Min ((\<lambda>c. fst (getBounds c)) ` set cs))"] f by simp
  have "mset (map content_of (concat cs @ lone)) = mset (map content_of ns)" using k by (metis mset_map)
  then show ?thesis using p f r by (auto simp: horizontalLayout_def Let_def simp flip: mset_map)
qed

lemma gridLayout_keeps: "map content_of (gridLayout ns) = map content_of ns"
proof -
  have "map (content_of \<circ> (\<lambda>(i, n). n\<lparr>node_pos := f i\<rparr>)) (List.enumerate k ns) = map content_of ns" for f k
    by (induction ns arbitrary: k) auto
  then show ?thesis by (simp add: gridLayout_def Let_def)
qed

lemma verticalLayout_keeps: "map content_of (verticalLayout cmp ns es) = map content_of (horizontalLayout cmp ns es)"
  by (simp add: verticalLayout_def Let_def o_def split: prod.splits)

section \<open>The automatic layout\<close>

text \<open>The recursive call gets the children of a group, none of which is a root: it returns them as they are.\<close>

lemma autoLayoutGraph_children:
  assumes "\<forall>n \<in> set ns. parentId n \<noteq> None"
  shows "autoLayoutGraph cmp ns es mode = ns"
  using assms by (subst autoLayoutGraph.simps) (auto simp: filter_empty_conv)

text \<open>So the pass over the groups moves the children of each as a whole and fits the group around them.\<close>

definition fit_groups :: "string list \<Rightarrow> canvas_node list \<Rightarrow> canvas_node list" where
  "fit_groups gids ns =
     fold (\<lambda>gid acc. let children = filter (\<lambda>n. parentId n = Some gid) acc in if children = [] then acc else resize_group gid children acc) gids ns"

lemma resize_group_frame:
  "map content_of (resize_group gid laid ns) = map content_of ns \<and> map node_id (resize_group gid laid ns) = map node_id ns
   \<and> map parentId (resize_group gid laid ns) = map parentId ns"
  by (auto simp: resize_group_def content_of_def Let_def split: prod.splits)

lemma fit_groups_frame:
  "map content_of (fit_groups gids ns) = map content_of ns \<and> map node_id (fit_groups gids ns) = map node_id ns
   \<and> map parentId (fit_groups gids ns) = map parentId ns"
proof (induction gids arbitrary: ns)
  case (Cons gid gids)
  show ?case
    using Cons [of ns] Cons [of "resize_group gid (filter (\<lambda>n. parentId n = Some gid) ns) ns"]
      resize_group_frame [of gid "filter (\<lambda>n. parentId n = Some gid) ns" ns]
    by (simp add: fit_groups_def Let_def)
qed (simp add: fit_groups_def)

lemma content_of_eqD: "content_of m = content_of n \<Longrightarrow> parentId m = parentId n \<and> node_data m = node_data n"
  by (cases m; cases n) (simp add: content_of_def)

lemma root_ids:
  assumes "partitionGrouped (fit_groups gids ns) = (roots, children)" "x \<in> set ns" "parentId x = None"
  shows "node_id x \<in> node_id ` set roots"
proof -
  let ?ps = "fit_groups gids ns"
  from assms(2) obtain i where "i < length ns" "ns ! i = x" by (auto simp: in_set_conv_nth)
  then have i: "i < length ?ps" "node_id (?ps ! i) = node_id x" "parentId (?ps ! i) = None"
    using fit_groups_frame [of gids ns] assms(3) by (metis length_map nth_map)+
  then have "?ps ! i \<in> set roots" using assms(1) by (auto simp: partitionGrouped_def)
  then show ?thesis using i(2) by (metis imageI)
qed

lemma replace_by_itself:
  assumes "distinct (map node_id ns)"
  shows "map (\<lambda>n. if node_id n \<in> node_id ` set (filter P ns)
      then (case find (\<lambda>lc. node_id lc = node_id n) (filter P ns) of Some lc \<Rightarrow> lc | None \<Rightarrow> n) else n) ns = ns"
proof (rule map_idI)
  fix n assume n: "n \<in> set ns"
  have "lc = n" if "find (\<lambda>lc. node_id lc = node_id n) (filter P ns) = Some lc" for lc
    using find_Some_setD [OF that] n assms by (auto dest: inj_onD simp: distinct_map)
  then show "(if node_id n \<in> node_id ` set (filter P ns)
      then (case find (\<lambda>lc. node_id lc = node_id n) (filter P ns) of Some lc \<Rightarrow> lc | None \<Rightarrow> n) else n) = n"
    by (auto split: option.splits)
qed

lemma group_pass:
  assumes "distinct (map node_id ns)"
  shows "fold (\<lambda>gid acc.
      let children = filter (\<lambda>n. parentId n = Some gid) acc
      in if children = [] then acc
         else
           let laid = autoLayoutGraph cmp children es LAuto;
               acc' = map (\<lambda>n. if node_id n \<in> node_id ` set children
                 then (case find (\<lambda>lc. node_id lc = node_id n) laid of Some lc \<Rightarrow> lc | None \<Rightarrow> n) else n) acc
           in resize_group gid laid acc') gids ns = fit_groups gids ns"
  using assms
proof (induction gids arbitrary: ns)
  case (Cons gid gids)
  let ?children = "filter (\<lambda>n. parentId n = Some gid) ns"
  have laid: "autoLayoutGraph cmp ?children es LAuto = ?children" by (rule autoLayoutGraph_children) auto
  have "distinct (map node_id (resize_group gid ?children ns))" using Cons.prems resize_group_frame by metis
  then show ?case using Cons.IH [of ns] Cons.IH [of "resize_group gid ?children ns"] Cons.prems
    by (simp add: fit_groups_def Let_def laid replace_by_itself [OF Cons.prems] del: set_filter)
qed (simp add: fit_groups_def)

definition layout_roots :: "locale_order \<Rightarrow> canvas_node list \<Rightarrow> canvas_edge list \<Rightarrow> layout_mode \<Rightarrow> canvas_node list" where
  "layout_roots cmp roots es mode =
     (case (if mode = LAuto then detectLayoutMode roots es else mode) of
        LGrid \<Rightarrow> gridLayout roots | LVertical \<Rightarrow> verticalLayout cmp roots es | _ \<Rightarrow> horizontalLayout cmp roots es)"

lemma inner_eq:
  assumes "distinct (map node_id ns)" "1 < length ns"
  shows "autoLayoutGraphInner cmp ns es mode =
    (let processed = fit_groups (dedupe (map node_id (filter (\<lambda>n. node_type n = Some ''group'') ns))) ns;
         (roots, children) = partitionGrouped processed
     in layout_roots cmp roots es mode @ concat (map snd children))"
  using assms(2) unfolding autoLayoutGraphInner.simps [of cmp ns] group_pass [OF assms(1)]
  by (simp add: Let_def layout_roots_def reattachGroupChildren_def split: prod.splits)

lemma layout_roots_keeps:
  assumes "distinct (map node_id roots)"
  shows "mset (map content_of (layout_roots cmp roots es mode)) = mset (map content_of roots)"
  unfolding layout_roots_def
  by (split layout_mode.split) (simp only: gridLayout_keeps verticalLayout_keeps horizontalLayout_keeps [OF assms] simp_thms)

lemma partitionGrouped_keeps:
  "partitionGrouped ns = (roots, children) \<Longrightarrow> mset (roots @ concat (map snd children)) = mset ns"
  using multiset_partition [of "mset ns" "\<lambda>n. parentId n = None"] by (auto simp: partitionGrouped_def mset_group_by)

lemma inner_keeps:
  assumes "distinct (map node_id ns)"
  shows "mset (map content_of (autoLayoutGraphInner cmp ns es mode)) = mset (map content_of ns)"
proof (cases "1 < length ns")
  case True
  define ps where "ps = fit_groups (dedupe (map node_id (filter (\<lambda>n. node_type n = Some ''group'') ns))) ns"
  obtain roots children where p: "partitionGrouped ps = (roots, children)" by fastforce
  have fr: "map content_of ps = map content_of ns" "distinct (map node_id ps)" using fit_groups_frame assms by (metis ps_def)+
  have "distinct (map node_id roots)" using p fr(2) by (auto simp: partitionGrouped_def distinct_map_filter)
  note r = layout_roots_keeps [OF this, of cmp es mode]
  have "mset (map content_of (roots @ concat (map snd children))) = mset (map content_of ps)"
    using partitionGrouped_keeps [OF p] by (metis mset_map)
  then show ?thesis using r fr p by (simp add: inner_eq [OF assms True] ps_def [symmetric] del: mset_map)
next
  case False
  then show ?thesis by (simp add: autoLayoutGraphInner.simps [of cmp ns])
qed

lemma autoLayoutGraph_keeps:
  assumes "distinct (map node_id ns)"
  shows "mset (map content_of (autoLayoutGraph cmp ns es mode)) = mset (map content_of ns)"
proof -
  have "distinct (map node_id (filter (\<lambda>n. \<not> is_pinned n) ns))" using assms by (simp add: distinct_map_filter)
  from inner_keeps [OF this, of cmp es mode]
  have "mset (map content_of (autoLayoutGraphInner cmp (filter (\<lambda>n. \<not> is_pinned n) ns) es mode @ filter is_pinned ns))
      = mset (map content_of ns)"
    by (simp add: image_mset_union [symmetric] multiset_partition [of "mset ns" is_pinned, symmetric] add.commute del: image_mset_union)
  then show ?thesis by (subst autoLayoutGraph.simps) (simp add: Let_def del: mset_map mset_append)
qed

section \<open>Properties\<close>

text \<open>C15: The automatic layout loses no node and invents none, in any mode, and changes nothing of a node but its position and
  its size (\<open>position\<close>, \<open>measured\<close>, \<open>width\<close>, \<open>height\<close>, and the width and height of its style: every other property, and the rest
  of the style, stay). A pinned or locked node that is in no group comes out exactly as it was, in its place.\<close>
theorem layout_keeps_nodes:
  assumes "distinct (map node_id ns)"
  shows "mset (map content_of (autoLayoutGraph cmp ns es mode)) = mset (map content_of ns)
    \<and> (\<forall>n \<in> set ns. is_pinned n \<longrightarrow> n \<in> set (autoLayoutGraph cmp ns es mode))"
proof
  show "\<forall>n \<in> set ns. is_pinned n \<longrightarrow> n \<in> set (autoLayoutGraph cmp ns es mode)"
    by (auto simp: autoLayoutGraph.simps [of cmp ns] Let_def)
qed (rule autoLayoutGraph_keeps [OF assms])

text \<open>C14: The left-to-right layout never lets two nodes overlap: when some edge joins two of the nodes it arranges, the boxes of
  all of them, connected or isolated, are apart.\<close>
theorem layout_no_overlap:
  assumes "distinct (map node_id ns)" "mode = LHorizontal \<or> mode = LTree" "e \<in> set es"
    and "a \<in> set ns" "\<not> is_pinned a" "parentId a = None" "edge_source e = node_id a"
    and "b \<in> set ns" "\<not> is_pinned b" "parentId b = None" "edge_target e = node_id b" "a \<noteq> b"
  shows "sorted_wrt boxes_apart (filter (\<lambda>n. parentId n = None \<and> \<not> is_pinned n) (autoLayoutGraph cmp ns es mode))"
proof -
  define us where "us = filter (\<lambda>n. \<not> is_pinned n) ns"
  define ps where "ps = fit_groups (dedupe (map node_id (filter (\<lambda>n. node_type n = Some ''group'') us))) us"
  obtain roots children where p: "partitionGrouped ps = (roots, children)" by fastforce
  have us: "distinct (map node_id us)" "a \<in> set us" "b \<in> set us" using assms by (auto simp: us_def distinct_map_filter)
  then have len: "1 < length us" using assms(12) by (cases us) (auto simp: length_greater_0_conv [symmetric] simp del: length_greater_0_conv)
  have fr: "map content_of ps = map content_of us" "map node_id ps = map node_id us" "map parentId ps = map parentId us"
    using fit_groups_frame by (simp_all add: ps_def)
  have eq: "autoLayoutGraph cmp ns es mode = horizontalLayout cmp roots es @ concat (map snd children) @ filter is_pinned ns"
  proof -
    have "length us \<le> length ns" "filter (\<lambda>n. parentId n = None) us \<noteq> []" using us(2) assms(6) by (auto simp: us_def filter_empty_conv)
    then show ?thesis using len assms(2) p
      by (auto simp: autoLayoutGraph.simps [of cmp ns] Let_def us_def [symmetric] inner_eq [OF us(1) len] ps_def [symmetric] layout_roots_def)
  qed
  note ids = root_ids [OF p [unfolded ps_def]]
  have v: "e \<in> set (getValidEdges roots es)"
    using ids [OF us(2) assms(6)] ids [OF us(3) assms(10)] assms(3,7,11) by (simp add: getValidEdges_def)
  then have "e \<in> set (getValidEdges roots (getValidEdges roots es))" by (auto simp: getValidEdges_def)
  from horizontalLayout_apart [OF partition_nonempty [OF this]] have ap: "sorted_wrt boxes_apart (horizontalLayout cmp roots es)" .
  have rc: "parentId n = None \<and> \<not> is_pinned n" if "content_of n \<in> content_of ` set roots" for n
  proof -
    from that obtain m where m: "m \<in> set ps" "parentId m = None" "content_of n = content_of m"
      using p by (auto simp: partitionGrouped_def)
    from m(1) have "content_of m \<in> content_of ` set us" using fr(1) by (metis image_set imageI)
    then obtain u where u: "u \<in> set us" "content_of m = content_of u" by auto
    show ?thesis using content_of_eqD [OF m(3)] content_of_eqD [OF u(2)] u(1) m(2) by (auto simp: us_def is_pinned_def)
  qed
  have "content_of ` set (horizontalLayout cmp roots es) = content_of ` set roots"
    using horizontalLayout_keeps [of roots cmp es] us(1) fr(2) p
    by (metis (no_types, lifting) Pair_inject distinct_map_filter image_set partitionGrouped_def set_mset_mset)
  then have "filter (\<lambda>n. parentId n = None \<and> \<not> is_pinned n) (horizontalLayout cmp roots es) = horizontalLayout cmp roots es"
    using rc by (metis (mono_tags, lifting) filter_True imageI)
  moreover have "filter (\<lambda>n. parentId n = None \<and> \<not> is_pinned n) (concat (map snd children) @ filter is_pinned ns) = []"
    using p by (auto simp: partitionGrouped_def filter_empty_conv in_group_by)
  ultimately show ?thesis using ap by (simp add: eq)
qed

section \<open>Witnesses\<close>

definition demo_node :: "string \<Rightarrow> string \<Rightarrow> rat \<Rightarrow> rat \<Rightarrow> canvas_node" where
  "demo_node i t x y = \<lparr>node_id = i, node_type = Some t, node_pos = (x, y), parentId = None, extentParent = False, node_hidden = None,
     measured = None, node_width = None, node_height = None, node_style = SUndef, node_data = SObj []\<rparr>"

definition demo_edge :: "string \<Rightarrow> string \<Rightarrow> string \<Rightarrow> canvas_edge" where
  "demo_edge i a b = \<lparr>edge_id = i, edge_source = a, edge_target = b, edge_type = ''flow''\<rparr>"

theorem layout_keeps_nodes_witness:
  "\<forall>cmp. mset (map content_of (autoLayoutGraph cmp [demo_node ''a'' ''prompt'' 0 0, demo_node ''b'' ''agent'' 5 5] [demo_edge ''e'' ''a'' ''b''] LAuto))
     = mset (map content_of [demo_node ''a'' ''prompt'' 0 0, demo_node ''b'' ''agent'' 5 5])"
proof
  fix cmp
  have "distinct (map node_id [demo_node ''a'' ''prompt'' 0 0, demo_node ''b'' ''agent'' 5 5])" by (simp add: demo_node_def)
  from layout_keeps_nodes [OF this] show "mset (map content_of (autoLayoutGraph cmp
      [demo_node ''a'' ''prompt'' 0 0, demo_node ''b'' ''agent'' 5 5] [demo_edge ''e'' ''a'' ''b''] LAuto))
     = mset (map content_of [demo_node ''a'' ''prompt'' 0 0, demo_node ''b'' ''agent'' 5 5])" by blast
qed

theorem layout_no_overlap_witness:
  "\<forall>cmp. sorted_wrt boxes_apart (filter (\<lambda>n. parentId n = None \<and> \<not> is_pinned n)
     (autoLayoutGraph cmp [demo_node ''a'' ''prompt'' 0 0, demo_node ''b'' ''agent'' 5 5] [demo_edge ''e'' ''a'' ''b''] LTree))"
proof
  fix cmp
  show "sorted_wrt boxes_apart (filter (\<lambda>n. parentId n = None \<and> \<not> is_pinned n)
     (autoLayoutGraph cmp [demo_node ''a'' ''prompt'' 0 0, demo_node ''b'' ''agent'' 5 5] [demo_edge ''e'' ''a'' ''b''] LTree))"
    by (rule layout_no_overlap [where e = "demo_edge ''e'' ''a'' ''b''" and a = "demo_node ''a'' ''prompt'' 0 0" and b = "demo_node ''b'' ''agent'' 5 5"])
      (simp_all add: demo_node_def demo_edge_def is_pinned_def getp_def)
qed

text \<open>The left-to-right layout puts the start of a flow last: a node without incoming edges never gets a layer in the
  loop, so it is treated like the nodes of a cycle and placed to the right of everything that follows from it. And the
  children of a group are never arranged: two of them on the same spot stay on the same spot.\<close>
theorem layout_puts_sources_last:
  "map (\<lambda>n. (node_id n, node_x n)) (autoLayoutGraph (\<lambda>_ _. 0)
      [demo_node ''prompt'' ''prompt'' 0 200, demo_node ''agent'' ''agent'' 320 200, demo_node ''image'' ''image'' 640 0]
      [demo_edge ''e1'' ''prompt'' ''agent'', demo_edge ''e2'' ''agent'' ''image''] LAuto)
     = [(''agent'', 0), (''image'', 440), (''prompt'', 880)]
   \<and> map (\<lambda>n. (node_id n, node_pos n)) (autoLayoutGraph (\<lambda>_ _. 0)
      [demo_node ''g'' ''group'' 0 0, (demo_node ''a'' ''image'' 9 9)\<lparr>parentId := Some ''g''\<rparr>, (demo_node ''b'' ''image'' 9 9)\<lparr>parentId := Some ''g''\<rparr>]
      [demo_edge ''e'' ''a'' ''b''] LAuto)
     = [(''g'', 0, 0), (''a'', 20, 40), (''b'', 20, 40)]"
  by (rule conjI; code_simp)

end
