(* ===== verification/Canvas_Store_Proofs.thy ===== *)
theory Canvas_Store_Proofs
  imports Canvas_Store Canvas_Layout_Proofs
begin

text \<open>
  What the canvas store guarantees: ids stay unique and edges never dangle, undo and redo, groups keep nodes where
  they are, a rebuilt canvas is a tree.
\<close>

section \<open>Numbers in ids\<close>

lemma id_number_node_name [simp]: "id_number ''node_'' (node_name k) = Some k"
  using show_nat_value [of k] by (simp add: id_number_def node_name_def Let_def)

lemma node_name_inject [simp]: "node_name j = node_name k \<longleftrightarrow> j = k"
  by (metis id_number_node_name option.inject)

text \<open>No id of the counter to come is in use.\<close>

definition ids_below :: "nat \<Rightarrow> string set \<Rightarrow> bool" where
  "ids_below c V \<longleftrightarrow> (\<forall>k \<ge> c. node_name k \<notin> V)"

lemma ids_below_mono: "ids_below c V \<Longrightarrow> W \<subseteq> V \<Longrightarrow> c \<le> d \<Longrightarrow> ids_below d W"
  by (auto simp: ids_below_def)

lemma ids_below_insert: "ids_below c V \<Longrightarrow> ids_below (Suc c) (insert (node_name c) V)"
  by (auto simp: ids_below_def)

lemma sync_fold: "c \<le> fold (\<lambda>n. sync_count ''node_'' (node_id n)) ns c \<and> ids_below (fold (\<lambda>n. sync_count ''node_'' (node_id n)) ns c) (node_id ` set ns)"
proof (induction ns arbitrary: c)
  case (Cons n ns)
  let ?c = "sync_count ''node_'' (node_id n) c"
  have c: "c \<le> ?c" by (auto simp: sync_count_def split: option.splits)
  have below: "k < ?c" if "node_name k = node_id n" for k
    by (simp add: sync_count_def that [symmetric])
  define d where "d = fold (\<lambda>n. sync_count ''node_'' (node_id n)) ns ?c"
  have d: "?c \<le> d" "ids_below d (node_id ` set ns)" using Cons [of ?c] by (simp_all add: d_def)
  have "node_name k \<noteq> node_id n" if "d \<le> k" for k using below [of k] d(1) that by auto
  then show ?case using c d by (auto simp: ids_below_def d_def)
qed (simp add: ids_below_def)

lemma syncCounter_below: "ids_below (nodeCounter (syncCounter ns s)) (node_id ` set ns)" "nodeCounter s \<le> nodeCounter (syncCounter ns s)"
  using sync_fold [of "nodeCounter s" ns] by (simp_all add: syncCounter_def)

section \<open>Undo and redo\<close>

definition history_ok :: "canvas_state \<Rightarrow> bool" where
  "history_ok s \<longleftrightarrow> length (cv_history s) \<le> MAX_HISTORY
     \<and> (if cv_history s = [] then historyIndex s = -1 else 0 \<le> historyIndex s \<and> historyIndex s < int (length (cv_history s)))"

lemma commitHistory_last:
  assumes "history_ok s"
  shows "cv_history (commitHistory s) \<noteq> [] \<and> last (cv_history (commitHistory s)) = (cv_nodes s, cv_edges s)
    \<and> historyIndex (commitHistory s) = int (length (cv_history (commitHistory s))) - 1 \<and> history_ok (commitHistory s)"
proof (cases "cv_history s = []")
  case True
  then show ?thesis by (simp add: commitHistory_def history_ok_def MAX_HISTORY_def)
next
  case False
  let ?h = "take (nat (historyIndex s + 1)) (cv_history s) @ [(cv_nodes s, cv_edges s)]"
  have "length ?h \<le> Suc MAX_HISTORY" "1 < length ?h" using assms False by (auto simp: history_ok_def)
  moreover obtain x xs where "?h = x # xs" by (cases ?h) auto
  ultimately have "tl ?h \<noteq> []" "last (tl ?h) = (cv_nodes s, cv_edges s)" "length (tl ?h) \<le> MAX_HISTORY"
    by (simp_all, metis last.simps last_snoc list.size(3) not_less_zero)
  then show ?thesis using False
    by (auto simp: commitHistory_def pushHistory_def Let_def history_ok_def simp del: length_append)
qed

lemma commitHistory_frame [simp]: "cv_nodes (commitHistory s) = cv_nodes s" "cv_edges (commitHistory s) = cv_edges s" "nodeCounter (commitHistory s) = nodeCounter s"
  by (simp_all add: commitHistory_def pushHistory_def Let_def)

lemma push_after_last:
  assumes "history_ok s" "cv_history s \<noteq> []" "historyIndex s = int (length (cv_history s)) - 1"
  shows "length (cv_history (commitHistory s)) \<ge> 2
    \<and> cv_history (commitHistory s) ! (length (cv_history (commitHistory s)) - 2) = last (cv_history s)"
proof -
  let ?h = "cv_history s @ [(cv_nodes s, cv_edges s)]"
  have t: "take (nat (historyIndex s + 1)) (cv_history s) = cv_history s" using assms(2,3) by simp
  have l: "1 < length ?h" "length ?h > MAX_HISTORY \<Longrightarrow> 2 < length ?h" using assms(2) by (auto simp: MAX_HISTORY_def neq_Nil_conv)
  have "?h ! (length ?h - 2) = last (cv_history s)" using assms(2) by (simp add: nth_append last_conv_nth)
  moreover have "tl ?h ! (length (tl ?h) - 2) = ?h ! (length ?h - 2)" if "2 < length ?h"
    using that by (subst nth_tl) (auto simp: Suc_diff_Suc numeral_2_eq_2)
  ultimately show ?thesis using l assms(2)
    by (cases "length ?h > MAX_HISTORY")
      (auto simp: commitHistory_def pushHistory_def Let_def t simp del: length_append length_tl tl_append2, simp_all)
qed

lemma show_snapshot_nth:
  "i = int k \<Longrightarrow> k < length (cv_history s) \<Longrightarrow> cv_history s ! k = (ns, es) \<Longrightarrow>
    show_snapshot i s = s\<lparr>cv_nodes := ns, cv_edges := es, historyIndex := i\<rparr>"
  by (simp add: show_snapshot_def)

lemma undo_shows_previous:
  assumes "history_ok s" "cv_history s \<noteq> []" "historyIndex s = int (length (cv_history s)) - 1" "last (cv_history s) = (ns, es)"
  shows "cv_nodes (undo_canvas (commitHistory s)) = ns \<and> cv_edges (undo_canvas (commitHistory s)) = es
    \<and> cv_nodes (redo_canvas (undo_canvas (commitHistory s))) = cv_nodes s \<and> cv_edges (redo_canvas (undo_canvas (commitHistory s))) = cv_edges s"
proof -
  define s3 where "s3 = commitHistory s"
  define k where "k = length (cv_history s3)"
  have k: "2 \<le> k" "cv_history s3 ! (k - 2) = (ns, es)" using push_after_last [OF assms(1-3)] assms(4) by (simp_all add: s3_def k_def)
  have l: "cv_history s3 \<noteq> []" "last (cv_history s3) = (cv_nodes s, cv_edges s)" "historyIndex s3 = int k - 1"
    using commitHistory_last [OF assms(1)] by (simp_all add: s3_def k_def)
  have u: "undo_canvas s3 = s3\<lparr>cv_nodes := ns, cv_edges := es, historyIndex := int k - 2\<rparr>"
    using k show_snapshot_nth [of "historyIndex s3 - 1" "k - 2" s3 ns es] by (simp add: undo_canvas_def l(3) k_def [symmetric])
  have "cv_history s3 ! (k - 1) = (cv_nodes s, cv_edges s)" using l(1,2) by (simp add: last_conv_nth k_def)
  then have "redo_canvas (undo_canvas s3) = (undo_canvas s3)\<lparr>cv_nodes := cv_nodes s, cv_edges := cv_edges s, historyIndex := int k - 1\<rparr>"
    using k show_snapshot_nth [of "int k - 1" "k - 1" "undo_canvas s3" "cv_nodes s" "cv_edges s"]
    by (simp add: u redo_canvas_def k_def [symmetric])
  then show ?thesis by (simp add: s3_def [symmetric] u)
qed

section \<open>The graph\<close>

definition graph_ok :: "nat \<Rightarrow> snapshot \<Rightarrow> bool" where
  "graph_ok c g \<longleftrightarrow> (case g of (ns, es) \<Rightarrow>
     distinct (map node_id ns) \<and> ids_below c (node_id ` set ns)
     \<and> (\<forall>e \<in> set es. edge_source e \<in> node_id ` set ns \<and> edge_target e \<in> node_id ` set ns))"

definition canvas_ok :: "canvas_state \<Rightarrow> bool" where
  "canvas_ok s \<longleftrightarrow> history_ok s \<and> graph_ok (nodeCounter s) (cv_nodes s, cv_edges s) \<and> (\<forall>g \<in> set (cv_history s). graph_ok (nodeCounter s) g)"

lemma graph_ok_mono: "graph_ok c g \<Longrightarrow> c \<le> d \<Longrightarrow> graph_ok d g"
  by (auto simp: graph_ok_def intro: ids_below_mono)

lemma graph_ok_ids:
  "graph_ok c (ns, es) \<Longrightarrow> map node_id ns' = map node_id ns \<Longrightarrow> graph_ok c (ns', es)"
  by (auto simp: graph_ok_def) (metis image_set)+

lemma canvas_ok_graph:
  assumes "canvas_ok s" "graph_ok (nodeCounter s') (cv_nodes s', cv_edges s')"
    and "cv_history s' = cv_history s" "historyIndex s' = historyIndex s" "nodeCounter s \<le> nodeCounter s'"
  shows "canvas_ok s'"
  using assms by (auto simp: canvas_ok_def history_ok_def intro: graph_ok_mono)

lemma canvas_ok_nodes:
  "canvas_ok s \<Longrightarrow> map node_id ns = map node_id (cv_nodes s) \<Longrightarrow> canvas_ok (s\<lparr>cv_nodes := ns\<rparr>)"
  by (rule canvas_ok_graph) (auto simp: canvas_ok_def intro: graph_ok_ids)

lemma canvas_ok_edges: "canvas_ok s \<Longrightarrow> set es \<subseteq> set (cv_edges s) \<Longrightarrow> canvas_ok (s\<lparr>cv_edges := es\<rparr>)"
  by (rule canvas_ok_graph) (auto simp: canvas_ok_def graph_ok_def)

lemma addNode_ok: "canvas_ok s \<Longrightarrow> canvas_ok (snd (addNode None n s))"
  by (rule canvas_ok_graph)
    (auto simp: canvas_ok_def graph_ok_def addNode_def nextNodeId_def ids_below_def)

lemma drop_nodes_ok: "canvas_ok s \<Longrightarrow> canvas_ok (drop_nodes ids s)"
  by (rule canvas_ok_graph [of s])
    (auto simp: canvas_ok_def graph_ok_def drop_nodes_def distinct_map_filter ids_below_def)

lemma ungroupNodes_ok:
  assumes "canvas_ok s"
  shows "canvas_ok (ungroupNodes gid s) \<and> node_id ` set (cv_nodes (ungroupNodes gid s)) \<subseteq> node_id ` set (cv_nodes s)
    \<and> nodeCounter (ungroupNodes gid s) = nodeCounter s"
proof (cases "find (\<lambda>n. node_id n = gid) (cv_nodes s)")
  case None
  then show ?thesis using assms by (simp add: ungroupNodes_def)
next
  case (Some g)
  have ids: "map node_id (map (\<lambda>n. if parentId n = Some gid then release_child g n else n) ns) = map node_id ns" for ns
    by (simp add: release_child_def)
  have "canvas_ok ((drop_nodes {gid} s)\<lparr>cv_nodes := map (\<lambda>n. if parentId n = Some gid then release_child g n else n) (cv_nodes (drop_nodes {gid} s))\<rparr>)"
    by (rule canvas_ok_nodes [OF drop_nodes_ok [OF assms] ids])
  moreover have "ungroupNodes gid s
      = (drop_nodes {gid} s)\<lparr>cv_nodes := map (\<lambda>n. if parentId n = Some gid then release_child g n else n) (cv_nodes (drop_nodes {gid} s))\<rparr>"
    using Some by (simp add: ungroupNodes_def drop_nodes_def)
  ultimately show ?thesis by (auto simp: drop_nodes_def release_child_def)
qed

lemma ungroup_all_ok:
  "canvas_ok s \<Longrightarrow> canvas_ok (fold ungroupNodes gids s) \<and> node_id ` set (cv_nodes (fold ungroupNodes gids s)) \<subseteq> node_id ` set (cv_nodes s)
    \<and> nodeCounter (fold ungroupNodes gids s) = nodeCounter s"
proof (induction gids arbitrary: s)
  case (Cons gid gids)
  from Cons.IH [of "ungroupNodes gid s"] ungroupNodes_ok [OF Cons.prems, of gid] show ?case by auto
qed simp

lemma groupNodes_ok:
  assumes "canvas_ok s"
  shows "canvas_ok (snd (groupNodes ids l s))"
proof -
  define gids where "gids = dedupe (List.map_filter parentId (filter (\<lambda>n. node_id n \<in> set ids) (cv_nodes s)))"
  define s2 where "s2 = fold ungroupNodes gids s"
  define targets where "targets = filter (\<lambda>n. node_id n \<in> set ids) (cv_nodes s2)"
  have s2: "canvas_ok s2" "node_id ` set (cv_nodes s2) \<subseteq> node_id ` set (cv_nodes s)" "nodeCounter s2 = nodeCounter s"
    using ungroup_all_ok [OF assms, of gids] by (simp_all add: s2_def)
  define c where "c = nodeCounter (syncCounter (cv_nodes s) s2)"
  define ns where "ns = map (\<lambda>n. if node_id n \<in> set ids then adopt_child (node_name c) (group_corner targets) n else n) (cv_nodes s2)"
  have ns: "map node_id ns = map node_id (cv_nodes s2)" by (simp add: ns_def adopt_child_def)
  have c: "nodeCounter s2 \<le> c" using syncCounter_below(2) by (simp add: c_def)
  have g: "graph_ok (Suc c) (group_node (node_name c) l targets # ns, cv_edges s2)"
  proof -
    have "graph_ok c (ns, cv_edges s2)" using s2(1) c by (intro graph_ok_ids [OF graph_ok_mono ns]) (auto simp: canvas_ok_def)
    moreover have "node_id (group_node (node_name c) l targets) = node_name c" by (simp add: group_node_def Let_def)
    ultimately show ?thesis by (auto simp: graph_ok_def ids_below_def)
  qed
  have "canvas_ok ((syncCounter (cv_nodes s) s2)\<lparr>nodeCounter := Suc c, cv_nodes := group_node (node_name c) l targets # ns\<rparr>)"
    by (rule canvas_ok_graph [OF s2(1)]) (use g c in \<open>auto simp: syncCounter_def\<close>)
  moreover have "groupNodes ids l s =
     (if length ids < 2 then ([], s) else if length targets < 2 then ([], s2)
      else (node_name c, (syncCounter (cv_nodes s) s2)\<lparr>nodeCounter := Suc c, cv_nodes := group_node (node_name c) l targets # ns\<rparr>))"
    unfolding groupNodes_def Let_def gids_def [symmetric] s2_def [symmetric] targets_def [symmetric]
    by (simp add: nextNodeId_def c_def ns_def syncCounter_def)
  ultimately show ?thesis using assms s2(1) by simp
qed

lemma set_tl_subset: "set (tl xs) \<subseteq> set xs"
  by (cases xs) auto

lemma commitHistory_ok:
  assumes "canvas_ok s"
  shows "canvas_ok (commitHistory s)"
proof -
  have "set (cv_history (commitHistory s)) \<subseteq> insert (cv_nodes s, cv_edges s) (set (cv_history s))"
    using set_tl_subset [of "take (nat (historyIndex s + 1)) (cv_history s) @ [(cv_nodes s, cv_edges s)]"]
      set_take_subset [of "nat (historyIndex s + 1)" "cv_history s"]
    by (auto simp: commitHistory_def pushHistory_def Let_def split: if_splits)
  then show ?thesis using assms commitHistory_last [of s] by (auto simp: canvas_ok_def)
qed

lemma show_snapshot_ok:
  assumes "canvas_ok s" "0 \<le> i" "i < int (length (cv_history s))"
  shows "canvas_ok (show_snapshot i s)"
proof -
  obtain ns es where g: "cv_history s ! nat i = (ns, es)" by fastforce
  have "(ns, es) \<in> set (cv_history s)" using assms(2,3) g by (metis nat_less_iff nth_mem)
  moreover have "show_snapshot i s = s\<lparr>cv_nodes := ns, cv_edges := es, historyIndex := i\<rparr>"
    using show_snapshot_nth [of i "nat i" s ns es] assms(2,3) g by simp
  ultimately show ?thesis using assms by (auto simp: canvas_ok_def history_ok_def)
qed

lemma undo_redo_ok: "canvas_ok s \<Longrightarrow> canvas_ok (undo_canvas s) \<and> canvas_ok (redo_canvas s)"
  using show_snapshot_ok [of s] by (auto simp: undo_canvas_def redo_canvas_def canvas_ok_def history_ok_def split: if_splits)

section \<open>Loading\<close>

lemma node_id_settle [simp]: "node_id (settle_status n) = node_id n"
  by (simp add: settle_status_def Let_def)

lemma node_type_settle [simp]: "node_type (settle_status n) = node_type n"
  by (simp add: settle_status_def Let_def)

lemma sanitize_graph:
  assumes "sanitizeLoadedCanvas ns es = (ns', es')" "distinct (map node_id ns)"
    and "\<forall>e \<in> set es. edge_source e \<in> node_id ` set ns \<and> edge_target e \<in> node_id ` set ns"
  shows "distinct (map node_id ns') \<and> (\<forall>e \<in> set es'. edge_source e \<in> node_id ` set ns' \<and> edge_target e \<in> node_id ` set ns')"
proof -
  define R where "R = node_id ` set (filter unusable ns)"
  have "map node_id (filter (\<lambda>n. node_id n \<notin> R) (map settle_status ns)) = filter (\<lambda>v. v \<notin> R) (map node_id ns)"
    by (induction ns) auto
  moreover have eq: "sanitizeLoadedCanvas ns es =
      (filter (\<lambda>n. node_id n \<notin> R) (map settle_status ns), filter (\<lambda>e. edge_source e \<notin> R \<and> edge_target e \<notin> R) es)"
    unfolding sanitizeLoadedCanvas_def Let_def R_def [symmetric] by simp
  ultimately have ids: "map node_id ns' = filter (\<lambda>v. v \<notin> R) (map node_id ns)" and es: "es' = filter (\<lambda>e. edge_source e \<notin> R \<and> edge_target e \<notin> R) es"
    using assms(1) eq by auto
  have "node_id ` set ns' = node_id ` set ns - R" using arg_cong [OF ids, of set] by auto
  then show ?thesis using ids es assms(2,3) by auto
qed

text \<open>A response in which every edge joins nodes of the response.\<close>

definition response_ok :: "canvas_node list \<times> canvas_edge list \<times> viewport option \<Rightarrow> bool" where
  "response_ok r \<longleftrightarrow> (case r of (ns, es, _) \<Rightarrow> distinct (map node_id ns)
     \<and> (\<forall>e \<in> set es. edge_source e \<in> node_id ` set ns \<and> edge_target e \<in> node_id ` set ns))"

lemma loadFromServer_ok:
  assumes "canvas_ok s" "\<forall>r. response = Some r \<longrightarrow> response_ok r"
  shows "canvas_ok (snd (loadFromServer response s))"
proof (cases response)
  case None
  then show ?thesis using assms(1) by (simp add: loadFromServer_def Let_def canvas_ok_def history_ok_def)
next
  case (Some r)
  obtain rn re vp where r: "r = (rn, re, vp)" by (cases r) auto
  obtain ln le where sn: "sanitizeLoadedCanvas rn re = (ln, le)" by fastforce
  define fn where "fn = ln @ filter (\<lambda>n. node_id n \<notin> node_id ` set ln) (cv_nodes s)"
  define fe where "fe = le @ filter (\<lambda>e. edge_id e \<notin> edge_id ` set le) (cv_edges s)"
  have l: "distinct (map node_id ln)" "\<forall>e \<in> set le. edge_source e \<in> node_id ` set ln \<and> edge_target e \<in> node_id ` set ln"
    using sanitize_graph [OF sn] assms(2) Some by (auto simp: r response_ok_def)
  have cur: "distinct (map node_id (cv_nodes s))" "\<forall>e \<in> set (cv_edges s). edge_source e \<in> node_id ` set (cv_nodes s) \<and> edge_target e \<in> node_id ` set (cv_nodes s)"
    using assms(1) by (auto simp: canvas_ok_def graph_ok_def)
  have ids: "node_id ` set fn = node_id ` set ln \<union> node_id ` set (cv_nodes s)" by (auto simp: fn_def)
  have "distinct (map node_id fn)" using l(1) cur(1) by (auto simp: fn_def distinct_map_filter image_iff)
  moreover have "\<forall>e \<in> set fe. edge_source e \<in> node_id ` set fn \<and> edge_target e \<in> node_id ` set fn"
    using l(2) cur(2) unfolding ids by (auto simp: fe_def)
  ultimately have "graph_ok (nodeCounter (syncCounter fn s')) (fn, fe)" for s'
    using syncCounter_below(1) [of fn s'] by (simp add: graph_ok_def)
  then show ?thesis
    using assms(1) by (auto simp: Some r sn loadFromServer_def Let_def fn_def [symmetric] fe_def [symmetric] deferredFitView_def syncCounter_def
        canvas_ok_def history_ok_def MAX_HISTORY_def)
qed

section \<open>Rebuilding\<close>

text \<open>The graph so far is a tree whose nodes are numbered in the order of creation.\<close>

definition rebuilt_tree :: "rebuild \<Rightarrow> bool" where
  "rebuilt_tree r \<longleftrightarrow> map node_id (rb_nodes r) = map node_name [0..<nodeIdx r] \<and> edgeIdx r = length (rb_edges r)
     \<and> (nodeIdx r = 0 \<longrightarrow> rb_edges r = [] \<and> lastMainId r = None)
     \<and> (0 < nodeIdx r \<longrightarrow> Suc (length (rb_edges r)) = nodeIdx r \<and> (\<exists>j < nodeIdx r. lastMainId r = Some (node_name j)))
     \<and> (\<forall>k < length (rb_edges r). edge_target (rb_edges r ! k) = node_name (Suc k) \<and> (\<exists>j \<le> k. edge_source (rb_edges r ! k) = node_name j))"

lemma rebuild_child:
  assumes "rebuilt_tree r" "j < nodeIdx r" "rebuild_node t d r = (i, r1)"
  shows "rebuilt_tree (rebuild_edge (node_name j) i r1) \<and> i = node_name (nodeIdx r)
    \<and> nodeIdx (rebuild_edge (node_name j) i r1) = Suc (nodeIdx r)"
  using assms by (auto simp: rebuilt_tree_def rebuild_node_def rebuild_edge_def Let_def plain_node_def nth_append less_Suc_eq)

lemma rebuild_artifact_tree:
  assumes "rebuilt_tree r" "j < nodeIdx r"
  shows "rebuilt_tree (rebuild_artifact time (node_name j) tool art r) \<and> j < nodeIdx (rebuild_artifact time (node_name j) tool art r)"
proof (cases "art_type art \<in> {''image'', ''video'', ''audio''}")
  case True
  then show ?thesis using rebuild_child [OF assms] assms(2) by (auto simp: rebuild_artifact_def Let_def split: prod.splits)
next
  case False
  then show ?thesis using assms by (simp add: rebuild_artifact_def)
qed

lemma rebuild_tool_tree:
  assumes "rebuilt_tree r" "j < nodeIdx r"
  shows "rebuilt_tree (rebuild_tool time (node_name j) tool r) \<and> j < nodeIdx (rebuild_tool time (node_name j) tool r)"
proof -
  have "rebuilt_tree (fold (rebuild_artifact time (node_name j) tool) arts r) \<and> j < nodeIdx (fold (rebuild_artifact time (node_name j) tool) arts r)" for arts
    using assms by (induction arts arbitrary: r) (auto simp: rebuild_artifact_tree)
  then show ?thesis using assms by (auto simp: rebuild_tool_def split: option.splits)
qed

lemma rebuild_tools_tree:
  "rebuilt_tree r \<Longrightarrow> j < nodeIdx r \<Longrightarrow> rebuilt_tree (fold (rebuild_tool time (node_name j)) tools r)"
  by (induction tools arbitrary: r) (auto simp: rebuild_tool_tree)

lemma rebuilt_tree_main: "rebuilt_tree r \<Longrightarrow> j < nodeIdx r \<Longrightarrow> rebuilt_tree (r\<lparr>lastMainId := Some (node_name j)\<rparr>)"
  by (auto simp: rebuilt_tree_def)

lemma rebuild_turn_tree:
  assumes "rebuilt_tree r"
  shows "rebuilt_tree (rebuild_turn time t r)"
proof -
  define pd where "pd = [(''nodeType'', SStr ''prompt''), (''label'', SStr ''Prompt''), (''status'', SStr ''done''),
     (''content'', SStr (take 300 (hi_content (turn_user t)))), (''startTime'', SNum (time (created_at (turn_user t))))]"
  obtain p r1 where n: "rebuild_node ''prompt'' pd r = (p, r1)" by fastforce
  have p: "p = node_name (nodeIdx r)" "nodeIdx r1 = Suc (nodeIdx r)" "lastMainId r1 = lastMainId r" using n by (auto simp: rebuild_node_def Let_def)
  define r2 where "r2 = (case lastMainId r1 of Some m \<Rightarrow> rebuild_edge m p r1 | None \<Rightarrow> r1)\<lparr>lastMainId := Some p\<rparr>"
  have r2: "rebuilt_tree r2" "nodeIdx r2 = Suc (nodeIdx r)"
  proof -
    show "nodeIdx r2 = Suc (nodeIdx r)" by (simp add: r2_def p rebuild_edge_def split: option.splits)
    show "rebuilt_tree r2"
    proof (cases "nodeIdx r")
      case 0
      then show ?thesis using assms n by (auto simp: rebuilt_tree_def r2_def rebuild_node_def Let_def plain_node_def)
    next
      case (Suc m)
      then obtain j where j: "j < nodeIdx r" "lastMainId r = Some (node_name j)" using assms by (auto simp: rebuilt_tree_def)
      from rebuild_child [OF assms j(1) n] show ?thesis using j(2) p by (simp add: r2_def rebuilt_tree_main)
    qed
  qed
  show ?thesis
  proof (cases "turn_assistant t")
    case None
    have "rebuilt_tree (fold (rebuild_tool time p) (turn_tools t) r2)"
      using rebuild_tools_tree [OF r2(1), of "nodeIdx r"] r2(2) p(1) by simp
    then show ?thesis using None n by (simp add: rebuild_turn_def Let_def pd_def [symmetric] r2_def [symmetric])
  next
    case (Some a)
    define ad where "ad = [(''nodeType'', SStr ''agent''), (''label'', SStr ''Thinking''), (''status'', SStr ''done''),
       (''content'', SStr (take 500 (hi_content a))), (''startTime'', SNum (time (created_at a))), (''endTime'', SNum (time (created_at a)))]"
    obtain i r3 where n3: "rebuild_node ''agent'' ad r2 = (i, r3)" by fastforce
    note ch = rebuild_child [OF r2(1) _ n3, of "nodeIdx r"]
    define r4 where "r4 = (rebuild_edge p i r3)\<lparr>lastMainId := Some i\<rparr>"
    have "rebuilt_tree r4" "nodeIdx r4 = Suc (nodeIdx r2)" using ch r2(2) p by (auto simp: r4_def rebuilt_tree_main)
    then have "rebuilt_tree (fold (rebuild_tool time i) (turn_tools t) r4)"
      using rebuild_tools_tree [of r4 "nodeIdx r2"] ch r2(2) by simp
    then show ?thesis using Some n n3 by (simp add: rebuild_turn_def Let_def pd_def [symmetric] r2_def [symmetric] ad_def [symmetric] r4_def)
  qed
qed

lemma rebuild_graph_tree: "rebuilt_tree (rebuild_graph time is)"
proof -
  have "rebuilt_tree (fold (rebuild_turn time) ts r)" if "rebuilt_tree r" for ts r
    using that by (induction ts arbitrary: r) (auto simp: rebuild_turn_tree)
  then show ?thesis by (simp add: rebuild_graph_def rebuilt_tree_def)
qed

section \<open>Groups\<close>

abbreviation find_node :: "string \<Rightarrow> canvas_node list \<Rightarrow> canvas_node option" where
  "find_node i ns \<equiv> find (\<lambda>n. node_id n = i) ns"

text \<open>Where a node is drawn: the position of a child is relative to its group.\<close>

definition drawn_at :: "canvas_node list \<Rightarrow> canvas_node \<Rightarrow> rat \<times> rat" where
  "drawn_at ns n =
     (case parentId n of
        None \<Rightarrow> node_pos n
      | Some p \<Rightarrow> (case find_node p ns of None \<Rightarrow> node_pos n | Some g \<Rightarrow> (node_x n + node_x g, node_y n + node_y g)))"

definition place_of :: "canvas_node list \<Rightarrow> string \<Rightarrow> (rat \<times> rat) option" where
  "place_of ns i = map_option (drawn_at ns) (find_node i ns)"

text \<open>Every parent is a node at the top level.\<close>

definition groups_ok :: "canvas_node list \<Rightarrow> bool" where
  "groups_ok ns \<longleftrightarrow> (\<forall>n \<in> set ns. \<forall>p. parentId n = Some p \<longrightarrow> (\<exists>g. find_node p ns = Some g \<and> parentId g = None))"

lemma find_map_id: "(\<And>n. node_id (f n) = node_id n) \<Longrightarrow> find_node i (map f ns) = map_option f (find_node i ns)"
  by (induction ns) auto

lemma find_filter_id: "i \<noteq> gid \<Longrightarrow> find_node i (filter (\<lambda>n. node_id n \<noteq> gid) ns) = find_node i ns"
  by (induction ns) auto

lemma find_in: "find_node i ns = Some n \<Longrightarrow> n \<in> set ns \<and> node_id n = i"
  by (rule find_Some_setD)

text \<open>\<open>ungroupNodes\<close> on the nodes alone.\<close>

definition dissolve :: "string \<Rightarrow> canvas_node list \<Rightarrow> canvas_node list" where
  "dissolve gid ns =
     (case find_node gid ns of
        None \<Rightarrow> ns
      | Some g \<Rightarrow> map (\<lambda>n. if parentId n = Some gid then release_child g n else n) (filter (\<lambda>n. node_id n \<noteq> gid) ns))"

lemma ungroup_nodes: "cv_nodes (ungroupNodes gid s) = dissolve gid (cv_nodes s)"
  by (simp add: ungroupNodes_def dissolve_def split: option.splits)

lemma release_id [simp]: "node_id (release_child g n) = node_id n" "parentId (release_child g n) = None"
  by (simp_all add: release_child_def)

lemma find_dissolve:
  assumes "find_node gid ns = Some g" "i \<noteq> gid"
  shows "find_node i (dissolve gid ns) = map_option (\<lambda>n. if parentId n = Some gid then release_child g n else n) (find_node i ns)"
  using assms find_map_id [of "\<lambda>n. if parentId n = Some gid then release_child g n else n" i "filter (\<lambda>n. node_id n \<noteq> gid) ns"]
  by (simp add: dissolve_def find_filter_id)

lemma dissolve_parents:
  assumes "groups_ok ns" "n \<in> set (dissolve gid ns)"
  shows "parentId n \<noteq> Some gid \<and> (\<exists>m \<in> set ns. node_id m = node_id n \<and> parentId n \<in> {None, parentId m})"
proof (cases "find_node gid ns")
  case None
  then show ?thesis using assms by (force simp: dissolve_def groups_ok_def)
next
  case (Some g)
  then show ?thesis using assms(2) by (auto simp: dissolve_def split: if_splits)
qed

lemma dissolve_groups_ok:
  assumes "groups_ok ns" "\<forall>g. find_node gid ns = Some g \<longrightarrow> parentId g = None"
  shows "groups_ok (dissolve gid ns)"
  unfolding groups_ok_def
proof (intro ballI allI impI)
  fix n p assume n: "n \<in> set (dissolve gid ns)" "parentId n = Some p"
  from dissolve_parents [OF assms(1) n(1)] n(2) obtain m where m: "p \<noteq> gid" "m \<in> set ns" "parentId m = Some p" by auto
  then obtain g where g: "find_node p ns = Some g" "parentId g = None" using assms(1) by (auto simp: groups_ok_def)
  show "\<exists>g. find_node p (dissolve gid ns) = Some g \<and> parentId g = None"
  proof (cases "find_node gid ns")
    case None
    then show ?thesis using g by (simp add: dissolve_def)
  next
    case (Some h)
    then show ?thesis using find_dissolve [OF Some m(1)] g by simp
  qed
qed

lemma dissolve_place:
  assumes "groups_ok ns" "\<forall>g. find_node gid ns = Some g \<longrightarrow> parentId g = None" "i \<noteq> gid"
  shows "place_of (dissolve gid ns) i = place_of ns i"
proof (cases "find_node gid ns")
  case None
  then show ?thesis by (simp add: dissolve_def)
next
  case (Some g)
  note fd = find_dissolve [OF Some]
  show ?thesis
  proof (cases "find_node i ns")
    case None
    then show ?thesis using fd [OF assms(3)] by (simp add: place_of_def)
  next
    case s: (Some n)
    have "drawn_at (dissolve gid ns) (if parentId n = Some gid then release_child g n else n) = drawn_at ns n"
    proof (cases "parentId n")
      case (Some p)
      show ?thesis
      proof (cases "p = gid")
        case True
        then show ?thesis using Some \<open>find_node gid ns = Some g\<close> by (simp add: drawn_at_def release_child_def)
      next
        case False
        then obtain h where "find_node p ns = Some h" "parentId h = None"
          using assms(1) find_in [OF s] Some by (auto simp: groups_ok_def)
        then show ?thesis using False Some fd [OF False] by (simp add: drawn_at_def)
      qed
    qed (simp add: drawn_at_def)
    then show ?thesis using s fd [OF assms(3)] by (simp add: place_of_def)
  qed
qed

lemma dissolve_all:
  assumes "groups_ok ns" "\<forall>gid \<in> set gids. \<forall>g. find_node gid ns = Some g \<longrightarrow> parentId g = None"
  shows "groups_ok (fold dissolve gids ns) \<and> (\<forall>i. i \<notin> set gids \<longrightarrow> place_of (fold dissolve gids ns) i = place_of ns i)
    \<and> (\<forall>n \<in> set (fold dissolve gids ns). (\<forall>p \<in> set gids. parentId n \<noteq> Some p)
         \<and> (\<exists>m \<in> set ns. node_id m = node_id n \<and> parentId n \<in> {None, parentId m}))"
  using assms
proof (induction gids arbitrary: ns)
  case (Cons gid gids)
  have top: "\<forall>g. find_node gid ns = Some g \<longrightarrow> parentId g = None" using Cons.prems(2) by simp
  note ok = dissolve_groups_ok [OF Cons.prems(1) top]
  have "\<forall>h \<in> set gids. \<forall>g. find_node h (dissolve gid ns) = Some g \<longrightarrow> parentId g = None"
  proof (intro ballI allI impI)
    fix h g assume h: "h \<in> set gids" "find_node h (dissolve gid ns) = Some g"
    show "parentId g = None"
    proof (cases "find_node gid ns")
      case None
      then show ?thesis using h Cons.prems(2) by (simp add: dissolve_def)
    next
      case (Some k)
      have "h \<noteq> gid" using h(2) Some by (auto simp: dissolve_def dest!: find_in split: if_splits)
      then show ?thesis using find_dissolve [OF Some] h Cons.prems(2) by (auto split: if_splits)
    qed
  qed
  note ih = Cons.IH [OF ok this]
  have "(\<forall>p \<in> set (gid # gids). parentId n \<noteq> Some p) \<and> (\<exists>m \<in> set ns. node_id m = node_id n \<and> parentId n \<in> {None, parentId m})"
    if n: "n \<in> set (fold dissolve (gid # gids) ns)" for n
  proof -
    from ih n obtain m where m: "m \<in> set (dissolve gid ns)" "node_id m = node_id n" "parentId n \<in> {None, parentId m}" by auto
    then show ?thesis using dissolve_parents [OF Cons.prems(1) m(1)] ih n by auto
  qed
  then show ?case using ih dissolve_place [OF Cons.prems(1) top] by auto
qed auto

lemma ungroup_all_nodes: "cv_nodes (fold ungroupNodes gids s) = fold dissolve gids (cv_nodes s)"
  by (induction gids arbitrary: s) (simp_all add: ungroup_nodes)

lemma groupNodes_nodes:
  assumes "groupNodes ids l s = (gid, s')" "gid \<noteq> []"
  shows "\<exists>targets ns2. ns2 = fold dissolve (dedupe (List.map_filter parentId (filter (\<lambda>n. node_id n \<in> set ids) (cv_nodes s)))) (cv_nodes s)
    \<and> targets = filter (\<lambda>n. node_id n \<in> set ids) ns2
    \<and> cv_nodes s' = group_node gid l targets # map (\<lambda>n. if node_id n \<in> set ids then adopt_child gid (group_corner targets) n else n) ns2
    \<and> gid \<notin> node_id ` set (cv_nodes s)"
proof -
  define gids where "gids = dedupe (List.map_filter parentId (filter (\<lambda>n. node_id n \<in> set ids) (cv_nodes s)))"
  define s2 where "s2 = fold ungroupNodes gids s"
  have "gid = node_name (nodeCounter (syncCounter (cv_nodes s) s2))" using assms
    by (auto simp: groupNodes_def Let_def nextNodeId_def gids_def [symmetric] s2_def [symmetric] split: if_splits)
  then have "gid \<notin> node_id ` set (cv_nodes s)" using syncCounter_below(1) [of "cv_nodes s" s2] by (simp add: ids_below_def)
  moreover have "cv_nodes s2 = fold dissolve gids (cv_nodes s)" by (simp add: s2_def ungroup_all_nodes)
  ultimately show ?thesis using assms
    by (auto simp: groupNodes_def Let_def nextNodeId_def gids_def [symmetric] s2_def [symmetric] syncCounter_def split: if_splits)
qed

lemma adopt_id [simp]: "node_id (adopt_child gid c n) = node_id n"
  by (simp add: adopt_child_def)

lemma adopted_place:
  assumes "groups_ok ns" "gid \<notin> node_id ` set ns" "\<forall>n \<in> set ns. node_id n \<in> S \<longrightarrow> parentId n = None"
    and "\<forall>n \<in> set ns. \<forall>p. parentId n = Some p \<longrightarrow> p \<notin> S" "node_id g = gid" "node_pos g = corner" "i \<noteq> gid"
  shows "place_of (g # map (\<lambda>n. if node_id n \<in> S then adopt_child gid corner n else n) ns) i = place_of ns i"
proof -
  define ns' where "ns' = map (\<lambda>n. if node_id n \<in> S then adopt_child gid corner n else n) ns"
  have f: "find_node j ns' = map_option (\<lambda>n. if node_id n \<in> S then adopt_child gid corner n else n) (find_node j ns)" for j
    unfolding ns'_def by (rule find_map_id) simp
  have "drawn_at (g # ns') (if node_id n \<in> S then adopt_child gid corner n else n) = drawn_at ns n" if n: "n \<in> set ns" for n
  proof (cases "node_id n \<in> S")
    case True
    then show ?thesis using assms(3,5,6) n by (simp add: drawn_at_def adopt_child_def)
  next
    case False
    show ?thesis
    proof (cases "parentId n")
      case (Some p)
      then obtain h where h: "find_node p ns = Some h" using assms(1) n by (auto simp: groups_ok_def)
      have p: "p \<notin> S" "p \<noteq> gid" "node_id h = p" using assms(2,4) n Some find_in [OF h] by auto
      then show ?thesis using False Some h f [of p] assms(5) by (simp add: drawn_at_def)
    qed (simp add: drawn_at_def False)
  qed
  then have d: "drawn_at (g # ns') (if node_id n \<in> S then adopt_child gid corner n else n) = drawn_at ns n" if "find_node i ns = Some n" for n
    using find_in [OF that] by blast
  show ?thesis
  proof (cases "find_node i ns")
    case None
    then show ?thesis using assms(5,7) f [of i] by (simp add: place_of_def ns'_def)
  next
    case (Some n)
    then have "find_node i (g # ns') = Some (if node_id n \<in> S then adopt_child gid corner n else n)" using assms(5,7) f [of i] by simp
    then show ?thesis using d [OF Some] Some unfolding place_of_def ns'_def [symmetric] by (simp only: option.map)
  qed
qed

section \<open>Runs of the store\<close>

datatype canvas_op =
  OpAddNode canvas_node | OpAddEdge canvas_edge | OpUpdateNode string "(string \<times> stored) list" | OpRemoveNode string
| OpRemoveNodes "string list" | OpRemoveEdges "string list" | OpTogglePin string | OpCollapse string | OpExpand string
| OpGroup "string list" "string option" | OpUngroup string | OpAlign "string list" alignment | OpCommit | OpUndo | OpRedo | OpReset
| OpClearForLoad | OpLoad "(canvas_node list \<times> canvas_edge list \<times> viewport option) option" | OpAutoLayout
| OpDelete "string list" "string list" | OpRebuild "history_item list"

fun canvas_apply :: "locale_order \<Rightarrow> (string \<Rightarrow> rat) \<Rightarrow> canvas_op \<Rightarrow> canvas_state \<Rightarrow> canvas_state" where
  "canvas_apply cmp time (OpAddNode n) s = snd (addNode None n s)"
| "canvas_apply cmp time (OpAddEdge e) s = addEdge e s"
| "canvas_apply cmp time (OpUpdateNode i p) s = updateNode i p s"
| "canvas_apply cmp time (OpRemoveNode i) s = removeNode i s"
| "canvas_apply cmp time (OpRemoveNodes is) s = removeNodes is s"
| "canvas_apply cmp time (OpRemoveEdges is) s = removeEdges is s"
| "canvas_apply cmp time (OpTogglePin i) s = togglePinNode i s"
| "canvas_apply cmp time (OpCollapse i) s = collapseGroup i s"
| "canvas_apply cmp time (OpExpand i) s = expandGroup i s"
| "canvas_apply cmp time (OpGroup is l) s = snd (groupNodes is l s)"
| "canvas_apply cmp time (OpUngroup i) s = ungroupNodes i s"
| "canvas_apply cmp time (OpAlign is a) s = alignNodes is a s"
| "canvas_apply cmp time OpCommit s = commitHistory s"
| "canvas_apply cmp time OpUndo s = undo_canvas s"
| "canvas_apply cmp time OpRedo s = redo_canvas s"
| "canvas_apply cmp time OpReset s = resetCanvas s"
| "canvas_apply cmp time OpClearForLoad s = clearForLoad s"
| "canvas_apply cmp time (OpLoad r) s = snd (loadFromServer r s)"
| "canvas_apply cmp time OpAutoLayout s = auto_layout_key cmp s"
| "canvas_apply cmp time (OpDelete ns es) s = delete_selected ns es s"
| "canvas_apply cmp time (OpRebuild is) s = fst (rebuildFromHistory cmp time is s)"

text \<open>What the callers have to see to: an edge joins nodes of the canvas, and so does every edge of a loaded canvas.\<close>

fun op_allowed :: "canvas_op \<Rightarrow> canvas_state \<Rightarrow> bool" where
  "op_allowed (OpAddEdge e) s \<longleftrightarrow> edge_source e \<in> node_id ` set (cv_nodes s) \<and> edge_target e \<in> node_id ` set (cv_nodes s)"
| "op_allowed (OpLoad (Some r)) s \<longleftrightarrow> response_ok r"
| "op_allowed _ s \<longleftrightarrow> True"

inductive canvas_reach :: "locale_order \<Rightarrow> (string \<Rightarrow> rat) \<Rightarrow> canvas_state \<Rightarrow> bool" for cmp time where
  reach_initial: "canvas_reach cmp time initial_canvas"
| reach_op: "canvas_reach cmp time s \<Longrightarrow> op_allowed op s \<Longrightarrow> canvas_reach cmp time (canvas_apply cmp time op s)"

lemma layout_ids:
  assumes "distinct (map node_id ns)"
  shows "mset (map node_id (autoLayoutGraph cmp ns es mode)) = mset (map node_id ns)"
proof -
  have "map node_id (map content_of xs) = map node_id xs" for xs by (simp add: content_of_def)
  then show ?thesis using autoLayoutGraph_keeps [OF assms, of cmp es mode] by (metis mset_map)
qed

lemma graph_ok_perm:
  assumes "graph_ok c (ns, es)" "mset (map node_id ns') = mset (map node_id ns)"
  shows "graph_ok c (ns', es)"
proof -
  have "node_id ` set ns' = node_id ` set ns" using assms(2) by (metis image_set set_mset_mset)
  then show ?thesis using assms mset_eq_imp_distinct_iff [OF assms(2)] by (simp add: graph_ok_def)
qed

lemma empty_canvas_ok: "cv_nodes s = [] \<Longrightarrow> cv_edges s = [] \<Longrightarrow> cv_history s = [] \<Longrightarrow> historyIndex s = -1 \<Longrightarrow> canvas_ok s"
  by (simp add: canvas_ok_def history_ok_def graph_ok_def ids_below_def)

lemma auto_layout_ok:
  assumes "canvas_ok s"
  shows "canvas_ok (auto_layout_key cmp s)"
proof -
  have "graph_ok (nodeCounter s) (autoLayoutGraph cmp (cv_nodes s) (cv_edges s) (cv_layoutMode s), cv_edges s)"
    using assms by (intro graph_ok_perm [OF _ layout_ids]) (auto simp: canvas_ok_def graph_ok_def)
  then show ?thesis
    by (intro canvas_ok_graph [OF commitHistory_ok [OF assms]]) (simp_all add: auto_layout_key_def Let_def deferredFitView_def)
qed

lemma removals_ok:
  assumes "canvas_ok s"
  shows "canvas_ok (removeNode i s)" "canvas_ok (removeNodes is s)" "canvas_ok (removeEdges is s)" "canvas_ok (delete_selected ns es s)"
proof -
  have n: "canvas_ok (removeNodes is s)" if "canvas_ok s" for "is" s using that by (simp add: removeNodes_def Let_def drop_nodes_ok)
  have e: "canvas_ok (removeEdges is s)" if "canvas_ok s" for "is" s using that by (auto simp: removeEdges_def intro: canvas_ok_edges)
  show "canvas_ok (removeNode i s)" using assms by (simp add: removeNode_def drop_nodes_ok split: option.splits)
  show "canvas_ok (removeNodes is s)" "canvas_ok (removeEdges is s)" using n e assms by auto
  show "canvas_ok (delete_selected ns es s)" using n e commitHistory_ok [OF assms] assms by (simp add: delete_selected_def Let_def)
qed

lemma rebuild_ok:
  assumes "canvas_ok s"
  shows "canvas_ok (fst (rebuildFromHistory cmp time is s))"
proof -
  define r where "r = rebuild_graph time is"
  define laid where "laid = autoLayoutGraph cmp (rb_nodes r) (rb_edges r) LAuto"
  have t: "rebuilt_tree r" by (simp add: r_def rebuild_graph_tree)
  then have ids: "map node_id (rb_nodes r) = map node_name [0..<nodeIdx r]" by (simp add: rebuilt_tree_def)
  have d: "distinct (map node_id (rb_nodes r))" unfolding ids by (simp add: distinct_map inj_on_def)
  have V: "node_id ` set (rb_nodes r) = node_name ` {0..<nodeIdx r}" using arg_cong [OF ids, of set] by simp
  have e: "\<forall>e \<in> set (rb_edges r). edge_source e \<in> node_id ` set (rb_nodes r) \<and> edge_target e \<in> node_id ` set (rb_nodes r)"
    unfolding V using t by (fastforce simp: rebuilt_tree_def in_set_conv_nth)
  have L: "node_id ` set laid = node_id ` set (rb_nodes r)" "distinct (map node_id laid)"
    using arg_cong [OF layout_ids [OF d, of cmp "rb_edges r" LAuto], of set_mset]
      mset_eq_imp_distinct_iff [OF layout_ids [OF d, of cmp "rb_edges r" LAuto]] d by (simp_all add: laid_def)
  have "graph_ok (nodeCounter (syncCounter laid s)) (laid, rb_edges r)"
    using syncCounter_below(1) [of laid s] e L by (simp add: graph_ok_def)
  then show ?thesis using assms
    by (auto simp: rebuildFromHistory_def Let_def r_def [symmetric] laid_def [symmetric] deferredFitView_def syncCounter_def canvas_ok_def history_ok_def MAX_HISTORY_def)
qed

lemma canvas_apply_ok:
  assumes "canvas_ok s" "op_allowed op s"
  shows "canvas_ok (canvas_apply cmp time op s)"
proof (cases op)
  case (OpAddEdge e)
  then have "graph_ok (nodeCounter s) (cv_nodes s, cv_edges s @ [e])" using assms by (auto simp: canvas_ok_def graph_ok_def)
  then show ?thesis using OpAddEdge assms by (auto simp: addEdge_def intro: canvas_ok_graph)
next
  case (OpLoad r)
  then show ?thesis using assms loadFromServer_ok [OF assms(1), of r] by (cases r) auto
qed (use assms in \<open>auto simp: addNode_ok removals_ok groupNodes_ok ungroupNodes_ok commitHistory_ok undo_redo_ok auto_layout_ok rebuild_ok
      updateNode_def togglePinNode_def collapseGroup_def expandGroup_def set_collapsed_def alignNodes_def Let_def
      resetCanvas_def clearForLoad_def o_def intro!: canvas_ok_nodes empty_canvas_ok split: alignment.splits\<close>)

lemma canvas_reach_ok: "canvas_reach cmp time s \<Longrightarrow> canvas_ok s"
  by (induction rule: canvas_reach.induct) (auto simp: initial_canvas_def intro: empty_canvas_ok canvas_apply_ok)

lemma commit_second:
  "cv_history t = [g] \<Longrightarrow> historyIndex t = 0 \<Longrightarrow>
    cv_history (commitHistory t) = [g, (cv_nodes t, cv_edges t)] \<and> historyIndex (commitHistory t) = 1"
  by (simp add: commitHistory_def pushHistory_def MAX_HISTORY_def)

lemma undo_second:
  assumes "cv_history t = [g]" "historyIndex t = 0"
  shows "cv_nodes (undo_canvas (drop_nodes V (commitHistory t))) = fst g"
proof -
  obtain ns es where g: "g = (ns, es)" by fastforce
  define u where "u = drop_nodes V (commitHistory t)"
  have "cv_history u = [g, (cv_nodes t, cv_edges t)]" "historyIndex u = 1"
    using commit_second [OF assms] by (simp_all add: u_def drop_nodes_def)
  then show ?thesis using show_snapshot_nth [of 0 0 u ns es] by (simp add: undo_canvas_def u_def [symmetric] g)
qed

section \<open>Properties\<close>


text \<open>Undo and redo: when the canvas is committed, changed and committed again, undo shows it as it was at the first commit and
  redo as it was at the second.\<close>
theorem canvas_undo_redo:
  assumes "history_ok s" "s1 = commitHistory s" "cv_history s2 = cv_history s1" "historyIndex s2 = historyIndex s1"
  shows "cv_nodes (undo_canvas (commitHistory s2)) = cv_nodes s \<and> cv_edges (undo_canvas (commitHistory s2)) = cv_edges s
    \<and> cv_nodes (redo_canvas (undo_canvas (commitHistory s2))) = cv_nodes s2 \<and> cv_edges (redo_canvas (undo_canvas (commitHistory s2))) = cv_edges s2"
proof -
  note c = commitHistory_last [OF assms(1), folded assms(2)]
  have "history_ok s2" using c assms(3,4) by (simp add: history_ok_def)
  from undo_shows_previous [OF this, of "cv_nodes s" "cv_edges s"] c assms(3,4) show ?thesis by simp
qed

text \<open>Grouping leaves every node where it is drawn: the selected nodes become children of the new group, groups they were in are
  dissolved, and the place of every other node on the canvas is the same as before. (The selection has no group in it.)\<close>
theorem group_keeps_places:
  assumes "groups_ok (cv_nodes s)" "\<forall>n \<in> set (cv_nodes s). \<forall>p. parentId n = Some p \<longrightarrow> p \<notin> set ids"
    and "groupNodes ids l s = (gid, s')" "gid \<noteq> []"
    and "n \<in> set (cv_nodes s)" "\<forall>m \<in> set (cv_nodes s). node_id m \<in> set ids \<longrightarrow> parentId m \<noteq> Some (node_id n)"
  shows "place_of (cv_nodes s') (node_id n) = place_of (cv_nodes s) (node_id n)"
proof -
  define gids where "gids = dedupe (List.map_filter parentId (filter (\<lambda>n. node_id n \<in> set ids) (cv_nodes s)))"
  have gids: "set gids = {p. \<exists>m \<in> set (cv_nodes s). node_id m \<in> set ids \<and> parentId m = Some p}"
    by (force simp: gids_def List.map_filter_def)
  obtain targets ns2 where g: "ns2 = fold dissolve gids (cv_nodes s)" "targets = filter (\<lambda>n. node_id n \<in> set ids) ns2"
      "cv_nodes s' = group_node gid l targets # map (\<lambda>n. if node_id n \<in> set ids then adopt_child gid (group_corner targets) n else n) ns2"
      "gid \<notin> node_id ` set (cv_nodes s)"
    using groupNodes_nodes [OF assms(3,4)] by (auto simp: gids_def)
  have "\<forall>p \<in> set gids. \<forall>g. find_node p (cv_nodes s) = Some g \<longrightarrow> parentId g = None"
    using assms(1) by (fastforce simp: gids groups_ok_def)
  note d = dissolve_all [OF assms(1) this, folded g(1)]
  have top: "\<forall>m \<in> set ns2. node_id m \<in> set ids \<longrightarrow> parentId m = None"
  proof (intro ballI impI)
    fix m assume m: "m \<in> set ns2" "node_id m \<in> set ids"
    from d m(1) obtain m0 where m0: "m0 \<in> set (cv_nodes s)" "node_id m0 = node_id m" "parentId m \<in> {None, parentId m0}" by blast
    show "parentId m = None"
    proof (cases "parentId m")
      case (Some p)
      then have "parentId m0 = Some p" using m0(3) by auto
      then have "p \<in> set gids" using m0(1,2) m(2) unfolding gids by (auto intro!: bexI [of _ m0])
      then show ?thesis using d m(1) Some by blast
    qed
  qed
  have par: "\<forall>m \<in> set ns2. \<forall>p. parentId m = Some p \<longrightarrow> p \<notin> set ids"
  proof (intro ballI allI impI)
    fix m p assume m: "m \<in> set ns2" "parentId m = Some p"
    from d m(1) obtain m0 where "m0 \<in> set (cv_nodes s)" "parentId m \<in> {None, parentId m0}" by blast
    then show "p \<notin> set ids" using assms(2) m(2) by auto
  qed
  have new: "gid \<notin> node_id ` set ns2" using d g(4) by (force simp: image_iff)
  have "place_of (cv_nodes s') (node_id n) = place_of ns2 (node_id n)"
    unfolding g(3) by (rule adopted_place [OF _ new top par]) (use d g(4) assms(5) in \<open>auto simp: group_node_def Let_def\<close>)
  moreover have "node_id n \<notin> set gids" using assms(6) by (auto simp: gids)
  ultimately show ?thesis using d by simp
qed

text \<open>A canvas rebuilt from the messages of a thread is a tree: nodes are numbered in the order of the messages, and every node
  but the first is the end of exactly one edge, which comes from an earlier node.\<close>
theorem rebuilt_canvas_is_tree:
  "let r = rebuild_graph time is
   in map node_id (rb_nodes r) = map node_name [0..<length (rb_nodes r)] \<and> length (rb_edges r) = length (rb_nodes r) - 1
     \<and> list_all (\<lambda>k. edge_target (rb_edges r ! k) = node_name (k + 1) \<and> edge_source (rb_edges r ! k) \<in> node_name ` {0..k}) [0..<length (rb_edges r)]"
proof -
  note t = rebuild_graph_tree [of time "is"]
  have "length (rb_nodes (rebuild_graph time is)) = nodeIdx (rebuild_graph time is)"
    using arg_cong [of _ _ length, OF conjunct1 [OF t [unfolded rebuilt_tree_def]]] by simp
  then show ?thesis using t by (cases "nodeIdx (rebuild_graph time is)") (auto simp: Let_def rebuilt_tree_def list_all_iff)
qed

text \<open>The keyboard handler of the canvas takes its snapshot before it deletes, while undo expects one after: a deletion on a
  canvas just loaded cannot be undone at all, and after two deletions one undo brings back both.\<close>
theorem deletion_undo_misses:
  assumes "cv_history s = []" "historyIndex s = -1"
    and "n \<in> set (cv_nodes s)" "\<not> is_locked n" "m \<in> set (cv_nodes s)" "\<not> is_locked m" "node_id m \<noteq> node_id n"
  shows "undo_canvas (delete_selected [node_id n] [] s) = delete_selected [node_id n] [] s
    \<and> cv_nodes (undo_canvas (delete_selected [node_id m] [] (delete_selected [node_id n] [] s))) = cv_nodes s"
proof -
  have del: "delete_selected [node_id x] [] t = drop_nodes {node_id x} (commitHistory t)" if "x \<in> set (cv_nodes t)" "\<not> is_locked x" for x t
  proof -
    have img: "node_id ` set (filter (\<lambda>n. node_id n \<in> set [node_id x] \<and> \<not> is_locked n) (cv_nodes (commitHistory t))) = {node_id x}"
      using that by (auto simp del: image_cong_simp)
    have ex: "\<exists>y \<in> set (cv_nodes t). node_id y = node_id x \<and> \<not> is_locked y" using that by blast
    have "removeNodes [node_id x] (commitHistory t) = drop_nodes {node_id x} (commitHistory t)"
      unfolding removeNodes_def Let_def img by simp
    then show ?thesis by (simp add: delete_selected_def ex)
  qed
  let ?s1 = "drop_nodes {node_id n} (commitHistory s)"
  have c: "commitHistory s = s\<lparr>cv_history := [(cv_nodes s, cv_edges s)], historyIndex := 0\<rparr>" using assms(1) by (simp add: commitHistory_def)
  have s1: "cv_history ?s1 = [(cv_nodes s, cv_edges s)]" "historyIndex ?s1 = 0" "m \<in> set (cv_nodes ?s1)"
    using assms(5,7) by (simp_all add: c drop_nodes_def)
  have "cv_nodes (undo_canvas (drop_nodes {node_id m} (commitHistory ?s1))) = cv_nodes s"
    using undo_second [OF s1(1,2)] by simp
  then show ?thesis using del [OF assms(3,4)] del [OF s1(3) assms(6)] s1(2) by (simp add: undo_canvas_def)
qed

text \<open>Clearing the canvas can be forgotten: the flag that lets an empty canvas be saved is lowered before the save, so when
  that save fails, a later one with the server reachable sends nothing and the old canvas stays on the server.\<close>
theorem clear_can_be_forgotten:
  assumes "\<forall>k < 4. \<not> ok k"
  shows "fst (saveToServer ok (resetCanvas s)) = SaveFailed
    \<and> fst (saveToServer (\<lambda>_. True) (snd (saveToServer ok (resetCanvas s)))) = SaveSkipped"
  using assms by (simp add: saveToServer_def resetCanvas_def list_ex_iff)

section \<open>Witnesses\<close>

definition demo_canvas :: canvas_state where
  "demo_canvas = initial_canvas\<lparr>cv_nodes := [demo_node ''a'' ''prompt'' 10 20, demo_node ''b'' ''agent'' 300 90, demo_node ''c'' ''image'' 0 500],
     cv_edges := [demo_edge ''e'' ''a'' ''b'']\<rparr>"


theorem canvas_undo_redo_witness:
  "cv_nodes (undo_canvas (commitHistory (removeNode ''c'' (commitHistory demo_canvas)))) = cv_nodes demo_canvas
   \<and> length (cv_nodes (redo_canvas (undo_canvas (commitHistory (removeNode ''c'' (commitHistory demo_canvas)))))) = 2"
proof -
  have ok: "history_ok demo_canvas" by (simp add: history_ok_def demo_canvas_def initial_canvas_def)
  have "cv_history (removeNode ''c'' (commitHistory demo_canvas)) = cv_history (commitHistory demo_canvas)"
    "historyIndex (removeNode ''c'' (commitHistory demo_canvas)) = historyIndex (commitHistory demo_canvas)"
    by (simp_all add: removeNode_def drop_nodes_def split: option.splits)
  moreover have "length (cv_nodes (removeNode ''c'' (commitHistory demo_canvas))) = 2" by code_simp
  ultimately show ?thesis using canvas_undo_redo [OF ok refl] by simp
qed

theorem group_keeps_places_witness:
  "place_of (cv_nodes (snd (groupNodes [''a'', ''b''] None demo_canvas))) ''b'' = Some (300, 90)"
proof -
  obtain gid s' where g: "groupNodes [''a'', ''b''] None demo_canvas = (gid, s')" by fastforce
  have "fst (groupNodes [''a'', ''b''] None demo_canvas) \<noteq> []" by code_simp
  then have "gid \<noteq> []" by (simp add: g)
  have "place_of (cv_nodes s') (node_id (demo_node ''b'' ''agent'' 300 90)) = place_of (cv_nodes demo_canvas) (node_id (demo_node ''b'' ''agent'' 300 90))"
    by (rule group_keeps_places [OF _ _ g \<open>gid \<noteq> []\<close>]) (simp_all add: groups_ok_def demo_canvas_def demo_node_def)
  moreover have "place_of (cv_nodes demo_canvas) ''b'' = Some (300, 90)" by code_simp
  ultimately show ?thesis by (simp add: g demo_node_def)
qed

theorem deletion_undo_misses_witness:
  "cv_nodes (undo_canvas (delete_selected [''c''] [] (delete_selected [''a''] [] demo_canvas))) = cv_nodes demo_canvas"
proof -
  have "cv_history demo_canvas = []" "historyIndex demo_canvas = -1" by (simp_all add: demo_canvas_def initial_canvas_def)
  from deletion_undo_misses [OF this, of "demo_node ''a'' ''prompt'' 10 20" "demo_node ''c'' ''image'' 0 500"]
  show ?thesis by (simp add: demo_canvas_def demo_node_def is_locked_def getp_def)
qed

theorem clear_can_be_forgotten_witness:
  "fst (saveToServer (\<lambda>_. True) (snd (saveToServer (\<lambda>_. False) (resetCanvas demo_canvas)))) = SaveSkipped"
  using clear_can_be_forgotten [of "\<lambda>_. False" demo_canvas] by simp

end
