(* ===== verification/Canvas_Bridge_Proofs.thy ===== *)
theory Canvas_Bridge_Proofs
  imports Canvas_Bridge Canvas_Store_Proofs
begin

text \<open>
  What the canvas shows of a conversation: the nodes that the bridge draws form one graph that starts at the first of
  them, the text of an answer is complete, and events that arrive while a canvas is loading are not lost. The last
  theorems show what the bridge gets wrong when the canvas changes under it.
\<close>

section \<open>The graph that the bridge draws\<close>

definition group_node_of :: "canvas_node \<Rightarrow> bool" where "group_node_of n \<longleftrightarrow> node_type n = Some ''group''"

definition plain_ids :: "canvas_node list \<Rightarrow> string set" where "plain_ids ns = node_id ` {n \<in> set ns. \<not> group_node_of n}"

definition group_ids :: "canvas_node list \<Rightarrow> string set" where "group_ids ns = node_id ` {n \<in> set ns. group_node_of n}"

text \<open>A plain node other than the first has an edge from an earlier one.\<close>

definition fed :: "canvas_node list \<Rightarrow> canvas_edge list \<Rightarrow> nat \<Rightarrow> bool" where
  "fed ns es k \<longleftrightarrow> k = 0 \<or> (\<exists>e \<in> set es. \<exists>j < k. edge_target e = node_name k \<and> edge_source e = node_name j \<and> node_name j \<in> plain_ids ns)"

definition parents_ok :: "canvas_node list \<Rightarrow> bool" where
  "parents_ok ns \<longleftrightarrow> (\<forall>n \<in> set ns. \<forall>p. parentId n = Some p \<longrightarrow> p \<in> group_ids ns)"

definition drawn :: "nat \<Rightarrow> canvas_state \<Rightarrow> bool" where
  "drawn c s \<longleftrightarrow> canvas_ok s \<and> parents_ok (cv_nodes s) \<and> plain_ids (cv_nodes s) \<subseteq> node_name ` {..<nodeCounter s} \<and>
     (\<forall>k. node_name k \<in> plain_ids (cv_nodes s) \<longrightarrow> fed (cv_nodes s) (cv_edges s) k) \<and>
     edge_id ` set (cv_edges s) \<subseteq> edge_name ` {..<c} \<and> (cv_nodes s \<noteq> [] \<longrightarrow> node_name 0 \<in> plain_ids (cv_nodes s)) \<and>
     (cv_nodes s = [] \<longrightarrow> nodeCounter s = 0)"

lemma edge_name_inject [simp]: "edge_name j = edge_name k \<longleftrightarrow> j = k"
  by (metis edge_name_def node_name_def node_name_inject same_append_eq)

lemma ids_split: "node_id ` set ns = plain_ids ns \<union> group_ids ns"
  by (auto simp: plain_ids_def group_ids_def)

lemma plain_not_group: "distinct (map node_id ns) \<Longrightarrow> plain_ids ns \<inter> group_ids ns = {}"
  by (auto simp: plain_ids_def group_ids_def distinct_map inj_on_def)

subsection \<open>Changes that keep the shape\<close>

text \<open>What the invariant reads of a node.\<close>

definition shape :: "canvas_node \<Rightarrow> string \<times> bool \<times> string option" where
  "shape n = (node_id n, group_node_of n, parentId n)"

lemma shape_sets:
  assumes "shape ` set ns' = shape ` set ns"
  shows "plain_ids ns' = plain_ids ns" "group_ids ns' = group_ids ns" "parents_ok ns' = parents_ok ns"
proof -
  have "plain_ids xs = {i. (i, False) \<in> (\<lambda>(i, g, p). (i, g)) ` shape ` set xs}" "group_ids xs = {i. (i, True) \<in> (\<lambda>(i, g, p). (i, g)) ` shape ` set xs}" for xs
    by (force simp: plain_ids_def group_ids_def shape_def image_iff)+
  then show p: "plain_ids ns' = plain_ids ns" "group_ids ns' = group_ids ns" using assms by simp_all
  have "parents_ok xs = (\<forall>(i, g, p) \<in> shape ` set xs. \<forall>q. p = Some q \<longrightarrow> q \<in> group_ids xs)" for xs
    by (auto simp: parents_ok_def shape_def)
  then show "parents_ok ns' = parents_ok ns" by (simp only: assms p)
qed

lemma drawn_shape:
  assumes "drawn c s" "shape ` set (cv_nodes s') = shape ` set (cv_nodes s)" "cv_edges s' = cv_edges s" "canvas_ok s'"
    and "nodeCounter s' = nodeCounter s"
  shows "drawn c s' \<and> plain_ids (cv_nodes s') = plain_ids (cv_nodes s)"
proof -
  have "cv_nodes s' = [] \<longleftrightarrow> cv_nodes s = []" using assms(2) by (metis image_is_empty set_empty)
  then show ?thesis using assms shape_sets [OF assms(2)] by (auto simp: drawn_def fed_def)
qed

lemma drawn_map:
  assumes "drawn c s" "\<And>n. n \<in> set (cv_nodes s) \<Longrightarrow> shape (f n) = shape n"
  shows "drawn c (s\<lparr>cv_nodes := map f (cv_nodes s)\<rparr>) \<and> plain_ids (map f (cv_nodes s)) = plain_ids (cv_nodes s)"
proof -
  have "map node_id (map f (cv_nodes s)) = map node_id (cv_nodes s)" using assms(2) by (simp add: shape_def)
  then have "canvas_ok (s\<lparr>cv_nodes := map f (cv_nodes s)\<rparr>)" using assms(1) by (intro canvas_ok_nodes) (simp_all add: drawn_def)
  moreover have "shape ` set (map f (cv_nodes s)) = shape ` set (cv_nodes s)" using assms(2) by (simp add: image_image)
  ultimately show ?thesis using drawn_shape [OF assms(1), of "s\<lparr>cv_nodes := map f (cv_nodes s)\<rparr>"] by simp
qed

lemma drawn_updateNode: "drawn c s \<Longrightarrow> drawn c (updateNode i p s) \<and> plain_ids (cv_nodes (updateNode i p s)) = plain_ids (cv_nodes s)"
  unfolding updateNode_def using drawn_map by (auto simp: shape_def group_node_of_def)

lemma drawn_frame:
  assumes "drawn c s" "cv_nodes s' = cv_nodes s" "cv_edges s' = cv_edges s" "nodeCounter s' = nodeCounter s"
    and "cv_history s' = cv_history s" "historyIndex s' = historyIndex s"
  shows "drawn c s'"
  using assms by (auto simp: drawn_def canvas_ok_def history_ok_def)

lemma drawn_layout:
  assumes "drawn c s"
  shows "drawn c (s\<lparr>cv_nodes := autoLayoutGraph cmp (cv_nodes s) (cv_edges s) m\<rparr>) \<and>
    plain_ids (autoLayoutGraph cmp (cv_nodes s) (cv_edges s) m) = plain_ids (cv_nodes s)"
proof -
  let ?ns = "autoLayoutGraph cmp (cv_nodes s) (cv_edges s) m"
  have d: "distinct (map node_id (cv_nodes s))" using assms by (simp add: drawn_def canvas_ok_def graph_ok_def)
  have "shape (content_of n) = shape n" for n by (simp add: shape_def content_of_def group_node_of_def)
  then have "shape ` set ns = shape ` content_of ` set ns" for ns by (simp add: image_image)
  moreover have "content_of ` set ?ns = content_of ` set (cv_nodes s)"
    using arg_cong [OF autoLayoutGraph_keeps [OF d, of cmp "cv_edges s" m], of set_mset] by simp
  ultimately have "shape ` set ?ns = shape ` set (cv_nodes s)" by metis
  moreover have "canvas_ok (s\<lparr>cv_nodes := ?ns\<rparr>)"
  proof (rule canvas_ok_graph [of s])
    show "canvas_ok s" using assms by (simp add: drawn_def)
    then have "graph_ok (nodeCounter s) (cv_nodes s, cv_edges s)" by (simp add: canvas_ok_def)
    then show "graph_ok (nodeCounter (s\<lparr>cv_nodes := ?ns\<rparr>)) (cv_nodes (s\<lparr>cv_nodes := ?ns\<rparr>), cv_edges (s\<lparr>cv_nodes := ?ns\<rparr>))"
      using graph_ok_perm [OF _ layout_ids [OF d]] by simp
  qed simp_all
  ultimately show ?thesis using drawn_shape [OF assms, of "s\<lparr>cv_nodes := ?ns\<rparr>"] by simp
qed

subsection \<open>A node and its edge\<close>

lemma canvas_ok_append_edge:
  assumes "canvas_ok s" "edge_source e \<in> node_id ` set (cv_nodes s)" "edge_target e \<in> node_id ` set (cv_nodes s)"
  shows "canvas_ok (s\<lparr>cv_edges := cv_edges s @ [e]\<rparr>)"
proof (rule canvas_ok_graph [OF assms(1)])
  have "graph_ok (nodeCounter s) (cv_nodes s, cv_edges s)" using assms(1) by (simp add: canvas_ok_def)
  then have "graph_ok (nodeCounter s) (cv_nodes s, cv_edges s @ [e])" using assms(2,3) by (simp add: graph_ok_def)
  then show "graph_ok (nodeCounter (s\<lparr>cv_edges := cv_edges s @ [e]\<rparr>))
      (cv_nodes (s\<lparr>cv_edges := cv_edges s @ [e]\<rparr>), cv_edges (s\<lparr>cv_edges := cv_edges s @ [e]\<rparr>))" by simp
qed simp_all

lemma drawn_edge:
  assumes "drawn c s" "src \<in> node_id ` set (cv_nodes s)" "tgt \<in> node_id ` set (cv_nodes s)"
  shows "drawn (Suc c) (addEdge \<lparr>edge_id = edge_name c, edge_source = src, edge_target = tgt, edge_type = ty\<rparr> s) \<and>
    cv_nodes (addEdge \<lparr>edge_id = edge_name c, edge_source = src, edge_target = tgt, edge_type = ty\<rparr> s) = cv_nodes s"
proof -
  define e where "e = \<lparr>edge_id = edge_name c, edge_source = src, edge_target = tgt, edge_type = ty\<rparr>"
  have "edge_id e \<notin> edge_id ` set (cv_edges s)" using assms(1) by (auto simp: drawn_def e_def)
  then have a: "addEdge e s = s\<lparr>cv_edges := cv_edges s @ [e]\<rparr>" by (auto simp: addEdge_def image_iff)
  have "canvas_ok (s\<lparr>cv_edges := cv_edges s @ [e]\<rparr>)"
    using assms canvas_ok_append_edge [of s e] by (simp add: drawn_def e_def)
  then have "drawn (Suc c) (s\<lparr>cv_edges := cv_edges s @ [e]\<rparr>)"
    using assms(1) by (auto simp: drawn_def fed_def e_def lessThan_Suc)
  then show ?thesis using a by (simp add: e_def)
qed

text \<open>A new node with its edge: \<open>parent\<close> is a plain node, or the canvas was empty.\<close>

definition can_follow :: "string option \<Rightarrow> canvas_node list \<Rightarrow> bool" where
  "can_follow parent ns \<longleftrightarrow> (case parent of None \<Rightarrow> ns = [] | Some p \<Rightarrow> p \<in> plain_ids ns)"

lemma new_node_eq:
  "new_node ty pos d (b, s) = (node_name (nodeCounter s), (b, s\<lparr>nodeCounter := Suc (nodeCounter s),
     cv_nodes := cv_nodes s @ [plain_node (node_name (nodeCounter s)) ty pos (d @ [turn_field b])]\<rparr>))"
  by (simp add: new_node_def addNode_def nextNodeId_def plain_node_def)

lemma ids_append:
  "plain_ids (ns @ [x]) = (if group_node_of x then plain_ids ns else insert (node_id x) (plain_ids ns))"
  "group_ids (ns @ [x]) = (if group_node_of x then insert (node_id x) (group_ids ns) else group_ids ns)"
  by (auto simp: plain_ids_def group_ids_def)

lemma plain_ids_append:
  "ty \<noteq> ''group'' \<Longrightarrow> plain_ids (ns @ [plain_node i ty pos d]) = insert i (plain_ids ns)"
  "ty \<noteq> ''group'' \<Longrightarrow> group_ids (ns @ [plain_node i ty pos d]) = group_ids ns"
  by (simp_all add: ids_append) (simp_all add: plain_node_def group_node_of_def)

lemma drawn_child:
  assumes "drawn c s" "ty \<noteq> ''group''" "can_follow parent (cv_nodes s)" "new_node ty pos d (b, s) = (i, (b1, s1))"
    and "edge_from parent i (b2, s1) = (b3, s3)" "edgeCounter b2 = c"
  shows "drawn (edgeCounter b3) s3 \<and> plain_ids (cv_nodes s3) = insert i (plain_ids (cv_nodes s)) \<and>
    b3 = b2\<lparr>edgeCounter := edgeCounter b3\<rparr> \<and> b1 = b"
proof -
  define k where "k = nodeCounter s"
  have s1: "s1 = s\<lparr>nodeCounter := Suc k, cv_nodes := cv_nodes s @ [plain_node (node_name k) ty pos (d @ [turn_field b])]\<rparr>" "i = node_name k" "b1 = b"
    using assms(4) by (auto simp: new_node_eq k_def)
  have ok: "canvas_ok s1"
  proof -
    have "canvas_ok s" using assms(1) by (simp add: drawn_def)
    from addNode_ok [OF this, of "plain_node [] ty pos (d @ [turn_field b])"] show ?thesis
      using assms(4) by (auto simp: new_node_def split: prod.splits)
  qed
  have p: "plain_ids (cv_nodes s1) = insert i (plain_ids (cv_nodes s))" "group_ids (cv_nodes s1) = group_ids (cv_nodes s)"
    using assms(2) by (simp_all add: s1 plain_ids_append)
  have par: "parents_ok (cv_nodes s1)" using assms(1) p(2) by (auto simp: drawn_def parents_ok_def s1 plain_node_def)
  have old: "plain_ids (cv_nodes s) \<subseteq> node_name ` {..<k}" using assms(1) by (simp add: drawn_def k_def)
  show ?thesis
  proof (cases parent)
    case None
    then have e: "cv_nodes s = []" "b3 = b2" "s3 = s1" using assms(3,5) by (simp_all add: can_follow_def edge_from_def)
    then have "k = 0" using assms(1) by (simp add: drawn_def k_def)
    then have "drawn c s1" using ok par p assms(1) e(1) by (auto simp: drawn_def s1 plain_ids_def fed_def)
    then show ?thesis using e p assms(6) s1 by simp
  next
    case (Some q)
    define e where "e = \<lparr>edge_id = edge_name c, edge_source = q, edge_target = i, edge_type = ''flow''\<rparr>"
    have q: "q \<in> plain_ids (cv_nodes s)" using assms(3) Some by (simp add: can_follow_def)
    then obtain j where j: "j < k" "q = node_name j" using old by auto
    have s3: "s3 = s1\<lparr>cv_edges := cv_edges s @ [e]\<rparr>" "b3 = b2\<lparr>edgeCounter := Suc c\<rparr>"
    proof -
      have "edge_id e \<notin> edge_id ` set (cv_edges s1)" using assms(1) by (auto simp: drawn_def e_def s1)
      then have "addEdge e s1 = s1\<lparr>cv_edges := cv_edges s @ [e]\<rparr>" by (auto simp: addEdge_def s1 image_iff)
      then show "s3 = s1\<lparr>cv_edges := cv_edges s @ [e]\<rparr>" "b3 = b2\<lparr>edgeCounter := Suc c\<rparr>"
        using assms(5,6) Some by (auto simp: edge_from_def bridge_edge_def e_def)
    qed
    have ends: "q \<in> node_id ` set (cv_nodes s1)" "i \<in> node_id ` set (cv_nodes s1)" using p(1) q by (simp_all add: ids_split)
    have "canvas_ok s3"
      using canvas_ok_append_edge [OF ok, of e] ends by (simp add: s3 e_def) (simp add: s1)
    moreover have "fed (cv_nodes s3) (cv_edges s3) m" if "node_name m \<in> plain_ids (cv_nodes s3)" for m
    proof (cases "m = k")
      case True
      then show ?thesis using j q p(1) s1(2) by (auto simp: fed_def s3 e_def intro!: exI [of _ j])
    next
      case False
      then have "fed (cv_nodes s) (cv_edges s) m" using that assms(1) p(1) s1(2) by (auto simp: drawn_def s3)
      then show ?thesis using p(1) by (auto simp: fed_def s3)
    qed
    moreover have "cv_nodes s \<noteq> []" using q by (auto simp: plain_ids_def)
    ultimately have "drawn (Suc c) s3"
      using par p assms(1) old s1(2) by (auto simp: drawn_def s3 e_def lessThan_Suc k_def s1(1))
    then show ?thesis using s3 p s1 by simp
  qed
qed

subsection \<open>Groups\<close>

lemma ids_simps [simp]:
  "plain_ids [] = {}" "group_ids [] = {}"
  "plain_ids (x # ns) = (if group_node_of x then plain_ids ns else insert (node_id x) (plain_ids ns))"
  "group_ids (x # ns) = (if group_node_of x then insert (node_id x) (group_ids ns) else group_ids ns)"
  by (auto simp: plain_ids_def group_ids_def)

lemma ids_filter [simp]:
  "plain_ids (filter (\<lambda>n. node_id n \<noteq> gid) ns) = plain_ids ns - {gid}"
  "group_ids (filter (\<lambda>n. node_id n \<noteq> gid) ns) = group_ids ns - {gid}"
  by (induction ns) auto

lemma ids_map:
  assumes "\<And>n. node_id (f n) = node_id n" "\<And>n. group_node_of (f n) = group_node_of n"
  shows "plain_ids (map f ns) = plain_ids ns" "group_ids (map f ns) = group_ids ns"
  using assms by (induction ns) auto

lemma drawn_ungroup:
  assumes "drawn c s" "gid \<notin> plain_ids (cv_nodes s)"
  shows "drawn c (ungroupNodes gid s) \<and> plain_ids (cv_nodes (ungroupNodes gid s)) = plain_ids (cv_nodes s) \<and>
    nodeCounter (ungroupNodes gid s) = nodeCounter s"
proof (cases "find (\<lambda>n. node_id n = gid) (cv_nodes s)")
  case None
  then show ?thesis using assms by (simp add: ungroupNodes_def)
next
  case (Some g)
  define f where "f = (\<lambda>n. if parentId n = Some gid then release_child g n else n)"
  define ns where "ns = map f (filter (\<lambda>n. node_id n \<noteq> gid) (cv_nodes s))"
  define es where "es = filter (\<lambda>e. edge_source e \<noteq> gid \<and> edge_target e \<noteq> gid) (cv_edges s)"
  have u: "ungroupNodes gid s = s\<lparr>cv_nodes := ns, cv_edges := es\<rparr>" using Some by (simp add: ungroupNodes_def ns_def es_def f_def)
  have [simp]: "node_id (f n) = node_id n" "group_node_of (f n) = group_node_of n" for n
    by (simp_all add: f_def release_child_def group_node_of_def)
  have p: "plain_ids ns = plain_ids (cv_nodes s)" using assms(2) by (simp add: ns_def ids_map)
  have g: "group_ids ns = group_ids (cv_nodes s) - {gid}" by (simp add: ns_def ids_map)
  have "parents_ok ns" unfolding parents_ok_def g
  proof (intro ballI allI impI)
    fix n q assume "n \<in> set ns" "parentId n = Some q"
    then obtain m where "m \<in> set (cv_nodes s)" "parentId m = Some q" "q \<noteq> gid" by (auto simp: ns_def f_def split: if_splits)
    then show "q \<in> group_ids (cv_nodes s) - {gid}" using assms(1) by (auto simp: drawn_def parents_ok_def)
  qed
  moreover have "fed ns es k" if "node_name k \<in> plain_ids ns" for k
  proof -
    have "fed (cv_nodes s) (cv_edges s) k" using that p assms(1) by (simp add: drawn_def)
    then show ?thesis using that assms(2) p by (auto simp: fed_def es_def)
  qed
  moreover have "canvas_ok (s\<lparr>cv_nodes := ns, cv_edges := es\<rparr>)"
    using ungroupNodes_ok [of s gid] assms(1) u by (simp add: drawn_def)
  moreover have "ns = [] \<longleftrightarrow> cv_nodes s = []"
  proof
    assume "ns = []"
    then have "plain_ids (cv_nodes s) = {}" using p by (simp add: plain_ids_def)
    then show "cv_nodes s = []" using assms(1) by (auto simp: drawn_def)
  qed (simp add: ns_def)
  ultimately show ?thesis using assms(1) p by (auto simp: u drawn_def es_def)
qed

lemma drawn_ungroup_all:
  "drawn c s \<Longrightarrow> set gids \<inter> plain_ids (cv_nodes s) = {} \<Longrightarrow>
    drawn c (fold ungroupNodes gids s) \<and> plain_ids (cv_nodes (fold ungroupNodes gids s)) = plain_ids (cv_nodes s) \<and>
    nodeCounter (fold ungroupNodes gids s) = nodeCounter s"
proof (induction gids arbitrary: s)
  case (Cons g gids)
  from Cons.prems have "g \<notin> plain_ids (cv_nodes s)" by auto
  from drawn_ungroup [OF Cons.prems(1) this] Cons.IH [of "ungroupNodes g s"] Cons.prems(2) show ?case by auto
qed simp

lemma drawn_groupNodes:
  assumes "drawn c s" "groupNodes ids l s = (gid, s')"
  shows "drawn c s' \<and> plain_ids (cv_nodes s') = plain_ids (cv_nodes s) \<and> (gid \<noteq> [] \<longrightarrow> gid \<in> group_ids (cv_nodes s'))"
proof -
  define gids where "gids = dedupe (List.map_filter parentId (filter (\<lambda>n. node_id n \<in> set ids) (cv_nodes s)))"
  define s2 where "s2 = fold ungroupNodes gids s"
  define targets where "targets = filter (\<lambda>n. node_id n \<in> set ids) (cv_nodes s2)"
  define k where "k = nodeCounter (syncCounter (cv_nodes s) s2)"
  define g where "g = group_node (node_name k) l targets"
  define f where "f = (\<lambda>n. if node_id n \<in> set ids then adopt_child (node_name k) (group_corner targets) n else n)"
  have "set gids \<subseteq> group_ids (cv_nodes s)"
    using assms(1) by (auto simp: gids_def List.map_filter_def drawn_def parents_ok_def)
  moreover have d: "distinct (map node_id (cv_nodes s))" using assms(1) by (simp add: drawn_def canvas_ok_def graph_ok_def)
  ultimately have "set gids \<inter> plain_ids (cv_nodes s) = {}" using plain_not_group [OF d] by blast
  from drawn_ungroup_all [OF assms(1) this]
  have s2: "drawn c s2" "plain_ids (cv_nodes s2) = plain_ids (cv_nodes s)" "nodeCounter s2 = nodeCounter s" by (simp_all add: s2_def)
  have eq: "groupNodes ids l s =
     (if length ids < 2 then ([], s) else if length targets < 2 then ([], s2)
      else (node_name k, (syncCounter (cv_nodes s) s2)\<lparr>nodeCounter := Suc k, cv_nodes := g # map f (cv_nodes s2)\<rparr>))"
    unfolding groupNodes_def Let_def gids_def [symmetric] s2_def [symmetric] targets_def [symmetric]
    by (simp add: nextNodeId_def k_def g_def f_def syncCounter_def)
  show ?thesis
  proof (cases "length ids < 2 \<or> length targets < 2")
    case True
    then show ?thesis using eq assms s2 by (auto split: if_splits)
  next
    case False
    then have s': "gid = node_name k" "s' = (syncCounter (cv_nodes s) s2)\<lparr>nodeCounter := Suc k, cv_nodes := g # map f (cv_nodes s2)\<rparr>"
      using eq assms(2) by auto
    have [simp]: "node_id (f n) = node_id n" "group_node_of (f n) = group_node_of n" for n
      by (simp_all add: f_def adopt_child_def group_node_of_def)
    have [simp]: "node_id g = node_name k" "group_node_of g" "parentId g = None"
      by (simp_all add: g_def group_node_def group_node_of_def Let_def)
    have p: "plain_ids (g # map f (cv_nodes s2)) = plain_ids (cv_nodes s2)" by (simp add: ids_map)
    have gr: "group_ids (g # map f (cv_nodes s2)) = insert (node_name k) (group_ids (cv_nodes s2))" by (simp add: ids_map)
    have "parentId (f n) = Some (node_name k) \<or> parentId (f n) = parentId n" for n by (simp add: f_def adopt_child_def)
    moreover have "\<forall>n \<in> set (cv_nodes s2). \<forall>p. parentId n = Some p \<longrightarrow> p \<in> group_ids (cv_nodes s2)"
      using s2(1) by (simp add: drawn_def parents_ok_def)
    ultimately have "parents_ok (g # map f (cv_nodes s2))"
      unfolding parents_ok_def gr by auto (metis option.inject)
    moreover have "canvas_ok s'" using groupNodes_ok [of s ids l] assms by (simp add: drawn_def)
    moreover have "nodeCounter s2 \<le> k" using syncCounter_below(2) [of s2] by (simp add: k_def)
    moreover have "cv_nodes s2 \<noteq> []" using False by (auto simp: targets_def)
    ultimately have "drawn c s'"
      using s2(1) p by (auto simp: drawn_def s' fed_def syncCounter_def)
    then show ?thesis using p gr s2(2) s' by simp
  qed
qed

section \<open>The bridge\<close>

text \<open>The nodes that the bridge knows.\<close>

definition named :: "bridge \<Rightarrow> string set" where
  "named b = set_option (agentNodeId b) \<union> set_option (lastNodeId b) \<union> snd ` set (toolNodeMap b) \<union> set (turnNodeIds b)"

definition bridge_ok :: "bridged \<Rightarrow> bool" where
  "bridge_ok st \<longleftrightarrow> (case st of (b, s) \<Rightarrow>
     drawn (edgeCounter b) s \<and> named b \<subseteq> plain_ids (cv_nodes s) \<and> (lastNodeId b = None \<longrightarrow> cv_nodes s = []))"

text \<open>A change of the canvas that keeps the plain nodes, or of the bridge that keeps what it knows.\<close>

lemma bridge_ok_canvas:
  "bridge_ok (b, s) \<Longrightarrow> drawn (edgeCounter b) s' \<and> plain_ids (cv_nodes s') = plain_ids (cv_nodes s) \<Longrightarrow> bridge_ok (b, s')"
  by (auto simp: bridge_ok_def drawn_def)

lemma bridge_ok_bridge:
  "bridge_ok (b, s) \<Longrightarrow> named b' \<subseteq> named b \<Longrightarrow> edgeCounter b' = edgeCounter b \<Longrightarrow> lastNodeId b' = lastNodeId b \<Longrightarrow> bridge_ok (b', s)"
  by (auto simp: bridge_ok_def)

lemma bridge_ok_update: "bridge_ok (b, s) \<Longrightarrow> bridge_ok (b, updateNode i p s)"
proof -
  assume ok: "bridge_ok (b, s)"
  then have "drawn (edgeCounter b) s" by (simp add: bridge_ok_def)
  with ok show ?thesis by (intro bridge_ok_canvas [OF ok] drawn_updateNode)
qed

lemma nextPosition_frame:
  assumes "nextPosition parent (b, s) = (pos, b1)"
  shows "named b1 = named b" "edgeCounter b1 = edgeCounter b" "lastNodeId b1 = lastNodeId b" "agentNodeId b1 = agentNodeId b"
    "turnNodeIds b1 = turnNodeIds b" "toolNodeMap b1 = toolNodeMap b" "pendingToolInput b1 = pendingToolInput b"
    "agentContent b1 = agentContent b" "turnActive b1 = turnActive b" "br_loading b1 = br_loading b" "eventQueue b1 = eventQueue b"
  using assms by (auto simp: nextPosition_def named_def Let_def split: option.splits if_splits)

lemma follows_last: "bridge_ok (b, s) \<Longrightarrow> can_follow (lastNodeId b) (cv_nodes s)"
  by (auto simp: bridge_ok_def can_follow_def named_def split: option.splits)

lemma follows_agent: "bridge_ok (b, s) \<Longrightarrow> can_follow (agent_or_last b) (cv_nodes s)"
  using follows_last [of b s] by (auto simp: agent_or_last_def bridge_ok_def can_follow_def named_def split: option.splits)

lemma bridge_ok_child:
  assumes "bridge_ok (b, s)" "ty \<noteq> ''group''" "can_follow parent (cv_nodes s)" "new_node ty pos d (b1, s) = (i, (b1', s1))"
    and "edge_from parent i (b2, s1) = (b3, s3)" "edgeCounter b2 = edgeCounter b"
    and "edgeCounter b4 = edgeCounter b3" "lastNodeId b4 = Some i" "named b4 \<subseteq> insert i (named b)"
  shows "bridge_ok (b4, s3)"
proof -
  have "drawn (edgeCounter b) s" using assms(1) by (simp add: bridge_ok_def)
  from drawn_child [OF this assms(2-6)] show ?thesis using assms(1,7-9) by (auto simp: bridge_ok_def)
qed

lemma edge_from_frame:
  assumes "edge_from parent i (b, s) = (b', s')"
  shows "b' = b\<lparr>edgeCounter := edgeCounter b'\<rparr>"
  using assms by (auto simp: edge_from_def bridge_edge_def split: option.splits)

lemma bridge_ok_edge:
  assumes "bridge_ok st" "src \<in> node_id ` set (cv_nodes (snd st))" "tgt \<in> node_id ` set (cv_nodes (snd st))"
  shows "bridge_ok (bridge_edge ty src tgt st) \<and> cv_nodes (snd (bridge_edge ty src tgt st)) = cv_nodes (snd st)"
proof -
  obtain b s where st: "st = (b, s)" by fastforce
  then have "drawn (edgeCounter b) s" using assms(1) by (simp add: bridge_ok_def)
  from drawn_edge [OF this, of src tgt ty] show ?thesis using assms by (auto simp: st bridge_edge_def bridge_ok_def named_def)
qed

lemma bridge_ok_edges:
  assumes "bridge_ok st" "\<And>x. x \<in> set xs \<Longrightarrow> f x \<in> node_id ` set (cv_nodes (snd st)) \<and> g x \<in> node_id ` set (cv_nodes (snd st))"
  shows "bridge_ok (fold (\<lambda>x st'. if P x then st' else bridge_edge (ty x) (f x) (g x) st') xs st)"
  using assms
proof (induction xs arbitrary: st)
  case (Cons x xs)
  have "bridge_ok (if P x then st else bridge_edge (ty x) (f x) (g x) st)"
    "cv_nodes (snd (if P x then st else bridge_edge (ty x) (f x) (g x) st)) = cv_nodes (snd st)"
    using bridge_ok_edge [OF Cons.prems(1), of "f x" "g x" "ty x"] Cons.prems by simp_all
  from Cons.IH [OF this(1)] Cons.prems(2) this(2) show ?case by simp
qed simp

subsection \<open>Operations\<close>

lemma bridge_ok_flags:
  "bridge_ok (b\<lparr>layoutTimer := v\<rparr>, s) = bridge_ok (b, s)" "bridge_ok (b\<lparr>deltaTimer := v\<rparr>, s) = bridge_ok (b, s)"
  "bridge_ok (b\<lparr>agentContent := x\<rparr>, s) = bridge_ok (b, s)" "bridge_ok (b\<lparr>turnActive := v\<rparr>, s) = bridge_ok (b, s)"
  "bridge_ok (b\<lparr>pendingToolInput := p\<rparr>, s) = bridge_ok (b, s)" "bridge_ok (b\<lparr>toolSeqCounter := k\<rparr>, s) = bridge_ok (b, s)"
  "bridge_ok (b\<lparr>currentTurnId := u\<rparr>, s) = bridge_ok (b, s)" "bridge_ok (b\<lparr>br_loading := v\<rparr>, s) = bridge_ok (b, s)"
  "bridge_ok (b\<lparr>eventQueue := q\<rparr>, s) = bridge_ok (b, s)" "bridge_ok (b\<lparr>seenMediaUrls := m\<rparr>, s) = bridge_ok (b, s)"
  by (simp_all add: bridge_ok_def named_def)

lemma scheduleLayout_ok [simp]: "bridge_ok (scheduleLayout st) = bridge_ok st"
  by (cases st) (simp add: scheduleLayout_def bridge_ok_flags)

lemma addPrompt_ok:
  assumes "bridge_ok st" "\<And>p. parentNode = Some p \<Longrightarrow> p \<noteq> [] \<Longrightarrow> p \<in> plain_ids (cv_nodes (snd st))"
  shows "bridge_ok (snd (addPrompt t txt parentNode st))"
proof -
  obtain b s where st: "st = (b, s)" by fastforce
  define prev where "prev = (case parentNode of Some p \<Rightarrow> if p = [] then lastNodeId (fst st) else Some p | None \<Rightarrow> lastNodeId (fst st))"
  have "lastNodeId b = None \<longrightarrow> cv_nodes s = []" using assms(1) by (simp add: st bridge_ok_def)
  then have keep: "(if lastNodeId (fst st) = None \<and> cv_nodes (snd st) \<noteq> [] then restoreLastNode st else st) = st" by (auto simp: st)
  have follow: "can_follow prev (cv_nodes s)"
    using follows_last [of b s] assms by (auto simp: st prev_def can_follow_def split: option.splits)
  obtain i b1 s1 where n: "new_node ''prompt'' (0, 0) [(''nodeType'', SStr ''prompt''), (''label'', SStr ''Prompt''), (''status'', SStr ''done''),
             (''content'', SStr txt), (''startTime'', SNum t)] (b, s) = (i, (b1, s1))" by (metis prod_cases3)
  obtain b2 s2 where e: "edge_from prev i (b1, s1) = (b2, s2)" by fastforce
  have b1: "b1 = b" using n by (simp add: new_node_eq)
  have "snd (addPrompt t txt parentNode st) = (b2\<lparr>lastNodeId := Some i, turnNodeIds := [i]\<rparr>, s2)"
    unfolding addPrompt_def Let_def keep prev_def [symmetric] by (simp add: st n e)
  moreover have "bridge_ok (b2\<lparr>lastNodeId := Some i, turnNodeIds := [i]\<rparr>, s2)"
  proof (rule bridge_ok_child [OF assms(1) [unfolded st] _ follow n e])
    show "named (b2\<lparr>lastNodeId := Some i, turnNodeIds := [i]\<rparr>) \<subseteq> insert i (named b)"
      by (subst edge_from_frame [OF e]) (auto simp: b1 named_def)
  qed (simp_all add: b1)
  ultimately show ?thesis by simp
qed

lemma skill_activation_ok:
  assumes "bridge_ok st"
  shows "bridge_ok (skill_activation t evt st)"
proof -
  obtain b s where st: "st = (b, s)" by fastforce
  note ok = assms [unfolded st]
  obtain pos b1 where p: "nextPosition (lastNodeId b) (b, s) = (pos, b1)" by fastforce
  define d where "d = [(''nodeType'', SStr ''skill''), (''label'', SStr (case ev_name evt of Some n \<Rightarrow> if n = [] then ''Skill'' else n | None \<Rightarrow> ''Skill'')),
     (''status'', SStr ''done''), (''content'', if truthy (getp ''description'' (ev_output evt)) then getp ''description'' (ev_output evt) else SStr []),
     (''startTime'', SNum t)]"
  obtain i b1' s1 where n: "new_node ''skill'' pos d (b1, s) = (i, (b1', s1))" by (metis prod_cases3)
  obtain b2 s2 where e: "edge_from (lastNodeId b) i (b1', s1) = (b2, s2)" by fastforce
  have b1': "b1' = b1" using n by (simp add: new_node_eq)
  have "skill_activation t evt st = scheduleLayout (b2\<lparr>lastNodeId := Some i, turnNodeIds := turnNodeIds b2 @ [i]\<rparr>, s2)"
    unfolding skill_activation_def Let_def by (simp add: st p n [unfolded d_def] e)
  moreover have "bridge_ok (b2\<lparr>lastNodeId := Some i, turnNodeIds := turnNodeIds b2 @ [i]\<rparr>, s2)"
  proof (rule bridge_ok_child [OF ok _ follows_last [OF ok] n e])
    show "named (b2\<lparr>lastNodeId := Some i, turnNodeIds := turnNodeIds b2 @ [i]\<rparr>) \<subseteq> insert i (named b)"
      unfolding nextPosition_frame(1) [OF p, symmetric] by (subst (1 2) edge_from_frame [OF e]) (auto simp: b1' named_def)
  qed (simp_all add: b1' nextPosition_frame [OF p])
  ultimately show ?thesis by simp
qed

lemma content_block_start_ok:
  assumes "bridge_ok st"
  shows "bridge_ok (content_block_start t st)"
proof (cases "agentNodeId (fst st) \<noteq> None \<and> turnActive (fst st)")
  case True
  then show ?thesis using assms by (simp add: content_block_start_def)
next
  case False
  obtain b s where st: "st = (b, s)" by fastforce
  note ok = assms [unfolded st]
  obtain pos b1 where p: "nextPosition (lastNodeId b) (b, s) = (pos, b1)" by fastforce
  define d where "d = [(''nodeType'', SStr ''agent''), (''label'', SStr ''Thinking''), (''status'', SStr ''running''),
     (''content'', SStr []), (''startTime'', SNum t)]"
  obtain i b2 s2 where n: "new_node ''agent'' pos d (b1, s) = (i, (b2, s2))" by (metis prod_cases3)
  define b2' where "b2' = b2\<lparr>agentNodeId := Some i, agentContent := [], turnActive := True, turnNodeIds := turnNodeIds b2 @ [i]\<rparr>"
  obtain b3 s3 where e: "edge_from (lastNodeId b) i (b2', s2) = (b3, s3)" by fastforce
  have b2: "b2 = b1" using n by (simp add: new_node_eq)
  have "content_block_start t st = scheduleLayout (b3\<lparr>lastNodeId := Some i\<rparr>, s3)"
    unfolding content_block_start_def Let_def using False by (auto simp: st p n [unfolded d_def] e [unfolded b2'_def])
  moreover have "bridge_ok (b3\<lparr>lastNodeId := Some i\<rparr>, s3)"
  proof (rule bridge_ok_child [OF ok _ follows_last [OF ok] n e])
    show "named (b3\<lparr>lastNodeId := Some i\<rparr>) \<subseteq> insert i (named b)"
      unfolding nextPosition_frame(1) [OF p, symmetric] by (subst edge_from_frame [OF e]) (auto simp: b2 b2'_def named_def)
  qed (simp_all add: b2 b2'_def nextPosition_frame [OF p])
  ultimately show ?thesis by simp
qed

lemma snd_update_subset: "snd ` set (AList.update k v m) \<subseteq> insert v (snd ` set m)"
  by (induction m) auto

lemma createToolNode_ok:
  assumes "bridge_ok st" "createToolNode t toolId name st = (r, st')"
  shows "bridge_ok st' \<and> (\<forall>i. r = Some i \<longrightarrow> i \<in> node_id ` set (cv_nodes (snd st')))"
proof -
  obtain b s where st: "st = (b, s)" by fastforce
  note ok = assms(1) [unfolded st]
  obtain pos b1 where p: "nextPosition (agent_or_last b) (b, s) = (pos, b1)" by fastforce
  show ?thesis
  proof (cases "generateNodeLabel name (pendingToolInput b1)")
    case None
    then have "st' = (b1, s)" "r = None" using assms(2) by (simp_all add: createToolNode_def st p)
    then show ?thesis using bridge_ok_bridge [OF ok, of b1] nextPosition_frame [OF p] by simp
  next
    case (Some l)
    define d where "d = [(''nodeType'', SStr ''tool''), (''label'', SStr l), (''toolName'', SStr name),
       (''toolParams'', pendingToolInput b1), (''status'', SStr ''running''), (''startTime'', SNum t)]"
    obtain i b2 s2 where n: "new_node ''tool'' pos d (b1, s) = (i, (b2, s2))" by (metis prod_cases3)
    define b2' where "b2' = b2\<lparr>pendingToolInput := SUndef, toolNodeMap := AList.update toolId i (toolNodeMap b2), turnNodeIds := turnNodeIds b2 @ [i]\<rparr>"
    obtain b3 s3 where e: "edge_from (agent_or_last b) i (b2', s2) = (b3, s3)" by fastforce
    have b2: "b2 = b1" using n by (simp add: new_node_eq)
    have r: "r = Some i" "st' = (b3\<lparr>lastNodeId := Some i\<rparr>, s3)"
      using assms(2) Some unfolding createToolNode_def st by (auto simp: p n [unfolded d_def] e [unfolded b2'_def])
    have "bridge_ok (b3\<lparr>lastNodeId := Some i\<rparr>, s3)"
    proof (rule bridge_ok_child [OF ok _ follows_agent [OF ok] n e])
      show "named (b3\<lparr>lastNodeId := Some i\<rparr>) \<subseteq> insert i (named b)"
        unfolding nextPosition_frame(1) [OF p, symmetric]
        by (subst edge_from_frame [OF e]) (use snd_update_subset [of toolId i "toolNodeMap b1"] in \<open>auto simp: b2 b2'_def named_def\<close>)
    qed (simp_all add: b2 b2'_def nextPosition_frame [OF p])
    then show ?thesis using r by (auto simp: bridge_ok_def named_def ids_split)
  qed
qed

lemma linkMediaReferences_ok:
  assumes "bridge_ok st" "i \<in> node_id ` set (cv_nodes (snd st))"
  shows "bridge_ok (linkMediaReferences i input st)"
proof -
  define xs where "xs = filter (refers (ref_urls input)) (cv_nodes (snd st))"
  have "node_id n \<in> node_id ` set (cv_nodes (snd st)) \<and> i \<in> node_id ` set (cv_nodes (snd st))" if "n \<in> set xs" for n
    using that assms(2) by (simp add: xs_def)
  from bridge_ok_edges [OF assms(1), where xs = xs and f = node_id and g = "\<lambda>_. i" and P = "\<lambda>_. False", OF this]
  show ?thesis using assms(1) by (simp add: linkMediaReferences_def xs_def)
qed

lemma tool_start_ok:
  assumes "bridge_ok st"
  shows "bridge_ok (tool_start t evt st)"
proof -
  obtain b s where st: "st = (b, s)" by fastforce
  have made: "bridge_ok (case createToolNode t toolId name (b'\<lparr>pendingToolInput := inp\<rparr>, s) of
        (None, st1) \<Rightarrow> st1 | (Some i, st1) \<Rightarrow> scheduleLayout (linkMediaReferences i inp st1))"
    if "bridge_ok (b', s)" for b' toolId name inp
  proof -
    obtain r st1 where c: "createToolNode t toolId name (b'\<lparr>pendingToolInput := inp\<rparr>, s) = (r, st1)" by (metis surj_pair)
    have "bridge_ok (b'\<lparr>pendingToolInput := inp\<rparr>, s)" using that by (simp add: bridge_ok_flags)
    from createToolNode_ok [OF this c] show ?thesis by (auto simp: c linkMediaReferences_ok split: option.splits)
  qed
  have "bridge_ok (b, s)" "bridge_ok (b\<lparr>toolSeqCounter := k\<rparr>, s)" for k using assms by (simp_all add: st bridge_ok_flags)
  then show ?thesis using made by (auto simp: tool_start_def st Let_def bridge_ok_flags split: option.split)
qed

lemma media_result_node_ok:
  assumes "bridge_ok st"
  shows "bridge_ok (media_result_node t ty u st)"
proof -
  obtain b s where st: "st = (b, s)" by fastforce
  note ok = assms [unfolded st]
  obtain pos b1 where p: "nextPosition (agent_or_last b) (b, s) = (pos, b1)" by fastforce
  define d where "d = [(''nodeType'', SStr (media_node_type ty)), (''label'', SStr (media_label ty)),
     (''status'', SStr ''done''), (''mediaType'', SStr ty), (''mediaUrl'', SStr u), (''startTime'', SNum t), (''endTime'', SNum t)]"
  obtain i b1' s1 where n: "new_node (media_node_type ty) pos d (b1, s) = (i, (b1', s1))" by (metis prod_cases3)
  obtain b2 s2 where e: "edge_from (agent_or_last b) i (b1', s1) = (b2, s2)" by fastforce
  have b1': "b1' = b1" using n by (simp add: new_node_eq)
  have "media_result_node t ty u st = scheduleLayout (b2\<lparr>lastNodeId := Some i, turnNodeIds := turnNodeIds b2 @ [i]\<rparr>, s2)"
    unfolding media_result_node_def Let_def by (simp add: st p n [unfolded d_def] e)
  moreover have "bridge_ok (b2\<lparr>lastNodeId := Some i, turnNodeIds := turnNodeIds b2 @ [i]\<rparr>, s2)"
  proof (rule bridge_ok_child [OF ok _ follows_agent [OF ok] n e])
    show "named (b2\<lparr>lastNodeId := Some i, turnNodeIds := turnNodeIds b2 @ [i]\<rparr>) \<subseteq> insert i (named b)"
      unfolding nextPosition_frame(1) [OF p, symmetric] by (subst (1 2) edge_from_frame [OF e]) (auto simp: b1' named_def)
  qed (simp_all add: b1' nextPosition_frame [OF p] media_node_type_def)
  ultimately show ?thesis by simp
qed

lemma drawn_upgrade:
  fixes t :: rat and ty u :: string
  assumes "drawn c s" "i \<in> plain_ids (cv_nodes s)"
  defines "f \<equiv> \<lambda>n. if node_id n = i then upgrade_node t ty u n else n"
  shows "drawn c (s\<lparr>cv_nodes := map f (cv_nodes s)\<rparr>) \<and> plain_ids (map f (cv_nodes s)) = plain_ids (cv_nodes s)"
proof (rule drawn_map [OF assms(1)])
  fix n assume n: "n \<in> set (cv_nodes s)"
  have "distinct (map node_id (cv_nodes s))" using assms(1) by (simp add: drawn_def canvas_ok_def graph_ok_def)
  then have "i \<notin> group_ids (cv_nodes s)" using plain_not_group assms(2) by blast
  then have "node_id n = i \<longrightarrow> \<not> group_node_of n" using n by (auto simp: group_ids_def)
  moreover have "\<not> group_node_of (upgrade_node t ty u n)" "node_id (upgrade_node t ty u n) = node_id n" "parentId (upgrade_node t ty u n) = parentId n"
    by (simp_all add: upgrade_node_def group_node_of_def media_node_type_def)
  ultimately show "shape (f n) = shape n" by (simp add: f_def shape_def)
qed

lemma tool_result_ok:
  assumes "bridge_ok st"
  shows "bridge_ok (tool_result t evt st)"
proof -
  obtain b s where st: "st = (b, s)" by fastforce
  have seen: "bridge_ok (b, s)" "bridge_ok (remember_url u b, s)" for u
    using assms by (simp_all add: st remember_url_def Let_def bridge_ok_flags)
  have upgraded: "bridge_ok (b', s\<lparr>cv_nodes := map (\<lambda>n. if node_id n = i then upgrade_node t ty u n else n) (cv_nodes s)\<rparr>)"
    if "bridge_ok (b', s)" "map_of (toolNodeMap b') k = Some i" for b' k i ty u
  proof (rule bridge_ok_canvas [OF that(1)])
    have "i \<in> snd ` set (toolNodeMap b')" using image_eqI [OF _ map_of_SomeD [OF that(2)], of i snd] by simp
    then have "i \<in> plain_ids (cv_nodes s)" using that(1) by (auto simp: bridge_ok_def named_def)
    moreover have "drawn (edgeCounter b') s" using that(1) by (simp add: bridge_ok_def)
    ultimately show "drawn (edgeCounter b') (s\<lparr>cv_nodes := map (\<lambda>n. if node_id n = i then upgrade_node t ty u n else n) (cv_nodes s)\<rparr>) \<and>
        plain_ids (cv_nodes (s\<lparr>cv_nodes := map (\<lambda>n. if node_id n = i then upgrade_node t ty u n else n) (cv_nodes s)\<rparr>)) = plain_ids (cv_nodes s)"
      using drawn_upgrade by simp
  qed
  show ?thesis unfolding tool_result_def st Let_def
    by (auto simp: bridge_ok_update media_result_node_ok seen upgraded split: option.splits if_splits)
qed

lemma show_content_ok: "bridge_ok (b, s) \<Longrightarrow> bridge_ok (b, show_content (b, s))"
  by (simp add: show_content_def bridge_ok_update split: option.split)

lemma processEvent_ok: "bridge_ok st \<Longrightarrow> bridge_ok (processEvent stringify t evt st)"
  by (cases st) (auto simp: processEvent_def bridge_ok_flags skill_activation_ok content_block_start_ok content_block_delta_def
      content_block_stop_def show_content_ok tool_start_ok tool_output_def tool_result_ok bridge_ok_update split: option.split)

lemma setLoading_ok:
  assumes "bridge_ok st"
  shows "bridge_ok (setLoading stringify t v st)"
proof -
  have "bridge_ok st' \<Longrightarrow> bridge_ok (process_queued stringify t evs st')" for evs st'
    by (induction evs arbitrary: st') (simp_all add: processEvent_ok Let_def)
  then show ?thesis using assms by (cases st) (simp add: setLoading_def Let_def bridge_ok_flags)
qed

subsection \<open>The end of a turn\<close>

lemma linkParentGroups_ok:
  assumes "bridge_ok st" "gid \<in> group_ids (cv_nodes (snd st))"
  shows "bridge_ok (linkParentGroups gid st)"
proof -
  define ns where "ns = cv_nodes (snd st)"
  define h where "h = (\<lambda>e :: canvas_edge. if edge_target e \<notin> node_id ` set (filter (\<lambda>n. parentId n = Some gid) ns) then None
     else case node_by_id ns (edge_source e) of None \<Rightarrow> None | Some n \<Rightarrow> if parentId n = Some gid then None else parentId n)"
  have "p \<in> group_ids ns" if he: "h e = Some p" for e p
  proof -
    obtain n where "node_by_id ns (edge_source e) = Some n" "parentId n = Some p" using he by (auto simp: h_def split: if_splits option.splits)
    moreover have "parents_ok ns" using assms(1) by (auto simp: bridge_ok_def drawn_def ns_def split: prod.splits)
    ultimately show ?thesis by (auto simp: node_by_id_def parents_ok_def dest!: find_Some_setD)
  qed
  then have "p \<in> group_ids ns" if "p \<in> set (dedupe (List.map_filter h (cv_edges (snd st))))" for p
    using that by (force simp: List.map_filter_def)
  then have ends: "p \<in> node_id ` set (cv_nodes (snd st)) \<and> gid \<in> node_id ` set (cv_nodes (snd st))"
    if "p \<in> set (dedupe (List.map_filter h (cv_edges (snd st))))" for p
    using that assms(2) by (simp add: ids_split ns_def [symmetric])
  have "bridge_ok (fold (\<lambda>p st'. if P p then st' else bridge_edge ''flow'' p gid st') (dedupe (List.map_filter h (cv_edges (snd st)))) st)" for P
    by (rule bridge_ok_edges [OF assms(1), where f = "\<lambda>p. p" and g = "\<lambda>_. gid" and ty = "\<lambda>_. ''flow''"]) (rule ends)
  then show ?thesis unfolding linkParentGroups_def Let_def ns_def [symmetric] h_def [symmetric] .
qed

lemma drawn_commit: "drawn c s \<Longrightarrow> drawn c (commitHistory s)"
  using drawn_shape [of c s "commitHistory s"] commitHistory_ok [of s] by (simp add: drawn_def)

lemma group_turn_ok:
  assumes "bridge_ok st"
  shows "bridge_ok (group_turn st)"
proof -
  obtain b s where st: "st = (b, s)" by fastforce
  obtain gid s1 where g: "groupNodes (turnNodeIds b) (Some (turn_label st)) s = (gid, s1)" by fastforce
  have "drawn (edgeCounter b) s" using assms by (simp add: st bridge_ok_def)
  note d = drawn_groupNodes [OF this g]
  then have "bridge_ok (b, s1)" using bridge_ok_canvas [OF assms [unfolded st]] by simp
  moreover from this d have "gid \<noteq> [] \<Longrightarrow> bridge_ok (linkParentGroups gid (b, s1))" using linkParentGroups_ok by simp
  ultimately show ?thesis using assms g by (simp add: group_turn_def st)
qed

lemma finalize_ok:
  assumes "bridge_ok st"
  shows "bridge_ok (finalize cmp t st)"
proof -
  have "bridge_ok (finish_agent t st)" using assms
    by (cases st) (simp add: finish_agent_def bridge_ok_flags bridge_ok_update split: option.split)
  then have "bridge_ok (group_turn (finish_agent t st))" by (rule group_turn_ok)
  then obtain b s where g: "group_turn (finish_agent t st) = (b, s)" "bridge_ok (b, s)" by (metis surj_pair)
  define s' where "s' = s\<lparr>cv_nodes := autoLayoutGraph cmp (cv_nodes s) (cv_edges s) (cv_layoutMode s)\<rparr>"
  have "drawn (edgeCounter b) s" using g(2) by (simp add: bridge_ok_def)
  then have "drawn (edgeCounter b) s'" "plain_ids (cv_nodes s') = plain_ids (cv_nodes s)"
    using drawn_layout [of "edgeCounter b" s cmp "cv_layoutMode s"] by (simp_all add: s'_def)
  then have "drawn (edgeCounter b) (deferredFitView (commitHistory s'))" "plain_ids (cv_nodes (deferredFitView (commitHistory s'))) = plain_ids (cv_nodes s)"
    using drawn_commit drawn_frame [of "edgeCounter b" "commitHistory s'" "deferredFitView (commitHistory s')"]
    by (simp_all add: deferredFitView_def)
  then show ?thesis using bridge_ok_canvas [OF g(2)] g by (simp add: finalize_def s'_def)
qed

lemma setCurrentTurnId_ok: "bridge_ok st \<Longrightarrow> bridge_ok (setCurrentTurnId tid st)"
proof -
  assume "bridge_ok st"
  moreover have "bridge_ok (b, s) \<Longrightarrow> bridge_ok (b, fold (\<lambda>i. updateNode i p) ids s)" for b s ids p
    by (induction ids arbitrary: s) (simp_all add: bridge_ok_update)
  ultimately show ?thesis by (cases st) (simp add: setCurrentTurnId_def bridge_ok_flags)
qed

section \<open>Conversations\<close>

text \<open>What happens to the bridge and the canvas while a conversation goes on: prompts, events, timers, answers of the media
  cache, the ends of turns and loading. The user may edit nodes, pin, collapse, align and lay them out, but neither add, remove
  nor group nodes or edges, undo or load.\<close>

datatype bridge_op =
  BPrompt rat string "string option"
| BTurnId string
| BEvent rat stream_event
| BDeltaTimer
| BLayoutTimer
| BCached string string "stored option option"
| BFinalize rat
| BLoading rat bool
| BUser canvas_op

definition keeps_nodes :: "canvas_op \<Rightarrow> bool" where
  "keeps_nodes op \<longleftrightarrow> (case op of OpUpdateNode _ _ \<Rightarrow> True | OpTogglePin _ \<Rightarrow> True | OpCollapse _ \<Rightarrow> True | OpExpand _ \<Rightarrow> True
     | OpAlign _ _ \<Rightarrow> True | OpCommit \<Rightarrow> True | OpAutoLayout \<Rightarrow> True | _ \<Rightarrow> False)"

fun bridge_allowed :: "bridge_op \<Rightarrow> bridged \<Rightarrow> bool" where
  "bridge_allowed (BPrompt t txt (Some p)) st \<longleftrightarrow> p = [] \<or> p \<in> plain_ids (cv_nodes (snd st))"
| "bridge_allowed (BUser op) st \<longleftrightarrow> keeps_nodes op"
| "bridge_allowed _ st \<longleftrightarrow> True"

fun bridge_apply :: "locale_order \<Rightarrow> (stored \<Rightarrow> string) \<Rightarrow> bridge_op \<Rightarrow> bridged \<Rightarrow> bridged" where
  "bridge_apply cmp stringify (BPrompt t txt p) st = snd (addPrompt t txt p st)"
| "bridge_apply cmp stringify (BTurnId i) st = setCurrentTurnId i st"
| "bridge_apply cmp stringify (BEvent t evt) st = processEvent stringify t evt st"
| "bridge_apply cmp stringify BDeltaTimer st = delta_timer_fires st"
| "bridge_apply cmp stringify BLayoutTimer st = layout_timer_fires st"
| "bridge_apply cmp stringify (BCached i u answer) st = (fst st, stabilizeMediaNode i u (cacheCanvasMedia answer u) (snd st))"
| "bridge_apply cmp stringify (BFinalize t) st = finalize cmp t st"
| "bridge_apply cmp stringify (BLoading t v) st = setLoading stringify t v st"
| "bridge_apply cmp stringify (BUser op) st = (fst st, canvas_apply cmp (\<lambda>_. 0) op (snd st))"

inductive conversation :: "locale_order \<Rightarrow> (stored \<Rightarrow> string) \<Rightarrow> bridged \<Rightarrow> bool" for cmp stringify where
  conv_start: "conversation cmp stringify (new_bridge, initial_canvas)"
| conv_step: "conversation cmp stringify st \<Longrightarrow> bridge_allowed op st \<Longrightarrow> conversation cmp stringify (bridge_apply cmp stringify op st)"

lemma user_ok:
  assumes "drawn c s" "keeps_nodes op"
  shows "drawn c (canvas_apply cmp time op s) \<and> plain_ids (cv_nodes (canvas_apply cmp time op s)) = plain_ids (cv_nodes s)"
proof (cases op)
  case OpCommit
  then show ?thesis using drawn_commit [OF assms(1)] by simp
next
  case OpAutoLayout
  show ?thesis using OpAutoLayout drawn_layout [OF drawn_commit [OF assms(1)], of cmp "cv_layoutMode s"] 
    drawn_frame [of c "commitHistory s\<lparr>cv_nodes := autoLayoutGraph cmp (cv_nodes s) (cv_edges s) (cv_layoutMode s)\<rparr>" "auto_layout_key cmp s"]
    by (simp add: auto_layout_key_def deferredFitView_def Let_def)
next
  case (OpAlign ids al)
  then show ?thesis using drawn_map [OF assms(1)] assms(1)
    by (auto simp: alignNodes_def Let_def shape_def group_node_of_def)
qed (use assms drawn_map [OF assms(1)] drawn_updateNode in \<open>auto simp: keeps_nodes_def togglePinNode_def collapseGroup_def expandGroup_def
      set_collapsed_def shape_def group_node_of_def\<close>)

lemma conversation_ok: "conversation cmp stringify st \<Longrightarrow> bridge_ok st"
proof (induction rule: conversation.induct)
  case conv_start
  then show ?case by (simp add: bridge_ok_def new_bridge_def initial_canvas_def named_def drawn_def parents_ok_def empty_canvas_ok)
next
  case (conv_step st op)
  obtain b s where st: "st = (b, s)" by fastforce
  show ?case
  proof (cases op)
    case (BPrompt t body p)
    then show ?thesis using conv_step addPrompt_ok [of st p] by (cases p) auto
  next
    case (BUser op')
    then have "drawn (edgeCounter b) s" "keeps_nodes op'" using conv_step by (simp_all add: st bridge_ok_def)
    from user_ok [OF this] show ?thesis using BUser bridge_ok_canvas [of b s] conv_step.IH by (simp add: st)
  next
    case BLayoutTimer
    then show ?thesis using conv_step.IH
      by (simp add: st layout_timer_fires_def bridge_ok_flags) (auto simp: bridge_ok_def triggerFitView_def intro: drawn_frame)
  next
    case (BCached i u answer)
    then show ?thesis using conv_step.IH by (simp add: st stabilizeMediaNode_def bridge_ok_update)
  qed (use conv_step.IH in \<open>simp_all add: st setCurrentTurnId_ok processEvent_ok delta_timer_fires_def bridge_ok_flags show_content_ok finalize_ok setLoading_ok\<close>)
qed

section \<open>The agent's node\<close>

text \<open>What the stream of an answer depends on.\<close>

definition live :: "bridge \<Rightarrow> string option \<times> bool \<times> string \<times> bool \<times> stream_event list" where
  "live b = (agentNodeId b, turnActive b, agentContent b, br_loading b, eventQueue b)"

definition agents :: "canvas_state \<Rightarrow> nat" where
  "agents s = length (filter (\<lambda>n. node_type n = Some ''agent'') (cv_nodes s))"

lemma live_next: "nextPosition parent (b, s) = (pos, b1) \<Longrightarrow> live b1 = live b"
  by (simp add: live_def nextPosition_frame)

lemma live_edges [simp]: "live (fst (bridge_edge ty x y st)) = live (fst st)" "agents (snd (bridge_edge ty x y st)) = agents (snd st)"
  by (cases st; simp add: bridge_edge_def live_def agents_def addEdge_def)+

lemma live_edge_from [simp]: "live (fst (edge_from p i st)) = live (fst st)" "agents (snd (edge_from p i st)) = agents (snd st)"
  by (simp_all add: edge_from_def split: option.split)

lemma live_links [simp]: "live (fst (linkMediaReferences i inp st)) = live (fst st)" "agents (snd (linkMediaReferences i inp st)) = agents (snd st)"
proof -
  have "live (fst (fold (\<lambda>n. bridge_edge (f n) (node_id n) i) ns st)) = live (fst st) \<and> agents (snd (fold (\<lambda>n. bridge_edge (f n) (node_id n) i) ns st)) = agents (snd st)" for f and ns :: "canvas_node list" and st
    by (induction ns arbitrary: st) simp_all
  then show "live (fst (linkMediaReferences i inp st)) = live (fst st)" "agents (snd (linkMediaReferences i inp st)) = agents (snd st)"
    by (simp_all add: linkMediaReferences_def)
qed

lemma live_schedule [simp]: "live (fst (scheduleLayout st)) = live (fst st)" "snd (scheduleLayout st) = snd st"
  by (simp_all add: scheduleLayout_def live_def)

lemma agents_update [simp]: "agents (updateNode i p s) = agents s"
  by (simp add: agents_def updateNode_def filter_map comp_def if_distrib [of node_type] cong: if_cong)

lemma agents_append: "agents (s\<lparr>nodeCounter := k, cv_nodes := cv_nodes s @ [plain_node i ty pos d]\<rparr>) = agents s + (if ty = ''agent'' then 1 else 0)"
  by (simp add: agents_def plain_node_def)

lemma live_new_node:
  assumes "new_node ty pos d (b, s) = (i, (b1, s1))"
  shows "b1 = b" "agents s1 = agents s + (if ty = ''agent'' then 1 else 0)"
  using assms by (auto simp: new_node_eq agents_append)

text \<open>A new node of another type that hangs on a parent.\<close>

lemma live_child:
  assumes "nextPosition q (b, s) = (pos, b1)" "new_node ty pos d (b1, s) = (i, (b2, s2))" "edge_from parent i (b3, s2) = (b4, s4)"
    and "live b3 = live b2" "ty \<noteq> ''agent''"
  shows "live b4 = live b \<and> agents s4 = agents s"
  using assms live_next [OF assms(1)] live_new_node [OF assms(2)] live_edge_from [of parent i "(b3, s2)"] by simp

lemma live_skill: "live (fst (skill_activation t evt (b, s))) = live b \<and> agents (snd (skill_activation t evt (b, s))) = agents s"
proof -
  obtain pos b1 where p: "nextPosition (lastNodeId b) (b, s) = (pos, b1)" by fastforce
  show ?thesis using live_child [OF p]
    by (auto simp: skill_activation_def Let_def p split: prod.splits) (auto simp: live_def)
qed

lemma live_createToolNode:
  assumes "createToolNode t k name (b, s) = (r, st')"
  shows "live (fst st') = live b \<and> agents (snd st') = agents s"
proof -
  obtain pos b1 where p: "nextPosition (agent_or_last b) (b, s) = (pos, b1)" by fastforce
  show ?thesis using assms live_next [OF p] live_child [OF p]
    by (auto simp: createToolNode_def Let_def p split: prod.splits option.splits) (auto simp: live_def)
qed

lemma live_tool_start: "live (fst (tool_start t evt (b, s))) = live b \<and> agents (snd (tool_start t evt (b, s))) = agents s"
proof -
  have made: "live (fst r) = live b' \<and> agents (snd r) = agents s"
    if "r = (case createToolNode t k name (b'\<lparr>pendingToolInput := inp\<rparr>, s) of
        (None, st1) \<Rightarrow> st1 | (Some i, st1) \<Rightarrow> scheduleLayout (linkMediaReferences i inp st1))" for r b' k name inp
  proof -
    obtain q st1 where c: "createToolNode t k name (b'\<lparr>pendingToolInput := inp\<rparr>, s) = (q, st1)" by (metis surj_pair)
    have "live (b'\<lparr>pendingToolInput := inp\<rparr>) = live b'" by (simp add: live_def)
    with live_createToolNode [OF c] show ?thesis using that by (cases q) (simp_all add: c)
  qed
  have "live (b\<lparr>toolSeqCounter := k\<rparr>) = live b" "live (b'\<lparr>pendingToolInput := inp\<rparr>) = live b'" for k b' inp by (simp_all add: live_def)
  then show ?thesis using made [OF refl] by (simp add: tool_start_def Let_def split: option.split)
qed

lemma agents_upgrade: "agents (s\<lparr>cv_nodes := map (\<lambda>n. if node_id n = i then upgrade_node t ty u n else n) (cv_nodes s)\<rparr>) \<le> agents s"
proof -
  have "length (filter (\<lambda>n. node_type n = Some ''agent'') (map (\<lambda>n. if node_id n = i then upgrade_node t ty u n else n) ns))
      \<le> length (filter (\<lambda>n. node_type n = Some ''agent'') ns)" for ns
    by (induction ns) (auto simp: upgrade_node_def media_node_type_def)
  then show ?thesis by (simp add: agents_def)
qed

lemma live_tool_result: "live (fst (tool_result t evt (b, s))) = live b \<and> agents (snd (tool_result t evt (b, s))) \<le> agents s"
proof -
  have media: "live (fst (media_result_node t ty u (b', s))) = live b' \<and> agents (snd (media_result_node t ty u (b', s))) = agents s" for ty u b'
  proof -
    obtain pos b1 where p: "nextPosition (agent_or_last b') (b', s) = (pos, b1)" by fastforce
    show ?thesis using live_child [OF p, where ty = "media_node_type ty"]
      by (auto simp: media_result_node_def Let_def p media_node_type_def split: prod.splits) (auto simp: live_def)
  qed
  have "live (remember_url u b) = live b" for u by (simp add: remember_url_def live_def Let_def)
  then show ?thesis using media agents_upgrade by (simp add: tool_result_def Let_def split: option.split)
qed

definition delta_text :: "stream_event \<Rightarrow> string" where
  "delta_text evt = (if ev_type evt = ''content_block_delta'' then (case ev_text evt of Some x \<Rightarrow> x | None \<Rightarrow> []) else [])"

lemma live_active:
  assumes "live b = (Some a, True, x, False, q)"
  shows "live (fst (processEvent stringify t evt (b, s))) = (Some a, True, x @ delta_text evt, False, q) \<and>
    agents (snd (processEvent stringify t evt (b, s))) \<le> agents s"
proof -
  have b: "agentNodeId b = Some a" "turnActive b" "agentContent b = x" "\<not> br_loading b" "eventQueue b = q" using assms by (simp_all add: live_def)
  have "live (b\<lparr>deltaTimer := v\<rparr>) = live b" for v by (simp add: live_def)
  then show ?thesis using assms b live_skill [of t evt b s] live_tool_start [of t evt b s] live_tool_result [of t evt b s]
    by (auto simp: processEvent_def content_block_start_def content_block_delta_def content_block_stop_def show_content_def
        tool_output_def delta_text_def split: option.split) (simp_all add: live_def)
qed

lemma live_events:
  assumes "live b = (Some a, True, x, False, q)" "fold (processEvent stringify t) evs (b, s) = (b', s')"
  shows "live b' = (Some a, True, x @ concat (map delta_text evs), False, q) \<and> agents s' \<le> agents s"
  using assms
proof (induction evs arbitrary: b s x)
  case (Cons evt evs)
  obtain b1 s1 where p: "processEvent stringify t evt (b, s) = (b1, s1)" by fastforce
  have "live b1 = (Some a, True, x @ delta_text evt, False, q)" "agents s1 \<le> agents s"
    using live_active [OF Cons.prems(1), of stringify t evt s] p by simp_all
  moreover have "fold (processEvent stringify t) evs (b1, s1) = (b', s')" using Cons.prems(2) p by simp
  ultimately show ?case using Cons.IH [of b1 "x @ delta_text evt" s1] by simp
qed simp

text \<open>Before the answer has begun, no event but its start makes an agent's node.\<close>

lemma live_idle:
  assumes "\<not> (agentNodeId b \<noteq> None \<and> turnActive b)" "\<not> br_loading b" "ev_type evt \<noteq> ''content_block_start''"
  shows "\<not> (agentNodeId (fst (processEvent stringify t evt (b, s))) \<noteq> None \<and> turnActive (fst (processEvent stringify t evt (b, s)))) \<and>
    \<not> br_loading (fst (processEvent stringify t evt (b, s))) \<and> agents (snd (processEvent stringify t evt (b, s))) \<le> agents s"
  using assms live_skill [of t evt b s] live_tool_start [of t evt b s] live_tool_result [of t evt b s]
  by (auto simp: processEvent_def content_block_delta_def content_block_stop_def show_content_def tool_output_def live_def split: option.split)

lemma live_begin:
  assumes "\<not> (agentNodeId b \<noteq> None \<and> turnActive b)" "\<not> br_loading b"
  shows "\<exists>a q. live (fst (content_block_start t (b, s))) = (Some a, True, [], False, q) \<and> agents (snd (content_block_start t (b, s))) = Suc (agents s)
    \<and> map node_id (cv_nodes (snd (content_block_start t (b, s)))) = map node_id (cv_nodes s) @ [a]"
proof -
  obtain pos b1 where p: "nextPosition (lastNodeId b) (b, s) = (pos, b1)" by fastforce
  have "br_loading b1 = br_loading b" using p by (rule nextPosition_frame)
  with assms show ?thesis
    by (auto simp: content_block_start_def Let_def p new_node_eq agents_append split: prod.splits)
      (auto simp: edge_from_def bridge_edge_def live_def agents_def addEdge_def plain_node_def split: option.splits)
qed

lemma one_agent_node:
  assumes "\<not> br_loading b" "fold (processEvent stringify t) evs (b, s) = (b', s')"
  shows "agents s' \<le> Suc (agents s)"
  using assms
proof (induction evs arbitrary: b s)
  case (Cons evt evs)
  show ?case
  proof (cases "agentNodeId b \<noteq> None \<and> turnActive b")
    case True
    then have "live b = (Some (the (agentNodeId b)), True, agentContent b, False, eventQueue b)" using Cons.prems(1) by (auto simp: live_def)
    from live_events [OF this Cons.prems(2)] show ?thesis by simp
  next
    case idle: False
    obtain b1 s1 where p: "processEvent stringify t evt (b, s) = (b1, s1)" by fastforce
    then have rest: "fold (processEvent stringify t) evs (b1, s1) = (b', s')" using Cons.prems(2) by simp
    show ?thesis
    proof (cases "ev_type evt = ''content_block_start''")
      case True
      then have "content_block_start t (b, s) = (b1, s1)" using p Cons.prems(1) by (simp add: processEvent_def)
      with live_begin [OF idle Cons.prems(1), of t s] obtain a q where "live b1 = (Some a, True, [], False, q)" "agents s1 = Suc (agents s)" by auto
      from live_events [OF this(1) rest] this(2) show ?thesis by simp
    next
      case False
      from live_idle [OF idle Cons.prems(1) False, of stringify t s] p
      have "\<not> br_loading b1" "agents s1 \<le> agents s" by simp_all
      from Cons.IH [OF this(1) rest] this(2) show ?thesis by simp
    qed
  qed
qed simp

lemma updateNode_in: "n \<in> set (cv_nodes (updateNode i p s)) \<Longrightarrow> node_id n = i \<Longrightarrow> \<exists>d. node_data n = merge_data d p"
proof -
  have "\<forall>x \<in> set (cv_nodes (updateNode i p s)). node_id x = i \<longrightarrow> (\<exists>d. node_data x = merge_data d p)"
  proof -
    let ?f = "\<lambda>n. if node_id n = i then n\<lparr>node_data := merge_data (node_data n) p\<rparr> else n"
    have "node_id (?f m) = i \<longrightarrow> (\<exists>d. node_data (?f m) = merge_data d p)" for m :: canvas_node
      by (cases "node_id m = i") (simp_all add: exI [of _ "node_data m"])
    moreover have "cv_nodes (updateNode i p s) = map ?f (cv_nodes s)" by (simp add: updateNode_def)
    ultimately show ?thesis by (simp only: list.set_map ball_simps) simp
  qed
  then show "n \<in> set (cv_nodes (updateNode i p s)) \<Longrightarrow> node_id n = i \<Longrightarrow> \<exists>d. node_data n = merge_data d p" by blast
qed

lemma fold_events_ok: "bridge_ok st \<Longrightarrow> bridge_ok (fold (processEvent stringify t) evs st)"
  by (induction evs arbitrary: st) (simp_all add: processEvent_ok)

lemma filter_by_id:
  assumes "distinct (map f xs)" "a \<in> f ` set xs"
  obtains x where "filter (\<lambda>y. f y = a) xs = [x]"
proof -
  have "length (filter (\<lambda>y. f y = a) xs) = 1" using assms
  proof (induction xs)
    case (Cons y ys)
    then show ?case by (cases "f y = a") (auto simp: filter_empty_conv image_iff)
  qed simp
  then show thesis using that by (auto simp: length_Suc_conv)
qed

section \<open>Properties\<close>

text \<open>C8: A conversation that starts on an empty canvas draws one connected graph. Prompts (new ones or branching from a node
  of the canvas), turn ids, events, timers, answers of the media cache, ends of turns and the loading flag may come in any
  order, and the user may meanwhile edit, pin, collapse, expand, align, commit and lay out nodes, but not add, remove, group,
  connect, undo or load. Then ids are unique, every edge joins two nodes, every group that a node belongs to is there, and every
  node that is not a group can be reached from the first one; every node the bridge still refers to is on the canvas.\<close>

theorem conversation_graph:
  assumes "conversation cmp stringify (b, s)"
  shows "distinct (map node_id (cv_nodes s)) \<and>
    (\<forall>e \<in> set (cv_edges s). edge_source e \<in> node_id ` set (cv_nodes s) \<and> edge_target e \<in> node_id ` set (cv_nodes s)) \<and>
    (\<forall>n \<in> set (cv_nodes s). \<forall>p. parentId n = Some p \<longrightarrow> p \<in> group_ids (cv_nodes s)) \<and>
    (\<forall>i \<in> plain_ids (cv_nodes s). (node_name 0, i) \<in> {(edge_source e, edge_target e) |e. e \<in> set (cv_edges s)}\<^sup>*) \<and>
    named b \<subseteq> plain_ids (cv_nodes s)"
proof -
  have ok: "drawn (edgeCounter b) s" "named b \<subseteq> plain_ids (cv_nodes s)" using conversation_ok [OF assms] by (simp_all add: bridge_ok_def)
  let ?E = "{(edge_source e, edge_target e) |e. e \<in> set (cv_edges s)}"
  have "(node_name 0, node_name k) \<in> ?E\<^sup>*" if "node_name k \<in> plain_ids (cv_nodes s)" for k
    using that
  proof (induction k rule: less_induct)
    case (less k)
    then have "fed (cv_nodes s) (cv_edges s) k" using ok(1) by (simp add: drawn_def)
    then consider "k = 0" | e j where "e \<in> set (cv_edges s)" "j < k" "edge_target e = node_name k" "edge_source e = node_name j"
        "node_name j \<in> plain_ids (cv_nodes s)" by (auto simp: fed_def)
    then show ?case
    proof cases
      case 2
      then have "(node_name j, node_name k) \<in> ?E" by (auto intro!: exI [of _ e])
      with less.IH [OF 2(2,5)] show ?thesis by (rule rtrancl_into_rtrancl)
    qed simp
  qed
  moreover have "plain_ids (cv_nodes s) \<subseteq> range node_name" using ok(1) by (auto simp: drawn_def)
  ultimately have "\<forall>i \<in> plain_ids (cv_nodes s). (node_name 0, i) \<in> ?E\<^sup>*" by blast
  then show ?thesis using ok by (auto simp: drawn_def canvas_ok_def graph_ok_def parents_ok_def)
qed

text \<open>A prompt and the start of its answer.\<close>

definition demo_event :: "string \<Rightarrow> string option \<Rightarrow> stream_event" where
  "demo_event ty x = \<lparr>ev_type = ty, ev_name = None, ev_tool_use_id = None, ev_text = x, ev_input = SUndef, ev_output = SUndef, ev_is_error = False\<rparr>"

definition demo_prompted :: bridged where
  "demo_prompted = snd (addPrompt 1 ''hi'' None (new_bridge, initial_canvas))"

definition demo_answering :: bridged where
  "demo_answering = processEvent (\<lambda>_. []) 2 (demo_event ''content_block_start'' None) demo_prompted"

definition demo_answered :: bridged where
  "demo_answered = fold (processEvent (\<lambda>_. []) 3) [demo_event ''content_block_start'' None, demo_event ''content_block_delta'' (Some ''Hel''),
     demo_event ''content_block_delta'' (Some ''lo''), demo_event ''content_block_stop'' None] demo_prompted"

lemma demo_prompted_conversation: "conversation cmp (\<lambda>_. []) demo_prompted"
proof -
  have "conversation cmp (\<lambda>_. []) (bridge_apply cmp (\<lambda>_. []) (BPrompt 1 ''hi'' None) (new_bridge, initial_canvas))"
    by (rule conversation.intros)+ simp
  then show ?thesis by (simp add: demo_prompted_def)
qed

lemma demo_prompted_facts: "\<not> br_loading (fst demo_prompted)" "agentNodeId (fst demo_prompted) = None"
  by code_simp+

lemma demo_conversation: "conversation cmp (\<lambda>_. []) demo_answering"
proof -
  have "conversation cmp (\<lambda>_. []) (bridge_apply cmp (\<lambda>_. []) (BEvent 2 (demo_event ''content_block_start'' None)) demo_prompted)"
    by (intro conversation.intros demo_prompted_conversation) simp_all
  then show ?thesis by (simp add: demo_answering_def)
qed

lemma demo_answering_facts:
  "map (\<lambda>n. (node_id n, node_type n)) (cv_nodes (snd demo_answering)) = [(''node_0'', Some ''prompt''), (''node_1'', Some ''agent'')]"
  "agentNodeId (fst demo_answering) = Some ''node_1''" "turnActive (fst demo_answering)" "\<not> br_loading (fst demo_answering)"
  "agentContent (fst demo_answering) = []"
  by code_simp+

theorem conversation_graph_witness:
  "\<exists>cmp b s. conversation cmp (\<lambda>_. []) (b, s) \<and> ''node_1'' \<in> plain_ids (cv_nodes s) \<and>
     (node_name 0, ''node_1'') \<in> {(edge_source e, edge_target e) |e. e \<in> set (cv_edges s)}\<^sup>*"
proof -
  obtain b s where st: "demo_answering = (b, s)" by fastforce
  have c: "conversation (\<lambda>_ _. 0) (\<lambda>_. []) (b, s)" using demo_conversation st by metis
  have "''node_1'' \<in> plain_ids (cv_nodes s)"
    using demo_answering_facts(1) by (auto simp: st plain_ids_def group_node_of_def image_iff map_eq_Cons_conv)
  with conversation_graph [OF c] c show ?thesis by blast
qed

text \<open>C9: An answer is shown completely, once, and nothing but the answer. In a conversation whose canvas is not loading, let an
  answer begin with a block and go on with any events, tools and further blocks among them, up to the stop of a block. They add
  at most one agent's node to the canvas; and the bridge's agent's node is then on the canvas exactly once, is none of the nodes
  that were there before, and shows exactly the text of the answer's deltas.\<close>

theorem answer_streamed:
  assumes "conversation cmp stringify (b, s)" "\<not> br_loading b" "agentNodeId b = None \<or> \<not> turnActive b"
    and "ev_type start = ''content_block_start''" "ev_type stop = ''content_block_stop''"
    and "fold (processEvent stringify t) (start # evs @ [stop]) (b, s) = (b', s')"
  shows "agents s' \<le> Suc (agents s) \<and>
    (\<exists>n. filter (\<lambda>m. Some (node_id m) = agentNodeId b') (cv_nodes s') = [n] \<and> node_id n \<notin> node_id ` set (cv_nodes s) \<and>
       getp ''content'' (node_data n) = SStr (concat (map delta_text evs)))"
proof
  show "agents s' \<le> Suc (agents s)" using assms(2,6) by (rule one_agent_node)
  obtain b1 s1 where start: "content_block_start t (b, s) = (b1, s1)" by fastforce
  obtain a q where a: "live b1 = (Some a, True, [], False, q)" "map node_id (cv_nodes s1) = map node_id (cv_nodes s) @ [a]"
    using live_begin [of b t s] assms(2,3) start by auto
  obtain b2 s2 where mid: "fold (processEvent stringify t) evs (b1, s1) = (b2, s2)" by fastforce
  have pstart: "processEvent stringify t start (b, s) = (b1, s1)" using assms(2,4) start by (simp add: processEvent_def)
  have l: "agentNodeId b2 = Some a" "agentContent b2 = concat (map delta_text evs)" "\<not> br_loading b2"
    using live_events [OF a(1) mid] by (simp_all add: live_def)
  have stop: "processEvent stringify t stop (b2, s2) = (b', s')" using assms(6) pstart mid by simp
  then have s': "s' = updateNode a [(''content'', SStr (agentContent b2))] s2" and b': "agentNodeId b' = Some a"
    using assms(5) l by (auto simp: processEvent_def content_block_stop_def show_content_def)
  have ok: "bridge_ok (b', s')" "bridge_ok (b1, s1)"
    using fold_events_ok [OF conversation_ok [OF assms(1)], of stringify t "start # evs @ [stop]"] assms(6)
      processEvent_ok [OF conversation_ok [OF assms(1)], of stringify t start] pstart by simp_all
  have "a \<in> node_id ` set (cv_nodes s')" "distinct (map node_id (cv_nodes s'))"
    using ok(1) b' by (auto simp: bridge_ok_def named_def plain_ids_def drawn_def canvas_ok_def graph_ok_def)
  then obtain n where n: "filter (\<lambda>m. node_id m = a) (cv_nodes s') = [n]" by (auto elim: filter_by_id)
  have "a \<notin> node_id ` set (cv_nodes s)"
    using ok(2) a(2) by (auto simp: bridge_ok_def drawn_def canvas_ok_def graph_ok_def)
  moreover have "n \<in> set (cv_nodes s')" "node_id n = a" using filter_eq_ConsD [OF n] by auto
  moreover from this obtain d where "node_data n = merge_data d [(''content'', SStr (agentContent b2))]"
    using updateNode_in [of n a "[(''content'', SStr (agentContent b2))]" s2] s' by auto
  ultimately show "\<exists>n. filter (\<lambda>m. Some (node_id m) = agentNodeId b') (cv_nodes s') = [n] \<and> node_id n \<notin> node_id ` set (cv_nodes s) \<and>
       getp ''content'' (node_data n) = SStr (concat (map delta_text evs))"
    using n b' l(2) by (intro exI [of _ n]) (simp add: getp_def merge_data_def update_conv')
qed

theorem answer_streamed_witness:
  "\<exists>n. filter (\<lambda>m. Some (node_id m) = agentNodeId (fst demo_answered)) (cv_nodes (snd demo_answered)) = [n] \<and>
     getp ''content'' (node_data n) = SStr ''Hello''"
proof -
  let ?evs = "[demo_event ''content_block_delta'' (Some ''Hel''), demo_event ''content_block_delta'' (Some ''lo'')]"
  obtain b s where st: "demo_prompted = (b, s)" by fastforce
  obtain b' s' where f: "fold (processEvent (\<lambda>_. []) 3) (demo_event ''content_block_start'' None # ?evs @ [demo_event ''content_block_stop'' None]) (b, s) = (b', s')"
    by fastforce
  have "conversation (\<lambda>_ _. 0) (\<lambda>_. []) (b, s)" using demo_prompted_conversation st by metis
  moreover have "\<not> br_loading b" "agentNodeId b = None" using demo_prompted_facts by (simp_all add: st)
  ultimately have "\<exists>n. filter (\<lambda>m. Some (node_id m) = agentNodeId b') (cv_nodes s') = [n] \<and> node_id n \<notin> node_id ` set (cv_nodes s) \<and>
       getp ''content'' (node_data n) = SStr (concat (map delta_text ?evs))"
    using answer_streamed [OF _ _ _ _ _ f] by (simp add: demo_event_def)
  moreover have "concat (map delta_text ?evs) = ''Hello''" by (simp add: delta_text_def demo_event_def)
  moreover have d: "demo_answered = (b', s')" using f by (simp add: demo_answered_def st)
  ultimately show ?thesis unfolding d fst_conv snd_conv by metis
qed

text \<open>Events that arrive while a canvas is loading do not touch it, and none is lost unless one throws: whatever the loading puts on
  the canvas, they are applied to it afterwards, in the order in which they came.\<close>

theorem queued_events_kept:
  assumes "br_loading b" "eventQueue b = []" "fold (processEvent stringify t) evs (b, s) = (b', s')" "\<forall>evt \<in> set evs. \<not> event_throws evt"
  shows "s' = s \<and> setLoading stringify t False (b', s2) = fold (processEvent stringify t) evs (b\<lparr>br_loading := False\<rparr>, s2)"
proof -
  have "fold (processEvent stringify t) evs (b, s) = (b\<lparr>eventQueue := eventQueue b @ evs\<rparr>, s)" if "br_loading b" for b evs
    using that by (induction evs arbitrary: b) (simp_all add: processEvent_def)
  from this [OF assms(1), of evs] assms(2,3) have "b' = b\<lparr>eventQueue := evs\<rparr>" "s' = s" by simp_all
  moreover have "process_queued stringify t evs st = fold (processEvent stringify t) evs st" for st
    using assms(4) by (induction evs arbitrary: st) (simp_all add: Let_def)
  ultimately show ?thesis using assms(2) by (cases b) (simp add: setLoading_def Let_def)
qed

theorem queued_events_kept_witness:
  "setLoading (\<lambda>_. []) 2 False (fold (processEvent (\<lambda>_. []) 2) [demo_event ''content_block_start'' None] (new_bridge\<lparr>br_loading := True\<rparr>, initial_canvas)) =
   processEvent (\<lambda>_. []) 2 (demo_event ''content_block_start'' None) (new_bridge\<lparr>br_loading := False\<rparr>, initial_canvas)"
proof -
  obtain b' s' where f: "fold (processEvent (\<lambda>_. []) 2) [demo_event ''content_block_start'' None] (new_bridge\<lparr>br_loading := True\<rparr>, initial_canvas) = (b', s')"
    by fastforce
  have "br_loading (new_bridge\<lparr>br_loading := True\<rparr>)" "eventQueue (new_bridge\<lparr>br_loading := True\<rparr>) = []" by (simp_all add: new_bridge_def)
  from queued_events_kept [OF this f, of initial_canvas] show ?thesis unfolding f by (simp add: event_throws_def demo_event_def)
qed

text \<open>The end of a turn is not queued with its events: when a turn ends while the canvas is still loading, its events are
  processed after its end, and the agent's node, drawn then, stays \<open>running\<close>, with nothing left to end it.\<close>

theorem turn_end_overtakes_events:
  "let st = begin_load (new_bridge, initial_canvas);
       st1 = processEvent stringify 1 (demo_event ''content_block_start'' None) st;
       st2 = finalize cmp 2 st1;
       (b, s) = setLoading stringify 3 False st2
   in map (\<lambda>n. (node_type n, getp ''status'' (node_data n))) (cv_nodes s) = [(Some ''agent'', SStr ''running'')] \<and>
      turnActive b \<and> eventQueue b = [] \<and> \<not> br_loading b"
  by (simp add: Let_def begin_load_def bridge_reset_def new_bridge_def clearForLoad_def initial_canvas_def processEvent_def finalize_def
      finish_agent_def group_turn_def setLoading_def event_throws_def demo_event_def content_block_start_def nextPosition_def new_node_def addNode_def
      nextNodeId_def edge_from_def scheduleLayout_def plain_node_def getp_def)

text \<open>A canvas that is being loaded is not given up when the thread changes: the answer for the old thread is put on the
  canvas of the new one, which is then declared loaded, and the answer for the new thread keeps the old thread's nodes beside its
  own.\<close>

theorem stale_load_mixes_threads:
  fixes cmp :: locale_order and stringify :: "stored \<Rightarrow> string" and time :: "string \<Rightarrow> rat"
  defines "answer i \<equiv> \<lparr>la_canvas = Some ([plain_node i ''prompt'' (0, 0) []], [], None), la_history = None, la_saved = True\<rparr>"
  shows "let st = begin_load (begin_load (new_bridge, initial_canvas));
       st1 = finish_load cmp stringify time 1 ''old'' [] (answer ''a'') st;
       st2 = finish_load cmp stringify time 2 ''new'' [] (answer ''b'') st1
   in map node_id (cv_nodes (snd st1)) = [''a''] \<and> \<not> br_loading (fst st1) \<and> map node_id (cv_nodes (snd st2)) = [''b'', ''a'']"
  by (simp add: answer_def Let_def begin_load_def bridge_reset_def new_bridge_def clearForLoad_def initial_canvas_def finish_load_def answer_load_def
      loadFromServer_def sanitizeLoadedCanvas_def unusable_def hasMediaUrl_def settle_status_def plain_node_def getp_def restoreLastNode_def
      setLoading_def deferredFitView_def syncCounter_def sync_count_def id_number_def)

text \<open>The bridge does not notice that a node is removed: a prompt sent after its predecessor was deleted is joined to nothing.\<close>

theorem prompt_after_deletion_dangles:
  "let (b, s) = demo_prompted; (b', s') = snd (addPrompt 2 ''again'' None (b, removeNodes [''node_0''] s))
   in map node_id (cv_nodes s') = [''node_1''] \<and> map (\<lambda>e. (edge_source e, edge_target e)) (cv_edges s') = [(''node_0'', ''node_1'')]"
  by code_simp

end
