(* ===== verification/Rpc_Client.thy ===== *)
theory Rpc_Client
  imports Stored_Record "HOL-Library.Multiset"
begin

text \<open>
  The JSON-RPC clients of the web workspace: the WebSocket client with its pending calls and its reconnection
  (\<open>web/src/features/rpc/client.ts\<close>), the projects that calls are scoped to (\<open>rpc/scope.ts\<close>) and the HTTP
  client (\<open>rpc/httpRpc.ts\<close>). Sockets are numbered in the order in which they are made, and a call stands for the
  promise that \<open>request\<close> returns. The host's part of a socket's life, its messages and its timers are events of a
  step relation, in any order that the host allows. \<open>JSON.parse\<close> is the parameter \<open>parse\<close> (\<open>None\<close> when it throws).
\<close>

section \<open>Projects\<close>

definition METHOD_SKIP_PROJECT :: "string list" where
  "METHOD_SKIP_PROJECT =
     [''initialize'', ''auth/update'', ''auth/delete'', ''user/me'', ''user/list'', ''user/create'', ''user/delete'',
      ''user/update-password'', ''project/list'', ''project/create'', ''project/get'', ''project/me'',
      ''project/invite/accept'', ''project/invite/decline'', ''project/invite/list-for-me'', ''team/list'', ''team/create'',
      ''team/delete'', ''team/member/list'', ''sessions/search'', ''aigo/models'', ''aigo/providers'', ''aigo/status'']"

text \<open>A provider is what it returns when it is called; \<open>None\<close> stands for no provider.\<close>

type_synonym provider = "string option option"

definition injectProjectId :: "string \<Rightarrow> stored \<Rightarrow> provider \<Rightarrow> stored" where
  "injectProjectId m params prov =
     (if m \<in> set METHOD_SKIP_PROJECT then params
      else case prov of
             None \<Rightarrow> params
           | Some pid \<Rightarrow>
               if truthy params \<and> truthy (getp ''projectId'' params) then params
               else (case pid of
                       None \<Rightarrow> params
                     | Some p \<Rightarrow> if p = [] then params else put ''projectId'' (SStr p) params))"

section \<open>State\<close>

datatype ready_state = CONNECTING | OPEN | CLOSING | CLOSED

datatype rpc_failure = Failed string | RpcError stored rat stored

datatype call_outcome = Resolved stored | Rejected rpc_failure

text \<open>The fields of \<open>RPCClient\<close>, then the host's sockets, the calls suspended in \<open>ensureConnected\<close> with the socket they
  wait for, the calls that continue after it, the blobs being read, the messages sent (socket, id, method, parameters,
  call), the promises settled and the handlers called.\<close>

record rpc_state =
  ws :: "nat option"
  nextId :: nat
  pending :: "(string \<times> nat) list"
  handlers :: "(string \<times> nat list) list"
  reconnectTimer :: "rat option"
  reconnectAttempt :: nat
  isConnected :: bool
  projectIdProvider :: provider
  sockets :: "ready_state list"
  waiting :: "(nat \<times> nat \<times> string \<times> stored) list"
  resumed :: "(nat \<times> string \<times> stored) list"
  blobs :: "string list"
  sent :: "(nat \<times> nat \<times> string \<times> stored \<times> nat) list"
  settled :: "(nat \<times> call_outcome) list"
  notified :: "(nat \<times> stored) list"

definition new_client :: rpc_state where
  "new_client = \<lparr>ws = None, nextId = 1, pending = [], handlers = [], reconnectTimer = None, reconnectAttempt = 0,
     isConnected = False, projectIdProvider = None, sockets = [], waiting = [], resumed = [], blobs = [], sent = [],
     settled = [], notified = []\<rparr>"

abbreviation readyState :: "rpc_state \<Rightarrow> nat \<Rightarrow> ready_state" where "readyState s k \<equiv> sockets s ! k"

definition settle_call :: "nat \<Rightarrow> call_outcome \<Rightarrow> rpc_state \<Rightarrow> rpc_state" where
  "settle_call c r s = s\<lparr>settled := settled s @ [(c, r)]\<rparr>"

section \<open>Handlers\<close>

definition emit :: "string \<Rightarrow> stored \<Rightarrow> rpc_state \<Rightarrow> rpc_state" where
  "emit m p s = (case map_of (handlers s) m of None \<Rightarrow> s | Some hs \<Rightarrow> s\<lparr>notified := notified s @ map (\<lambda>h. (h, p)) hs\<rparr>)"

definition on :: "string \<Rightarrow> nat \<Rightarrow> rpc_state \<Rightarrow> rpc_state" where
  "on m h s = s\<lparr>handlers := AList.update m ((case map_of (handlers s) m of Some hs \<Rightarrow> hs | None \<Rightarrow> []) @ [h]) (handlers s)\<rparr>"

text \<open>The function that \<open>on\<close> returns.\<close>

definition off :: "string \<Rightarrow> nat \<Rightarrow> rpc_state \<Rightarrow> rpc_state" where
  "off m h s = (case map_of (handlers s) m of None \<Rightarrow> s | Some hs \<Rightarrow> s\<lparr>handlers := AList.update m (remove1 h hs) (handlers s)\<rparr>)"

section \<open>Connecting\<close>

definition connect :: "rpc_state \<Rightarrow> rpc_state" where
  "connect s =
     (if (case ws s of Some k \<Rightarrow> readyState s k \<in> {OPEN, CONNECTING} | None \<Rightarrow> False) then s
      else s\<lparr>ws := Some (length (sockets s)), sockets := sockets s @ [CONNECTING]\<rparr>)"

text \<open>\<open>WebSocket.close\<close> of the host.\<close>

definition close_socket :: "nat \<Rightarrow> rpc_state \<Rightarrow> rpc_state" where
  "close_socket k s = (if readyState s k \<in> {CLOSING, CLOSED} then s else s\<lparr>sockets := (sockets s)[k := CLOSING]\<rparr>)"

definition close_ws :: "rpc_state \<Rightarrow> rpc_state" where
  "close_ws s = (case ws s of None \<Rightarrow> s | Some k \<Rightarrow> close_socket k s)"

definition disconnect :: "rpc_state \<Rightarrow> rpc_state" where
  "disconnect s = (close_ws (s\<lparr>reconnectTimer := None\<rparr>))\<lparr>ws := None\<rparr>"

text \<open>\<open>Math.random()\<close> returns \<open>jitter\<close>.\<close>

definition scheduleReconnect :: "rat \<Rightarrow> rpc_state \<Rightarrow> rpc_state" where
  "scheduleReconnect jitter s =
     (case reconnectTimer s of
        Some _ \<Rightarrow> s
      | None \<Rightarrow>
          let base = min (1000 * 2 ^ reconnectAttempt s) 30000;
              delay = base * (3 / 4 + jitter * (1 / 2))
          in s\<lparr>reconnectAttempt := Suc (reconnectAttempt s), reconnectTimer := Some delay\<rparr>)"

definition reconnect_fires :: "rpc_state \<Rightarrow> rpc_state" where
  "reconnect_fires s = connect (s\<lparr>reconnectTimer := None\<rparr>)"

section \<open>Calls\<close>

text \<open>The synchronous part of \<open>ensureConnected\<close>: the call waits for the socket, continues, or is rejected.\<close>

definition ensureConnected :: "nat \<Rightarrow> string \<Rightarrow> stored \<Rightarrow> rpc_state \<Rightarrow> rpc_state" where
  "ensureConnected c m p s =
     (let s1 = (case ws s of
                  None \<Rightarrow> connect s
                | Some k \<Rightarrow> if readyState s k \<in> {CLOSED, CLOSING} then connect s else s)
      in case ws s1 of
           None \<Rightarrow> settle_call c (Rejected (Failed ''not connected'')) s1
         | Some k \<Rightarrow>
             (case readyState s1 k of
                OPEN \<Rightarrow> s1\<lparr>resumed := resumed s1 @ [(c, m, p)]\<rparr>
              | CONNECTING \<Rightarrow> s1\<lparr>waiting := waiting s1 @ [(c, k, m, p)]\<rparr>
              | _ \<Rightarrow> settle_call c (Rejected (Failed ''not connected'')) s1))"

text \<open>The rest of \<open>request\<close>, for the call at position \<open>i\<close> of those that continue.\<close>

definition request_continues :: "nat \<Rightarrow> rpc_state \<Rightarrow> rpc_state" where
  "request_continues i s0 =
     (case resumed s0 ! i of
        (c, m, p) \<Rightarrow>
          let s = s0\<lparr>resumed := take i (resumed s0) @ drop (Suc i) (resumed s0)\<rparr>
          in case ws s of
               None \<Rightarrow> settle_call c (Rejected (Failed ''not connected'')) s
             | Some k \<Rightarrow>
                 if readyState s k \<noteq> OPEN then settle_call c (Rejected (Failed ''not connected'')) s
                 else
                   let finalParams = injectProjectId m p (projectIdProvider s); n = nextId s
                   in s\<lparr>nextId := Suc n, pending := AList.update (show_nat n) c (pending s),
                        sent := sent s @ [(k, n, m, finalParams, c)]\<rparr>)"

text \<open>The timer of the call at position \<open>i\<close> of those that wait.\<close>

definition connect_timeout :: "nat \<Rightarrow> rpc_state \<Rightarrow> rpc_state" where
  "connect_timeout i s =
     settle_call (fst (waiting s ! i)) (Rejected (Failed ''connection timeout''))
       (s\<lparr>waiting := take i (waiting s) @ drop (Suc i) (waiting s)\<rparr>)"

section \<open>Messages\<close>

text \<open>\<open>String(id)\<close>, where it can be the decimal of a natural number; any other string is \<open>None\<close>. An array with one entry
  prints like the entry.\<close>

fun id_string :: "stored \<Rightarrow> string option" where
  "id_string (SNum q) = (if q = of_nat (nat \<lfloor>q\<rfloor>) then Some (show_nat (nat \<lfloor>q\<rfloor>)) else None)"
| "id_string (SStr t) = Some t"
| "id_string (SArr [x]) = id_string x"
| "id_string _ = None"

definition response_outcome :: "stored \<Rightarrow> call_outcome" where
  "response_outcome d =
     (let e = getp ''error'' d
      in if truthy e
         then Rejected (RpcError (if getp ''message'' e \<in> {SUndef, SNull} then SStr ''rpc error'' else getp ''message'' e)
                (case getp ''code'' e of SNum x \<Rightarrow> x | _ \<Rightarrow> - 32000) (getp ''data'' e))
         else Resolved (getp ''result'' d))"

definition handle_response :: "stored \<Rightarrow> rpc_state \<Rightarrow> rpc_state" where
  "handle_response d s =
     (case Option.bind (id_string (getp ''id'' d)) (map_of (pending s)) of
        None \<Rightarrow> s
      | Some c \<Rightarrow>
          settle_call c (response_outcome d) (s\<lparr>pending := AList.delete (the (id_string (getp ''id'' d))) (pending s)\<rparr>))"

text \<open>\<open>parseAndDispatch\<close> once the text is there.\<close>

definition dispatch :: "(string \<Rightarrow> stored option) \<Rightarrow> string \<Rightarrow> rpc_state \<Rightarrow> rpc_state" where
  "dispatch parse t s =
     (case parse t of
        None \<Rightarrow> s
      | Some d \<Rightarrow>
          if \<not> isRecord d then s
          else if hasp ''id'' d \<and> getp ''id'' d \<notin> {SUndef, SNull} then handle_response d s
          else if hasp ''method'' d then (case getp ''method'' d of SStr m \<Rightarrow> emit m (getp ''params'' d) s | _ \<Rightarrow> s)
          else s)"

datatype raw_data = RText string | RBlob string | ROther

definition parseAndDispatch :: "(string \<Rightarrow> stored option) \<Rightarrow> raw_data \<Rightarrow> rpc_state \<Rightarrow> rpc_state" where
  "parseAndDispatch parse raw s =
     (case raw of RText t \<Rightarrow> dispatch parse t s | RBlob t \<Rightarrow> s\<lparr>blobs := blobs s @ [t]\<rparr> | ROther \<Rightarrow> s)"

definition blob_read :: "(string \<Rightarrow> stored option) \<Rightarrow> nat \<Rightarrow> rpc_state \<Rightarrow> rpc_state" where
  "blob_read parse i s = dispatch parse (blobs s ! i) (s\<lparr>blobs := take i (blobs s) @ drop (Suc i) (blobs s)\<rparr>)"

section \<open>The life of a socket\<close>

text \<open>The calls that wait for socket \<open>k\<close>, and the others.\<close>

abbreviation waits_for :: "nat \<Rightarrow> nat \<times> nat \<times> string \<times> stored \<Rightarrow> bool" where
  "waits_for k w \<equiv> fst (snd w) = k"

text \<open>The socket opens: \<open>onopen\<close>, then the listeners of the calls.\<close>

definition socket_opens :: "nat \<Rightarrow> rpc_state \<Rightarrow> rpc_state" where
  "socket_opens k s0 =
     (let s = emit ''_connected'' SNull (s0\<lparr>sockets := (sockets s0)[k := OPEN], isConnected := True, reconnectAttempt := 0\<rparr>)
      in s\<lparr>waiting := filter (\<lambda>w. \<not> waits_for k w) (waiting s),
           resumed := resumed s @ map (\<lambda>(c, _, m, p). (c, m, p)) (filter (waits_for k) (waiting s))\<rparr>)"

text \<open>The closing handshake has begun.\<close>

definition socket_closing :: "nat \<Rightarrow> rpc_state \<Rightarrow> rpc_state" where
  "socket_closing k s = s\<lparr>sockets := (sockets s)[k := CLOSING]\<rparr>"

text \<open>\<open>onerror\<close>, then the listeners of the calls.\<close>

definition on_error :: "nat \<Rightarrow> rpc_state \<Rightarrow> rpc_state" where
  "on_error k s0 =
     (let s = close_ws s0
      in s\<lparr>waiting := filter (\<lambda>w. \<not> waits_for k w) (waiting s),
           settled := settled s @ map (\<lambda>w. (fst w, Rejected (Failed ''connection failed''))) (filter (waits_for k) (waiting s))\<rparr>)"

definition on_close :: "rat \<Rightarrow> rpc_state \<Rightarrow> rpc_state" where
  "on_close jitter s0 =
     (let s = emit ''_disconnected'' SNull (s0\<lparr>isConnected := False, ws := None\<rparr>)
      in scheduleReconnect jitter
           (s\<lparr>settled := settled s @ map (\<lambda>(_, c). (c, Rejected (Failed ''WebSocket disconnected''))) (pending s), pending := []\<rparr>))"

text \<open>The connection of socket \<open>k\<close> is closed, with an error event when it failed.\<close>

definition socket_closed :: "nat \<Rightarrow> bool \<Rightarrow> rat \<Rightarrow> rpc_state \<Rightarrow> rpc_state" where
  "socket_closed k failed jitter s0 =
     (let s = s0\<lparr>sockets := (sockets s0)[k := CLOSED]\<rparr>
      in on_close jitter (if failed then on_error k s else s))"

section \<open>Steps\<close>

datatype rpc_event =
  EConnect
| EDisconnect
| ERequest nat string stored
| EContinue nat
| ETimeout nat
| EOn string nat
| EOff string nat
| EProvider provider
| EOpen nat
| EClosing nat
| EClosed nat bool rat
| EMessage nat raw_data
| EBlob nat
| EReconnect

text \<open>The promises of the calls made so far, wherever they are.\<close>

definition calls :: "rpc_state \<Rightarrow> nat multiset" where
  "calls s = mset (map fst (waiting s)) + mset (map fst (resumed s)) + mset (map snd (pending s)) + mset (map fst (settled s))"

text \<open>When an event can happen: a request makes a new promise, a socket opens once and closes once, and only an open socket
  delivers messages.\<close>

fun rpc_enabled :: "rpc_event \<Rightarrow> rpc_state \<Rightarrow> bool" where
  "rpc_enabled (ERequest c m p) s \<longleftrightarrow> c \<notin># calls s"
| "rpc_enabled (EContinue i) s \<longleftrightarrow> i < length (resumed s)"
| "rpc_enabled (ETimeout i) s \<longleftrightarrow> i < length (waiting s)"
| "rpc_enabled (EOpen k) s \<longleftrightarrow> k < length (sockets s) \<and> readyState s k = CONNECTING"
| "rpc_enabled (EClosing k) s \<longleftrightarrow> k < length (sockets s) \<and> readyState s k = OPEN"
| "rpc_enabled (EClosed k failed jitter) s \<longleftrightarrow> k < length (sockets s) \<and> readyState s k \<noteq> CLOSED \<and> 0 \<le> jitter \<and> jitter < 1"
| "rpc_enabled (EMessage k raw) s \<longleftrightarrow> k < length (sockets s) \<and> readyState s k = OPEN"
| "rpc_enabled (EBlob i) s \<longleftrightarrow> i < length (blobs s)"
| "rpc_enabled EReconnect s \<longleftrightarrow> reconnectTimer s \<noteq> None"
| "rpc_enabled _ s \<longleftrightarrow> True"

fun rpc_step :: "(string \<Rightarrow> stored option) \<Rightarrow> rpc_event \<Rightarrow> rpc_state \<Rightarrow> rpc_state" where
  "rpc_step parse EConnect s = connect s"
| "rpc_step parse EDisconnect s = disconnect s"
| "rpc_step parse (ERequest c m p) s = ensureConnected c m p s"
| "rpc_step parse (EContinue i) s = request_continues i s"
| "rpc_step parse (ETimeout i) s = connect_timeout i s"
| "rpc_step parse (EOn m h) s = on m h s"
| "rpc_step parse (EOff m h) s = off m h s"
| "rpc_step parse (EProvider p) s = s\<lparr>projectIdProvider := p\<rparr>"
| "rpc_step parse (EOpen k) s = socket_opens k s"
| "rpc_step parse (EClosing k) s = socket_closing k s"
| "rpc_step parse (EClosed k failed jitter) s = socket_closed k failed jitter s"
| "rpc_step parse (EMessage k raw) s = parseAndDispatch parse raw s"
| "rpc_step parse (EBlob i) s = blob_read parse i s"
| "rpc_step parse EReconnect s = reconnect_fires s"

text \<open>\<open>rpc_run parse es s\<close>: the events \<open>es\<close>, the last one first, lead from a new client to \<open>s\<close>.\<close>

inductive rpc_run :: "(string \<Rightarrow> stored option) \<Rightarrow> rpc_event list \<Rightarrow> rpc_state \<Rightarrow> bool" for parse where
  rpc_start: "rpc_run parse [] new_client"
| rpc_event: "rpc_run parse es s \<Longrightarrow> rpc_enabled e s \<Longrightarrow> rpc_run parse (e # es) (rpc_step parse e s)"

section \<open>HTTP\<close>

record page_location =
  protocol :: string
  hostname :: string
  host :: string
  port :: string

definition resolveWsUrl :: "page_location option \<Rightarrow> string" where
  "resolveWsUrl l =
     (case l of
        None \<Rightarrow> ''ws://127.0.0.1:10112/ws''
      | Some l \<Rightarrow>
          let wsProt = (if protocol l = ''https:'' then ''wss:'' else ''ws:'')
          in if port l = ''10111'' then wsProt @ ''//'' @ hostname l @ '':10112/ws'' else wsProt @ ''//'' @ host l @ ''/ws'')"

definition resolveHttpBaseUrl :: "page_location option \<Rightarrow> string" where
  "resolveHttpBaseUrl l =
     (case l of
        None \<Rightarrow> ''http://127.0.0.1:10112''
      | Some l \<Rightarrow> if port l = ''10111'' then protocol l @ ''//'' @ hostname l @ '':10112'' else protocol l @ ''//'' @ host l)"

text \<open>What \<open>fetch\<close> gives: a network error with its message, or a status and a body.\<close>

datatype fetched = NetworkError string | Response nat string

text \<open>The request (URL and body) and what the promise becomes; a body that is not JSON rejects with a syntax error.\<close>

definition httpRequest ::
    "(string \<Rightarrow> stored option) \<Rightarrow> provider \<Rightarrow> page_location option \<Rightarrow> (string \<Rightarrow> stored \<Rightarrow> fetched) \<Rightarrow> string \<Rightarrow> stored \<Rightarrow> call_outcome" where
  "httpRequest parse prov l fetch m params =
     (let finalParams = injectProjectId m params prov;
          url = resolveHttpBaseUrl l @ ''/api/rpc/'' @ m
      in case fetch url (if finalParams \<in> {SUndef, SNull} then SObj [] else finalParams) of
           NetworkError e \<Rightarrow> Rejected (Failed (''http rpc fetch failed: '' @ e))
         | Response status body \<Rightarrow>
             if 200 \<le> status \<and> status \<le> 299
             then if body = '''' \<or> body = ''null'' then Resolved SUndef
                  else (case parse body of Some d \<Rightarrow> Resolved d | None \<Rightarrow> Rejected (Failed ''SyntaxError''))
             else let d = (case parse body of Some d \<Rightarrow> d | None \<Rightarrow> SUndef);
                      code = (case getp ''code'' d of SNum x \<Rightarrow> x | _ \<Rightarrow> - 32000);
                      message = (case getp ''message'' d of SStr t \<Rightarrow> t | _ \<Rightarrow> ''http '' @ show_nat status)
                  in Rejected (RpcError (SStr message) code SUndef))"

end
