(* ===== verification/Rpc_Proofs.thy ===== *)
theory Rpc_Proofs
  imports Rpc_Client
begin

text \<open>
  What callers rely on of the RPC client: every call is settled at most once and by its own response, nothing that was sent
  stays open after a disconnection, and the client keeps trying to reconnect.
\<close>

section \<open>Identifiers\<close>

lemma show_nat_inject [simp]: "show_nat m = show_nat n \<longleftrightarrow> m = n"
proof
  have digit: "char_of (48 + a) = (char_of (48 + b) :: char) \<Longrightarrow> a < 10 \<Longrightarrow> b < 10 \<Longrightarrow> a = b" for a b :: nat
    by (simp add: char_of_eq_iff take_bit_eq_mod)
  show "show_nat m = show_nat n \<Longrightarrow> m = n"
  proof (induction m arbitrary: n rule: show_nat.induct)
    case (1 m)
    show ?case
    proof (cases "m < 10 \<or> n < 10")
      case True
      then show ?thesis using "1.prems" digit [of m n] show_nat_not_Nil [of "n div 10"] show_nat_not_Nil [of "m div 10"]
        by (auto simp del: show_nat_not_Nil simp: show_nat.simps [of m] show_nat.simps [of n] split: if_splits)
    next
      case False
      then have "show_nat (m div 10) = show_nat (n div 10)" "m mod 10 = n mod 10"
        using "1.prems" digit [of "m mod 10" "n mod 10"] by (auto simp: show_nat.simps [of m] show_nat.simps [of n])
      moreover from this(1) have "m div 10 = n div 10" using "1.IH" False by simp
      ultimately show ?thesis by (metis div_mult_mod_eq)
    qed
  qed
qed simp

section \<open>Every call is in one place\<close>

named_theorems rpc_defs
declare settle_call_def [rpc_defs] on_def [rpc_defs] off_def [rpc_defs] emit_def [rpc_defs] connect_def [rpc_defs]
  close_socket_def [rpc_defs] close_ws_def [rpc_defs] disconnect_def [rpc_defs] scheduleReconnect_def [rpc_defs]
  reconnect_fires_def [rpc_defs] ensureConnected_def [rpc_defs] connect_timeout_def [rpc_defs]
  handle_response_def [rpc_defs] dispatch_def [rpc_defs] parseAndDispatch_def [rpc_defs] blob_read_def [rpc_defs]
  socket_opens_def [rpc_defs] socket_closing_def [rpc_defs] on_error_def [rpc_defs] on_close_def [rpc_defs]
  socket_closed_def [rpc_defs] request_continues_def [rpc_defs]

text \<open>What the bookkeeping of calls depends on.\<close>

definition books :: "rpc_state \<Rightarrow> nat \<times> (string \<times> nat) list \<times> (nat \<times> nat \<times> string \<times> stored) list \<times>
    (nat \<times> string \<times> stored) list \<times> (nat \<times> nat \<times> string \<times> stored \<times> nat) list \<times> (nat \<times> call_outcome) list" where
  "books s = (nextId s, pending s, waiting s, resumed s, sent s, settled s)"

lemma books_emit [simp]: "books (emit m p s) = books s"
  by (simp add: books_def emit_def split: option.split)

lemma books_connect [simp]: "books (connect s) = books s" by (simp add: books_def connect_def)

lemma books_close_ws [simp]: "books (close_ws s) = books s"
  by (simp add: books_def close_ws_def close_socket_def split: option.split)

lemma books_scheduleReconnect [simp]: "books (scheduleReconnect j s) = books s"
  by (simp add: books_def scheduleReconnect_def Let_def split: option.split)

text \<open>Calls are numbered once: the keys of \<open>pending\<close> are ids below \<open>nextId\<close> that were sent for the same call, and whatever
  was sent is pending or settled.\<close>

definition ids_ok :: "nat \<Rightarrow> (string \<times> nat) list \<Rightarrow> (nat \<times> nat \<times> string \<times> stored \<times> nat) list \<Rightarrow> nat set \<Rightarrow> bool" where
  "ids_ok next pend msgs finished \<longleftrightarrow>
     distinct (map fst pend) \<and> distinct (map (\<lambda>(_, n, _). n) msgs) \<and> (\<forall>(_, n, _) \<in> set msgs. n < next) \<and>
     (\<forall>(_, n, _, _, c) \<in> set msgs. (show_nat n, c) \<in> set pend \<or> c \<in> finished) \<and>
     (\<forall>(key, c) \<in> set pend. \<exists>k n m p. (k, n, m, p, c) \<in> set msgs \<and> key = show_nat n)"

definition calls_ok :: "rpc_state \<Rightarrow> bool" where
  "calls_ok s \<longleftrightarrow> (\<forall>c. count (calls s) c \<le> 1) \<and> ids_ok (nextId s) (pending s) (sent s) (fst ` set (settled s))"

lemma calls_books: "books s = books s' \<Longrightarrow> calls s = calls s'"
  by (simp add: books_def calls_def)

lemma calls_ok_books: "books s = books s' \<Longrightarrow> calls_ok s = calls_ok s'"
  by (simp add: books_def calls_def calls_ok_def)

lemmas calls_same [simp] = calls_books [OF books_emit] calls_books [OF books_connect] calls_books [OF books_close_ws]
  calls_books [OF books_scheduleReconnect]

lemma mset_remove_nth: "i < length xs \<Longrightarrow> mset xs = add_mset (xs ! i) (mset (take i xs @ drop (Suc i) xs))"
  by (subst id_take_nth_drop [of i xs]) auto

lemma map_remove_nth: "i < length xs \<Longrightarrow> mset (map f xs) = add_mset (f (xs ! i)) (mset (map f (take i xs @ drop (Suc i) xs)))"
  using mset_remove_nth [of i xs] by (metis (no_types, lifting) image_mset_add_mset mset_map)

lemma mset_filter_parts: "image_mset f (mset xs) = image_mset f (mset (filter P xs)) + image_mset f (mset (filter (\<lambda>x. \<not> P x) xs))"
  by (induction xs) auto

lemma mset_delete: "distinct (map fst xs) \<Longrightarrow> map_of xs k = Some c \<Longrightarrow>
    image_mset snd (mset xs) = add_mset c (image_mset snd (mset (AList.delete k xs)))"
proof (induction xs)
  case (Cons x xs)
  show ?case
  proof (cases "fst x = k")
    case True
    then have "k \<notin> fst ` set xs" using Cons.prems(1) by auto
    then have "AList.delete k (x # xs) = xs" using True
      by (cases x) (auto simp: AList.delete_eq filter_id_conv image_iff)
    then show ?thesis using Cons.prems(2) True by (cases x) simp
  next
    case False
    then show ?thesis using Cons by (cases x) (auto simp: AList.delete_eq)
  qed
qed simp

lemma mset_update_new: "k \<notin> fst ` set xs \<Longrightarrow> image_mset snd (mset (AList.update k c xs)) = add_mset c (image_mset snd (mset xs))"
  by (induction xs) auto

lemma calls_settle_call [simp]: "calls (settle_call c r s) = add_mset c (calls s)"
  by (simp add: calls_def settle_call_def)

lemma calls_ensureConnected: "calls (ensureConnected c m p s) = add_mset c (calls s)"
proof -
  define s1 where "s1 = (case ws s of None \<Rightarrow> connect s | Some k \<Rightarrow> if readyState s k \<in> {CLOSED, CLOSING} then connect s else s)"
  have "books s1 = books s" by (simp add: s1_def split: option.split)
  then have "calls s1 = calls s" by (rule calls_books)
  moreover have "calls (s1\<lparr>resumed := resumed s1 @ [(c, m, p)]\<rparr>) = add_mset c (calls s1)"
    "calls (s1\<lparr>waiting := waiting s1 @ [(c, k, m, p)]\<rparr>) = add_mset c (calls s1)" for k
    by (simp_all add: calls_def)
  ultimately show ?thesis
    unfolding ensureConnected_def s1_def [symmetric] by (simp split: option.split ready_state.split)
qed

lemma fresh_key: "calls_ok s \<Longrightarrow> show_nat (nextId s) \<notin> fst ` set (pending s)"
  by (fastforce simp: calls_ok_def ids_ok_def)

lemma calls_request_continues:
  assumes "calls_ok s" "i < length (resumed s)"
  shows "calls (request_continues i s) = calls s"
proof -
  obtain c m p where r: "resumed s ! i = (c, m, p)" by (metis prod_cases3)
  have "mset (map fst (resumed s)) = add_mset c (mset (map fst (take i (resumed s) @ drop (Suc i) (resumed s))))"
    using map_remove_nth [OF assms(2), of fst] r by simp
  then show ?thesis using fresh_key [OF assms(1)] r
    by (auto simp: request_continues_def Let_def calls_def settle_call_def mset_update_new split: option.split)
qed

lemma calls_connect_timeout: "i < length (waiting s) \<Longrightarrow> calls (connect_timeout i s) = calls s"
  using map_remove_nth [of i "waiting s" fst] by (simp add: connect_timeout_def calls_def settle_call_def)

lemma calls_handle_response:
  assumes "calls_ok s"
  shows "calls (handle_response d s) = calls s"
proof -
  have "distinct (map fst (pending s))" using assms by (simp add: calls_ok_def ids_ok_def)
  then show ?thesis using mset_delete [of "pending s"]
    by (auto simp: handle_response_def calls_def settle_call_def bind_eq_Some_conv split: option.split)
qed

lemma calls_dispatch: "calls_ok s \<Longrightarrow> calls (dispatch parse t s) = calls s"
  by (simp add: dispatch_def calls_handle_response split: option.split stored.split)

lemma calls_socket_opens: "calls (socket_opens k s) = calls s"
proof -
  define s1 where "s1 = emit ''_connected'' SNull (s\<lparr>sockets := (sockets s)[k := OPEN], isConnected := True, reconnectAttempt := 0\<rparr>)"
  have "books s1 = books s" by (simp add: s1_def) (simp add: books_def)
  then have "calls s1 = calls s" by (rule calls_books)
  moreover have "calls (socket_opens k s) = calls s1"
    using mset_filter_parts [of fst "waiting s1" "waits_for k"]
    unfolding socket_opens_def s1_def [symmetric] by (simp add: calls_def Let_def case_prod_beta comp_def ac_simps)
  ultimately show ?thesis by simp
qed

lemma calls_on_error: "calls (on_error k s) = calls s"
proof -
  have "calls (on_error k s) = calls (close_ws s)"
    using mset_filter_parts [of fst "waiting (close_ws s)" "waits_for k"]
    by (simp add: on_error_def calls_def Let_def comp_def ac_simps)
  then show ?thesis by simp
qed

lemma calls_on_close: "calls (on_close j s) = calls s"
proof -
  define s1 where "s1 = emit ''_disconnected'' SNull (s\<lparr>isConnected := False, ws := None\<rparr>)"
  have "books s1 = books s" by (simp add: s1_def) (simp add: books_def)
  then have "calls s1 = calls s" by (rule calls_books)
  moreover have "calls (on_close j s) = calls (s1\<lparr>settled := settled s1 @ map (\<lambda>(_, c). (c, Rejected (Failed ''WebSocket disconnected''))) (pending s1), pending := []\<rparr>)"
    unfolding on_close_def s1_def [symmetric] by (simp add: Let_def)
  moreover have "\<dots> = calls s1" by (simp add: calls_def case_prod_beta comp_def ac_simps)
  ultimately show ?thesis by simp
qed

lemma calls_socket_closed: "calls (socket_closed k failed j s) = calls s"
  by (simp add: socket_closed_def Let_def calls_on_close calls_on_error) (simp add: calls_def)

lemma calls_step:
  assumes "calls_ok s" "rpc_enabled e s"
  shows "calls (rpc_step parse e s) = (case e of ERequest c _ _ \<Rightarrow> add_mset c (calls s) | _ \<Rightarrow> calls s)"
proof -
  have same: "calls (on m h s) = calls s" "calls (off m h s) = calls s" "calls (disconnect s) = calls s"
    "calls (reconnect_fires s) = calls s" "calls (socket_closing k s) = calls s" "calls (s\<lparr>projectIdProvider := p\<rparr>) = calls s"
    "calls (s\<lparr>blobs := b\<rparr>) = calls s" for m h k p b
    by (simp_all add: calls_def on_def off_def disconnect_def reconnect_fires_def connect_def close_ws_def close_socket_def
          socket_closing_def split: option.split)
  have "calls_ok (s\<lparr>blobs := b\<rparr>) = calls_ok s" for b by (rule calls_ok_books) (simp add: books_def)
  then have "calls (blob_read parse i s) = calls s" for i using assms(1) by (simp add: blob_read_def calls_dispatch same)
  then show ?thesis using assms
    by (cases e) (auto simp: same calls_ensureConnected calls_request_continues calls_connect_timeout calls_socket_opens
        calls_socket_closed parseAndDispatch_def calls_dispatch split: raw_data.split)
qed

section \<open>Ids\<close>

lemma ids_ok_sent:
  assumes "ids_ok next pend msgs F" "(k, n, m, p, c) \<in> set msgs"
  shows "map_of pend (show_nat n) = Some c \<or> c \<in> F"
proof -
  have "(show_nat n, c) \<in> set pend \<or> c \<in> F" using assms by (auto simp: ids_ok_def)
  moreover have "distinct (map fst pend)" using assms(1) by (simp add: ids_ok_def)
  ultimately show ?thesis by auto
qed

lemma ids_ok_owner:
  assumes "ids_ok next pend msgs F" "(k, n, m, p, c) \<in> set msgs" "map_of pend (show_nat n) = Some c'"
  shows "c' = c"
proof -
  have "(show_nat n, c') \<in> set pend" using assms(3) by (rule map_of_SomeD)
  then obtain k' m' p' where "(k', n, m', p', c') \<in> set msgs" using assms(1) by (fastforce simp: ids_ok_def)
  moreover have "inj_on (\<lambda>(_, n, _). n) (set msgs)" using assms(1) by (simp add: ids_ok_def distinct_map)
  ultimately show ?thesis using assms(2) by (auto simp: inj_on_def)
qed

lemma ids_ok_mono: "ids_ok n pend msgs F \<Longrightarrow> F \<subseteq> F' \<Longrightarrow> ids_ok n pend msgs F'"
  unfolding ids_ok_def by fast

lemma ids_ok_send:
  assumes "ids_ok n pend msgs F"
  shows "ids_ok (Suc n) (AList.update (show_nat n) c pend) (msgs @ [(k, n, m, p, c)]) F"
proof -
  have new: "show_nat n \<notin> fst ` set pend" using assms by (fastforce simp: ids_ok_def)
  then have "AList.update (show_nat n) c pend = pend @ [(show_nat n, c)]" by (induction pend) auto
  then show ?thesis using assms new by (fastforce simp: ids_ok_def less_Suc_eq)
qed

lemma ids_ok_answer:
  assumes "ids_ok n pend msgs F" "map_of pend key = Some c"
  shows "ids_ok n (AList.delete key pend) msgs (insert c F)"
proof -
  have "distinct (map fst pend)" using assms(1) by (simp add: ids_ok_def)
  then have "(key, c') \<in> set pend \<Longrightarrow> c' = c" for c' using assms(2) by (metis map_of_is_SomeI option.inject)
  then show ?thesis using assms(1) by (auto simp: ids_ok_def AList.delete_eq distinct_map_filter)
qed

lemma ids_ok_close: "ids_ok n pend msgs F \<Longrightarrow> ids_ok n [] msgs (F \<union> snd ` set pend)"
  by (force simp: ids_ok_def)

definition ids :: "rpc_state \<Rightarrow> bool" where
  "ids s \<longleftrightarrow> ids_ok (nextId s) (pending s) (sent s) (fst ` set (settled s))"

lemma ids_settle: "ids s \<Longrightarrow> ids (settle_call c r s)"
  unfolding ids_def settle_call_def by (rule ids_ok_mono) auto

lemma ids_books: "books s = books s' \<Longrightarrow> ids s = ids s'"
  by (simp add: books_def ids_def)

lemmas ids_same [simp] = ids_books [OF books_emit] ids_books [OF books_connect] ids_books [OF books_close_ws]
  ids_books [OF books_scheduleReconnect]

lemma ids_update [simp]:
  "ids (s\<lparr>waiting := w\<rparr>) = ids s" "ids (s\<lparr>resumed := r\<rparr>) = ids s" "ids (s\<lparr>blobs := b\<rparr>) = ids s" "ids (s\<lparr>ws := v\<rparr>) = ids s"
  "ids (s\<lparr>sockets := k\<rparr>) = ids s" "ids (s\<lparr>reconnectTimer := t\<rparr>) = ids s" "ids (s\<lparr>projectIdProvider := p\<rparr>) = ids s"
  "ids (s\<lparr>handlers := h\<rparr>) = ids s" "ids (s\<lparr>isConnected := i\<rparr>) = ids s" "ids (s\<lparr>reconnectAttempt := a\<rparr>) = ids s"
  by (simp_all add: ids_def)

lemma ids_ensureConnected: "ids s \<Longrightarrow> ids (ensureConnected c m p s)"
  by (simp add: ensureConnected_def Let_def ids_settle split: option.split ready_state.split)

lemma ids_request_continues: "ids s \<Longrightarrow> ids (request_continues i s)"
  by (auto simp: request_continues_def Let_def ids_settle split: option.split prod.split)
    (simp add: ids_def ids_ok_send)

lemma ids_dispatch: "ids s \<Longrightarrow> ids (dispatch parse t s)"
  by (auto simp: dispatch_def handle_response_def split: option.split stored.split)
    (auto simp: ids_def settle_call_def bind_eq_Some_conv intro: ids_ok_answer)

lemma ids_on_error: "ids s \<Longrightarrow> ids (on_error k s)"
proof -
  assume "ids s"
  then have "ids (close_ws s)" by simp
  then show ?thesis unfolding on_error_def Let_def ids_def by simp (erule ids_ok_mono, auto)
qed

lemma ids_on_close:
  assumes "ids s"
  shows "ids (on_close j s)"
proof -
  define s1 where "s1 = emit ''_disconnected'' SNull (s\<lparr>isConnected := False, ws := None\<rparr>)"
  have "ids s1" using assms by (simp add: s1_def)
  then show ?thesis using ids_ok_close [of _ "pending s1"]
    unfolding on_close_def s1_def [symmetric] Let_def ids_same
    by (simp add: ids_def image_Un image_image case_prod_beta)
qed

lemma ids_step: "ids s \<Longrightarrow> ids (rpc_step parse e s)"
  by (cases e) (simp_all add: ids_ensureConnected ids_request_continues ids_dispatch ids_on_error ids_on_close ids_settle
      disconnect_def reconnect_fires_def connect_timeout_def on_def off_def socket_opens_def Let_def socket_closing_def
      socket_closed_def parseAndDispatch_def blob_read_def split: option.split raw_data.split)

lemma calls_ok_run: "rpc_run parse es s \<Longrightarrow> calls_ok s"
proof (induction rule: rpc_run.induct)
  case rpc_start
  then show ?case by (simp add: calls_ok_def ids_ok_def calls_def new_client_def)
next
  case (rpc_event es s e)
  then have "ids (rpc_step parse e s)" using ids_step by (simp add: calls_ok_def ids_def)
  moreover have "count (calls (rpc_step parse e s)) c \<le> 1" for c
    using calls_step [OF rpc_event.IH rpc_event.hyps(2), of parse] rpc_event.IH rpc_event.hyps(2)
    by (cases e) (auto simp: calls_ok_def not_in_iff)
  ultimately show ?case by (simp add: calls_ok_def ids_def)
qed

lemma calls_made: "rpc_run parse es s \<Longrightarrow> ERequest c m p \<in> set es \<Longrightarrow> c \<in># calls s"
proof (induction rule: rpc_run.induct)
  case (rpc_event es s e)
  then show ?case using calls_step [OF calls_ok_run [OF rpc_event.hyps(1)] rpc_event.hyps(2), of parse] by (cases e) auto
qed simp

lemma distinct_of_count: "(\<And>x. count (mset xs) x \<le> 1) \<Longrightarrow> distinct xs"
proof (induction xs)
  case (Cons a xs)
  have "count (mset xs) x \<le> 1" for x by (rule order.trans [OF _ Cons.prems [of x]]) simp
  moreover have "a \<notin> set xs" using Cons.prems [of a] by (auto simp: count_eq_zero_iff)
  ultimately show ?case using Cons.IH by simp
qed simp

lemma settled_once: "calls_ok s \<Longrightarrow> distinct (map fst (settled s))"
proof (rule distinct_of_count)
  fix c
  assume "calls_ok s"
  then have "count (calls s) c \<le> 1" by (simp add: calls_ok_def)
  then show "count (mset (map fst (settled s))) c \<le> 1" by (simp only: calls_def count_union)
qed

lemma pending_not_settled: "calls_ok s \<Longrightarrow> c \<in> snd ` set (pending s) \<Longrightarrow> c \<notin> fst ` set (settled s)"
proof
  assume ok: "calls_ok s" and "c \<in> snd ` set (pending s)" "c \<in> fst ` set (settled s)"
  then have "c \<in># mset (map snd (pending s))" "c \<in># mset (map fst (settled s))" by simp_all
  then have "0 < count (mset (map snd (pending s))) c" "0 < count (mset (map fst (settled s))) c" by (simp_all only: count_greater_zero_iff)
  moreover have "count (calls s) c \<le> 1" using ok by (simp add: calls_ok_def)
  ultimately show False by (simp only: calls_def count_union)
qed

section \<open>Sockets\<close>

text \<open>The current socket exists and is not closed.\<close>

definition socket_ok :: "rpc_state \<Rightarrow> bool" where
  "socket_ok s \<longleftrightarrow> (\<forall>k. ws s = Some k \<longrightarrow> k < length (sockets s) \<and> readyState s k \<noteq> CLOSED)"

lemma ws_same [simp]:
  "ws (emit m p s) = ws s" "sockets (emit m p s) = sockets s" "reconnectTimer (emit m p s) = reconnectTimer s"
  "ws (settle_call c r s) = ws s" "sockets (settle_call c r s) = sockets s" "reconnectTimer (settle_call c r s) = reconnectTimer s"
  "ws (handle_response d s) = ws s" "sockets (handle_response d s) = sockets s" "reconnectTimer (handle_response d s) = reconnectTimer s"
  "ws (dispatch parse t s) = ws s" "sockets (dispatch parse t s) = sockets s" "reconnectTimer (dispatch parse t s) = reconnectTimer s"
  by (simp_all add: rpc_defs split: option.split stored.split)

lemma ws_close [simp]: "ws (on_close j s) = None" "sockets (on_close j s) = sockets s" "reconnectTimer (on_close j s) \<noteq> None"
  by (simp_all add: on_close_def scheduleReconnect_def Let_def split: option.split)

lemma connect_live: "socket_ok s \<Longrightarrow> socket_ok (connect s) \<and> (\<exists>k. ws (connect s) = Some k \<and> readyState (connect s) k \<in> {OPEN, CONNECTING})"
  by (auto simp: connect_def socket_ok_def nth_append split: option.splits)

lemma ensureConnected_ws:
  "ws (ensureConnected c m p s) = (if \<exists>k. ws s = Some k \<and> readyState s k \<notin> {CLOSED, CLOSING} then ws s else ws (connect s)) \<and>
   sockets (ensureConnected c m p s) = (if \<exists>k. ws s = Some k \<and> readyState s k \<notin> {CLOSED, CLOSING} then sockets s else sockets (connect s)) \<and>
   reconnectTimer (ensureConnected c m p s) = reconnectTimer s"
  by (auto simp: ensureConnected_def Let_def connect_def split: option.splits ready_state.split)

lemma socket_ok_step: "socket_ok s \<Longrightarrow> rpc_enabled e s \<Longrightarrow> socket_ok (rpc_step parse e s)"
proof (cases e)
  case (ERequest c m p)
  assume "socket_ok s"
  then show ?thesis using connect_live [of s] ensureConnected_ws [of c m p s] ERequest by (auto simp: socket_ok_def split: if_splits)
next
  case EReconnect
  assume "socket_ok s"
  then have "socket_ok (s\<lparr>reconnectTimer := None\<rparr>)" by (simp add: socket_ok_def)
  from connect_live [OF this] show ?thesis using EReconnect by (simp add: reconnect_fires_def)
qed (auto simp: socket_ok_def connect_live [unfolded socket_ok_def] disconnect_def request_continues_def connect_timeout_def
    on_def off_def socket_opens_def socket_closing_def socket_closed_def parseAndDispatch_def blob_read_def Let_def nth_list_update
    split: option.split raw_data.split prod.split)

lemma socket_ok_run: "rpc_run parse es s \<Longrightarrow> socket_ok s"
  by (induction rule: rpc_run.induct) (auto simp: socket_ok_step, simp add: socket_ok_def new_client_def)

section \<open>Reconnection\<close>

definition delay_ok :: "rpc_state \<Rightarrow> bool" where
  "delay_ok s \<longleftrightarrow> (\<forall>d. reconnectTimer s = Some d \<longrightarrow> 750 \<le> d \<and> d < 37500)"

lemma backoff_bounds:
  fixes j :: rat
  assumes "0 \<le> j" "j < 1"
  shows "750 \<le> min (1000 * 2 ^ n) 30000 * (3 / 4 + j * (1 / 2)) \<and> min (1000 * 2 ^ n) 30000 * (3 / 4 + j * (1 / 2)) < 37500"
proof -
  define b :: rat where "b = min (1000 * 2 ^ n) 30000"
  have "1000 \<le> b" "b \<le> 30000" by (simp_all add: b_def)
  moreover have "b * (3 / 4) \<le> b * (3 / 4 + j * (1 / 2))" "b * (3 / 4 + j * (1 / 2)) < b * (5 / 4)"
    using assms \<open>1000 \<le> b\<close> by (simp_all add: mult_strict_left_mono)
  ultimately show ?thesis unfolding b_def [symmetric] by linarith
qed

lemma delay_scheduleReconnect: "delay_ok s \<Longrightarrow> 0 \<le> j \<Longrightarrow> j < 1 \<Longrightarrow> delay_ok (scheduleReconnect j s)"
  using backoff_bounds [of j "reconnectAttempt s"]
  by (simp add: delay_ok_def scheduleReconnect_def Let_def del: min_less_iff_conj split: option.split)

lemma delay_on_close: "delay_ok s \<Longrightarrow> 0 \<le> j \<Longrightarrow> j < 1 \<Longrightarrow> delay_ok (on_close j s)"
  unfolding on_close_def Let_def by (rule delay_scheduleReconnect) (simp_all add: delay_ok_def)

lemma timer_same [simp]:
  "reconnectTimer (connect s) = reconnectTimer s" "reconnectTimer (close_ws s) = reconnectTimer s"
  "reconnectTimer (on_error k s) = reconnectTimer s" "reconnectTimer (request_continues i s) = reconnectTimer s"
  "ws (request_continues i s) = ws s" "sockets (request_continues i s) = sockets s"
  by (simp_all add: connect_def close_ws_def close_socket_def on_error_def request_continues_def Let_def split: option.split prod.split)

lemma delay_step: "delay_ok s \<Longrightarrow> rpc_enabled e s \<Longrightarrow> delay_ok (rpc_step parse e s)"
proof (cases e)
  case (EClosed k failed j)
  assume "delay_ok s" "rpc_enabled e s"
  then have "delay_ok (on_error k (s\<lparr>sockets := (sockets s)[k := CLOSED]\<rparr>))" "delay_ok (s\<lparr>sockets := (sockets s)[k := CLOSED]\<rparr>)"
    by (simp_all add: delay_ok_def)
  then show ?thesis using EClosed \<open>rpc_enabled e s\<close> by (simp add: socket_closed_def Let_def delay_on_close)
qed (simp_all add: delay_ok_def ensureConnected_ws disconnect_def connect_timeout_def on_def off_def socket_opens_def socket_closing_def
    parseAndDispatch_def blob_read_def reconnect_fires_def Let_def split: option.split raw_data.split)

definition starts :: "rpc_event \<Rightarrow> bool" where
  "starts e \<longleftrightarrow> (case e of EConnect \<Rightarrow> True | ERequest _ _ _ \<Rightarrow> True | _ \<Rightarrow> False)"

lemma reconnect_step:
  assumes "socket_ok s" "rpc_enabled e s" "e \<noteq> EDisconnect" "starts e \<or> ws s \<noteq> None \<or> reconnectTimer s \<noteq> None"
  shows "ws (rpc_step parse e s) \<noteq> None \<or> reconnectTimer (rpc_step parse e s) \<noteq> None"
proof -
  have "ws (connect s') \<noteq> None" for s' by (auto simp: connect_def split: option.split)
  moreover from this have "ws (ensureConnected c m p s) \<noteq> None" for c m p using ensureConnected_ws [of c m p s] by auto
  ultimately show ?thesis using assms(2-4)
    by (cases e) (auto simp: starts_def connect_timeout_def on_def off_def socket_opens_def socket_closing_def socket_closed_def
        parseAndDispatch_def blob_read_def reconnect_fires_def Let_def split: option.splits raw_data.splits)
qed

lemma reconnect_run:
  "rpc_run parse es s \<Longrightarrow> delay_ok s \<and> (EDisconnect \<notin> set es \<and> list_ex starts es \<longrightarrow> ws s \<noteq> None \<or> reconnectTimer s \<noteq> None)"
proof (induction rule: rpc_run.induct)
  case (rpc_event es s e)
  then show ?case using delay_step reconnect_step [OF socket_ok_run [OF rpc_event.hyps(1)] rpc_event.hyps(2), of parse] by auto
qed (simp add: delay_ok_def new_client_def)

section \<open>Concrete runs\<close>

fun rpc_exec :: "(string \<Rightarrow> stored option) \<Rightarrow> rpc_event list \<Rightarrow> rpc_state option" where
  "rpc_exec parse [] = Some new_client"
| "rpc_exec parse (e # es) = Option.bind (rpc_exec parse es) (\<lambda>s. if rpc_enabled e s then Some (rpc_step parse e s) else None)"

lemma rpc_run_exec: "rpc_exec parse es = Some s \<Longrightarrow> rpc_run parse es s"
  by (induction es arbitrary: s) (auto simp: bind_eq_Some_conv intro: rpc_run.intros split: if_splits)

lemmas rpc_eval = rpc_defs new_client_def calls_def METHOD_SKIP_PROJECT_def injectProjectId_def nth_append

section \<open>Properties\<close>

text \<open>C10: Every call that was made is in exactly one place: waiting for a socket, about to be sent, pending, or settled. So no
  promise is lost and none is settled twice. Ids are never reused, and a call that was sent is pending under its own id until
  it is settled.\<close>

theorem rpc_calls_once:
  assumes "rpc_run parse es s"
  shows "distinct (map fst (settled s)) \<and> distinct (map (\<lambda>(_, n, _). n) (sent s)) \<and>
    (\<forall>c m p. ERequest c m p \<in> set es \<longrightarrow> count (calls s) c = 1) \<and>
    (\<forall>k n m p c. (k, n, m, p, c) \<in> set (sent s) \<longrightarrow> c \<in> fst ` set (settled s) \<or> map_of (pending s) (show_nat n) = Some c)"
proof -
  note ok = calls_ok_run [OF assms]
  then have ids: "ids_ok (nextId s) (pending s) (sent s) (fst ` set (settled s))" by (simp add: calls_ok_def)
  have "count (calls s) c = 1" if "ERequest c m p \<in> set es" for c m p
    using calls_made [OF assms that] ok by (simp add: calls_ok_def le_antisym Suc_le_eq)
  moreover have "c \<in> fst ` set (settled s) \<or> map_of (pending s) (show_nat n) = Some c" if "(k, n, m, p, c) \<in> set (sent s)" for k n m p c
    using ids_ok_sent [OF ids that] by blast
  ultimately show ?thesis using settled_once [OF ok] ids by (auto simp: ids_ok_def)
qed

text \<open>A call that is sent, and the response to it.\<close>

definition demo_parse :: "string \<Rightarrow> stored option" where
  "demo_parse t = (if t = ''r'' then Some (SObj [(''id'', SNum 1), (''result'', SStr ''ok'')]) else None)"

definition demo_events :: "rpc_event list" where
  "demo_events = [EContinue 0, EOpen 0, ERequest 7 ''thread/list'' SUndef]"

definition demo_sent :: rpc_state where "demo_sent = the (rpc_exec demo_parse demo_events)"

lemma demo_facts:
  "rpc_exec demo_parse demo_events \<noteq> None" "sent demo_sent = [(0, 1, ''thread/list'', SUndef, 7)]" "settled demo_sent = []"
  "sockets demo_sent = [OPEN]"
  unfolding demo_sent_def by code_simp+

lemma demo_run: "rpc_run demo_parse demo_events demo_sent"
  using demo_facts(1) by (auto simp: demo_sent_def intro: rpc_run_exec)

theorem rpc_calls_once_witness: "rpc_run demo_parse demo_events demo_sent \<and> count (calls demo_sent) 7 = 1"
  using rpc_calls_once [OF demo_run] demo_run by (auto simp: demo_events_def)

text \<open>C11: A response settles the call whose request carried its id, with the result or the error that it carries, unless that
  call is settled already, and no other call.\<close>

theorem rpc_response_routed:
  assumes "rpc_run parse es s" "(k, n, m, p, c) \<in> set (sent s)"
    and "parse t = Some d" "isRecord d" "getp ''id'' d = SNum (of_nat n)"
  shows "settled (parseAndDispatch parse (RText t) s) =
    settled s @ (if c \<in> fst ` set (settled s) then [] else [(c, response_outcome d)])"
proof -
  note ok = calls_ok_run [OF assms(1)]
  then have ids: "ids_ok (nextId s) (pending s) (sent s) (fst ` set (settled s))" by (simp add: calls_ok_def)
  have key: "id_string (getp ''id'' d) = Some (show_nat n)" using assms(5) by simp
  have "hasp ''id'' d" using assms(5) by (auto simp: hasp_def getp_def split: option.splits)
  then have step: "parseAndDispatch parse (RText t) s = handle_response d s"
    using assms(3-5) by (simp add: parseAndDispatch_def dispatch_def)
  show ?thesis
  proof (cases "map_of (pending s) (show_nat n)")
    case None
    then have "c \<in> fst ` set (settled s)" using ids_ok_sent [OF ids assms(2)] by simp
    then show ?thesis using None step key by (simp add: handle_response_def)
  next
    case (Some c')
    with ids assms(2) have "c' = c" by (rule ids_ok_owner)
    moreover have "c \<notin> fst ` set (settled s)"
      using pending_not_settled [OF ok] Some \<open>c' = c\<close> map_of_SomeD by force
    ultimately show ?thesis using Some step key by (simp add: handle_response_def settle_call_def)
  qed
qed

theorem rpc_response_routed_witness:
  "settled (parseAndDispatch demo_parse (RText ''r'') demo_sent) = [(7, Resolved (SStr ''ok''))]"
  using rpc_response_routed [OF demo_run, of 0 1 "''thread/list''" SUndef 7 "''r''" "SObj [(''id'', SNum 1), (''result'', SStr ''ok'')]"]
  by (simp add: demo_facts demo_parse_def response_outcome_def getp_def)

text \<open>When a socket closes, every call that was ever sent is settled, nothing is pending, and the timer of the next
  attempt is set; a failed connection also rejects the calls that waited for it.\<close>

theorem rpc_close_settles:
  assumes "rpc_run parse es s" "rpc_enabled (EClosed k failed jitter) s"
  shows "let s' = rpc_step parse (EClosed k failed jitter) s in
    pending s' = [] \<and> (\<forall>(_, _, _, _, c) \<in> set (sent s'). c \<in> fst ` set (settled s')) \<and> reconnectTimer s' \<noteq> None \<and>
    (failed \<longrightarrow> (\<forall>w \<in> set (waiting s'). \<not> waits_for k w))"
proof -
  let ?s = "rpc_step parse (EClosed k failed jitter) s"
  have run: "rpc_run parse (EClosed k failed jitter # es) ?s" using assms by (rule rpc_run.rpc_event)
  have pend: "pending ?s = []"
    by (simp add: socket_closed_def on_close_def scheduleReconnect_def Let_def split: option.split)
  moreover have "\<forall>(_, _, _, _, c) \<in> set (sent ?s). c \<in> fst ` set (settled ?s)"
    using calls_ok_run [OF run] pend unfolding calls_ok_def ids_ok_def by auto
  moreover have "reconnectTimer ?s \<noteq> None" by (simp add: socket_closed_def Let_def)
  moreover have "failed \<longrightarrow> (\<forall>w \<in> set (waiting ?s). \<not> waits_for k w)"
    by (auto simp: socket_closed_def on_close_def on_error_def emit_def scheduleReconnect_def Let_def split: option.splits)
  ultimately show ?thesis by (simp add: Let_def)
qed

theorem rpc_close_settles_witness:
  "pending (rpc_step demo_parse (EClosed 0 True 0) demo_sent) = [] \<and> rpc_enabled (EClosed 0 True 0) demo_sent"
  using rpc_close_settles [OF demo_run, of 0 True 0] by (simp add: demo_facts Let_def)

text \<open>C12: As long as nobody calls \<open>disconnect\<close>, a client that was started always has a socket that is not closed or waits for
  the next attempt, for at least three quarters of a second and less than 37.5 seconds; when that timer fires, it has a
  socket that is open or opening.\<close>

theorem rpc_keeps_reconnecting:
  assumes "rpc_run parse es s" "EDisconnect \<notin> set es" "list_ex starts es"
  shows "((\<exists>k < length (sockets s). ws s = Some k \<and> readyState s k \<noteq> CLOSED) \<or> reconnectTimer s \<noteq> None) \<and>
    (\<forall>d. reconnectTimer s = Some d \<longrightarrow> 750 \<le> d \<and> d < 37500) \<and>
    (let s' = rpc_step parse EReconnect s in \<exists>k. ws s' = Some k \<and> readyState s' k \<in> {OPEN, CONNECTING})"
proof -
  have ok: "socket_ok s" using assms(1) by (rule socket_ok_run)
  then have "socket_ok (s\<lparr>reconnectTimer := None\<rparr>)" by (simp add: socket_ok_def)
  from connect_live [OF this] show ?thesis using reconnect_run [OF assms(1)] assms(2,3) ok
    by (auto simp: reconnect_fires_def Let_def socket_ok_def delay_ok_def)
qed

theorem rpc_keeps_reconnecting_witness:
  "EDisconnect \<notin> set demo_events \<and> list_ex starts demo_events \<and>
   (\<exists>k. ws (rpc_step demo_parse EReconnect demo_sent) = Some k \<and> readyState (rpc_step demo_parse EReconnect demo_sent) k \<in> {OPEN, CONNECTING})"
  using rpc_keeps_reconnecting [OF demo_run] by (simp add: demo_events_def starts_def Let_def)

text \<open>The handlers of a socket act on the client's current socket, whichever it is. (1) A call made while the server
  closes the old socket opens a new one; when the old one then closes, the call, already sent on the new socket, is rejected
  as disconnected, and the new socket stays open but is forgotten, so that the next call opens a third. (2) After
  \<open>disconnect\<close> the closing of the socket sets the timer again, and the client reconnects.\<close>

theorem rpc_socket_confusion:
  "(\<exists>s. rpc_run parse [EClosed 0 False 0, EContinue 0, EOpen 1, ERequest 7 ''thread/list'' SUndef, EClosing 0, EOpen 0, EConnect] s \<and>
      settled s = [(7, Rejected (Failed ''WebSocket disconnected''))] \<and> map fst (sent s) = [1] \<and> readyState s 1 = OPEN \<and> ws s = None \<and>
      ws (rpc_step parse (ERequest 8 ''thread/list'' SUndef) s) = Some 2) \<and>
   (\<exists>s. rpc_run parse [EReconnect, EClosed 0 False 0, EDisconnect, EOpen 0, EConnect] s \<and> ws s = Some 1)"
proof (intro conjI)
  let ?es = "[EClosed 0 False 0, EContinue 0, EOpen 1, ERequest 7 ''thread/list'' SUndef, EClosing 0, EOpen 0, EConnect]"
  have "map_option (\<lambda>s. (settled s, map fst (sent s), sockets s, ws s)) (rpc_exec parse ?es) =
      Some ([(7, Rejected (Failed ''WebSocket disconnected''))], [1], [CLOSED, OPEN], None)"
    by code_simp
  then obtain s where s: "rpc_exec parse ?es = Some s" "settled s = [(7, Rejected (Failed ''WebSocket disconnected''))]"
      "map fst (sent s) = [1]" "sockets s = [CLOSED, OPEN]" "ws s = None"
    by auto
  then have "ws (rpc_step parse (ERequest 8 ''thread/list'' SUndef) s) = Some 2" by (simp add: ensureConnected_ws connect_def)
  moreover have "readyState s 1 = OPEN" using s(4) by simp
  ultimately show "\<exists>s. rpc_run parse ?es s \<and> settled s = [(7, Rejected (Failed ''WebSocket disconnected''))] \<and> map fst (sent s) = [1] \<and>
      readyState s 1 = OPEN \<and> ws s = None \<and> ws (rpc_step parse (ERequest 8 ''thread/list'' SUndef) s) = Some 2"
    using rpc_run_exec [OF s(1)] s by - (intro exI [of _ s] conjI)
next
  have "map_option ws (rpc_exec parse [EReconnect, EClosed 0 False 0, EDisconnect, EOpen 0, EConnect]) = Some (Some 1)" by code_simp
  then show "\<exists>s. rpc_run parse [EReconnect, EClosed 0 False 0, EDisconnect, EOpen 0, EConnect] s \<and> ws s = Some 1"
    by (auto intro: rpc_run_exec simp del: rpc_exec.simps)
qed

text \<open>Every method outside the list of global ones is sent with a project: the caller's own if it gave one, otherwise the
  one of the provider; the other parameters are as the caller gave them, and a method of the list, or a client without a
  project, sends exactly the caller's parameters. The HTTP client sends the same parameters.\<close>

theorem rpc_project_scope:
  fixes params :: stored
  assumes "params = SUndef \<or> (\<exists>kvs. params = SObj kvs)"
  shows "(m \<in> set METHOD_SKIP_PROJECT \<or> prov = None \<or> prov = Some None \<longrightarrow> injectProjectId m params prov = params) \<and>
    (truthy (getp ''projectId'' params) \<longrightarrow> injectProjectId m params prov = params) \<and>
    (m \<notin> set METHOD_SKIP_PROJECT \<and> prov = Some (Some p) \<and> p \<noteq> [] \<and> \<not> truthy (getp ''projectId'' params) \<longrightarrow>
       getp ''projectId'' (injectProjectId m params prov) = SStr p) \<and>
    (\<forall>k. k \<noteq> ''projectId'' \<longrightarrow> getp k (injectProjectId m params prov) = getp k params) \<and>
    httpRequest parse prov l fetch m params = httpRequest parse None l fetch m (injectProjectId m params prov)"
proof -
  have put: "getp k (put j x v) = (if k = j then x else getp k v)" for k j x and v :: stored
    by (simp add: getp_def put_def update_conv' split: option.split)
  have [simp]: "getp k SUndef = SUndef" for k by (simp add: getp_def)
  have "injectProjectId m v None = v" for v by (simp add: injectProjectId_def)
  then have "httpRequest parse prov l fetch m params = httpRequest parse None l fetch m (injectProjectId m params prov)"
    by (simp add: httpRequest_def)
  then show ?thesis using assms by (auto simp: injectProjectId_def put Let_def split: option.splits)
qed

theorem rpc_project_scope_witness:
  "getp ''projectId'' (injectProjectId ''thread/list'' (SObj [(''a'', SNum 1)]) (Some (Some ''p1''))) = SStr ''p1'' \<and>
   getp ''a'' (injectProjectId ''thread/list'' (SObj [(''a'', SNum 1)]) (Some (Some ''p1''))) = SNum 1"
  using rpc_project_scope [of "SObj [(''a'', SNum 1)]" "''thread/list''" "Some (Some ''p1'')" "''p1''"]
  by (simp add: METHOD_SKIP_PROJECT_def getp_def)

end
