(* ===== verification/Spec2Isabelle.thy ===== *)
theory Spec2Isabelle
  imports Clipboard Redo Caption_Proofs Custom_Mask_Proofs Keyframe_Query Update_Pipeline Group_Resize Group_Move Snapping Media_Library Timeline_Manager Playback Saving Migration_Theorems Canvas_Bridge_Proofs Rpc_Proofs
begin

text \<open>
  This development models the program logic of two TypeScript applications: the video editor
  (\<open>web-editor-next/src\<close>) and, of the workspace in which an agent works with it (\<open>web/src/features\<close>), the canvas and
  the connection to the server. The theorems are about these definitions, each of which translates the function
  of the same name, or the part of a function that its text names.

  \<^bold>\<open>The parts of the program and how they interact.\<close> A project has scenes, a scene has a main track, overlay tracks and
  audio tracks, and a track has elements with times in integer ticks. The user's operations are commands: the command
  manager (\<open>core/managers/commands.ts\<close>) executes them on the editor core, closes gaps when ripple editing is on, runs the
  reactors, and keeps what is needed to undo and redo. Placement, group move, group resize, snapping and the update
  pipeline compute what a command changes. Elements carry keyframes, effects and masks; a path names the property or
  parameter that keyframes animate. The clipboard copies elements and keyframes and pastes them by commands, and a
  subtitle file becomes a track of text elements. The timeline manager shows a preview of changes
  that are not committed yet, the playback manager moves the playhead, the save manager writes the project after changes,
  and when a project is opened the migrations bring its stored record to the current version. In the workspace, the RPC
  client connects to the server; its notifications go to the bridge, which draws the conversation with the agent on the
  canvas; the canvas store keeps the graph with its history, lays it out, saves and loads it.

  \<^bold>\<open>Foundations.\<close>
  \<^item> \<open>Prelude\<close>: lists, options and keyed collections as JavaScript has them; the locale \<open>keyed_collection\<close> states what
    lookup and update by id promise. \<open>Timeline\<close> interprets it on tracks and on elements.
  \<^item> \<open>Js_Strings\<close>: trimming, case, digits, splitting and joining of strings.
  \<^item> \<open>Media_Time\<close>: ticks, rounding and constant-rate retiming (\<open>wasm/media-time.ts\<close>, \<open>retime\<close>).

  \<^bold>\<open>Keyframes.\<close>
  \<^item> \<open>Animation\<close>: channels, their normal form and values (\<open>animation/interpolation.ts\<close>, \<open>bezier.ts\<close>); the locale
    \<open>channel_normal_form\<close>, interpreted on scalar and on discrete channels, states what normalising promises.
  \<^item> \<open>Keyframes\<close>: the operations of \<open>animation/keyframes.ts\<close> keep the invariant; splitting preserves values.
  \<^item> \<open>Keyframe_Query\<close>: reading keyframes, paths of parameters, snap points of keyframes and the edges of a group.
  \<^item> \<open>Animation_Targets\<close>: the registry of animatable properties (\<open>timeline/animation-properties.ts\<close>), the parameters of
    effects and graphics with their registries (\<open>params\<close>, \<open>effects\<close>, \<open>graphics\<close>) and the targets of paths
    (\<open>timeline/animation-targets.ts\<close>). The locale \<open>field_lens\<close>, interpreted on paths into objects, and the locale
    \<open>property_law\<close>, proved of every entry of the registry, state what reading and writing a base value promise.
  \<^item> \<open>Custom_Mask\<close>, \<open>Custom_Mask_Proofs\<close>: paths of custom masks (\<open>masks/custom-path.ts\<close>); a point inserted into a segment does
    not change the outline. The locale \<open>rotation\<close> states what is used of sine and cosine; it is interpreted on degrees.
  \<^item> \<open>Attribute_Commands\<close>, \<open>Attribute_Proofs\<close>: the commands on effects, masks and keyframes; they keep elements in their
    place and keyframes inside their element, and a removed keyframe leaves its value behind.

  \<^bold>\<open>Timeline.\<close>
  \<^item> \<open>Timeline\<close> (\<open>timeline/types.ts\<close> and its queries) with the well-formedness of tracks; \<open>Placement\<close>
    (\<open>timeline/placement\<close>), \<open>Update_Pipeline\<close>, \<open>Ripple\<close> (\<open>ripple\<close>; interval subtraction refines set difference),
    \<open>Group_Resize\<close>, \<open>Snapping\<close>, \<open>Group_Move\<close> with the command that applies a move, \<open>Selection\<close>, and \<open>Scenes\<close> with the
    bookmarks.
  \<^item> \<open>Element_Commands\<close>, \<open>Insert_Commands\<close>: delete, split, duplicate, tracks, insert, paste and separation of audio;
    every command keeps the tracks well-formed, a split conserves the source, a paste reproduces the copied group.

  \<^bold>\<open>Editor.\<close>
  \<^item> \<open>Undo_Stack\<close>: the locale \<open>undo_stack\<close> derives from single commands that undo themselves that whole histories do.
    \<open>Editor\<close> models the command manager, the editor core and the scene commands, and interprets the locale on commands
    and on entries of the history. \<open>Redo\<close>: a redone split draws new ids, which the commands after it do not name.
  \<^item> \<open>Clipboard\<close>: the handlers of elements and keyframes, which interpret the locale \<open>clipboard_handler\<close>, and the manager:
    what was copied can be pasted, and a paste can be undone; keyframes are pasted beside the playhead.
  \<^item> \<open>Subtitles\<close>, \<open>Subtitle_Proofs\<close>: the parsers of SRT and ASS files; cues are proper ones, and a file in the usual SRT form
    is read back exactly. \<open>Subtitle_Elements\<close>, \<open>Caption_Proofs\<close>: the text element of a cue (\<open>subtitles\<close>, \<open>text/layout.ts\<close>) and
    the track of a file; wrapping keeps the words, a caption stays between its margins, and all cues arrive.
  \<^item> \<open>Project\<close>, \<open>Media_Library\<close>, \<open>Timeline_Manager\<close>: settings and frame rates, adding and removing media, and the preview.
  \<^item> \<open>Playback\<close> and \<open>Saving\<close>: step relations over user actions, timers and results of saves, with invariants by rule
    induction, and theorems that playback ends and that a change is saved. \<open>Saving\<close> keeps the scenes and the project object
    apart: the latter is read before a save and assigned again after it, so a change of it meanwhile is lost.
  \<^item> This theory: deletion with ripple editing through the command manager.

  \<^bold>\<open>Stored projects.\<close>
  \<^item> \<open>Stored_Record\<close>: JavaScript values of unknown shape. \<open>Migrations_Early\<close>, \<open>Migrations_Middle\<close>, \<open>Migrations_Late\<close>: the
    transformers of \<open>services/storage/migrations\<close> from version 0 to 28. \<open>Migration_Runner\<close>: the runner with failing writes.
  \<^item> \<open>Migration_Steps\<close>, \<open>Migration_Theorems\<close>: what each step guarantees; the locale \<open>migration_chain\<close>, interpreted on the
    list of migrations, composes the steps: every eligible project reaches the last version with the shape its readers
    expect, and a failed write leaves a project that can be migrated again.

  \<^bold>\<open>Workspace.\<close>
  \<^item> \<open>Canvas_Layout\<close> (\<open>canvas/layout.ts\<close>) and \<open>Canvas_Layout_Proofs\<close>: the automatic layout loses and changes no node, and
    the layered layout lets no two nodes overlap.
  \<^item> \<open>Canvas_Store\<close> (\<open>canvas/store.ts\<close>, \<open>persistence.ts\<close>, the keys of \<open>CanvasView.tsx\<close>) and \<open>Canvas_Store_Proofs\<close>: every
    operation keeps ids unique and edges attached, undo and redo show the committed states, grouping moves nothing on the
    screen, and a canvas rebuilt from a thread is a tree.
  \<^item> \<open>Media_Extract\<close> (\<open>media/extractMedia.ts\<close>, \<open>canvas/mediaCache.ts\<close>): the media that the result of a tool names.
  \<^item> \<open>Canvas_Bridge\<close> (\<open>canvas/SessionCanvasBridge.ts\<close>, \<open>useCanvasBridge.ts\<close>) and \<open>Canvas_Bridge_Proofs\<close>: during a
    conversation the canvas is one connected graph, an answer is shown completely and once, and events that arrive while a
    canvas loads are kept.
  \<^item> \<open>Rpc_Client\<close> (\<open>rpc/client.ts\<close>, \<open>scope.ts\<close>, \<open>httpRpc.ts\<close>) and \<open>Rpc_Proofs\<close>: sockets, calls, messages and timers as a step
    relation; every call is settled at most once and by its own response, a disconnection settles all calls, and the
    client keeps reconnecting.

  \<^bold>\<open>Parameters.\<close> Code that is not in the repository is an argument of the definitions that use it: the functions of
  \<open>opencut-wasm\<close> (the record \<open>wasm_api\<close>, with what is used of them as named hypotheses), new ids (a supply and a
  counter), the colour parser and printer of culori, which the record \<open>wasm_api\<close> carries too for the commands, the metadata that
  the browser reads of media, and the width that a canvas measures for a text. So are host functions
  whose result the program does not determine: \<open>Math\<close> functions on floats, \<open>JSON.parse\<close> and \<open>JSON.stringify\<close>,
  \<open>localeCompare\<close>, the parsing of dates, the current time, \<open>Math.random\<close> and the outcome of requests and writes.

  \<^bold>\<open>Choices.\<close> Numbers that the program keeps integral are \<open>int\<close>; other numbers are rationals, so that rounding happens where
  the program rounds and nowhere else. Errors are values. Loops are total functions with termination proofs (the visit
  of a component and the layering in \<open>Canvas_Layout\<close> by a measure on what is left to visit); the bezier solver runs its 20
  iterations as the code does, histories are bounded by 50 as in the code, and no definition uses fuel. Asynchronous code
  is cut at its awaits into operations, and the orders in which they may run are the traces of a step relation.

  \<^bold>\<open>Not modelled.\<close> React components, pointer handling and drawing, with the handles of masks and the passes of effects;
  gradients, fonts, stickers and speech recognition; the storage service and the audio and render managers, which are calls
  of browser interfaces; keyboard actions; the chat and the forms of the workspace; the server, which is written in Go.
\<close>

section \<open>Deleting with ripple\<close>

lemma delete_keeps:
  assumes "distinct (all_element_ids ts)" "\<forall>r \<in> set refs. find_ref ts r \<noteq> None"
  shows "out_tracks (deleteElements refs ts) = Some (keep_in_tracks (\<lambda>e. elementId e \<notin> ref_elementId ` set refs) ts)"
proof -
  have "removeTrackElements refs tr = keep_elements (\<lambda>e. elementId e \<notin> ref_elementId ` set refs) tr"
    if tr: "tr \<in> set (orderedTracks ts)" for tr
  proof -
    have "ref_trackId r = trackId tr" if r: "r \<in> set refs" and e: "e \<in> set (elements tr)" "ref_elementId r = elementId e" for r e
    proof -
      obtain tr' e' where f: "find_ref ts r = Some (tr', e')" using assms(2) r by fastforce
      note ff = find_ref_Some [OF f]
      have "elementId e' = elementId e" using ff(5) e(2) by simp
      then have "tr' = tr" using unique_track [OF assms(1) ff(2,3) tr e(1)] by blast
      then show ?thesis using ff(4) by simp
    qed
    then have "list_ex (\<lambda>r. ref_trackId r = trackId tr \<and> ref_elementId r = elementId e) refs
        \<longleftrightarrow> elementId e \<in> ref_elementId ` set refs" if "e \<in> set (elements tr)" for e
      unfolding list_ex_iff image_iff using that by metis
    then show ?thesis by (simp add: removeTrackElements_def keep_elements_def cong: filter_cong)
  qed
  then show ?thesis by (simp add: deleteElements_def keep_in_tracks_def orderedTracks_def)
qed

lemma no_overlap_prune: "tracks_no_overlap ts \<Longrightarrow> tracks_no_overlap (prune_tracks ts)"
  by (auto simp: tracks_no_overlap_def orderedTracks_def prune_tracks_def list_all_iff)

text \<open>C3: Deleting with ripple editing on, through the command manager: the command succeeds, every
  remaining element moves left by the total duration of the deleted elements that ended before it
  on its track, tracks left without elements are removed except the main one, no two elements
  overlap, and nothing stays selected.\<close>
theorem ripple_delete_command:
  assumes "active (ed m) = Some s" "isRippleEnabled (ed m)"
    and "tracks_wf (tracks s)" "distinct (all_element_ids (tracks s))" "\<forall>r \<in> set refs. find_ref (tracks s) r \<noteq> None"
    and "\<forall>tr \<in> set (orderedTracks (tracks s)). \<forall>e \<in> set (elements tr). 0 < duration e"
  shows "\<exists>m' s' ts'. manager_execute w gen (TimelineCommand (DeleteElementsCommand refs) saved) m = (None, m')
    \<and> active (ed m') = Some s' \<and> tracks s' = prune_tracks ts'
    \<and> orderedTracks ts' = map (\<lambda>tr. tr\<lparr>elements := ripple_deleted (\<lambda>e. elementId e \<notin> ref_elementId ` set refs) (elements tr)\<rparr>)
        (orderedTracks (tracks s))
    \<and> tracks_no_overlap (tracks s') \<and> selection (ed m') = empty_selection"
proof -
  let ?ts = "tracks s" and ?P = "\<lambda>e. elementId e \<notin> ref_elementId ` set refs"
  let ?after = "keep_in_tracks ?P ?ts"
  let ?ts' = "applyRippleAdjustments ?after (computeRippleAdjustments ?ts ?after)"
  have w: "tracks_ids_ok ?ts" "tracks_no_overlap ?ts" using assms(3) by (simp_all add: tracks_wf_def)
  have eq: "orderedTracks ?ts' = map (\<lambda>tr. tr\<lparr>elements := ripple_deleted ?P (elements tr)\<rparr>) (orderedTracks ?ts)"
    by (rule ripple_delete_tracks [OF w assms(4,6)])
  have no: "tracks_no_overlap ?ts'"
    using w(2) assms(6) by (auto simp: tracks_no_overlap_def eq list_all_iff intro!: ripple_deleted_no_overlap)
  have del: "deleteElements refs ?ts = updated ?after (Some (createElementSelectionResult []))"
    using delete_keeps [OF assms(4,5)] by (simp add: deleteElements_def)
  define e0 where "e0 = begin_command (ed m)"
  have e0: "active e0 = Some s" "isRippleEnabled e0" using assms(1,2) by (simp_all add: e0_def)
  define e1 where "e1 = updateTracks ?after e0"
  have e1: "active e1 = Some (s\<lparr>tracks := ?after\<rparr>)" "isRippleEnabled e1"
    by (simp_all add: e1_def updateTracks_active [OF e0(1)] e0(2))
  have rip: "applyRippleIfEnabled (Some ?ts) e1 = updateTracks ?ts' e0"
    by (cases "computeRippleAdjustments ?ts ?after = []")
      (simp_all add: applyRippleIfEnabled_def e1 applyRippleAdjustments_def, simp_all add: e1_def)
  let ?e2 = "(updateTracks ?ts' e0)\<lparr>selection := empty_selection\<rparr>"
  have sel: "applySelectionPatch (createElementSelectionResult []) x = empty_selection" for x
    by (simp add: applySelectionPatch_def createElementSelectionResult_def empty_selection_def)
  obtain m' where m': "manager_execute w gen (TimelineCommand (DeleteElementsCommand refs) saved) m = (None, m')"
    "ed m' = run_reactors ?e2"
    using e0 rip unfolding manager_execute_def e0_def [symmetric] execute_delete [OF e0(1) del]
    by (simp add: perform_def Let_def ripple_snapshot_def applySelectionOverride_def sel e1_def)
  have "active ?e2 = Some (s\<lparr>tracks := ?ts'\<rparr>)" by (simp add: updateTracks_active [OF e0(1)])
  from run_reactors_active [OF this] obtain s' where s': "active (run_reactors ?e2) = Some s'" "tracks s' = prune_tracks ?ts'"
    by auto
  have "selection (run_reactors ?e2) = empty_selection" by (simp add: run_reactors_def Let_def split: option.splits)
  then show ?thesis using m' s' eq no_overlap_prune [OF no] by auto
qed

definition demo_long_manager :: manager where
  "demo_long_manager = (demo_manager True)\<lparr>ed := (ed (demo_manager True))\<lparr>active := Some (demo_scene\<lparr>tracks := demo_long\<rparr>),
     scene_list := [demo_scene\<lparr>tracks := demo_long\<rparr>]\<rparr>\<rparr>"

theorem ripple_delete_command_witness:
  "\<forall>w. \<exists>m' s' ts'. manager_execute w demo_supply (TimelineCommand (DeleteElementsCommand [\<lparr>ref_trackId = ''m'', ref_elementId = ''b''\<rparr>]) None)
      demo_long_manager = (None, m') \<and> active (ed m') = Some s' \<and> tracks s' = prune_tracks ts'
    \<and> map startTime (elements (main ts')) = [0, 15]"
proof
  fix w
  let ?refs = "[\<lparr>ref_trackId = ''m'', ref_elementId = ''b''\<rparr>]"
  have a: "active (ed demo_long_manager) = Some (demo_scene\<lparr>tracks := demo_long\<rparr>)" "isRippleEnabled (ed demo_long_manager)"
    by (simp_all add: demo_long_manager_def demo_manager_def)
  have d: "tracks_wf demo_long" "distinct (all_element_ids demo_long)"
    "\<forall>tr \<in> set (orderedTracks demo_long). \<forall>e \<in> set (elements tr). 0 < duration e" "\<forall>r \<in> set ?refs. find_ref demo_long r \<noteq> None"
    by (simp_all add: demo_long_def demo_element_def tracks_wf_def tracks_typed_def track_typed_def find_ref_def
        findTrackInSceneTracks_def tracks_ids_ok_def tracks_no_overlap_def orderedTracks_def no_overlap_def canElementGoOnTrack_def
        elementEnd_def all_element_ids_def)
  obtain m' s' ts' where r: "manager_execute w demo_supply (TimelineCommand (DeleteElementsCommand ?refs) None) demo_long_manager = (None, m')"
    "active (ed m') = Some s'" "tracks s' = prune_tracks ts'"
    "orderedTracks ts' = map (\<lambda>tr. tr\<lparr>elements := ripple_deleted (\<lambda>e. elementId e \<notin> ref_elementId ` set ?refs) (elements tr)\<rparr>)
        (orderedTracks demo_long)"
    using ripple_delete_command [OF a, of ?refs w demo_supply None] d by auto
  have "overlay ts' @ main ts' # audio ts' = [(main demo_long)\<lparr>elements := ripple_deleted (\<lambda>e. elementId e \<notin> ref_elementId ` set ?refs)
      (elements (main demo_long))\<rparr>]" using r(4) by (simp add: orderedTracks_def demo_long_def)
  then have "main ts' = (main demo_long)\<lparr>elements := ripple_deleted (\<lambda>e. elementId e \<notin> ref_elementId ` set ?refs) (elements (main demo_long))\<rparr>"
    by (cases "overlay ts'") auto
  then have "map startTime (elements (main ts')) = [0, 15]"
    by (simp add: demo_long_def demo_element_def ripple_deleted_def shift_start_def elementEnd_def)
  then show "\<exists>m' s' ts'. manager_execute w demo_supply (TimelineCommand (DeleteElementsCommand ?refs) None) demo_long_manager = (None, m')
    \<and> active (ed m') = Some s' \<and> tracks s' = prune_tracks ts' \<and> map startTime (elements (main ts')) = [0, 15]"
    using r(1-3) by (intro exI conjI)
qed

end
